(* ===== verification/Prelude.thy ===== *)
theory Prelude
  imports Main "HOL-Library.Word"
begin

text \<open>
  Shared vocabulary of the development: the C++ fixed-width integers as words, byte buffers as
  lists of bytes, the buffer-writing loops the codecs of the firmware use, little-endian reads
  and writes, the wrap-around clock comparison, and the generic lemmas on them.

  A \<^verbatim>\<open>const uint8_t*\<close> with its length is a list of bytes; a pointer that the code compares with
  \<^verbatim>\<open>nullptr\<close> is an optional list.  Reads beyond the end of a list are unspecified in HOL, as they
  are undefined in C++: every modelled function guards its reads by the length checks of the source.
\<close>

unbundle bit_operations_syntax

type_synonym u8 = "8 word"
type_synonym u16 = "16 word"
type_synonym u32 = "32 word"
type_synonym u64 = "64 word"
type_synonym bytes = "u8 list"

declare Let_def [simp]

named_theorems buffer_simps \<open>lengths and reads of written buffers\<close>
named_theorems enum_simps \<open>numeric codes of the enumerations\<close>

subsection \<open>Buffer loops\<close>

text \<open>
  \<open>copyBytes dst off src n\<close> is the loop
  \<^verbatim>\<open>for (i = 0; i < n; ++i) dst[off + i] = src[i];\<close>
  and \<open>fillZero n\<close> is an array of \<open>n\<close> zero bytes, the value of \<^verbatim>\<open>uint8_t x[n] = {}\<close>.
\<close>

primrec copyBytes :: "bytes \<Rightarrow> nat \<Rightarrow> bytes \<Rightarrow> nat \<Rightarrow> bytes" where
  "copyBytes dst off src 0 = dst"
| "copyBytes dst off src (Suc n) = (copyBytes dst off src n)[off + n := src ! n]"

definition fillZero :: "nat \<Rightarrow> bytes" where
  "fillZero n = replicate n 0"

text \<open>\<open>slice off n buf\<close> are the \<open>n\<close> bytes that start at \<open>buf + off\<close>.\<close>

definition slice :: "nat \<Rightarrow> nat \<Rightarrow> bytes \<Rightarrow> bytes" where
  "slice off n buf = take n (drop off buf)"

lemma length_copyBytes [simp, buffer_simps]: "length (copyBytes dst off src n) = length dst"
  by (induction n) auto

lemma nth_copyBytes [buffer_simps]:
  "i < length dst \<Longrightarrow>
   copyBytes dst off src n ! i = (if off \<le> i \<and> i < off + n then src ! (i - off) else dst ! i)"
  by (induction n) (auto simp: nth_list_update less_Suc_eq)

lemma length_fillZero [simp, buffer_simps]: "length (fillZero n) = n"
  by (simp add: fillZero_def)

lemma nth_fillZero [simp, buffer_simps]: "i < n \<Longrightarrow> fillZero n ! i = 0"
  by (simp add: fillZero_def)

lemma length_slice [simp]: "length (slice off n buf) = min n (length buf - off)"
  by (simp add: slice_def)

lemma nth_slice: "i < n \<Longrightarrow> off + i < length buf \<Longrightarrow> slice off n buf ! i = buf ! (off + i)"
  by (simp add: slice_def)

lemma slice_eqI:
  assumes "off + n \<le> length buf" and "n = length bs"
    and "\<And>i. i < n \<Longrightarrow> buf ! (off + i) = bs ! i"
  shows "slice off n buf = bs"
  using assms by (intro nth_equalityI) (auto simp: nth_slice)

lemma copyBytes_whole:
  "off + n \<le> length dst \<Longrightarrow> n \<le> length src \<Longrightarrow>
   copyBytes dst off src n = take off dst @ take n src @ drop (off + n) dst"
  by (rule nth_equalityI) (auto simp: nth_copyBytes nth_append)

lemma take_copyBytes_low [simp]:
  "n \<le> off \<Longrightarrow> take n (copyBytes dst off src k) = take n dst"
  by (rule nth_equalityI) (auto simp: nth_copyBytes)

text \<open>\<open>sameBytes xs ys n\<close> is the comparison loop that returns false at the first differing byte.\<close>

definition sameBytes :: "bytes \<Rightarrow> bytes \<Rightarrow> nat \<Rightarrow> bool" where
  "sameBytes xs ys n = list_all (\<lambda>i. xs ! i = ys ! i) [0..<n]"

lemma sameBytes_nth: "sameBytes xs ys n \<longleftrightarrow> (\<forall>i<n. xs ! i = ys ! i)"
  by (auto simp: sameBytes_def list_all_iff)

lemma sameBytes_refl [simp]: "sameBytes xs xs n"
  by (simp add: sameBytes_nth)

lemma sameBytes_sym: "sameBytes xs ys n \<Longrightarrow> sameBytes ys xs n"
  by (simp add: sameBytes_nth)

lemma sameBytes_take:
  "n \<le> length xs \<Longrightarrow> n \<le> length ys \<Longrightarrow> sameBytes xs ys n \<longleftrightarrow> take n xs = take n ys"
  by (auto simp: sameBytes_nth list_eq_iff_nth_eq)

text \<open>\<open>zeroPadded src len cap\<close> is the loop that fills an array of \<open>cap\<close> bytes with the first
  \<open>len\<close> bytes of \<open>src\<close> and zeroes after them.\<close>

definition zeroPadded :: "bytes \<Rightarrow> nat \<Rightarrow> nat \<Rightarrow> bytes" where
  "zeroPadded src len cap = map (\<lambda>i. if i < len then src ! i else 0) [0..<cap]"

lemma length_zeroPadded [simp]: "length (zeroPadded src len cap) = cap"
  by (simp add: zeroPadded_def)

lemma nth_zeroPadded: "i < cap \<Longrightarrow> zeroPadded src len cap ! i = (if i < len then src ! i else 0)"
  by (simp add: zeroPadded_def)

lemma sameBytes_zeroPadded [simp]:
  "len \<le> cap \<Longrightarrow> sameBytes xs (zeroPadded src len cap) len \<longleftrightarrow> sameBytes xs src len"
  "len \<le> cap \<Longrightarrow> sameBytes (zeroPadded src len cap) xs len \<longleftrightarrow> sameBytes src xs len"
  by (auto simp: sameBytes_nth nth_zeroPadded)

subsection \<open>All-zero regions\<close>

definition allZeroBytes :: "bytes \<Rightarrow> bool" where
  "allZeroBytes bs = list_all (\<lambda>b. b = 0) bs"

lemma allZeroBytes_nth: "allZeroBytes bs \<longleftrightarrow> (\<forall>i<length bs. bs ! i = 0)"
  by (simp add: allZeroBytes_def list_all_length)

lemma allZeroBytes_slice:
  "off + n \<le> length buf \<Longrightarrow> allZeroBytes (slice off n buf) \<longleftrightarrow> (\<forall>i<n. buf ! (off + i) = 0)"
  by (simp add: allZeroBytes_nth nth_slice)

subsection \<open>Little-endian words\<close>

definition le16 :: "u16 \<Rightarrow> bytes" where
  "le16 v = [ucast v, ucast (drop_bit 8 v)]"

definition le32 :: "u32 \<Rightarrow> bytes" where
  "le32 v = [ucast v, ucast (drop_bit 8 v), ucast (drop_bit 16 v), ucast (drop_bit 24 v)]"

definition word16_of :: "u8 \<Rightarrow> u8 \<Rightarrow> u16" where
  "word16_of b0 b1 = (ucast b0 OR push_bit 8 (ucast b1))"

definition word32_of :: "u8 \<Rightarrow> u8 \<Rightarrow> u8 \<Rightarrow> u8 \<Rightarrow> u32" where
  "word32_of b0 b1 b2 b3 =
     (ucast b0 OR push_bit 8 (ucast b1) OR push_bit 16 (ucast b2) OR push_bit 24 (ucast b3))"

lemma word16_of_bytes [simp]: "word16_of (ucast v) (ucast (drop_bit 8 v)) = v"
  by (rule bit_word_eqI) (auto simp: word16_of_def bit_simps)

lemma word32_of_bytes [simp]:
  "word32_of (ucast v) (ucast (drop_bit 8 v)) (ucast (drop_bit 16 v)) (ucast (drop_bit 24 v)) = v"
proof (rule bit_word_eqI)
  fix n assume n: "n < LENGTH(32)"
  consider "n < 8" | "8 \<le> n" "n < 16" | "16 \<le> n" "n < 24" | "24 \<le> n" "n < 32"
    using n by fastforce
  then show "bit (word32_of (ucast v) (ucast (drop_bit 8 v)) (ucast (drop_bit 16 v))
      (ucast (drop_bit 24 v))) n = bit v n"
    by cases (auto simp: word32_of_def bit_simps)
qed

lemma ucast_word16_of [simp]: "(ucast (word16_of b0 b1) :: u8) = b0"
  by (rule bit_word_eqI) (auto simp: word16_of_def bit_simps)

lemma ucast_drop_word16_of [simp]: "(ucast (drop_bit 8 (word16_of b0 b1)) :: u8) = b1"
  by (rule bit_word_eqI) (auto simp: word16_of_def bit_simps dest: bit_imp_le_length)

lemma le16_word16_of: "le16 (word16_of b0 b1) = [b0, b1]"
  by (simp add: le16_def)

lemma le32_word32_of: "le32 (word32_of b0 b1 b2 b3) = [b0, b1, b2, b3]"
  unfolding le32_def list.inject
  by (intro conjI refl bit_word_eqI)
    (auto simp: word32_of_def bit_simps dest: bit_imp_le_length)

lemma word32_of_eq_iff:
  "word32_of a b c d = word32_of a' b' c' d' \<longleftrightarrow> a = a' \<and> b = b' \<and> c = c' \<and> d = d'"
proof
  assume "word32_of a b c d = word32_of a' b' c' d'"
  then have "le32 (word32_of a b c d) = le32 (word32_of a' b' c' d')" by (rule arg_cong)
  then show "a = a' \<and> b = b' \<and> c = c' \<and> d = d'"
    by (simp only: le32_word32_of list.inject simp_thms)
next
  assume "a = a' \<and> b = b' \<and> c = c' \<and> d = d'"
  then show "word32_of a b c d = word32_of a' b' c' d'" by (simp only:)
qed

text \<open>Little-endian writes into and reads from a buffer at a byte offset.\<close>

definition putLe16 :: "bytes \<Rightarrow> nat \<Rightarrow> u16 \<Rightarrow> bytes" where
  "putLe16 buf off v = buf[off := ucast v, off + 1 := ucast (drop_bit 8 v)]"

definition putLe32 :: "bytes \<Rightarrow> nat \<Rightarrow> u32 \<Rightarrow> bytes" where
  "putLe32 buf off v = buf[off := ucast v, off + 1 := ucast (drop_bit 8 v),
     off + 2 := ucast (drop_bit 16 v), off + 3 := ucast (drop_bit 24 v)]"

definition getLe16 :: "bytes \<Rightarrow> nat \<Rightarrow> u16" where
  "getLe16 buf off = word16_of (buf ! off) (buf ! (off + 1))"

definition getLe32 :: "bytes \<Rightarrow> nat \<Rightarrow> u32" where
  "getLe32 buf off = word32_of (buf ! off) (buf ! (off + 1)) (buf ! (off + 2)) (buf ! (off + 3))"

lemma length_putLe [simp, buffer_simps]:
  "length (putLe16 buf off v) = length buf" "length (putLe32 buf off w) = length buf"
  by (simp_all add: putLe16_def putLe32_def)

lemma nth_putLe16 [buffer_simps]: "k < off \<or> off + 2 \<le> k \<Longrightarrow> putLe16 buf off v ! k = buf ! k"
  by (auto simp: putLe16_def)

lemma nth_putLe32 [buffer_simps]: "k < off \<or> off + 4 \<le> k \<Longrightarrow> putLe32 buf off v ! k = buf ! k"
  by (auto simp: putLe32_def)

lemma getLe16_putLe16 [buffer_simps]: "off + 2 \<le> length buf \<Longrightarrow> getLe16 (putLe16 buf off v) off = v"
  by (simp add: getLe16_def putLe16_def nth_list_update)

lemma getLe32_putLe32 [buffer_simps]: "off + 4 \<le> length buf \<Longrightarrow> getLe32 (putLe32 buf off v) off = v"
  by (simp add: getLe32_def putLe32_def nth_list_update)

lemma getLe16_frame [buffer_simps]:
  "off + 2 \<le> k \<or> k + 2 \<le> off \<Longrightarrow> getLe16 (putLe16 buf off v) k = getLe16 buf k"
  "off + 4 \<le> k \<or> k + 2 \<le> off \<Longrightarrow> getLe16 (putLe32 buf off w) k = getLe16 buf k"
  "i < k \<or> k + 2 \<le> i \<Longrightarrow> getLe16 (buf[i := x]) k = getLe16 buf k"
  by (auto simp: getLe16_def putLe16_def putLe32_def)

lemma getLe32_frame [buffer_simps]:
  "off + 2 \<le> k \<or> k + 4 \<le> off \<Longrightarrow> getLe32 (putLe16 buf off v) k = getLe32 buf k"
  "off + 4 \<le> k \<or> k + 4 \<le> off \<Longrightarrow> getLe32 (putLe32 buf off w) k = getLe32 buf k"
  "i < k \<or> k + 4 \<le> i \<Longrightarrow> getLe32 (buf[i := x]) k = getLe32 buf k"
  by (auto simp: getLe32_def putLe16_def putLe32_def)

lemma getLe_copyBytes [buffer_simps]:
  "off + n \<le> k \<or> k + 2 \<le> off \<Longrightarrow> k + 2 \<le> length buf \<Longrightarrow>
     getLe16 (copyBytes buf off src n) k = getLe16 buf k"
  "off + n \<le> k \<or> k + 4 \<le> off \<Longrightarrow> k + 4 \<le> length buf \<Longrightarrow>
     getLe32 (copyBytes buf off src n) k = getLe32 buf k"
  by (auto simp: getLe16_def getLe32_def nth_copyBytes)

lemma take_putLe [buffer_simps]:
  "n \<le> off \<Longrightarrow> take n (putLe16 buf off v) = take n buf"
  "n \<le> off \<Longrightarrow> take n (putLe32 buf off w) = take n buf"
  by (simp_all add: putLe16_def putLe32_def)

lemma getLe_take [buffer_simps]:
  "k + 2 \<le> n \<Longrightarrow> getLe16 (take n buf) k = getLe16 buf k"
  "k + 4 \<le> n \<Longrightarrow> getLe32 (take n buf) k = getLe32 buf k"
  by (simp_all add: getLe16_def getLe32_def)

lemma putLe32_getLe32: "off + 4 \<le> length buf \<Longrightarrow> putLe32 buf off (getLe32 buf off) = buf"
proof -
  have "le32 (getLe32 buf off) = [buf ! off, buf ! (off + 1), buf ! (off + 2), buf ! (off + 3)]"
    by (simp add: getLe32_def le32_word32_of)
  then show ?thesis by (simp add: putLe32_def le32_def)
qed

subsection \<open>Exclusive or\<close>

lemma xor_right_cancel [simp]: "(a XOR c = b XOR c) = (a = b)" for a b c :: "'a::len word"
  by (metis xor.assoc xor.right_neutral xor_self_eq)

lemma xor_left_cancel [simp]: "(c XOR a = c XOR b) = (a = b)" for a b c :: "'a::len word"
  by (metis xor.assoc xor.left_neutral xor_self_eq)

subsection \<open>The millisecond clock\<close>

text \<open>
  \<^verbatim>\<open>static_cast<int32_t>(now - deadline) < 0\<close> on 32-bit clocks: the difference wraps and is read
  as a signed number, so a deadline up to \<open>2 ^ 31 - 1\<close> milliseconds ahead counts as not reached.
\<close>

definition beforeDeadline :: "u32 \<Rightarrow> u32 \<Rightarrow> bool" where
  "beforeDeadline now deadline = (sint (now - deadline) < 0)"

lemma sint_neg_iff: "sint (w :: u32) < 0 \<longleftrightarrow> 2 ^ 31 \<le> uint w"
proof -
  have "uint w < 2 ^ 32" using uint_lt2p [of w] by simp
  then have "uint w div 2 ^ 31 = (if uint w < 2 ^ 31 then 0 else 1)"
    by (auto intro: int_div_pos_eq [of _ _ _ "uint w - 2 ^ 31"])
  moreover have "sint w < 0 \<longleftrightarrow> odd (uint w div 2 ^ 31)"
    by (simp add: sint_uint bit_iff_odd)
  ultimately show ?thesis by simp
qed

lemma beforeDeadline_iff: "beforeDeadline now deadline \<longleftrightarrow> 2 ^ 31 \<le> uint (now - deadline)"
  by (simp add: beforeDeadline_def sint_neg_iff)

end
