(* ===== verification/Protocol.thy ===== *)
theory Protocol
  imports Prelude
begin

text \<open>
  Wire Protocol 1 (\<^verbatim>\<open>lib/redline_protocol/src/redline_protocol.h\<close>): the radio packet, its opcode and
  status vocabulary, and the byte codec.  An \<^verbatim>\<open>enum class X : uint8_t\<close> that receives unchecked
  \<^verbatim>\<open>static_cast\<close>s is a datatype with one constructor per enumerator and one constructor that carries
  any other byte; \<open>X_of\<close> is the cast from a byte and \<open>X_code\<close> the cast to a byte.
\<close>

subsection \<open>Vocabulary\<close>

definition VERSION :: u8 where [simp]: "VERSION = 1"
definition HEADER_SIZE :: nat where [simp]: "HEADER_SIZE = 6"
definition MAX_PACKET_SIZE :: nat where [simp]: "MAX_PACKET_SIZE = 32"
definition MAX_PAYLOAD_SIZE :: nat where "MAX_PAYLOAD_SIZE = MAX_PACKET_SIZE - HEADER_SIZE"

lemma MAX_PAYLOAD_SIZE_26 [simp]: "MAX_PAYLOAD_SIZE = 26"
  by (simp add: MAX_PAYLOAD_SIZE_def)

definition OPCODE_APPLICATION_MIN :: u8 where [simp]: "OPCODE_APPLICATION_MIN = 0x20"
definition OPCODE_APPLICATION_MAX :: u8 where [simp]: "OPCODE_APPLICATION_MAX = 0x7F"

datatype opcode = PING | GET_DEVICE_INFO | GET_STATUS | GET_CAPABILITIES | DESCRIBE_CAPABILITY
  | READ_CAPABILITY | SET_INDICATOR | RUN_PROCEDURE | GET_DIAGNOSTICS | TEST

fun opcode_code :: "opcode \<Rightarrow> u8" where
  "opcode_code PING = 0x20"
| "opcode_code GET_DEVICE_INFO = 0x21"
| "opcode_code GET_STATUS = 0x22"
| "opcode_code GET_CAPABILITIES = 0x23"
| "opcode_code DESCRIBE_CAPABILITY = 0x24"
| "opcode_code READ_CAPABILITY = 0x25"
| "opcode_code SET_INDICATOR = 0x26"
| "opcode_code RUN_PROCEDURE = 0x27"
| "opcode_code GET_DIAGNOSTICS = 0x28"
| "opcode_code TEST = 0x64"

definition OPCODE_TEST :: u8 where [simp]: "OPCODE_TEST = opcode_code TEST"

datatype packetType = COMMAND | ACK | ERROR | RESPONSE | EVENT | PacketType_raw u8

fun packetType_code :: "packetType \<Rightarrow> u8" where
  "packetType_code COMMAND = 0x01"
| "packetType_code ACK = 0x02"
| "packetType_code ERROR = 0x03"
| "packetType_code RESPONSE = 0x04"
| "packetType_code EVENT = 0x05"
| "packetType_code (PacketType_raw b) = b"

definition packetType_of :: "u8 \<Rightarrow> packetType" where
  "packetType_of b =
     (if b = 0x01 then COMMAND else if b = 0x02 then ACK else if b = 0x03 then ERROR
      else if b = 0x04 then RESPONSE else if b = 0x05 then EVENT else PacketType_raw b)"

datatype ackStatus = SUCCESS | UNSUPPORTED_OPCODE | MALFORMED_PACKET

fun ackStatus_code :: "ackStatus \<Rightarrow> u8" where
  "ackStatus_code SUCCESS = 0x00"
| "ackStatus_code UNSUPPORTED_OPCODE = 0x01"
| "ackStatus_code MALFORMED_PACKET = 0x02"

text \<open>The cast back is used only after \<open>isValidAckStatus\<close>.\<close>

definition ackStatus_of :: "u8 \<Rightarrow> ackStatus" where
  "ackStatus_of b = (if b = 0x00 then SUCCESS else if b = 0x01 then UNSUPPORTED_OPCODE
     else MALFORMED_PACKET)"

definition isSupportedCommandOpcode :: "u8 \<Rightarrow> bool" where
  "isSupportedCommandOpcode opcode = (opcode = OPCODE_TEST)"

definition expectedCommandPayloadLength :: "u8 \<Rightarrow> nat" where
  "expectedCommandPayloadLength opcode = (if opcode = OPCODE_TEST then 0 else MAX_PAYLOAD_SIZE + 1)"

definition isValidCommandPayload :: "u8 \<Rightarrow> u8 \<Rightarrow> bool" where
  "isValidCommandPayload opcode payloadLength =
     (let expectedLength = expectedCommandPayloadLength opcode
      in expectedLength \<le> MAX_PAYLOAD_SIZE \<and> unat payloadLength = expectedLength)"

definition isValidAckStatus :: "u8 \<Rightarrow> bool" where
  "isValidAckStatus value = (value = ackStatus_code SUCCESS
     \<or> value = ackStatus_code UNSUPPORTED_OPCODE \<or> value = ackStatus_code MALFORMED_PACKET)"

subsection \<open>Packets and their codec\<close>

record packet =
  pkType :: packetType
  pkSource :: u8
  pkDestination :: u8
  pkSequence :: u8
  pkOpcode :: u8
  pkPayloadLength :: u8
  pkPayload :: bytes

text \<open>The value of \<^verbatim>\<open>Packet packet = {}\<close>.\<close>

definition packet_init :: packet where
  "packet_init = \<lparr>pkType = PacketType_raw 0, pkSource = 0, pkDestination = 0, pkSequence = 0,
     pkOpcode = 0, pkPayloadLength = 0, pkPayload = fillZero MAX_PAYLOAD_SIZE\<rparr>"

definition makeControl :: "packetType \<Rightarrow> u8" where
  "makeControl type = (push_bit 4 VERSION OR (packetType_code type AND 0x0F))"

definition getVersion :: "u8 \<Rightarrow> u8" where
  "getVersion control = drop_bit 4 control"

definition getPacketType :: "u8 \<Rightarrow> packetType" where
  "getPacketType control = packetType_of (control AND 0x0F)"

text \<open>
  \<open>encode packet output\<close> is the triple of the returned flag, the output buffer afterwards and
  \<^verbatim>\<open>encodedLength\<close>; the buffer's length is \<^verbatim>\<open>outputCapacity\<close>.
\<close>

definition encode :: "packet \<Rightarrow> bytes option \<Rightarrow> bool \<times> bytes option \<times> nat" where
  "encode packet output = (case output of None \<Rightarrow> (False, None, 0) | Some out \<Rightarrow>
     if unat (pkPayloadLength packet) > MAX_PAYLOAD_SIZE then (False, Some out, 0)
     else let requiredLength = HEADER_SIZE + unat (pkPayloadLength packet) in
       if length out < requiredLength then (False, Some out, 0)
       else let header = out[0 := makeControl (pkType packet), 1 := pkSource packet,
                  2 := pkDestination packet, 3 := pkSequence packet, 4 := pkOpcode packet,
                  5 := pkPayloadLength packet]
            in (True, Some (copyBytes header HEADER_SIZE (pkPayload packet)
                  (unat (pkPayloadLength packet))), requiredLength))"

text \<open>
  \<open>decode input packet\<close> is \<open>None\<close> where the code returns false and leaves \<open>packet\<close> alone.  The loop
  writes only the first \<^verbatim>\<open>payloadLength\<close> bytes of the caller's payload array.
\<close>

definition decode :: "bytes option \<Rightarrow> packet \<Rightarrow> packet option" where
  "decode input packet = (case input of None \<Rightarrow> None | Some inp \<Rightarrow>
     if length inp < HEADER_SIZE then None
     else if getVersion (inp ! 0) \<noteq> VERSION then None
     else let payloadLength = inp ! 5 in
       if unat payloadLength > MAX_PAYLOAD_SIZE then None
       else if length inp \<noteq> HEADER_SIZE + unat payloadLength then None
       else let type = getPacketType (inp ! 0) in
         if type \<noteq> COMMAND \<and> type \<noteq> ACK \<and> type \<noteq> ERROR \<and> type \<noteq> RESPONSE \<and> type \<noteq> EVENT then None
         else Some \<lparr>pkType = type, pkSource = inp ! 1, pkDestination = inp ! 2,
                pkSequence = inp ! 3, pkOpcode = inp ! 4, pkPayloadLength = payloadLength,
                pkPayload = copyBytes (pkPayload packet) 0 (drop HEADER_SIZE inp)
                  (unat payloadLength)\<rparr>)"

definition isAddressedTo :: "packet \<Rightarrow> u8 \<Rightarrow> bool" where
  "isAddressedTo packet deviceId = (pkDestination packet = deviceId)"

subsection \<open>Well-formed packets\<close>

text \<open>
  \<open>packetType_named\<close>: the type is one of the five enumerators.  \<open>packet_wf\<close>: the payload array has
  its declared size, as every C++ \<^verbatim>\<open>Packet\<close> has.  \<open>packet_sendable\<close>: what \<open>encode\<close> may transmit and
  \<open>decode\<close> accepts.
\<close>

definition packetType_named :: "packetType \<Rightarrow> bool" where
  "packetType_named t = (t = COMMAND \<or> t = ACK \<or> t = ERROR \<or> t = RESPONSE \<or> t = EVENT)"

definition packet_wf :: "packet \<Rightarrow> bool" where
  "packet_wf packet = (length (pkPayload packet) = MAX_PAYLOAD_SIZE)"

definition packet_sendable :: "packet \<Rightarrow> bool" where
  "packet_sendable packet = (packet_wf packet \<and> packetType_named (pkType packet)
     \<and> unat (pkPayloadLength packet) \<le> MAX_PAYLOAD_SIZE)"

lemma packet_init_wf [simp]: "packet_wf packet_init"
  by (simp add: packet_wf_def packet_init_def)

lemma packetType_code_of [simp, enum_simps]: "packetType_code (packetType_of b) = b"
  by (simp add: packetType_of_def)

lemma packetType_of_code [enum_simps]:
  "packetType_named t \<Longrightarrow> packetType_of (packetType_code t) = t"
  by (auto simp: packetType_named_def packetType_of_def)

lemma ackStatus_of_code [simp, enum_simps]: "ackStatus_of (ackStatus_code s) = s"
  by (cases s) (simp_all add: ackStatus_of_def)

lemma ackStatus_code_of [enum_simps]: "isValidAckStatus b \<Longrightarrow> ackStatus_code (ackStatus_of b) = b"
  by (auto simp: isValidAckStatus_def ackStatus_of_def)

lemma isValidAckStatus_code [simp]: "isValidAckStatus (ackStatus_code s)"
  by (cases s) (simp_all add: isValidAckStatus_def)

subsection \<open>Control byte\<close>

lemma getVersion_makeControl [simp]: "packetType_named t \<Longrightarrow> getVersion (makeControl t) = VERSION"
  by (auto simp: packetType_named_def getVersion_def makeControl_def)

lemma getPacketType_makeControl [simp]: "packetType_named t \<Longrightarrow> getPacketType (makeControl t) = t"
  by (auto simp: packetType_named_def getPacketType_def makeControl_def packetType_of_def)

text \<open>A control byte is determined by its two nibbles.\<close>

lemma makeControl_getPacketType:
  assumes "getVersion c = VERSION"
  shows "makeControl (getPacketType c) = c"
proof (rule bit_word_eqI)
  fix n assume n: "n < LENGTH(8)"
  from assms have d: "drop_bit 4 c = 1" by (simp add: getVersion_def)
  have hi: "bit c (4 + k) = bit (1 :: u8) k" for k
    using d by (metis bit_drop_bit_eq comp_apply)
  show "bit (makeControl (getPacketType c)) n = bit c n"
  proof (cases "n < 4")
    case True
    then have "n = 0 \<or> n = 1 \<or> n = 2 \<or> n = 3" by auto
    then show ?thesis
      by (auto simp: makeControl_def getPacketType_def bit_simps bit_numeral_rec)
  next
    case False
    then obtain k where "n = 4 + k" using le_Suc_ex not_less by blast
    with n hi [of k] show ?thesis
      by (auto simp: makeControl_def getPacketType_def bit_simps bit_numeral_rec)
  qed
qed

subsection \<open>Round trips\<close>

text \<open>
  \<open>packet_view\<close> is what a packet means on the air: the header and the payload bytes in use.
  \<open>wireBytes\<close> is the reference encoding, the header bytes followed by those payload bytes.
\<close>

definition packet_view :: "packet \<Rightarrow> packetType \<times> u8 \<times> u8 \<times> u8 \<times> u8 \<times> bytes" where
  "packet_view p = (pkType p, pkSource p, pkDestination p, pkSequence p, pkOpcode p,
     take (unat (pkPayloadLength p)) (pkPayload p))"

definition wireBytes :: "packet \<Rightarrow> bytes" where
  "wireBytes p = [makeControl (pkType p), pkSource p, pkDestination p, pkSequence p, pkOpcode p,
     pkPayloadLength p] @ take (unat (pkPayloadLength p)) (pkPayload p)"

lemma packet_sendableD:
  assumes "packet_sendable p"
  shows "length (pkPayload p) = 26" "packetType_named (pkType p)" "unat (pkPayloadLength p) \<le> 26"
    "length (wireBytes p) = 6 + unat (pkPayloadLength p)"
  using assms by (auto simp: packet_sendable_def packet_wf_def wireBytes_def)

lemma nth_wireBytes [simp]:
  "wireBytes p ! 0 = makeControl (pkType p)" "wireBytes p ! Suc 0 = pkSource p"
  "wireBytes p ! 2 = pkDestination p" "wireBytes p ! 3 = pkSequence p"
  "wireBytes p ! 4 = pkOpcode p" "wireBytes p ! 5 = pkPayloadLength p"
  "drop 6 (wireBytes p) = take (unat (pkPayloadLength p)) (pkPayload p)"
  by (simp_all add: wireBytes_def)

lemma header_writes:
  assumes "6 \<le> length out"
  shows "take 6 (out[0 := a, Suc 0 := b, 2 := c, 3 := d, 4 := e, 5 := f]) = [a, b, c, d, e, f]"
  using assms by (auto simp: Suc_le_length_iff numeral_eq_Suc)

lemma encode_wireBytes:
  assumes p: "packet_sendable p" and cap: "length (wireBytes p) \<le> length out"
  shows "encode p (Some out) = (True, Some (wireBytes p @ drop (length (wireBytes p)) out),
           length (wireBytes p))"
proof -
  note d = packet_sendableD [OF p]
  have c6: "6 \<le> length out" using cap d(4) by simp
  have "copyBytes (out[0 := makeControl (pkType p), Suc 0 := pkSource p, 2 := pkDestination p,
      3 := pkSequence p, 4 := pkOpcode p, 5 := pkPayloadLength p]) 6 (pkPayload p)
      (unat (pkPayloadLength p)) = wireBytes p @ drop (length (wireBytes p)) out"
    using cap d(1,3) unfolding d(4)
    by (subst copyBytes_whole) (auto simp: header_writes [OF c6] wireBytes_def)
  then show ?thesis
    using cap d by (simp add: encode_def)
qed

lemma copyBytes_take: "copyBytes dst off (take n src) n = copyBytes dst off src n"
proof -
  have "k \<le> n \<Longrightarrow> copyBytes dst off (take n src) k = copyBytes dst off src k" for k
    by (induction k) auto
  then show ?thesis by simp
qed

lemma decode_wireBytes:
  assumes p: "packet_sendable p"
  shows "decode (Some (wireBytes p)) q = Some \<lparr>pkType = pkType p, pkSource = pkSource p,
    pkDestination = pkDestination p, pkSequence = pkSequence p, pkOpcode = pkOpcode p,
    pkPayloadLength = pkPayloadLength p,
    pkPayload = copyBytes (pkPayload q) 0 (pkPayload p) (unat (pkPayloadLength p))\<rparr>"
  using packet_sendableD [OF p]
  by (auto simp: decode_def copyBytes_take packetType_named_def Let_def)

text \<open>What a successful decode says of the input, and that it is the only way to succeed.\<close>

lemma decode_SomeD:
  assumes "decode (Some inp) q = Some p" and q: "packet_wf q"
  shows "packet_sendable p" "inp = wireBytes p"
proof -
  from assms(1) have v: "getVersion (inp ! 0) = 1" and l: "unat (inp ! 5) \<le> 26"
      "length inp = 6 + unat (inp ! 5)"
    and t: "packetType_named (getPacketType (inp ! 0))"
    and p: "p = \<lparr>pkType = getPacketType (inp ! 0), pkSource = inp ! 1, pkDestination = inp ! 2,
              pkSequence = inp ! 3, pkOpcode = inp ! 4, pkPayloadLength = inp ! 5,
              pkPayload = copyBytes (pkPayload q) 0 (drop 6 inp) (unat (inp ! 5))\<rparr>"
    by (auto simp: decode_def packetType_named_def Let_def split: if_splits)
  show "packet_sendable p"
    using l t q by (simp add: p packet_sendable_def packet_wf_def)
  have "take (unat (inp ! 5)) (copyBytes (pkPayload q) 0 (drop 6 inp) (unat (inp ! 5))) = drop 6 inp"
    using l q by (subst copyBytes_whole) (auto simp: packet_wf_def)
  moreover have "take 6 inp = [inp ! 0, inp ! 1, inp ! 2, inp ! 3, inp ! 4, inp ! 5]"
    using l(2) by (simp add: take_Suc_conv_app_nth numeral_eq_Suc)
  ultimately show "inp = wireBytes p"
    using v append_take_drop_id [of 6 inp]
    by (simp add: p wireBytes_def makeControl_getPacketType)
qed

text \<open>C37. Encoding a sendable packet into a large enough buffer succeeds, reports the header size plus
  the payload length, touches nothing behind the encoded bytes, and decoding those bytes (into any
  packet variable) gives back the header and the payload.\<close>

theorem encode_decode_roundtrip:
  assumes "packet_sendable p" and "packet_wf q"
    and "HEADER_SIZE + unat (pkPayloadLength p) \<le> length out"
  shows "\<exists>out' n r. encode p (Some out) = (True, Some out', n) \<and> n = HEADER_SIZE + unat (pkPayloadLength p)
    \<and> length out' = length out \<and> drop n out' = drop n out
    \<and> decode (Some (take n out')) q = Some r \<and> packet_view r = packet_view p"
proof -
  note d = packet_sendableD [OF assms(1)]
  have l: "length (wireBytes p) \<le> length out" using assms(3) d(4) by simp
  show ?thesis
    using assms(2) d l
    by (auto simp: encode_wireBytes [OF assms(1) l] decode_wireBytes [OF assms(1)] packet_view_def
        packet_wf_def copyBytes_whole)
qed

theorem encode_decode_roundtrip_witness:
  "\<exists>out' n r. encode (packet_init\<lparr>pkType := COMMAND, pkOpcode := 0x64\<rparr>) (Some (fillZero 32)) = (True, Some out', n)
    \<and> n = 6 \<and> decode (Some (take n out')) packet_init = Some r
    \<and> packet_view r = packet_view (packet_init\<lparr>pkType := COMMAND, pkOpcode := 0x64\<rparr>)"
  using encode_decode_roundtrip [of "packet_init\<lparr>pkType := COMMAND, pkOpcode := 0x64\<rparr>" packet_init "fillZero 32"]
  by (auto simp: packet_sendable_def packet_wf_def packetType_named_def packet_init_def)

text \<open>The decoder accepts only canonical encodings: every accepted byte string is the encoding of
  the decoded packet, so re-encoding it reproduces the received bytes exactly, and two different
  byte strings never decode to the same packet.\<close>

theorem decode_encode_canonical:
  assumes "decode (Some inp) q = Some p" and "packet_wf q"
  shows "encode p (Some inp) = (True, Some inp, length inp)"
  using encode_wireBytes [OF decode_SomeD(1) [OF assms], of inp] decode_SomeD(2) [OF assms]
  by simp

theorem decode_encode_canonical_witness:
  "\<exists>p. decode (Some [0x11, 1, 2, 7, 0x64, 0]) packet_init = Some p
     \<and> encode p (Some [0x11, 1, 2, 7, 0x64, 0]) = (True, Some [0x11, 1, 2, 7, 0x64, 0], 6)"
proof -
  have "decode (Some [0x11, 1, 2, 7, 0x64, 0]) packet_init \<noteq> None"
    by (simp add: decode_def getVersion_def getPacketType_def packetType_of_def)
  then obtain p where p: "decode (Some [0x11, 1, 2, 7, 0x64, 0]) packet_init = Some p" by blast
  show ?thesis using p decode_encode_canonical [OF p] by simp
qed

end
