(* ===== verification/TransactionEngine.thy ===== *)
theory TransactionEngine
  imports Protocol
begin

text \<open>
  The legacy command transaction (\<^verbatim>\<open>lib/transaction_engine/src/transaction_engine.h\<close>): the Node's
  duplicate tracker and command evaluation, the Hub's retry state and the evaluation of received
  acknowledgments.  Methods that mutate their object take the object's record and return the new one.
\<close>

subsection \<open>Node: duplicate tracker\<close>

record nodeDuplicateTracker =
  dtHasRememberedCommand :: bool
  dtSource :: u8
  dtSequence :: u8
  dtOpcode :: u8
  dtPayloadLength :: u8
  dtPayload :: bytes
  dtStatus :: ackStatus

definition nodeDuplicateTracker_init :: nodeDuplicateTracker where
  "nodeDuplicateTracker_init = \<lparr>dtHasRememberedCommand = False, dtSource = 0, dtSequence = 0,
     dtOpcode = 0, dtPayloadLength = 0, dtPayload = fillZero MAX_PAYLOAD_SIZE, dtStatus = SUCCESS\<rparr>"

definition isDuplicate :: "nodeDuplicateTracker \<Rightarrow> packet \<Rightarrow> bool" where
  "isDuplicate t command =
     (if \<not> dtHasRememberedCommand t \<or> pkSource command \<noteq> dtSource t
         \<or> pkSequence command \<noteq> dtSequence t \<or> pkOpcode command \<noteq> dtOpcode t
         \<or> pkPayloadLength command \<noteq> dtPayloadLength t
         \<or> unat (pkPayloadLength command) > MAX_PAYLOAD_SIZE
      then False
      else sameBytes (pkPayload command) (dtPayload t) (unat (pkPayloadLength command)))"

definition remember :: "packet \<Rightarrow> ackStatus \<Rightarrow> nodeDuplicateTracker" where
  "remember command status = \<lparr>dtHasRememberedCommand = True, dtSource = pkSource command,
     dtSequence = pkSequence command, dtOpcode = pkOpcode command,
     dtPayloadLength = pkPayloadLength command,
     dtPayload = zeroPadded (pkPayload command) (unat (pkPayloadLength command)) MAX_PAYLOAD_SIZE,
     dtStatus = status\<rparr>"

subsection \<open>Node: command evaluation\<close>

datatype nodeCommandOutcome = IGNORE_WRONG_DESTINATION | IGNORE_WRONG_SENDER
  | IGNORE_WRONG_PACKET_TYPE | DUPLICATE | ACK_SUCCESS | ACK_UNSUPPORTED_OPCODE
  | ACK_MALFORMED_PACKET

definition evaluateNodeCommand ::
  "packet \<Rightarrow> u8 \<Rightarrow> u8 \<Rightarrow> nodeDuplicateTracker \<Rightarrow>
   (nodeCommandOutcome \<times> ackStatus) \<times> nodeDuplicateTracker" where
  "evaluateNodeCommand command localDeviceId peerDeviceId t =
     (if \<not> isAddressedTo command localDeviceId then ((IGNORE_WRONG_DESTINATION, SUCCESS), t)
      else if pkType command \<noteq> COMMAND then ((IGNORE_WRONG_PACKET_TYPE, SUCCESS), t)
      else if pkSource command \<noteq> peerDeviceId then ((IGNORE_WRONG_SENDER, SUCCESS), t)
      else if \<not> isSupportedCommandOpcode (pkOpcode command)
        then ((ACK_UNSUPPORTED_OPCODE, UNSUPPORTED_OPCODE), t)
      else if \<not> isValidCommandPayload (pkOpcode command) (pkPayloadLength command)
        then ((ACK_MALFORMED_PACKET, MALFORMED_PACKET), t)
      else if isDuplicate t command then ((DUPLICATE, dtStatus t), t)
      else ((ACK_SUCCESS, SUCCESS), remember command SUCCESS))"

subsection \<open>Hub: transaction state\<close>

datatype hubAckOutcome = HAO_WRONG_DESTINATION | HAO_WRONG_SENDER | HAO_WRONG_PACKET_TYPE
  | HAO_WRONG_SEQUENCE | HAO_WRONG_OPCODE | HAO_MALFORMED_PAYLOAD | MATCHING_ACK

datatype hubTransactionAction = NO_ACTION | TRANSMIT_INITIAL | RETRANSMIT | TRANSACTION_SUCCEEDED
  | TRANSACTION_REMOTE_ERROR | TRANSACTION_FAILED

record hubTransactionState =
  htSequence :: u8
  htRetryCount :: u8
  htMaximumRetries :: u8
  htAwaitingAcknowledgment :: bool
  htAcknowledgmentDeadline :: u32
  htAcknowledgmentTimeoutMs :: u32

definition DEFAULT_INITIAL_SEQUENCE :: u8 where [simp]: "DEFAULT_INITIAL_SEQUENCE = 1"
definition DEFAULT_MAX_RETRIES :: u8 where [simp]: "DEFAULT_MAX_RETRIES = 2"
definition DEFAULT_ACK_TIMEOUT_MS :: u32 where [simp]: "DEFAULT_ACK_TIMEOUT_MS = 2500"

definition hubTransactionState_new :: "u8 \<Rightarrow> u8 \<Rightarrow> u32 \<Rightarrow> hubTransactionState" where
  "hubTransactionState_new initialSequence maximumRetries timeoutMs =
     \<lparr>htSequence = initialSequence, htRetryCount = 0, htMaximumRetries = maximumRetries,
      htAwaitingAcknowledgment = False, htAcknowledgmentDeadline = 0,
      htAcknowledgmentTimeoutMs = timeoutMs\<rparr>"

definition requestedTransmission :: "hubTransactionState \<Rightarrow> hubTransactionAction" where
  "requestedTransmission s = (if htRetryCount s = 0 then TRANSMIT_INITIAL else RETRANSMIT)"

definition beginAcknowledgmentWait :: "u32 \<Rightarrow> hubTransactionState \<Rightarrow> hubTransactionState" where
  "beginAcknowledgmentWait currentTimeMs s =
     s\<lparr>htAwaitingAcknowledgment := True,
       htAcknowledgmentDeadline := currentTimeMs + htAcknowledgmentTimeoutMs s\<rparr>"

definition acknowledgmentWaitAction :: "u32 \<Rightarrow> hubTransactionState \<Rightarrow> hubTransactionAction" where
  "acknowledgmentWaitAction currentTimeMs s =
     (if \<not> htAwaitingAcknowledgment s \<or> beforeDeadline currentTimeMs (htAcknowledgmentDeadline s)
      then NO_ACTION
      else if htRetryCount s < htMaximumRetries s then RETRANSMIT else TRANSACTION_FAILED)"

definition attemptFailed :: "hubTransactionState \<Rightarrow> hubTransactionAction \<times> hubTransactionState" where
  "attemptFailed s = (let s' = s\<lparr>htAwaitingAcknowledgment := False\<rparr> in
     if htRetryCount s' < htMaximumRetries s'
     then (RETRANSMIT, s'\<lparr>htRetryCount := htRetryCount s' + 1\<rparr>)
     else (TRANSACTION_FAILED, s'))"

definition acknowledgmentCompletionAction :: "ackStatus \<Rightarrow> hubTransactionAction" where
  "acknowledgmentCompletionAction status =
     (if status = SUCCESS then TRANSACTION_SUCCEEDED else TRANSACTION_REMOTE_ERROR)"

definition completeTransaction :: "hubTransactionState \<Rightarrow> hubTransactionState" where
  "completeTransaction s =
     s\<lparr>htSequence := htSequence s + 1, htRetryCount := 0, htAwaitingAcknowledgment := False\<rparr>"

subsection \<open>Hub: acknowledgment evaluation\<close>

definition evaluateHubAcknowledgment :: "packet \<Rightarrow> packet \<Rightarrow> u8 \<Rightarrow> u8 \<Rightarrow> hubAckOutcome \<times> u8" where
  "evaluateHubAcknowledgment acknowledgment outstandingCommand localHubId peerNodeId =
     (if pkType acknowledgment \<noteq> ACK then (HAO_WRONG_PACKET_TYPE, 0)
      else if pkSource acknowledgment \<noteq> peerNodeId then (HAO_WRONG_SENDER, 0)
      else if \<not> isAddressedTo acknowledgment localHubId then (HAO_WRONG_DESTINATION, 0)
      else if pkSequence acknowledgment \<noteq> pkSequence outstandingCommand
        then (HAO_WRONG_SEQUENCE, 0)
      else if pkOpcode acknowledgment \<noteq> pkOpcode outstandingCommand then (HAO_WRONG_OPCODE, 0)
      else if pkPayloadLength acknowledgment \<noteq> 1 then (HAO_MALFORMED_PAYLOAD, 0)
      else (MATCHING_ACK, pkPayload acknowledgment ! 0))"

definition makeAcknowledgment :: "packet \<Rightarrow> ackStatus \<Rightarrow> packet" where
  "makeAcknowledgment command status = packet_init\<lparr>pkType := ACK, pkSource := pkDestination command,
     pkDestination := pkSource command, pkSequence := pkSequence command,
     pkOpcode := pkOpcode command, pkPayloadLength := 1,
     pkPayload := (pkPayload packet_init)[0 := ackStatus_code status]\<rparr>"

subsection \<open>Admission and duplicates\<close>

text \<open>\<open>admissible\<close>: the guards of \<open>evaluateNodeCommand\<close> before the duplicate check.\<close>

definition admissible :: "packet \<Rightarrow> u8 \<Rightarrow> u8 \<Rightarrow> bool" where
  "admissible command localId peerId = (isAddressedTo command localId \<and> pkType command = COMMAND
     \<and> pkSource command = peerId \<and> isSupportedCommandOpcode (pkOpcode command)
     \<and> isValidCommandPayload (pkOpcode command) (pkPayloadLength command))"

lemma isValidCommandPayload_bound: "isValidCommandPayload op len \<Longrightarrow> unat len \<le> MAX_PAYLOAD_SIZE"
  by (simp add: isValidCommandPayload_def)

lemma isDuplicate_remember [simp]:
  "unat (pkPayloadLength c) \<le> MAX_PAYLOAD_SIZE \<Longrightarrow> isDuplicate (remember c s) c"
  by (simp add: isDuplicate_def remember_def)

lemma isDuplicate_remember_iff:
  assumes "unat (pkPayloadLength c) \<le> MAX_PAYLOAD_SIZE"
  shows "isDuplicate (remember c s) d \<longleftrightarrow> pkSource d = pkSource c \<and> pkSequence d = pkSequence c
    \<and> pkOpcode d = pkOpcode c \<and> pkPayloadLength d = pkPayloadLength c
    \<and> sameBytes (pkPayload d) (pkPayload c) (unat (pkPayloadLength c))"
  using assms by (auto simp: isDuplicate_def remember_def)

lemma evaluateNodeCommand_admissible:
  "admissible c l p \<Longrightarrow> evaluateNodeCommand c l p t =
     (if isDuplicate t c then ((DUPLICATE, dtStatus t), t)
      else ((ACK_SUCCESS, SUCCESS), remember c SUCCESS))"
  by (simp add: evaluateNodeCommand_def admissible_def)

lemma evaluateNodeCommand_outcome:
  "(fst (fst (evaluateNodeCommand c l p t)) = DUPLICATE \<or>
    fst (fst (evaluateNodeCommand c l p t)) = ACK_SUCCESS) = admissible c l p"
  by (simp add: evaluateNodeCommand_def admissible_def)

text \<open>C25. The tracker changes only when a command is executed (outcome \<open>ACK_SUCCESS\<close>); after that the
  same command is answered \<open>DUPLICATE\<close> with the remembered status and leaves the tracker alone, as
  often as it arrives: a retransmitted command is executed once.\<close>

theorem duplicate_suppression:
  assumes "evaluateNodeCommand c l p t = (r, t')"
  shows "(t' \<noteq> t \<longrightarrow> fst r = ACK_SUCCESS)
    \<and> (fst r = ACK_SUCCESS \<longrightarrow> evaluateNodeCommand c l p t' = ((DUPLICATE, snd r), t'))
    \<and> (fst r = DUPLICATE \<longrightarrow> evaluateNodeCommand c l p t' = (r, t'))"
proof (cases "admissible c l p")
  case False
  then show ?thesis
    using assms by (auto simp: evaluateNodeCommand_def admissible_def split: if_splits)
next
  case True
  then have "isDuplicate (remember c SUCCESS) c"
    using isValidCommandPayload_bound isDuplicate_remember by (auto simp: admissible_def)
  moreover have "dtStatus (remember c SUCCESS) = SUCCESS" by (simp add: remember_def)
  ultimately show ?thesis
    using assms by (auto simp: evaluateNodeCommand_admissible [OF True] split: if_splits)
qed

theorem duplicate_suppression_witness:
  "evaluateNodeCommand (packet_init\<lparr>pkType := COMMAND, pkSource := 1, pkDestination := 2,
      pkSequence := 9, pkOpcode := 0x64\<rparr>) 2 1
     (remember (packet_init\<lparr>pkType := COMMAND, pkSource := 1, pkDestination := 2,
      pkSequence := 9, pkOpcode := 0x64\<rparr>) SUCCESS) = ((DUPLICATE, SUCCESS),
     remember (packet_init\<lparr>pkType := COMMAND, pkSource := 1, pkDestination := 2,
      pkSequence := 9, pkOpcode := 0x64\<rparr>) SUCCESS)"
proof -
  let ?c = "packet_init\<lparr>pkType := COMMAND, pkSource := 1, pkDestination := 2,
      pkSequence := 9, pkOpcode := 0x64\<rparr>"
  have "evaluateNodeCommand ?c 2 1 nodeDuplicateTracker_init =
      ((ACK_SUCCESS, SUCCESS), remember ?c SUCCESS)"
    by (simp add: evaluateNodeCommand_def isAddressedTo_def isSupportedCommandOpcode_def
        isValidCommandPayload_def expectedCommandPayloadLength_def packet_init_def isDuplicate_def
        nodeDuplicateTracker_init_def)
  from duplicate_suppression [OF this] show ?thesis by simp
qed

text \<open>A new command that differs from the remembered one in sender, sequence, opcode, length or
  payload is never swallowed as a duplicate: it is executed and becomes the remembered command.\<close>

theorem no_false_duplicate:
  assumes "admissible c l p" and "admissible d l p"
    and "pkSequence d \<noteq> pkSequence c \<or> pkOpcode d \<noteq> pkOpcode c
       \<or> pkPayloadLength d \<noteq> pkPayloadLength c
       \<or> \<not> sameBytes (pkPayload d) (pkPayload c) (unat (pkPayloadLength c))"
  shows "evaluateNodeCommand d l p (remember c s) = ((ACK_SUCCESS, SUCCESS), remember d SUCCESS)"
proof -
  have "unat (pkPayloadLength c) \<le> MAX_PAYLOAD_SIZE"
    using assms(1) isValidCommandPayload_bound by (auto simp: admissible_def)
  then have "\<not> isDuplicate (remember c s) d"
    using assms(3) by (auto simp: isDuplicate_remember_iff)
  then show ?thesis by (simp add: evaluateNodeCommand_admissible [OF assms(2)])
qed

theorem no_false_duplicate_witness:
  "evaluateNodeCommand (packet_init\<lparr>pkType := COMMAND, pkSource := 1, pkDestination := 2,
      pkSequence := 10, pkOpcode := 0x64\<rparr>) 2 1
     (remember (packet_init\<lparr>pkType := COMMAND, pkSource := 1, pkDestination := 2,
      pkSequence := 9, pkOpcode := 0x64\<rparr>) SUCCESS) = ((ACK_SUCCESS, SUCCESS),
     remember (packet_init\<lparr>pkType := COMMAND, pkSource := 1, pkDestination := 2,
      pkSequence := 10, pkOpcode := 0x64\<rparr>) SUCCESS)"
  by (rule no_false_duplicate)
    (simp_all add: admissible_def isAddressedTo_def isSupportedCommandOpcode_def
      isValidCommandPayload_def expectedCommandPayloadLength_def packet_init_def)

subsection \<open>Acknowledgments\<close>

text \<open>The acknowledgment the Node builds for a command is sendable, and the Hub that has this
  command outstanding recognises it and reads exactly the status the Node gave; a completed
  transaction succeeds precisely on status \<open>SUCCESS\<close>.\<close>

theorem acknowledgment_matches:
  "packet_sendable (makeAcknowledgment c s)
   \<and> evaluateHubAcknowledgment (makeAcknowledgment c s) c (pkSource c) (pkDestination c)
       = (MATCHING_ACK, ackStatus_code s)
   \<and> isValidAckStatus (ackStatus_code s)
   \<and> (acknowledgmentCompletionAction (ackStatus_of (ackStatus_code s)) = TRANSACTION_SUCCEEDED
      \<longleftrightarrow> s = SUCCESS)"
  by (simp add: packet_sendable_def packet_wf_def packetType_named_def makeAcknowledgment_def
      packet_init_def evaluateHubAcknowledgment_def isAddressedTo_def
      acknowledgmentCompletionAction_def)

lemma evaluateHubAcknowledgment_match:
  assumes "evaluateHubAcknowledgment a c h n = (MATCHING_ACK, raw)"
  shows "pkType a = ACK \<and> pkSource a = n \<and> pkDestination a = h \<and> pkSequence a = pkSequence c
    \<and> pkOpcode a = pkOpcode c \<and> pkPayloadLength a = 1 \<and> raw = pkPayload a ! 0"
  using assms by (auto simp: evaluateHubAcknowledgment_def isAddressedTo_def split: if_splits)

subsection \<open>Deadlines and retries\<close>

text \<open>With a timeout below \<open>2 ^ 31\<close> milliseconds the acknowledgment wait is decided by elapsed
  time only, across wrap-around of the 32-bit clock: for every elapsed time up to \<open>2 ^ 31\<close> the
  wait continues exactly while fewer than \<open>timeout\<close> milliseconds have passed since it began.\<close>

theorem acknowledgment_wait_elapsed:
  assumes "uint (htAcknowledgmentTimeoutMs s) < 2 ^ 31" and "elapsed < 2 ^ 31"
  shows "acknowledgmentWaitAction (start + of_nat elapsed) (beginAcknowledgmentWait start s) =
    (if int elapsed < uint (htAcknowledgmentTimeoutMs s) then NO_ACTION
     else if htRetryCount s < htMaximumRetries s then RETRANSMIT else TRANSACTION_FAILED)"
proof -
  let ?t = "htAcknowledgmentTimeoutMs s"
  have e: "uint (of_nat elapsed :: u32) = int elapsed"
    using assms(2) by (simp add: unsigned_of_nat take_bit_eq_mod)
  have d: "uint (of_nat elapsed - ?t) = (if uint ?t \<le> int elapsed then int elapsed - uint ?t
      else int elapsed - uint ?t + 2 ^ 32)"
    by (simp add: uint_sub_if' e)
  have "0 \<le> uint ?t" and "int elapsed < 2 ^ 31" using assms(2) by simp_all
  then have "2 ^ 31 \<le> uint (of_nat elapsed - ?t) \<longleftrightarrow> int elapsed < uint ?t"
    using assms(1) unfolding d
    by (cases "uint ?t \<le> int elapsed") (simp_all only: if_True if_False simp_thms, linarith, simp)
  then have "beforeDeadline (start + of_nat elapsed) (start + ?t) \<longleftrightarrow> int elapsed < uint ?t"
    by (simp add: beforeDeadline_iff)
  then show ?thesis
    by (auto simp: acknowledgmentWaitAction_def beginAcknowledgmentWait_def)
qed

theorem acknowledgment_wait_elapsed_witness:
  "acknowledgmentWaitAction (4294967000 + of_nat 2499)
     (beginAcknowledgmentWait 4294967000 (hubTransactionState_new 1 2 2500)) = NO_ACTION
   \<and> acknowledgmentWaitAction (4294967000 + of_nat 2500)
     (beginAcknowledgmentWait 4294967000 (hubTransactionState_new 1 2 2500)) = RETRANSMIT"
  using acknowledgment_wait_elapsed [of "hubTransactionState_new 1 2 2500" 2499 4294967000]
    acknowledgment_wait_elapsed [of "hubTransactionState_new 1 2 2500" 2500 4294967000]
  by (simp add: hubTransactionState_new_def)

end
