(* ===== verification/EventProtocol.thy ===== *)
theory EventProtocol
  imports Protocol
begin

text \<open>
  Node-originated Events and Hub admission responses on the radio
  (\<^verbatim>\<open>lib/event_protocol/src/event_protocol.h\<close>): the Event families and their bodies, the validity rules,
  and the two codecs, both carried in Wire Protocol 1 packets.
\<close>

subsection \<open>Vocabulary\<close>

definition COMMON_PAYLOAD_SIZE :: nat where [simp]: "COMMON_PAYLOAD_SIZE = 14"
definition MAX_BODY_SIZE :: nat where [simp]: "MAX_BODY_SIZE = 12"
definition ADMISSION_PAYLOAD_SIZE :: nat where [simp]: "ADMISSION_PAYLOAD_SIZE = 9"
definition IMPORTANT_FLAG :: u8 where [simp]: "IMPORTANT_FLAG = 0x01"
definition ALLOWED_FLAGS :: u8 where [simp]: "ALLOWED_FLAGS = IMPORTANT_FLAG"
definition MIN_LIFETIME_SECONDS :: u32 where [simp]: "MIN_LIFETIME_SECONDS = 60"
definition MAX_LIFETIME_SECONDS :: u32 where [simp]: "MAX_LIFETIME_SECONDS = 86400"

datatype family = BUTTON | SENSOR_THRESHOLD | MANUAL_CHECK_IN

fun family_code :: "family \<Rightarrow> u8" where
  "family_code BUTTON = 0x40"
| "family_code SENSOR_THRESHOLD = 0x41"
| "family_code MANUAL_CHECK_IN = 0x44"

datatype buttonEvent = PRESS | RELEASE | SHORT_PRESS | LONG_PRESS | VERY_LONG_PRESS

fun buttonEvent_code :: "buttonEvent \<Rightarrow> u8" where
  "buttonEvent_code PRESS = 0x01"
| "buttonEvent_code RELEASE = 0x02"
| "buttonEvent_code SHORT_PRESS = 0x03"
| "buttonEvent_code LONG_PRESS = 0x04"
| "buttonEvent_code VERY_LONG_PRESS = 0x05"

datatype sensorValueType = SV_UNSIGNED_32 | SV_SIGNED_32 | SV_NORMALIZED_U16 | SV_FIXED_Q16_16
  | SV_ENUM_U16

fun sensorValueType_code :: "sensorValueType \<Rightarrow> u8" where
  "sensorValueType_code SV_UNSIGNED_32 = 0x02"
| "sensorValueType_code SV_SIGNED_32 = 0x03"
| "sensorValueType_code SV_NORMALIZED_U16 = 0x04"
| "sensorValueType_code SV_FIXED_Q16_16 = 0x05"
| "sensorValueType_code SV_ENUM_U16 = 0x06"

datatype thresholdRelation = CROSSED_BELOW | CROSSED_ABOVE

fun thresholdRelation_code :: "thresholdRelation \<Rightarrow> u8" where
  "thresholdRelation_code CROSSED_BELOW = 0x01"
| "thresholdRelation_code CROSSED_ABOVE = 0x02"

datatype manualReason = USER_REQUEST

fun manualReason_code :: "manualReason \<Rightarrow> u8" where
  "manualReason_code USER_REQUEST = 0x01"

datatype admissionStatus = ADMITTED | CAPACITY | IDENTITY_CONTENT_MISMATCH | UNSUPPORTED_EVENT
  | MALFORMED_EVENT | AdmissionStatus_raw u8

fun admissionStatus_code :: "admissionStatus \<Rightarrow> u8" where
  "admissionStatus_code ADMITTED = 0x00"
| "admissionStatus_code CAPACITY = 0x01"
| "admissionStatus_code IDENTITY_CONTENT_MISMATCH = 0x02"
| "admissionStatus_code UNSUPPORTED_EVENT = 0x03"
| "admissionStatus_code MALFORMED_EVENT = 0x04"
| "admissionStatus_code (AdmissionStatus_raw b) = b"

definition admissionStatus_of :: "u8 \<Rightarrow> admissionStatus" where
  "admissionStatus_of b =
     (if b = 0x00 then ADMITTED else if b = 0x01 then CAPACITY
      else if b = 0x02 then IDENTITY_CONTENT_MISMATCH else if b = 0x03 then UNSUPPORTED_EVENT
      else if b = 0x04 then MALFORMED_EVENT else AdmissionStatus_raw b)"

record identity =
  idSourceDeviceId :: u8
  idEpoch :: u32
  idId :: u32

record event =
  evSource :: u8
  evDestination :: u8
  evSequence :: u8
  evFamily :: u8
  evEpoch :: u32
  evId :: u32
  evFlags :: u8
  evLifetimeBudgetSeconds :: u32
  evBodyLength :: u8
  evBody :: bytes

definition event_init :: event where
  "event_init = \<lparr>evSource = 0, evDestination = 0, evSequence = 0, evFamily = 0, evEpoch = 0,
     evId = 0, evFlags = 0, evLifetimeBudgetSeconds = 0, evBodyLength = 0,
     evBody = fillZero MAX_BODY_SIZE\<rparr>"

record admissionResponse =
  arSource :: u8
  arDestination :: u8
  arSequence :: u8
  arFamily :: u8
  arStatus :: admissionStatus
  arEpoch :: u32
  arId :: u32

subsection \<open>Helpers and validity\<close>

definition writeUint32Le :: "bytes \<Rightarrow> nat \<Rightarrow> u32 \<Rightarrow> bytes" where
  "writeUint32Le output off value =
     output[off := ucast (value AND 0xFF), off + 1 := ucast (drop_bit 8 value AND 0xFF),
       off + 2 := ucast (drop_bit 16 value AND 0xFF), off + 3 := ucast (drop_bit 24 value AND 0xFF)]"

definition readUint32Le :: "bytes \<Rightarrow> nat \<Rightarrow> u32" where
  "readUint32Le input off = (ucast (input ! off) OR push_bit 8 (ucast (input ! (off + 1)))
     OR push_bit 16 (ucast (input ! (off + 2))) OR push_bit 24 (ucast (input ! (off + 3))))"

definition isRegisteredFamily :: "u8 \<Rightarrow> bool" where
  "isRegisteredFamily fam = (fam = family_code BUTTON \<or> fam = family_code SENSOR_THRESHOLD
     \<or> fam = family_code MANUAL_CHECK_IN)"

definition expectedBodyLength :: "u8 \<Rightarrow> nat" where
  "expectedBodyLength fam =
     (if fam = family_code BUTTON \<or> fam = family_code MANUAL_CHECK_IN then 1
      else if fam = family_code SENSOR_THRESHOLD then 8 else MAX_BODY_SIZE + 1)"

definition isValidButtonEvent :: "u8 \<Rightarrow> bool" where
  "isValidButtonEvent value =
     (value \<ge> buttonEvent_code PRESS \<and> value \<le> buttonEvent_code VERY_LONG_PRESS)"

definition isValidSensorValueType :: "u8 \<Rightarrow> bool" where
  "isValidSensorValueType value =
     (value \<ge> sensorValueType_code SV_UNSIGNED_32 \<and> value \<le> sensorValueType_code SV_ENUM_U16)"

definition isValidThresholdRelation :: "u8 \<Rightarrow> bool" where
  "isValidThresholdRelation value = (value = thresholdRelation_code CROSSED_BELOW
     \<or> value = thresholdRelation_code CROSSED_ABOVE)"

definition isValidAdmissionStatus :: "u8 \<Rightarrow> bool" where
  "isValidAdmissionStatus value = (value \<le> admissionStatus_code MALFORMED_EVENT)"

definition isValidFamilyBody :: "u8 \<Rightarrow> bytes option \<Rightarrow> u8 \<Rightarrow> bool" where
  "isValidFamilyBody fam body bodyLength = (case body of None \<Rightarrow> False | Some b \<Rightarrow>
     if unat bodyLength \<noteq> expectedBodyLength fam then False
     else if fam = family_code BUTTON then isValidButtonEvent (b ! 0)
     else if fam = family_code SENSOR_THRESHOLD then
       (let capabilityId = (ucast (b ! 0) OR push_bit 8 (ucast (b ! 1)) :: u16) in
        if capabilityId = 0 \<or> \<not> isValidSensorValueType (b ! 2)
           \<or> \<not> isValidThresholdRelation (b ! 7) then False
        else let valueType = b ! 2 in
          if valueType = sensorValueType_code SV_NORMALIZED_U16
             \<or> valueType = sensorValueType_code SV_ENUM_U16
          then b ! 5 = 0 \<and> b ! 6 = 0 else True)
     else if fam = family_code MANUAL_CHECK_IN then b ! 0 = manualReason_code USER_REQUEST
     else False)"

definition hasValidEndpoints :: "u8 \<Rightarrow> u8 \<Rightarrow> bool" where
  "hasValidEndpoints source destination = (source \<noteq> 0 \<and> destination \<noteq> 0 \<and> source \<noteq> destination)"

definition isValidEvent :: "event \<Rightarrow> bool" where
  "isValidEvent e = (hasValidEndpoints (evSource e) (evDestination e)
     \<and> evEpoch e \<noteq> 0 \<and> evId e \<noteq> 0 \<and> (evFlags e AND NOT ALLOWED_FLAGS) = 0
     \<and> evLifetimeBudgetSeconds e \<ge> MIN_LIFETIME_SECONDS
     \<and> evLifetimeBudgetSeconds e \<le> MAX_LIFETIME_SECONDS
     \<and> unat (evBodyLength e) \<le> MAX_BODY_SIZE \<and> isRegisteredFamily (evFamily e)
     \<and> isValidFamilyBody (evFamily e) (Some (evBody e)) (evBodyLength e))"

definition sameIdentity :: "identity \<Rightarrow> identity \<Rightarrow> bool" where
  "sameIdentity left right = (idSourceDeviceId left = idSourceDeviceId right
     \<and> idEpoch left = idEpoch right \<and> idId left = idId right)"

definition sameCanonicalContent :: "event \<Rightarrow> event \<Rightarrow> bool" where
  "sameCanonicalContent left right =
     (if evSource left \<noteq> evSource right \<or> evFamily left \<noteq> evFamily right
         \<or> evEpoch left \<noteq> evEpoch right \<or> evId left \<noteq> evId right \<or> evFlags left \<noteq> evFlags right
         \<or> evLifetimeBudgetSeconds left \<noteq> evLifetimeBudgetSeconds right
         \<or> evBodyLength left \<noteq> evBodyLength right
      then False else sameBytes (evBody left) (evBody right) (unat (evBodyLength left)))"

subsection \<open>Event codec\<close>

text \<open>The packet \<open>encodeEvent\<close> hands to \<open>Protocol.encode\<close>.\<close>

definition eventPacket :: "event \<Rightarrow> packet" where
  "eventPacket e = (let
     p1 = writeUint32Le (pkPayload packet_init) 0 (evEpoch e);
     p2 = writeUint32Le p1 4 (evId e);
     p3 = p2[8 := evFlags e];
     p4 = writeUint32Le p3 9 (evLifetimeBudgetSeconds e);
     p5 = p4[13 := evBodyLength e];
     p6 = copyBytes p5 COMMON_PAYLOAD_SIZE (evBody e) (unat (evBodyLength e))
   in packet_init\<lparr>pkType := EVENT, pkSource := evSource e, pkDestination := evDestination e,
        pkSequence := evSequence e, pkOpcode := evFamily e,
        pkPayloadLength := of_nat (COMMON_PAYLOAD_SIZE + unat (evBodyLength e)),
        pkPayload := p6\<rparr>)"

definition encodeEvent :: "event \<Rightarrow> bytes option \<Rightarrow> bool \<times> bytes option \<times> nat" where
  "encodeEvent e output =
     (if \<not> isValidEvent e then (False, output, 0) else encode (eventPacket e) output)"

definition decodeEvent :: "bytes option \<Rightarrow> event option" where
  "decodeEvent input = (case decode input packet_init of None \<Rightarrow> None | Some packet \<Rightarrow>
     if pkType packet \<noteq> EVENT \<or> unat (pkPayloadLength packet) < COMMON_PAYLOAD_SIZE then None
     else let
       payload = pkPayload packet;
       decoded = event_init\<lparr>evSource := pkSource packet, evDestination := pkDestination packet,
         evSequence := pkSequence packet, evFamily := pkOpcode packet,
         evEpoch := readUint32Le payload 0, evId := readUint32Le payload 4,
         evFlags := payload ! 8, evLifetimeBudgetSeconds := readUint32Le payload 9,
         evBodyLength := payload ! 13\<rparr>
     in if unat (evBodyLength decoded) > MAX_BODY_SIZE
           \<or> unat (pkPayloadLength packet) \<noteq> COMMON_PAYLOAD_SIZE + unat (evBodyLength decoded)
        then None
        else let decoded = decoded\<lparr>evBody := copyBytes (evBody decoded) 0
               (drop COMMON_PAYLOAD_SIZE payload) (unat (evBodyLength decoded))\<rparr>
        in if \<not> isValidEvent decoded then None else Some decoded)"

subsection \<open>Admission response codec\<close>

definition isCorrelatableFamily :: "u8 \<Rightarrow> bool" where
  "isCorrelatableFamily fam = (fam \<ge> OPCODE_APPLICATION_MIN \<and> fam \<le> OPCODE_APPLICATION_MAX)"

definition isValidAdmissionResponse :: "admissionResponse \<Rightarrow> bool" where
  "isValidAdmissionResponse r = (hasValidEndpoints (arSource r) (arDestination r)
     \<and> isCorrelatableFamily (arFamily r) \<and> arEpoch r \<noteq> 0 \<and> arId r \<noteq> 0
     \<and> isValidAdmissionStatus (admissionStatus_code (arStatus r)))"

definition admissionPacket :: "admissionResponse \<Rightarrow> packet" where
  "admissionPacket r = (let
     p1 = (pkPayload packet_init)[0 := admissionStatus_code (arStatus r)];
     p2 = writeUint32Le p1 1 (arEpoch r);
     p3 = writeUint32Le p2 5 (arId r)
   in packet_init\<lparr>pkType := ACK, pkSource := arSource r, pkDestination := arDestination r,
        pkSequence := arSequence r, pkOpcode := arFamily r,
        pkPayloadLength := of_nat ADMISSION_PAYLOAD_SIZE, pkPayload := p3\<rparr>)"

definition encodeAdmissionResponse ::
  "admissionResponse \<Rightarrow> bytes option \<Rightarrow> bool \<times> bytes option \<times> nat" where
  "encodeAdmissionResponse r output = (if \<not> isValidAdmissionResponse r then (False, output, 0)
     else encode (admissionPacket r) output)"

definition decodeAdmissionResponse :: "bytes option \<Rightarrow> admissionResponse option" where
  "decodeAdmissionResponse input = (case decode input packet_init of None \<Rightarrow> None | Some packet \<Rightarrow>
     if pkType packet \<noteq> ACK \<or> unat (pkPayloadLength packet) \<noteq> ADMISSION_PAYLOAD_SIZE then None
     else let decoded = \<lparr>arSource = pkSource packet, arDestination = pkDestination packet,
         arSequence = pkSequence packet, arFamily = pkOpcode packet,
         arStatus = admissionStatus_of (pkPayload packet ! 0),
         arEpoch = readUint32Le (pkPayload packet) 1, arId = readUint32Le (pkPayload packet) 5\<rparr>
       in if \<not> isValidAdmissionResponse decoded then None else Some decoded)"

definition makeAdmissionResponse :: "event \<Rightarrow> admissionStatus \<Rightarrow> admissionResponse" where
  "makeAdmissionResponse e status = \<lparr>arSource = evDestination e, arDestination = evSource e,
     arSequence = evSequence e, arFamily = evFamily e, arStatus = status, arEpoch = evEpoch e,
     arId = evId e\<rparr>"

definition matchesEvent :: "admissionResponse \<Rightarrow> event \<Rightarrow> bool" where
  "matchesEvent r e = (isValidAdmissionResponse r \<and> arSource r = evDestination e
     \<and> arDestination r = evSource e \<and> arSequence r = evSequence e \<and> arFamily r = evFamily e
     \<and> arEpoch r = evEpoch e \<and> arId r = evId e)"

subsection \<open>Byte-level facts\<close>

lemma ucast_mask8 [simp]: "(ucast (v AND 0xFF :: u32) :: u8) = ucast v"
proof (rule bit_word_eqI)
  fix n assume "n < LENGTH(8)"
  then have "n = 0 \<or> n = 1 \<or> n = 2 \<or> n = 3 \<or> n = 4 \<or> n = 5 \<or> n = 6 \<or> n = 7"
    by (simp add: less_Suc_eq numeral_eq_Suc)
  then show "bit (ucast (v AND 0xFF) :: u8) n = bit (ucast v :: u8) n"
    by (auto simp: bit_simps bit_numeral_rec)
qed

lemma writeUint32Le_put: "writeUint32Le = putLe32"
  by (simp add: fun_eq_iff writeUint32Le_def putLe32_def)

lemma readUint32Le_get: "readUint32Le = getLe32"
  by (simp add: fun_eq_iff readUint32Le_def getLe32_def word32_of_def)

lemma admissionStatus_code_of [simp, enum_simps]: "admissionStatus_code (admissionStatus_of b) = b"
  by (simp add: admissionStatus_of_def)

text \<open>\<open>admissionStatus_named\<close>: the status is one of the five enumerators.\<close>

definition admissionStatus_named :: "admissionStatus \<Rightarrow> bool" where
  "admissionStatus_named s = (case s of AdmissionStatus_raw _ \<Rightarrow> False | _ \<Rightarrow> True)"

lemma admissionStatus_of_code [enum_simps]:
  "admissionStatus_named s \<Longrightarrow> admissionStatus_of (admissionStatus_code s) = s"
  by (cases s) (simp_all add: admissionStatus_named_def admissionStatus_of_def)

lemma isValidAdmissionStatus_named:
  "admissionStatus_named s \<Longrightarrow> isValidAdmissionStatus (admissionStatus_code s)"
  by (cases s) (simp_all add: admissionStatus_named_def isValidAdmissionStatus_def)

lemma admissionStatus_named_of: "isValidAdmissionStatus b \<Longrightarrow> admissionStatus_named (admissionStatus_of b)"
proof -
  assume "isValidAdmissionStatus b"
  then have "unat b \<le> 4" by (simp add: isValidAdmissionStatus_def word_le_nat_alt)
  then have "unat b = 0 \<or> unat b = 1 \<or> unat b = 2 \<or> unat b = 3 \<or> unat b = 4" by arith
  then have "b = 0 \<or> b = 1 \<or> b = 2 \<or> b = 3 \<or> b = 4"
    by (simp add: word_unat_eq_iff)
  then show ?thesis by (auto simp: admissionStatus_of_def admissionStatus_named_def)
qed

text \<open>\<open>event_wf\<close>: the body array has its declared size.\<close>

definition event_wf :: "event \<Rightarrow> bool" where
  "event_wf e = (length (evBody e) = MAX_BODY_SIZE)"

text \<open>\<open>canonicalBody e\<close> is \<open>e\<close> with zeroes behind the body bytes in use.\<close>

definition canonicalBody :: "event \<Rightarrow> event" where
  "canonicalBody e = e\<lparr>evBody := zeroPadded (evBody e) (unat (evBodyLength e)) MAX_BODY_SIZE\<rparr>"

lemma isValidFamilyBody_length:
  "isValidFamilyBody fam (Some b) len \<Longrightarrow> unat len = expectedBodyLength fam"
  by (simp add: isValidFamilyBody_def split: if_splits)

lemma isValidFamilyBody_cong:
  assumes "sameBytes a b (unat len)"
  shows "isValidFamilyBody fam (Some a) len = isValidFamilyBody fam (Some b) len"
  using assms
  by (auto simp: isValidFamilyBody_def expectedBodyLength_def sameBytes_nth)

lemma isValidEvent_canonicalBody [simp]: "isValidEvent (canonicalBody e) = isValidEvent e"
proof -
  have "unat (evBodyLength e) \<le> 12 \<Longrightarrow>
      isValidFamilyBody (evFamily e) (Some (zeroPadded (evBody e) (unat (evBodyLength e)) 12))
        (evBodyLength e) = isValidFamilyBody (evFamily e) (Some (evBody e)) (evBodyLength e)"
    by (rule isValidFamilyBody_cong) simp
  then show ?thesis
    by (auto simp: isValidEvent_def canonicalBody_def)
qed

lemma copyBytes_fillZero:
  "n \<le> m \<Longrightarrow> copyBytes (fillZero m) 0 src n = zeroPadded src n m"
  by (rule nth_equalityI) (auto simp: nth_copyBytes nth_zeroPadded)

subsection \<open>Round trips\<close>

lemma isValidEvent_bodyLength: "isValidEvent e \<Longrightarrow> unat (evBodyLength e) \<le> 12"
  by (simp add: isValidEvent_def)

lemma unat_payloadLength:
  "n \<le> 12 \<Longrightarrow> unat (of_nat (14 + n) :: u8) = 14 + n"
  by (simp add: unsigned_of_nat take_bit_eq_mod del: of_nat_add)

lemma eventPacket_fields [simp]:
  "pkType (eventPacket e) = EVENT" "pkSource (eventPacket e) = evSource e"
  "pkDestination (eventPacket e) = evDestination e" "pkSequence (eventPacket e) = evSequence e"
  "pkOpcode (eventPacket e) = evFamily e"
  "pkPayloadLength (eventPacket e) = of_nat (14 + unat (evBodyLength e))"
  by (simp_all add: eventPacket_def)

lemma admissionPacket_fields [simp]:
  "pkType (admissionPacket r) = ACK" "pkSource (admissionPacket r) = arSource r"
  "pkDestination (admissionPacket r) = arDestination r" "pkSequence (admissionPacket r) = arSequence r"
  "pkOpcode (admissionPacket r) = arFamily r" "pkPayloadLength (admissionPacket r) = 9"
  by (simp_all add: admissionPacket_def)

lemma eventPacket_sendable: "isValidEvent e \<Longrightarrow> packet_sendable (eventPacket e)"
  using isValidEvent_bodyLength [of e] unat_payloadLength [of "unat (evBodyLength e)"]
  by (simp add: packet_sendable_def packet_wf_def packetType_named_def eventPacket_def
      packet_init_def writeUint32Le_put)

lemma decode_eventPacket:
  assumes v: "isValidEvent e"
  shows "decodeEvent (Some (wireBytes (eventPacket e))) = Some (canonicalBody e)"
proof -
  note l = isValidEvent_bodyLength [OF v]
  note u = unat_payloadLength [OF l]
  let ?n = "14 + unat (evBodyLength e)"
  let ?pl = "copyBytes (fillZero 26) 0 (pkPayload (eventPacket e)) ?n"
  let ?p5 = "(putLe32 ((putLe32 (putLe32 (fillZero 26) 0 (evEpoch e)) 4 (evId e))[8 := evFlags e])
      9 (evLifetimeBudgetSeconds e))[13 := evBodyLength e]"
  have pl: "pkPayload (eventPacket e) = copyBytes ?p5 14 (evBody e) (unat (evBodyLength e))"
    by (simp add: eventPacket_def packet_init_def writeUint32Le_put)
  have g1: "?pl ! k = ?p5 ! k" if "k < 14" for k
    using that unfolding pl by (simp add: nth_copyBytes)
  have g2: "getLe32 ?pl k = getLe32 ?p5 k" if "k + 4 \<le> 14" for k
    using that by (simp add: getLe32_def g1 del: copyBytes.simps)
  have f: "getLe32 ?pl 0 = evEpoch e" "getLe32 ?pl 4 = evId e" "?pl ! 8 = evFlags e"
      "getLe32 ?pl 9 = evLifetimeBudgetSeconds e" "?pl ! 13 = evBodyLength e"
    by (simp_all add: g1 g2 buffer_simps del: nth_copyBytes)
  have b: "copyBytes (fillZero 12) 0 (drop 14 ?pl) (unat (evBodyLength e)) =
      zeroPadded (evBody e) (unat (evBodyLength e)) 12"
    using l by (intro nth_equalityI) (auto simp: nth_copyBytes nth_zeroPadded pl)
  have "decodeEvent (Some (wireBytes (eventPacket e))) =
      (if isValidEvent (canonicalBody e) then Some (canonicalBody e) else None)"
    using l unfolding decodeEvent_def decode_wireBytes [OF eventPacket_sendable [OF v]]
    by (simp add: u readUint32Le_get packet_init_def event_init_def f b canonicalBody_def
        del: of_nat_add of_nat_Suc) (cases e, simp)
  then show ?thesis using v by simp
qed

lemma encodeEvent_ok:
  assumes v: "isValidEvent e" and cap: "20 + unat (evBodyLength e) \<le> length out"
  shows "encodeEvent e (Some out) = (True,
      Some (wireBytes (eventPacket e) @ drop (20 + unat (evBodyLength e)) out),
      20 + unat (evBodyLength e)) \<and> length (wireBytes (eventPacket e)) = 20 + unat (evBodyLength e)"
proof -
  have w: "length (wireBytes (eventPacket e)) = 20 + unat (evBodyLength e)"
    using packet_sendableD(4) [OF eventPacket_sendable [OF v]]
      unat_payloadLength [OF isValidEvent_bodyLength [OF v]] by simp
  with encode_wireBytes [OF eventPacket_sendable [OF v], of out] cap v show ?thesis
    by (simp add: encodeEvent_def)
qed

text \<open>C35. A valid Event survives the radio: encoding into a large enough buffer succeeds with
  20 plus the body length bytes, and decoding them gives the same Event (header, identity, flags,
  lifetime, body), with the unused body bytes zeroed; encoding anything else is refused.\<close>

theorem event_roundtrip:
  "(isValidEvent e \<and> 20 + unat (evBodyLength e) \<le> length out \<longrightarrow>
     (\<exists>out'. encodeEvent e (Some out) = (True, Some out', 20 + unat (evBodyLength e))
       \<and> drop (20 + unat (evBodyLength e)) out' = drop (20 + unat (evBodyLength e)) out
       \<and> decodeEvent (Some (take (20 + unat (evBodyLength e)) out')) = Some (canonicalBody e)
       \<and> sameCanonicalContent (canonicalBody e) e))
   \<and> (\<not> isValidEvent e \<longrightarrow> encodeEvent e (Some out) = (False, Some out, 0))"
proof (cases "isValidEvent e")
  case v: True
  have "sameCanonicalContent (canonicalBody e) e"
    using isValidEvent_bodyLength [OF v]
    by (simp add: sameCanonicalContent_def canonicalBody_def)
  then show ?thesis
    using v encodeEvent_ok [OF v, of out] decode_eventPacket [OF v] by auto
next
  case False
  then show ?thesis by (simp add: encodeEvent_def)
qed

definition sampleEvent :: event where
  "sampleEvent = event_init\<lparr>evSource := 2, evDestination := 1, evSequence := 5, evFamily := 0x40,
     evEpoch := 77, evId := 3, evLifetimeBudgetSeconds := 600, evBodyLength := 1,
     evBody := (fillZero 12)[0 := 3]\<rparr>"

lemma sampleEvent_valid: "isValidEvent sampleEvent"
  by (simp add: isValidEvent_def sampleEvent_def event_init_def hasValidEndpoints_def
      isRegisteredFamily_def isValidFamilyBody_def expectedBodyLength_def isValidButtonEvent_def)

theorem event_roundtrip_witness:
  "isValidEvent sampleEvent \<and> (\<exists>out'. encodeEvent sampleEvent (Some (fillZero 32)) = (True, Some out', 21)
     \<and> decodeEvent (Some (take 21 out')) = Some (canonicalBody sampleEvent))"
  using event_roundtrip [of sampleEvent "fillZero 32"] sampleEvent_valid
  by (auto simp: sampleEvent_def)

lemma decodeEvent_SomeD:
  assumes "decodeEvent (Some inp) = Some e"
  shows "isValidEvent e" "event_wf e"
  using assms
  by (auto simp: decodeEvent_def event_wf_def event_init_def split: option.splits if_splits)

lemma admissionPacket_sendable: "packet_sendable (admissionPacket r)"
  by (simp add: packet_sendable_def packet_wf_def packetType_named_def admissionPacket_def
      packet_init_def writeUint32Le_put)

lemma decode_admissionPacket:
  assumes v: "isValidAdmissionResponse r" and n: "admissionStatus_named (arStatus r)"
  shows "decodeAdmissionResponse (Some (wireBytes (admissionPacket r))) = Some r"
proof -
  let ?p = "putLe32 (putLe32 ((fillZero 26)[0 := admissionStatus_code (arStatus r)]) 1 (arEpoch r)) 5 (arId r)"
  have pl: "pkPayload (admissionPacket r) = ?p" "pkPayloadLength (admissionPacket r) = 9"
    by (simp_all add: admissionPacket_def packet_init_def writeUint32Le_put)
  let ?q = "copyBytes (fillZero 26) 0 (pkPayload (admissionPacket r)) 9"
  have q: "?q ! k = ?p ! k" if "k < 9" for k
    using that unfolding pl by (simp add: nth_copyBytes)
  have "getLe32 ?q 1 = getLe32 ?p 1" "getLe32 ?q 5 = getLe32 ?p 5" "?q ! 0 = ?p ! 0"
    by (simp_all add: getLe32_def q)
  moreover have "getLe32 ?p 1 = arEpoch r" "getLe32 ?p 5 = arId r"
      "?p ! 0 = admissionStatus_code (arStatus r)"
    by (simp_all add: buffer_simps)
  ultimately show ?thesis
    using v n unfolding decodeAdmissionResponse_def decode_wireBytes [OF admissionPacket_sendable]
    by (simp add: readUint32Le_get packet_init_def admissionStatus_of_code) (cases r, simp)
qed

text \<open>The admission response the Hub builds for a valid Event with any of the five statuses is
  valid, reaches the Node unchanged through the codec and is matched to exactly that Event: of two
  Events that differ in endpoints, sequence, family, epoch or id, it never matches the other.\<close>

theorem admission_response_correlation:
  assumes "isValidEvent e" and "admissionStatus_named s" and "15 \<le> length out"
  shows "\<exists>out'. encodeAdmissionResponse (makeAdmissionResponse e s) (Some out) = (True, Some out', 15)
    \<and> decodeAdmissionResponse (Some (take 15 out')) = Some (makeAdmissionResponse e s)
    \<and> matchesEvent (makeAdmissionResponse e s) e
    \<and> (\<forall>e'. matchesEvent (makeAdmissionResponse e s) e' \<longleftrightarrow>
          (evSource e', evDestination e', evSequence e', evFamily e', evEpoch e', evId e') =
          (evSource e, evDestination e, evSequence e, evFamily e, evEpoch e, evId e))"
proof -
  let ?r = "makeAdmissionResponse e s"
  have v: "isValidAdmissionResponse ?r"
    using assms(1) isValidAdmissionStatus_named [OF assms(2)]
    by (auto simp: isValidAdmissionResponse_def makeAdmissionResponse_def isValidEvent_def
        hasValidEndpoints_def isCorrelatableFamily_def isRegisteredFamily_def)
  have n: "admissionStatus_named (arStatus ?r)" using assms(2) by (simp add: makeAdmissionResponse_def)
  have w: "length (wireBytes (admissionPacket ?r)) = 15"
    using packet_sendableD(4) [OF admissionPacket_sendable, of ?r] by simp
  have "matchesEvent ?r e' \<longleftrightarrow>
      (evSource e', evDestination e', evSequence e', evFamily e', evEpoch e', evId e') =
      (evSource e, evDestination e, evSequence e, evFamily e, evEpoch e, evId e)" for e'
    using v by (auto simp: matchesEvent_def makeAdmissionResponse_def)
  then show ?thesis
    using v encode_wireBytes [OF admissionPacket_sendable, of ?r out] assms(3)
      decode_admissionPacket [OF v n]
    by (auto simp: encodeAdmissionResponse_def w)
qed

theorem admission_response_correlation_witness:
  "isValidEvent sampleEvent \<and>
   (\<exists>out'. encodeAdmissionResponse (makeAdmissionResponse sampleEvent ADMITTED) (Some (fillZero 32))
      = (True, Some out', 15)
    \<and> decodeAdmissionResponse (Some (take 15 out')) = Some (makeAdmissionResponse sampleEvent ADMITTED))"
  using admission_response_correlation [of sampleEvent ADMITTED "fillZero 32"] sampleEvent_valid
  by (auto simp: admissionStatus_named_def)

end
