(* ===== verification/EventStore.thy ===== *)
theory EventStore
  imports Prelude
begin

text \<open>
  The dual-copy record discipline (\<^verbatim>\<open>lib/event_storage/src/event_store.h\<close>): generation comparison in
  serial-number arithmetic, read-back classification, and the selection of the authoritative one of
  two stored copies.  \<open>selectCopies\<close> is parametric in the record type, as the C++ template is.
\<close>

datatype copySlot = CopyA | CopyB
datatype fixedReadStatus = FRS_OK | FRS_MISSING | FRS_UNAVAILABLE
datatype readBackResult = RB_MATCH | RB_MISMATCH | RB_MISSING | RB_UNAVAILABLE
datatype generationOrder = LEFT_NEWER | RIGHT_NEWER | GEN_EQUAL | AMBIGUOUS
datatype selectionResult = NEWEST_A | NEWEST_B | ONLY_A_VALID | ONLY_B_VALID | BOTH_INVALID
  | EQUAL_IDENTICAL | EQUAL_DISAGREEMENT | SEL_GENERATION_AMBIGUOUS

record fixedCopy =
  fcStatus :: fixedReadStatus
  fcBytes :: bytes

definition fixedCopy_init :: "nat \<Rightarrow> fixedCopy" where
  "fixedCopy_init n = \<lparr>fcStatus = FRS_OK, fcBytes = fillZero n\<rparr>"

definition compareGenerations :: "u32 \<Rightarrow> u32 \<Rightarrow> generationOrder" where
  "compareGenerations left right =
     (if left = right then GEN_EQUAL
      else let distance = left - right in
        if distance = 0x80000000 then AMBIGUOUS
        else if distance < 0x80000000 then LEFT_NEWER else RIGHT_NEWER)"

definition bytesEqual :: "bytes option \<Rightarrow> bytes option \<Rightarrow> nat \<Rightarrow> bool" where
  "bytesEqual left right n = (case (left, right) of
     (Some l, Some r) \<Rightarrow> sameBytes l r n | _ \<Rightarrow> False)"

definition classifyReadBack :: "bytes \<Rightarrow> fixedCopy \<Rightarrow> readBackResult" where
  "classifyReadBack written readBack =
     (if fcStatus readBack = FRS_MISSING then RB_MISSING
      else if fcStatus readBack \<noteq> FRS_OK then RB_UNAVAILABLE
      else if bytesEqual (Some written) (Some (fcBytes readBack)) (length written)
        then RB_MATCH else RB_MISMATCH)"

text \<open>
  The out-parameters \<open>selected\<close> and \<open>selectedSlot\<close> keep the caller's values where the code does not
  assign them; \<open>generation\<close> is the record's \<^verbatim>\<open>generation\<close> member.
\<close>

definition selectCopies :: "('r \<Rightarrow> u32) \<Rightarrow> (bytes \<Rightarrow> 'r option) \<Rightarrow> fixedCopy \<Rightarrow> fixedCopy \<Rightarrow>
    'r \<Rightarrow> copySlot \<Rightarrow> selectionResult \<times> 'r \<times> copySlot" where
  "selectCopies generation decode copyA copyB selected selectedSlot =
     (let decodedA = (if fcStatus copyA = FRS_OK then decode (fcBytes copyA) else None);
          decodedB = (if fcStatus copyB = FRS_OK then decode (fcBytes copyB) else None)
      in case (decodedA, decodedB) of
           (None, None) \<Rightarrow> (BOTH_INVALID, selected, selectedSlot)
         | (Some a, None) \<Rightarrow> (ONLY_A_VALID, a, CopyA)
         | (None, Some b) \<Rightarrow> (ONLY_B_VALID, b, CopyB)
         | (Some a, Some b) \<Rightarrow>
             (let order = compareGenerations (generation a) (generation b) in
              if order = GEN_EQUAL then
                (if \<not> bytesEqual (Some (fcBytes copyA)) (Some (fcBytes copyB)) (length (fcBytes copyA))
                 then (EQUAL_DISAGREEMENT, selected, selectedSlot)
                 else (EQUAL_IDENTICAL, a, CopyA))
              else if order = AMBIGUOUS then (SEL_GENERATION_AMBIGUOUS, selected, selectedSlot)
              else if order = LEFT_NEWER then (NEWEST_A, a, CopyA)
              else (NEWEST_B, b, CopyB)))"

definition opposite :: "copySlot \<Rightarrow> copySlot" where
  "opposite slot = (if slot = CopyA then CopyB else CopyA)"

lemma opposite_simps [simp]:
  "opposite CopyA = CopyB" "opposite CopyB = CopyA" "opposite (opposite s) = s"
  "opposite s \<noteq> s" "s \<noteq> opposite s"
  by (cases s; simp add: opposite_def)+

subsection \<open>Generation order\<close>

text \<open>Generation comparison is serial-number arithmetic: a generation is newer than another
  exactly when it is 1 to \<open>2 ^ 31 - 1\<close> increments ahead modulo \<open>2 ^ 32\<close>; swapping the arguments swaps
  the verdict, and only generations exactly \<open>2 ^ 31\<close> apart are ambiguous.\<close>

theorem compareGenerations_serial:
  "compareGenerations l r = (if l = r then GEN_EQUAL else if l = r + 2 ^ 31 then AMBIGUOUS
     else if \<exists>k. 0 < k \<and> k < 2 ^ 31 \<and> l = r + of_nat k then LEFT_NEWER else RIGHT_NEWER)
   \<and> compareGenerations r l = (case compareGenerations l r of LEFT_NEWER \<Rightarrow> RIGHT_NEWER
        | RIGHT_NEWER \<Rightarrow> LEFT_NEWER | x \<Rightarrow> x)"
proof -
  have "unat (l - r) < 2 ^ LENGTH(32)" by (rule unsigned_less)
  then have n: "unat (l - r) < 2 ^ 32" by simp
  have lt: "l - r < 0x80000000 \<longleftrightarrow> unat (l - r) < 2 ^ 31" by (simp add: word_less_nat_alt)
  have eq: "l - r = 0x80000000 \<longleftrightarrow> unat (l - r) = 2 ^ 31" by (simp add: word_unat_eq_iff)
  have swap: "l \<noteq> r \<Longrightarrow> unat (r - l) = 2 ^ 32 - unat (l - r)"
    using word_unat_eq_iff [of l r] unsigned_less [of l, where ?'a = nat]
      unsigned_less [of r, where ?'a = nat]
    by (auto simp: unat_sub_if_size word_size simp del: unsigned_less)
  have pos: "l \<noteq> r \<Longrightarrow> 0 < unat (l - r)" by (simp add: unat_gt_0)
  have ex: "l \<noteq> r \<Longrightarrow> (\<exists>k. 0 < k \<and> k < 2 ^ 31 \<and> l = r + of_nat k) \<longleftrightarrow> unat (l - r) < 2 ^ 31"
  proof safe
    fix k :: nat assume "k < 2 ^ 31" "l = r + of_nat k"
    then show "unat (r + of_nat k - r) < 2 ^ 31"
      by (simp add: unsigned_of_nat take_bit_eq_mod)
  next
    assume "l \<noteq> r" "unat (l - r) < 2 ^ 31"
    then show "\<exists>k. 0 < k \<and> k < 2 ^ 31 \<and> l = r + of_nat k"
      using pos by (intro exI [of _ "unat (l - r)"]) simp
  qed
  have e2: "l = r + 2 ^ 31 \<longleftrightarrow> l - r = 0x80000000" by (auto simp: algebra_simps)
  have rl: "r - l = 0x80000000 \<longleftrightarrow> unat (r - l) = 2 ^ 31" "r - l < 0x80000000 \<longleftrightarrow> unat (r - l) < 2 ^ 31"
    by (simp_all add: word_unat_eq_iff word_less_nat_alt)
  show ?thesis
    using n swap ex e2 by (auto simp: compareGenerations_def lt eq rl)
qed

lemma compareGenerations_next:
  "compareGenerations (g + 1) g = LEFT_NEWER" "compareGenerations g (g + 1) = RIGHT_NEWER"
proof -
  have "g + 1 - g = (1 :: u32)" "g - (g + 1) = (- 1 :: u32)" by simp_all
  then show "compareGenerations (g + 1) g = LEFT_NEWER" "compareGenerations g (g + 1) = RIGHT_NEWER"
    by (simp_all add: compareGenerations_def)
qed

end
