(* ===== verification/EventRecords.thy ===== *)
theory EventRecords
  imports EventProtocol EventStore
begin

text \<open>
  The persistent record formats (\<^verbatim>\<open>lib/event_storage/src/event_records.h\<close>): Node and Hub metadata, Node
  and Hub Event records.  Each is a fixed-size image with a magic, a schema version, its length, a
  generation and a trailing CRC-32.  The codecs are total functions on buffers; an encoder returns
  its \<^verbatim>\<open>CodecResult\<close> with the buffer, a decoder the error or the decoded record.
\<close>

subsection \<open>Vocabulary\<close>

definition NODE_METADATA_SIZE :: nat where [simp]: "NODE_METADATA_SIZE = 28"
definition HUB_METADATA_SIZE :: nat where [simp]: "HUB_METADATA_SIZE = 24"
definition NODE_RECORD_SIZE :: nat where [simp]: "NODE_RECORD_SIZE = 56"
definition HUB_RECORD_SIZE :: nat where [simp]: "HUB_RECORD_SIZE = 56"
definition SCHEMA_VERSION :: u16 where [simp]: "SCHEMA_VERSION = 1"
definition MAX_ATTEMPTS :: u8 where [simp]: "MAX_ATTEMPTS = 5"

datatype codecResult = CR_OK | NULL_POINTER | WRONG_LENGTH | BAD_MAGIC | BAD_SCHEMA
  | BAD_RECORD_LENGTH | BAD_CRC | NONZERO_RESERVED | INVALID_STATE | INVALID_METADATA
  | INVALID_EVENT | INVALID_ATTEMPTS | INVALID_LIFETIME | NONZERO_BODY_TAIL

datatype nodeState = NS_FREE | NS_QUEUED | NS_FAILED | NS_EXPIRED | NodeState_raw u8

fun nodeState_code :: "nodeState \<Rightarrow> u8" where
  "nodeState_code NS_FREE = 0x00"
| "nodeState_code NS_QUEUED = 0x01"
| "nodeState_code NS_FAILED = 0x02"
| "nodeState_code NS_EXPIRED = 0x03"
| "nodeState_code (NodeState_raw b) = b"

definition nodeState_of :: "u8 \<Rightarrow> nodeState" where
  "nodeState_of b = (if b = 0x00 then NS_FREE else if b = 0x01 then NS_QUEUED
     else if b = 0x02 then NS_FAILED else if b = 0x03 then NS_EXPIRED else NodeState_raw b)"

datatype hubState = HS_EMPTY | HS_ACTIVE | HS_CONSUMED | HubState_raw u8

fun hubState_code :: "hubState \<Rightarrow> u8" where
  "hubState_code HS_EMPTY = 0x00"
| "hubState_code HS_ACTIVE = 0x01"
| "hubState_code HS_CONSUMED = 0x02"
| "hubState_code (HubState_raw b) = b"

definition hubState_of :: "u8 \<Rightarrow> hubState" where
  "hubState_of b = (if b = 0x00 then HS_EMPTY else if b = 0x01 then HS_ACTIVE
     else if b = 0x02 then HS_CONSUMED else HubState_raw b)"

record nodeMetadata =
  nmGeneration :: u32
  nmCustodySourceDeviceId :: u8
  nmEventEpoch :: u32
  nmNextUnreservedEventId :: u32

record hubMetadata =
  hmGeneration :: u32
  hmNextUnreservedAdmissionOrdinal :: u32

record nodeRecord =
  nrGeneration :: u32
  nrState :: nodeState
  nrFlags :: u8
  nrFamily :: u8
  nrBodyLength :: u8
  nrEventEpoch :: u32
  nrEventId :: u32
  nrLifetimeBudgetSeconds :: u32
  nrRemainingActiveSeconds :: u32
  nrAttemptsUsed :: u8
  nrBody :: bytes

record hubRecord =
  hrGeneration :: u32
  hrState :: hubState
  hrSourceDeviceId :: u8
  hrFamily :: u8
  hrFlags :: u8
  hrBodyLength :: u8
  hrEventEpoch :: u32
  hrEventId :: u32
  hrLifetimeBudgetSeconds :: u32
  hrAdmissionOrdinal :: u32
  hrBody :: bytes

text \<open>The value-initialised structs \<^verbatim>\<open>= {}\<close>.\<close>

definition nodeMetadata_init :: nodeMetadata where
  "nodeMetadata_init = \<lparr>nmGeneration = 0, nmCustodySourceDeviceId = 0, nmEventEpoch = 0,
     nmNextUnreservedEventId = 0\<rparr>"

definition hubMetadata_init :: hubMetadata where
  "hubMetadata_init = \<lparr>hmGeneration = 0, hmNextUnreservedAdmissionOrdinal = 0\<rparr>"

definition nodeRecord_init :: nodeRecord where
  "nodeRecord_init = \<lparr>nrGeneration = 0, nrState = NS_FREE, nrFlags = 0, nrFamily = 0,
     nrBodyLength = 0, nrEventEpoch = 0, nrEventId = 0, nrLifetimeBudgetSeconds = 0,
     nrRemainingActiveSeconds = 0, nrAttemptsUsed = 0, nrBody = fillZero MAX_BODY_SIZE\<rparr>"

definition hubRecord_init :: hubRecord where
  "hubRecord_init = \<lparr>hrGeneration = 0, hrState = HS_EMPTY, hrSourceDeviceId = 0, hrFamily = 0,
     hrFlags = 0, hrBodyLength = 0, hrEventEpoch = 0, hrEventId = 0, hrLifetimeBudgetSeconds = 0,
     hrAdmissionOrdinal = 0, hrBody = fillZero MAX_BODY_SIZE\<rparr>"

subsection \<open>Byte helpers\<close>

definition writeUint16Le :: "bytes \<Rightarrow> nat \<Rightarrow> u16 \<Rightarrow> bytes" where
  "writeUint16Le output off value = output[off := ucast value, off + 1 := ucast (drop_bit 8 value)]"

definition writeUint32Le :: "bytes \<Rightarrow> nat \<Rightarrow> u32 \<Rightarrow> bytes" where
  "writeUint32Le output off value =
     output[off := ucast value, off + 1 := ucast (drop_bit 8 value),
       off + 2 := ucast (drop_bit 16 value), off + 3 := ucast (drop_bit 24 value)]"

definition readUint16Le :: "bytes \<Rightarrow> nat \<Rightarrow> u16" where
  "readUint16Le input off = (ucast (input ! off) OR push_bit 8 (ucast (input ! (off + 1))))"

definition readUint32Le :: "bytes \<Rightarrow> nat \<Rightarrow> u32" where
  "readUint32Le input off = (ucast (input ! off) OR push_bit 8 (ucast (input ! (off + 1)))
     OR push_bit 16 (ucast (input ! (off + 2))) OR push_bit 24 (ucast (input ! (off + 3))))"

text \<open>One pass of the inner loop of \<^verbatim>\<open>crc32IsoHdlc\<close>, one byte, and the whole function.\<close>

definition crc32Bit :: "u32 \<Rightarrow> u32" where
  "crc32Bit value = (if (value AND 1) \<noteq> 0 then drop_bit 1 value XOR 0xEDB88320 else drop_bit 1 value)"

definition crc32Byte :: "u32 \<Rightarrow> u8 \<Rightarrow> u32" where
  "crc32Byte value b = (crc32Bit ^^ 8) (value XOR ucast b)"

definition crc32IsoHdlc :: "bytes option \<Rightarrow> u32 option" where
  "crc32IsoHdlc input = (case input of None \<Rightarrow> None
     | Some inp \<Rightarrow> Some (foldl crc32Byte 0xFFFFFFFF inp XOR 0xFFFFFFFF))"

text \<open>\<open>crcOf\<close>: the callers' \<^verbatim>\<open>uint32_t crc = 0; crc32IsoHdlc(input, n, crc);\<close>\<close>

definition crcOf :: "bytes \<Rightarrow> u32" where
  "crcOf inp = (case crc32IsoHdlc (Some inp) of None \<Rightarrow> 0 | Some crc \<Rightarrow> crc)"

definition allZero :: "bytes \<Rightarrow> nat \<Rightarrow> bool" where
  "allZero bs n = list_all (\<lambda>i. bs ! i = 0) [0..<n]"

definition clearBytes :: "bytes \<Rightarrow> bytes" where
  "clearBytes bs = map (\<lambda>_. 0) bs"

definition sameMagic :: "bytes \<Rightarrow> string \<Rightarrow> bool" where
  "sameMagic input magic = (input ! 0 = of_char (magic ! 0) \<and> input ! 1 = of_char (magic ! 1)
     \<and> input ! 2 = of_char (magic ! 2) \<and> input ! 3 = of_char (magic ! 3))"

definition validateEnvelope :: "bytes option \<Rightarrow> nat \<Rightarrow> string \<Rightarrow> codecResult" where
  "validateEnvelope input expectedLength magic = (case input of None \<Rightarrow> NULL_POINTER | Some inp \<Rightarrow>
     if length inp \<noteq> expectedLength then WRONG_LENGTH
     else if \<not> sameMagic inp magic then BAD_MAGIC
     else if unat (readUint16Le inp 6) \<noteq> expectedLength then BAD_RECORD_LENGTH
     else if readUint32Le inp (expectedLength - 4) \<noteq> crcOf (take (expectedLength - 4) inp)
       then BAD_CRC
     else if readUint16Le inp 4 \<noteq> SCHEMA_VERSION then BAD_SCHEMA
     else CR_OK)"

definition encodeEnvelope :: "bytes \<Rightarrow> string \<Rightarrow> u32 \<Rightarrow> bytes" where
  "encodeEnvelope output magic generation = (let
     o1 = (clearBytes output)[0 := of_char (magic ! 0), 1 := of_char (magic ! 1),
            2 := of_char (magic ! 2), 3 := of_char (magic ! 3)];
     o2 = writeUint16Le o1 4 SCHEMA_VERSION;
     o3 = writeUint16Le o2 6 (of_nat (length output))
   in writeUint32Le o3 8 generation)"

definition finishCrc :: "bytes \<Rightarrow> bytes" where
  "finishCrc output = writeUint32Le output (length output - 4)
     (crcOf (take (length output - 4) output))"

subsection \<open>Metadata codecs\<close>

definition encodeNodeMetadata :: "nodeMetadata \<Rightarrow> bytes option \<Rightarrow> codecResult \<times> bytes option" where
  "encodeNodeMetadata value output = (case output of None \<Rightarrow> (NULL_POINTER, None) | Some out \<Rightarrow>
     if length out \<noteq> NODE_METADATA_SIZE then (WRONG_LENGTH, Some out)
     else if nmCustodySourceDeviceId value = 0 \<or> nmEventEpoch value = 0
        \<or> nmNextUnreservedEventId value = 0 then (INVALID_METADATA, Some out)
     else let o1 = encodeEnvelope out ''EID1'' (nmGeneration value);
              o2 = o1[12 := nmCustodySourceDeviceId value];
              o3 = writeUint32Le o2 16 (nmEventEpoch value);
              o4 = writeUint32Le o3 20 (nmNextUnreservedEventId value)
          in (CR_OK, Some (finishCrc o4)))"

definition decodeNodeMetadata :: "bytes option \<Rightarrow> codecResult + nodeMetadata" where
  "decodeNodeMetadata input = (let result = validateEnvelope input NODE_METADATA_SIZE ''EID1'' in
     if result \<noteq> CR_OK then Inl result
     else let inp = the input in
       if \<not> allZero (drop 13 inp) 3 then Inl NONZERO_RESERVED
       else let decoded = \<lparr>nmGeneration = readUint32Le inp 8, nmCustodySourceDeviceId = inp ! 12,
              nmEventEpoch = readUint32Le inp 16, nmNextUnreservedEventId = readUint32Le inp 20\<rparr>
       in if nmCustodySourceDeviceId decoded = 0 \<or> nmEventEpoch decoded = 0
             \<or> nmNextUnreservedEventId decoded = 0 then Inl INVALID_METADATA
          else Inr decoded)"

definition encodeHubMetadata :: "hubMetadata \<Rightarrow> bytes option \<Rightarrow> codecResult \<times> bytes option" where
  "encodeHubMetadata value output = (case output of None \<Rightarrow> (NULL_POINTER, None) | Some out \<Rightarrow>
     if length out \<noteq> HUB_METADATA_SIZE then (WRONG_LENGTH, Some out)
     else if hmNextUnreservedAdmissionOrdinal value = 0 then (INVALID_METADATA, Some out)
     else let o1 = encodeEnvelope out ''HAO1'' (hmGeneration value);
              o2 = writeUint32Le o1 12 (hmNextUnreservedAdmissionOrdinal value)
          in (CR_OK, Some (finishCrc o2)))"

definition decodeHubMetadata :: "bytes option \<Rightarrow> codecResult + hubMetadata" where
  "decodeHubMetadata input = (let result = validateEnvelope input HUB_METADATA_SIZE ''HAO1'' in
     if result \<noteq> CR_OK then Inl result
     else let inp = the input in
       if \<not> allZero (drop 16 inp) 4 then Inl NONZERO_RESERVED
       else let decoded = \<lparr>hmGeneration = readUint32Le inp 8,
              hmNextUnreservedAdmissionOrdinal = readUint32Le inp 12\<rparr>
       in if hmNextUnreservedAdmissionOrdinal decoded = 0 then Inl INVALID_METADATA
          else Inr decoded)"

subsection \<open>Record validation and codecs\<close>

definition validNodeState :: "nodeState \<Rightarrow> bool" where
  "validNodeState state = (nodeState_code state \<le> nodeState_code NS_EXPIRED)"

definition validHubState :: "hubState \<Rightarrow> bool" where
  "validHubState state = (hubState_code state \<le> hubState_code HS_CONSUMED)"

definition validCanonicalEvent ::
  "u8 \<Rightarrow> u8 \<Rightarrow> u8 \<Rightarrow> u8 \<Rightarrow> u32 \<Rightarrow> u32 \<Rightarrow> u32 \<Rightarrow> bytes \<Rightarrow> bool" where
  "validCanonicalEvent source fam flags bodyLength epoch eid lifetime body =
     (source \<noteq> 0 \<and> epoch \<noteq> 0 \<and> eid \<noteq> 0 \<and> (flags AND NOT ALLOWED_FLAGS) = 0
      \<and> lifetime \<ge> MIN_LIFETIME_SECONDS \<and> lifetime \<le> MAX_LIFETIME_SECONDS
      \<and> unat bodyLength \<le> MAX_BODY_SIZE \<and> isRegisteredFamily fam
      \<and> isValidFamilyBody fam (Some body) bodyLength)"

definition canonicalFree :: "nodeRecord \<Rightarrow> bool" where
  "canonicalFree value = (nrFlags value = 0 \<and> nrFamily value = 0 \<and> nrBodyLength value = 0
     \<and> nrEventEpoch value = 0 \<and> nrEventId value = 0 \<and> nrLifetimeBudgetSeconds value = 0
     \<and> nrRemainingActiveSeconds value = 0 \<and> nrAttemptsUsed value = 0
     \<and> allZero (nrBody value) MAX_BODY_SIZE)"

definition validateNodeRecord :: "nodeRecord \<Rightarrow> codecResult" where
  "validateNodeRecord value =
     (if \<not> validNodeState (nrState value) then INVALID_STATE
      else if nrState value = NS_FREE then (if canonicalFree value then CR_OK else INVALID_EVENT)
      else if nrAttemptsUsed value > MAX_ATTEMPTS then INVALID_ATTEMPTS
      else if nrRemainingActiveSeconds value > nrLifetimeBudgetSeconds value then INVALID_LIFETIME
      else if \<not> validCanonicalEvent 1 (nrFamily value) (nrFlags value) (nrBodyLength value)
        (nrEventEpoch value) (nrEventId value) (nrLifetimeBudgetSeconds value) (nrBody value)
        then INVALID_EVENT
      else if \<not> allZero (drop (unat (nrBodyLength value)) (nrBody value))
        (MAX_BODY_SIZE - unat (nrBodyLength value)) then NONZERO_BODY_TAIL
      else CR_OK)"

definition encodeNodeRecord :: "nodeRecord \<Rightarrow> bytes option \<Rightarrow> codecResult \<times> bytes option" where
  "encodeNodeRecord value output = (case output of None \<Rightarrow> (NULL_POINTER, None) | Some out \<Rightarrow>
     if length out \<noteq> NODE_RECORD_SIZE then (WRONG_LENGTH, Some out)
     else let result = validateNodeRecord value in
       if result \<noteq> CR_OK then (result, Some out)
       else let o1 = encodeEnvelope out ''EVT1'' (nrGeneration value);
                o2 = o1[12 := nodeState_code (nrState value), 13 := nrFlags value,
                        14 := nrFamily value, 15 := nrBodyLength value];
                o3 = writeUint32Le o2 16 (nrEventEpoch value);
                o4 = writeUint32Le o3 20 (nrEventId value);
                o5 = writeUint32Le o4 24 (nrLifetimeBudgetSeconds value);
                o6 = writeUint32Le o5 28 (nrRemainingActiveSeconds value);
                o7 = o6[32 := nrAttemptsUsed value];
                o8 = copyBytes o7 36 (nrBody value) (unat (nrBodyLength value))
            in (CR_OK, Some (finishCrc o8)))"

definition decodeNodeRecord :: "bytes option \<Rightarrow> codecResult + nodeRecord" where
  "decodeNodeRecord input = (let result = validateEnvelope input NODE_RECORD_SIZE ''EVT1'' in
     if result \<noteq> CR_OK then Inl result
     else let inp = the input in
       if \<not> allZero (drop 33 inp) 3 \<or> \<not> allZero (drop 48 inp) 4 then Inl NONZERO_RESERVED
       else let decoded = nodeRecord_init\<lparr>nrGeneration := readUint32Le inp 8,
              nrState := nodeState_of (inp ! 12), nrFlags := inp ! 13, nrFamily := inp ! 14,
              nrBodyLength := inp ! 15, nrEventEpoch := readUint32Le inp 16,
              nrEventId := readUint32Le inp 20, nrLifetimeBudgetSeconds := readUint32Le inp 24,
              nrRemainingActiveSeconds := readUint32Le inp 28, nrAttemptsUsed := inp ! 32\<rparr>
       in if unat (nrBodyLength decoded) > MAX_BODY_SIZE then Inl INVALID_EVENT
          else let decoded = decoded\<lparr>nrBody := copyBytes (nrBody decoded) 0 (drop 36 inp) MAX_BODY_SIZE\<rparr>
          in if \<not> allZero (drop (36 + unat (nrBodyLength decoded)) inp)
                (MAX_BODY_SIZE - unat (nrBodyLength decoded)) then Inl NONZERO_BODY_TAIL
             else let result = validateNodeRecord decoded in
               if result \<noteq> CR_OK then Inl result else Inr decoded)"

definition canonicalEmpty :: "hubRecord \<Rightarrow> bool" where
  "canonicalEmpty value = (hrSourceDeviceId value = 0 \<and> hrFamily value = 0 \<and> hrFlags value = 0
     \<and> hrBodyLength value = 0 \<and> hrEventEpoch value = 0 \<and> hrEventId value = 0
     \<and> hrLifetimeBudgetSeconds value = 0 \<and> hrAdmissionOrdinal value = 0
     \<and> allZero (hrBody value) MAX_BODY_SIZE)"

definition validateHubRecord :: "hubRecord \<Rightarrow> codecResult" where
  "validateHubRecord value =
     (if \<not> validHubState (hrState value) then INVALID_STATE
      else if hrState value = HS_EMPTY then (if canonicalEmpty value then CR_OK else INVALID_EVENT)
      else if hrAdmissionOrdinal value = 0 then INVALID_EVENT
      else if \<not> validCanonicalEvent (hrSourceDeviceId value) (hrFamily value) (hrFlags value)
        (hrBodyLength value) (hrEventEpoch value) (hrEventId value)
        (hrLifetimeBudgetSeconds value) (hrBody value) then INVALID_EVENT
      else if \<not> allZero (drop (unat (hrBodyLength value)) (hrBody value))
        (MAX_BODY_SIZE - unat (hrBodyLength value)) then NONZERO_BODY_TAIL
      else CR_OK)"

definition encodeHubRecord :: "hubRecord \<Rightarrow> bytes option \<Rightarrow> codecResult \<times> bytes option" where
  "encodeHubRecord value output = (case output of None \<Rightarrow> (NULL_POINTER, None) | Some out \<Rightarrow>
     if length out \<noteq> HUB_RECORD_SIZE then (WRONG_LENGTH, Some out)
     else let result = validateHubRecord value in
       if result \<noteq> CR_OK then (result, Some out)
       else let o1 = encodeEnvelope out ''HEV1'' (hrGeneration value);
                o2 = o1[12 := hubState_code (hrState value), 13 := hrSourceDeviceId value,
                        14 := hrFamily value, 15 := hrFlags value, 16 := hrBodyLength value];
                o3 = writeUint32Le o2 20 (hrEventEpoch value);
                o4 = writeUint32Le o3 24 (hrEventId value);
                o5 = writeUint32Le o4 28 (hrLifetimeBudgetSeconds value);
                o6 = writeUint32Le o5 32 (hrAdmissionOrdinal value);
                o7 = copyBytes o6 36 (hrBody value) (unat (hrBodyLength value))
            in (CR_OK, Some (finishCrc o7)))"

definition decodeHubRecord :: "bytes option \<Rightarrow> codecResult + hubRecord" where
  "decodeHubRecord input = (let result = validateEnvelope input HUB_RECORD_SIZE ''HEV1'' in
     if result \<noteq> CR_OK then Inl result
     else let inp = the input in
       if \<not> allZero (drop 17 inp) 3 \<or> \<not> allZero (drop 48 inp) 4 then Inl NONZERO_RESERVED
       else let decoded = hubRecord_init\<lparr>hrGeneration := readUint32Le inp 8,
              hrState := hubState_of (inp ! 12), hrSourceDeviceId := inp ! 13,
              hrFamily := inp ! 14, hrFlags := inp ! 15, hrBodyLength := inp ! 16,
              hrEventEpoch := readUint32Le inp 20, hrEventId := readUint32Le inp 24,
              hrLifetimeBudgetSeconds := readUint32Le inp 28,
              hrAdmissionOrdinal := readUint32Le inp 32\<rparr>
       in if unat (hrBodyLength decoded) > MAX_BODY_SIZE then Inl INVALID_EVENT
          else let decoded = decoded\<lparr>hrBody := copyBytes (hrBody decoded) 0 (drop 36 inp) MAX_BODY_SIZE\<rparr>
          in if \<not> allZero (drop (36 + unat (hrBodyLength decoded)) inp)
                (MAX_BODY_SIZE - unat (hrBodyLength decoded)) then Inl NONZERO_BODY_TAIL
             else let result = validateHubRecord decoded in
               if result \<noteq> CR_OK then Inl result else Inr decoded)"

text \<open>The selection callbacks: true with the record where the decoder says OK.\<close>

definition decodeNodeMetadataForSelection :: "bytes \<Rightarrow> nodeMetadata option" where
  "decodeNodeMetadataForSelection input =
     (case decodeNodeMetadata (Some input) of Inl _ \<Rightarrow> None | Inr v \<Rightarrow> Some v)"

definition decodeHubMetadataForSelection :: "bytes \<Rightarrow> hubMetadata option" where
  "decodeHubMetadataForSelection input =
     (case decodeHubMetadata (Some input) of Inl _ \<Rightarrow> None | Inr v \<Rightarrow> Some v)"

definition decodeNodeRecordForSelection :: "bytes \<Rightarrow> nodeRecord option" where
  "decodeNodeRecordForSelection input =
     (case decodeNodeRecord (Some input) of Inl _ \<Rightarrow> None | Inr v \<Rightarrow> Some v)"

definition decodeHubRecordForSelection :: "bytes \<Rightarrow> hubRecord option" where
  "decodeHubRecordForSelection input =
     (case decodeHubRecord (Some input) of Inl _ \<Rightarrow> None | Inr v \<Rightarrow> Some v)"

end
