(* ===== verification/EventRecordCodecs.thy ===== *)
theory EventRecordCodecs
  imports EventRecords
begin

text \<open>
  Correctness of the persistent record codecs: CRC-32 detects every single-byte corruption, each of
  the four codecs round-trips, and each is an instance of the \<open>record_codec\<close> contract on which the
  dual-copy stores rely.
\<close>

subsection \<open>CRC-32\<close>

lemma crc32Bit_alt:
  "crc32Bit v = (if odd v then drop_bit 1 v XOR 0xEDB88320 else drop_bit 1 v)"
  by (simp add: crc32Bit_def and_one_eq mod_2_eq_odd)

lemma crc32Bit_top: "bit (crc32Bit v) 31 = odd v"
proof -
  have "\<not> bit v 32" using bit_imp_le_length [of v 32] by auto
  then show ?thesis by (simp add: crc32Bit_alt bit_simps bit_numeral_rec)
qed

lemma crc32Bit_inj: "crc32Bit v = crc32Bit w \<Longrightarrow> v = w"
proof -
  assume e: "crc32Bit v = crc32Bit w"
  then have b0: "odd v = odd w" using crc32Bit_top by metis
  with e have d: "drop_bit 1 v = drop_bit 1 w"
    by (simp add: crc32Bit_alt split: if_splits)
  have "bit v (Suc n) = bit w (Suc n)" for n
    using arg_cong [OF d, of "\<lambda>x. bit x n"] by (simp add: bit_simps)
  with b0 show "v = w" by (intro bit_word_eqI) (metis bit_0 not0_implies_Suc)
qed

lemma crc32Bits_inj: "(crc32Bit ^^ n) v = (crc32Bit ^^ n) w \<Longrightarrow> v = w"
  by (induction n arbitrary: v w) (auto dest: crc32Bit_inj)

lemma crc32Byte_eq_iff: "crc32Byte v a = crc32Byte w b \<longleftrightarrow> v XOR ucast a = w XOR ucast b"
  unfolding crc32Byte_def by (rule iffI, erule crc32Bits_inj, simp only:)

lemma crc32_fold_inj: "foldl crc32Byte v bs = foldl crc32Byte w bs \<Longrightarrow> v = w"
proof (induction bs arbitrary: v w)
  case Nil
  then show ?case by simp
next
  case (Cons b bs)
  then have "crc32Byte v b = crc32Byte w b" by (metis foldl_Cons)
  then show ?case by (simp add: crc32Byte_eq_iff)
qed

lemma ucast_u8_u32_inj: "(ucast (a :: u8) :: u32) = ucast b \<Longrightarrow> a = b"
proof (rule bit_word_eqI)
  fix n assume "(ucast a :: u32) = ucast b" and "n < LENGTH(8)"
  from arg_cong [OF this(1), of "\<lambda>x. bit x n"] this(2) show "bit a n = bit b n"
    by (simp add: bit_simps)
qed

text \<open>Two byte strings that differ in exactly one byte have different checksums.\<close>

lemma crcOf_single_byte:
  assumes "i < length bs" and "crcOf (bs[i := b]) = crcOf bs"
  shows "b = bs ! i"
proof -
  have e: "foldl crc32Byte 0xFFFFFFFF (bs[i := b]) = foldl crc32Byte 0xFFFFFFFF bs"
    using assms(2) by (simp add: crcOf_def crc32IsoHdlc_def)
  have "bs[i := b] = take i bs @ b # drop (Suc i) bs"
    using assms(1) by (rule upd_conv_take_nth_drop)
  moreover have "bs = take i bs @ bs ! i # drop (Suc i) bs"
    using assms(1) by (rule id_take_nth_drop)
  ultimately have "foldl crc32Byte 0xFFFFFFFF (take i bs @ b # drop (Suc i) bs) =
      foldl crc32Byte 0xFFFFFFFF (take i bs @ bs ! i # drop (Suc i) bs)"
    using e by simp
  then show ?thesis
    by (auto dest!: crc32_fold_inj simp: crc32Byte_eq_iff dest: ucast_u8_u32_inj)
qed

subsection \<open>Envelopes\<close>

lemma le_put_get:
  "EventRecords.writeUint16Le = putLe16" "EventRecords.writeUint32Le = putLe32"
  "EventRecords.readUint16Le = getLe16" "EventRecords.readUint32Le = getLe32"
  by (simp_all add: fun_eq_iff EventRecords.writeUint16Le_def EventRecords.writeUint32Le_def
      EventRecords.readUint16Le_def EventRecords.readUint32Le_def putLe16_def putLe32_def
      getLe16_def getLe32_def word16_of_def word32_of_def)

lemma length_clearBytes [simp]: "length (clearBytes bs) = length bs"
  by (simp add: clearBytes_def)

lemma clearBytes_Nil [simp]: "clearBytes bs = [] \<longleftrightarrow> bs = []"
  by (simp add: clearBytes_def)

lemma nth_clearBytes [buffer_simps]: "i < length bs \<Longrightarrow> clearBytes bs ! i = 0"
  by (simp add: clearBytes_def)

lemma allZero_nth: "allZero bs n \<longleftrightarrow> (\<forall>i<n. bs ! i = 0)"
  by (auto simp: allZero_def list_all_iff)

lemma length_envelope [simp]:
  "length (encodeEnvelope out magic g) = length out" "length (finishCrc out) = length out"
  by (simp_all add: encodeEnvelope_def finishCrc_def le_put_get)

lemma encodeEnvelope_reads [buffer_simps]:
  assumes "12 \<le> length out"
  shows "encodeEnvelope out magic g ! 0 = of_char (magic ! 0)"
    "encodeEnvelope out magic g ! Suc 0 = of_char (magic ! 1)"
    "encodeEnvelope out magic g ! 2 = of_char (magic ! 2)"
    "encodeEnvelope out magic g ! 3 = of_char (magic ! 3)"
    "getLe16 (encodeEnvelope out magic g) 4 = 1"
    "getLe16 (encodeEnvelope out magic g) 6 = of_nat (length out)"
    "getLe32 (encodeEnvelope out magic g) 8 = g"
    "12 \<le> i \<Longrightarrow> i < length out \<Longrightarrow> encodeEnvelope out magic g ! i = 0"
proof -
  have "out \<noteq> []" using assms by auto
  then show "encodeEnvelope out magic g ! 0 = of_char (magic ! 0)"
    "encodeEnvelope out magic g ! Suc 0 = of_char (magic ! 1)"
    "encodeEnvelope out magic g ! 2 = of_char (magic ! 2)"
    "encodeEnvelope out magic g ! 3 = of_char (magic ! 3)"
    "getLe16 (encodeEnvelope out magic g) 4 = 1"
    "getLe16 (encodeEnvelope out magic g) 6 = of_nat (length out)"
    "getLe32 (encodeEnvelope out magic g) 8 = g"
    "12 \<le> i \<Longrightarrow> i < length out \<Longrightarrow> encodeEnvelope out magic g ! i = 0"
    using assms by (simp_all add: encodeEnvelope_def le_put_get buffer_simps)
qed

lemma finishCrc_nth [buffer_simps]:
  "i + 4 < length out \<Longrightarrow> finishCrc out ! i = out ! i"
  by (simp add: finishCrc_def le_put_get nth_putLe32)

lemma finishCrc_gets [buffer_simps]:
  "i + 6 \<le> length out \<Longrightarrow> getLe16 (finishCrc out) i = getLe16 out i"
  "i + 8 \<le> length out \<Longrightarrow> getLe32 (finishCrc out) i = getLe32 out i"
  by (simp_all add: finishCrc_def le_put_get getLe16_frame getLe32_frame)

lemma validateEnvelope_finishCrc:
  assumes "12 \<le> length out" and "length out < 2 ^ 16" and "sameMagic out magic"
    and "getLe16 out 6 = of_nat (length out)" and "getLe16 out 4 = 1"
    and "n = length out"
  shows "validateEnvelope (Some (finishCrc out)) n magic = CR_OK"
proof -
  have "sameMagic (finishCrc out) magic"
    using assms(1,3) by (simp add: sameMagic_def finishCrc_nth)
  moreover have "unat (of_nat (length out) :: u16) = length out"
    using assms(2) by (simp add: unsigned_of_nat take_bit_eq_mod)
  moreover have "getLe32 (finishCrc out) (length out - 4) = crcOf (take (length out - 4) (finishCrc out))"
    using assms(1) by (simp add: finishCrc_def le_put_get take_putLe getLe32_putLe32)
  ultimately show ?thesis
    using assms by (simp add: validateEnvelope_def le_put_get finishCrc_gets)
qed


subsection \<open>Metadata round trips\<close>

lemma encodeNodeMetadata_ok:
  assumes "encodeNodeMetadata v (Some out) = (CR_OK, Some bs)"
  shows "length bs = 28 \<and> decodeNodeMetadata (Some bs) = Inr v"
proof -
  from assms have l: "length out = 28" and v: "nmCustodySourceDeviceId v \<noteq> 0" "nmEventEpoch v \<noteq> 0"
      "nmNextUnreservedEventId v \<noteq> 0"
    and bs: "bs = finishCrc (putLe32 (putLe32 ((encodeEnvelope out ''EID1'' (nmGeneration v))
        [12 := nmCustodySourceDeviceId v]) 16 (nmEventEpoch v)) 20 (nmNextUnreservedEventId v))"
    by (auto simp: encodeNodeMetadata_def le_put_get split: if_splits)
  have "validateEnvelope (Some bs) 28 ''EID1'' = CR_OK"
    unfolding bs using l
    by (intro validateEnvelope_finishCrc) (simp_all add: sameMagic_def buffer_simps)
  then show ?thesis
    using l v
    by (simp add: decodeNodeMetadata_def allZero_def bs le_put_get buffer_simps upt_rec)
qed

lemma encodeHubMetadata_ok:
  assumes "encodeHubMetadata v (Some out) = (CR_OK, Some bs)"
  shows "length bs = 24 \<and> decodeHubMetadata (Some bs) = Inr v"
proof -
  from assms have l: "length out = 24" and v: "hmNextUnreservedAdmissionOrdinal v \<noteq> 0"
    and bs: "bs = finishCrc (putLe32 (encodeEnvelope out ''HAO1'' (hmGeneration v)) 12
        (hmNextUnreservedAdmissionOrdinal v))"
    by (auto simp: encodeHubMetadata_def le_put_get split: if_splits)
  have "validateEnvelope (Some bs) 24 ''HAO1'' = CR_OK"
    unfolding bs using l
    by (intro validateEnvelope_finishCrc) (simp_all add: sameMagic_def buffer_simps)
  then show ?thesis
    using l v
    by (simp add: decodeHubMetadata_def allZero_def bs le_put_get buffer_simps upt_rec)
qed

subsection \<open>Record round trips\<close>

text \<open>\<open>nodeRecord_wf\<close>, \<open>hubRecord_wf\<close>: the body array has its declared size and the state byte is
  represented by its enumerator where it has one.\<close>

definition nodeRecord_wf :: "nodeRecord \<Rightarrow> bool" where
  "nodeRecord_wf v = (length (nrBody v) = MAX_BODY_SIZE \<and> nodeState_of (nodeState_code (nrState v)) = nrState v)"

definition hubRecord_wf :: "hubRecord \<Rightarrow> bool" where
  "hubRecord_wf v = (length (hrBody v) = MAX_BODY_SIZE \<and> hubState_of (hubState_code (hrState v)) = hrState v)"

lemma nodeState_code_of [simp, enum_simps]: "nodeState_code (nodeState_of b) = b"
  by (simp add: nodeState_of_def)

lemma hubState_code_of [simp, enum_simps]: "hubState_code (hubState_of b) = b"
  by (simp add: hubState_of_def)

lemma nodeState_of_simps [simp]:
  "nodeState_of 0 = NS_FREE" "nodeState_of 1 = NS_QUEUED" "nodeState_of 2 = NS_FAILED"
  "nodeState_of 3 = NS_EXPIRED"
  by (simp_all add: nodeState_of_def)

lemma hubState_of_simps [simp]:
  "hubState_of 0 = HS_EMPTY" "hubState_of 1 = HS_ACTIVE" "hubState_of 2 = HS_CONSUMED"
  by (simp_all add: hubState_of_def)

lemma validateNodeRecord_body:
  assumes "validateNodeRecord v = CR_OK"
  shows "unat (nrBodyLength v) \<le> 12" "unat (nrBodyLength v) \<le> i \<Longrightarrow> i < 12 \<Longrightarrow>
    length (nrBody v) = 12 \<Longrightarrow> nrBody v ! i = 0"
proof -
  show "unat (nrBodyLength v) \<le> 12"
    using assms by (auto simp: validateNodeRecord_def validCanonicalEvent_def canonicalFree_def
        split: if_splits)
  assume i: "unat (nrBodyLength v) \<le> i" "i < 12" and l: "length (nrBody v) = 12"
  show "nrBody v ! i = 0"
  proof (cases "nrState v = NS_FREE")
    case True
    then show ?thesis
      using assms i by (auto simp: validateNodeRecord_def canonicalFree_def allZero_nth split: if_splits)
  next
    case False
    then have z: "\<forall>j<12 - unat (nrBodyLength v). drop (unat (nrBodyLength v)) (nrBody v) ! j = 0"
      using assms by (auto simp: validateNodeRecord_def allZero_nth split: if_splits)
    have "drop (unat (nrBodyLength v)) (nrBody v) ! (i - unat (nrBodyLength v)) = 0"
      using i by (intro z [rule_format]) simp
    then show ?thesis using i l by simp
  qed
qed

lemma encodeNodeRecord_ok:
  assumes "encodeNodeRecord v (Some out) = (CR_OK, Some bs)" and wf: "nodeRecord_wf v"
  shows "length bs = 56 \<and> decodeNodeRecord (Some bs) = Inr v"
proof -
  let ?n = "unat (nrBodyLength v)"
  let ?o7 = "(putLe32 (putLe32 (putLe32 (putLe32 ((encodeEnvelope out ''EVT1'' (nrGeneration v))
      [12 := nodeState_code (nrState v), 13 := nrFlags v, 14 := nrFamily v, 15 := nrBodyLength v])
      16 (nrEventEpoch v)) 20 (nrEventId v)) 24 (nrLifetimeBudgetSeconds v))
      28 (nrRemainingActiveSeconds v))[32 := nrAttemptsUsed v]"
  from assms have l: "length out = 56" and v: "validateNodeRecord v = CR_OK"
    and bs: "bs = finishCrc (copyBytes ?o7 36 (nrBody v) ?n)"
    by (auto simp: encodeNodeRecord_def le_put_get split: if_splits)
  note n = validateNodeRecord_body(1) [OF v]
  have lb: "length bs = 56" and lo: "length ?o7 = 56" using l by (simp_all add: bs)
  have "validateEnvelope (Some bs) 56 ''EVT1'' = CR_OK"
    unfolding bs using l n
    by (intro validateEnvelope_finishCrc) (simp_all add: sameMagic_def buffer_simps)
  moreover have z: "bs ! i = 0" if "33 \<le> i" "i < 52" "i < 36 \<or> 36 + ?n \<le> i" for i
    unfolding bs using that l by (auto simp: buffer_simps)
  moreover have "getLe32 bs 8 = nrGeneration v" "bs ! 12 = nodeState_code (nrState v)"
      "bs ! 13 = nrFlags v" "bs ! 14 = nrFamily v" "bs ! 15 = nrBodyLength v"
      "getLe32 bs 16 = nrEventEpoch v" "getLe32 bs 20 = nrEventId v"
      "getLe32 bs 24 = nrLifetimeBudgetSeconds v" "getLe32 bs 28 = nrRemainingActiveSeconds v"
      "bs ! 32 = nrAttemptsUsed v"
    unfolding bs using l by (simp_all add: buffer_simps)
  moreover have "copyBytes (fillZero 12) 0 (drop 36 bs) 12 = nrBody v"
  proof (rule nth_equalityI)
    show "length (copyBytes (fillZero 12) 0 (drop 36 bs) 12) = length (nrBody v)"
      using wf by (simp add: nodeRecord_wf_def)
    fix i assume "i < length (copyBytes (fillZero 12) 0 (drop 36 bs) 12)"
    then have i: "i < 12" by simp
    have "bs ! (36 + i) = nrBody v ! i" if "i < ?n"
      unfolding bs using that i l by (simp add: buffer_simps)
    moreover have "bs ! (36 + i) = nrBody v ! i" if "\<not> i < ?n"
      using that i wf validateNodeRecord_body(2) [OF v, of i] z [of "36 + i"]
      by (simp add: nodeRecord_wf_def)
    ultimately show "copyBytes (fillZero 12) 0 (drop 36 bs) 12 ! i = nrBody v ! i"
      using i lb by (auto simp: nth_copyBytes)
  qed
  moreover have "allZero (drop 33 bs) 3" "allZero (drop 48 bs) 4" "allZero (drop (36 + ?n) bs) (12 - ?n)"
    using n lb by (auto simp: allZero_nth intro!: z)
  ultimately show ?thesis
    using n lb v wf
    by (simp add: decodeNodeRecord_def nodeRecord_init_def le_put_get nodeRecord_wf_def) (cases v, simp)
qed

lemma validateHubRecord_body:
  assumes "validateHubRecord v = CR_OK"
  shows "unat (hrBodyLength v) \<le> 12" "unat (hrBodyLength v) \<le> i \<Longrightarrow> i < 12 \<Longrightarrow>
    length (hrBody v) = 12 \<Longrightarrow> hrBody v ! i = 0"
proof -
  show "unat (hrBodyLength v) \<le> 12"
    using assms by (auto simp: validateHubRecord_def validCanonicalEvent_def canonicalEmpty_def
        split: if_splits)
  assume i: "unat (hrBodyLength v) \<le> i" "i < 12" and l: "length (hrBody v) = 12"
  show "hrBody v ! i = 0"
  proof (cases "hrState v = HS_EMPTY")
    case True
    then show ?thesis
      using assms i by (auto simp: validateHubRecord_def canonicalEmpty_def allZero_nth split: if_splits)
  next
    case False
    then have z: "\<forall>j<12 - unat (hrBodyLength v). drop (unat (hrBodyLength v)) (hrBody v) ! j = 0"
      using assms by (auto simp: validateHubRecord_def allZero_nth split: if_splits)
    have "drop (unat (hrBodyLength v)) (hrBody v) ! (i - unat (hrBodyLength v)) = 0"
      using i by (intro z [rule_format]) simp
    then show ?thesis using i l by simp
  qed
qed

lemma encodeHubRecord_ok:
  assumes "encodeHubRecord v (Some out) = (CR_OK, Some bs)" and wf: "hubRecord_wf v"
  shows "length bs = 56 \<and> decodeHubRecord (Some bs) = Inr v"
proof -
  let ?n = "unat (hrBodyLength v)"
  let ?o6 = "putLe32 (putLe32 (putLe32 (putLe32 ((encodeEnvelope out ''HEV1'' (hrGeneration v))
      [12 := hubState_code (hrState v), 13 := hrSourceDeviceId v, 14 := hrFamily v, 15 := hrFlags v,
       16 := hrBodyLength v])
      20 (hrEventEpoch v)) 24 (hrEventId v)) 28 (hrLifetimeBudgetSeconds v))
      32 (hrAdmissionOrdinal v)"
  from assms have l: "length out = 56" and v: "validateHubRecord v = CR_OK"
    and bs: "bs = finishCrc (copyBytes ?o6 36 (hrBody v) ?n)"
    by (auto simp: encodeHubRecord_def le_put_get split: if_splits)
  note n = validateHubRecord_body(1) [OF v]
  have lb: "length bs = 56" using l by (simp add: bs)
  have "validateEnvelope (Some bs) 56 ''HEV1'' = CR_OK"
    unfolding bs using l n
    by (intro validateEnvelope_finishCrc) (simp_all add: sameMagic_def buffer_simps)
  moreover have z: "bs ! i = 0" if "17 \<le> i \<and> i < 20 \<or> 36 + ?n \<le> i \<and> i < 52" for i
    unfolding bs using that l by (auto simp: buffer_simps)
  moreover have "getLe32 bs 8 = hrGeneration v" "bs ! 12 = hubState_code (hrState v)"
      "bs ! 13 = hrSourceDeviceId v" "bs ! 14 = hrFamily v" "bs ! 15 = hrFlags v"
      "bs ! 16 = hrBodyLength v" "getLe32 bs 20 = hrEventEpoch v" "getLe32 bs 24 = hrEventId v"
      "getLe32 bs 28 = hrLifetimeBudgetSeconds v" "getLe32 bs 32 = hrAdmissionOrdinal v"
    unfolding bs using l by (simp_all add: buffer_simps)
  moreover have "copyBytes (fillZero 12) 0 (drop 36 bs) 12 = hrBody v"
  proof (rule nth_equalityI)
    show "length (copyBytes (fillZero 12) 0 (drop 36 bs) 12) = length (hrBody v)"
      using wf by (simp add: hubRecord_wf_def)
    fix i assume "i < length (copyBytes (fillZero 12) 0 (drop 36 bs) 12)"
    then have i: "i < 12" by simp
    have "bs ! (36 + i) = hrBody v ! i" if "i < ?n"
      unfolding bs using that i l by (simp add: buffer_simps)
    moreover have "bs ! (36 + i) = hrBody v ! i" if "\<not> i < ?n"
      using that i wf validateHubRecord_body(2) [OF v, of i] z [of "36 + i"]
      by (simp add: hubRecord_wf_def)
    ultimately show "copyBytes (fillZero 12) 0 (drop 36 bs) 12 ! i = hrBody v ! i"
      using i lb by (auto simp: nth_copyBytes)
  qed
  moreover have "allZero (drop 17 bs) 3" "allZero (drop 48 bs) 4" "allZero (drop (36 + ?n) bs) (12 - ?n)"
    using n lb by (auto simp: allZero_nth intro!: z)
  ultimately show ?thesis
    using n lb v wf
    by (simp add: decodeHubRecord_def hubRecord_init_def le_put_get hubRecord_wf_def) (cases v, simp)
qed

text \<open>What a successful decode guarantees.\<close>

lemma nodeState_of_wf [simp]: "nodeState_of (nodeState_code (nodeState_of b)) = nodeState_of b"
  by simp

lemma decodeNodeRecord_InrD:
  "decodeNodeRecord (Some bs) = Inr v \<Longrightarrow>
     nodeRecord_wf v \<and> validateNodeRecord v = CR_OK \<and> validateEnvelope (Some bs) 56 ''EVT1'' = CR_OK"
  by (auto simp: decodeNodeRecord_def nodeRecord_wf_def nodeRecord_init_def split: if_splits)

lemma decodeHubRecord_InrD:
  "decodeHubRecord (Some bs) = Inr v \<Longrightarrow>
     hubRecord_wf v \<and> validateHubRecord v = CR_OK \<and> validateEnvelope (Some bs) 56 ''HEV1'' = CR_OK"
  by (auto simp: decodeHubRecord_def hubRecord_wf_def hubRecord_init_def split: if_splits)

lemma decodeNodeMetadata_InrD:
  "decodeNodeMetadata (Some bs) = Inr v \<Longrightarrow> nmCustodySourceDeviceId v \<noteq> 0 \<and> nmEventEpoch v \<noteq> 0
     \<and> nmNextUnreservedEventId v \<noteq> 0 \<and> validateEnvelope (Some bs) 28 ''EID1'' = CR_OK"
  by (auto simp: decodeNodeMetadata_def split: if_splits)

lemma decodeHubMetadata_InrD:
  "decodeHubMetadata (Some bs) = Inr v \<Longrightarrow> hmNextUnreservedAdmissionOrdinal v \<noteq> 0
     \<and> validateEnvelope (Some bs) 24 ''HAO1'' = CR_OK"
  by (auto simp: decodeHubMetadata_def split: if_splits)

lemma decode_bad_envelope:
  "validateEnvelope i 28 ''EID1'' \<noteq> CR_OK \<Longrightarrow> decodeNodeMetadata i = Inl (validateEnvelope i 28 ''EID1'')"
  "validateEnvelope i 24 ''HAO1'' \<noteq> CR_OK \<Longrightarrow> decodeHubMetadata i = Inl (validateEnvelope i 24 ''HAO1'')"
  "validateEnvelope i 56 ''EVT1'' \<noteq> CR_OK \<Longrightarrow> decodeNodeRecord i = Inl (validateEnvelope i 56 ''EVT1'')"
  "validateEnvelope i 56 ''HEV1'' \<noteq> CR_OK \<Longrightarrow> decodeHubRecord i = Inl (validateEnvelope i 56 ''HEV1'')"
  by (simp_all add: decodeNodeMetadata_def decodeHubMetadata_def decodeNodeRecord_def decodeHubRecord_def)

text \<open>A well-formed envelope with one byte changed is no longer well-formed.\<close>

lemma validateEnvelope_single_byte:
  assumes ok: "validateEnvelope (Some bs) n magic = CR_OK" and n: "8 \<le> n"
    and i: "i < n" and b: "b \<noteq> bs ! i"
  shows "validateEnvelope (Some (bs[i := b])) n magic \<noteq> CR_OK"
proof
  assume ok': "validateEnvelope (Some (bs[i := b])) n magic = CR_OK"
  from ok have l: "length bs = n" and c: "getLe32 bs (n - 4) = crcOf (take (n - 4) bs)"
    by (auto simp: validateEnvelope_def le_put_get split: if_splits)
  from ok' have c': "getLe32 (bs[i := b]) (n - 4) = crcOf (take (n - 4) (bs[i := b]))"
    by (auto simp: validateEnvelope_def le_put_get split: if_splits)
  show False
  proof (cases "i < n - 4")
    case True
    then have "getLe32 (bs[i := b]) (n - 4) = getLe32 bs (n - 4)" by (simp add: getLe32_frame)
    then have "crcOf ((take (n - 4) bs)[i := b]) = crcOf (take (n - 4) bs)"
      using c c' by (simp add: take_update_swap)
    from crcOf_single_byte [OF _ this] True l b show False by simp
  next
    case False
    then have "take (n - 4) (bs[i := b]) = take (n - 4) bs" by simp
    then have "getLe32 (bs[i := b]) (n - 4) = getLe32 bs (n - 4)" using c c' by simp
    moreover have "i = n - 4 \<or> i = n - 4 + 1 \<or> i = n - 4 + 2 \<or> i = n - 4 + 3"
      using False i by arith
    ultimately have "(bs[i := b]) ! i = bs ! i"
      unfolding getLe32_def word32_of_eq_iff by blast
    then show False using b l i by simp
  qed
qed

subsection \<open>The codec contract\<close>

text \<open>
  What the dual-copy stores rely on: images have a fixed size, a written image decodes to the record
  written, and decoded records are well-formed.  \<open>enc v\<close> is the image \<open>v\<close> is stored as, \<open>None\<close> where
  the encoder refuses it.
\<close>

locale record_codec =
  fixes enc :: "'r \<Rightarrow> bytes option"
    and dec :: "bytes \<Rightarrow> 'r option"
    and gen :: "'r \<Rightarrow> u32"
    and wf :: "'r \<Rightarrow> bool"
    and recsize :: nat
  assumes enc_length: "enc v = Some bs \<Longrightarrow> length bs = recsize"
    and dec_enc: "wf v \<Longrightarrow> enc v = Some bs \<Longrightarrow> dec bs = Some v"
    and dec_wf: "dec bs = Some v \<Longrightarrow> wf v"
    and dec_blank: "dec (fillZero recsize) = None"
begin

text \<open>A selection that succeeds returns the decoded content of the slot it names.\<close>

lemma selection_sound:
  assumes "selectCopies gen dec copyA copyB r0 s0 = (res, r, s)"
    and "res \<noteq> BOTH_INVALID" "res \<noteq> EQUAL_DISAGREEMENT" "res \<noteq> SEL_GENERATION_AMBIGUOUS"
  shows "dec (fcBytes (if s = CopyA then copyA else copyB)) = Some r
    \<and> fcStatus (if s = CopyA then copyA else copyB) = FRS_OK"
  using assms by (auto simp: selectCopies_def split: option.splits if_splits)

text \<open>With an older valid record in one slot, or nothing decodable there, a freshly written record of
  the next generation in the other slot is the one selected.\<close>

lemma selection_prefers_next:
  assumes new: "wf v" "enc v = Some bs" "new = \<lparr>fcStatus = FRS_OK, fcBytes = bs\<rparr>"
    and old: "\<And>r. fcStatus old = FRS_OK \<Longrightarrow> dec (fcBytes old) = Some r \<Longrightarrow> gen v = gen r + 1"
  shows "\<exists>res. selectCopies gen dec (if t = CopyA then new else old) (if t = CopyA then old else new)
      r0 s0 = (res, v, t) \<and> res \<notin> {BOTH_INVALID, EQUAL_DISAGREEMENT, SEL_GENERATION_AMBIGUOUS}"
proof -
  have d: "dec bs = Some v" using new by (simp add: dec_enc)
  show ?thesis
  proof (cases "if fcStatus old = FRS_OK then dec (fcBytes old) else None")
    case None
    then show ?thesis using d new(3) by (cases t) (auto simp: selectCopies_def)
  next
    case (Some r)
    then have "gen v = gen r + 1" using old by (auto split: if_splits)
    then show ?thesis
      using d new(3) Some by (cases t) (auto simp: selectCopies_def compareGenerations_next)
  qed
qed

text \<open>Selection never invents a record: the result is the decoded content of one of the copies.\<close>

lemma selection_wf:
  assumes "selectCopies gen dec copyA copyB r0 s0 = (res, r, s)"
    and "res \<noteq> BOTH_INVALID" "res \<noteq> EQUAL_DISAGREEMENT" "res \<noteq> SEL_GENERATION_AMBIGUOUS"
  shows "wf r"
  using selection_sound [OF assms] dec_wf by blast

end

text \<open>The images the four stores write: the encoder applied to a zeroed buffer of the record's size.\<close>

definition image :: "codecResult \<times> bytes option \<Rightarrow> bytes option" where
  "image r = (if fst r = CR_OK then snd r else None)"

definition nodeMetadataImage :: "nodeMetadata \<Rightarrow> bytes option" where
  "nodeMetadataImage v = image (encodeNodeMetadata v (Some (fillZero NODE_METADATA_SIZE)))"

definition hubMetadataImage :: "hubMetadata \<Rightarrow> bytes option" where
  "hubMetadataImage v = image (encodeHubMetadata v (Some (fillZero HUB_METADATA_SIZE)))"

definition nodeRecordImage :: "nodeRecord \<Rightarrow> bytes option" where
  "nodeRecordImage v = image (encodeNodeRecord v (Some (fillZero NODE_RECORD_SIZE)))"

definition hubRecordImage :: "hubRecord \<Rightarrow> bytes option" where
  "hubRecordImage v = image (encodeHubRecord v (Some (fillZero HUB_RECORD_SIZE)))"

lemma decode_blank:
  "decodeNodeMetadata (Some (fillZero 28)) = Inl BAD_MAGIC" "decodeHubMetadata (Some (fillZero 24)) = Inl BAD_MAGIC"
  "decodeNodeRecord (Some (fillZero 56)) = Inl BAD_MAGIC" "decodeHubRecord (Some (fillZero 56)) = Inl BAD_MAGIC"
  by (simp_all add: decodeNodeMetadata_def decodeHubMetadata_def decodeNodeRecord_def decodeHubRecord_def
      validateEnvelope_def sameMagic_def)

lemma image_Some: "image r = Some bs \<longleftrightarrow> r = (CR_OK, Some bs)"
  by (cases r) (auto simp: image_def)

interpretation node_metadata: record_codec nodeMetadataImage decodeNodeMetadataForSelection
  nmGeneration "\<lambda>_. True" 28
  by unfold_locales (auto simp: nodeMetadataImage_def image_Some decodeNodeMetadataForSelection_def
      decode_blank dest: encodeNodeMetadata_ok)

interpretation hub_metadata: record_codec hubMetadataImage decodeHubMetadataForSelection
  hmGeneration "\<lambda>_. True" 24
  by unfold_locales (auto simp: hubMetadataImage_def image_Some decodeHubMetadataForSelection_def
      decode_blank dest: encodeHubMetadata_ok)

interpretation node_record: record_codec nodeRecordImage decodeNodeRecordForSelection
  nrGeneration nodeRecord_wf 56
proof
  fix v bs assume "nodeRecordImage v = Some bs"
  then show "length bs = 56"
    by (auto simp: nodeRecordImage_def image_Some encodeNodeRecord_def le_put_get split: if_splits)
qed (auto simp: nodeRecordImage_def image_Some decodeNodeRecordForSelection_def decode_blank
    dest: encodeNodeRecord_ok decodeNodeRecord_InrD split: sum.splits)

interpretation hub_record: record_codec hubRecordImage decodeHubRecordForSelection
  hrGeneration hubRecord_wf 56
proof
  fix v bs assume "hubRecordImage v = Some bs"
  then show "length bs = 56"
    by (auto simp: hubRecordImage_def image_Some encodeHubRecord_def le_put_get split: if_splits)
qed (auto simp: hubRecordImage_def image_Some decodeHubRecordForSelection_def decode_blank
    dest: encodeHubRecord_ok decodeHubRecord_InrD split: sum.splits)

subsection \<open>Properties of the persistent formats\<close>

text \<open>A Node Event record that passes validation is encoded into its 56 bytes and decodes to
  itself, whatever the buffer held before; a record that fails validation is refused with the
  validator's verdict and the buffer is left alone.\<close>

theorem node_record_roundtrip:
  assumes "nodeRecord_wf v" and "length out = NODE_RECORD_SIZE"
  shows "if validateNodeRecord v = CR_OK
    then \<exists>bs. encodeNodeRecord v (Some out) = (CR_OK, Some bs) \<and> length bs = NODE_RECORD_SIZE
      \<and> decodeNodeRecord (Some bs) = Inr v
    else encodeNodeRecord v (Some out) = (validateNodeRecord v, Some out)"
proof (cases "validateNodeRecord v = CR_OK")
  case True
  then obtain bs where bs: "encodeNodeRecord v (Some out) = (CR_OK, Some bs)"
    using assms(2) by (simp add: encodeNodeRecord_def)
  with encodeNodeRecord_ok [OF bs assms(1)] True show ?thesis by simp
next
  case False
  then show ?thesis using assms(2) by (simp add: encodeNodeRecord_def)
qed

definition sampleNodeRecord :: nodeRecord where
  "sampleNodeRecord = nodeRecord_init\<lparr>nrGeneration := 7, nrState := NS_QUEUED, nrFamily := 0x44,
     nrBodyLength := 1, nrEventEpoch := 9, nrEventId := 4, nrLifetimeBudgetSeconds := 120,
     nrRemainingActiveSeconds := 60, nrAttemptsUsed := 2, nrBody := (fillZero 12)[0 := 1]\<rparr>"

lemma sampleNodeRecord_valid: "validateNodeRecord sampleNodeRecord = CR_OK" "nodeRecord_wf sampleNodeRecord"
  by (simp_all add: sampleNodeRecord_def nodeRecord_init_def validateNodeRecord_def validNodeState_def
      validCanonicalEvent_def isRegisteredFamily_def isValidFamilyBody_def expectedBodyLength_def
      allZero_nth nodeRecord_wf_def)

theorem node_record_roundtrip_witness:
  "\<exists>bs. encodeNodeRecord sampleNodeRecord (Some (fillZero 56)) = (CR_OK, Some bs)
     \<and> decodeNodeRecord (Some bs) = Inr sampleNodeRecord"
  using node_record_roundtrip [of sampleNodeRecord "fillZero 56"] sampleNodeRecord_valid by auto

text \<open>The same for the Hub's Event records.\<close>

theorem hub_record_roundtrip:
  assumes "hubRecord_wf v" and "length out = HUB_RECORD_SIZE"
  shows "if validateHubRecord v = CR_OK
    then \<exists>bs. encodeHubRecord v (Some out) = (CR_OK, Some bs) \<and> length bs = HUB_RECORD_SIZE
      \<and> decodeHubRecord (Some bs) = Inr v
    else encodeHubRecord v (Some out) = (validateHubRecord v, Some out)"
proof (cases "validateHubRecord v = CR_OK")
  case True
  then obtain bs where bs: "encodeHubRecord v (Some out) = (CR_OK, Some bs)"
    using assms(2) by (simp add: encodeHubRecord_def)
  with encodeHubRecord_ok [OF bs assms(1)] True show ?thesis by simp
next
  case False
  then show ?thesis using assms(2) by (simp add: encodeHubRecord_def)
qed

theorem hub_record_roundtrip_witness:
  "\<exists>bs. encodeHubRecord (hubRecord_init\<lparr>hrGeneration := 1\<rparr>) (Some (fillZero 56)) = (CR_OK, Some bs)
     \<and> decodeHubRecord (Some bs) = Inr (hubRecord_init\<lparr>hrGeneration := 1\<rparr>)"
  using hub_record_roundtrip [of "hubRecord_init\<lparr>hrGeneration := 1\<rparr>" "fillZero 56"]
  by (auto simp: hubRecord_wf_def hubRecord_init_def validateHubRecord_def validHubState_def
      canonicalEmpty_def allZero_nth)

text \<open>C27. A stored image of any of the four formats that decodes is rejected after any single byte of
  it is changed, wherever the byte is: header, payload, reserved area or checksum.\<close>

theorem single_byte_corruption_detected:
  assumes "i < length bs" and "b \<noteq> bs ! i"
  shows "(decodeNodeMetadata (Some bs) = Inr m \<longrightarrow> (\<exists>e. decodeNodeMetadata (Some (bs[i := b])) = Inl e))
    \<and> (decodeHubMetadata (Some bs) = Inr h \<longrightarrow> (\<exists>e. decodeHubMetadata (Some (bs[i := b])) = Inl e))
    \<and> (decodeNodeRecord (Some bs) = Inr r \<longrightarrow> (\<exists>e. decodeNodeRecord (Some (bs[i := b])) = Inl e))
    \<and> (decodeHubRecord (Some bs) = Inr s \<longrightarrow> (\<exists>e. decodeHubRecord (Some (bs[i := b])) = Inl e))"
proof -
  have l: "length bs = n" if "validateEnvelope (Some bs) n magic = CR_OK" for n magic
    using that by (auto simp: validateEnvelope_def split: if_splits)
  have c: "validateEnvelope (Some (bs[i := b])) n magic \<noteq> CR_OK"
    if "validateEnvelope (Some bs) n magic = CR_OK" "8 \<le> n" for n magic
    using validateEnvelope_single_byte [OF that] assms l [OF that(1)] by simp
  have "decodeNodeMetadata (Some bs) = Inr m \<Longrightarrow> \<exists>e. decodeNodeMetadata (Some (bs[i := b])) = Inl e"
    using decode_bad_envelope(1) [OF c] decodeNodeMetadata_InrD by fastforce
  moreover have "decodeHubMetadata (Some bs) = Inr h \<Longrightarrow> \<exists>e. decodeHubMetadata (Some (bs[i := b])) = Inl e"
    using decode_bad_envelope(2) [OF c] decodeHubMetadata_InrD by fastforce
  moreover have "decodeNodeRecord (Some bs) = Inr r \<Longrightarrow> \<exists>e. decodeNodeRecord (Some (bs[i := b])) = Inl e"
    using decode_bad_envelope(3) [OF c] decodeNodeRecord_InrD by fastforce
  moreover have "decodeHubRecord (Some bs) = Inr s \<Longrightarrow> \<exists>e. decodeHubRecord (Some (bs[i := b])) = Inl e"
    using decode_bad_envelope(4) [OF c] decodeHubRecord_InrD by fastforce
  ultimately show ?thesis by blast
qed

theorem single_byte_corruption_detected_witness:
  "\<exists>bs e. decodeNodeRecord (Some bs) = Inr sampleNodeRecord \<and> length bs = 56
     \<and> decodeNodeRecord (Some (bs[20 := bs ! 20 + 1])) = Inl e"
proof -
  from sampleNodeRecord_valid obtain bs where
    bs: "encodeNodeRecord sampleNodeRecord (Some (fillZero 56)) = (CR_OK, Some bs)"
    by (simp add: encodeNodeRecord_def)
  note ok = encodeNodeRecord_ok [OF bs sampleNodeRecord_valid(2)]
  then have "20 < length bs" "bs ! 20 + 1 \<noteq> bs ! 20" by simp_all
  from single_byte_corruption_detected [OF this] ok show ?thesis by blast
qed

lemma nodeMetadata_encodable:
  assumes "length out = 28"
  shows "nmCustodySourceDeviceId m = 0 \<or> nmEventEpoch m = 0 \<or> nmNextUnreservedEventId m = 0 \<Longrightarrow>
      encodeNodeMetadata m (Some out) = (INVALID_METADATA, Some out)"
    and "\<not> (nmCustodySourceDeviceId m = 0 \<or> nmEventEpoch m = 0 \<or> nmNextUnreservedEventId m = 0) \<Longrightarrow>
      \<exists>bs. encodeNodeMetadata m (Some out) = (CR_OK, Some bs) \<and> decodeNodeMetadata (Some bs) = Inr m"
proof -
  show "nmCustodySourceDeviceId m = 0 \<or> nmEventEpoch m = 0 \<or> nmNextUnreservedEventId m = 0 \<Longrightarrow>
      encodeNodeMetadata m (Some out) = (INVALID_METADATA, Some out)"
    using assms by (simp add: encodeNodeMetadata_def)
  assume "\<not> (nmCustodySourceDeviceId m = 0 \<or> nmEventEpoch m = 0 \<or> nmNextUnreservedEventId m = 0)"
  then obtain bs where "encodeNodeMetadata m (Some out) = (CR_OK, Some bs)"
    using assms by (simp add: encodeNodeMetadata_def)
  then show "\<exists>bs. encodeNodeMetadata m (Some out) = (CR_OK, Some bs) \<and> decodeNodeMetadata (Some bs) = Inr m"
    using encodeNodeMetadata_ok by blast
qed

lemma hubMetadata_encodable:
  assumes "length out = 24"
  shows "hmNextUnreservedAdmissionOrdinal h = 0 \<Longrightarrow>
      encodeHubMetadata h (Some out) = (INVALID_METADATA, Some out)"
    and "hmNextUnreservedAdmissionOrdinal h \<noteq> 0 \<Longrightarrow>
      \<exists>bs. encodeHubMetadata h (Some out) = (CR_OK, Some bs) \<and> decodeHubMetadata (Some bs) = Inr h"
proof -
  show "hmNextUnreservedAdmissionOrdinal h = 0 \<Longrightarrow>
      encodeHubMetadata h (Some out) = (INVALID_METADATA, Some out)"
    using assms by (simp add: encodeHubMetadata_def)
  assume "hmNextUnreservedAdmissionOrdinal h \<noteq> 0"
  then obtain bs where "encodeHubMetadata h (Some out) = (CR_OK, Some bs)"
    using assms by (simp add: encodeHubMetadata_def)
  then show "\<exists>bs. encodeHubMetadata h (Some out) = (CR_OK, Some bs) \<and> decodeHubMetadata (Some bs) = Inr h"
    using encodeHubMetadata_ok by blast
qed

text \<open>Metadata of both devices round-trips through its image, and the encoder accepts exactly the
  metadata with a nonzero device id, epoch and next id (Node) or a nonzero next ordinal (Hub).\<close>

theorem metadata_roundtrip:
  "(length out = NODE_METADATA_SIZE \<longrightarrow>
     (if nmCustodySourceDeviceId m = 0 \<or> nmEventEpoch m = 0 \<or> nmNextUnreservedEventId m = 0
      then encodeNodeMetadata m (Some out) = (INVALID_METADATA, Some out)
      else \<exists>bs. encodeNodeMetadata m (Some out) = (CR_OK, Some bs) \<and> decodeNodeMetadata (Some bs) = Inr m))
   \<and> (length out = HUB_METADATA_SIZE \<longrightarrow>
     (if hmNextUnreservedAdmissionOrdinal h = 0
      then encodeHubMetadata h (Some out) = (INVALID_METADATA, Some out)
      else \<exists>bs. encodeHubMetadata h (Some out) = (CR_OK, Some bs) \<and> decodeHubMetadata (Some bs) = Inr h))"
  using nodeMetadata_encodable [of out m] hubMetadata_encodable [of out h] by simp

theorem metadata_roundtrip_witness:
  "\<exists>bs. encodeHubMetadata \<lparr>hmGeneration = 3, hmNextUnreservedAdmissionOrdinal = 33\<rparr> (Some (fillZero 24))
      = (CR_OK, Some bs) \<and> decodeHubMetadata (Some bs)
      = Inr \<lparr>hmGeneration = 3, hmNextUnreservedAdmissionOrdinal = 33\<rparr>"
  using metadata_roundtrip [of "fillZero 24" _
      "\<lparr>hmGeneration = 3, hmNextUnreservedAdmissionOrdinal = 33\<rparr>"] by simp

end
