(* ===== verification/DualStore.thy ===== *)
theory DualStore
  imports EventRecordCodecs
begin

text \<open>
  The contract between the firmware's durable stores and the medium below them.  The three clients
  (identity allocator, Node Event store, Hub ledger) keep every record in two copies and talk to an
  abstract \<^verbatim>\<open>Storage\<close> class with a read, a write and a commit; here these are parameters on an environment
  state \<open>'s\<close>, \<open>cell s k c\<close> is what the medium holds for copy \<open>c\<close> of record \<open>k\<close> (\<open>None\<close>: nothing of the
  record's size), and the locale \<open>dual_store\<close> states what the clients rely on:

  \<^item> a read changes no cell; unless it reports \<open>SR_UNAVAILABLE\<close> it tells what the cell holds (\<open>SR_ERROR\<close>: no record, which is how the
    clients take it);
  \<^item> a write touches one cell only and leaves it as it was, with the bytes written, or with bytes that
    do not decode (a torn write), whatever it reports;
  \<^item> a commit changes no cell.

  A power cut inside an operation leaves the cells as a run whose remaining storage calls all report
  \<open>SR_UNAVAILABLE\<close> does, so the laws cover it.
\<close>

datatype storageResult = SR_OK | SR_MISSING | SR_UNAVAILABLE | SR_ERROR

text \<open>The record a pair of cells stands for, and the slot that holds it.\<close>

definition authoritative :: "('r \<Rightarrow> u32) \<Rightarrow> (bytes \<Rightarrow> 'r option) \<Rightarrow> (copySlot \<Rightarrow> bytes option) \<Rightarrow>
    ('r \<times> copySlot) option" where
  "authoritative gen dec cells = (case (Option.bind (cells CopyA) dec, Option.bind (cells CopyB) dec) of
       (None, None) \<Rightarrow> None | (Some a, None) \<Rightarrow> Some (a, CopyA) | (None, Some b) \<Rightarrow> Some (b, CopyB)
     | (Some a, Some b) \<Rightarrow> (case compareGenerations (gen a) (gen b) of
           GEN_EQUAL \<Rightarrow> if cells CopyA = cells CopyB then Some (a, CopyA) else None
         | AMBIGUOUS \<Rightarrow> None | LEFT_NEWER \<Rightarrow> Some (a, CopyA) | RIGHT_NEWER \<Rightarrow> Some (b, CopyB)))"

text \<open>Selection results that yield a record.\<close>

definition settled :: "selectionResult \<Rightarrow> bool" where
  "settled sel = (sel \<noteq> BOTH_INVALID \<and> sel \<noteq> EQUAL_DISAGREEMENT \<and> sel \<noteq> SEL_GENERATION_AMBIGUOUS)"

text \<open>A buffer filled by a read represents the content of the cell: the same bytes, or neither is a
  record.\<close>

definition represents :: "(bytes \<Rightarrow> 'r option) \<Rightarrow> nat \<Rightarrow> fixedCopy \<Rightarrow> bytes option \<Rightarrow> bool" where
  "represents dec n f c =
     (fcStatus f = FRS_OK \<and> c = Some (fcBytes f) \<and> length (fcBytes f) = n
      \<or> (fcStatus f = FRS_OK \<longrightarrow> dec (fcBytes f) = None) \<and> Option.bind c dec = None)"

text \<open>What a write of \<open>bs\<close> to one cell may do to the medium.\<close>

definition cellStep :: "(bytes \<Rightarrow> 'r option) \<Rightarrow> 'k \<Rightarrow> copySlot \<Rightarrow> bytes \<Rightarrow>
    ('k \<Rightarrow> copySlot \<Rightarrow> bytes option) \<Rightarrow> ('k \<Rightarrow> copySlot \<Rightarrow> bytes option) \<Rightarrow> bool" where
  "cellStep dec k c bs m m' = ((\<forall>k' c'. (k', c') \<noteq> (k, c) \<longrightarrow> m' k' c' = m k' c')
     \<and> (m' k c = m k c \<or> m' k c = Some bs \<or> Option.bind (m' k c) dec = None))"

lemma represents_decode:
  "represents dec n f c \<Longrightarrow> (if fcStatus f = FRS_OK then dec (fcBytes f) else None) = Option.bind c dec"
  by (auto simp: represents_def)

lemma represents_bytes:
  assumes "represents dec n f c" "Option.bind c dec = Some r"
  shows "c = Some (fcBytes f) \<and> length (fcBytes f) = n"
  using assms by (auto simp: represents_def)

lemma sameBytes_length: "length xs = n \<Longrightarrow> length ys = n \<Longrightarrow> sameBytes xs ys n \<longleftrightarrow> xs = ys"
  by (auto simp: sameBytes_def list_all_iff intro: nth_equalityI)

lemma selectCopies_authoritative:
  assumes a: "represents dec n fa (cells CopyA)" and b: "represents dec n fb (cells CopyB)"
    and sel: "selectCopies gen dec fa fb r0 s0 = (sel, r, slot)"
  shows "authoritative gen dec cells = (if settled sel then Some (r, slot) else None)"
    and "sel = BOTH_INVALID \<longleftrightarrow> Option.bind (cells CopyA) dec = None \<and> Option.bind (cells CopyB) dec = None"
proof -
  note d = represents_decode [OF a] represents_decode [OF b]
  have eq: "bytesEqual (Some (fcBytes fa)) (Some (fcBytes fb)) (length (fcBytes fa)) \<longleftrightarrow> cells CopyA = cells CopyB"
    if "Option.bind (cells CopyA) dec = Some x" "Option.bind (cells CopyB) dec = Some y" for x y
    using represents_bytes [OF a that(1)] represents_bytes [OF b that(2)]
    by (simp add: bytesEqual_def sameBytes_length)
  note sel' = sel [unfolded selectCopies_def Let_def d]
  show "authoritative gen dec cells = (if settled sel then Some (r, slot) else None)"
  proof (cases "Option.bind (cells CopyA) dec"; cases "Option.bind (cells CopyB) dec")
    fix x y assume xy: "Option.bind (cells CopyA) dec = Some x" "Option.bind (cells CopyB) dec = Some y"
    then show ?thesis using sel' eq [OF xy]
      by (cases "compareGenerations (gen x) (gen y)") (auto simp: authoritative_def settled_def split: if_splits)
  qed (use sel' in \<open>auto simp: authoritative_def settled_def\<close>)
  show "sel = BOTH_INVALID \<longleftrightarrow> Option.bind (cells CopyA) dec = None \<and> Option.bind (cells CopyB) dec = None"
    using sel' by (cases "Option.bind (cells CopyA) dec"; cases "Option.bind (cells CopyB) dec")
      (auto split: if_splits)
qed

lemma authoritative_cell:
  assumes "authoritative gen dec cells = Some (r, slot)"
  shows "Option.bind (cells slot) dec = Some r"
  using assms by (auto simp: authoritative_def split: option.splits if_splits generationOrder.splits)

lemma authoritative_other_invalid:
  assumes "Option.bind (cells slot) dec = Some r" "Option.bind (cells (opposite slot)) dec = None"
  shows "authoritative gen dec cells = Some (r, slot)"
  using assms by (cases slot) (auto simp: authoritative_def split: option.splits)

lemma authoritative_next:
  assumes "Option.bind (cells slot) dec = Some r" "Option.bind (cells (opposite slot)) dec = Some v"
    and "gen v = gen r + 1"
  shows "authoritative gen dec cells = Some (v, opposite slot)"
  using assms by (cases slot) (auto simp: authoritative_def compareGenerations_next split: option.splits)

text \<open>One write of the next generation into the copy that is not authoritative either leaves the old
  record authoritative or makes the new one so; there is no third outcome.\<close>

lemma cellStep_next:
  assumes step: "cellStep dec k (opposite slot) bs m m'"
    and old: "authoritative gen dec (m k) = Some (r, slot)"
    and new: "dec bs = Some v" "gen v = gen r + 1"
  shows "authoritative gen dec (m' k) = Some (r, slot) \<or> authoritative gen dec (m' k) = Some (v, opposite slot)"
    and "m' k (opposite slot) = Some bs \<Longrightarrow> authoritative gen dec (m' k) = Some (v, opposite slot)"
proof -
  have keep: "m' k slot = m k slot" using step by (simp add: cellStep_def)
  have r: "Option.bind (m' k slot) dec = Some r" using authoritative_cell [OF old] keep by simp
  show n: "m' k (opposite slot) = Some bs \<Longrightarrow> authoritative gen dec (m' k) = Some (v, opposite slot)"
    using authoritative_next [of "m' k" slot dec r v gen] r new by simp
  consider "m' k (opposite slot) = m k (opposite slot)" | "m' k (opposite slot) = Some bs"
    | "Option.bind (m' k (opposite slot)) dec = None" using step by (auto simp: cellStep_def)
  then show "authoritative gen dec (m' k) = Some (r, slot) \<or> authoritative gen dec (m' k) = Some (v, opposite slot)"
  proof cases
    case 1
    then have "m' k = m k" using keep by (cases slot) (auto intro!: ext, (metis copySlot.exhaust opposite_simps(1,2))+)
    then show ?thesis using old by simp
  next
    case 2 then show ?thesis using n by blast
  next
    case 3 then show ?thesis using authoritative_other_invalid [of "m' k" slot dec r gen] r by blast
  qed
qed

lemma cellStep_first:
  assumes step: "cellStep dec k slot bs m m'"
    and none: "Option.bind (m k CopyA) dec = None" "Option.bind (m k CopyB) dec = None"
    and new: "dec bs = Some v"
  shows "Option.bind (m' k CopyA) dec = None \<and> Option.bind (m' k CopyB) dec = None
      \<or> authoritative gen dec (m' k) = Some (v, slot)"
    and "m' k slot = Some bs \<Longrightarrow> authoritative gen dec (m' k) = Some (v, slot)"
  using step none new by (cases slot; auto simp: cellStep_def authoritative_def split: option.splits)+

lemma cellStep_frame: "cellStep dec k c bs m m' \<Longrightarrow> k' \<noteq> k \<Longrightarrow> m' k' = m k'"
  by (auto simp: cellStep_def)

text \<open>A record may be written to a copy that is not authoritative with the next generation, or to either
  copy while neither holds a record.\<close>

definition supersedes :: "('r \<Rightarrow> u32) \<Rightarrow> (bytes \<Rightarrow> 'r option) \<Rightarrow> (copySlot \<Rightarrow> bytes option) \<Rightarrow> copySlot \<Rightarrow> 'r \<Rightarrow> bool" where
  "supersedes gen dec cells target v =
     ((\<exists>r. authoritative gen dec cells = Some (r, opposite target) \<and> gen v = gen r + 1)
      \<or> Option.bind (cells CopyA) dec = None \<and> Option.bind (cells CopyB) dec = None)"

lemma cellStep_supersedes:
  assumes step: "cellStep dec k target bs m m'" and sup: "supersedes gen dec (m k) target v" and new: "dec bs = Some v"
  shows "authoritative gen dec (m' k) = authoritative gen dec (m k) \<or> authoritative gen dec (m' k) = Some (v, target)"
    and "m' k target = Some bs \<Longrightarrow> authoritative gen dec (m' k) = Some (v, target)"
  using sup unfolding supersedes_def
proof (atomize (full), elim disjE exE conjE)
  fix r assume r: "authoritative gen dec (m k) = Some (r, opposite target)" "gen v = gen r + 1"
  have step': "cellStep dec k (opposite (opposite target)) bs m m'" using step by simp
  show "(authoritative gen dec (m' k) = authoritative gen dec (m k) \<or> authoritative gen dec (m' k) = Some (v, target))
      \<and> (m' k target = Some bs \<longrightarrow> authoritative gen dec (m' k) = Some (v, target))"
    using cellStep_next [OF step' r(1) new r(2)] r(1) by auto
next
  assume none: "Option.bind (m k CopyA) dec = None" "Option.bind (m k CopyB) dec = None"
  have "authoritative gen dec (m k) = None" using none by (simp add: authoritative_def)
  moreover have "authoritative gen dec (m' k) = None" if "Option.bind (m' k CopyA) dec = None" "Option.bind (m' k CopyB) dec = None"
    using that by (simp add: authoritative_def)
  ultimately show "(authoritative gen dec (m' k) = authoritative gen dec (m k) \<or> authoritative gen dec (m' k) = Some (v, target))
      \<and> (m' k target = Some bs \<longrightarrow> authoritative gen dec (m' k) = Some (v, target))"
    using cellStep_first [OF step none new, of gen] by metis
qed

lemma supersedes_next:
  "authoritative gen dec cells = Some (r, slot) \<Longrightarrow> gen v = gen r + 1 \<Longrightarrow> supersedes gen dec cells (opposite slot) v"
  by (simp add: supersedes_def)

subsection \<open>The storage contract\<close>

locale dual_store = record_codec enc dec gen wf recsize
  for enc :: "'r \<Rightarrow> bytes option" and dec :: "bytes \<Rightarrow> 'r option" and gen :: "'r \<Rightarrow> u32"
    and wf :: "'r \<Rightarrow> bool" and recsize :: nat +
  fixes rd :: "'k \<Rightarrow> copySlot \<Rightarrow> bytes \<Rightarrow> 's \<Rightarrow> storageResult \<times> bytes \<times> nat \<times> 's"
    and wr :: "'k \<Rightarrow> copySlot \<Rightarrow> bytes \<Rightarrow> 's \<Rightarrow> storageResult \<times> 's"
    and cm :: "'s \<Rightarrow> storageResult \<times> 's"
    and cell :: "'s \<Rightarrow> 'k \<Rightarrow> copySlot \<Rightarrow> bytes option"
  assumes rd_frame: "rd k c buf s = (r, buf', n, s') \<Longrightarrow> cell s' = cell s \<and> length buf' = length buf"
    and rd_cell: "rd k c buf s = (r, buf', n, s') \<Longrightarrow> length buf = recsize \<Longrightarrow> r \<noteq> SR_UNAVAILABLE \<Longrightarrow>
      cell s k c = (if r = SR_OK \<and> n = recsize then Some buf' else None)"
    and wr_cell: "wr k c bs s = (r, s') \<Longrightarrow> cellStep dec k c bs (cell s) (cell s')"
    and cm_frame: "cm s = (r, s') \<Longrightarrow> cell s' = cell s"
begin

text \<open>Reading both copies and selecting computes the authoritative record of the cells.\<close>

lemma read_represents:
  assumes "rd k c (fillZero recsize) s = (r, buf, n, s')" "r \<noteq> SR_UNAVAILABLE"
    and "r = SR_OK \<and> n = recsize \<Longrightarrow> f = \<lparr>fcStatus = FRS_OK, fcBytes = buf\<rparr>"
    and "\<not> (r = SR_OK \<and> n = recsize) \<Longrightarrow>
      fcStatus f = FRS_MISSING \<or> f = \<lparr>fcStatus = FRS_OK, fcBytes = fillZero recsize\<rparr>"
  shows "represents dec recsize f (cell s k c)"
  using rd_frame [OF assms(1)] rd_cell [OF assms(1)] assms(2-) dec_blank
  by (cases "r = SR_OK \<and> n = recsize") (auto simp: represents_def)

lemma cellStep_refl: "cellStep dec k c bs (cell s) (cell s)"
  by (simp add: cellStep_def)

end

subsection \<open>A medium in memory\<close>

text \<open>The smallest medium that keeps the contract: a map of cells, reads that report what is there and
  writes that always succeed.  Concrete runs of the stores are evaluated on it.\<close>

type_synonym 'k ram = "'k \<Rightarrow> copySlot \<Rightarrow> bytes option"

definition ramRead :: "'k \<Rightarrow> copySlot \<Rightarrow> bytes \<Rightarrow> 'k ram \<Rightarrow> storageResult \<times> bytes \<times> nat \<times> 'k ram" where
  "ramRead k c buf s = (case s k c of None \<Rightarrow> (SR_MISSING, buf, 0, s)
     | Some bs \<Rightarrow> if length bs = length buf then (SR_OK, bs, length bs, s) else (SR_ERROR, buf, 0, s))"

definition ramWrite :: "'k \<Rightarrow> copySlot \<Rightarrow> bytes \<Rightarrow> 'k ram \<Rightarrow> storageResult \<times> 'k ram" where
  "ramWrite k c bs s = (SR_OK, s(k := (s k)(c := Some bs)))"

definition ramCommit :: "'k ram \<Rightarrow> storageResult \<times> 'k ram" where
  "ramCommit s = (SR_OK, s)"

definition ramCell :: "nat \<Rightarrow> 'k ram \<Rightarrow> 'k \<Rightarrow> copySlot \<Rightarrow> bytes option" where
  "ramCell n s k c = (case s k c of None \<Rightarrow> None | Some bs \<Rightarrow> if length bs = n then Some bs else None)"

lemma ramRead_frame:
  "ramRead k c buf s = (r, buf', n, s') \<Longrightarrow> ramCell m s' = ramCell m s \<and> length buf' = length buf"
  by (auto simp: ramRead_def split: option.splits if_splits)

lemma ramRead_cell:
  "ramRead k c buf s = (r, buf', n, s') \<Longrightarrow> length buf = m \<Longrightarrow>
    ramCell m s k c = (if r = SR_OK \<and> n = m then Some buf' else None)"
  by (auto simp: ramRead_def ramCell_def split: option.splits if_splits)

lemma ramWrite_cell: "ramWrite k c bs s = (r, s') \<Longrightarrow> cellStep dec k c bs (ramCell m s) (ramCell m s')"
  by (cases "length bs = m") (auto simp: ramWrite_def ramCell_def cellStep_def)

lemma ramCommit_frame: "ramCommit s = (r, s') \<Longrightarrow> ramCell m s' = ramCell m s"
  by (simp add: ramCommit_def)

end
