(* ===== verification/EventIdentity.thy ===== *)
theory EventIdentity
  imports DualStore "HOL-Library.Product_Lexorder"
begin

text \<open>
  Durable Event identities (\<^verbatim>\<open>lib/event_identity/src/event_identity.h\<close>): the allocator that hands out
  \<open>(epoch, id)\<close> pairs from blocks of 32 ids reserved in dual-copy metadata.

  The abstract classes \<^verbatim>\<open>MetadataStorage\<close> and \<^verbatim>\<open>EntropySource\<close> are parameters: records of functions on an
  environment state \<open>'s\<close> that stands for everything outside the firmware image (flash, entropy
  hardware).  A read takes the caller's buffer and returns the result, the buffer afterwards and the
  reported length; \<open>nextUint32\<close> returns \<open>None\<close> where the C++ returns false.
\<close>

subsection \<open>Interfaces and state\<close>

definition RESERVATION_BLOCK_SIZE :: u32 where [simp]: "RESERVATION_BLOCK_SIZE = 32"
definition UINT32_MAX :: u32 where [simp]: "UINT32_MAX = 0xFFFFFFFF"

datatype custodyState = CUSTODY_EMPTY | CUSTODY_NONEMPTY | CUSTODY_UNPROVABLE

datatype identityStatus = ID_READY | ID_INVALID_SOURCE_DEVICE_ID | ID_STORAGE_UNAVAILABLE
  | ID_STORAGE_FAILURE | ID_READ_BACK_MISSING | ID_READ_BACK_MISMATCH | ID_READ_BACK_INVALID
  | ID_ENTROPY_FAILURE | ID_IDENTITY_CONTEXT_MISMATCH | ID_IDENTITY_RECOVERY_REQUIRED
  | ID_METADATA_CONFLICT | ID_GENERATION_AMBIGUOUS | ID_EPOCH_EXHAUSTED

record allocationResult =
  arsStatus :: identityStatus
  arsIdentity :: identity

record 's metadataStorage =
  msRead :: "copySlot \<Rightarrow> bytes \<Rightarrow> 's \<Rightarrow> storageResult \<times> bytes \<times> nat \<times> 's"
  msWrite :: "copySlot \<Rightarrow> bytes \<Rightarrow> 's \<Rightarrow> storageResult \<times> 's"
  msCommit :: "'s \<Rightarrow> storageResult \<times> 's"

type_synonym 's entropySource = "'s \<Rightarrow> u32 option \<times> 's"

record allocator =
  alMetadata :: nodeMetadata
  alActiveSlot :: copySlot
  alSourceDeviceId :: u8
  alNextVolatileId :: u32
  alVolatileEndExclusive :: u32
  alHasAuthoritativeMetadata :: bool
  alReady :: bool
  alStatus :: identityStatus

definition identity_init :: identity where
  "identity_init = \<lparr>idSourceDeviceId = 0, idEpoch = 0, idId = 0\<rparr>"

text \<open>The state after \<^verbatim>\<open>reset()\<close>, which is also the default-constructed allocator.\<close>

definition allocator_reset :: allocator where
  "allocator_reset = \<lparr>alMetadata = nodeMetadata_init, alActiveSlot = CopyA, alSourceDeviceId = 0,
     alNextVolatileId = 0, alVolatileEndExclusive = 0, alHasAuthoritativeMetadata = False,
     alReady = False, alStatus = ID_IDENTITY_RECOVERY_REQUIRED\<rparr>"

subsection \<open>Operations\<close>

definition al_fail :: "identityStatus \<Rightarrow> allocator \<Rightarrow> identityStatus \<times> allocator" where
  "al_fail status a = (status, a\<lparr>alReady := False, alStatus := status\<rparr>)"

definition becomeReady :: "allocator \<Rightarrow> identityStatus \<times> allocator" where
  "becomeReady a = (ID_READY, a\<lparr>alNextVolatileId := nmNextUnreservedEventId (alMetadata a),
     alVolatileEndExclusive := nmNextUnreservedEventId (alMetadata a), alReady := True,
     alStatus := ID_READY\<rparr>)"

definition validHighWater :: "u32 \<Rightarrow> bool" where
  "validHighWater value = (value \<noteq> 0 \<and> (value - 1) mod RESERVATION_BLOCK_SIZE = 0)"

definition readCopy :: "'s metadataStorage \<Rightarrow> copySlot \<Rightarrow> 's \<Rightarrow> identityStatus \<times> fixedCopy \<times> 's" where
  "readCopy ops slot s =
     (case msRead ops slot (fillZero NODE_METADATA_SIZE) s of (result, buf, len, s') \<Rightarrow>
      if result = SR_UNAVAILABLE
        then (ID_STORAGE_UNAVAILABLE, \<lparr>fcStatus = FRS_UNAVAILABLE, fcBytes = buf\<rparr>, s')
      else if result \<noteq> SR_OK \<or> len \<noteq> NODE_METADATA_SIZE
        then (ID_READY, (if result = SR_MISSING then \<lparr>fcStatus = FRS_MISSING, fcBytes = buf\<rparr>
                         else \<lparr>fcStatus = FRS_OK, fcBytes = fillZero NODE_METADATA_SIZE\<rparr>), s')
      else (ID_READY, \<lparr>fcStatus = FRS_OK, fcBytes = buf\<rparr>, s'))"

definition commitMetadata ::
  "'s metadataStorage \<Rightarrow> nodeMetadata \<Rightarrow> allocator \<Rightarrow> 's \<Rightarrow> (identityStatus \<times> allocator) \<times> 's" where
  "commitMetadata ops next a s =
     (case encodeNodeMetadata next (Some (fillZero NODE_METADATA_SIZE)) of (encodeResult, out) \<Rightarrow>
      if encodeResult \<noteq> CR_OK then (al_fail ID_STORAGE_FAILURE a, s)
      else let encoded = the out;
               target = (if alHasAuthoritativeMetadata a then opposite (alActiveSlot a) else CopyA)
      in case msWrite ops target encoded s of (writeResult, s1) \<Rightarrow>
      if writeResult = SR_UNAVAILABLE then (al_fail ID_STORAGE_UNAVAILABLE a, s1)
      else if writeResult \<noteq> SR_OK then (al_fail ID_STORAGE_FAILURE a, s1)
      else case msCommit ops s1 of (commitResult, s2) \<Rightarrow>
      if commitResult = SR_UNAVAILABLE then (al_fail ID_STORAGE_UNAVAILABLE a, s2)
      else if commitResult \<noteq> SR_OK then (al_fail ID_STORAGE_FAILURE a, s2)
      else case msRead ops target (fillZero NODE_METADATA_SIZE) s2 of (readResult, buf, len, s3) \<Rightarrow>
      if readResult = SR_UNAVAILABLE then (al_fail ID_STORAGE_UNAVAILABLE a, s3)
      else if readResult = SR_MISSING then (al_fail ID_READ_BACK_MISSING a, s3)
      else if readResult \<noteq> SR_OK \<or> len \<noteq> NODE_METADATA_SIZE then (al_fail ID_READ_BACK_INVALID a, s3)
      else case decodeNodeMetadata (Some buf) of
        Inl _ \<Rightarrow> (al_fail ID_READ_BACK_INVALID a, s3)
      | Inr verified \<Rightarrow>
        if classifyReadBack encoded \<lparr>fcStatus = FRS_OK, fcBytes = buf\<rparr> \<noteq> RB_MATCH
        then (al_fail ID_READ_BACK_MISMATCH a, s3)
        else (becomeReady (a\<lparr>alMetadata := verified, alActiveSlot := target,
                alHasAuthoritativeMetadata := True\<rparr>), s3))"

definition initializeFresh ::
  "'s metadataStorage \<Rightarrow> 's entropySource \<Rightarrow> allocator \<Rightarrow> 's \<Rightarrow> (identityStatus \<times> allocator) \<times> 's" where
  "initializeFresh ops entropy a s =
     (case entropy s of (value, s1) \<Rightarrow>
      if value = None \<or> value = Some 0 then (al_fail ID_ENTROPY_FAILURE a, s1)
      else commitMetadata ops
        \<lparr>nmGeneration = (if alHasAuthoritativeMetadata a then nmGeneration (alMetadata a) + 1 else 1),
         nmCustodySourceDeviceId = alSourceDeviceId a, nmEventEpoch = the value,
         nmNextUnreservedEventId = 1\<rparr> a s1)"

definition reserveBlock ::
  "'s metadataStorage \<Rightarrow> allocator \<Rightarrow> 's \<Rightarrow> (identityStatus \<times> allocator) \<times> 's" where
  "reserveBlock ops a s =
     (let m = alMetadata a; next = m\<lparr>nmGeneration := nmGeneration m + 1\<rparr> in
      if nmNextUnreservedEventId m > UINT32_MAX - RESERVATION_BLOCK_SIZE then
        (if nmEventEpoch m = UINT32_MAX then (al_fail ID_EPOCH_EXHAUSTED a, s)
         else case commitMetadata ops (next\<lparr>nmEventEpoch := nmEventEpoch m + 1,
                nmNextUnreservedEventId := 1 + RESERVATION_BLOCK_SIZE\<rparr>) a s of ((committed, a'), s') \<Rightarrow>
              if committed \<noteq> ID_READY then ((committed, a'), s')
              else ((ID_READY, a'\<lparr>alNextVolatileId := 1,
                     alVolatileEndExclusive := 1 + RESERVATION_BLOCK_SIZE\<rparr>), s'))
      else let blockStart = nmNextUnreservedEventId m in
        case commitMetadata ops (next\<lparr>nmNextUnreservedEventId := blockStart + RESERVATION_BLOCK_SIZE\<rparr>) a s
        of ((committed, a'), s') \<Rightarrow>
          if committed \<noteq> ID_READY then ((committed, a'), s')
          else ((ID_READY, a'\<lparr>alNextVolatileId := blockStart,
                 alVolatileEndExclusive := blockStart + RESERVATION_BLOCK_SIZE\<rparr>), s'))"

definition al_recover :: "'s metadataStorage \<Rightarrow> 's entropySource \<Rightarrow> u8 \<Rightarrow> custodyState \<Rightarrow> 's \<Rightarrow>
    (identityStatus \<times> allocator) \<times> 's" where
  "al_recover ops entropy configuredSourceDeviceId custody s =
     (let a = allocator_reset\<lparr>alSourceDeviceId := configuredSourceDeviceId\<rparr> in
      if configuredSourceDeviceId = 0 then (al_fail ID_INVALID_SOURCE_DEVICE_ID a, s)
      else if custody = CUSTODY_UNPROVABLE then (al_fail ID_IDENTITY_RECOVERY_REQUIRED a, s)
      else case readCopy ops CopyA s of (readA, copyA, s1) \<Rightarrow>
      case readCopy ops CopyB s1 of (readB, copyB, s2) \<Rightarrow>
      if readA = ID_STORAGE_UNAVAILABLE \<or> readB = ID_STORAGE_UNAVAILABLE
        then (al_fail ID_STORAGE_UNAVAILABLE a, s2)
      else case selectCopies nmGeneration decodeNodeMetadataForSelection copyA copyB
          nodeMetadata_init CopyA of (selection, selected, selectedSlot) \<Rightarrow>
      if selection = EQUAL_DISAGREEMENT then (al_fail ID_METADATA_CONFLICT a, s2)
      else if selection = SEL_GENERATION_AMBIGUOUS then (al_fail ID_GENERATION_AMBIGUOUS a, s2)
      else if selection = BOTH_INVALID then
        (if custody = CUSTODY_NONEMPTY then (al_fail ID_IDENTITY_RECOVERY_REQUIRED a, s2)
         else initializeFresh ops entropy a s2)
      else let a = a\<lparr>alMetadata := selected, alActiveSlot := selectedSlot,
             alHasAuthoritativeMetadata := True\<rparr> in
      if \<not> validHighWater (nmNextUnreservedEventId selected) then
        (if custody = CUSTODY_NONEMPTY then (al_fail ID_IDENTITY_RECOVERY_REQUIRED a, s2)
         else initializeFresh ops entropy a s2)
      else if custody = CUSTODY_NONEMPTY then
        (if nmCustodySourceDeviceId selected \<noteq> configuredSourceDeviceId
         then (al_fail ID_IDENTITY_CONTEXT_MISMATCH a, s2)
         else (becomeReady a, s2))
      else if nmCustodySourceDeviceId selected \<noteq> configuredSourceDeviceId
        then initializeFresh ops entropy a s2
      else (becomeReady a, s2))"

definition allocate ::
  "'s metadataStorage \<Rightarrow> allocator \<Rightarrow> 's \<Rightarrow> allocationResult \<times> allocator \<times> 's" where
  "allocate ops a s =
     (if \<not> alReady a then (\<lparr>arsStatus = alStatus a, arsIdentity = identity_init\<rparr>, a, s)
      else case (if alNextVolatileId a = alVolatileEndExclusive a then reserveBlock ops a s
                 else ((ID_READY, a), s)) of ((reservation, a'), s') \<Rightarrow>
        if reservation \<noteq> ID_READY
        then (\<lparr>arsStatus = reservation, arsIdentity = identity_init\<rparr>, a', s')
        else (\<lparr>arsStatus = ID_READY, arsIdentity = \<lparr>idSourceDeviceId = alSourceDeviceId a',
                 idEpoch = nmEventEpoch (alMetadata a'), idId = alNextVolatileId a'\<rparr>\<rparr>,
              a'\<lparr>alNextVolatileId := alNextVolatileId a' + 1\<rparr>, s'))"

subsection \<open>The contract with the metadata storage\<close>

text \<open>The metadata is one dual-copy record; drawing entropy changes no cell.\<close>

locale identity_store =
  dual_store nodeMetadataImage decodeNodeMetadataForSelection nmGeneration "\<lambda>_. True" 28
    "\<lambda>_ :: unit. msRead ops" "\<lambda>_. msWrite ops" "msCommit ops" cell
  for ops :: "'s metadataStorage" and cell :: "'s \<Rightarrow> unit \<Rightarrow> copySlot \<Rightarrow> bytes option" +
  fixes entropy :: "'s entropySource"
  assumes entropy_frame: "entropy s = (v, s') \<Longrightarrow> cell s' = cell s"

definition durableMetadata :: "(unit \<Rightarrow> copySlot \<Rightarrow> bytes option) \<Rightarrow> (nodeMetadata \<times> copySlot) option" where
  "durableMetadata cells = authoritative nmGeneration decodeNodeMetadataForSelection (cells ())"

definition position :: "nodeMetadata \<Rightarrow> u32 \<times> u32" where
  "position m = (nmEventEpoch m, nmNextUnreservedEventId m)"

definition serves :: "u8 \<Rightarrow> nodeMetadata \<Rightarrow> bool" where
  "serves device m = (nmCustodySourceDeviceId m = device \<and> validHighWater (nmNextUnreservedEventId m))"

definition commitTarget :: "allocator \<Rightarrow> copySlot" where
  "commitTarget a = (if alHasAuthoritativeMetadata a then opposite (alActiveSlot a) else CopyA)"

definition adopted :: "nodeMetadata \<Rightarrow> allocator \<Rightarrow> allocator" where
  "adopted m a = snd (becomeReady (a\<lparr>alMetadata := m, alActiveSlot := commitTarget a,
     alHasAuthoritativeMetadata := True\<rparr>))"

lemma nodeMetadataImage_encode:
  "encodeNodeMetadata m (Some (fillZero 28)) = (r, out) \<Longrightarrow>
   nodeMetadataImage m = (if r = CR_OK then out else None)"
  by (simp add: nodeMetadataImage_def image_def)

lemma nodeMetadataImage_decode:
  "nodeMetadataImage m = Some bs \<Longrightarrow> decodeNodeMetadata (Some bs) = Inr m \<and> length bs = 28"
  using encodeNodeMetadata_ok by (simp add: nodeMetadataImage_def image_Some)

lemma encodeNodeMetadata_OK_Some: "encodeNodeMetadata m (Some bs) = (CR_OK, out) \<Longrightarrow> \<exists>b. out = Some b"
  by (auto simp: encodeNodeMetadata_def split: if_splits)

text \<open>A ready allocator works on the durable metadata and never ahead of its high-water mark.\<close>

definition live :: "u8 \<Rightarrow> (unit \<Rightarrow> copySlot \<Rightarrow> bytes option) \<Rightarrow> allocator \<Rightarrow> bool" where
  "live device cells a = (durableMetadata cells = Some (alMetadata a, alActiveSlot a)
     \<and> alHasAuthoritativeMetadata a \<and> alSourceDeviceId a = device \<and> serves device (alMetadata a)
     \<and> alVolatileEndExclusive a = nmNextUnreservedEventId (alMetadata a)
     \<and> alNextVolatileId a \<noteq> 0 \<and> alNextVolatileId a \<le> alVolatileEndExclusive a)"

definition served :: "u8 \<Rightarrow> (unit \<Rightarrow> copySlot \<Rightarrow> bytes option) \<Rightarrow> bool" where
  "served device cells = (case durableMetadata cells of None \<Rightarrow> False | Some (m, _) \<Rightarrow> serves device m)"

definition cursor :: "allocator \<Rightarrow> u32 \<times> u32" where
  "cursor a = (nmEventEpoch (alMetadata a), alNextVolatileId a)"

definition identityKey :: "identity \<Rightarrow> u32 \<times> u32" where
  "identityKey i = (idEpoch i, idId i)"

lemma validHighWater_start [simp]: "validHighWater 1" "validHighWater 33" "\<not> validHighWater 0"
  by (simp_all add: validHighWater_def)

lemma epoch_next: "e \<noteq> UINT32_MAX \<Longrightarrow> e < e + 1"
proof -
  assume "e \<noteq> UINT32_MAX"
  then have "unat e \<noteq> 0xFFFFFFFF" by (simp add: word_unat_eq_iff)
  moreover have "unat e < 2 ^ 32" using unsigned_less [of e, where ?'a = nat] by simp
  ultimately have "unat (e + 1) = unat e + 1" by (subst unat_add_lem [THEN iffD1]) simp_all
  then show "e < e + 1" by (simp add: word_less_nat_alt)
qed

lemma word_next:
  fixes x y :: u32 assumes "x < y" shows "x + 1 \<le> y" "x < x + 1" "x + 1 \<noteq> 0"
proof -
  have "unat x < unat y" "unat y < 2 ^ 32" using assms unsigned_less [of y, where ?'a = nat]
    by (simp_all add: word_less_nat_alt)
  moreover from this have "unat (x + 1) = unat x + 1" by (subst unat_add_lem [THEN iffD1]) simp_all
  ultimately show "x + 1 \<le> y" "x < x + 1" "x + 1 \<noteq> 0" by (auto simp: word_less_nat_alt word_le_nat_alt)
qed

lemma validHighWater_next:
  assumes "validHighWater w" "\<not> w > UINT32_MAX - RESERVATION_BLOCK_SIZE"
  shows "validHighWater (w + 32)" "w < w + 32"
proof -
  have "unat w \<le> 0xFFFFFFDF" using assms(2) by (simp add: word_le_nat_alt not_less)
  then have u: "unat (w + 32) = unat w + 32" by (subst unat_add_lem [THEN iffD1]) simp_all
  then show "w < w + 32" by (simp add: word_less_nat_alt)
  have nz: "w \<noteq> 0" "w + 32 \<noteq> 0" using assms(1) u by (auto simp: validHighWater_def)
  then have "unat (w - 1) = unat w - 1" "unat (w + 32 - 1) = unat (w + 32) - 1" "0 < unat w"
    using unat_minus_one [of w] unat_minus_one [of "w + 32"] by (auto simp: unat_gt_0)
  moreover have "unat (w - 1) mod 32 = 0"
    using assms(1) unat_mod [of "w - 1" 32] by (simp add: validHighWater_def)
  ultimately have "unat (w + 32 - 1) mod 32 = 0" using u by presburger
  then have "(w + 32 - 1) mod 32 = 0" using unat_mod [of "w + 32 - 1" 32] by (simp add: word_unat_eq_iff)
  then show "validHighWater (w + 32)" using nz by (simp add: validHighWater_def)
qed

context identity_store
begin

text \<open>A commit either changes nothing but one cell, as a write may, and leaves the allocator unready,
  or has put the new image in the target cell and adopted it.\<close>

lemma commitMetadata_cases:
  assumes "commitMetadata ops next a s = ((st, a'), s')"
  obtains (fail) bs where "st \<noteq> ID_READY" "a' = a\<lparr>alReady := False, alStatus := st\<rparr>"
      "nodeMetadataImage next = None \<and> cell s' = cell s \<or> nodeMetadataImage next = Some bs
        \<and> cellStep decodeNodeMetadataForSelection () (commitTarget a) bs (cell s) (cell s')"
    | (ok) bs where "st = ID_READY" "a' = adopted next a" "nodeMetadataImage next = Some bs"
      "cellStep decodeNodeMetadataForSelection () (commitTarget a) bs (cell s) (cell s')"
      "cell s' () (commitTarget a) = Some bs"
proof -
  obtain er out where enc: "encodeNodeMetadata next (Some (fillZero 28)) = (er, out)" by fastforce
  show thesis
  proof (cases "er = CR_OK")
    case False
    then show thesis using assms enc nodeMetadataImage_encode [OF enc]
      by (intro fail) (auto simp: commitMetadata_def al_fail_def)
  next
    case True
    then obtain bs where bs: "out = Some bs" "nodeMetadataImage next = Some bs"
      using encodeNodeMetadata_OK_Some [of "next" "fillZero 28" out] nodeMetadataImage_encode [OF enc] enc
      by auto
    obtain w s1 where w: "msWrite ops (commitTarget a) bs s = (w, s1)" by fastforce
    obtain c s2 where c: "msCommit ops s1 = (c, s2)" by fastforce
    obtain r buf n s3 where r: "msRead ops (commitTarget a) (fillZero 28) s2 = (r, buf, n, s3)"
      using prod_cases4 by blast
    note step = wr_cell [OF w]
    have cells: "cell s2 = cell s1" "cell s3 = cell s1" "length buf = 28"
      using cm_frame [OF c] rd_frame [OF r] by auto
    have buf: "r = SR_OK \<Longrightarrow> n = 28 \<Longrightarrow> cell s1 () (commitTarget a) = Some buf"
      using rd_cell [OF r] cells by simp
    have "classifyReadBack bs \<lparr>fcStatus = FRS_OK, fcBytes = buf\<rparr> = RB_MATCH \<Longrightarrow> buf = bs"
      using nodeMetadataImage_decode [OF bs(2)] cells(3)
      by (auto simp: classifyReadBack_def bytesEqual_def sameBytes_length split: if_splits)
    then show thesis
      using assms enc True bs w c r step cells buf fail [of bs] ok [of bs] nodeMetadataImage_decode [OF bs(2)]
      by (auto simp: commitMetadata_def commitTarget_def [symmetric] al_fail_def adopted_def becomeReady_def
          split: if_splits sum.splits)
  qed
qed

lemma commit_next:
  assumes "commitMetadata ops next a s = ((st, a'), s')"
    and "durableMetadata (cell s) = Some (alMetadata a, alActiveSlot a)" "alHasAuthoritativeMetadata a"
    and "nmGeneration next = nmGeneration (alMetadata a) + 1"
  shows "st = ID_READY \<and> a' = adopted next a \<and> durableMetadata (cell s') = Some (next, commitTarget a)
    \<or> st \<noteq> ID_READY \<and> a' = a\<lparr>alReady := False, alStatus := st\<rparr>
      \<and> durableMetadata (cell s') \<in> {Some (alMetadata a, alActiveSlot a), Some (next, commitTarget a)}"
  using assms(1)
proof (cases rule: commitMetadata_cases)
  case (ok bs)
  then show ?thesis using assms(2-) cellStep_next [of _ _ "alActiveSlot a" bs "cell s" "cell s'" nmGeneration]
      dec_enc [OF _ ok(3)] by (auto simp: durableMetadata_def commitTarget_def)
next
  case (fail bs)
  then show ?thesis using assms(2-) cellStep_next [of _ _ "alActiveSlot a" bs "cell s" "cell s'" nmGeneration]
      dec_enc [of "next" bs] by (auto simp: durableMetadata_def commitTarget_def)
qed

lemma commit_first:
  assumes "commitMetadata ops next a s = ((st, a'), s')" "\<not> alHasAuthoritativeMetadata a"
    and none: "Option.bind (cell s () CopyA) decodeNodeMetadataForSelection = None"
      "Option.bind (cell s () CopyB) decodeNodeMetadataForSelection = None"
  shows "st = ID_READY \<and> a' = adopted next a \<and> durableMetadata (cell s') = Some (next, commitTarget a)
    \<or> st \<noteq> ID_READY \<and> a' = a\<lparr>alReady := False, alStatus := st\<rparr>"
  using assms(1)
proof (cases rule: commitMetadata_cases)
  case (ok bs)
  then show ?thesis using cellStep_first(2) [OF ok(4) none _ ok(5)] dec_enc [OF _ ok(3)]
    by (auto simp: durableMetadata_def)
qed auto

lemma readCopy_represents:
  assumes "readCopy ops c s = (st, f, s')"
  shows "cell s' = cell s"
    and "st \<noteq> ID_STORAGE_UNAVAILABLE \<Longrightarrow> represents decodeNodeMetadataForSelection 28 f (cell s () c)"
proof -
  obtain r buf n s1 where r: "msRead ops c (fillZero 28) s = (r, buf, n, s1)" using prod_cases4 by blast
  show "cell s' = cell s" using assms r rd_frame [OF r] by (auto simp: readCopy_def split: if_splits)
  assume "st \<noteq> ID_STORAGE_UNAVAILABLE"
  then show "represents decodeNodeMetadataForSelection 28 f (cell s () c)"
    using assms r by (intro read_represents [OF r]) (auto simp: readCopy_def split: if_splits)
qed

lemma initializeFresh_outcome:
  assumes "initializeFresh ops entropy a s = ((st, a'), s')"
    and "alHasAuthoritativeMetadata a \<and> durableMetadata (cell s) = Some (alMetadata a, alActiveSlot a)
      \<or> \<not> alHasAuthoritativeMetadata a \<and> Option.bind (cell s () CopyA) decodeNodeMetadataForSelection = None
        \<and> Option.bind (cell s () CopyB) decodeNodeMetadataForSelection = None"
    and "alSourceDeviceId a = device"
  shows "st = ID_READY \<and> alReady a' \<and> live device (cell s') a' \<or> st \<noteq> ID_READY \<and> \<not> alReady a' \<and> alStatus a' = st"
proof -
  obtain v s1 where v: "entropy s = (v, s1)" by fastforce
  show ?thesis
  proof (cases "v = None \<or> v = Some 0")
    case True then show ?thesis using assms(1) v by (auto simp: initializeFresh_def al_fail_def)
  next
    case False
    let ?m = "\<lparr>nmGeneration = (if alHasAuthoritativeMetadata a then nmGeneration (alMetadata a) + 1 else 1),
         nmCustodySourceDeviceId = alSourceDeviceId a, nmEventEpoch = the v, nmNextUnreservedEventId = 1\<rparr>"
    have c: "commitMetadata ops ?m a s1 = ((st, a'), s')" using assms(1) v False by (auto simp: initializeFresh_def)
    have "st = ID_READY \<and> a' = adopted ?m a \<and> durableMetadata (cell s') = Some (?m, commitTarget a)
      \<or> st \<noteq> ID_READY \<and> a' = a\<lparr>alReady := False, alStatus := st\<rparr>"
      using commit_next [OF c] commit_first [OF c] assms(2) entropy_frame [OF v] by auto
    then show ?thesis using assms(3) by (auto simp: adopted_def becomeReady_def live_def serves_def)
  qed
qed

lemma recover_outcome:
  assumes "al_recover ops entropy device custody s = ((st, a'), s')"
  shows "(st = ID_READY \<and> alReady a' \<and> live device (cell s') a' \<or> st \<noteq> ID_READY \<and> \<not> alReady a' \<and> alStatus a' = st)
    \<and> (served device (cell s) \<longrightarrow> cell s' = cell s
        \<and> (alReady a' \<longrightarrow> alNextVolatileId a' = alVolatileEndExclusive a'))"
proof -
  let ?a = "allocator_reset\<lparr>alSourceDeviceId := device\<rparr>"
  obtain readA copyA s1 where A: "readCopy ops CopyA s = (readA, copyA, s1)" using prod_cases3 by blast
  obtain readB copyB s2 where B: "readCopy ops CopyB s1 = (readB, copyB, s2)" using prod_cases3 by blast
  obtain sel m slot where sel: "selectCopies nmGeneration decodeNodeMetadataForSelection copyA copyB
      nodeMetadata_init CopyA = (sel, m, slot)" using prod_cases3 by blast
  note rA = readCopy_represents [OF A] and rB = readCopy_represents [OF B]
  have s2: "cell s2 = cell s" using rA(1) rB(1) by simp
  consider (early) "device = 0 \<or> custody = CUSTODY_UNPROVABLE \<or> readA = ID_STORAGE_UNAVAILABLE
      \<or> readB = ID_STORAGE_UNAVAILABLE" | (go) "device \<noteq> 0" "custody \<noteq> CUSTODY_UNPROVABLE"
      "readA \<noteq> ID_STORAGE_UNAVAILABLE" "readB \<noteq> ID_STORAGE_UNAVAILABLE" by blast
  then show ?thesis
  proof cases
    case early
    then show ?thesis using assms A B s2
      by (auto simp: al_recover_def al_fail_def allocator_reset_def split: if_splits)
  next
    case go
    note auth = selectCopies_authoritative [OF rA(2) rB(2) [unfolded rA(1)] sel, OF go(3,4)]
    let ?b = "?a\<lparr>alMetadata := m, alActiveSlot := slot, alHasAuthoritativeMetadata := True\<rparr>"
    note run = assms [unfolded al_recover_def, simplified A B sel prod.case Let_def go, simplified]
    show ?thesis
    proof (cases "settled sel")
      case True
      then have d: "durableMetadata (cell s2) = Some (m, slot)" using auth(1) s2 by (simp add: durableMetadata_def)
      show ?thesis
      proof (cases "serves device m")
        case True
        then have "((st, a'), s') = (becomeReady ?b, s2)"
          using run \<open>settled sel\<close> by (auto simp: settled_def serves_def split: if_splits)
        then show ?thesis using d s2 True
          by (auto simp: becomeReady_def live_def allocator_reset_def serves_def)
      next
        case False
        then have "\<not> served device (cell s)" using d s2 by (simp add: served_def)
        moreover have "initializeFresh ops entropy ?b s2 = ((st, a'), s') \<or> st \<noteq> ID_READY \<and> a' = snd (al_fail st ?b)"
          using run \<open>settled sel\<close> False
          by (auto simp: settled_def serves_def al_fail_def split: if_splits)
        ultimately show ?thesis using initializeFresh_outcome [of ?b s2 st a' s' device] d
          by (auto simp: al_fail_def)
      qed
    next
      case False
      then have "durableMetadata (cell s) = None" using auth(1) by (simp add: durableMetadata_def)
      then have "\<not> served device (cell s)" by (simp add: served_def)
      moreover have "sel = BOTH_INVALID \<and> initializeFresh ops entropy ?a s2 = ((st, a'), s')
          \<or> st \<noteq> ID_READY \<and> a' = snd (al_fail st ?a)"
        using run False by (auto simp: settled_def al_fail_def split: if_splits)
      ultimately show ?thesis using initializeFresh_outcome [of ?a s2 st a' s' device] auth(2) s2
        by (auto simp: al_fail_def allocator_reset_def)
    qed
  qed
qed

lemma reserveBlock_outcome:
  assumes "reserveBlock ops a s = ((st, a'), s')" and "live device (cell s) a"
    and "alNextVolatileId a = alVolatileEndExclusive a"
  shows "st = ID_READY \<and> alReady a' \<and> live device (cell s') a' \<and> cursor a \<le> cursor a'
      \<and> alNextVolatileId a' < alVolatileEndExclusive a'
    \<or> st \<noteq> ID_READY \<and> \<not> alReady a' \<and> alStatus a' = st
      \<and> (\<exists>m slot. durableMetadata (cell s') = Some (m, slot) \<and> serves device m \<and> cursor a \<le> position m)"
proof -
  let ?m = "alMetadata a"
  let ?w = "nmNextUnreservedEventId ?m"
  let ?roll = "?m\<lparr>nmGeneration := nmGeneration ?m + 1, nmEventEpoch := nmEventEpoch ?m + 1,
                nmNextUnreservedEventId := 33\<rparr>"
  let ?step = "?m\<lparr>nmGeneration := nmGeneration ?m + 1, nmNextUnreservedEventId := ?w + 32\<rparr>"
  have d: "durableMetadata (cell s) = Some (?m, alActiveSlot a)" "alHasAuthoritativeMetadata a"
    and sv: "serves device ?m" and cur: "cursor a = position ?m" and dev: "alSourceDeviceId a = device"
    using assms(2,3) by (auto simp: live_def cursor_def position_def)
  have eq: "?m\<lparr>nmGeneration := nmGeneration ?m + 1, nmEventEpoch := nmEventEpoch ?m + 1,
      nmNextUnreservedEventId := 1 + 32\<rparr> = ?roll" by simp
  note run = assms(1) [unfolded reserveBlock_def Let_def RESERVATION_BLOCK_SIZE_def eq]
  consider (exhausted) "nmEventEpoch ?m = UINT32_MAX" "?w > UINT32_MAX - 32"
    | (roll) "nmEventEpoch ?m \<noteq> UINT32_MAX" "?w > UINT32_MAX - 32" | (step) "\<not> ?w > UINT32_MAX - 32" by blast
  then show ?thesis
  proof cases
    case exhausted
    then show ?thesis using run d sv cur by (auto simp: al_fail_def)
  next
    case roll
    obtain c b s1 where c: "commitMetadata ops ?roll a s = ((c, b), s1)" using prod.exhaust by metis
    from commit_next [OF c d] show ?thesis using run roll c epoch_next [OF roll(1)] sv cur dev d
      by (auto simp: adopted_def becomeReady_def live_def cursor_def position_def serves_def commitTarget_def
          split: if_splits)
  next
    case step
    obtain c b s1 where c: "commitMetadata ops ?step a s = ((c, b), s1)" using prod.exhaust by metis
    have w: "validHighWater (?w + 32)" "?w < ?w + 32"
      using validHighWater_next [of ?w] sv step by (simp_all add: serves_def)
    from commit_next [OF c d] show ?thesis using run step c w sv cur dev d
      by (auto simp: adopted_def becomeReady_def live_def cursor_def position_def serves_def commitTarget_def
          split: if_splits)
  qed
qed

lemma allocate_outcome:
  assumes "allocate ops a s = (res, a', s')" and "live device (cell s) a" "alReady a"
  shows "arsStatus res = ID_READY \<and> alReady a' \<and> live device (cell s') a'
      \<and> idSourceDeviceId (arsIdentity res) = device \<and> idId (arsIdentity res) \<noteq> 0
      \<and> cursor a \<le> identityKey (arsIdentity res) \<and> identityKey (arsIdentity res) < cursor a'
    \<or> arsStatus res \<noteq> ID_READY \<and> \<not> alReady a' \<and> alStatus a' = arsStatus res
      \<and> (\<exists>m slot. durableMetadata (cell s') = Some (m, slot) \<and> serves device m \<and> cursor a \<le> position m)"
proof (cases "alNextVolatileId a = alVolatileEndExclusive a")
  case True
  obtain st b s1 where r: "reserveBlock ops a s = ((st, b), s1)" using prod.exhaust by metis
  from reserveBlock_outcome [OF r assms(2) True] show ?thesis using assms(1,3) True r
    word_next [of "alNextVolatileId b" "alVolatileEndExclusive b"]
    by (auto simp: allocate_def live_def cursor_def identityKey_def split: if_splits)
next
  case False
  then show ?thesis using assms word_next [of "alNextVolatileId a" "alVolatileEndExclusive a"]
    by (auto simp: allocate_def live_def cursor_def identityKey_def)
qed

end

subsection \<open>Identities are never reused\<close>

text \<open>
  A device life: recoveries with any custody verdict (each discards the volatile allocator, so a
  recovery is also what follows a power cut), allocations, and anything else that leaves the metadata
  cells alone.  The last argument lists the identities issued so far.
\<close>

inductive identityRun :: "'s metadataStorage \<Rightarrow> 's entropySource \<Rightarrow> ('s \<Rightarrow> unit \<Rightarrow> copySlot \<Rightarrow> bytes option) \<Rightarrow>
    u8 \<Rightarrow> allocator \<Rightarrow> 's \<Rightarrow> identity list \<Rightarrow> bool"
  for ops entropy cell device where
  boot: "identityRun ops entropy cell device allocator_reset s []"
| recovery: "identityRun ops entropy cell device a s issued \<Longrightarrow>
    al_recover ops entropy device custody s = ((st, a'), s') \<Longrightarrow>
    identityRun ops entropy cell device a' s' issued"
| allocation: "identityRun ops entropy cell device a s issued \<Longrightarrow> allocate ops a s = (res, a', s') \<Longrightarrow>
    identityRun ops entropy cell device a' s'
      (if arsStatus res = ID_READY then issued @ [arsIdentity res] else issued)"
| elsewhere: "identityRun ops entropy cell device a s issued \<Longrightarrow> cell s' = cell s \<Longrightarrow>
    identityRun ops entropy cell device a s' issued"

definition identityInv :: "u8 \<Rightarrow> (unit \<Rightarrow> copySlot \<Rightarrow> bytes option) \<Rightarrow> allocator \<Rightarrow> identity list \<Rightarrow> bool" where
  "identityInv device cells a issued =
     ((issued = [] \<or> (\<exists>m slot. durableMetadata cells = Some (m, slot) \<and> serves device m
         \<and> (\<forall>i\<in>set issued. identityKey i < position m)))
      \<and> (if alReady a then live device cells a \<and> (\<forall>i\<in>set issued. identityKey i < cursor a)
         else alStatus a \<noteq> ID_READY)
      \<and> sorted_wrt (<) (map identityKey issued) \<and> (\<forall>i\<in>set issued. idSourceDeviceId i = device))"

context identity_store
begin

lemma cursor_le_position: "live device cells a \<Longrightarrow> cursor a \<le> position (alMetadata a)"
  by (auto simp: live_def cursor_def position_def)

lemma identityRun_inv:
  "identityRun ops entropy cell device a s issued \<Longrightarrow> identityInv device (cell s) a issued"
proof (induction rule: identityRun.induct)
  case (boot s)
  then show ?case by (simp add: identityInv_def allocator_reset_def)
next
  case (recovery a s issued custody st a' s')
  note out = recover_outcome [OF recovery.hyps(2)]
  show ?case
  proof (cases "served device (cell s)")
    case True
    then have "durableMetadata (cell s') = durableMetadata (cell s)" using out by simp
    moreover have "alReady a' \<Longrightarrow> cursor a' = position (alMetadata a')"
      using out True by (auto simp: live_def cursor_def position_def)
    ultimately show ?thesis using out recovery.IH
      by (auto simp: identityInv_def live_def)
  next
    case False
    then have "issued = []" using recovery.IH by (auto simp: identityInv_def served_def)
    then show ?thesis using out by (auto simp: identityInv_def)
  qed
next
  case (allocation a s issued res a' s')
  show ?case
  proof (cases "alReady a")
    case True
    then have l: "live device (cell s) a" "\<forall>i\<in>set issued. identityKey i < cursor a"
      using allocation.IH by (auto simp: identityInv_def)
    from allocate_outcome [OF allocation.hyps(2) l(1) True] show ?thesis
    proof (elim disjE conjE exE)
      assume *: "arsStatus res = ID_READY" "alReady a'" "live device (cell s') a'"
        "idSourceDeviceId (arsIdentity res) = device" "cursor a \<le> identityKey (arsIdentity res)"
        "identityKey (arsIdentity res) < cursor a'"
      then have all: "\<forall>i\<in>set (issued @ [arsIdentity res]). identityKey i < cursor a'"
        using l(2) by (auto intro: less_le_trans le_less_trans less_trans)
      moreover have "\<forall>i\<in>set (issued @ [arsIdentity res]). identityKey i < position (alMetadata a')"
        using all cursor_le_position [OF *(3)] by (auto intro: less_le_trans)
      moreover have "\<forall>i\<in>set issued. identityKey i < identityKey (arsIdentity res)"
        using l(2) *(5) by (auto intro: less_le_trans)
      ultimately show ?thesis using * allocation.IH
        by (auto simp: identityInv_def sorted_wrt_append live_def)
    next
      fix m slot assume *: "arsStatus res \<noteq> ID_READY" "\<not> alReady a'" "alStatus a' = arsStatus res"
        "durableMetadata (cell s') = Some (m, slot)" "serves device m" "cursor a \<le> position m"
      then have "\<forall>i\<in>set issued. identityKey i < position m" using l(2) by (auto intro: less_le_trans)
      then show ?thesis using * allocation.IH by (auto simp: identityInv_def)
    qed
  next
    case False
    then show ?thesis using allocation by (auto simp: identityInv_def allocate_def)
  qed
next
  case (elsewhere a s issued s')
  then show ?case by (simp add: identityInv_def)
qed

end

subsection \<open>Progress on a working medium\<close>

lemma decodeNodeMetadata_nonzero:
  "decodeNodeMetadataForSelection bs = Some m \<Longrightarrow> nmCustodySourceDeviceId m \<noteq> 0 \<and> nmEventEpoch m \<noteq> 0"
  by (auto simp: decodeNodeMetadataForSelection_def decodeNodeMetadata_def split: sum.splits if_splits)

text \<open>A medium that works: it is never unavailable and its writes take effect.\<close>

locale working_identity_store = identity_store ops cell entropy
  for ops :: "'s metadataStorage" and cell entropy +
  assumes rd_available: "fst (msRead ops c buf s) \<noteq> SR_UNAVAILABLE"
    and wr_effective: "length bs = 28 \<Longrightarrow> msWrite ops c bs s = (r, s') \<Longrightarrow> r = SR_OK \<and> cell s' () c = Some bs"
    and cm_effective: "fst (msCommit ops s) = SR_OK"
begin

lemma commit_works:
  assumes "nodeMetadataImage next = Some bs"
  shows "\<exists>s'. commitMetadata ops next a s = ((ID_READY, adopted next a), s')"
proof -
  have dec: "decodeNodeMetadata (Some bs) = Inr next" "length bs = 28"
    using nodeMetadataImage_decode [OF assms] by auto
  have enc: "encodeNodeMetadata next (Some (fillZero 28)) = (CR_OK, Some bs)"
    using assms by (simp add: nodeMetadataImage_def image_Some)
  obtain w s1 where w: "msWrite ops (commitTarget a) bs s = (w, s1)" by fastforce
  obtain c s2 where c: "msCommit ops s1 = (c, s2)" by fastforce
  obtain r buf n s3 where r: "msRead ops (commitTarget a) (fillZero 28) s2 = (r, buf, n, s3)"
    using prod_cases4 by blast
  have "w = SR_OK" "c = SR_OK" "cell s2 () (commitTarget a) = Some bs"
    using wr_effective [OF dec(2) w] cm_effective [of s1] cm_frame [OF c] c by auto
  moreover from this have "r = SR_OK" "n = 28" "buf = bs"
    using rd_cell [OF r] rd_available [of "commitTarget a" "fillZero 28" s2] r by (auto split: if_splits)
  moreover have "classifyReadBack bs \<lparr>fcStatus = FRS_OK, fcBytes = bs\<rparr> = RB_MATCH"
    by (simp add: classifyReadBack_def bytesEqual_def sameBytes_length)
  ultimately show ?thesis using enc w c r dec
    by (auto simp: commitMetadata_def commitTarget_def [symmetric] adopted_def becomeReady_def)
qed

lemma commit_encodable:
  assumes "nmCustodySourceDeviceId m \<noteq> 0" "nmEventEpoch m \<noteq> 0" "nmNextUnreservedEventId m \<noteq> 0"
  shows "\<exists>s'. commitMetadata ops m a s = ((ID_READY, adopted m a), s')"
proof -
  obtain bs where "nodeMetadataImage m = Some bs"
    using nodeMetadata_encodable(2) [of "fillZero 28" m] assms by (auto simp: nodeMetadataImage_def image_def)
  then show ?thesis by (rule commit_works)
qed

lemma reserve_works:
  assumes "live device (cell s) a" "device \<noteq> 0" "nmEventEpoch (alMetadata a) \<noteq> 0"
    and "\<not> (nmEventEpoch (alMetadata a) = UINT32_MAX
        \<and> nmNextUnreservedEventId (alMetadata a) > UINT32_MAX - RESERVATION_BLOCK_SIZE)"
  shows "\<exists>a' s'. reserveBlock ops a s = ((ID_READY, a'), s')"
proof -
  let ?m = "alMetadata a"
  have sv: "nmCustodySourceDeviceId ?m \<noteq> 0" "validHighWater (nmNextUnreservedEventId ?m)"
    using assms(1,2) by (auto simp: live_def serves_def)
  show ?thesis
  proof (cases "nmNextUnreservedEventId ?m > UINT32_MAX - RESERVATION_BLOCK_SIZE")
    case True
    then have "nmEventEpoch ?m + 1 \<noteq> 0" using assms(4) epoch_next [of "nmEventEpoch ?m"] by auto
    then show ?thesis using True assms(4) sv(1) commit_encodable [of "?m\<lparr>nmGeneration := nmGeneration ?m + 1,
        nmEventEpoch := nmEventEpoch ?m + 1, nmNextUnreservedEventId := 33\<rparr>" a s]
      by (auto simp: reserveBlock_def)
  next
    case False
    then have "nmNextUnreservedEventId ?m + 32 \<noteq> 0"
      using validHighWater_next(1) [OF sv(2) False] by (auto simp: validHighWater_def)
    then show ?thesis using False assms(3) sv(1) commit_encodable [of "?m\<lparr>nmGeneration := nmGeneration ?m + 1,
        nmNextUnreservedEventId := nmNextUnreservedEventId ?m + 32\<rparr>" a s]
      by (auto simp: reserveBlock_def)
  qed
qed

lemma recover_fresh:
  assumes none: "cell s = (\<lambda>_ _. None)" and e: "\<And>s. \<exists>e. fst (entropy s) = Some e \<and> e \<noteq> 0" and "device \<noteq> 0"
  shows "\<exists>a s'. al_recover ops entropy device CUSTODY_EMPTY s = ((ID_READY, a), s')
    \<and> (\<exists>s2. fst (entropy s2) = Some (nmEventEpoch (alMetadata a)))"
proof -
  have rc: "\<exists>r f s''. readCopy ops c s' = (r, f, s'') \<and> r \<noteq> ID_STORAGE_UNAVAILABLE \<and> cell s'' = cell s'
      \<and> represents decodeNodeMetadataForSelection 28 f (cell s' () c)" for c s'
  proof -
    obtain r f s'' where r: "readCopy ops c s' = (r, f, s'')" using prod_cases3 by blast
    moreover have "r \<noteq> ID_STORAGE_UNAVAILABLE"
      using r rd_available [of c "fillZero 28" s'] by (auto simp: readCopy_def split: prod.splits if_splits)
    ultimately show ?thesis using readCopy_represents [OF r] by blast
  qed
  obtain ra fa s1 where A: "readCopy ops CopyA s = (ra, fa, s1)" "ra \<noteq> ID_STORAGE_UNAVAILABLE" "cell s1 = cell s"
    "represents decodeNodeMetadataForSelection 28 fa (cell s () CopyA)" using rc by metis
  obtain rb fb s2 where B: "readCopy ops CopyB s1 = (rb, fb, s2)" "rb \<noteq> ID_STORAGE_UNAVAILABLE"
    "represents decodeNodeMetadataForSelection 28 fb (cell s () CopyB)" using rc A(3) by metis
  obtain sel m slot where sel: "selectCopies nmGeneration decodeNodeMetadataForSelection fa fb
      nodeMetadata_init CopyA = (sel, m, slot)" using prod_cases3 by blast
  have bi: "sel = BOTH_INVALID" using selectCopies_authoritative(2) [OF A(4) B(3) sel] none by simp
  let ?a = "allocator_reset\<lparr>alSourceDeviceId := device\<rparr>"
  obtain e s3 where en: "entropy s2 = (Some e, s3)" "e \<noteq> 0" using e [of s2] by (metis prod.collapse)
  let ?m = "\<lparr>nmGeneration = 1, nmCustodySourceDeviceId = device, nmEventEpoch = e, nmNextUnreservedEventId = 1\<rparr>"
  obtain s' where "commitMetadata ops ?m ?a s3 = ((ID_READY, adopted ?m ?a), s')"
    using commit_encodable [of ?m ?a s3] en(2) assms(3) by auto
  then have "initializeFresh ops entropy ?a s2 = ((ID_READY, adopted ?m ?a), s')"
    using en by (simp add: initializeFresh_def allocator_reset_def)
  moreover have "fst (entropy s2) = Some (nmEventEpoch (alMetadata (adopted ?m ?a)))"
    using en(1) by (simp add: adopted_def becomeReady_def)
  ultimately have "\<exists>a s'. initializeFresh ops entropy ?a s2 = ((ID_READY, a), s')
      \<and> (\<exists>s2. fst (entropy s2) = Some (nmEventEpoch (alMetadata a)))" by blast
  then show ?thesis using A B sel bi assms(3) by (auto simp: al_recover_def)
qed

lemma allocate_works:
  assumes l: "live device (cell s) a" and "alReady a"
    and ne: "\<not> (nmEventEpoch (alMetadata a) = UINT32_MAX
        \<and> nmNextUnreservedEventId (alMetadata a) > UINT32_MAX - RESERVATION_BLOCK_SIZE)"
  shows "\<exists>i a' s'. allocate ops a s = (\<lparr>arsStatus = ID_READY, arsIdentity = i\<rparr>, a', s')"
proof -
  have "Option.bind (cell s () (alActiveSlot a)) decodeNodeMetadataForSelection = Some (alMetadata a)"
    using l authoritative_cell by (auto simp: live_def durableMetadata_def)
  then have "nmCustodySourceDeviceId (alMetadata a) \<noteq> 0" "nmEventEpoch (alMetadata a) \<noteq> 0"
    using decodeNodeMetadata_nonzero by (auto simp: Option.bind_eq_Some_conv)
  then have "\<exists>a' s'. reserveBlock ops a s = ((ID_READY, a'), s')"
    using reserve_works [OF l] ne l by (auto simp: live_def serves_def)
  then show ?thesis using assms(2) by (auto simp: allocate_def)
qed

lemma first_identity:
  assumes "cell s = (\<lambda>_ _. None)" "device \<noteq> 0"
    and e: "\<And>s. \<exists>e. fst (entropy s) = Some e \<and> e \<noteq> 0 \<and> e \<noteq> UINT32_MAX"
  shows "\<exists>a s' i. identityRun ops entropy cell device a s' [i] \<and> alReady a"
proof -
  obtain a1 s1 where r: "al_recover ops entropy device CUSTODY_EMPTY s = ((ID_READY, a1), s1)"
    and ep: "\<exists>s2. fst (entropy s2) = Some (nmEventEpoch (alMetadata a1))" using recover_fresh assms by blast
  have run: "identityRun ops entropy cell device a1 s1 []" by (rule recovery [OF boot r])
  have l: "live device (cell s1) a1" "alReady a1" using recover_outcome [OF r] by auto
  obtain i a' s' where al: "allocate ops a1 s1 = (\<lparr>arsStatus = ID_READY, arsIdentity = i\<rparr>, a', s')"
    using allocate_works [OF l] ep e by (metis option.inject)
  show ?thesis using allocation [OF run al] allocate_outcome [OF al l] by auto
qed

end

definition ramMetadata :: "unit ram metadataStorage" where
  "ramMetadata = \<lparr>msRead = ramRead (), msWrite = ramWrite (), msCommit = ramCommit\<rparr>"

interpretation ram_identity: working_identity_store ramMetadata "ramCell 28" "\<lambda>s. (Some 7, s)"
  by unfold_locales (auto simp: ramMetadata_def ramCommit_def ramWrite_def ramCell_def ramRead_def
      dest: ramRead_frame ramRead_cell intro: ramWrite_cell split: option.splits if_splits)

text \<open>C2. Across any number of recoveries, power cuts, failed and torn metadata writes, the identities a
  device issues are strictly increasing in \<open>(epoch, id)\<close>, so no identity is ever issued twice; each
  carries the device's id and lies below the high-water mark already durable in the metadata.\<close>

theorem identities_never_reused:
  assumes "identity_store ops cell entropy"
    and "identityRun ops entropy cell device a s issued"
  shows "sorted_wrt (<) (map (\<lambda>i. (idEpoch i, idId i)) issued) \<and> distinct issued
    \<and> (\<forall>i\<in>set issued. idSourceDeviceId i = device
        \<and> (\<exists>m slot. durableMetadata (cell s) = Some (m, slot)
             \<and> (idEpoch i, idId i) < (nmEventEpoch m, nmNextUnreservedEventId m)))"
proof -
  have inv: "identityInv device (cell s) a issued" by (rule identity_store.identityRun_inv [OF assms])
  then have "distinct (map identityKey issued)"
    by (auto simp: identityInv_def strict_sorted_iff)
  then have "distinct issued" by (simp add: distinct_map)
  then show ?thesis using inv by (auto simp: identityInv_def identityKey_def [abs_def] position_def)
qed

theorem identities_never_reused_witness:
  "\<exists>a s i. identityRun ramMetadata (\<lambda>s. (Some 7, s)) (ramCell 28) 5 a s [i]
     \<and> (\<exists>m slot. durableMetadata (ramCell 28 s) = Some (m, slot)
          \<and> (idEpoch i, idId i) < (nmEventEpoch m, nmNextUnreservedEventId m))"
proof -
  obtain a s i where run: "identityRun ramMetadata (\<lambda>s. (Some 7, s)) (ramCell 28) 5 a s [i]"
    using ram_identity.first_identity [of "\<lambda>_ _. None" 5] by (auto simp: ramCell_def fun_eq_iff)
  with identities_never_reused [OF ram_identity.identity_store_axioms run] show ?thesis by fastforce
qed

text \<open>On a medium that works, a ready allocator always issues an identity and stays ready, at least
  until the last epoch is reached; and recovery on blank cells makes the allocator ready, given a
  device id and an entropy source that delivers nonzero words.\<close>

theorem allocation_progress:
  assumes "working_identity_store ops cell entropy" and "identityRun ops entropy cell device a s issued"
  shows "(alReady a \<longrightarrow> nmEventEpoch (alMetadata a) \<noteq> 0xFFFFFFFF \<longrightarrow>
      (\<exists>i a' s'. allocate ops a s = (\<lparr>arsStatus = ID_READY, arsIdentity = i\<rparr>, a', s') \<and> alReady a'))
    \<and> (cell s = (\<lambda>_ _. None) \<longrightarrow> device \<noteq> 0 \<longrightarrow> (\<forall>s. \<exists>e. fst (entropy s) = Some e \<and> e \<noteq> 0) \<longrightarrow>
      (\<exists>a' s'. al_recover ops entropy device CUSTODY_EMPTY s = ((ID_READY, a'), s') \<and> alReady a'))"
proof (intro conjI impI)
  have base: "identity_store ops cell entropy" by (rule working_identity_store.axioms(1) [OF assms(1)])
  {
    assume r: "alReady a" and "nmEventEpoch (alMetadata a) \<noteq> 0xFFFFFFFF"
    have l: "live device (cell s) a"
      using identity_store.identityRun_inv [OF base assms(2)] r by (simp add: identityInv_def)
    obtain i a' s' where al: "allocate ops a s = (\<lparr>arsStatus = ID_READY, arsIdentity = i\<rparr>, a', s')"
      using working_identity_store.allocate_works [OF assms(1) l r] \<open>nmEventEpoch (alMetadata a) \<noteq> 0xFFFFFFFF\<close>
      by auto
    show "\<exists>i a' s'. allocate ops a s = (\<lparr>arsStatus = ID_READY, arsIdentity = i\<rparr>, a', s') \<and> alReady a'"
      using al identity_store.allocate_outcome [OF base al l r] by auto
  }
  assume "cell s = (\<lambda>_ _. None)" "device \<noteq> 0" "\<forall>s. \<exists>e. fst (entropy s) = Some e \<and> e \<noteq> 0"
  then obtain a' s' where r: "al_recover ops entropy device CUSTODY_EMPTY s = ((ID_READY, a'), s')"
    using working_identity_store.recover_fresh [OF assms(1), of s device] by blast
  then show "\<exists>a' s'. al_recover ops entropy device CUSTODY_EMPTY s = ((ID_READY, a'), s') \<and> alReady a'"
    using identity_store.recover_outcome [OF base r] by auto
qed

theorem allocation_progress_witness:
  "\<exists>a' s'. al_recover ramMetadata (\<lambda>s. (Some 7, s)) 5 CUSTODY_EMPTY (\<lambda>_ _. None) = ((ID_READY, a'), s')
     \<and> alReady a'"
  using allocation_progress [OF ram_identity.working_identity_store_axioms boot, of "\<lambda>_ _. None" 5]
  by (simp add: ramCell_def fun_eq_iff)

end
