(* ===== verification/RuntimeState.thy ===== *)
theory RuntimeState
  imports Prelude
begin

text \<open>
  The runtime state of a device (\<^verbatim>\<open>lib/runtime_state/src/runtime_state.h\<close>, class \<^verbatim>\<open>RuntimeState::State\<close>) and the
  Event transmission observer (\<^verbatim>\<open>event_tx_diagnostics.h\<close>): volatile observations with counters that
  saturate instead of wrapping.  The radio metrics are stored and returned only, so a \<^verbatim>\<open>float\<close> is its
  32-bit pattern.  The capability snapshot that the class also carries is modelled with the capability operations
  (\<open>HostOperationService\<close>), the report \<^verbatim>\<open>EventDetailSnapshot\<close> with the service that sends it
  (\<open>HostDeviceService\<close>).
\<close>

subsection \<open>Enumerations and snapshots\<close>

datatype deviceRole = HUB | NODE

datatype runtimePhase = RP_IDLE | RP_TRANSMITTING | RP_WAITING_FOR_ACK | RP_LISTENING
  | RP_TRANSMITTING_ACK | RP_WAITING_FOR_RESPONSE | RP_TRANSMITTING_RESPONSE

datatype health = HEALTH_STARTING | HEALTH_READY | HEALTH_DEGRADED | HEALTH_ERROR

datatype errorClass = EC_NONE | EC_RADIO_INITIALIZATION | EC_RADIO_START_RECEIVE | EC_RADIO_START_TRANSMIT
  | EC_RADIO_READ | EC_PACKET_LENGTH | EC_PACKET_DECODE | EC_PACKET_IGNORED | EC_ACK_TIMEOUT
  | EC_REMOTE_ACK | EC_ACK_STATUS

record lastInboundPacket =
  ipAvailable :: bool
  ipRawType :: u8
  ipSource :: u8
  ipDestination :: u8
  ipSequence :: u8
  ipOpcode :: u8
  ipPayloadLength :: u8
  ipAckStatusAvailable :: bool
  ipRawAckStatus :: u8
  ipObservedAtMs :: u32

definition lastInboundPacket_init :: lastInboundPacket where
  "lastInboundPacket_init = \<lparr>ipAvailable = False, ipRawType = 0, ipSource = 0, ipDestination = 0,
     ipSequence = 0, ipOpcode = 0, ipPayloadLength = 0, ipAckStatusAvailable = False,
     ipRawAckStatus = 0, ipObservedAtMs = 0\<rparr>"

record diagnosticCounters =
  dcTransmissionsCompleted :: u32
  dcDecodedPacketsReceived :: u32
  dcSuccessfulTransactions :: u32
  dcAcceptedCommands :: u32
  dcRetransmissions :: u32
  dcAcknowledgmentTimeouts :: u32
  dcDuplicates :: u32
  dcMalformedPackets :: u32
  dcIgnoredPackets :: u32
  dcRadioErrors :: u32

definition diagnosticCounters_init :: diagnosticCounters where
  "diagnosticCounters_init = \<lparr>dcTransmissionsCompleted = 0, dcDecodedPacketsReceived = 0, dcSuccessfulTransactions = 0, dcAcceptedCommands = 0, dcRetransmissions = 0, dcAcknowledgmentTimeouts = 0, dcDuplicates = 0, dcMalformedPackets = 0, dcIgnoredPackets = 0, dcRadioErrors = 0\<rparr>"

record eventDiagnosticCounters =
  ecEnqueueAccepted :: u32
  ecQueueFullRejected :: u32
  ecPersistenceFailures :: u32
  ecEventsRecovered :: u32
  ecStorageCorruptions :: u32
  ecEventAttempts :: u32
  ecEventsExpired :: u32
  ecAttemptsExhausted :: u32
  ecHubCapacityRejections :: u32
  ecIdentityContentMismatches :: u32
  ecDuplicateRetransmissions :: u32
  ecSuccessfulAdmissions :: u32
  ecAdmissionsAcknowledged :: u32
  ecHostPollsReturnedEvent :: u32
  ecHostConsumptions :: u32

definition eventDiagnosticCounters_init :: eventDiagnosticCounters where
  "eventDiagnosticCounters_init = \<lparr>ecEnqueueAccepted = 0, ecQueueFullRejected = 0, ecPersistenceFailures = 0,
     ecEventsRecovered = 0, ecStorageCorruptions = 0, ecEventAttempts = 0,
     ecEventsExpired = 0, ecAttemptsExhausted = 0, ecHubCapacityRejections = 0,
     ecIdentityContentMismatches = 0, ecDuplicateRetransmissions = 0, ecSuccessfulAdmissions = 0,
     ecAdmissionsAcknowledged = 0, ecHostPollsReturnedEvent = 0, ecHostConsumptions = 0\<rparr>"

record eventSnapshot =
  esCounters :: eventDiagnosticCounters
  esQueuedCount :: u8
  esQueueCapacity :: u8
  esActiveCount :: u8
  esHubUnavailable :: bool
  esPersistenceDegraded :: bool

definition eventSnapshot_init :: eventSnapshot where
  "eventSnapshot_init = \<lparr>esCounters = eventDiagnosticCounters_init, esQueuedCount = 0,
     esQueueCapacity = 0, esActiveCount = 0, esHubUnavailable = False, esPersistenceDegraded = False\<rparr>"

datatype eventProducerKind = EPK_NONE | EPK_BUTTON | EPK_SENSOR_THRESHOLD | EPK_MANUAL_CHECK_IN

datatype eventProducerResult = EPR_NONE | EPR_CREATED | EPR_QUEUE_FULL | EPR_INVALID_EVENT
  | EPR_STORAGE_FAILURE | EPR_SUPPRESSED

record eventIdentitySnapshot =
  isSourceDeviceId :: u8
  isEventEpoch :: u32
  isEventId :: u32

definition eventIdentitySnapshot_init :: eventIdentitySnapshot where
  "eventIdentitySnapshot_init = \<lparr>isSourceDeviceId = 0, isEventEpoch = 0, isEventId = 0\<rparr>"

record eventProducerSnapshot =
  epKind :: eventProducerKind
  epResult :: eventProducerResult
  epIdentityAvailable :: bool
  epIdentity :: eventIdentitySnapshot

definition eventProducerSnapshot_init :: eventProducerSnapshot where
  "eventProducerSnapshot_init = \<lparr>epKind = EPK_NONE, epResult = EPR_NONE, epIdentityAvailable = False,
     epIdentity = eventIdentitySnapshot_init\<rparr>"

datatype eventDiagnostic = ED_ENQUEUE_ACCEPTED | ED_QUEUE_FULL_REJECTED | ED_PERSISTENCE_FAILURE | ED_EVENT_RECOVERED
  | ED_STORAGE_CORRUPTION | ED_EVENT_ATTEMPT | ED_EVENT_EXPIRED | ED_ATTEMPT_EXHAUSTED
  | ED_HUB_CAPACITY_REJECTION | ED_IDENTITY_CONTENT_MISMATCH | ED_DUPLICATE_RETRANSMISSION | ED_SUCCESSFUL_ADMISSION
  | ED_ADMISSION_ACKNOWLEDGED | ED_HOST_POLL_RETURNED_EVENT | ED_HOST_CONSUMPTION

subsection \<open>State\<close>

record rtState =
  rsRole :: deviceRole
  rsLocalId :: u8
  rsPeerId :: u8
  rsReady :: bool
  rsPhase :: runtimePhase
  rsHealth :: health
  rsLastError :: errorClass
  rsRadioMetricsAvailable :: bool
  rsLatestRssi :: u32
  rsLatestSnr :: u32
  rsLastInboundPacket :: lastInboundPacket
  rsLastActivityAvailable :: bool
  rsLastActivityAtMs :: u32
  rsCounters :: diagnosticCounters
  rsEventSnapshot :: eventSnapshot
  rsLastEventProducer :: eventProducerSnapshot

definition rtState_new :: "deviceRole \<Rightarrow> u8 \<Rightarrow> u8 \<Rightarrow> rtState" where
  "rtState_new role localId peerId = \<lparr>rsRole = role, rsLocalId = localId, rsPeerId = peerId,
     rsReady = False, rsPhase = (if role = HUB then RP_IDLE else RP_LISTENING),
     rsHealth = HEALTH_STARTING, rsLastError = EC_NONE, rsRadioMetricsAvailable = False,
     rsLatestRssi = 0, rsLatestSnr = 0, rsLastInboundPacket = lastInboundPacket_init,
     rsLastActivityAvailable = False, rsLastActivityAtMs = 0, rsCounters = diagnosticCounters_init,
     rsEventSnapshot = eventSnapshot_init, rsLastEventProducer = eventProducerSnapshot_init\<rparr>"

subsection \<open>Operations\<close>

definition saturatingIncrement :: "u32 \<Rightarrow> u32 \<Rightarrow> u32" where
  "saturatingIncrement value amount = (if amount > 0xFFFFFFFF - value then 0xFFFFFFFF else value + amount)"

definition setReady :: "bool \<Rightarrow> rtState \<Rightarrow> rtState" where
  "setReady ready s = s\<lparr>rsReady := ready\<rparr>"

definition setPhase :: "runtimePhase \<Rightarrow> rtState \<Rightarrow> rtState" where
  "setPhase phase s = s\<lparr>rsPhase := phase\<rparr>"

definition setHealth :: "health \<Rightarrow> rtState \<Rightarrow> rtState" where
  "setHealth h s = s\<lparr>rsHealth := h\<rparr>"

definition recordError :: "errorClass \<Rightarrow> rtState \<Rightarrow> rtState" where
  "recordError e s = s\<lparr>rsLastError := e\<rparr>"

definition updateRadioMetrics :: "u32 \<Rightarrow> u32 \<Rightarrow> rtState \<Rightarrow> rtState" where
  "updateRadioMetrics rssi snr s = s\<lparr>rsLatestRssi := rssi, rsLatestSnr := snr, rsRadioMetricsAvailable := True\<rparr>"

definition recordInboundPacket :: "u8 \<Rightarrow> u8 \<Rightarrow> u8 \<Rightarrow> u8 \<Rightarrow> u8 \<Rightarrow> u8 \<Rightarrow> bool \<Rightarrow> u8 \<Rightarrow> u32 \<Rightarrow> rtState \<Rightarrow> rtState" where
  "recordInboundPacket rawType source destination sequence opcode payloadLength ackStatusAvailable
     rawAckStatus observedAtMs s = s\<lparr>rsLastInboundPacket := \<lparr>ipAvailable = True, ipRawType = rawType,
       ipSource = source, ipDestination = destination, ipSequence = sequence, ipOpcode = opcode,
       ipPayloadLength = payloadLength, ipAckStatusAvailable = ackStatusAvailable,
       ipRawAckStatus = (if ackStatusAvailable then rawAckStatus else 0), ipObservedAtMs = observedAtMs\<rparr>\<rparr>"

definition recordActivity :: "u32 \<Rightarrow> rtState \<Rightarrow> rtState" where
  "recordActivity observedAtMs s = s\<lparr>rsLastActivityAvailable := True, rsLastActivityAtMs := observedAtMs\<rparr>"

definition recordEventProducer :: "eventProducerKind \<Rightarrow> eventProducerResult \<Rightarrow> eventIdentitySnapshot option \<Rightarrow>
    rtState \<Rightarrow> rtState" where
  "recordEventProducer kind result ident s = s\<lparr>rsLastEventProducer :=
     (let p = eventProducerSnapshot_init\<lparr>epKind := kind, epResult := result\<rparr> in
      case ident of None \<Rightarrow> p
      | Some i \<Rightarrow> if isSourceDeviceId i \<noteq> 0 \<and> isEventEpoch i \<noteq> 0 \<and> isEventId i \<noteq> 0
                 then p\<lparr>epIdentityAvailable := True, epIdentity := i\<rparr> else p)\<rparr>"

definition setEventQueue :: "u8 \<Rightarrow> u8 \<Rightarrow> rtState \<Rightarrow> rtState" where
  "setEventQueue count capacity s = s\<lparr>rsEventSnapshot := (rsEventSnapshot s)
     \<lparr>esQueuedCount := (if count > capacity then capacity else count), esQueueCapacity := capacity\<rparr>\<rparr>"

definition setActiveEventCount :: "u8 \<Rightarrow> rtState \<Rightarrow> rtState" where
  "setActiveEventCount count s = s\<lparr>rsEventSnapshot := (rsEventSnapshot s)\<lparr>esActiveCount := count\<rparr>\<rparr>"

definition setHubUnavailable :: "bool \<Rightarrow> rtState \<Rightarrow> rtState" where
  "setHubUnavailable unavailable s = s\<lparr>rsEventSnapshot := (rsEventSnapshot s)\<lparr>esHubUnavailable := unavailable\<rparr>\<rparr>"

definition setEventPersistenceDegraded :: "bool \<Rightarrow> rtState \<Rightarrow> rtState" where
  "setEventPersistenceDegraded degraded s =
     s\<lparr>rsEventSnapshot := (rsEventSnapshot s)\<lparr>esPersistenceDegraded := degraded\<rparr>\<rparr>"

text \<open>The switch that picks the counter, and the increment through the pointer it yields.\<close>

fun incrementCounter :: "eventDiagnostic \<Rightarrow> (u32 \<Rightarrow> u32) \<Rightarrow> eventDiagnosticCounters \<Rightarrow> eventDiagnosticCounters" where
  "incrementCounter ED_ENQUEUE_ACCEPTED f c = c\<lparr>ecEnqueueAccepted := f (ecEnqueueAccepted c)\<rparr>"
| "incrementCounter ED_QUEUE_FULL_REJECTED f c = c\<lparr>ecQueueFullRejected := f (ecQueueFullRejected c)\<rparr>"
| "incrementCounter ED_PERSISTENCE_FAILURE f c = c\<lparr>ecPersistenceFailures := f (ecPersistenceFailures c)\<rparr>"
| "incrementCounter ED_EVENT_RECOVERED f c = c\<lparr>ecEventsRecovered := f (ecEventsRecovered c)\<rparr>"
| "incrementCounter ED_STORAGE_CORRUPTION f c = c\<lparr>ecStorageCorruptions := f (ecStorageCorruptions c)\<rparr>"
| "incrementCounter ED_EVENT_ATTEMPT f c = c\<lparr>ecEventAttempts := f (ecEventAttempts c)\<rparr>"
| "incrementCounter ED_EVENT_EXPIRED f c = c\<lparr>ecEventsExpired := f (ecEventsExpired c)\<rparr>"
| "incrementCounter ED_ATTEMPT_EXHAUSTED f c = c\<lparr>ecAttemptsExhausted := f (ecAttemptsExhausted c)\<rparr>"
| "incrementCounter ED_HUB_CAPACITY_REJECTION f c = c\<lparr>ecHubCapacityRejections := f (ecHubCapacityRejections c)\<rparr>"
| "incrementCounter ED_IDENTITY_CONTENT_MISMATCH f c = c\<lparr>ecIdentityContentMismatches := f (ecIdentityContentMismatches c)\<rparr>"
| "incrementCounter ED_DUPLICATE_RETRANSMISSION f c = c\<lparr>ecDuplicateRetransmissions := f (ecDuplicateRetransmissions c)\<rparr>"
| "incrementCounter ED_SUCCESSFUL_ADMISSION f c = c\<lparr>ecSuccessfulAdmissions := f (ecSuccessfulAdmissions c)\<rparr>"
| "incrementCounter ED_ADMISSION_ACKNOWLEDGED f c = c\<lparr>ecAdmissionsAcknowledged := f (ecAdmissionsAcknowledged c)\<rparr>"
| "incrementCounter ED_HOST_POLL_RETURNED_EVENT f c = c\<lparr>ecHostPollsReturnedEvent := f (ecHostPollsReturnedEvent c)\<rparr>"
| "incrementCounter ED_HOST_CONSUMPTION f c = c\<lparr>ecHostConsumptions := f (ecHostConsumptions c)\<rparr>"

fun counterValue :: "eventDiagnostic \<Rightarrow> eventDiagnosticCounters \<Rightarrow> u32" where
  "counterValue ED_ENQUEUE_ACCEPTED c = ecEnqueueAccepted c"
| "counterValue ED_QUEUE_FULL_REJECTED c = ecQueueFullRejected c"
| "counterValue ED_PERSISTENCE_FAILURE c = ecPersistenceFailures c"
| "counterValue ED_EVENT_RECOVERED c = ecEventsRecovered c"
| "counterValue ED_STORAGE_CORRUPTION c = ecStorageCorruptions c"
| "counterValue ED_EVENT_ATTEMPT c = ecEventAttempts c"
| "counterValue ED_EVENT_EXPIRED c = ecEventsExpired c"
| "counterValue ED_ATTEMPT_EXHAUSTED c = ecAttemptsExhausted c"
| "counterValue ED_HUB_CAPACITY_REJECTION c = ecHubCapacityRejections c"
| "counterValue ED_IDENTITY_CONTENT_MISMATCH c = ecIdentityContentMismatches c"
| "counterValue ED_DUPLICATE_RETRANSMISSION c = ecDuplicateRetransmissions c"
| "counterValue ED_SUCCESSFUL_ADMISSION c = ecSuccessfulAdmissions c"
| "counterValue ED_ADMISSION_ACKNOWLEDGED c = ecAdmissionsAcknowledged c"
| "counterValue ED_HOST_POLL_RETURNED_EVENT c = ecHostPollsReturnedEvent c"
| "counterValue ED_HOST_CONSUMPTION c = ecHostConsumptions c"

definition incrementEventDiagnostic :: "eventDiagnostic \<Rightarrow> u32 \<Rightarrow> rtState \<Rightarrow> rtState" where
  "incrementEventDiagnostic diagnostic amount s = s\<lparr>rsEventSnapshot := (rsEventSnapshot s)\<lparr>esCounters :=
     incrementCounter diagnostic (\<lambda>v. saturatingIncrement v amount) (esCounters (rsEventSnapshot s))\<rparr>\<rparr>"

definition incrementTransmissionsCompleted :: "u32 \<Rightarrow> rtState \<Rightarrow> rtState" where
  "incrementTransmissionsCompleted amount s = s\<lparr>rsCounters := (rsCounters s)
     \<lparr>dcTransmissionsCompleted := saturatingIncrement (dcTransmissionsCompleted (rsCounters s)) amount\<rparr>\<rparr>"

definition incrementDecodedPacketsReceived :: "u32 \<Rightarrow> rtState \<Rightarrow> rtState" where
  "incrementDecodedPacketsReceived amount s = s\<lparr>rsCounters := (rsCounters s)
     \<lparr>dcDecodedPacketsReceived := saturatingIncrement (dcDecodedPacketsReceived (rsCounters s)) amount\<rparr>\<rparr>"

definition incrementSuccessfulTransactions :: "u32 \<Rightarrow> rtState \<Rightarrow> rtState" where
  "incrementSuccessfulTransactions amount s = s\<lparr>rsCounters := (rsCounters s)
     \<lparr>dcSuccessfulTransactions := saturatingIncrement (dcSuccessfulTransactions (rsCounters s)) amount\<rparr>\<rparr>"

definition incrementAcceptedCommands :: "u32 \<Rightarrow> rtState \<Rightarrow> rtState" where
  "incrementAcceptedCommands amount s = s\<lparr>rsCounters := (rsCounters s)
     \<lparr>dcAcceptedCommands := saturatingIncrement (dcAcceptedCommands (rsCounters s)) amount\<rparr>\<rparr>"

definition incrementRetransmissions :: "u32 \<Rightarrow> rtState \<Rightarrow> rtState" where
  "incrementRetransmissions amount s = s\<lparr>rsCounters := (rsCounters s)
     \<lparr>dcRetransmissions := saturatingIncrement (dcRetransmissions (rsCounters s)) amount\<rparr>\<rparr>"

definition incrementAcknowledgmentTimeouts :: "u32 \<Rightarrow> rtState \<Rightarrow> rtState" where
  "incrementAcknowledgmentTimeouts amount s = s\<lparr>rsCounters := (rsCounters s)
     \<lparr>dcAcknowledgmentTimeouts := saturatingIncrement (dcAcknowledgmentTimeouts (rsCounters s)) amount\<rparr>\<rparr>"

definition incrementDuplicates :: "u32 \<Rightarrow> rtState \<Rightarrow> rtState" where
  "incrementDuplicates amount s = s\<lparr>rsCounters := (rsCounters s)
     \<lparr>dcDuplicates := saturatingIncrement (dcDuplicates (rsCounters s)) amount\<rparr>\<rparr>"

definition incrementMalformedPackets :: "u32 \<Rightarrow> rtState \<Rightarrow> rtState" where
  "incrementMalformedPackets amount s = s\<lparr>rsCounters := (rsCounters s)
     \<lparr>dcMalformedPackets := saturatingIncrement (dcMalformedPackets (rsCounters s)) amount\<rparr>\<rparr>"

definition incrementIgnoredPackets :: "u32 \<Rightarrow> rtState \<Rightarrow> rtState" where
  "incrementIgnoredPackets amount s = s\<lparr>rsCounters := (rsCounters s)
     \<lparr>dcIgnoredPackets := saturatingIncrement (dcIgnoredPackets (rsCounters s)) amount\<rparr>\<rparr>"

definition incrementRadioErrors :: "u32 \<Rightarrow> rtState \<Rightarrow> rtState" where
  "incrementRadioErrors amount s = s\<lparr>rsCounters := (rsCounters s)
     \<lparr>dcRadioErrors := saturatingIncrement (dcRadioErrors (rsCounters s)) amount\<rparr>\<rparr>"

subsection \<open>The Event transmission observer\<close>

datatype txCounter = TX_READY_SELECTED | TX_ARBITRATION_GRANTED | TX_START_CALLED | TX_START_ACCEPTED
  | TX_START_FAILED | TX_TX_ENTERED | TX_DIO_EVENT | TX_DIO_OTHER
  | TX_DIO_CLASSIFIED_EVENT | TX_DIO_OTHER_PATH_DURING_TX | TX_TX_COMPLETED_CALLED | TX_WAIT_ENTERED
  | TX_ACK_DECODED | TX_ACK_MATCHED | TX_ADMISSION_TIMEOUT | TX_BACKOFF_ENTERED
  | TX_BACKOFF_DUE | TX_RETRY_READY | TX_EXPIRED_QUEUED | TX_EXPIRED_READY
  | TX_EXPIRED_TX | TX_EXPIRED_WAIT | TX_EXPIRED_BACKOFF | TX_EXPIRED_PREPARE
  | TX_CLOCK_REVERSED | TX_RECEIVE_DURING_TX | TX_HOST_DURING_TX | TX_MAINTENANCE_DURING_TX
  | TX_PENDING_FLAG_CLEARED_DURING_TX | TX_TERMINAL_RECLAIMED

fun txCounter_index :: "txCounter \<Rightarrow> nat" where
  "txCounter_index TX_READY_SELECTED = 0"
| "txCounter_index TX_ARBITRATION_GRANTED = 1"
| "txCounter_index TX_START_CALLED = 2"
| "txCounter_index TX_START_ACCEPTED = 3"
| "txCounter_index TX_START_FAILED = 4"
| "txCounter_index TX_TX_ENTERED = 5"
| "txCounter_index TX_DIO_EVENT = 6"
| "txCounter_index TX_DIO_OTHER = 7"
| "txCounter_index TX_DIO_CLASSIFIED_EVENT = 8"
| "txCounter_index TX_DIO_OTHER_PATH_DURING_TX = 9"
| "txCounter_index TX_TX_COMPLETED_CALLED = 10"
| "txCounter_index TX_WAIT_ENTERED = 11"
| "txCounter_index TX_ACK_DECODED = 12"
| "txCounter_index TX_ACK_MATCHED = 13"
| "txCounter_index TX_ADMISSION_TIMEOUT = 14"
| "txCounter_index TX_BACKOFF_ENTERED = 15"
| "txCounter_index TX_BACKOFF_DUE = 16"
| "txCounter_index TX_RETRY_READY = 17"
| "txCounter_index TX_EXPIRED_QUEUED = 18"
| "txCounter_index TX_EXPIRED_READY = 19"
| "txCounter_index TX_EXPIRED_TX = 20"
| "txCounter_index TX_EXPIRED_WAIT = 21"
| "txCounter_index TX_EXPIRED_BACKOFF = 22"
| "txCounter_index TX_EXPIRED_PREPARE = 23"
| "txCounter_index TX_CLOCK_REVERSED = 24"
| "txCounter_index TX_RECEIVE_DURING_TX = 25"
| "txCounter_index TX_HOST_DURING_TX = 26"
| "txCounter_index TX_MAINTENANCE_DURING_TX = 27"
| "txCounter_index TX_PENDING_FLAG_CLEARED_DURING_TX = 28"
| "txCounter_index TX_TERMINAL_RECLAIMED = 29"

definition COUNTER_COUNT :: nat where [simp]: "COUNTER_COUNT = 30"

record txSnapshot =
  tsAvailable :: bool
  tsLastStep :: u8
  tsControllerState :: u8
  tsRadioOwner :: u8
  tsAttempt :: u8
  tsSource :: u8
  tsEpoch :: u32
  tsId :: u32
  tsLastAt :: u32
  tsStartAt :: u32
  tsCompletedAt :: u32
  tsPreviousClock :: u32
  tsInputClock :: u32
  tsStartResult :: u16
  tsAdmissionStatus :: u8
  tsCounters :: "u16 list"

record observer =
  obSnapshot :: txSnapshot
  obLastClock :: u32
  obClockSeen :: bool

definition observer_init :: observer where
  "observer_init = \<lparr>obSnapshot = \<lparr>tsAvailable = False, tsLastStep = 0, tsControllerState = 0, tsRadioOwner = 0,
     tsAttempt = 0, tsSource = 0, tsEpoch = 0, tsId = 0, tsLastAt = 0, tsStartAt = 0, tsCompletedAt = 0,
     tsPreviousClock = 0, tsInputClock = 0, tsStartResult = 0, tsAdmissionStatus = 0xFF,
     tsCounters = replicate COUNTER_COUNT 0\<rparr>, obLastClock = 0, obClockSeen = False\<rparr>"

definition ob_note :: "txCounter \<Rightarrow> u32 \<Rightarrow> observer \<Rightarrow> observer" where
  "ob_note counter now ob = (let i = txCounter_index counter; s = obSnapshot ob; v = tsCounters s ! i in
     ob\<lparr>obSnapshot := s\<lparr>tsCounters := (tsCounters s)[i := if v \<noteq> 0xFFFF then v + 1 else v],
       tsLastStep := of_nat i + 1, tsLastAt := now\<rparr>\<rparr>)"

definition ob_attempt :: "u8 \<Rightarrow> u32 \<Rightarrow> u32 \<Rightarrow> u8 \<Rightarrow> observer \<Rightarrow> observer" where
  "ob_attempt source epoch ident used ob = ob\<lparr>obSnapshot := (obSnapshot ob)
     \<lparr>tsSource := source, tsEpoch := epoch, tsId := ident, tsAttempt := used\<rparr>\<rparr>"

definition ob_start :: "u32 \<Rightarrow> observer \<Rightarrow> observer" where
  "ob_start now ob = ob_note TX_START_CALLED now (ob\<lparr>obSnapshot := (obSnapshot ob)\<lparr>tsStartAt := now\<rparr>\<rparr>)"

definition ob_startResult :: "u16 \<Rightarrow> u32 \<Rightarrow> observer \<Rightarrow> observer" where
  "ob_startResult code now ob = ob_note (if code = 0 then TX_START_ACCEPTED else TX_START_FAILED) now
     (ob\<lparr>obSnapshot := (obSnapshot ob)\<lparr>tsStartResult := code\<rparr>\<rparr>)"

definition ob_completed :: "u32 \<Rightarrow> observer \<Rightarrow> observer" where
  "ob_completed now ob = ob_note TX_TX_COMPLETED_CALLED now
     (ob\<lparr>obSnapshot := (obSnapshot ob)\<lparr>tsCompletedAt := now\<rparr>\<rparr>)"

definition ob_dispatchDio :: "bool \<Rightarrow> bool \<Rightarrow> u32 \<Rightarrow> observer \<Rightarrow> observer" where
  "ob_dispatchDio eventOwner controllerTx now ob =
     (if eventOwner then ob_note TX_DIO_CLASSIFIED_EVENT now ob
      else if controllerTx then ob_note TX_DIO_OTHER_PATH_DURING_TX now ob else ob)"

definition ob_clearingFlag :: "bool \<Rightarrow> bool \<Rightarrow> u32 \<Rightarrow> observer \<Rightarrow> observer" where
  "ob_clearingFlag pending controllerTx now ob =
     (if pending \<and> controllerTx then ob_note TX_PENDING_FLAG_CLEARED_DURING_TX now ob else ob)"

definition ob_admission :: "u8 \<Rightarrow> u32 \<Rightarrow> observer \<Rightarrow> observer" where
  "ob_admission status now ob = ob_note TX_ACK_DECODED now
     (ob\<lparr>obSnapshot := (obSnapshot ob)\<lparr>tsAdmissionStatus := status\<rparr>\<rparr>)"

definition ob_clock :: "u32 \<Rightarrow> observer \<Rightarrow> observer" where
  "ob_clock now ob = (let ob' = (if obClockSeen ob \<and> now - obLastClock ob > 0x7FFFFFFF
       then ob_note TX_CLOCK_REVERSED now (ob\<lparr>obSnapshot := (obSnapshot ob)
              \<lparr>tsPreviousClock := obLastClock ob, tsInputClock := now\<rparr>\<rparr>) else ob)
     in ob'\<lparr>obLastClock := now, obClockSeen := True\<rparr>)"

definition ob_enable :: "observer \<Rightarrow> observer" where
  "ob_enable ob = ob\<lparr>obSnapshot := (obSnapshot ob)\<lparr>tsAvailable := True\<rparr>\<rparr>"

subsection \<open>Counters saturate\<close>

lemma saturatingIncrement_unat:
  "unat (saturatingIncrement v a) = min (unat v + unat a) (2 ^ 32 - 1)"
proof -
  have v: "unat v < 2 ^ 32" "unat a < 2 ^ 32"
    using unsigned_less [of v, where ?'a = nat] unsigned_less [of a, where ?'a = nat] by simp_all
  have m: "unat (0xFFFFFFFF - v) = 2 ^ 32 - 1 - unat v"
    using v(1) by (subst unat_sub) (simp_all add: word_le_nat_alt)
  show ?thesis
  proof (cases "a > 0xFFFFFFFF - v")
    case True
    then show ?thesis using v m by (simp add: saturatingIncrement_def word_less_nat_alt)
  next
    case False
    then have "unat v + unat a < 2 ^ 32" using v m by (simp add: word_less_nat_alt)
    then have "unat (v + a) = unat v + unat a" by (subst unat_add_lem [THEN iffD1]) simp_all
    then show ?thesis using False \<open>unat v + unat a < 2 ^ 32\<close> by (simp add: saturatingIncrement_def)
  qed
qed

lemma counterValue_increment:
  "counterValue e (incrementCounter d f c) = (if e = d then f (counterValue d c) else counterValue e c)"
  by (cases d; cases e; simp)

text \<open>Counting an Event diagnostic adds the amount to that counter only, and a counter that would
  pass \<open>2 ^ 32 - 1\<close> stays there: it never wraps and never decreases.\<close>

theorem event_counters_saturate:
  "unat (counterValue e (esCounters (rsEventSnapshot (incrementEventDiagnostic d n s))))
     = (if e = d then min (unat (counterValue d (esCounters (rsEventSnapshot s))) + unat n) (2 ^ 32 - 1)
        else unat (counterValue e (esCounters (rsEventSnapshot s))))"
  by (simp add: incrementEventDiagnostic_def counterValue_increment saturatingIncrement_unat)

end
