(* ===== verification/NodeEventStore.thy ===== *)
theory NodeEventStore
  imports EventIdentity RuntimeState "HOL-Library.Multiset"
begin

text \<open>
  The Node's durable Event queue (\<^verbatim>\<open>lib/node_event_store/src/node_event_store.h\<close>): eight record slots, each a
  dual-copy record, an in-memory index of the queued slots in identity order, and the identity
  allocator.  The class \<^verbatim>\<open>Storage\<close> is a parameter; it extends \<^verbatim>\<open>MetadataStorage\<close>, which is the field
  \<open>neMetadata\<close> here.  The object behind the pointer \<^verbatim>\<open>diagnostics_\<close> is the field \<open>nsDiagnostics\<close> (\<open>None\<close>:
  a null pointer).  Slot numbers are \<^verbatim>\<open>uint8_t\<close> in the code and only compared, so they are naturals.
\<close>

subsection \<open>Types\<close>

definition NODE_EVENT_CAPACITY :: nat where [simp]: "NODE_EVENT_CAPACITY = 8"

datatype storeStatus = NST_READY | NST_INVALID_SOURCE_DEVICE_ID | NST_STORAGE_UNAVAILABLE
  | NST_STORAGE_FAILURE | NST_READ_BACK_MISSING | NST_READ_BACK_MISMATCH | NST_READ_BACK_INVALID
  | NST_INDETERMINATE_SLOT | NST_RECORD_CONFLICT | NST_GENERATION_AMBIGUOUS | NST_DUPLICATE_IDENTITY
  | NST_IDENTITY_FAILURE

datatype enqueueStatus = ENQUEUED | ENQ_QUEUE_FULL | ENQ_INVALID_EVENT | ENQ_STORAGE_FAILURE
  | ENQ_IDENTITY_FAILURE | ENQ_DEGRADED

datatype mutationStatus = MUT_OK | MUT_INVALID_SLOT | MUT_INVALID_TRANSITION | MUT_STORAGE_FAILURE
  | MUT_DEGRADED

datatype attemptStatus = ARMED | EXHAUSTED | ATT_INVALID_SLOT | NOT_QUEUED | ATT_STORAGE_FAILURE
  | ATT_DEGRADED

record eventInput =
  eiFamily :: u8
  eiFlags :: u8
  eiLifetimeBudgetSeconds :: u32
  eiBodyLength :: u8
  eiBody :: bytes

record enqueueResult =
  erStatus :: enqueueStatus
  erIdentity :: identity
  erSlot :: nat

record 's nodeStorage =
  neMetadata :: "'s metadataStorage"
  neRead :: "nat \<Rightarrow> copySlot \<Rightarrow> bytes \<Rightarrow> 's \<Rightarrow> storageResult \<times> bytes \<times> nat \<times> 's"
  neWrite :: "nat \<Rightarrow> copySlot \<Rightarrow> bytes \<Rightarrow> 's \<Rightarrow> storageResult \<times> 's"

record slotState =
  ssPresent :: bool
  ssRecord :: nodeRecord
  ssActiveCopy :: copySlot

record store =
  nsAllocator :: allocator
  nsSlots :: "slotState list"
  nsQueue :: "nat list"
  nsSourceDeviceId :: u8
  nsQueueCount :: nat
  nsHealthy :: bool
  nsStatus :: storeStatus
  nsDiagnostics :: "rtState option"
  nsIdentityStatus :: identityStatus

definition slotState_init :: slotState where
  "slotState_init = \<lparr>ssPresent = False, ssRecord = nodeRecord_init, ssActiveCopy = CopyA\<rparr>"

definition ns_reset :: "store \<Rightarrow> store" where
  "ns_reset st = st\<lparr>nsAllocator := allocator_reset, nsSlots := replicate NODE_EVENT_CAPACITY slotState_init,
     nsQueue := replicate NODE_EVENT_CAPACITY 0, nsSourceDeviceId := 0, nsQueueCount := 0,
     nsHealthy := False, nsStatus := NST_INDETERMINATE_SLOT,
     nsIdentityStatus := ID_IDENTITY_RECOVERY_REQUIRED\<rparr>"

subsection \<open>Diagnostics and failure\<close>

definition ns_note :: "eventDiagnostic \<Rightarrow> u32 \<Rightarrow> store \<Rightarrow> store" where
  "ns_note e amount st = st\<lparr>nsDiagnostics := map_option (incrementEventDiagnostic e amount) (nsDiagnostics st)\<rparr>"

definition persistenceFailure :: "store \<Rightarrow> store" where
  "persistenceFailure st = (let st' = ns_note ED_PERSISTENCE_FAILURE 1 st in
     st'\<lparr>nsDiagnostics := map_option (setEventPersistenceDegraded True) (nsDiagnostics st')\<rparr>)"

definition updateQueueSnapshot :: "store \<Rightarrow> store" where
  "updateQueueSnapshot st = st\<lparr>nsDiagnostics := map_option
     (setEventQueue (of_nat (nsQueueCount st)) (of_nat NODE_EVENT_CAPACITY)) (nsDiagnostics st)\<rparr>"

definition ns_fail :: "storeStatus \<Rightarrow> store \<Rightarrow> store" where
  "ns_fail status st = st\<lparr>nsHealthy := False, nsStatus := status\<rparr>"

abbreviation slotRecord :: "store \<Rightarrow> nat \<Rightarrow> nodeRecord" where
  "slotRecord st k \<equiv> ssRecord (nsSlots st ! k)"

definition setDiagnostics :: "rtState option \<Rightarrow> store \<Rightarrow> store" where
  "setDiagnostics state st = st\<lparr>nsDiagnostics := state\<rparr>"

subsection \<open>Storage access\<close>

definition readRecordCopy :: "'s nodeStorage \<Rightarrow> nat \<Rightarrow> copySlot \<Rightarrow> store \<Rightarrow> 's \<Rightarrow> bool \<times> fixedCopy \<times> store \<times> 's" where
  "readRecordCopy ops slot c st s =
     (case neRead ops slot c (fillZero NODE_RECORD_SIZE) s of (result, buf, len, s') \<Rightarrow>
      if result = SR_UNAVAILABLE
        then (False, \<lparr>fcStatus = FRS_UNAVAILABLE, fcBytes = buf\<rparr>, ns_fail NST_STORAGE_UNAVAILABLE st, s')
      else if result = SR_MISSING then (True, \<lparr>fcStatus = FRS_MISSING, fcBytes = buf\<rparr>, st, s')
      else if result \<noteq> SR_OK \<or> len \<noteq> NODE_RECORD_SIZE
        then (True, \<lparr>fcStatus = FRS_OK, fcBytes = fillZero NODE_RECORD_SIZE\<rparr>, st, s')
      else (True, \<lparr>fcStatus = FRS_OK, fcBytes = buf\<rparr>, st, s'))"

definition acceptSelection :: "selectionResult \<Rightarrow> store \<Rightarrow> bool \<times> store" where
  "acceptSelection selection st =
     (if selection = EQUAL_DISAGREEMENT then (False, ns_fail NST_RECORD_CONFLICT st)
      else if selection = SEL_GENERATION_AMBIGUOUS then (False, ns_fail NST_GENERATION_AMBIGUOUS st)
      else (True, st))"

definition writeVerify :: "'s nodeStorage \<Rightarrow> nat \<Rightarrow> copySlot \<Rightarrow> bytes \<Rightarrow> store \<Rightarrow> 's \<Rightarrow> bool \<times> store \<times> 's" where
  "writeVerify ops slot target encoded st s =
     (case neWrite ops slot target encoded s of (w, s1) \<Rightarrow>
      if w \<noteq> SR_OK then (False, ns_fail (if w = SR_UNAVAILABLE then NST_STORAGE_UNAVAILABLE
                                        else NST_STORAGE_FAILURE) st, s1)
      else case msCommit (neMetadata ops) s1 of (c, s2) \<Rightarrow>
      if c \<noteq> SR_OK then (False, ns_fail (if c = SR_UNAVAILABLE then NST_STORAGE_UNAVAILABLE
                                        else NST_STORAGE_FAILURE) st, s2)
      else case neRead ops slot target (fillZero NODE_RECORD_SIZE) s2 of (r, buf, len, s3) \<Rightarrow>
      if r = SR_MISSING then (False, ns_fail NST_READ_BACK_MISSING st, s3)
      else if r = SR_UNAVAILABLE then (False, ns_fail NST_STORAGE_UNAVAILABLE st, s3)
      else if r \<noteq> SR_OK \<or> len \<noteq> NODE_RECORD_SIZE then (False, ns_fail NST_READ_BACK_INVALID st, s3)
      else case decodeNodeRecord (Some buf) of
        Inl _ \<Rightarrow> (False, ns_fail NST_READ_BACK_INVALID st, s3)
      | Inr _ \<Rightarrow> if \<not> bytesEqual (Some encoded) (Some buf) NODE_RECORD_SIZE
                then (False, ns_fail NST_READ_BACK_MISMATCH st, s3)
                else (True, st, s3))"

definition commitInitialFree :: "'s nodeStorage \<Rightarrow> nat \<Rightarrow> nodeRecord \<Rightarrow> store \<Rightarrow> 's \<Rightarrow> bool \<times> store \<times> 's" where
  "commitInitialFree ops slot rec st s =
     (case encodeNodeRecord rec (Some (fillZero NODE_RECORD_SIZE)) of (er, out) \<Rightarrow>
      if er \<noteq> CR_OK then (False, ns_fail NST_STORAGE_FAILURE st, s)
      else case writeVerify ops slot CopyA (the out) st s of (ok, st', s') \<Rightarrow>
      if \<not> ok then (False, st', s')
      else (True, st'\<lparr>nsSlots := (nsSlots st')[slot := \<lparr>ssPresent = True, ssRecord = rec,
              ssActiveCopy = CopyA\<rparr>]\<rparr>, s'))"

definition commitMutation :: "'s nodeStorage \<Rightarrow> nat \<Rightarrow> nodeRecord \<Rightarrow> store \<Rightarrow> 's \<Rightarrow> bool \<times> store \<times> 's" where
  "commitMutation ops slot rec st s =
     (case encodeNodeRecord rec (Some (fillZero NODE_RECORD_SIZE)) of (er, out) \<Rightarrow>
      if er \<noteq> CR_OK then (False, ns_fail NST_STORAGE_FAILURE st, s)
      else let active = ssActiveCopy (nsSlots st ! slot); target = opposite active in
      case writeVerify ops slot target (the out) st s of (ok, st1, s1) \<Rightarrow>
      if \<not> ok then (False, st1, s1)
      else case readRecordCopy ops slot active st1 s1 of (okOld, oldCopy, st2, s2) \<Rightarrow>
      if \<not> okOld then (False, st2, s2)
      else case readRecordCopy ops slot target st2 s2 of (okNew, newCopy, st3, s3) \<Rightarrow>
      if \<not> okNew then (False, st3, s3)
      else case selectCopies nrGeneration decodeNodeRecordForSelection
          (if active = CopyA then oldCopy else newCopy) (if active = CopyA then newCopy else oldCopy)
          nodeRecord_init CopyA of (selection, selected, selectedSlot) \<Rightarrow>
      case acceptSelection selection st3 of (accepted, st4) \<Rightarrow>
      if \<not> accepted \<or> selectedSlot \<noteq> target \<or> nrGeneration selected \<noteq> nrGeneration rec
      then (False, ns_fail NST_STORAGE_FAILURE st4, s3)
      else (True, st4\<lparr>nsSlots := (nsSlots st4)[slot := \<lparr>ssPresent = True, ssRecord = rec,
              ssActiveCopy = target\<rparr>]\<rparr>, s3))"

subsection \<open>The queue index\<close>

definition identityLess :: "nodeRecord \<Rightarrow> nodeRecord \<Rightarrow> bool" where
  "identityLess left right = (nrEventEpoch left < nrEventEpoch right
     \<or> nrEventEpoch left = nrEventEpoch right \<and> nrEventId left < nrEventId right)"

definition occupied :: "slotState \<Rightarrow> bool" where
  "occupied x = (ssPresent x \<and> nrState (ssRecord x) \<noteq> NS_FREE)"

text \<open>The collection loop from slot \<open>slot\<close> on; false where two occupied slots share an identity.\<close>

function collectQueued :: "slotState list \<Rightarrow> nat \<Rightarrow> nat list \<Rightarrow> nat \<Rightarrow> bool \<times> nat list \<times> nat" where
  "collectQueued slots slot queue cnt =
     (if \<not> slot < NODE_EVENT_CAPACITY then (True, queue, cnt)
      else if \<not> occupied (slots ! slot) then collectQueued slots (slot + 1) queue cnt
      else if list_ex (\<lambda>other. occupied (slots ! other)
           \<and> nrEventEpoch (ssRecord (slots ! other)) = nrEventEpoch (ssRecord (slots ! slot))
           \<and> nrEventId (ssRecord (slots ! other)) = nrEventId (ssRecord (slots ! slot))) [0..<slot]
        then (False, queue, cnt)
      else if nrState (ssRecord (slots ! slot)) = NS_QUEUED
        then collectQueued slots (slot + 1) (queue[cnt := slot]) (cnt + 1)
      else collectQueued slots (slot + 1) queue cnt)"
  by pat_completeness auto
termination by (relation "measure (\<lambda>(_, slot, _, _). NODE_EVENT_CAPACITY - slot)") auto

declare collectQueued.simps [simp del]

text \<open>The inner loop of the insertion sort: move larger entries up, then place \<open>value\<close>.\<close>

fun insertDown :: "slotState list \<Rightarrow> nat \<Rightarrow> nat list \<Rightarrow> nat \<Rightarrow> nat list" where
  "insertDown slots value queue 0 = queue[0 := value]"
| "insertDown slots value queue (Suc p) =
     (if identityLess (ssRecord (slots ! value)) (ssRecord (slots ! (queue ! p)))
      then insertDown slots value (queue[Suc p := queue ! p]) p
      else queue[Suc p := value])"

function sortQueue :: "slotState list \<Rightarrow> nat \<Rightarrow> nat \<Rightarrow> nat list \<Rightarrow> nat list" where
  "sortQueue slots cnt i queue =
     (if i < cnt then sortQueue slots cnt (i + 1) (insertDown slots (queue ! i) queue i) else queue)"
  by pat_completeness auto
termination by (relation "measure (\<lambda>(_, cnt, i, _). cnt - i)") auto

declare sortQueue.simps [simp del]

definition rebuildIndex :: "store \<Rightarrow> bool \<times> store" where
  "rebuildIndex st = (case collectQueued (nsSlots st) 0 (nsQueue st) 0 of (unique, queue, cnt) \<Rightarrow>
     if \<not> unique then (False, ns_fail NST_DUPLICATE_IDENTITY (st\<lparr>nsQueue := queue, nsQueueCount := cnt\<rparr>))
     else (True, st\<lparr>nsQueue := sortQueue (nsSlots st) cnt 1 queue, nsQueueCount := cnt\<rparr>))"

subsection \<open>Recovery\<close>

text \<open>The scan of the slots from \<open>slot\<close> on, with the flags \<open>allCopiesMissing\<close> and \<open>anyNonempty\<close>; the
  leading flag is false where the scan returns early.\<close>

function recoverSlots :: "'s nodeStorage \<Rightarrow> nat \<Rightarrow> bool \<Rightarrow> bool \<Rightarrow> store \<Rightarrow> 's \<Rightarrow> bool \<times> bool \<times> bool \<times> store \<times> 's" where
  "recoverSlots ops slot allCopiesMissing anyNonempty st s =
     (if \<not> slot < NODE_EVENT_CAPACITY then (True, allCopiesMissing, anyNonempty, st, s)
      else case readRecordCopy ops slot CopyA st s of (okA, copyA, st1, s1) \<Rightarrow>
      if \<not> okA then (False, allCopiesMissing, anyNonempty, st1, s1)
      else case readRecordCopy ops slot CopyB st1 s1 of (okB, copyB, st2, s2) \<Rightarrow>
      if \<not> okB then (False, allCopiesMissing, anyNonempty, st2, s2)
      else let allCopiesMissing = (if fcStatus copyA \<noteq> FRS_MISSING \<or> fcStatus copyB \<noteq> FRS_MISSING
                                   then False else allCopiesMissing) in
      case selectCopies nrGeneration decodeNodeRecordForSelection copyA copyB nodeRecord_init CopyA
      of (selection, selected, selectedCopy) \<Rightarrow>
      case acceptSelection selection st2 of (accepted, st3) \<Rightarrow>
      if \<not> accepted then (False, allCopiesMissing, anyNonempty, st3, s2)
      else if selection = BOTH_INVALID
        then recoverSlots ops (slot + 1) allCopiesMissing anyNonempty
               (st3\<lparr>nsSlots := (nsSlots st3)[slot := (nsSlots st3 ! slot)\<lparr>ssPresent := False\<rparr>]\<rparr>) s2
      else recoverSlots ops (slot + 1) allCopiesMissing (nrState selected \<noteq> NS_FREE \<or> anyNonempty)
               (st3\<lparr>nsSlots := (nsSlots st3)[slot := \<lparr>ssPresent = True, ssRecord = selected,
                  ssActiveCopy = selectedCopy\<rparr>]\<rparr>) s2)"
  by pat_completeness auto
termination by (relation "measure (\<lambda>(_, slot, _). NODE_EVENT_CAPACITY - slot)") auto

declare recoverSlots.simps [simp del]

definition freeRecord :: "u32 \<Rightarrow> nodeRecord" where
  "freeRecord generation = nodeRecord_init\<lparr>nrGeneration := generation, nrState := NS_FREE\<rparr>"

function initializeSlots :: "'s nodeStorage \<Rightarrow> nat \<Rightarrow> store \<Rightarrow> 's \<Rightarrow> bool \<times> store \<times> 's" where
  "initializeSlots ops slot st s =
     (if \<not> slot < NODE_EVENT_CAPACITY then (True, st, s)
      else case commitInitialFree ops slot (freeRecord 1) st s of (ok, st', s') \<Rightarrow>
        if \<not> ok then (False, st', s') else initializeSlots ops (slot + 1) st' s')"
  by pat_completeness auto
termination by (relation "measure (\<lambda>(_, slot, _). NODE_EVENT_CAPACITY - slot)") auto

declare initializeSlots.simps [simp del]

definition ns_recover :: "'s nodeStorage \<Rightarrow> 's entropySource \<Rightarrow> u8 \<Rightarrow> store \<Rightarrow> 's \<Rightarrow> storeStatus \<times> store \<times> 's" where
  "ns_recover ops entropy configuredSourceDeviceId st s =
     (let st0 = (ns_reset st)\<lparr>nsSourceDeviceId := configuredSourceDeviceId\<rparr> in
      if configuredSourceDeviceId = 0
        then (NST_INVALID_SOURCE_DEVICE_ID, ns_fail NST_INVALID_SOURCE_DEVICE_ID st0, s)
      else case recoverSlots ops 0 True False st0 s of (scanned, allCopiesMissing, anyNonempty, st1, s1) \<Rightarrow>
      if \<not> scanned then (nsStatus st1, st1, s1)
      else case (if allCopiesMissing then initializeSlots ops 0 st1 s1
                 else if list_all ssPresent (nsSlots st1) then (True, st1, s1)
                 else (False, ns_fail NST_INDETERMINATE_SLOT st1, s1)) of (ok, st2, s2) \<Rightarrow>
      if \<not> ok then (nsStatus st2, st2, s2)
      else case al_recover (neMetadata ops) entropy configuredSourceDeviceId
          (if anyNonempty then CUSTODY_NONEMPTY else CUSTODY_EMPTY) s2 of ((identityStatus, al), s3) \<Rightarrow>
      let st3 = st2\<lparr>nsAllocator := al\<rparr> in
      if identityStatus \<noteq> ID_READY
        then (NST_IDENTITY_FAILURE, ns_fail NST_IDENTITY_FAILURE (st3\<lparr>nsIdentityStatus := identityStatus\<rparr>), s3)
      else case rebuildIndex st3 of (unique, st4) \<Rightarrow>
      if \<not> unique then (nsStatus st4, st4, s3)
      else (NST_READY, updateQueueSnapshot (ns_note ED_EVENT_RECOVERED (of_nat (nsQueueCount st4))
              (st4\<lparr>nsHealthy := True, nsStatus := NST_READY\<rparr>)), s3))"

subsection \<open>Operations\<close>

definition validInput :: "eventInput \<Rightarrow> bool" where
  "validInput input = (\<not> (eiFlags input AND NOT ALLOWED_FLAGS \<noteq> 0
      \<or> eiLifetimeBudgetSeconds input < MIN_LIFETIME_SECONDS
      \<or> eiLifetimeBudgetSeconds input > MAX_LIFETIME_SECONDS
      \<or> unat (eiBodyLength input) > MAX_BODY_SIZE
      \<or> \<not> isRegisteredFamily (eiFamily input)
      \<or> \<not> isValidFamilyBody (eiFamily input) (Some (eiBody input)) (eiBodyLength input))
    \<and> list_all (\<lambda>i. eiBody input ! i = 0) [unat (eiBodyLength input)..<MAX_BODY_SIZE])"

definition firstFreeSlot :: "store \<Rightarrow> nat option" where
  "firstFreeSlot st = find (\<lambda>slot. nrState (slotRecord st slot) = NS_FREE) [0..<NODE_EVENT_CAPACITY]"

definition enqueuedRecord :: "nodeRecord \<Rightarrow> eventInput \<Rightarrow> identity \<Rightarrow> nodeRecord" where
  "enqueuedRecord old input ident = nodeRecord_init\<lparr>nrGeneration := nrGeneration old + 1,
     nrState := NS_QUEUED, nrFlags := eiFlags input, nrFamily := eiFamily input,
     nrBodyLength := eiBodyLength input, nrEventEpoch := idEpoch ident, nrEventId := idId ident,
     nrLifetimeBudgetSeconds := eiLifetimeBudgetSeconds input,
     nrRemainingActiveSeconds := eiLifetimeBudgetSeconds input, nrAttemptsUsed := 0,
     nrBody := copyBytes (fillZero MAX_BODY_SIZE) 0 (eiBody input) (unat (eiBodyLength input))\<rparr>"

definition enqueue :: "'s nodeStorage \<Rightarrow> eventInput \<Rightarrow> store \<Rightarrow> 's \<Rightarrow> enqueueResult \<times> store \<times> 's" where
  "enqueue ops input st s =
     (let failed = (\<lambda>status. \<lparr>erStatus = status, erIdentity = identity_init, erSlot = 0xFF\<rparr>) in
      if \<not> nsHealthy st then (failed ENQ_DEGRADED, st, s)
      else if \<not> validInput input then (failed ENQ_INVALID_EVENT, st, s)
      else case firstFreeSlot st of
        None \<Rightarrow> (failed ENQ_QUEUE_FULL, ns_note ED_QUEUE_FULL_REJECTED 1 st, s)
      | Some freeSlot \<Rightarrow>
        (case allocate (neMetadata ops) (nsAllocator st) s of (allocation, al, s1) \<Rightarrow>
         let st1 = st\<lparr>nsAllocator := al\<rparr> in
         if arsStatus allocation \<noteq> ID_READY
         then (failed ENQ_IDENTITY_FAILURE, persistenceFailure (st1\<lparr>nsIdentityStatus := arsStatus allocation,
                 nsHealthy := False, nsStatus := NST_IDENTITY_FAILURE\<rparr>), s1)
         else case commitMutation ops freeSlot
             (enqueuedRecord (slotRecord st1 freeSlot) input (arsIdentity allocation)) st1 s1 of (ok, st2, s2) \<Rightarrow>
         if \<not> ok then (failed ENQ_STORAGE_FAILURE, persistenceFailure st2, s2)
         else case rebuildIndex st2 of (unique, st3) \<Rightarrow>
         if \<not> unique then (failed ENQ_STORAGE_FAILURE, persistenceFailure st3, s2)
         else (\<lparr>erStatus = ENQUEUED, erIdentity = arsIdentity allocation, erSlot = freeSlot\<rparr>,
               updateQueueSnapshot (ns_note ED_ENQUEUE_ACCEPTED 1 st3), s2)))"

definition commitAndIndex :: "'s nodeStorage \<Rightarrow> nat \<Rightarrow> nodeRecord \<Rightarrow> store \<Rightarrow> 's \<Rightarrow> mutationStatus \<times> store \<times> 's" where
  "commitAndIndex ops slot rec st s = (case commitMutation ops slot rec st s of (ok, st1, s1) \<Rightarrow>
     if \<not> ok then (MUT_STORAGE_FAILURE, st1, s1)
     else case rebuildIndex st1 of (unique, st2) \<Rightarrow>
     if \<not> unique then (MUT_STORAGE_FAILURE, st2, s1) else (MUT_OK, st2, s1))"

definition ns_transition :: "'s nodeStorage \<Rightarrow> nat \<Rightarrow> nodeState \<Rightarrow> nodeState \<Rightarrow> store \<Rightarrow> 's \<Rightarrow>
    mutationStatus \<times> store \<times> 's" where
  "ns_transition ops slot from to st s =
     (if \<not> nsHealthy st then (MUT_DEGRADED, st, s)
      else if \<not> slot < NODE_EVENT_CAPACITY then (MUT_INVALID_SLOT, st, s)
      else if nrState (slotRecord st slot) \<noteq> from then (MUT_INVALID_TRANSITION, st, s)
      else commitAndIndex ops slot ((slotRecord st slot)
        \<lparr>nrGeneration := nrGeneration (slotRecord st slot) + 1, nrState := to\<rparr>) st s)"

definition makeFree :: "'s nodeStorage \<Rightarrow> nat \<Rightarrow> store \<Rightarrow> 's \<Rightarrow> mutationStatus \<times> store \<times> 's" where
  "makeFree ops slot st s = commitAndIndex ops slot (freeRecord (nrGeneration (slotRecord st slot) + 1)) st s"

definition markFailed :: "'s nodeStorage \<Rightarrow> nat \<Rightarrow> store \<Rightarrow> 's \<Rightarrow> mutationStatus \<times> store \<times> 's" where
  "markFailed ops slot st s = (case ns_transition ops slot NS_QUEUED NS_FAILED st s of (result, st', s') \<Rightarrow>
     (result, if result = MUT_OK then updateQueueSnapshot (ns_note ED_ATTEMPT_EXHAUSTED 1 st')
              else if result = MUT_STORAGE_FAILURE then persistenceFailure st' else st', s'))"

definition markExpired :: "'s nodeStorage \<Rightarrow> nat \<Rightarrow> store \<Rightarrow> 's \<Rightarrow> mutationStatus \<times> store \<times> 's" where
  "markExpired ops slot st s = (case ns_transition ops slot NS_QUEUED NS_EXPIRED st s of (result, st', s') \<Rightarrow>
     (result, if result = MUT_OK then updateQueueSnapshot (ns_note ED_EVENT_EXPIRED 1 st')
              else if result = MUT_STORAGE_FAILURE then persistenceFailure st' else st', s'))"

definition reclaim :: "'s nodeStorage \<Rightarrow> nat \<Rightarrow> store \<Rightarrow> 's \<Rightarrow> mutationStatus \<times> store \<times> 's" where
  "reclaim ops slot st s =
     (if \<not> nsHealthy st then (MUT_DEGRADED, st, s)
      else if \<not> slot < NODE_EVENT_CAPACITY then (MUT_INVALID_SLOT, st, s)
      else if nrState (slotRecord st slot) \<noteq> NS_FAILED \<and> nrState (slotRecord st slot) \<noteq> NS_EXPIRED
        then (MUT_INVALID_TRANSITION, st, s)
      else case makeFree ops slot st s of (result, st', s') \<Rightarrow>
        (result, if result = MUT_STORAGE_FAILURE then persistenceFailure st' else st', s'))"

definition releaseQueued :: "'s nodeStorage \<Rightarrow> nat \<Rightarrow> store \<Rightarrow> 's \<Rightarrow> mutationStatus \<times> store \<times> 's" where
  "releaseQueued ops slot st s =
     (if \<not> nsHealthy st then (MUT_DEGRADED, st, s)
      else if \<not> slot < NODE_EVENT_CAPACITY then (MUT_INVALID_SLOT, st, s)
      else if nrState (slotRecord st slot) \<noteq> NS_QUEUED then (MUT_INVALID_TRANSITION, st, s)
      else case makeFree ops slot st s of (result, st', s') \<Rightarrow>
        (result, if result = MUT_OK then updateQueueSnapshot st'
                 else if result = MUT_STORAGE_FAILURE then persistenceFailure st' else st', s'))"

definition checkpointRemaining :: "'s nodeStorage \<Rightarrow> nat \<Rightarrow> u32 \<Rightarrow> store \<Rightarrow> 's \<Rightarrow> mutationStatus \<times> store \<times> 's" where
  "checkpointRemaining ops slot remainingActiveSeconds st s =
     (if \<not> nsHealthy st then (MUT_DEGRADED, st, s)
      else if \<not> slot < NODE_EVENT_CAPACITY then (MUT_INVALID_SLOT, st, s)
      else let current = slotRecord st slot in
      if nrState current \<noteq> NS_QUEUED \<or> remainingActiveSeconds = 0
          \<or> remainingActiveSeconds \<ge> nrRemainingActiveSeconds current
        then (MUT_INVALID_TRANSITION, st, s)
      else case commitMutation ops slot (current\<lparr>nrGeneration := nrGeneration current + 1,
          nrRemainingActiveSeconds := remainingActiveSeconds\<rparr>) st s of (ok, st', s') \<Rightarrow>
      if \<not> ok then (MUT_STORAGE_FAILURE, persistenceFailure st', s') else (MUT_OK, st', s'))"

definition armAttempt :: "'s nodeStorage \<Rightarrow> nat \<Rightarrow> store \<Rightarrow> 's \<Rightarrow> attemptStatus \<times> store \<times> 's" where
  "armAttempt ops slot st s =
     (if \<not> nsHealthy st then (ATT_DEGRADED, st, s)
      else if \<not> slot < NODE_EVENT_CAPACITY then (ATT_INVALID_SLOT, st, s)
      else let current = slotRecord st slot in
      if nrState current \<noteq> NS_QUEUED then (NOT_QUEUED, st, s)
      else if nrAttemptsUsed current \<ge> MAX_ATTEMPTS then (EXHAUSTED, st, s)
      else case commitMutation ops slot (current\<lparr>nrGeneration := nrGeneration current + 1,
          nrAttemptsUsed := nrAttemptsUsed current + 1\<rparr>) st s of (ok, st', s') \<Rightarrow>
      if \<not> ok then (ATT_STORAGE_FAILURE, persistenceFailure st', s')
      else (ARMED, ns_note ED_EVENT_ATTEMPT 1 st', s'))"

definition ownedCount :: "store \<Rightarrow> nat" where
  "ownedCount st = length (filter (\<lambda>i. occupied (nsSlots st ! i)) [0..<NODE_EVENT_CAPACITY])"

definition queuedAt :: "nat \<Rightarrow> store \<Rightarrow> (nodeRecord \<times> nat) option" where
  "queuedAt index st = (if \<not> index < nsQueueCount st then None
     else Some (slotRecord st (nsQueue st ! index), nsQueue st ! index))"

definition recordAt :: "nat \<Rightarrow> store \<Rightarrow> nodeRecord option" where
  "recordAt slot st = (if slot < NODE_EVENT_CAPACITY \<and> ssPresent (nsSlots st ! slot)
     then Some (slotRecord st slot) else None)"

subsection \<open>The index holds the queued slots in identity order\<close>

definition identityOf :: "slotState list \<Rightarrow> nat \<Rightarrow> u32 \<times> u32" where
  "identityOf slots k = (nrEventEpoch (ssRecord (slots ! k)), nrEventId (ssRecord (slots ! k)))"

definition queuedSlot :: "slotState list \<Rightarrow> nat \<Rightarrow> bool" where
  "queuedSlot slots k = (ssPresent (slots ! k) \<and> nrState (ssRecord (slots ! k)) = NS_QUEUED)"

definition uniqueFrom :: "slotState list \<Rightarrow> nat \<Rightarrow> bool" where
  "uniqueFrom slots i = (\<forall>b a. i \<le> b \<longrightarrow> b < NODE_EVENT_CAPACITY \<longrightarrow> a < b \<longrightarrow> occupied (slots ! a) \<longrightarrow>
     occupied (slots ! b) \<longrightarrow> identityOf slots a \<noteq> identityOf slots b)"

definition uniqueIdentities :: "slotState list \<Rightarrow> bool" where
  "uniqueIdentities slots = (\<forall>b a. b < NODE_EVENT_CAPACITY \<longrightarrow> a < b \<longrightarrow> occupied (slots ! a) \<longrightarrow>
     occupied (slots ! b) \<longrightarrow> identityOf slots a \<noteq> identityOf slots b)"

lemma uniqueFrom_0: "uniqueFrom slots 0 = uniqueIdentities slots"
  by (simp add: uniqueFrom_def uniqueIdentities_def)

lemma uniqueFrom_end: "uniqueFrom slots 8"
  by (simp add: uniqueFrom_def)

lemma uniqueFrom_step:
  assumes "i < 8"
  shows "uniqueFrom slots i \<longleftrightarrow> uniqueFrom slots (Suc i)
    \<and> (occupied (slots ! i) \<longrightarrow> (\<forall>a<i. occupied (slots ! a) \<longrightarrow> identityOf slots a \<noteq> identityOf slots i))"
proof -
  have "i \<le> b \<longleftrightarrow> b = i \<or> Suc i \<le> b" for b by auto
  then show ?thesis using assms unfolding uniqueFrom_def by (simp del: Suc_le_eq) blast
qed

lemma uniqueIdentities_inj:
  "uniqueIdentities slots \<Longrightarrow> a < 8 \<Longrightarrow> b < 8 \<Longrightarrow> occupied (slots ! a) \<Longrightarrow> occupied (slots ! b) \<Longrightarrow>
   identityOf slots a = identityOf slots b \<Longrightarrow> a = b"
  unfolding uniqueIdentities_def NODE_EVENT_CAPACITY_def by (metis linorder_neqE_nat)

lemma identityLess_iff: "identityLess (ssRecord (slots ! a)) (ssRecord (slots ! b)) \<longleftrightarrow> identityOf slots a < identityOf slots b"
  by (auto simp: identityLess_def identityOf_def)

lemma collectQueued_spec:
  assumes "collectQueued slots i q c = (u, q', c')" and "c \<le> i" "length q = 8" "i \<le> 8"
  shows "length q' = 8 \<and> c' \<le> 8
    \<and> (if u then take c' q' = take c q @ filter (queuedSlot slots) [i..<8] \<and> uniqueFrom slots i
       else \<not> uniqueIdentities slots)"
  using assms
proof (induction slots i q c arbitrary: u q' c' rule: collectQueued.induct)
  case (1 slots slot queue cnt)
  let ?dup = "list_ex (\<lambda>other. occupied (slots ! other)
           \<and> nrEventEpoch (ssRecord (slots ! other)) = nrEventEpoch (ssRecord (slots ! slot))
           \<and> nrEventId (ssRecord (slots ! other)) = nrEventId (ssRecord (slots ! slot))) [0..<slot]"
  consider (stop) "\<not> slot < 8" | (skip) "slot < 8" "\<not> occupied (slots ! slot)"
    | (dup) "slot < 8" "occupied (slots ! slot)" ?dup
    | (queued) "slot < 8" "occupied (slots ! slot)" "\<not> ?dup" "queuedSlot slots slot"
    | (other) "slot < 8" "occupied (slots ! slot)" "\<not> ?dup" "\<not> queuedSlot slots slot" by blast
  then show ?case
  proof cases
    case stop
    then show ?thesis using 1(4-) uniqueFrom_end by (subst (asm) collectQueued.simps) auto
  next
    case dup
    then obtain a where "a < slot" "occupied (slots ! a)" "identityOf slots a = identityOf slots slot"
      by (auto simp: list_ex_iff identityOf_def)
    then have "\<not> uniqueIdentities slots" using dup(1,2) unfolding uniqueIdentities_def by auto
    then show ?thesis using 1(4-) dup by (subst (asm) collectQueued.simps) auto
  next
    case skip
    then have nq: "\<not> queuedSlot slots slot" by (auto simp: queuedSlot_def occupied_def)
    have "collectQueued slots (slot + 1) queue cnt = (u, q', c')"
      using 1(4) skip by (subst (asm) collectQueued.simps) simp
    from 1(1) [OF _ _ this] 1(5-7) skip nq show ?thesis
      by (simp add: upt_conv_Cons uniqueFrom_step split: if_splits)
  next
    case queued
    then have q: "nrState (ssRecord (slots ! slot)) = NS_QUEUED" by (simp add: queuedSlot_def)
    have c: "collectQueued slots (slot + 1) (queue[cnt := slot]) (cnt + 1) = (u, q', c')"
      using 1(4) queued q by (subst (asm) collectQueued.simps) simp
    have l: "cnt < length queue" using 1(5,6) queued(1) by simp
    have new: "\<forall>a < slot. occupied (slots ! a) \<longrightarrow> identityOf slots a \<noteq> identityOf slots slot"
      using queued(3) by (auto simp: list_ex_iff identityOf_def)
    from 1(2) [OF _ _ queued(3) q c] 1(5-7) queued new l show ?thesis
      by (simp add: upt_conv_Cons take_Suc_conv_app_nth uniqueFrom_step split: if_splits)
  next
    case other
    then have q: "nrState (ssRecord (slots ! slot)) \<noteq> NS_QUEUED" by (auto simp: queuedSlot_def occupied_def)
    have c: "collectQueued slots (slot + 1) queue cnt = (u, q', c')"
      using 1(4) other q by (subst (asm) collectQueued.simps) simp
    have new: "\<forall>a < slot. occupied (slots ! a) \<longrightarrow> identityOf slots a \<noteq> identityOf slots slot"
      using other(3) by (auto simp: list_ex_iff identityOf_def)
    from 1(3) [OF _ _ other(3) q c] 1(5-7) other new show ?thesis
      by (simp add: upt_conv_Cons uniqueFrom_step split: if_splits)
  qed
qed

lemma insertDown_spec:
  assumes "p < length q" "sorted (map (identityOf slots) (take p q))"
  shows "length (insertDown slots v q p) = length q
    \<and> drop (Suc p) (insertDown slots v q p) = drop (Suc p) q
    \<and> mset (take (Suc p) (insertDown slots v q p)) = add_mset v (mset (take p q))
    \<and> sorted (map (identityOf slots) (take (Suc p) (insertDown slots v q p)))"
  using assms
proof (induction p arbitrary: q)
  case 0
  then show ?case by (cases q) auto
next
  case (Suc p)
  have tp: "take (Suc p) q = take p q @ [q ! p]" using Suc.prems(1) by (simp add: take_Suc_conv_app_nth)
  have le: "\<forall>x\<in>set (take p q). identityOf slots x \<le> identityOf slots (q ! p)"
    and srt: "sorted (map (identityOf slots) (take p q))"
    using Suc.prems(2) by (auto simp: tp sorted_append)
  show ?case
  proof (cases "identityOf slots v < identityOf slots (q ! p)")
    case True
    let ?q = "q[Suc p := q ! p]"
    let ?r = "insertDown slots v ?q p"
    have IH: "length ?r = length q" "drop (Suc p) ?r = drop (Suc p) ?q"
      "mset (take (Suc p) ?r) = add_mset v (mset (take p q))" "sorted (map (identityOf slots) (take (Suc p) ?r))"
      using Suc.IH [of ?q] Suc.prems(1) srt by auto
    have at: "?r ! Suc p = q ! p"
      using arg_cong [OF IH(2), of hd] Suc.prems(1) IH(1) by (simp add: hd_drop_conv_nth)
    have ts: "take (Suc (Suc p)) ?r = take (Suc p) ?r @ [q ! p]"
      using Suc.prems(1) IH(1) at by (simp add: take_Suc_conv_app_nth)
    have "set (take (Suc p) ?r) = insert v (set (take p q))"
      using arg_cong [OF IH(3), of set_mset] by simp
    then have "\<forall>x\<in>set (take (Suc p) ?r). identityOf slots x \<le> identityOf slots (q ! p)" using le True by auto
    then have "sorted (map (identityOf slots) (take (Suc (Suc p)) ?r))"
      using IH(4) by (auto simp: ts sorted_append)
    moreover have "drop (Suc (Suc p)) ?r = drop (Suc (Suc p)) q"
      using arg_cong [OF IH(2), of tl] Suc.prems(1) by (simp add: drop_Suc [symmetric] tl_drop)
    moreover have "mset (take (Suc (Suc p)) ?r) = add_mset v (mset (take (Suc p) q))"
      by (simp add: ts tp IH(3))
    ultimately show ?thesis using IH(1) True by (simp add: identityLess_iff)
  next
    case False
    have "take (Suc (Suc p)) (q[Suc p := v]) = take (Suc p) q @ [v]"
      using Suc.prems(1) by (simp add: take_Suc_conv_app_nth)
    moreover have "\<forall>x\<in>set (take (Suc p) q). identityOf slots x \<le> identityOf slots v"
      using le False by (auto simp: tp intro: order_trans)
    ultimately show ?thesis using Suc.prems False by (auto simp: identityLess_iff sorted_append)
  qed
qed

lemma sortQueue_spec:
  assumes "sorted (map (identityOf slots) (take i q))" "i \<le> n \<or> n = 0" "n \<le> length q"
  shows "length (sortQueue slots n i q) = length q
    \<and> mset (take n (sortQueue slots n i q)) = mset (take n q)
    \<and> sorted (map (identityOf slots) (take n (sortQueue slots n i q)))"
  using assms
proof (induction slots n i q rule: sortQueue.induct)
  case (1 slots n i q)
  show ?case
  proof (cases "i < n")
    case True
    let ?r = "insertDown slots (q ! i) q i"
    have sp: "length ?r = length q" "drop (Suc i) ?r = drop (Suc i) q"
      "mset (take (Suc i) ?r) = add_mset (q ! i) (mset (take i q))"
      "sorted (map (identityOf slots) (take (Suc i) ?r))"
      using insertDown_spec [of i q slots "q ! i"] True 1(2,4) by auto
    have "mset (take n xs) = mset (take (Suc i) xs) + mset (take (n - Suc i) (drop (Suc i) xs))" for xs :: "nat list"
      using True by (metis Suc_leI le_add_diff_inverse mset_append take_add)
    moreover have "mset (take (Suc i) q) = add_mset (q ! i) (mset (take i q))"
      using True 1(4) by (simp add: take_Suc_conv_app_nth)
    ultimately have "mset (take n ?r) = mset (take n q)" using sp by simp
    moreover have "length (sortQueue slots n (i + 1) ?r) = length ?r
      \<and> mset (take n (sortQueue slots n (i + 1) ?r)) = mset (take n ?r)
      \<and> sorted (map (identityOf slots) (take n (sortQueue slots n (i + 1) ?r)))"
      using 1(1) [OF True] sp True 1(4) by simp
    ultimately show ?thesis using True sp(1) by (subst (1 2 3) sortQueue.simps) simp
  next
    case False
    then have "n = 0 \<or> i = n" using 1(3) by auto
    then show ?thesis using 1(2) False by (subst (1 2 3) sortQueue.simps) auto
  qed
qed

definition indexed :: "store \<Rightarrow> bool" where
  "indexed st = (length (nsQueue st) = 8 \<and> nsQueueCount st \<le> 8 \<and> uniqueIdentities (nsSlots st)
     \<and> distinct (take (nsQueueCount st) (nsQueue st))
     \<and> set (take (nsQueueCount st) (nsQueue st)) = {k. k < 8 \<and> queuedSlot (nsSlots st) k}
     \<and> sorted_wrt (<) (map (identityOf (nsSlots st)) (take (nsQueueCount st) (nsQueue st))))"

lemma rebuildIndex_spec:
  assumes "rebuildIndex st = (u, st')" "length (nsQueue st) = 8"
  shows "if u then indexed st' \<and> st' = st\<lparr>nsQueue := nsQueue st', nsQueueCount := nsQueueCount st'\<rparr>
    else \<not> nsHealthy st' \<and> \<not> uniqueIdentities (nsSlots st)
      \<and> st' = ns_fail NST_DUPLICATE_IDENTITY (st\<lparr>nsQueue := nsQueue st', nsQueueCount := nsQueueCount st'\<rparr>)"
proof -
  obtain u1 q n where c: "collectQueued (nsSlots st) 0 (nsQueue st) 0 = (u1, q, n)" using prod_cases3 by blast
  note sp = collectQueued_spec [OF c _ assms(2)]
  show ?thesis
  proof (cases u1)
    case False
    then show ?thesis using assms(1) c sp by (auto simp: rebuildIndex_def ns_fail_def)
  next
    case True
    let ?r = "sortQueue (nsSlots st) n 1 q"
    have col: "take n q = filter (queuedSlot (nsSlots st)) [0..<8]" "length q = 8" "n \<le> 8"
      and un: "uniqueIdentities (nsSlots st)" using sp True by (auto simp: uniqueFrom_0)
    have "sorted (map (identityOf (nsSlots st)) (take 1 q))" by (cases q) auto
    moreover have "1 \<le> n \<or> n = 0" by auto
    ultimately have srt: "length ?r = 8" "mset (take n ?r) = mset (take n q)"
      "sorted (map (identityOf (nsSlots st)) (take n ?r))"
      using sortQueue_spec [of "nsSlots st" 1 q n] col by auto
    have st: "set (take n ?r) = {k. k < 8 \<and> queuedSlot (nsSlots st) k}" "distinct (take n ?r)"
      using arg_cong [OF srt(2), of set_mset] mset_eq_imp_distinct_iff [OF srt(2)] col(1) by auto
    have "inj_on (identityOf (nsSlots st)) (set (take n ?r))"
    proof (rule inj_onI)
      fix a b assume "a \<in> set (take n ?r)" "b \<in> set (take n ?r)"
        and e: "identityOf (nsSlots st) a = identityOf (nsSlots st) b"
      then have "a < 8" "b < 8" "occupied (nsSlots st ! a)" "occupied (nsSlots st ! b)"
        unfolding st(1) by (auto simp: queuedSlot_def occupied_def)
      then show "a = b" using uniqueIdentities_inj [OF un] e by blast
    qed
    then have "sorted_wrt (<) (map (identityOf (nsSlots st)) (take n ?r))"
      using srt(3) st(2) by (simp add: strict_sorted_iff distinct_map)
    moreover have "u" "st' = st\<lparr>nsQueue := ?r, nsQueueCount := n\<rparr>"
      using assms(1) c True by (simp_all add: rebuildIndex_def)
    ultimately show ?thesis using srt(1) st un col(3) by (simp add: indexed_def del: One_nat_def)
  qed
qed

end
