(* ===== verification/NodeEventCustody.thy ===== *)
theory NodeEventCustody
  imports NodeEventStore
begin

text \<open>
  What the Node Event store promises across power cuts and failing storage: its memory mirrors the
  durable records while it is healthy, every operation changes at most one durable record and that one
  atomically, the index lists the queued Events in the order of their identities, and no two occupied
  slots ever share an identity.
\<close>

subsection \<open>The contract with the storage\<close>

text \<open>Metadata and records live in disjoint cells of one medium.\<close>

locale node_storage =
  meta: identity_store "neMetadata ops" mcell entropy +
  rec: dual_store nodeRecordImage decodeNodeRecordForSelection nrGeneration nodeRecord_wf 56
    "neRead ops" "neWrite ops" "msCommit (neMetadata ops)" rcell
  for ops :: "'s nodeStorage" and mcell :: "'s \<Rightarrow> unit \<Rightarrow> copySlot \<Rightarrow> bytes option" and entropy
    and rcell :: "'s \<Rightarrow> nat \<Rightarrow> copySlot \<Rightarrow> bytes option" +
  assumes neRead_mcell: "neRead ops k c buf s = (r, buf', n, s') \<Longrightarrow> mcell s' = mcell s"
    and neWrite_mcell: "neWrite ops k c bs s = (w, s') \<Longrightarrow> mcell s' = mcell s"
    and msRead_rcell: "msRead (neMetadata ops) c buf s = (r, buf', n, s') \<Longrightarrow> rcell s' = rcell s"
    and msWrite_rcell: "msWrite (neMetadata ops) c bs s = (w, s') \<Longrightarrow> rcell s' = rcell s"
    and entropy_rcell: "entropy s = (e, s') \<Longrightarrow> rcell s' = rcell s"

definition durableRecord :: "(nat \<Rightarrow> copySlot \<Rightarrow> bytes option) \<Rightarrow> nat \<Rightarrow> (nodeRecord \<times> copySlot) option" where
  "durableRecord cells k = authoritative nrGeneration decodeNodeRecordForSelection (cells k)"

definition outOfService :: "store \<Rightarrow> bool" where
  "outOfService st = (\<not> nsHealthy st \<and> nsStatus st \<noteq> NST_READY)"

lemma outOfService_fail: "outOfService (ns_fail e st) \<longleftrightarrow> e \<noteq> NST_READY"
  by (simp add: outOfService_def ns_fail_def)

lemma nodeRecordImage_encode:
  "encodeNodeRecord m (Some (fillZero 56)) = (r, out) \<Longrightarrow> nodeRecordImage m = (if r = CR_OK then out else None)"
  by (simp add: nodeRecordImage_def image_def)

lemma nodeRecordImage_decode:
  "nodeRecordImage m = Some bs \<Longrightarrow> nodeRecord_wf m \<Longrightarrow> decodeNodeRecord (Some bs) = Inr m \<and> length bs = 56"
  using encodeNodeRecord_ok by (simp add: nodeRecordImage_def image_Some)

lemma encodeNodeRecord_OK_Some: "encodeNodeRecord m (Some bs) = (CR_OK, out) \<Longrightarrow> \<exists>b. out = Some b"
  by (auto simp: encodeNodeRecord_def split: if_splits)

context node_storage
begin

lemma readRecordCopy_outcome:
  assumes "readRecordCopy ops k c st s = (ok, f, st', s')"
  shows "rcell s' = rcell s \<and> mcell s' = mcell s
    \<and> (if ok then st' = st \<and> represents decodeNodeRecordForSelection 56 f (rcell s k c)
         \<and> (fcStatus f = FRS_MISSING \<longrightarrow> rcell s k c = None)
       else st' = ns_fail NST_STORAGE_UNAVAILABLE st)"
proof -
  obtain r buf n s1 where r: "neRead ops k c (fillZero 56) s = (r, buf, n, s1)" using prod_cases4 by blast
  have s': "s' = s1" using assms r by (auto simp: readRecordCopy_def split: if_splits)
  have frame: "rcell s1 = rcell s" "mcell s1 = mcell s" using rec.rd_frame [OF r] neRead_mcell [OF r] by auto
  show ?thesis
  proof (cases "r = SR_UNAVAILABLE")
    case True
    then show ?thesis using assms r frame by (auto simp: readRecordCopy_def)
  next
    case False
    then have ok: "ok" "st' = st" using assms r by (auto simp: readRecordCopy_def split: if_splits)
    have "represents decodeNodeRecordForSelection 56 f (rcell s k c)"
      using assms r False by (intro rec.read_represents [OF r]) (auto simp: readRecordCopy_def split: if_splits)
    moreover have "fcStatus f = FRS_MISSING \<Longrightarrow> rcell s k c = None"
      using assms r False rec.rd_cell [OF r] by (auto simp: readRecordCopy_def split: if_splits)
    ultimately show ?thesis using ok s' frame by simp
  qed
qed

lemma writeVerify_outcome:
  assumes "writeVerify ops k c bs st s = (ok, st', s')" and "length bs = 56"
  shows "cellStep decodeNodeRecordForSelection k c bs (rcell s) (rcell s') \<and> mcell s' = mcell s
    \<and> (if ok then st' = st \<and> rcell s' k c = Some bs else \<exists>e. e \<noteq> NST_READY \<and> st' = ns_fail e st)"
proof -
  obtain w s1 where w: "neWrite ops k c bs s = (w, s1)" by fastforce
  obtain cr s2 where c: "msCommit (neMetadata ops) s1 = (cr, s2)" by fastforce
  obtain r buf n s3 where r: "neRead ops k c (fillZero 56) s2 = (r, buf, n, s3)" using prod_cases4 by blast
  have cells: "rcell s2 = rcell s1" "rcell s3 = rcell s1" "length buf = 56" "mcell s1 = mcell s"
    "mcell s2 = mcell s" "mcell s3 = mcell s"
    using rec.cm_frame [OF c] rec.rd_frame [OF r] neWrite_mcell [OF w] neRead_mcell [OF r] meta.cm_frame [OF c]
    by auto
  have buf: "r = SR_OK \<Longrightarrow> n = 56 \<Longrightarrow> rcell s1 k c = Some buf" using rec.rd_cell [OF r] cells by simp
  have eq: "bytesEqual (Some bs) (Some buf) 56 \<Longrightarrow> buf = bs"
    using cells(3) assms(2) by (simp add: bytesEqual_def sameBytes_length)
  consider (fail) e where "st' = ns_fail e st" "e \<noteq> NST_READY" "\<not> ok" "s' \<in> {s1, s2, s3}"
    | (ok) "ok" "st' = st" "s' = s3" "r = SR_OK" "n = 56" "bytesEqual (Some bs) (Some buf) 56"
    using assms(1) w c r by (auto simp: writeVerify_def split: if_splits sum.splits)
  then show ?thesis
  proof cases
    case fail
    then show ?thesis using rec.wr_cell [OF w] cells by auto
  next
    case ok
    then show ?thesis using rec.wr_cell [OF w] cells buf eq by auto
  qed
qed

lemma commitMutation_outcome:
  assumes run: "commitMutation ops k rec st s = (ok, st', s')"
    and old: "durableRecord (rcell s) k = Some (old, ssActiveCopy (nsSlots st ! k))"
    and gen: "nrGeneration rec = nrGeneration old + 1" and wf: "nodeRecord_wf rec"
  shows "mcell s' = mcell s \<and> (\<forall>k'. k' \<noteq> k \<longrightarrow> rcell s' k' = rcell s k')
    \<and> (if ok then st' = st\<lparr>nsSlots := (nsSlots st)[k := \<lparr>ssPresent = True, ssRecord = rec,
           ssActiveCopy = opposite (ssActiveCopy (nsSlots st ! k))\<rparr>]\<rparr>
         \<and> durableRecord (rcell s') k = Some (rec, opposite (ssActiveCopy (nsSlots st ! k)))
       else (\<exists>e. st' = ns_fail e st) \<and> durableRecord (rcell s') k
         \<in> {Some (old, ssActiveCopy (nsSlots st ! k)), Some (rec, opposite (ssActiveCopy (nsSlots st ! k)))})"
proof -
  let ?act = "ssActiveCopy (nsSlots st ! k)"
  obtain er out where enc: "encodeNodeRecord rec (Some (fillZero 56)) = (er, out)" by fastforce
  show ?thesis
  proof (cases "er = CR_OK")
    case False
    then show ?thesis using run enc old by (auto simp: commitMutation_def)
  next
    case True
    then obtain bs where bs: "out = Some bs" "nodeRecordImage rec = Some bs"
      using encodeNodeRecord_OK_Some [of rec "fillZero 56" out] nodeRecordImage_encode [OF enc] enc by auto
    have dec: "decodeNodeRecordForSelection bs = Some rec" "length bs = 56"
      using nodeRecordImage_decode [OF bs(2) wf] by (auto simp: decodeNodeRecordForSelection_def)
    obtain okw st1 s1 where w: "writeVerify ops k (opposite ?act) bs st s = (okw, st1, s1)" using prod_cases3 by blast
    obtain o1 f1 st2 s2 where r1: "readRecordCopy ops k ?act st1 s1 = (o1, f1, st2, s2)" using prod_cases4 by blast
    obtain o2 f2 st3 s3 where r2: "readRecordCopy ops k (opposite ?act) st2 s2 = (o2, f2, st3, s3)"
      using prod_cases4 by blast
    note W = writeVerify_outcome [OF w dec(2)] and R1 = readRecordCopy_outcome [OF r1] and R2 = readRecordCopy_outcome [OF r2]
    have frame: "rcell s2 = rcell s1" "rcell s3 = rcell s1" "mcell s1 = mcell s" "mcell s2 = mcell s" "mcell s3 = mcell s"
      using W R1 R2 by auto
    note step = conjunct1 [OF W]
    have fr: "\<forall>k'. k' \<noteq> k \<longrightarrow> rcell s1 k' = rcell s k'" using cellStep_frame [OF step] by blast
    have dur: "durableRecord (rcell s1) k \<in> {Some (old, ?act), Some (rec, opposite ?act)}"
      and durN: "okw \<Longrightarrow> durableRecord (rcell s1) k = Some (rec, opposite ?act)"
      using cellStep_next [OF step old [unfolded durableRecord_def] dec(1) gen] W by (auto simp: durableRecord_def)
    show ?thesis
    proof (cases "okw \<and> o1 \<and> o2")
      case False
      then have "\<not> ok \<and> (\<exists>e. st' = ns_fail e st) \<and> s' \<in> {s1, s2, s3}"
        using run enc bs(1) True w r1 r2 W R1 R2
        by (auto simp: commitMutation_def ns_fail_def split: if_splits)
      then show ?thesis using fr dur frame by auto
    next
      case True
      obtain sel m slot where sl: "selectCopies nrGeneration decodeNodeRecordForSelection
          (if ?act = CopyA then f1 else f2) (if ?act = CopyA then f2 else f1) nodeRecord_init CopyA = (sel, m, slot)"
        using prod_cases3 by blast
      have "represents decodeNodeRecordForSelection 56 (if ?act = CopyA then f1 else f2) (rcell s1 k CopyA)"
        "represents decodeNodeRecordForSelection 56 (if ?act = CopyA then f2 else f1) (rcell s1 k CopyB)"
        using R1 R2 True frame(1) by (cases ?act; simp)+
      from selectCopies_authoritative(1) [OF this sl]
      have sel: "settled sel" "m = rec" "slot = opposite ?act"
        using durN True by (auto simp: durableRecord_def split: if_splits)
      then have "acceptSelection sel st3 = (True, st3)" by (simp add: acceptSelection_def settled_def)
      moreover have "st1 = st" "st2 = st" "st3 = st" using W R1 R2 True by auto
      ultimately have "ok" "s' = s3" "st' = st\<lparr>nsSlots := (nsSlots st)[k := \<lparr>ssPresent = True, ssRecord = rec,
           ssActiveCopy = opposite ?act\<rparr>]\<rparr>"
        using run enc bs(1) \<open>er = CR_OK\<close> w r1 r2 True sl sel by (auto simp: commitMutation_def)
      then show ?thesis using fr durN True frame by simp
    qed
  qed
qed

lemma commitMetadata_rcell:
  assumes "commitMetadata (neMetadata ops) m a s = (x, s')"
  shows "rcell s' = rcell s"
proof -
  obtain er out where enc: "encodeNodeMetadata m (Some (fillZero 28)) = (er, out)" by fastforce
  obtain w s1 where w: "msWrite (neMetadata ops) (commitTarget a) (the out) s = (w, s1)" by fastforce
  obtain c s2 where c: "msCommit (neMetadata ops) s1 = (c, s2)" by fastforce
  obtain r buf n s3 where r: "msRead (neMetadata ops) (commitTarget a) (fillZero 28) s2 = (r, buf, n, s3)"
    using prod_cases4 by blast
  have "s' \<in> {s, s1, s2, s3}" using assms enc w c r
    by (auto simp: commitMetadata_def commitTarget_def [symmetric] split: if_splits sum.splits)
  then show ?thesis using msWrite_rcell [OF w] rec.cm_frame [OF c] msRead_rcell [OF r] by auto
qed

lemma initializeFresh_rcell:
  assumes "initializeFresh (neMetadata ops) entropy a s = (x, s')"
  shows "rcell s' = rcell s"
proof -
  obtain e s1 where e: "entropy s = (e, s1)" by fastforce
  have "s' = s1 \<or> (\<exists>m. commitMetadata (neMetadata ops) m a s1 = (x, s'))"
    using assms e unfolding initializeFresh_def by (cases "e = None \<or> e = Some 0") auto
  then show ?thesis using entropy_rcell [OF e] by (elim disjE exE) (simp_all add: commitMetadata_rcell)
qed

lemma reserveBlock_rcell:
  assumes "reserveBlock (neMetadata ops) a s = (x, s')"
  shows "rcell s' = rcell s"
proof -
  have c: "rcell (snd (case commitMetadata (neMetadata ops) m a s of ((committed, a'), s') \<Rightarrow>
      if committed \<noteq> ID_READY then ((committed, a'), s') else ((ID_READY, f a'), s'))) = rcell s" for m f
    using commitMetadata_rcell by (cases "commitMetadata (neMetadata ops) m a s") (fastforce split: prod.splits)
  show ?thesis using arg_cong [OF assms, of "\<lambda>p. rcell (snd p)"] c
    unfolding reserveBlock_def Let_def by (simp split: if_splits)
qed

lemma allocate_rcell:
  assumes "allocate (neMetadata ops) a s = (res, a', s')"
  shows "rcell s' = rcell s"
proof -
  have "s' = s \<or> (\<exists>x. reserveBlock (neMetadata ops) a s = (x, s'))"
    using assms by (auto simp: allocate_def split: if_splits prod.splits)
  then show ?thesis by (elim disjE exE) (simp_all add: reserveBlock_rcell)
qed

lemma al_recover_rcell:
  assumes "al_recover (neMetadata ops) entropy d custody s = (x, s')"
  shows "rcell s' = rcell s"
proof -
  have rc: "rcell s1 = rcell s0" if "readCopy (neMetadata ops) c s0 = (r, f, s1)" for c s0 r f s1
    using that msRead_rcell by (fastforce simp: readCopy_def split: prod.splits if_splits)
  obtain ra fa s1 where A: "readCopy (neMetadata ops) CopyA s = (ra, fa, s1)" using prod_cases3 by blast
  obtain rb fb s2 where B: "readCopy (neMetadata ops) CopyB s1 = (rb, fb, s2)" using prod_cases3 by blast
  have "rcell s2 = rcell s" using rc [OF A] rc [OF B] by simp
  moreover have "s' = s \<or> s' = s2 \<or> (\<exists>a. initializeFresh (neMetadata ops) entropy a s2 = (x, s'))"
    using assms A B by (auto simp: al_recover_def split: if_splits prod.splits)
  ultimately show ?thesis by (elim disjE exE) (simp_all add: initializeFresh_rcell)
qed

end

subsection \<open>The invariant\<close>

definition stored :: "(nat \<Rightarrow> copySlot \<Rightarrow> bytes option) \<Rightarrow> store \<Rightarrow> bool" where
  "stored cells st = (length (nsSlots st) = 8 \<and> (\<forall>k<8. ssPresent (nsSlots st ! k)
     \<and> durableRecord cells k = Some (slotRecord st k, ssActiveCopy (nsSlots st ! k))))"

definition recordKey :: "nodeRecord \<Rightarrow> u32 \<times> u32" where
  "recordKey r = (nrEventEpoch r, nrEventId r)"

text \<open>Every Event held durably has an identity below the durable high-water mark.\<close>

definition custody :: "u8 \<Rightarrow> (unit \<Rightarrow> copySlot \<Rightarrow> bytes option) \<Rightarrow> (nat \<Rightarrow> copySlot \<Rightarrow> bytes option) \<Rightarrow> bool" where
  "custody device mcells rcells = (\<forall>k<8. \<forall>r c. durableRecord rcells k = Some (r, c) \<longrightarrow> nrState r \<noteq> NS_FREE \<longrightarrow>
     (\<exists>m slot. durableMetadata mcells = Some (m, slot) \<and> serves device m \<and> recordKey r < position m))"

definition storeInv :: "u8 \<Rightarrow> (unit \<Rightarrow> copySlot \<Rightarrow> bytes option) \<Rightarrow> (nat \<Rightarrow> copySlot \<Rightarrow> bytes option) \<Rightarrow> store \<Rightarrow> bool" where
  "storeInv device mcells rcells st = (stored rcells st \<and> indexed st \<and> alReady (nsAllocator st)
     \<and> live device mcells (nsAllocator st)
     \<and> (\<forall>k<8. nrState (slotRecord st k) \<noteq> NS_FREE \<longrightarrow> recordKey (slotRecord st k) < cursor (nsAllocator st)))"

lemma identityOf_recordKey: "identityOf (nsSlots st) k = recordKey (slotRecord st k)"
  by (simp add: identityOf_def recordKey_def)

lemma ns_note_simps [simp]:
  "nsSlots (ns_note e n st) = nsSlots st" "nsQueue (ns_note e n st) = nsQueue st"
  "nsQueueCount (ns_note e n st) = nsQueueCount st" "nsAllocator (ns_note e n st) = nsAllocator st"
  "nsHealthy (ns_note e n st) = nsHealthy st" "nsStatus (ns_note e n st) = nsStatus st"
  by (simp_all add: ns_note_def)

lemma persistenceFailure_simps [simp]:
  "nsSlots (persistenceFailure st) = nsSlots st" "nsQueue (persistenceFailure st) = nsQueue st"
  "nsQueueCount (persistenceFailure st) = nsQueueCount st" "nsAllocator (persistenceFailure st) = nsAllocator st"
  "nsHealthy (persistenceFailure st) = nsHealthy st" "nsStatus (persistenceFailure st) = nsStatus st"
  by (simp_all add: persistenceFailure_def)

lemma updateQueueSnapshot_simps [simp]:
  "nsSlots (updateQueueSnapshot st) = nsSlots st" "nsQueue (updateQueueSnapshot st) = nsQueue st"
  "nsQueueCount (updateQueueSnapshot st) = nsQueueCount st" "nsAllocator (updateQueueSnapshot st) = nsAllocator st"
  "nsHealthy (updateQueueSnapshot st) = nsHealthy st" "nsStatus (updateQueueSnapshot st) = nsStatus st"
  by (simp_all add: updateQueueSnapshot_def)

lemma ns_fail_simps [simp]: "\<not> nsHealthy (ns_fail e st)" "nsSlots (ns_fail e st) = nsSlots st"
  by (simp_all add: ns_fail_def)

lemma storeInv_cong:
  "nsSlots st' = nsSlots st \<Longrightarrow> nsQueue st' = nsQueue st \<Longrightarrow> nsQueueCount st' = nsQueueCount st \<Longrightarrow>
   nsAllocator st' = nsAllocator st \<Longrightarrow> storeInv d m r st' = storeInv d m r st"
  by (simp add: storeInv_def stored_def indexed_def)

lemma storeInv_custody:
  assumes "storeInv device m r st" shows "custody device m r"
  unfolding custody_def
proof (intro allI impI)
  fix k rec c assume "k < 8" "durableRecord r k = Some (rec, c)" "nrState rec \<noteq> NS_FREE"
  then have "recordKey rec < cursor (nsAllocator st)" using assms by (auto simp: storeInv_def stored_def)
  moreover have "cursor (nsAllocator st) \<le> position (alMetadata (nsAllocator st))"
    using assms by (auto simp: storeInv_def live_def cursor_def position_def)
  ultimately show "\<exists>m' slot. durableMetadata m = Some (m', slot) \<and> serves device m' \<and> recordKey rec < position m'"
    using assms by (auto simp: storeInv_def live_def intro: less_le_trans)
qed

lemma indexed_slots:
  assumes "indexed st" "length (nsSlots st) = 8" "k < 8"
    and "nrState r = nrState (slotRecord st k)" "recordKey r = recordKey (slotRecord st k)" "ssPresent (nsSlots st ! k)"
  shows "indexed (st\<lparr>nsSlots := (nsSlots st)[k := \<lparr>ssPresent = True, ssRecord = r, ssActiveCopy = c\<rparr>]\<rparr>)"
proof -
  let ?s = "(nsSlots st)[k := \<lparr>ssPresent = True, ssRecord = r, ssActiveCopy = c\<rparr>]"
  have o: "occupied (?s ! j) = occupied (nsSlots st ! j)" and q: "queuedSlot ?s j = queuedSlot (nsSlots st) j"
    and i: "identityOf ?s j = identityOf (nsSlots st) j" for j
    using assms by (auto simp: occupied_def queuedSlot_def identityOf_def recordKey_def nth_list_update)
  show ?thesis using assms(1) by (simp add: indexed_def uniqueIdentities_def o q i cong: map_cong)
qed

definition durableView :: "(nat \<Rightarrow> copySlot \<Rightarrow> bytes option) \<Rightarrow> nat \<Rightarrow> nodeRecord option" where
  "durableView cells k = map_option fst (durableRecord cells k)"

text \<open>A record that may be committed to slot \<open>k\<close>: next generation, well-formed, and if it holds an Event
  its identity has been issued and is not the identity of another slot.\<close>

definition committable :: "store \<Rightarrow> nat \<Rightarrow> nodeRecord \<Rightarrow> bool" where
  "committable st k rec = (k < 8 \<and> nrGeneration rec = nrGeneration (slotRecord st k) + 1 \<and> nodeRecord_wf rec
     \<and> (nrState rec \<noteq> NS_FREE \<longrightarrow> recordKey rec < cursor (nsAllocator st)
         \<and> (\<forall>j<8. j \<noteq> k \<longrightarrow> nrState (slotRecord st j) \<noteq> NS_FREE \<longrightarrow> recordKey (slotRecord st j) \<noteq> recordKey rec)))"

text \<open>The outcome of a commit: the record is durable and the invariant holds, or the store is out of
  service and the record may or may not have become durable; nothing else changes durably.\<close>

definition commitOutcome :: "u8 \<Rightarrow> (unit \<Rightarrow> copySlot \<Rightarrow> bytes option) \<Rightarrow> (nat \<Rightarrow> copySlot \<Rightarrow> bytes option) \<Rightarrow>
    (nat \<Rightarrow> copySlot \<Rightarrow> bytes option) \<Rightarrow> nat \<Rightarrow> nodeRecord \<Rightarrow> bool \<Rightarrow> store \<Rightarrow> bool" where
  "commitOutcome device mcells rcells rcells' k rec ok st' =
     (if ok then storeInv device mcells rcells' st' \<and> nsHealthy st' \<and> slotRecord st' k = rec
        \<and> durableView rcells' = (durableView rcells)(k \<mapsto> rec)
      else \<not> nsHealthy st' \<and> custody device mcells rcells'
        \<and> durableView rcells' \<in> {durableView rcells, (durableView rcells)(k \<mapsto> rec)})"

lemma stored_wf:
  assumes "stored rcells st" "k < 8"
  shows "nodeRecord_wf (slotRecord st k)"
proof -
  have "Option.bind (rcells k (ssActiveCopy (nsSlots st ! k))) decodeNodeRecordForSelection = Some (slotRecord st k)"
    using assms authoritative_cell [of nrGeneration decodeNodeRecordForSelection "rcells k"]
    by (simp add: stored_def durableRecord_def)
  then show ?thesis using node_record.dec_wf by (auto simp: Option.bind_eq_Some_conv)
qed

lemma custody_update:
  assumes "storeInv device m r st" and "\<forall>j. j \<noteq> k \<longrightarrow> r' j = r j" "k < 8"
    and "durableRecord r' k \<in> {durableRecord r k, Some (rec, c)}"
    and "nrState rec \<noteq> NS_FREE \<Longrightarrow> recordKey rec < cursor (nsAllocator st)"
  shows "custody device m r'"
  unfolding custody_def
proof (intro allI impI)
  fix j x d assume j: "j < 8" "durableRecord r' j = Some (x, d)" "nrState x \<noteq> NS_FREE"
  consider "durableRecord r j = Some (x, d)" | "x = rec" "recordKey x < cursor (nsAllocator st)"
    using assms(2,4,5) j by (cases "j = k") (auto simp: durableRecord_def)
  then show "\<exists>md slot. durableMetadata m = Some (md, slot) \<and> serves device md \<and> recordKey x < position md"
  proof cases
    case 1
    then show ?thesis using storeInv_custody [OF assms(1)] j by (auto simp: custody_def)
  next
    case 2
    moreover have "cursor (nsAllocator st) \<le> position (alMetadata (nsAllocator st))"
      using assms(1) by (auto simp: storeInv_def live_def cursor_def position_def)
    ultimately show ?thesis using assms(1) by (auto simp: storeInv_def live_def intro: less_le_trans)
  qed
qed

lemma durableView_update:
  assumes "\<forall>j. j \<noteq> k \<longrightarrow> r' j = r j"
  shows "durableRecord r' k = Some (rec, c) \<Longrightarrow> durableView r' = (durableView r)(k \<mapsto> rec)"
    and "durableRecord r' k = durableRecord r k \<Longrightarrow> durableView r' = durableView r"
proof -
  have e: "j \<noteq> k \<Longrightarrow> durableRecord r' j = durableRecord r j" for j using assms by (simp add: durableRecord_def)
  show "durableRecord r' k = Some (rec, c) \<Longrightarrow> durableView r' = (durableView r)(k \<mapsto> rec)"
    using e by (intro ext) (simp add: durableView_def)
  assume "durableRecord r' k = durableRecord r k"
  then have "durableRecord r' j = durableRecord r j" for j using e by (cases "j = k") auto
  then show "durableView r' = durableView r" by (simp add: durableView_def [abs_def])
qed

context node_storage
begin

lemma commitMutation_inv:
  assumes run: "commitMutation ops k rec st s = (ok, st', s')"
    and inv: "storeInv device (mcell s) (rcell s) st" and cm: "committable st k rec"
  shows "mcell s' = mcell s" and "if ok
    then stored (rcell s') st' \<and> uniqueIdentities (nsSlots st') \<and> slotRecord st' k = rec
      \<and> durableView (rcell s') = (durableView (rcell s))(k \<mapsto> rec)
      \<and> (\<forall>j<8. nrState (slotRecord st' j) \<noteq> NS_FREE \<longrightarrow> recordKey (slotRecord st' j) < cursor (nsAllocator st'))
      \<and> (\<exists>c. st' = st\<lparr>nsSlots := (nsSlots st)[k := \<lparr>ssPresent = True, ssRecord = rec, ssActiveCopy = c\<rparr>]\<rparr>)
    else commitOutcome device (mcell s') (rcell s) (rcell s') k rec False st'"
proof -
  let ?act = "ssActiveCopy (nsSlots st ! k)"
  have k: "k < 8" "length (nsSlots st) = 8" using cm inv by (auto simp: committable_def storeInv_def stored_def)
  have old: "durableRecord (rcell s) k = Some (slotRecord st k, ?act)"
    using inv k by (auto simp: storeInv_def stored_def)
  have out: "mcell s' = mcell s" "\<forall>j. j \<noteq> k \<longrightarrow> rcell s' j = rcell s j" "if ok then
      st' = st\<lparr>nsSlots := (nsSlots st)[k := \<lparr>ssPresent = True, ssRecord = rec, ssActiveCopy = opposite ?act\<rparr>]\<rparr>
         \<and> durableRecord (rcell s') k = Some (rec, opposite ?act)
       else (\<exists>e. st' = ns_fail e st) \<and> durableRecord (rcell s') k
         \<in> {Some (slotRecord st k, ?act), Some (rec, opposite ?act)}"
    using commitMutation_outcome [OF run old] cm unfolding committable_def by blast+
  show "mcell s' = mcell s" by (rule out(1))
  show "if ok
    then stored (rcell s') st' \<and> uniqueIdentities (nsSlots st') \<and> slotRecord st' k = rec
      \<and> durableView (rcell s') = (durableView (rcell s))(k \<mapsto> rec)
      \<and> (\<forall>j<8. nrState (slotRecord st' j) \<noteq> NS_FREE \<longrightarrow> recordKey (slotRecord st' j) < cursor (nsAllocator st'))
      \<and> (\<exists>c. st' = st\<lparr>nsSlots := (nsSlots st)[k := \<lparr>ssPresent = True, ssRecord = rec, ssActiveCopy = c\<rparr>]\<rparr>)
    else commitOutcome device (mcell s') (rcell s) (rcell s') k rec False st'"
  proof (cases ok)
    case True
    let ?n = "\<lparr>ssPresent = True, ssRecord = rec, ssActiveCopy = opposite ?act\<rparr>"
    have st': "nsSlots st' = (nsSlots st)[k := ?n]" "nsAllocator st' = nsAllocator st" using True out(3) by auto
    have dj: "j \<noteq> k \<Longrightarrow> durableRecord (rcell s') j = durableRecord (rcell s) j" for j
      using out(2) by (simp add: durableRecord_def)
    have "stored (rcell s') st'"
      using inv st' True out(3) dj k by (auto simp: stored_def storeInv_def nth_list_update)
    moreover have "\<forall>j<8. nrState (slotRecord st' j) \<noteq> NS_FREE \<longrightarrow> recordKey (slotRecord st' j) < cursor (nsAllocator st')"
      using inv cm st' k by (auto simp: storeInv_def committable_def nth_list_update)
    moreover have "uniqueIdentities (nsSlots st')"
      using inv cm st' k unfolding uniqueIdentities_def identityOf_recordKey occupied_def
      by (auto simp: storeInv_def stored_def indexed_def uniqueIdentities_def identityOf_recordKey
          occupied_def committable_def nth_list_update)
    moreover have "slotRecord st' k = rec" using st' k by simp
    ultimately show ?thesis using True out(3) durableView_update(1) [OF out(2)] by auto
  next
    case False
    then have "durableRecord (rcell s') k \<in> {durableRecord (rcell s) k, Some (rec, opposite ?act)}"
      using out(3) old by auto
    moreover from this have "durableView (rcell s') \<in> {durableView (rcell s), (durableView (rcell s))(k \<mapsto> rec)}"
      using durableView_update [OF out(2)] by auto
    ultimately show ?thesis using False out custody_update [OF inv out(2) k(1)] cm
      by (auto simp: commitOutcome_def committable_def)
  qed
qed

lemma commitAndIndex_outcome:
  assumes run: "commitAndIndex ops k rec st s = (res, st', s')"
    and inv: "storeInv device (mcell s) (rcell s) st" "nsHealthy st" and cm: "committable st k rec"
  shows "res \<in> {MUT_OK, MUT_STORAGE_FAILURE}"
    and "commitOutcome device (mcell s') (rcell s) (rcell s') k rec (res = MUT_OK) st'" and "mcell s' = mcell s"
proof -
  obtain ok st1 s1 where c: "commitMutation ops k rec st s = (ok, st1, s1)" using prod_cases3 by blast
  note out = commitMutation_inv [OF c inv(1) cm]
  have "res \<in> {MUT_OK, MUT_STORAGE_FAILURE} \<and> commitOutcome device (mcell s') (rcell s) (rcell s') k rec (res = MUT_OK) st'
      \<and> s' = s1"
  proof (cases ok)
    case False
    then show ?thesis using run c out by (auto simp: commitAndIndex_def)
  next
    case True
    have ok: "stored (rcell s1) st1" "uniqueIdentities (nsSlots st1)" "slotRecord st1 k = rec"
      "durableView (rcell s1) = (durableView (rcell s))(k \<mapsto> rec)"
      "\<forall>j<8. nrState (slotRecord st1 j) \<noteq> NS_FREE \<longrightarrow> recordKey (slotRecord st1 j) < cursor (nsAllocator st1)"
      using out(2) True by auto
    obtain c1 where st1: "st1 = st\<lparr>nsSlots := (nsSlots st)[k := \<lparr>ssPresent = True, ssRecord = rec, ssActiveCopy = c1\<rparr>]\<rparr>"
      using out(2) True by auto
    obtain u st2 where u: "rebuildIndex st1 = (u, st2)" by fastforce
    have q: "length (nsQueue st1) = 8" using inv(1) st1 by (simp add: storeInv_def indexed_def)
    have u': "u" "indexed st2" "st2 = st1\<lparr>nsQueue := nsQueue st2, nsQueueCount := nsQueueCount st2\<rparr>"
      using rebuildIndex_spec [OF u q] ok(2) by (auto split: if_splits)
    have eq: "nsSlots st2 = nsSlots st1" "nsAllocator st2 = nsAllocator st" "nsHealthy st2 = nsHealthy st"
      using arg_cong [OF u'(3), of nsSlots] arg_cong [OF u'(3), of nsAllocator] arg_cong [OF u'(3), of nsHealthy] st1
      by simp_all
    have "storeInv device (mcell s1) (rcell s1) st2"
      using inv(1) ok u'(2) eq st1 out(1) by (simp add: storeInv_def stored_def)
    moreover have "res = MUT_OK" "st' = st2" "s' = s1"
      using run c True u u'(1) by (simp_all add: commitAndIndex_def)
    ultimately show ?thesis using ok(3,4) eq inv(2) by (simp add: commitOutcome_def)
  qed
  then show "res \<in> {MUT_OK, MUT_STORAGE_FAILURE}" "mcell s' = mcell s"
    "commitOutcome device (mcell s') (rcell s) (rcell s') k rec (res = MUT_OK) st'" using out(1) by auto
qed

lemma commit_same_key:
  assumes run: "commitMutation ops k rec st s = (ok, st', s')"
    and inv: "storeInv device (mcell s) (rcell s) st" "nsHealthy st" and cm: "committable st k rec"
    and same: "nrState rec = nrState (slotRecord st k)" "recordKey rec = recordKey (slotRecord st k)"
  shows "commitOutcome device (mcell s') (rcell s) (rcell s') k rec ok st'" and "mcell s' = mcell s"
proof -
  note out = commitMutation_inv [OF run inv(1) cm]
  show "mcell s' = mcell s" by (rule out(1))
  show "commitOutcome device (mcell s') (rcell s) (rcell s') k rec ok st'"
  proof (cases ok)
    case True
    obtain c1 where st1: "st' = st\<lparr>nsSlots := (nsSlots st)[k := \<lparr>ssPresent = True, ssRecord = rec, ssActiveCopy = c1\<rparr>]\<rparr>"
      using out(2) True by auto
    have ix: "indexed st'"
      unfolding st1 using inv(1) cm same by (intro indexed_slots) (auto simp: storeInv_def stored_def committable_def)
    have "nsAllocator st' = nsAllocator st" "nsHealthy st'" using st1 inv(2) by simp_all
    then have "storeInv device (mcell s') (rcell s') st'"
      using out True inv(1) ix by (simp add: storeInv_def)
    then show ?thesis using out(2) True \<open>nsHealthy st'\<close> by (simp add: commitOutcome_def)
  qed (use out in simp)
qed

lemma committable_free:
  "k < 8 \<Longrightarrow> committable st k (freeRecord (nrGeneration (slotRecord st k) + 1))"
  by (simp add: committable_def freeRecord_def nodeRecord_init_def nodeRecord_wf_def)

lemma committable_same:
  assumes inv: "storeInv device m r st" and k: "k < 8" "nrState (slotRecord st k) \<noteq> NS_FREE"
    and rec: "nrGeneration rec = nrGeneration (slotRecord st k) + 1" "nodeRecord_wf rec"
      "recordKey rec = recordKey (slotRecord st k)"
  shows "committable st k rec"
proof -
  have "recordKey (slotRecord st j) \<noteq> recordKey (slotRecord st k)"
    if "j < 8" "j \<noteq> k" "nrState (slotRecord st j) \<noteq> NS_FREE" for j
    using that inv k uniqueIdentities_inj [of "nsSlots st" j k]
    by (auto simp: storeInv_def stored_def indexed_def occupied_def identityOf_recordKey)
  then show ?thesis using inv k rec by (auto simp: committable_def storeInv_def)
qed

end

subsection \<open>Operations\<close>

datatype storeOp = OpEnqueue eventInput | OpMarkFailed nat | OpMarkExpired nat | OpReclaim nat
  | OpReleaseQueued nat | OpCheckpointRemaining nat u32 | OpArmAttempt nat

text \<open>One operation: whether it reports success, the identity it reports, and the states after it.\<close>

fun applyOp :: "'s nodeStorage \<Rightarrow> storeOp \<Rightarrow> store \<Rightarrow> 's \<Rightarrow> bool \<times> identity \<times> store \<times> 's" where
  "applyOp ops (OpEnqueue input) st s = (case enqueue ops input st s of (r, st', s') \<Rightarrow>
     (erStatus r = ENQUEUED, erIdentity r, st', s'))"
| "applyOp ops (OpMarkFailed k) st s = (case markFailed ops k st s of (r, st', s') \<Rightarrow> (r = MUT_OK, identity_init, st', s'))"
| "applyOp ops (OpMarkExpired k) st s = (case markExpired ops k st s of (r, st', s') \<Rightarrow> (r = MUT_OK, identity_init, st', s'))"
| "applyOp ops (OpReclaim k) st s = (case reclaim ops k st s of (r, st', s') \<Rightarrow> (r = MUT_OK, identity_init, st', s'))"
| "applyOp ops (OpReleaseQueued k) st s = (case releaseQueued ops k st s of (r, st', s') \<Rightarrow> (r = MUT_OK, identity_init, st', s'))"
| "applyOp ops (OpCheckpointRemaining k t) st s = (case checkpointRemaining ops k t st s of (r, st', s') \<Rightarrow>
     (r = MUT_OK, identity_init, st', s'))"
| "applyOp ops (OpArmAttempt k) st s = (case armAttempt ops k st s of (r, st', s') \<Rightarrow> (r = ARMED, identity_init, st', s'))"

text \<open>The specification: the slot and record an operation is to make durable, \<open>None\<close> where it must be
  refused.  The identity is the one the allocator issued for an enqueue.\<close>

fun intended :: "storeOp \<Rightarrow> store \<Rightarrow> identity \<Rightarrow> (nat \<times> nodeRecord) option" where
  "intended (OpEnqueue input) st i = (if validInput input
     then map_option (\<lambda>k. (k, enqueuedRecord (slotRecord st k) input i)) (firstFreeSlot st) else None)"
| "intended (OpMarkFailed k) st i = (if k < 8 \<and> nrState (slotRecord st k) = NS_QUEUED
     then Some (k, (slotRecord st k)\<lparr>nrGeneration := nrGeneration (slotRecord st k) + 1, nrState := NS_FAILED\<rparr>) else None)"
| "intended (OpMarkExpired k) st i = (if k < 8 \<and> nrState (slotRecord st k) = NS_QUEUED
     then Some (k, (slotRecord st k)\<lparr>nrGeneration := nrGeneration (slotRecord st k) + 1, nrState := NS_EXPIRED\<rparr>) else None)"
| "intended (OpReclaim k) st i = (if k < 8 \<and> nrState (slotRecord st k) \<in> {NS_FAILED, NS_EXPIRED}
     then Some (k, freeRecord (nrGeneration (slotRecord st k) + 1)) else None)"
| "intended (OpReleaseQueued k) st i = (if k < 8 \<and> nrState (slotRecord st k) = NS_QUEUED
     then Some (k, freeRecord (nrGeneration (slotRecord st k) + 1)) else None)"
| "intended (OpCheckpointRemaining k t) st i = (if k < 8 \<and> nrState (slotRecord st k) = NS_QUEUED \<and> 0 < t
       \<and> t < nrRemainingActiveSeconds (slotRecord st k)
     then Some (k, (slotRecord st k)\<lparr>nrGeneration := nrGeneration (slotRecord st k) + 1,
       nrRemainingActiveSeconds := t\<rparr>) else None)"
| "intended (OpArmAttempt k) st i = (if k < 8 \<and> nrState (slotRecord st k) = NS_QUEUED
       \<and> nrAttemptsUsed (slotRecord st k) < MAX_ATTEMPTS
     then Some (k, (slotRecord st k)\<lparr>nrGeneration := nrGeneration (slotRecord st k) + 1,
       nrAttemptsUsed := nrAttemptsUsed (slotRecord st k) + 1\<rparr>) else None)"

text \<open>What may come of an operation on a healthy store.\<close>

definition opOutcome :: "u8 \<Rightarrow> (unit \<Rightarrow> copySlot \<Rightarrow> bytes option) \<Rightarrow> (nat \<Rightarrow> copySlot \<Rightarrow> bytes option) \<Rightarrow>
    (nat \<Rightarrow> copySlot \<Rightarrow> bytes option) \<Rightarrow> (nat \<times> nodeRecord) option \<Rightarrow> bool \<Rightarrow> store \<Rightarrow> bool" where
  "opOutcome device mcells rcells rcells' target ok st' = (case target of
       None \<Rightarrow> \<not> ok \<and> nsHealthy st' \<and> storeInv device mcells rcells' st' \<and> rcells' = rcells
     | Some (k, rec) \<Rightarrow> commitOutcome device mcells rcells rcells' k rec ok st')"

definition sameCore :: "store \<Rightarrow> store \<Rightarrow> bool" where
  "sameCore st' st = (nsSlots st' = nsSlots st \<and> nsQueue st' = nsQueue st \<and> nsQueueCount st' = nsQueueCount st
     \<and> nsAllocator st' = nsAllocator st \<and> nsHealthy st' = nsHealthy st)"

lemma commitOutcome_cong:
  "sameCore st' st \<Longrightarrow> commitOutcome d m r r' k rec ok st' = commitOutcome d m r r' k rec ok st"
  using storeInv_cong [of st' st] by (simp add: commitOutcome_def sameCore_def)

lemma opOutcome_cong:
  "sameCore st' st \<Longrightarrow> opOutcome d m r r' t ok st' = opOutcome d m r r' t ok st"
  using commitOutcome_cong [of st' st] storeInv_cong [of st' st]
  by (auto simp: opOutcome_def sameCore_def split: option.splits)

lemma find_Some_nth: "find P xs = Some x \<Longrightarrow> x \<in> set xs \<and> P x"
  by (auto simp: find_Some_iff)

context node_storage
begin

lemma transition_outcome:
  assumes "ns_transition ops k NS_QUEUED to st s = (res, st', s')"
    and inv: "storeInv device (mcell s) (rcell s) st" "nsHealthy st" and to: "to \<in> {NS_FAILED, NS_EXPIRED}"
  shows "opOutcome device (mcell s') (rcell s) (rcell s') (if k < 8 \<and> nrState (slotRecord st k) = NS_QUEUED
     then Some (k, (slotRecord st k)\<lparr>nrGeneration := nrGeneration (slotRecord st k) + 1, nrState := to\<rparr>) else None)
     (res = MUT_OK) st'"
proof (cases "k < 8 \<and> nrState (slotRecord st k) = NS_QUEUED")
  case True
  let ?r = "(slotRecord st k)\<lparr>nrGeneration := nrGeneration (slotRecord st k) + 1, nrState := to\<rparr>"
  have run: "commitAndIndex ops k ?r st s = (res, st', s')" using assms(1) inv(2) True by (simp add: ns_transition_def)
  have "nodeRecord_wf ?r" using stored_wf [of "rcell s" st k] inv(1) True to by (auto simp: storeInv_def nodeRecord_wf_def)
  then have "committable st k ?r" using committable_same [OF inv(1), of k ?r] True by (simp add: recordKey_def)
  from commitAndIndex_outcome [OF run inv this] True show ?thesis by (simp add: opOutcome_def)
next
  case False
  then show ?thesis using assms(1) inv by (auto simp: ns_transition_def opOutcome_def split: if_splits)
qed

lemma makeFree_outcome:
  assumes "makeFree ops k st s = (res, st', s')" "k < 8"
    and inv: "storeInv device (mcell s) (rcell s) st" "nsHealthy st"
  shows "commitOutcome device (mcell s') (rcell s) (rcell s') k (freeRecord (nrGeneration (slotRecord st k) + 1))
     (res = MUT_OK) st'"
  using commitAndIndex_outcome(2) [OF _ inv committable_free [OF assms(2)]] assms(1) by (simp add: makeFree_def)

lemma slot_op_outcome:
  assumes "applyOp ops op st s = (ok, i, st', s')" and no: "\<And>input. op \<noteq> OpEnqueue input"
    and inv: "storeInv device (mcell s) (rcell s) st" "nsHealthy st"
  shows "opOutcome device (mcell s') (rcell s) (rcell s') (intended op st j) ok st'"
proof (cases op)
  case (OpEnqueue input)
  then show ?thesis using no by blast
next
  case (OpMarkFailed k)
  obtain res st1 s1 where t: "ns_transition ops k NS_QUEUED NS_FAILED st s = (res, st1, s1)" using prod_cases3 by blast
  have "st' = (if res = MUT_OK then updateQueueSnapshot (ns_note ED_ATTEMPT_EXHAUSTED 1 st1)
      else if res = MUT_STORAGE_FAILURE then persistenceFailure st1 else st1)" "ok = (res = MUT_OK)" "s' = s1"
    using assms(1) t OpMarkFailed by (auto simp: markFailed_def)
  moreover from this(1) have "sameCore st' st1" by (simp add: sameCore_def)
  ultimately show ?thesis using transition_outcome [OF t inv] OpMarkFailed opOutcome_cong by auto
next
  case (OpMarkExpired k)
  obtain res st1 s1 where t: "ns_transition ops k NS_QUEUED NS_EXPIRED st s = (res, st1, s1)" using prod_cases3 by blast
  have "st' = (if res = MUT_OK then updateQueueSnapshot (ns_note ED_EVENT_EXPIRED 1 st1)
      else if res = MUT_STORAGE_FAILURE then persistenceFailure st1 else st1)" "ok = (res = MUT_OK)" "s' = s1"
    using assms(1) t OpMarkExpired by (auto simp: markExpired_def)
  moreover from this(1) have "sameCore st' st1" by (simp add: sameCore_def)
  ultimately show ?thesis using transition_outcome [OF t inv] OpMarkExpired opOutcome_cong by auto
next
  case (OpReclaim k)
  show ?thesis
  proof (cases "k < 8 \<and> nrState (slotRecord st k) \<in> {NS_FAILED, NS_EXPIRED}")
    case True
    obtain res st1 s1 where t: "makeFree ops k st s = (res, st1, s1)" using prod_cases3 by blast
    have "st' = (if res = MUT_STORAGE_FAILURE then persistenceFailure st1 else st1)" "ok = (res = MUT_OK)" "s' = s1"
      using assms(1) t OpReclaim True inv(2) by (auto simp: reclaim_def)
    moreover from this(1) have "sameCore st' st1" by (simp add: sameCore_def)
    ultimately show ?thesis using makeFree_outcome [OF t _ inv] OpReclaim True commitOutcome_cong
      by (auto simp: opOutcome_def)
  next
    case False
    then show ?thesis using assms(1) inv OpReclaim by (auto simp: reclaim_def opOutcome_def split: if_splits)
  qed
next
  case (OpReleaseQueued k)
  show ?thesis
  proof (cases "k < 8 \<and> nrState (slotRecord st k) = NS_QUEUED")
    case True
    obtain res st1 s1 where t: "makeFree ops k st s = (res, st1, s1)" using prod_cases3 by blast
    have "st' = (if res = MUT_OK then updateQueueSnapshot st1
        else if res = MUT_STORAGE_FAILURE then persistenceFailure st1 else st1)" "ok = (res = MUT_OK)" "s' = s1"
      using assms(1) t OpReleaseQueued True inv(2) by (auto simp: releaseQueued_def)
    moreover from this(1) have "sameCore st' st1" by (simp add: sameCore_def)
    ultimately show ?thesis using makeFree_outcome [OF t _ inv] OpReleaseQueued True commitOutcome_cong
      by (auto simp: opOutcome_def)
  next
    case False
    then show ?thesis using assms(1) inv OpReleaseQueued by (auto simp: releaseQueued_def opOutcome_def split: if_splits)
  qed
next
  case (OpCheckpointRemaining k t)
  show ?thesis
  proof (cases "k < 8 \<and> nrState (slotRecord st k) = NS_QUEUED \<and> 0 < t \<and> t < nrRemainingActiveSeconds (slotRecord st k)")
    case True
    let ?r = "(slotRecord st k)\<lparr>nrGeneration := nrGeneration (slotRecord st k) + 1, nrRemainingActiveSeconds := t\<rparr>"
    obtain o1 st1 s1 where c: "commitMutation ops k ?r st s = (o1, st1, s1)" using prod_cases3 by blast
    have "nodeRecord_wf ?r" using stored_wf [of "rcell s" st k] inv(1) True by (auto simp: storeInv_def nodeRecord_wf_def)
    then have cm: "committable st k ?r" using committable_same [OF inv(1), of k ?r] True by (simp add: recordKey_def)
    have "st' = (if o1 then st1 else persistenceFailure st1)" "ok = o1" "s' = s1"
      using assms(1) c OpCheckpointRemaining True inv(2) by (auto simp: checkpointRemaining_def split: if_splits)
    moreover from this(1) have "sameCore st' st1" by (simp add: sameCore_def)
    ultimately show ?thesis using commit_same_key(1) [OF c inv cm] OpCheckpointRemaining True commitOutcome_cong
      by (auto simp: opOutcome_def recordKey_def)
  next
    case False
    then have "\<not> k < 8 \<or> nrState (slotRecord st k) \<noteq> NS_QUEUED \<or> t = 0 \<or> t \<ge> nrRemainingActiveSeconds (slotRecord st k)"
      by (auto simp: word_gt_0 not_less)
    then show ?thesis using assms(1) inv OpCheckpointRemaining False
      by (auto simp: checkpointRemaining_def opOutcome_def split: if_splits)
  qed
next
  case (OpArmAttempt k)
  show ?thesis
  proof (cases "k < 8 \<and> nrState (slotRecord st k) = NS_QUEUED \<and> nrAttemptsUsed (slotRecord st k) < MAX_ATTEMPTS")
    case True
    let ?r = "(slotRecord st k)\<lparr>nrGeneration := nrGeneration (slotRecord st k) + 1,
      nrAttemptsUsed := nrAttemptsUsed (slotRecord st k) + 1\<rparr>"
    obtain o1 st1 s1 where c: "commitMutation ops k ?r st s = (o1, st1, s1)" using prod_cases3 by blast
    have "nodeRecord_wf ?r" using stored_wf [of "rcell s" st k] inv(1) True by (auto simp: storeInv_def nodeRecord_wf_def)
    then have cm: "committable st k ?r" using committable_same [OF inv(1), of k ?r] True by (simp add: recordKey_def)
    have "st' = (if o1 then ns_note ED_EVENT_ATTEMPT 1 st1 else persistenceFailure st1)" "ok = o1" "s' = s1"
      using assms(1) c OpArmAttempt True inv(2) by (auto simp: armAttempt_def not_le split: if_splits)
    moreover from this(1) have "sameCore st' st1" by (simp add: sameCore_def)
    ultimately show ?thesis using commit_same_key(1) [OF c inv cm] OpArmAttempt True commitOutcome_cong
      by (auto simp: opOutcome_def recordKey_def)
  next
    case False
    then show ?thesis using assms(1) inv OpArmAttempt
      by (auto simp: armAttempt_def opOutcome_def not_le split: if_splits)
  qed
qed

lemma enqueue_by_commit:
  assumes "nsHealthy st" "validInput input" "firstFreeSlot st = Some k"
    and "allocate (neMetadata ops) (nsAllocator st) s = (al, a', s1)" "arsStatus al = ID_READY"
    and "commitAndIndex ops k (enqueuedRecord (slotRecord st k) input (arsIdentity al)) (st\<lparr>nsAllocator := a'\<rparr>) s1
      = (res, st2, s2)"
  shows "\<exists>r st'. enqueue ops input st s = (r, st', s2) \<and> sameCore st' st2
    \<and> (erStatus r = ENQUEUED \<longleftrightarrow> res = MUT_OK) \<and> (res = MUT_OK \<longrightarrow> erIdentity r = arsIdentity al \<and> erSlot r = k)"
  using assms by (auto simp: enqueue_def commitAndIndex_def sameCore_def split: prod.splits if_splits)

lemma enqueue_outcome:
  assumes run: "enqueue ops input st s = (r, st', s')"
    and inv: "storeInv device (mcell s) (rcell s) st" "nsHealthy st"
  shows "\<exists>j. opOutcome device (mcell s') (rcell s) (rcell s') (intended (OpEnqueue input) st j) (erStatus r = ENQUEUED) st'
    \<and> (erStatus r = ENQUEUED \<longrightarrow> erIdentity r = j \<and> idSourceDeviceId j = device
        \<and> cursor (nsAllocator st) \<le> identityKey j)"
proof (cases "validInput input \<and> firstFreeSlot st \<noteq> None")
  case False
  then have "erStatus r \<noteq> ENQUEUED \<and> s' = s \<and> sameCore st' st"
    using run inv(2) by (auto simp: enqueue_def sameCore_def split: option.splits if_splits)
  then show ?thesis using inv False storeInv_cong [of st' st]
    by (auto simp: opOutcome_def sameCore_def)
next
  case True
  then obtain k where v: "validInput input" "firstFreeSlot st = Some k" by auto
  have k: "k < 8" "nrState (slotRecord st k) = NS_FREE"
    using find_Some_nth [OF v(2) [unfolded firstFreeSlot_def]] by auto
  have l: "live device (mcell s) (nsAllocator st)" "alReady (nsAllocator st)" using inv(1) by (auto simp: storeInv_def)
  obtain al a' s1 where a: "allocate (neMetadata ops) (nsAllocator st) s = (al, a', s1)" using prod_cases3 by blast
  note ao = meta.allocate_outcome [OF a l] and ar = allocate_rcell [OF a]
  show ?thesis
  proof (cases "arsStatus al = ID_READY")
    case False
    then obtain m slot where m: "durableMetadata (mcell s1) = Some (m, slot)" "serves device m"
      "cursor (nsAllocator st) \<le> position m" using ao by auto
    have "custody device (mcell s1) (rcell s1)"
      using inv(1) m unfolding custody_def ar
      by (auto simp: storeInv_def stored_def intro: less_le_trans)
    moreover have "erStatus r \<noteq> ENQUEUED" "\<not> nsHealthy st'" "s' = s1"
      using run inv(2) v a False by (auto simp: enqueue_def)
    ultimately show ?thesis using v ar by (auto simp: opOutcome_def commitOutcome_def)
  next
    case ready: True
    let ?i = "arsIdentity al" and ?st = "st\<lparr>nsAllocator := a'\<rparr>"
    let ?r = "enqueuedRecord (slotRecord st k) input ?i"
    have i: "alReady a'" "live device (mcell s1) a'" "idSourceDeviceId ?i = device"
      "cursor (nsAllocator st) \<le> identityKey ?i" "identityKey ?i < cursor a'" using ao ready by auto
    have keys: "\<forall>j<8. nrState (slotRecord st j) \<noteq> NS_FREE \<longrightarrow> recordKey (slotRecord st j) < identityKey ?i"
      using inv(1) i(4) by (auto simp: storeInv_def intro: less_le_trans)
    have inv1: "storeInv device (mcell s1) (rcell s1) ?st"
      using inv(1) i keys ar by (auto simp: storeInv_def stored_def indexed_def intro: less_trans)
    have "recordKey ?r = identityKey ?i" by (simp add: enqueuedRecord_def recordKey_def identityKey_def)
    moreover have "nodeRecord_wf ?r" by (simp add: enqueuedRecord_def nodeRecord_wf_def nodeRecord_init_def)
    ultimately have cm: "committable ?st k ?r"
      using k(1) i(5) keys by (auto simp: committable_def enqueuedRecord_def)
    obtain res st2 s2 where c: "commitAndIndex ops k ?r ?st s1 = (res, st2, s2)" using prod_cases3 by blast
    have h: "nsHealthy ?st" using inv(2) by simp
    obtain r0 st0 where e: "enqueue ops input st s = (r0, st0, s2)" "sameCore st0 st2"
      "erStatus r0 = ENQUEUED \<longleftrightarrow> res = MUT_OK" "res = MUT_OK \<longrightarrow> erIdentity r0 = ?i \<and> erSlot r0 = k"
      using enqueue_by_commit [OF inv(2) v a ready c] by auto
    have "commitOutcome device (mcell s2) (rcell s) (rcell s2) k ?r (res = MUT_OK) st0"
      using commitAndIndex_outcome(2) [OF c inv1 h cm] commitOutcome_cong [OF e(2)] ar by simp
    then show ?thesis using run e v i by (auto simp: opOutcome_def)
  qed
qed

text \<open>Every operation on a healthy store has the outcome its specification allows.\<close>

lemma applyOp_outcome:
  assumes "applyOp ops op st s = (ok, i, st', s')"
    and inv: "storeInv device (mcell s) (rcell s) st" "nsHealthy st"
  shows "\<exists>j. opOutcome device (mcell s') (rcell s) (rcell s') (intended op st j) ok st'"
proof (cases "\<exists>input. op = OpEnqueue input")
  case True
  then obtain input where op: "op = OpEnqueue input" by blast
  obtain r st1 s1 where e: "enqueue ops input st s = (r, st1, s1)" using prod_cases3 by blast
  then have "ok = (erStatus r = ENQUEUED)" "st' = st1" "s' = s1" using assms(1) op by auto
  then show ?thesis unfolding op using enqueue_outcome [OF e inv] by blast
next
  case False
  then show ?thesis using slot_op_outcome [OF assms(1) _ inv] by blast
qed

lemma applyOp_unhealthy:
  "applyOp ops op st s = (ok, i, st', s') \<Longrightarrow> \<not> nsHealthy st \<Longrightarrow> \<not> ok \<and> st' = st \<and> s' = s"
  by (cases op) (auto simp: enqueue_def markFailed_def markExpired_def ns_transition_def reclaim_def
      releaseQueued_def checkpointRemaining_def armAttempt_def)

end

subsection \<open>Recovery\<close>

text \<open>The slot a scan reconstructs from what is durable.\<close>

definition scanned :: "(nat \<Rightarrow> copySlot \<Rightarrow> bytes option) \<Rightarrow> nat \<Rightarrow> slotState \<Rightarrow> bool" where
  "scanned cells k x = (case durableRecord cells k of None \<Rightarrow> \<not> ssPresent x
     | Some (r, c) \<Rightarrow> x = \<lparr>ssPresent = True, ssRecord = r, ssActiveCopy = c\<rparr>)"

definition holdsEvent :: "(nat \<Rightarrow> copySlot \<Rightarrow> bytes option) \<Rightarrow> nat \<Rightarrow> bool" where
  "holdsEvent cells k = (\<exists>r c. durableRecord cells k = Some (r, c) \<and> nrState r \<noteq> NS_FREE)"

lemma upto_step: "(\<forall>k. slot \<le> k \<and> k < n \<longrightarrow> P k) \<longleftrightarrow> (slot < n \<longrightarrow> P slot) \<and> (\<forall>k. Suc slot \<le> k \<and> k < n \<longrightarrow> P k)"
  by (simp only: Suc_le_eq le_eq_less_or_eq [of slot]) auto

context node_storage
begin

lemma scan_slot:
  assumes a: "readRecordCopy ops k CopyA st s = (True, fa, st1, s1)" and b: "readRecordCopy ops k CopyB st1 s1 = (True, fb, st2, s2)"
    and sel: "selectCopies nrGeneration decodeNodeRecordForSelection fa fb nodeRecord_init CopyA = (sel, r, c)"
  shows "rcell s2 = rcell s" "mcell s2 = mcell s" "st2 = st"
    and "settled sel \<Longrightarrow> durableRecord (rcell s) k = Some (r, c)"
    and "sel = BOTH_INVALID \<Longrightarrow> durableRecord (rcell s) k = None"
    and "fcStatus fa = FRS_MISSING \<and> fcStatus fb = FRS_MISSING \<Longrightarrow> rcell s k = (\<lambda>_. None)"
proof -
  note A = readRecordCopy_outcome [OF a] and B = readRecordCopy_outcome [OF b]
  show "rcell s2 = rcell s" "mcell s2 = mcell s" "st2 = st" using A B by auto
  have rep: "represents decodeNodeRecordForSelection 56 fa (rcell s k CopyA)"
    "represents decodeNodeRecordForSelection 56 fb (rcell s k CopyB)" using A B by auto
  show "settled sel \<Longrightarrow> durableRecord (rcell s) k = Some (r, c)"
    and "sel = BOTH_INVALID \<Longrightarrow> durableRecord (rcell s) k = None"
    using selectCopies_authoritative(1) [OF rep sel] by (auto simp: durableRecord_def settled_def)
  assume "fcStatus fa = FRS_MISSING \<and> fcStatus fb = FRS_MISSING"
  then have "rcell s k CopyA = None" "rcell s k CopyB = None" using A B by auto
  then show "rcell s k = (\<lambda>_. None)" by (metis copySlot.exhaust ext)
qed

lemma recoverSlots_outcome:
  assumes "recoverSlots ops slot acm ane st s = (ok, acm', ane', st', s')" "length (nsSlots st) = 8" "slot \<le> 8"
  shows "rcell s' = rcell s \<and> mcell s' = mcell s \<and> (if ok
    then (\<exists>slots. st' = st\<lparr>nsSlots := slots\<rparr> \<and> length slots = 8 \<and> (\<forall>k < slot. slots ! k = nsSlots st ! k)
        \<and> (\<forall>k. slot \<le> k \<and> k < 8 \<longrightarrow> scanned (rcell s) k (slots ! k)))
      \<and> (acm' \<longrightarrow> acm \<and> (\<forall>k. slot \<le> k \<and> k < 8 \<longrightarrow> rcell s k = (\<lambda>_. None)))
      \<and> (\<not> ane' \<longrightarrow> \<not> ane \<and> (\<forall>k. slot \<le> k \<and> k < 8 \<longrightarrow> \<not> holdsEvent (rcell s) k))
    else outOfService st')"
  using assms
proof (induction "8 - slot" arbitrary: slot acm ane st s)
  case 0
  then have "slot = 8" "ok" "st' = st\<lparr>nsSlots := nsSlots st\<rparr>" "s' = s" "ane' = ane" "acm' = acm"
    by (simp_all add: recoverSlots.simps)
  then show ?case using 0 by force
next
  case (Suc n)
  then have slot: "slot < 8" by simp
  obtain okA fa st1 s1 where a: "readRecordCopy ops slot CopyA st s = (okA, fa, st1, s1)" using prod_cases4 by blast
  obtain okB fb st2 s2 where b: "readRecordCopy ops slot CopyB st1 s1 = (okB, fb, st2, s2)" using prod_cases4 by blast
  obtain sel r c where sel: "selectCopies nrGeneration decodeNodeRecordForSelection fa fb nodeRecord_init CopyA = (sel, r, c)"
    using prod_cases3 by blast
  define am where "am = (if fcStatus fa \<noteq> FRS_MISSING \<or> fcStatus fb \<noteq> FRS_MISSING then False else acm)"
  note run = Suc.prems(1) [unfolded recoverSlots.simps [of ops slot]]
  show ?case
  proof (cases "okA \<and> okB")
    case False
    then show ?thesis using run slot a b readRecordCopy_outcome [OF a] readRecordCopy_outcome [OF b]
      by (auto simp: outOfService_fail split: if_splits)
  next
    case ok: True
    note a' = a [unfolded conjunct1 [OF ok, THEN eqTrueI]] and b' = b [unfolded conjunct2 [OF ok, THEN eqTrueI]]
    note sc = scan_slot [OF a' b' sel]
    show ?thesis
    proof (cases "fst (acceptSelection sel st2)")
      case False
      then show ?thesis using run slot a' b' sel sc(1,2)
        by (auto simp: acceptSelection_def outOfService_fail split: if_splits)
    next
      case True
      define x where "x = (if sel = BOTH_INVALID then (nsSlots st ! slot)\<lparr>ssPresent := False\<rparr>
        else \<lparr>ssPresent = True, ssRecord = r, ssActiveCopy = c\<rparr>)"
      define ev where "ev = (sel \<noteq> BOTH_INVALID \<and> nrState r \<noteq> NS_FREE)"
      let ?st = "st\<lparr>nsSlots := (nsSlots st)[slot := x]\<rparr>"
      have acc: "acceptSelection sel st2 = (True, st2)" using True by (auto simp: acceptSelection_def split: if_splits)
      have st: "sel = BOTH_INVALID \<or> settled sel" using True by (auto simp: acceptSelection_def settled_def split: if_splits)
      have rest: "recoverSlots ops (Suc slot) am (ev \<or> ane) ?st s2 = (ok, acm', ane', st', s')"
        using run slot a' b' sel acc sc(3) unfolding x_def ev_def am_def by (cases "sel = BOTH_INVALID") simp_all
      have x: "scanned (rcell s) slot x" "holdsEvent (rcell s) slot \<Longrightarrow> ev"
        using sc(4,5) st by (auto simp: scanned_def holdsEvent_def x_def ev_def settled_def)
      have IH: "rcell s' = rcell s2 \<and> mcell s' = mcell s2 \<and> (if ok
        then (\<exists>slots. st' = ?st\<lparr>nsSlots := slots\<rparr> \<and> length slots = 8 \<and> (\<forall>k < Suc slot. slots ! k = nsSlots ?st ! k)
            \<and> (\<forall>k. Suc slot \<le> k \<and> k < 8 \<longrightarrow> scanned (rcell s2) k (slots ! k)))
          \<and> (acm' \<longrightarrow> am \<and> (\<forall>k. Suc slot \<le> k \<and> k < 8 \<longrightarrow> rcell s2 k = (\<lambda>_. None)))
          \<and> (\<not> ane' \<longrightarrow> \<not> (ev \<or> ane) \<and> (\<forall>k. Suc slot \<le> k \<and> k < 8 \<longrightarrow> \<not> holdsEvent (rcell s2) k))
        else outOfService st')"
        by (rule Suc.hyps(1) [OF _ rest]) (use Suc.hyps(2) Suc.prems(2) slot in simp_all)
      show ?thesis
      proof (cases ok)
        case False
        then show ?thesis using IH sc(1,2) by simp
      next
        case True
        then obtain slots where sl: "st' = st\<lparr>nsSlots := slots\<rparr>" "length slots = 8"
          "\<forall>k < Suc slot. slots ! k = (nsSlots st)[slot := x] ! k"
          "\<forall>k. Suc slot \<le> k \<and> k < 8 \<longrightarrow> scanned (rcell s) k (slots ! k)" using IH sc(1) by auto
        have "slots ! slot = x" "\<forall>k < slot. slots ! k = nsSlots st ! k" using sl(3) Suc.prems(2) slot by auto
        then have "\<exists>slots. st' = st\<lparr>nsSlots := slots\<rparr> \<and> length slots = 8 \<and> (\<forall>k < slot. slots ! k = nsSlots st ! k)
            \<and> (\<forall>k. slot \<le> k \<and> k < 8 \<longrightarrow> scanned (rcell s) k (slots ! k))"
          using sl x(1) by (intro exI [of _ slots]) (simp add: upto_step [of slot])
        moreover have "am \<Longrightarrow> rcell s slot = (\<lambda>_. None)" "am \<Longrightarrow> acm" using sc(6) by (auto simp: am_def split: if_splits)
        moreover have "acm' \<Longrightarrow> am \<and> (\<forall>k. Suc slot \<le> k \<and> k < 8 \<longrightarrow> rcell s k = (\<lambda>_. None))"
          "\<not> ane' \<Longrightarrow> \<not> (ev \<or> ane) \<and> (\<forall>k. Suc slot \<le> k \<and> k < 8 \<longrightarrow> \<not> holdsEvent (rcell s) k)"
          using IH True sc(1) by simp_all
        ultimately show ?thesis using conjunct1 [OF IH] conjunct1 [OF conjunct2 [OF IH]] sc(1,2) x(2) True
          unfolding upto_step [of slot] by (simp only: if_True) blast
      qed
    qed
  qed
qed

lemma commitInitialFree_outcome:
  assumes run: "commitInitialFree ops k (freeRecord g) st s = (ok, st', s')" and none: "rcell s k = (\<lambda>_. None)"
  shows "mcell s' = mcell s \<and> (\<forall>j. j \<noteq> k \<longrightarrow> rcell s' j = rcell s j) \<and> \<not> holdsEvent (rcell s') k
    \<and> (if ok then st' = st\<lparr>nsSlots := (nsSlots st)[k := \<lparr>ssPresent = True, ssRecord = freeRecord g, ssActiveCopy = CopyA\<rparr>]\<rparr>
         \<and> durableRecord (rcell s') k = Some (freeRecord g, CopyA)
       else outOfService st')"
proof -
  obtain er out where enc: "encodeNodeRecord (freeRecord g) (Some (fillZero 56)) = (er, out)" by fastforce
  show ?thesis
  proof (cases "er = CR_OK")
    case False
    then show ?thesis using run enc none
      by (auto simp: commitInitialFree_def holdsEvent_def durableRecord_def authoritative_def outOfService_fail)
  next
    case True
    then obtain bs where bs: "out = Some bs" "nodeRecordImage (freeRecord g) = Some bs"
      using encodeNodeRecord_OK_Some [of "freeRecord g" "fillZero 56" out] nodeRecordImage_encode [OF enc] enc by auto
    have "nodeRecord_wf (freeRecord g)" by (simp add: freeRecord_def nodeRecord_init_def nodeRecord_wf_def)
    from nodeRecordImage_decode [OF bs(2) this]
    have dec: "decodeNodeRecordForSelection bs = Some (freeRecord g)" "length bs = 56"
      by (auto simp: decodeNodeRecordForSelection_def)
    obtain okw st1 s1 where w: "writeVerify ops k CopyA bs st s = (okw, st1, s1)" using prod_cases3 by blast
    note W = writeVerify_outcome [OF w dec(2)]
    have s': "s' = s1" "ok = okw" using run enc True bs(1) w by (auto simp: commitInitialFree_def split: if_splits)
    note step = conjunct1 [OF W]
    have n: "Option.bind (rcell s k CopyA) decodeNodeRecordForSelection = None"
      "Option.bind (rcell s k CopyB) decodeNodeRecordForSelection = None" by (simp_all add: none)
    have d: "durableRecord (rcell s1) k = None \<or> durableRecord (rcell s1) k = Some (freeRecord g, CopyA)"
      and d1: "okw \<Longrightarrow> durableRecord (rcell s1) k = Some (freeRecord g, CopyA)"
      using cellStep_first [OF step n dec(1), of nrGeneration] W by (auto simp: durableRecord_def authoritative_def)
    have "\<not> holdsEvent (rcell s1) k" using d by (auto simp: holdsEvent_def freeRecord_def)
    then show ?thesis using run enc True bs(1) w W s' d1 cellStep_frame [OF step]
      by (auto simp: commitInitialFree_def outOfService_fail split: if_splits)
  qed
qed

lemma initializeSlots_outcome:
  assumes "initializeSlots ops slot st s = (ok, st', s')" "length (nsSlots st) = 8" "slot \<le> 8"
    and "\<forall>k. slot \<le> k \<and> k < 8 \<longrightarrow> rcell s k = (\<lambda>_. None)"
  shows "mcell s' = mcell s \<and> (\<forall>k < slot. rcell s' k = rcell s k)
    \<and> (\<forall>k. slot \<le> k \<and> k < 8 \<longrightarrow> \<not> holdsEvent (rcell s') k)
    \<and> (if ok then \<exists>slots. st' = st\<lparr>nsSlots := slots\<rparr> \<and> length slots = 8 \<and> (\<forall>k < slot. slots ! k = nsSlots st ! k)
         \<and> (\<forall>k. slot \<le> k \<and> k < 8 \<longrightarrow> scanned (rcell s') k (slots ! k) \<and> ssPresent (slots ! k))
       else outOfService st')"
  using assms
proof (induction "8 - slot" arbitrary: slot st s)
  case 0
  then have "slot = 8" "ok" "st' = st\<lparr>nsSlots := nsSlots st\<rparr>" "s' = s" by (simp_all add: initializeSlots.simps)
  then show ?case using 0 by force
next
  case (Suc n)
  then have slot: "slot < 8" by simp
  obtain o1 st1 s1 where c: "commitInitialFree ops slot (freeRecord 1) st s = (o1, st1, s1)" using prod_cases3 by blast
  note C = commitInitialFree_outcome [OF c]
  have none: "rcell s slot = (\<lambda>_. None)" "\<forall>k. Suc slot \<le> k \<and> k < 8 \<longrightarrow> rcell s k = (\<lambda>_. None)"
    using Suc.prems(4) slot by auto
  show ?case
  proof (cases o1)
    case False
    then have "\<not> ok" "st' = st1" "s' = s1" using Suc.prems(1) slot c by (simp_all add: initializeSlots.simps)
    moreover have "\<not> holdsEvent (rcell s1) k" if "slot \<le> k" "k < 8" for k
      using C none that by (cases "k = slot") (auto simp: holdsEvent_def durableRecord_def authoritative_def)
    ultimately show ?thesis using C none(1) False by auto
  next
    case True
    let ?x = "\<lparr>ssPresent = True, ssRecord = freeRecord 1, ssActiveCopy = CopyA\<rparr>"
    have rest: "initializeSlots ops (Suc slot) st1 s1 = (ok, st', s')"
      using Suc.prems(1) slot c True by (simp add: initializeSlots.simps [of ops slot])
    have c1: "st1 = st\<lparr>nsSlots := (nsSlots st)[slot := ?x]\<rparr>" "durableRecord (rcell s1) slot = Some (freeRecord 1, CopyA)"
      "mcell s1 = mcell s" "\<forall>j. j \<noteq> slot \<longrightarrow> rcell s1 j = rcell s j" "\<not> holdsEvent (rcell s1) slot"
      using C none(1) True by auto
    have IH: "mcell s' = mcell s1 \<and> (\<forall>k < Suc slot. rcell s' k = rcell s1 k)
      \<and> (\<forall>k. Suc slot \<le> k \<and> k < 8 \<longrightarrow> \<not> holdsEvent (rcell s') k)
      \<and> (if ok then \<exists>slots. st' = st1\<lparr>nsSlots := slots\<rparr> \<and> length slots = 8 \<and> (\<forall>k < Suc slot. slots ! k = nsSlots st1 ! k)
           \<and> (\<forall>k. Suc slot \<le> k \<and> k < 8 \<longrightarrow> scanned (rcell s') k (slots ! k) \<and> ssPresent (slots ! k))
         else outOfService st')"
      by (rule Suc.hyps(1) [OF _ rest]) (use Suc.hyps(2) Suc.prems(2) slot none c1 in simp_all)
    have at: "rcell s' slot = rcell s1 slot" using IH by blast
    then have h: "\<not> holdsEvent (rcell s') slot" and sc: "scanned (rcell s') slot ?x"
      using c1(2,5) by (simp_all add: holdsEvent_def scanned_def durableRecord_def)
    have lower: "\<forall>k < slot. rcell s' k = rcell s k" using IH c1(4) by auto
    have "ok \<Longrightarrow> \<exists>slots. st' = st\<lparr>nsSlots := slots\<rparr> \<and> length slots = 8 \<and> (\<forall>k < slot. slots ! k = nsSlots st ! k)
         \<and> (\<forall>k. slot \<le> k \<and> k < 8 \<longrightarrow> scanned (rcell s') k (slots ! k) \<and> ssPresent (slots ! k))"
    proof -
      assume ok
      then obtain slots where sl: "st' = st1\<lparr>nsSlots := slots\<rparr>" "length slots = 8"
        "\<forall>k < Suc slot. slots ! k = nsSlots st1 ! k"
        "\<forall>k. Suc slot \<le> k \<and> k < 8 \<longrightarrow> scanned (rcell s') k (slots ! k) \<and> ssPresent (slots ! k)" using IH by auto
      have "slots ! slot = ?x" "\<forall>k < slot. slots ! k = nsSlots st ! k" using sl(3) c1(1) Suc.prems(2) slot by auto
      then show ?thesis using sl sc c1(1) unfolding upto_step [of slot] by (intro exI [of _ slots]) simp
    qed
    then show ?thesis using IH c1(3) lower h unfolding upto_step [of slot] by auto
  qed
qed

lemma custody_vacuous: "\<forall>k<8. \<not> holdsEvent r k \<Longrightarrow> custody d m r"
  by (auto simp: custody_def holdsEvent_def)

lemma custody_served: "custody d m r \<Longrightarrow> k < 8 \<Longrightarrow> holdsEvent r k \<Longrightarrow> served d m"
  by (fastforce simp: custody_def holdsEvent_def served_def)

lemma rebuildIndex_out:
  assumes "rebuildIndex st = (u, st')" "\<not> u" "length (nsQueue st) = 8" shows "outOfService st'"
proof -
  have "\<exists>x. st' = ns_fail NST_DUPLICATE_IDENTITY x"
    using rebuildIndex_spec [OF assms(1,3)] assms(2) by auto
  then show ?thesis by (auto simp: outOfService_fail)
qed

text \<open>The last part of a recovery: the identity allocator and the index, over slots that mirror the
  durable records.\<close>

lemma finish_recovery:
  assumes al: "al_recover (neMetadata ops) entropy device cu s = ((ist, al), s')"
    and cust: "custody device (mcell s) (rcell s)"
    and slots: "length (nsSlots st) = 8" "\<forall>k<8. scanned (rcell s) k (nsSlots st ! k) \<and> ssPresent (nsSlots st ! k)"
    and queue: "length (nsQueue st) = 8"
  shows "rcell s' = rcell s" "custody device (mcell s') (rcell s')"
    and "ist = ID_READY \<Longrightarrow> rebuildIndex (st\<lparr>nsAllocator := al\<rparr>) = (True, st') \<Longrightarrow>
      storeInv device (mcell s') (rcell s') st'"
proof -
  show r: "rcell s' = rcell s" by (rule al_recover_rcell [OF al])
  note out = meta.recover_outcome [OF al]
  show c: "custody device (mcell s') (rcell s')"
  proof (cases "\<exists>k<8. holdsEvent (rcell s) k")
    case True
    then have "mcell s' = mcell s" using custody_served [OF cust] out by auto
    then show ?thesis using cust r by simp
  next
    case False
    then show ?thesis using r custody_vacuous by auto
  qed
  assume ist: "ist = ID_READY" and ri: "rebuildIndex (st\<lparr>nsAllocator := al\<rparr>) = (True, st')"
  then have l: "alReady al" "live device (mcell s') al" using out by auto
  have ix: "indexed st'" "st' = (st\<lparr>nsAllocator := al\<rparr>)\<lparr>nsQueue := nsQueue st', nsQueueCount := nsQueueCount st'\<rparr>"
    using rebuildIndex_spec [OF ri] queue by auto
  have eq: "nsSlots st' = nsSlots st" "nsAllocator st' = al"
    using arg_cong [OF ix(2), of nsSlots] arg_cong [OF ix(2), of nsAllocator] by simp_all
  have d: "durableRecord (rcell s) k = Some (slotRecord st k, ssActiveCopy (nsSlots st ! k))" if "k < 8" for k
    using slots(2) that by (auto simp: scanned_def split: option.splits)
  then have "stored (rcell s') st'" using slots r eq by (simp add: stored_def)
  moreover have "recordKey (slotRecord st k) < cursor al" if k: "k < 8" "nrState (slotRecord st k) \<noteq> NS_FREE" for k
  proof -
    have h: "holdsEvent (rcell s) k" using d [OF k(1)] k(2) by (auto simp: holdsEvent_def)
    then have "alNextVolatileId al = alVolatileEndExclusive al" using custody_served [OF cust k(1)] out l(1) by auto
    then have "cursor al = position (alMetadata al)" using l(2) by (simp add: live_def cursor_def position_def)
    moreover have "recordKey (slotRecord st k) < position (alMetadata al)"
      using c d [OF k(1)] k l(2) r by (fastforce simp: custody_def live_def)
    ultimately show ?thesis by simp
  qed
  ultimately show "storeInv device (mcell s') (rcell s') st'" using l ix(1) eq by (simp add: storeInv_def)
qed

lemma recover_store_outcome:
  assumes run: "ns_recover ops entropy device st s = (res, st', s')"
    and cust: "custody device (mcell s) (rcell s)"
  shows "custody device (mcell s') (rcell s') \<and> (res = NST_READY \<longleftrightarrow> nsHealthy st')
    \<and> (nsHealthy st' \<longrightarrow> storeInv device (mcell s') (rcell s') st')
    \<and> ((\<exists>k<8. rcell s k \<noteq> (\<lambda>_. None)) \<longrightarrow> rcell s' = rcell s)"
proof -
  define st0 where "st0 = (ns_reset st)\<lparr>nsSourceDeviceId := device\<rparr>"
  have st0: "length (nsSlots st0) = 8" "length (nsQueue st0) = 8" "\<not> nsHealthy st0"
    by (simp_all add: st0_def ns_reset_def)
  note run = run [unfolded ns_recover_def Let_def st0_def [symmetric]]
  obtain ok acm ane st1 s1 where scan: "recoverSlots ops 0 True False st0 s = (ok, acm, ane, st1, s1)"
    using prod_cases5 by blast
  note S = recoverSlots_outcome [OF scan st0(1)]
  have c1: "rcell s1 = rcell s" "mcell s1 = mcell s" using S by auto
  show ?thesis
  proof (cases "device \<noteq> 0 \<and> ok")
    case False
    then have "outOfService st' \<and> res = nsStatus st' \<and> s' \<in> {s, s1}"
      using run scan S by (cases "device = 0") (auto simp: ns_fail_def outOfService_def)
    then show ?thesis using cust c1 by (auto simp: outOfService_def)
  next
    case True
    then obtain slots where sl: "st1 = st0\<lparr>nsSlots := slots\<rparr>" "length slots = 8"
      "\<forall>k<8. scanned (rcell s) k (slots ! k)" "acm \<Longrightarrow> \<forall>k<8. rcell s k = (\<lambda>_. None)" using S by auto
    obtain ok2 st2 s2 where prep: "(if acm then initializeSlots ops 0 st1 s1
        else if list_all ssPresent (nsSlots st1) then (True, st1, s1)
        else (False, ns_fail NST_INDETERMINATE_SLOT st1, s1)) = (ok2, st2, s2)" using prod_cases3 by blast
    have P: "mcell s2 = mcell s" "custody device (mcell s2) (rcell s2)" "(\<exists>k<8. rcell s k \<noteq> (\<lambda>_. None)) \<longrightarrow> rcell s2 = rcell s"
      "if ok2 then \<exists>slots. st2 = st0\<lparr>nsSlots := slots\<rparr> \<and> length slots = 8
          \<and> (\<forall>k<8. scanned (rcell s2) k (slots ! k) \<and> ssPresent (slots ! k)) else outOfService st2"
    proof -
      have "mcell s2 = mcell s \<and> custody device (mcell s2) (rcell s2) \<and> ((\<exists>k<8. rcell s k \<noteq> (\<lambda>_. None)) \<longrightarrow> rcell s2 = rcell s)
        \<and> (if ok2 then \<exists>slots. st2 = st0\<lparr>nsSlots := slots\<rparr> \<and> length slots = 8
          \<and> (\<forall>k<8. scanned (rcell s2) k (slots ! k) \<and> ssPresent (slots ! k)) else outOfService st2)"
      proof (cases acm)
        case True
        have "initializeSlots ops 0 st1 s1 = (ok2, st2, s2)" using prep True by simp
        from initializeSlots_outcome [OF this] sl True c1
        show ?thesis using custody_vacuous [of "rcell s2"] by auto
      next
        case False
        then show ?thesis using prep cust c1 sl
          by (auto simp: list_all_length outOfService_fail split: if_splits)
      qed
      then show "mcell s2 = mcell s" "custody device (mcell s2) (rcell s2)"
        "(\<exists>k<8. rcell s k \<noteq> (\<lambda>_. None)) \<longrightarrow> rcell s2 = rcell s"
        "if ok2 then \<exists>slots. st2 = st0\<lparr>nsSlots := slots\<rparr> \<and> length slots = 8
          \<and> (\<forall>k<8. scanned (rcell s2) k (slots ! k) \<and> ssPresent (slots ! k)) else outOfService st2" by blast+
    qed
    note run2 = run [simplified scan prod.case prep True, simplified True, simplified]
    show ?thesis
    proof (cases ok2)
      case False
      then have "st' = st2" "s' = s2" "res = nsStatus st2" using run2 by auto
      then show ?thesis using P False by (auto simp: outOfService_def)
    next
      case ok2: True
      obtain ist al s3 where al: "al_recover (neMetadata ops) entropy device
          (if ane then CUSTODY_NONEMPTY else CUSTODY_EMPTY) s2 = ((ist, al), s3)" using prod.exhaust by metis
      obtain u st4 where u: "rebuildIndex (st2\<lparr>nsAllocator := al\<rparr>) = (u, st4)" by fastforce
      have st2: "length (nsSlots st2) = 8" "\<forall>k<8. scanned (rcell s2) k (nsSlots st2 ! k) \<and> ssPresent (nsSlots st2 ! k)"
        "length (nsQueue st2) = 8" using P(4) ok2 st0 by auto
      note F = finish_recovery [OF al P(2) st2]
      have s': "s' = s3" using run2 ok2 al u by (auto split: if_splits)
      show ?thesis
      proof (cases "ist = ID_READY \<and> u")
        case False
        then have "outOfService st' \<and> res \<noteq> NST_READY"
          using run2 ok2 al u rebuildIndex_out [OF u]  st2(3)
          by (auto simp: outOfService_def ns_fail_def split: if_splits)
        then show ?thesis using F s' P by (auto simp: outOfService_def)
      next
        case True
        then have "res = NST_READY" "st' = updateQueueSnapshot (ns_note ED_EVENT_RECOVERED (of_nat (nsQueueCount st4))
              (st4\<lparr>nsHealthy := True, nsStatus := NST_READY\<rparr>))" using run2 ok2 al u by auto
        moreover have "storeInv device (mcell s3) (rcell s3) st4" using F(3) True u by auto
        ultimately show ?thesis using F s' P storeInv_cong [of st' st4] by simp
      qed
    qed
  qed
qed

end

end
