(* ===== verification/NodeEventRuns.thy ===== *)
theory NodeEventRuns
  imports NodeEventCustody
begin

text \<open>
  Lives of the Node Event store: any sequence of recoveries and operations from a medium without Event
  records, over any storage that keeps the contract, and what holds throughout; then progress on a
  medium that works.
\<close>

subsection \<open>Runs\<close>

text \<open>A run starts with a store that has not recovered and a medium without records.  A recovery
  discards the memory, so it also stands for what follows a power cut; \<open>elsewhere\<close> is activity of other
  components that leaves the cells alone.\<close>

inductive nodeRun :: "'s nodeStorage \<Rightarrow> 's entropySource \<Rightarrow> ('s \<Rightarrow> unit \<Rightarrow> copySlot \<Rightarrow> bytes option) \<Rightarrow>
    ('s \<Rightarrow> nat \<Rightarrow> copySlot \<Rightarrow> bytes option) \<Rightarrow> u8 \<Rightarrow> store \<Rightarrow> 's \<Rightarrow> bool"
  for ops entropy mcell rcell device where
  start: "\<not> nsHealthy st \<Longrightarrow> rcell s = (\<lambda>_ _. None) \<Longrightarrow> nodeRun ops entropy mcell rcell device st s"
| recovery: "nodeRun ops entropy mcell rcell device st s \<Longrightarrow> ns_recover ops entropy device st s = (res, st', s') \<Longrightarrow>
    nodeRun ops entropy mcell rcell device st' s'"
| operation: "nodeRun ops entropy mcell rcell device st s \<Longrightarrow> applyOp ops op st s = (ok, i, st', s') \<Longrightarrow>
    nodeRun ops entropy mcell rcell device st' s'"
| elsewhere: "nodeRun ops entropy mcell rcell device st s \<Longrightarrow> mcell s' = mcell s \<Longrightarrow> rcell s' = rcell s \<Longrightarrow>
    nodeRun ops entropy mcell rcell device st s'"

context node_storage
begin

lemma opOutcome_inv:
  "opOutcome device m r r' t ok st' \<Longrightarrow> custody device m r' \<and> (nsHealthy st' \<longrightarrow> storeInv device m r' st')"
  using storeInv_custody by (auto simp: opOutcome_def commitOutcome_def split: option.splits if_splits)

lemma nodeRun_inv:
  "nodeRun ops entropy mcell rcell device st s \<Longrightarrow>
   custody device (mcell s) (rcell s) \<and> (nsHealthy st \<longrightarrow> storeInv device (mcell s) (rcell s) st)"
proof (induction rule: nodeRun.induct)
  case (start st s)
  then show ?case by (auto simp: custody_def durableRecord_def authoritative_def)
next
  case (recovery st s res st' s')
  then show ?case using recover_store_outcome [OF recovery.hyps(2)] by blast
next
  case (operation st s op ok i st' s')
  show ?case
  proof (cases "nsHealthy st")
    case True
    then have inv: "storeInv device (mcell s) (rcell s) st" using operation.IH by blast
    obtain j where "opOutcome device (mcell s') (rcell s) (rcell s') (intended op st j) ok st'"
      using applyOp_outcome [OF operation.hyps(2) inv True] by blast
    then show ?thesis by (rule opOutcome_inv)
  next
    case False
    then show ?thesis using applyOp_unhealthy [OF operation.hyps(2)] operation.IH by auto
  qed
qed auto

end

lemma storeInv_recordAt:
  "storeInv device m r st \<Longrightarrow> k < 8 \<Longrightarrow> recordAt k st = Some (slotRecord st k) \<and> durableView r k = Some (slotRecord st k)"
  by (auto simp: storeInv_def stored_def recordAt_def durableView_def)

subsection \<open>A medium in memory for both kinds of records\<close>

type_synonym nodeRam = "unit ram \<times> nat ram"

definition ramNode :: "nodeRam nodeStorage" where
  "ramNode = \<lparr>neMetadata = \<lparr>
       msRead = (\<lambda>c buf s. case ramRead () c buf (fst s) of (r, b, n, m) \<Rightarrow> (r, b, n, (m, snd s))),
       msWrite = (\<lambda>c bs s. case ramWrite () c bs (fst s) of (r, m) \<Rightarrow> (r, (m, snd s))),
       msCommit = (\<lambda>s. (SR_OK, s))\<rparr>,
     neRead = (\<lambda>k c buf s. case ramRead k c buf (snd s) of (r, b, n, m) \<Rightarrow> (r, b, n, (fst s, m))),
     neWrite = (\<lambda>k c bs s. case ramWrite k c bs (snd s) of (r, m) \<Rightarrow> (r, (fst s, m)))\<rparr>"

subsection \<open>Progress on a working medium\<close>

locale working_node_storage = node_storage ops mcell entropy rcell
  + working_identity_store "neMetadata ops" mcell entropy
  for ops :: "'s nodeStorage" and mcell entropy rcell +
  assumes ne_available: "fst (neRead ops k c buf s) \<noteq> SR_UNAVAILABLE"
    and ne_effective: "k < 8 \<Longrightarrow> length bs = 56 \<Longrightarrow> neWrite ops k c bs s = (w, s') \<Longrightarrow> w = SR_OK \<and> rcell s' k c = Some bs"
begin

lemma readRecordCopy_works: "\<exists>f s'. readRecordCopy ops k c st s = (True, f, st, s')"
  using ne_available [of k c "fillZero 56" s] by (auto simp: readRecordCopy_def split: prod.splits)

lemma writeVerify_works:
  assumes "k < 8" "nodeRecordImage rec = Some bs" "nodeRecord_wf rec"
  shows "\<exists>s'. writeVerify ops k c bs st s = (True, st, s')"
proof -
  have dec: "decodeNodeRecord (Some bs) = Inr rec" "length bs = 56" using nodeRecordImage_decode assms by auto
  obtain w s1 where w: "neWrite ops k c bs s = (w, s1)" by fastforce
  obtain cr s2 where c: "msCommit (neMetadata ops) s1 = (cr, s2)" by fastforce
  obtain r buf n s3 where r: "neRead ops k c (fillZero 56) s2 = (r, buf, n, s3)" using prod_cases4 by blast
  have "w = SR_OK" "cr = SR_OK" "rcell s2 k c = Some bs"
    using ne_effective [OF assms(1) dec(2) w] cm_effective [of s1] rec.cm_frame [OF c] c by auto
  moreover from this have "r = SR_OK" "n = 56" "buf = bs"
    using rec.rd_cell [OF r] ne_available [of k c "fillZero 56" s2] r by (auto split: if_splits)
  moreover have "bytesEqual (Some bs) (Some bs) 56" using dec(2) by (simp add: bytesEqual_def sameBytes_length)
  ultimately show ?thesis using w c r dec by (simp add: writeVerify_def)
qed

lemma commitMutation_works:
  assumes "k < 8" "nodeRecordImage rec = Some bs" "nodeRecord_wf rec"
    and old: "durableRecord (rcell s) k = Some (old, ssActiveCopy (nsSlots st ! k))"
    and gen: "nrGeneration rec = nrGeneration old + 1"
  shows "\<exists>st' s'. commitMutation ops k rec st s = (True, st', s')"
proof -
  let ?act = "ssActiveCopy (nsSlots st ! k)"
  have dec: "decodeNodeRecordForSelection bs = Some rec" "length bs = 56"
    using nodeRecordImage_decode [OF assms(2,3)] by (auto simp: decodeNodeRecordForSelection_def)
  have enc: "encodeNodeRecord rec (Some (fillZero 56)) = (CR_OK, Some bs)"
    using assms(2) by (simp add: nodeRecordImage_def image_Some)
  obtain s1 where w: "writeVerify ops k (opposite ?act) bs st s = (True, st, s1)"
    using writeVerify_works [OF assms(1-3)] by blast
  obtain f1 s2 where r1: "readRecordCopy ops k ?act st s1 = (True, f1, st, s2)" using readRecordCopy_works by blast
  obtain f2 s3 where r2: "readRecordCopy ops k (opposite ?act) st s2 = (True, f2, st, s3)" using readRecordCopy_works by blast
  note W = writeVerify_outcome [OF w dec(2)] and R1 = readRecordCopy_outcome [OF r1] and R2 = readRecordCopy_outcome [OF r2]
  have dur: "authoritative nrGeneration decodeNodeRecordForSelection (rcell s1 k) = Some (rec, opposite ?act)"
    using cellStep_next(2) [OF conjunct1 [OF W] old [unfolded durableRecord_def] dec(1) gen] W by simp
  obtain sel m slot where sl: "selectCopies nrGeneration decodeNodeRecordForSelection
      (if ?act = CopyA then f1 else f2) (if ?act = CopyA then f2 else f1) nodeRecord_init CopyA = (sel, m, slot)"
    using prod_cases3 by blast
  have "represents decodeNodeRecordForSelection 56 (if ?act = CopyA then f1 else f2) (rcell s1 k CopyA)"
    "represents decodeNodeRecordForSelection 56 (if ?act = CopyA then f2 else f1) (rcell s1 k CopyB)"
    using R1 R2 by (cases ?act; simp)+
  from selectCopies_authoritative(1) [OF this sl] have "settled sel" "m = rec" "slot = opposite ?act"
    using dur by (auto split: if_splits)
  moreover from this(1) have "acceptSelection sel st = (True, st)" by (simp add: acceptSelection_def settled_def)
  ultimately show ?thesis using enc w r1 r2 sl by (simp add: commitMutation_def)
qed

lemma commitAndIndex_works:
  assumes inv: "storeInv device (mcell s) (rcell s) st" and cm: "committable st k rec"
    and img: "nodeRecordImage rec = Some bs"
  shows "\<exists>st' s'. commitAndIndex ops k rec st s = (MUT_OK, st', s')"
proof -
  have k: "k < 8" "nodeRecord_wf rec" "nrGeneration rec = nrGeneration (slotRecord st k) + 1"
    using cm by (auto simp: committable_def)
  have "durableRecord (rcell s) k = Some (slotRecord st k, ssActiveCopy (nsSlots st ! k))"
    using inv k by (auto simp: storeInv_def stored_def)
  then obtain st1 s1 where c: "commitMutation ops k rec st s = (True, st1, s1)"
    using commitMutation_works [OF k(1) img k(2) _ k(3)] by blast
  obtain x where x: "st1 = st\<lparr>nsSlots := x\<rparr>" using commitMutation_inv(2) [OF c inv cm] by auto
  have c1: "uniqueIdentities (nsSlots st1)" "nsQueue st1 = nsQueue st"
    using commitMutation_inv(2) [OF c inv cm] by (auto simp: x)
  obtain u st2 where u: "rebuildIndex st1 = (u, st2)" by fastforce
  have "length (nsQueue st1) = 8" using inv c1(2) by (simp add: storeInv_def indexed_def)
  then have "u" using rebuildIndex_spec [OF u] c1(1) by (auto split: if_splits)
  then show ?thesis using c u by (simp add: commitAndIndex_def)
qed

end

lemma enqueuedRecord_valid:
  assumes "validInput input" "length (eiBody input) = 12" "idEpoch i \<noteq> 0" "idId i \<noteq> 0"
  shows "validateNodeRecord (enqueuedRecord old input i) = CR_OK"
proof -
  let ?n = "unat (eiBodyLength input)"
  have n: "?n \<le> 12" and fam: "isRegisteredFamily (eiFamily input)"
    "isValidFamilyBody (eiFamily input) (Some (eiBody input)) (eiBodyLength input)"
    and rest: "eiFlags input AND NOT ALLOWED_FLAGS = 0" "eiLifetimeBudgetSeconds input \<ge> MIN_LIFETIME_SECONDS"
      "eiLifetimeBudgetSeconds input \<le> MAX_LIFETIME_SECONDS" "\<forall>j. ?n \<le> j \<and> j < 12 \<longrightarrow> eiBody input ! j = 0"
    using assms(1) by (auto simp: validInput_def list_all_iff)
  let ?b = "copyBytes (fillZero 12) 0 (eiBody input) ?n"
  have b: "?b = eiBody input"
    using n rest(4) assms(2) by (intro nth_equalityI) (auto simp: buffer_simps)
  have tail: "allZero (drop ?n ?b) (12 - ?n)"
    using rest(4) assms(2) n by (simp add: b allZero_nth)
  show ?thesis using assms(3,4) fam rest(1-3) n tail b
    by (simp add: validateNodeRecord_def enqueuedRecord_def validNodeState_def validCanonicalEvent_def)
qed

lemma image_of_valid: "validateNodeRecord rec = CR_OK \<Longrightarrow> \<exists>bs. nodeRecordImage rec = Some bs"
  by (simp add: nodeRecordImage_def image_def encodeNodeRecord_def)

lemma freeRecord_valid: "validateNodeRecord (freeRecord g) = CR_OK"
  by (simp add: freeRecord_def nodeRecord_init_def validateNodeRecord_def validNodeState_def canonicalFree_def allZero_nth)

context working_node_storage
begin

lemma enqueue_works:
  assumes inv: "storeInv device (mcell s) (rcell s) st" "nsHealthy st"
    and v: "validInput input" "length (eiBody input) = 12" "firstFreeSlot st = Some k"
    and ne: "nmEventEpoch (alMetadata (nsAllocator st)) \<noteq> 0xFFFFFFFF"
  shows "\<exists>i st' s'. enqueue ops input st s = (\<lparr>erStatus = ENQUEUED, erIdentity = i, erSlot = k\<rparr>, st', s')"
proof -
  have l: "live device (mcell s) (nsAllocator st)" "alReady (nsAllocator st)" using inv(1) by (auto simp: storeInv_def)
  obtain i a' s1 where a: "allocate (neMetadata ops) (nsAllocator st) s
      = (\<lparr>arsStatus = ID_READY, arsIdentity = i\<rparr>, a', s1)" using allocate_works [OF l] ne by auto
  note ao = meta.allocate_outcome [OF a l] and ar = allocate_rcell [OF a]
  have i: "alReady a'" "live device (mcell s1) a'" "idId i \<noteq> 0" "cursor (nsAllocator st) \<le> identityKey i"
    "identityKey i < cursor a'" using ao by auto
  have "idEpoch i = nmEventEpoch (alMetadata a')"
    using a l(2) by (auto simp: allocate_def split: prod.splits if_splits)
  moreover have "Option.bind (mcell s1 () (alActiveSlot a')) decodeNodeMetadataForSelection = Some (alMetadata a')"
    using i(2) authoritative_cell by (auto simp: live_def durableMetadata_def)
  ultimately have ep: "idEpoch i \<noteq> 0" using decodeNodeMetadata_nonzero by (auto simp: Option.bind_eq_Some_conv)
  let ?st = "st\<lparr>nsAllocator := a'\<rparr>" and ?r = "enqueuedRecord (slotRecord st k) input i"
  have k: "k < 8" using find_Some_nth [OF v(3) [unfolded firstFreeSlot_def]] by auto
  have keys: "\<forall>j<8. nrState (slotRecord st j) \<noteq> NS_FREE \<longrightarrow> recordKey (slotRecord st j) < identityKey i"
    using inv(1) i(4) by (auto simp: storeInv_def intro: less_le_trans)
  have inv1: "storeInv device (mcell s1) (rcell s1) ?st"
    using inv(1) i keys ar by (auto simp: storeInv_def stored_def indexed_def intro: less_trans)
  have "recordKey ?r = identityKey i" by (simp add: enqueuedRecord_def recordKey_def identityKey_def)
  moreover have "nodeRecord_wf ?r" by (simp add: enqueuedRecord_def nodeRecord_wf_def nodeRecord_init_def)
  ultimately have cm: "committable ?st k ?r" using k i(5) keys by (auto simp: committable_def enqueuedRecord_def)
  obtain bs where "nodeRecordImage ?r = Some bs"
    using image_of_valid enqueuedRecord_valid [OF v(1,2) ep i(3)] by blast
  then obtain st2 s2 where c: "commitAndIndex ops k ?r ?st s1 = (MUT_OK, st2, s2)"
    using commitAndIndex_works [OF inv1 cm] by blast
  then obtain r st' where "enqueue ops input st s = (r, st', s2)" "erStatus r = ENQUEUED" "erIdentity r = i" "erSlot r = k"
    using enqueue_by_commit [OF inv(2) v(1,3) a] by auto
  then show ?thesis by (cases r) auto
qed

lemma recoverSlots_works:
  assumes "\<forall>k<8. durableRecord (rcell s) k \<noteq> None" "length (nsSlots st) = 8"
  shows "\<exists>acm' ane' st' s'. recoverSlots ops slot acm ane st s = (True, acm', ane', st', s')"
  using assms
proof (induction "8 - slot" arbitrary: slot acm ane st s)
  case 0
  then show ?case by (simp add: recoverSlots.simps)
next
  case (Suc n)
  then have slot: "slot < 8" by simp
  obtain fa s1 where a: "readRecordCopy ops slot CopyA st s = (True, fa, st, s1)" using readRecordCopy_works by blast
  obtain fb s2 where b: "readRecordCopy ops slot CopyB st s1 = (True, fb, st, s2)" using readRecordCopy_works by blast
  obtain sel r c where sel: "selectCopies nrGeneration decodeNodeRecordForSelection fa fb nodeRecord_init CopyA = (sel, r, c)"
    using prod_cases3 by blast
  have rep: "represents decodeNodeRecordForSelection 56 fa (rcell s slot CopyA)"
    "represents decodeNodeRecordForSelection 56 fb (rcell s slot CopyB)" "rcell s2 = rcell s"
    using readRecordCopy_outcome [OF a] readRecordCopy_outcome [OF b] by auto
  have "settled sel" using selectCopies_authoritative(1) [OF rep(1,2) sel] Suc.prems(1) slot
    by (auto simp: durableRecord_def split: if_splits)
  then have acc: "acceptSelection sel st = (True, st)" "sel \<noteq> BOTH_INVALID"
    by (simp_all add: acceptSelection_def settled_def)
  show ?case
    using Suc.hyps(1) [of "Suc slot" s2 "st\<lparr>nsSlots := (nsSlots st)[slot := \<lparr>ssPresent = True, ssRecord = r, ssActiveCopy = c\<rparr>]\<rparr>"]
      Suc.hyps(2) Suc.prems slot a b sel acc rep(3)
    by (subst recoverSlots.simps) simp
qed

lemma al_recover_works:
  assumes "served device (mcell s)" "device \<noteq> 0" "cu \<noteq> CUSTODY_UNPROVABLE"
  shows "\<exists>al s'. al_recover (neMetadata ops) entropy device cu s = ((ID_READY, al), s')"
proof -
  have rc: "\<exists>r f s''. readCopy (neMetadata ops) c s' = (r, f, s'') \<and> r \<noteq> ID_STORAGE_UNAVAILABLE \<and> mcell s'' = mcell s'
      \<and> represents decodeNodeMetadataForSelection 28 f (mcell s' () c)" for c s'
  proof -
    obtain r f s'' where r: "readCopy (neMetadata ops) c s' = (r, f, s'')" using prod_cases3 by blast
    moreover have "r \<noteq> ID_STORAGE_UNAVAILABLE"
      using r rd_available [of c "fillZero 28" s'] by (auto simp: readCopy_def split: prod.splits if_splits)
    ultimately show ?thesis using meta.readCopy_represents [OF r] by blast
  qed
  obtain ra fa s1 where A: "readCopy (neMetadata ops) CopyA s = (ra, fa, s1)" "ra \<noteq> ID_STORAGE_UNAVAILABLE"
    "mcell s1 = mcell s" "represents decodeNodeMetadataForSelection 28 fa (mcell s () CopyA)" using rc by metis
  obtain rb fb s2 where B: "readCopy (neMetadata ops) CopyB s1 = (rb, fb, s2)" "rb \<noteq> ID_STORAGE_UNAVAILABLE"
    "represents decodeNodeMetadataForSelection 28 fb (mcell s () CopyB)" using rc A(3) by metis
  obtain sel m slot where sel: "selectCopies nmGeneration decodeNodeMetadataForSelection fa fb
      nodeMetadata_init CopyA = (sel, m, slot)" using prod_cases3 by blast
  have "settled sel" "serves device m"
    using selectCopies_authoritative(1) [OF A(4) B(3) sel] assms(1)
    by (auto simp: served_def durableMetadata_def split: if_splits)
  then show ?thesis using A B sel assms(2,3)
    by (auto simp: al_recover_def settled_def serves_def becomeReady_def)
qed

lemma recover_works:
  assumes inv: "storeInv device (mcell s) (rcell s) st" and "device \<noteq> 0"
  shows "\<exists>st' s'. ns_recover ops entropy device st0 s = (NST_READY, st', s')"
proof -
  define st1 where "st1 = (ns_reset st0)\<lparr>nsSourceDeviceId := device\<rparr>"
  have st1: "length (nsSlots st1) = 8" "length (nsQueue st1) = 8" by (simp_all add: st1_def ns_reset_def)
  have dur: "durableRecord (rcell s) k = Some (slotRecord st k, ssActiveCopy (nsSlots st ! k))"
    "ssPresent (nsSlots st ! k)" if "k < 8" for k using inv that by (auto simp: storeInv_def stored_def)
  then obtain acm ane st2 s2 where scan: "recoverSlots ops 0 True False st1 s = (True, acm, ane, st2, s2)"
    using recoverSlots_works [OF _ st1(1)] by fastforce
  note S = recoverSlots_outcome [OF scan st1(1)]
  have "\<not> acm" using S dur [of 0] by (auto simp: durableRecord_def authoritative_def)
  obtain sl where sl: "st2 = st1\<lparr>nsSlots := sl\<rparr>" "length sl = 8" "\<forall>k<8. scanned (rcell s) k (sl ! k)" using S by auto
  have eq: "sl ! k = nsSlots st ! k" if "k < 8" for k
    using sl(3) dur [OF that] that by (cases "nsSlots st ! k") (auto simp: scanned_def)
  then have pres: "list_all ssPresent (nsSlots st2)" using sl dur by (auto simp: list_all_length)
  have m2: "mcell s2 = mcell s" using S by simp
  have "served device (mcell s2)" using inv m2 by (simp add: storeInv_def live_def served_def)
  then obtain al s3 where al: "al_recover (neMetadata ops) entropy device (if ane then CUSTODY_NONEMPTY else CUSTODY_EMPTY) s2
      = ((ID_READY, al), s3)" using al_recover_works [of device s2] assms(2) by (metis custodyState.distinct(3,5))
  obtain u st4 where u: "rebuildIndex (st2\<lparr>nsAllocator := al\<rparr>) = (u, st4)" by fastforce
  have "uniqueIdentities (nsSlots st)" using inv by (simp add: storeInv_def indexed_def)
  then have "uniqueIdentities sl" using eq by (auto simp: uniqueIdentities_def identityOf_def)
  then have "u" using rebuildIndex_spec [OF u] sl(1) st1(2) by (auto split: if_splits)
  then show ?thesis using scan al u \<open>\<not> acm\<close> pres assms(2) by (simp add: ns_recover_def st1_def [symmetric])
qed

lemma commitInitialFree_works:
  assumes "k < 8"
  shows "\<exists>st' s'. commitInitialFree ops k (freeRecord g) st s = (True, st', s')"
proof -
  obtain bs where bs: "nodeRecordImage (freeRecord g) = Some bs" using image_of_valid freeRecord_valid by blast
  have wf: "nodeRecord_wf (freeRecord g)" by (simp add: freeRecord_def nodeRecord_init_def nodeRecord_wf_def)
  have "encodeNodeRecord (freeRecord g) (Some (fillZero 56)) = (CR_OK, Some bs)"
    using bs by (simp add: nodeRecordImage_def image_Some)
  then show ?thesis using writeVerify_works [OF assms bs wf, of CopyA st s] by (auto simp: commitInitialFree_def)
qed

lemma initializeSlots_works: "\<exists>st' s'. initializeSlots ops slot st s = (True, st', s')"
proof (induction "8 - slot" arbitrary: slot st s)
  case 0
  then show ?case by (simp add: initializeSlots.simps)
next
  case (Suc n)
  then obtain st1 s1 where "commitInitialFree ops slot (freeRecord 1) st s = (True, st1, s1)"
    using commitInitialFree_works [of slot] by fastforce
  moreover obtain st2 s2 where "initializeSlots ops (Suc slot) st1 s1 = (True, st2, s2)"
    using Suc.hyps(1) [of "Suc slot"] Suc.hyps(2) by fastforce
  ultimately show ?case by (simp add: initializeSlots.simps [of ops slot])
qed

end

lemma ramRead_available: "ramRead k c buf s = (SR_UNAVAILABLE, x) \<Longrightarrow> False"
  by (simp add: ramRead_def split: option.splits if_splits)

interpretation ram_node: working_node_storage ramNode "\<lambda>s. ramCell 28 (fst s)" "\<lambda>s. (Some 7, s)" "\<lambda>s. ramCell 56 (snd s)"
proof
qed (auto simp: ramNode_def ramWrite_def ramCell_def dest: ramRead_frame ramRead_cell ramRead_available
    intro: ramWrite_cell split: prod.splits)

lemma ram_scan_blank:
  "\<exists>st'. recoverSlots ramNode slot True False st (m, \<lambda>_ _. None) = (True, True, False, st', (m, \<lambda>_ _. None))"
proof (induction "8 - slot" arbitrary: slot st)
  case 0
  then show ?case by (simp add: recoverSlots.simps)
next
  case (Suc n)
  then have slot: "slot < 8" by simp
  have rd: "readRecordCopy ramNode k c st (m, \<lambda>_ _. None)
      = (True, \<lparr>fcStatus = FRS_MISSING, fcBytes = fillZero 56\<rparr>, st, (m, \<lambda>_ _. None))" for k c and st
    by (simp add: readRecordCopy_def ramNode_def ramRead_def)
  show ?case using slot Suc.hyps(1) [of "Suc slot"] Suc.hyps(2)
    by (subst recoverSlots.simps) (simp add: rd selectCopies_def acceptSelection_def)
qed

definition coldStore :: store where
  "coldStore = ns_reset \<lparr>nsAllocator = allocator_reset, nsSlots = [], nsQueue = [], nsSourceDeviceId = 0,
     nsQueueCount = 0, nsHealthy = False, nsStatus = NST_INDETERMINATE_SLOT, nsDiagnostics = None,
     nsIdentityStatus = ID_IDENTITY_RECOVERY_REQUIRED\<rparr>"

lemma ram_recover_blank:
  "\<exists>st s. ns_recover ramNode (\<lambda>s. (Some 7, s)) 5 coldStore (\<lambda>_ _. None, \<lambda>_ _. None) = (NST_READY, st, s)
     \<and> nmEventEpoch (alMetadata (nsAllocator st)) = 7 \<and> (\<forall>k<8. \<not> holdsEvent (ramCell 56 (snd s)) k)"
proof -
  let ?s = "(\<lambda>_ _. None, \<lambda>_ _. None) :: nodeRam"
  define st0 where "st0 = (ns_reset coldStore)\<lparr>nsSourceDeviceId := 5\<rparr>"
  have st0: "length (nsSlots st0) = 8" "length (nsQueue st0) = 8" by (simp_all add: st0_def ns_reset_def)
  obtain st1 where scan: "recoverSlots ramNode 0 True False st0 ?s = (True, True, False, st1, ?s)"
    using ram_scan_blank by blast
  obtain sl where sl: "st1 = st0\<lparr>nsSlots := sl\<rparr>" "length sl = 8"
    using ram_node.recoverSlots_outcome [OF scan st0(1)] by auto
  obtain st2 s2 where ini: "initializeSlots ramNode 0 st1 ?s = (True, st2, s2)"
    using ram_node.initializeSlots_works by blast
  have blank: "ramCell 56 (snd ?s) k = (\<lambda>_. None)" "ramCell 28 (fst ?s) = (\<lambda>_ _. None)" for k
    by (simp_all add: ramCell_def fun_eq_iff)
  have len: "length (nsSlots st1) = 8" using sl by simp
  note I = ram_node.initializeSlots_outcome [OF ini len]
  have m2: "ramCell 28 (fst s2) = (\<lambda>_ _. None)" using I blank by auto
  have free: "\<not> holdsEvent (ramCell 56 (snd s2)) k" if "k < 8" for k using I blank that by auto
  obtain sl2 where sl2: "st2 = st1\<lparr>nsSlots := sl2\<rparr>" "length sl2 = 8"
    "\<forall>k<8. scanned (ramCell 56 (snd s2)) k (sl2 ! k) \<and> ssPresent (sl2 ! k)" using I blank by auto
  obtain al s3 where al: "al_recover (neMetadata ramNode) (\<lambda>s. (Some 7, s)) 5 CUSTODY_EMPTY s2 = ((ID_READY, al), s3)"
    and ep: "nmEventEpoch (alMetadata al) = 7"
    using ram_node.recover_fresh [of s2 5] m2 by auto
  obtain u st4 where u: "rebuildIndex (st2\<lparr>nsAllocator := al\<rparr>) = (u, st4)" by fastforce
  have "\<not> occupied (sl2 ! k)" if "k < 8" for k
    using sl2(3) free [OF that] that by (auto simp: scanned_def holdsEvent_def occupied_def split: option.splits)
  then have "uniqueIdentities sl2" by (auto simp: uniqueIdentities_def)
  then have u1: "u" using rebuildIndex_spec [OF u] sl(1) sl2(1) st0(2) by (auto split: if_splits)
  have "st4 = (st2\<lparr>nsAllocator := al\<rparr>)\<lparr>nsQueue := nsQueue st4, nsQueueCount := nsQueueCount st4\<rparr>"
    using rebuildIndex_spec [OF u] u1 sl(1) sl2(1) st0(2) by auto
  from arg_cong [OF this, of nsAllocator] have a4: "nsAllocator st4 = al" by simp
  let ?st = "updateQueueSnapshot (ns_note ED_EVENT_RECOVERED (of_nat (nsQueueCount st4))
        (st4\<lparr>nsHealthy := True, nsStatus := NST_READY\<rparr>))"
  have "ns_recover ramNode (\<lambda>s. (Some 7, s)) 5 coldStore ?s = (NST_READY, ?st, s3)"
    using scan ini al u u1 by (simp add: ns_recover_def st0_def [symmetric])
  moreover have "\<forall>k<8. \<not> holdsEvent (ramCell 56 (snd s3)) k"
    using free ram_node.al_recover_rcell [OF al] by simp
  moreover have "nmEventEpoch (alMetadata (nsAllocator ?st)) = 7" using a4 ep by simp
  ultimately show ?thesis by blast
qed

abbreviation ramRun :: "store \<Rightarrow> nodeRam \<Rightarrow> bool" where
  "ramRun \<equiv> nodeRun ramNode (\<lambda>s. (Some 7, s)) (\<lambda>s. ramCell 28 (fst s)) (\<lambda>s. ramCell 56 (snd s)) 5"

lemma ram_run_recovered:
  "\<exists>st s. ramRun st s \<and> nsHealthy st \<and> nmEventEpoch (alMetadata (nsAllocator st)) = 7 \<and> firstFreeSlot st = Some 0"
proof -
  obtain st s where r: "ns_recover ramNode (\<lambda>s. (Some 7, s)) 5 coldStore (\<lambda>_ _. None, \<lambda>_ _. None) = (NST_READY, st, s)"
    and ep: "nmEventEpoch (alMetadata (nsAllocator st)) = 7" and free: "\<forall>k<8. \<not> holdsEvent (ramCell 56 (snd s)) k"
    using ram_recover_blank by blast
  have "ramRun coldStore (\<lambda>_ _. None, \<lambda>_ _. None)"
    by (rule nodeRun.start) (auto simp: coldStore_def ns_reset_def ramCell_def fun_eq_iff)
  then have run: "ramRun st s" using r by (rule nodeRun.recovery)
  have "custody 5 (ramCell 28 (\<lambda>_ _. None)) (ramCell 56 (\<lambda>_ _. None))"
    by (simp add: custody_def durableRecord_def authoritative_def ramCell_def)
  then have h: "nsHealthy st" using ram_node.recover_store_outcome [OF r] by simp
  then have "storeInv 5 (ramCell 28 (fst s)) (ramCell 56 (snd s)) st" using ram_node.nodeRun_inv [OF run] by blast
  then have "nrState (slotRecord st 0) = NS_FREE"
    using free by (fastforce simp: storeInv_def stored_def holdsEvent_def)
  then have "firstFreeSlot st = Some 0" by (simp add: firstFreeSlot_def upt_conv_Cons)
  then show ?thesis using run h ep by blast
qed

definition sampleInput :: eventInput where
  "sampleInput = \<lparr>eiFamily = 0x44, eiFlags = 0, eiLifetimeBudgetSeconds = 120, eiBodyLength = 1,
     eiBody = (fillZero 12)[0 := 1]\<rparr>"

lemma sampleInput_valid: "validInput sampleInput" "length (eiBody sampleInput) = 12"
  by (simp_all add: sampleInput_def validInput_def isRegisteredFamily_def isValidFamilyBody_def expectedBodyLength_def
      list_all_iff)

subsection \<open>Properties\<close>

text \<open>C16. While the Node store is healthy, whatever happened before, its memory is exactly what is durable:
  every slot holds the authoritative record of the medium, and the delivery queue lists exactly the
  slots with a queued Event, each once, in strictly increasing order of identity, with no two
  occupied slots sharing an identity.\<close>

theorem node_store_mirrors_medium:
  assumes "node_storage ops mcell entropy rcell" and "nodeRun ops entropy mcell rcell device st s" and "nsHealthy st"
  shows "(\<forall>k<8. recordAt k st = durableView (rcell s) k \<and> recordAt k st \<noteq> None)
    \<and> set (take (nsQueueCount st) (nsQueue st)) = {k. k < 8 \<and> (\<exists>r. durableView (rcell s) k = Some r \<and> nrState r = NS_QUEUED)}
    \<and> distinct (take (nsQueueCount st) (nsQueue st))
    \<and> sorted_wrt (\<lambda>a b. (nrEventEpoch (slotRecord st a), nrEventId (slotRecord st a))
         < (nrEventEpoch (slotRecord st b), nrEventId (slotRecord st b))) (take (nsQueueCount st) (nsQueue st))
    \<and> (\<forall>a<8. \<forall>b<8. nrState (slotRecord st a) \<noteq> NS_FREE \<longrightarrow> nrState (slotRecord st b) \<noteq> NS_FREE \<longrightarrow>
         nrEventEpoch (slotRecord st a) = nrEventEpoch (slotRecord st b) \<longrightarrow>
         nrEventId (slotRecord st a) = nrEventId (slotRecord st b) \<longrightarrow> a = b)"
proof -
  have inv: "storeInv device (mcell s) (rcell s) st" using node_storage.nodeRun_inv [OF assms(1,2)] assms(3) by blast
  note at = storeInv_recordAt [OF inv]
  have ix: "indexed st" and pres: "\<forall>k<8. ssPresent (nsSlots st ! k)" using inv by (auto simp: storeInv_def stored_def)
  have q: "queuedSlot (nsSlots st) k \<longleftrightarrow> (\<exists>r. durableView (rcell s) k = Some r \<and> nrState r = NS_QUEUED)" if "k < 8" for k
  proof -
    have "durableView (rcell s) k = Some (slotRecord st k)" using at [OF that] by metis
    then show ?thesis using pres that by (simp add: queuedSlot_def)
  qed
  have "a = b" if "a < 8" "b < 8" "nrState (slotRecord st a) \<noteq> NS_FREE" "nrState (slotRecord st b) \<noteq> NS_FREE"
      "recordKey (slotRecord st a) = recordKey (slotRecord st b)" for a b
    using uniqueIdentities_inj [of "nsSlots st" a b] ix pres that
    by (auto simp: indexed_def occupied_def identityOf_recordKey)
  then show ?thesis using at ix q
    by (auto simp: indexed_def sorted_wrt_map identityOf_recordKey recordKey_def)
qed

theorem node_store_mirrors_medium_witness:
  "\<exists>st s. ramRun st s \<and> nsHealthy st \<and> recordAt 3 st = durableView (ramCell 56 (snd s)) 3 \<and> recordAt 3 st \<noteq> None"
proof -
  obtain st s where run: "ramRun st s" "nsHealthy st" using ram_run_recovered by blast
  have "\<forall>k<8. recordAt k st = durableView (ramCell 56 (snd s)) k \<and> recordAt k st \<noteq> None"
    using node_store_mirrors_medium [OF ram_node.node_storage_axioms run] by (rule conjunct1)
  moreover have "(3 :: nat) < 8" by simp
  ultimately have "recordAt 3 st = durableView (ramCell 56 (snd s)) 3 \<and> recordAt 3 st \<noteq> None" by blast
  then show ?thesis using run by blast
qed

text \<open>C4. Every operation of a healthy Node store is atomic on the medium: it is refused and changes
  nothing where its guard fails; otherwise success means that exactly the intended record of exactly
  one slot has become durable and is in memory, and failure takes the store out of service with either
  the old or the intended record durable, and nothing else changed.\<close>

theorem node_operation_atomic:
  assumes "node_storage ops mcell entropy rcell" and "nodeRun ops entropy mcell rcell device st s" and "nsHealthy st"
    and "applyOp ops op st s = (ok, i, st', s')"
  shows "\<exists>j. case intended op st j of
      None \<Rightarrow> \<not> ok \<and> nsHealthy st' \<and> durableView (rcell s') = durableView (rcell s)
    | Some (k, rec) \<Rightarrow> if ok then nsHealthy st' \<and> durableView (rcell s') = (durableView (rcell s))(k \<mapsto> rec)
          \<and> recordAt k st' = Some rec
        else \<not> nsHealthy st' \<and> durableView (rcell s') \<in> {durableView (rcell s), (durableView (rcell s))(k \<mapsto> rec)}"
proof -
  have inv: "storeInv device (mcell s) (rcell s) st" using node_storage.nodeRun_inv [OF assms(1,2)] assms(3) by blast
  obtain j where j: "opOutcome device (mcell s') (rcell s) (rcell s') (intended op st j) ok st'"
    using node_storage.applyOp_outcome [OF assms(1,4) inv assms(3)] by blast
  have k8: "k < 8" if "intended op st j = Some (k, rec)" for k rec
    using that find_Some_nth [of "\<lambda>slot. nrState (slotRecord st slot) = NS_FREE" "[0..<8]"]
    by (cases op) (auto simp: firstFreeSlot_def split: if_splits)
  show ?thesis
  proof (intro exI [of _ j], cases "intended op st j")
    case None
    then show "case intended op st j of None \<Rightarrow> \<not> ok \<and> nsHealthy st' \<and> durableView (rcell s') = durableView (rcell s)
      | Some (k, rec) \<Rightarrow> if ok then nsHealthy st' \<and> durableView (rcell s') = (durableView (rcell s))(k \<mapsto> rec)
          \<and> recordAt k st' = Some rec
        else \<not> nsHealthy st' \<and> durableView (rcell s') \<in> {durableView (rcell s), (durableView (rcell s))(k \<mapsto> rec)}"
      using j by (simp add: opOutcome_def)
  next
    case (Some kr)
    obtain k rec where kr: "kr = (k, rec)" by fastforce
    then show "case intended op st j of None \<Rightarrow> \<not> ok \<and> nsHealthy st' \<and> durableView (rcell s') = durableView (rcell s)
      | Some (k, rec) \<Rightarrow> if ok then nsHealthy st' \<and> durableView (rcell s') = (durableView (rcell s))(k \<mapsto> rec)
          \<and> recordAt k st' = Some rec
        else \<not> nsHealthy st' \<and> durableView (rcell s') \<in> {durableView (rcell s), (durableView (rcell s))(k \<mapsto> rec)}"
      using j Some k8 storeInv_recordAt [of device "mcell s'" "rcell s'" st' k]
      by (auto simp: opOutcome_def commitOutcome_def)
  qed
qed

theorem node_operation_atomic_witness:
  "\<exists>st s i st' s' rec. ramRun st s \<and> nsHealthy st \<and> applyOp ramNode (OpEnqueue sampleInput) st s = (True, i, st', s')
     \<and> durableView (ramCell 56 (snd s')) = (durableView (ramCell 56 (snd s)))(0 \<mapsto> rec)"
proof -
  obtain st s where run: "ramRun st s" "nsHealthy st" "nmEventEpoch (alMetadata (nsAllocator st)) = 7"
    "firstFreeSlot st = Some 0" using ram_run_recovered by blast
  have "storeInv 5 (ramCell 28 (fst s)) (ramCell 56 (snd s)) st" using ram_node.nodeRun_inv [OF run(1)] run(2) by blast
  then obtain i st' s' where "enqueue ramNode sampleInput st s = (\<lparr>erStatus = ENQUEUED, erIdentity = i, erSlot = 0\<rparr>, st', s')"
    using ram_node.enqueue_works [OF _ run(2) sampleInput_valid run(4)] run(3) by fastforce
  then have a: "applyOp ramNode (OpEnqueue sampleInput) st s = (True, i, st', s')" by simp
  from node_operation_atomic [OF ram_node.node_storage_axioms run(1,2) a]
  obtain rec where "durableView (ramCell 56 (snd s')) = (durableView (ramCell 56 (snd s)))(0 \<mapsto> rec)"
    using sampleInput_valid(1) run(4) by auto
  then show ?thesis using run(1,2) a by blast
qed

text \<open>A recovery that succeeds on a medium that already holds records restores exactly the durable
  records, and does not change them.\<close>

theorem node_recovery_restores:
  assumes "node_storage ops mcell entropy rcell" and "nodeRun ops entropy mcell rcell device st s"
    and "ns_recover ops entropy device st s = (NST_READY, st', s')"
    and "\<exists>k<8. rcell s k \<noteq> (\<lambda>_. None)"
  shows "nsHealthy st' \<and> rcell s' = rcell s \<and> (\<forall>k<8. recordAt k st' = durableView (rcell s) k)"
proof -
  have "custody device (mcell s) (rcell s)" using node_storage.nodeRun_inv [OF assms(1,2)] by blast
  from node_storage.recover_store_outcome [OF assms(1,3) this] assms(4)
  have "nsHealthy st'" "rcell s' = rcell s" "storeInv device (mcell s') (rcell s') st'" by auto
  then show ?thesis using storeInv_recordAt by auto
qed

theorem node_recovery_restores_witness:
  "\<exists>st s st' s'. ramRun st s \<and> ns_recover ramNode (\<lambda>s. (Some 7, s)) 5 st s = (NST_READY, st', s')
     \<and> recordAt 2 st' = durableView (ramCell 56 (snd s)) 2"
proof -
  obtain st s where run: "ramRun st s" "nsHealthy st" using ram_run_recovered by blast
  have inv: "storeInv 5 (ramCell 28 (fst s)) (ramCell 56 (snd s)) st" using ram_node.nodeRun_inv [OF run(1)] run(2) by blast
  then obtain st' s' where r: "ns_recover ramNode (\<lambda>s. (Some 7, s)) 5 st s = (NST_READY, st', s')"
    using ram_node.recover_works [of 5 s st st] by auto
  have "durableRecord (ramCell 56 (snd s)) 0 \<noteq> None" using inv by (simp add: storeInv_def stored_def)
  then have "ramCell 56 (snd s) 0 \<noteq> (\<lambda>_. None)" by (auto simp: durableRecord_def authoritative_def)
  then have "\<exists>k<8. ramCell 56 (snd s) k \<noteq> (\<lambda>_. None)" by (intro exI [of _ 0]) simp
  from node_recovery_restores [OF ram_node.node_storage_axioms run(1) r this]
  have "recordAt 2 st' = durableView (ramCell 56 (snd s)) 2" by simp
  then show ?thesis using run(1) r by blast
qed

text \<open>An Event the Node accepts is durable when the call returns, in state queued with no attempt
  used and its full lifetime, under an identity of this device that is above the identity of every
  Event the store holds.\<close>

theorem node_enqueue_durable:
  assumes "node_storage ops mcell entropy rcell" and "nodeRun ops entropy mcell rcell device st s" and "nsHealthy st"
    and "enqueue ops input st s = (r, st', s')" and "erStatus r = ENQUEUED"
  shows "\<exists>k rec. firstFreeSlot st = Some k \<and> durableView (rcell s') = (durableView (rcell s))(k \<mapsto> rec)
    \<and> nrState rec = NS_QUEUED \<and> nrAttemptsUsed rec = 0
    \<and> nrRemainingActiveSeconds rec = eiLifetimeBudgetSeconds input \<and> nrFamily rec = eiFamily input
    \<and> (nrEventEpoch rec, nrEventId rec) = (idEpoch (erIdentity r), idId (erIdentity r))
    \<and> idSourceDeviceId (erIdentity r) = device
    \<and> (\<forall>j<8. \<forall>old. durableView (rcell s) j = Some old \<longrightarrow> nrState old \<noteq> NS_FREE \<longrightarrow>
        (nrEventEpoch old, nrEventId old) < (nrEventEpoch rec, nrEventId rec))"
proof -
  have inv: "storeInv device (mcell s) (rcell s) st" using node_storage.nodeRun_inv [OF assms(1,2)] assms(3) by blast
  obtain j where j: "opOutcome device (mcell s') (rcell s) (rcell s') (intended (OpEnqueue input) st j) True st'"
    "erIdentity r = j" "idSourceDeviceId j = device" "cursor (nsAllocator st) \<le> identityKey j"
    using node_storage.enqueue_outcome [OF assms(1,4) inv assms(3)] assms(5) by auto
  then obtain k where k: "firstFreeSlot st = Some k"
    "durableView (rcell s') = (durableView (rcell s))(k \<mapsto> enqueuedRecord (slotRecord st k) input j)"
    by (auto simp: opOutcome_def commitOutcome_def split: if_splits option.splits)
  have "recordKey old < identityKey j" if "i < 8" "durableView (rcell s) i = Some old" "nrState old \<noteq> NS_FREE" for i old
    using storeInv_recordAt [OF inv that(1)] that inv j(4) by (auto simp: storeInv_def intro: less_le_trans)
  then show ?thesis using k j
    by (intro exI [of _ k] exI [of _ "enqueuedRecord (slotRecord st k) input j"])
      (auto simp: enqueuedRecord_def recordKey_def identityKey_def)
qed

theorem node_enqueue_durable_witness:
  "\<exists>st s r st' s' rec. ramRun st s \<and> enqueue ramNode sampleInput st s = (r, st', s')
     \<and> durableView (ramCell 56 (snd s')) = (durableView (ramCell 56 (snd s)))(0 \<mapsto> rec) \<and> nrState rec = NS_QUEUED"
proof -
  obtain st s where run: "ramRun st s" "nsHealthy st" "nmEventEpoch (alMetadata (nsAllocator st)) = 7"
    "firstFreeSlot st = Some 0" using ram_run_recovered by blast
  have "storeInv 5 (ramCell 28 (fst s)) (ramCell 56 (snd s)) st" using ram_node.nodeRun_inv [OF run(1)] run(2) by blast
  then obtain i st' s' where e: "enqueue ramNode sampleInput st s = (\<lparr>erStatus = ENQUEUED, erIdentity = i, erSlot = 0\<rparr>, st', s')"
    using ram_node.enqueue_works [OF _ run(2) sampleInput_valid run(4)] run(3) by fastforce
  from node_enqueue_durable [OF ram_node.node_storage_axioms run(1,2) e]
  obtain rec where "durableView (ramCell 56 (snd s')) = (durableView (ramCell 56 (snd s)))(0 \<mapsto> rec)" "nrState rec = NS_QUEUED"
    using run(4) by auto
  then show ?thesis using run(1) e by blast
qed

text \<open>On a medium that works, a healthy Node store with a free slot accepts every valid Event, as long
  as the last epoch has not been reached.\<close>

theorem node_enqueue_progress:
  assumes "working_node_storage ops mcell entropy rcell" and "nodeRun ops entropy mcell rcell device st s" and "nsHealthy st"
    and "validInput input" "length (eiBody input) = MAX_BODY_SIZE" and "firstFreeSlot st = Some k"
    and "nmEventEpoch (alMetadata (nsAllocator st)) \<noteq> 0xFFFFFFFF"
  shows "\<exists>i st' s'. enqueue ops input st s = (\<lparr>erStatus = ENQUEUED, erIdentity = i, erSlot = k\<rparr>, st', s')"
proof -
  have base: "node_storage ops mcell entropy rcell" by (rule working_node_storage.axioms(1) [OF assms(1)])
  have inv: "storeInv device (mcell s) (rcell s) st" using node_storage.nodeRun_inv [OF base assms(2)] assms(3) by blast
  show ?thesis using working_node_storage.enqueue_works [OF assms(1) inv assms(3,4) _ assms(6,7)] assms(5) by simp
qed

theorem node_enqueue_progress_witness:
  "\<exists>st s i st' s'. ramRun st s
     \<and> enqueue ramNode sampleInput st s = (\<lparr>erStatus = ENQUEUED, erIdentity = i, erSlot = 0\<rparr>, st', s')"
proof -
  obtain st s where run: "ramRun st s" "nsHealthy st" "nmEventEpoch (alMetadata (nsAllocator st)) = 7"
    "firstFreeSlot st = Some 0" using ram_run_recovered by blast
  from node_enqueue_progress [OF ram_node.working_node_storage_axioms run(1,2) sampleInput_valid(1) _ run(4)]
  obtain i st' s' where "enqueue ramNode sampleInput st s = (\<lparr>erStatus = ENQUEUED, erIdentity = i, erSlot = 0\<rparr>, st', s')"
    using sampleInput_valid(2) run(3) by auto
  then show ?thesis using run(1) by blast
qed

text \<open>On a medium that works, a Node that loses power while its store is healthy recovers: the store
  is ready again, whatever its memory held.\<close>

theorem node_recovery_progress:
  assumes "working_node_storage ops mcell entropy rcell" and "nodeRun ops entropy mcell rcell device st s" and "nsHealthy st"
    and "device \<noteq> 0"
  shows "\<exists>st' s'. ns_recover ops entropy device st0 s = (NST_READY, st', s')"
proof -
  have base: "node_storage ops mcell entropy rcell" by (rule working_node_storage.axioms(1) [OF assms(1)])
  have inv: "storeInv device (mcell s) (rcell s) st" using node_storage.nodeRun_inv [OF base assms(2)] assms(3) by blast
  show ?thesis by (rule working_node_storage.recover_works [OF assms(1) inv assms(4)])
qed

theorem node_recovery_progress_witness:
  "\<exists>st s st' s'. ramRun st s \<and> ns_recover ramNode (\<lambda>s. (Some 7, s)) 5 coldStore s = (NST_READY, st', s')"
proof -
  obtain st s where run: "ramRun st s" "nsHealthy st" using ram_run_recovered by blast
  from node_recovery_progress [OF ram_node.working_node_storage_axioms run, of coldStore]
  obtain st' s' where "ns_recover ramNode (\<lambda>s. (Some 7, s)) 5 coldStore s = (NST_READY, st', s')" by auto
  then show ?thesis using run(1) by blast
qed

end
