(* ===== verification/HubEventLedger.thy ===== *)
theory HubEventLedger
  imports EventIdentity RuntimeState
begin

text \<open>
  The Hub's durable admission ledger (\<^verbatim>\<open>lib/hub_event_ledger/src/hub_event_ledger.h\<close>): eight dual-copy
  records of admitted Events and the dual-copy metadata from which admission ordinals are reserved in
  blocks of 32.  The class \<^verbatim>\<open>Storage\<close> is a parameter (record \<open>hubStorage\<close>), the object behind
  \<^verbatim>\<open>diagnostics_\<close> is the field \<open>hlDiagnostics\<close> (\<open>None\<close>: a null pointer), and slot numbers are naturals;
  where the code's private searches return the slot number \<^verbatim>\<open>0xFF\<close> for "none" the model returns \<open>None\<close>.
\<close>

subsection \<open>Types\<close>

definition HUB_EVENT_CAPACITY :: nat where [simp]: "HUB_EVENT_CAPACITY = 8"
definition ORDINAL_RESERVATION_BLOCK_SIZE :: u32 where [simp]: "ORDINAL_RESERVATION_BLOCK_SIZE = 32"

datatype ledgerStatus = LST_READY | LST_INVALID_CONFIGURATION | LST_STORAGE_UNAVAILABLE
  | LST_STORAGE_FAILURE | LST_INDETERMINATE_SLOT | LST_RECORD_CONFLICT | LST_GENERATION_AMBIGUOUS
  | LST_DUPLICATE_IDENTITY | LST_DUPLICATE_ORDINAL | LST_ORDINAL_UNAVAILABLE | LST_ORDINAL_EXHAUSTED

datatype hubAdmissionStatus = DURABLE_NEW_ADMISSION | EXACT_DUPLICATE | ADM_CAPACITY
  | ADM_IDENTITY_CONTENT_MISMATCH | ADM_UNSUPPORTED_EVENT | ADM_MALFORMED_EVENT | ROUTING_REJECTED
  | ADM_STORAGE_FAILURE | ADM_DEGRADED

datatype consumeStatus = CONSUMED | ALREADY_CONSUMED | CON_NOT_FOUND | CON_STORAGE_FAILURE | CON_DEGRADED

record admissionResult =
  adStatus :: hubAdmissionStatus
  adSlot :: nat
  adAdmissionOrdinal :: u32

record consumeResult =
  coStatus :: consumeStatus
  coSlot :: nat

record 's hubStorage =
  hsReadMetadata :: "copySlot \<Rightarrow> bytes \<Rightarrow> 's \<Rightarrow> storageResult \<times> bytes \<times> nat \<times> 's"
  hsWriteMetadata :: "copySlot \<Rightarrow> bytes \<Rightarrow> 's \<Rightarrow> storageResult \<times> 's"
  hsRead :: "nat \<Rightarrow> copySlot \<Rightarrow> bytes \<Rightarrow> 's \<Rightarrow> storageResult \<times> bytes \<times> nat \<times> 's"
  hsWrite :: "nat \<Rightarrow> copySlot \<Rightarrow> bytes \<Rightarrow> 's \<Rightarrow> storageResult \<times> 's"
  hsCommit :: "'s \<Rightarrow> storageResult \<times> 's"

record hubSlotState =
  hssPresent :: bool
  hssActiveCopy :: copySlot
  hssRecord :: hubRecord

record ledger =
  hlSlots :: "hubSlotState list"
  hlMetadata :: hubMetadata
  hlMetadataCopy :: copySlot
  hlNextVolatileOrdinal :: u32
  hlVolatileEndExclusive :: u32
  hlHubDeviceId :: u8
  hlNodeDeviceId :: u8
  hlHasMetadata :: bool
  hlHealthy :: bool
  hlOrdinalReady :: bool
  hlStatus :: ledgerStatus
  hlDiagnostics :: "rtState option"

definition hubSlotState_init :: hubSlotState where
  "hubSlotState_init = \<lparr>hssPresent = False, hssActiveCopy = CopyA, hssRecord = hubRecord_init\<rparr>"

definition hl_reset :: "ledger \<Rightarrow> ledger" where
  "hl_reset l = l\<lparr>hlSlots := replicate HUB_EVENT_CAPACITY hubSlotState_init, hlMetadata := hubMetadata_init,
     hlMetadataCopy := CopyA, hlNextVolatileOrdinal := 0, hlVolatileEndExclusive := 0,
     hlHubDeviceId := 0, hlNodeDeviceId := 0, hlHasMetadata := False, hlHealthy := False,
     hlOrdinalReady := False, hlStatus := LST_INDETERMINATE_SLOT\<rparr>"

abbreviation hubSlotRecord :: "ledger \<Rightarrow> nat \<Rightarrow> hubRecord" where
  "hubSlotRecord l k \<equiv> hssRecord (hlSlots l ! k)"

subsection \<open>Failure and diagnostics\<close>

definition storageStatus :: "storageResult \<Rightarrow> ledgerStatus" where
  "storageStatus result = (if result = SR_UNAVAILABLE then LST_STORAGE_UNAVAILABLE else LST_STORAGE_FAILURE)"

definition failLedger :: "ledgerStatus \<Rightarrow> ledger \<Rightarrow> ledger" where
  "failLedger status l = l\<lparr>hlHealthy := False, hlStatus := status\<rparr>"

definition failOrdinal :: "ledgerStatus \<Rightarrow> ledger \<Rightarrow> ledger" where
  "failOrdinal status l = l\<lparr>hlOrdinalReady := False, hlStatus := status\<rparr>"

definition countState :: "hubState \<Rightarrow> ledger \<Rightarrow> nat" where
  "countState state l = (if \<not> hlHealthy l then 0
     else length (filter (\<lambda>i. hrState (hubSlotRecord l i) = state) [0..<HUB_EVENT_CAPACITY]))"

definition activeCount :: "ledger \<Rightarrow> nat" where
  "activeCount l = countState HS_ACTIVE l"

definition consumedCount :: "ledger \<Rightarrow> nat" where
  "consumedCount l = countState HS_CONSUMED l"

definition hl_note :: "eventDiagnostic \<Rightarrow> u32 \<Rightarrow> ledger \<Rightarrow> ledger" where
  "hl_note e amount l = l\<lparr>hlDiagnostics := map_option (incrementEventDiagnostic e amount) (hlDiagnostics l)\<rparr>"

definition hl_persistenceFailure :: "ledger \<Rightarrow> ledger" where
  "hl_persistenceFailure l = (let l' = hl_note ED_PERSISTENCE_FAILURE 1 l in
     l'\<lparr>hlDiagnostics := map_option (setEventPersistenceDegraded True) (hlDiagnostics l')\<rparr>)"

definition updateActiveSnapshot :: "ledger \<Rightarrow> ledger" where
  "updateActiveSnapshot l = l\<lparr>hlDiagnostics := map_option (setActiveEventCount (of_nat (activeCount l))) (hlDiagnostics l)\<rparr>"

definition hl_setDiagnostics :: "rtState option \<Rightarrow> ledger \<Rightarrow> ledger" where
  "hl_setDiagnostics state l = l\<lparr>hlDiagnostics := state\<rparr>"

subsection \<open>Record predicates\<close>

definition isOwned :: "hubRecord \<Rightarrow> bool" where
  "isOwned rec = (hrState rec = HS_ACTIVE \<or> hrState rec = HS_CONSUMED)"

definition sameIdentity :: "hubRecord \<Rightarrow> event \<Rightarrow> bool" where
  "sameIdentity rec e = (hrSourceDeviceId rec = evSource e \<and> hrEventEpoch rec = evEpoch e \<and> hrEventId rec = evId e)"

definition sameCanonical :: "hubRecord \<Rightarrow> event \<Rightarrow> bool" where
  "sameCanonical rec e =
     (if \<not> sameIdentity rec e \<or> hrFamily rec \<noteq> evFamily e \<or> hrFlags rec \<noteq> evFlags e
         \<or> hrLifetimeBudgetSeconds rec \<noteq> evLifetimeBudgetSeconds e \<or> hrBodyLength rec \<noteq> evBodyLength e
      then False
      else bytesEqual (Some (hrBody rec)) (Some (evBody e)) (unat (evBodyLength e)))"

definition validOrdinalHighWater :: "u32 \<Rightarrow> bool" where
  "validOrdinalHighWater value = (value \<noteq> 0 \<and> (value - 1) mod ORDINAL_RESERVATION_BLOCK_SIZE = 0)"

definition validateAdmission :: "event \<Rightarrow> ledger \<Rightarrow> hubAdmissionStatus" where
  "validateAdmission e l =
     (if \<not> hasValidEndpoints (evSource e) (evDestination e) \<or> evSource e \<noteq> hlNodeDeviceId l
         \<or> evDestination e \<noteq> hlHubDeviceId l \<or> evEpoch e = 0 \<or> evId e = 0 then ROUTING_REJECTED
      else if \<not> isRegisteredFamily (evFamily e) then ADM_UNSUPPORTED_EVENT
      else if evFlags e AND NOT ALLOWED_FLAGS \<noteq> 0 \<or> evLifetimeBudgetSeconds e < MIN_LIFETIME_SECONDS
         \<or> evLifetimeBudgetSeconds e > MAX_LIFETIME_SECONDS \<or> unat (evBodyLength e) > MAX_BODY_SIZE
         \<or> \<not> isValidFamilyBody (evFamily e) (Some (evBody e)) (evBodyLength e) then ADM_MALFORMED_EVENT
      else if list_ex (\<lambda>i. evBody e ! i \<noteq> 0) [unat (evBodyLength e)..<MAX_BODY_SIZE] then ADM_MALFORMED_EVENT
      else DURABLE_NEW_ADMISSION)"

subsection \<open>Searches over the slots\<close>

definition firstEmpty :: "ledger \<Rightarrow> nat option" where
  "firstEmpty l = find (\<lambda>i. hrState (hubSlotRecord l i) = HS_EMPTY) [0..<HUB_EVENT_CAPACITY]"

definition incomingLater :: "event \<Rightarrow> hubRecord \<Rightarrow> bool" where
  "incomingLater e tombstone = (evSource e = hrSourceDeviceId tombstone
     \<and> (evEpoch e > hrEventEpoch tombstone
        \<or> evEpoch e = hrEventEpoch tombstone \<and> evId e > hrEventId tombstone))"

text \<open>The scan for the smallest admission ordinal that \<open>oldestActive\<close> and \<open>oldestReclaimable\<close> share:
  slots that do not qualify are skipped, a later slot wins only with a strictly smaller ordinal.\<close>

definition scanOldest :: "(hubRecord \<Rightarrow> bool) \<Rightarrow> ledger \<Rightarrow> nat list \<Rightarrow> nat option" where
  "scanOldest qualifies l slots = fold (\<lambda>i found.
     if \<not> qualifies (hubSlotRecord l i) then found
     else case found of None \<Rightarrow> Some i
       | Some f \<Rightarrow> if hrAdmissionOrdinal (hubSlotRecord l i) < hrAdmissionOrdinal (hubSlotRecord l f)
                   then Some i else found) slots None"

definition oldestReclaimable :: "event \<Rightarrow> ledger \<Rightarrow> nat option" where
  "oldestReclaimable e l = scanOldest (\<lambda>r. hrState r = HS_CONSUMED \<and> incomingLater e r) l [0..<HUB_EVENT_CAPACITY]"

definition oldestActive :: "ledger \<Rightarrow> (nat \<times> hubRecord) option" where
  "oldestActive l = (if \<not> hlHealthy l then None
     else map_option (\<lambda>i. (i, hubSlotRecord l i))
       (scanOldest (\<lambda>r. hrState r = HS_ACTIVE) l [0..<HUB_EVENT_CAPACITY]))"

definition hasIdentity :: "identity \<Rightarrow> hubRecord \<Rightarrow> bool" where
  "hasIdentity i rec = (isOwned rec \<and> hrSourceDeviceId rec = idSourceDeviceId i
     \<and> hrEventEpoch rec = idEpoch i \<and> hrEventId rec = idId i)"

definition hl_find :: "identity \<Rightarrow> ledger \<Rightarrow> (nat \<times> hubRecord) option" where
  "hl_find i l = (if \<not> hlHealthy l then None
     else map_option (\<lambda>k. (k, hubSlotRecord l k)) (find (\<lambda>k. hasIdentity i (hubSlotRecord l k)) [0..<HUB_EVENT_CAPACITY]))"

definition hl_record :: "nat \<Rightarrow> ledger \<Rightarrow> hubRecord option" where
  "hl_record slot l = (if slot < HUB_EVENT_CAPACITY \<and> hssPresent (hlSlots l ! slot) then Some (hubSlotRecord l slot) else None)"

subsection \<open>Storage access\<close>

text \<open>The status for selection and whether to go on.  Unlike the Node store, the ledger keeps whatever
  the storage left in the buffer when a read fails or is short.\<close>

definition classifyRead :: "storageResult \<Rightarrow> nat \<Rightarrow> nat \<Rightarrow> bool \<Rightarrow> ledger \<Rightarrow> bool \<times> fixedReadStatus \<times> ledger" where
  "classifyRead result len expected ledgerRead l =
     (if result = SR_MISSING then (True, FRS_MISSING, l)
      else if result = SR_UNAVAILABLE
        then (False, FRS_UNAVAILABLE, if ledgerRead then failLedger LST_STORAGE_UNAVAILABLE l
                                      else l\<lparr>hlStatus := LST_ORDINAL_UNAVAILABLE\<rparr>)
      else if result \<noteq> SR_OK \<or> len \<noteq> expected then (True, FRS_OK, l)
      else (True, FRS_OK, l))"

definition hl_readMetadataCopy :: "'s hubStorage \<Rightarrow> copySlot \<Rightarrow> ledger \<Rightarrow> 's \<Rightarrow> bool \<times> fixedCopy \<times> ledger \<times> 's" where
  "hl_readMetadataCopy ops c l s =
     (case hsReadMetadata ops c (fillZero HUB_METADATA_SIZE) s of (result, buf, len, s') \<Rightarrow>
      case classifyRead result len HUB_METADATA_SIZE False l of (ok, status, l') \<Rightarrow>
        (ok, \<lparr>fcStatus = status, fcBytes = buf\<rparr>, l', s'))"

definition hl_readRecordCopy :: "'s hubStorage \<Rightarrow> nat \<Rightarrow> copySlot \<Rightarrow> ledger \<Rightarrow> 's \<Rightarrow> bool \<times> fixedCopy \<times> ledger \<times> 's" where
  "hl_readRecordCopy ops slot c l s =
     (case hsRead ops slot c (fillZero HUB_RECORD_SIZE) s of (result, buf, len, s') \<Rightarrow>
      case classifyRead result len HUB_RECORD_SIZE True l of (ok, status, l') \<Rightarrow>
        (ok, \<lparr>fcStatus = status, fcBytes = buf\<rparr>, l', s'))"

definition acceptRecordSelection :: "selectionResult \<Rightarrow> ledger \<Rightarrow> bool \<times> ledger" where
  "acceptRecordSelection result l =
     (if result = EQUAL_DISAGREEMENT then (False, failLedger LST_RECORD_CONFLICT l)
      else if result = SEL_GENERATION_AMBIGUOUS then (False, failLedger LST_GENERATION_AMBIGUOUS l)
      else (True, l))"

text \<open>The selections that make a commit fail.\<close>

abbreviation unsettled :: "selectionResult \<Rightarrow> bool" where
  "unsettled sel \<equiv> sel = BOTH_INVALID \<or> sel = EQUAL_DISAGREEMENT \<or> sel = SEL_GENERATION_AMBIGUOUS"

definition hl_commitMetadata :: "'s hubStorage \<Rightarrow> hubMetadata \<Rightarrow> copySlot \<Rightarrow> ledger \<Rightarrow> 's \<Rightarrow> bool \<times> ledger \<times> 's" where
  "hl_commitMetadata ops nxt target l s =
     (case encodeHubMetadata nxt (Some (fillZero HUB_METADATA_SIZE)) of (er, out) \<Rightarrow>
      if er \<noteq> CR_OK then (False, failOrdinal LST_STORAGE_FAILURE l, s)
      else case hsWriteMetadata ops target (the out) s of (w, s1) \<Rightarrow>
      if w \<noteq> SR_OK then (False, failOrdinal (storageStatus w) l, s1)
      else case hsCommit ops s1 of (c, s2) \<Rightarrow>
      if c \<noteq> SR_OK then (False, failOrdinal (storageStatus c) l, s2)
      else case hsReadMetadata ops target (fillZero HUB_METADATA_SIZE) s2 of (r, buf, len, s3) \<Rightarrow>
      if r \<noteq> SR_OK \<or> len \<noteq> HUB_METADATA_SIZE then (False, failOrdinal (storageStatus r) l, s3)
      else if (case decodeHubMetadata (Some buf) of Inl _ \<Rightarrow> True
               | Inr _ \<Rightarrow> \<not> bytesEqual out (Some buf) HUB_METADATA_SIZE)
        then (False, failOrdinal LST_STORAGE_FAILURE l, s3)
      else case hl_readMetadataCopy ops CopyA l s3 of (okA, copyA, l4, s4) \<Rightarrow>
      if \<not> okA then (False, failOrdinal LST_STORAGE_UNAVAILABLE l4, s4)
      else case hl_readMetadataCopy ops CopyB l4 s4 of (okB, copyB, l5, s5) \<Rightarrow>
      if \<not> okB then (False, failOrdinal LST_STORAGE_UNAVAILABLE l5, s5)
      else case selectCopies hmGeneration decodeHubMetadataForSelection copyA copyB hubMetadata_init CopyA
        of (selection, auth, authCopy) \<Rightarrow>
      if authCopy \<noteq> target \<or> hmGeneration auth \<noteq> hmGeneration nxt \<or> unsettled selection
        then (False, failOrdinal (if selection = SEL_GENERATION_AMBIGUOUS then LST_GENERATION_AMBIGUOUS
                                  else LST_STORAGE_FAILURE) l5, s5)
      else (True, l5\<lparr>hlMetadata := auth, hlMetadataCopy := target, hlHasMetadata := True,
              hlOrdinalReady := True\<rparr>, s5))"

definition hl_commitRecord :: "'s hubStorage \<Rightarrow> nat \<Rightarrow> hubRecord \<Rightarrow> copySlot \<Rightarrow> ledger \<Rightarrow> 's \<Rightarrow> bool \<times> ledger \<times> 's" where
  "hl_commitRecord ops slot nxt target l s =
     (case encodeHubRecord nxt (Some (fillZero HUB_RECORD_SIZE)) of (er, out) \<Rightarrow>
      if er \<noteq> CR_OK then (False, failLedger LST_STORAGE_FAILURE l, s)
      else case hsWrite ops slot target (the out) s of (w, s1) \<Rightarrow>
      if w \<noteq> SR_OK then (False, failLedger (storageStatus w) l, s1)
      else case hsCommit ops s1 of (c, s2) \<Rightarrow>
      if c \<noteq> SR_OK then (False, failLedger (storageStatus c) l, s2)
      else case hsRead ops slot target (fillZero HUB_RECORD_SIZE) s2 of (r, buf, len, s3) \<Rightarrow>
      if r \<noteq> SR_OK \<or> len \<noteq> HUB_RECORD_SIZE then (False, failLedger (storageStatus r) l, s3)
      else if (case decodeHubRecord (Some buf) of Inl _ \<Rightarrow> True
               | Inr _ \<Rightarrow> \<not> bytesEqual out (Some buf) HUB_RECORD_SIZE)
        then (False, failLedger LST_STORAGE_FAILURE l, s3)
      else case hl_readRecordCopy ops slot CopyA l s3 of (okA, copyA, l4, s4) \<Rightarrow>
      if \<not> okA then (False, l4, s4)
      else case hl_readRecordCopy ops slot CopyB l4 s4 of (okB, copyB, l5, s5) \<Rightarrow>
      if \<not> okB then (False, l5, s5)
      else case selectCopies hrGeneration decodeHubRecordForSelection copyA copyB hubRecord_init CopyA
        of (selection, auth, authCopy) \<Rightarrow>
      if authCopy \<noteq> target \<or> hrGeneration auth \<noteq> hrGeneration nxt \<or> unsettled selection
        then (False, failLedger (if selection = SEL_GENERATION_AMBIGUOUS then LST_GENERATION_AMBIGUOUS
                                 else LST_STORAGE_FAILURE) l5, s5)
      else (True, l5\<lparr>hlSlots := (hlSlots l5)[slot := \<lparr>hssPresent = True, hssActiveCopy = target,
              hssRecord = auth\<rparr>]\<rparr>, s5))"

text \<open>The overload without a target writes the copy that is not active.\<close>

definition hl_commitNext :: "'s hubStorage \<Rightarrow> nat \<Rightarrow> hubRecord \<Rightarrow> ledger \<Rightarrow> 's \<Rightarrow> bool \<times> ledger \<times> 's" where
  "hl_commitNext ops slot nxt l s = hl_commitRecord ops slot nxt (opposite (hssActiveCopy (hlSlots l ! slot))) l s"

definition commitInitialRecord :: "'s hubStorage \<Rightarrow> nat \<Rightarrow> hubRecord \<Rightarrow> ledger \<Rightarrow> 's \<Rightarrow> bool \<times> ledger \<times> 's" where
  "commitInitialRecord ops slot nxt l s =
     hl_commitRecord ops slot nxt CopyA
       (l\<lparr>hlSlots := (hlSlots l)[slot := \<lparr>hssPresent = True, hssActiveCopy = CopyB, hssRecord = nxt\<rparr>]\<rparr>) s"

subsection \<open>Ordinals\<close>

definition allocateOrdinal :: "'s hubStorage \<Rightarrow> ledger \<Rightarrow> 's \<Rightarrow> u32 option \<times> ledger \<times> 's" where
  "allocateOrdinal ops l s =
     (if \<not> hlOrdinalReady l then (None, l, s)
      else if hlNextVolatileOrdinal l = hlVolatileEndExclusive l then
        let start = hmNextUnreservedAdmissionOrdinal (hlMetadata l) in
        if start > UINT32_MAX - ORDINAL_RESERVATION_BLOCK_SIZE
          then (None, l\<lparr>hlOrdinalReady := False, hlStatus := LST_ORDINAL_EXHAUSTED\<rparr>, s)
        else case hl_commitMetadata ops ((hlMetadata l)\<lparr>hmGeneration := hmGeneration (hlMetadata l) + 1,
               hmNextUnreservedAdmissionOrdinal := start + ORDINAL_RESERVATION_BLOCK_SIZE\<rparr>)
               (opposite (hlMetadataCopy l)) l s of (ok, l1, s1) \<Rightarrow>
          if \<not> ok then (None, l1, s1)
          else (Some start, l1\<lparr>hlNextVolatileOrdinal := start + 1,
                  hlVolatileEndExclusive := start + ORDINAL_RESERVATION_BLOCK_SIZE\<rparr>, s1)
      else (Some (hlNextVolatileOrdinal l), l\<lparr>hlNextVolatileOrdinal := hlNextVolatileOrdinal l + 1\<rparr>, s))"

subsection \<open>Recovery\<close>

definition emptyRecord :: hubRecord where
  "emptyRecord = hubRecord_init\<lparr>hrGeneration := 1, hrState := HS_EMPTY\<rparr>"

function hl_initializeSlots :: "'s hubStorage \<Rightarrow> nat \<Rightarrow> ledger \<Rightarrow> 's \<Rightarrow> bool \<times> ledger \<times> 's" where
  "hl_initializeSlots ops slot l s =
     (if \<not> slot < HUB_EVENT_CAPACITY then (True, l, s)
      else case commitInitialRecord ops slot emptyRecord
          (l\<lparr>hlSlots := (hlSlots l)[slot := (hlSlots l ! slot)\<lparr>hssActiveCopy := CopyA\<rparr>]\<rparr>) s of (ok, l', s') \<Rightarrow>
        if \<not> ok then (False, l', s') else hl_initializeSlots ops (slot + 1) l' s')"
  by pat_completeness auto
termination by (relation "measure (\<lambda>(_, slot, _). HUB_EVENT_CAPACITY - slot)") auto

declare hl_initializeSlots.simps [simp del]

definition hl_initializeFresh :: "'s hubStorage \<Rightarrow> ledger \<Rightarrow> 's \<Rightarrow> bool \<times> ledger \<times> 's" where
  "hl_initializeFresh ops l s =
     (case hl_commitMetadata ops \<lparr>hmGeneration = 1, hmNextUnreservedAdmissionOrdinal = 1\<rparr> CopyA l s of (ok, l1, s1) \<Rightarrow>
      if \<not> ok then (False, l1, s1) else hl_initializeSlots ops 0 l1 s1)"

definition recoverMetadata :: "fixedCopy \<Rightarrow> fixedCopy \<Rightarrow> ledger \<Rightarrow> ledger" where
  "recoverMetadata a b l =
     (case selectCopies hmGeneration decodeHubMetadataForSelection a b hubMetadata_init CopyA of (selection, selected, c) \<Rightarrow>
      if selection = EQUAL_DISAGREEMENT then l\<lparr>hlStatus := LST_RECORD_CONFLICT\<rparr>
      else if selection = SEL_GENERATION_AMBIGUOUS then l\<lparr>hlStatus := LST_GENERATION_AMBIGUOUS\<rparr>
      else if selection = BOTH_INVALID \<or> \<not> validOrdinalHighWater (hmNextUnreservedAdmissionOrdinal selected)
        then l\<lparr>hlStatus := LST_ORDINAL_UNAVAILABLE\<rparr>
      else l\<lparr>hlMetadata := selected, hlMetadataCopy := c, hlHasMetadata := True,
             hlNextVolatileOrdinal := hmNextUnreservedAdmissionOrdinal selected,
             hlVolatileEndExclusive := hmNextUnreservedAdmissionOrdinal selected,
             hlOrdinalReady := True, hlStatus := LST_READY\<rparr>)"

text \<open>The inner loop of the check, over the slots below \<open>i\<close>: the first conflict, identities before
  ordinals.\<close>

fun slotConflict :: "hubSlotState list \<Rightarrow> nat \<Rightarrow> nat list \<Rightarrow> ledgerStatus option" where
  "slotConflict slots i [] = None"
| "slotConflict slots i (j # js) =
     (if \<not> isOwned (hssRecord (slots ! j)) then slotConflict slots i js
      else if hrSourceDeviceId (hssRecord (slots ! i)) = hrSourceDeviceId (hssRecord (slots ! j))
         \<and> hrEventEpoch (hssRecord (slots ! i)) = hrEventEpoch (hssRecord (slots ! j))
         \<and> hrEventId (hssRecord (slots ! i)) = hrEventId (hssRecord (slots ! j)) then Some LST_DUPLICATE_IDENTITY
      else if hrAdmissionOrdinal (hssRecord (slots ! i)) = hrAdmissionOrdinal (hssRecord (slots ! j))
        then Some LST_DUPLICATE_ORDINAL
      else slotConflict slots i js)"

fun validateSlotsFrom :: "hubSlotState list \<Rightarrow> nat list \<Rightarrow> ledgerStatus option" where
  "validateSlotsFrom slots [] = None"
| "validateSlotsFrom slots (i # is) =
     (if \<not> hssPresent (slots ! i) then Some LST_INDETERMINATE_SLOT
      else if \<not> isOwned (hssRecord (slots ! i)) then validateSlotsFrom slots is
      else case slotConflict slots i [0..<i] of Some e \<Rightarrow> Some e | None \<Rightarrow> validateSlotsFrom slots is)"

definition validateRecoveredSlots :: "ledger \<Rightarrow> bool \<times> ledger" where
  "validateRecoveredSlots l = (case validateSlotsFrom (hlSlots l) [0..<HUB_EVENT_CAPACITY] of
     None \<Rightarrow> (True, l) | Some e \<Rightarrow> (False, failLedger e l))"

function hl_recoverSlots :: "'s hubStorage \<Rightarrow> nat \<Rightarrow> bool \<Rightarrow> ledger \<Rightarrow> 's \<Rightarrow> bool \<times> bool \<times> ledger \<times> 's" where
  "hl_recoverSlots ops slot allSlotCopiesMissing l s =
     (if \<not> slot < HUB_EVENT_CAPACITY then (True, allSlotCopiesMissing, l, s)
      else case hl_readRecordCopy ops slot CopyA l s of (okA, a, l1, s1) \<Rightarrow>
      if \<not> okA then (False, allSlotCopiesMissing, l1, s1)
      else case hl_readRecordCopy ops slot CopyB l1 s1 of (okB, b, l2, s2) \<Rightarrow>
      if \<not> okB then (False, allSlotCopiesMissing, l2, s2)
      else let missing = (if fcStatus a \<noteq> FRS_MISSING \<or> fcStatus b \<noteq> FRS_MISSING then False
                          else allSlotCopiesMissing) in
      case selectCopies hrGeneration decodeHubRecordForSelection a b hubRecord_init CopyA
        of (selection, selected, selectedCopy) \<Rightarrow>
      case acceptRecordSelection selection l2 of (accepted, l3) \<Rightarrow>
      if \<not> accepted then (False, missing, l3, s2)
      else hl_recoverSlots ops (slot + 1) missing
        (if selection \<noteq> BOTH_INVALID
         then l3\<lparr>hlSlots := (hlSlots l3)[slot := \<lparr>hssPresent = True, hssActiveCopy = selectedCopy,
                hssRecord = selected\<rparr>]\<rparr> else l3) s2)"
  by pat_completeness auto
termination by (relation "measure (\<lambda>(_, slot, _). HUB_EVENT_CAPACITY - slot)") auto

declare hl_recoverSlots.simps [simp del]

text \<open>The branch of \<open>recover\<close> for metadata that cannot be read: custody of the slots survives.\<close>

definition custodyWithoutOrdinals :: "bool \<Rightarrow> ledger \<Rightarrow> ledger" where
  "custodyWithoutOrdinals allSlotCopiesMissing l =
     (if allSlotCopiesMissing then l
      else case validateRecoveredSlots l of (valid, l') \<Rightarrow>
        if valid then l'\<lparr>hlHealthy := True, hlStatus := LST_ORDINAL_UNAVAILABLE\<rparr> else l')"

definition enterService :: "ledger \<Rightarrow> ledger" where
  "enterService l = (let l' = l\<lparr>hlHealthy := True\<rparr> in
     if hlOrdinalReady l' then l'\<lparr>hlStatus := LST_READY\<rparr> else l')"

definition hl_recover :: "'s hubStorage \<Rightarrow> u8 \<Rightarrow> u8 \<Rightarrow> ledger \<Rightarrow> 's \<Rightarrow> ledgerStatus \<times> ledger \<times> 's" where
  "hl_recover ops hub node l s =
     (let l0 = (hl_reset l)\<lparr>hlHubDeviceId := hub, hlNodeDeviceId := node\<rparr> in
      if hub = 0 \<or> node = 0 \<or> hub = node
        then (LST_INVALID_CONFIGURATION, failLedger LST_INVALID_CONFIGURATION l0, s)
      else case hl_recoverSlots ops 0 True l0 s of (ok, allSlotCopiesMissing, l1, s1) \<Rightarrow>
      if \<not> ok then (hlStatus l1, l1, s1)
      else case hl_readMetadataCopy ops CopyA l1 s1 of (okA, metaA, l2, s2) \<Rightarrow>
      if \<not> okA then (let l' = custodyWithoutOrdinals allSlotCopiesMissing l2 in (hlStatus l', l', s2))
      else case hl_readMetadataCopy ops CopyB l2 s2 of (okB, metaB, l3, s3) \<Rightarrow>
      if \<not> okB then (let l' = custodyWithoutOrdinals allSlotCopiesMissing l3 in (hlStatus l', l', s3))
      else if allSlotCopiesMissing \<and> fcStatus metaA = FRS_MISSING \<and> fcStatus metaB = FRS_MISSING then
        (case hl_initializeFresh ops l3 s3 of (ok, l4, s4) \<Rightarrow>
         if \<not> ok then (hlStatus l4, l4, s4)
         else let l' = enterService l4 in (hlStatus l', l', s4))
      else if \<not> list_all hssPresent (hlSlots l3)
        then (LST_INDETERMINATE_SLOT, failLedger LST_INDETERMINATE_SLOT l3, s3)
      else case validateRecoveredSlots l3 of (valid, l4) \<Rightarrow>
        if \<not> valid then (hlStatus l4, l4, s3)
        else let l' = enterService (recoverMetadata metaA metaB l4) in (hlStatus l', l', s3))"

subsection \<open>Admission and consumption\<close>

definition admittedRecord :: "hubRecord \<Rightarrow> event \<Rightarrow> u32 \<Rightarrow> hubRecord" where
  "admittedRecord old e ordinal = hubRecord_init\<lparr>hrGeneration := hrGeneration old + 1, hrState := HS_ACTIVE,
     hrSourceDeviceId := evSource e, hrFamily := evFamily e, hrFlags := evFlags e,
     hrBodyLength := evBodyLength e, hrEventEpoch := evEpoch e, hrEventId := evId e,
     hrLifetimeBudgetSeconds := evLifetimeBudgetSeconds e, hrAdmissionOrdinal := ordinal,
     hrBody := copyBytes (fillZero MAX_BODY_SIZE) 0 (evBody e) (unat (evBodyLength e))\<rparr>"

definition admissionTarget :: "event \<Rightarrow> ledger \<Rightarrow> nat option" where
  "admissionTarget e l = (case firstEmpty l of Some k \<Rightarrow> Some k | None \<Rightarrow> oldestReclaimable e l)"

definition admit :: "'s hubStorage \<Rightarrow> event \<Rightarrow> ledger \<Rightarrow> 's \<Rightarrow> admissionResult \<times> ledger \<times> 's" where
  "admit ops e l s = (let refuse = \<lambda>status. \<lparr>adStatus = status, adSlot = 0xFF, adAdmissionOrdinal = 0\<rparr> in
     if \<not> hlHealthy l then (refuse ADM_DEGRADED, l, s)
     else if validateAdmission e l \<noteq> DURABLE_NEW_ADMISSION then (refuse (validateAdmission e l), l, s)
     else case find (\<lambda>k. isOwned (hubSlotRecord l k) \<and> sameIdentity (hubSlotRecord l k) e) [0..<HUB_EVENT_CAPACITY] of
       Some k \<Rightarrow> (let duplicate = sameCanonical (hubSlotRecord l k) e in
         (\<lparr>adStatus = if duplicate then EXACT_DUPLICATE else ADM_IDENTITY_CONTENT_MISMATCH, adSlot = k,
           adAdmissionOrdinal = hrAdmissionOrdinal (hubSlotRecord l k)\<rparr>,
          hl_note (if duplicate then ED_DUPLICATE_RETRANSMISSION else ED_IDENTITY_CONTENT_MISMATCH) 1 l, s))
     | None \<Rightarrow> (case admissionTarget e l of None \<Rightarrow> (refuse ADM_CAPACITY, l, s) | Some target \<Rightarrow>
         if \<not> hlOrdinalReady l then (refuse ADM_STORAGE_FAILURE, hl_persistenceFailure l, s)
         else case allocateOrdinal ops l s of (None, l1, s1) \<Rightarrow> (refuse ADM_STORAGE_FAILURE, hl_persistenceFailure l1, s1)
         | (Some ordinal, l1, s1) \<Rightarrow>
           (case hl_commitNext ops target (admittedRecord (hubSlotRecord l1 target) e ordinal) l1 s1 of (ok, l2, s2) \<Rightarrow>
            if \<not> ok then (refuse ADM_STORAGE_FAILURE, hl_persistenceFailure l2, s2)
            else (\<lparr>adStatus = DURABLE_NEW_ADMISSION, adSlot = target, adAdmissionOrdinal = ordinal\<rparr>,
                  updateActiveSnapshot (hl_note ED_SUCCESSFUL_ADMISSION 1 l2), s2))))"

definition consumedRecord :: "hubRecord \<Rightarrow> hubRecord" where
  "consumedRecord rec = rec\<lparr>hrGeneration := hrGeneration rec + 1, hrState := HS_CONSUMED\<rparr>"

definition consume :: "'s hubStorage \<Rightarrow> identity \<Rightarrow> ledger \<Rightarrow> 's \<Rightarrow> consumeResult \<times> ledger \<times> 's" where
  "consume ops i l s =
     (if \<not> hlHealthy l then (\<lparr>coStatus = CON_DEGRADED, coSlot = 0xFF\<rparr>, l, s)
      else case find (\<lambda>k. hasIdentity i (hubSlotRecord l k)) [0..<HUB_EVENT_CAPACITY] of
        None \<Rightarrow> (\<lparr>coStatus = CON_NOT_FOUND, coSlot = 0xFF\<rparr>, l, s)
      | Some k \<Rightarrow>
          if hrState (hubSlotRecord l k) = HS_CONSUMED then (\<lparr>coStatus = ALREADY_CONSUMED, coSlot = k\<rparr>, l, s)
          else case hl_commitNext ops k (consumedRecord (hubSlotRecord l k)) l s of (ok, l1, s1) \<Rightarrow>
            if ok then (\<lparr>coStatus = CONSUMED, coSlot = k\<rparr>, updateActiveSnapshot (hl_note ED_HOST_CONSUMPTION 1 l1), s1)
            else (\<lparr>coStatus = CON_STORAGE_FAILURE, coSlot = k\<rparr>, hl_persistenceFailure l1, s1))"

end
