(* ===== verification/HubLedgerCustody.thy ===== *)
theory HubLedgerCustody
  imports HubEventLedger
begin

text \<open>
  What the Hub ledger promises across power cuts and failing storage: while it is healthy its memory
  mirrors the durable records, an admission or consumption changes at most one durable record and that
  one atomically, and identities and admission ordinals of the records it owns are distinct.
\<close>

subsection \<open>The contract with the storage\<close>

text \<open>Metadata and records live in disjoint cells of one medium.  Because the ledger hands the buffer of
  a failed or short read to the selection, it relies on such a read not leaving a valid image there
  (\<open>meta_failed\<close>, \<open>rec_failed\<close>); the Node store does not.\<close>

locale hub_storage =
  meta: dual_store hubMetadataImage decodeHubMetadataForSelection hmGeneration "\<lambda>_. True" 24
    "\<lambda>_. hsReadMetadata ops" "\<lambda>_. hsWriteMetadata ops" "hsCommit ops" mcell +
  rec: dual_store hubRecordImage decodeHubRecordForSelection hrGeneration hubRecord_wf 56
    "hsRead ops" "hsWrite ops" "hsCommit ops" rcell
  for ops :: "'s hubStorage" and mcell :: "'s \<Rightarrow> unit \<Rightarrow> copySlot \<Rightarrow> bytes option"
    and rcell :: "'s \<Rightarrow> nat \<Rightarrow> copySlot \<Rightarrow> bytes option" +
  assumes hsRead_mcell: "hsRead ops k c buf s = (r, buf', n, s') \<Longrightarrow> mcell s' = mcell s"
    and hsWrite_mcell: "hsWrite ops k c bs s = (w, s') \<Longrightarrow> mcell s' = mcell s"
    and hsReadMetadata_rcell: "hsReadMetadata ops c buf s = (r, buf', n, s') \<Longrightarrow> rcell s' = rcell s"
    and hsWriteMetadata_rcell: "hsWriteMetadata ops c bs s = (w, s') \<Longrightarrow> rcell s' = rcell s"
    and meta_failed: "hsReadMetadata ops c (fillZero 24) s = (r, buf, n, s') \<Longrightarrow> r \<noteq> SR_OK \<or> n \<noteq> 24 \<Longrightarrow>
      decodeHubMetadataForSelection buf = None"
    and rec_failed: "hsRead ops k c (fillZero 56) s = (r, buf, n, s') \<Longrightarrow> r \<noteq> SR_OK \<or> n \<noteq> 56 \<Longrightarrow>
      decodeHubRecordForSelection buf = None"

definition durableHubRecord :: "(nat \<Rightarrow> copySlot \<Rightarrow> bytes option) \<Rightarrow> nat \<Rightarrow> (hubRecord \<times> copySlot) option" where
  "durableHubRecord cells k = authoritative hrGeneration decodeHubRecordForSelection (cells k)"

definition durableHubMetadata :: "(unit \<Rightarrow> copySlot \<Rightarrow> bytes option) \<Rightarrow> (hubMetadata \<times> copySlot) option" where
  "durableHubMetadata cells = authoritative hmGeneration decodeHubMetadataForSelection (cells ())"

lemma failLedger_fold: "failLedger e (failLedger d l) = failLedger e l"
  by (simp add: failLedger_def)

lemma classifyRead_cases:
  "classifyRead r n m b l = (if r = SR_MISSING then (True, FRS_MISSING, l)
     else if r = SR_UNAVAILABLE then (False, FRS_UNAVAILABLE,
       if b then failLedger LST_STORAGE_UNAVAILABLE l else l\<lparr>hlStatus := LST_ORDINAL_UNAVAILABLE\<rparr>)
     else (True, FRS_OK, l))"
  by (simp add: classifyRead_def)

lemma hubRecord_encoded:
  assumes "encodeHubRecord rec (Some (fillZero 56)) = (CR_OK, out)" "hubRecord_wf rec"
  shows "\<exists>bs. out = Some bs \<and> decodeHubRecordForSelection bs = Some rec \<and> length bs = 56"
proof -
  obtain bs where "out = Some bs" using assms(1) by (auto simp: encodeHubRecord_def split: if_splits)
  then show ?thesis using encodeHubRecord_ok [of rec "fillZero 56" bs] assms by (simp add: decodeHubRecordForSelection_def)
qed

lemma hubMetadata_encoded:
  assumes "encodeHubMetadata m (Some (fillZero 24)) = (CR_OK, out)"
  shows "\<exists>bs. out = Some bs \<and> decodeHubMetadataForSelection bs = Some m \<and> length bs = 24"
proof -
  obtain bs where "out = Some bs" using assms(1) by (auto simp: encodeHubMetadata_def split: if_splits)
  then show ?thesis using encodeHubMetadata_ok [of m "fillZero 24" bs] assms by (simp add: decodeHubMetadataForSelection_def)
qed

context hub_storage
begin

lemma readRecordCopy_outcome:
  assumes "hl_readRecordCopy ops k c l s = (ok, f, l', s')"
  shows "rcell s' = rcell s \<and> mcell s' = mcell s
    \<and> (if ok then l' = l \<and> represents decodeHubRecordForSelection 56 f (rcell s k c)
         \<and> (fcStatus f = FRS_MISSING \<longrightarrow> rcell s k c = None)
       else l' = failLedger LST_STORAGE_UNAVAILABLE l)"
proof -
  obtain r buf n s1 where r: "hsRead ops k c (fillZero 56) s = (r, buf, n, s1)" using prod_cases4 by blast
  have frame: "rcell s1 = rcell s" "mcell s1 = mcell s" "length buf = 56"
    using rec.rd_frame [OF r] hsRead_mcell [OF r] by auto
  have f: "s' = s1" "ok = (r \<noteq> SR_UNAVAILABLE)" "fcBytes f = buf" "l' = (if ok then l else failLedger LST_STORAGE_UNAVAILABLE l)"
    "fcStatus f = (if r = SR_MISSING then FRS_MISSING else if r = SR_UNAVAILABLE then FRS_UNAVAILABLE else FRS_OK)"
    using assms r by (auto simp: hl_readRecordCopy_def classifyRead_cases split: if_splits)
  show ?thesis using f frame rec.rd_cell [OF r] rec_failed [OF r] by (auto simp: represents_def)
qed

lemma readMetadataCopy_outcome:
  assumes "hl_readMetadataCopy ops c l s = (ok, f, l', s')"
  shows "rcell s' = rcell s \<and> mcell s' = mcell s
    \<and> (if ok then l' = l \<and> represents decodeHubMetadataForSelection 24 f (mcell s () c)
         \<and> (fcStatus f = FRS_MISSING \<longrightarrow> mcell s () c = None)
       else l' = l\<lparr>hlStatus := LST_ORDINAL_UNAVAILABLE\<rparr>)"
proof -
  obtain r buf n s1 where r: "hsReadMetadata ops c (fillZero 24) s = (r, buf, n, s1)" using prod_cases4 by blast
  have frame: "rcell s1 = rcell s" "mcell s1 = mcell s" "length buf = 24"
    using meta.rd_frame [OF r] hsReadMetadata_rcell [OF r] by auto
  have f: "s' = s1" "ok = (r \<noteq> SR_UNAVAILABLE)" "fcBytes f = buf" "l' = (if ok then l else l\<lparr>hlStatus := LST_ORDINAL_UNAVAILABLE\<rparr>)"
    "fcStatus f = (if r = SR_MISSING then FRS_MISSING else if r = SR_UNAVAILABLE then FRS_UNAVAILABLE else FRS_OK)"
    using assms r by (auto simp: hl_readMetadataCopy_def classifyRead_cases split: if_splits)
  show ?thesis using f frame meta.rd_cell [OF r, of "()"] meta_failed [OF r] by (auto simp: represents_def)
qed

text \<open>A commit either makes the record durable and takes it into memory, or fails with the old or the new
  record durable.\<close>

lemma commitRecord_outcome:
  assumes run: "hl_commitRecord ops k rec target l s = (ok, l', s')"
    and sup: "supersedes hrGeneration decodeHubRecordForSelection (rcell s k) target rec" and wf: "hubRecord_wf rec"
  shows "mcell s' = mcell s \<and> (\<forall>k'. k' \<noteq> k \<longrightarrow> rcell s' k' = rcell s k')
    \<and> (if ok then l' = l\<lparr>hlSlots := (hlSlots l)[k := \<lparr>hssPresent = True, hssActiveCopy = target, hssRecord = rec\<rparr>]\<rparr>
         \<and> durableHubRecord (rcell s') k = Some (rec, target)
       else (\<exists>e. l' = failLedger e l) \<and> durableHubRecord (rcell s') k \<in> {durableHubRecord (rcell s) k, Some (rec, target)})"
proof -
  obtain er out where enc: "encodeHubRecord rec (Some (fillZero 56)) = (er, out)" by fastforce
  show ?thesis
  proof (cases "er = CR_OK")
    case False
    then show ?thesis using run enc by (auto simp: hl_commitRecord_def)
  next
    case True
    then obtain bs where bs: "out = Some bs" "decodeHubRecordForSelection bs = Some rec" "length bs = 56"
      using hubRecord_encoded enc wf by blast
    obtain w s1 where w: "hsWrite ops k target bs s = (w, s1)" by fastforce
    obtain c s2 where c: "hsCommit ops s1 = (c, s2)" by fastforce
    obtain r buf n s3 where r: "hsRead ops k target (fillZero 56) s2 = (r, buf, n, s3)" using prod_cases4 by blast
    obtain okA fa l4 s4 where A: "hl_readRecordCopy ops k CopyA l s3 = (okA, fa, l4, s4)" using prod_cases4 by blast
    obtain okB fb l5 s5 where B: "hl_readRecordCopy ops k CopyB l4 s4 = (okB, fb, l5, s5)" using prod_cases4 by blast
    obtain sel m slot where sl: "selectCopies hrGeneration decodeHubRecordForSelection fa fb hubRecord_init CopyA = (sel, m, slot)"
      using prod_cases3 by blast
    note RA = readRecordCopy_outcome [OF A] and RB = readRecordCopy_outcome [OF B]
    have fr: "rcell s2 = rcell s1" "rcell s3 = rcell s1" "rcell s4 = rcell s1" "rcell s5 = rcell s1" "length buf = 56"
      "mcell s1 = mcell s" "mcell s2 = mcell s" "mcell s3 = mcell s" "mcell s4 = mcell s" "mcell s5 = mcell s"
      using rec.cm_frame [OF c] meta.cm_frame [OF c] rec.rd_frame [OF r] hsWrite_mcell [OF w] hsRead_mcell [OF r] RA RB by auto
    note step = rec.wr_cell [OF w]
    have dur: "durableHubRecord (rcell s1) k \<in> {durableHubRecord (rcell s) k, Some (rec, target)}"
      and durN: "rcell s1 k target = Some bs \<Longrightarrow> durableHubRecord (rcell s1) k = Some (rec, target)"
      using cellStep_supersedes [OF step sup bs(2)] by (auto simp: durableHubRecord_def)
    have oth: "\<forall>k'. k' \<noteq> k \<longrightarrow> rcell s1 k' = rcell s k'" using cellStep_frame [OF step] by blast
    have verified: "rcell s1 k target = Some bs" if "r = SR_OK" "n = 56" "bytesEqual out (Some buf) 56"
      using that rec.rd_cell [OF r] fr bs by (simp add: bytesEqual_def sameBytes_length)
    have sel: "l5 = l \<and> settled sel \<and> m = rec \<and> slot = target" if "okA" "okB" "rcell s1 k target = Some bs"
    proof -
      have "represents decodeHubRecordForSelection 56 fa (rcell s1 k CopyA)" "represents decodeHubRecordForSelection 56 fb (rcell s1 k CopyB)"
        using RA RB that fr by auto
      from selectCopies_authoritative(1) [OF this sl] show ?thesis
        using durN that RA RB by (auto simp: durableHubRecord_def split: if_splits)
    qed
    consider (fail) "\<not> ok" "\<exists>e. l' = failLedger e l" "s' \<in> {s1, s2, s3, s4, s5}"
      | (ok) "ok" "r = SR_OK" "n = 56" "bytesEqual out (Some buf) 56" "okA" "okB" "s' = s5"
        "l' = l5\<lparr>hlSlots := (hlSlots l5)[k := \<lparr>hssPresent = True, hssActiveCopy = target, hssRecord = m\<rparr>]\<rparr>"
      using run enc True bs(1) w c r A B sl RA RB
      by (auto simp: hl_commitRecord_def failLedger_fold split: if_splits sum.splits)
    then show ?thesis
    proof cases
      case fail
      then show ?thesis using fr dur oth by auto
    next
      case ok
      then show ?thesis using verified sel durN fr oth by auto
    qed
  qed
qed

lemma commitMetadata_outcome:
  assumes run: "hl_commitMetadata ops m target l s = (ok, l', s')"
    and sup: "supersedes hmGeneration decodeHubMetadataForSelection (mcell s ()) target m"
  shows "rcell s' = rcell s
    \<and> (if ok then l' = l\<lparr>hlMetadata := m, hlMetadataCopy := target, hlHasMetadata := True, hlOrdinalReady := True\<rparr>
         \<and> durableHubMetadata (mcell s') = Some (m, target)
       else (\<exists>e. l' = failOrdinal e l) \<and> durableHubMetadata (mcell s') \<in> {durableHubMetadata (mcell s), Some (m, target)})"
proof -
  obtain er out where enc: "encodeHubMetadata m (Some (fillZero 24)) = (er, out)" by fastforce
  show ?thesis
  proof (cases "er = CR_OK")
    case False
    then show ?thesis using run enc by (auto simp: hl_commitMetadata_def)
  next
    case True
    then obtain bs where bs: "out = Some bs" "decodeHubMetadataForSelection bs = Some m" "length bs = 24"
      using hubMetadata_encoded enc by blast
    obtain w s1 where w: "hsWriteMetadata ops target bs s = (w, s1)" by fastforce
    obtain c s2 where c: "hsCommit ops s1 = (c, s2)" by fastforce
    obtain r buf n s3 where r: "hsReadMetadata ops target (fillZero 24) s2 = (r, buf, n, s3)" using prod_cases4 by blast
    obtain okA fa l4 s4 where A: "hl_readMetadataCopy ops CopyA l s3 = (okA, fa, l4, s4)" using prod_cases4 by blast
    obtain okB fb l5 s5 where B: "hl_readMetadataCopy ops CopyB l4 s4 = (okB, fb, l5, s5)" using prod_cases4 by blast
    obtain sel x slot where sl: "selectCopies hmGeneration decodeHubMetadataForSelection fa fb hubMetadata_init CopyA = (sel, x, slot)"
      using prod_cases3 by blast
    note RA = readMetadataCopy_outcome [OF A] and RB = readMetadataCopy_outcome [OF B]
    have fr: "mcell s2 = mcell s1" "mcell s3 = mcell s1" "mcell s4 = mcell s1" "mcell s5 = mcell s1" "length buf = 24"
      "rcell s1 = rcell s" "rcell s2 = rcell s" "rcell s3 = rcell s" "rcell s4 = rcell s" "rcell s5 = rcell s"
      using rec.cm_frame [OF c] meta.cm_frame [OF c] meta.rd_frame [OF r] hsWriteMetadata_rcell [OF w]
        hsReadMetadata_rcell [OF r] RA RB by auto
    note step = meta.wr_cell [OF w, of "()"]
    have dur: "durableHubMetadata (mcell s1) \<in> {durableHubMetadata (mcell s), Some (m, target)}"
      and durN: "mcell s1 () target = Some bs \<Longrightarrow> durableHubMetadata (mcell s1) = Some (m, target)"
      using cellStep_supersedes [OF step sup bs(2)] by (auto simp: durableHubMetadata_def)
    have verified: "mcell s1 () target = Some bs" if "r = SR_OK" "n = 24" "bytesEqual out (Some buf) 24"
      using that meta.rd_cell [OF r, of "()"] fr bs by (simp add: bytesEqual_def sameBytes_length)
    have sel: "l5 = l \<and> settled sel \<and> x = m \<and> slot = target" if "okA" "okB" "mcell s1 () target = Some bs"
    proof -
      have "represents decodeHubMetadataForSelection 24 fa (mcell s1 () CopyA)" "represents decodeHubMetadataForSelection 24 fb (mcell s1 () CopyB)"
        using RA RB that fr by auto
      from selectCopies_authoritative(1) [OF this sl] show ?thesis
        using durN that RA RB by (auto simp: durableHubMetadata_def split: if_splits)
    qed
    consider (fail) "\<not> ok" "\<exists>e. l' = failOrdinal e l" "s' \<in> {s1, s2, s3, s4, s5}"
      | (ok) "ok" "r = SR_OK" "n = 24" "bytesEqual out (Some buf) 24" "okA" "okB" "s' = s5"
        "l' = l5\<lparr>hlMetadata := x, hlMetadataCopy := target, hlHasMetadata := True, hlOrdinalReady := True\<rparr>"
      using run enc True bs(1) w c r A B sl RA RB
      by (auto simp: hl_commitMetadata_def failOrdinal_def split: if_splits sum.splits)
    then show ?thesis
    proof cases
      case fail
      then show ?thesis using fr dur by auto
    next
      case ok
      then show ?thesis using verified sel durN fr by auto
    qed
  qed
qed

end

subsection \<open>The invariant\<close>

definition hubView :: "(nat \<Rightarrow> copySlot \<Rightarrow> bytes option) \<Rightarrow> nat \<Rightarrow> hubRecord option" where
  "hubView cells k = map_option fst (durableHubRecord cells k)"

definition hubKey :: "hubRecord \<Rightarrow> u8 \<times> u32 \<times> u32" where
  "hubKey r = (hrSourceDeviceId r, hrEventEpoch r, hrEventId r)"

text \<open>No two owned records share an identity or an ordinal.\<close>

definition ownedDistinct :: "(nat \<Rightarrow> hubRecord option) \<Rightarrow> bool" where
  "ownedDistinct v = (\<forall>i<8. \<forall>j<8. \<forall>a b. i \<noteq> j \<longrightarrow> v i = Some a \<longrightarrow> v j = Some b \<longrightarrow> isOwned a \<longrightarrow> isOwned b \<longrightarrow>
     hubKey a \<noteq> hubKey b \<and> hrAdmissionOrdinal a \<noteq> hrAdmissionOrdinal b)"

definition belowHighWater :: "(unit \<Rightarrow> copySlot \<Rightarrow> bytes option) \<Rightarrow> u32 \<Rightarrow> bool" where
  "belowHighWater mcells n = (\<exists>m c. durableHubMetadata mcells = Some (m, c) \<and> n < hmNextUnreservedAdmissionOrdinal m)"

text \<open>What holds of the medium at all times.\<close>

definition hubCustody :: "(unit \<Rightarrow> copySlot \<Rightarrow> bytes option) \<Rightarrow> (nat \<Rightarrow> copySlot \<Rightarrow> bytes option) \<Rightarrow> bool" where
  "hubCustody mcells rcells = (ownedDistinct (hubView rcells)
     \<and> (\<forall>k<8. \<forall>r. hubView rcells k = Some r \<longrightarrow> isOwned r \<longrightarrow> belowHighWater mcells (hrAdmissionOrdinal r)))"

definition hubStored :: "(nat \<Rightarrow> copySlot \<Rightarrow> bytes option) \<Rightarrow> ledger \<Rightarrow> bool" where
  "hubStored cells l = (length (hlSlots l) = 8 \<and> (\<forall>k<8. hssPresent (hlSlots l ! k)
     \<and> durableHubRecord cells k = Some (hubSlotRecord l k, hssActiveCopy (hlSlots l ! k))))"

text \<open>The next ordinal to be issued is at least \<open>ordinalCursor\<close>.\<close>

definition ordinalCursor :: "ledger \<Rightarrow> u32" where
  "ordinalCursor l = (if hlNextVolatileOrdinal l = hlVolatileEndExclusive l
     then hmNextUnreservedAdmissionOrdinal (hlMetadata l) else hlNextVolatileOrdinal l)"

definition ordinalLive :: "(unit \<Rightarrow> copySlot \<Rightarrow> bytes option) \<Rightarrow> ledger \<Rightarrow> bool" where
  "ordinalLive mcells l = (durableHubMetadata mcells = Some (hlMetadata l, hlMetadataCopy l)
     \<and> validOrdinalHighWater (hmNextUnreservedAdmissionOrdinal (hlMetadata l))
     \<and> (hlNextVolatileOrdinal l \<noteq> hlVolatileEndExclusive l \<longrightarrow> 0 < hlNextVolatileOrdinal l
          \<and> hlNextVolatileOrdinal l < hlVolatileEndExclusive l
          \<and> hlVolatileEndExclusive l = hmNextUnreservedAdmissionOrdinal (hlMetadata l)))"

definition ledgerInv :: "(unit \<Rightarrow> copySlot \<Rightarrow> bytes option) \<Rightarrow> (nat \<Rightarrow> copySlot \<Rightarrow> bytes option) \<Rightarrow> ledger \<Rightarrow> bool" where
  "ledgerInv mcells rcells l = (hubStored rcells l \<and> hubCustody mcells rcells
     \<and> (hlOrdinalReady l \<longrightarrow> ordinalLive mcells l
          \<and> (\<forall>k<8. isOwned (hubSlotRecord l k) \<longrightarrow> hrAdmissionOrdinal (hubSlotRecord l k) < ordinalCursor l)))"

lemma ledgerInv_custody: "ledgerInv mcells rcells l \<Longrightarrow> hubCustody mcells rcells"
  by (simp add: ledgerInv_def)

lemma hubStored_view: "hubStored cells l \<Longrightarrow> k < 8 \<Longrightarrow> hubView cells k = Some (hubSlotRecord l k)"
  by (simp add: hubStored_def hubView_def)

lemma hubStored_wf:
  assumes "hubStored cells l" "k < 8"
  shows "hubRecord_wf (hubSlotRecord l k)"
proof -
  have "Option.bind (cells k (hssActiveCopy (hlSlots l ! k))) decodeHubRecordForSelection = Some (hubSlotRecord l k)"
    using assms authoritative_cell [of hrGeneration decodeHubRecordForSelection "cells k"]
    by (simp add: hubStored_def durableHubRecord_def)
  then show ?thesis using hub_record.dec_wf by (auto simp: Option.bind_eq_Some_conv)
qed

lemma ordinalCursor_le: "ordinalLive mcells l \<Longrightarrow> ordinalCursor l \<le> hmNextUnreservedAdmissionOrdinal (hlMetadata l)"
  by (auto simp: ordinalLive_def ordinalCursor_def)

lemma ordinalLive_below: "ordinalLive mcells l \<Longrightarrow> n < ordinalCursor l \<Longrightarrow> belowHighWater mcells n"
  using ordinalCursor_le [of mcells l] by (auto simp: ordinalLive_def belowHighWater_def)

lemma ordinalLive_above: "ordinalLive mcells l \<Longrightarrow> belowHighWater mcells n \<Longrightarrow> n < hmNextUnreservedAdmissionOrdinal (hlMetadata l)"
  by (auto simp: ordinalLive_def belowHighWater_def)

lemma ownedDistinct_update:
  assumes "ownedDistinct v"
    and "\<And>j b. j < 8 \<Longrightarrow> j \<noteq> k \<Longrightarrow> v j = Some b \<Longrightarrow> isOwned b \<Longrightarrow> isOwned rec \<Longrightarrow>
      hubKey b \<noteq> hubKey rec \<and> hrAdmissionOrdinal b \<noteq> hrAdmissionOrdinal rec"
  shows "ownedDistinct (v(k \<mapsto> rec))"
  using assms unfolding ownedDistinct_def by (auto split: if_splits) (metis+)

lemma hubView_commit:
  assumes "\<forall>k'. k' \<noteq> k \<longrightarrow> cells' k' = cells k'"
  shows "durableHubRecord cells' k = Some (rec, c) \<Longrightarrow> hubView cells' = (hubView cells)(k \<mapsto> rec)"
    and "durableHubRecord cells' k = durableHubRecord cells k \<Longrightarrow> hubView cells' = hubView cells"
proof -
  have "hubView cells' j = hubView cells j" if "j \<noteq> k" for j using assms that by (simp add: hubView_def durableHubRecord_def)
  then show "durableHubRecord cells' k = Some (rec, c) \<Longrightarrow> hubView cells' = (hubView cells)(k \<mapsto> rec)"
    and "durableHubRecord cells' k = durableHubRecord cells k \<Longrightarrow> hubView cells' = hubView cells"
    by (auto simp: fun_eq_iff hubView_def) (metis)
qed

lemma word_step: "(x :: u32) < y \<Longrightarrow> x < x + 1 \<and> x + 1 \<le> y"
  by unat_arith

lemma word_block_step:
  assumes "\<not> (w :: u32) > UINT32_MAX - ORDINAL_RESERVATION_BLOCK_SIZE"
  shows "w < w + 1" "w + 1 < w + 32" "w < w + 32"
proof -
  have "unat w \<le> 0xFFFFFFDF" using assms by (simp add: word_le_nat_alt not_less)
  then have "unat (w + 32) = unat w + 32" "unat (w + 1) = unat w + 1"
    by (subst unat_add_lem [THEN iffD1]; simp)+
  then show "w < w + 1" "w + 1 < w + 32" "w < w + 32" by (simp_all add: word_less_nat_alt)
qed

lemma validOrdinalHighWater_next:
  "validOrdinalHighWater w \<Longrightarrow> \<not> w > UINT32_MAX - ORDINAL_RESERVATION_BLOCK_SIZE \<Longrightarrow> validOrdinalHighWater (w + 32)"
  using validHighWater_next(1) [of w] by (simp add: validOrdinalHighWater_def validHighWater_def)

text \<open>A record that may be committed to slot \<open>k\<close>.\<close>

definition hubCommittable :: "(unit \<Rightarrow> copySlot \<Rightarrow> bytes option) \<Rightarrow> ledger \<Rightarrow> nat \<Rightarrow> hubRecord \<Rightarrow> bool" where
  "hubCommittable mcells l k rec = (k < 8 \<and> hrGeneration rec = hrGeneration (hubSlotRecord l k) + 1 \<and> hubRecord_wf rec
     \<and> isOwned rec \<and> belowHighWater mcells (hrAdmissionOrdinal rec)
     \<and> (hlOrdinalReady l \<longrightarrow> hrAdmissionOrdinal rec < ordinalCursor l)
     \<and> (\<forall>j<8. j \<noteq> k \<longrightarrow> isOwned (hubSlotRecord l j) \<longrightarrow> hubKey (hubSlotRecord l j) \<noteq> hubKey rec
          \<and> hrAdmissionOrdinal (hubSlotRecord l j) \<noteq> hrAdmissionOrdinal rec))"

lemma hubCustody_update:
  assumes "ledgerInv mcells rcells l" "hubCommittable mcells l k rec" "hubView rcells' = (hubView rcells)(k \<mapsto> rec)"
  shows "hubCustody mcells rcells'"
  using assms hubStored_view [of rcells l] unfolding hubCustody_def ledgerInv_def hubCommittable_def
  by (auto intro!: ownedDistinct_update split: if_splits)

context hub_storage
begin

lemma commitNext_inv:
  assumes run: "hl_commitNext ops k rec l s = (ok, l', s')" and inv: "ledgerInv (mcell s) (rcell s) l"
    and cm: "hubCommittable (mcell s) l k rec"
  shows "mcell s' = mcell s \<and> hubCustody (mcell s) (rcell s')
    \<and> (if ok then ledgerInv (mcell s) (rcell s') l' \<and> hlHealthy l' = hlHealthy l
         \<and> hubView (rcell s') = (hubView (rcell s))(k \<mapsto> rec)
         \<and> l' = l\<lparr>hlSlots := (hlSlots l)[k := \<lparr>hssPresent = True,
             hssActiveCopy = opposite (hssActiveCopy (hlSlots l ! k)), hssRecord = rec\<rparr>]\<rparr>
       else \<not> hlHealthy l' \<and> hubView (rcell s') \<in> {hubView (rcell s), (hubView (rcell s))(k \<mapsto> rec)})"
proof -
  let ?t = "opposite (hssActiveCopy (hlSlots l ! k))"
  have k: "k < 8" "hubRecord_wf rec" "hrGeneration rec = hrGeneration (hubSlotRecord l k) + 1"
    using cm by (auto simp: hubCommittable_def)
  have st: "hubStored (rcell s) l" using inv by (simp add: ledgerInv_def)
  then have "authoritative hrGeneration decodeHubRecordForSelection (rcell s k) = Some (hubSlotRecord l k, hssActiveCopy (hlSlots l ! k))"
    using k(1) by (simp add: hubStored_def durableHubRecord_def)
  then have "supersedes hrGeneration decodeHubRecordForSelection (rcell s k) ?t rec" using k(3) by (rule supersedes_next)
  note C = commitRecord_outcome [OF run [unfolded hl_commitNext_def] this k(2)]
  have oth: "\<forall>k'. k' \<noteq> k \<longrightarrow> rcell s' k' = rcell s k'" and mc: "mcell s' = mcell s" using C by auto
  show ?thesis
  proof (cases ok)
    case True
    then have l': "l' = l\<lparr>hlSlots := (hlSlots l)[k := \<lparr>hssPresent = True, hssActiveCopy = ?t, hssRecord = rec\<rparr>]\<rparr>"
      and d: "durableHubRecord (rcell s') k = Some (rec, ?t)" using C by auto
    have v: "hubView (rcell s') = (hubView (rcell s))(k \<mapsto> rec)" using hubView_commit(1) [OF oth d] .
    have cu: "hubCustody (mcell s) (rcell s')" using hubCustody_update [OF inv cm v] .
    have "hubStored (rcell s') l'" using st k(1) oth d l' by (auto simp: hubStored_def nth_list_update durableHubRecord_def)
    moreover have "ordinalLive (mcell s) l' = ordinalLive (mcell s) l" "ordinalCursor l' = ordinalCursor l" "hlOrdinalReady l' = hlOrdinalReady l"
      using l' by (simp_all add: ordinalLive_def ordinalCursor_def)
    ultimately have "ledgerInv (mcell s) (rcell s') l'"
      using inv cm cu l' k(1) st by (auto simp: ledgerInv_def hubCommittable_def hubStored_def nth_list_update)
    then show ?thesis using True mc cu v l' by simp
  next
    case False
    then have "durableHubRecord (rcell s') k \<in> {durableHubRecord (rcell s) k, Some (rec, ?t)}" "\<exists>e. l' = failLedger e l"
      using C by auto
    then have v: "hubView (rcell s') \<in> {hubView (rcell s), (hubView (rcell s))(k \<mapsto> rec)}" and "\<not> hlHealthy l'"
      using hubView_commit [OF oth] by (auto simp: failLedger_def)
    moreover have "hubCustody (mcell s) (rcell s')"
      using v hubCustody_update [OF inv cm, of "rcell s'"] inv by (auto simp: ledgerInv_def hubCustody_def)
    ultimately show ?thesis using False mc by simp
  qed
qed

lemma allocateOrdinal_outcome:
  assumes run: "allocateOrdinal ops l s = (res, l', s')" and rd: "hlOrdinalReady l" and live: "ordinalLive (mcell s) l"
  shows "rcell s' = rcell s \<and> hlSlots l' = hlSlots l \<and> hlHealthy l' = hlHealthy l
    \<and> (\<forall>n. belowHighWater (mcell s) n \<longrightarrow> belowHighWater (mcell s') n)
    \<and> (case res of None \<Rightarrow> \<not> hlOrdinalReady l'
       | Some n \<Rightarrow> n \<noteq> 0 \<and> hlOrdinalReady l' \<and> ordinalLive (mcell s') l' \<and> ordinalCursor l \<le> n \<and> n < ordinalCursor l')"
proof (cases "hlNextVolatileOrdinal l = hlVolatileEndExclusive l")
  case False
  then have lt: "hlNextVolatileOrdinal l < hlVolatileEndExclusive l" "0 < hlNextVolatileOrdinal l"
    and e: "hlVolatileEndExclusive l = hmNextUnreservedAdmissionOrdinal (hlMetadata l)"
    and d: "durableHubMetadata (mcell s) = Some (hlMetadata l, hlMetadataCopy l)"
      "validOrdinalHighWater (hmNextUnreservedAdmissionOrdinal (hlMetadata l))"
    using live by (metis ordinalLive_def)+
  let ?l = "l\<lparr>hlNextVolatileOrdinal := hlNextVolatileOrdinal l + 1\<rparr>"
  note n = word_step [OF lt(1)]
  have pos: "0 < hlNextVolatileOrdinal l + 1" using n by (auto simp: word_gt_0)
  have "ordinalLive (mcell s) ?l" "hlNextVolatileOrdinal l < ordinalCursor ?l"
    using n pos lt d e by (auto simp: ordinalLive_def ordinalCursor_def order_le_less)
  moreover have "res = Some (hlNextVolatileOrdinal l)" "l' = ?l" "s' = s"
    using run rd False by (auto simp: allocateOrdinal_def)
  ultimately show ?thesis using lt rd False by (simp add: ordinalCursor_def word_gt_0)
next
  case True
  let ?st = "hmNextUnreservedAdmissionOrdinal (hlMetadata l)"
  let ?m = "(hlMetadata l)\<lparr>hmGeneration := hmGeneration (hlMetadata l) + 1, hmNextUnreservedAdmissionOrdinal := ?st + 32\<rparr>"
  show ?thesis
  proof (cases "?st > UINT32_MAX - ORDINAL_RESERVATION_BLOCK_SIZE")
    case True
    then show ?thesis using run rd \<open>hlNextVolatileOrdinal l = hlVolatileEndExclusive l\<close> by (auto simp: allocateOrdinal_def)
  next
    case False
    note no = word_block_step [OF False]
    have hw: "?st \<noteq> 0" "validOrdinalHighWater ?st" "durableHubMetadata (mcell s) = Some (hlMetadata l, hlMetadataCopy l)"
      using live by (auto simp: ordinalLive_def validOrdinalHighWater_def)
    have hw': "validOrdinalHighWater (?st + 32)" using hw(2) False by (rule validOrdinalHighWater_next)
    obtain ok l1 s1 where c: "hl_commitMetadata ops ?m (opposite (hlMetadataCopy l)) l s = (ok, l1, s1)" using prod_cases3 by blast
    have "supersedes hmGeneration decodeHubMetadataForSelection (mcell s ()) (opposite (hlMetadataCopy l)) ?m"
      using hw(3) by (intro supersedes_next [of _ _ _ "hlMetadata l"]) (simp_all add: durableHubMetadata_def)
    note C = commitMetadata_outcome [OF c this]
    have r: "if ok then res = Some ?st \<and> s' = s1 \<and> l' = l1\<lparr>hlNextVolatileOrdinal := ?st + 1, hlVolatileEndExclusive := ?st + 32\<rparr>
        else res = None \<and> l' = l1 \<and> s' = s1"
      using run rd True False c by (auto simp: allocateOrdinal_def split: if_splits)
    have mono: "\<forall>n. belowHighWater (mcell s) n \<longrightarrow> belowHighWater (mcell s1) n"
      using C hw(3) no(3) by (cases ok) (auto simp: belowHighWater_def intro: less_trans)
    show ?thesis
    proof (cases ok)
      case ok: True
      then show ?thesis using r C mono hw hw' no True
        by (auto simp: ordinalLive_def ordinalCursor_def word_gt_0)
    next
      case ok: False
      then show ?thesis using r C mono by (auto simp: failOrdinal_def)
    qed
  qed
qed

end

subsection \<open>Admission and consumption\<close>

lemma scanOldest_spec:
  "case scanOldest q l xs of None \<Rightarrow> \<forall>i\<in>set xs. \<not> q (hubSlotRecord l i)
   | Some k \<Rightarrow> k \<in> set xs \<and> q (hubSlotRecord l k)
       \<and> (\<forall>i\<in>set xs. q (hubSlotRecord l i) \<longrightarrow> hrAdmissionOrdinal (hubSlotRecord l k) \<le> hrAdmissionOrdinal (hubSlotRecord l i))"
proof (induction xs rule: rev_induct)
  case Nil
  then show ?case by (simp add: scanOldest_def)
next
  case (snoc x xs)
  have "scanOldest q l (xs @ [x]) = (if \<not> q (hubSlotRecord l x) then scanOldest q l xs
      else case scanOldest q l xs of None \<Rightarrow> Some x
        | Some f \<Rightarrow> if hrAdmissionOrdinal (hubSlotRecord l x) < hrAdmissionOrdinal (hubSlotRecord l f) then Some x
                   else scanOldest q l xs)"
    unfolding scanOldest_def by (simp split: option.split)
  then show ?case using snoc by (cases "scanOldest q l xs") (auto intro: less_imp_le order_trans)
qed

lemma admissionTarget_some:
  assumes "admissionTarget e l = Some k"
  shows "k < 8 \<and> (hrState (hubSlotRecord l k) = HS_EMPTY
    \<or> hrState (hubSlotRecord l k) = HS_CONSUMED \<and> incomingLater e (hubSlotRecord l k)
      \<and> (\<forall>j<8. hrState (hubSlotRecord l j) \<noteq> HS_EMPTY))"
proof (cases "firstEmpty l")
  case None
  then have "oldestReclaimable e l = Some k" using assms by (simp add: admissionTarget_def)
  then show ?thesis using None scanOldest_spec [of "[0..<8]" "\<lambda>r. hrState r = HS_CONSUMED \<and> incomingLater e r" l]
    by (auto simp: oldestReclaimable_def firstEmpty_def find_None_iff)
next
  case (Some j)
  then have "j = k" using assms by (simp add: admissionTarget_def)
  then show ?thesis using Some by (auto simp: firstEmpty_def find_Some_iff)
qed

lemma hl_note_simps [simp]:
  "hlSlots (hl_note e n l) = hlSlots l" "hlMetadata (hl_note e n l) = hlMetadata l" "hlMetadataCopy (hl_note e n l) = hlMetadataCopy l"
  "hlNextVolatileOrdinal (hl_note e n l) = hlNextVolatileOrdinal l" "hlVolatileEndExclusive (hl_note e n l) = hlVolatileEndExclusive l"
  "hlHealthy (hl_note e n l) = hlHealthy l" "hlOrdinalReady (hl_note e n l) = hlOrdinalReady l" "hlStatus (hl_note e n l) = hlStatus l"
  by (simp_all add: hl_note_def)

lemma hl_persistenceFailure_simps [simp]:
  "hlSlots (hl_persistenceFailure l) = hlSlots l" "hlMetadata (hl_persistenceFailure l) = hlMetadata l"
  "hlMetadataCopy (hl_persistenceFailure l) = hlMetadataCopy l" "hlNextVolatileOrdinal (hl_persistenceFailure l) = hlNextVolatileOrdinal l"
  "hlVolatileEndExclusive (hl_persistenceFailure l) = hlVolatileEndExclusive l" "hlHealthy (hl_persistenceFailure l) = hlHealthy l"
  "hlOrdinalReady (hl_persistenceFailure l) = hlOrdinalReady l"
  by (simp_all add: hl_persistenceFailure_def Let_def)

lemma updateActiveSnapshot_simps [simp]:
  "hlSlots (updateActiveSnapshot l) = hlSlots l" "hlMetadata (updateActiveSnapshot l) = hlMetadata l"
  "hlMetadataCopy (updateActiveSnapshot l) = hlMetadataCopy l" "hlNextVolatileOrdinal (updateActiveSnapshot l) = hlNextVolatileOrdinal l"
  "hlVolatileEndExclusive (updateActiveSnapshot l) = hlVolatileEndExclusive l" "hlHealthy (updateActiveSnapshot l) = hlHealthy l"
  "hlOrdinalReady (updateActiveSnapshot l) = hlOrdinalReady l"
  by (simp_all add: updateActiveSnapshot_def)

lemma ledgerInv_diagnostics [simp]:
  "ledgerInv m r (hl_note e n l) = ledgerInv m r l" "ledgerInv m r (hl_persistenceFailure l) = ledgerInv m r l"
  "ledgerInv m r (updateActiveSnapshot l) = ledgerInv m r l"
  "ordinalCursor (hl_note e n l) = ordinalCursor l" "ordinalCursor (updateActiveSnapshot l) = ordinalCursor l"
  "ordinalCursor (hl_persistenceFailure l) = ordinalCursor l"
  by (simp_all add: ledgerInv_def hubStored_def ordinalLive_def ordinalCursor_def)

lemma admittedRecord_wf: "hubRecord_wf (admittedRecord old e n)"
  by (simp add: admittedRecord_def hubRecord_wf_def hubRecord_init_def)

lemma admittedRecord_key:
  "hubKey (admittedRecord old e n) = (evSource e, evEpoch e, evId e)" "hrAdmissionOrdinal (admittedRecord old e n) = n"
  "isOwned (admittedRecord old e n)" "hrGeneration (admittedRecord old e n) = hrGeneration old + 1"
  by (simp_all add: admittedRecord_def hubKey_def isOwned_def)

lemma sameIdentity_key: "sameIdentity r e \<longleftrightarrow> hubKey r = (evSource e, evEpoch e, evId e)"
  by (auto simp: sameIdentity_def hubKey_def)

lemma consumed_committable:
  assumes inv: "ledgerInv mcells rcells l" and h: "k < 8" "hrState (hubSlotRecord l k) = HS_ACTIVE"
  shows "hubCommittable mcells l k (consumedRecord (hubSlotRecord l k))"
proof -
  let ?old = "hubSlotRecord l k" and ?rec = "consumedRecord (hubSlotRecord l k)"
  have st: "hubStored rcells l" and cu: "hubCustody mcells rcells" using inv by (auto simp: ledgerInv_def)
  have own: "isOwned ?old" "isOwned ?rec" "hubKey ?rec = hubKey ?old" "hrAdmissionOrdinal ?rec = hrAdmissionOrdinal ?old"
    using h(2) by (simp_all add: isOwned_def consumedRecord_def hubKey_def)
  have "hubRecord_wf ?rec" using hubStored_wf [OF st h(1)] by (simp add: consumedRecord_def hubRecord_wf_def)
  moreover have "belowHighWater mcells (hrAdmissionOrdinal ?old)"
    using cu hubStored_view [OF st h(1)] h(1) own(1) by (auto simp: hubCustody_def)
  moreover have "hubKey (hubSlotRecord l j) \<noteq> hubKey ?old \<and> hrAdmissionOrdinal (hubSlotRecord l j) \<noteq> hrAdmissionOrdinal ?old"
    if "j < 8" "j \<noteq> k" "isOwned (hubSlotRecord l j)" for j
    using cu that h(1) own(1) hubStored_view [OF st that(1)] hubStored_view [OF st h(1)]
    by (auto simp: hubCustody_def ownedDistinct_def)
  moreover have "hlOrdinalReady l \<longrightarrow> hrAdmissionOrdinal ?old < ordinalCursor l" using inv h(1) own(1) by (auto simp: ledgerInv_def)
  moreover have "hrGeneration ?rec = hrGeneration ?old + 1" by (simp add: consumedRecord_def)
  ultimately show ?thesis using own h(1) by (simp add: hubCommittable_def)
qed

text \<open>The slot that holds the identity of an Event.\<close>

definition holder :: "event \<Rightarrow> ledger \<Rightarrow> nat option" where
  "holder e l = find (\<lambda>k. isOwned (hubSlotRecord l k) \<and> sameIdentity (hubSlotRecord l k) e) [0..<8]"

text \<open>The record an admission tries to make durable, given the ordinal it allocates.\<close>

definition admitting :: "event \<Rightarrow> ledger \<Rightarrow> nat \<Rightarrow> bool" where
  "admitting e l k = (hlHealthy l \<and> validateAdmission e l = DURABLE_NEW_ADMISSION \<and> holder e l = None
     \<and> admissionTarget e l = Some k \<and> hlOrdinalReady l)"

context hub_storage
begin

lemma admit_outcome:
  assumes run: "admit ops e l s = (r, l', s')" and inv: "ledgerInv (mcell s) (rcell s) l"
  shows "hubCustody (mcell s') (rcell s') \<and> (hlHealthy l' \<longrightarrow> hlHealthy l \<and> ledgerInv (mcell s') (rcell s') l'
        \<and> (hlOrdinalReady l' \<longrightarrow> hlOrdinalReady l \<and> ordinalCursor l \<le> ordinalCursor l'))
    \<and> (\<forall>n. belowHighWater (mcell s) n \<longrightarrow> belowHighWater (mcell s') n)
    \<and> (if adStatus r = DURABLE_NEW_ADMISSION
       then admitting e l (adSlot r) \<and> hlHealthy l' \<and> hlOrdinalReady l' \<and> ordinalCursor l \<le> adAdmissionOrdinal r
         \<and> adAdmissionOrdinal r < ordinalCursor l'
         \<and> hubView (rcell s') = (hubView (rcell s))(adSlot r \<mapsto> admittedRecord (hubSlotRecord l (adSlot r)) e (adAdmissionOrdinal r))
       else hubView (rcell s') = hubView (rcell s)
         \<or> (\<exists>k n. admitting e l k \<and> adStatus r = ADM_STORAGE_FAILURE \<and> \<not> hlHealthy l'
              \<and> hubView (rcell s') = (hubView (rcell s))(k \<mapsto> admittedRecord (hubSlotRecord l k) e n)))"
proof (cases "\<exists>k. admitting e l k")
  case False
  then have "s' = s \<and> adStatus r \<noteq> DURABLE_NEW_ADMISSION \<and> (l' = l \<or> (\<exists>d. l' = hl_note d 1 l) \<or> l' = hl_persistenceFailure l)"
    using run by (auto simp: admit_def admitting_def holder_def split: if_splits option.splits)
  then show ?thesis using inv ledgerInv_custody [OF inv] by auto
next
  case True
  then obtain k where k: "admitting e l k" by blast
  then have g: "hlHealthy l" "validateAdmission e l = DURABLE_NEW_ADMISSION" "holder e l = None" "admissionTarget e l = Some k"
    "hlOrdinalReady l" by (auto simp: admitting_def)
  have live: "ordinalLive (mcell s) l" and st: "hubStored (rcell s) l"
    and below: "\<forall>j<8. isOwned (hubSlotRecord l j) \<longrightarrow> hrAdmissionOrdinal (hubSlotRecord l j) < ordinalCursor l"
    using inv g(5) by (auto simp: ledgerInv_def)
  obtain res l1 s1 where a: "allocateOrdinal ops l s = (res, l1, s1)" using prod_cases3 by blast
  note A = allocateOrdinal_outcome [OF a g(5) live]
  have cu: "hubCustody (mcell s1) (rcell s1)" using A inv by (auto simp: ledgerInv_def hubCustody_def)
  have st1: "hubStored (rcell s1) l1" using st A by (simp add: hubStored_def)
  show ?thesis
  proof (cases res)
    case None
    then have "r = \<lparr>adStatus = ADM_STORAGE_FAILURE, adSlot = 0xFF, adAdmissionOrdinal = 0\<rparr>" "l' = hl_persistenceFailure l1" "s' = s1"
      using run g a by (auto simp: admit_def holder_def)
    moreover have "ledgerInv (mcell s1) (rcell s1) l1" using A None cu st1 by (simp add: ledgerInv_def)
    ultimately show ?thesis using A None cu g(1) by auto
  next
    case (Some n)
    let ?rec = "admittedRecord (hubSlotRecord l k) e n"
    have N: "ordinalLive (mcell s1) l1" "ordinalCursor l \<le> n" "n < ordinalCursor l1" "hlOrdinalReady l1" "hlSlots l1 = hlSlots l"
      "hlHealthy l1" "rcell s1 = rcell s" using A Some g(1) by auto
    have inv1: "ledgerInv (mcell s1) (rcell s1) l1" using below N cu st1 by (auto simp: ledgerInv_def intro: less_le_trans less_trans)
    have k8: "k < 8" using admissionTarget_some [OF g(4)] by simp
    have "belowHighWater (mcell s1) n" using ordinalLive_below N by blast
    moreover have "hubKey (hubSlotRecord l j) \<noteq> hubKey ?rec" "hrAdmissionOrdinal (hubSlotRecord l j) \<noteq> n"
      if "j < 8" "isOwned (hubSlotRecord l j)" for j
      using that g(3) below N(2) by (auto simp: holder_def find_None_iff sameIdentity_key admittedRecord_key)
    ultimately have cm: "hubCommittable (mcell s1) l1 k ?rec"
      using k8 N by (auto simp: hubCommittable_def admittedRecord_wf admittedRecord_key)
    obtain ok l2 s2 where c: "hl_commitNext ops k ?rec l1 s1 = (ok, l2, s2)" using prod_cases3 by blast
    note C = commitNext_inv [OF c inv1 cm]
    have R: "if ok then r = \<lparr>adStatus = DURABLE_NEW_ADMISSION, adSlot = k, adAdmissionOrdinal = n\<rparr> \<and> s' = s2
          \<and> l' = updateActiveSnapshot (hl_note ED_SUCCESSFUL_ADMISSION 1 l2)
        else r = \<lparr>adStatus = ADM_STORAGE_FAILURE, adSlot = 0xFF, adAdmissionOrdinal = 0\<rparr> \<and> s' = s2 \<and> l' = hl_persistenceFailure l2"
      using run g a Some c N(5) by (auto simp: admit_def holder_def split: if_splits)
    show ?thesis
    proof (cases ok)
      case True
      then have "ordinalCursor l2 = ordinalCursor l1" "hlOrdinalReady l2" "hlHealthy l2" using C N by (auto simp: ordinalCursor_def)
      then show ?thesis using R True C N k A g(1,5) by (auto intro: order_trans less_imp_le)
    next
      case False
      then show ?thesis using R C N k A g(1) by auto
    qed
  qed
qed

lemma consume_outcome:
  assumes run: "consume ops i l s = (r, l', s')" and inv: "ledgerInv (mcell s) (rcell s) l"
  shows "mcell s' = mcell s \<and> hubCustody (mcell s') (rcell s')
    \<and> (hlHealthy l' \<longrightarrow> hlHealthy l \<and> ledgerInv (mcell s') (rcell s') l' \<and> ordinalCursor l' = ordinalCursor l
        \<and> hlOrdinalReady l' = hlOrdinalReady l)
    \<and> ((\<exists>k<8. hasIdentity i (hubSlotRecord l k) \<and> hrState (hubSlotRecord l k) = HS_ACTIVE \<and> coSlot r = k
        \<and> (if coStatus r = CONSUMED then hlHealthy l' \<and> hubView (rcell s') = (hubView (rcell s))(k \<mapsto> consumedRecord (hubSlotRecord l k))
           else coStatus r = CON_STORAGE_FAILURE \<and> \<not> hlHealthy l'
             \<and> hubView (rcell s') \<in> {hubView (rcell s), (hubView (rcell s))(k \<mapsto> consumedRecord (hubSlotRecord l k))}))
      \<or> coStatus r \<in> {ALREADY_CONSUMED, CON_NOT_FOUND, CON_DEGRADED} \<and> l' = l \<and> s' = s)"
proof (cases "hlHealthy l \<and> (\<exists>k. find (\<lambda>k. hasIdentity i (hubSlotRecord l k)) [0..<8] = Some k \<and> hrState (hubSlotRecord l k) \<noteq> HS_CONSUMED)")
  case False
  then have "coStatus r \<in> {ALREADY_CONSUMED, CON_NOT_FOUND, CON_DEGRADED} \<and> l' = l \<and> s' = s"
    using run by (auto simp: consume_def split: if_splits option.splits)
  then show ?thesis using inv ledgerInv_custody [OF inv] by auto
next
  case True
  then obtain k where k: "find (\<lambda>k. hasIdentity i (hubSlotRecord l k)) [0..<8] = Some k" "hrState (hubSlotRecord l k) \<noteq> HS_CONSUMED"
    "hlHealthy l" by blast
  have h: "k < 8" "hasIdentity i (hubSlotRecord l k)" "hrState (hubSlotRecord l k) = HS_ACTIVE"
    using k by (auto simp: find_Some_iff hasIdentity_def isOwned_def)
  let ?rec = "consumedRecord (hubSlotRecord l k)"
  note cm = consumed_committable [OF inv h(1,3)]
  obtain ok l1 s1 where c: "hl_commitNext ops k ?rec l s = (ok, l1, s1)" using prod_cases3 by blast
  note C = commitNext_inv [OF c inv cm]
  have R: "s' = s1 \<and> (if ok then r = \<lparr>coStatus = CONSUMED, coSlot = k\<rparr> \<and> l' = updateActiveSnapshot (hl_note ED_HOST_CONSUMPTION 1 l1)
      else r = \<lparr>coStatus = CON_STORAGE_FAILURE, coSlot = k\<rparr> \<and> l' = hl_persistenceFailure l1)"
    using run k c by (auto simp: consume_def split: if_splits)
  show ?thesis
  proof (cases ok)
    case True
    then have "ordinalCursor l1 = ordinalCursor l" "hlOrdinalReady l1 = hlOrdinalReady l" "hlHealthy l1"
      using C k by (auto simp: ordinalCursor_def)
    then show ?thesis using R True C h k by auto
  next
    case False
    then show ?thesis using R C h k by auto
  qed
qed

end

subsection \<open>Recovery\<close>

lemma slotConflict_None:
  "slotConflict slots i js = None \<longleftrightarrow> (\<forall>j\<in>set js. isOwned (hssRecord (slots ! j)) \<longrightarrow>
     hubKey (hssRecord (slots ! i)) \<noteq> hubKey (hssRecord (slots ! j))
     \<and> hrAdmissionOrdinal (hssRecord (slots ! i)) \<noteq> hrAdmissionOrdinal (hssRecord (slots ! j)))"
  by (induction slots i js rule: slotConflict.induct) (auto simp: hubKey_def)

lemma validateSlotsFrom_None:
  "validateSlotsFrom slots is = None \<longleftrightarrow> (\<forall>i\<in>set is. hssPresent (slots ! i) \<and> (isOwned (hssRecord (slots ! i)) \<longrightarrow>
     slotConflict slots i [0..<i] = None))"
  by (induction slots "is" rule: validateSlotsFrom.induct) (auto split: option.splits)

definition slotView :: "hubSlotState list \<Rightarrow> nat \<Rightarrow> hubRecord option" where
  "slotView slots k = (if hssPresent (slots ! k) then Some (hssRecord (slots ! k)) else None)"

lemma ownedDistinct_slots:
  assumes "\<forall>k<8. hssPresent (slots ! k)"
  shows "ownedDistinct (slotView slots) \<longleftrightarrow>
    (\<forall>i<8. isOwned (hssRecord (slots ! i)) \<longrightarrow> slotConflict slots i [0..<i] = None)"
proof -
  let ?r = "\<lambda>i. hssRecord (slots ! i)"
  let ?d = "\<lambda>i j. hubKey (?r i) \<noteq> hubKey (?r j) \<and> hrAdmissionOrdinal (?r i) \<noteq> hrAdmissionOrdinal (?r j)"
  have "ownedDistinct (slotView slots) \<longleftrightarrow> (\<forall>i<8. \<forall>j<8. i \<noteq> j \<longrightarrow> isOwned (?r i) \<longrightarrow> isOwned (?r j) \<longrightarrow> ?d i j)"
    using assms by (auto simp: ownedDistinct_def slotView_def)
  also have "\<dots> \<longleftrightarrow> (\<forall>i<8. isOwned (?r i) \<longrightarrow> (\<forall>j<i. isOwned (?r j) \<longrightarrow> ?d i j))" (is "?L = ?R")
  proof
    assume R: ?R
    show ?L
    proof (intro allI impI)
      fix i j :: nat assume "i < 8" "j < 8" "i \<noteq> j" "isOwned (?r i)" "isOwned (?r j)"
      then show "?d i j" using R by (metis nat_neq_iff)
    qed
  qed auto
  finally show ?thesis by (simp add: slotConflict_None Ball_def)
qed

lemma validateRecoveredSlots_spec:
  assumes "validateRecoveredSlots l = (v, l')"
  shows "if v then l' = l \<and> (\<forall>k<8. hssPresent (hlSlots l ! k)) \<and> ownedDistinct (slotView (hlSlots l))
    else (\<exists>e. l' = failLedger e l)"
    and "(\<forall>k<8. hssPresent (hlSlots l ! k)) \<Longrightarrow> ownedDistinct (slotView (hlSlots l)) \<Longrightarrow> v"
  using assms ownedDistinct_slots [of "hlSlots l"] validateSlotsFrom_None [of "hlSlots l" "[0..<8]"]
  by (cases "validateSlotsFrom (hlSlots l) [0..<8]"; auto simp: validateRecoveredSlots_def)+

text \<open>What the scan leaves in a slot.\<close>

definition hubScanned :: "(nat \<Rightarrow> copySlot \<Rightarrow> bytes option) \<Rightarrow> nat \<Rightarrow> hubSlotState \<Rightarrow> hubSlotState \<Rightarrow> bool" where
  "hubScanned cells k old x = (case durableHubRecord cells k of
     Some (r, c) \<Rightarrow> x = \<lparr>hssPresent = True, hssActiveCopy = c, hssRecord = r\<rparr> | None \<Rightarrow> x = old)"

context hub_storage
begin

lemma recoverSlots_outcome:
  assumes "hl_recoverSlots ops slot acm l s = (ok, acm', l', s')" "length (hlSlots l) = 8"
  shows "rcell s' = rcell s \<and> mcell s' = mcell s
    \<and> (\<exists>sl. length sl = 8 \<and> (if ok then l' = l\<lparr>hlSlots := sl\<rparr>
           \<and> (\<forall>k<8. if k < slot then sl ! k = hlSlots l ! k else hubScanned (rcell s) k (hlSlots l ! k) (sl ! k))
           \<and> (acm' \<longrightarrow> acm \<and> (\<forall>k<8. slot \<le> k \<longrightarrow> rcell s k = (\<lambda>_. None)))
         else (\<exists>e. l' = failLedger e (l\<lparr>hlSlots := sl\<rparr>))))"
  using assms
proof (induction "8 - slot" arbitrary: slot acm l s)
  case 0
  then show ?case by (auto simp: hl_recoverSlots.simps intro!: exI [of _ "hlSlots l"])
next
  case (Suc n)
  then have slot: "slot < 8" by simp
  obtain okA fa l1 s1 where A: "hl_readRecordCopy ops slot CopyA l s = (okA, fa, l1, s1)" using prod_cases4 by blast
  obtain okB fb l2 s2 where B: "hl_readRecordCopy ops slot CopyB l1 s1 = (okB, fb, l2, s2)" using prod_cases4 by blast
  obtain sel m c where sl: "selectCopies hrGeneration decodeHubRecordForSelection fa fb hubRecord_init CopyA = (sel, m, c)"
    using prod_cases3 by blast
  note RA = readRecordCopy_outcome [OF A] and RB = readRecordCopy_outcome [OF B]
  have fr: "rcell s2 = rcell s" "mcell s2 = mcell s" "rcell s1 = rcell s" "mcell s1 = mcell s" using RA RB by auto
  have keep: "l = l\<lparr>hlSlots := hlSlots l\<rparr>" by simp
  show ?case
  proof (cases "okA \<and> okB \<and> fst (acceptRecordSelection sel l)")
    case False
    then have "\<not> ok \<and> (\<exists>e. l' = failLedger e l) \<and> s' \<in> {s1, s2}"
      using Suc.prems(1) slot A B sl RA RB
      by (subst (asm) hl_recoverSlots.simps) (auto simp: acceptRecordSelection_def Let_def split: if_splits)
    then show ?thesis using fr Suc.prems(2) keep by (auto intro!: exI [of _ "hlSlots l"])
  next
    case True
    have l2: "l2 = l" "okA" "okB" using True RA RB by auto
    have rep: "represents decodeHubRecordForSelection 56 fa (rcell s slot CopyA)" "represents decodeHubRecordForSelection 56 fb (rcell s slot CopyB)"
      and miss: "fcStatus fa = FRS_MISSING \<Longrightarrow> fcStatus fb = FRS_MISSING \<Longrightarrow> rcell s slot = (\<lambda>_. None)"
      using RA RB l2 fr by (auto simp: fun_eq_iff) (metis copySlot.exhaust)
    have acc: "acceptRecordSelection sel l = (True, l)" "sel \<noteq> EQUAL_DISAGREEMENT" "sel \<noteq> SEL_GENERATION_AMBIGUOUS"
      using True by (auto simp: acceptRecordSelection_def split: if_splits)
    define x where "x = (if sel \<noteq> BOTH_INVALID then \<lparr>hssPresent = True, hssActiveCopy = c, hssRecord = m\<rparr> else hlSlots l ! slot)"
    have x: "hubScanned (rcell s) slot (hlSlots l ! slot) x"
      using selectCopies_authoritative(1) [OF rep sl] acc by (auto simp: hubScanned_def durableHubRecord_def settled_def x_def)
    let ?l = "l\<lparr>hlSlots := (hlSlots l)[slot := x]\<rparr>"
    have le: "?l = (if sel \<noteq> BOTH_INVALID then l\<lparr>hlSlots := (hlSlots l)[slot := \<lparr>hssPresent = True, hssActiveCopy = c, hssRecord = m\<rparr>]\<rparr> else l)"
      by (simp add: x_def)
    have rest: "hl_recoverSlots ops (Suc slot) (if fcStatus fa \<noteq> FRS_MISSING \<or> fcStatus fb \<noteq> FRS_MISSING then False else acm) ?l s2 = (ok, acm', l', s')"
      using Suc.prems(1) slot A B sl l2 acc unfolding le
      by (subst (asm) hl_recoverSlots.simps) (auto simp: Let_def split: if_splits)
    have n: "n = 8 - Suc slot" using Suc.hyps(2) by simp
    from Suc.hyps(1) [OF n rest, unfolded fr] Suc.prems(2) obtain sl' where IH: "rcell s' = rcell s" "mcell s' = mcell s" "length sl' = 8"
      "if ok then l' = ?l\<lparr>hlSlots := sl'\<rparr>
         \<and> (\<forall>k<8. if k < Suc slot then sl' ! k = hlSlots ?l ! k else hubScanned (rcell s) k (hlSlots ?l ! k) (sl' ! k))
         \<and> (acm' \<longrightarrow> (if fcStatus fa \<noteq> FRS_MISSING \<or> fcStatus fb \<noteq> FRS_MISSING then False else acm) \<and> (\<forall>k<8. Suc slot \<le> k \<longrightarrow> rcell s k = (\<lambda>_. None)))
       else (\<exists>e. l' = failLedger e (?l\<lparr>hlSlots := sl'\<rparr>))" by auto
    show ?thesis
    proof (cases ok)
      case ok: False
      then show ?thesis using IH by (auto intro!: exI [of _ sl'])
    next
      case ok: True
      have "if k < slot then sl' ! k = hlSlots l ! k else hubScanned (rcell s) k (hlSlots l ! k) (sl' ! k)" if "k < 8" for k
      proof -
        consider "k < slot" | "k = slot" | "slot < k" by linarith
        then show ?thesis using IH(4) ok that x Suc.prems(2) slot by cases (auto dest!: spec [of _ k])
      qed
      moreover have "acm' \<longrightarrow> acm \<and> (\<forall>k<8. slot \<le> k \<longrightarrow> rcell s k = (\<lambda>_. None))"
        using IH(4) ok miss by (auto split: if_splits simp: le_eq_less_or_eq Suc_le_eq)
      ultimately show ?thesis using IH ok by (intro conjI exI [of _ sl']) auto
    qed
  qed
qed

lemma initializeSlots_outcome:
  assumes "hl_initializeSlots ops slot l s = (ok, l', s')" "length (hlSlots l) = 8" "\<forall>k<8. slot \<le> k \<longrightarrow> rcell s k = (\<lambda>_. None)"
  shows "mcell s' = mcell s \<and> (\<forall>k. k < slot \<longrightarrow> rcell s' k = rcell s k)
    \<and> (\<forall>k<8. slot \<le> k \<longrightarrow> durableHubRecord (rcell s') k \<in> {None, Some (emptyRecord, CopyA)})
    \<and> (\<exists>sl. length sl = 8 \<and> (if ok then l' = l\<lparr>hlSlots := sl\<rparr>
           \<and> (\<forall>k<8. if k < slot then sl ! k = hlSlots l ! k else durableHubRecord (rcell s') k = Some (emptyRecord, CopyA)
               \<and> sl ! k = \<lparr>hssPresent = True, hssActiveCopy = CopyA, hssRecord = emptyRecord\<rparr>)
         else (\<exists>e. l' = failLedger e (l\<lparr>hlSlots := sl\<rparr>))))"
  using assms
proof (induction "8 - slot" arbitrary: slot l s)
  case 0
  then show ?case by (auto simp: hl_initializeSlots.simps intro!: exI [of _ "hlSlots l"])
next
  case (Suc n)
  then have slot: "slot < 8" by simp
  define l0 where "l0 = l\<lparr>hlSlots := (hlSlots l)[slot := \<lparr>hssPresent = True, hssActiveCopy = CopyB, hssRecord = emptyRecord\<rparr>]\<rparr>"
  obtain ok1 l1 s1 where c: "hl_commitRecord ops slot emptyRecord CopyA l0 s = (ok1, l1, s1)" using prod_cases3 by blast
  have none: "rcell s slot = (\<lambda>_. None)" using Suc.prems(3) slot by simp
  then have d0: "durableHubRecord (rcell s) slot = None" by (simp add: durableHubRecord_def authoritative_def)
  have "supersedes hrGeneration decodeHubRecordForSelection (rcell s slot) CopyA emptyRecord" "hubRecord_wf emptyRecord"
    using none by (simp_all add: supersedes_def emptyRecord_def hubRecord_init_def hubRecord_wf_def)
  note C = commitRecord_outcome [OF c this]
  have step: "hl_initializeSlots ops slot l s = (if \<not> ok1 then (False, l1, s1) else hl_initializeSlots ops (Suc slot) l1 s1)"
    using slot c by (subst hl_initializeSlots.simps) (simp add: commitInitialRecord_def l0_def)
  show ?case
  proof (cases ok1)
    case False
    have "durableHubRecord (rcell s1) k \<in> {None, Some (emptyRecord, CopyA)}" if "k < 8" "slot \<le> k" for k
      using C False d0 that Suc.prems(3) by (cases "k = slot") (auto simp: durableHubRecord_def authoritative_def)
    then show ?thesis using False step Suc.prems C by (auto simp: l0_def intro!: exI [of _ "hlSlots l0"])
  next
    case True
    let ?l = "l\<lparr>hlSlots := (hlSlots l)[slot := \<lparr>hssPresent = True, hssActiveCopy = CopyA, hssRecord = emptyRecord\<rparr>]\<rparr>"
    have l1: "l1 = ?l" "durableHubRecord (rcell s1) slot = Some (emptyRecord, CopyA)" using C True by (auto simp: l0_def)
    have n: "n = 8 - Suc slot" using Suc.hyps(2) by simp
    have rest: "hl_initializeSlots ops (Suc slot) ?l s1 = (ok, l', s')" using step True Suc.prems(1) l1(1) by simp
    have "\<forall>k<8. Suc slot \<le> k \<longrightarrow> rcell s1 k = (\<lambda>_. None)" using C Suc.prems(3) by auto
    from Suc.hyps(1) [OF n rest _ this] Suc.prems(2) obtain sl' where IH: "mcell s' = mcell s1" "\<forall>k. k < Suc slot \<longrightarrow> rcell s' k = rcell s1 k"
      "\<forall>k<8. Suc slot \<le> k \<longrightarrow> durableHubRecord (rcell s') k \<in> {None, Some (emptyRecord, CopyA)}" "length sl' = 8"
      "if ok then l' = ?l\<lparr>hlSlots := sl'\<rparr> \<and> (\<forall>k<8. if k < Suc slot then sl' ! k = hlSlots ?l ! k
           else durableHubRecord (rcell s') k = Some (emptyRecord, CopyA)
             \<and> sl' ! k = \<lparr>hssPresent = True, hssActiveCopy = CopyA, hssRecord = emptyRecord\<rparr>)
       else (\<exists>e. l' = failLedger e (?l\<lparr>hlSlots := sl'\<rparr>))" by auto
    have ds: "durableHubRecord (rcell s') slot = Some (emptyRecord, CopyA)" using l1(2) IH(2) by (simp add: durableHubRecord_def)
    have dk: "durableHubRecord (rcell s') k \<in> {None, Some (emptyRecord, CopyA)}" if "k < 8" "slot \<le> k" for k
      using that IH(3) ds by (cases "k = slot") auto
    have sk: "if k < slot then sl' ! k = hlSlots l ! k else durableHubRecord (rcell s') k = Some (emptyRecord, CopyA)
           \<and> sl' ! k = \<lparr>hssPresent = True, hssActiveCopy = CopyA, hssRecord = emptyRecord\<rparr>" if "ok" "k < 8" for k
    proof -
      consider "k < slot" | "k = slot" | "slot < k" by linarith
      then show ?thesis using IH(5) that ds Suc.prems(2) slot by cases (auto dest!: spec [of _ k])
    qed
    show ?thesis using IH C dk sk by (intro conjI exI [of _ sl']) auto
  qed
qed

end

lemma scanned_stored:
  assumes "length sl = 8" "\<forall>k<8. hubScanned cells k hubSlotState_init (sl ! k)" "\<forall>k<8. hssPresent (sl ! k)"
  shows "hubStored cells (l\<lparr>hlSlots := sl\<rparr>)"
proof -
  have "durableHubRecord cells k = Some (hssRecord (sl ! k), hssActiveCopy (sl ! k))" if "k < 8" for k
    using assms(2,3) [rule_format, OF that] by (auto simp: hubScanned_def hubSlotState_init_def split: option.splits prod.splits)
  then show ?thesis using assms by (simp add: hubStored_def)
qed

lemma ownedDistinct_cong: "(\<And>k. k < 8 \<Longrightarrow> v k = w k) \<Longrightarrow> ownedDistinct v = ownedDistinct w"
  by (simp add: ownedDistinct_def)

lemma stored_slotView: "hubStored cells l \<Longrightarrow> ownedDistinct (slotView (hlSlots l)) = ownedDistinct (hubView cells)"
  by (rule ownedDistinct_cong) (simp add: slotView_def hubStored_view, simp add: hubStored_def)

lemma enterService_simps [simp]: "hlHealthy (enterService l)" "hlSlots (enterService l) = hlSlots l"
  "ledgerInv m r (enterService l) = ledgerInv m r l" "hlOrdinalReady (enterService l) = hlOrdinalReady l"
  by (simp_all add: enterService_def Let_def ledgerInv_def hubStored_def ordinalLive_def ordinalCursor_def)

text \<open>What every recovery does: it keeps custody of the medium, changes no record that was durable, and
  puts the ledger in service only with a memory that mirrors the medium.\<close>

definition recovered :: "(unit \<Rightarrow> copySlot \<Rightarrow> bytes option) \<Rightarrow> (nat \<Rightarrow> copySlot \<Rightarrow> bytes option) \<Rightarrow>
    (unit \<Rightarrow> copySlot \<Rightarrow> bytes option) \<Rightarrow> (nat \<Rightarrow> copySlot \<Rightarrow> bytes option) \<Rightarrow> ledger \<Rightarrow> bool" where
  "recovered m r m' r' l' = (hubCustody m' r' \<and> (\<forall>n. belowHighWater m n \<longrightarrow> belowHighWater m' n)
     \<and> (\<forall>k<8. \<forall>rec. hubView r k = Some rec \<longrightarrow> hubView r' k = Some rec)
     \<and> ((\<exists>k<8. r k \<noteq> (\<lambda>_. None)) \<longrightarrow> r' = r \<and> m' = m)
     \<and> (hlHealthy l' \<longrightarrow> ledgerInv m' r' l'
         \<and> (hlOrdinalReady l' \<longrightarrow> (\<forall>n. belowHighWater m' n \<longrightarrow> n < ordinalCursor l'))))"

lemma recovered_frame:
  "hubCustody m r \<Longrightarrow> (hlHealthy l' \<Longrightarrow> ledgerInv m r l' \<and> (hlOrdinalReady l' \<longrightarrow> (\<forall>n. belowHighWater m n \<longrightarrow> n < ordinalCursor l'))) \<Longrightarrow>
   recovered m r m r l'"
  by (simp add: recovered_def)

lemma custodyWithoutOrdinals_recovered:
  assumes "hubCustody m r" "length sl = 8" "\<forall>k<8. hubScanned r k hubSlotState_init (sl ! k)"
    and "\<not> hlHealthy l" "\<not> hlOrdinalReady l"
  shows "recovered m r m r (custodyWithoutOrdinals acm (l\<lparr>hlSlots := sl\<rparr>))"
proof (rule recovered_frame [OF assms(1)])
  let ?l = "l\<lparr>hlSlots := sl\<rparr>"
  obtain v l' where v: "validateRecoveredSlots ?l = (v, l')" by fastforce
  note V = validateRecoveredSlots_spec(1) [OF v]
  assume h: "hlHealthy (custodyWithoutOrdinals acm ?l)"
  then have "v" "\<not> acm" using v V assms(4) by (auto simp: custodyWithoutOrdinals_def failLedger_def split: if_splits)
  then have c: "custodyWithoutOrdinals acm ?l = ?l\<lparr>hlHealthy := True, hlStatus := LST_ORDINAL_UNAVAILABLE\<rparr>"
    and "\<forall>k<8. hssPresent (sl ! k)" using v V by (auto simp: custodyWithoutOrdinals_def)
  then have "hubStored r ?l" using scanned_stored [OF assms(2,3)] by blast
  then show "ledgerInv m r (custodyWithoutOrdinals acm ?l)
      \<and> (hlOrdinalReady (custodyWithoutOrdinals acm ?l) \<longrightarrow> (\<forall>n. belowHighWater m n \<longrightarrow> n < ordinalCursor (custodyWithoutOrdinals acm ?l)))"
    using assms(1,5) by (simp add: c ledgerInv_def hubStored_def)
qed

lemma recoverMetadata_spec:
  assumes a: "represents decodeHubMetadataForSelection 24 fa (m () CopyA)" and b: "represents decodeHubMetadataForSelection 24 fb (m () CopyB)"
    and cu: "hubCustody m r" and st: "hubStored r l" and no: "\<not> hlOrdinalReady l"
  shows "ledgerInv m r (recoverMetadata fa fb l)
    \<and> (hlOrdinalReady (recoverMetadata fa fb l) \<longrightarrow> (\<forall>n. belowHighWater m n \<longrightarrow> n < ordinalCursor (recoverMetadata fa fb l)))"
    and "\<lbrakk>durableHubMetadata m = Some (md, c); validOrdinalHighWater (hmNextUnreservedAdmissionOrdinal md)\<rbrakk> \<Longrightarrow>
      hlOrdinalReady (recoverMetadata fa fb l)"
proof -
  obtain sel x c where sl: "selectCopies hmGeneration decodeHubMetadataForSelection fa fb hubMetadata_init CopyA = (sel, x, c)"
    using prod_cases3 by blast
  have au: "durableHubMetadata m = (if settled sel then Some (x, c) else None)"
    using selectCopies_authoritative(1) [OF a b sl] by (simp add: durableHubMetadata_def)
  let ?l = "recoverMetadata fa fb l"
  have slots: "hlSlots ?l = hlSlots l" using sl by (simp add: recoverMetadata_def)
  then have st': "hubStored r ?l" using st by (simp add: hubStored_def)
  have ready: "settled sel \<and> validOrdinalHighWater (hmNextUnreservedAdmissionOrdinal x) \<and> hlMetadata ?l = x \<and> hlMetadataCopy ?l = c
      \<and> hlNextVolatileOrdinal ?l = hlVolatileEndExclusive ?l" if "hlOrdinalReady ?l"
    using that no sl by (auto simp: recoverMetadata_def settled_def split: if_splits)
  have below: "n < ordinalCursor ?l" if "hlOrdinalReady ?l" "belowHighWater m n" for n
    using that ready au by (auto simp: belowHighWater_def ordinalCursor_def)
  have "hrAdmissionOrdinal (hubSlotRecord ?l k) < ordinalCursor ?l" if "hlOrdinalReady ?l" "k < 8" "isOwned (hubSlotRecord ?l k)" for k
    using below [OF that(1)] cu that hubStored_view [OF st' that(2)] by (auto simp: hubCustody_def)
  moreover have "ordinalLive m ?l" if "hlOrdinalReady ?l" using ready [OF that] au by (simp add: ordinalLive_def)
  ultimately show "ledgerInv m r ?l \<and> (hlOrdinalReady ?l \<longrightarrow> (\<forall>n. belowHighWater m n \<longrightarrow> n < ordinalCursor ?l))"
    using st' cu below by (simp add: ledgerInv_def)
  show "\<lbrakk>durableHubMetadata m = Some (md, c); validOrdinalHighWater (hmNextUnreservedAdmissionOrdinal md)\<rbrakk> \<Longrightarrow> hlOrdinalReady ?l" for md c
    using au sl by (auto simp: recoverMetadata_def settled_def split: if_splits)
qed

context hub_storage
begin

lemma initializeFresh_outcome:
  assumes run: "hl_initializeFresh ops l s = (ok, l', s')" and len: "length (hlSlots l) = 8"
    and blank: "mcell s () = (\<lambda>_. None)" "\<forall>k<8. rcell s k = (\<lambda>_. None)"
    and zero: "hlNextVolatileOrdinal l = hlVolatileEndExclusive l" "\<not> hlHealthy l"
  shows "hubCustody (mcell s') (rcell s')
    \<and> (if ok then ledgerInv (mcell s') (rcell s') l' \<and> hlOrdinalReady l' \<and> (\<forall>n. belowHighWater (mcell s') n \<longrightarrow> n < ordinalCursor l')
         \<and> (\<forall>k<8. hubSlotRecord l' k = emptyRecord)
       else \<not> hlHealthy l')"
proof -
  let ?m = "\<lparr>hmGeneration = 1, hmNextUnreservedAdmissionOrdinal = 1\<rparr>"
  obtain ok1 l1 s1 where c: "hl_commitMetadata ops ?m CopyA l s = (ok1, l1, s1)" using prod_cases3 by blast
  have "supersedes hmGeneration decodeHubMetadataForSelection (mcell s ()) CopyA ?m" using blank by (simp add: supersedes_def)
  note C = commitMetadata_outcome [OF c this]
  have empty: "hubCustody x r" if "\<forall>k<8. durableHubRecord r k \<in> {None, Some (emptyRecord, CopyA)}" for x r
  proof -
    have "\<not> isOwned rec" if "k < 8" "hubView r k = Some rec" for k rec
      using \<open>\<forall>k<8. durableHubRecord r k \<in> {None, Some (emptyRecord, CopyA)}\<close> [rule_format, OF that(1)] that(2)
      by (auto simp: hubView_def isOwned_def emptyRecord_def)
    then show ?thesis by (auto simp: hubCustody_def ownedDistinct_def)
  qed
  show ?thesis
  proof (cases ok1)
    case False
    then show ?thesis using run c C blank(2) zero(2) empty [of "rcell s"]
      by (auto simp: hl_initializeFresh_def failOrdinal_def durableHubRecord_def authoritative_def)
  next
    case True
    then have run2: "hl_initializeSlots ops 0 l1 s1 = (ok, l', s')" using run c by (simp add: hl_initializeFresh_def)
    have l1: "l1 = l\<lparr>hlMetadata := ?m, hlMetadataCopy := CopyA, hlHasMetadata := True, hlOrdinalReady := True\<rparr>"
      "durableHubMetadata (mcell s1) = Some (?m, CopyA)" "rcell s1 = rcell s" using C True by auto
    have len1: "length (hlSlots l1) = 8" and blank1: "\<forall>k<8. 0 \<le> k \<longrightarrow> rcell s1 k = (\<lambda>_. None)" using l1 len blank by auto
    from initializeSlots_outcome [OF run2 len1 blank1] obtain sl where I: "mcell s' = mcell s1"
      "\<forall>k<8. durableHubRecord (rcell s') k \<in> {None, Some (emptyRecord, CopyA)}" "length sl = 8"
      "if ok then l' = l1\<lparr>hlSlots := sl\<rparr> \<and> (\<forall>k<8. durableHubRecord (rcell s') k = Some (emptyRecord, CopyA)
           \<and> sl ! k = \<lparr>hssPresent = True, hssActiveCopy = CopyA, hssRecord = emptyRecord\<rparr>)
       else (\<exists>e. l' = failLedger e (l1\<lparr>hlSlots := sl\<rparr>))" by auto
    note cu = empty [OF I(2), of "mcell s'"]
    show ?thesis
    proof (cases ok)
      case ok: False
      then show ?thesis using I(4) cu by (auto simp: failLedger_def)
    next
      case ok: True
      then have l': "l' = l1\<lparr>hlSlots := sl\<rparr>" and recs: "\<forall>k<8. hubSlotRecord l' k = emptyRecord" and st: "hubStored (rcell s') l'"
        using I by (auto simp: hubStored_def)
      have "validOrdinalHighWater 1" by (simp add: validOrdinalHighWater_def)
      then have "ordinalLive (mcell s') l'" using l' l1 I(1) zero(1) by (simp add: ordinalLive_def)
      moreover have "n < ordinalCursor l'" if "belowHighWater (mcell s') n" for n
        using that l' l1 I(1) zero(1) by (auto simp: belowHighWater_def ordinalCursor_def)
      moreover have "\<not> isOwned emptyRecord" by (simp add: isOwned_def emptyRecord_def)
      ultimately show ?thesis using ok cu st recs l' l1(1) by (simp add: ledgerInv_def)
    qed
  qed
qed

lemma recover_ledger_outcome:
  assumes run: "hl_recover ops hub node l s = (st, l', s')" and cu: "hubCustody (mcell s) (rcell s)"
  shows "recovered (mcell s) (rcell s) (mcell s') (rcell s') l'"
proof -
  define l0 where "l0 = (hl_reset l)\<lparr>hlHubDeviceId := hub, hlNodeDeviceId := node\<rparr>"
  have l0: "hlSlots l0 = replicate 8 hubSlotState_init" "\<not> hlHealthy l0" "\<not> hlOrdinalReady l0"
    "hlNextVolatileOrdinal l0 = hlVolatileEndExclusive l0" by (simp_all add: l0_def hl_reset_def)
  show ?thesis
  proof (cases "hub = 0 \<or> node = 0 \<or> hub = node")
    case True
    then have "l' = failLedger LST_INVALID_CONFIGURATION l0" "s' = s" using run by (auto simp: hl_recover_def l0_def)
    then show ?thesis using recovered_frame [OF cu, of l'] by (simp add: failLedger_def)
  next
    case conf: False
    obtain ok acm l1 s1 where sc: "hl_recoverSlots ops 0 True l0 s = (ok, acm, l1, s1)" using prod_cases4 by blast
    obtain okA fa l2 s2 where A: "hl_readMetadataCopy ops CopyA l1 s1 = (okA, fa, l2, s2)" using prod_cases4 by blast
    obtain okB fb l3 s3 where B: "hl_readMetadataCopy ops CopyB l2 s2 = (okB, fb, l3, s3)" using prod_cases4 by blast
    note RA = readMetadataCopy_outcome [OF A] and RB = readMetadataCopy_outcome [OF B]
    have len: "length (hlSlots l0) = 8" using l0(1) by simp
    obtain sl where S: "rcell s1 = rcell s" "mcell s1 = mcell s" "length sl = 8"
      "if ok then l1 = l0\<lparr>hlSlots := sl\<rparr> \<and> (\<forall>k<8. hubScanned (rcell s) k hubSlotState_init (sl ! k))
         \<and> (acm \<longrightarrow> (\<forall>k<8. rcell s k = (\<lambda>_. None)))
       else (\<exists>e. l1 = failLedger e (l0\<lparr>hlSlots := sl\<rparr>))"
      using recoverSlots_outcome [OF sc len] l0(1) by (cases ok) auto
    have fr: "rcell s2 = rcell s" "mcell s2 = mcell s" "rcell s3 = rcell s" "mcell s3 = mcell s" using RA RB S by auto
    note run' = run [unfolded hl_recover_def Let_def, folded l0_def]
    show ?thesis
    proof (cases "ok")
      case False
      then have "l' = l1" "s' = s1" using run' conf sc by auto
      then show ?thesis using False S recovered_frame [OF cu, of l'] by (auto simp: failLedger_def)
    next
      case ok: True
      then have l1: "l1 = l0\<lparr>hlSlots := sl\<rparr>" and scan: "\<forall>k<8. hubScanned (rcell s) k hubSlotState_init (sl ! k)"
        and acm: "acm \<Longrightarrow> \<forall>k<8. rcell s k = (\<lambda>_. None)" using S(4) by auto
      show ?thesis
      proof (cases "okA \<and> okB")
        case False
        have swap: "l0\<lparr>hlSlots := sl, hlStatus := LST_ORDINAL_UNAVAILABLE\<rparr> = l0\<lparr>hlStatus := LST_ORDINAL_UNAVAILABLE, hlSlots := sl\<rparr>" by simp
        have "l' = custodyWithoutOrdinals acm (l0\<lparr>hlSlots := sl, hlStatus := LST_ORDINAL_UNAVAILABLE\<rparr>) \<and> s' \<in> {s2, s3}"
          using False run' conf sc ok A B RA RB l1 by (auto split: if_splits)
        then show ?thesis using custodyWithoutOrdinals_recovered [OF cu S(3) scan, of "l0\<lparr>hlStatus := LST_ORDINAL_UNAVAILABLE\<rparr>" acm] l0 fr
          unfolding swap by auto
      next
        case okM: True
        then have l3: "l3 = l0\<lparr>hlSlots := sl\<rparr>" using RA RB l1 by auto
        have rep: "represents decodeHubMetadataForSelection 24 fa (mcell s () CopyA)" "represents decodeHubMetadataForSelection 24 fb (mcell s () CopyB)"
          using RA RB okM S(2) by auto
        have mm: "fcStatus fa = FRS_MISSING \<Longrightarrow> fcStatus fb = FRS_MISSING \<Longrightarrow> mcell s () c = None" for c
          using RA RB okM S(2) by (cases c) auto
        show ?thesis
        proof (cases "acm \<and> fcStatus fa = FRS_MISSING \<and> fcStatus fb = FRS_MISSING")
          case True
          obtain okF l4 s4 where f: "hl_initializeFresh ops l3 s3 = (okF, l4, s4)" using prod_cases3 by blast
          have b: "mcell s3 () = (\<lambda>_. None)" "\<forall>k<8. rcell s3 k = (\<lambda>_. None)" using mm acm True fr by auto
          have "length (hlSlots l3) = 8" "hlNextVolatileOrdinal l3 = hlVolatileEndExclusive l3" "\<not> hlHealthy l3" using l3 l0 S(3) by auto
          note F = initializeFresh_outcome [OF f this(1) b this(2,3)]
          have R: "s' = s4 \<and> l' = (if okF then enterService l4 else l4)"
            using run' conf sc ok A B okM f True by (auto split: if_splits)
          have blank: "\<not> belowHighWater (mcell s) n" "k < 8 \<Longrightarrow> rcell s k = (\<lambda>_. None)" "k < 8 \<Longrightarrow> hubView (rcell s) k = None" for n k
            using b fr by (auto simp: belowHighWater_def durableHubMetadata_def hubView_def durableHubRecord_def authoritative_def)
          have cur: "ordinalCursor (enterService l4) = ordinalCursor l4" by (simp add: enterService_def Let_def ordinalCursor_def)
          show ?thesis using F R blank cur by (cases okF) (auto simp: recovered_def)
        next
          case False
          obtain v l4 where v: "validateRecoveredSlots l3 = (v, l4)" by fastforce
          note V = validateRecoveredSlots_spec(1) [OF v]
          have R: "s' = s3 \<and> (\<not> hlHealthy l' \<or> list_all hssPresent sl \<and> v \<and> l' = enterService (recoverMetadata fa fb l3))"
            using run' conf sc ok A B okM v False V l3 l0(2) by (auto simp: failLedger_def split: if_splits)
          show ?thesis
          proof (cases "hlHealthy l'")
            case True
            then have "\<forall>k<8. hssPresent (sl ! k)" "l' = enterService (recoverMetadata fa fb l3)" using R S(3) by (auto simp: list_all_length)
            moreover from this have "hubStored (rcell s) l3" unfolding l3 using scanned_stored [OF S(3) scan] by blast
            moreover have "\<not> hlOrdinalReady l3" using l3 l0 by simp
            moreover have "ordinalCursor (enterService x) = ordinalCursor x" for x by (simp add: enterService_def Let_def ordinalCursor_def)
            ultimately show ?thesis using R fr recoverMetadata_spec(1) [OF rep cu] by (auto intro!: recovered_frame [OF cu])
          next
            case False
            then show ?thesis using R fr recovered_frame [OF cu, of l'] by auto
          qed
        qed
      qed
    qed
  qed
qed

end

end
