(* ===== verification/HubLedgerRuns.thy ===== *)
theory HubLedgerRuns
  imports HubLedgerCustody
begin

text \<open>
  Lives of the Hub ledger: any sequence of recoveries, admissions and consumptions from a medium without
  records, over any storage that keeps the contract, with the admissions reported as new recorded in
  order; and progress on a medium that works.
\<close>

subsection \<open>Runs\<close>

datatype hubOp = OpRecover u8 u8 | OpAdmit event | OpConsume identity

text \<open>The ledger's operations as one step; an admission reported as new yields the Event and its ordinal.\<close>

fun hubApply :: "'s hubStorage \<Rightarrow> hubOp \<Rightarrow> ledger \<Rightarrow> 's \<Rightarrow> (event \<times> u32) option \<times> ledger \<times> 's" where
  "hubApply ops (OpRecover hub node) l s = (case hl_recover ops hub node l s of (_, l', s') \<Rightarrow> (None, l', s'))"
| "hubApply ops (OpAdmit e) l s = (case admit ops e l s of (r, l', s') \<Rightarrow>
     (if adStatus r = DURABLE_NEW_ADMISSION then Some (e, adAdmissionOrdinal r) else None, l', s'))"
| "hubApply ops (OpConsume i) l s = (case consume ops i l s of (_, l', s') \<Rightarrow> (None, l', s'))"

inductive hubRun :: "'s hubStorage \<Rightarrow> ('s \<Rightarrow> unit \<Rightarrow> copySlot \<Rightarrow> bytes option) \<Rightarrow> ('s \<Rightarrow> nat \<Rightarrow> copySlot \<Rightarrow> bytes option) \<Rightarrow>
    ledger \<Rightarrow> 's \<Rightarrow> (event \<times> u32) list \<Rightarrow> bool"
  for ops mcell rcell where
  start: "\<not> hlHealthy l \<Longrightarrow> rcell s = (\<lambda>_ _. None) \<Longrightarrow> hubRun ops mcell rcell l s []"
| operation: "hubRun ops mcell rcell l s log \<Longrightarrow> hubApply ops op l s = (x, l', s') \<Longrightarrow>
    hubRun ops mcell rcell l' s' (log @ (case x of None \<Rightarrow> [] | Some a \<Rightarrow> [a]))"
| elsewhere: "hubRun ops mcell rcell l s log \<Longrightarrow> mcell s' = mcell s \<Longrightarrow> rcell s' = rcell s \<Longrightarrow>
    hubRun ops mcell rcell l s' log"

definition hubRunInv :: "(unit \<Rightarrow> copySlot \<Rightarrow> bytes option) \<Rightarrow> (nat \<Rightarrow> copySlot \<Rightarrow> bytes option) \<Rightarrow> ledger \<Rightarrow> u32 list \<Rightarrow> bool" where
  "hubRunInv m r l ns = (hubCustody m r \<and> sorted_wrt (<) ns \<and> (\<forall>n\<in>set ns. belowHighWater m n)
     \<and> (hlHealthy l \<longrightarrow> ledgerInv m r l \<and> (hlOrdinalReady l \<longrightarrow> (\<forall>n\<in>set ns. n < ordinalCursor l))))"

lemma unhealthy_refuses:
  assumes "\<not> hlHealthy l"
  shows "hubApply ops (OpAdmit e) l s = (None, l, s)" "hubApply ops (OpConsume i) l s = (None, l, s)"
  using assms by (simp_all add: admit_def consume_def)

context hub_storage
begin

lemma operation_inv:
  assumes inv: "hubRunInv (mcell s) (rcell s) l ns" and op: "hubApply ops op l s = (x, l', s')"
  shows "hubRunInv (mcell s') (rcell s') l' (ns @ (case x of None \<Rightarrow> [] | Some a \<Rightarrow> [snd a]))"
proof (cases op)
  case (OpRecover hub node)
  then obtain st where r: "hl_recover ops hub node l s = (st, l', s')" and x: "x = None" using op by (auto split: prod.splits)
  have "recovered (mcell s) (rcell s) (mcell s') (rcell s') l'" using recover_ledger_outcome [OF r] inv by (simp add: hubRunInv_def)
  then show ?thesis using inv x by (auto simp: hubRunInv_def recovered_def)
next
  case (OpConsume i)
  show ?thesis
  proof (cases "hlHealthy l")
    case False
    then show ?thesis using op OpConsume unhealthy_refuses(2) [of l ops i s] inv by auto
  next
    case True
    obtain r where r: "consume ops i l s = (r, l', s')" and x: "x = None" using op OpConsume by (auto split: prod.splits)
    have "ledgerInv (mcell s) (rcell s) l" using inv True by (simp add: hubRunInv_def)
    from consume_outcome [OF r this] have "mcell s' = mcell s" "hubCustody (mcell s') (rcell s')"
      "hlHealthy l' \<longrightarrow> ledgerInv (mcell s') (rcell s') l' \<and> ordinalCursor l' = ordinalCursor l \<and> hlOrdinalReady l' = hlOrdinalReady l"
      by blast+
    then show ?thesis using inv x True unfolding hubRunInv_def by auto
  qed
next
  case (OpAdmit e)
  show ?thesis
  proof (cases "hlHealthy l")
    case False
    then show ?thesis using op OpAdmit unhealthy_refuses(1) [of l ops e s] inv by auto
  next
    case True
    obtain r where r: "admit ops e l s = (r, l', s')"
      and x: "x = (if adStatus r = DURABLE_NEW_ADMISSION then Some (e, adAdmissionOrdinal r) else None)"
      using op OpAdmit by (auto split: prod.splits)
    have I: "ledgerInv (mcell s) (rcell s) l" using inv True by (simp add: hubRunInv_def)
    note A = admit_outcome [OF r I]
    show ?thesis
    proof (cases "adStatus r = DURABLE_NEW_ADMISSION")
      case new: True
      then have rd: "hlOrdinalReady l" and n: "ordinalCursor l \<le> adAdmissionOrdinal r" "adAdmissionOrdinal r < ordinalCursor l'"
        and h: "hlHealthy l'" "hlOrdinalReady l'" "ledgerInv (mcell s') (rcell s') l'" using A by (auto simp: admitting_def)
      have old: "\<forall>n\<in>set ns. n < adAdmissionOrdinal r"
        using inv True rd n(1) by (auto simp: hubRunInv_def intro: less_le_trans)
      have "belowHighWater (mcell s') (adAdmissionOrdinal r)"
        using ordinalLive_below [OF _ n(2)] h by (auto simp: ledgerInv_def)
      then show ?thesis using A inv x new old n(2) h by (auto simp: hubRunInv_def sorted_wrt_append intro: less_trans)
    next
      case False
      then show ?thesis using A inv x True by (auto simp: hubRunInv_def intro: less_le_trans)
    qed
  qed
qed

lemma hubRun_inv: "hubRun ops mcell rcell l s log \<Longrightarrow> hubRunInv (mcell s) (rcell s) l (map snd log)"
proof (induction rule: hubRun.induct)
  case (start l s)
  then show ?case by (simp add: hubRunInv_def hubCustody_def ownedDistinct_def hubView_def durableHubRecord_def authoritative_def)
next
  case (operation l s log op x l' s')
  show ?case using operation_inv [OF operation.IH operation.hyps(2)] by (cases x) auto
qed simp

lemma hubRun_healthy:
  "hubRun ops mcell rcell l s log \<Longrightarrow> hlHealthy l \<Longrightarrow> ledgerInv (mcell s) (rcell s) l"
  using hubRun_inv by (auto simp: hubRunInv_def)

end

subsection \<open>Configuration\<close>

text \<open>Only \<open>recover\<close> sets the device ids.\<close>

definition hubIds :: "ledger \<Rightarrow> u8 \<times> u8" where
  "hubIds l = (hlHubDeviceId l, hlNodeDeviceId l)"

lemma hubIds_updates [simp]:
  "hubIds (failLedger e l) = hubIds l" "hubIds (failOrdinal e l) = hubIds l" "hubIds (hl_note d n l) = hubIds l"
  "hubIds (hl_persistenceFailure l) = hubIds l" "hubIds (updateActiveSnapshot l) = hubIds l" "hubIds (enterService l) = hubIds l"
  "hubIds (l\<lparr>hlSlots := x\<rparr>) = hubIds l" "hubIds (l\<lparr>hlStatus := st\<rparr>) = hubIds l" "hubIds (l\<lparr>hlHealthy := b\<rparr>) = hubIds l"
  "hubIds (l\<lparr>hlOrdinalReady := b\<rparr>) = hubIds l" "hubIds (l\<lparr>hlNextVolatileOrdinal := n\<rparr>) = hubIds l"
  "hubIds (l\<lparr>hlVolatileEndExclusive := n\<rparr>) = hubIds l" "hubIds (l\<lparr>hlMetadata := m\<rparr>) = hubIds l"
  "hubIds (l\<lparr>hlMetadataCopy := c\<rparr>) = hubIds l" "hubIds (l\<lparr>hlHasMetadata := b\<rparr>) = hubIds l"
  by (simp_all add: hubIds_def failLedger_def failOrdinal_def hl_note_def hl_persistenceFailure_def updateActiveSnapshot_def enterService_def Let_def)

lemma classifyRead_ids: "classifyRead r n m b l = (ok, st, l') \<Longrightarrow> hubIds l' = hubIds l"
  by (auto simp: classifyRead_cases split: if_splits)

lemma readCopies_ids:
  "hl_readRecordCopy ops k c l s = (ok, f, l', s') \<Longrightarrow> hubIds l' = hubIds l"
  "hl_readMetadataCopy ops c l s = (ok, f, l', s') \<Longrightarrow> hubIds l' = hubIds l"
  by (auto simp: hl_readRecordCopy_def hl_readMetadataCopy_def split: prod.splits dest: classifyRead_ids)

lemma commits_ids:
  "hl_commitRecord ops k rec t l s = (ok, l', s') \<Longrightarrow> hubIds l' = hubIds l"
  "hl_commitMetadata ops m t l s = (ok, l', s') \<Longrightarrow> hubIds l' = hubIds l"
  by (auto simp: hl_commitRecord_def hl_commitMetadata_def split: prod.splits if_splits sum.splits dest!: readCopies_ids)

lemma allocateOrdinal_ids: "allocateOrdinal ops l s = (r, l', s') \<Longrightarrow> hubIds l' = hubIds l"
  by (auto simp: allocateOrdinal_def Let_def split: prod.splits if_splits dest!: commits_ids)

lemma admit_ids: "admit ops e l s = (r, l', s') \<Longrightarrow> hubIds l' = hubIds l"
  by (auto simp: admit_def Let_def hl_commitNext_def split: prod.splits if_splits option.splits dest!: commits_ids allocateOrdinal_ids)

lemma recoverSlots_ids: "hl_recoverSlots ops k acm l s = (ok, acm', l', s') \<Longrightarrow> hubIds l' = hubIds l"
proof (induction "8 - k" arbitrary: k acm l s)
  case (Suc n)
  show ?case
    using Suc.prems Suc.hyps(1) [of "Suc k"] Suc.hyps(2)
    by (subst (asm) hl_recoverSlots.simps)
      (auto simp: acceptRecordSelection_def Let_def split: prod.splits if_splits dest!: readCopies_ids)
qed (simp add: hl_recoverSlots.simps)

lemma initializeSlots_ids: "hl_initializeSlots ops k l s = (ok, l', s') \<Longrightarrow> hubIds l' = hubIds l"
proof (induction "8 - k" arbitrary: k l s)
  case (Suc n)
  show ?case
    using Suc.prems Suc.hyps(1) [of "Suc k"] Suc.hyps(2)
    by (subst (asm) hl_initializeSlots.simps) (auto simp: commitInitialRecord_def split: prod.splits if_splits dest!: commits_ids)
qed (simp add: hl_initializeSlots.simps)

lemma recovery_ids:
  "validateRecoveredSlots l = (v, l') \<Longrightarrow> hubIds l' = hubIds l" "hubIds (custodyWithoutOrdinals acm l) = hubIds l"
  "hubIds (recoverMetadata a b l) = hubIds l" "hl_initializeFresh ops l s = (ok, l', s') \<Longrightarrow> hubIds l' = hubIds l"
  by (auto simp: validateRecoveredSlots_def custodyWithoutOrdinals_def recoverMetadata_def hl_initializeFresh_def
      split: option.splits prod.splits if_splits dest!: commits_ids initializeSlots_ids)

lemma recover_ids: "hl_recover ops hub node l s = (st, l', s') \<Longrightarrow> hubIds l' = (hub, node)"
proof -
  have "hubIds ((hl_reset l)\<lparr>hlHubDeviceId := hub, hlNodeDeviceId := node\<rparr>) = (hub, node)" by (simp add: hubIds_def)
  then show "hl_recover ops hub node l s = (st, l', s') \<Longrightarrow> ?thesis"
    by (auto simp: hl_recover_def Let_def recovery_ids(2,3) split: prod.splits if_splits
        dest!: recoverSlots_ids readCopies_ids recovery_ids(1,4))
qed

subsection \<open>Progress on a working medium\<close>

locale working_hub_storage = hub_storage ops mcell rcell
  for ops :: "'s hubStorage" and mcell rcell +
  assumes meta_available: "fst (hsReadMetadata ops c buf s) \<noteq> SR_UNAVAILABLE"
    and rec_available: "fst (hsRead ops k c buf s) \<noteq> SR_UNAVAILABLE"
    and meta_effective: "length bs = 24 \<Longrightarrow> hsWriteMetadata ops c bs s = (w, s') \<Longrightarrow> w = SR_OK \<and> mcell s' () c = Some bs"
    and rec_effective: "k < 8 \<Longrightarrow> length bs = 56 \<Longrightarrow> hsWrite ops k c bs s = (w, s') \<Longrightarrow> w = SR_OK \<and> rcell s' k c = Some bs"
    and commit_effective: "fst (hsCommit ops s) = SR_OK"
begin

lemma readRecordCopy_works: "\<exists>f s'. hl_readRecordCopy ops k c l s = (True, f, l, s')"
  using rec_available [of k c "fillZero 56" s] by (auto simp: hl_readRecordCopy_def classifyRead_cases split: prod.splits)

lemma readMetadataCopy_works: "\<exists>f s'. hl_readMetadataCopy ops c l s = (True, f, l, s')"
  using meta_available [of c "fillZero 24" s] by (auto simp: hl_readMetadataCopy_def classifyRead_cases split: prod.splits)

lemma commitRecord_works:
  assumes "k < 8" "validateHubRecord rec = CR_OK" "hubRecord_wf rec"
    and sup: "supersedes hrGeneration decodeHubRecordForSelection (rcell s k) target rec"
  shows "\<exists>l' s'. hl_commitRecord ops k rec target l s = (True, l', s')"
proof -
  obtain out where enc: "encodeHubRecord rec (Some (fillZero 56)) = (CR_OK, out)" using assms(2) by (simp add: encodeHubRecord_def)
  then obtain bs where bs: "out = Some bs" "decodeHubRecordForSelection bs = Some rec" "length bs = 56"
    using hubRecord_encoded assms(3) by blast
  obtain w s1 where w: "hsWrite ops k target bs s = (w, s1)" by fastforce
  obtain c s2 where c: "hsCommit ops s1 = (c, s2)" by fastforce
  obtain r buf n s3 where r: "hsRead ops k target (fillZero 56) s2 = (r, buf, n, s3)" using prod_cases4 by blast
  have ok: "w = SR_OK" "c = SR_OK" "rcell s2 k target = Some bs"
    using rec_effective [OF assms(1) bs(3) w] commit_effective [of s1] rec.cm_frame [OF c] c by auto
  then have ok2: "r = SR_OK" "n = 56" "buf = bs"
    using rec.rd_cell [OF r] rec_available [of k target "fillZero 56" s2] r by (auto split: if_splits)
  have fr: "rcell s3 = rcell s1" "rcell s2 = rcell s1" using rec.cm_frame [OF c] rec.rd_frame [OF r] by auto
  obtain fa s4 where A: "hl_readRecordCopy ops k CopyA l s3 = (True, fa, l, s4)" using readRecordCopy_works by blast
  obtain fb s5 where B: "hl_readRecordCopy ops k CopyB l s4 = (True, fb, l, s5)" using readRecordCopy_works by blast
  obtain sel m slot where sl: "selectCopies hrGeneration decodeHubRecordForSelection fa fb hubRecord_init CopyA = (sel, m, slot)"
    using prod_cases3 by blast
  have dur: "authoritative hrGeneration decodeHubRecordForSelection (rcell s1 k) = Some (rec, target)"
    using cellStep_supersedes(2) [OF rec.wr_cell [OF w] sup bs(2)] ok(3) fr by simp
  have rep: "represents decodeHubRecordForSelection 56 fa (rcell s1 k CopyA)" "represents decodeHubRecordForSelection 56 fb (rcell s1 k CopyB)"
    using readRecordCopy_outcome [OF A] readRecordCopy_outcome [OF B] fr by auto
  have "settled sel" "m = rec" "slot = target" using selectCopies_authoritative(1) [OF rep sl] dur by (auto split: if_splits)
  moreover have "decodeHubRecord (Some bs) = Inr rec" using bs(2) by (auto simp: decodeHubRecordForSelection_def split: sum.splits)
  moreover have "bytesEqual (Some bs) (Some bs) 56" using bs(3) by (simp add: bytesEqual_def sameBytes_length)
  ultimately show ?thesis using enc bs(1) w c r ok ok2 A B sl
    by (simp add: hl_commitRecord_def settled_def)
qed

lemma commitMetadata_works:
  assumes "hmNextUnreservedAdmissionOrdinal m \<noteq> 0"
    and sup: "supersedes hmGeneration decodeHubMetadataForSelection (mcell s ()) target m"
  shows "\<exists>l' s'. hl_commitMetadata ops m target l s = (True, l', s')"
proof -
  obtain out where enc: "encodeHubMetadata m (Some (fillZero 24)) = (CR_OK, out)" using assms(1) by (simp add: encodeHubMetadata_def)
  then obtain bs where bs: "out = Some bs" "decodeHubMetadataForSelection bs = Some m" "length bs = 24"
    using hubMetadata_encoded by blast
  obtain w s1 where w: "hsWriteMetadata ops target bs s = (w, s1)" by fastforce
  obtain c s2 where c: "hsCommit ops s1 = (c, s2)" by fastforce
  obtain r buf n s3 where r: "hsReadMetadata ops target (fillZero 24) s2 = (r, buf, n, s3)" using prod_cases4 by blast
  have ok: "w = SR_OK" "c = SR_OK" "mcell s2 () target = Some bs"
    using meta_effective [OF bs(3) w] commit_effective [of s1] meta.cm_frame [OF c] c by auto
  then have ok2: "r = SR_OK" "n = 24" "buf = bs"
    using meta.rd_cell [OF r, of "()"] meta_available [of target "fillZero 24" s2] r by (auto split: if_splits)
  have fr: "mcell s3 = mcell s1" "mcell s2 = mcell s1" using meta.cm_frame [OF c] meta.rd_frame [OF r] by auto
  obtain fa s4 where A: "hl_readMetadataCopy ops CopyA l s3 = (True, fa, l, s4)" using readMetadataCopy_works by blast
  obtain fb s5 where B: "hl_readMetadataCopy ops CopyB l s4 = (True, fb, l, s5)" using readMetadataCopy_works by blast
  obtain sel x slot where sl: "selectCopies hmGeneration decodeHubMetadataForSelection fa fb hubMetadata_init CopyA = (sel, x, slot)"
    using prod_cases3 by blast
  have dur: "authoritative hmGeneration decodeHubMetadataForSelection (mcell s1 ()) = Some (m, target)"
    using cellStep_supersedes(2) [OF meta.wr_cell [OF w, of "()"] sup bs(2)] ok(3) fr by simp
  have rep: "represents decodeHubMetadataForSelection 24 fa (mcell s1 () CopyA)" "represents decodeHubMetadataForSelection 24 fb (mcell s1 () CopyB)"
    using readMetadataCopy_outcome [OF A] readMetadataCopy_outcome [OF B] fr by auto
  have "settled sel" "x = m" "slot = target" using selectCopies_authoritative(1) [OF rep sl] dur by (auto split: if_splits)
  moreover have "decodeHubMetadata (Some bs) = Inr m" using bs(2) by (auto simp: decodeHubMetadataForSelection_def split: sum.splits)
  moreover have "bytesEqual (Some bs) (Some bs) 24" using bs(3) by (simp add: bytesEqual_def sameBytes_length)
  ultimately show ?thesis using enc bs(1) w c r ok ok2 A B sl
    by (simp add: hl_commitMetadata_def settled_def)
qed

lemma allocateOrdinal_works:
  assumes "hlOrdinalReady l" "ordinalLive (mcell s) l" "hmNextUnreservedAdmissionOrdinal (hlMetadata l) \<le> 0xFFFFFFDF"
  shows "\<exists>n l' s'. allocateOrdinal ops l s = (Some n, l', s')"
proof (cases "hlNextVolatileOrdinal l = hlVolatileEndExclusive l")
  case False
  then show ?thesis using assms(1) by (simp add: allocateOrdinal_def)
next
  case True
  let ?w = "hmNextUnreservedAdmissionOrdinal (hlMetadata l)"
  let ?m = "(hlMetadata l)\<lparr>hmGeneration := hmGeneration (hlMetadata l) + 1, hmNextUnreservedAdmissionOrdinal := ?w + 32\<rparr>"
  have g: "\<not> ?w > UINT32_MAX - ORDINAL_RESERVATION_BLOCK_SIZE" using assms(3) by simp
  have "validOrdinalHighWater (?w + 32)" using validOrdinalHighWater_next [OF _ g] assms(2) by (simp add: ordinalLive_def)
  then have nz: "hmNextUnreservedAdmissionOrdinal ?m \<noteq> 0" by (simp add: validOrdinalHighWater_def)
  have "supersedes hmGeneration decodeHubMetadataForSelection (mcell s ()) (opposite (hlMetadataCopy l)) ?m"
    using assms(2) by (intro supersedes_next [of _ _ _ "hlMetadata l"]) (simp_all add: durableHubMetadata_def ordinalLive_def)
  then obtain l1 s1 where "hl_commitMetadata ops ?m (opposite (hlMetadataCopy l)) l s = (True, l1, s1)"
    using commitMetadata_works [OF nz] by blast
  then show ?thesis using assms(1) True g by (simp add: allocateOrdinal_def)
qed

lemma commitNext_works:
  assumes "ledgerInv (mcell s) (rcell s) l" "hubCommittable (mcell s) l k rec" "validateHubRecord rec = CR_OK"
  shows "\<exists>l' s'. hl_commitNext ops k rec l s = (True, l', s')"
proof -
  have k: "k < 8" "hubRecord_wf rec" "hrGeneration rec = hrGeneration (hubSlotRecord l k) + 1" using assms(2) by (auto simp: hubCommittable_def)
  have "authoritative hrGeneration decodeHubRecordForSelection (rcell s k) = Some (hubSlotRecord l k, hssActiveCopy (hlSlots l ! k))"
    using assms(1) k(1) by (simp add: ledgerInv_def hubStored_def durableHubRecord_def)
  then have "supersedes hrGeneration decodeHubRecordForSelection (rcell s k) (opposite (hssActiveCopy (hlSlots l ! k))) rec"
    using k(3) by (rule supersedes_next)
  then show ?thesis using commitRecord_works [OF k(1) assms(3) k(2)] by (simp add: hl_commitNext_def)
qed

end

lemma admittedRecord_valid:
  assumes v: "validateAdmission e l = DURABLE_NEW_ADMISSION" and b: "length (evBody e) = MAX_BODY_SIZE" and n: "n \<noteq> 0"
  shows "validateHubRecord (admittedRecord old e n) = CR_OK"
proof -
  let ?n = "unat (evBodyLength e)"
  have g: "evSource e \<noteq> 0" "evEpoch e \<noteq> 0" "evId e \<noteq> 0" "isRegisteredFamily (evFamily e)" "evFlags e AND NOT ALLOWED_FLAGS = 0"
    "evLifetimeBudgetSeconds e \<ge> MIN_LIFETIME_SECONDS" "evLifetimeBudgetSeconds e \<le> MAX_LIFETIME_SECONDS" "?n \<le> 12"
    "isValidFamilyBody (evFamily e) (Some (evBody e)) (evBodyLength e)" "\<forall>j. ?n \<le> j \<and> j < 12 \<longrightarrow> evBody e ! j = 0"
    using v by (auto simp: validateAdmission_def hasValidEndpoints_def list_ex_iff split: if_splits)
  have eq: "copyBytes (fillZero 12) 0 (evBody e) ?n = evBody e"
    using g(8,10) b by (intro nth_equalityI) (auto simp: buffer_simps)
  have tail: "allZero (drop ?n (evBody e)) (12 - ?n)" using g(8,10) b by (simp add: allZero_nth)
  show ?thesis using g n eq tail
    by (simp add: validateHubRecord_def admittedRecord_def validHubState_def validCanonicalEvent_def)
qed

lemma validateHubRecord_consumed:
  "hrState r = HS_ACTIVE \<Longrightarrow> validateHubRecord r = CR_OK \<Longrightarrow> validateHubRecord (consumedRecord r) = CR_OK"
  by (auto simp: validateHubRecord_def validHubState_def consumedRecord_def split: if_splits)

lemma hubStored_valid:
  assumes "hubStored cells l" "k < 8"
  shows "validateHubRecord (hubSlotRecord l k) = CR_OK"
proof -
  have "Option.bind (cells k (hssActiveCopy (hlSlots l ! k))) decodeHubRecordForSelection = Some (hubSlotRecord l k)"
    using assms authoritative_cell [of hrGeneration decodeHubRecordForSelection "cells k"]
    by (simp add: hubStored_def durableHubRecord_def)
  then obtain bs where "decodeHubRecordForSelection bs = Some (hubSlotRecord l k)" by (auto simp: Option.bind_eq_Some_conv)
  then have "decodeHubRecord (Some bs) = Inr (hubSlotRecord l k)"
    by (cases "decodeHubRecord (Some bs)") (simp_all add: decodeHubRecordForSelection_def)
  then show ?thesis using decodeHubRecord_InrD by blast
qed

context working_hub_storage
begin

lemma admit_works:
  assumes inv: "ledgerInv (mcell s) (rcell s) l" and ad: "admitting e l k" and b: "length (evBody e) = MAX_BODY_SIZE"
    and room: "hmNextUnreservedAdmissionOrdinal (hlMetadata l) \<le> 0xFFFFFFDF"
  shows "\<exists>n l' s'. admit ops e l s = (\<lparr>adStatus = DURABLE_NEW_ADMISSION, adSlot = k, adAdmissionOrdinal = n\<rparr>, l', s')"
proof -
  have g: "hlHealthy l" "validateAdmission e l = DURABLE_NEW_ADMISSION" "holder e l = None" "admissionTarget e l = Some k" "hlOrdinalReady l"
    using ad by (auto simp: admitting_def)
  have live: "ordinalLive (mcell s) l" and below: "\<forall>j<8. isOwned (hubSlotRecord l j) \<longrightarrow> hrAdmissionOrdinal (hubSlotRecord l j) < ordinalCursor l"
    and st: "hubStored (rcell s) l" using inv g(5) by (auto simp: ledgerInv_def)
  obtain n l1 s1 where a: "allocateOrdinal ops l s = (Some n, l1, s1)" using allocateOrdinal_works [OF g(5) live room] by blast
  from allocateOrdinal_outcome [OF a g(5) live] have N: "rcell s1 = rcell s" "hlSlots l1 = hlSlots l" "hlHealthy l1 = hlHealthy l"
    "\<forall>n. belowHighWater (mcell s) n \<longrightarrow> belowHighWater (mcell s1) n" "n \<noteq> 0" "hlOrdinalReady l1" "ordinalLive (mcell s1) l1"
    "ordinalCursor l \<le> n" "n < ordinalCursor l1" by auto
  have inv1: "ledgerInv (mcell s1) (rcell s1) l1"
    using inv below N st by (auto simp: ledgerInv_def hubCustody_def hubStored_def intro: less_le_trans less_trans)
  have k8: "k < 8" using admissionTarget_some [OF g(4)] by simp
  let ?rec = "admittedRecord (hubSlotRecord l k) e n"
  have "hubKey (hubSlotRecord l j) \<noteq> hubKey ?rec" "hrAdmissionOrdinal (hubSlotRecord l j) \<noteq> n"
    if "j < 8" "isOwned (hubSlotRecord l j)" for j
    using that g(3) below N(8) by (auto simp: holder_def find_None_iff sameIdentity_key admittedRecord_key)
  then have cm: "hubCommittable (mcell s1) l1 k ?rec"
    using k8 N ordinalLive_below [OF N(7,9)] by (auto simp: hubCommittable_def admittedRecord_wf admittedRecord_key)
  obtain l2 s2 where "hl_commitNext ops k ?rec l1 s1 = (True, l2, s2)"
    using commitNext_works [OF inv1 cm admittedRecord_valid [OF g(2) b N(5)]] by blast
  then show ?thesis using g a N(2) by (simp add: admit_def holder_def)
qed

lemma consume_works:
  assumes inv: "ledgerInv (mcell s) (rcell s) l" "hlHealthy l"
    and k: "find (\<lambda>k. hasIdentity i (hubSlotRecord l k)) [0..<8] = Some k" "hrState (hubSlotRecord l k) = HS_ACTIVE"
  shows "\<exists>l' s'. consume ops i l s = (\<lparr>coStatus = CONSUMED, coSlot = k\<rparr>, l', s')"
proof -
  have k8: "k < 8" using k(1) by (auto simp: find_Some_iff)
  have "hubStored (rcell s) l" using inv(1) by (simp add: ledgerInv_def)
  then have "validateHubRecord (consumedRecord (hubSlotRecord l k)) = CR_OK"
    using validateHubRecord_consumed [OF k(2)] hubStored_valid [OF _ k8] by blast
  then obtain l1 s1 where "hl_commitNext ops k (consumedRecord (hubSlotRecord l k)) l s = (True, l1, s1)"
    using commitNext_works [OF inv(1) consumed_committable [OF inv(1) k8 k(2)]] by blast
  then show ?thesis using inv(2) k by (simp add: consume_def)
qed

lemma recoverSlots_works:
  assumes "\<forall>k<8. durableHubRecord (rcell s) k \<noteq> None" "length (hlSlots l) = 8"
  shows "\<exists>acm' l' s'. hl_recoverSlots ops slot acm l s = (True, acm', l', s')"
  using assms
proof (induction "8 - slot" arbitrary: slot acm l s)
  case 0
  then show ?case by (simp add: hl_recoverSlots.simps)
next
  case (Suc n)
  then have slot: "slot < 8" by simp
  obtain fa s1 where a: "hl_readRecordCopy ops slot CopyA l s = (True, fa, l, s1)" using readRecordCopy_works by blast
  obtain fb s2 where b: "hl_readRecordCopy ops slot CopyB l s1 = (True, fb, l, s2)" using readRecordCopy_works by blast
  obtain sel r c where sel: "selectCopies hrGeneration decodeHubRecordForSelection fa fb hubRecord_init CopyA = (sel, r, c)"
    using prod_cases3 by blast
  have rep: "represents decodeHubRecordForSelection 56 fa (rcell s slot CopyA)"
    "represents decodeHubRecordForSelection 56 fb (rcell s slot CopyB)" "rcell s2 = rcell s"
    using readRecordCopy_outcome [OF a] readRecordCopy_outcome [OF b] by auto
  have "settled sel" using selectCopies_authoritative(1) [OF rep(1,2) sel] Suc.prems(1) slot
    by (auto simp: durableHubRecord_def split: if_splits)
  then have acc: "acceptRecordSelection sel l = (True, l)" "sel \<noteq> BOTH_INVALID"
    by (simp_all add: acceptRecordSelection_def settled_def)
  show ?case
    using Suc.hyps(1) [of "Suc slot" s2 "l\<lparr>hlSlots := (hlSlots l)[slot := \<lparr>hssPresent = True, hssActiveCopy = c, hssRecord = r\<rparr>]\<rparr>"]
      Suc.hyps(2) Suc.prems slot a b sel acc rep(3)
    by (subst hl_recoverSlots.simps) (simp add: Let_def)
qed

text \<open>A ledger whose slots are all durable comes back in service, with everything it had.\<close>

lemma recover_works:
  assumes cu: "hubCustody (mcell s) (rcell s)" and dur: "\<forall>k<8. hubView (rcell s) k \<noteq> None"
    and ids: "hub \<noteq> 0" "node \<noteq> 0" "hub \<noteq> node"
  shows "\<exists>st l' s'. hl_recover ops hub node l s = (st, l', s') \<and> hlHealthy l'"
proof -
  define l0 where "l0 = (hl_reset l)\<lparr>hlHubDeviceId := hub, hlNodeDeviceId := node\<rparr>"
  have l0: "hlSlots l0 = replicate 8 hubSlotState_init" "length (hlSlots l0) = 8" by (simp_all add: l0_def hl_reset_def)
  have dur': "\<forall>k<8. durableHubRecord (rcell s) k \<noteq> None" using dur by (auto simp: hubView_def)
  obtain acm l1 s1 where sc: "hl_recoverSlots ops 0 True l0 s = (True, acm, l1, s1)" using recoverSlots_works [OF dur' l0(2)] by blast
  obtain fa s2 where A: "hl_readMetadataCopy ops CopyA l1 s1 = (True, fa, l1, s2)" using readMetadataCopy_works by blast
  obtain fb s3 where B: "hl_readMetadataCopy ops CopyB l1 s2 = (True, fb, l1, s3)" using readMetadataCopy_works by blast
  from recoverSlots_outcome [OF sc l0(2)] obtain sl where sl: "length sl = 8" "l1 = l0\<lparr>hlSlots := sl\<rparr>"
    "\<forall>k<8. hubScanned (rcell s) k hubSlotState_init (sl ! k)" "acm \<longrightarrow> (\<forall>k<8. rcell s k = (\<lambda>_. None))" using l0(1) by auto
  have "\<not> acm" using sl(4) dur' by (force simp: durableHubRecord_def authoritative_def)
  have pres: "\<forall>k<8. hssPresent (sl ! k)"
  proof (intro allI impI)
    fix k :: nat assume "k < 8"
    then show "hssPresent (sl ! k)" using sl(3) dur' by (fastforce simp: hubScanned_def split: option.splits prod.splits)
  qed
  then have st: "hubStored (rcell s) l1" unfolding sl(2) using scanned_stored [OF sl(1,3)] by blast
  obtain v l4 where v: "validateRecoveredSlots l1 = (v, l4)" by fastforce
  have "ownedDistinct (slotView (hlSlots l1))" using stored_slotView [OF st] cu by (simp add: hubCustody_def)
  then have "v" using validateRecoveredSlots_spec(2) [OF v] pres sl(2) by simp
  moreover have "list_all hssPresent (hlSlots l1)" using pres sl by (simp add: list_all_length)
  ultimately have "hl_recover ops hub node l s = (hlStatus (enterService (recoverMetadata fa fb l4)), enterService (recoverMetadata fa fb l4), s3)"
    using ids sc A B v \<open>\<not> acm\<close> by (simp add: hl_recover_def l0_def [symmetric])
  then show ?thesis by auto
qed

lemma commitInitialRecord_works:
  assumes "k < 8" "rcell s k = (\<lambda>_. None)"
  shows "\<exists>l' s'. commitInitialRecord ops k emptyRecord l s = (True, l', s')"
proof -
  have "validateHubRecord emptyRecord = CR_OK" "hubRecord_wf emptyRecord"
    by (simp_all add: emptyRecord_def hubRecord_init_def validateHubRecord_def validHubState_def canonicalEmpty_def allZero_nth hubRecord_wf_def)
  moreover have "supersedes hrGeneration decodeHubRecordForSelection (rcell s k) CopyA emptyRecord" using assms(2) by (simp add: supersedes_def)
  ultimately show ?thesis using commitRecord_works [OF assms(1)] by (simp add: commitInitialRecord_def)
qed

lemma initializeSlots_works:
  assumes "length (hlSlots l) = 8" "\<forall>k<8. slot \<le> k \<longrightarrow> rcell s k = (\<lambda>_. None)"
  shows "\<exists>l' s'. hl_initializeSlots ops slot l s = (True, l', s')"
  using assms
proof (induction "8 - slot" arbitrary: slot l s)
  case 0
  then show ?case by (simp add: hl_initializeSlots.simps)
next
  case (Suc n)
  then have slot: "slot < 8" and none: "rcell s slot = (\<lambda>_. None)" by auto
  let ?l = "l\<lparr>hlSlots := (hlSlots l)[slot := (hlSlots l ! slot)\<lparr>hssActiveCopy := CopyA\<rparr>]\<rparr>"
  obtain l1 s1 where c: "commitInitialRecord ops slot emptyRecord ?l s = (True, l1, s1)"
    using commitInitialRecord_works [OF slot none, of ?l] by blast
  have "supersedes hrGeneration decodeHubRecordForSelection (rcell s slot) CopyA emptyRecord" "hubRecord_wf emptyRecord"
    using none by (simp_all add: supersedes_def emptyRecord_def hubRecord_init_def hubRecord_wf_def)
  note C = commitRecord_outcome [OF c [unfolded commitInitialRecord_def] this]
  have "length (hlSlots l1) = 8" "\<forall>k<8. Suc slot \<le> k \<longrightarrow> rcell s1 k = (\<lambda>_. None)" using C Suc.prems by auto
  then obtain l2 s2 where "hl_initializeSlots ops (Suc slot) l1 s1 = (True, l2, s2)" using Suc.hyps(1) [of "Suc slot"] Suc.hyps(2) by fastforce
  then show ?case using c slot by (subst hl_initializeSlots.simps) simp
qed

text \<open>A blank medium, one whose reads report every copy as missing, is initialised.\<close>

lemma recover_blank:
  assumes miss: "\<And>k c s. k < 8 \<Longrightarrow> P s \<Longrightarrow> \<exists>s' n. hsRead ops k c (fillZero 56) s = (SR_MISSING, fillZero 56, n, s') \<and> P s'"
    and missM: "\<And>c s. P s \<Longrightarrow> \<exists>s' n. hsReadMetadata ops c (fillZero 24) s = (SR_MISSING, fillZero 24, n, s') \<and> P s'"
    and P: "P s" and ids: "hub \<noteq> 0" "node \<noteq> 0" "hub \<noteq> node" and cu: "hubCustody (mcell s) (rcell s)"
  shows "\<exists>l' s'. hl_recover ops hub node l s = (LST_READY, l', s') \<and> hlHealthy l' \<and> hlOrdinalReady l'
    \<and> hlHubDeviceId l' = hub \<and> hlNodeDeviceId l' = node \<and> (\<forall>k<8. hubSlotRecord l' k = emptyRecord)
    \<and> hmNextUnreservedAdmissionOrdinal (hlMetadata l') = 1"
proof -
  define l0 where "l0 = (hl_reset l)\<lparr>hlHubDeviceId := hub, hlNodeDeviceId := node\<rparr>"
  have l0: "length (hlSlots l0) = 8" "hlNextVolatileOrdinal l0 = hlVolatileEndExclusive l0" "\<not> hlHealthy l0"
    "hlHubDeviceId l0 = hub" "hlNodeDeviceId l0 = node" by (simp_all add: l0_def hl_reset_def)
  have rd: "\<exists>s' f. hl_readRecordCopy ops k c l s = (True, f, l, s') \<and> P s' \<and> f = \<lparr>fcStatus = FRS_MISSING, fcBytes = fillZero 56\<rparr>"
    if "k < 8" "P s" for k c l s using miss [OF that, of c] by (auto simp: hl_readRecordCopy_def classifyRead_cases)
  have rdM: "\<exists>s' f. hl_readMetadataCopy ops c l s = (True, f, l, s') \<and> P s' \<and> fcStatus f = FRS_MISSING"
    if "P s" for c l s using missM [OF that, of c] by (auto simp: hl_readMetadataCopy_def classifyRead_cases)
  have "\<exists>s'. hl_recoverSlots ops slot True l s = (True, True, l, s') \<and> P s'" if "P s" for slot l s using that
  proof (induction "8 - slot" arbitrary: slot s)
    case 0
    then show ?case by (simp add: hl_recoverSlots.simps)
  next
    case (Suc n)
    then have slot: "slot < 8" by simp
    let ?f = "\<lparr>fcStatus = FRS_MISSING, fcBytes = fillZero 56\<rparr>"
    obtain s1 where a: "hl_readRecordCopy ops slot CopyA l s = (True, ?f, l, s1)" "P s1" using rd [OF slot Suc.prems] by blast
    obtain s2 where b: "hl_readRecordCopy ops slot CopyB l s1 = (True, ?f, l, s2)" "P s2" using rd [OF slot a(2)] by blast
    obtain s3 where "hl_recoverSlots ops (Suc slot) True l s2 = (True, True, l, s3)" "P s3"
      using Suc.hyps(1) [of "Suc slot" s2] Suc.hyps(2) b(2) by (metis Suc_diff_Suc diff_Suc_Suc old.nat.inject slot)
    then show ?case using slot a b by (subst hl_recoverSlots.simps) (simp add: selectCopies_def acceptRecordSelection_def)
  qed
  then obtain s1 where sc: "hl_recoverSlots ops 0 True l0 s = (True, True, l0, s1)" "P s1" using P by blast
  obtain s2 fa where A: "hl_readMetadataCopy ops CopyA l0 s1 = (True, fa, l0, s2)" "P s2" "fcStatus fa = FRS_MISSING" using rdM sc(2) by blast
  obtain s3 fb where B: "hl_readMetadataCopy ops CopyB l0 s2 = (True, fb, l0, s3)" "P s3" "fcStatus fb = FRS_MISSING" using rdM A(2) by blast
  from recoverSlots_outcome [OF sc(1) l0(1)] have S: "rcell s1 = rcell s" "mcell s1 = mcell s" "\<forall>k<8. rcell s k = (\<lambda>_. None)" by auto
  have fr: "rcell s3 = rcell s" "mcell s3 = mcell s" "mcell s () CopyA = None" "mcell s () CopyB = None"
    using readMetadataCopy_outcome [OF A(1)] readMetadataCopy_outcome [OF B(1)] S A(3) B(3) by auto
  have mb: "mcell s3 () = (\<lambda>_. None)" using fr by (metis (full_types) copySlot.exhaust)
  let ?m = "\<lparr>hmGeneration = 1, hmNextUnreservedAdmissionOrdinal = 1\<rparr>"
  have sup: "supersedes hmGeneration decodeHubMetadataForSelection (mcell s3 ()) CopyA ?m" using mb by (simp add: supersedes_def)
  then obtain l4 s4 where c: "hl_commitMetadata ops ?m CopyA l0 s3 = (True, l4, s4)" using commitMetadata_works [of ?m s3 CopyA l0] by auto
  from commitMetadata_outcome [OF c sup] have C: "rcell s4 = rcell s"
    "l4 = l0\<lparr>hlMetadata := ?m, hlMetadataCopy := CopyA, hlHasMetadata := True, hlOrdinalReady := True\<rparr>" using fr by auto
  obtain l5 s5 where i: "hl_initializeSlots ops 0 l4 s4 = (True, l5, s5)"
    using initializeSlots_works [of l4 0 s4] C S(3) l0(1) by auto
  then have f: "hl_initializeFresh ops l0 s3 = (True, l5, s5)" using c by (simp add: hl_initializeFresh_def)
  have blank3: "\<forall>k<8. rcell s3 k = (\<lambda>_. None)" using S(3) fr by simp
  note F = initializeFresh_outcome [OF f l0(1) mb blank3 l0(2,3)]
  have len4: "length (hlSlots l4) = 8" and b4: "\<forall>k<8. 0 \<le> k \<longrightarrow> rcell s4 k = (\<lambda>_. None)" using C l0(1) S(3) by auto
  obtain sl where l5: "l5 = l4\<lparr>hlSlots := sl\<rparr>" using initializeSlots_outcome [OF i len4 b4] by auto
  have "hl_recover ops hub node l s = (hlStatus (enterService l5), enterService l5, s5)"
    using ids sc A B f by (simp add: hl_recover_def l0_def [symmetric])
  moreover have "hlStatus (enterService l5) = LST_READY" using F by (simp add: enterService_def)
  moreover have "hlHubDeviceId (enterService l5) = hub" "hlNodeDeviceId (enterService l5) = node"
    "hmNextUnreservedAdmissionOrdinal (hlMetadata (enterService l5)) = 1"
    using l5 C(2) l0 by (simp_all add: enterService_def Let_def)
  ultimately show ?thesis using F by auto
qed

end

end
