(* ===== verification/NvsPlatform.thy ===== *)
theory NvsPlatform
  imports Prelude
begin

text \<open>
  The non-volatile storage of the ESP32 as the two storage libraries use it: \<^verbatim>\<open>nvs_open\<close>, \<^verbatim>\<open>nvs_close\<close> and the class
  \<^verbatim>\<open>Preferences\<close>.  This code belongs to the platform and is a parameter of the model; what is relied on is stated by
  the locales of the theories that use it.
\<close>

subsection \<open>The platform interface\<close>

datatype espErr = ESP_OK | ESP_ERR_NVS_NOT_FOUND | ESP_ERR_OTHER
datatype preferenceType = PT_BLOB | PT_U8 | PT_OTHER

text \<open>Namespace, key and buffer arguments as the source passes them; the handle of \<^verbatim>\<open>nvs_open\<close> and the state of
  the \<^verbatim>\<open>Preferences\<close> object are part of the environment.\<close>

record 's nvsApi =
  nvsOpenReadonly :: "string \<Rightarrow> 's \<Rightarrow> espErr \<times> 's"
  nvsClose :: "'s \<Rightarrow> 's"
  prefBegin :: "string \<Rightarrow> bool \<Rightarrow> 's \<Rightarrow> bool \<times> 's"
  prefEnd :: "'s \<Rightarrow> 's"
  prefIsKey :: "string \<Rightarrow> 's \<Rightarrow> bool \<times> 's"
  prefGetType :: "string \<Rightarrow> 's \<Rightarrow> preferenceType \<times> 's"
  prefGetBytesLength :: "string \<Rightarrow> 's \<Rightarrow> nat \<times> 's"
  prefGetBytes :: "string \<Rightarrow> bytes \<Rightarrow> nat \<Rightarrow> 's \<Rightarrow> nat \<times> bytes \<times> 's"
  prefPutBytes :: "string \<Rightarrow> bytes \<Rightarrow> nat \<Rightarrow> 's \<Rightarrow> nat \<times> 's"

end
