(* ===== verification/Esp32EventStorage.thy ===== *)
theory Esp32EventStorage
  imports NodeEventRuns HubLedgerRuns NvsPlatform
begin

text \<open>
  The flash-backed implementation of the storage classes
  (\<^verbatim>\<open>lib/esp32_event_storage/src/esp32_event_storage.cpp\<close>): every copy of every record is one blob in the
  namespace \<^verbatim>\<open>red_evt\<close> of the ESP32's non-volatile storage.  The platform's \<^verbatim>\<open>nvs_open\<close> and \<^verbatim>\<open>Preferences\<close>
  are parameters (record \<open>nvsApi\<close> of \<open>NvsPlatform\<close>).  The locale \<open>nvs_flash\<close> states the behaviour their documentation promises,
  in which every call may fail; \<open>nvs_reads\<close> adds that a blob that is stored can be read.  With it \<^verbatim>\<open>PreferencesStore\<close> keeps the
  contract both the Node store and the Hub ledger rely on; without it a failed \<^verbatim>\<open>getBytes\<close> is reported as \<open>SR_ERROR\<close>, which
  the stores cannot tell from a cell without a record.
\<close>

subsection \<open>Keys\<close>

definition NAMESPACE :: string where "NAMESPACE = ''red_evt''"

definition SLOT_KEYS :: "string list list" where
  "SLOT_KEYS = [[''e0a'', ''e0b''], [''e1a'', ''e1b''], [''e2a'', ''e2b''], [''e3a'', ''e3b''],
     [''e4a'', ''e4b''], [''e5a'', ''e5b''], [''e6a'', ''e6b''], [''e7a'', ''e7b'']]"

definition HUB_SLOT_KEYS :: "string list list" where
  "HUB_SLOT_KEYS = [[''h0a'', ''h0b''], [''h1a'', ''h1b''], [''h2a'', ''h2b''], [''h3a'', ''h3b''],
     [''h4a'', ''h4b''], [''h5a'', ''h5b''], [''h6a'', ''h6b''], [''h7a'', ''h7b'']]"

definition metadataKey :: "copySlot \<Rightarrow> string option" where
  "metadataKey slot = Some (if slot = CopyA then ''id_a'' else ''id_b'')"

definition eventKey :: "nat \<Rightarrow> copySlot \<Rightarrow> string option" where
  "eventKey logicalSlot c = (if logicalSlot < NODE_EVENT_CAPACITY
     then Some (SLOT_KEYS ! logicalSlot ! (if c = CopyA then 0 else 1)) else None)"

definition hubMetadataKey :: "copySlot \<Rightarrow> string option" where
  "hubMetadataKey slot = Some (if slot = CopyA then ''ho_a'' else ''ho_b'')"

definition hubEventKey :: "nat \<Rightarrow> copySlot \<Rightarrow> string option" where
  "hubEventKey logicalSlot c = (if logicalSlot < HUB_EVENT_CAPACITY
     then Some (HUB_SLOT_KEYS ! logicalSlot ! (if c = CopyA then 0 else 1)) else None)"

subsection \<open>Reading and writing a blob\<close>

definition probeNamespace :: "'s nvsApi \<Rightarrow> 's \<Rightarrow> storageResult \<times> 's" where
  "probeNamespace nv s = (case nvsOpenReadonly nv NAMESPACE s of (result, s1) \<Rightarrow>
     if result = ESP_OK then (SR_OK, nvsClose nv s1)
     else (if result = ESP_ERR_NVS_NOT_FOUND then SR_MISSING else SR_UNAVAILABLE, s1))"

text \<open>\<open>output\<close> is the caller's buffer, never null here; its length is the capacity.\<close>

definition readBlob :: "'s nvsApi \<Rightarrow> string option \<Rightarrow> nat \<Rightarrow> bytes \<Rightarrow> 's \<Rightarrow> storageResult \<times> bytes \<times> nat \<times> 's" where
  "readBlob nv key exactSize output s = (case key of None \<Rightarrow> (SR_ERROR, output, 0, s) | Some key \<Rightarrow>
     if length output < exactSize then (SR_ERROR, output, 0, s)
     else case probeNamespace nv s of (probe, s1) \<Rightarrow>
     if probe \<noteq> SR_OK then (probe, output, 0, s1)
     else case prefBegin nv NAMESPACE True s1 of (begun, s2) \<Rightarrow>
     if \<not> begun then (SR_UNAVAILABLE, output, 0, s2)
     else case prefIsKey nv key s2 of (isKey, s3) \<Rightarrow>
     if \<not> isKey then (SR_MISSING, output, 0, prefEnd nv s3)
     else case prefGetType nv key s3 of (ty, s4) \<Rightarrow>
     if ty \<noteq> PT_BLOB then (SR_ERROR, output, 0, prefEnd nv s4)
     else case prefGetBytesLength nv key s4 of (len, s5) \<Rightarrow>
     if len \<noteq> exactSize then (SR_ERROR, output, 0, prefEnd nv s5)
     else case prefGetBytes nv key output exactSize s5 of (cnt, output', s6) \<Rightarrow>
     let s7 = prefEnd nv s6 in
     if cnt \<noteq> exactSize then (SR_ERROR, output', 0, s7) else (SR_OK, output', cnt, s7))"

definition writeBlob :: "'s nvsApi \<Rightarrow> string option \<Rightarrow> nat \<Rightarrow> bytes \<Rightarrow> 's \<Rightarrow> storageResult \<times> 's" where
  "writeBlob nv key exactSize input s = (case key of None \<Rightarrow> (SR_ERROR, s) | Some key \<Rightarrow>
     if length input \<noteq> exactSize then (SR_ERROR, s)
     else case prefBegin nv NAMESPACE False s of (begun, s1) \<Rightarrow>
     if \<not> begun then (SR_UNAVAILABLE, s1)
     else case prefPutBytes nv key input (length input) s1 of (cnt, s2) \<Rightarrow>
     let s3 = prefEnd nv s2 in
     (if cnt = exactSize then SR_OK else SR_ERROR, s3))"

subsection \<open>The storage classes it implements\<close>

definition prefCommit :: "'s \<Rightarrow> storageResult \<times> 's" where
  "prefCommit s = (SR_OK, s)"

definition preferencesNode :: "'s nvsApi \<Rightarrow> 's nodeStorage" where
  "preferencesNode nv = \<lparr>neMetadata = \<lparr>
       msRead = (\<lambda>slot. readBlob nv (metadataKey slot) NODE_METADATA_SIZE),
       msWrite = (\<lambda>slot. writeBlob nv (metadataKey slot) NODE_METADATA_SIZE),
       msCommit = prefCommit\<rparr>,
     neRead = (\<lambda>k c. readBlob nv (eventKey k c) NODE_RECORD_SIZE),
     neWrite = (\<lambda>k c. writeBlob nv (eventKey k c) NODE_RECORD_SIZE)\<rparr>"

definition preferencesHub :: "'s nvsApi \<Rightarrow> 's hubStorage" where
  "preferencesHub nv = \<lparr>
     hsReadMetadata = (\<lambda>c. readBlob nv (hubMetadataKey c) HUB_METADATA_SIZE),
     hsWriteMetadata = (\<lambda>c. writeBlob nv (hubMetadataKey c) HUB_METADATA_SIZE),
     hsRead = (\<lambda>k c. readBlob nv (hubEventKey k c) HUB_RECORD_SIZE),
     hsWrite = (\<lambda>k c. writeBlob nv (hubEventKey k c) HUB_RECORD_SIZE),
     hsCommit = prefCommit\<rparr>"

subsection \<open>The keys are distinct\<close>

datatype keyName = NodeMeta copySlot | NodeSlot nat copySlot | HubMeta copySlot | HubSlot nat copySlot

fun keyOf :: "keyName \<Rightarrow> string option" where
  "keyOf (NodeMeta c) = metadataKey c"
| "keyOf (NodeSlot k c) = eventKey k c"
| "keyOf (HubMeta c) = hubMetadataKey c"
| "keyOf (HubSlot k c) = hubEventKey k c"

definition allKeys :: "keyName list" where
  "allKeys = map NodeMeta [CopyA, CopyB] @ map HubMeta [CopyA, CopyB]
     @ concat (map (\<lambda>k. [NodeSlot k CopyA, NodeSlot k CopyB, HubSlot k CopyA, HubSlot k CopyB]) [0..<8])"

lemma keys_distinct: "distinct (map (\<lambda>n. the (keyOf n)) allKeys)"
  by (simp add: allKeys_def metadataKey_def hubMetadataKey_def eventKey_def hubEventKey_def SLOT_KEYS_def HUB_SLOT_KEYS_def upt_rec)

lemma keyOf_listed: "keyOf n = Some key \<Longrightarrow> n \<in> set allKeys"
  by (cases n rule: keyOf.cases)
    (auto simp: allKeys_def eventKey_def hubEventKey_def split: if_splits, (metis copySlot.exhaust)+)

text \<open>No two copies of anything share a blob.\<close>

lemma keyOf_inj: "keyOf a = Some key \<Longrightarrow> keyOf b = Some key \<Longrightarrow> a = b"
  using keys_distinct keyOf_listed [of a] keyOf_listed [of b] by (auto simp: distinct_map inj_on_def)

subsection \<open>Documented behaviour of the platform\<close>

text \<open>\<open>blob s key\<close> is the blob stored under \<open>key\<close> (\<open>None\<close>: no such key, or not a blob), \<open>opened\<close> says that the
  \<^verbatim>\<open>Preferences\<close> object is between a successful \<^verbatim>\<open>begin\<close> and its \<^verbatim>\<open>end\<close>.  Queries change nothing and tell the
  truth; \<^verbatim>\<open>getBytes\<close> may fail, and when it returns the length asked for it has delivered the whole blob; an update replaces one
  blob or leaves it as it was, and it has replaced it when it reports the length of the new one.\<close>

locale nvs_flash =
  fixes nv :: "'s nvsApi" and opened :: "'s \<Rightarrow> bool" and blob :: "'s \<Rightarrow> string \<Rightarrow> bytes option"
  assumes open_frame: "nvsOpenReadonly nv NAMESPACE s = (r, s') \<Longrightarrow> blob s' = blob s"
    and open_missing: "nvsOpenReadonly nv NAMESPACE s = (ESP_ERR_NVS_NOT_FOUND, s') \<Longrightarrow> blob s = (\<lambda>_. None)"
    and close_frame: "blob (nvsClose nv s) = blob s"
    and begin_frame: "prefBegin nv NAMESPACE ro s = (b, s') \<Longrightarrow> blob s' = blob s \<and> (b \<longrightarrow> opened s')"
    and end_frame: "blob (prefEnd nv s) = blob s"
    and isKey: "prefIsKey nv key s = (b, s') \<Longrightarrow> opened s \<Longrightarrow>
      blob s' = blob s \<and> opened s' \<and> (\<not> b \<longrightarrow> blob s key = None)"
    and getType: "prefGetType nv key s = (t, s') \<Longrightarrow> opened s \<Longrightarrow>
      blob s' = blob s \<and> opened s' \<and> (t \<noteq> PT_BLOB \<longrightarrow> blob s key = None)"
    and getBytesLength: "prefGetBytesLength nv key s = (n, s') \<Longrightarrow> opened s \<Longrightarrow>
      blob s' = blob s \<and> opened s' \<and> (\<forall>bs. blob s key = Some bs \<longrightarrow> n = length bs)"
    and getBytes: "prefGetBytes nv key buf n s = (m, buf', s') \<Longrightarrow> opened s \<Longrightarrow> n \<le> length buf \<Longrightarrow>
      blob s' = blob s \<and> length buf' = length buf
      \<and> (m = n \<and> 0 < n \<longrightarrow> (\<exists>bs. blob s key = Some bs \<and> length bs = n \<and> buf' = bs @ drop n buf))"
    and putBytes: "prefPutBytes nv key bs n s = (m, s') \<Longrightarrow> opened s \<Longrightarrow> n = length bs \<Longrightarrow>
      (blob s' = blob s \<or> blob s' = (blob s)(key \<mapsto> bs)) \<and> (m = n \<and> 0 < n \<longrightarrow> blob s' = (blob s)(key \<mapsto> bs))"

text \<open>Flash on which \<^verbatim>\<open>getBytes\<close> does not fail on a blob of the length asked for, and leaves the buffer alone when there is none.\<close>

locale nvs_reads = nvs_flash nv opened blob for nv :: "'s nvsApi" and opened blob +
  assumes read_stored: "prefGetBytes nv key buf n s = (m, buf', s') \<Longrightarrow> opened s \<Longrightarrow> n \<le> length buf \<Longrightarrow> m \<noteq> n \<Longrightarrow>
      buf' = buf \<and> (\<forall>bs. blob s key = Some bs \<longrightarrow> length bs \<noteq> n)"

definition sizedBlob :: "nat \<Rightarrow> (string \<Rightarrow> bytes option) \<Rightarrow> string option \<Rightarrow> bytes option" where
  "sizedBlob n m key = (case key of None \<Rightarrow> None | Some key \<Rightarrow>
     (case m key of None \<Rightarrow> None | Some bs \<Rightarrow> if length bs = n then Some bs else None))"

text \<open>The cells of the four kinds of records.\<close>

definition nodeMetaCells :: "(string \<Rightarrow> bytes option) \<Rightarrow> unit \<Rightarrow> copySlot \<Rightarrow> bytes option" where
  "nodeMetaCells m u c = sizedBlob 28 m (metadataKey c)"

definition nodeCells :: "(string \<Rightarrow> bytes option) \<Rightarrow> nat \<Rightarrow> copySlot \<Rightarrow> bytes option" where
  "nodeCells m k c = sizedBlob 56 m (eventKey k c)"

definition hubMetaCells :: "(string \<Rightarrow> bytes option) \<Rightarrow> unit \<Rightarrow> copySlot \<Rightarrow> bytes option" where
  "hubMetaCells m u c = sizedBlob 24 m (hubMetadataKey c)"

definition hubCells :: "(string \<Rightarrow> bytes option) \<Rightarrow> nat \<Rightarrow> copySlot \<Rightarrow> bytes option" where
  "hubCells m k c = sizedBlob 56 m (hubEventKey k c)"

lemma keys_separate:
  "metadataKey c = Some key \<Longrightarrow> eventKey k c' \<noteq> Some key" "hubMetadataKey c = Some key \<Longrightarrow> hubEventKey k c' \<noteq> Some key"
  "metadataKey c = Some key \<Longrightarrow> metadataKey d = Some key \<Longrightarrow> d = c" "hubMetadataKey c = Some key \<Longrightarrow> hubMetadataKey d = Some key \<Longrightarrow> d = c"
  "eventKey k c = Some key \<Longrightarrow> eventKey j d = Some key \<Longrightarrow> j = k \<and> d = c"
  "hubEventKey k c = Some key \<Longrightarrow> hubEventKey j d = Some key \<Longrightarrow> j = k \<and> d = c"
  using keyOf_inj [of "NodeMeta c" key "NodeSlot k c'"] keyOf_inj [of "HubMeta c" key "HubSlot k c'"]
    keyOf_inj [of "NodeMeta d" key "NodeMeta c"] keyOf_inj [of "HubMeta d" key "HubMeta c"]
    keyOf_inj [of "NodeSlot j d" key "NodeSlot k c"] keyOf_inj [of "HubSlot j d" key "HubSlot k c"] by auto

lemma sizedBlob_update: "sizedBlob n (m(key \<mapsto> bs)) k = (if k = Some key then if length bs = n then Some bs else None else sizedBlob n m k)"
  by (simp add: sizedBlob_def split: option.splits)

text \<open>What a write of one blob may do.\<close>

definition blobStep :: "string option \<Rightarrow> nat \<Rightarrow> bytes \<Rightarrow> (string \<Rightarrow> bytes option) \<Rightarrow> (string \<Rightarrow> bytes option) \<Rightarrow> bool" where
  "blobStep key n bs m m' = (m' = m \<or> (\<exists>k. key = Some k \<and> length bs = n \<and> m' = m(k \<mapsto> bs)))"

lemma blobStep_other: "blobStep key n bs m m' \<Longrightarrow> (\<And>k. key = Some k \<Longrightarrow> other \<noteq> Some k) \<Longrightarrow> sizedBlob j m' other = sizedBlob j m other"
  by (auto simp: blobStep_def sizedBlob_update)

lemma blobStep_same: "blobStep key n bs m m' \<Longrightarrow> sizedBlob n m' key = sizedBlob n m key \<or> sizedBlob n m' key = Some bs"
  by (auto simp: blobStep_def sizedBlob_update)

lemma blobStep_meta:
  "blobStep (metadataKey c) 28 bs m m' \<Longrightarrow> nodeCells m' = nodeCells m \<and> cellStep dec u c bs (nodeMetaCells m) (nodeMetaCells m')"
  "blobStep (hubMetadataKey c) 24 bs m m' \<Longrightarrow> hubCells m' = hubCells m \<and> cellStep dec u c bs (hubMetaCells m) (hubMetaCells m')"
  using blobStep_same [of "metadataKey c" 28 bs m m'] blobStep_same [of "hubMetadataKey c" 24 bs m m']
  by (auto simp: nodeCells_def [abs_def] nodeMetaCells_def hubCells_def [abs_def] hubMetaCells_def cellStep_def fun_eq_iff
      intro!: blobStep_other dest: keys_separate)

lemma blobStep_rec:
  "blobStep (eventKey k c) 56 bs m m' \<Longrightarrow> nodeMetaCells m' = nodeMetaCells m \<and> cellStep dec k c bs (nodeCells m) (nodeCells m')"
  "blobStep (hubEventKey k c) 56 bs m m' \<Longrightarrow> hubMetaCells m' = hubMetaCells m \<and> cellStep dec k c bs (hubCells m) (hubCells m')"
  using blobStep_same [of "eventKey k c" 56 bs m m'] blobStep_same [of "hubEventKey k c" 56 bs m m']
  by (auto simp: nodeCells_def nodeMetaCells_def hubCells_def hubMetaCells_def cellStep_def fun_eq_iff
      intro!: blobStep_other dest: keys_separate)

context nvs_flash
begin

lemma probe_frame: "probeNamespace nv s = (p, s') \<Longrightarrow> blob s' = blob s \<and> (p = SR_MISSING \<longrightarrow> blob s = (\<lambda>_. None))"
  by (auto simp: probeNamespace_def close_frame split: prod.splits if_splits dest: open_frame open_missing)

lemma readBlob_outcome:
  assumes "readBlob nv key n buf s = (r, buf', m, s')" "0 < n"
  shows "blob s' = blob s \<and> length buf' = length buf
    \<and> (r = SR_OK \<longrightarrow> m = n \<and> (\<exists>k bs. key = Some k \<and> blob s k = Some bs \<and> length bs = n \<and> buf' = bs @ drop n buf))
    \<and> (r = SR_MISSING \<longrightarrow> sizedBlob n (blob s) key = None)
    \<and> (r \<noteq> SR_OK \<longrightarrow> buf' = buf \<and> (r \<noteq> SR_UNAVAILABLE \<longrightarrow> n \<le> length buf \<longrightarrow> sizedBlob n (blob s) key = None)
       \<or> r = SR_ERROR \<and> n \<le> length buf \<and> (\<exists>k c s1 s2. key = Some k \<and> prefGetBytes nv k buf n s1 = (c, buf', s2) \<and> opened s1 \<and> blob s1 = blob s \<and> c \<noteq> n))"
proof (cases "key = None \<or> length buf < n")
  case True
  then show ?thesis using assms(1) by (cases key) (auto simp: readBlob_def sizedBlob_def)
next
  case False
  then obtain k where k: "key = Some k" "n \<le> length buf" by (cases key) auto
  obtain p s1 where p: "probeNamespace nv s = (p, s1)" by fastforce
  obtain b s2 where b: "prefBegin nv NAMESPACE True s1 = (b, s2)" by fastforce
  obtain i s3 where i: "prefIsKey nv k s2 = (i, s3)" by fastforce
  obtain t s4 where t: "prefGetType nv k s3 = (t, s4)" by fastforce
  obtain l s5 where l: "prefGetBytesLength nv k s4 = (l, s5)" by fastforce
  obtain c out s6 where g: "prefGetBytes nv k buf n s5 = (c, out, s6)" using prod_cases3 by blast
  note run = assms(1) k p b i t l g
  note P = probe_frame [OF p] and B = begin_frame [OF b]
  show ?thesis
  proof (cases "p = SR_OK \<and> b")
    case False
    then have "s' \<in> {s1, s2} \<and> buf' = buf \<and> (r = p \<and> p \<noteq> SR_OK \<or> r = SR_UNAVAILABLE)"
      using run by (auto simp: readBlob_def split: if_splits)
    then show ?thesis using P B p k
      by (auto simp: sizedBlob_def probeNamespace_def split: prod.splits if_splits)
  next
    case True
    then have o2: "opened s2" "blob s2 = blob s" using P B by auto
    note I = isKey [OF i o2(1)]
    have T: "blob s4 = blob s \<and> opened s4 \<and> (t \<noteq> PT_BLOB \<longrightarrow> blob s k = None)" using getType [OF t] I o2 by auto
    have L: "blob s5 = blob s \<and> opened s5 \<and> (\<forall>bs. blob s k = Some bs \<longrightarrow> l = length bs)" using getBytesLength [OF l] T by auto
    have G: "blob s6 = blob s \<and> length out = length buf \<and> (c = n \<longrightarrow> (\<exists>bs. blob s k = Some bs \<and> length bs = n \<and> out = bs @ drop n buf))"
      using getBytes [OF g _ k(2)] L assms(2) by auto
    have "r = SR_MISSING \<and> \<not> i \<and> buf' = buf \<and> s' = prefEnd nv s3
      \<or> r = SR_ERROR \<and> t \<noteq> PT_BLOB \<and> buf' = buf \<and> s' = prefEnd nv s4
      \<or> r = SR_ERROR \<and> l \<noteq> n \<and> buf' = buf \<and> s' = prefEnd nv s5
      \<or> r = SR_ERROR \<and> c \<noteq> n \<and> buf' = out \<and> s' = prefEnd nv s6
      \<or> r = SR_OK \<and> c = n \<and> buf' = out \<and> m = n \<and> s' = prefEnd nv s6"
      using run True by (auto simp: readBlob_def Let_def split: if_splits)
    then show ?thesis
    proof (elim disjE)
      assume "r = SR_ERROR \<and> c \<noteq> n \<and> buf' = out \<and> s' = prefEnd nv s6"
      then show ?thesis using G L g k by (auto simp: end_frame)
    qed (use I T L G o2 k(1) in \<open>auto simp: end_frame sizedBlob_def split: option.splits\<close>)
  qed
qed

lemma writeBlob_outcome:
  assumes "writeBlob nv key n bs s = (r, s')"
  shows "blobStep key n bs (blob s) (blob s')" "r = SR_OK \<Longrightarrow> 0 < n \<Longrightarrow> sizedBlob n (blob s') key = Some bs"
proof -
  have "blobStep key n bs (blob s) (blob s') \<and> (r = SR_OK \<longrightarrow> 0 < n \<longrightarrow> sizedBlob n (blob s') key = Some bs)"
  proof (cases "key = None \<or> length bs \<noteq> n")
    case True
    then show ?thesis using assms by (cases key) (auto simp: writeBlob_def blobStep_def)
  next
    case False
    then obtain k where k: "key = Some k" "length bs = n" by (cases key) auto
    obtain b s1 where b: "prefBegin nv NAMESPACE False s = (b, s1)" by fastforce
    obtain c s2 where p: "prefPutBytes nv k bs (length bs) s1 = (c, s2)" by fastforce
    have B: "blob s1 = blob s" "b \<Longrightarrow> opened s1" using begin_frame [OF b] by auto
    have stored: "blob s2 k = Some bs" if "b" "c = n" "0 < n" using putBytes [OF p B(2) [OF that(1)]] k that(2,3) by (metis fun_upd_same)
    have "blobStep key n bs (blob s) (blob s')" using assms k b p B putBytes [OF p]
      by (cases b) (auto simp: writeBlob_def Let_def end_frame blobStep_def split: if_splits)
    moreover have "s' = prefEnd nv s2 \<and> b \<and> c = n" if "r = SR_OK" using assms k b p that by (auto simp: writeBlob_def Let_def split: if_splits)
    ultimately show ?thesis using stored k by (auto simp: end_frame sizedBlob_def)
  qed
  then show "blobStep key n bs (blob s) (blob s')" "r = SR_OK \<Longrightarrow> 0 < n \<Longrightarrow> sizedBlob n (blob s') key = Some bs" by blast+
qed

end

context nvs_reads
begin

lemma readBlob_buffer:
  assumes "readBlob nv key n buf s = (r, buf', m, s')" "0 < n"
  shows "if r = SR_OK then m = n \<and> (\<exists>k bs. key = Some k \<and> blob s k = Some bs \<and> length bs = n \<and> buf' = bs @ drop n buf)
    else buf' = buf \<and> (r \<noteq> SR_UNAVAILABLE \<longrightarrow> n \<le> length buf \<longrightarrow> sizedBlob n (blob s) key = None)"
proof (cases "r = SR_OK")
  case False
  from readBlob_outcome [OF assms] False
  consider "buf' = buf \<and> (r \<noteq> SR_UNAVAILABLE \<longrightarrow> n \<le> length buf \<longrightarrow> sizedBlob n (blob s) key = None)"
    | k c s1 s2 where "n \<le> length buf" "key = Some k" "prefGetBytes nv k buf n s1 = (c, buf', s2)" "opened s1" "blob s1 = blob s" "c \<noteq> n" by blast
  then show ?thesis
  proof cases
    case 2
    then show ?thesis using read_stored [OF 2(3,4,1,6)] False by (auto simp: sizedBlob_def split: option.splits)
  qed (use False in simp)
qed (use readBlob_outcome [OF assms] in simp)

lemma readBlob_cell:
  assumes "readBlob nv key n buf s = (r, buf', m, s')" "0 < n" "length buf = n" "r \<noteq> SR_UNAVAILABLE"
  shows "sizedBlob n (blob s) key = (if r = SR_OK \<and> m = n then Some buf' else None)"
  using readBlob_buffer [OF assms(1,2)] assms(3,4) by (cases "r = SR_OK") (auto simp: sizedBlob_def)

end

sublocale nvs_reads \<subseteq> hub: hub_storage "preferencesHub nv" "\<lambda>s. hubMetaCells (blob s)" "\<lambda>s. hubCells (blob s)"
proof
  fix u :: unit and c buf s r buf' n s' assume r: "hsReadMetadata (preferencesHub nv) c buf s = (r, buf', n, s')"
  then have r': "readBlob nv (hubMetadataKey c) 24 buf s = (r, buf', n, s')" by (simp add: preferencesHub_def)
  note o = readBlob_outcome [OF r']
  show "hubMetaCells (blob s') = hubMetaCells (blob s) \<and> length buf' = length buf" using o by simp
  show "hubCells (blob s') = hubCells (blob s)" using o by simp
  show "length buf = 24 \<Longrightarrow> r \<noteq> SR_UNAVAILABLE \<Longrightarrow> hubMetaCells (blob s) u c = (if r = SR_OK \<and> n = 24 then Some buf' else None)"
    using readBlob_cell [OF r'] by (simp add: hubMetaCells_def)
next
  fix c s r buf n s' assume r: "hsReadMetadata (preferencesHub nv) c (fillZero 24) s = (r, buf, n, s')" and f: "r \<noteq> SR_OK \<or> n \<noteq> 24"
  have r': "readBlob nv (hubMetadataKey c) 24 (fillZero 24) s = (r, buf, n, s')" using r by (simp add: preferencesHub_def)
  have "buf = fillZero 24" using readBlob_buffer [OF r'] f by (auto split: if_splits)
  then show "decodeHubMetadataForSelection buf = None" using hub_metadata.dec_blank by simp
next
  fix k c buf s r buf' n s' assume r: "hsRead (preferencesHub nv) k c buf s = (r, buf', n, s')"
  then have r': "readBlob nv (hubEventKey k c) 56 buf s = (r, buf', n, s')" by (simp add: preferencesHub_def)
  note o = readBlob_outcome [OF r']
  show "hubCells (blob s') = hubCells (blob s) \<and> length buf' = length buf" using o by simp
  show "hubMetaCells (blob s') = hubMetaCells (blob s)" using o by simp
  show "length buf = 56 \<Longrightarrow> r \<noteq> SR_UNAVAILABLE \<Longrightarrow> hubCells (blob s) k c = (if r = SR_OK \<and> n = 56 then Some buf' else None)"
    using readBlob_cell [OF r'] by (simp add: hubCells_def)
next
  fix k c s r buf n s' assume r: "hsRead (preferencesHub nv) k c (fillZero 56) s = (r, buf, n, s')" and f: "r \<noteq> SR_OK \<or> n \<noteq> 56"
  have r': "readBlob nv (hubEventKey k c) 56 (fillZero 56) s = (r, buf, n, s')" using r by (simp add: preferencesHub_def)
  have "buf = fillZero 56" using readBlob_buffer [OF r'] f by (auto split: if_splits)
  then show "decodeHubRecordForSelection buf = None" using hub_record.dec_blank by simp
next
  fix u :: unit and c bs s w s' assume w: "hsWriteMetadata (preferencesHub nv) c bs s = (w, s')"
  then have "writeBlob nv (hubMetadataKey c) 24 bs s = (w, s')" by (simp add: preferencesHub_def)
  from writeBlob_outcome(1) [OF this] show "hubCells (blob s') = hubCells (blob s)"
    "cellStep decodeHubMetadataForSelection u c bs (hubMetaCells (blob s)) (hubMetaCells (blob s'))"
    using blobStep_meta(2) by blast+
next
  fix k c bs s w s' assume w: "hsWrite (preferencesHub nv) k c bs s = (w, s')"
  then have "writeBlob nv (hubEventKey k c) 56 bs s = (w, s')" by (simp add: preferencesHub_def)
  from writeBlob_outcome(1) [OF this] show "hubMetaCells (blob s') = hubMetaCells (blob s)"
    "cellStep decodeHubRecordForSelection k c bs (hubCells (blob s)) (hubCells (blob s'))"
    using blobStep_rec(2) by blast+
qed (auto simp: preferencesHub_def prefCommit_def)

text \<open>With an entropy source that leaves the flash alone the same object serves the Node.\<close>

locale nvs_entropy = nvs_reads nv opened blob for nv :: "'s nvsApi" and opened blob +
  fixes entropy :: "'s entropySource"
  assumes entropy_blob: "entropy s = (e, s') \<Longrightarrow> blob s' = blob s"

sublocale nvs_entropy \<subseteq> node: node_storage "preferencesNode nv" "\<lambda>s. nodeMetaCells (blob s)" entropy "\<lambda>s. nodeCells (blob s)"
proof
  fix u :: unit and c buf s r buf' n s' assume r: "msRead (neMetadata (preferencesNode nv)) c buf s = (r, buf', n, s')"
  then have r': "readBlob nv (metadataKey c) 28 buf s = (r, buf', n, s')" by (simp add: preferencesNode_def)
  note o = readBlob_outcome [OF r']
  show "nodeMetaCells (blob s') = nodeMetaCells (blob s) \<and> length buf' = length buf" using o by simp
  show "nodeCells (blob s') = nodeCells (blob s)" using o by simp
  show "length buf = 28 \<Longrightarrow> r \<noteq> SR_UNAVAILABLE \<Longrightarrow> nodeMetaCells (blob s) u c = (if r = SR_OK \<and> n = 28 then Some buf' else None)"
    using readBlob_cell [OF r'] by (simp add: nodeMetaCells_def)
next
  fix k c buf s r buf' n s' assume r: "neRead (preferencesNode nv) k c buf s = (r, buf', n, s')"
  then have r': "readBlob nv (eventKey k c) 56 buf s = (r, buf', n, s')" by (simp add: preferencesNode_def)
  note o = readBlob_outcome [OF r']
  show "nodeCells (blob s') = nodeCells (blob s) \<and> length buf' = length buf" using o by simp
  show "nodeMetaCells (blob s') = nodeMetaCells (blob s)" using o by simp
  show "length buf = 56 \<Longrightarrow> r \<noteq> SR_UNAVAILABLE \<Longrightarrow> nodeCells (blob s) k c = (if r = SR_OK \<and> n = 56 then Some buf' else None)"
    using readBlob_cell [OF r'] by (simp add: nodeCells_def)
next
  fix u :: unit and c bs s w s' assume w: "msWrite (neMetadata (preferencesNode nv)) c bs s = (w, s')"
  then have "writeBlob nv (metadataKey c) 28 bs s = (w, s')" by (simp add: preferencesNode_def)
  from writeBlob_outcome(1) [OF this] show "nodeCells (blob s') = nodeCells (blob s)"
    "cellStep decodeNodeMetadataForSelection u c bs (nodeMetaCells (blob s)) (nodeMetaCells (blob s'))"
    using blobStep_meta(1) by blast+
next
  fix k c bs s w s' assume w: "neWrite (preferencesNode nv) k c bs s = (w, s')"
  then have "writeBlob nv (eventKey k c) 56 bs s = (w, s')" by (simp add: preferencesNode_def)
  from writeBlob_outcome(1) [OF this] show "nodeMetaCells (blob s') = nodeMetaCells (blob s)"
    "cellStep decodeNodeRecordForSelection k c bs (nodeCells (blob s)) (nodeCells (blob s'))"
    using blobStep_rec(1) by blast+
qed (auto simp: preferencesNode_def prefCommit_def entropy_blob)

context nvs_entropy
begin

lemma contracts:
  "node_storage (preferencesNode nv) (\<lambda>s. nodeMetaCells (blob s)) entropy (\<lambda>s. nodeCells (blob s))
   \<and> hub_storage (preferencesHub nv) (\<lambda>s. hubMetaCells (blob s)) (\<lambda>s. hubCells (blob s))"
  using node.node_storage_axioms hub.hub_storage_axioms by blast

end

subsection \<open>Flash that works\<close>

locale nvs_working = nvs_entropy nv opened blob entropy for nv :: "'s nvsApi" and opened blob entropy +
  assumes open_works: "fst (nvsOpenReadonly nv NAMESPACE s) \<noteq> ESP_ERR_OTHER"
    and begin_works: "nvsOpenReadonly nv NAMESPACE s = (ESP_OK, s') \<Longrightarrow> fst (prefBegin nv NAMESPACE True (nvsClose nv s'))"
    and create_works: "fst (prefBegin nv NAMESPACE False s)"
    and put_works: "prefPutBytes nv key bs n s = (m, s') \<Longrightarrow> opened s \<Longrightarrow> n = length bs \<Longrightarrow> m = n \<and> blob s' key = Some bs"
begin

lemma readBlob_available: "fst (readBlob nv key n buf s) \<noteq> SR_UNAVAILABLE"
proof -
  obtain p s1 where p: "probeNamespace nv s = (p, s1)" by fastforce
  have "p \<noteq> SR_UNAVAILABLE \<and> (p = SR_OK \<longrightarrow> fst (prefBegin nv NAMESPACE True s1))"
    using p open_works [of s] begin_works [of s]
    by (cases "fst (nvsOpenReadonly nv NAMESPACE s)") (auto simp: probeNamespace_def split: prod.splits)
  then show ?thesis using p by (auto simp: readBlob_def Let_def split: option.splits prod.splits)
qed

lemma writeBlob_effective:
  assumes "writeBlob nv (Some key) n bs s = (w, s')" "length bs = n"
  shows "w = SR_OK \<and> sizedBlob n (blob s') (Some key) = Some bs"
proof -
  obtain s1 where b: "prefBegin nv NAMESPACE False s = (True, s1)" using create_works [of s] by (metis prod.collapse)
  obtain m s2 where p: "prefPutBytes nv key bs n s1 = (m, s2)" by fastforce
  have "m = n" "blob s2 key = Some bs" using put_works [OF p] begin_frame [OF b] assms(2) by auto
  then show ?thesis using assms b p by (auto simp: writeBlob_def Let_def sizedBlob_def end_frame)
qed

end

sublocale nvs_working \<subseteq> hub: working_hub_storage "preferencesHub nv" "\<lambda>s. hubMetaCells (blob s)" "\<lambda>s. hubCells (blob s)"
proof
  fix c bs s w s' assume "length bs = 24" "hsWriteMetadata (preferencesHub nv) c bs s = (w, s')"
  then show "w = SR_OK \<and> hubMetaCells (blob s') () c = Some bs"
    using writeBlob_effective by (simp add: preferencesHub_def hubMetaCells_def hubMetadataKey_def)
next
  fix k c bs s w s' assume "k < 8" "length bs = 56" "hsWrite (preferencesHub nv) k c bs s = (w, s')"
  then show "w = SR_OK \<and> hubCells (blob s') k c = Some bs"
    using writeBlob_effective by (simp add: preferencesHub_def hubCells_def hubEventKey_def)
qed (use readBlob_available in \<open>auto simp: preferencesHub_def prefCommit_def\<close>)

sublocale nvs_working \<subseteq> node: working_node_storage "preferencesNode nv" "\<lambda>s. nodeMetaCells (blob s)" entropy "\<lambda>s. nodeCells (blob s)"
proof
  fix c bs s w s' assume "length bs = 28" "msWrite (neMetadata (preferencesNode nv)) c bs s = (w, s')"
  then show "w = SR_OK \<and> nodeMetaCells (blob s') () c = Some bs"
    using writeBlob_effective by (simp add: preferencesNode_def nodeMetaCells_def metadataKey_def)
next
  fix k c bs s w s' assume "k < 8" "length bs = 56" "neWrite (preferencesNode nv) k c bs s = (w, s')"
  then show "w = SR_OK \<and> nodeCells (blob s') k c = Some bs"
    using writeBlob_effective by (simp add: preferencesNode_def nodeCells_def eventKey_def)
qed (use readBlob_available in \<open>auto simp: preferencesNode_def prefCommit_def\<close>)

subsection \<open>Flash in memory\<close>

text \<open>A concrete platform to evaluate runs on: the namespace does not exist (\<open>None\<close>) or maps keys to blobs.\<close>

type_synonym ramFlash = "(string \<Rightarrow> bytes option) option"

definition ramBlob :: "ramFlash \<Rightarrow> string \<Rightarrow> bytes option" where
  "ramBlob s = (case s of None \<Rightarrow> (\<lambda>_. None) | Some m \<Rightarrow> m)"

definition ramNvs :: "ramFlash nvsApi" where
  "ramNvs = \<lparr>nvsOpenReadonly = (\<lambda>_ s. (if s = None then ESP_ERR_NVS_NOT_FOUND else ESP_OK, s)), nvsClose = (\<lambda>s. s),
     prefBegin = (\<lambda>_ ro s. if ro then (s \<noteq> None, s) else (True, Some (ramBlob s))), prefEnd = (\<lambda>s. s),
     prefIsKey = (\<lambda>key s. (ramBlob s key \<noteq> None, s)), prefGetType = (\<lambda>key s. (PT_BLOB, s)),
     prefGetBytesLength = (\<lambda>key s. (case ramBlob s key of None \<Rightarrow> 0 | Some bs \<Rightarrow> length bs, s)),
     prefGetBytes = (\<lambda>key buf n s. case ramBlob s key of None \<Rightarrow> (Suc n, buf, s)
       | Some bs \<Rightarrow> if length bs = n then (n, bs @ drop n buf, s) else (Suc n, buf, s)),
     prefPutBytes = (\<lambda>key bs n s. (n, Some ((ramBlob s)(key \<mapsto> bs))))\<rparr>"

definition ramEntropy :: "ramFlash entropySource" where
  "ramEntropy s = (Some 7, s)"

interpretation ram_flash: nvs_working ramNvs "\<lambda>s. s \<noteq> None" ramBlob ramEntropy
  by unfold_locales (auto simp: ramNvs_def ramBlob_def ramEntropy_def split: if_splits option.splits)

subsection \<open>The store, in one statement\<close>

fun sizeOf :: "keyName \<Rightarrow> nat" where
  "sizeOf (NodeMeta c) = NODE_METADATA_SIZE"
| "sizeOf (NodeSlot k c) = NODE_RECORD_SIZE"
| "sizeOf (HubMeta c) = HUB_METADATA_SIZE"
| "sizeOf (HubSlot k c) = HUB_RECORD_SIZE"

definition cellOf :: "(string \<Rightarrow> bytes option) \<Rightarrow> keyName \<Rightarrow> bytes option" where
  "cellOf m name = sizedBlob (sizeOf name) m (keyOf name)"

lemma sizeOf_pos: "0 < sizeOf name"
  by (cases name) simp_all

context nvs_flash
begin

lemma read_exact:
  assumes "readBlob nv (keyOf name) (sizeOf name) buf s = (r, buf', n, s')"
  shows "blob s' = blob s \<and> (r = SR_OK \<longrightarrow> n = sizeOf name \<and> cellOf (blob s) name = Some (take n buf'))
    \<and> (r = SR_MISSING \<longrightarrow> cellOf (blob s) name = None)"
  using readBlob_outcome [OF assms sizeOf_pos] by (auto simp: cellOf_def sizedBlob_def)

lemma write_exact:
  assumes "writeBlob nv (keyOf name) (sizeOf name) bs s = (w, s')"
  shows "(\<forall>other. other \<noteq> name \<longrightarrow> cellOf (blob s') other = cellOf (blob s) other)
    \<and> (cellOf (blob s') name = cellOf (blob s) name \<or> cellOf (blob s') name = Some bs)
    \<and> (w = SR_OK \<longrightarrow> cellOf (blob s') name = Some bs)"
proof -
  note W = writeBlob_outcome [OF assms]
  have "cellOf (blob s') other = cellOf (blob s) other" if "other \<noteq> name" for other
    unfolding cellOf_def using keyOf_inj [of other _ name] that by (intro blobStep_other [OF W(1)]) blast
  then show ?thesis using blobStep_same [OF W(1)] W(2) sizeOf_pos by (simp add: cellOf_def)
qed

end



end
