(* ===== verification/HubLedgerProperties.thy ===== *)
theory HubLedgerProperties
  imports Esp32EventStorage
begin

text \<open>
  The theorems about the Hub ledger over any storage that keeps the contract, each applied to the ledger
  on the flash-backed storage.
\<close>

subsection \<open>A run on the flash-backed storage\<close>

abbreviation flashHubRun :: "ledger \<Rightarrow> ramFlash \<Rightarrow> (event \<times> u32) list \<Rightarrow> bool" where
  "flashHubRun \<equiv> hubRun (preferencesHub ramNvs) (\<lambda>s. hubMetaCells (ramBlob s)) (\<lambda>s. hubCells (ramBlob s))"

definition coldLedger :: ledger where
  "coldLedger = hl_reset \<lparr>hlSlots = [], hlMetadata = hubMetadata_init, hlMetadataCopy = CopyA, hlNextVolatileOrdinal = 0,
     hlVolatileEndExclusive = 0, hlHubDeviceId = 0, hlNodeDeviceId = 0, hlHasMetadata = False, hlHealthy = False,
     hlOrdinalReady = False, hlStatus = LST_INDETERMINATE_SLOT, hlDiagnostics = None\<rparr>"

definition sampleHubEvent :: event where
  "sampleHubEvent = event_init\<lparr>evSource := 5, evDestination := 1, evFamily := 0x44, evEpoch := 7, evId := 1,
     evLifetimeBudgetSeconds := 120, evBodyLength := 1, evBody := (fillZero 12)[0 := 1]\<rparr>"

lemma flash_hub_started: "flashHubRun coldLedger None []"
  by (rule hubRun.start)
    (auto simp: coldLedger_def hl_reset_def ramBlob_def hubCells_def sizedBlob_def fun_eq_iff split: option.splits)

lemma flash_blank_reads:
  "k < 8 \<Longrightarrow> hsRead (preferencesHub ramNvs) k c (fillZero 56) None = (SR_MISSING, fillZero 56, 0, None)"
  "hsReadMetadata (preferencesHub ramNvs) c (fillZero 24) None = (SR_MISSING, fillZero 24, 0, None)"
  by (simp_all add: preferencesHub_def readBlob_def ramNvs_def probeNamespace_def hubMetadataKey_def hubEventKey_def)

text \<open>A blank Hub takes any valid Event of the Node.\<close>

lemma flash_hub_ready:
  assumes "isValidEvent e" "evSource e = 5" "evDestination e = 1" "\<forall>j. unat (evBodyLength e) \<le> j \<and> j < 12 \<longrightarrow> evBody e ! j = 0"
  shows "\<exists>l s. flashHubRun l s [] \<and> hlHealthy l \<and> admitting e l 0 \<and> hmNextUnreservedAdmissionOrdinal (hlMetadata l) \<le> 0xFFFFFFDF"
proof -
  have cu: "hubCustody (hubMetaCells (ramBlob None)) (hubCells (ramBlob None))"
    using ram_flash.hub.hubRun_inv [OF flash_hub_started] by (simp add: hubRunInv_def)
  obtain l s where r: "hl_recover (preferencesHub ramNvs) 1 5 coldLedger None = (LST_READY, l, s)"
    and l: "hlHealthy l" "hlOrdinalReady l" "hlHubDeviceId l = 1" "hlNodeDeviceId l = 5" "\<forall>k<8. hubSlotRecord l k = emptyRecord"
      "hmNextUnreservedAdmissionOrdinal (hlMetadata l) = 1"
    using ram_flash.hub.recover_blank [of "\<lambda>s. s = None" None 1 5 coldLedger] cu flash_blank_reads by auto
  have "flashHubRun l s []" using hubRun.operation [OF flash_hub_started, of "OpRecover 1 5" None l s] r by simp
  moreover have "validateAdmission e l = DURABLE_NEW_ADMISSION"
    using l assms by (auto simp: validateAdmission_def isValidEvent_def list_ex_iff)
  moreover have "holder e l = None"
    using l(5) by (auto simp: holder_def find_None_iff isOwned_def emptyRecord_def)
  moreover have "admissionTarget e l = Some 0"
    using l(5) by (simp add: admissionTarget_def firstEmpty_def emptyRecord_def upt_conv_Cons)
  ultimately show ?thesis using l by (auto simp: admitting_def)
qed

lemma flash_hub_admits:
  assumes "isValidEvent e" "evSource e = 5" "evDestination e = 1" "\<forall>j. unat (evBodyLength e) \<le> j \<and> j < 12 \<longrightarrow> evBody e ! j = 0"
    and "length (evBody e) = MAX_BODY_SIZE"
  shows "\<exists>l s n l' s'. flashHubRun l s [] \<and> hlHealthy l
     \<and> admit (preferencesHub ramNvs) e l s = (\<lparr>adStatus = DURABLE_NEW_ADMISSION, adSlot = 0, adAdmissionOrdinal = n\<rparr>, l', s')
     \<and> flashHubRun l' s' [(e, n)] \<and> hlHealthy l' \<and> hlOrdinalReady l'"
proof -
  obtain l s where r: "flashHubRun l s []" "hlHealthy l" "admitting e l 0"
    "hmNextUnreservedAdmissionOrdinal (hlMetadata l) \<le> 0xFFFFFFDF" using flash_hub_ready [OF assms(1-4)] by blast
  have inv: "ledgerInv (hubMetaCells (ramBlob s)) (hubCells (ramBlob s)) l" using ram_flash.hub.hubRun_healthy [OF r(1,2)] .
  from ram_flash.hub.admit_works [OF inv r(3) assms(5) r(4)] obtain n l' s' where
    a: "admit (preferencesHub ramNvs) e l s = (\<lparr>adStatus = DURABLE_NEW_ADMISSION, adSlot = 0, adAdmissionOrdinal = n\<rparr>, l', s')"
    by blast
  have run: "flashHubRun l' s' [(e, n)]" using hubRun.operation [OF r(1), of "OpAdmit e" "Some (e, n)" l' s'] a by simp
  have "hlHealthy l'" "hlOrdinalReady l'" using ram_flash.hub.admit_outcome [OF a inv] by auto
  then show ?thesis using r a run by blast
qed

lemma sampleHubEvent_ok:
  "isValidEvent sampleHubEvent" "evSource sampleHubEvent = 5" "evDestination sampleHubEvent = 1" "length (evBody sampleHubEvent) = MAX_BODY_SIZE"
  "\<forall>j. unat (evBodyLength sampleHubEvent) \<le> j \<and> j < 12 \<longrightarrow> evBody sampleHubEvent ! j = 0"
  by (auto simp: isValidEvent_def sampleHubEvent_def event_init_def hasValidEndpoints_def isRegisteredFamily_def
      isValidFamilyBody_def expectedBodyLength_def)

lemmas flash_hub_recovered = flash_hub_ready [OF sampleHubEvent_ok(1,2,3,5)]

lemmas flash_hub_admitted = flash_hub_admits [OF sampleHubEvent_ok(1,2,3,5,4)]

subsection \<open>The memory mirrors the medium\<close>

text \<open>C17. While the Hub ledger is healthy, after any history of recoveries, power cuts, failed and torn writes,
  each of its eight slots holds exactly the durable record; no two owned records share an identity or
  an admission ordinal; and every owned ordinal is below the durable high-water mark, so it cannot be
  issued again.\<close>

theorem hub_ledger_mirrors_medium:
  assumes "hub_storage ops mcell rcell" and "hubRun ops mcell rcell l s log" and "hlHealthy l"
  shows "(\<forall>k<8. hl_record k l = hubView (rcell s) k \<and> hl_record k l \<noteq> None)
    \<and> (\<forall>i<8. \<forall>j<8. i \<noteq> j \<longrightarrow> isOwned (hubSlotRecord l i) \<longrightarrow> isOwned (hubSlotRecord l j) \<longrightarrow>
         hubKey (hubSlotRecord l i) \<noteq> hubKey (hubSlotRecord l j)
         \<and> hrAdmissionOrdinal (hubSlotRecord l i) \<noteq> hrAdmissionOrdinal (hubSlotRecord l j))
    \<and> (\<forall>k<8. isOwned (hubSlotRecord l k) \<longrightarrow> belowHighWater (mcell s) (hrAdmissionOrdinal (hubSlotRecord l k)))"
proof -
  have inv: "ledgerInv (mcell s) (rcell s) l" using hub_storage.hubRun_healthy [OF assms] .
  then have st: "hubStored (rcell s) l" and cu: "hubCustody (mcell s) (rcell s)" by (auto simp: ledgerInv_def)
  note v = hubStored_view [OF st]
  have "\<forall>k<8. hl_record k l = hubView (rcell s) k \<and> hl_record k l \<noteq> None" using st v by (auto simp: hl_record_def hubStored_def)
  then show ?thesis using cu v by (auto simp: hubCustody_def ownedDistinct_def)
qed

theorem hub_ledger_mirrors_medium_witness:
  "\<exists>l s n. flashHubRun l s [(sampleHubEvent, n)] \<and> hlHealthy l \<and> hl_record 0 l = hubView (hubCells (ramBlob s)) 0
     \<and> hl_record 0 l \<noteq> None"
proof -
  obtain l s n where r: "flashHubRun l s [(sampleHubEvent, n)]" "hlHealthy l" using flash_hub_admitted by blast
  have "\<forall>k<8. hl_record k l = hubView (hubCells (ramBlob s)) k \<and> hl_record k l \<noteq> None"
    using hub_ledger_mirrors_medium [OF ram_flash.hub.hub_storage_axioms r] by (rule conjunct1)
  moreover have "(0 :: nat) < 8" by simp
  ultimately have "hl_record 0 l = hubView (hubCells (ramBlob s)) 0 \<and> hl_record 0 l \<noteq> None" by blast
  then show ?thesis using r by blast
qed

subsection \<open>Ordinals\<close>

text \<open>The admission ordinals the Hub reports for new Events are strictly increasing over its whole
  life, across recoveries and power cuts, so none is ever used twice and they tell the order of
  admission.\<close>

theorem hub_ordinals_increase:
  assumes "hub_storage ops mcell rcell" and "hubRun ops mcell rcell l s log"
  shows "sorted_wrt (<) (map snd log) \<and> distinct (map snd log) \<and> (\<forall>n\<in>set (map snd log). belowHighWater (mcell s) n)"
  using hub_storage.hubRun_inv [OF assms] by (auto simp: hubRunInv_def strict_sorted_iff)

theorem hub_ordinals_increase_witness:
  "\<exists>l s n. flashHubRun l s [(sampleHubEvent, n)] \<and> belowHighWater (hubMetaCells (ramBlob s)) n"
proof -
  obtain l s n where r: "flashHubRun l s [(sampleHubEvent, n)]" using flash_hub_admitted by blast
  from hub_ordinals_increase [OF ram_flash.hub.hub_storage_axioms r] show ?thesis using r by auto
qed

subsection \<open>No admitted Event is lost\<close>

text \<open>C5. Whatever the operation and whatever the storage reports, it leaves every durable record as it was,
  with two exceptions: a consumption may turn the active record of exactly the identity consumed into
  its consumed form, and an admission may replace, when no slot is empty, a consumed record of the same
  source and an older identity by the new Event.  In particular an active record is never lost.\<close>

theorem hub_records_never_lost:
  assumes "hub_storage ops mcell rcell" and "hubRun ops mcell rcell l s log"
    and "hubApply ops op l s = (x, l', s')" and "k < 8" and "hubView (rcell s) k = Some r"
  shows "hubView (rcell s') k = Some r
    \<or> (\<exists>i. op = OpConsume i \<and> hrState r = HS_ACTIVE \<and> hasIdentity i r \<and> hubView (rcell s') k = Some (consumedRecord r))
    \<or> (\<exists>e n. op = OpAdmit e \<and> hubView (rcell s') k = Some (admittedRecord r e n)
         \<and> (hrState r = HS_EMPTY \<or> hrState r = HS_CONSUMED \<and> incomingLater e r
              \<and> (\<forall>j<8. \<forall>r'. hubView (rcell s) j = Some r' \<longrightarrow> hrState r' \<noteq> HS_EMPTY)))"
proof (cases op)
  case (OpRecover hub node)
  then obtain st where r: "hl_recover ops hub node l s = (st, l', s')" using assms(3) by (auto split: prod.splits)
  have "hubCustody (mcell s) (rcell s)" using hub_storage.hubRun_inv [OF assms(1,2)] by (simp add: hubRunInv_def)
  from hub_storage.recover_ledger_outcome [OF assms(1) r this] show ?thesis using assms(4,5) by (auto simp: recovered_def)
next
  case (OpConsume i)
  show ?thesis
  proof (cases "hlHealthy l")
    case False
    then have "s' = s" using unhealthy_refuses(2) [OF False, of ops i s] assms(3) OpConsume by simp
    then show ?thesis using assms(5) by simp
  next
    case True
    obtain c where c: "consume ops i l s = (c, l', s')" using assms(3) OpConsume by (auto split: prod.splits)
    have inv: "ledgerInv (mcell s) (rcell s) l" using hub_storage.hubRun_healthy [OF assms(1,2) True] .
    then have v: "r = hubSlotRecord l k" using hubStored_view [of "rcell s" l k] assms(4,5) by (simp add: ledgerInv_def)
    have "s' = s \<or> (\<exists>j<8. hasIdentity i (hubSlotRecord l j) \<and> hrState (hubSlotRecord l j) = HS_ACTIVE
        \<and> hubView (rcell s') \<in> {hubView (rcell s), (hubView (rcell s))(j \<mapsto> consumedRecord (hubSlotRecord l j))})"
      using hub_storage.consume_outcome [OF assms(1) c inv] by (auto split: if_splits)
    then show ?thesis using v assms(5) OpConsume by (auto split: if_splits)
  qed
next
  case (OpAdmit e)
  show ?thesis
  proof (cases "hlHealthy l")
    case False
    then have "s' = s" using unhealthy_refuses(1) [OF False, of ops e s] assms(3) OpAdmit by simp
    then show ?thesis using assms(5) by simp
  next
    case True
    obtain a where a: "admit ops e l s = (a, l', s')" using assms(3) OpAdmit by (auto split: prod.splits)
    have inv: "ledgerInv (mcell s) (rcell s) l" using hub_storage.hubRun_healthy [OF assms(1,2) True] .
    then have v: "\<And>j. j < 8 \<Longrightarrow> hubView (rcell s) j = Some (hubSlotRecord l j)" using hubStored_view by (simp add: ledgerInv_def)
    have "hubView (rcell s') = hubView (rcell s) \<or> (\<exists>j n. admissionTarget e l = Some j
        \<and> hubView (rcell s') = (hubView (rcell s))(j \<mapsto> admittedRecord (hubSlotRecord l j) e n))"
      using hub_storage.admit_outcome [OF assms(1) a inv] by (auto simp: admitting_def split: if_splits)
    then show ?thesis
    proof (elim disjE exE conjE)
      fix j n assume t: "admissionTarget e l = Some j" and u: "hubView (rcell s') = (hubView (rcell s))(j \<mapsto> admittedRecord (hubSlotRecord l j) e n)"
      show ?thesis
      proof (cases "k = j")
        case True
        then have "r = hubSlotRecord l j" using v assms(4,5) by simp
        then show ?thesis using admissionTarget_some [OF t] u True v OpAdmit by auto
      next
        case False
        then show ?thesis using u assms(5) by simp
      qed
    qed (use assms(5) in simp)
  qed
qed

theorem hub_records_never_lost_witness:
  "\<exists>l s x l' s' r r'. flashHubRun l s [] \<and> hubApply (preferencesHub ramNvs) (OpAdmit sampleHubEvent) l s = (x, l', s')
     \<and> hubView (hubCells (ramBlob s)) 1 = Some r \<and> hubView (hubCells (ramBlob s')) 1 = Some r'"
proof -
  obtain l s n l' s' where r: "flashHubRun l s []" "hlHealthy l"
    and a: "admit (preferencesHub ramNvs) sampleHubEvent l s = (\<lparr>adStatus = DURABLE_NEW_ADMISSION, adSlot = 0, adAdmissionOrdinal = n\<rparr>, l', s')"
    using flash_hub_admitted by blast
  have ap: "hubApply (preferencesHub ramNvs) (OpAdmit sampleHubEvent) l s = (Some (sampleHubEvent, n), l', s')" using a by simp
  have "hubStored (hubCells (ramBlob s)) l" using ram_flash.hub.hubRun_healthy [OF r] by (simp add: ledgerInv_def)
  then have v: "hubView (hubCells (ramBlob s)) 1 = Some (hubSlotRecord l 1)" using hubStored_view [of _ l 1] by simp
  have "\<exists>r'. hubView (hubCells (ramBlob s')) 1 = Some r'"
    using hub_records_never_lost [OF ram_flash.hub.hub_storage_axioms r(1) ap _ v] by auto
  then show ?thesis using r ap v by blast
qed

subsection \<open>Duplicates\<close>

lemma sameBytes_bodies:
  assumes "length xs = 12" "length ys = 12" "n \<le> 12" "\<And>j. n \<le> j \<Longrightarrow> j < 12 \<Longrightarrow> xs ! j = 0 \<and> ys ! j = 0"
  shows "sameBytes xs ys n \<longleftrightarrow> xs = ys"
proof
  assume eq: "sameBytes xs ys n"
  show "xs = ys"
  proof (rule nth_equalityI)
    fix j assume "j < length xs"
    then show "xs ! j = ys ! j" using eq assms by (cases "j < n") (auto simp: sameBytes_def list_all_iff)
  qed (use assms in simp)
qed (simp add: sameBytes_def list_all_iff)

text \<open>The ledger's comparison of an Event with a stored record is equality of content.\<close>

lemma sameCanonical_content:
  assumes v: "validateAdmission e l = DURABLE_NEW_ADMISSION" and b: "length (evBody e) = 12"
    and r: "validateHubRecord r = CR_OK" "hubRecord_wf r" "isOwned r" and key: "hubKey r = (evSource e, evEpoch e, evId e)"
  shows "sameCanonical r e \<longleftrightarrow> hrFamily r = evFamily e \<and> hrFlags r = evFlags e
    \<and> hrLifetimeBudgetSeconds r = evLifetimeBudgetSeconds e \<and> hrBodyLength r = evBodyLength e \<and> hrBody r = evBody e"
proof -
  have n: "unat (evBodyLength e) \<le> 12" "\<forall>j. unat (evBodyLength e) \<le> j \<and> j < 12 \<longrightarrow> evBody e ! j = 0"
    using v by (auto simp: validateAdmission_def list_ex_iff split: if_splits)
  have "hrBody r ! j = 0" if "hrBodyLength r = evBodyLength e" "unat (evBodyLength e) \<le> j" "j < 12" for j
    using validateHubRecord_body(2) [OF r(1), of j] that r(2) by (simp add: hubRecord_wf_def)
  then have "sameBytes (hrBody r) (evBody e) (unat (evBodyLength e)) \<longleftrightarrow> hrBody r = evBody e" if "hrBodyLength r = evBodyLength e"
    using that n b r(2) by (intro sameBytes_bodies) (auto simp: hubRecord_wf_def)
  then show ?thesis using key by (auto simp: sameCanonical_def sameIdentity_key bytesEqual_def)
qed

lemma holder_unique:
  assumes "ledgerInv m c l" "k < 8" "isOwned (hubSlotRecord l k)" "hubKey (hubSlotRecord l k) = (evSource e, evEpoch e, evId e)"
  shows "holder e l = Some k"
proof -
  have st: "hubStored c l" and d: "ownedDistinct (hubView c)" using assms(1) by (auto simp: ledgerInv_def hubCustody_def)
  have uniq: "j = k" if "j < 8" "isOwned (hubSlotRecord l j)" "hubKey (hubSlotRecord l j) = (evSource e, evEpoch e, evId e)" for j
  proof (rule ccontr)
    assume "j \<noteq> k"
    with d [unfolded ownedDistinct_def, rule_format, of j k "hubSlotRecord l j" "hubSlotRecord l k"]
    have "hubKey (hubSlotRecord l j) \<noteq> hubKey (hubSlotRecord l k)"
      using that(1,2) assms(2,3) hubStored_view [OF st that(1)] hubStored_view [OF st assms(2)] by simp
    then show False using that(3) assms(4) by simp
  qed
  have "\<not> (isOwned (hubSlotRecord l j) \<and> sameIdentity (hubSlotRecord l j) e)" if "j < k" for j
    using uniq [of j] that assms(2) unfolding sameIdentity_key by linarith
  then show ?thesis using assms(2-4) unfolding holder_def find_Some_iff
    by (intro exI [of _ k]) (simp add: sameIdentity_key)
qed

lemma known_identity:
  assumes inv: "ledgerInv m c l" and h: "hlHealthy l" and v: "validateAdmission e l = DURABLE_NEW_ADMISSION" and b: "length (evBody e) = 12"
    and k: "k < 8" "hubView c k = Some r" and own: "isOwned r" and key: "hubKey r = (evSource e, evEpoch e, evId e)"
  shows "\<exists>l'. admit ops e l s = (\<lparr>adStatus = if hrFamily r = evFamily e \<and> hrFlags r = evFlags e
        \<and> hrLifetimeBudgetSeconds r = evLifetimeBudgetSeconds e \<and> hrBodyLength r = evBodyLength e \<and> hrBody r = evBody e
      then EXACT_DUPLICATE else ADM_IDENTITY_CONTENT_MISMATCH, adSlot = k, adAdmissionOrdinal = hrAdmissionOrdinal r\<rparr>, l', s)"
proof -
  have st: "hubStored c l" using inv by (simp add: ledgerInv_def)
  have r: "r = hubSlotRecord l k" using hubStored_view [OF st k(1)] k(2) by simp
  have hold: "holder e l = Some k" using holder_unique [OF inv k(1)] own key r by blast
  have "sameCanonical r e \<longleftrightarrow> hrFamily r = evFamily e \<and> hrFlags r = evFlags e
    \<and> hrLifetimeBudgetSeconds r = evLifetimeBudgetSeconds e \<and> hrBodyLength r = evBodyLength e \<and> hrBody r = evBody e"
    using sameCanonical_content [OF v b _ _ own key] hubStored_valid [OF st k(1)] hubStored_wf [OF st k(1)] r by blast
  then show ?thesis using h v hold r by (simp add: admit_def holder_def Let_def)
qed

text \<open>A valid Event whose identity the Hub holds durably, active or consumed, is answered from the record:
  as an exact duplicate exactly when family, flags, lifetime and body agree, as a content mismatch
  otherwise, with the slot and ordinal of the original admission; the storage is not touched.\<close>

theorem hub_known_identity:
  assumes "hub_storage ops mcell rcell" and "hubRun ops mcell rcell l s log" and "hlHealthy l"
    and "validateAdmission e l = DURABLE_NEW_ADMISSION" and "length (evBody e) = MAX_BODY_SIZE"
    and "k < 8" and "hubView (rcell s) k = Some r" and "isOwned r"
    and "hrSourceDeviceId r = evSource e" "hrEventEpoch r = evEpoch e" "hrEventId r = evId e"
  shows "\<exists>l'. admit ops e l s = (\<lparr>adStatus = if hrFamily r = evFamily e \<and> hrFlags r = evFlags e
        \<and> hrLifetimeBudgetSeconds r = evLifetimeBudgetSeconds e \<and> hrBodyLength r = evBodyLength e \<and> hrBody r = evBody e
      then EXACT_DUPLICATE else ADM_IDENTITY_CONTENT_MISMATCH, adSlot = k, adAdmissionOrdinal = hrAdmissionOrdinal r\<rparr>, l', s)"
  using known_identity [OF hub_storage.hubRun_healthy [OF assms(1-3)] assms(3,4) _ assms(6-8), of ops s] assms(5,9-11)
  by (simp add: hubKey_def)

lemma admittedRecord_content:
  assumes "validateAdmission e l = DURABLE_NEW_ADMISSION" "length (evBody e) = 12"
  shows "hrBody (admittedRecord old e n) = evBody e"
proof -
  have "unat (evBodyLength e) \<le> 12" "\<forall>j. unat (evBodyLength e) \<le> j \<and> j < 12 \<longrightarrow> evBody e ! j = 0"
    using assms(1) by (auto simp: validateAdmission_def list_ex_iff split: if_splits)
  then show ?thesis using assms(2) by (intro nth_equalityI) (auto simp: admittedRecord_def buffer_simps)
qed

lemma validateAdmission_ids: "hubIds l' = hubIds l \<Longrightarrow> validateAdmission e l' = validateAdmission e l"
  by (simp add: validateAdmission_def hubIds_def)

text \<open>After a new admission the medium holds the Event, and asking again, in any later state of the ledger that
  mirrors it, gives the original answer.\<close>

lemma new_admission_known:
  assumes "hub_storage ops mcell rcell" and "ledgerInv (mcell s) (rcell s) l" and a: "admit ops e l s = (r, l1, s1)"
    and new: "adStatus r = DURABLE_NEW_ADMISSION" and b: "length (evBody e) = 12"
    and inv2: "ledgerInv m c l2" "hlHealthy l2" "hubIds l2 = hubIds l" and v2: "hubView c (adSlot r) = hubView (rcell s1) (adSlot r)"
  shows "\<exists>l'. admit ops e l2 s2 = (r\<lparr>adStatus := EXACT_DUPLICATE\<rparr>, l', s2)"
proof -
  let ?rec = "admittedRecord (hubSlotRecord l (adSlot r)) e (adAdmissionOrdinal r)"
  have g: "admitting e l (adSlot r)" "hubView (rcell s1) (adSlot r) = Some ?rec"
    using hub_storage.admit_outcome [OF assms(1) a assms(2)] new by auto
  then have v: "validateAdmission e l = DURABLE_NEW_ADMISSION" and k: "adSlot r < 8"
    using admissionTarget_some by (auto simp: admitting_def)
  have val: "validateAdmission e l2 = DURABLE_NEW_ADMISSION" using v validateAdmission_ids [OF inv2(3)] by simp
  have view: "hubView c (adSlot r) = Some ?rec" using g(2) v2 by simp
  from known_identity [OF inv2(1,2) val b k view admittedRecord_key(3) admittedRecord_key(1), of ops s2]
  show ?thesis using admittedRecord_content [OF v b] by (cases r) (simp add: admittedRecord_def)
qed

text \<open>C6. An Event the Hub has reported as newly admitted is recognised when it is sent again, at once or
  after a power cut and any successful recovery: the answer is an exact duplicate with the same slot
  and ordinal, so it is admitted once.\<close>

theorem hub_admits_once:
  assumes "hub_storage ops mcell rcell" and "hubRun ops mcell rcell l s log"
    and "admit ops e l s = (r, l1, s1)" and "adStatus r = DURABLE_NEW_ADMISSION" and "length (evBody e) = MAX_BODY_SIZE"
    and "hl_recover ops (hlHubDeviceId l) (hlNodeDeviceId l) l0 s1 = (st, l2, s2)" and "hlHealthy l2"
  shows "(\<exists>l'. admit ops e l1 s1 = (r\<lparr>adStatus := EXACT_DUPLICATE\<rparr>, l', s1))
    \<and> (\<exists>l'. admit ops e l2 s2 = (r\<lparr>adStatus := EXACT_DUPLICATE\<rparr>, l', s2))"
proof -
  have h: "hlHealthy l" using assms(3,4) by (auto simp: admit_def split: if_splits)
  have inv: "ledgerInv (mcell s) (rcell s) l" using hub_storage.hubRun_healthy [OF assms(1,2) h] .
  note A = hub_storage.admit_outcome [OF assms(1,3) inv]
  have inv1: "hlHealthy l1" "ledgerInv (mcell s1) (rcell s1) l1" "hubCustody (mcell s1) (rcell s1)" using A assms(4) by auto
  have k: "adSlot r < 8" "hubView (rcell s1) (adSlot r) \<noteq> None"
    using A assms(4) admissionTarget_some by (auto simp: admitting_def)
  have R: "recovered (mcell s1) (rcell s1) (mcell s2) (rcell s2) l2" using hub_storage.recover_ledger_outcome [OF assms(1,6) inv1(3)] .
  have ids: "hubIds l1 = hubIds l" "hubIds l2 = hubIds l" using admit_ids [OF assms(3)] recover_ids [OF assms(6)] by (simp_all add: hubIds_def)
  have view2: "hubView (rcell s2) (adSlot r) = hubView (rcell s1) (adSlot r)" using R k by (auto simp: recovered_def)
  have inv2: "ledgerInv (mcell s2) (rcell s2) l2" using R assms(7) by (simp add: recovered_def)
  note known = new_admission_known [OF assms(1) inv assms(3,4)]
  show ?thesis using known [OF _ inv1(2,1) ids(1)] known [OF _ inv2 assms(7) ids(2) view2] assms(5) by simp
qed

theorem hub_admits_once_witness:
  "\<exists>l s r l1 s1 l'. flashHubRun l s [] \<and> admit (preferencesHub ramNvs) sampleHubEvent l s = (r, l1, s1)
     \<and> admit (preferencesHub ramNvs) sampleHubEvent l1 s1 = (r\<lparr>adStatus := EXACT_DUPLICATE\<rparr>, l', s1)"
proof -
  obtain l s n l1 s1 where r: "flashHubRun l s []" "hlHealthy l" "flashHubRun l1 s1 [(sampleHubEvent, n)]" "hlHealthy l1"
    and a: "admit (preferencesHub ramNvs) sampleHubEvent l s = (\<lparr>adStatus = DURABLE_NEW_ADMISSION, adSlot = 0, adAdmissionOrdinal = n\<rparr>, l1, s1)"
    using flash_hub_admitted by blast
  have inv: "ledgerInv (hubMetaCells (ramBlob s)) (hubCells (ramBlob s)) l" using ram_flash.hub.hubRun_healthy [OF r(1,2)] .
  have "validateAdmission sampleHubEvent l = DURABLE_NEW_ADMISSION"
    using ram_flash.hub.admit_outcome [OF a inv] by (auto simp: admitting_def)
  then have ids: "hlHubDeviceId l \<noteq> 0" "hlNodeDeviceId l \<noteq> 0" "hlHubDeviceId l \<noteq> hlNodeDeviceId l"
    by (auto simp: validateAdmission_def sampleHubEvent_def hasValidEndpoints_def split: if_splits)
  have inv1: "ledgerInv (hubMetaCells (ramBlob s1)) (hubCells (ramBlob s1)) l1" using ram_flash.hub.hubRun_healthy [OF r(3,4)] .
  then have "hubStored (hubCells (ramBlob s1)) l1" by (simp add: ledgerInv_def)
  then have "\<forall>k<8. hubView (hubCells (ramBlob s1)) k \<noteq> None" using hubStored_view by simp
  then obtain st l2 s2 where rec: "hl_recover (preferencesHub ramNvs) (hlHubDeviceId l) (hlNodeDeviceId l) l1 s1 = (st, l2, s2)" "hlHealthy l2"
    using ram_flash.hub.recover_works [OF ledgerInv_custody [OF inv1] _ ids] by blast
  have b: "length (evBody sampleHubEvent) = MAX_BODY_SIZE" by (simp add: sampleHubEvent_def)
  obtain l' where "admit (preferencesHub ramNvs) sampleHubEvent l1 s1
      = (\<lparr>adStatus = DURABLE_NEW_ADMISSION, adSlot = 0, adAdmissionOrdinal = n\<rparr>\<lparr>adStatus := EXACT_DUPLICATE\<rparr>, l', s1)"
    using hub_admits_once [OF ram_flash.hub.hub_storage_axioms r(1) a _ b rec] by auto
  then show ?thesis using r(1) a by blast
qed

theorem hub_known_identity_witness:
  "\<exists>l s n l'. flashHubRun l s [(sampleHubEvent, n)]
     \<and> admit (preferencesHub ramNvs) sampleHubEvent l s = (\<lparr>adStatus = EXACT_DUPLICATE, adSlot = 0, adAdmissionOrdinal = n\<rparr>, l', s)"
proof -
  obtain l s n l1 s1 where r: "flashHubRun l s []" "hlHealthy l" "flashHubRun l1 s1 [(sampleHubEvent, n)]" "hlHealthy l1"
    and a: "admit (preferencesHub ramNvs) sampleHubEvent l s = (\<lparr>adStatus = DURABLE_NEW_ADMISSION, adSlot = 0, adAdmissionOrdinal = n\<rparr>, l1, s1)"
    using flash_hub_admitted by blast
  have inv: "ledgerInv (hubMetaCells (ramBlob s)) (hubCells (ramBlob s)) l" using ram_flash.hub.hubRun_healthy [OF r(1,2)] .
  let ?r = "admittedRecord (hubSlotRecord l 0) sampleHubEvent n"
  have g: "validateAdmission sampleHubEvent l = DURABLE_NEW_ADMISSION" "hubView (hubCells (ramBlob s1)) 0 = Some ?r"
    using ram_flash.hub.admit_outcome [OF a inv] by (auto simp: admitting_def)
  have v: "validateAdmission sampleHubEvent l1 = DURABLE_NEW_ADMISSION" using g(1) validateAdmission_ids [OF admit_ids [OF a]] by simp
  have b: "length (evBody sampleHubEvent) = MAX_BODY_SIZE" by (simp add: sampleHubEvent_def)
  have body: "hrBody ?r = evBody sampleHubEvent" using admittedRecord_content [OF g(1)] b by simp
  have "\<exists>l'. admit (preferencesHub ramNvs) sampleHubEvent l1 s1 = (\<lparr>adStatus = EXACT_DUPLICATE, adSlot = 0, adAdmissionOrdinal = n\<rparr>, l', s1)"
    using hub_known_identity [OF ram_flash.hub.hub_storage_axioms r(3,4) v b _ g(2)] body by (simp add: admittedRecord_def isOwned_def)
  then show ?thesis using r(3) by blast
qed

subsection \<open>Order of delivery to the host\<close>

text \<open>The Event the Hub offers next to its host is the active Event that was admitted first: its record is
  the durable one and every other active record has a strictly larger ordinal; nothing is offered only
  when no active record exists.\<close>

theorem hub_oldest_active_first:
  assumes "hub_storage ops mcell rcell" and "hubRun ops mcell rcell l s log" and "hlHealthy l"
  shows "case oldestActive l of
      None \<Rightarrow> \<forall>k<8. \<forall>r. hubView (rcell s) k = Some r \<longrightarrow> hrState r \<noteq> HS_ACTIVE
    | Some (k, r) \<Rightarrow> k < 8 \<and> hubView (rcell s) k = Some r \<and> hrState r = HS_ACTIVE
        \<and> (\<forall>j<8. \<forall>r'. j \<noteq> k \<longrightarrow> hubView (rcell s) j = Some r' \<longrightarrow> hrState r' = HS_ACTIVE \<longrightarrow>
             hrAdmissionOrdinal r < hrAdmissionOrdinal r')"
proof -
  have inv: "ledgerInv (mcell s) (rcell s) l" using hub_storage.hubRun_healthy [OF assms] .
  then have v: "\<And>k. k < 8 \<Longrightarrow> hubView (rcell s) k = Some (hubSlotRecord l k)" and d: "ownedDistinct (hubView (rcell s))"
    using hubStored_view by (auto simp: ledgerInv_def hubCustody_def)
  let ?o = "scanOldest (\<lambda>r. hrState r = HS_ACTIVE) l [0..<8]"
  have spec: "case ?o of None \<Rightarrow> \<forall>i<8. hrState (hubSlotRecord l i) \<noteq> HS_ACTIVE
     | Some k \<Rightarrow> k < 8 \<and> hrState (hubSlotRecord l k) = HS_ACTIVE \<and> (\<forall>i<8. hrState (hubSlotRecord l i) = HS_ACTIVE \<longrightarrow>
         hrAdmissionOrdinal (hubSlotRecord l k) \<le> hrAdmissionOrdinal (hubSlotRecord l i))"
    using scanOldest_spec [of "[0..<8]" "\<lambda>r. hrState r = HS_ACTIVE" l] by (auto split: option.splits)
  have ne: "hrAdmissionOrdinal (hubSlotRecord l k) \<noteq> hrAdmissionOrdinal (hubSlotRecord l j)"
    if "k < 8" "j < 8" "j \<noteq> k" "hrState (hubSlotRecord l k) = HS_ACTIVE" "hrState (hubSlotRecord l j) = HS_ACTIVE" for j k
    using d that v by (auto simp: ownedDistinct_def isOwned_def)
  show ?thesis
  proof (cases ?o)
    case None
    then show ?thesis using spec v assms(3) by (auto simp: oldestActive_def)
  next
    case (Some k)
    then have k: "k < 8" "hrState (hubSlotRecord l k) = HS_ACTIVE" and o: "oldestActive l = Some (k, hubSlotRecord l k)"
      using spec assms(3) by (auto simp: oldestActive_def)
    have "hrAdmissionOrdinal (hubSlotRecord l k) < hrAdmissionOrdinal (hubSlotRecord l j)"
      if "j < 8" "j \<noteq> k" "hrState (hubSlotRecord l j) = HS_ACTIVE" for j
      using spec Some ne [OF k(1) that(1,2) k(2) that(3)] that by (auto simp: less_le)
    then show ?thesis using k v o by auto
  qed
qed

theorem hub_oldest_active_first_witness:
  "\<exists>l s n k r. flashHubRun l s [(sampleHubEvent, n)] \<and> oldestActive l = Some (k, r) \<and> hubView (hubCells (ramBlob s)) k = Some r"
proof -
  obtain l s n l1 s1 where r: "flashHubRun l s []" "hlHealthy l" "flashHubRun l1 s1 [(sampleHubEvent, n)]" "hlHealthy l1"
    and a: "admit (preferencesHub ramNvs) sampleHubEvent l s = (\<lparr>adStatus = DURABLE_NEW_ADMISSION, adSlot = 0, adAdmissionOrdinal = n\<rparr>, l1, s1)"
    using flash_hub_admitted by blast
  have inv: "ledgerInv (hubMetaCells (ramBlob s)) (hubCells (ramBlob s)) l" using ram_flash.hub.hubRun_healthy [OF r(1,2)] .
  have act: "hubView (hubCells (ramBlob s1)) 0 = Some (admittedRecord (hubSlotRecord l 0) sampleHubEvent n)"
    using ram_flash.hub.admit_outcome [OF a inv] by auto
  have "hrState (admittedRecord (hubSlotRecord l 0) sampleHubEvent n) = HS_ACTIVE" by (simp add: admittedRecord_def)
  then have "\<exists>k<8. \<exists>rec. hubView (hubCells (ramBlob s1)) k = Some rec \<and> hrState rec = HS_ACTIVE"
    using act by (intro exI [of _ 0]) simp
  with hub_oldest_active_first [OF ram_flash.hub.hub_storage_axioms r(3,4)]
  obtain k rec where "oldestActive l1 = Some (k, rec)" "hubView (hubCells (ramBlob s1)) k = Some rec"
    by (auto split: option.splits)
  then show ?thesis using r(3) by blast
qed

text \<open>Consuming an Event is durable and idempotent: a consumption reported as done has replaced the active
  record of that identity by its consumed form on the medium and nothing else, and asking again
  reports that it was already consumed, without touching the storage.\<close>

theorem hub_consume_idempotent:
  assumes "hub_storage ops mcell rcell" and "hubRun ops mcell rcell l s log"
    and "consume ops i l s = (r, l', s')" and "coStatus r = CONSUMED"
  shows "(\<exists>old. hubView (rcell s) (coSlot r) = Some old \<and> hasIdentity i old \<and> hrState old = HS_ACTIVE
      \<and> hubView (rcell s') = (hubView (rcell s))(coSlot r \<mapsto> consumedRecord old))
    \<and> consume ops i l' s' = (\<lparr>coStatus = ALREADY_CONSUMED, coSlot = coSlot r\<rparr>, l', s')"
proof -
  have h: "hlHealthy l" using assms(3,4) by (auto simp: consume_def split: if_splits)
  have inv: "ledgerInv (mcell s) (rcell s) l" using hub_storage.hubRun_healthy [OF assms(1,2) h] .
  note C = hub_storage.consume_outcome [OF assms(1,3) inv]
  define k where "k = coSlot r"
  have k: "k < 8" "hasIdentity i (hubSlotRecord l k)" "hrState (hubSlotRecord l k) = HS_ACTIVE" "hlHealthy l'"
    "hubView (rcell s') = (hubView (rcell s))(k \<mapsto> consumedRecord (hubSlotRecord l k))"
    using C assms(4) by (auto simp: k_def)
  have inv': "ledgerInv (mcell s') (rcell s') l'" using C k(4) by blast
  have st: "hubStored (rcell s) l" "hubStored (rcell s') l'" using inv inv' by (auto simp: ledgerInv_def)
  have old: "hubView (rcell s) k = Some (hubSlotRecord l k)" using hubStored_view [OF st(1) k(1)] .
  have rec: "hubSlotRecord l' j = (if j = k then consumedRecord (hubSlotRecord l k) else hubSlotRecord l j)" if "j < 8" for j
    using hubStored_view [OF st(2) that] hubStored_view [OF st(1) that] k(5) by (auto split: if_splits)
  have first: "\<not> hasIdentity i (hubSlotRecord l j)" if "j < k" for j
  proof -
    have "find (\<lambda>k. hasIdentity i (hubSlotRecord l k)) [0..<8] = Some k"
      using assms(3,4) h by (auto simp: consume_def k_def split: option.splits if_splits prod.splits)
    then show ?thesis using that by (auto simp: find_Some_iff)
  qed
  have "hasIdentity i (hubSlotRecord l' k)" "hrState (hubSlotRecord l' k) = HS_CONSUMED"
    using rec [OF k(1)] k(2) by (auto simp: hasIdentity_def consumedRecord_def isOwned_def)
  moreover have "\<not> hasIdentity i (hubSlotRecord l' j)" if "j < k" for j using first [OF that] rec [of j] that k(1) by simp
  ultimately have "find (\<lambda>k. hasIdentity i (hubSlotRecord l' k)) [0..<8] = Some k"
    using k(1) unfolding find_Some_iff by (intro exI [of _ k]) simp
  then have "consume ops i l' s' = (\<lparr>coStatus = ALREADY_CONSUMED, coSlot = k\<rparr>, l', s')"
    using k(4) \<open>hrState (hubSlotRecord l' k) = HS_CONSUMED\<close> by (simp add: consume_def)
  then show ?thesis using k old unfolding k_def by blast
qed

theorem hub_consume_idempotent_witness:
  "\<exists>l s n i r l' s'. flashHubRun l s [(sampleHubEvent, n)] \<and> consume (preferencesHub ramNvs) i l s = (r, l', s')
     \<and> coStatus r = CONSUMED
     \<and> consume (preferencesHub ramNvs) i l' s' = (\<lparr>coStatus = ALREADY_CONSUMED, coSlot = coSlot r\<rparr>, l', s')"
proof -
  obtain l s n l1 s1 where r: "flashHubRun l s []" "hlHealthy l" "flashHubRun l1 s1 [(sampleHubEvent, n)]" "hlHealthy l1"
    and a: "admit (preferencesHub ramNvs) sampleHubEvent l s = (\<lparr>adStatus = DURABLE_NEW_ADMISSION, adSlot = 0, adAdmissionOrdinal = n\<rparr>, l1, s1)"
    using flash_hub_admitted by blast
  have inv: "ledgerInv (hubMetaCells (ramBlob s)) (hubCells (ramBlob s)) l" using ram_flash.hub.hubRun_healthy [OF r(1,2)] .
  have inv1: "ledgerInv (hubMetaCells (ramBlob s1)) (hubCells (ramBlob s1)) l1" using ram_flash.hub.hubRun_healthy [OF r(3,4)] .
  have "hubView (hubCells (ramBlob s1)) 0 = Some (admittedRecord (hubSlotRecord l 0) sampleHubEvent n)"
    using ram_flash.hub.admit_outcome [OF a inv] by auto
  then have r0: "hubSlotRecord l1 0 = admittedRecord (hubSlotRecord l 0) sampleHubEvent n"
    using hubStored_view [of "hubCells (ramBlob s1)" l1 0] inv1 by (simp add: ledgerInv_def)
  let ?i = "\<lparr>idSourceDeviceId = 5, idEpoch = 7, idId = 1\<rparr>"
  have "hasIdentity ?i (hubSlotRecord l1 0)" "hrState (hubSlotRecord l1 0) = HS_ACTIVE"
    unfolding r0 by (simp_all add: hasIdentity_def admittedRecord_def isOwned_def sampleHubEvent_def)
  moreover from this(1) have "find (\<lambda>k. hasIdentity ?i (hubSlotRecord l1 k)) [0..<8] = Some 0" by (simp add: upt_conv_Cons)
  ultimately obtain l2 s2 where c: "consume (preferencesHub ramNvs) ?i l1 s1 = (\<lparr>coStatus = CONSUMED, coSlot = 0\<rparr>, l2, s2)"
    using ram_flash.hub.consume_works [OF inv1 r(4)] by blast
  from hub_consume_idempotent [OF ram_flash.hub.hub_storage_axioms r(3) c]
  have "consume (preferencesHub ramNvs) ?i l2 s2 = (\<lparr>coStatus = ALREADY_CONSUMED, coSlot = 0\<rparr>, l2, s2)" by simp
  then show ?thesis using r(3) c by (metis consumeResult.select_convs(1,2))
qed

subsection \<open>Progress\<close>

text \<open>On a medium that works, a healthy Hub with ordinals left admits every valid Event with a new
  identity for which there is an empty slot or a consumed record it may reclaim.\<close>

theorem hub_admission_progress:
  assumes "working_hub_storage ops mcell rcell" and "hubRun ops mcell rcell l s log"
    and "admitting e l k" and "length (evBody e) = MAX_BODY_SIZE"
    and "hmNextUnreservedAdmissionOrdinal (hlMetadata l) \<le> 0xFFFFFFDF"
  shows "\<exists>n l' s'. admit ops e l s = (\<lparr>adStatus = DURABLE_NEW_ADMISSION, adSlot = k, adAdmissionOrdinal = n\<rparr>, l', s')"
proof -
  have "hub_storage ops mcell rcell" by (rule working_hub_storage.axioms(1) [OF assms(1)])
  moreover have "hlHealthy l" using assms(3) by (simp add: admitting_def)
  ultimately show ?thesis using working_hub_storage.admit_works [OF assms(1) hub_storage.hubRun_healthy [OF _ assms(2)] assms(3-5)] by blast
qed

theorem hub_admission_progress_witness:
  "\<exists>l s n l' s'. flashHubRun l s [] \<and> admit (preferencesHub ramNvs) sampleHubEvent l s
     = (\<lparr>adStatus = DURABLE_NEW_ADMISSION, adSlot = 0, adAdmissionOrdinal = n\<rparr>, l', s')"
proof -
  obtain l s where r: "flashHubRun l s []" "hlHealthy l" "admitting sampleHubEvent l 0"
    "hmNextUnreservedAdmissionOrdinal (hlMetadata l) \<le> 0xFFFFFFDF" using flash_hub_recovered by blast
  have "length (evBody sampleHubEvent) = MAX_BODY_SIZE" by (simp add: sampleHubEvent_def)
  from hub_admission_progress [OF ram_flash.hub.working_hub_storage_axioms r(1,3) this r(4)] show ?thesis using r(1) by blast
qed

text \<open>On a medium that works, a Hub whose eight slots have been initialised comes back in service after a
  power cut at any moment, even one in the middle of an operation, with exactly the durable records.\<close>

theorem hub_recovery_progress:
  assumes "working_hub_storage ops mcell rcell" and "hubRun ops mcell rcell l s log"
    and "\<forall>k<8. hubView (rcell s) k \<noteq> None" and "hub \<noteq> 0" "node \<noteq> 0" "hub \<noteq> node"
  shows "\<exists>st l' s'. hl_recover ops hub node l0 s = (st, l', s') \<and> hlHealthy l' \<and> rcell s' = rcell s
    \<and> (\<forall>k<8. hl_record k l' = hubView (rcell s) k)"
proof -
  have base: "hub_storage ops mcell rcell" by (rule working_hub_storage.axioms(1) [OF assms(1)])
  have cu: "hubCustody (mcell s) (rcell s)" using hub_storage.hubRun_inv [OF base assms(2)] by (simp add: hubRunInv_def)
  obtain st l' s' where r: "hl_recover ops hub node l0 s = (st, l', s')" "hlHealthy l'"
    using working_hub_storage.recover_works [OF assms(1) cu assms(3-6)] by blast
  have "hubView (rcell s) 0 \<noteq> None" using assms(3) by simp
  then have "rcell s 0 \<noteq> (\<lambda>_. None)" by (auto simp: hubView_def durableHubRecord_def authoritative_def)
  then have "\<exists>k<8. rcell s k \<noteq> (\<lambda>_. None)" by (intro exI [of _ 0]) simp
  with hub_storage.recover_ledger_outcome [OF base r(1) cu] r(2) have R: "rcell s' = rcell s" "hubStored (rcell s) l'"
    by (auto simp: recovered_def ledgerInv_def)
  then have "\<forall>k<8. hl_record k l' = hubView (rcell s) k" by (auto simp: hl_record_def hubStored_def hubView_def)
  then show ?thesis using r R by blast
qed

theorem hub_recovery_progress_witness:
  "\<exists>l s st l' s'. flashHubRun l s [] \<and> hl_recover (preferencesHub ramNvs) 1 5 coldLedger s = (st, l', s') \<and> hlHealthy l'"
proof -
  obtain l s where r: "flashHubRun l s []" "hlHealthy l" using flash_hub_recovered by blast
  have "hubStored (hubCells (ramBlob s)) l" using ram_flash.hub.hubRun_healthy [OF r] by (simp add: ledgerInv_def)
  then have "\<forall>k<8. hubView (hubCells (ramBlob s)) k \<noteq> None" using hubStored_view by simp
  from hub_recovery_progress [OF ram_flash.hub.working_hub_storage_axioms r(1) this, of 1 5 coldLedger] show ?thesis using r(1) by fastforce
qed

end
