(* ===== verification/HubEventRadio.thy ===== *)
theory HubEventRadio
  imports HubLedgerProperties
begin

text \<open>
  The Hub's side of the radio for Events (\<^verbatim>\<open>lib/event_radio_integration/src/hub_event_radio.h\<close> and
  \<^verbatim>\<open>hub_receive_release.h\<close>): the adapter that turns a received packet into an admission and its answer, the arbiter that lets
  the answer interrupt a command that is waiting, and the step that puts the radio back into reception.  The radio driver is a
  parameter.  The lemmas show that the adapter's own parsing is the Event codec, that it answers \<open>ADMITTED\<close> only for an Event
  that the medium holds, and that the arbiter gives the interrupted owner its radio and its deadline back.
\<close>

subsection \<open>The adapter\<close>

datatype hubRadioAction = HX_DISCARD | HX_START_EVENT_ACK | HX_RESUME_PRIOR_OWNER

record hubRadioResult =
  hxAction :: hubRadioAction
  hxLedgerMutated :: bool
  hxStatus :: admissionStatus
  hxBytes :: bytes
  hxLength :: nat

definition hubRadioResult_init :: hubRadioResult where
  "hubRadioResult_init = \<lparr>hxAction = HX_DISCARD, hxLedgerMutated = False, hxStatus = ADMITTED, hxBytes = fillZero MAX_PACKET_SIZE, hxLength = 0\<rparr>"

text \<open>The checks before anything is answered.\<close>

definition acceptsEventPacket :: "u8 \<Rightarrow> u8 \<Rightarrow> packet \<Rightarrow> bool" where
  "acceptsEventPacket hubDeviceId nodeDeviceId p =
     (pkType p = EVENT \<and> pkSource p = nodeDeviceId \<and> pkDestination p = hubDeviceId \<and> pkSource p \<noteq> 0 \<and> pkDestination p \<noteq> 0
      \<and> COMMON_PAYLOAD_SIZE \<le> unat (pkPayloadLength p)
      \<and> EventProtocol.readUint32Le (pkPayload p) 0 \<noteq> 0 \<and> EventProtocol.readUint32Le (pkPayload p) 4 \<noteq> 0 \<and> unat (pkPayload p ! 13) \<le> MAX_BODY_SIZE
      \<and> unat (pkPayloadLength p) = COMMON_PAYLOAD_SIZE + unat (pkPayload p ! 13) \<and> isCorrelatableFamily (pkOpcode p))"

definition packetEvent :: "packet \<Rightarrow> event" where
  "packetEvent p = event_init\<lparr>evSource := pkSource p, evDestination := pkDestination p, evSequence := pkSequence p, evFamily := pkOpcode p,
     evEpoch := EventProtocol.readUint32Le (pkPayload p) 0, evId := EventProtocol.readUint32Le (pkPayload p) 4, evFlags := pkPayload p ! 8,
     evLifetimeBudgetSeconds := EventProtocol.readUint32Le (pkPayload p) 9, evBodyLength := pkPayload p ! 13,
     evBody := copyBytes (fillZero MAX_BODY_SIZE) 0 (drop COMMON_PAYLOAD_SIZE (pkPayload p)) (unat (pkPayload p ! 13))\<rparr>"

text \<open>The answer for what the ledger reports, if there is one; a local storage failure has none.\<close>

fun wireStatus :: "hubAdmissionStatus \<Rightarrow> admissionStatus option" where
  "wireStatus DURABLE_NEW_ADMISSION = Some ADMITTED"
| "wireStatus EXACT_DUPLICATE = Some ADMITTED"
| "wireStatus ADM_CAPACITY = Some CAPACITY"
| "wireStatus ADM_IDENTITY_CONTENT_MISMATCH = Some IDENTITY_CONTENT_MISMATCH"
| "wireStatus _ = None"

definition eventAnswer :: "event \<Rightarrow> admissionStatus \<Rightarrow> bool \<Rightarrow> bool \<Rightarrow> ledger \<Rightarrow> hubRadioResult \<times> ledger" where
  "eventAnswer e status mutated reports l =
     (case encodeAdmissionResponse (makeAdmissionResponse e status) (Some (fillZero MAX_PACKET_SIZE)) of (ok, out, n) \<Rightarrow>
      if \<not> ok then (hubRadioResult_init, l)
      else (\<lparr>hxAction = HX_START_EVENT_ACK, hxLedgerMutated = mutated, hxStatus = status, hxBytes = the out, hxLength = n\<rparr>,
        if status = CAPACITY \<and> reports then hl_note ED_HUB_CAPACITY_REJECTION 1 l else l))"

text \<open>\<open>reports\<close> says that the caller passes the diagnostics; it is the object that the ledger reports to as well, as in
  \<^verbatim>\<open>src-tx/main.cpp\<close>.\<close>

definition ha_process :: "'s hubStorage \<Rightarrow> bytes option \<Rightarrow> u8 \<Rightarrow> u8 \<Rightarrow> bool \<Rightarrow> ledger \<Rightarrow> 's \<Rightarrow> hubRadioResult \<times> ledger \<times> 's" where
  "ha_process ops input hubDeviceId nodeDeviceId reports l s = (case decode input packet_init of
     None \<Rightarrow> (hubRadioResult_init, l, s)
   | Some p \<Rightarrow>
       if \<not> acceptsEventPacket hubDeviceId nodeDeviceId p then (hubRadioResult_init, l, s)
       else let e = packetEvent p in
         if \<not> isRegisteredFamily (evFamily e) then (case eventAnswer e UNSUPPORTED_EVENT False reports l of (r, l) \<Rightarrow> (r, l, s))
         else if \<not> isValidEvent e then (case eventAnswer e MALFORMED_EVENT False reports l of (r, l) \<Rightarrow> (r, l, s))
         else let before = activeCount l in
           case admit ops e l s of (admitted, l, s) \<Rightarrow>
           (case wireStatus (adStatus admitted) of
              None \<Rightarrow> (hubRadioResult_init, l, s)
            | Some status \<Rightarrow>
                (case eventAnswer e status (adStatus admitted = DURABLE_NEW_ADMISSION \<and> activeCount l \<noteq> before) reports l of
                   (r, l) \<Rightarrow> (r, l, s))))"

subsection \<open>The arbiter\<close>

datatype hubOwner = HO_IDLE_RECEIVE | HO_COMMAND_TX | HO_COMMAND_WAIT_ACK | HO_COMMAND_WAIT_RESPONSE | HO_EVENT_ACK_TX

record hubArbiter =
  arOwner :: hubOwner
  arSavedOwner :: hubOwner
  arDeadline :: u32
  arSavedDeadline :: u32

definition hubArbiter_init :: hubArbiter where
  "hubArbiter_init = \<lparr>arOwner = HO_IDLE_RECEIVE, arSavedOwner = HO_IDLE_RECEIVE, arDeadline = 0, arSavedDeadline = 0\<rparr>"

definition setOwner :: "hubOwner \<Rightarrow> u32 \<Rightarrow> hubArbiter \<Rightarrow> hubArbiter" where
  "setOwner owner deadline a = a\<lparr>arOwner := owner, arDeadline := deadline\<rparr>"

definition beginEventAck :: "hubArbiter \<Rightarrow> bool \<times> hubArbiter" where
  "beginEventAck a = (if arOwner a = HO_EVENT_ACK_TX \<or> arOwner a = HO_COMMAND_TX then (False, a)
     else (True, a\<lparr>arSavedOwner := arOwner a, arSavedDeadline := arDeadline a, arOwner := HO_EVENT_ACK_TX\<rparr>))"

definition finishEventAck :: "hubArbiter \<Rightarrow> hubOwner \<times> hubArbiter" where
  "finishEventAck a = (let a = (if arOwner a = HO_EVENT_ACK_TX then a\<lparr>arOwner := arSavedOwner a, arDeadline := arSavedDeadline a\<rparr> else a) in
     (arOwner a, a))"

definition commandMayAcquire :: "bool \<Rightarrow> hubArbiter \<Rightarrow> bool" where
  "commandMayAcquire isrPending a = (arOwner a = HO_IDLE_RECEIVE \<and> \<not> isrPending)"

subsection \<open>Back to reception\<close>

datatype releaseReceiveResult = RRR_RESTORED | RRR_PENDING_IRQ | RRR_EVENT_OWNED | RRR_STANDBY_FAILED | RRR_RECEIVE_FAILED

text \<open>The interrupt flag is part of the environment: it may change during \<^verbatim>\<open>standby\<close>.\<close>

definition restoreReleasedReceive :: "('s \<Rightarrow> int \<times> 's) \<Rightarrow> ('s \<Rightarrow> bool) \<Rightarrow> bool \<Rightarrow> hubArbiter \<Rightarrow> ('s \<Rightarrow> bool \<times> 's) \<Rightarrow> 's \<Rightarrow>
    releaseReceiveResult \<times> 's" where
  "restoreReleasedReceive standby irqPending eventAckActive arbiter restoreReceive s =
     (if eventAckActive \<or> arOwner arbiter = HO_EVENT_ACK_TX then (RRR_EVENT_OWNED, s)
      else if irqPending s then (RRR_PENDING_IRQ, s)
      else case standby s of (standbyResult, s) \<Rightarrow>
      if standbyResult \<noteq> 0 then (RRR_STANDBY_FAILED, s)
      else if irqPending s then (RRR_PENDING_IRQ, s)
      else case restoreReceive s of (restored, s) \<Rightarrow> (if restored then RRR_RESTORED else RRR_RECEIVE_FAILED, s))"

subsection \<open>The adapter parses what the codec parses\<close>

lemma packetEvent_decode:
  assumes "decode input packet_init = Some p" "acceptsEventPacket hub node p"
  shows "decodeEvent input = (if isValidEvent (packetEvent p) then Some (packetEvent p) else None)"
proof -
  have "decodeEvent input = (let e = packetEvent p in if isValidEvent e then Some e else None)"
    using assms unfolding decodeEvent_def acceptsEventPacket_def packetEvent_def
    by (simp add: Let_def event_init_def)
  then show ?thesis by simp
qed

lemma packetEvent_body [simp]: "length (evBody (packetEvent p)) = 12"
  by (simp add: packetEvent_def event_init_def)

lemma packetEvent_answerable:
  assumes "acceptsEventPacket hub node p" "hub \<noteq> node" "admissionStatus_named st"
  shows "isValidAdmissionResponse (makeAdmissionResponse (packetEvent p) st)"
  using assms isValidAdmissionStatus_named [OF assms(3)]
  by (auto simp: acceptsEventPacket_def packetEvent_def isValidAdmissionResponse_def makeAdmissionResponse_def hasValidEndpoints_def)

text \<open>The bytes of an answer decode to it.\<close>

lemma eventAnswer_bytes:
  assumes "isValidAdmissionResponse (makeAdmissionResponse e st)" "admissionStatus_named st" "eventAnswer e st mutated reports l = (r, l')"
  shows "hxAction r = HX_START_EVENT_ACK \<and> hxStatus r = st \<and> hxLength r = 15 \<and> hxLedgerMutated r = mutated
    \<and> decodeAdmissionResponse (Some (take (hxLength r) (hxBytes r))) = Some (makeAdmissionResponse e st)"
proof -
  let ?r = "makeAdmissionResponse e st"
  have w: "length (wireBytes (admissionPacket ?r)) = 15"
    using packet_sendableD(4) [OF admissionPacket_sendable, of ?r] by simp
  have n: "admissionStatus_named (arStatus ?r)" using assms(2) by (simp add: makeAdmissionResponse_def)
  show ?thesis
    using assms encode_wireBytes [OF admissionPacket_sendable, of ?r "fillZero 32"] decode_admissionPacket [OF assms(1) n] w
    by (auto simp: eventAnswer_def encodeAdmissionResponse_def)
qed

lemma eventAnswer_started:
  assumes "eventAnswer e st mutated reports l = (r, l')" "hxAction r = HX_START_EVENT_ACK" "admissionStatus_named st"
  shows "decodeAdmissionResponse (Some (take (hxLength r) (hxBytes r))) = Some (makeAdmissionResponse e st) \<and> hxStatus r = st"
proof -
  have "isValidAdmissionResponse (makeAdmissionResponse e st)"
    using assms(1,2) by (auto simp: eventAnswer_def encodeAdmissionResponse_def hubRadioResult_init_def split: if_splits)
  then show ?thesis using eventAnswer_bytes [OF _ assms(3,1)] by blast
qed

lemma eventAnswer_ledger: "eventAnswer e st mutated reports l = (r, l') \<Longrightarrow> l' = l \<or> l' = hl_note ED_HUB_CAPACITY_REJECTION 1 l"
  by (auto simp: eventAnswer_def split: if_splits prod.splits)

subsection \<open>What an answer promises\<close>

text \<open>A record of an Event: who sent it, which one it is, and what it says.\<close>

definition recordOf :: "event \<Rightarrow> hubRecord \<Rightarrow> bool" where
  "recordOf e rec = (isOwned rec \<and> hubKey rec = (evSource e, evEpoch e, evId e) \<and> hrFamily rec = evFamily e \<and> hrFlags rec = evFlags e
     \<and> hrLifetimeBudgetSeconds rec = evLifetimeBudgetSeconds e \<and> hrBodyLength rec = evBodyLength e \<and> hrBody rec = evBody e)"

definition hubSound :: "(unit \<Rightarrow> copySlot \<Rightarrow> bytes option) \<Rightarrow> (nat \<Rightarrow> copySlot \<Rightarrow> bytes option) \<Rightarrow> ledger \<Rightarrow> bool" where
  "hubSound m r l = hubRunInv m r l []"

lemma hubSound_run: "hubRunInv m r l ns \<Longrightarrow> hubSound m r l"
  by (simp add: hubSound_def hubRunInv_def)

lemma hubSound_note [simp]: "hubSound m r (hl_note d n l) = hubSound m r l"
  by (simp add: hubSound_def hubRunInv_def)

lemma hubSound_healthy: "hubSound m r l \<Longrightarrow> hlHealthy l \<Longrightarrow> ledgerInv m r l"
  by (simp add: hubSound_def hubRunInv_def)

lemma named_statuses [simp]: "admissionStatus_named ADMITTED" "admissionStatus_named CAPACITY" "admissionStatus_named UNSUPPORTED_EVENT"
  "admissionStatus_named MALFORMED_EVENT" "admissionStatus_named IDENTITY_CONTENT_MISMATCH"
  by (simp_all add: admissionStatus_named_def)

lemma validateAdmission_fresh: "validateAdmission e l \<noteq> EXACT_DUPLICATE"
  by (simp add: validateAdmission_def)

lemma admit_answered:
  assumes "admit ops e l s = (r, l', s')" "adStatus r = DURABLE_NEW_ADMISSION \<or> adStatus r = EXACT_DUPLICATE"
  shows "hlHealthy l" "validateAdmission e l = DURABLE_NEW_ADMISSION"
proof -
  show h: "hlHealthy l" using assms by (cases "hlHealthy l") (auto simp: admit_def Let_def)
  show "validateAdmission e l = DURABLE_NEW_ADMISSION"
    using assms h validateAdmission_fresh [of e l] by (cases "validateAdmission e l = DURABLE_NEW_ADMISSION") (auto simp: admit_def Let_def)
qed

lemma admit_unheld:
  assumes "admit ops e l s = (r, l', s')" "holder e l = None"
  shows "adStatus r \<noteq> EXACT_DUPLICATE"
proof (cases "hlHealthy l \<and> validateAdmission e l = DURABLE_NEW_ADMISSION")
  case True
  have f: "find (\<lambda>k. isOwned (hubSlotRecord l k) \<and> sameIdentity (hubSlotRecord l k) e) [0..<8] = None" using assms(2) by (simp add: holder_def)
  show ?thesis using assms(1) True f by (auto simp: admit_def Let_def split: option.splits prod.splits if_splits)
next
  case False
  then show ?thesis using admit_answered [OF assms(1)] by auto
qed

context hub_storage
begin

lemma hubSound_call: "hubSound (mcell s) (rcell s) l \<Longrightarrow> hubApply ops op l s = (x, l', s') \<Longrightarrow> hubSound (mcell s') (rcell s') l'"
  unfolding hubSound_def by (drule (1) operation_inv) (auto intro: hubSound_run [unfolded hubSound_def])

text \<open>An Event the ledger answers as admitted is on the medium.\<close>

lemma admitted_on_medium:
  assumes sound: "hubSound (mcell s) (rcell s) l" and run: "admit ops e l s = (r, l', s')" and b: "length (evBody e) = 12"
    and st: "adStatus r = DURABLE_NEW_ADMISSION \<or> adStatus r = EXACT_DUPLICATE"
  shows "\<exists>k<8. \<exists>rec. hubView (rcell s') k = Some rec \<and> recordOf e rec"
proof -
  note h = admit_answered(1) [OF run st] and v = admit_answered(2) [OF run st]
  note inv = hubSound_healthy [OF sound h]
  show ?thesis
  proof (cases "holder e l")
    case None
    then have new: "adStatus r = DURABLE_NEW_ADMISSION"
      using admit_unheld [OF run] st by blast
    note A = admit_outcome [OF run inv]
    have "adSlot r < 8" using A new admissionTarget_some by (auto simp: admitting_def)
    moreover have "recordOf e (admittedRecord old e n)" for old n
      using admittedRecord_content [OF v b] by (simp add: recordOf_def admittedRecord_key) (simp add: admittedRecord_def)
    ultimately show ?thesis using A new by (intro exI [of _ "adSlot r"]) auto
  next
    case (Some k)
    then have k: "k < 8" "isOwned (hubSlotRecord l k)" "sameIdentity (hubSlotRecord l k) e"
      by (auto simp: holder_def find_Some_iff)
    have dup: "sameCanonical (hubSlotRecord l k) e" "s' = s" using run h v st Some by (auto simp: admit_def holder_def Let_def split: if_splits)
    have stored: "hubStored (rcell s) l" using inv by (simp add: ledgerInv_def)
    have key: "hubKey (hubSlotRecord l k) = (evSource e, evEpoch e, evId e)" using k(3) sameIdentity_key by blast
    have "recordOf e (hubSlotRecord l k)"
      using sameCanonical_content [OF v b hubStored_valid [OF stored k(1)] hubStored_wf [OF stored k(1)] k(2) key] dup k(2) key
      by (simp add: recordOf_def)
    then show ?thesis using hubStored_view [OF stored k(1)] k(1) dup(2) by blast
  qed
qed

text \<open>One received packet.\<close>

lemma ha_process_outcome:
  assumes sound: "hubSound (mcell s) (rcell s) l" and run: "ha_process ops input hub node reports l s = (res, l', s')"
  shows "hubSound (mcell s') (rcell s') l'
    \<and> (hxAction res = HX_START_EVENT_ACK \<longrightarrow>
        (\<exists>e. decodeAdmissionResponse (Some (take (hxLength res) (hxBytes res))) = Some (makeAdmissionResponse e (hxStatus res))
          \<and> evSource e = node \<and> (hxStatus res = ADMITTED \<longrightarrow> decodeEvent input = Some e \<and> (\<exists>k<8. \<exists>rec. hubView (rcell s') k = Some rec \<and> recordOf e rec))))"
proof (cases "\<exists>p. decode input packet_init = Some p \<and> acceptsEventPacket hub node p")
  case False
  then show ?thesis using run sound by (auto simp: ha_process_def hubRadioResult_init_def split: option.splits)
next
  case True
  then obtain p where p: "decode input packet_init = Some p" "acceptsEventPacket hub node p" by blast
  let ?e = "packetEvent p"
  have src: "evSource ?e = node" using p(2) by (simp add: packetEvent_def acceptsEventPacket_def)
  have answered: ?thesis if a: "eventAnswer ?e st mutated reports l1 = (res, l')" "admissionStatus_named st"
    and s1: "hubSound (mcell s') (rcell s') l1"
    and adm: "st = ADMITTED \<Longrightarrow> isValidEvent ?e \<and> (\<exists>k<8. \<exists>rec. hubView (rcell s') k = Some rec \<and> recordOf ?e rec)" for st mutated l1
  proof -
    have "hubSound (mcell s') (rcell s') l'" using eventAnswer_ledger [OF a(1)] s1 by auto
    moreover have "decodeEvent input = Some ?e" if "st = ADMITTED" using packetEvent_decode [OF p] adm [OF that] by simp
    ultimately show ?thesis using eventAnswer_started [OF a(1) _ a(2)] adm src by (intro conjI impI exI [of _ ?e]) auto
  qed
  show ?thesis
  proof (cases "isRegisteredFamily (evFamily ?e) \<and> isValidEvent ?e")
    case False
    then obtain st where "eventAnswer ?e st False reports l = (res, l')" "s' = s" "st = UNSUPPORTED_EVENT \<or> st = MALFORMED_EVENT"
      using run p by (auto simp: ha_process_def Let_def split: if_splits prod.splits)
    then show ?thesis using answered [of st False l] sound by auto
  next
    case valid: True
    obtain r l1 s1 where a: "admit ops ?e l s = (r, l1, s1)" by (rule prod_cases3)
    have s1: "hubSound (mcell s1) (rcell s1) l1" using hubSound_call [OF sound, of "OpAdmit ?e"] a by auto
    show ?thesis
    proof (cases "wireStatus (adStatus r)")
      case None
      then have "res = hubRadioResult_init" "l' = l1" "s' = s1" using run p valid a by (auto simp: ha_process_def Let_def)
      then show ?thesis using s1 by (simp add: hubRadioResult_init_def)
    next
      case (Some st)
      then obtain mutated where x: "eventAnswer ?e st mutated reports l1 = (res, l')" "s' = s1"
        using run p valid a by (auto simp: ha_process_def Let_def split: prod.splits)
      have n: "admissionStatus_named st" using Some by (cases "adStatus r") auto
      have "\<exists>k<8. \<exists>rec. hubView (rcell s1) k = Some rec \<and> recordOf ?e rec" if "st = ADMITTED"
        using admitted_on_medium [OF sound a] Some that by (cases "adStatus r") auto
      then show ?thesis using answered [OF x(1) n] s1 x(2) valid by blast
    qed
  qed
qed

end

subsection \<open>The arbiter and reception\<close>

text \<open>An interrupted owner gets its radio and its deadline back, and a command that is being sent is never interrupted.\<close>

lemma event_ack_interrupts:
  assumes "beginEventAck a = (True, a')"
  shows "arOwner a \<noteq> HO_COMMAND_TX \<and> arOwner a' = HO_EVENT_ACK_TX \<and> \<not> commandMayAcquire b a'
    \<and> finishEventAck a' = (arOwner a, a\<lparr>arSavedOwner := arOwner a, arSavedDeadline := arDeadline a\<rparr>)"
  using assms by (auto simp: beginEventAck_def finishEventAck_def commandMayAcquire_def Let_def split: if_splits)

text \<open>The radio is left alone while an answer is on the air or an interrupt waits.\<close>

lemma restoreReleasedReceive_quiet:
  assumes "restoreReleasedReceive standby irqPending eventAckActive arbiter restoreReceive s = (res, s')"
  shows "eventAckActive \<or> arOwner arbiter = HO_EVENT_ACK_TX \<or> irqPending s \<Longrightarrow> s' = s"
    and "res = RRR_RESTORED \<longleftrightarrow> \<not> eventAckActive \<and> arOwner arbiter \<noteq> HO_EVENT_ACK_TX \<and> \<not> irqPending s
      \<and> fst (standby s) = 0 \<and> \<not> irqPending (snd (standby s)) \<and> fst (restoreReceive (snd (standby s)))"
  using assms by (auto simp: restoreReleasedReceive_def split: if_splits prod.splits)

subsection \<open>Properties\<close>

text \<open>C7. The Hub answers \<open>ADMITTED\<close> only for what it holds: whatever bytes were received and whatever happened to the ledger and its
  storage before, when the adapter starts an answer with this status, the bytes received are a valid Event, the answer is the
  admission of this Event to its sender, and at that moment the medium holds a record of it with exactly its content.\<close>

theorem hub_admission_durable:
  assumes "hub_storage ops mcell rcell" and "hubRun ops mcell rcell l s log"
    and "ha_process ops input hubDeviceId nodeDeviceId reports l s = (res, l', s')"
    and "hxAction res = HX_START_EVENT_ACK" "hxStatus res = ADMITTED"
  shows "\<exists>e k rec. decodeEvent input = Some e
    \<and> decodeAdmissionResponse (Some (take (hxLength res) (hxBytes res))) = Some (makeAdmissionResponse e ADMITTED)
    \<and> k < 8 \<and> hubView (rcell s') k = Some rec \<and> isOwned rec
    \<and> (hrSourceDeviceId rec, hrEventEpoch rec, hrEventId rec) = (evSource e, evEpoch e, evId e)
    \<and> hrFamily rec = evFamily e \<and> hrFlags rec = evFlags e \<and> hrLifetimeBudgetSeconds rec = evLifetimeBudgetSeconds e
    \<and> hrBodyLength rec = evBodyLength e \<and> hrBody rec = evBody e"
proof -
  have "hubSound (mcell s) (rcell s) l" using hub_storage.hubRun_inv [OF assms(1,2)] by (rule hubSound_run)
  from hub_storage.ha_process_outcome [OF assms(1) this assms(3)] assms(4,5) obtain e k rec where
    "decodeEvent input = Some e" "decodeAdmissionResponse (Some (take (hxLength res) (hxBytes res))) = Some (makeAdmissionResponse e ADMITTED)"
    "k < 8" "hubView (rcell s') k = Some rec" "recordOf e rec" by auto
  then show ?thesis unfolding recordOf_def hubKey_def by blast
qed

lemma decodeEvent_accepts:
  assumes "decodeEvent input = Some e"
  shows "\<exists>p. decode input packet_init = Some p \<and> acceptsEventPacket (evDestination e) (evSource e) p \<and> packetEvent p = e \<and> isValidEvent e"
proof -
  obtain p where p: "decode input packet_init = Some p" "pkType p = EVENT" "COMMON_PAYLOAD_SIZE \<le> unat (pkPayloadLength p)"
    "unat (pkPayload p ! 13) \<le> MAX_BODY_SIZE" "unat (pkPayloadLength p) = COMMON_PAYLOAD_SIZE + unat (pkPayload p ! 13)"
    and e: "packetEvent p = e" "isValidEvent e"
    using assms by (auto simp: decodeEvent_def packetEvent_def event_init_def Let_def split: option.splits if_splits)
  have "isCorrelatableFamily (evFamily e)"
    using e(2) by (auto simp: isValidEvent_def isRegisteredFamily_def isCorrelatableFamily_def)
  then have "acceptsEventPacket (evDestination e) (evSource e) p"
    using p e by (auto simp: acceptsEventPacket_def packetEvent_def isValidEvent_def hasValidEndpoints_def)
  then show ?thesis using p(1) e by blast
qed

text \<open>A blank Hub answers the bytes of a valid Event with its admission.\<close>

lemma flash_hub_answers:
  assumes "isValidEvent e" "evSource e = 5" "evDestination e = 1"
  shows "\<exists>l s res l' s'. flashHubRun l s [] \<and> ha_process (preferencesHub ramNvs) (Some (wireBytes (eventPacket e))) 1 5 True l s = (res, l', s')
     \<and> hxAction res = HX_START_EVENT_ACK \<and> hxStatus res = ADMITTED
     \<and> decodeAdmissionResponse (Some (take (hxLength res) (hxBytes res))) = Some (makeAdmissionResponse (canonicalBody e) ADMITTED)
     \<and> isValidAdmissionResponse (makeAdmissionResponse (canonicalBody e) ADMITTED)"
proof -
  let ?e = "canonicalBody e" and ?bytes = "wireBytes (eventPacket e)"
  have ends: "evSource ?e = 5" "evDestination ?e = 1" using assms by (simp_all add: canonicalBody_def)
  obtain p where p: "decode (Some ?bytes) packet_init = Some p" "acceptsEventPacket 1 5 p" "packetEvent p = ?e" "isValidEvent ?e"
    using decodeEvent_accepts [OF decode_eventPacket [OF assms(1)]] ends by auto
  have tail: "\<forall>j. unat (evBodyLength ?e) \<le> j \<and> j < 12 \<longrightarrow> evBody ?e ! j = 0" "length (evBody ?e) = MAX_BODY_SIZE"
    by (auto simp: canonicalBody_def nth_zeroPadded)
  from flash_hub_admits [OF p(4) ends tail] obtain l s n l1 s1 where r: "flashHubRun l s []"
    and a: "admit (preferencesHub ramNvs) ?e l s = (\<lparr>adStatus = DURABLE_NEW_ADMISSION, adSlot = 0, adAdmissionOrdinal = n\<rparr>, l1, s1)" by blast
  obtain res l' s' where run: "ha_process (preferencesHub ramNvs) (Some ?bytes) 1 5 True l s = (res, l', s')" by (rule prod_cases3)
  have "isRegisteredFamily (evFamily ?e)" using p(4) by (simp add: isValidEvent_def)
  then obtain mutated where ans: "eventAnswer ?e ADMITTED mutated True l1 = (res, l')"
    using run p a by (auto simp: ha_process_def Let_def split: prod.splits)
  have valid: "isValidAdmissionResponse (makeAdmissionResponse ?e ADMITTED)"
    using packetEvent_answerable [OF p(2), of ADMITTED] p(3) by simp
  note bytes = eventAnswer_bytes [OF valid named_statuses(1) ans]
  show ?thesis using bytes r run valid by blast
qed

theorem hub_admission_durable_witness:
  "\<exists>input l s res l' s' k rec. flashHubRun l s [] \<and> ha_process (preferencesHub ramNvs) input 1 5 True l s = (res, l', s')
     \<and> hxStatus res = ADMITTED \<and> hubView (hubCells (ramBlob s')) k = Some rec \<and> isOwned rec \<and> hrEventEpoch rec = 7 \<and> hrEventId rec = 1"
proof -
  let ?input = "Some (wireBytes (eventPacket sampleHubEvent))"
  obtain l s res l' s' where run: "flashHubRun l s []" "ha_process (preferencesHub ramNvs) ?input 1 5 True l s = (res, l', s')"
    "hxAction res = HX_START_EVENT_ACK" "hxStatus res = ADMITTED" using flash_hub_answers [OF sampleHubEvent_ok(1-3)] by blast
  have "decodeEvent ?input = Some (canonicalBody sampleHubEvent)" by (rule decode_eventPacket [OF sampleHubEvent_ok(1)])
  with hub_admission_durable [OF ram_flash.hub.hub_storage_axioms run(1-4)] obtain k rec where
    "hubView (hubCells (ramBlob s')) k = Some rec" "isOwned rec" "hrEventEpoch rec = 7" "hrEventId rec = 1"
    by (auto simp: sampleHubEvent_def canonicalBody_def)
  then show ?thesis using run(1,2,4) by blast
qed

end
