(* ===== verification/NodeEventDelivery.thy ===== *)
theory NodeEventDelivery
  imports NodeEventStore
begin

text \<open>
  Delivery of the Node's Events (\<^verbatim>\<open>lib/node_event_delivery/src/node_event_delivery.h\<close> and the two headers beside it):
  the lifetime policy that charges elapsed time to the durable records, and the controller that takes the oldest queued
  Event through transmission, admission, retry and expiry.

  The objects that the two classes point to are in one environment: the store with its medium, the transmission
  observer, and the state behind the two virtual sources of sequence numbers and of jitter, which are parameters.
  A pointer that may be null is a flag.  The runtime state that the controller reports to is the one that the
  store reports to, as \<^verbatim>\<open>src-rx/main.cpp\<close> wires them.
\<close>

record ('s, 'e) nodeEnv =
  envStore :: store
  envMedium :: 's
  envObserver :: observer
  envSources :: 'e

record ('s, 'e) deliveryDeps =
  ddStorage :: "'s nodeStorage"
  ddSequence :: "'e \<Rightarrow> u8 option \<times> 'e"
  ddJitter :: "'e \<Rightarrow> u16 \<times> 'e"

text \<open>A call of a store operation, and \<^verbatim>\<open>if (observer_) observer_->...\<close>.\<close>

definition storeCall :: "(store \<Rightarrow> 's \<Rightarrow> 'r \<times> store \<times> 's) \<Rightarrow> ('s, 'e) nodeEnv \<Rightarrow> 'r \<times> ('s, 'e) nodeEnv" where
  "storeCall f env = (case f (envStore env) (envMedium env) of (r, st, s) \<Rightarrow> (r, env\<lparr>envStore := st, envMedium := s\<rparr>))"

definition observe :: "bool \<Rightarrow> (observer \<Rightarrow> observer) \<Rightarrow> ('s, 'e) nodeEnv \<Rightarrow> ('s, 'e) nodeEnv" where
  "observe attached f env = (if attached then env\<lparr>envObserver := f (envObserver env)\<rparr> else env)"

subsection \<open>The lifetime policy\<close>

definition CHECKPOINT_SECONDS :: u32 where [simp]: "CHECKPOINT_SECONDS = 60"
definition CHECKPOINT_MILLISECONDS :: u64 where [simp]: "CHECKPOINT_MILLISECONDS = 60000"

datatype deliveryStatus = DS_READY | DS_STORE_DEGRADED | DS_DEBIT_FAILURE | DS_CHECKPOINT_FAILURE | DS_EXPIRY_FAILURE
  | DS_INVALID_SLOT | DS_NOT_QUEUED

datatype attemptResult = AR_ARMED | AR_EXHAUSTED | AR_EXPIRED | AR_NOT_QUEUED | AR_INVALID_SLOT | AR_STORAGE_FAILURE
  | AR_DEGRADED

record slotRuntime =
  rtTracked :: bool
  rtBaselineMilliseconds :: u32
  rtUncommittedMilliseconds :: u64

definition slotRuntime_init :: slotRuntime where
  "slotRuntime_init = \<lparr>rtTracked = False, rtBaselineMilliseconds = 0, rtUncommittedMilliseconds = 0\<rparr>"

record policy =
  plStore :: bool
  plObserver :: bool
  plRuntime :: "slotRuntime list"
  plReady :: bool
  plStatus :: deliveryStatus

definition policy_init :: policy where
  "policy_init = \<lparr>plStore = False, plObserver = False, plRuntime = replicate NODE_EVENT_CAPACITY slotRuntime_init,
     plReady = False, plStatus = DS_STORE_DEGRADED\<rparr>"

definition pl_reset :: "policy \<Rightarrow> policy" where
  "pl_reset p = p\<lparr>plStore := False, plRuntime := replicate NODE_EVENT_CAPACITY slotRuntime_init, plReady := False,
     plStatus := DS_STORE_DEGRADED\<rparr>"

definition pl_fail :: "deliveryStatus \<Rightarrow> policy \<Rightarrow> policy" where
  "pl_fail status p = p\<lparr>plReady := False, plStatus := status\<rparr>"

text \<open>The record of a slot when it is queued, as the loops of the policy select it.\<close>

definition queuedRecord :: "nat \<Rightarrow> store \<Rightarrow> nodeRecord option" where
  "queuedRecord slot st = (case recordAt slot st of None \<Rightarrow> None
     | Some rec \<Rightarrow> if nrState rec \<noteq> NS_QUEUED then None else Some rec)"

text \<open>The loop of \<^verbatim>\<open>recover\<close>, which charges one checkpoint interval to every queued record.\<close>

fun debitSlots :: "'s nodeStorage \<Rightarrow> bool \<Rightarrow> u32 \<Rightarrow> nat list \<Rightarrow> ('s, 'e) nodeEnv \<Rightarrow> bool \<times> ('s, 'e) nodeEnv" where
  "debitSlots ops attached now [] env = (True, env)"
| "debitSlots ops attached now (slot # slots) env = (case queuedRecord slot (envStore env) of
       None \<Rightarrow> debitSlots ops attached now slots env
     | Some rec \<Rightarrow> (case storeCall (if nrRemainingActiveSeconds rec \<le> CHECKPOINT_SECONDS then markExpired ops slot
           else checkpointRemaining ops slot (nrRemainingActiveSeconds rec - CHECKPOINT_SECONDS)) env of (mutation, env) \<Rightarrow>
         if mutation \<noteq> MUT_OK then (False, env)
         else debitSlots ops attached now slots
           (if nrState (the (recordAt slot (envStore env))) = NS_EXPIRED then observe attached (ob_note TX_EXPIRED_QUEUED now) env
            else env)))"

definition initializeTrackedSlots :: "u32 \<Rightarrow> store \<Rightarrow> slotRuntime list \<Rightarrow> slotRuntime list" where
  "initializeTrackedSlots now st runtime = map (\<lambda>slot. if queuedRecord slot st \<noteq> None
     then \<lparr>rtTracked = True, rtBaselineMilliseconds = now, rtUncommittedMilliseconds = 0\<rparr> else runtime ! slot)
     [0..<NODE_EVENT_CAPACITY]"

definition pl_recover :: "'s nodeStorage \<Rightarrow> bool \<Rightarrow> u32 \<Rightarrow> policy \<Rightarrow> ('s, 'e) nodeEnv \<Rightarrow>
    deliveryStatus \<times> policy \<times> ('s, 'e) nodeEnv" where
  "pl_recover ops attached now p env =
     (let p = (pl_reset p)\<lparr>plObserver := attached, plStore := True\<rparr>; env = observe attached (ob_clock now) env in
      if \<not> nsHealthy (envStore env) then (DS_STORE_DEGRADED, pl_fail DS_STORE_DEGRADED p, env)
      else case debitSlots ops attached now [0..<NODE_EVENT_CAPACITY] env of (debited, env) \<Rightarrow>
      if \<not> debited then (DS_DEBIT_FAILURE, pl_fail DS_DEBIT_FAILURE p, env)
      else (DS_READY, p\<lparr>plRuntime := initializeTrackedSlots now (envStore env) (plRuntime p), plReady := True,
              plStatus := DS_READY\<rparr>, env))"

definition pl_trackEnqueued :: "nat \<Rightarrow> u32 \<Rightarrow> policy \<Rightarrow> ('s, 'e) nodeEnv \<Rightarrow>
    deliveryStatus \<times> policy \<times> ('s, 'e) nodeEnv" where
  "pl_trackEnqueued slot now p env =
     (if \<not> plReady p \<or> \<not> plStore p \<or> \<not> nsHealthy (envStore env) then (DS_STORE_DEGRADED, pl_fail DS_STORE_DEGRADED p, env)
      else if \<not> slot < NODE_EVENT_CAPACITY then (DS_INVALID_SLOT, p, env)
      else if queuedRecord slot (envStore env) = None then (DS_NOT_QUEUED, p, env)
      else (DS_READY, p\<lparr>plRuntime := (plRuntime p)[slot := \<lparr>rtTracked = True, rtBaselineMilliseconds = now,
              rtUncommittedMilliseconds = 0\<rparr>]\<rparr>, observe (plObserver p) (ob_clock now) env))"

text \<open>The loop \<^verbatim>\<open>while (true)\<close> of \<^verbatim>\<open>service\<close> for one slot: whole intervals are charged to the record while it has more
  than one left; then it expires if what is left has passed.\<close>

function lifetimeLoop :: "'s nodeStorage \<Rightarrow> nat \<Rightarrow> slotRuntime \<Rightarrow> ('s, 'e) nodeEnv \<Rightarrow>
    deliveryStatus \<times> slotRuntime \<times> ('s, 'e) nodeEnv" where
  "lifetimeLoop ops slot rt env = (case queuedRecord slot (envStore env) of
       None \<Rightarrow> (DS_READY, slotRuntime_init, env)
     | Some rec \<Rightarrow>
       if nrRemainingActiveSeconds rec > CHECKPOINT_SECONDS \<and> rtUncommittedMilliseconds rt \<ge> CHECKPOINT_MILLISECONDS then
         (case storeCall (checkpointRemaining ops slot (nrRemainingActiveSeconds rec - CHECKPOINT_SECONDS)) env of (m, env) \<Rightarrow>
            if m \<noteq> MUT_OK then (DS_CHECKPOINT_FAILURE, rt, env)
            else lifetimeLoop ops slot
              (rt\<lparr>rtUncommittedMilliseconds := rtUncommittedMilliseconds rt - CHECKPOINT_MILLISECONDS\<rparr>) env)
       else if rtUncommittedMilliseconds rt \<ge> ucast (nrRemainingActiveSeconds rec) * 1000 then
         (case storeCall (markExpired ops slot) env of (m, env) \<Rightarrow>
            if m \<noteq> MUT_OK then (DS_EXPIRY_FAILURE, rt, env) else (DS_READY, slotRuntime_init, env))
       else (DS_READY, rt, env))"
  by pat_completeness auto
termination
  by (relation "measure (\<lambda>(_, _, rt, _). unat (rtUncommittedMilliseconds rt))")
    (auto simp: word_le_nat_alt unat_sub)

text \<open>One slot of the loop of \<^verbatim>\<open>service\<close>.\<close>

definition serviceSlot :: "'s nodeStorage \<Rightarrow> u32 \<Rightarrow> nat \<Rightarrow> slotRuntime \<Rightarrow> ('s, 'e) nodeEnv \<Rightarrow>
    deliveryStatus \<times> slotRuntime \<times> ('s, 'e) nodeEnv" where
  "serviceSlot ops now slot rt env =
     (if queuedRecord slot (envStore env) = None then (DS_READY, slotRuntime_init, env)
      else if \<not> rtTracked rt
        then (DS_READY, \<lparr>rtTracked = True, rtBaselineMilliseconds = now, rtUncommittedMilliseconds = 0\<rparr>, env)
      else let elapsed = now - rtBaselineMilliseconds rt in
        lifetimeLoop ops slot (rt\<lparr>rtBaselineMilliseconds := now,
          rtUncommittedMilliseconds := rtUncommittedMilliseconds rt + ucast elapsed\<rparr>) env)"

fun serviceSlots :: "'s nodeStorage \<Rightarrow> u32 \<Rightarrow> nat list \<Rightarrow> policy \<Rightarrow> ('s, 'e) nodeEnv \<Rightarrow>
    deliveryStatus \<times> policy \<times> ('s, 'e) nodeEnv" where
  "serviceSlots ops now [] p env = (DS_READY, p, env)"
| "serviceSlots ops now (slot # slots) p env = (case serviceSlot ops now slot (plRuntime p ! slot) env of (st, rt, env) \<Rightarrow>
     let p = p\<lparr>plRuntime := (plRuntime p)[slot := rt]\<rparr> in
     if st \<noteq> DS_READY then (st, pl_fail st p, env) else serviceSlots ops now slots p env)"

definition pl_service :: "'s nodeStorage \<Rightarrow> u32 \<Rightarrow> policy \<Rightarrow> ('s, 'e) nodeEnv \<Rightarrow>
    deliveryStatus \<times> policy \<times> ('s, 'e) nodeEnv" where
  "pl_service ops now p env =
     (let env = observe (plObserver p) (ob_clock now) env in
      if \<not> plReady p \<or> \<not> plStore p \<or> \<not> nsHealthy (envStore env) then (DS_STORE_DEGRADED, pl_fail DS_STORE_DEGRADED p, env)
      else serviceSlots ops now [0..<NODE_EVENT_CAPACITY] p env)"

definition pl_effectiveRemainingSeconds :: "nat \<Rightarrow> policy \<Rightarrow> store \<Rightarrow> u32" where
  "pl_effectiveRemainingSeconds slot p st =
     (if \<not> plReady p \<or> \<not> plStore p \<or> \<not> slot < NODE_EVENT_CAPACITY then 0
      else case queuedRecord slot st of None \<Rightarrow> 0
      | Some rec \<Rightarrow> if \<not> rtTracked (plRuntime p ! slot) then 0
        else let elapsedSeconds = rtUncommittedMilliseconds (plRuntime p ! slot) div 1000 in
          if elapsedSeconds \<ge> ucast (nrRemainingActiveSeconds rec) then 0
          else nrRemainingActiveSeconds rec - ucast elapsedSeconds)"

definition eligible :: "nat \<Rightarrow> policy \<Rightarrow> store \<Rightarrow> bool" where
  "eligible slot p st =
     (if \<not> plReady p \<or> \<not> plStore p \<or> \<not> nsHealthy st \<or> \<not> slot < NODE_EVENT_CAPACITY \<or> \<not> rtTracked (plRuntime p ! slot)
      then False
      else case queuedRecord slot st of None \<Rightarrow> False
        | Some rec \<Rightarrow> rtUncommittedMilliseconds (plRuntime p ! slot) < ucast (nrRemainingActiveSeconds rec) * 1000)"

definition pl_armAttempt :: "'s nodeStorage \<Rightarrow> nat \<Rightarrow> u32 \<Rightarrow> policy \<Rightarrow> ('s, 'e) nodeEnv \<Rightarrow>
    attemptResult \<times> policy \<times> ('s, 'e) nodeEnv" where
  "pl_armAttempt ops slot now p env =
     (if \<not> plReady p then (AR_DEGRADED, p, env)
      else case pl_service ops now p env of (serviced, p, env) \<Rightarrow>
      if serviced \<noteq> DS_READY then (AR_STORAGE_FAILURE, p, env)
      else if \<not> slot < NODE_EVENT_CAPACITY then (AR_INVALID_SLOT, p, env)
      else case recordAt slot (envStore env) of None \<Rightarrow> (AR_EXPIRED, p, env)
      | Some rec \<Rightarrow>
        if nrState rec = NS_EXPIRED then (AR_EXPIRED, p, env)
        else if nrState rec \<noteq> NS_QUEUED then (AR_NOT_QUEUED, p, env)
        else if \<not> eligible slot p (envStore env) then (AR_EXPIRED, p, env)
        else case storeCall (armAttempt ops slot) env of (st, env) \<Rightarrow> (case st of
            ARMED \<Rightarrow> (AR_ARMED, p, env)
          | EXHAUSTED \<Rightarrow> (AR_EXHAUSTED, p, env)
          | ATT_INVALID_SLOT \<Rightarrow> (AR_INVALID_SLOT, p, env)
          | NOT_QUEUED \<Rightarrow> (AR_NOT_QUEUED, p, env)
          | ATT_STORAGE_FAILURE \<Rightarrow> (AR_STORAGE_FAILURE, pl_fail DS_STORE_DEGRADED p, env)
          | ATT_DEGRADED \<Rightarrow> (AR_DEGRADED, pl_fail DS_STORE_DEGRADED p, env)))"

declare lifetimeLoop.simps [simp del]

subsection \<open>The controller\<close>

definition ADMISSION_TIMEOUT_MILLISECONDS :: u32 where [simp]: "ADMISSION_TIMEOUT_MILLISECONDS = 2500"
definition MAX_BACKOFF_JITTER_MILLISECONDS :: u16 where [simp]: "MAX_BACKOFF_JITTER_MILLISECONDS = 250"

datatype deliveryState = RS_QUEUED | RS_READY | RS_TX_PREPARE | RS_TX | RS_WAIT_ADMISSION | RS_BACKOFF | RS_RELEASED
  | RS_FAILED | RS_EXPIRED

datatype radioActionType = RA_NONE | RA_TRANSMIT | RA_RECEIVE

datatype controllerStatus = CS_OK | CS_NO_ACTIVE_EVENT | CS_INVALID_CONFIGURATION | CS_INVALID_STATE | CS_SEQUENCE_FAILURE
  | CS_ENCODE_FAILURE | CS_POLICY_FAILURE | CS_STORAGE_FAILURE | CS_DEGRADED

record radioAction =
  raType :: radioActionType
  raBytes :: bytes
  raLength :: nat

definition radioAction_init :: radioAction where
  "radioAction_init = \<lparr>raType = RA_NONE, raBytes = fillZero MAX_PACKET_SIZE, raLength = 0\<rparr>"

record controllerResult =
  clStatus :: controllerStatus
  clAction :: radioAction

record controller =
  ctStore :: bool
  ctPolicy :: policy
  ctSource :: u8
  ctDestination :: u8
  ctActiveSlot :: nat
  ctActive :: bool
  ctInitialized :: bool
  ctDegraded :: bool
  ctCorrelationValid :: bool
  ctState :: deliveryState
  ctDeadlineOrigin :: u32
  ctDeadlineDuration :: u32
  ctAttemptEvent :: event
  ctDegradedResult :: controllerResult
  ctDiagnostics :: bool
  ctObserver :: bool

definition ct_result :: "controllerStatus \<Rightarrow> controllerResult" where
  "ct_result status = \<lparr>clStatus = status, clAction = radioAction_init\<rparr>"

definition receiveResult :: controllerResult where
  "receiveResult = (ct_result CS_OK)\<lparr>clAction := radioAction_init\<lparr>raType := RA_RECEIVE\<rparr>\<rparr>"

definition controller_init :: controller where
  "controller_init = \<lparr>ctStore = False, ctPolicy = policy_init, ctSource = 0, ctDestination = 0, ctActiveSlot = 0xFF,
     ctActive = False, ctInitialized = False, ctDegraded = False, ctCorrelationValid = False, ctState = RS_QUEUED,
     ctDeadlineOrigin = 0, ctDeadlineDuration = 0, ctAttemptEvent = event_init, ctDegradedResult = ct_result CS_OK,
     ctDiagnostics = False, ctObserver = False\<rparr>"

definition clearAttempt :: "controller \<Rightarrow> controller" where
  "clearAttempt c = c\<lparr>ctCorrelationValid := False, ctAttemptEvent := event_init, ctDeadlineOrigin := 0, ctDeadlineDuration := 0\<rparr>"

definition ct_reset :: "controller \<Rightarrow> controller" where
  "ct_reset c = clearAttempt (c\<lparr>ctStore := False, ctSource := 0, ctDestination := 0, ctActiveSlot := 0xFF, ctActive := False,
     ctInitialized := False, ctDegraded := False, ctCorrelationValid := False, ctState := RS_QUEUED,
     ctDegradedResult := ct_result CS_OK\<rparr>)"

definition degradedWith :: "controllerStatus \<Rightarrow> bool \<Rightarrow> controllerResult" where
  "degradedWith status receive = (if receive then (ct_result status)\<lparr>clAction := radioAction_init\<lparr>raType := RA_RECEIVE\<rparr>\<rparr>
     else ct_result status)"

type_synonym ('s, 'e) ctOutcome = "controllerResult \<times> controller \<times> ('s, 'e) nodeEnv"

definition degrade :: "controllerStatus \<Rightarrow> bool \<Rightarrow> controller \<Rightarrow> ('s, 'e) nodeEnv \<Rightarrow> ('s, 'e) ctOutcome" where
  "degrade status receive c env = (degradedWith status receive,
     c\<lparr>ctDegraded := True, ctDegradedResult := degradedWith status receive\<rparr>, env)"

text \<open>\<^verbatim>\<open>if (diagnostics_ != nullptr) diagnostics_->...\<close>\<close>

definition diagnose :: "controller \<Rightarrow> (rtState \<Rightarrow> rtState) \<Rightarrow> ('s, 'e) nodeEnv \<Rightarrow> ('s, 'e) nodeEnv" where
  "diagnose c f env = (if ctDiagnostics c
     then env\<lparr>envStore := (envStore env)\<lparr>nsDiagnostics := map_option f (nsDiagnostics (envStore env))\<rparr>\<rparr> else env)"

definition ct_note :: "controller \<Rightarrow> txCounter \<Rightarrow> u32 \<Rightarrow> ('s, 'e) nodeEnv \<Rightarrow> ('s, 'e) nodeEnv" where
  "ct_note c counter now env = observe (ctObserver c) (ob_note counter now) env"

definition ct_record :: "controller \<Rightarrow> ('s, 'e) nodeEnv \<Rightarrow> nodeRecord option" where
  "ct_record c env = (if ctActive c \<and> ctStore c then recordAt (ctActiveSlot c) (envStore env) else None)"

definition stateNotes :: "controller \<Rightarrow> deliveryState \<Rightarrow> ('s, 'e) nodeEnv \<Rightarrow> txCounter list" where
  "stateNotes c next env = (if next = ctState c then [] else case next of
       RS_TX \<Rightarrow> [TX_TX_ENTERED]
     | RS_WAIT_ADMISSION \<Rightarrow> [TX_WAIT_ENTERED]
     | RS_BACKOFF \<Rightarrow> [TX_BACKOFF_ENTERED]
     | RS_READY \<Rightarrow> (case ct_record c env of None \<Rightarrow> [] | Some rec \<Rightarrow> if nrAttemptsUsed rec > 0 then [TX_RETRY_READY] else [])
     | RS_EXPIRED \<Rightarrow> (case ctState c of RS_QUEUED \<Rightarrow> [TX_EXPIRED_QUEUED] | RS_READY \<Rightarrow> [TX_EXPIRED_READY]
         | RS_TX_PREPARE \<Rightarrow> [TX_EXPIRED_PREPARE] | RS_TX \<Rightarrow> [TX_EXPIRED_TX] | RS_WAIT_ADMISSION \<Rightarrow> [TX_EXPIRED_WAIT]
         | RS_BACKOFF \<Rightarrow> [TX_EXPIRED_BACKOFF] | _ \<Rightarrow> [])
     | _ \<Rightarrow> [])"

definition changeState :: "deliveryState \<Rightarrow> u32 \<Rightarrow> controller \<Rightarrow> ('s, 'e) nodeEnv \<Rightarrow> controller \<times> ('s, 'e) nodeEnv" where
  "changeState next now c env = (c\<lparr>ctState := next\<rparr>, fold (\<lambda>n. ct_note c n now) (stateNotes c next env) env)"

definition ct_usable :: "controller \<Rightarrow> ('s, 'e) nodeEnv \<Rightarrow> bool" where
  "ct_usable c env = (ctInitialized c \<and> \<not> ctDegraded c \<and> ctStore c \<and> nsHealthy (envStore env) \<and> plReady (ctPolicy c))"

definition ct_terminal :: "controller \<Rightarrow> bool" where
  "ct_terminal c = (ctState c = RS_RELEASED \<or> ctState c = RS_FAILED \<or> ctState c = RS_EXPIRED)"

definition headStillAuthoritative :: "controller \<Rightarrow> ('s, 'e) nodeEnv \<Rightarrow> bool" where
  "headStillAuthoritative c env = (case queuedAt 0 (envStore env) of None \<Rightarrow> False
     | Some (_, slot) \<Rightarrow> slot = ctActiveSlot c \<and> (case ct_record c env of None \<Rightarrow> False | Some rec \<Rightarrow> nrState rec = NS_QUEUED))"

definition loadHead :: "controller \<Rightarrow> ('s, 'e) nodeEnv \<Rightarrow> controller" where
  "loadHead c env = (if ctStore c then case queuedAt 0 (envStore env) of None \<Rightarrow> c
     | Some (_, slot) \<Rightarrow> c\<lparr>ctActive := True, ctActiveSlot := slot, ctState := RS_QUEUED\<rparr> else c)"

text \<open>The two loops around the policy's service in \<^verbatim>\<open>serviceLifetime\<close> count the other slots that expired.\<close>

definition noteExpired :: "controller \<Rightarrow> u32 \<Rightarrow> store \<Rightarrow> ('s, 'e) nodeEnv \<Rightarrow> ('s, 'e) nodeEnv" where
  "noteExpired c now before env = (if ctObserver c then fold (\<lambda>slot env.
       if queuedRecord slot before \<noteq> None \<and> slot \<noteq> ctActiveSlot c
         \<and> (case recordAt slot (envStore env) of None \<Rightarrow> False | Some rec \<Rightarrow> nrState rec = NS_EXPIRED)
       then ct_note c TX_EXPIRED_QUEUED now env else env) [0..<NODE_EVENT_CAPACITY] env else env)"

definition serviceLifetime :: "'s nodeStorage \<Rightarrow> u32 \<Rightarrow> controller \<Rightarrow> ('s, 'e) nodeEnv \<Rightarrow>
    bool \<times> controller \<times> ('s, 'e) nodeEnv" where
  "serviceLifetime ops now c env = (case pl_service ops now (ctPolicy c) env of (st, p, env') \<Rightarrow>
     let c = c\<lparr>ctPolicy := p\<rparr> in
     if st \<noteq> DS_READY then (case degrade CS_POLICY_FAILURE True c env' of (_, c, env) \<Rightarrow> (False, c, env))
     else let env' = noteExpired c now (envStore env) env' in
       case ct_record c env' of None \<Rightarrow> (True, c, env')
       | Some rec \<Rightarrow> if nrState rec = NS_EXPIRED
           then (case changeState RS_EXPIRED now c env' of (c, env) \<Rightarrow> (True, clearAttempt c, env))
         else (True, c, env'))"

definition ct_markFailed :: "'s nodeStorage \<Rightarrow> controller \<Rightarrow> ('s, 'e) nodeEnv \<Rightarrow> bool \<times> controller \<times> ('s, 'e) nodeEnv" where
  "ct_markFailed ops c env = (case storeCall (markFailed ops (ctActiveSlot c)) env of (m, env) \<Rightarrow>
     if m \<noteq> MUT_OK then (False, c, env) else (True, clearAttempt (c\<lparr>ctState := RS_FAILED\<rparr>), env))"

definition backoffBase :: "u32 list" where
  "backoffBase = [1000, 2000, 4000, 8000]"

definition failedAttempt :: "('s, 'e) deliveryDeps \<Rightarrow> u32 \<Rightarrow> bool \<Rightarrow> controller \<Rightarrow> ('s, 'e) nodeEnv \<Rightarrow> ('s, 'e) ctOutcome" where
  "failedAttempt d now hubUnavailableEvidence c env =
     (let env = (if hubUnavailableEvidence then diagnose c (setHubUnavailable True) env else env) in
      if (case ct_record c env of None \<Rightarrow> True | Some rec \<Rightarrow> nrAttemptsUsed rec \<ge> MAX_ATTEMPTS) then
        (case ct_markFailed (ddStorage d) c env of (ok, c, env) \<Rightarrow>
           if \<not> ok then degrade CS_STORAGE_FAILURE True c env else (receiveResult, c, env))
      else case ddJitter d (envSources env) of (jitter, sources) \<Rightarrow>
        let env = env\<lparr>envSources := sources\<rparr> in
        if jitter > MAX_BACKOFF_JITTER_MILLISECONDS then degrade CS_INVALID_CONFIGURATION True c env
        else let used = nrAttemptsUsed (the (ct_record c env));
                 c = c\<lparr>ctDeadlineOrigin := now, ctDeadlineDuration := backoffBase ! unat (used - 1) + ucast jitter\<rparr> in
          case changeState RS_BACKOFF now c env of (c, env) \<Rightarrow> (receiveResult, c, env))"

definition ct_recover :: "('s, 'e) deliveryDeps \<Rightarrow> u8 \<Rightarrow> u8 \<Rightarrow> u32 \<Rightarrow> bool \<Rightarrow> bool \<Rightarrow> controller \<Rightarrow> ('s, 'e) nodeEnv \<Rightarrow>
    ('s, 'e) ctOutcome" where
  "ct_recover d sourceDeviceId hubDeviceId now diagnostics attached c env =
     (let c = (ct_reset c)\<lparr>ctObserver := attached, ctDiagnostics := diagnostics\<rparr> in
      if \<not> hasValidEndpoints sourceDeviceId hubDeviceId then (ct_result CS_INVALID_CONFIGURATION, c, env)
      else let c = c\<lparr>ctStore := True, ctSource := sourceDeviceId, ctDestination := hubDeviceId\<rparr> in
      case pl_recover (ddStorage d) attached now (ctPolicy c) env of (st, p, env) \<Rightarrow>
      let c = c\<lparr>ctPolicy := p\<rparr> in
      if st \<noteq> DS_READY then degrade CS_POLICY_FAILURE False c env
      else let c = loadHead (c\<lparr>ctInitialized := True\<rparr>) env in
      if ctActive c \<and> nrAttemptsUsed (the (ct_record c env)) \<ge> MAX_ATTEMPTS then
        (case ct_markFailed (ddStorage d) c env of (ok, c, env) \<Rightarrow>
           if \<not> ok then degrade CS_STORAGE_FAILURE True c env
           else (ct_result (if ctActive c then CS_OK else CS_NO_ACTIVE_EVENT), c, env))
      else (ct_result (if ctActive c then CS_OK else CS_NO_ACTIVE_EVENT), c, env))"

definition ct_trackEnqueued :: "nat \<Rightarrow> u32 \<Rightarrow> controller \<Rightarrow> ('s, 'e) nodeEnv \<Rightarrow>
    controllerStatus \<times> controller \<times> ('s, 'e) nodeEnv" where
  "ct_trackEnqueued slot now c env =
     (if \<not> ct_usable c env then (case degrade CS_DEGRADED False c env of (r, c, env) \<Rightarrow> (clStatus r, c, env))
      else case pl_trackEnqueued slot now (ctPolicy c) env of (st, p, env) \<Rightarrow>
      let c = c\<lparr>ctPolicy := p\<rparr> in
      if st \<noteq> DS_READY then (case degrade CS_POLICY_FAILURE False c env of (r, c, env) \<Rightarrow> (clStatus r, c, env))
      else (CS_OK, c, env))"

text \<open>The switch of \<^verbatim>\<open>service\<close>.\<close>

definition serviceState :: "('s, 'e) deliveryDeps \<Rightarrow> u32 \<Rightarrow> bool \<Rightarrow> controller \<Rightarrow> ('s, 'e) nodeEnv \<Rightarrow> ('s, 'e) ctOutcome" where
  "serviceState d now synchronousWork c env = (case ctState c of
       RS_QUEUED \<Rightarrow>
         if nrAttemptsUsed (the (ct_record c env)) \<ge> MAX_ATTEMPTS then
           (case ct_markFailed (ddStorage d) c env of (ok, c, env) \<Rightarrow>
              if \<not> ok then degrade CS_STORAGE_FAILURE True c env else (ct_result CS_OK, c, env))
         else if \<not> synchronousWork
           then (case changeState RS_READY now c env of (c, env) \<Rightarrow> (ct_result CS_OK, c, env))
         else (ct_result CS_OK, c, env)
     | RS_READY \<Rightarrow> (ct_result CS_OK, if synchronousWork then c\<lparr>ctState := RS_QUEUED\<rparr> else c, env)
     | RS_WAIT_ADMISSION \<Rightarrow>
         if now - ctDeadlineOrigin c \<ge> ADMISSION_TIMEOUT_MILLISECONDS
           then failedAttempt d now True c (ct_note c TX_ADMISSION_TIMEOUT now env)
         else (ct_result CS_OK, c, env)
     | RS_BACKOFF \<Rightarrow>
         if now - ctDeadlineOrigin c \<ge> ctDeadlineDuration c
           then (case changeState (if synchronousWork then RS_QUEUED else RS_READY) now c (ct_note c TX_BACKOFF_DUE now env)
             of (c, env) \<Rightarrow> (ct_result CS_OK, c, env))
         else (ct_result CS_OK, c, env)
     | _ \<Rightarrow> (ct_result CS_OK, c, env))"

definition ct_service :: "('s, 'e) deliveryDeps \<Rightarrow> u32 \<Rightarrow> bool \<Rightarrow> controller \<Rightarrow> ('s, 'e) nodeEnv \<Rightarrow> ('s, 'e) ctOutcome" where
  "ct_service d now synchronousWork c env =
     (if \<not> ct_usable c env then (ct_result CS_DEGRADED, c, env)
      else let c = (if ctState c = RS_RELEASED then loadHead ((clearAttempt c)\<lparr>ctActive := False\<rparr>) env else c);
               c = (if \<not> ctActive c then loadHead c env else c) in
      if \<not> ctActive c then (ct_result CS_NO_ACTIVE_EVENT, c, env)
      else case serviceLifetime (ddStorage d) now c env of (ok, c, env) \<Rightarrow>
      if \<not> ok then (ctDegradedResult c, c, env)
      else if ctState c = RS_EXPIRED then (receiveResult, c, env)
      else if ct_terminal c then (ct_result CS_OK, c, env)
      else serviceState d now synchronousWork c env)"

definition attemptEventOf :: "controller \<Rightarrow> u8 \<Rightarrow> nodeRecord \<Rightarrow> event" where
  "attemptEventOf c sequence rec = event_init\<lparr>evSource := ctSource c, evDestination := ctDestination c, evSequence := sequence,
     evFamily := nrFamily rec, evEpoch := nrEventEpoch rec, evId := nrEventId rec, evFlags := nrFlags rec,
     evLifetimeBudgetSeconds := nrLifetimeBudgetSeconds rec, evBodyLength := nrBodyLength rec,
     evBody := copyBytes (evBody event_init) 0 (nrBody rec) (unat (nrBodyLength rec))\<rparr>"

text \<open>The part of \<^verbatim>\<open>grantTransmit\<close> behind an armed attempt.\<close>

definition transmitAttempt :: "('s, 'e) deliveryDeps \<Rightarrow> u32 \<Rightarrow> controller \<Rightarrow> ('s, 'e) nodeEnv \<Rightarrow> ('s, 'e) ctOutcome" where
  "transmitAttempt d now c env = (case ddSequence d (envSources env) of (sequence, sources) \<Rightarrow>
     let env = env\<lparr>envSources := sources\<rparr> in
     case sequence of None \<Rightarrow> degrade CS_SEQUENCE_FAILURE True c env
     | Some sequence \<Rightarrow>
       let current = the (ct_record c env); c = c\<lparr>ctAttemptEvent := attemptEventOf c sequence current\<rparr> in
       case encodeEvent (ctAttemptEvent c) (Some (fillZero MAX_PACKET_SIZE)) of (ok, out, len) \<Rightarrow>
       if \<not> ok then degrade CS_ENCODE_FAILURE True c env
       else let env = observe (ctObserver c) (ob_attempt (ctSource c) (nrEventEpoch current) (nrEventId current) (nrAttemptsUsed current)) env in
         case changeState RS_TX now (c\<lparr>ctCorrelationValid := True\<rparr>) env of (c, env) \<Rightarrow>
           (\<lparr>clStatus = CS_OK, clAction = \<lparr>raType = RA_TRANSMIT, raBytes = the out, raLength = len\<rparr>\<rparr>, c, env))"

definition grantTransmit :: "('s, 'e) deliveryDeps \<Rightarrow> u32 \<Rightarrow> controller \<Rightarrow> ('s, 'e) nodeEnv \<Rightarrow> ('s, 'e) ctOutcome" where
  "grantTransmit d now c env =
     (if \<not> ct_usable c env then (ct_result CS_DEGRADED, c, env)
      else if \<not> ctActive c \<or> ctState c \<noteq> RS_READY then (ct_result CS_INVALID_STATE, c, env)
      else case serviceLifetime (ddStorage d) now (c\<lparr>ctState := RS_TX_PREPARE\<rparr>) env of (ok, c, env) \<Rightarrow>
      if \<not> ok then (ctDegradedResult c, c, env)
      else if ctState c = RS_EXPIRED then (receiveResult, c, env)
      else if \<not> headStillAuthoritative c env then degrade CS_POLICY_FAILURE True c env
      else case pl_armAttempt (ddStorage d) (ctActiveSlot c) now (ctPolicy c) env of (armed, p, env) \<Rightarrow>
      let c = c\<lparr>ctPolicy := p\<rparr> in
      if armed = AR_ARMED then transmitAttempt d now c env
      else if armed = AR_EXPIRED then (receiveResult, c\<lparr>ctState := RS_EXPIRED\<rparr>, env)
      else if armed = AR_EXHAUSTED then
        (case ct_markFailed (ddStorage d) c env of (ok, c, env) \<Rightarrow>
           if ok then (receiveResult, c, env) else degrade CS_STORAGE_FAILURE True c env)
      else degrade CS_STORAGE_FAILURE True c env)"

definition txStarted :: "('s, 'e) deliveryDeps \<Rightarrow> u32 \<Rightarrow> controller \<Rightarrow> ('s, 'e) nodeEnv \<Rightarrow> ('s, 'e) ctOutcome" where
  "txStarted d now c env =
     (if \<not> ct_usable c env \<or> ctState c \<noteq> RS_TX then (ct_result CS_INVALID_STATE, c, env)
      else case serviceLifetime (ddStorage d) now c env of (ok, c, env) \<Rightarrow>
      if \<not> ok then (ctDegradedResult c, c, env)
      else (if ctState c = RS_EXPIRED then receiveResult else ct_result CS_OK, c, env))"

definition txStartFailed :: "('s, 'e) deliveryDeps \<Rightarrow> u32 \<Rightarrow> controller \<Rightarrow> ('s, 'e) nodeEnv \<Rightarrow> ('s, 'e) ctOutcome" where
  "txStartFailed d now c env =
     (if \<not> ct_usable c env \<or> ctState c \<noteq> RS_TX then (ct_result CS_INVALID_STATE, c, env)
      else case serviceLifetime (ddStorage d) now c env of (ok, c, env) \<Rightarrow>
      if \<not> ok then (ctDegradedResult c, c, env)
      else if ctState c \<noteq> RS_EXPIRED then failedAttempt d now False c env
      else (receiveResult, c, env))"

definition txCompleted :: "('s, 'e) deliveryDeps \<Rightarrow> u32 \<Rightarrow> controller \<Rightarrow> ('s, 'e) nodeEnv \<Rightarrow> ('s, 'e) ctOutcome" where
  "txCompleted d now c env =
     (let env = observe (ctObserver c) (ob_completed now) env in
      if \<not> ct_usable c env \<or> ctState c \<noteq> RS_TX then (ct_result CS_INVALID_STATE, c, env)
      else case serviceLifetime (ddStorage d) now c env of (ok, c, env) \<Rightarrow>
      if \<not> ok then (ctDegradedResult c, c, env)
      else if ctState c \<noteq> RS_EXPIRED then
        (case changeState RS_WAIT_ADMISSION now c env of (c, env) \<Rightarrow>
           (receiveResult, c\<lparr>ctDeadlineOrigin := now, ctDeadlineDuration := ADMISSION_TIMEOUT_MILLISECONDS\<rparr>, env))
      else (receiveResult, c, env))"

text \<open>The switch of \<^verbatim>\<open>admissionCandidate\<close> on the status of a response that matches the attempt.\<close>

definition admissionDecision :: "('s, 'e) deliveryDeps \<Rightarrow> admissionStatus \<Rightarrow> u32 \<Rightarrow> controller \<Rightarrow> ('s, 'e) nodeEnv \<Rightarrow>
    ('s, 'e) ctOutcome" where
  "admissionDecision d status now c env = (case status of
       ADMITTED \<Rightarrow> (case storeCall (releaseQueued (ddStorage d) (ctActiveSlot c)) env of (m, env) \<Rightarrow>
         if m \<noteq> MUT_OK then degrade CS_STORAGE_FAILURE True c env
         else (receiveResult, clearAttempt (c\<lparr>ctState := RS_RELEASED\<rparr>),
           diagnose c (setHubUnavailable False \<circ> incrementEventDiagnostic ED_ADMISSION_ACKNOWLEDGED 1) env))
     | CAPACITY \<Rightarrow> failedAttempt d now True c env
     | AdmissionStatus_raw _ \<Rightarrow> (receiveResult, c, env)
     | _ \<Rightarrow> (case ct_markFailed (ddStorage d) c env of (ok, c, env) \<Rightarrow>
         if \<not> ok then degrade CS_STORAGE_FAILURE True c env else (receiveResult, c, env)))"

definition admissionCandidate :: "('s, 'e) deliveryDeps \<Rightarrow> bytes option \<Rightarrow> u32 \<Rightarrow> controller \<Rightarrow> ('s, 'e) nodeEnv \<Rightarrow>
    ('s, 'e) ctOutcome" where
  "admissionCandidate d input now c env =
     (if \<not> ct_usable c env \<or> ctState c \<noteq> RS_WAIT_ADMISSION then (ct_result CS_INVALID_STATE, c, env)
      else case serviceLifetime (ddStorage d) now c env of (ok, c, env) \<Rightarrow>
      if \<not> ok then (ctDegradedResult c, c, env)
      else if ctState c = RS_EXPIRED then (receiveResult, c, env)
      else case decodeAdmissionResponse input of None \<Rightarrow> (receiveResult, c, env)
      | Some response \<Rightarrow>
        let env = observe (ctObserver c) (ob_admission (admissionStatus_code (arStatus response)) now) env in
        if \<not> ctCorrelationValid c \<or> \<not> matchesEvent response (ctAttemptEvent c) then (receiveResult, c, env)
        else admissionDecision d (arStatus response) now c (ct_note c TX_ACK_MATCHED now env))"

definition reclaimTerminal :: "('s, 'e) deliveryDeps \<Rightarrow> controller \<Rightarrow> ('s, 'e) nodeEnv \<Rightarrow> ('s, 'e) ctOutcome" where
  "reclaimTerminal d c env =
     (if \<not> ct_usable c env \<or> \<not> ctActive c \<or> (ctState c \<noteq> RS_FAILED \<and> ctState c \<noteq> RS_EXPIRED)
        then (ct_result CS_INVALID_STATE, c, env)
      else case storeCall (reclaim (ddStorage d) (ctActiveSlot c)) env of (m, env) \<Rightarrow>
      if m \<noteq> MUT_OK then degrade CS_STORAGE_FAILURE True c env
      else (ct_result CS_OK, clearAttempt (c\<lparr>ctActive := False\<rparr>), env))"

definition ct_effectiveRemainingSeconds :: "controller \<Rightarrow> store \<Rightarrow> u32" where
  "ct_effectiveRemainingSeconds c st = (if ctActive c then pl_effectiveRemainingSeconds (ctActiveSlot c) (ctPolicy c) st else 0)"

definition successfulHubExchange :: "controller \<Rightarrow> ('s, 'e) nodeEnv \<Rightarrow> ('s, 'e) nodeEnv" where
  "successfulHubExchange c env = diagnose c (setHubUnavailable False) env"

subsection \<open>Reclamation of finished records\<close>

definition isTerminalRecord :: "nodeRecord option \<Rightarrow> bool" where
  "isTerminalRecord rec = (case rec of None \<Rightarrow> False | Some r \<Rightarrow> nrState r = NS_FAILED \<or> nrState r = NS_EXPIRED)"

definition hasTerminalRecords :: "store \<Rightarrow> bool" where
  "hasTerminalRecords st = list_ex (\<lambda>slot. isTerminalRecord (recordAt slot st)) [0..<NODE_EVENT_CAPACITY]"

text \<open>The loop of \<^verbatim>\<open>reclaimTerminals\<close>; without a controller the third argument is \<open>None\<close>.\<close>

fun reclaimSlots :: "('s, 'e) deliveryDeps \<Rightarrow> nat list \<Rightarrow> controller option \<Rightarrow> bool \<Rightarrow> u32 \<Rightarrow> ('s, 'e) nodeEnv \<Rightarrow>
    bool \<times> controller option \<times> ('s, 'e) nodeEnv" where
  "reclaimSlots d [] oc attached now env = (True, oc, env)"
| "reclaimSlots d (slot # slots) oc attached now env =
     (if \<not> isTerminalRecord (recordAt slot (envStore env)) then reclaimSlots d slots oc attached now env
      else case (case oc of Some c \<Rightarrow> if ctActive c \<and> ctActiveSlot c = slot
           then (case reclaimTerminal d c env of (r, c, env) \<Rightarrow> (clStatus r = CS_OK, Some c, env))
           else (case storeCall (reclaim (ddStorage d) slot) env of (m, env) \<Rightarrow> (m = MUT_OK, oc, env))
         | None \<Rightarrow> (case storeCall (reclaim (ddStorage d) slot) env of (m, env) \<Rightarrow> (m = MUT_OK, oc, env)))
        of (ok, oc, env) \<Rightarrow> if \<not> ok then (False, oc, env)
          else reclaimSlots d slots oc attached now (observe attached (ob_note TX_TERMINAL_RECLAIMED now) env))"

definition reclaimTerminals :: "('s, 'e) deliveryDeps \<Rightarrow> controller option \<Rightarrow> bool \<Rightarrow> u32 \<Rightarrow> ('s, 'e) nodeEnv \<Rightarrow>
    bool \<times> controller option \<times> ('s, 'e) nodeEnv" where
  "reclaimTerminals d oc attached now env = (if \<not> nsHealthy (envStore env) then (False, oc, env)
     else reclaimSlots d [0..<NODE_EVENT_CAPACITY] oc attached now env)"

end
