(* ===== verification/NodeDeliveryPaths.thy ===== *)
theory NodeDeliveryPaths
  imports NodeEventDelivery NodeEventRuns
begin

text \<open>
  What delivery does to the store.  Every operation of the policy and of the controller changes the store and its medium
  only along a path of store operations, and for each it is shown which operations may occur on the path.
\<close>

subsection \<open>Paths of store operations\<close>

inductive storePath :: "'s nodeStorage \<Rightarrow> (storeOp \<Rightarrow> bool) \<Rightarrow> store \<Rightarrow> 's \<Rightarrow> store \<Rightarrow> 's \<Rightarrow> bool"
  for ops A st s where
  stay: "sameCore st' st \<Longrightarrow> storePath ops A st s st' s"
| step: "storePath ops A st s st1 s1 \<Longrightarrow> A op \<Longrightarrow> applyOp ops op st1 s1 = (ok, i, st2, s2) \<Longrightarrow> sameCore st3 st2 \<Longrightarrow>
    storePath ops A st s st3 s2"

lemma sameCore_refl [simp]: "sameCore st st"
  by (simp add: sameCore_def)

lemma sameCore_trans: "sameCore a b \<Longrightarrow> sameCore b c \<Longrightarrow> sameCore a c"
  by (simp add: sameCore_def)

lemma storePath_core: "storePath ops A st s st1 s1 \<Longrightarrow> sameCore st2 st1 \<Longrightarrow> storePath ops A st s st2 s1"
  by (induction rule: storePath.induct) (blast intro: storePath.intros sameCore_trans)+

lemma storePath_mono: "storePath ops A st s st' s' \<Longrightarrow> (\<And>op. A op \<Longrightarrow> B op) \<Longrightarrow> storePath ops B st s st' s'"
  by (induction rule: storePath.induct) (blast intro: storePath.intros)+

lemma unhealthy_core: "\<not> nsHealthy st \<Longrightarrow> sameCore st' st \<Longrightarrow> \<not> nsHealthy st'"
  by (simp add: sameCore_def)

text \<open>A path between the states of two environments.\<close>

definition envPath :: "'s nodeStorage \<Rightarrow> (storeOp \<Rightarrow> bool) \<Rightarrow> ('s, 'e) nodeEnv \<Rightarrow> ('s, 'e) nodeEnv \<Rightarrow> bool" where
  "envPath ops A env env' = storePath ops A (envStore env) (envMedium env) (envStore env') (envMedium env')"

lemma envPath_refl [simp, intro]: "envPath ops A env env"
  by (simp add: envPath_def storePath.stay)

lemma envPath_mono: "envPath ops A env env' \<Longrightarrow> (\<And>op. A op \<Longrightarrow> B op) \<Longrightarrow> envPath ops B env env'"
  unfolding envPath_def by (rule storePath_mono)

lemma storePath_trans:
  assumes "storePath ops A st1 s1 st2 s2" "storePath ops A st s st1 s1"
  shows "storePath ops A st s st2 s2"
  using assms by (induction rule: storePath.induct) (blast intro: storePath_core storePath.step)+

lemma envPath_trans [trans]: "envPath ops A a b \<Longrightarrow> envPath ops A b c \<Longrightarrow> envPath ops A a c"
  unfolding envPath_def by (rule storePath_trans)

lemma envPath_step:
  assumes "A op" "snd (snd (applyOp ops op (envStore env) (envMedium env))) = (envStore env', envMedium env')"
  shows "envPath ops A env env'"
proof -
  obtain ok i where "applyOp ops op (envStore env) (envMedium env) = (ok, i, envStore env', envMedium env')"
    using assms(2) by (cases "applyOp ops op (envStore env) (envMedium env)") auto
  then show ?thesis
    unfolding envPath_def using assms(1)
    by (blast intro: storePath.intros sameCore_refl)
qed

named_theorems quiet_simps \<open>parts of an environment that a report leaves alone\<close>

lemma observe_quiet [quiet_simps]:
  "envStore (observe b f env) = envStore env" "envMedium (observe b f env) = envMedium env"
  "envSources (observe b f env) = envSources env"
  by (simp_all add: observe_def)

lemma ct_note_quiet [quiet_simps]:
  "envStore (ct_note c n now env) = envStore env" "envMedium (ct_note c n now env) = envMedium env"
  "envSources (ct_note c n now env) = envSources env"
  by (simp_all add: ct_note_def quiet_simps)

lemma fold_note_quiet [quiet_simps]:
  "envStore (fold (\<lambda>n. ct_note c n now) ns env) = envStore env" "envMedium (fold (\<lambda>n. ct_note c n now) ns env) = envMedium env"
  by (induction ns arbitrary: env) (simp_all add: quiet_simps)

lemma changeState_quiet [quiet_simps]:
  "changeState x now c env = (c', env') \<Longrightarrow> c' = c\<lparr>ctState := x\<rparr> \<and> envStore env' = envStore env \<and> envMedium env' = envMedium env"
  by (auto simp: changeState_def quiet_simps)

lemma fold_quiet:
  "(\<And>x e. envStore (f x e) = envStore e \<and> envMedium (f x e) = envMedium e) \<Longrightarrow>
   envStore (fold f xs env) = envStore env \<and> envMedium (fold f xs env) = envMedium env"
  by (induction xs arbitrary: env) simp_all

lemma noteExpired_quiet [quiet_simps]:
  "envStore (noteExpired c now st env) = envStore env" "envMedium (noteExpired c now st env) = envMedium env"
  unfolding noteExpired_def using fold_quiet[of "\<lambda>slot env. if queuedRecord slot st \<noteq> None \<and> slot \<noteq> ctActiveSlot c
         \<and> (case recordAt slot (envStore env) of None \<Rightarrow> False | Some rec \<Rightarrow> nrState rec = NS_EXPIRED)
       then ct_note c TX_EXPIRED_QUEUED now env else env" "[0..<NODE_EVENT_CAPACITY]" env]
  by (simp_all add: quiet_simps)

lemma diagnose_core: "sameCore (envStore (diagnose c f env)) (envStore env)" "envMedium (diagnose c f env) = envMedium env"
  by (simp_all add: diagnose_def sameCore_def)

lemma envPath_diagnose: "envPath ops A env env' \<Longrightarrow> envPath ops A env (diagnose c f env')"
  unfolding envPath_def using storePath_core diagnose_core by metis

lemma envPath_quiet:
  "envPath ops A env env1 \<Longrightarrow> envStore env2 = envStore env1 \<Longrightarrow> envMedium env2 = envMedium env1 \<Longrightarrow> envPath ops A env env2"
  "envStore env0 = envStore env1 \<Longrightarrow> envMedium env0 = envMedium env1 \<Longrightarrow> envPath ops A env1 env2 \<Longrightarrow> envPath ops A env0 env2"
  by (simp_all add: envPath_def)

subsection \<open>Calls of the store\<close>

lemma storeCall_path:
  "storeCall (markExpired ops k) env = (m, env') \<Longrightarrow> A (OpMarkExpired k) \<Longrightarrow> envPath ops A env env'"
  "storeCall (markFailed ops k) env = (m, env') \<Longrightarrow> A (OpMarkFailed k) \<Longrightarrow> envPath ops A env env'"
  "storeCall (reclaim ops k) env = (m, env') \<Longrightarrow> A (OpReclaim k) \<Longrightarrow> envPath ops A env env'"
  "storeCall (releaseQueued ops k) env = (m, env') \<Longrightarrow> A (OpReleaseQueued k) \<Longrightarrow> envPath ops A env env'"
  "storeCall (checkpointRemaining ops k t) env = (m, env') \<Longrightarrow> A (OpCheckpointRemaining k t) \<Longrightarrow> envPath ops A env env'"
  "storeCall (armAttempt ops k) env = (a, env') \<Longrightarrow> A (OpArmAttempt k) \<Longrightarrow> envPath ops A env env'"
  by ((rule envPath_step, assumption), auto simp: storeCall_def split: prod.splits)+

text \<open>The operations of the lifetime policy.\<close>

fun lifetimeOp :: "storeOp \<Rightarrow> bool" where
  "lifetimeOp (OpMarkExpired k) = True"
| "lifetimeOp (OpCheckpointRemaining k t) = True"
| "lifetimeOp _ = False"

lemma debitSlots_path: "debitSlots ops b now slots env = (ok, env') \<Longrightarrow> envPath ops lifetimeOp env env'"
proof (induction slots arbitrary: env)
  case (Cons slot slots)
  show ?case
  proof (cases "queuedRecord slot (envStore env)")
    case None
    with Cons show ?thesis by simp
  next
    case (Some rec)
    define f where "f = (if nrRemainingActiveSeconds rec \<le> CHECKPOINT_SECONDS then markExpired ops slot
      else checkpointRemaining ops slot (nrRemainingActiveSeconds rec - CHECKPOINT_SECONDS))"
    obtain m env1 where call: "storeCall f env = (m, env1)" by fastforce
    have one: "envPath ops lifetimeOp env env1"
      using call unfolding f_def by (auto split: if_splits intro: storeCall_path)
    show ?thesis
    proof (cases "m = MUT_OK")
      case True
      define env2 where "env2 = (if nrState (the (recordAt slot (envStore env1))) = NS_EXPIRED
        then observe b (ob_note TX_EXPIRED_QUEUED now) env1 else env1)"
      have "envPath ops lifetimeOp env2 env'"
        using Cons Some call True by (auto simp: f_def env2_def)
      moreover have "envPath ops lifetimeOp env env2"
        using one by (rule envPath_quiet(1)) (simp_all add: env2_def quiet_simps)
      ultimately show ?thesis by (blast intro: envPath_trans)
    next
      case False
      with Cons.prems Some call one show ?thesis by (auto simp: f_def)
    qed
  qed
qed simp

lemma lifetimeLoop_path: "lifetimeLoop ops slot rt env = (st, rt', env') \<Longrightarrow> envPath ops lifetimeOp env env'"
proof (induction ops slot rt env rule: lifetimeLoop.induct)
  case (1 ops slot rt env)
  show ?case
  proof (cases "queuedRecord slot (envStore env)")
    case None
    with 1(2) show ?thesis by (subst (asm) lifetimeLoop.simps) simp
  next
    case (Some rec)
    let ?charge = "nrRemainingActiveSeconds rec > CHECKPOINT_SECONDS \<and> rtUncommittedMilliseconds rt \<ge> CHECKPOINT_MILLISECONDS"
    obtain m env1 where cp: "storeCall (checkpointRemaining ops slot (nrRemainingActiveSeconds rec - CHECKPOINT_SECONDS)) env = (m, env1)"
      by fastforce
    obtain m2 env2 where ex: "storeCall (markExpired ops slot) env = (m2, env2)" by fastforce
    note paths = storeCall_path(5)[OF cp, of lifetimeOp] storeCall_path(1)[OF ex, of lifetimeOp]
    show ?thesis
    proof (cases "?charge \<and> m = MUT_OK")
      case True
      have "lifetimeLoop ops slot (rt\<lparr>rtUncommittedMilliseconds := rtUncommittedMilliseconds rt - CHECKPOINT_MILLISECONDS\<rparr>) env1
        = (st, rt', env')"
        using 1(2) Some cp True by (subst (asm) lifetimeLoop.simps) simp
      from 1(1)[OF Some _ cp[symmetric] _ this] True paths show ?thesis by (auto intro: envPath_trans)
    next
      case False
      with 1(2) Some cp ex paths show ?thesis by (subst (asm) lifetimeLoop.simps) (auto split: if_splits)
    qed
  qed
qed

lemma serviceSlots_path: "serviceSlots ops now slots p env = (st, p', env') \<Longrightarrow> envPath ops lifetimeOp env env'"
proof (induction slots arbitrary: p env)
  case (Cons slot slots)
  obtain st1 rt env1 where one: "serviceSlot ops now slot (plRuntime p ! slot) env = (st1, rt, env1)" by (metis prod_cases3)
  then have "envPath ops lifetimeOp env env1"
    by (auto simp: serviceSlot_def split: if_splits intro: lifetimeLoop_path)
  with Cons one show ?case by (auto split: if_splits intro: envPath_trans)
qed simp

lemma pl_service_path: "pl_service ops now p env = (st, p', env') \<Longrightarrow> envPath ops lifetimeOp env env'"
proof -
  assume run: "pl_service ops now p env = (st, p', env')"
  let ?env = "observe (plObserver p) (ob_clock now) env"
  from run have "envPath ops lifetimeOp ?env env'"
    by (auto simp: pl_service_def split: if_splits intro: serviceSlots_path)
  then show ?thesis by (rule envPath_quiet(2)[rotated 2]) (simp_all add: quiet_simps)
qed

lemma pl_recover_path: "pl_recover ops b now p env = (st, p', env') \<Longrightarrow> envPath ops lifetimeOp env env'"
proof -
  assume run: "pl_recover ops b now p env = (st, p', env')"
  let ?env = "observe b (ob_clock now) env"
  from run have "envPath ops lifetimeOp ?env env'"
    by (auto simp: pl_recover_def split: if_splits prod.splits intro: debitSlots_path)
  then show ?thesis by (rule envPath_quiet(2)[rotated 2]) (simp_all add: quiet_simps)
qed

lemma pl_armAttempt_path:
  "pl_armAttempt ops slot now p env = (a, p', env') \<Longrightarrow> envPath ops (\<lambda>op. lifetimeOp op \<or> op = OpArmAttempt slot) env env'"
proof -
  assume run: "pl_armAttempt ops slot now p env = (a, p', env')"
  obtain st p1 env1 where sv: "pl_service ops now p env = (st, p1, env1)" by (metis prod_cases3)
  obtain x env2 where arm: "storeCall (armAttempt ops slot) env1 = (x, env2)" by fastforce
  let ?A = "\<lambda>op. lifetimeOp op \<or> op = OpArmAttempt slot"
  have "envPath ops ?A env env1" using pl_service_path[OF sv] by (rule envPath_mono) simp
  moreover have "envPath ops ?A env1 env2" using arm by (rule storeCall_path(6)) simp
  moreover have "env' \<in> {env, env1, env2}"
    using run sv arm by (auto simp: pl_armAttempt_def split: if_splits option.splits attemptStatus.splits)
  ultimately show ?thesis by (auto intro: envPath_trans)
qed

subsection \<open>Steps of the controller\<close>

text \<open>The operations that keep an Event in custody: its record stays, counted or finished.\<close>

fun gentleOp :: "storeOp \<Rightarrow> bool" where
  "gentleOp (OpMarkFailed k) = True"
| "gentleOp (OpMarkExpired k) = True"
| "gentleOp (OpCheckpointRemaining k t) = True"
| "gentleOp (OpArmAttempt k) = True"
| "gentleOp _ = False"

lemma lifetime_gentle: "lifetimeOp op \<Longrightarrow> gentleOp op"
  by (cases op) auto

lemmas gentle_paths = envPath_mono[OF pl_service_path, of _ _ _ _ _ _ _ gentleOp, OF _ lifetime_gentle]
  envPath_mono[OF pl_recover_path, of _ _ _ _ _ _ _ _ gentleOp, OF _ lifetime_gentle]

lemma pl_armAttempt_gentle: "pl_armAttempt ops slot now p env = (a, p', env') \<Longrightarrow> envPath ops gentleOp env env'"
  by (rule envPath_mono[OF pl_armAttempt_path]) (auto intro: lifetime_gentle)

text \<open>How a step treats the attempt that awaits its answer: it is kept with its event, or forgotten.  A
  degraded controller is not usable any more.\<close>

definition attemptKept :: "controller \<Rightarrow> controller \<Rightarrow> bool" where
  "attemptKept c c' \<longleftrightarrow> ctDegraded c' \<or> \<not> ctCorrelationValid c'
     \<or> ctCorrelationValid c \<and> ctAttemptEvent c' = ctAttemptEvent c \<and> ctActive c' = ctActive c
        \<and> ctActiveSlot c' = ctActiveSlot c \<and> ctSource c' = ctSource c \<and> ctDestination c' = ctDestination c"

lemma attemptKept_refl [simp]: "attemptKept c c"
  by (auto simp: attemptKept_def)

lemma attemptKept_update [simp]:
  "attemptKept c (c'\<lparr>ctPolicy := p\<rparr>) = attemptKept c c'" "attemptKept (c\<lparr>ctPolicy := p\<rparr>) c' = attemptKept c c'"
  "attemptKept c (c'\<lparr>ctState := x\<rparr>) = attemptKept c c'" "attemptKept (c\<lparr>ctState := x\<rparr>) c' = attemptKept c c'"
  "attemptKept c (c'\<lparr>ctDeadlineOrigin := o1\<rparr>) = attemptKept c c'" "attemptKept c (c'\<lparr>ctDeadlineDuration := o2\<rparr>) = attemptKept c c'"
  by (auto simp: attemptKept_def)

lemma attemptKept_clear [simp]: "attemptKept c (clearAttempt c')"
  by (simp add: attemptKept_def clearAttempt_def)

lemma attemptKept_degrade: "attemptKept c c1 \<Longrightarrow> degrade x b c1 env = (r, c', env') \<Longrightarrow> attemptKept c c' \<and> env' = env"
  by (auto simp: degrade_def attemptKept_def)

lemma attemptKept_trans:
  assumes "attemptKept a b" "attemptKept b c" "ctDegraded b \<Longrightarrow> ctDegraded c"
  shows "attemptKept a c"
  using assms by (auto simp: attemptKept_def)

text \<open>A step that keeps every Event in custody and the attempt as above.\<close>

definition gentleStep :: "'s nodeStorage \<Rightarrow> controller \<Rightarrow> ('s, 'e) nodeEnv \<Rightarrow> controller \<Rightarrow> ('s, 'e) nodeEnv \<Rightarrow> bool" where
  "gentleStep ops c env c' env' \<longleftrightarrow> envPath ops gentleOp env env' \<and> attemptKept c c' \<and> (ctDegraded c \<longrightarrow> ctDegraded c')"

lemma gentleStep_trans:
  "gentleStep ops c env c1 env1 \<Longrightarrow> gentleStep ops c1 env1 c2 env2 \<Longrightarrow> gentleStep ops c env c2 env2"
  unfolding gentleStep_def using attemptKept_trans envPath_trans by metis

lemma gentleStep_same:
  "envStore env' = envStore env \<Longrightarrow> envMedium env' = envMedium env \<Longrightarrow> attemptKept c c' \<Longrightarrow> ctDegraded c' = ctDegraded c \<Longrightarrow>
   gentleStep ops c env c' env'"
  by (auto simp: gentleStep_def intro: envPath_quiet(1))

lemma gentleStep_degrade:
  assumes "gentleStep ops c env c1 env1" "degrade x b c1 env1 = (r, c', env')"
  shows "gentleStep ops c env c' env'"
  using assms attemptKept_degrade[of c c1 x b env1 r c' env'] by (auto simp: gentleStep_def degrade_def)

lemma serviceLifetime_path: "serviceLifetime ops now c env = (ok, c', env') \<Longrightarrow> envPath ops lifetimeOp env env'"
  by (auto simp: serviceLifetime_def degrade_def split: prod.splits if_splits option.splits dest!: pl_service_path changeState_quiet
      intro: envPath_quiet(1) simp: quiet_simps)

lemma serviceLifetime_step:
  assumes "serviceLifetime ops now c env = (ok, c', env')"
  shows "gentleStep ops c env c' env'" and "ctActive c' = ctActive c" "ctActiveSlot c' = ctActiveSlot c"
    and "ok \<Longrightarrow> ctState c' \<noteq> RS_EXPIRED \<Longrightarrow> c' = c\<lparr>ctPolicy := ctPolicy c'\<rparr>" "ok \<Longrightarrow> ctDegraded c' = ctDegraded c"
proof -
  obtain st p env1 where sv: "pl_service ops now (ctPolicy c) env = (st, p, env1)" by (metis prod_cases3)
  define c1 where "c1 = c\<lparr>ctPolicy := p\<rparr>"
  define env2 where "env2 = noteExpired c1 now (envStore env) env1"
  have path: "envPath ops gentleOp env env1" using gentle_paths(1) sv by blast
  have quiet: "envStore env2 = envStore env1" "envMedium env2 = envMedium env1" by (simp_all add: env2_def quiet_simps)
  obtain c2 env3 where cs: "changeState RS_EXPIRED now c1 env2 = (c2, env3)" by fastforce
  note cq = changeState_quiet[OF cs]
  consider (fail) "\<not> ok" "c' = c1\<lparr>ctDegraded := True, ctDegradedResult := degradedWith CS_POLICY_FAILURE True\<rparr>" "env' = env1"
    | (same) "ok" "c' = c1" "env' = env2" | (expired) "ok" "c' = clearAttempt c2" "env' = env3"
    using assms sv cs by (auto simp: serviceLifetime_def degrade_def c1_def env2_def split: if_splits option.splits)
  then have "gentleStep ops c env c' env' \<and> ctActive c' = ctActive c \<and> ctActiveSlot c' = ctActiveSlot c
    \<and> (ok \<longrightarrow> ctState c' \<noteq> RS_EXPIRED \<longrightarrow> c' = c\<lparr>ctPolicy := ctPolicy c'\<rparr>) \<and> (ok \<longrightarrow> ctDegraded c' = ctDegraded c)"
  proof cases
    case fail
    with path show ?thesis by (simp add: gentleStep_def c1_def attemptKept_def)
  next
    case same
    with envPath_quiet(1)[OF path quiet] show ?thesis by (simp add: gentleStep_def c1_def)
  next
    case expired
    have "envPath ops gentleOp env env3" using path by (rule envPath_quiet(1)) (simp_all add: cq quiet)
    with expired cq show ?thesis by (simp add: gentleStep_def c1_def clearAttempt_def attemptKept_def)
  qed
  then show "gentleStep ops c env c' env'" "ctActive c' = ctActive c" "ctActiveSlot c' = ctActiveSlot c"
    "ok \<Longrightarrow> ctState c' \<noteq> RS_EXPIRED \<Longrightarrow> c' = c\<lparr>ctPolicy := ctPolicy c'\<rparr>" "ok \<Longrightarrow> ctDegraded c' = ctDegraded c" by blast+
qed

lemma ct_markFailed_step:
  assumes "ct_markFailed ops c env = (ok, c', env')"
  shows "gentleStep ops c env c' env'"
proof -
  obtain m env1 where call: "storeCall (markFailed ops (ctActiveSlot c)) env = (m, env1)" by fastforce
  then have "envPath ops gentleOp env env1" by (rule storeCall_path(2)) simp
  moreover have "env' = env1" "c' = c \<or> c' = clearAttempt (c\<lparr>ctState := RS_FAILED\<rparr>)"
    using assms call by (auto simp: ct_markFailed_def split: if_splits)
  ultimately show ?thesis by (auto simp: gentleStep_def clearAttempt_def attemptKept_def)
qed

lemma ct_markFailed_degrade_step:
  assumes "(case ct_markFailed ops c env of (ok, c1, env1) \<Rightarrow> if \<not> ok then degrade x b c1 env1 else (res, c1, env1)) = (r, c', env')"
  shows "gentleStep ops c env c' env'"
proof -
  obtain ok c1 env1 where mf: "ct_markFailed ops c env = (ok, c1, env1)" by (metis prod_cases3)
  from ct_markFailed_step[OF mf] assms mf show ?thesis by (auto split: if_splits intro: gentleStep_degrade)
qed

lemma failedAttempt_step:
  assumes "failedAttempt d now b c env = (r, c', env')"
  shows "gentleStep (ddStorage d) c env c' env'"
proof -
  define env1 where "env1 = (if b then diagnose c (setHubUnavailable True) env else env)"
  have start: "gentleStep (ddStorage d) c env c env1"
    by (auto simp: gentleStep_def env1_def intro: envPath_diagnose)
  show ?thesis
  proof (cases "case ct_record c env1 of None \<Rightarrow> True | Some rec \<Rightarrow> nrAttemptsUsed rec \<ge> MAX_ATTEMPTS")
    case True
    with assms have "gentleStep (ddStorage d) c env1 c' env'"
      by (intro ct_markFailed_degrade_step) (simp add: failedAttempt_def env1_def)
    with start show ?thesis by (rule gentleStep_trans)
  next
    case False
    obtain j e where j: "ddJitter d (envSources env1) = (j, e)" by fastforce
    define env2 where "env2 = env1\<lparr>envSources := e\<rparr>"
    define c1 where "c1 = c\<lparr>ctDeadlineOrigin := now,
      ctDeadlineDuration := backoffBase ! unat (nrAttemptsUsed (the (ct_record c env2)) - 1) + ucast j\<rparr>"
    have mid: "gentleStep (ddStorage d) c env c env2" "gentleStep (ddStorage d) c env c1 env2"
      using start by (auto simp: gentleStep_def env2_def c1_def attemptKept_def intro: envPath_quiet(1))
    obtain c2 env3 where cs: "changeState RS_BACKOFF now c1 env2 = (c2, env3)" by fastforce
    have "gentleStep (ddStorage d) c1 env2 c2 env3"
      using changeState_quiet[OF cs] by (intro gentleStep_same) auto
    note last = gentleStep_trans[OF mid(2) this]
    show ?thesis
    proof (cases "j > MAX_BACKOFF_JITTER_MILLISECONDS")
      case True
      with False assms j have "degrade CS_INVALID_CONFIGURATION True c env2 = (r, c', env')"
        by (auto simp: failedAttempt_def env1_def env2_def)
      with mid(1) show ?thesis by (rule gentleStep_degrade)
    next
      case bounded: False
      with False assms j cs have "c' = c2" "env' = env3"
        by (auto simp: failedAttempt_def env1_def env2_def c1_def)
      with last show ?thesis by simp
    qed
  qed
qed

lemma gentleStep_refl [simp]: "gentleStep ops c env c env"
  by (simp add: gentleStep_def)

lemma changeState_step:
  "changeState x now c env = (c', env') \<Longrightarrow> gentleStep ops c env c' env'"
  using changeState_quiet[of x now c env c' env'] by (intro gentleStep_same) auto

lemma serviceState_step:
  assumes "serviceState d now b c env = (r, c', env')"
  shows "gentleStep (ddStorage d) c env c' env'"
proof -
  have note_step: "gentleStep (ddStorage d) c env c (ct_note c n now env)" for n
    by (rule gentleStep_same) (simp_all add: quiet_simps)
  show ?thesis
  proof (cases "ctState c")
    case RS_QUEUED
    show ?thesis
    proof (cases "nrAttemptsUsed (the (ct_record c env)) \<ge> MAX_ATTEMPTS")
      case True
      with RS_QUEUED assms show ?thesis by (intro ct_markFailed_degrade_step) (simp add: serviceState_def)
    next
      case False
      with RS_QUEUED assms show ?thesis
        by (auto simp: serviceState_def split: if_splits prod.splits intro: changeState_step)
    qed
  next
    case RS_WAIT_ADMISSION
    show ?thesis
    proof (cases "now - ctDeadlineOrigin c \<ge> ADMISSION_TIMEOUT_MILLISECONDS")
      case True
      with RS_WAIT_ADMISSION assms have "failedAttempt d now True c (ct_note c TX_ADMISSION_TIMEOUT now env) = (r, c', env')"
        by (simp add: serviceState_def)
      from gentleStep_trans[OF note_step failedAttempt_step[OF this]] show ?thesis .
    qed (use RS_WAIT_ADMISSION assms in \<open>simp add: serviceState_def\<close>)
  next
    case RS_BACKOFF
    show ?thesis
    proof (cases "now - ctDeadlineOrigin c \<ge> ctDeadlineDuration c")
      case True
      with RS_BACKOFF assms have
        "changeState (if b then RS_QUEUED else RS_READY) now c (ct_note c TX_BACKOFF_DUE now env) = (c', env')"
        by (auto simp: serviceState_def split: prod.splits)
      from gentleStep_trans[OF note_step changeState_step[OF this]] show ?thesis .
    qed (use RS_BACKOFF assms in \<open>simp add: serviceState_def\<close>)
  next
    case RS_READY
    with assms show ?thesis by (auto simp: serviceState_def gentleStep_def)
  qed (use assms in \<open>simp_all add: serviceState_def\<close>)
qed

text \<open>The steps that begin with the lifetime service and may end there.\<close>

lemma after_lifetime_step:
  assumes "serviceLifetime (ddStorage d) now c env = (ok, c1, env1)"
    and "ok \<Longrightarrow> ctState c1 \<noteq> RS_EXPIRED \<Longrightarrow> gentleStep (ddStorage d) c1 env1 c' env'"
    and "\<not> ok \<or> ctState c1 = RS_EXPIRED \<Longrightarrow> c' = c1 \<and> env' = env1"
  shows "gentleStep (ddStorage d) c env c' env'"
  using serviceLifetime_step(1)[OF assms(1)] assms(2,3) gentleStep_trans by (cases "ok \<and> ctState c1 \<noteq> RS_EXPIRED") auto

lemma loadHead_step:
  assumes "ctCorrelationValid c \<Longrightarrow> ctActive c" "\<not> ctActive c"
  shows "gentleStep ops c env (loadHead c env) env"
  using assms by (intro gentleStep_same) (auto simp: loadHead_def attemptKept_def split: option.splits)

lemma ct_service_step:
  assumes "ct_service d now b c env = (r, c', env')" "ct_usable c env \<Longrightarrow> ctCorrelationValid c \<Longrightarrow> ctActive c"
  shows "gentleStep (ddStorage d) c env c' env'"
proof (cases "ct_usable c env")
  case True
  define c1 where "c1 = (if ctState c = RS_RELEASED then loadHead ((clearAttempt c)\<lparr>ctActive := False\<rparr>) env else c)"
  define c2 where "c2 = (if \<not> ctActive c1 then loadHead c1 env else c1)"
  have one: "gentleStep (ddStorage d) c env c1 env" "ctCorrelationValid c1 \<Longrightarrow> ctActive c1"
    using assms(2) True by (auto simp: c1_def loadHead_def clearAttempt_def attemptKept_def split: option.splits intro!: gentleStep_same)
  have two: "gentleStep (ddStorage d) c1 env c2 env"
    using loadHead_step[of c1 "ddStorage d" env] one(2) by (auto simp: c2_def)
  note start = gentleStep_trans[OF one(1) two]
  show ?thesis
  proof (cases "ctActive c2")
    case False
    with True assms(1) start show ?thesis by (auto simp: ct_service_def c1_def[symmetric] c2_def[symmetric])
  next
    case active: True
    obtain ok c3 env3 where life: "serviceLifetime (ddStorage d) now c2 env = (ok, c3, env3)" by (metis prod_cases3)
    have rest: "(if \<not> ok then (ctDegradedResult c3, c3, env3) else if ctState c3 = RS_EXPIRED then (receiveResult, c3, env3)
      else if ct_terminal c3 then (ct_result CS_OK, c3, env3) else serviceState d now b c3 env3) = (r, c', env')"
      using True active assms(1) life by (simp add: ct_service_def c1_def[symmetric] c2_def[symmetric])
    have "gentleStep (ddStorage d) c2 env c' env'"
      using rest by (intro after_lifetime_step[OF life]) (auto split: if_splits intro: serviceState_step)
    with start show ?thesis by (rule gentleStep_trans)
  qed
qed (use assms in \<open>simp add: ct_service_def\<close>)

lemma tx_steps:
  "txStarted d now c env = (r, c', env') \<Longrightarrow> gentleStep (ddStorage d) c env c' env'"
  "txStartFailed d now c env = (r, c', env') \<Longrightarrow> gentleStep (ddStorage d) c env c' env'"
  "txCompleted d now c env = (r, c', env') \<Longrightarrow> gentleStep (ddStorage d) c env c' env'"
proof -
  obtain ok c1 env1 where life: "serviceLifetime (ddStorage d) now c env = (ok, c1, env1)" by (metis prod_cases3)
  show "gentleStep (ddStorage d) c env c' env'" if "txStarted d now c env = (r, c', env')"
    using that life serviceLifetime_step(1)[OF life] by (auto simp: txStarted_def split: if_splits)
  show "gentleStep (ddStorage d) c env c' env'" if "txStartFailed d now c env = (r, c', env')"
  proof (cases "\<not> ct_usable c env \<or> ctState c \<noteq> RS_TX")
    case False
    with that life show ?thesis
      by (intro after_lifetime_step[OF life]) (auto simp: txStartFailed_def split: if_splits intro: failedAttempt_step)
  qed (use that in \<open>simp add: txStartFailed_def\<close>)
  show "gentleStep (ddStorage d) c env c' env'" if run: "txCompleted d now c env = (r, c', env')"
  proof -
    let ?env = "observe (ctObserver c) (ob_completed now) env"
    have quiet: "gentleStep (ddStorage d) c env c ?env" by (rule gentleStep_same) (simp_all add: quiet_simps)
    show ?thesis
    proof (cases "\<not> ct_usable c ?env \<or> ctState c \<noteq> RS_TX")
      case True
      with run quiet show ?thesis by (auto simp: txCompleted_def)
    next
      case False
      obtain ok c1 env1 where life: "serviceLifetime (ddStorage d) now c ?env = (ok, c1, env1)" by (metis prod_cases3)
      have "gentleStep (ddStorage d) c ?env c' env'"
      proof (rule after_lifetime_step[OF life])
        assume "ok" "ctState c1 \<noteq> RS_EXPIRED"
        with False run life obtain c2 where "changeState RS_WAIT_ADMISSION now c1 env1 = (c2, env')"
          "c' = c2\<lparr>ctDeadlineOrigin := now, ctDeadlineDuration := ADMISSION_TIMEOUT_MILLISECONDS\<rparr>"
          by (auto simp: txCompleted_def split: prod.splits)
        with changeState_step[of RS_WAIT_ADMISSION now c1 env1 c2 env' "ddStorage d"]
        show "gentleStep (ddStorage d) c1 env1 c' env'" by (simp add: gentleStep_def)
      qed (use False run life in \<open>auto simp: txCompleted_def split: if_splits\<close>)
      with quiet show ?thesis by (rule gentleStep_trans)
    qed
  qed
qed

lemma ct_trackEnqueued_step:
  "ct_trackEnqueued slot now c env = (r, c', env') \<Longrightarrow> gentleStep ops c env c' env'"
  by (auto simp: ct_trackEnqueued_def pl_trackEnqueued_def degrade_def attemptKept_def quiet_simps gentleStep_def
      split: if_splits intro: envPath_quiet(1))

end
