(* ===== verification/NodeDeliveryCustody.thy ===== *)
theory NodeDeliveryCustody
  imports NodeDeliveryPaths
begin

text \<open>
  Custody through delivery.  What a step may do to a durable record, and the invariant that ties the attempt that
  awaits its answer to the record it was made from.
\<close>

subsection \<open>What happens to a durable record\<close>

definition eventContent :: "nodeRecord \<Rightarrow> u8 \<times> u8 \<times> u32 \<times> u32 \<times> u32 \<times> u8 \<times> bytes" where
  "eventContent r = (nrFamily r, nrFlags r, nrEventEpoch r, nrEventId r, nrLifetimeBudgetSeconds r, nrBodyLength r, nrBody r)"

text \<open>The Event stays, its attempts only grow, its time only shrinks, and it may have been finished as failed or expired.\<close>

definition recordKept :: "nodeRecord \<Rightarrow> nodeRecord \<Rightarrow> bool" where
  "recordKept r r' \<longleftrightarrow> eventContent r' = eventContent r \<and> nrAttemptsUsed r \<le> nrAttemptsUsed r'
     \<and> nrRemainingActiveSeconds r' \<le> nrRemainingActiveSeconds r
     \<and> (nrState r' = nrState r \<or> nrState r = NS_QUEUED \<and> (nrState r' = NS_FAILED \<or> nrState r' = NS_EXPIRED))"

lemma recordKept_refl [simp]: "recordKept r r"
  by (simp add: recordKept_def)

lemma recordKept_trans: "recordKept a b \<Longrightarrow> recordKept b c \<Longrightarrow> recordKept a c"
  by (auto simp: recordKept_def)

lemma recordKept_occupied: "recordKept r r' \<Longrightarrow> nrState r \<noteq> NS_FREE \<Longrightarrow> nrState r' \<noteq> NS_FREE"
  by (auto simp: recordKept_def)

lemma attemptEventOf_kept: "recordKept r r' \<Longrightarrow> attemptEventOf c q r' = attemptEventOf c q r"
  by (simp add: recordKept_def eventContent_def attemptEventOf_def)

lemma intended_gentle:
  assumes "intended op st j = Some (k, rec)" "gentleOp op"
  shows "recordKept (slotRecord st k) rec"
proof -
  have "a < 5 \<Longrightarrow> a \<le> a + 1" for a :: u8
    by (simp add: word_le_nat_alt word_less_nat_alt unat_word_ariths)
  then show ?thesis
    using assms by (cases op) (auto simp: recordKept_def eventContent_def split: if_splits)
qed

lemma intended_slot: "intended op st j = Some (k, rec) \<Longrightarrow> k < 8"
  using find_Some_nth [of "\<lambda>slot. nrState (slotRecord st slot) = NS_FREE" "[0..<8]"]
  by (cases op) (auto simp: firstFreeSlot_def split: if_splits)

definition nodeInv :: "u8 \<Rightarrow> (unit \<Rightarrow> copySlot \<Rightarrow> bytes option) \<Rightarrow> (nat \<Rightarrow> copySlot \<Rightarrow> bytes option) \<Rightarrow> store \<Rightarrow> bool" where
  "nodeInv device m r st \<longleftrightarrow> custody device m r \<and> (nsHealthy st \<longrightarrow> storeInv device m r st)"

lemma nodeInv_core: "sameCore st' st \<Longrightarrow> nodeInv device m r st' = nodeInv device m r st"
  using storeInv_cong[of st' st device m r] by (simp add: nodeInv_def sameCore_def)

lemma nodeInv_recordAt:
  "nodeInv device m r st \<Longrightarrow> nsHealthy st \<Longrightarrow> k < 8 \<Longrightarrow> recordAt k st = durableView r k \<and> durableView r k = Some (slotRecord st k)"
  using storeInv_recordAt[of device m r st k] by (simp add: nodeInv_def)

lemma rel_option_transp:
  "rel_option P a b \<Longrightarrow> rel_option P b c \<Longrightarrow> (\<And>x y z. P x y \<Longrightarrow> P y z \<Longrightarrow> P x z) \<Longrightarrow> rel_option P a c"
  by (cases a; cases b; cases c) auto

text \<open>The attempt that awaits its answer was made from the Event in the active slot, which is still there.\<close>

definition attemptInv :: "controller \<Rightarrow> store \<Rightarrow> bool" where
  "attemptInv c st \<longleftrightarrow> (\<not> ctDegraded c \<and> ctCorrelationValid c \<longrightarrow> ctActive c \<and> ctActiveSlot c < 8
     \<and> nrState (slotRecord st (ctActiveSlot c)) \<noteq> NS_FREE
     \<and> (\<exists>q. ctAttemptEvent c = attemptEventOf c q (slotRecord st (ctActiveSlot c))))"

definition deliveryInv :: "u8 \<Rightarrow> (unit \<Rightarrow> copySlot \<Rightarrow> bytes option) \<Rightarrow> (nat \<Rightarrow> copySlot \<Rightarrow> bytes option) \<Rightarrow> controller \<Rightarrow> store \<Rightarrow> bool" where
  "deliveryInv device m r c st \<longleftrightarrow> nodeInv device m r st \<and> (nsHealthy st \<longrightarrow> attemptInv c st)"

lemma deliveryInv_idle: "nodeInv device m r st \<Longrightarrow> \<not> ctCorrelationValid c \<or> ctDegraded c \<Longrightarrow> deliveryInv device m r c st"
  by (auto simp: deliveryInv_def attemptInv_def)

lemma attemptInv_kept:
  assumes "attemptInv c st" "attemptKept c c'" "ctDegraded c \<Longrightarrow> ctDegraded c' \<or> \<not> ctCorrelationValid c'"
    and "\<lbrakk>ctActive c; ctActiveSlot c < 8; nrState (slotRecord st (ctActiveSlot c)) \<noteq> NS_FREE\<rbrakk> \<Longrightarrow>
      recordKept (slotRecord st (ctActiveSlot c)) (slotRecord st' (ctActiveSlot c))"
  shows "attemptInv c' st'"
  unfolding attemptInv_def
proof (intro impI)
  assume valid: "\<not> ctDegraded c' \<and> ctCorrelationValid c'"
  with assms(2,3) have same: "\<not> ctDegraded c" "ctCorrelationValid c" "ctAttemptEvent c' = ctAttemptEvent c" "ctActive c' = ctActive c"
    "ctActiveSlot c' = ctActiveSlot c" "ctSource c' = ctSource c" "ctDestination c' = ctDestination c"
    by (auto simp: attemptKept_def)
  with assms(1) obtain q where c: "ctActive c" "ctActiveSlot c < 8" "nrState (slotRecord st (ctActiveSlot c)) \<noteq> NS_FREE"
    "ctAttemptEvent c = attemptEventOf c q (slotRecord st (ctActiveSlot c))" by (auto simp: attemptInv_def)
  note kept = assms(4)[OF c(1-3)]
  have "attemptEventOf c' q r = attemptEventOf c q r" for r by (simp add: attemptEventOf_def same)
  then show "ctActive c' \<and> ctActiveSlot c' < 8 \<and> nrState (slotRecord st' (ctActiveSlot c')) \<noteq> NS_FREE
     \<and> (\<exists>q. ctAttemptEvent c' = attemptEventOf c' q (slotRecord st' (ctActiveSlot c')))"
    using c same recordKept_occupied[OF kept c(3)] attemptEventOf_kept[OF kept, of c q] by (auto intro!: exI[of _ q])
qed

context node_storage
begin

lemma op_view:
  assumes "applyOp ops op st s = (ok, i, st', s')" "nodeInv device (mcell s) (rcell s) st"
  shows "nodeInv device (mcell s') (rcell s') st'" "nsHealthy st' \<Longrightarrow> nsHealthy st"
    and "\<exists>j. durableView (rcell s') = durableView (rcell s)
      \<or> (\<exists>k rec. intended op st j = Some (k, rec) \<and> durableView (rcell s) k = Some (slotRecord st k)
          \<and> durableView (rcell s') = (durableView (rcell s))(k \<mapsto> rec))"
proof -
  consider "\<not> nsHealthy st" "st' = st" "s' = s"
    | "nsHealthy st" "storeInv device (mcell s) (rcell s) st"
    using applyOp_unhealthy[OF assms(1)] assms(2) by (auto simp: nodeInv_def)
  then have "nodeInv device (mcell s') (rcell s') st' \<and> (nsHealthy st' \<longrightarrow> nsHealthy st)
    \<and> (\<exists>j. durableView (rcell s') = durableView (rcell s)
      \<or> (\<exists>k rec. intended op st j = Some (k, rec) \<and> durableView (rcell s) k = Some (slotRecord st k)
          \<and> durableView (rcell s') = (durableView (rcell s))(k \<mapsto> rec)))"
  proof cases
    case 1
    with assms(2) show ?thesis by simp
  next
    case 2
    obtain j where j: "opOutcome device (mcell s') (rcell s) (rcell s') (intended op st j) ok st'"
      using applyOp_outcome[OF assms(1) 2(2,1)] by blast
    have "durableView (rcell s) k = Some (slotRecord st k)" if "k < 8" for k
      using storeInv_recordAt[OF 2(2) that] by simp
    then have "durableView (rcell s') = durableView (rcell s)
      \<or> (\<exists>k rec. intended op st j = Some (k, rec) \<and> durableView (rcell s) k = Some (slotRecord st k)
          \<and> durableView (rcell s') = (durableView (rcell s))(k \<mapsto> rec))"
      using j intended_slot[of op st j]
      by (auto simp: opOutcome_def commitOutcome_def split: option.splits if_splits)
    with opOutcome_inv[OF j] 2(1) show ?thesis unfolding nodeInv_def by blast
  qed
  then show "nodeInv device (mcell s') (rcell s') st'" "nsHealthy st' \<Longrightarrow> nsHealthy st"
    "\<exists>j. durableView (rcell s') = durableView (rcell s)
      \<or> (\<exists>k rec. intended op st j = Some (k, rec) \<and> durableView (rcell s) k = Some (slotRecord st k)
          \<and> durableView (rcell s') = (durableView (rcell s))(k \<mapsto> rec))" by blast+
qed

lemma path_view:
  assumes "storePath ops A st s st' s'" "nodeInv device (mcell s) (rcell s) st"
    and R: "\<And>k x. R k x x" "\<And>k x y z. R k x y \<Longrightarrow> R k y z \<Longrightarrow> R k x z"
      "\<And>op st j k rec. A op \<Longrightarrow> intended op st j = Some (k, rec) \<Longrightarrow> R k (slotRecord st k) rec"
  shows "nodeInv device (mcell s') (rcell s') st' \<and> (nsHealthy st' \<longrightarrow> nsHealthy st)
    \<and> (\<forall>k. rel_option (R k) (durableView (rcell s) k) (durableView (rcell s') k))"
  using assms(1,2)
proof (induction rule: storePath.induct)
  case (stay st')
  then show ?case using nodeInv_core[of st' st] R(1) by (auto simp: sameCore_def intro: option.rel_refl)
next
  case (step st1 s1 op ok i st2 s2 st3)
  from step.IH[OF step.prems] have
    one: "nodeInv device (mcell s1) (rcell s1) st1" "nsHealthy st1 \<longrightarrow> nsHealthy st"
      "\<forall>k. rel_option (R k) (durableView (rcell s) k) (durableView (rcell s1) k)" by blast+
  note v = op_view[OF step.hyps(3) one(1)]
  have core: "nodeInv device (mcell s2) (rcell s2) st3" "nsHealthy st3 \<longrightarrow> nsHealthy st"
    using v(1,2) one(2) step.hyps(4) nodeInv_core[of st3 st2] by (auto simp: sameCore_def)
  have "rel_option (R k) (durableView (rcell s1) k) (durableView (rcell s2) k)" for k
  proof -
    from v(3) consider "durableView (rcell s2) = durableView (rcell s1)"
      | j k' rec where "intended op st1 j = Some (k', rec)" "durableView (rcell s1) k' = Some (slotRecord st1 k')"
          "durableView (rcell s2) = (durableView (rcell s1))(k' \<mapsto> rec)" by blast
    then show ?thesis
    proof cases
      case 1
      then show ?thesis using R(1) by (simp add: option.rel_refl)
    next
      case 2
      then show ?thesis using R(1) R(3)[OF step.hyps(2) 2(1)] by (auto intro: option.rel_refl)
    qed
  qed
  then have "rel_option (R k) (durableView (rcell s) k) (durableView (rcell s2) k)" for k
    using rel_option_transp[OF one(3)[rule_format, of k]] R(2) by blast
  with core show ?case by blast
qed

lemma path_inv:
  assumes "storePath ops A st s st' s'" "nodeInv device (mcell s) (rcell s) st"
  shows "nodeInv device (mcell s') (rcell s') st'"
  using path_view[OF assms, of "\<lambda>_ _ _. True"] by blast

text \<open>A path that keeps whatever Event the active slot holds preserves the invariant of the attempt.\<close>

lemma path_attempt:
  assumes "storePath ops A st s st' s'" "deliveryInv device (mcell s) (rcell s) c st"
    and A: "\<And>op st j rec. A op \<Longrightarrow> intended op st j = Some (ctActiveSlot c, rec) \<Longrightarrow> ctActive c \<Longrightarrow>
      nrState (slotRecord st (ctActiveSlot c)) \<noteq> NS_FREE \<Longrightarrow> recordKept (slotRecord st (ctActiveSlot c)) rec"
    and "attemptKept c c'" "ctDegraded c \<Longrightarrow> ctDegraded c' \<or> \<not> ctCorrelationValid c'"
  shows "deliveryInv device (mcell s') (rcell s') c' st'"
proof -
  define R where "R = (\<lambda>k x y. k = ctActiveSlot c \<longrightarrow> ctActive c \<longrightarrow> nrState x \<noteq> NS_FREE \<longrightarrow> recordKept x y)"
  have node: "nodeInv device (mcell s) (rcell s) st" using assms(2) by (simp add: deliveryInv_def)
  have "R k x x" "R k x y \<Longrightarrow> R k y z \<Longrightarrow> R k x z" for k x y z
    by (auto simp: R_def dest: recordKept_trans recordKept_occupied)
  moreover have "R k (slotRecord st k) rec" if "A op" "intended op st j = Some (k, rec)" for op st j k rec
    using A that by (auto simp: R_def)
  ultimately have view: "nodeInv device (mcell s') (rcell s') st'" "nsHealthy st' \<longrightarrow> nsHealthy st"
    "\<forall>k. rel_option (R k) (durableView (rcell s) k) (durableView (rcell s') k)"
    using path_view[OF assms(1) node, of R] by blast+
  have "attemptInv c' st'" if "nsHealthy st'"
  proof (rule attemptInv_kept[OF _ assms(4,5)])
    show "attemptInv c st" using view(2) that assms(2) by (simp add: deliveryInv_def)
    assume "ctActive c" "ctActiveSlot c < 8" "nrState (slotRecord st (ctActiveSlot c)) \<noteq> NS_FREE"
    with view(3)[rule_format, of "ctActiveSlot c"] nodeInv_recordAt[OF node, of "ctActiveSlot c"]
      nodeInv_recordAt[OF view(1) that, of "ctActiveSlot c"] view(2) that
    show "recordKept (slotRecord st (ctActiveSlot c)) (slotRecord st' (ctActiveSlot c))" by (simp add: R_def)
  qed auto
  with view(1) show ?thesis by (simp add: deliveryInv_def)
qed

lemma gentle_kept:
  assumes "storePath ops gentleOp st s st' s'" "nodeInv device (mcell s) (rcell s) st"
  shows "rel_option recordKept (durableView (rcell s) k) (durableView (rcell s') k)"
  using path_view[OF assms, of "\<lambda>_. recordKept"] recordKept_trans intended_gentle by (metis recordKept_refl)

end

end
