(* ===== verification/NodeDeliveryRuns.thy ===== *)
theory NodeDeliveryRuns
  imports NodeDeliveryCustody
begin

text \<open>
  Lives of the Node with delivery: boots, created Events and any sequence of calls of the controller, from a medium
  without records and over any storage that keeps the contract; then what holds of every call.
\<close>

subsection \<open>Calls of the controller\<close>

datatype ctlOp = CtRecover u8 u8 u32 bool bool | CtTrackEnqueued nat u32 | CtService u32 bool | CtGrant u32 | CtStarted u32
  | CtStartFailed u32 | CtCompleted u32 | CtAdmission "bytes option" u32 | CtReclaim | CtReclaimAll bool u32 | CtHubExchange

text \<open>The action that the caller is given, and the new state; a call without an action gives the empty one.\<close>

fun applyCtl :: "('s, 'e) deliveryDeps \<Rightarrow> ctlOp \<Rightarrow> controller \<Rightarrow> ('s, 'e) nodeEnv \<Rightarrow> radioAction \<times> controller \<times> ('s, 'e) nodeEnv" where
  "applyCtl d (CtRecover src hub now diagnostics attached) c env =
     (case ct_recover d src hub now diagnostics attached c env of (r, c, env) \<Rightarrow> (clAction r, c, env))"
| "applyCtl d (CtTrackEnqueued slot now) c env = (case ct_trackEnqueued slot now c env of (_, c, env) \<Rightarrow> (radioAction_init, c, env))"
| "applyCtl d (CtService now b) c env = (case ct_service d now b c env of (r, c, env) \<Rightarrow> (clAction r, c, env))"
| "applyCtl d (CtGrant now) c env = (case grantTransmit d now c env of (r, c, env) \<Rightarrow> (clAction r, c, env))"
| "applyCtl d (CtStarted now) c env = (case txStarted d now c env of (r, c, env) \<Rightarrow> (clAction r, c, env))"
| "applyCtl d (CtStartFailed now) c env = (case txStartFailed d now c env of (r, c, env) \<Rightarrow> (clAction r, c, env))"
| "applyCtl d (CtCompleted now) c env = (case txCompleted d now c env of (r, c, env) \<Rightarrow> (clAction r, c, env))"
| "applyCtl d (CtAdmission input now) c env = (case admissionCandidate d input now c env of (r, c, env) \<Rightarrow> (clAction r, c, env))"
| "applyCtl d CtReclaim c env = (case reclaimTerminal d c env of (r, c, env) \<Rightarrow> (clAction r, c, env))"
| "applyCtl d (CtReclaimAll attached now) c env =
     (case reclaimTerminals d (Some c) attached now env of (_, oc, env) \<Rightarrow> (radioAction_init, the oc, env))"
| "applyCtl d CtHubExchange c env = (radioAction_init, c, successfulHubExchange c env)"

subsection \<open>Transmission\<close>

text \<open>What a granted transmission went through: the lifetime service, the durable count, and only then the packet.\<close>

definition transmitted :: "('s, 'e) deliveryDeps \<Rightarrow> controller \<Rightarrow> ('s, 'e) nodeEnv \<Rightarrow> radioAction \<Rightarrow> controller \<Rightarrow> ('s, 'e) nodeEnv \<Rightarrow> bool" where
  "transmitted d c env a c' env' \<longleftrightarrow> nsHealthy (envStore env) \<and> ctActive c \<and> ctActiveSlot c < 8 \<and> \<not> ctDegraded c
     \<and> (\<exists>env1 env2 q p. envPath (ddStorage d) lifetimeOp env env1
         \<and> storeCall (armAttempt (ddStorage d) (ctActiveSlot c)) env1 = (ARMED, env2)
         \<and> envStore env' = envStore env2 \<and> envMedium env' = envMedium env2
         \<and> c' = c\<lparr>ctPolicy := p, ctState := RS_TX, ctCorrelationValid := True,
             ctAttemptEvent := attemptEventOf c q (the (recordAt (ctActiveSlot c) (envStore env2)))\<rparr>
         \<and> raType a = RA_TRANSMIT
         \<and> encodeEvent (ctAttemptEvent c') (Some (fillZero MAX_PACKET_SIZE)) = (True, Some (raBytes a), raLength a))"

lemma pl_armAttempt_armed:
  assumes "pl_armAttempt ops slot now p env = (AR_ARMED, p', env')"
  shows "\<exists>env1. envPath ops lifetimeOp env env1 \<and> slot < 8 \<and> storeCall (armAttempt ops slot) env1 = (ARMED, env')"
proof -
  obtain st p1 env1 where sv: "pl_service ops now p env = (st, p1, env1)" by (metis prod_cases3)
  obtain x env2 where arm: "storeCall (armAttempt ops slot) env1 = (x, env2)" by fastforce
  from assms sv arm have "slot < 8" "x = ARMED" "env2 = env'"
    by (auto simp: pl_armAttempt_def split: if_splits option.splits attemptStatus.splits)
  with pl_service_path[OF sv] arm show ?thesis by blast
qed

lemma encodeEvent_out: "encodeEvent e (Some b) = (True, out, len) \<Longrightarrow> \<exists>bs. out = Some bs"
  by (auto simp: encodeEvent_def encode_def Let_def split: if_splits)

lemma transmitAttempt_cases:
  assumes "transmitAttempt d now c env = (r, c', env')"
  shows "ctDegraded c' \<and> raType (clAction r) \<noteq> RA_TRANSMIT \<and> envStore env' = envStore env \<and> envMedium env' = envMedium env
    \<or> (\<exists>q. c' = c\<lparr>ctState := RS_TX, ctCorrelationValid := True, ctAttemptEvent := attemptEventOf c q (the (ct_record c env))\<rparr>
        \<and> envStore env' = envStore env \<and> envMedium env' = envMedium env
        \<and> (\<exists>out len. encodeEvent (ctAttemptEvent c') (Some (fillZero MAX_PACKET_SIZE)) = (True, Some out, len)
             \<and> clAction r = \<lparr>raType = RA_TRANSMIT, raBytes = out, raLength = len\<rparr>))"
proof -
  obtain sq sources where seq: "ddSequence d (envSources env) = (sq, sources)" by fastforce
  have rec: "ct_record c (env\<lparr>envSources := sources\<rparr>) = ct_record c env" by (simp add: ct_record_def)
  show ?thesis
  proof (cases sq)
    case None
    with assms seq show ?thesis by (auto simp: transmitAttempt_def degrade_def degradedWith_def ct_result_def)
  next
    case (Some q)
    define e where "e = attemptEventOf c q (the (ct_record c env))"
    obtain ok out len where enc: "encodeEvent e (Some (fillZero MAX_PACKET_SIZE)) = (ok, out, len)" by (metis prod_cases3)
    show ?thesis
    proof (cases ok)
      case False
      with assms seq Some enc rec show ?thesis
        by (auto simp: transmitAttempt_def e_def degrade_def degradedWith_def ct_result_def)
    next
      case True
      define env1 where "env1 = observe (ctObserver c) (ob_attempt (ctSource c) (nrEventEpoch (the (ct_record c env)))
        (nrEventId (the (ct_record c env))) (nrAttemptsUsed (the (ct_record c env)))) (env\<lparr>envSources := sources\<rparr>)"
      obtain c2 env2 where cs: "changeState RS_TX now (c\<lparr>ctAttemptEvent := e, ctCorrelationValid := True\<rparr>) env1 = (c2, env2)" by fastforce
      obtain bs where out: "out = Some bs" using encodeEvent_out[of e _ out len] enc True by auto
      have "r = \<lparr>clStatus = CS_OK, clAction = \<lparr>raType = RA_TRANSMIT, raBytes = bs, raLength = len\<rparr>\<rparr>" "c' = c2" "env' = env2"
        using assms seq Some enc True cs out rec by (simp_all add: transmitAttempt_def e_def env1_def)
      moreover have "envStore env2 = envStore env" "envMedium env2 = envMedium env"
        "c2 = c\<lparr>ctState := RS_TX, ctCorrelationValid := True, ctAttemptEvent := e\<rparr>"
        using changeState_quiet[OF cs] by (simp_all add: env1_def quiet_simps)
      ultimately show ?thesis using enc True out unfolding e_def by auto
    qed
  qed
qed

definition quietAction :: "controllerResult \<Rightarrow> bool" where
  "quietAction r \<longleftrightarrow> raType (clAction r) \<noteq> RA_TRANSMIT"

lemma quiet_results [simp]:
  "quietAction (ct_result x)" "quietAction receiveResult" "quietAction (degradedWith x b)"
  by (simp_all add: quietAction_def ct_result_def receiveResult_def degradedWith_def radioAction_init_def)

lemma degrade_quiet: "degrade x b c env = (r, c', env') \<Longrightarrow> quietAction r"
  by (auto simp: degrade_def)

lemma serviceLifetime_failed: "serviceLifetime ops now c env = (False, c', env') \<Longrightarrow> quietAction (ctDegradedResult c')"
  by (auto simp: serviceLifetime_def degrade_def split: prod.splits if_splits option.splits)

lemma failedAttempt_quiet: "failedAttempt d now b c env = (r, c', env') \<Longrightarrow> quietAction r"
  by (auto simp: failedAttempt_def Let_def degrade_def split: prod.splits if_splits)

lemma ct_service_quiet:
  assumes "ct_service d now b c env = (r, c', env')"
  shows "quietAction r"
proof -
  have "quietAction r" if "serviceState d now b c1 env1 = (r, c', env')" for c1 env1
    using that failedAttempt_quiet degrade_quiet
    by (auto simp: serviceState_def split: deliveryState.splits prod.splits if_splits)
  with assms serviceLifetime_failed show ?thesis
    by (auto simp: ct_service_def Let_def split: prod.splits if_splits)
qed

lemma tx_quiet:
  "txStarted d now c env = (r, c', env') \<Longrightarrow> quietAction r"
  "txStartFailed d now c env = (r, c', env') \<Longrightarrow> quietAction r"
  "txCompleted d now c env = (r, c', env') \<Longrightarrow> quietAction r"
  by (auto simp: txStarted_def txStartFailed_def txCompleted_def Let_def split: prod.splits if_splits
      dest: serviceLifetime_failed failedAttempt_quiet)

lemma grant_cases:
  assumes "grantTransmit d now c env = (r, c', env')"
  shows "quietAction r \<and> gentleStep (ddStorage d) c env c' env' \<or> transmitted d c env (clAction r) c' env'"
proof (cases "ct_usable c env \<and> ctActive c \<and> ctState c = RS_READY")
  case False
  with assms show ?thesis by (auto simp: grantTransmit_def split: if_splits)
next
  case start: True
  obtain ok c1 env1 where life: "serviceLifetime (ddStorage d) now (c\<lparr>ctState := RS_TX_PREPARE\<rparr>) env = (ok, c1, env1)"
    by (metis prod_cases3)
  have one: "gentleStep (ddStorage d) c env c1 env1"
    using serviceLifetime_step(1)[OF life] by (simp add: gentleStep_def)
  obtain a p env2 where arm: "pl_armAttempt (ddStorage d) (ctActiveSlot c1) now (ctPolicy c1) env1 = (a, p, env2)"
    by (metis prod_cases3)
  have two: "gentleStep (ddStorage d) c env (c1\<lparr>ctPolicy := p\<rparr>) env2"
    using gentleStep_trans[OF one, of "c1\<lparr>ctPolicy := p\<rparr>" env2] pl_armAttempt_gentle[OF arm] by (simp add: gentleStep_def)
  show ?thesis
  proof (cases "ok \<and> ctState c1 \<noteq> RS_EXPIRED \<and> headStillAuthoritative c1 env1")
    case False
    with assms start life one serviceLifetime_failed show ?thesis
      by (cases ok) (auto simp: grantTransmit_def split: if_splits dest: degrade_quiet gentleStep_degrade[OF one])
  next
    case go: True
    have c1: "c1 = c\<lparr>ctState := RS_TX_PREPARE, ctPolicy := ctPolicy c1\<rparr>"
      using serviceLifetime_step(4)[OF life] go by simp
    show ?thesis
    proof (cases "a = AR_ARMED")
      case False
      obtain m c3 env3 where mf: "ct_markFailed (ddStorage d) (c1\<lparr>ctPolicy := p\<rparr>) env2 = (m, c3, env3)" by (metis prod_cases3)
      note three = gentleStep_trans[OF two ct_markFailed_step[OF mf]]
      have "gentleStep (ddStorage d) c env (c1\<lparr>ctPolicy := p, ctState := RS_EXPIRED\<rparr>) env2"
        using two by (simp add: gentleStep_def)
      with assms start life go arm False mf two three show ?thesis
        by (auto simp: grantTransmit_def split: if_splits dest: degrade_quiet gentleStep_degrade)
    next
      case True
      then have tx: "transmitAttempt d now (c1\<lparr>ctPolicy := p\<rparr>) env2 = (r, c', env')"
        using assms start life go arm by (simp add: grantTransmit_def)
      obtain envA where armed: "envPath (ddStorage d) lifetimeOp env1 envA" "ctActiveSlot c1 < 8"
        "storeCall (armAttempt (ddStorage d) (ctActiveSlot c1)) envA = (ARMED, env2)"
        using pl_armAttempt_armed arm True by blast
      have "envPath (ddStorage d) lifetimeOp env env1"
        using serviceLifetime_path[OF life] by simp
      with armed(1) have path: "envPath (ddStorage d) lifetimeOp env envA" by (rule envPath_trans[rotated])
      from transmitAttempt_cases[OF tx] show ?thesis
      proof (elim disjE exE conjE)
        assume "ctDegraded c'" "raType (clAction r) \<noteq> RA_TRANSMIT" "envStore env' = envStore env2" "envMedium env' = envMedium env2"
        with two show ?thesis by (auto simp: quietAction_def gentleStep_def attemptKept_def intro: envPath_quiet(1))
      next
        fix q out len
        assume c': "c' = c1\<lparr>ctPolicy := p, ctState := RS_TX, ctCorrelationValid := True,
            ctAttemptEvent := attemptEventOf (c1\<lparr>ctPolicy := p\<rparr>) q (the (ct_record (c1\<lparr>ctPolicy := p\<rparr>) env2))\<rparr>"
          and env': "envStore env' = envStore env2" "envMedium env' = envMedium env2"
          and enc: "encodeEvent (ctAttemptEvent c') (Some (fillZero MAX_PACKET_SIZE)) = (True, Some out, len)"
            "clAction r = \<lparr>raType = RA_TRANSMIT, raBytes = out, raLength = len\<rparr>"
        have slot: "ctActiveSlot c1 = ctActiveSlot c" using serviceLifetime_step(3)[OF life] by simp
        have rec: "ct_record (c1\<lparr>ctPolicy := p\<rparr>) env2 = recordAt (ctActiveSlot c) (envStore env2)"
          using start slot by (subst c1) (simp add: ct_record_def ct_usable_def)
        have "attemptEventOf (c1\<lparr>ctPolicy := p\<rparr>) q x = attemptEventOf c q x" for x by (subst c1) (simp add: attemptEventOf_def)
        with c' have "c' = c1\<lparr>ctPolicy := p, ctState := RS_TX, ctCorrelationValid := True,
            ctAttemptEvent := attemptEventOf c q (the (recordAt (ctActiveSlot c) (envStore env2)))\<rparr>"
          by (simp add: rec)
        then have "c' = c\<lparr>ctPolicy := p, ctState := RS_TX, ctCorrelationValid := True,
            ctAttemptEvent := attemptEventOf c q (the (recordAt (ctActiveSlot c) (envStore env2)))\<rparr>"
          by (subst (asm) c1) simp
        with path armed(2,3) env' enc slot start show ?thesis
          unfolding transmitted_def ct_usable_def by (intro disjI2 conjI exI) auto
      qed
    qed
  qed
qed

subsection \<open>Release and reclamation\<close>

text \<open>What an admission that releases the Event went through.\<close>

definition released :: "('s, 'e) deliveryDeps \<Rightarrow> bytes option \<Rightarrow> controller \<Rightarrow> ('s, 'e) nodeEnv \<Rightarrow> controller \<Rightarrow> ('s, 'e) nodeEnv \<Rightarrow> bool" where
  "released d input c env c' env' \<longleftrightarrow> nsHealthy (envStore env) \<and> \<not> ctDegraded c \<and> ctCorrelationValid c
     \<and> (\<not> ctCorrelationValid c' \<or> ctDegraded c')
     \<and> (\<exists>response. decodeAdmissionResponse input = Some response \<and> arStatus response = ADMITTED \<and> matchesEvent response (ctAttemptEvent c))
     \<and> (\<exists>env1. envPath (ddStorage d) gentleOp env env1 \<and> envPath (ddStorage d) (\<lambda>op. op = OpReleaseQueued (ctActiveSlot c)) env1 env')"

lemma admissionDecision_cases:
  assumes "admissionDecision d st now c env = (r, c', env')"
  shows "quietAction r" and "gentleStep (ddStorage d) c env c' env'
    \<or> st = ADMITTED \<and> (\<not> ctCorrelationValid c' \<or> ctDegraded c')
      \<and> envPath (ddStorage d) (\<lambda>op. op = OpReleaseQueued (ctActiveSlot c)) env env'"
proof -
  obtain m env1 where call: "storeCall (releaseQueued (ddStorage d) (ctActiveSlot c)) env = (m, env1)" by fastforce
  obtain ok c2 env2 where mf: "ct_markFailed (ddStorage d) c env = (ok, c2, env2)" by (metis prod_cases3)
  have path: "envPath (ddStorage d) (\<lambda>op. op = OpReleaseQueued (ctActiveSlot c)) env env1"
    using storeCall_path(4)[OF call] by simp
  show "quietAction r"
    using assms call mf by (auto simp: admissionDecision_def failedAttempt_quiet split: admissionStatus.splits if_splits dest: degrade_quiet)
  show "gentleStep (ddStorage d) c env c' env' \<or> st = ADMITTED \<and> (\<not> ctCorrelationValid c' \<or> ctDegraded c')
      \<and> envPath (ddStorage d) (\<lambda>op. op = OpReleaseQueued (ctActiveSlot c)) env env'"
  proof (cases "st = ADMITTED")
    case True
    with assms call path show ?thesis
      by (auto simp: admissionDecision_def degrade_def clearAttempt_def split: if_splits intro: envPath_diagnose)
  next
    case False
    show ?thesis
      using assms False mf ct_markFailed_step[OF mf]
      by (auto simp: admissionDecision_def split: admissionStatus.splits if_splits
          intro: failedAttempt_step gentleStep_degrade)
  qed
qed

lemma admission_cases:
  assumes "admissionCandidate d input now c env = (r, c', env')"
  shows "quietAction r" and "gentleStep (ddStorage d) c env c' env' \<or> released d input c env c' env'"
proof -
  obtain ok c1 env1 where life: "serviceLifetime (ddStorage d) now c env = (ok, c1, env1)" by (metis prod_cases3)
  note one = serviceLifetime_step(1)[OF life]
  consider (early) "quietAction r" "gentleStep (ddStorage d) c env c' env'"
    | (decide) response env2 where "ct_usable c env" "ok" "ctState c1 \<noteq> RS_EXPIRED"
        "decodeAdmissionResponse input = Some response" "ctCorrelationValid c1" "matchesEvent response (ctAttemptEvent c1)"
        "envStore env2 = envStore env1" "envMedium env2 = envMedium env1"
        "admissionDecision d (arStatus response) now c1 env2 = (r, c', env')"
  proof (cases "\<not> ct_usable c env \<or> ctState c \<noteq> RS_WAIT_ADMISSION \<or> \<not> ok \<or> ctState c1 = RS_EXPIRED \<or> decodeAdmissionResponse input = None")
    case True
    with assms life one serviceLifetime_failed[of "ddStorage d" now c env c1 env1] that(1) show ?thesis
      by (cases ok) (auto simp: admissionCandidate_def split: if_splits)
  next
    case False
    then obtain response where resp: "decodeAdmissionResponse input = Some response" by blast
    let ?env = "observe (ctObserver c1) (ob_admission (admissionStatus_code (arStatus response)) now) env1"
    have "gentleStep (ddStorage d) c1 env1 c1 ?env" by (rule gentleStep_same) (simp_all add: quiet_simps)
    note quiet = gentleStep_trans[OF one this]
    show ?thesis
    proof (cases "ctCorrelationValid c1 \<and> matchesEvent response (ctAttemptEvent c1)")
      case True
      with False resp assms life show ?thesis
        by (intro that(2)[of response "ct_note c1 TX_ACK_MATCHED now ?env"]) (auto simp: admissionCandidate_def quiet_simps)
    next
      case no: False
      with False resp assms life quiet show ?thesis by (intro that(1)) (auto simp: admissionCandidate_def)
    qed
  qed
  then have "quietAction r \<and> (gentleStep (ddStorage d) c env c' env' \<or> released d input c env c' env')"
  proof cases
    case decide
    have same: "c1 = c\<lparr>ctPolicy := ctPolicy c1\<rparr>" using serviceLifetime_step(4)[OF life] decide by simp
    have fields: "ctCorrelationValid c = ctCorrelationValid c1" "ctAttemptEvent c = ctAttemptEvent c1" "ctActiveSlot c = ctActiveSlot c1"
      by (subst same, simp)+
    have two: "gentleStep (ddStorage d) c env c1 env2"
      using one decide by (auto simp: gentleStep_def intro: envPath_quiet(1))
    have "released d input c env c' env'" if "arStatus response = ADMITTED" "\<not> ctCorrelationValid c' \<or> ctDegraded c'"
      "envPath (ddStorage d) (\<lambda>op. op = OpReleaseQueued (ctActiveSlot c1)) env2 env'"
      using decide(1,4-6) two fields that unfolding released_def ct_usable_def gentleStep_def by auto
    with admissionDecision_cases[OF decide(9)] gentleStep_trans[OF two] show ?thesis by blast
  qed simp
  then show "quietAction r" "gentleStep (ddStorage d) c env c' env' \<or> released d input c env c' env'" by blast+
qed

fun isReclaim :: "storeOp \<Rightarrow> bool" where
  "isReclaim (OpReclaim k) = True"
| "isReclaim _ = False"

text \<open>Reclamation never touches the active slot without forgetting its attempt.\<close>

definition reclaimStep :: "'s nodeStorage \<Rightarrow> controller \<Rightarrow> ('s, 'e) nodeEnv \<Rightarrow> controller \<Rightarrow> ('s, 'e) nodeEnv \<Rightarrow> bool" where
  "reclaimStep ops c env c' env' \<longleftrightarrow> envPath ops isReclaim env env'
     \<and> (ctDegraded c' \<or> \<not> ctCorrelationValid c'
        \<or> c' = c \<and> envPath ops (\<lambda>op. \<exists>k. op = OpReclaim k \<and> \<not> (ctActive c \<and> k = ctActiveSlot c)) env env')"

lemma reclaimStep_refl [simp]: "reclaimStep ops c env c env"
  by (simp add: reclaimStep_def)

lemma reclaimStep_trans:
  assumes "reclaimStep ops c env c1 env1" "reclaimStep ops c1 env1 c2 env2"
    and "ctDegraded c1 \<or> \<not> ctCorrelationValid c1 \<Longrightarrow> ctDegraded c2 \<or> \<not> ctCorrelationValid c2"
  shows "reclaimStep ops c env c2 env2"
  using assms(2)
  unfolding reclaimStep_def
proof (elim conjE, intro conjI)
  assume two: "envPath ops isReclaim env1 env2" "ctDegraded c2 \<or> \<not> ctCorrelationValid c2 \<or> c2 = c1
    \<and> envPath ops (\<lambda>op. \<exists>k. op = OpReclaim k \<and> \<not> (ctActive c1 \<and> k = ctActiveSlot c1)) env1 env2"
  with assms(1) show "envPath ops isReclaim env env2" by (auto simp: reclaimStep_def intro: envPath_trans)
  from two(2) assms(1,3) show "ctDegraded c2 \<or> \<not> ctCorrelationValid c2 \<or> c2 = c
    \<and> envPath ops (\<lambda>op. \<exists>k. op = OpReclaim k \<and> \<not> (ctActive c \<and> k = ctActiveSlot c)) env env2"
    by (auto simp: reclaimStep_def intro: envPath_trans)
qed

lemma reclaimTerminal_step:
  assumes "reclaimTerminal d c env = (r, c', env')"
  shows "quietAction r" "reclaimStep (ddStorage d) c env c' env'" "ctDegraded c \<or> \<not> ctCorrelationValid c \<Longrightarrow> ctDegraded c' \<or> \<not> ctCorrelationValid c'"
proof -
  obtain m env1 where call: "storeCall (reclaim (ddStorage d) (ctActiveSlot c)) env = (m, env1)" by fastforce
  then have "envPath (ddStorage d) isReclaim env env1" by (rule storeCall_path(3)) simp
  with assms call show "quietAction r" "reclaimStep (ddStorage d) c env c' env'"
    "ctDegraded c \<or> \<not> ctCorrelationValid c \<Longrightarrow> ctDegraded c' \<or> \<not> ctCorrelationValid c'"
    by (auto simp: reclaimTerminal_def degrade_def clearAttempt_def reclaimStep_def split: if_splits)
qed

lemma reclaimSlots_step:
  assumes "reclaimSlots d slots (Some c) attached now env = (ok, oc, env')"
  shows "\<exists>c'. oc = Some c' \<and> reclaimStep (ddStorage d) c env c' env'
    \<and> (ctDegraded c \<or> \<not> ctCorrelationValid c \<longrightarrow> ctDegraded c' \<or> \<not> ctCorrelationValid c')"
  using assms
proof (induction slots arbitrary: c env)
  case (Cons slot slots)
  show ?case
  proof (cases "isTerminalRecord (recordAt slot (envStore env))")
    case False
    with Cons show ?thesis by simp
  next
    case True
    obtain ok1 c1 env1 where one: "(if ctActive c \<and> ctActiveSlot c = slot
           then (case reclaimTerminal d c env of (r, c, env) \<Rightarrow> (clStatus r = CS_OK, Some c, env))
           else (case storeCall (reclaim (ddStorage d) slot) env of (m, env) \<Rightarrow> (m = MUT_OK, Some c, env))) = (ok1, Some c1, env1)"
      by (cases "reclaimTerminal d c env"; cases "storeCall (reclaim (ddStorage d) slot) env"; cases "ctActive c \<and> ctActiveSlot c = slot")
        auto
    have step: "reclaimStep (ddStorage d) c env c1 env1"
      "ctDegraded c \<or> \<not> ctCorrelationValid c \<Longrightarrow> ctDegraded c1 \<or> \<not> ctCorrelationValid c1"
      using one by (auto simp: reclaimStep_def split: if_splits prod.splits dest: reclaimTerminal_step(2,3)
          intro: storeCall_path(3))
    let ?env = "observe attached (ob_note TX_TERMINAL_RECLAIMED now) env1"
    have quiet: "reclaimStep (ddStorage d) c1 env1 c1 ?env"
      by (auto simp: reclaimStep_def quiet_simps intro: envPath_quiet(1)[OF envPath_refl])
    have rest: "(if \<not> ok1 then (False, Some c1, env1) else reclaimSlots d slots (Some c1) attached now ?env) = (ok, oc, env')"
      using Cons.prems True one by (auto split: prod.splits if_splits)
    show ?thesis
    proof (cases ok1)
      case False
      with rest step show ?thesis by auto
    next
      case True
      with rest Cons.IH[of c1 ?env] obtain c' where c': "oc = Some c'" "reclaimStep (ddStorage d) c1 ?env c' env'"
        "ctDegraded c1 \<or> \<not> ctCorrelationValid c1 \<Longrightarrow> ctDegraded c' \<or> \<not> ctCorrelationValid c'" by auto
      have "reclaimStep (ddStorage d) c env c' env'"
        using reclaimStep_trans[OF reclaimStep_trans[OF step(1) quiet] c'(2)] c'(3) by blast
      with c' step(2) show ?thesis by blast
    qed
  qed
qed auto

lemma ct_recover_step:
  assumes "ct_recover d src hub now diagnostics attached c env = (r, c', env')"
  shows "quietAction r" "envPath (ddStorage d) gentleOp env env'" "\<not> ctCorrelationValid c' \<or> ctDegraded c'"
proof -
  define c0 where "c0 = (ct_reset c)\<lparr>ctObserver := attached, ctDiagnostics := diagnostics, ctStore := True, ctSource := src, ctDestination := hub\<rparr>"
  obtain st p env1 where rc: "pl_recover (ddStorage d) attached now (ctPolicy c0) env = (st, p, env1)" by (metis prod_cases3)
  define c1 where "c1 = loadHead (c0\<lparr>ctPolicy := p, ctInitialized := True\<rparr>) env1"
  obtain ok c2 env2 where mf: "ct_markFailed (ddStorage d) c1 env1 = (ok, c2, env2)" by (metis prod_cases3)
  have path: "envPath (ddStorage d) gentleOp env env1" using gentle_paths(2) rc by blast
  have "envPath (ddStorage d) gentleOp env1 env2" using ct_markFailed_step[OF mf] by (simp add: gentleStep_def)
  with path have path2: "envPath (ddStorage d) gentleOp env env2" by (rule envPath_trans)
  have idle: "\<not> ctCorrelationValid c1"
    by (auto simp: c1_def c0_def ct_reset_def clearAttempt_def loadHead_def split: option.splits)
  then have "\<not> ctCorrelationValid c2" using mf by (auto simp: ct_markFailed_def clearAttempt_def split: prod.splits if_splits)
  moreover have "(r, c', env') \<in> {(ct_result CS_INVALID_CONFIGURATION, (ct_reset c)\<lparr>ctObserver := attached, ctDiagnostics := diagnostics\<rparr>, env),
      degrade CS_POLICY_FAILURE False (c0\<lparr>ctPolicy := p\<rparr>) env1, degrade CS_STORAGE_FAILURE True c2 env2,
      (ct_result (if ctActive c2 then CS_OK else CS_NO_ACTIVE_EVENT), c2, env2),
      (ct_result (if ctActive c1 then CS_OK else CS_NO_ACTIVE_EVENT), c1, env1)}"
    using assms rc mf unfolding ct_recover_def Let_def c0_def c1_def by (simp split: if_splits) auto
  ultimately show "quietAction r" "envPath (ddStorage d) gentleOp env env'" "\<not> ctCorrelationValid c' \<or> ctDegraded c'"
    using path path2 idle by (auto simp: degrade_def ct_reset_def clearAttempt_def)
qed

text \<open>Every call of the controller is of one of four kinds.\<close>

lemma ctl_cases:
  assumes "applyCtl d op c env = (a, c', env')" "ct_usable c env \<longrightarrow> ctCorrelationValid c \<longrightarrow> ctActive c"
  obtains (gentle) "raType a \<noteq> RA_TRANSMIT" "envPath (ddStorage d) gentleOp env env'" "attemptKept c c'"
      "ctDegraded c \<Longrightarrow> ctDegraded c' \<or> \<not> ctCorrelationValid c'"
    | (transmit) "transmitted d c env a c' env'"
    | (release) input now where "raType a \<noteq> RA_TRANSMIT" "op = CtAdmission input now" "released d input c env c' env'"
    | (reclamation) "raType a \<noteq> RA_TRANSMIT" "reclaimStep (ddStorage d) c env c' env'"
proof -
  have g: thesis if "quietAction r" "a = clAction r" "gentleStep (ddStorage d) c env c' env'" for r
    using that gentle by (simp add: quietAction_def gentleStep_def)
  show ?thesis
  proof (cases op)
    case (CtRecover src hub now diagnostics attached)
    then obtain r where r: "ct_recover d src hub now diagnostics attached c env = (r, c', env')" "a = clAction r"
      using assms(1) by (auto split: prod.splits)
    from gentle ct_recover_step[OF r(1)] r(2) show ?thesis by (auto simp: quietAction_def attemptKept_def)
  next
    case (CtTrackEnqueued slot now)
    then obtain r where r: "ct_trackEnqueued slot now c env = (r, c', env')" "a = clAction (ct_result CS_OK)"
      using assms(1) by (auto simp: ct_result_def split: prod.splits)
    show ?thesis by (rule g[OF quiet_results(1) r(2) ct_trackEnqueued_step[OF r(1)]])
  next
    case (CtService now b)
    then obtain r where r: "ct_service d now b c env = (r, c', env')" "a = clAction r" using assms(1) by (auto split: prod.splits)
    show ?thesis by (rule g[OF ct_service_quiet[OF r(1)] r(2) ct_service_step[OF r(1)]]) (use assms(2) in blast)
  next
    case (CtGrant now)
    then obtain r where r: "grantTransmit d now c env = (r, c', env')" "a = clAction r" using assms(1) by (auto split: prod.splits)
    from grant_cases[OF r(1)] g[of r] r(2) transmit show ?thesis by blast
  next
    case (CtStarted now)
    then obtain r where r: "txStarted d now c env = (r, c', env')" "a = clAction r" using assms(1) by (auto split: prod.splits)
    show ?thesis by (rule g[OF tx_quiet(1)[OF r(1)] r(2) tx_steps(1)[OF r(1)]])
  next
    case (CtStartFailed now)
    then obtain r where r: "txStartFailed d now c env = (r, c', env')" "a = clAction r" using assms(1) by (auto split: prod.splits)
    show ?thesis by (rule g[OF tx_quiet(2)[OF r(1)] r(2) tx_steps(2)[OF r(1)]])
  next
    case (CtCompleted now)
    then obtain r where r: "txCompleted d now c env = (r, c', env')" "a = clAction r" using assms(1) by (auto split: prod.splits)
    show ?thesis by (rule g[OF tx_quiet(3)[OF r(1)] r(2) tx_steps(3)[OF r(1)]])
  next
    case (CtAdmission input now)
    then obtain r where r: "admissionCandidate d input now c env = (r, c', env')" "a = clAction r" using assms(1) by (auto split: prod.splits)
    from admission_cases[OF r(1)] g[of r] r(2) release CtAdmission show ?thesis by (auto simp: quietAction_def)
  next
    case CtReclaim
    then obtain r where r: "reclaimTerminal d c env = (r, c', env')" "a = clAction r" using assms(1) by (auto split: prod.splits)
    from reclaimTerminal_step[OF r(1)] r(2) reclamation show ?thesis by (auto simp: quietAction_def)
  next
    case (CtReclaimAll attached now)
    then obtain ok oc where r: "reclaimTerminals d (Some c) attached now env = (ok, oc, env')" "c' = the oc" "a = radioAction_init"
      using assms(1) by (auto split: prod.splits)
    have "reclaimStep (ddStorage d) c env c' env'"
      using r reclaimSlots_step[of d "[0..<8]" c attached now env ok oc env'] by (auto simp: reclaimTerminals_def split: if_splits)
    with r(3) reclamation show ?thesis by (simp add: radioAction_init_def)
  next
    case CtHubExchange
    with assms(1) show ?thesis
      by (intro gentle) (auto simp: successfulHubExchange_def radioAction_init_def intro: envPath_diagnose)
  qed
qed

subsection \<open>Runs\<close>

text \<open>A run starts with a store that has not recovered, a new controller and a medium without records.  A boot
  discards the memory and recovers the store; finished records are reclaimed before the controller recovers, as
  \<^verbatim>\<open>setup\<close> of \<^verbatim>\<open>src-rx/main.cpp\<close> does.  Then Events are created and the controller is called in any order;
  \<open>elsewhere\<close> is activity of other components that leaves the cells and the slots alone.\<close>

inductive deliveryRun :: "('s, 'e) deliveryDeps \<Rightarrow> 's entropySource \<Rightarrow> ('s \<Rightarrow> unit \<Rightarrow> copySlot \<Rightarrow> bytes option) \<Rightarrow>
    ('s \<Rightarrow> nat \<Rightarrow> copySlot \<Rightarrow> bytes option) \<Rightarrow> u8 \<Rightarrow> controller \<Rightarrow> ('s, 'e) nodeEnv \<Rightarrow> bool"
  for d entropy mcell rcell device where
  start: "\<not> nsHealthy (envStore env) \<Longrightarrow> rcell (envMedium env) = (\<lambda>_ _. None) \<Longrightarrow>
    deliveryRun d entropy mcell rcell device controller_init env"
| boot: "deliveryRun d entropy mcell rcell device c env \<Longrightarrow>
    storeCall (ns_recover (ddStorage d) entropy device) env = (res, env') \<Longrightarrow>
    deliveryRun d entropy mcell rcell device controller_init env'"
| clearFinished: "deliveryRun d entropy mcell rcell device controller_init env \<Longrightarrow>
    reclaimTerminals d None attached now env = (ok, oc, env') \<Longrightarrow>
    deliveryRun d entropy mcell rcell device controller_init env'"
| create: "deliveryRun d entropy mcell rcell device c env \<Longrightarrow> storeCall (enqueue (ddStorage d) input) env = (r, env') \<Longrightarrow>
    deliveryRun d entropy mcell rcell device c env'"
| control: "deliveryRun d entropy mcell rcell device c env \<Longrightarrow> applyCtl d op c env = (a, c', env') \<Longrightarrow>
    deliveryRun d entropy mcell rcell device c' env'"
| elsewhere: "deliveryRun d entropy mcell rcell device c env \<Longrightarrow> sameCore (envStore env') (envStore env) \<Longrightarrow>
    mcell (envMedium env') = mcell (envMedium env) \<Longrightarrow> rcell (envMedium env') = rcell (envMedium env) \<Longrightarrow>
    deliveryRun d entropy mcell rcell device c env'"

lemma reclaimSlots_path:
  "reclaimSlots d slots None attached now env = (ok, oc, env') \<Longrightarrow> envPath (ddStorage d) isReclaim env env'"
proof (induction slots arbitrary: env)
  case (Cons slot slots)
  obtain m env1 where call: "storeCall (reclaim (ddStorage d) slot) env = (m, env1)" by fastforce
  let ?env = "observe attached (ob_note TX_TERMINAL_RECLAIMED now) env1"
  have one: "envPath (ddStorage d) isReclaim env env1" using call by (rule storeCall_path(3)) simp
  then have "envPath (ddStorage d) isReclaim env ?env" by (rule envPath_quiet(1)) (simp_all add: quiet_simps)
  with one Cons call show ?case by (auto split: if_splits intro: envPath_trans)
qed simp

lemma usable_healthy: "ct_usable c env \<Longrightarrow> nsHealthy (envStore env) \<and> \<not> ctDegraded c"
  by (simp add: ct_usable_def)

lemma deliveryInv_active:
  "deliveryInv device m r c (envStore env) \<Longrightarrow> ct_usable c env \<longrightarrow> ctCorrelationValid c \<longrightarrow> ctActive c"
  by (auto simp: deliveryInv_def attemptInv_def dest: usable_healthy)

abbreviation (input) envInv where
  "envInv device mcell rcell c env \<equiv> deliveryInv device (mcell (envMedium env)) (rcell (envMedium env)) c (envStore env)"

context node_storage
begin

lemma armed_record:
  assumes "storeCall (armAttempt ops k) env = (ARMED, env')" "nodeInv device (mcell (envMedium env)) (rcell (envMedium env)) (envStore env)"
  shows "k < 8 \<and> nsHealthy (envStore env') \<and> (\<exists>rec rec'. durableView (rcell (envMedium env)) k = Some rec
    \<and> durableView (rcell (envMedium env')) = (durableView (rcell (envMedium env)))(k \<mapsto> rec')
    \<and> slotRecord (envStore env') k = rec' \<and> recordAt k (envStore env') = Some rec' \<and> nrState rec = NS_QUEUED \<and> nrState rec' = NS_QUEUED
    \<and> nrAttemptsUsed rec < MAX_ATTEMPTS \<and> nrAttemptsUsed rec' = nrAttemptsUsed rec + 1
    \<and> eventContent rec' = eventContent rec)"
proof -
  let ?st = "envStore env" and ?s = "envMedium env"
  have arm: "armAttempt ops k ?st ?s = (ARMED, envStore env', envMedium env')"
    using assms(1) by (auto simp: storeCall_def split: prod.splits)
  then have op: "applyOp ops (OpArmAttempt k) ?st ?s = (True, identity_init, envStore env', envMedium env')" by simp
  have h: "nsHealthy ?st" using arm by (auto simp: armAttempt_def split: if_splits)
  then have inv: "storeInv device (mcell ?s) (rcell ?s) ?st" using assms(2) by (simp add: nodeInv_def)
  obtain j where j: "opOutcome device (mcell (envMedium env')) (rcell ?s) (rcell (envMedium env')) (intended (OpArmAttempt k) ?st j) True (envStore env')"
    using applyOp_outcome[OF op inv h] by blast
  then have c: "k < 8" "nrState (slotRecord ?st k) = NS_QUEUED" "nrAttemptsUsed (slotRecord ?st k) < MAX_ATTEMPTS"
    "commitOutcome device (mcell (envMedium env')) (rcell ?s) (rcell (envMedium env')) k ((slotRecord ?st k)\<lparr>nrGeneration :=
        nrGeneration (slotRecord ?st k) + 1, nrAttemptsUsed := nrAttemptsUsed (slotRecord ?st k) + 1\<rparr>) True (envStore env')"
    by (auto simp: opOutcome_def split: if_splits)
  moreover have "recordAt k (envStore env') = Some (slotRecord (envStore env') k)"
    using c(1,4) storeInv_recordAt by (auto simp: commitOutcome_def)
  ultimately show ?thesis
    using storeInv_recordAt[OF inv c(1)] by (auto simp: commitOutcome_def eventContent_def)
qed

lemma transmitted_effect:
  assumes "transmitted d c env a c' env'" "ddStorage d = ops" "envInv device mcell rcell c env"
  shows "envInv device mcell rcell c' env'"
    and "rel_option recordKept (durableView (rcell (envMedium env)) k) (durableView (rcell (envMedium env')) k)"
    and "\<exists>rec rec' q len. durableView (rcell (envMedium env)) (ctActiveSlot c) = Some rec
      \<and> durableView (rcell (envMedium env')) (ctActiveSlot c) = Some rec' \<and> recordKept rec rec'
      \<and> nrState rec' = NS_QUEUED \<and> nrAttemptsUsed rec < MAX_ATTEMPTS \<and> nrAttemptsUsed rec' = nrAttemptsUsed rec + 1
      \<and> encodeEvent (attemptEventOf c q rec) (Some (fillZero MAX_PACKET_SIZE)) = (True, Some (raBytes a), raLength a)"
proof -
  define R where "R = (\<lambda>x y. recordKept x y \<and> nrAttemptsUsed y = nrAttemptsUsed x)"
  obtain env1 env2 q p where lifetime: "envPath ops lifetimeOp env env1"
    and arm: "storeCall (armAttempt ops (ctActiveSlot c)) env1 = (ARMED, env2)"
    and env': "envStore env' = envStore env2" "envMedium env' = envMedium env2"
    and c': "c' = c\<lparr>ctPolicy := p, ctState := RS_TX, ctCorrelationValid := True,
        ctAttemptEvent := attemptEventOf c q (the (recordAt (ctActiveSlot c) (envStore env2)))\<rparr>"
    and enc: "encodeEvent (ctAttemptEvent c') (Some (fillZero MAX_PACKET_SIZE)) = (True, Some (raBytes a), raLength a)"
    and slot: "ctActive c" "ctActiveSlot c < 8"
    using assms(1)[unfolded transmitted_def assms(2)] by blast
  note path = lifetime[unfolded envPath_def]
  have node: "nodeInv device (mcell (envMedium env)) (rcell (envMedium env)) (envStore env)" using assms(3) by (simp add: deliveryInv_def)
  have "R x x" "R x y \<Longrightarrow> R y z \<Longrightarrow> R x z" for x y z by (auto simp: R_def intro: recordKept_trans)
  moreover have "R (slotRecord st k) rec" if "lifetimeOp op" "intended op st j = Some (k, rec)" for op st j k rec
    using intended_gentle[OF that(2) lifetime_gentle[OF that(1)]] that by (cases op) (auto simp: R_def split: if_splits)
  ultimately have one: "nodeInv device (mcell (envMedium env1)) (rcell (envMedium env1)) (envStore env1)"
    "rel_option R (durableView (rcell (envMedium env)) k) (durableView (rcell (envMedium env1)) k)" for k
    using path_view[OF path node, of "\<lambda>_. R"] by blast+
  from armed_record[OF arm one(1)] obtain rec1 rec' where two: "durableView (rcell (envMedium env1)) (ctActiveSlot c) = Some rec1"
    "durableView (rcell (envMedium env2)) = (durableView (rcell (envMedium env1)))(ctActiveSlot c \<mapsto> rec')"
    "slotRecord (envStore env2) (ctActiveSlot c) = rec'" "recordAt (ctActiveSlot c) (envStore env2) = Some rec'"
    "nrState rec1 = NS_QUEUED" "nrState rec' = NS_QUEUED" "nrAttemptsUsed rec1 < MAX_ATTEMPTS"
    "nrAttemptsUsed rec' = nrAttemptsUsed rec1 + 1" "eventContent rec' = eventContent rec1"
    by blast
  have path2: "storePath ops gentleOp (envStore env) (envMedium env) (envStore env2) (envMedium env2)"
    using storePath_trans[OF _ storePath_mono[OF path lifetime_gentle]] storeCall_path(6)[OF arm, of gentleOp]
    by (simp add: envPath_def)
  note kept = gentle_kept[OF path2 node]
  have "nodeInv device (mcell (envMedium env2)) (rcell (envMedium env2)) (envStore env2)" by (rule path_inv[OF path2 node])
  moreover have "attemptInv c' (envStore env2)"
    using two slot by (auto simp: attemptInv_def attemptEventOf_def c')
  ultimately show "envInv device mcell rcell c' env'" by (simp add: deliveryInv_def env')
  show "rel_option recordKept (durableView (rcell (envMedium env)) k) (durableView (rcell (envMedium env')) k)"
    using kept by (simp add: env')
  obtain rec where rec: "durableView (rcell (envMedium env)) (ctActiveSlot c) = Some rec" "R rec rec1"
    using one(2)[of "ctActiveSlot c"] two(1) by (auto simp: option_rel_Some2)
  have k: "recordKept rec rec'" using kept[of "ctActiveSlot c"] rec(1) two(2) by simp
  have "ctAttemptEvent c' = attemptEventOf c q rec" using attemptEventOf_kept[OF k, of c q] two(4) by (simp add: c')
  with rec two k enc env' show "\<exists>rec rec' q len. durableView (rcell (envMedium env)) (ctActiveSlot c) = Some rec
      \<and> durableView (rcell (envMedium env')) (ctActiveSlot c) = Some rec' \<and> recordKept rec rec'
      \<and> nrState rec' = NS_QUEUED \<and> nrAttemptsUsed rec < MAX_ATTEMPTS \<and> nrAttemptsUsed rec' = nrAttemptsUsed rec + 1
      \<and> encodeEvent (attemptEventOf c q rec) (Some (fillZero MAX_PACKET_SIZE)) = (True, Some (raBytes a), raLength a)"
    unfolding R_def by (intro exI[of _ rec] exI[of _ rec'] exI[of _ q]) auto
qed

lemma reclaim_attempt:
  assumes "reclaimStep ops c env c' env'" "envInv device mcell rcell c env"
  shows "envInv device mcell rcell c' env'"
proof -
  have node: "nodeInv device (mcell (envMedium env)) (rcell (envMedium env)) (envStore env)" using assms(2) by (simp add: deliveryInv_def)
  consider "ctDegraded c' \<or> \<not> ctCorrelationValid c'" "envPath ops isReclaim env env'"
    | "c' = c" "envPath ops (\<lambda>op. \<exists>k. op = OpReclaim k \<and> \<not> (ctActive c \<and> k = ctActiveSlot c)) env env'"
    using assms(1) by (auto simp: reclaimStep_def)
  then show ?thesis
  proof cases
    case 1
    then show ?thesis using path_inv[OF _ node] by (intro deliveryInv_idle) (auto simp: envPath_def)
  next
    case 2
    show ?thesis
      by (rule path_attempt[OF 2(2)[unfolded envPath_def] assms(2)]) (auto simp: 2(1) split: if_splits)
  qed
qed

lemma reclaim_queued:
  assumes "envPath ops isReclaim env env'" "nodeInv device (mcell (envMedium env)) (rcell (envMedium env)) (envStore env)"
    and "durableView (rcell (envMedium env)) k = Some rec" "nrState rec = NS_QUEUED"
  shows "durableView (rcell (envMedium env')) k = Some rec"
proof -
  define R :: "nodeRecord \<Rightarrow> nodeRecord \<Rightarrow> bool" where "R = (\<lambda>x y. nrState x = NS_QUEUED \<longrightarrow> y = x)"
  have "R x x" "R x y \<Longrightarrow> R y z \<Longrightarrow> R x z" for x y z by (auto simp: R_def)
  moreover have "R (slotRecord st k) rec" if "isReclaim op" "intended op st j = Some (k, rec)" for op st j k rec
    using that by (cases op) (auto simp: R_def split: if_splits)
  ultimately have "rel_option R (durableView (rcell (envMedium env)) k) (durableView (rcell (envMedium env')) k)"
    using path_view[OF assms(1)[unfolded envPath_def] assms(2), of "\<lambda>_. R"] by blast
  with assms(3,4) show ?thesis by (auto simp: R_def option_rel_Some1)
qed

lemma control_inv:
  assumes "applyCtl d op c env = (a, c', env')" "ddStorage d = ops" "envInv device mcell rcell c env"
  shows "envInv device mcell rcell c' env'"
  using assms(1) deliveryInv_active[OF assms(3)]
proof (cases rule: ctl_cases)
  case gentle
  show ?thesis
    by (rule path_attempt[OF gentle(2)[unfolded envPath_def assms(2)] assms(3) _ gentle(3,4)]) (auto dest: intended_gentle)
next
  case transmit
  show ?thesis by (rule transmitted_effect(1)[OF transmit assms(2,3)])
next
  case (release input now)
  have node: "nodeInv device (mcell (envMedium env)) (rcell (envMedium env)) (envStore env)" using assms(3) by (simp add: deliveryInv_def)
  obtain env1 where "envPath ops gentleOp env env1" "envPath ops (\<lambda>op. op = OpReleaseQueued (ctActiveSlot c)) env1 env'"
    using release(3)[unfolded released_def assms(2)] by blast
  with path_inv[OF _ path_inv[OF _ node]] have "nodeInv device (mcell (envMedium env')) (rcell (envMedium env')) (envStore env')"
    by (auto simp: envPath_def)
  then show ?thesis using release(3) by (intro deliveryInv_idle) (auto simp: released_def)
next
  case reclamation
  then show ?thesis using reclaim_attempt assms(2,3) by blast
qed

lemma enqueue_inv:
  assumes "storeCall (enqueue ops input) env = (r, env')" "envInv device mcell rcell c env"
  shows "envInv device mcell rcell c env'"
proof -
  have path: "storePath ops (\<lambda>op. op = OpEnqueue input) (envStore env) (envMedium env) (envStore env') (envMedium env')"
    using envPath_step[of "\<lambda>op. op = OpEnqueue input" "OpEnqueue input" ops env env'] assms(1)
    by (auto simp: storeCall_def envPath_def split: prod.splits)
  have free: "nrState (slotRecord st k) = NS_FREE" if "intended (OpEnqueue input) st j = Some (k, rec)" for st j k rec
    using that find_Some_nth by (fastforce simp: firstFreeSlot_def split: if_splits)
  show ?thesis by (rule path_attempt[OF path assms(2)]) (use free in auto)
qed

lemma deliveryRun_inv:
  assumes "deliveryRun d entropy mcell rcell device c env" "ddStorage d = ops"
  shows "envInv device mcell rcell c env"
  using assms(1)
proof (induction rule: deliveryRun.induct)
  case (start env)
  have "nodeInv device (mcell (envMedium env)) (rcell (envMedium env)) (envStore env)"
    using start by (auto simp: nodeInv_def custody_def durableRecord_def authoritative_def)
  then show ?case by (rule deliveryInv_idle) (simp add: controller_init_def)
next
  case (boot c env res env')
  have r: "ns_recover ops entropy device (envStore env) (envMedium env) = (res, envStore env', envMedium env')"
    using boot.hyps(2) assms(2) by (auto simp: storeCall_def split: prod.splits)
  have "nodeInv device (mcell (envMedium env')) (rcell (envMedium env')) (envStore env')"
    using recover_store_outcome[OF r] boot.IH by (auto simp: nodeInv_def deliveryInv_def)
  then show ?case by (rule deliveryInv_idle) (simp add: controller_init_def)
next
  case (clearFinished env attached now ok oc env')
  have "storePath ops isReclaim (envStore env) (envMedium env) (envStore env') (envMedium env')"
    using clearFinished.hyps(2) reclaimSlots_path[of d _ attached now env ok oc env'] assms(2)
    by (auto simp: reclaimTerminals_def envPath_def storePath.stay split: if_splits)
  from path_inv[OF this] clearFinished.IH show ?case
    by (intro deliveryInv_idle) (auto simp: deliveryInv_def controller_init_def)
next
  case (create c env input r env')
  then show ?case using enqueue_inv assms(2) by blast
next
  case (control c env op a c' env')
  then show ?case using control_inv assms(2) by blast
next
  case (elsewhere c env env')
  then show ?case using nodeInv_core[of "envStore env'" "envStore env"]
    by (auto simp: deliveryInv_def attemptInv_def sameCore_def)
qed

end

end
