(* ===== verification/NodeDeliveryLifetime.thy ===== *)
theory NodeDeliveryLifetime
  imports NodeDeliveryRuns
begin

text \<open>
  The lifetime account.  The policy keeps the elapsed time of a slot in milliseconds and moves it to the durable record in
  whole intervals of sixty seconds; here it is shown that the two together are exact: no time is lost or
  charged twice, and an Event expires at the service that finds its time passed, neither before nor after.
\<close>

subsection \<open>Successful store calls\<close>

text \<open>A healthy store that mirrors its medium.\<close>

abbreviation (input) soundEnv where
  "soundEnv device mcell rcell env \<equiv>
     storeInv device (mcell (envMedium env)) (rcell (envMedium env)) (envStore env) \<and> nsHealthy (envStore env)"

text \<open>Exactly one slot changed, to the given record, and the store is as sound as before.\<close>

definition slotChanged :: "nat \<Rightarrow> nodeRecord \<Rightarrow> ('s, 'e) nodeEnv \<Rightarrow> ('s, 'e) nodeEnv \<Rightarrow> bool" where
  "slotChanged k rec env env' \<longleftrightarrow> slotRecord (envStore env') k = rec
     \<and> (\<forall>j<8. j \<noteq> k \<longrightarrow> slotRecord (envStore env') j = slotRecord (envStore env) j)"

lemma queuedRecord_sound:
  assumes "storeInv device m r st"
  shows "queuedRecord k st = (if k < 8 \<and> nrState (slotRecord st k) = NS_QUEUED then Some (slotRecord st k) else None)"
  using storeInv_recordAt[OF assms, of k] by (auto simp: queuedRecord_def recordAt_def)

context node_storage
begin

lemma op_ok:
  assumes "applyOp ops op (envStore env) (envMedium env) = (True, i, envStore env', envMedium env')"
    and "soundEnv device mcell rcell env" "\<And>input. op \<noteq> OpEnqueue input"
  shows "\<exists>k rec. intended op (envStore env) j = Some (k, rec) \<and> soundEnv device mcell rcell env' \<and> slotChanged k rec env env'"
proof -
  have o: "opOutcome device (mcell (envMedium env')) (rcell (envMedium env)) (rcell (envMedium env')) (intended op (envStore env) j)
      True (envStore env')"
    using slot_op_outcome[OF assms(1,3)] assms(2) by blast
  then obtain k rec where k: "intended op (envStore env) j = Some (k, rec)"
    by (auto simp: opOutcome_def split: option.splits)
  with o have c: "soundEnv device mcell rcell env'" "slotRecord (envStore env') k = rec"
    "durableView (rcell (envMedium env')) = (durableView (rcell (envMedium env)))(k \<mapsto> rec)"
    by (auto simp: opOutcome_def commitOutcome_def)
  have "slotRecord (envStore env') j = slotRecord (envStore env) j" if "j < 8" "j \<noteq> k" for j
    using storeInv_recordAt[of device _ _ "envStore env'" j] storeInv_recordAt[of device _ _ "envStore env" j] c assms(2) that
    by fastforce
  with c k show ?thesis by (auto simp: slotChanged_def)
qed

lemma checkpoint_ok:
  assumes "storeCall (checkpointRemaining ops k t) env = (MUT_OK, env')" "soundEnv device mcell rcell env"
  shows "soundEnv device mcell rcell env' \<and> k < 8 \<and> slotChanged k ((slotRecord (envStore env) k)
    \<lparr>nrGeneration := nrGeneration (slotRecord (envStore env) k) + 1, nrRemainingActiveSeconds := t\<rparr>) env env'"
proof -
  have op: "applyOp ops (OpCheckpointRemaining k t) (envStore env) (envMedium env) = (True, identity_init, envStore env', envMedium env')"
    using assms(1) by (auto simp: storeCall_def split: prod.splits)
  from op_ok[OF op assms(2)] show ?thesis by (fastforce split: if_splits)
qed

lemma expiry_ok:
  assumes "storeCall (markExpired ops k) env = (MUT_OK, env')" "soundEnv device mcell rcell env"
  shows "soundEnv device mcell rcell env' \<and> k < 8 \<and> slotChanged k ((slotRecord (envStore env) k)
    \<lparr>nrGeneration := nrGeneration (slotRecord (envStore env) k) + 1, nrState := NS_EXPIRED\<rparr>) env env'"
proof -
  have op: "applyOp ops (OpMarkExpired k) (envStore env) (envMedium env) = (True, identity_init, envStore env', envMedium env')"
    using assms(1) by (auto simp: storeCall_def split: prod.splits)
  from op_ok[OF op assms(2)] show ?thesis by (fastforce split: if_splits)
qed

end

subsection \<open>The loop of one slot\<close>

text \<open>The account of a queued record: with \<open>u\<close> milliseconds passed since the last charge it is finished as expired
  when they cover what is left; otherwise what is left, in the record and outside, is the same as before.\<close>

definition charged :: "nat \<Rightarrow> nodeRecord \<Rightarrow> nat option \<Rightarrow> nodeRecord \<Rightarrow> bool" where
  "charged u rec u' rec' \<longleftrightarrow> eventContent rec' = eventContent rec \<and> nrAttemptsUsed rec' = nrAttemptsUsed rec
     \<and> (if unat (nrRemainingActiveSeconds rec) * 1000 \<le> u then nrState rec' = NS_EXPIRED \<and> u' = None
        else nrState rec' = NS_QUEUED \<and> (\<exists>v. u' = Some v \<and> v < unat (nrRemainingActiveSeconds rec') * 1000
          \<and> unat (nrRemainingActiveSeconds rec') * 1000 + u = unat (nrRemainingActiveSeconds rec) * 1000 + v
          \<and> (v < 60000 \<or> unat (nrRemainingActiveSeconds rec') \<le> 60)))"

definition passed :: "slotRuntime \<Rightarrow> nat" where
  "passed rt = unat (rtUncommittedMilliseconds rt)"

lemma unat_milliseconds: "unat (ucast (r :: u32) * 1000 :: u64) = unat r * 1000"
proof -
  have "unat r < 2 ^ 32" using unsigned_less[of r] by simp
  then show ?thesis by (simp add: unat_word_ariths unsigned_ucast_eq take_bit_nat_eq_self)
qed

lemma uncommitted_reaches:
  "(ucast (r :: u32) * 1000 :: u64) \<le> u \<longleftrightarrow> unat r * 1000 \<le> unat u"
  by (simp add: word_le_nat_alt unat_milliseconds)

context node_storage
begin

lemma lifetimeLoop_exact:
  assumes "lifetimeLoop ops slot rt env = (DS_READY, rt', env')" "soundEnv device mcell rcell env"
    and "slot < 8" "nrState (slotRecord (envStore env) slot) = NS_QUEUED"
  shows "soundEnv device mcell rcell env' \<and> slotChanged slot (slotRecord (envStore env') slot) env env'
    \<and> (charged (passed rt) (slotRecord (envStore env) slot) None (slotRecord (envStore env') slot) \<and> rt' = slotRuntime_init
      \<or> charged (passed rt) (slotRecord (envStore env) slot) (Some (passed rt')) (slotRecord (envStore env') slot)
        \<and> rt' = rt\<lparr>rtUncommittedMilliseconds := rtUncommittedMilliseconds rt'\<rparr>)"
  using assms
proof (induction "passed rt" arbitrary: rt env rule: less_induct)
  case less
  let ?rec = "slotRecord (envStore env) slot"
  let ?r = "nrRemainingActiveSeconds ?rec" and ?u = "rtUncommittedMilliseconds rt"
  have q: "queuedRecord slot (envStore env) = Some ?rec" using queuedRecord_sound less.prems(2-4) by auto
  note run = less.prems(1)[unfolded lifetimeLoop.simps[of ops slot rt env] q option.case]
  consider (charge) "60 < ?r" "60000 \<le> ?u" | (expire) "\<not> (60 < ?r \<and> 60000 \<le> ?u)" "ucast ?r * 1000 \<le> ?u"
    | (keep) "\<not> (60 < ?r \<and> 60000 \<le> ?u)" "\<not> ucast ?r * 1000 \<le> ?u" by blast
  then show ?case
  proof cases
    case charge
    let ?rt = "rt\<lparr>rtUncommittedMilliseconds := ?u - 60000\<rparr>"
    obtain env1 where call: "storeCall (checkpointRemaining ops slot (?r - 60)) env = (MUT_OK, env1)"
      and rest: "lifetimeLoop ops slot ?rt env1 = (DS_READY, rt', env')"
      using run charge by (auto split: prod.splits if_splits)
    have one: "soundEnv device mcell rcell env1" "slotChanged slot (?rec\<lparr>nrGeneration := nrGeneration ?rec + 1,
        nrRemainingActiveSeconds := ?r - 60\<rparr>) env env1" using checkpoint_ok[OF call less.prems(2)] by auto
    have u: "passed ?rt + 60000 = passed rt" using charge by (simp add: passed_def word_le_nat_alt unat_sub)
    have r: "unat (?r - 60) + 60 = unat ?r" using unat_sub[OF less_imp_le[OF charge(1)]] charge(1) by (simp add: word_less_nat_alt)
    have st: "nrState (slotRecord (envStore env1) slot) = NS_QUEUED" using one(2) less.prems(4) by (simp add: slotChanged_def)
    have "passed ?rt < passed rt" using u by simp
    from less.hyps[OF this rest one(1) less.prems(3) st] one(2) u r show ?thesis
      by (auto simp: slotChanged_def charged_def eventContent_def)
  next
    case expire
    obtain env1 where call: "storeCall (markExpired ops slot) env = (MUT_OK, env1)" and "rt' = slotRuntime_init" "env' = env1"
      using run expire by (auto split: prod.splits if_splits)
    with expiry_ok[OF call less.prems(2)] expire show ?thesis
      by (auto simp: slotChanged_def charged_def eventContent_def uncommitted_reaches passed_def)
  next
    case keep
    then have "rt' = rt" "env' = env" using run by (auto split: if_splits)
    with keep less.prems show ?thesis
      by (auto simp: slotChanged_def charged_def unat_milliseconds passed_def not_less word_le_nat_alt word_less_nat_alt)
  qed
qed

end

subsection \<open>The service of all slots\<close>

text \<open>What a successful service makes of the account and the record of a slot.  A slot that is not queued
  has no account; one that is not tracked yet starts at \<open>now\<close>; otherwise the time since the last service is
  added, modulo the width of the clock, and charged.\<close>

definition slotServiced :: "u32 \<Rightarrow> slotRuntime \<Rightarrow> nodeRecord \<Rightarrow> slotRuntime \<Rightarrow> nodeRecord \<Rightarrow> bool" where
  "slotServiced now rt rec rt' rec' \<longleftrightarrow>
     (if nrState rec \<noteq> NS_QUEUED then rec' = rec \<and> rt' = slotRuntime_init
      else if \<not> rtTracked rt then rec' = rec \<and> rt' = \<lparr>rtTracked = True, rtBaselineMilliseconds = now, rtUncommittedMilliseconds = 0\<rparr>
      else let u = unat (rtUncommittedMilliseconds rt + ucast (now - rtBaselineMilliseconds rt)) in
        if unat (nrRemainingActiveSeconds rec) * 1000 \<le> u then charged u rec None rec' \<and> rt' = slotRuntime_init
        else charged u rec (Some (passed rt')) rec' \<and> rtTracked rt' \<and> rtBaselineMilliseconds rt' = now)"

context node_storage
begin

lemma serviceSlot_exact:
  assumes "serviceSlot ops now slot rt env = (DS_READY, rt', env')" "soundEnv device mcell rcell env" "slot < 8"
  shows "soundEnv device mcell rcell env' \<and> slotChanged slot (slotRecord (envStore env') slot) env env'
    \<and> slotServiced now rt (slotRecord (envStore env) slot) rt' (slotRecord (envStore env') slot)"
proof -
  let ?rec = "slotRecord (envStore env) slot"
  let ?rt = "rt\<lparr>rtBaselineMilliseconds := now,
    rtUncommittedMilliseconds := rtUncommittedMilliseconds rt + ucast (now - rtBaselineMilliseconds rt)\<rparr>"
  have q: "queuedRecord slot (envStore env) = (if nrState ?rec = NS_QUEUED then Some ?rec else None)"
    using queuedRecord_sound assms(2,3) by auto
  show ?thesis
  proof (cases "nrState ?rec = NS_QUEUED \<and> rtTracked rt")
    case False
    with assms q show ?thesis by (auto simp: serviceSlot_def slotChanged_def slotServiced_def split: if_splits)
  next
    case True
    then have run: "lifetimeLoop ops slot ?rt env = (DS_READY, rt', env')" using assms(1) q by (simp add: serviceSlot_def)
    have rt: "rtTracked rt'" "rtBaselineMilliseconds rt' = now" if "rt' = ?rt\<lparr>rtUncommittedMilliseconds := rtUncommittedMilliseconds rt'\<rparr>"
      by (subst that, use True in simp)+
    have p: "passed ?rt = unat (rtUncommittedMilliseconds rt + ucast (now - rtBaselineMilliseconds rt))" by (simp add: passed_def)
    from lifetimeLoop_exact[OF run assms(2,3)] True rt show ?thesis
      unfolding p slotServiced_def Let_def by (auto simp: charged_def)
  qed
qed

lemma serviceSlots_exact:
  assumes "serviceSlots ops now slots p env = (DS_READY, p', env')" "soundEnv device mcell rcell env"
    and "distinct slots" "set slots \<subseteq> {..<8}" "length (plRuntime p) = 8"
  shows "soundEnv device mcell rcell env' \<and> length (plRuntime p') = 8 \<and> plReady p' = plReady p \<and> plStore p' = plStore p
    \<and> (\<forall>k<8. if k \<in> set slots then slotServiced now (plRuntime p ! k) (slotRecord (envStore env) k) (plRuntime p' ! k) (slotRecord (envStore env') k)
       else plRuntime p' ! k = plRuntime p ! k \<and> slotRecord (envStore env') k = slotRecord (envStore env) k)"
  using assms
proof (induction slots arbitrary: p env)
  case (Cons slot slots)
  obtain st rt env1 where one: "serviceSlot ops now slot (plRuntime p ! slot) env = (st, rt, env1)" by (metis prod_cases3)
  let ?p = "p\<lparr>plRuntime := (plRuntime p)[slot := rt]\<rparr>"
  have st: "st = DS_READY" and rest: "serviceSlots ops now slots ?p env1 = (DS_READY, p', env')"
    using Cons.prems(1) one by (auto split: if_splits)
  have slot: "slot < 8" using Cons.prems(4) by simp
  have s: "soundEnv device mcell rcell env1" "slotChanged slot (slotRecord (envStore env1) slot) env env1"
    "slotServiced now (plRuntime p ! slot) (slotRecord (envStore env) slot) rt (slotRecord (envStore env1) slot)"
    using serviceSlot_exact[OF one[unfolded st] Cons.prems(2) slot] by auto
  have d: "slot \<notin> set slots" "distinct slots" "set slots \<subseteq> {..<8}" "length (plRuntime ?p) = 8" using Cons.prems by auto
  note tail = Cons.IH[OF rest s(1) d(2-4)]
  have "if k \<in> set (slot # slots) then slotServiced now (plRuntime p ! k) (slotRecord (envStore env) k) (plRuntime p' ! k) (slotRecord (envStore env') k)
       else plRuntime p' ! k = plRuntime p ! k \<and> slotRecord (envStore env') k = slotRecord (envStore env) k" if k: "k < 8" for k
  proof (cases "k = slot")
    case True
    with tail d(1) k s(3) Cons.prems(5) show ?thesis by auto
  next
    case False
    with tail k s(2) show ?thesis by (auto simp: slotChanged_def)
  qed
  with tail show ?case by auto
qed auto

lemma pl_service_exact:
  assumes "pl_service ops now p env = (DS_READY, p', env')" "soundEnv device mcell rcell env" "length (plRuntime p) = 8"
  shows "soundEnv device mcell rcell env' \<and> length (plRuntime p') = 8 \<and> plReady p' \<and> plStore p'
    \<and> (\<forall>k<8. slotServiced now (plRuntime p ! k) (slotRecord (envStore env) k) (plRuntime p' ! k) (slotRecord (envStore env') k))"
proof -
  let ?env = "observe (plObserver p) (ob_clock now) env"
  have run: "serviceSlots ops now [0..<8] p ?env = (DS_READY, p', env')" "plReady p" "plStore p"
    using assms(1) by (auto simp: pl_service_def split: if_splits)
  have sound: "soundEnv device mcell rcell ?env" using assms(2) by (simp add: quiet_simps)
  have "set [0..<8] \<subseteq> {..<8 :: nat}" by auto
  from serviceSlots_exact[OF run(1) sound distinct_upt this assms(3)] run(2,3) show ?thesis by (auto simp: quiet_simps)
qed

end

end
