(* ===== verification/NodeDeliveryShape.thy ===== *)
theory NodeDeliveryShape
  imports NodeDeliveryRuns
begin

text \<open>
  What no call but recovery changes: the endpoints, the attachment of the policy to the store and the size of its table.
\<close>

definition policyFrame :: "policy \<Rightarrow> policy \<Rightarrow> bool" where
  "policyFrame p p' \<longleftrightarrow> plStore p' = plStore p \<and> length (plRuntime p') = length (plRuntime p)"

definition ctFrame :: "controller \<Rightarrow> controller \<Rightarrow> bool" where
  "ctFrame c c' \<longleftrightarrow> ctSource c' = ctSource c \<and> ctDestination c' = ctDestination c \<and> ctInitialized c' = ctInitialized c
     \<and> ctStore c' = ctStore c \<and> policyFrame (ctPolicy c) (ctPolicy c')"

lemma policyFrame_refl [simp]: "policyFrame p p"
  by (simp add: policyFrame_def)

lemma policyFrame_trans: "policyFrame a b \<Longrightarrow> policyFrame b c \<Longrightarrow> policyFrame a c"
  by (simp add: policyFrame_def)

lemma ctFrame_refl [simp]: "ctFrame c c"
  by (simp add: ctFrame_def)

lemma ctFrame_trans: "ctFrame a b \<Longrightarrow> ctFrame b c \<Longrightarrow> ctFrame a c"
  by (auto simp: ctFrame_def intro: policyFrame_trans)

lemma ctFrame_update [simp]:
  "ctFrame c (c'\<lparr>ctState := x\<rparr>) = ctFrame c c'" "ctFrame c (c'\<lparr>ctActive := y\<rparr>) = ctFrame c c'"
  "ctFrame c (c'\<lparr>ctActiveSlot := k\<rparr>) = ctFrame c c'" "ctFrame c (c'\<lparr>ctDegraded := y\<rparr>) = ctFrame c c'"
  "ctFrame c (c'\<lparr>ctDegradedResult := r\<rparr>) = ctFrame c c'" "ctFrame c (c'\<lparr>ctCorrelationValid := y\<rparr>) = ctFrame c c'"
  "ctFrame c (c'\<lparr>ctAttemptEvent := e\<rparr>) = ctFrame c c'" "ctFrame c (c'\<lparr>ctDeadlineOrigin := t\<rparr>) = ctFrame c c'"
  "ctFrame c (c'\<lparr>ctDeadlineDuration := t\<rparr>) = ctFrame c c'" "ctFrame c (clearAttempt c') = ctFrame c c'"
  "ctFrame c (c\<lparr>ctPolicy := p\<rparr>) = policyFrame (ctPolicy c) p" "ctFrame (c\<lparr>ctState := x\<rparr>) c' = ctFrame c c'"
  by (auto simp: ctFrame_def clearAttempt_def)

lemma serviceSlots_frame: "serviceSlots ops now slots p env = (st, p', env') \<Longrightarrow> policyFrame p p'"
proof (induction slots arbitrary: p env)
  case (Cons slot slots)
  obtain st1 rt env1 where "serviceSlot ops now slot (plRuntime p ! slot) env = (st1, rt, env1)" by (metis prod_cases3)
  with Cons.prems Cons.IH[of "p\<lparr>plRuntime := (plRuntime p)[slot := rt]\<rparr>" env1] show ?case
    by (auto simp: pl_fail_def policyFrame_def split: if_splits)
qed simp

lemma pl_service_frame: "pl_service ops now p env = (st, p', env') \<Longrightarrow> policyFrame p p'"
  by (auto simp: pl_service_def pl_fail_def split: if_splits dest: serviceSlots_frame) (simp_all add: policyFrame_def)

lemma pl_armAttempt_frame:
  assumes "pl_armAttempt ops slot now p env = (a, p', env')"
  shows "policyFrame p p'"
proof -
  obtain st p1 env1 where sv: "pl_service ops now p env = (st, p1, env1)" by (metis prod_cases3)
  obtain x env2 where arm: "storeCall (armAttempt ops slot) env1 = (x, env2)" by fastforce
  have "p' = p \<or> p' = p1 \<or> p' = pl_fail DS_STORE_DEGRADED p1"
    using assms sv arm by (auto simp: pl_armAttempt_def split: if_splits option.splits attemptStatus.splits)
  with pl_service_frame[OF sv] show ?thesis by (auto simp: policyFrame_def pl_fail_def)
qed

lemma serviceLifetime_frame: "serviceLifetime ops now c env = (ok, c', env') \<Longrightarrow> ctFrame c c'"
  by (auto simp: serviceLifetime_def degrade_def changeState_def split: prod.splits if_splits option.splits dest: pl_service_frame)

lemma ct_markFailed_frame: "ct_markFailed ops c env = (ok, c', env') \<Longrightarrow> ctFrame c c'"
  by (auto simp: ct_markFailed_def split: prod.splits if_splits)

lemma degrade_frame: "degrade x b c env = (r, c', env') \<Longrightarrow> ctFrame c c'"
  by (auto simp: degrade_def)

lemma failedAttempt_frame: "failedAttempt d now b c env = (r, c', env') \<Longrightarrow> ctFrame c c'"
  by (auto simp: failedAttempt_def Let_def changeState_def degrade_def split: prod.splits if_splits dest: ct_markFailed_frame)

lemma loadHead_frame: "ctFrame c (loadHead c' env) = ctFrame c c'"
  by (auto simp: loadHead_def split: option.splits)

lemma serviceState_frame: "serviceState d now b c env = (r, c', env') \<Longrightarrow> ctFrame c c'"
  by (auto simp: serviceState_def changeState_def degrade_def split: deliveryState.splits prod.splits if_splits
      dest: ct_markFailed_frame failedAttempt_frame)

lemma ct_service_frame:
  assumes "ct_service d now b c env = (r, c', env')"
  shows "ctFrame c c'"
proof (cases "ct_usable c env")
  case True
  define c1 where "c1 = (if ctState c = RS_RELEASED then loadHead ((clearAttempt c)\<lparr>ctActive := False\<rparr>) env else c)"
  define c2 where "c2 = (if \<not> ctActive c1 then loadHead c1 env else c1)"
  have two: "ctFrame c c2" by (simp add: c2_def c1_def loadHead_frame)
  obtain ok c3 env3 where life: "serviceLifetime (ddStorage d) now c2 env = (ok, c3, env3)" by (metis prod_cases3)
  note three = ctFrame_trans[OF two serviceLifetime_frame[OF life]]
  have "c' = c2 \<or> c' = c3 \<or> serviceState d now b c3 env3 = (r, c', env')"
    using assms True life by (auto simp: ct_service_def c1_def[symmetric] c2_def[symmetric] split: if_splits)
  then show ?thesis using two three by (auto dest: serviceState_frame intro: ctFrame_trans)
qed (use assms in \<open>simp add: ct_service_def\<close>)

lemma grant_frame:
  assumes "grantTransmit d now c env = (r, c', env')"
  shows "ctFrame c c'"
proof -
  obtain ok c1 env1 where life: "serviceLifetime (ddStorage d) now (c\<lparr>ctState := RS_TX_PREPARE\<rparr>) env = (ok, c1, env1)"
    by (metis prod_cases3)
  obtain a p env2 where arm: "pl_armAttempt (ddStorage d) (ctActiveSlot c1) now (ctPolicy c1) env1 = (a, p, env2)"
    by (metis prod_cases3)
  have one: "ctFrame c c1" using serviceLifetime_frame[OF life] by simp
  have two: "ctFrame c (c1\<lparr>ctPolicy := p\<rparr>)" using ctFrame_trans[OF one] pl_armAttempt_frame[OF arm] by simp
  obtain m c3 env3 where mf: "ct_markFailed (ddStorage d) (c1\<lparr>ctPolicy := p\<rparr>) env2 = (m, c3, env3)" by (metis prod_cases3)
  have three: "ctFrame c c3" by (rule ctFrame_trans[OF two ct_markFailed_frame[OF mf]])
  have tx: "ctFrame c c'" if "transmitAttempt d now (c1\<lparr>ctPolicy := p\<rparr>) env2 = (r, c', env')"
    using that two by (auto simp: transmitAttempt_def Let_def degrade_def changeState_def split: prod.splits option.splits if_splits)
  show ?thesis
    using assms life arm mf one two three tx by (auto simp: grantTransmit_def degrade_def split: if_splits)
qed

lemma tx_frames:
  "txStarted d now c env = (r, c', env') \<Longrightarrow> ctFrame c c'"
  "txStartFailed d now c env = (r, c', env') \<Longrightarrow> ctFrame c c'"
  "txCompleted d now c env = (r, c', env') \<Longrightarrow> ctFrame c c'"
  by (auto simp: txStarted_def txStartFailed_def txCompleted_def Let_def changeState_def split: prod.splits if_splits
      dest!: serviceLifetime_frame failedAttempt_frame intro: ctFrame_trans)

lemma admission_frame:
  assumes "admissionCandidate d input now c env = (r, c', env')"
  shows "ctFrame c c'"
proof -
  obtain ok c1 env1 where life: "serviceLifetime (ddStorage d) now c env = (ok, c1, env1)" by (metis prod_cases3)
  note one = serviceLifetime_frame[OF life]
  have dec: "ctFrame c1 c'" if "admissionDecision d st now c1 env2 = (r, c', env')" for st env2
    using that by (auto simp: admissionDecision_def degrade_def split: admissionStatus.splits prod.splits if_splits
        dest: ct_markFailed_frame failedAttempt_frame)
  show ?thesis
    using assms life one dec ctFrame_trans[OF one] by (auto simp: admissionCandidate_def Let_def split: if_splits option.splits)
qed

lemma reclaimTerminal_frame: "reclaimTerminal d c env = (r, c', env') \<Longrightarrow> ctFrame c c'"
  by (auto simp: reclaimTerminal_def degrade_def split: prod.splits if_splits)

lemma reclaimSlots_frame:
  "reclaimSlots d slots (Some c) attached now env = (ok, Some c', env') \<Longrightarrow> ctFrame c c'"
proof (induction slots arbitrary: c env)
  case (Cons slot slots)
  obtain r c1 env1 where rt: "reclaimTerminal d c env = (r, c1, env1)" by (metis prod_cases3)
  note one = reclaimTerminal_frame[OF rt]
  obtain m env2 where call: "storeCall (reclaim (ddStorage d) slot) env = (m, env2)" by fastforce
  show ?case
    using Cons.prems Cons.IH one rt call ctFrame_trans[OF one] by (auto split: if_splits)
qed simp

lemma ct_track_frame: "ct_trackEnqueued slot now c env = (r, c', env') \<Longrightarrow> ctFrame c c'"
  by (auto simp: ct_trackEnqueued_def pl_trackEnqueued_def pl_fail_def degrade_def policyFrame_def split: if_splits)

text \<open>The shape of a controller in any run.\<close>

definition ctShape :: "controller \<Rightarrow> bool" where
  "ctShape c \<longleftrightarrow> length (plRuntime (ctPolicy c)) = 8
     \<and> (ctInitialized c \<longrightarrow> plStore (ctPolicy c) \<and> hasValidEndpoints (ctSource c) (ctDestination c))"

lemma ctFrame_shape: "ctFrame c c' \<Longrightarrow> ctShape c \<Longrightarrow> ctShape c'"
  by (auto simp: ctFrame_def policyFrame_def ctShape_def)

lemma pl_recover_shape:
  "pl_recover ops attached now p env = (st, p', env') \<Longrightarrow> length (plRuntime p') = 8 \<and> plStore p'"
  by (auto simp: pl_recover_def pl_reset_def pl_fail_def initializeTrackedSlots_def Let_def split: if_splits prod.splits)

lemma ct_recover_shape:
  assumes "ct_recover d src hub now diagnostics attached c env = (r, c', env')" "ctShape c"
  shows "ctShape c'"
proof (cases "hasValidEndpoints src hub")
  case False
  with assms show ?thesis by (auto simp: ct_recover_def ct_reset_def clearAttempt_def ctShape_def)
next
  case True
  define c0 where "c0 = (ct_reset c)\<lparr>ctObserver := attached, ctDiagnostics := diagnostics, ctStore := True, ctSource := src, ctDestination := hub\<rparr>"
  obtain st p env1 where rc: "pl_recover (ddStorage d) attached now (ctPolicy c0) env = (st, p, env1)" by (metis prod_cases3)
  have base: "ctShape (c0\<lparr>ctPolicy := p\<rparr>)" "ctShape (c0\<lparr>ctPolicy := p, ctInitialized := True\<rparr>)"
    using pl_recover_shape[OF rc] True by (simp_all add: ctShape_def c0_def)
  define c1 where "c1 = loadHead (c0\<lparr>ctPolicy := p, ctInitialized := True\<rparr>) env1"
  have one: "ctShape c1" using ctFrame_shape[OF _ base(2)] by (simp add: c1_def loadHead_frame)
  obtain ok c2 env2 where mf: "ct_markFailed (ddStorage d) c1 env1 = (ok, c2, env2)" by (metis prod_cases3)
  have two: "ctShape c2" by (rule ctFrame_shape[OF ct_markFailed_frame[OF mf] one])
  have "c' = c1 \<or> c' = c2 \<or> (\<exists>x b e. degrade x b (c0\<lparr>ctPolicy := p\<rparr>) env1 = (r, c', e)) \<or> (\<exists>x b e. degrade x b c2 env2 = (r, c', e))"
    using assms(1) True rc mf unfolding ct_recover_def Let_def c0_def c1_def by (simp split: if_splits) blast+
  then show ?thesis using base one two ctFrame_shape degrade_frame by blast
qed

lemma applyCtl_shape:
  assumes "applyCtl d op c env = (a, c', env')" "ctShape c"
  shows "ctShape c'"
proof (cases op)
  case (CtRecover src hub now diagnostics attached)
  with assms show ?thesis by (auto split: prod.splits intro: ct_recover_shape)
next
  case (CtReclaimAll attached now)
  then obtain ok oc where r: "reclaimTerminals d (Some c) attached now env = (ok, oc, env')" "c' = the oc"
    using assms(1) by (auto split: prod.splits)
  have "ctFrame c c'"
  proof (cases "nsHealthy (envStore env)")
    case True
    with r(1) have run: "reclaimSlots d [0..<8] (Some c) attached now env = (ok, oc, env')" by (simp add: reclaimTerminals_def)
    then obtain c1 where "oc = Some c1" using reclaimSlots_step by blast
    with run r(2) reclaimSlots_frame show ?thesis by auto
  qed (use r in \<open>auto simp: reclaimTerminals_def\<close>)
  with assms(2) show ?thesis using ctFrame_shape by blast
qed (use assms in \<open>auto split: prod.splits intro: ctFrame_shape
    dest!: ct_track_frame ct_service_frame grant_frame tx_frames admission_frame reclaimTerminal_frame\<close>)

lemma deliveryRun_shape: "deliveryRun d entropy mcell rcell device c env \<Longrightarrow> ctShape c"
proof (induction rule: deliveryRun.induct)
  case (control c env op a c' env')
  then show ?case using applyCtl_shape by blast
qed (simp_all add: ctShape_def controller_init_def policy_init_def)

end
