(* ===== verification/NodeDeliveryProgress.thy ===== *)
theory NodeDeliveryProgress
  imports NodeDeliveryLifetime NodeDeliveryShape
begin

text \<open>
  Progress of delivery on a medium that works: no store operation that its guard admits fails, so that the lifetime
  service always completes and leaves every queued Event with time left.
\<close>

subsection \<open>Store operations on a working medium\<close>

lemma stored_valid:
  assumes "storeInv device m r st" "k < 8"
  shows "validateNodeRecord (slotRecord st k) = CR_OK"
proof -
  have "Option.bind (r k (ssActiveCopy (nsSlots st ! k))) decodeNodeRecordForSelection = Some (slotRecord st k)"
    using assms by (intro authoritative_cell[of nrGeneration]) (auto simp: storeInv_def stored_def durableRecord_def)
  then obtain bs where bs: "decodeNodeRecordForSelection bs = Some (slotRecord st k)" by (auto simp: Option.bind_eq_Some_conv)
  then have "decodeNodeRecord (Some bs) = Inr (slotRecord st k)"
    by (cases "decodeNodeRecord (Some bs)") (simp_all add: decodeNodeRecordForSelection_def)
  then show ?thesis using decodeNodeRecord_InrD by blast
qed

lemma attempt_next: "(a :: u8) < 5 \<Longrightarrow> a + 1 \<le> 5"
  by (simp add: word_less_nat_alt word_le_nat_alt unat_word_ariths)

lemma occupied_valid:
  assumes "nrState v \<noteq> NS_FREE"
  shows "validateNodeRecord v = CR_OK \<longleftrightarrow> validNodeState (nrState v) \<and> nrAttemptsUsed v \<le> MAX_ATTEMPTS
    \<and> nrRemainingActiveSeconds v \<le> nrLifetimeBudgetSeconds v
    \<and> validCanonicalEvent 1 (nrFamily v) (nrFlags v) (nrBodyLength v) (nrEventEpoch v) (nrEventId v) (nrLifetimeBudgetSeconds v) (nrBody v)
    \<and> allZero (drop (unat (nrBodyLength v)) (nrBody v)) (MAX_BODY_SIZE - unat (nrBodyLength v))"
  using assms unfolding validateNodeRecord_def by (auto simp: not_le[symmetric])

context working_node_storage
begin

text \<open>The record that an operation is to commit is valid.\<close>

lemma intended_committable:
  assumes "storeInv device m r st" "intended op st j = Some (k, rec)" "\<And>input. op \<noteq> OpEnqueue input"
  shows "committable st k rec \<and> validateNodeRecord rec = CR_OK"
proof -
  have k: "k < 8" by (rule intended_slot[OF assms(2)])
  have valid: "validateNodeRecord (slotRecord st k) = CR_OK" by (rule stored_valid[OF assms(1) k])
  have wf: "nodeRecord_wf (slotRecord st k)" using stored_wf[of r st k] assms(1) k by (simp add: storeInv_def)
  have "rec = freeRecord (nrGeneration (slotRecord st k) + 1) \<or> nrState (slotRecord st k) = NS_QUEUED
      \<and> nrGeneration rec = nrGeneration (slotRecord st k) + 1 \<and> recordKey rec = recordKey (slotRecord st k)
      \<and> nodeRecord_wf rec \<and> validateNodeRecord rec = CR_OK"
    using assms(2,3) valid wf attempt_next
    by (cases op) (auto simp: nodeRecord_wf_def recordKey_def occupied_valid validNodeState_def split: if_split_asm
      intro: less_imp_le order.trans)
  then show ?thesis using committable_free[OF k] freeRecord_valid committable_same[OF assms(1) k] by auto
qed

lemma slot_op_works:
  assumes inv: "storeInv device (mcell s) (rcell s) st" "nsHealthy st"
    and op: "intended op st j = Some (k, rec)" "\<And>input. op \<noteq> OpEnqueue input"
  shows "\<exists>st' s'. applyOp ops op st s = (True, identity_init, st', s')"
proof -
  note c = intended_committable[OF inv(1) op]
  obtain bs where bs: "nodeRecordImage rec = Some bs" using c image_of_valid by blast
  obtain st1 s1 where ci: "commitAndIndex ops k rec st s = (MUT_OK, st1, s1)"
    using commitAndIndex_works[OF inv(1) _ bs] c by blast
  then obtain st2 where cm: "commitMutation ops k rec st s = (True, st2, s1)"
    by (auto simp: commitAndIndex_def split: prod.splits if_splits)
  show ?thesis
  proof (cases op)
    case (OpMarkFailed k')
    with op(1) ci inv(2) show ?thesis by (auto simp: markFailed_def ns_transition_def split: if_splits)
  next
    case (OpMarkExpired k')
    with op(1) ci inv(2) show ?thesis by (auto simp: markExpired_def ns_transition_def split: if_splits)
  next
    case (OpReclaim k')
    with op(1) ci inv(2) show ?thesis by (auto simp: reclaim_def makeFree_def split: if_splits)
  next
    case (OpReleaseQueued k')
    with op(1) ci inv(2) show ?thesis by (auto simp: releaseQueued_def makeFree_def split: if_splits)
  next
    case (OpCheckpointRemaining k' t)
    with op(1) cm inv(2) show ?thesis by (auto simp: checkpointRemaining_def not_le word_gt_0 split: if_splits)
  next
    case (OpArmAttempt k')
    with op(1) cm inv(2) show ?thesis by (auto simp: armAttempt_def not_le split: if_splits)
  qed (use op(2) in blast)
qed

lemma checkpoint_works:
  assumes "soundEnv device mcell rcell env" "k < 8" "nrState (slotRecord (envStore env) k) = NS_QUEUED"
    and "0 < t" "t < nrRemainingActiveSeconds (slotRecord (envStore env) k)"
  shows "\<exists>env'. storeCall (checkpointRemaining ops k t) env = (MUT_OK, env')"
  using slot_op_works[of device "envMedium env" "envStore env" "OpCheckpointRemaining k t"] assms
  by (auto simp: storeCall_def split: prod.splits)

lemma expiry_works:
  assumes "soundEnv device mcell rcell env" "k < 8" "nrState (slotRecord (envStore env) k) = NS_QUEUED"
  shows "\<exists>env'. storeCall (markExpired ops k) env = (MUT_OK, env')"
  using slot_op_works[of device "envMedium env" "envStore env" "OpMarkExpired k"] assms
  by (auto simp: storeCall_def split: prod.splits)

lemma arm_works:
  assumes "soundEnv device mcell rcell env" "k < 8" "nrState (slotRecord (envStore env) k) = NS_QUEUED"
    and "nrAttemptsUsed (slotRecord (envStore env) k) < MAX_ATTEMPTS"
  shows "\<exists>env'. storeCall (armAttempt ops k) env = (ARMED, env')"
  using slot_op_works[of device "envMedium env" "envStore env" "OpArmAttempt k"] assms
  by (auto simp: storeCall_def split: prod.splits)

lemma lifetimeLoop_ready:
  assumes "soundEnv device mcell rcell env"
  shows "\<exists>rt' env'. lifetimeLoop ops slot rt env = (DS_READY, rt', env')"
  using assms
proof (induction "passed rt" arbitrary: rt env rule: less_induct)
  case less
  let ?rec = "slotRecord (envStore env) slot"
  let ?r = "nrRemainingActiveSeconds ?rec" and ?u = "rtUncommittedMilliseconds rt"
  show ?case
  proof (cases "slot < 8 \<and> nrState ?rec = NS_QUEUED")
    case False
    then have "queuedRecord slot (envStore env) = None" using queuedRecord_sound less.prems by auto
    then show ?thesis by (subst lifetimeLoop.simps) simp
  next
    case True
    then have q: "queuedRecord slot (envStore env) = Some ?rec" using queuedRecord_sound less.prems by auto
    note unfolded = lifetimeLoop.simps[of ops slot rt env, unfolded q option.case]
    show ?thesis
    proof (cases "60 < ?r \<and> 60000 \<le> ?u")
      case charge: True
      then have r: "0 < ?r - 60" "?r - 60 < ?r" by (simp_all add: word_less_nat_alt unat_sub[OF less_imp_le])
      obtain env1 where call: "storeCall (checkpointRemaining ops slot (?r - 60)) env = (MUT_OK, env1)"
        using checkpoint_works[OF less.prems _ _ r] True by auto
      let ?rt = "rt\<lparr>rtUncommittedMilliseconds := ?u - 60000\<rparr>"
      have "passed ?rt < passed rt" using charge by (simp add: passed_def word_le_nat_alt unat_sub)
      from less.hyps[OF this] checkpoint_ok[OF call less.prems] obtain rt' env'
        where "lifetimeLoop ops slot ?rt env1 = (DS_READY, rt', env')" by blast
      then show ?thesis unfolding unfolded using charge call by simp
    next
      case keep: False
      obtain env1 where "storeCall (markExpired ops slot) env = (MUT_OK, env1)" using expiry_works[OF less.prems] True by blast
      then show ?thesis unfolding unfolded using keep by auto
    qed
  qed
qed

lemma serviceSlots_ready:
  assumes "soundEnv device mcell rcell env" "set slots \<subseteq> {..<8}"
  shows "\<exists>p' env'. serviceSlots ops now slots p env = (DS_READY, p', env')"
  using assms
proof (induction slots arbitrary: p env)
  case (Cons slot slots)
  have "\<exists>rt env1. serviceSlot ops now slot (plRuntime p ! slot) env = (DS_READY, rt, env1)"
    unfolding serviceSlot_def Let_def using lifetimeLoop_ready[OF Cons.prems(1)] by simp
  then obtain rt env1 where one: "serviceSlot ops now slot (plRuntime p ! slot) env = (DS_READY, rt, env1)" by blast
  have "soundEnv device mcell rcell env1" using serviceSlot_exact[OF one Cons.prems(1)] Cons.prems(2) by simp
  from Cons.IH[OF this] Cons.prems(2) one show ?case by simp
qed simp

lemma pl_service_ready:
  assumes "soundEnv device mcell rcell env" "plReady p" "plStore p"
  shows "\<exists>p' env'. pl_service ops now p env = (DS_READY, p', env')"
proof -
  let ?env = "observe (plObserver p) (ob_clock now) env"
  have "soundEnv device mcell rcell ?env" using assms(1) by (simp add: quiet_simps)
  from serviceSlots_ready[OF this, of "[0..<8]" now p] assms show ?thesis
    by (auto simp: pl_service_def quiet_simps atLeast0LessThan)
qed

end

subsection \<open>The head of the queue\<close>

text \<open>The head is the queued slot with the least identity.\<close>

lemma queue_head:
  assumes "storeInv device m r st"
  shows "(\<exists>rec. queuedAt 0 st = Some (rec, k)) \<longleftrightarrow> k < 8 \<and> nrState (slotRecord st k) = NS_QUEUED
    \<and> (\<forall>j<8. nrState (slotRecord st j) = NS_QUEUED \<longrightarrow> recordKey (slotRecord st k) \<le> recordKey (slotRecord st j))"
proof -
  define q where "q = take (nsQueueCount st) (nsQueue st)"
  have pres: "\<forall>k<8. ssPresent (nsSlots st ! k)" and ix: "indexed st" using assms by (auto simp: storeInv_def stored_def)
  have set: "set q = {k. k < 8 \<and> nrState (slotRecord st k) = NS_QUEUED}" and len: "length q = nsQueueCount st"
    and sorted: "sorted_wrt (\<lambda>a b. recordKey (slotRecord st a) < recordKey (slotRecord st b)) q"
    using ix pres by (auto simp: indexed_def q_def queuedSlot_def sorted_wrt_map identityOf_recordKey)
  show ?thesis
  proof (cases q)
    case Nil
    with len set show ?thesis by (auto simp: queuedAt_def)
  next
    case (Cons x xs)
    then have "nsQueue st ! 0 = x" "0 < nsQueueCount st" using len nth_take[of 0 "nsQueueCount st" "nsQueue st"] by (auto simp: q_def)
    then have "(\<exists>rec. queuedAt 0 st = Some (rec, k)) \<longleftrightarrow> k = x" by (auto simp: queuedAt_def)
    moreover have "x \<in> set q" "\<forall>j\<in>set q. j = x \<or> recordKey (slotRecord st x) < recordKey (slotRecord st j)"
      using Cons sorted by auto
    moreover have "k = x \<longleftrightarrow> k < 8 \<and> nrState (slotRecord st k) = NS_QUEUED
      \<and> (\<forall>j<8. nrState (slotRecord st j) = NS_QUEUED \<longrightarrow> recordKey (slotRecord st k) \<le> recordKey (slotRecord st j))"
      (is "_ \<longleftrightarrow> ?least")
    proof
      assume "k = x"
      with calculation(2,3) set show ?least by (auto intro: less_imp_le)
    next
      assume least: ?least
      with calculation(2) set have "recordKey (slotRecord st k) \<le> recordKey (slotRecord st x)" "k \<in> set q" by auto
      with calculation(3) show "k = x" by (auto dest: leD)
    qed
    ultimately show ?thesis by simp
  qed
qed

text \<open>The Event of a valid record can be sent.\<close>

lemma attemptEvent_valid:
  assumes "validateNodeRecord rec = CR_OK" "nodeRecord_wf rec" "nrState rec = NS_QUEUED" "hasValidEndpoints (ctSource c) (ctDestination c)"
  shows "isValidEvent (attemptEventOf c q rec)" "unat (nrBodyLength rec) \<le> 12"
proof -
  note body = validateNodeRecord_body[OF assms(1)]
  have "copyBytes (fillZero 12) 0 (nrBody rec) (unat (nrBodyLength rec)) = nrBody rec"
    using body assms(2) by (intro nth_equalityI) (auto simp: buffer_simps nodeRecord_wf_def)
  then show "isValidEvent (attemptEventOf c q rec)" "unat (nrBodyLength rec) \<le> 12"
    using assms body(1) by (auto simp: isValidEvent_def attemptEventOf_def event_init_def occupied_valid validCanonicalEvent_def)
qed

lemma service_keeps_head:
  assumes "\<And>k. k < 8 \<Longrightarrow> slotServiced now (rt k) (slotRecord st k) (rt' k) (slotRecord st' k)"
    and "storeInv device m r st" "storeInv device m' r' st'" "queuedAt 0 st = Some (rec, k)" "nrState (slotRecord st' k) = NS_QUEUED"
  shows "\<exists>rec'. queuedAt 0 st' = Some (rec', k)"
proof -
  have key: "nrState (slotRecord st j) = NS_QUEUED \<and> recordKey (slotRecord st' j) = recordKey (slotRecord st j)"
    if "j < 8" "nrState (slotRecord st' j) = NS_QUEUED" for j
    using assms(1)[OF that(1)] that(2)
    by (auto simp: slotServiced_def charged_def eventContent_def recordKey_def Let_def split: if_splits)
  have "k < 8" "\<forall>j<8. nrState (slotRecord st j) = NS_QUEUED \<longrightarrow> recordKey (slotRecord st k) \<le> recordKey (slotRecord st j)"
    using queue_head[OF assms(2), of k] assms(4) by auto
  with key assms(5) show ?thesis unfolding queue_head[OF assms(3)] by auto
qed

text \<open>A tracked Event with time left at \<open>now\<close> is still queued after the service at \<open>now\<close>, tracked from \<open>now\<close> on.\<close>

definition timeLeft :: "u32 \<Rightarrow> slotRuntime \<Rightarrow> nodeRecord \<Rightarrow> bool" where
  "timeLeft now rt rec \<longleftrightarrow> rtTracked rt
     \<and> unat (rtUncommittedMilliseconds rt + ucast (now - rtBaselineMilliseconds rt)) < unat (nrRemainingActiveSeconds rec) * 1000"

lemma serviced_timeLeft:
  assumes "slotServiced now rt rec rt' rec'" "timeLeft now rt rec" "nrState rec = NS_QUEUED"
  shows "nrState rec' = NS_QUEUED \<and> nrAttemptsUsed rec' = nrAttemptsUsed rec \<and> timeLeft now rt' rec'
    \<and> rtTracked rt' \<and> rtUncommittedMilliseconds rt' < ucast (nrRemainingActiveSeconds rec') * 1000"
  using assms by (auto simp: slotServiced_def charged_def timeLeft_def passed_def Let_def not_le word_less_nat_alt unat_milliseconds)

context working_node_storage
begin

lemma armAttempt_ready:
  assumes "soundEnv device mcell rcell env" "plReady p" "plStore p" "length (plRuntime p) = 8" "k < 8"
    and "nrState (slotRecord (envStore env) k) = NS_QUEUED" "timeLeft now (plRuntime p ! k) (slotRecord (envStore env) k)"
    and "nrAttemptsUsed (slotRecord (envStore env) k) < 5"
  shows "\<exists>p' env'. pl_armAttempt ops k now p env = (AR_ARMED, p', env')"
proof -
  obtain p1 env1 where sv: "pl_service ops now p env = (DS_READY, p1, env1)" using pl_service_ready[OF assms(1-3)] by blast
  note ex = pl_service_exact[OF sv assms(1,4)]
  have sound: "soundEnv device mcell rcell env1" using ex by blast
  have left: "nrState (slotRecord (envStore env1) k) = NS_QUEUED" "nrAttemptsUsed (slotRecord (envStore env1) k) < 5"
    "rtTracked (plRuntime p1 ! k)"
    "rtUncommittedMilliseconds (plRuntime p1 ! k) < ucast (nrRemainingActiveSeconds (slotRecord (envStore env1) k)) * 1000"
    using serviced_timeLeft[OF _ assms(7,6)] ex assms(5,8) by auto
  have rec: "recordAt k (envStore env1) = Some (slotRecord (envStore env1) k)"
    "queuedRecord k (envStore env1) = Some (slotRecord (envStore env1) k)"
    using storeInv_recordAt queuedRecord_sound sound assms(5) left(1) by auto
  have el: "eligible k p1 (envStore env1)" using ex sound left rec assms(5) by (simp add: eligible_def)
  obtain env2 where "storeCall (armAttempt ops k) env1 = (ARMED, env2)"
    using arm_works[OF sound assms(5) left(1)] left(2) by auto
  with sv rec left(1) el assms(2,5) show ?thesis by (simp add: pl_armAttempt_def)
qed

lemma transmitAttempt_ready:
  assumes "soundEnv device mcell rcell env" "ctActive c" "ctStore c" "ctActiveSlot c < 8"
    and "nrState (slotRecord (envStore env) (ctActiveSlot c)) = NS_QUEUED" "hasValidEndpoints (ctSource c) (ctDestination c)"
    and "\<And>e. fst (ddSequence d e) \<noteq> None"
  shows "\<exists>r c' env'. transmitAttempt d now c env = (r, c', env') \<and> raType (clAction r) = RA_TRANSMIT"
proof -
  let ?rec = "slotRecord (envStore env) (ctActiveSlot c)"
  obtain q sources where seq: "ddSequence d (envSources env) = (Some q, sources)"
    using assms(7)[of "envSources env"] by (cases "ddSequence d (envSources env)") auto
  have rec: "ct_record c (env\<lparr>envSources := sources\<rparr>) = Some ?rec"
    using storeInv_recordAt assms(1-4) by (auto simp: ct_record_def)
  have "validateNodeRecord ?rec = CR_OK" "nodeRecord_wf ?rec"
    using stored_valid stored_wf[of "rcell (envMedium env)" "envStore env"] assms(1,4) by (auto simp: storeInv_def)
  note v = attemptEvent_valid[OF this assms(5,6)]
  have len: "evBodyLength (attemptEventOf c q ?rec) = nrBodyLength ?rec" by (simp add: attemptEventOf_def)
  have "fst (encodeEvent (attemptEventOf c q ?rec) (Some (fillZero 32)))"
    using encodeEvent_ok[OF v(1)[of q], of "fillZero 32"] v(2) by (simp add: len)
  with seq rec show ?thesis by (auto simp: transmitAttempt_def Let_def split: prod.splits)
qed

lemma grant_ready:
  assumes sound: "soundEnv device mcell rcell env" and d: "ddStorage d = ops"
    and use: "ct_usable c env" "plStore (ctPolicy c)" "length (plRuntime (ctPolicy c)) = 8" "ctActive c" "ctState c = RS_READY"
    and head: "headStillAuthoritative c env" and left: "timeLeft now (plRuntime (ctPolicy c) ! ctActiveSlot c) (slotRecord (envStore env) (ctActiveSlot c))"
    and attempts: "nrAttemptsUsed (slotRecord (envStore env) (ctActiveSlot c)) < 5"
    and ends: "hasValidEndpoints (ctSource c) (ctDestination c)" and seq: "\<And>e. fst (ddSequence d e) \<noteq> None"
  shows "\<exists>r c' env'. grantTransmit d now c env = (r, c', env') \<and> raType (clAction r) = RA_TRANSMIT"
proof -
  let ?k = "ctActiveSlot c"
  obtain rec where h: "queuedAt 0 (envStore env) = Some (rec, ?k)" using head by (auto simp: headStillAuthoritative_def split: option.splits)
  then have k: "?k < 8" "nrState (slotRecord (envStore env) ?k) = NS_QUEUED"
    using queue_head[of device "mcell (envMedium env)" "rcell (envMedium env)" "envStore env" ?k] sound by auto
  have ready: "plReady (ctPolicy c)" "ctStore c" using use(1) by (auto simp: ct_usable_def)
  obtain p env1 where sv: "pl_service ops now (ctPolicy c) env = (DS_READY, p, env1)"
    using pl_service_ready[OF sound ready(1) use(2)] by blast
  note ex = pl_service_exact[OF sv sound use(3)]
  have s1: "soundEnv device mcell rcell env1" using ex by blast
  have l1: "nrState (slotRecord (envStore env1) ?k) = NS_QUEUED" "nrAttemptsUsed (slotRecord (envStore env1) ?k) < 5"
    "timeLeft now (plRuntime p ! ?k) (slotRecord (envStore env1) ?k)"
    using serviced_timeLeft[OF _ left k(2)] ex k(1) attempts by auto
  define c1 where "c1 = c\<lparr>ctState := RS_TX_PREPARE, ctPolicy := p\<rparr>"
  define env2 where "env2 = noteExpired c1 now (envStore env) env1"
  have q2: "envStore env2 = envStore env1" "envMedium env2 = envMedium env1" by (simp_all add: env2_def quiet_simps)
  have r1: "ct_record c1 env2 = Some (slotRecord (envStore env1) ?k)"
    using storeInv_recordAt s1 k(1) use(4) ready(2) by (auto simp: ct_record_def c1_def q2)
  have life: "serviceLifetime ops now (c\<lparr>ctState := RS_TX_PREPARE\<rparr>) env = (True, c1, env2)"
    using sv r1 l1(1) by (simp add: serviceLifetime_def c1_def[symmetric] env2_def[symmetric])
  obtain rec1 where "queuedAt 0 (envStore env1) = Some (rec1, ?k)"
    using service_keeps_head[of now "(!) (plRuntime (ctPolicy c))" "envStore env" "(!) (plRuntime p)" "envStore env1"] ex sound s1 h l1(1) by blast
  then have auth: "headStillAuthoritative c1 env2" using r1 l1(1) by (simp add: headStillAuthoritative_def q2 c1_def)
  have s2: "soundEnv device mcell rcell env2" using s1 by (simp add: q2)
  obtain p' env3 where arm: "pl_armAttempt ops ?k now p env2 = (AR_ARMED, p', env3)"
    using armAttempt_ready[OF s2, of p ?k now] k(1) ex l1 by (auto simp: q2)
  obtain env4 where a: "envPath ops lifetimeOp env2 env4" "storeCall (armAttempt ops ?k) env4 = (ARMED, env3)"
    using pl_armAttempt_armed[OF arm] by blast
  have node: "nodeInv device (mcell (envMedium env2)) (rcell (envMedium env2)) (envStore env2)"
    using s2 storeInv_custody by (auto simp: nodeInv_def)
  have n4: "nodeInv device (mcell (envMedium env4)) (rcell (envMedium env4)) (envStore env4)"
    using path_inv[OF a(1)[unfolded envPath_def] node] .
  note armed = armed_record[OF a(2) n4]
  have n3: "nodeInv device (mcell (envMedium env3)) (rcell (envMedium env3)) (envStore env3)"
    using path_inv[OF _ n4, of "\<lambda>_. True"] storeCall_path(6)[OF a(2), of "\<lambda>_. True"] by (auto simp: envPath_def)
  then have s3: "soundEnv device mcell rcell env3" using armed by (auto simp: nodeInv_def)
  have "\<exists>r c' env'. transmitAttempt d now (c1\<lparr>ctPolicy := p'\<rparr>) env3 = (r, c', env') \<and> raType (clAction r) = RA_TRANSMIT"
    using armed k(1) use(4) ready(2) ends seq by (intro transmitAttempt_ready[OF s3]) (auto simp: c1_def)
  then show ?thesis
    using use(1,4,5) d life auth arm by (auto simp: grantTransmit_def c1_def)
qed

lemma service_then_ready:
  assumes sound: "soundEnv device mcell rcell env" and d: "ddStorage d = ops"
    and use: "ct_usable c env" "plStore (ctPolicy c)" "length (plRuntime (ctPolicy c)) = 8" "\<not> ctActive c \<or> ctState c = RS_RELEASED"
    and head: "queuedAt 0 (envStore env) = Some (rec, k)" and left: "timeLeft now (plRuntime (ctPolicy c) ! k) rec"
    and attempts: "nrAttemptsUsed rec < 5"
  shows "\<exists>r c' env'. ct_service d now False c env = (r, c', env') \<and> soundEnv device mcell rcell env' \<and> ct_usable c' env'
    \<and> ctActive c' \<and> ctState c' = RS_READY \<and> ctActiveSlot c' = k \<and> headStillAuthoritative c' env'
    \<and> timeLeft now (plRuntime (ctPolicy c') ! k) (slotRecord (envStore env') k) \<and> nrAttemptsUsed (slotRecord (envStore env') k) < 5"
proof -
  define c2 where "c2 = (if ctState c = RS_RELEASED then clearAttempt c else c)\<lparr>ctActive := True, ctActiveSlot := k, ctState := RS_QUEUED\<rparr>"
  have ready: "plReady (ctPolicy c)" "ctStore c" "ctInitialized c" "\<not> ctDegraded c" using use(1) by (auto simp: ct_usable_def)
  have k: "k < 8" "nrState (slotRecord (envStore env) k) = NS_QUEUED" "rec = slotRecord (envStore env) k"
    using queue_head[of device "mcell (envMedium env)" "rcell (envMedium env)" "envStore env" k] sound head
    by (auto simp: queuedAt_def split: if_splits)
  have load: "ct_service d now False c env = (case serviceLifetime ops now c2 env of (ok, c, env) \<Rightarrow>
      if \<not> ok then (ctDegradedResult c, c, env) else if ctState c = RS_EXPIRED then (receiveResult, c, env)
      else if ct_terminal c then (ct_result CS_OK, c, env) else serviceState d now False c env)"
    using use(1,4) head ready d by (auto simp: ct_service_def loadHead_def c2_def clearAttempt_def)
  have pol: "ctPolicy c2 = ctPolicy c" by (simp add: c2_def clearAttempt_def)
  obtain p env1 where sv: "pl_service ops now (ctPolicy c2) env = (DS_READY, p, env1)"
    using pl_service_ready[OF sound] ready(1) use(2) pol by metis
  note ex = pl_service_exact[OF sv sound use(3)[folded pol]]
  have s1: "soundEnv device mcell rcell env1" using ex by blast
  have l1: "nrState (slotRecord (envStore env1) k) = NS_QUEUED" "nrAttemptsUsed (slotRecord (envStore env1) k) < 5"
    "timeLeft now (plRuntime p ! k) (slotRecord (envStore env1) k)"
    using serviced_timeLeft[OF _ left[unfolded k(3)] k(2)] ex k(1,3) attempts pol by auto
  define c3 where "c3 = c2\<lparr>ctPolicy := p\<rparr>"
  define env2 where "env2 = noteExpired c3 now (envStore env) env1"
  have q2: "envStore env2 = envStore env1" "envMedium env2 = envMedium env1" by (simp_all add: env2_def quiet_simps)
  have c3: "ctActive c3" "ctActiveSlot c3 = k" "ctState c3 = RS_QUEUED" "ctStore c3" "ctInitialized c3" "\<not> ctDegraded c3" "ctPolicy c3 = p"
    using ready by (simp_all add: c3_def c2_def clearAttempt_def)
  have r1: "ct_record c3 env2 = Some (slotRecord (envStore env1) k)"
    using storeInv_recordAt s1 k(1) c3 by (auto simp: ct_record_def q2)
  have life: "serviceLifetime ops now c2 env = (True, c3, env2)"
    using sv r1 l1(1) by (simp add: serviceLifetime_def c3_def[symmetric] env2_def[symmetric])
  obtain c4 env4 where cs: "changeState RS_READY now c3 env2 = (c4, env4)" by fastforce
  note q4 = changeState_quiet[OF cs]
  have run: "ct_service d now False c env = (ct_result CS_OK, c4, env4)"
    using load life r1 l1(2)[folded not_le] c3(3) cs by (simp add: ct_terminal_def serviceState_def)
  obtain rec1 where "queuedAt 0 (envStore env1) = Some (rec1, k)"
    using service_keeps_head[of now "(!) (plRuntime (ctPolicy c2))" "envStore env" "(!) (plRuntime p)" "envStore env1"] ex sound s1 head l1(1) by blast
  then have auth: "headStillAuthoritative c4 env4"
    using r1 l1(1) c3 q4 by (auto simp: headStillAuthoritative_def q2 ct_record_def split: if_splits)
  show ?thesis
    using run s1 q4 q2 c3 l1 auth ex by (auto simp: ct_usable_def)
qed

lemma deliver_ready:
  assumes run: "deliveryRun d entropy mcell rcell device c env" and d: "ddStorage d = ops"
    and c: "ct_usable c env" "\<not> ctActive c \<or> ctState c = RS_RELEASED"
    and head: "queuedAt 0 (envStore env) = Some (rec, k)" and rec: "nrAttemptsUsed rec < 5" "timeLeft now (plRuntime (ctPolicy c) ! k) rec"
    and seq: "\<And>e. fst (ddSequence d e) \<noteq> None"
  shows "\<exists>r c1 env1 a c' env'. ct_service d now False c env = (r, c1, env1) \<and> ctActiveSlot c1 = k
    \<and> applyCtl d (CtGrant now) c1 env1 = (a, c', env') \<and> raType a = RA_TRANSMIT"
proof -
  have sound: "soundEnv device mcell rcell env"
    using deliveryRun_inv[OF run d] usable_healthy[OF c(1)] by (simp add: deliveryInv_def nodeInv_def)
  have shape: "plStore (ctPolicy c)" "length (plRuntime (ctPolicy c)) = 8" "hasValidEndpoints (ctSource c) (ctDestination c)"
    using deliveryRun_shape[OF run] c(1) by (auto simp: ctShape_def ct_usable_def)
  obtain r c1 env1 where one: "ct_service d now False c env = (r, c1, env1)" "soundEnv device mcell rcell env1" "ct_usable c1 env1"
    "ctActive c1" "ctState c1 = RS_READY" "ctActiveSlot c1 = k" "headStillAuthoritative c1 env1"
    "timeLeft now (plRuntime (ctPolicy c1) ! k) (slotRecord (envStore env1) k)" "nrAttemptsUsed (slotRecord (envStore env1) k) < 5"
    using service_then_ready[OF sound d c(1) shape(1,2) c(2) head rec(2,1)] by auto
  have "ctFrame c c1" by (rule ct_service_frame[OF one(1)])
  with shape have s1: "plStore (ctPolicy c1)" "length (plRuntime (ctPolicy c1)) = 8" "hasValidEndpoints (ctSource c1) (ctDestination c1)"
    by (auto simp: ctFrame_def policyFrame_def)
  from grant_ready[OF one(2) d one(3) s1(1,2) one(4,5,7) _ _ s1(3) seq] one(6,8,9)
  obtain r2 c' env' where "grantTransmit d now c1 env1 = (r2, c', env')" "raType (clAction r2) = RA_TRANSMIT" by blast
  with one show ?thesis by auto
qed

end

end
