(* ===== verification/NodeDeliveryProperties.thy ===== *)
theory NodeDeliveryProperties
  imports NodeDeliveryProgress
begin

text \<open>
  The properties of delivery on the Node: custody of an Event until its admission, the durable count of attempts in
  front of every transmission, and progress on a medium that works.
\<close>

subsection \<open>A Node with an Event to deliver\<close>

definition ramDelivery :: "(nodeRam, unit) deliveryDeps" where
  "ramDelivery = \<lparr>ddStorage = ramNode, ddSequence = \<lambda>e. (Some 9, e), ddJitter = \<lambda>e. (0, e)\<rparr>"

lemma ramDelivery_simps [simp]:
  "ddStorage ramDelivery = ramNode" "fst (ddSequence ramDelivery e) = Some 9"
  by (simp_all add: ramDelivery_def)

abbreviation ramDeliveryRun :: "controller \<Rightarrow> (nodeRam, unit) nodeEnv \<Rightarrow> bool" where
  "ramDeliveryRun \<equiv> deliveryRun ramDelivery (\<lambda>s. (Some 7, s)) (\<lambda>s. ramCell 28 (fst s)) (\<lambda>s. ramCell 56 (snd s)) 5"

lemma debitSlots_none:
  "(\<And>k. k \<in> set slots \<Longrightarrow> queuedRecord k (envStore env) = None) \<Longrightarrow> debitSlots ops b now slots env = (True, env)"
  by (induction slots) auto

lemma ram_delivery_recovered:
  "\<exists>c env. ramDeliveryRun c env \<and> ct_usable c env \<and> \<not> ctActive c \<and> plStore (ctPolicy c) \<and> length (plRuntime (ctPolicy c)) = 8
     \<and> nmEventEpoch (alMetadata (nsAllocator (envStore env))) = 7 \<and> firstFreeSlot (envStore env) = Some 0
     \<and> (\<forall>k<8. nrState (slotRecord (envStore env) k) = NS_FREE) \<and> ctSource c = 5 \<and> ctDestination c = 1"
proof -
  let ?env0 = "\<lparr>envStore = coldStore, envMedium = (\<lambda>_ _. None, \<lambda>_ _. None), envObserver = observer_init, envSources = ()\<rparr> :: (nodeRam, unit) nodeEnv"
  obtain st s where r: "ns_recover ramNode (\<lambda>s. (Some 7, s)) 5 coldStore (\<lambda>_ _. None, \<lambda>_ _. None) = (NST_READY, st, s)"
    and ep: "nmEventEpoch (alMetadata (nsAllocator st)) = 7" and free: "\<forall>k<8. \<not> holdsEvent (ramCell 56 (snd s)) k"
    using ram_recover_blank by blast
  define env1 where "env1 = ?env0\<lparr>envStore := st, envMedium := s\<rparr>"
  have "ramDeliveryRun controller_init ?env0"
    by (rule deliveryRun.start) (auto simp: coldStore_def ns_reset_def ramCell_def fun_eq_iff)
  then have run1: "ramDeliveryRun controller_init env1"
    by (rule deliveryRun.boot[where res = NST_READY]) (simp add: storeCall_def ramDelivery_def r env1_def)
  have inv: "nodeInv 5 (ramCell 28 (fst s)) (ramCell 56 (snd s)) st"
    using ram_node.deliveryRun_inv[OF run1] by (simp add: deliveryInv_def env1_def ramDelivery_def)
  have "custody 5 (ramCell 28 (\<lambda>_ _. None)) (ramCell 56 (\<lambda>_ _. None))"
    by (simp add: custody_def durableRecord_def authoritative_def ramCell_def)
  then have h: "nsHealthy st" using ram_node.recover_store_outcome[OF r] by simp
  then have store: "storeInv 5 (ramCell 28 (fst s)) (ramCell 56 (snd s)) st" using inv by (simp add: nodeInv_def)
  then have fr: "nrState (slotRecord st k) = NS_FREE" if "k < 8" for k
    using free that by (fastforce simp: storeInv_def stored_def holdsEvent_def)
  then have none: "queuedRecord k st = None" for k using queuedRecord_sound[OF store, of k] by auto
  have head: "queuedAt 0 st = None"
    using queue_head[OF store] fr by (cases "queuedAt 0 st") (auto, metis nodeState.distinct(1))
  obtain r2 c2 env2 where rec: "ct_recover ramDelivery 5 1 0 False False controller_init env1 = (r2, c2, env2)" by (metis prod_cases3)
  have "env2 = env1 \<and> ct_usable c2 env1 \<and> \<not> ctActive c2 \<and> plStore (ctPolicy c2) \<and> length (plRuntime (ctPolicy c2)) = 8
      \<and> ctSource c2 = 5 \<and> ctDestination c2 = 1"
    using rec debitSlots_none[of "[0..<8]" env1] none head h
    by (auto simp: ct_recover_def hasValidEndpoints_def pl_recover_def Let_def observe_def env1_def loadHead_def ct_reset_def clearAttempt_def
        controller_init_def pl_reset_def initializeTrackedSlots_def ct_usable_def)
  moreover have "ramDeliveryRun c2 env2"
    using deliveryRun.control[OF run1, of "CtRecover 5 1 0 False False" "clAction r2" c2 env2] rec by simp
  moreover have "firstFreeSlot st = Some 0" using fr by (simp add: firstFreeSlot_def upt_conv_Cons)
  ultimately show ?thesis using ep fr by (intro exI[of _ c2] exI[of _ env2]) (auto simp: env1_def)
qed

lemma ram_delivery_queued:
  "\<exists>c env rec. ramDeliveryRun c env \<and> ct_usable c env \<and> \<not> ctActive c \<and> queuedAt 0 (envStore env) = Some (rec, 0)
     \<and> durableView (ramCell 56 (snd (envMedium env))) 0 = Some rec \<and> nrState rec = NS_QUEUED \<and> nrAttemptsUsed rec = 0
     \<and> timeLeft 0 (plRuntime (ctPolicy c) ! 0) rec \<and> nrRemainingActiveSeconds rec = 120
     \<and> plRuntime (ctPolicy c) ! 0 = \<lparr>rtTracked = True, rtBaselineMilliseconds = 0, rtUncommittedMilliseconds = 0\<rparr>
     \<and> (\<forall>k<8. k \<noteq> 0 \<longrightarrow> nrState (slotRecord (envStore env) k) = NS_FREE) \<and> ctSource c = 5 \<and> ctDestination c = 1"
proof -
  obtain c env where run: "ramDeliveryRun c env" "ct_usable c env" "\<not> ctActive c" "plStore (ctPolicy c)" "length (plRuntime (ctPolicy c)) = 8"
    "nmEventEpoch (alMetadata (nsAllocator (envStore env))) = 7" "firstFreeSlot (envStore env) = Some 0"
    "\<forall>k<8. nrState (slotRecord (envStore env) k) = NS_FREE" "ctSource c = 5" "ctDestination c = 1"
    using ram_delivery_recovered by blast
  have h: "nsHealthy (envStore env)" using usable_healthy[OF run(2)] by simp
  have sound: "storeInv 5 (ramCell 28 (fst (envMedium env))) (ramCell 56 (snd (envMedium env))) (envStore env)"
    using ram_node.deliveryRun_inv[OF run(1)] h by (simp add: deliveryInv_def nodeInv_def ramDelivery_def)
  obtain i st' s' where e: "enqueue ramNode sampleInput (envStore env) (envMedium env) = (\<lparr>erStatus = ENQUEUED, erIdentity = i, erSlot = 0\<rparr>, st', s')"
    using ram_node.enqueue_works[OF sound h sampleInput_valid run(7)] run(6) by fastforce
  define env1 where "env1 = env\<lparr>envStore := st', envMedium := s'\<rparr>"
  have run1: "ramDeliveryRun c env1"
    by (rule deliveryRun.create[OF run(1), where input = sampleInput]) (simp add: storeCall_def ramDelivery_def e env1_def)
  obtain j where out: "opOutcome 5 (ramCell 28 (fst s')) (ramCell 56 (snd (envMedium env))) (ramCell 56 (snd s')) (intended (OpEnqueue sampleInput) (envStore env) j) True st'"
    using ram_node.enqueue_outcome[OF e sound h] by auto
  define rec where "rec = enqueuedRecord (slotRecord (envStore env) 0) sampleInput j"
  have c: "nsHealthy st'" "storeInv 5 (ramCell 28 (fst s')) (ramCell 56 (snd s')) st'" "slotRecord st' 0 = rec"
    "durableView (ramCell 56 (snd s')) = (durableView (ramCell 56 (snd (envMedium env))))(0 \<mapsto> rec)"
    using out sampleInput_valid(1) run(7) by (auto simp: opOutcome_def commitOutcome_def rec_def)
  have r: "nrState rec = NS_QUEUED" "nrAttemptsUsed rec = 0" "nrRemainingActiveSeconds rec = 120"
    by (simp_all add: rec_def enqueuedRecord_def sampleInput_def)
  have q: "queuedRecord 0 st' = Some rec" using queuedRecord_sound[OF c(2), of 0] c(3) r by simp
  obtain x c2 env2 where tr: "ct_trackEnqueued 0 0 c env1 = (x, c2, env2)" by (metis prod_cases3)
  have st: "envStore env1 = st'" "envMedium env1 = s'" by (simp_all add: env1_def)
  have use1: "ct_usable c env1" using run(2) c(1) by (simp add: ct_usable_def st)
  have two: "envStore env2 = st' \<and> envMedium env2 = s' \<and> ct_usable c2 env2 \<and> \<not> ctActive c2 \<and> length (plRuntime (ctPolicy c2)) = 8
    \<and> plRuntime (ctPolicy c2) ! 0 = \<lparr>rtTracked = True, rtBaselineMilliseconds = 0, rtUncommittedMilliseconds = 0\<rparr>
    \<and> ctSource c2 = 5 \<and> ctDestination c2 = 1"
    using tr use1 q run(3-5,9,10) c(1) by (auto simp: ct_trackEnqueued_def pl_trackEnqueued_def ct_usable_def st quiet_simps split: if_splits)
  have run2: "ramDeliveryRun c2 env2"
    using deliveryRun.control[OF run1, of "CtTrackEnqueued 0 0" radioAction_init c2 env2] tr by simp
  have same: "slotRecord st' k = slotRecord (envStore env) k" if "k < 8" "k \<noteq> 0" for k
    using storeInv_recordAt[OF c(2) that(1)] storeInv_recordAt[OF sound that(1)] c(4) that by simp
  from same have "queuedAt 0 st' = Some (rec, 0)"
    using queue_head[OF c(2), of 0] run(8) c(3) r(1) by (auto simp: queuedAt_def split: if_splits) force+
  then show ?thesis using run2 two c(4) r same run(8) by (intro exI[of _ c2] exI[of _ env2] exI[of _ rec]) (auto simp: timeLeft_def)
qed

subsection \<open>Custody\<close>

context node_storage
begin

lemma released_effect:
  assumes "released d input c env c' env'" "ddStorage d = ops" "envInv device mcell rcell c env"
    and "durableView (rcell (envMedium env)) k = Some rec"
  shows "\<exists>rec'. durableView (rcell (envMedium env')) k = Some rec' \<and> (recordKept rec rec'
    \<or> (\<exists>response. decodeAdmissionResponse input = Some response \<and> arStatus response = ADMITTED
        \<and> arSource response = ctDestination c \<and> arDestination response = ctSource c
        \<and> arFamily response = nrFamily rec \<and> arEpoch response = nrEventEpoch rec \<and> arId response = nrEventId rec
        \<and> nrState rec' = NS_FREE))"
proof -
  define R :: "nat \<Rightarrow> nodeRecord \<Rightarrow> nodeRecord \<Rightarrow> bool" where
    "R = (\<lambda>k x y. y = x \<or> k = ctActiveSlot c \<and> nrState y = NS_FREE)"
  have node: "nodeInv device (mcell (envMedium env)) (rcell (envMedium env)) (envStore env)" using assms(3) by (simp add: deliveryInv_def)
  obtain env1 response where path: "envPath ops gentleOp env env1" "envPath ops (\<lambda>op. op = OpReleaseQueued (ctActiveSlot c)) env1 env'"
    and resp: "decodeAdmissionResponse input = Some response" "arStatus response = ADMITTED" "matchesEvent response (ctAttemptEvent c)"
    using assms(1)[unfolded released_def assms(2)] by blast
  note node1 = path_inv[OF path(1)[unfolded envPath_def] node]
  obtain rec1 where rec1: "durableView (rcell (envMedium env1)) k = Some rec1" "recordKept rec rec1"
    using gentle_kept[OF path(1)[unfolded envPath_def] node, of k] assms(4) by (auto simp: option_rel_Some1)
  have "R k x x" "R k x y \<Longrightarrow> R k y z \<Longrightarrow> R k x z" for k x y z by (auto simp: R_def)
  moreover have "R k (slotRecord st k) rec" if "op = OpReleaseQueued (ctActiveSlot c)" "intended op st j = Some (k, rec)" for op st j k rec
    using that by (auto simp: R_def freeRecord_def split: if_splits)
  ultimately have "rel_option (R k) (durableView (rcell (envMedium env1)) k) (durableView (rcell (envMedium env')) k)"
    using path_view[OF path(2)[unfolded envPath_def] node1, of R] by blast
  then obtain rec' where rec': "durableView (rcell (envMedium env')) k = Some rec'" "R k rec1 rec'"
    using rec1(1) by (auto simp: option_rel_Some1)
  show ?thesis
  proof (cases "rec' = rec1")
    case True
    with rec1 rec' show ?thesis by blast
  next
    case False
    then have free: "k = ctActiveSlot c" "nrState rec' = NS_FREE" using rec'(2) by (auto simp: R_def)
    have h: "nsHealthy (envStore env)" "\<not> ctDegraded c" "ctCorrelationValid c" using assms(1) by (auto simp: released_def)
    then obtain q where "ctActiveSlot c < 8" "ctAttemptEvent c = attemptEventOf c q (slotRecord (envStore env) (ctActiveSlot c))"
      using assms(3) by (auto simp: deliveryInv_def attemptInv_def)
    moreover from this have "slotRecord (envStore env) k = rec" using nodeInv_recordAt[OF node h(1), of k] assms(4) free by auto
    ultimately have "ctAttemptEvent c = attemptEventOf c q rec" using free by simp
    with resp rec'(1) free show ?thesis by (auto simp: matchesEvent_def attemptEventOf_def)
  qed
qed

end

lemma delivery_kept_or_released:
  assumes "node_storage (ddStorage d) mcell entropy rcell" and "deliveryRun d entropy mcell rcell device c env"
    and "applyCtl d op c env = (a, c', env')"
    and "durableView (rcell (envMedium env)) k = Some rec" and "nrState rec = NS_QUEUED"
  shows "\<exists>rec'. durableView (rcell (envMedium env')) k = Some rec' \<and> (recordKept rec rec'
    \<or> (\<exists>input now response. op = CtAdmission input now \<and> decodeAdmissionResponse input = Some response
        \<and> arStatus response = ADMITTED \<and> arSource response = ctDestination c \<and> arDestination response = ctSource c
        \<and> arFamily response = nrFamily rec \<and> arEpoch response = nrEventEpoch rec \<and> arId response = nrEventId rec
        \<and> nrState rec' = NS_FREE))"
proof -
  have inv: "envInv device mcell rcell c env" using node_storage.deliveryRun_inv[OF assms(1,2)] by blast
  then have node: "nodeInv device (mcell (envMedium env)) (rcell (envMedium env)) (envStore env)" by (simp add: deliveryInv_def)
  show ?thesis
    using assms(3) deliveryInv_active[OF inv]
  proof (cases rule: ctl_cases)
    case gentle
    then show ?thesis using node_storage.gentle_kept[OF assms(1) gentle(2)[unfolded envPath_def] node, of k] assms(4)
      by (auto simp: option_rel_Some1)
  next
    case transmit
    then show ?thesis using node_storage.transmitted_effect(2)[OF assms(1) transmit _ inv, of k] assms(4)
      by (auto simp: option_rel_Some1)
  next
    case (release input now)
    then show ?thesis using node_storage.released_effect[OF assms(1) release(3) _ inv assms(4)] by auto
  next
    case reclamation
    then show ?thesis using node_storage.reclaim_queued[OF assms(1) _ node assms(4,5)] by (auto simp: reclaimStep_def)
  qed
qed

text \<open>C3. A Node never drops an Event on its own: whatever call the controller receives, whatever the storage reports and
  wherever power was cut before, a queued Event that is durable stays durable with its content and never
  regains attempts or time, unless the call is the receipt of a packet that decodes as the admission of
  exactly this Event by the Hub for this device.\<close>

theorem delivery_custody:
  assumes "node_storage (ddStorage d) mcell entropy rcell" and "deliveryRun d entropy mcell rcell device c env"
    and "applyCtl d op c env = (a, c', env')"
    and "durableView (rcell (envMedium env)) k = Some rec" and "nrState rec = NS_QUEUED"
  shows "\<exists>rec'. durableView (rcell (envMedium env')) k = Some rec' \<and> (recordKept rec rec'
    \<or> (\<exists>input now response. op = CtAdmission input now \<and> decodeAdmissionResponse input = Some response
        \<and> arStatus response = ADMITTED \<and> arSource response = ctDestination c \<and> arDestination response = ctSource c
        \<and> arFamily response = nrFamily rec \<and> arEpoch response = nrEventEpoch rec \<and> arId response = nrEventId rec
        \<and> nrState rec' = NS_FREE))"
  by (rule delivery_kept_or_released [OF assms])

theorem delivery_custody_witness:
  "\<exists>c env a c' env' rec rec'. ramDeliveryRun c env \<and> applyCtl ramDelivery (CtService 0 False) c env = (a, c', env')
     \<and> durableView (ramCell 56 (snd (envMedium env))) 0 = Some rec \<and> nrState rec = NS_QUEUED
     \<and> durableView (ramCell 56 (snd (envMedium env'))) 0 = Some rec' \<and> recordKept rec rec'"
proof -
  obtain c env rec where run: "ramDeliveryRun c env" "durableView (ramCell 56 (snd (envMedium env))) 0 = Some rec" "nrState rec = NS_QUEUED"
    using ram_delivery_queued by blast
  obtain a c' env' where step: "applyCtl ramDelivery (CtService 0 False) c env = (a, c', env')" by (metis prod_cases3)
  have w: "node_storage (ddStorage ramDelivery) (\<lambda>s. ramCell 28 (fst s)) (\<lambda>s. (Some 7, s)) (\<lambda>s. ramCell 56 (snd s))"
    using ram_node.node_storage_axioms by simp
  from delivery_custody[OF w run(1) step run(2,3)]
  obtain rec' where "durableView (ramCell 56 (snd (envMedium env'))) 0 = Some rec'" "recordKept rec rec'" by auto
  with run step show ?thesis by blast
qed

text \<open>C20. No Event is sent without being counted first: a call of the controller that asks the radio to transmit has made
  durable one more used attempt of the queued Event in its active slot, the fifth at most, and the bytes are
  the encoding of exactly this Event, from this device to the Hub.\<close>

theorem transmission_counted:
  assumes "node_storage (ddStorage d) mcell entropy rcell" and "deliveryRun d entropy mcell rcell device c env"
    and "applyCtl d op c env = (a, c', env')" and "raType a = RA_TRANSMIT"
  shows "\<exists>rec rec' q. durableView (rcell (envMedium env)) (ctActiveSlot c) = Some rec
      \<and> durableView (rcell (envMedium env')) (ctActiveSlot c) = Some rec'
      \<and> nrState rec = NS_QUEUED \<and> nrState rec' = NS_QUEUED
      \<and> nrAttemptsUsed rec' = nrAttemptsUsed rec + 1 \<and> unat (nrAttemptsUsed rec') = unat (nrAttemptsUsed rec) + 1
      \<and> nrAttemptsUsed rec' \<le> 5 \<and> recordKept rec rec'
      \<and> encodeEvent (attemptEventOf c q rec) (Some (fillZero 32)) = (True, Some (raBytes a), raLength a)"
proof -
  have inv: "envInv device mcell rcell c env" using node_storage.deliveryRun_inv[OF assms(1,2)] by blast
  have "transmitted d c env a c' env'"
    using assms(3) deliveryInv_active[OF inv] by (cases rule: ctl_cases) (use assms(4) in auto)
  from node_storage.transmitted_effect(3)[OF assms(1) this _ inv]
  obtain rec rec' q where r: "durableView (rcell (envMedium env)) (ctActiveSlot c) = Some rec"
    "durableView (rcell (envMedium env')) (ctActiveSlot c) = Some rec'" "recordKept rec rec'" "nrState rec' = NS_QUEUED"
    "nrAttemptsUsed rec < 5" "nrAttemptsUsed rec' = nrAttemptsUsed rec + 1"
    "encodeEvent (attemptEventOf c q rec) (Some (fillZero 32)) = (True, Some (raBytes a), raLength a)" by auto
  have "unat (nrAttemptsUsed rec + 1) = unat (nrAttemptsUsed rec) + 1"
    using r(5) by (simp add: word_less_nat_alt unat_word_ariths)
  moreover from this have "nrAttemptsUsed rec + 1 \<le> 5" using r(5) by (simp add: word_le_nat_alt word_less_nat_alt)
  moreover have "nrState rec = NS_QUEUED" using r(3,4) by (auto simp: recordKept_def)
  ultimately show ?thesis using r by metis
qed

theorem transmission_counted_witness:
  "\<exists>c env a c' env' rec rec'. ramDeliveryRun c env \<and> applyCtl ramDelivery (CtGrant 0) c env = (a, c', env') \<and> raType a = RA_TRANSMIT
     \<and> durableView (ramCell 56 (snd (envMedium env))) (ctActiveSlot c) = Some rec
     \<and> durableView (ramCell 56 (snd (envMedium env'))) (ctActiveSlot c) = Some rec' \<and> nrAttemptsUsed rec' = nrAttemptsUsed rec + 1"
proof -
  obtain c env rec where run: "ramDeliveryRun c env" "ct_usable c env" "\<not> ctActive c" "queuedAt 0 (envStore env) = Some (rec, 0)"
    "nrAttemptsUsed rec = 0" "timeLeft 0 (plRuntime (ctPolicy c) ! 0) rec" using ram_delivery_queued by blast
  from ram_node.deliver_ready[OF run(1) _ run(2) _ run(4) _ run(6)] run(3,5)
  obtain r c1 env1 a c' env' where sv: "ct_service ramDelivery 0 False c env = (r, c1, env1)"
    and tx: "applyCtl ramDelivery (CtGrant 0) c1 env1 = (a, c', env')" "raType a = RA_TRANSMIT"
    by (auto simp del: applyCtl.simps)
  have run1: "ramDeliveryRun c1 env1" using deliveryRun.control[OF run(1), of "CtService 0 False" "clAction r" c1 env1] sv by simp
  have w: "node_storage (ddStorage ramDelivery) (\<lambda>s. ramCell 28 (fst s)) (\<lambda>s. (Some 7, s)) (\<lambda>s. ramCell 56 (snd s))"
    using ram_node.node_storage_axioms by simp
  from transmission_counted[OF w run1 tx] run1 tx show ?thesis by blast
qed

text \<open>C21. Lifetime is charged exactly: when the service of the lifetime policy at a time \<open>now\<close> reports success, every durable
  record that is not queued is as before; a queued Event not tracked yet is tracked from \<open>now\<close> on; and of a
  tracked one the milliseconds since the last service are charged, so that it is durably expired if and
  only if they cover what it had left, and otherwise what is left in the record and outside together is
  what it was less the time passed, with nothing lost to rounding and less than one interval outside.\<close>

theorem lifetime_exact:
  assumes "node_storage (ddStorage d) mcell entropy rcell" and "deliveryRun d entropy mcell rcell device c env"
    and "ctPolicy c = p" and "pl_service (ddStorage d) now p env = (DS_READY, p', env')"
    and "k < 8" and "durableView (rcell (envMedium env)) k = Some rec"
  shows "\<exists>rec'. durableView (rcell (envMedium env')) k = Some rec' \<and> (
     if nrState rec \<noteq> NS_QUEUED then rec' = rec \<and> plRuntime p' ! k = slotRuntime_init
     else if \<not> rtTracked (plRuntime p ! k)
       then rec' = rec \<and> plRuntime p' ! k = \<lparr>rtTracked = True, rtBaselineMilliseconds = now, rtUncommittedMilliseconds = 0\<rparr>
     else let u = unat (rtUncommittedMilliseconds (plRuntime p ! k) + ucast (now - rtBaselineMilliseconds (plRuntime p ! k)));
              v = unat (rtUncommittedMilliseconds (plRuntime p' ! k)) in
       eventContent rec' = eventContent rec \<and> nrAttemptsUsed rec' = nrAttemptsUsed rec
       \<and> (if unat (nrRemainingActiveSeconds rec) * 1000 \<le> u then nrState rec' = NS_EXPIRED \<and> plRuntime p' ! k = slotRuntime_init
          else nrState rec' = NS_QUEUED \<and> rtTracked (plRuntime p' ! k) \<and> rtBaselineMilliseconds (plRuntime p' ! k) = now
            \<and> v < unat (nrRemainingActiveSeconds rec') * 1000 \<and> (v < 60000 \<or> unat (nrRemainingActiveSeconds rec') \<le> 60)
            \<and> unat (nrRemainingActiveSeconds rec') * 1000 - v = unat (nrRemainingActiveSeconds rec) * 1000 - u))"
proof -
  have "nsHealthy (envStore env)" using assms(4) by (auto simp: pl_service_def quiet_simps split: if_splits)
  then have sound: "soundEnv device mcell rcell env"
    using node_storage.deliveryRun_inv[OF assms(1,2) refl] by (simp add: deliveryInv_def nodeInv_def)
  have len: "length (plRuntime p) = 8" using deliveryRun_shape[OF assms(2)] assms(3) by (simp add: ctShape_def)
  note ex = node_storage.pl_service_exact[OF assms(1,4) sound len]
  have "rec = slotRecord (envStore env) k" "durableView (rcell (envMedium env')) k = Some (slotRecord (envStore env') k)"
    using storeInv_recordAt[of device _ _ "envStore env" k] storeInv_recordAt[of device _ _ "envStore env'" k] sound ex assms(5,6) by auto
  moreover have "slotServiced now (plRuntime p ! k) (slotRecord (envStore env) k) (plRuntime p' ! k) (slotRecord (envStore env') k)"
    using ex assms(5) by blast
  ultimately show ?thesis
    by (auto simp: slotServiced_def charged_def passed_def Let_def)
qed

theorem lifetime_exact_witness:
  "\<exists>c env p' env' rec'. ramDeliveryRun c env \<and> pl_service ramNode 200000 (ctPolicy c) env = (DS_READY, p', env')
     \<and> durableView (ramCell 56 (snd (envMedium env'))) 0 = Some rec' \<and> nrState rec' = NS_EXPIRED"
proof -
  obtain c env rec where run: "ramDeliveryRun c env" "ct_usable c env" "durableView (ramCell 56 (snd (envMedium env))) 0 = Some rec"
    "nrState rec = NS_QUEUED" "nrRemainingActiveSeconds rec = 120"
    "plRuntime (ctPolicy c) ! 0 = \<lparr>rtTracked = True, rtBaselineMilliseconds = 0, rtUncommittedMilliseconds = 0\<rparr>"
    using ram_delivery_queued by blast
  have sound: "soundEnv 5 (\<lambda>s. ramCell 28 (fst s)) (\<lambda>s. ramCell 56 (snd s)) env"
    using ram_node.deliveryRun_inv[OF run(1)] usable_healthy[OF run(2)] by (simp add: deliveryInv_def nodeInv_def ramDelivery_def)
  have "plReady (ctPolicy c)" "plStore (ctPolicy c)"
    using run(2) deliveryRun_shape[OF run(1)] by (auto simp: ctShape_def ct_usable_def)
  then obtain p' env' where sv: "pl_service ramNode 200000 (ctPolicy c) env = (DS_READY, p', env')"
    using ram_node.pl_service_ready[OF sound] by blast
  have w: "node_storage (ddStorage ramDelivery) (\<lambda>s. ramCell 28 (fst s)) (\<lambda>s. (Some 7, s)) (\<lambda>s. ramCell 56 (snd s))"
    using ram_node.node_storage_axioms by simp
  from lifetime_exact[OF w run(1) refl _ _ run(3), of 200000 p' env'] sv run(4-6)
  obtain rec' where "durableView (ramCell 56 (snd (envMedium env'))) 0 = Some rec'" "nrState rec' = NS_EXPIRED"
    by (auto simp: Let_def)
  with run(1) sv show ?thesis by blast
qed

text \<open>C40. On a medium that works, the Node sends what it holds: a controller in service that has no Event in hand, while the
  head of the queue is an Event with attempts and time left, takes it up at the next call of \<^verbatim>\<open>service\<close> without
  synchronous work and asks the radio to transmit when it is granted the radio then.\<close>

theorem delivery_progress:
  assumes "working_node_storage (ddStorage d) mcell entropy rcell" and "deliveryRun d entropy mcell rcell device c env"
    and "ct_usable c env" and "\<not> ctActive c \<or> ctState c = RS_RELEASED"
    and "queuedAt 0 (envStore env) = Some (rec, k)" and "nrAttemptsUsed rec < MAX_ATTEMPTS"
    and "timeLeft now (plRuntime (ctPolicy c) ! k) rec" and "\<And>e. fst (ddSequence d e) \<noteq> None"
  shows "\<exists>r c1 env1 a c' env'. ct_service d now False c env = (r, c1, env1) \<and> ctActiveSlot c1 = k
    \<and> applyCtl d (CtGrant now) c1 env1 = (a, c', env') \<and> raType a = RA_TRANSMIT"
  using working_node_storage.deliver_ready[OF assms(1,2) refl assms(3-5) _ assms(7,8)] assms(6) by simp

theorem delivery_progress_witness:
  "\<exists>c env r c1 env1 a c' env'. ramDeliveryRun c env \<and> ct_service ramDelivery 0 False c env = (r, c1, env1)
     \<and> applyCtl ramDelivery (CtGrant 0) c1 env1 = (a, c', env') \<and> raType a = RA_TRANSMIT"
proof -
  obtain c env rec where run: "ramDeliveryRun c env" "ct_usable c env" "\<not> ctActive c" "queuedAt 0 (envStore env) = Some (rec, 0)"
    "nrAttemptsUsed rec = 0" "timeLeft 0 (plRuntime (ctPolicy c) ! 0) rec" using ram_delivery_queued by blast
  have w: "working_node_storage (ddStorage ramDelivery) (\<lambda>s. ramCell 28 (fst s)) (\<lambda>s. (Some 7, s)) (\<lambda>s. ramCell 56 (snd s))"
    using ram_node.working_node_storage_axioms by simp
  from delivery_progress[OF w run(1,2) _ run(4) _ run(6)] run(3,5)
  obtain r c1 env1 a c' env' where "ct_service ramDelivery 0 False c env = (r, c1, env1)"
    "applyCtl ramDelivery (CtGrant 0) c1 env1 = (a, c', env')" "raType a = RA_TRANSMIT" by (auto simp del: applyCtl.simps)
  with run(1) show ?thesis by blast
qed

end
