(* ===== verification/NodeDeliveryRelease.thy ===== *)
theory NodeDeliveryRelease
  imports NodeDeliveryProperties
begin

text \<open>
  From transmission to release on a medium that works: an Event in hand with time left stays in hand while it is sent, and the
  admission that answers the attempt frees its slot.  Free slots stay free whatever the controller does.
\<close>

subsection \<open>An Event in hand\<close>

definition inHand :: "u32 \<Rightarrow> controller \<Rightarrow> ('s, 'e) nodeEnv \<Rightarrow> bool" where
  "inHand now c env \<longleftrightarrow> ct_usable c env \<and> plStore (ctPolicy c) \<and> length (plRuntime (ctPolicy c)) = 8 \<and> ctActive c \<and> ctActiveSlot c < 8
     \<and> nrState (slotRecord (envStore env) (ctActiveSlot c)) = NS_QUEUED
     \<and> timeLeft now (plRuntime (ctPolicy c) ! ctActiveSlot c) (slotRecord (envStore env) (ctActiveSlot c))"

lemma inHand_quiet: "inHand now c env \<Longrightarrow> envStore env' = envStore env \<Longrightarrow>
    inHand now (c\<lparr>ctState := x, ctDeadlineOrigin := o1, ctDeadlineDuration := o2\<rparr>) env'"
  by (simp add: inHand_def ct_usable_def)

context node_storage
begin

lemma arm_ok:
  assumes "storeCall (armAttempt ops k) env = (ARMED, env')" "soundEnv device mcell rcell env"
  shows "soundEnv device mcell rcell env' \<and> k < 8 \<and> slotChanged k ((slotRecord (envStore env) k)
    \<lparr>nrGeneration := nrGeneration (slotRecord (envStore env) k) + 1, nrAttemptsUsed := nrAttemptsUsed (slotRecord (envStore env) k) + 1\<rparr>) env env'"
proof -
  have op: "applyOp ops (OpArmAttempt k) (envStore env) (envMedium env) = (True, identity_init, envStore env', envMedium env')"
    using assms(1) by (auto simp: storeCall_def split: prod.splits)
  from op_ok[OF op assms(2)] show ?thesis by (fastforce split: if_splits)
qed

lemma release_ok:
  assumes "storeCall (releaseQueued ops k) env = (MUT_OK, env')" "soundEnv device mcell rcell env"
  shows "soundEnv device mcell rcell env' \<and> k < 8 \<and> nrState (slotRecord (envStore env') k) = NS_FREE"
proof -
  have op: "applyOp ops (OpReleaseQueued k) (envStore env) (envMedium env) = (True, identity_init, envStore env', envMedium env')"
    using assms(1) by (auto simp: storeCall_def split: prod.splits)
  from op_ok[OF op assms(2), of undefined] have "soundEnv device mcell rcell env' \<and> k < 8
      \<and> slotRecord (envStore env') k = freeRecord (nrGeneration (slotRecord (envStore env) k) + 1)"
    by (auto simp: slotChanged_def split: if_splits)
  then show ?thesis by (simp add: freeRecord_def)
qed

end

context working_node_storage
begin

lemma release_works:
  assumes "soundEnv device mcell rcell env" "k < 8" "nrState (slotRecord (envStore env) k) = NS_QUEUED"
  shows "\<exists>env'. storeCall (releaseQueued ops k) env = (MUT_OK, env')"
  using slot_op_works[of device "envMedium env" "envStore env" "OpReleaseQueued k"] assms
  by (auto simp: storeCall_def split: prod.splits)

lemma life_ready:
  assumes sound: "soundEnv device mcell rcell env" and hand: "inHand now c env"
  shows "\<exists>p env'. serviceLifetime ops now c env = (True, c\<lparr>ctPolicy := p\<rparr>, env') \<and> soundEnv device mcell rcell env'
    \<and> inHand now (c\<lparr>ctPolicy := p\<rparr>) env'"
proof -
  let ?k = "ctActiveSlot c"
  have k: "?k < 8" "nrState (slotRecord (envStore env) ?k) = NS_QUEUED" "ctActive c" "ctStore c" using hand by (auto simp: inHand_def ct_usable_def)
  obtain p env1 where sv: "pl_service ops now (ctPolicy c) env = (DS_READY, p, env1)"
    using pl_service_ready[OF sound, of "ctPolicy c" now] hand by (auto simp: inHand_def ct_usable_def)
  have "length (plRuntime (ctPolicy c)) = 8" using hand by (simp add: inHand_def)
  note ex = pl_service_exact[OF sv sound this]
  have s1: "soundEnv device mcell rcell env1" using ex by blast
  have l1: "nrState (slotRecord (envStore env1) ?k) = NS_QUEUED" "timeLeft now (plRuntime p ! ?k) (slotRecord (envStore env1) ?k)"
    using serviced_timeLeft[OF _ _ k(2)] ex k(1) hand by (auto simp: inHand_def)
  define c1 where "c1 = c\<lparr>ctPolicy := p\<rparr>"
  define env2 where "env2 = noteExpired c1 now (envStore env) env1"
  have q2: "envStore env2 = envStore env1" "envMedium env2 = envMedium env1" by (simp_all add: env2_def quiet_simps)
  have "ct_record c1 env2 = Some (slotRecord (envStore env1) ?k)"
    using storeInv_recordAt s1 k by (auto simp: ct_record_def c1_def q2)
  then have "serviceLifetime ops now c env = (True, c1, env2)"
    using sv l1(1) by (simp add: serviceLifetime_def c1_def[symmetric] env2_def[symmetric])
  moreover have "inHand now c1 env2" using hand ex s1 l1 by (simp add: inHand_def ct_usable_def c1_def q2)
  ultimately show ?thesis using s1 by (auto simp: c1_def q2)
qed

lemma armed_inHand:
  assumes "pl_armAttempt ops (ctActiveSlot c) now (ctPolicy c) env = (AR_ARMED, p, env')" "soundEnv device mcell rcell env" "inHand now c env"
  shows "soundEnv device mcell rcell env' \<and> inHand now (c\<lparr>ctPolicy := p\<rparr>) env'"
proof -
  let ?k = "ctActiveSlot c"
  have k: "?k < 8" "nrState (slotRecord (envStore env) ?k) = NS_QUEUED" "length (plRuntime (ctPolicy c)) = 8" using assms(3) by (auto simp: inHand_def)
  obtain st p1 env1 where sv: "pl_service ops now (ctPolicy c) env = (st, p1, env1)" by (metis prod_cases3)
  obtain x env2 where arm: "storeCall (armAttempt ops ?k) env1 = (x, env2)" by fastforce
  have eq: "st = DS_READY" "x = ARMED" "p = p1" "env' = env2"
    using assms(1) sv arm by (auto simp: pl_armAttempt_def split: if_splits option.splits attemptStatus.splits)
  note ex = pl_service_exact[OF sv[unfolded eq(1)] assms(2) k(3)]
  have l1: "nrState (slotRecord (envStore env1) ?k) = NS_QUEUED" "timeLeft now (plRuntime p1 ! ?k) (slotRecord (envStore env1) ?k)"
    using serviced_timeLeft[OF _ _ k(2)] ex k(1) assms(3) by (auto simp: inHand_def)
  note A = arm_ok[OF arm[unfolded eq(2)] conjunct1[OF ex]]
  then show ?thesis using assms(3) ex l1 eq k(1) by (auto simp: inHand_def ct_usable_def slotChanged_def timeLeft_def)
qed

lemma granted_inHand:
  assumes run: "grantTransmit d now c env = (r, c', env')" "raType (clAction r) = RA_TRANSMIT"
    and d: "ddStorage d = ops" and sound: "soundEnv device mcell rcell env" and hand: "inHand now c env"
  shows "soundEnv device mcell rcell env' \<and> inHand now c' env' \<and> ctState c' = RS_TX \<and> ctCorrelationValid c' \<and> ctActiveSlot c' = ctActiveSlot c"
proof -
  have "inHand now (c\<lparr>ctState := RS_TX_PREPARE\<rparr>) env" using hand by (simp add: inHand_def ct_usable_def)
  from life_ready[OF sound this] obtain p env1 where life: "serviceLifetime ops now (c\<lparr>ctState := RS_TX_PREPARE\<rparr>) env
      = (True, c\<lparr>ctState := RS_TX_PREPARE, ctPolicy := p\<rparr>, env1)" "soundEnv device mcell rcell env1"
    "inHand now (c\<lparr>ctState := RS_TX_PREPARE, ctPolicy := p\<rparr>) env1" by auto
  define c1 where "c1 = c\<lparr>ctState := RS_TX_PREPARE, ctPolicy := p\<rparr>"
  obtain x p2 env2 where arm: "pl_armAttempt ops (ctActiveSlot c1) now (ctPolicy c1) env1 = (x, p2, env2)" by (metis prod_cases3)
  have no: "raType (clAction receiveResult) \<noteq> RA_TRANSMIT" "raType (clAction (ct_result s)) \<noteq> RA_TRANSMIT"
    "degrade s b c0 e = (r, c', env') \<Longrightarrow> raType (clAction r) \<noteq> RA_TRANSMIT" for s b c0 e
    by (auto simp: receiveResult_def ct_result_def radioAction_init_def degrade_def degradedWith_def split: if_splits)
  have t: "x = AR_ARMED" "transmitAttempt d now (c1\<lparr>ctPolicy := p2\<rparr>) env2 = (r, c', env')"
    using run life(1) arm hand d no(1,2)
    by (auto simp: grantTransmit_def Let_def c1_def split: if_splits prod.splits dest!: no(3))
  note A = armed_inHand[OF arm[unfolded t(1)] life(2) life(3)[folded c1_def]]
  define c2 where "c2 = c1\<lparr>ctPolicy := p2\<rparr>"
  have "envStore env' = envStore env2 \<and> envMedium env' = envMedium env2
    \<and> (\<exists>ev. c' = c2\<lparr>ctAttemptEvent := ev, ctCorrelationValid := True, ctState := RS_TX\<rparr>)"
    using t(2) run(2) unfolding transmitAttempt_def c2_def[symmetric]
    by (auto simp: Let_def quiet_simps split: prod.splits option.splits if_splits dest!: changeState_quiet no(3))
  then show ?thesis using A by (auto simp: c2_def[symmetric] inHand_def ct_usable_def) (simp_all add: c2_def c1_def)
qed

lemma completed_inHand:
  assumes d: "ddStorage d = ops" and sound: "soundEnv device mcell rcell env" and hand: "inHand now c env" and tx: "ctState c = RS_TX"
  shows "\<exists>c' env'. txCompleted d now c env = (receiveResult, c', env') \<and> soundEnv device mcell rcell env' \<and> inHand now c' env'
    \<and> ctState c' = RS_WAIT_ADMISSION \<and> ctAttemptEvent c' = ctAttemptEvent c \<and> ctCorrelationValid c' = ctCorrelationValid c
    \<and> ctActiveSlot c' = ctActiveSlot c"
proof -
  let ?env = "observe (ctObserver c) (ob_completed now) env"
  have q: "soundEnv device mcell rcell ?env" "inHand now c ?env" using sound hand by (simp_all add: quiet_simps inHand_def ct_usable_def)
  from life_ready[OF q] obtain p env1 where life: "serviceLifetime ops now c ?env = (True, c\<lparr>ctPolicy := p\<rparr>, env1)"
    "soundEnv device mcell rcell env1" "inHand now (c\<lparr>ctPolicy := p\<rparr>) env1" by auto
  obtain c2 env2 where cs: "changeState RS_WAIT_ADMISSION now (c\<lparr>ctPolicy := p\<rparr>) env1 = (c2, env2)" by fastforce
  note Q = changeState_quiet[OF cs]
  have "ct_usable c ?env" using q(2) by (simp add: inHand_def)
  then have "txCompleted d now c env = (receiveResult, c2\<lparr>ctDeadlineOrigin := now, ctDeadlineDuration := ADMISSION_TIMEOUT_MILLISECONDS\<rparr>, env2)"
    using tx d life(1) cs by (simp add: txCompleted_def Let_def)
  moreover have "inHand now (c2\<lparr>ctDeadlineOrigin := now, ctDeadlineDuration := ADMISSION_TIMEOUT_MILLISECONDS\<rparr>) env2"
    using life(3) Q by (simp add: inHand_def ct_usable_def)
  ultimately show ?thesis using life(2) Q by auto
qed

lemma admission_releases:
  assumes d: "ddStorage d = ops" and sound: "soundEnv device mcell rcell env" and hand: "inHand now c env" and wait: "ctState c = RS_WAIT_ADMISSION"
    and resp: "ctCorrelationValid c" "decodeAdmissionResponse input = Some r" "arStatus r = ADMITTED" "matchesEvent r (ctAttemptEvent c)"
  shows "\<exists>c' env'. admissionCandidate d input now c env = (receiveResult, c', env') \<and> soundEnv device mcell rcell env'
    \<and> nrState (slotRecord (envStore env') (ctActiveSlot c)) = NS_FREE"
proof -
  from life_ready[OF sound hand] obtain p env1 where life: "serviceLifetime ops now c env = (True, c\<lparr>ctPolicy := p\<rparr>, env1)"
    "soundEnv device mcell rcell env1" "inHand now (c\<lparr>ctPolicy := p\<rparr>) env1" by auto
  define c1 where "c1 = c\<lparr>ctPolicy := p\<rparr>"
  define env2 where "env2 = ct_note c1 TX_ACK_MATCHED now (observe (ctObserver c1) (ob_admission (admissionStatus_code ADMITTED) now) env1)"
  have q: "envStore env2 = envStore env1" "envMedium env2 = envMedium env1" by (simp_all add: env2_def quiet_simps)
  have s2: "soundEnv device mcell rcell env2" using life(2) by (simp add: q)
  obtain env3 where rel: "storeCall (releaseQueued ops (ctActiveSlot c)) env2 = (MUT_OK, env3)"
    using release_works[OF s2] life(3) by (auto simp: inHand_def q)
  note R = release_ok[OF rel s2]
  have "ct_usable c env" using hand by (simp add: inHand_def)
  then have "admissionCandidate d input now c env = (receiveResult, clearAttempt (c1\<lparr>ctState := RS_RELEASED\<rparr>),
      diagnose c1 (setHubUnavailable False \<circ> incrementEventDiagnostic ED_ADMISSION_ACKNOWLEDGED 1) env3)"
    using wait d life(1) resp rel
    by (simp add: admissionCandidate_def Let_def c1_def[symmetric] env2_def[symmetric] admissionDecision_def) (simp add: c1_def env2_def)
  moreover have "nsSlots (envStore (diagnose c1 f env3)) = nsSlots (envStore env3)" "nsHealthy (envStore (diagnose c1 f env3)) = nsHealthy (envStore env3)"
    "envMedium (diagnose c1 f env3) = envMedium env3" "storeInv device m x (envStore (diagnose c1 f env3)) = storeInv device m x (envStore env3)" for f m x
    using storeInv_cong[of "envStore (diagnose c1 f env3)" "envStore env3"] by (simp_all add: diagnose_def)
  ultimately show ?thesis using R by simp
qed

end

text \<open>The head of the queue is taken up, sent and in hand until its answer comes.\<close>

context working_node_storage
begin

lemma exchange_ready:
  assumes run: "deliveryRun d entropy mcell rcell device c env" and d: "ddStorage d = ops"
    and c: "ct_usable c env" "\<not> ctActive c" and head: "queuedAt 0 (envStore env) = Some (rec, k)"
    and rec: "nrAttemptsUsed rec < 5" "timeLeft now (plRuntime (ctPolicy c) ! k) rec" and seq: "\<And>e. fst (ddSequence d e) \<noteq> None"
  shows "\<exists>a1 c1 env1 a c2 env2 a3 c3 env3. applyCtl d (CtService now False) c env = (a1, c1, env1)
    \<and> applyCtl d (CtGrant now) c1 env1 = (a, c2, env2) \<and> raType a = RA_TRANSMIT
    \<and> applyCtl d (CtCompleted now) c2 env2 = (a3, c3, env3) \<and> soundEnv device mcell rcell env3 \<and> inHand now c3 env3
    \<and> ctState c3 = RS_WAIT_ADMISSION \<and> ctCorrelationValid c3 \<and> ctActiveSlot c3 = k
    \<and> encodeEvent (ctAttemptEvent c3) (Some (fillZero 32)) = (True, Some (raBytes a), raLength a)
    \<and> evSource (ctAttemptEvent c3) = ctSource c \<and> evDestination (ctAttemptEvent c3) = ctDestination c
    \<and> nrState (slotRecord (envStore env1) k) = NS_QUEUED \<and> nrState (slotRecord (envStore env2) k) = NS_QUEUED
    \<and> nsHealthy (envStore env1) \<and> nsHealthy (envStore env2)"
proof -
  have sound: "soundEnv device mcell rcell env"
    using deliveryRun_inv[OF run d] usable_healthy[OF c(1)] by (simp add: deliveryInv_def nodeInv_def)
  have shape: "plStore (ctPolicy c)" "length (plRuntime (ctPolicy c)) = 8" "hasValidEndpoints (ctSource c) (ctDestination c)"
    using deliveryRun_shape[OF run] c(1) by (auto simp: ctShape_def ct_usable_def)
  have inactive: "\<not> ctActive c \<or> ctState c = RS_RELEASED" using c(2) by simp
  obtain r c1 env1 where one: "ct_service d now False c env = (r, c1, env1)" "soundEnv device mcell rcell env1" "ct_usable c1 env1"
    "ctActive c1" "ctState c1 = RS_READY" "ctActiveSlot c1 = k" "headStillAuthoritative c1 env1"
    "timeLeft now (plRuntime (ctPolicy c1) ! k) (slotRecord (envStore env1) k)" "nrAttemptsUsed (slotRecord (envStore env1) k) < 5"
    using service_then_ready[OF sound d c(1) shape(1,2) inactive head rec(2,1)] by auto
  have f: "ctFrame c c1" by (rule ct_service_frame[OF one(1)])
  with shape have s1: "plStore (ctPolicy c1)" "length (plRuntime (ctPolicy c1)) = 8" "hasValidEndpoints (ctSource c1) (ctDestination c1)"
    by (auto simp: ctFrame_def policyFrame_def)
  obtain rec1 where "queuedAt 0 (envStore env1) = Some (rec1, k)"
    using one(6,7) by (auto simp: headStillAuthoritative_def split: option.splits)
  then have k: "k < 8" "nrState (slotRecord (envStore env1) k) = NS_QUEUED" using queue_head[of device _ _ "envStore env1" k] one(2) by auto
  have hand1: "inHand now c1 env1" using one s1 k by (simp add: inHand_def)
  from grant_ready[OF one(2) d one(3) s1(1,2) one(4,5,7) _ _ s1(3) seq] one(6,8,9)
  obtain r2 c2 env2 where two: "grantTransmit d now c1 env1 = (r2, c2, env2)" "raType (clAction r2) = RA_TRANSMIT" by blast
  note G = granted_inHand[OF two d one(2) hand1]
  have ap1: "applyCtl d (CtService now False) c env = (clAction r, c1, env1)" and ap2: "applyCtl d (CtGrant now) c1 env1 = (clAction r2, c2, env2)"
    using one(1) two(1) by simp_all
  have run1: "deliveryRun d entropy mcell rcell device c1 env1" by (rule deliveryRun.control[OF run ap1])
  have "transmitted d c1 env1 (clAction r2) c2 env2"
    using ap2 deliveryInv_active[OF deliveryRun_inv[OF run1 d]] by (cases rule: ctl_cases) (use two(2) in auto)
  then have T: "encodeEvent (ctAttemptEvent c2) (Some (fillZero 32)) = (True, Some (raBytes (clAction r2)), raLength (clAction r2))"
    "evSource (ctAttemptEvent c2) = ctSource c1" "evDestination (ctAttemptEvent c2) = ctDestination c1"
    by (auto simp: transmitted_def attemptEventOf_def)
  obtain c3 env3 where three: "txCompleted d now c2 env2 = (receiveResult, c3, env3)" "soundEnv device mcell rcell env3" "inHand now c3 env3"
    "ctState c3 = RS_WAIT_ADMISSION" "ctAttemptEvent c3 = ctAttemptEvent c2" "ctCorrelationValid c3 = ctCorrelationValid c2" "ctActiveSlot c3 = ctActiveSlot c2"
    using completed_inHand[OF d _ _ , of device env2 now c2] G by blast
  have ap3: "applyCtl d (CtCompleted now) c2 env2 = (clAction receiveResult, c3, env3)" using three(1) by simp
  have "ctSource c1 = ctSource c" "ctDestination c1 = ctDestination c" using f by (auto simp: ctFrame_def)
  then show ?thesis using ap1 ap2 ap3 two(2) three G T one(2,6) k(2) inHand_def[of now c2 env2] by metis
qed

end

subsection \<open>Free slots stay free\<close>

context node_storage
begin

lemma reclaim_free:
  assumes "envPath ops isReclaim env env'" "nodeInv device (mcell (envMedium env)) (rcell (envMedium env)) (envStore env)"
    and "durableView (rcell (envMedium env)) k = Some rec" "nrState rec = NS_FREE"
  shows "durableView (rcell (envMedium env')) k = Some rec"
proof -
  define R :: "nodeRecord \<Rightarrow> nodeRecord \<Rightarrow> bool" where "R = (\<lambda>x y. nrState x = NS_FREE \<longrightarrow> y = x)"
  have "R x x" "R x y \<Longrightarrow> R y z \<Longrightarrow> R x z" for x y z by (auto simp: R_def)
  moreover have "R (slotRecord st k) rec" if "isReclaim op" "intended op st j = Some (k, rec)" for op st j k rec
    using that by (cases op) (auto simp: R_def split: if_splits)
  ultimately have "rel_option R (durableView (rcell (envMedium env)) k) (durableView (rcell (envMedium env')) k)"
    using path_view[OF assms(1)[unfolded envPath_def] assms(2), of "\<lambda>_. R"] by blast
  with assms(3,4) show ?thesis by (auto simp: R_def option_rel_Some1)
qed

lemma control_free:
  assumes run: "deliveryRun d entropy mcell rcell device c env" "ddStorage d = ops" and step: "applyCtl d op c env = (a, c', env')"
    and rec: "durableView (rcell (envMedium env)) k = Some rec" "nrState rec = NS_FREE"
  shows "\<exists>rec'. durableView (rcell (envMedium env')) k = Some rec' \<and> nrState rec' = NS_FREE"
proof -
  have inv: "envInv device mcell rcell c env" using deliveryRun_inv[OF run] .
  then have node: "nodeInv device (mcell (envMedium env)) (rcell (envMedium env)) (envStore env)" by (simp add: deliveryInv_def)
  have kept: "nrState r' = NS_FREE" if "recordKept rec r'" for r' using that rec(2) by (auto simp: recordKept_def)
  show ?thesis
    using step deliveryInv_active[OF inv]
  proof (cases rule: ctl_cases)
    case gentle
    then show ?thesis using gentle_kept[OF gentle(2)[unfolded envPath_def run(2)] node, of k] rec kept by (auto simp: option_rel_Some1)
  next
    case transmit
    then show ?thesis using transmitted_effect(2)[OF transmit run(2) inv, of k] rec kept by (auto simp: option_rel_Some1)
  next
    case (release input now)
    then show ?thesis using released_effect[OF release(3) run(2) inv rec(1)] kept by auto
  next
    case reclamation
    then show ?thesis using reclaim_free[OF _ node rec] rec(2) by (auto simp: reclaimStep_def run(2))
  qed
qed

end

end
