(* ===== verification/EventSystem.thy ===== *)
theory EventSystem
  imports HubEventRadio NodeDeliveryRelease
begin

text \<open>
  A Node and a Hub together: the Node's delivery controller and store, the Hub's radio adapter and ledger, and the answers that
  are on the air.  Packets may be lost, repeated, delayed and delivered in any order, both devices may lose power at any moment,
  and their storage may fail; what the Node takes for an admission is something that the Hub has sent.
\<close>

subsection \<open>Steps\<close>

text \<open>What happens at a Node besides the calls of its controller: it starts, clears finished Events, creates one, or does something else.\<close>

inductive nodeAside :: "('s, 'e) deliveryDeps \<Rightarrow> 's entropySource \<Rightarrow> ('s \<Rightarrow> unit \<Rightarrow> copySlot \<Rightarrow> bytes option) \<Rightarrow>
    ('s \<Rightarrow> nat \<Rightarrow> copySlot \<Rightarrow> bytes option) \<Rightarrow> u8 \<Rightarrow> controller \<Rightarrow> ('s, 'e) nodeEnv \<Rightarrow> controller \<Rightarrow> ('s, 'e) nodeEnv \<Rightarrow> bool"
  for d entropy mcell rcell device where
  boot: "storeCall (ns_recover (ddStorage d) entropy device) env = (res, env') \<Longrightarrow> nodeAside d entropy mcell rcell device c env controller_init env'"
| clearFinished: "reclaimTerminals d None attached now env = (ok, oc, env') \<Longrightarrow>
    nodeAside d entropy mcell rcell device controller_init env controller_init env'"
| create: "storeCall (enqueue (ddStorage d) input) env = (r, env') \<Longrightarrow> nodeAside d entropy mcell rcell device c env c env'"
| elsewhere: "sameCore (envStore env') (envStore env) \<Longrightarrow> mcell (envMedium env') = mcell (envMedium env) \<Longrightarrow>
    rcell (envMedium env') = rcell (envMedium env) \<Longrightarrow> nodeAside d entropy mcell rcell device c env c env'"

lemma nodeAside_run: "nodeAside d entropy mcell rcell device c env c' env' \<Longrightarrow> deliveryRun d entropy mcell rcell device c env \<Longrightarrow>
    deliveryRun d entropy mcell rcell device c' env'"
  by (induction rule: nodeAside.induct) (auto intro: deliveryRun.intros)

text \<open>The Hub's records that are owned.\<close>

definition ownedRecords :: "(nat \<Rightarrow> copySlot \<Rightarrow> bytes option) \<Rightarrow> hubRecord set" where
  "ownedRecords cells = {rec. isOwned rec \<and> (\<exists>k<8. hubView cells k = Some rec)}"

text \<open>What the Node may be given as an answer: something from the air, or bytes that are no admission.\<close>

definition heard :: "bytes set \<Rightarrow> ctlOp \<Rightarrow> bool" where
  "heard air op = (case op of CtAdmission input now \<Rightarrow> (\<exists>b\<in>air. input = Some b) \<or> decodeAdmissionResponse input = None | _ \<Rightarrow> True)"

text \<open>What the run remembers: the answers that the Hub has sent, the records that its medium has held, and the records that the
  Node's medium has held as queued and as failed or expired.\<close>

record systemLog =
  lgAir :: "bytes set"
  lgHeld :: "hubRecord set"
  lgOffered :: "nodeRecord set"
  lgFinished :: "nodeRecord set"

definition systemLog_init :: systemLog where
  "systemLog_init = \<lparr>lgAir = {}, lgHeld = {}, lgOffered = {}, lgFinished = {}\<rparr>"

definition noteNode :: "(nat \<Rightarrow> copySlot \<Rightarrow> bytes option) \<Rightarrow> systemLog \<Rightarrow> systemLog" where
  "noteNode cells g = g\<lparr>lgOffered := lgOffered g \<union> {rec. nrState rec = NS_QUEUED \<and> (\<exists>k<8. durableView cells k = Some rec)},
     lgFinished := lgFinished g \<union> {rec. (nrState rec = NS_FAILED \<or> nrState rec = NS_EXPIRED) \<and> (\<exists>k<8. durableView cells k = Some rec)}\<rparr>"

definition noteHub :: "(nat \<Rightarrow> copySlot \<Rightarrow> bytes option) \<Rightarrow> systemLog \<Rightarrow> systemLog" where
  "noteHub cells g = g\<lparr>lgHeld := lgHeld g \<union> ownedRecords cells\<rparr>"

definition noteAnswer :: "hubRadioResult \<Rightarrow> systemLog \<Rightarrow> systemLog" where
  "noteAnswer res g = (if hxAction res = HX_START_EVENT_ACK then g\<lparr>lgAir := insert (take (hxLength res) (hxBytes res)) (lgAir g)\<rparr> else g)"

lemma note_simps [simp]:
  "lgAir (noteNode cells g) = lgAir g" "lgHeld (noteNode cells g) = lgHeld g" "lgFinished (noteHub hcells g) = lgFinished g"
  "lgAir (noteHub hcells g) = lgAir g" "lgHeld (noteHub hcells g) = lgHeld g \<union> ownedRecords hcells" "lgOffered (noteHub hcells g) = lgOffered g"
  "lgHeld (noteAnswer res g) = lgHeld g" "lgOffered (noteAnswer res g) = lgOffered g" "lgFinished (noteAnswer res g) = lgFinished g"
  by (simp_all add: noteNode_def noteHub_def noteAnswer_def)

text \<open>The run begins when the devices come into each other's reach, each with any past.  The Hub listens to this Node.\<close>

inductive systemRun :: "('s, 'e) deliveryDeps \<Rightarrow> 's entropySource \<Rightarrow> ('s \<Rightarrow> unit \<Rightarrow> copySlot \<Rightarrow> bytes option) \<Rightarrow>
    ('s \<Rightarrow> nat \<Rightarrow> copySlot \<Rightarrow> bytes option) \<Rightarrow> u8 \<Rightarrow>
    'h hubStorage \<Rightarrow> ('h \<Rightarrow> unit \<Rightarrow> copySlot \<Rightarrow> bytes option) \<Rightarrow> ('h \<Rightarrow> nat \<Rightarrow> copySlot \<Rightarrow> bytes option) \<Rightarrow>
    controller \<Rightarrow> ('s, 'e) nodeEnv \<Rightarrow> ledger \<Rightarrow> 'h \<Rightarrow> systemLog \<Rightarrow> bool"
  for d entropy mcell rcell device ops hmeta hrec where
  start: "deliveryRun d entropy mcell rcell device c env \<Longrightarrow> hubRun ops hmeta hrec l s log \<Longrightarrow>
    systemRun d entropy mcell rcell device ops hmeta hrec c env l s
      (noteNode (rcell (envMedium env)) (noteHub (hrec s) systemLog_init))"
| node_aside: "systemRun d entropy mcell rcell device ops hmeta hrec c env l s g \<Longrightarrow>
    nodeAside d entropy mcell rcell device c env c' env' \<Longrightarrow>
    systemRun d entropy mcell rcell device ops hmeta hrec c' env' l s (noteNode (rcell (envMedium env')) g)"
| node_call: "systemRun d entropy mcell rcell device ops hmeta hrec c env l s g \<Longrightarrow> heard (lgAir g) op \<Longrightarrow>
    applyCtl d op c env = (a, c', env') \<Longrightarrow>
    systemRun d entropy mcell rcell device ops hmeta hrec c' env' l s (noteNode (rcell (envMedium env')) g)"
| hub_packet: "systemRun d entropy mcell rcell device ops hmeta hrec c env l s g \<Longrightarrow>
    ha_process ops input hubDeviceId device reports l s = (res, l', s') \<Longrightarrow>
    systemRun d entropy mcell rcell device ops hmeta hrec c env l' s' (noteHub (hrec s') (noteAnswer res g))"
| hub_call: "systemRun d entropy mcell rcell device ops hmeta hrec c env l s g \<Longrightarrow> hubApply ops hop l s = (x, l', s') \<Longrightarrow>
    systemRun d entropy mcell rcell device ops hmeta hrec c env l' s' (noteHub (hrec s') g)"
| hub_elsewhere: "systemRun d entropy mcell rcell device ops hmeta hrec c env l s g \<Longrightarrow> hmeta s' = hmeta s \<Longrightarrow> hrec s' = hrec s \<Longrightarrow>
    systemRun d entropy mcell rcell device ops hmeta hrec c env l s' g"

subsection \<open>What is on the air is held\<close>

definition backed :: "u8 \<Rightarrow> hubRecord set \<Rightarrow> bytes \<Rightarrow> bool" where
  "backed device held b = (\<forall>r. decodeAdmissionResponse (Some b) = Some r \<longrightarrow> arStatus r = ADMITTED \<longrightarrow>
     (\<exists>rec\<in>held. isOwned rec \<and> hubKey rec = (device, arEpoch r, arId r) \<and> hrFamily rec = arFamily r))"

lemma backed_mono: "backed device held b \<Longrightarrow> held \<subseteq> held' \<Longrightarrow> backed device held' b"
  unfolding backed_def by blast

lemma makeAdmissionResponse_fields [simp]:
  "arStatus (makeAdmissionResponse e st) = st" "arDestination (makeAdmissionResponse e st) = evSource e"
  "arEpoch (makeAdmissionResponse e st) = evEpoch e" "arId (makeAdmissionResponse e st) = evId e"
  "arFamily (makeAdmissionResponse e st) = evFamily e"
  by (simp_all add: makeAdmissionResponse_def)

lemma systemRun_node: "systemRun d entropy mcell rcell device ops hmeta hrec c env l s g \<Longrightarrow> deliveryRun d entropy mcell rcell device c env"
  by (induction rule: systemRun.induct) (auto intro: deliveryRun.control nodeAside_run)

context hub_storage
begin

lemma process_backed:
  assumes "hubSound (mcell s) (rcell s) l" "ha_process ops input hub device reports l s = (res, l', s')" "hxAction res = HX_START_EVENT_ACK"
  shows "backed device (ownedRecords (rcell s')) (take (hxLength res) (hxBytes res))"
proof -
  obtain e where e: "decodeAdmissionResponse (Some (take (hxLength res) (hxBytes res))) = Some (makeAdmissionResponse e (hxStatus res))"
    "evSource e = device" "hxStatus res = ADMITTED \<longrightarrow> (\<exists>k<8. \<exists>rec. hubView (rcell s') k = Some rec \<and> recordOf e rec)"
    using ha_process_outcome [OF assms(1,2)] assms(3) by blast
  then show ?thesis by (fastforce simp: backed_def ownedRecords_def recordOf_def)
qed

lemma systemRun_hub:
  assumes "systemRun d entropy nmeta nrec device ops mcell rcell c env l s g"
  shows "hubSound (mcell s) (rcell s) l \<and> (\<forall>b\<in>lgAir g. backed device (lgHeld g) b)"
  using assms
proof (induction rule: systemRun.induct)
  case (start c env l s log)
  then show ?case using hubSound_run [OF hubRun_inv [OF start(2)]] by (simp add: systemLog_init_def)
next
  case (hub_packet c env l s g input hubDeviceId reports res l' s')
  then have "hubSound (mcell s) (rcell s) l" by blast
  note sound = conjunct1 [OF ha_process_outcome [OF this hub_packet.hyps(2)]] and new = process_backed [OF this hub_packet.hyps(2)]
  then show ?case using hub_packet.IH by (auto simp: noteAnswer_def intro: backed_mono)
next
  case (hub_call c env l s g hop x l' s')
  then show ?case using hubSound_call by (auto intro: backed_mono)
qed simp_all

end

subsection \<open>What the Node does not free it keeps\<close>

context node_storage
begin

lemma create_kept:
  assumes "nodeInv device (mcell (envMedium env)) (rcell (envMedium env)) (envStore env)" "storeCall (enqueue ops input) env = (r, env')"
    and "k < 8" "durableView (rcell (envMedium env)) k = Some rec" "nrState rec = NS_QUEUED"
  shows "durableView (rcell (envMedium env')) k = Some rec"
proof (cases "nsHealthy (envStore env)")
  case False
  then show ?thesis using assms(2,4) by (auto simp: storeCall_def enqueue_def split: prod.splits if_splits)
next
  case True
  let ?st = "envStore env"
  have inv: "storeInv device (mcell (envMedium env)) (rcell (envMedium env)) ?st" using assms(1) True by (simp add: nodeInv_def)
  have run: "enqueue ops input ?st (envMedium env) = (r, envStore env', envMedium env')"
    using assms(2) by (auto simp: storeCall_def split: prod.splits)
  have "slotRecord ?st k = rec" using storeInv_recordAt [OF inv assms(3)] assms(4) by simp
  then have "firstFreeSlot ?st \<noteq> Some k" using assms(5) by (auto simp: firstFreeSlot_def find_Some_iff)
  then show ?thesis using enqueue_outcome [OF run inv True] assms(4)
    by (auto simp: opOutcome_def commitOutcome_def split: option.splits if_splits)
qed

lemma nodeAside_kept:
  assumes "nodeAside d entropy mcell rcell device c env c' env'" "ddStorage d = ops"
    and "nodeInv device (mcell (envMedium env)) (rcell (envMedium env)) (envStore env)"
    and "k < 8" "durableView (rcell (envMedium env)) k = Some rec" "nrState rec = NS_QUEUED"
  shows "durableView (rcell (envMedium env')) k = Some rec"
  using assms(1)
proof cases
  case (boot res)
  have "ns_recover ops entropy device (envStore env) (envMedium env) = (res, envStore env', envMedium env')"
    using boot(2) assms(2) by (auto simp: storeCall_def split: prod.splits)
  moreover have "rcell (envMedium env) k \<noteq> (\<lambda>_. None)"
    using assms(5) by (auto simp: durableView_def durableRecord_def authoritative_def)
  ultimately have "rcell (envMedium env') = rcell (envMedium env)"
    using recover_store_outcome assms(3,4) unfolding nodeInv_def by blast
  then show ?thesis using assms(5) by simp
next
  case (clearFinished attached now ok oc)
  then show ?thesis using reclaim_queued [OF _ assms(3,5,6)] reclaimSlots_path [of d] assms(2,5)
    by (auto simp: reclaimTerminals_def split: if_splits)
next
  case (create input r)
  then show ?thesis using create_kept [OF assms(3) _ assms(4-6)] assms(2) by auto
next
  case elsewhere
  then show ?thesis using assms(5) by simp
qed

end

subsection \<open>Custody\<close>

text \<open>One step of the Node: a queued Event stays, is finished, or is freed, and then the Hub's medium has held it.\<close>

lemma custody_step:
  assumes "node_storage (ddStorage d) mcell entropy rcell" and "hub_storage ops hmeta hrec"
    and "systemRun d entropy mcell rcell device ops hmeta hrec c env l s g"
    and "nodeAside d entropy mcell rcell device c env c' env' \<or> (\<exists>op a. heard (lgAir g) op \<and> applyCtl d op c env = (a, c', env'))"
    and "k < 8" and "durableView (rcell (envMedium env)) k = Some rec" and "nrState rec = NS_QUEUED"
  shows "\<exists>rec'. durableView (rcell (envMedium env')) k = Some rec' \<and> (recordKept rec rec'
    \<or> nrState rec' = NS_FREE \<and> (\<exists>h\<in>lgHeld g. isOwned h \<and> hrSourceDeviceId h = device \<and> hrFamily h = nrFamily rec
        \<and> hrEventEpoch h = nrEventEpoch rec \<and> hrEventId h = nrEventId rec))"
proof -
  have run: "deliveryRun d entropy mcell rcell device c env" by (rule systemRun_node [OF assms(3)])
  have air: "\<forall>b\<in>lgAir g. backed device (lgHeld g) b" using hub_storage.systemRun_hub [OF assms(2,3)] by blast
  from assms(4) show ?thesis
  proof
    assume "nodeAside d entropy mcell rcell device c env c' env'"
    moreover have "nodeInv device (mcell (envMedium env)) (rcell (envMedium env)) (envStore env)"
      using node_storage.deliveryRun_inv [OF assms(1) run] by (auto simp: deliveryInv_def)
    ultimately show ?thesis using node_storage.nodeAside_kept [OF assms(1) _ refl _ assms(5-7)] by auto
  next
    assume "\<exists>op a. heard (lgAir g) op \<and> applyCtl d op c env = (a, c', env')"
    then obtain op a where op: "heard (lgAir g) op" "applyCtl d op c env = (a, c', env')" by blast
    from delivery_kept_or_released [OF assms(1) run op(2) assms(6,7)] obtain rec' where rec': "durableView (rcell (envMedium env')) k = Some rec'"
      and "recordKept rec rec' \<or> (\<exists>input now response. op = CtAdmission input now \<and> decodeAdmissionResponse input = Some response
        \<and> arStatus response = ADMITTED \<and> arSource response = ctDestination c \<and> arDestination response = ctSource c
        \<and> arFamily response = nrFamily rec \<and> arEpoch response = nrEventEpoch rec \<and> arId response = nrEventId rec
        \<and> nrState rec' = NS_FREE)" by blast
    then show ?thesis
    proof (elim disjE exE conjE)
      fix input now response
      assume r: "op = CtAdmission input now" "decodeAdmissionResponse input = Some response" "arStatus response = ADMITTED"
        "arFamily response = nrFamily rec" "arEpoch response = nrEventEpoch rec" "arId response = nrEventId rec" "nrState rec' = NS_FREE"
      then obtain b where "b \<in> lgAir g" "input = Some b" using op(1) by (auto simp: heard_def)
      then have "backed device (lgHeld g) b" "decodeAdmissionResponse (Some b) = Some response" using air r(2) by auto
      then show ?thesis using rec' r unfolding backed_def hubKey_def by fastforce
    qed (use rec' in blast)
  qed
qed

text \<open>Where an Event is: queued on the Node, finished there as failed or expired, or held by the Hub.\<close>

definition accounted :: "u8 \<Rightarrow> (nat \<Rightarrow> copySlot \<Rightarrow> bytes option) \<Rightarrow> systemLog \<Rightarrow> nodeRecord \<Rightarrow> bool" where
  "accounted device cells g rec \<longleftrightarrow>
     (\<exists>k<8. \<exists>rec'. durableView cells k = Some rec' \<and> nrState rec' = NS_QUEUED \<and> eventContent rec' = eventContent rec)
   \<or> (\<exists>rec'\<in>lgFinished g. (nrState rec' = NS_FAILED \<or> nrState rec' = NS_EXPIRED) \<and> eventContent rec' = eventContent rec)
   \<or> (\<exists>h\<in>lgHeld g. isOwned h \<and> hrSourceDeviceId h = device \<and> hrFamily h = nrFamily rec
        \<and> hrEventEpoch h = nrEventEpoch rec \<and> hrEventId h = nrEventId rec)"

lemma accounted_hub: "accounted device cells g rec \<Longrightarrow> lgFinished g = lgFinished g' \<Longrightarrow> lgHeld g \<subseteq> lgHeld g' \<Longrightarrow> accounted device cells g' rec"
  by (auto simp: accounted_def)

lemma accounted_new: "rec \<in> lgOffered (noteNode cells g) \<Longrightarrow> rec \<in> lgOffered g \<or> accounted device cells (noteNode cells g) rec"
  by (auto simp: noteNode_def accounted_def)

lemma accounted_step:
  assumes "node_storage (ddStorage d) mcell entropy rcell" and "hub_storage ops hmeta hrec"
    and "systemRun d entropy mcell rcell device ops hmeta hrec c env l s g"
    and "nodeAside d entropy mcell rcell device c env c' env' \<or> (\<exists>op a. heard (lgAir g) op \<and> applyCtl d op c env = (a, c', env'))"
    and "accounted device (rcell (envMedium env)) g rec"
  shows "accounted device (rcell (envMedium env')) (noteNode (rcell (envMedium env')) g) rec"
proof (cases "\<exists>k<8. \<exists>rec1. durableView (rcell (envMedium env)) k = Some rec1 \<and> nrState rec1 = NS_QUEUED \<and> eventContent rec1 = eventContent rec")
  case False
  then show ?thesis using assms(5) by (auto simp: accounted_def noteNode_def)
next
  case True
  then obtain k rec1 where k: "k < 8" "durableView (rcell (envMedium env)) k = Some rec1" "nrState rec1 = NS_QUEUED"
    "eventContent rec1 = eventContent rec" by blast
  from custody_step [OF assms(1-4) k(1-3)] k show ?thesis
    by (fastforce simp: accounted_def noteNode_def recordKept_def eventContent_def)
qed

lemma systemRun_accounted:
  assumes "node_storage (ddStorage d) mcell entropy rcell" and "hub_storage ops hmeta hrec"
    and "systemRun d entropy mcell rcell device ops hmeta hrec c env l s g" and "rec \<in> lgOffered g"
  shows "accounted device (rcell (envMedium env)) g rec"
  using assms(3,4)
proof (induction rule: systemRun.induct)
  case (start c env l s log)
  then show ?case using accounted_new by (fastforce simp: systemLog_init_def)
next
  case (node_aside c env l s g c' env')
  then show ?case using accounted_new accounted_step [OF assms(1,2) node_aside.hyps(1)] by blast
next
  case (node_call c env l s g op a c' env')
  then show ?case using accounted_new accounted_step [OF assms(1,2) node_call.hyps(1)] by blast
next
  case (hub_packet c env l s g input hubDeviceId reports res l' s')
  then show ?case by (auto intro: accounted_hub)
next
  case (hub_call c env l s g hop x l' s')
  then show ?case by (auto intro: accounted_hub)
qed simp

text \<open>C1. No Event is lost silently between the devices: in every run of a Node and a Hub over an unreliable channel, with power cuts
  and storage failures on both sides, every Event that the Node's medium has held as queued, at any time of the run, is still
  queued there with its content, or the medium has held it, with its content, as failed or expired (the Node may clear such a
  record later), or the Hub's medium has held a record of it, from this device and with this family and identity.\<close>

theorem custody_transferred:
  assumes "node_storage (ddStorage d) mcell entropy rcell" and "hub_storage ops hmeta hrec"
    and "systemRun d entropy mcell rcell device ops hmeta hrec c env l s g" and "rec \<in> lgOffered g"
  shows "(\<exists>k<8. \<exists>rec'. durableView (rcell (envMedium env)) k = Some rec' \<and> nrState rec' = NS_QUEUED \<and> eventContent rec' = eventContent rec)
    \<or> (\<exists>rec'\<in>lgFinished g. (nrState rec' = NS_FAILED \<or> nrState rec' = NS_EXPIRED) \<and> eventContent rec' = eventContent rec)
    \<or> (\<exists>h\<in>lgHeld g. isOwned h \<and> hrSourceDeviceId h = device \<and> hrFamily h = nrFamily rec
         \<and> hrEventEpoch h = nrEventEpoch rec \<and> hrEventId h = nrEventId rec)"
  using systemRun_accounted [OF assms] unfolding accounted_def .

subsection \<open>An Event that changes hands\<close>

abbreviation ramSystemRun :: "controller \<Rightarrow> (nodeRam, unit) nodeEnv \<Rightarrow> ledger \<Rightarrow> ramFlash \<Rightarrow> systemLog \<Rightarrow> bool" where
  "ramSystemRun \<equiv> systemRun ramDelivery (\<lambda>s. (Some 7, s)) (\<lambda>s. ramCell 28 (fst s)) (\<lambda>s. ramCell 56 (snd s)) 5
     (preferencesHub ramNvs) (\<lambda>s. hubMetaCells (ramBlob s)) (\<lambda>s. hubCells (ramBlob s))"

abbreviation ramView :: "(nodeRam, unit) nodeEnv \<Rightarrow> nat \<Rightarrow> nodeRecord option" where
  "ramView env \<equiv> durableView (ramCell 56 (snd (envMedium env)))"

text \<open>Only the first slot is in use, and what it holds is not finished.\<close>

definition firstOnly :: "(nodeRam, unit) nodeEnv \<Rightarrow> bool" where
  "firstOnly env \<longleftrightarrow> (\<forall>k<8. \<exists>r. ramView env k = Some r \<and> (nrState r = NS_FREE \<or> k = 0 \<and> nrState r = NS_QUEUED))"

lemma firstOnly_note: "firstOnly env \<Longrightarrow> lgFinished (noteNode (ramCell 56 (snd (envMedium env))) g) = lgFinished g"
  by (fastforce simp: noteNode_def firstOnly_def)

lemma firstOnly_step:
  assumes "ramDeliveryRun c env" "applyCtl ramDelivery op c env = (a, c', env')" "firstOnly env"
    and "ramView env' 0 = Some r" "nrState r = NS_QUEUED \<or> nrState r = NS_FREE"
  shows "firstOnly env'"
  unfolding firstOnly_def
proof (intro allI impI)
  fix k :: nat assume k: "k < 8"
  show "\<exists>r. ramView env' k = Some r \<and> (nrState r = NS_FREE \<or> k = 0 \<and> nrState r = NS_QUEUED)"
  proof (cases "k = 0")
    case False
    then obtain r0 where "ramView env k = Some r0" "nrState r0 = NS_FREE" using assms(3) k by (auto simp: firstOnly_def)
    then show ?thesis using ram_node.control_free [OF assms(1) _ assms(2)] by auto
  qed (use assms(4,5) in auto)
qed

lemma ram_view:
  assumes "ramDeliveryRun c env" "nsHealthy (envStore env)" "k < 8"
  shows "ramView env k = Some (slotRecord (envStore env) k)"
proof -
  have "storeInv 5 (ramCell 28 (fst (envMedium env))) (ramCell 56 (snd (envMedium env))) (envStore env)"
    using ram_node.deliveryRun_inv [OF assms(1)] assms(2) by (simp add: deliveryInv_def nodeInv_def)
  then show ?thesis using storeInv_recordAt [OF _ assms(3)] by blast
qed

text \<open>A Node that has sent its Event and awaits the answer, beside any Hub.\<close>

lemma ram_sent:
  "\<exists>c env rec. ramDeliveryRun c env \<and> firstOnly env \<and> nrState rec = NS_QUEUED
    \<and> (\<forall>l s. flashHubRun l s [] \<longrightarrow> (\<exists>g. ramSystemRun c env l s g \<and> rec \<in> lgOffered g \<and> lgFinished g = {}))
    \<and> nsHealthy (envStore env) \<and> inHand 0 c env \<and> ctState c = RS_WAIT_ADMISSION \<and> ctCorrelationValid c \<and> ctActiveSlot c = 0
    \<and> isValidEvent (ctAttemptEvent c) \<and> evSource (ctAttemptEvent c) = 5 \<and> evDestination (ctAttemptEvent c) = 1"
proof -
  obtain c env rec where n: "ramDeliveryRun c env" "ct_usable c env" "\<not> ctActive c" "queuedAt 0 (envStore env) = Some (rec, 0)"
    "ramView env 0 = Some rec" "nrState rec = NS_QUEUED" "nrAttemptsUsed rec = 0" "timeLeft 0 (plRuntime (ctPolicy c) ! 0) rec"
    "\<forall>k<8. k \<noteq> 0 \<longrightarrow> nrState (slotRecord (envStore env) k) = NS_FREE" "ctSource c = 5" "ctDestination c = 1"
    using ram_delivery_queued by blast
  obtain a1 c1 env1 a c2 env2 a3 c3 env3 where x: "applyCtl ramDelivery (CtService 0 False) c env = (a1, c1, env1)"
    "applyCtl ramDelivery (CtGrant 0) c1 env1 = (a, c2, env2)" "applyCtl ramDelivery (CtCompleted 0) c2 env2 = (a3, c3, env3)"
    and h3: "nsHealthy (envStore env3)" "inHand 0 c3 env3" "ctState c3 = RS_WAIT_ADMISSION" "ctCorrelationValid c3" "ctActiveSlot c3 = 0"
    and e: "encodeEvent (ctAttemptEvent c3) (Some (fillZero 32)) = (True, Some (raBytes a), raLength a)"
      "evSource (ctAttemptEvent c3) = 5" "evDestination (ctAttemptEvent c3) = 1"
    and q: "nrState (slotRecord (envStore env1) 0) = NS_QUEUED" "nrState (slotRecord (envStore env2) 0) = NS_QUEUED"
      "nsHealthy (envStore env1)" "nsHealthy (envStore env2)"
    using ram_node.exchange_ready [OF n(1) _ n(2-4) _ n(8)] n(7,10,11) by auto
  have r1: "ramDeliveryRun c1 env1" and r2: "ramDeliveryRun c2 env2" and r3: "ramDeliveryRun c3 env3"
    using deliveryRun.control [OF n(1) x(1)] deliveryRun.control [OF _ x(2)] deliveryRun.control [OF _ x(3)] by blast+
  have "nsHealthy (envStore env)" using usable_healthy [OF n(2)] by simp
  then have f0: "firstOnly env" using ram_view [OF n(1)] n(5,6,9) by (fastforce simp: firstOnly_def)
  have f1: "firstOnly env1" using firstOnly_step [OF n(1) x(1) f0 ram_view [OF r1 q(3)]] q(1) by simp
  have f2: "firstOnly env2" using firstOnly_step [OF r1 x(2) f1 ram_view [OF r2 q(4)]] q(2) by simp
  have f3: "firstOnly env3" using firstOnly_step [OF r2 x(3) f2 ram_view [OF r3 h3(1)]] h3(2,5) by (simp add: inHand_def)
  have "\<exists>g. ramSystemRun c3 env3 l s g \<and> rec \<in> lgOffered g \<and> lgFinished g = {}" if "flashHubRun l s []" for l s
  proof -
    let ?note = "\<lambda>env :: (nodeRam, unit) nodeEnv. noteNode (ramCell 56 (snd (envMedium env)))"
    have quiet: "heard air (CtService 0 False)" "heard air (CtGrant 0)" "heard air (CtCompleted 0)" for air by (simp_all add: heard_def)
    let ?g = "?note env3 (?note env2 (?note env1 (?note env (noteHub (hubCells (ramBlob s)) systemLog_init))))"
    have "ramSystemRun c3 env3 l s ?g"
      by (rule systemRun.node_call [OF systemRun.node_call [OF systemRun.node_call [OF systemRun.start [OF n(1) that] quiet(1) x(1)] quiet(2) x(2)] quiet(3) x(3)])
    moreover have "rec \<in> lgOffered ?g" using n(5,6) by (auto simp: noteNode_def)
    moreover have "lgFinished ?g = {}" using f0 f1 f2 f3 by (simp add: firstOnly_note systemLog_init_def)
    ultimately show ?thesis by blast
  qed
  moreover have "isValidEvent (ctAttemptEvent c3)" using e(1) by (auto simp: encodeEvent_def split: if_splits)
  ultimately show ?thesis using r3 f3 n(6) h3 e(2,3) by blast
qed

theorem custody_transferred_witness:
  "\<exists>c env l s g rec h. ramSystemRun c env l s g \<and> rec \<in> lgOffered g \<and> (\<forall>k<8. \<exists>r. ramView env k = Some r \<and> nrState r = NS_FREE)
    \<and> lgFinished g = {} \<and> h \<in> lgHeld g \<and> isOwned h \<and> hrSourceDeviceId h = 5 \<and> hrFamily h = nrFamily rec
    \<and> hrEventEpoch h = nrEventEpoch rec \<and> hrEventId h = nrEventId rec"
proof -
  obtain c env rec where n: "ramDeliveryRun c env" "firstOnly env" "nrState rec = NS_QUEUED"
    "\<And>l s. flashHubRun l s [] \<Longrightarrow> \<exists>g. ramSystemRun c env l s g \<and> rec \<in> lgOffered g \<and> lgFinished g = {}"
    "nsHealthy (envStore env)" "inHand 0 c env" "ctState c = RS_WAIT_ADMISSION" "ctCorrelationValid c" "ctActiveSlot c = 0"
    "isValidEvent (ctAttemptEvent c)" "evSource (ctAttemptEvent c) = 5" "evDestination (ctAttemptEvent c) = 1" using ram_sent by blast
  let ?e = "ctAttemptEvent c"
  obtain l s res l' s' where hub: "flashHubRun l s []"
    "ha_process (preferencesHub ramNvs) (Some (wireBytes (eventPacket ?e))) 1 5 True l s = (res, l', s')"
    "hxAction res = HX_START_EVENT_ACK" "decodeAdmissionResponse (Some (take (hxLength res) (hxBytes res))) = Some (makeAdmissionResponse (canonicalBody ?e) ADMITTED)"
    "isValidAdmissionResponse (makeAdmissionResponse (canonicalBody ?e) ADMITTED)" using flash_hub_answers [OF n(10-12)] by blast
  let ?b = "take (hxLength res) (hxBytes res)" and ?r = "makeAdmissionResponse (canonicalBody ?e) ADMITTED"
  obtain g where g: "ramSystemRun c env l s g" "rec \<in> lgOffered g" "lgFinished g = {}" using n(4) [OF hub(1)] by blast
  define g1 where "g1 = noteHub (hubCells (ramBlob s')) (noteAnswer res g)"
  have run1: "ramSystemRun c env l' s' g1" unfolding g1_def by (rule systemRun.hub_packet [OF g(1) hub(2)])
  have air: "heard (lgAir g1) (CtAdmission (Some ?b) 0)" using hub(3) by (simp add: heard_def g1_def noteAnswer_def)
  have sound: "storeInv 5 (ramCell 28 (fst (envMedium env))) (ramCell 56 (snd (envMedium env))) (envStore env)"
    using ram_node.deliveryRun_inv [OF n(1)] n(5) by (simp add: deliveryInv_def nodeInv_def)
  have match: "matchesEvent ?r ?e" using hub(5) by (simp add: matchesEvent_def makeAdmissionResponse_def canonicalBody_def)
  from ram_node.admission_releases [OF ramDelivery_simps(1) conjI [OF sound n(5)] n(6,7,8) hub(4) makeAdmissionResponse_fields(1) match] n(9) obtain c' env' where
    "admissionCandidate ramDelivery (Some ?b) 0 c env = (receiveResult, c', env')" "nsHealthy (envStore env')"
    "nrState (slotRecord (envStore env') 0) = NS_FREE" by auto
  then have step: "applyCtl ramDelivery (CtAdmission (Some ?b) 0) c env = (clAction receiveResult, c', env')"
    and free: "nsHealthy (envStore env')" "nrState (slotRecord (envStore env') 0) = NS_FREE" by simp_all
  have view: "ramView env' 0 = Some (slotRecord (envStore env') 0)" by (rule ram_view [OF deliveryRun.control [OF n(1) step] free(1)]) simp
  have only: "firstOnly env'" using firstOnly_step [OF n(1) step n(2) view] free(2) by simp
  let ?g = "noteNode (ramCell 56 (snd (envMedium env'))) g1"
  have run2: "ramSystemRun c' env' l' s' ?g" by (rule systemRun.node_call [OF run1 air step])
  have log: "rec \<in> lgOffered ?g" "lgFinished ?g = {}" using g(2,3) firstOnly_note [OF only] by (auto simp: g1_def noteNode_def)
  have clear: "\<forall>k<8. \<exists>r. ramView env' k = Some r \<and> nrState r = NS_FREE" using only view free(2) unfolding firstOnly_def by (metis option.inject)
  have w: "node_storage (ddStorage ramDelivery) (\<lambda>s. ramCell 28 (fst s)) (\<lambda>s. (Some 7, s)) (\<lambda>s. ramCell 56 (snd s))"
    using ram_node.node_storage_axioms by simp
  from custody_transferred [OF w ram_flash.hub.hub_storage_axioms run2 log(1)] clear log(2)
  obtain h where "h \<in> lgHeld ?g" "isOwned h" "hrSourceDeviceId h = 5" "hrFamily h = nrFamily rec" "hrEventEpoch h = nrEventEpoch rec" "hrEventId h = nrEventId rec"
    by fastforce
  with run2 log clear show ?thesis by blast
qed

end
