(* ===== verification/NodeEventRadio.thy ===== *)
theory NodeEventRadio
  imports NodeEventDelivery
begin

text \<open>
  The Node's side of the radio for Events (\<^verbatim>\<open>lib/event_radio_integration/src/node_event_radio.h\<close>): the arbiter that gives the radio
  to an Event transmission only from a listening radio and only when no received packet is waiting, and the delay before an
  acknowledgement.
\<close>

subsection \<open>The arbiter\<close>

datatype nodeOwner = NO_LISTENING | NO_STANDBY_ACQUIRED | NO_EVENT_TX | NO_COMMAND_PRE_ACK | NO_COMMAND_ACK_TX | NO_COMMAND_RESPONSE_TX
  | NO_MAINTENANCE

record nodeSafePoint =
  spRuntimeReady :: bool
  spListening :: bool
  spIsrPending :: bool
  spSynchronousWork :: bool
  spMaintenance :: bool
  spRendering :: bool

datatype nodeAcquireResult = NAR_DENIED | NAR_ACQUIRE_STANDBY | NAR_RECEIVED_PACKET_WON | NAR_GRANT_EVENT_TX

definition nodeArbiter_init :: nodeOwner where
  "nodeArbiter_init = NO_LISTENING"

definition requestEvent :: "nodeSafePoint \<Rightarrow> deliveryState \<Rightarrow> nodeOwner \<Rightarrow> nodeAcquireResult \<times> nodeOwner" where
  "requestEvent point state owner =
     (if owner \<noteq> NO_LISTENING \<or> \<not> spRuntimeReady point \<or> \<not> spListening point \<or> spIsrPending point \<or> spSynchronousWork point
         \<or> spMaintenance point \<or> spRendering point \<or> state \<noteq> RS_READY
      then (NAR_DENIED, owner) else (NAR_ACQUIRE_STANDBY, NO_STANDBY_ACQUIRED))"

definition finishStandby :: "bool \<Rightarrow> bool \<Rightarrow> nodeOwner \<Rightarrow> nodeAcquireResult \<times> nodeOwner" where
  "finishStandby standbySucceeded isrPending owner =
     (if owner \<noteq> NO_STANDBY_ACQUIRED then (NAR_DENIED, owner)
      else if \<not> standbySucceeded \<or> isrPending then (if isrPending then NAR_RECEIVED_PACKET_WON else NAR_DENIED, NO_LISTENING)
      else (NAR_GRANT_EVENT_TX, NO_EVENT_TX))"

definition restoreListening :: "nodeOwner \<Rightarrow> nodeOwner" where "restoreListening owner = NO_LISTENING"
definition beginCommandPreAck :: "nodeOwner \<Rightarrow> nodeOwner" where "beginCommandPreAck owner = NO_COMMAND_PRE_ACK"
definition beginCommandAckTx :: "nodeOwner \<Rightarrow> nodeOwner" where "beginCommandAckTx owner = NO_COMMAND_ACK_TX"
definition beginCommandResponseTx :: "nodeOwner \<Rightarrow> nodeOwner" where "beginCommandResponseTx owner = NO_COMMAND_RESPONSE_TX"
definition eventOwnsRadio :: "nodeOwner \<Rightarrow> bool" where "eventOwnsRadio owner = (owner = NO_EVENT_TX)"
definition eventMayAcquire :: "nodeOwner \<Rightarrow> bool" where "eventMayAcquire owner = (owner = NO_LISTENING)"

subsection \<open>The delay before an acknowledgement\<close>

definition PRE_ACK_DELAY_MILLISECONDS :: u32 where [simp]: "PRE_ACK_DELAY_MILLISECONDS = 100"

record commandPreAckTimer =
  ptActive :: bool
  ptFired :: bool
  ptOrigin :: u32

definition commandPreAckTimer_init :: commandPreAckTimer where
  "commandPreAckTimer_init = \<lparr>ptActive = False, ptFired = False, ptOrigin = 0\<rparr>"

definition pt_begin :: "u32 \<Rightarrow> commandPreAckTimer \<Rightarrow> commandPreAckTimer" where
  "pt_begin now t = \<lparr>ptActive = True, ptFired = False, ptOrigin = now\<rparr>"

definition pt_due :: "u32 \<Rightarrow> commandPreAckTimer \<Rightarrow> bool \<times> commandPreAckTimer" where
  "pt_due now t = (if \<not> ptActive t \<or> ptFired t \<or> now - ptOrigin t < PRE_ACK_DELAY_MILLISECONDS then (False, t)
     else (True, t\<lparr>ptFired := True\<rparr>))"

definition pt_clear :: "commandPreAckTimer \<Rightarrow> commandPreAckTimer" where
  "pt_clear t = t\<lparr>ptActive := False, ptFired := False\<rparr>"

subsection \<open>Ownership\<close>

text \<open>The calls of the arbiter.\<close>

datatype arbiterCall = RequestEvent nodeSafePoint deliveryState | FinishStandby bool bool | RestoreListening | PreAck | AckTx | ResponseTx

fun arbiterStep :: "arbiterCall \<Rightarrow> nodeOwner \<Rightarrow> nodeOwner" where
  "arbiterStep (RequestEvent p st) owner = snd (requestEvent p st owner)"
| "arbiterStep (FinishStandby ok isr) owner = snd (finishStandby ok isr owner)"
| "arbiterStep RestoreListening owner = restoreListening owner"
| "arbiterStep PreAck owner = beginCommandPreAck owner"
| "arbiterStep AckTx owner = beginCommandAckTx owner"
| "arbiterStep ResponseTx owner = beginCommandResponseTx owner"

text \<open>A call that hands the radio to an Event transmission.\<close>

lemma event_granted:
  assumes "arbiterStep call owner = NO_EVENT_TX" "owner \<noteq> NO_EVENT_TX"
  shows "owner = NO_STANDBY_ACQUIRED \<and> call = FinishStandby True False"
  using assms by (cases call) (auto simp: requestEvent_def finishStandby_def restoreListening_def beginCommandPreAck_def
    beginCommandAckTx_def beginCommandResponseTx_def split: if_splits)

lemma standby_acquired:
  assumes "arbiterStep call owner = NO_STANDBY_ACQUIRED" "owner \<noteq> NO_STANDBY_ACQUIRED"
  shows "owner = NO_LISTENING \<and> (\<exists>p. call = RequestEvent p RS_READY \<and> spRuntimeReady p \<and> spListening p \<and> \<not> spIsrPending p
    \<and> \<not> spSynchronousWork p \<and> \<not> spMaintenance p \<and> \<not> spRendering p)"
  using assms by (cases call) (auto simp: requestEvent_def finishStandby_def restoreListening_def beginCommandPreAck_def
    beginCommandAckTx_def beginCommandResponseTx_def split: if_splits)

text \<open>An acknowledgement is due once for each start of the delay, and not before it has passed.\<close>

lemma pt_due_once:
  assumes "pt_due now t = (True, t')"
  shows "100 \<le> now - ptOrigin t" "fst (pt_due later t') = False"
  using assms by (auto simp: pt_due_def split: if_splits)

end
