(* ===== verification/DeviceInput.thy ===== *)
theory DeviceInput
  imports Prelude
begin

text \<open>
  The button (\<^verbatim>\<open>lib/device_input/src/device_input.h\<close>): samples of a pin become presses, releases and short, long and very long
  presses.  The lemmas show that whatever the pin and the clock do, the events form gestures: every press is followed by its
  release before the next press, a long press comes at most once in between and a very long one after it, and a short press is
  reported after exactly those releases that ended a gesture without a long press.
\<close>

subsection \<open>The model\<close>

datatype inputEvent = IE_NONE | IE_PRESS | IE_RELEASE | IE_SHORT_PRESS | IE_LONG_PRESS | IE_VERY_LONG_PRESS

fun inputEvent_code :: "inputEvent \<Rightarrow> u8" where
  "inputEvent_code IE_NONE = 0"
| "inputEvent_code IE_PRESS = 1"
| "inputEvent_code IE_RELEASE = 2"
| "inputEvent_code IE_SHORT_PRESS = 3"
| "inputEvent_code IE_LONG_PRESS = 4"
| "inputEvent_code IE_VERY_LONG_PRESS = 5"

record buttonEvents =
  beFirst :: inputEvent
  beSecond :: inputEvent

definition buttonEvents_init :: buttonEvents where
  "buttonEvents_init = \<lparr>beFirst = IE_NONE, beSecond = IE_NONE\<rparr>"

record buttonSnapshot =
  bnAvailable :: bool
  bnPressed :: bool

record button =
  buDebounceMs :: u32
  buLongPressMs :: u32
  buVeryLongPressMs :: u32
  buInitialized :: bool
  buArmed :: bool
  buStablePressed :: bool
  buCandidatePressed :: bool
  buLongPressEmitted :: bool
  buVeryLongPressEmitted :: bool
  buCandidateSinceMs :: u32
  buPressSinceMs :: u32

definition button_new :: "u32 \<Rightarrow> u32 \<Rightarrow> u32 \<Rightarrow> button" where
  "button_new debounceMs longPressMs veryLongPressMs = \<lparr>buDebounceMs = debounceMs, buLongPressMs = longPressMs,
     buVeryLongPressMs = veryLongPressMs, buInitialized = False, buArmed = False, buStablePressed = False, buCandidatePressed = False,
     buLongPressEmitted = False, buVeryLongPressEmitted = False, buCandidateSinceMs = 0, buPressSinceMs = 0\<rparr>"

definition button_elapsed :: "u32 \<Rightarrow> u32 \<Rightarrow> u32" where
  "button_elapsed nowMs sinceMs = nowMs - sinceMs"

definition appendEvent :: "inputEvent \<Rightarrow> buttonEvents \<Rightarrow> buttonEvents" where
  "appendEvent event events = (if beFirst events = IE_NONE then events\<lparr>beFirst := event\<rparr>
     else if beSecond events = IE_NONE then events\<lparr>beSecond := event\<rparr> else events)"

definition updateStartupHeldState :: "bool \<Rightarrow> u32 \<Rightarrow> button \<Rightarrow> button" where
  "updateStartupHeldState pressed nowMs b =
     (if pressed then b\<lparr>buCandidatePressed := True, buCandidateSinceMs := nowMs\<rparr>
      else let b = (if buCandidatePressed b then b\<lparr>buCandidatePressed := False, buCandidateSinceMs := nowMs\<rparr> else b) in
      if button_elapsed nowMs (buCandidateSinceMs b) \<ge> buDebounceMs b then b\<lparr>buStablePressed := False, buArmed := True\<rparr> else b)"

text \<open>The debounced level, and the event of a change.\<close>

definition updateLevel :: "bool \<Rightarrow> u32 \<Rightarrow> button \<Rightarrow> buttonEvents \<times> button" where
  "updateLevel pressed nowMs b =
     (if pressed = buStablePressed b then (buttonEvents_init, b\<lparr>buCandidatePressed := buStablePressed b, buCandidateSinceMs := nowMs\<rparr>)
      else let b = (if buCandidatePressed b \<noteq> pressed then b\<lparr>buCandidatePressed := pressed, buCandidateSinceMs := nowMs\<rparr> else b) in
      if button_elapsed nowMs (buCandidateSinceMs b) \<ge> buDebounceMs b then
        let b = b\<lparr>buStablePressed := pressed\<rparr> in
        if pressed then (buttonEvents_init\<lparr>beFirst := IE_PRESS\<rparr>,
          b\<lparr>buPressSinceMs := nowMs, buLongPressEmitted := False, buVeryLongPressEmitted := False\<rparr>)
        else (buttonEvents_init\<lparr>beFirst := IE_RELEASE, beSecond := (if \<not> buLongPressEmitted b then IE_SHORT_PRESS else IE_NONE)\<rparr>, b)
      else (buttonEvents_init, b))"

text \<open>The long and the very long press of a button that is held.\<close>

definition updateHold :: "u32 \<Rightarrow> buttonEvents \<Rightarrow> button \<Rightarrow> buttonEvents \<times> button" where
  "updateHold nowMs events b =
     (let long = buStablePressed b \<and> \<not> buLongPressEmitted b \<and> button_elapsed nowMs (buPressSinceMs b) \<ge> buLongPressMs b;
          events = (if long then appendEvent IE_LONG_PRESS events else events);
          b = (if long then b\<lparr>buLongPressEmitted := True\<rparr> else b);
          veryLong = buStablePressed b \<and> \<not> buVeryLongPressEmitted b \<and> button_elapsed nowMs (buPressSinceMs b) \<ge> buVeryLongPressMs b in
      (if veryLong then appendEvent IE_VERY_LONG_PRESS events else events,
       if veryLong then b\<lparr>buVeryLongPressEmitted := True\<rparr> else b))"

definition button_update :: "bool \<Rightarrow> u32 \<Rightarrow> button \<Rightarrow> buttonEvents \<times> button" where
  "button_update pressed nowMs b =
     (if \<not> buInitialized b then (buttonEvents_init, b\<lparr>buInitialized := True, buStablePressed := pressed, buCandidatePressed := pressed,
        buCandidateSinceMs := nowMs, buArmed := \<not> pressed\<rparr>)
      else if \<not> buArmed b then (buttonEvents_init, updateStartupHeldState pressed nowMs b)
      else case updateLevel pressed nowMs b of (events, b) \<Rightarrow> updateHold nowMs events b)"

definition button_snapshot :: "button \<Rightarrow> buttonSnapshot" where
  "button_snapshot b = \<lparr>bnAvailable = (buInitialized b \<and> buArmed b), bnPressed = (buInitialized b \<and> buArmed b \<and> buStablePressed b)\<rparr>"

subsection \<open>Gestures\<close>

text \<open>The events of a sample in order, and of a sequence of samples.\<close>

definition eventsOf :: "buttonEvents \<Rightarrow> inputEvent list" where
  "eventsOf ev = filter (\<lambda>x. x \<noteq> IE_NONE) [beFirst ev, beSecond ev]"

primrec buttonRun :: "(bool \<times> u32) list \<Rightarrow> button \<Rightarrow> inputEvent list \<times> button" where
  "buttonRun [] b = ([], b)"
| "buttonRun (x # xs) b = (case button_update (fst x) (snd x) b of (ev, b) \<Rightarrow> case buttonRun xs b of (es, b) \<Rightarrow> (eventsOf ev @ es, b))"

text \<open>The language of gestures, as an automaton.\<close>

datatype gesture = Up | Released | Down | Long | VeryLong

fun gestureStep :: "inputEvent \<Rightarrow> gesture \<Rightarrow> gesture option" where
  "gestureStep IE_PRESS Up = Some Down"
| "gestureStep IE_LONG_PRESS Down = Some Long"
| "gestureStep IE_VERY_LONG_PRESS Long = Some VeryLong"
| "gestureStep IE_RELEASE Down = Some Released"
| "gestureStep IE_SHORT_PRESS Released = Some Up"
| "gestureStep IE_RELEASE Long = Some Up"
| "gestureStep IE_RELEASE VeryLong = Some Up"
| "gestureStep _ _ = None"

fun gestures :: "inputEvent list \<Rightarrow> gesture \<Rightarrow> gesture option" where
  "gestures [] g = Some g"
| "gestures (e # es) g = (case gestureStep e g of None \<Rightarrow> None | Some g \<Rightarrow> gestures es g)"

lemma gestures_append: "gestures (xs @ ys) g = (case gestures xs g of None \<Rightarrow> None | Some g \<Rightarrow> gestures ys g)"
  by (induction xs g rule: gestures.induct) (auto split: option.splits)

text \<open>Where a button stands between two samples.\<close>

definition buttonGesture :: "button \<Rightarrow> gesture" where
  "buttonGesture b = (if buInitialized b \<and> buArmed b \<and> buStablePressed b
     then (if buVeryLongPressEmitted b then VeryLong else if buLongPressEmitted b then Long else Down) else Up)"

text \<open>The long press takes time and is not later than the very long one; a very long press was long first.\<close>

definition buttonInv :: "button \<Rightarrow> bool" where
  "buttonInv b = (0 < buLongPressMs b \<and> buLongPressMs b \<le> buVeryLongPressMs b
     \<and> (buVeryLongPressEmitted b \<longrightarrow> buLongPressEmitted b))"

lemma eventsOf_simps [simp]:
  "eventsOf buttonEvents_init = []" "eventsOf (buttonEvents_init\<lparr>beFirst := IE_PRESS\<rparr>) = [IE_PRESS]"
  "eventsOf (buttonEvents_init\<lparr>beFirst := IE_RELEASE, beSecond := IE_NONE\<rparr>) = [IE_RELEASE]"
  "eventsOf (buttonEvents_init\<lparr>beFirst := IE_RELEASE, beSecond := IE_SHORT_PRESS\<rparr>) = [IE_RELEASE, IE_SHORT_PRESS]"
  "eventsOf (appendEvent IE_LONG_PRESS buttonEvents_init) = [IE_LONG_PRESS]"
  "eventsOf (appendEvent IE_VERY_LONG_PRESS buttonEvents_init) = [IE_VERY_LONG_PRESS]"
  "eventsOf (appendEvent IE_VERY_LONG_PRESS (appendEvent IE_LONG_PRESS buttonEvents_init)) = [IE_LONG_PRESS, IE_VERY_LONG_PRESS]"
  by (simp_all add: eventsOf_def appendEvent_def buttonEvents_init_def)

lemma updateLevel_cases:
  assumes "updateLevel pressed now b = (ev, b1)"
  obtains (same) "ev = buttonEvents_init" "buStablePressed b1 = buStablePressed b" "buLongPressEmitted b1 = buLongPressEmitted b"
      "buVeryLongPressEmitted b1 = buVeryLongPressEmitted b"
    | (press) "ev = buttonEvents_init\<lparr>beFirst := IE_PRESS\<rparr>" "\<not> buStablePressed b" "buStablePressed b1" "\<not> buLongPressEmitted b1"
      "\<not> buVeryLongPressEmitted b1" "buPressSinceMs b1 = now"
    | (release) "ev = buttonEvents_init\<lparr>beFirst := IE_RELEASE, beSecond := (if \<not> buLongPressEmitted b then IE_SHORT_PRESS else IE_NONE)\<rparr>"
      "buStablePressed b" "\<not> buStablePressed b1" "buLongPressEmitted b1 = buLongPressEmitted b" "buVeryLongPressEmitted b1 = buVeryLongPressEmitted b"
proof -
  define b0 where "b0 = (if buCandidatePressed b \<noteq> pressed then b\<lparr>buCandidatePressed := pressed, buCandidateSinceMs := now\<rparr> else b)"
  have b0: "buStablePressed b0 = buStablePressed b" "buLongPressEmitted b0 = buLongPressEmitted b"
    "buVeryLongPressEmitted b0 = buVeryLongPressEmitted b" by (simp_all add: b0_def)
  define due where "due = (button_elapsed now (buCandidateSinceMs b0) \<ge> buDebounceMs b0)"
  note run = assms [unfolded updateLevel_def, folded b0_def, unfolded Let_def, folded due_def]
  consider "pressed = buStablePressed b" | "pressed \<noteq> buStablePressed b" "\<not> due" | "pressed" "\<not> buStablePressed b" "due"
    | "\<not> pressed" "buStablePressed b" "due" by blast
  then show thesis
  proof cases
    case 1 show thesis by (rule same) (use run 1 in auto)
  next
    case 2 show thesis by (rule same) (use run 2 b0 in auto)
  next
    case 3 show thesis by (rule press) (use run 3 in auto)
  next
    case 4 show thesis by (rule release) (use run 4 b0 in auto)
  qed
qed

lemma updateLevel_config:
  assumes "updateLevel pressed now b = (ev, b1)"
  shows "buLongPressMs b1 = buLongPressMs b" "buVeryLongPressMs b1 = buVeryLongPressMs b" "buInitialized b1 = buInitialized b" "buArmed b1 = buArmed b"
  using assms unfolding updateLevel_def Let_def by (auto split: if_splits)

lemma updateHold_up: "\<not> buStablePressed b \<Longrightarrow> updateHold now ev b = (ev, b)"
  by (simp add: updateHold_def)

lemma updateHold_down:
  assumes "buttonInv b" "buInitialized b" "buArmed b" "buStablePressed b" "updateHold now buttonEvents_init b = (ev, b')"
  shows "buttonInv b' \<and> gestures (eventsOf ev) (buttonGesture b) = Some (buttonGesture b')"
proof -
  define L where "L = (buLongPressMs b \<le> button_elapsed now (buPressSinceMs b))"
  define V where "V = (buVeryLongPressMs b \<le> button_elapsed now (buPressSinceMs b))"
  have VL: "V \<Longrightarrow> L" using assms(1) by (auto simp: V_def L_def buttonInv_def)
  let ?l = "buLongPressEmitted b" and ?v = "buVeryLongPressEmitted b"
  have run: "(ev, b') = (if \<not> ?l \<and> L then (if V then (appendEvent IE_VERY_LONG_PRESS (appendEvent IE_LONG_PRESS buttonEvents_init),
        b\<lparr>buLongPressEmitted := True, buVeryLongPressEmitted := True\<rparr>)
      else (appendEvent IE_LONG_PRESS buttonEvents_init, b\<lparr>buLongPressEmitted := True\<rparr>))
    else if \<not> ?v \<and> V then (appendEvent IE_VERY_LONG_PRESS buttonEvents_init, b\<lparr>buVeryLongPressEmitted := True\<rparr>)
    else (buttonEvents_init, b))"
    unfolding assms(5) [symmetric] updateHold_def Let_def using assms(1,4) VL
    by (cases ?l; cases ?v; cases L; cases V) (simp_all add: L_def V_def buttonInv_def)
  show ?thesis using assms(1-4) run VL
    by (cases ?l; cases ?v; cases L; cases V) (simp_all add: buttonInv_def buttonGesture_def)
qed

lemma button_update_gesture:
  assumes inv: "buttonInv b" and run: "button_update pressed now b = (ev, b')"
  shows "buttonInv b' \<and> gestures (eventsOf ev) (buttonGesture b) = Some (buttonGesture b')"
proof -
  consider (first) "\<not> buInitialized b" | (held) "buInitialized b" "\<not> buArmed b" | (on) "buInitialized b" "buArmed b" by blast
  then show ?thesis
  proof cases
    case first
    then show ?thesis using run inv by (auto simp: button_update_def buttonInv_def buttonGesture_def)
  next
    case held
    then have "ev = buttonEvents_init" "b' = updateStartupHeldState pressed now b" using run by (auto simp: button_update_def)
    then show ?thesis using held inv by (simp add: updateStartupHeldState_def buttonInv_def buttonGesture_def Let_def)
  next
    case on
    obtain ev1 b1 where l: "updateLevel pressed now b = (ev1, b1)" by fastforce
    have h: "updateHold now ev1 b1 = (ev, b')" using run on l by (simp add: button_update_def)
    note cfg = updateLevel_config [OF l]
    from l show ?thesis
    proof (cases rule: updateLevel_cases)
      case same
      then have g: "buttonInv b1" "buttonGesture b1 = buttonGesture b" using inv cfg by (simp_all add: buttonInv_def buttonGesture_def)
      show ?thesis using updateHold_down [OF g(1), of now ev b'] updateHold_up [of b1] h g same(1) on cfg by (cases "buStablePressed b1") auto
    next
      case press
      have "updateHold now ev1 b1 = (ev1, b1)" using press inv cfg
        by (auto simp: updateHold_def button_elapsed_def buttonInv_def Let_def word_le_nat_alt word_less_nat_alt)
      then show ?thesis using press inv cfg on h by (auto simp: buttonInv_def buttonGesture_def)
    next
      case release
      then have "ev = ev1" "b' = b1" using h updateHold_up [of b1 now ev1] by auto
      then show ?thesis using release inv cfg on by (auto simp: buttonInv_def buttonGesture_def)
    qed
  qed
qed

lemma buttonRun_gesture:
  assumes "buttonInv b" "buttonRun xs b = (es, b')"
  shows "buttonInv b' \<and> gestures es (buttonGesture b) = Some (buttonGesture b')"
  using assms
proof (induction xs arbitrary: b es)
  case (Cons x xs)
  obtain ev b1 where u: "button_update (fst x) (snd x) b = (ev, b1)" by fastforce
  obtain es1 where r: "buttonRun xs b1 = (es1, b')" "es = eventsOf ev @ es1" using Cons.prems(2) u by (auto split: prod.splits)
  note U = button_update_gesture [OF Cons.prems(1) u]
  show ?case using U Cons.IH [OF conjunct1 [OF U] r(1)] r(2) by (simp add: gestures_append)
qed simp

end
