(* ===== verification/EventProducers.thy ===== *)
theory EventProducers
  imports DeviceInput NodeEventDelivery
begin

text \<open>
  Where Events come from (\<^verbatim>\<open>lib/event_producers/src/event_producers.h\<close> and, of \<^verbatim>\<open>lib/node_event_delivery\<close>,
  \<^verbatim>\<open>node_event_creation.h\<close> and \<^verbatim>\<open>node_event_service_time.h\<close>): the button and the sensor threshold producers, and the sink that
  puts their Events into the store and starts their lifetime.  A sink is a function on an environment state.
\<close>

subsection \<open>Sinks\<close>

definition PRODUCER_FLAGS :: u8 where [simp]: "PRODUCER_FLAGS = 0"
definition PRODUCER_LIFETIME_SECONDS :: u32 where [simp]: "PRODUCER_LIFETIME_SECONDS = 3600"

datatype creationResult = CR_ENQUEUED | CR_QUEUE_FULL | CR_INVALID_EVENT | CR_STORAGE_FAILURE

type_synonym 's creationSink = "eventInput \<Rightarrow> 's \<Rightarrow> creationResult \<times> 's"

fun normalize :: "enqueueStatus \<Rightarrow> creationResult" where
  "normalize ENQUEUED = CR_ENQUEUED"
| "normalize ENQ_QUEUE_FULL = CR_QUEUE_FULL"
| "normalize ENQ_INVALID_EVENT = CR_INVALID_EVENT"
| "normalize _ = CR_STORAGE_FAILURE"

fun diagnosticResult :: "creationResult \<Rightarrow> eventProducerResult" where
  "diagnosticResult CR_ENQUEUED = EPR_CREATED"
| "diagnosticResult CR_QUEUE_FULL = EPR_QUEUE_FULL"
| "diagnosticResult CR_INVALID_EVENT = EPR_INVALID_EVENT"
| "diagnosticResult CR_STORAGE_FAILURE = EPR_STORAGE_FAILURE"

text \<open>The sink on the store remembers the last result, if there was one.\<close>

record storeCreationSink =
  ssLastResultAvailable :: bool
  ssLastResult :: enqueueResult

definition storeCreationSink_init :: storeCreationSink where
  "storeCreationSink_init = \<lparr>ssLastResultAvailable = False, ssLastResult = \<lparr>erStatus = ENQUEUED, erIdentity = identity_init, erSlot = 0\<rparr>\<rparr>"

definition ss_create :: "'s nodeStorage \<Rightarrow> eventInput \<Rightarrow> storeCreationSink \<Rightarrow> ('s, 'e) nodeEnv \<Rightarrow>
    creationResult \<times> storeCreationSink \<times> ('s, 'e) nodeEnv" where
  "ss_create ops input k env = (case storeCall (enqueue ops input) env of (r, env) \<Rightarrow>
     (normalize (erStatus r), \<lparr>ssLastResultAvailable = True, ssLastResult = r\<rparr>, env))"

text \<open>The sink of all local producers; the clock is read after the enqueue.\<close>

definition ts_create :: "'s nodeStorage \<Rightarrow> (('s, 'e) nodeEnv \<Rightarrow> u32) \<Rightarrow> eventInput \<Rightarrow> storeCreationSink \<Rightarrow> controller \<Rightarrow> ('s, 'e) nodeEnv \<Rightarrow>
    creationResult \<times> storeCreationSink \<times> controller \<times> ('s, 'e) nodeEnv" where
  "ts_create ops clock input k c env =
     (if ctDegraded c then (CR_STORAGE_FAILURE, k, c, env)
      else case ss_create ops input k env of (created, k, env) \<Rightarrow>
      if created \<noteq> CR_ENQUEUED then (created, k, c, env)
      else case ct_trackEnqueued (erSlot (ssLastResult k)) (clock env) c env of (status, c, env) \<Rightarrow>
      (if status \<noteq> CS_OK then CR_STORAGE_FAILURE else CR_ENQUEUED, k, c, env))"

text \<open>The service entry points that sample the clock.\<close>

definition serviceNow :: "('s, 'e) deliveryDeps \<Rightarrow> (('s, 'e) nodeEnv \<Rightarrow> u32) \<Rightarrow> bool \<Rightarrow> controller \<Rightarrow> ('s, 'e) nodeEnv \<Rightarrow>
    u32 \<times> ('s, 'e) ctOutcome" where
  "serviceNow d clock synchronousWork c env = (clock env, ct_service d (clock env) synchronousWork c env)"

definition txCompletedNow :: "('s, 'e) deliveryDeps \<Rightarrow> (('s, 'e) nodeEnv \<Rightarrow> u32) \<Rightarrow> controller \<Rightarrow> ('s, 'e) nodeEnv \<Rightarrow> ('s, 'e) ctOutcome" where
  "txCompletedNow d clock c env = txCompleted d (clock env) c env"

subsection \<open>The button producer\<close>

record emission =
  emAttempted :: bool
  emResult :: creationResult

definition noEmission :: emission where
  "noEmission = \<lparr>emAttempted = False, emResult = CR_INVALID_EVENT\<rparr>"

definition makeInput :: "u8 \<Rightarrow> eventInput" where
  "makeInput fam = \<lparr>eiFamily = fam, eiFlags = PRODUCER_FLAGS, eiLifetimeBudgetSeconds = PRODUCER_LIFETIME_SECONDS, eiBodyLength = 0,
     eiBody = fillZero MAX_BODY_SIZE\<rparr>"

definition buttonInput :: "inputEvent \<Rightarrow> eventInput" where
  "buttonInput event = (makeInput (family_code BUTTON))\<lparr>eiBodyLength := 1, eiBody := (fillZero MAX_BODY_SIZE)[0 := inputEvent_code event]\<rparr>"

definition emitButton :: "'s creationSink \<Rightarrow> inputEvent \<Rightarrow> 's \<Rightarrow> emission \<times> 's" where
  "emitButton sink event s =
     (if event = IE_NONE then (noEmission, s)
      else if \<not> isValidButtonEvent (inputEvent_code event) then (noEmission, s)
      else case sink (buttonInput event) s of (r, s) \<Rightarrow> (\<lparr>emAttempted = True, emResult = r\<rparr>, s))"

definition manualInput :: eventInput where
  "manualInput = (makeInput (family_code MANUAL_CHECK_IN))\<lparr>eiBodyLength := 1,
     eiBody := (fillZero MAX_BODY_SIZE)[0 := manualReason_code USER_REQUEST]\<rparr>"

definition emitManualCheckIn :: "'s creationSink \<Rightarrow> 's \<Rightarrow> emission \<times> 's" where
  "emitManualCheckIn sink s = (case sink manualInput s of (r, s) \<Rightarrow> (\<lparr>emAttempted = True, emResult = r\<rparr>, s))"

record buttonContext =
  bcDisplayAwake :: bool
  bcEditorActive :: bool
  bcHomeScreen :: bool
  bcButtonEventSelected :: bool

record buttonProductionResult =
  bpButton :: emission
  bpManualCheckIn :: emission
  bpButtonSuppressed :: bool

record buttonProducer =
  prGestureEligible :: bool
  prGestureSuppressed :: bool
  prManualEligible :: bool
  prLongObserved :: bool
  prVeryLongObserved :: bool

definition buttonProducer_init :: buttonProducer where
  "buttonProducer_init = \<lparr>prGestureEligible = False, prGestureSuppressed = False, prManualEligible = False, prLongObserved = False,
     prVeryLongObserved = False\<rparr>"

fun observeOne :: "'s creationSink \<Rightarrow> buttonContext \<Rightarrow> inputEvent \<Rightarrow> buttonProductionResult \<Rightarrow> buttonProducer \<Rightarrow> 's \<Rightarrow>
    buttonProductionResult \<times> buttonProducer \<times> 's" where
  "observeOne sink ctx IE_PRESS result p s =
     (let eligible = bcButtonEventSelected ctx \<and> bcDisplayAwake ctx \<and> \<not> bcEditorActive ctx in
      (result, \<lparr>prGestureEligible = eligible, prGestureSuppressed = bcButtonEventSelected ctx \<and> \<not> eligible,
        prManualEligible = bcDisplayAwake ctx \<and> \<not> bcEditorActive ctx \<and> bcHomeScreen ctx, prLongObserved = False, prVeryLongObserved = False\<rparr>, s))"
| "observeOne sink ctx IE_SHORT_PRESS result p s =
     (case (if prGestureEligible p then (case emitButton sink IE_SHORT_PRESS s of (em, s) \<Rightarrow> (result\<lparr>bpButton := em\<rparr>, s))
            else if prGestureSuppressed p then (result\<lparr>bpButtonSuppressed := True\<rparr>, s) else (result, s)) of (result, s) \<Rightarrow>
      (result, p\<lparr>prGestureEligible := False, prGestureSuppressed := False, prManualEligible := False\<rparr>, s))"
| "observeOne sink ctx IE_LONG_PRESS result p s = (result, if prManualEligible p then p\<lparr>prLongObserved := True\<rparr> else p, s)"
| "observeOne sink ctx IE_VERY_LONG_PRESS result p s = (result, p\<lparr>prVeryLongObserved := True, prManualEligible := False\<rparr>, s)"
| "observeOne sink ctx IE_RELEASE result p s =
     (case (if prManualEligible p \<and> prLongObserved p \<and> \<not> prVeryLongObserved p
            then (case emitManualCheckIn sink s of (em, s) \<Rightarrow> (result\<lparr>bpManualCheckIn := em\<rparr>, s)) else (result, s)) of (result, s) \<Rightarrow>
      (result, p\<lparr>prGestureEligible := (if prLongObserved p then False else prGestureEligible p), prGestureSuppressed := False,
        prManualEligible := False, prLongObserved := False, prVeryLongObserved := False\<rparr>, s))"
| "observeOne sink ctx IE_NONE result p s = (result, p, s)"

definition bp_observe :: "'s creationSink \<Rightarrow> buttonEvents \<Rightarrow> buttonContext \<Rightarrow> buttonProducer \<Rightarrow> 's \<Rightarrow>
    buttonProductionResult \<times> buttonProducer \<times> 's" where
  "bp_observe sink events ctx p s =
     (case observeOne sink ctx (beFirst events) \<lparr>bpButton = noEmission, bpManualCheckIn = noEmission, bpButtonSuppressed = False\<rparr> p s of
        (result, p, s) \<Rightarrow> observeOne sink ctx (beSecond events) result p s)"

subsection \<open>The sensor threshold producer\<close>

record thresholdPolicy =
  tpCapabilityId :: u16
  tpValueType :: sensorValueType
  tpThresholdBits :: u32
  tpHysteresisBits :: u32
  tpRelation :: thresholdRelation

record thresholdProducer =
  thPolicy :: thresholdPolicy
  thInitialized :: bool
  thArmed :: bool

definition thresholdProducer_new :: "thresholdPolicy \<Rightarrow> thresholdProducer" where
  "thresholdProducer_new policy = \<lparr>thPolicy = policy, thInitialized = False, thArmed = False\<rparr>"

text \<open>The 64-bit values are integers: the sums and differences below stay far inside the range.\<close>

definition numericValue :: "thresholdPolicy \<Rightarrow> u32 \<Rightarrow> int" where
  "numericValue policy bits = (if tpValueType policy = SV_SIGNED_32 \<or> tpValueType policy = SV_FIXED_Q16_16 then sint bits else uint bits)"

definition validObserved :: "thresholdPolicy \<Rightarrow> u32 \<Rightarrow> bool" where
  "validObserved policy bits = (tpValueType policy \<noteq> SV_NORMALIZED_U16 \<and> tpValueType policy \<noteq> SV_ENUM_U16 \<or> bits AND 0xFFFF0000 = 0)"

definition validPolicy :: "thresholdPolicy \<Rightarrow> bool" where
  "validPolicy policy = (tpCapabilityId policy \<noteq> 0 \<and> isValidSensorValueType (sensorValueType_code (tpValueType policy))
     \<and> isValidThresholdRelation (thresholdRelation_code (tpRelation policy)) \<and> validObserved policy (tpThresholdBits policy))"

definition isActive :: "thresholdPolicy \<Rightarrow> u32 \<Rightarrow> bool" where
  "isActive policy bits = (if tpRelation policy = CROSSED_ABOVE then numericValue policy bits > numericValue policy (tpThresholdBits policy)
     else numericValue policy bits < numericValue policy (tpThresholdBits policy))"

definition isRearmed :: "thresholdPolicy \<Rightarrow> u32 \<Rightarrow> bool" where
  "isRearmed policy bits = (if tpRelation policy = CROSSED_ABOVE
     then numericValue policy bits \<le> numericValue policy (tpThresholdBits policy) - uint (tpHysteresisBits policy)
     else numericValue policy bits \<ge> numericValue policy (tpThresholdBits policy) + uint (tpHysteresisBits policy))"

definition thresholdInput :: "thresholdPolicy \<Rightarrow> u32 \<Rightarrow> eventInput" where
  "thresholdInput policy observedBits = (makeInput (family_code SENSOR_THRESHOLD))\<lparr>eiBodyLength := 8,
     eiBody := (EventProtocol.writeUint32Le ((fillZero MAX_BODY_SIZE)[0 := ucast (tpCapabilityId policy AND 0xFF), 1 := ucast (drop_bit 8 (tpCapabilityId policy)),
       2 := sensorValueType_code (tpValueType policy)]) 3 observedBits)[7 := thresholdRelation_code (tpRelation policy)]\<rparr>"

definition th_observe :: "'s creationSink \<Rightarrow> bool \<Rightarrow> u32 \<Rightarrow> thresholdProducer \<Rightarrow> 's \<Rightarrow> emission \<times> thresholdProducer \<times> 's" where
  "th_observe sink available observedBits t s =
     (let policy = thPolicy t in
      if \<not> available \<or> \<not> validPolicy policy \<or> \<not> validObserved policy observedBits then (noEmission, t, s)
      else let active = isActive policy observedBits in
      if \<not> thInitialized t then (noEmission, t\<lparr>thInitialized := True, thArmed := \<not> active\<rparr>, s)
      else if \<not> thArmed t then (noEmission, if isRearmed policy observedBits then t\<lparr>thArmed := True\<rparr> else t, s)
      else if \<not> active then (noEmission, t, s)
      else case sink (thresholdInput policy observedBits) s of (r, s) \<Rightarrow> (\<lparr>emAttempted = True, emResult = r\<rparr>, t\<lparr>thArmed := False\<rparr>, s))"

end
