(* ===== verification/ProducerProperties.thy ===== *)
theory ProducerProperties
  imports EventProducers NodeEventRuns
begin

text \<open>
  What the producers put into the store: valid Events only, at most one for each gesture of the button, and for a sensor one for
  each crossing of the threshold, with a return behind the hysteresis in between.  An Event that the shared sink reports as
  enqueued is durable and its lifetime runs.
\<close>

subsection \<open>Inputs\<close>

lemma button_input_valid: "validInput (buttonInput IE_SHORT_PRESS)" "validInput manualInput"
  by (code_simp, code_simp)

lemma threshold_input_valid:
  assumes "validPolicy policy" "validObserved policy bits"
  shows "validInput (thresholdInput policy bits)"
proof -
  let ?b = "eiBody (thresholdInput policy bits)" and ?c = "tpCapabilityId policy"
  have body: "?b ! 0 = ucast (?c AND 0xFF)" "?b ! 1 = ucast (drop_bit 8 ?c)" "?b ! 2 = sensorValueType_code (tpValueType policy)"
      "?b ! 5 = ucast (drop_bit 16 bits)" "?b ! 6 = ucast (drop_bit 24 bits)" "?b ! 7 = thresholdRelation_code (tpRelation policy)"
      "?b ! 8 = 0" "?b ! 9 = 0" "?b ! 10 = 0" "?b ! 11 = 0"
    by (simp_all add: thresholdInput_def makeInput_def writeUint32Le_put putLe32_def)
  have m8: "(255 :: u16) = mask 8" and m16: "(0xFFFF0000 :: u32) = push_bit 16 (mask 16)"
    by (simp_all add: mask_eq_exp_minus_1 push_bit_eq_mult)
  have c: "(ucast (?b ! 0) OR push_bit 8 (ucast (?b ! 1)) :: u16) = ?c"
    unfolding body(1,2) m8 by (rule bit_word_eqI) (auto simp: bit_simps)
  have high: "drop_bit 16 bits = 0 \<and> drop_bit 24 bits = 0" if "bits AND 0xFFFF0000 = 0"
  proof -
    have "\<not> bit bits n" if n: "16 \<le> n" for n
    proof -
      have "\<not> bit (bits AND push_bit 16 (mask 16)) n" using \<open>bits AND 0xFFFF0000 = 0\<close> by (simp add: m16)
      then show ?thesis using n bit_imp_le_length [of bits n] by (auto simp: bit_simps)
    qed
    then show ?thesis by (auto intro!: bit_word_eqI simp: bit_simps)
  qed
  have "isValidFamilyBody (family_code SENSOR_THRESHOLD) (Some ?b) 8"
    using assms high by (cases "tpValueType policy") (auto simp: isValidFamilyBody_def expectedBodyLength_def c [unfolded One_nat_def] Let_def body(3-) validPolicy_def validObserved_def)
  then show ?thesis
    using body by (simp add: validInput_def thresholdInput_def makeInput_def isRegisteredFamily_def upt_rec)
qed

subsection \<open>Recording what a sink is given\<close>

definition logged :: "'s creationSink \<Rightarrow> (eventInput list \<times> 's) creationSink" where
  "logged sink input = (\<lambda>(log, s). case sink input s of (r, s) \<Rightarrow> (r, log @ [input], s))"

lemma logged_run: "logged sink input ls = (r, ls') \<Longrightarrow> fst ls' = fst ls @ [input]"
  by (auto simp: logged_def split: prod.splits)

subsection \<open>Gestures and Events\<close>

text \<open>Whether a gesture can still give an Event.\<close>

definition open_gesture :: "gesture \<Rightarrow> nat" where
  "open_gesture g = (if g = Up then 0 else 1)"

definition producerInv :: "gesture \<Rightarrow> buttonProducer \<Rightarrow> bool" where
  "producerInv g p = (g = Down \<or> g = Released \<or> g = Up \<longrightarrow> \<not> prLongObserved p)"

definition presses :: "inputEvent list \<Rightarrow> nat" where
  "presses es = length (filter (\<lambda>e. e = IE_PRESS) es)"

lemma emitButton_logged:
  assumes "emitButton (logged sink) IE_SHORT_PRESS ls = (em, ls')"
  shows "fst ls' = fst ls @ [buttonInput IE_SHORT_PRESS]"
proof -
  have "isValidButtonEvent (inputEvent_code IE_SHORT_PRESS)" by code_simp
  then show ?thesis using assms logged_run [of sink "buttonInput IE_SHORT_PRESS" ls]
    by (auto simp: emitButton_def split: prod.splits)
qed

lemma emitManual_logged: "emitManualCheckIn (logged sink) ls = (em, ls') \<Longrightarrow> fst ls' = fst ls @ [manualInput]"
  using logged_run [of sink manualInput ls] by (auto simp: emitManualCheckIn_def split: prod.splits)

lemma observeOne_gesture:
  assumes run: "observeOne (logged sink) ctx e r p ls = (r', p', ls')" and g: "gestureStep e g = Some g'" and inv: "producerInv g p"
  shows "producerInv g' p' \<and> (\<exists>new. fst ls' = fst ls @ new \<and> set new \<subseteq> {buttonInput IE_SHORT_PRESS, manualInput}
    \<and> length new + open_gesture g' \<le> presses [e] + open_gesture g)"
proof (cases e)
  case IE_PRESS
  then show ?thesis using run g inv by (cases g) (auto simp: producerInv_def open_gesture_def presses_def Let_def)
next
  case IE_RELEASE
  show ?thesis
  proof (cases "prManualEligible p \<and> prLongObserved p \<and> \<not> prVeryLongObserved p")
    case True
    obtain em l where m: "emitManualCheckIn (logged sink) ls = (em, l)" by (rule prod.exhaust)
    then show ?thesis using run g inv IE_RELEASE True emitManual_logged [OF m]
      by (cases g) (auto simp: producerInv_def open_gesture_def presses_def)
  next
    case False
    then show ?thesis using run g inv IE_RELEASE by (cases g) (auto simp: producerInv_def open_gesture_def presses_def)
  qed
next
  case IE_SHORT_PRESS
  obtain em l where m: "emitButton (logged sink) IE_SHORT_PRESS ls = (em, l)" by (rule prod.exhaust)
  show ?thesis using run g inv IE_SHORT_PRESS m emitButton_logged [OF m]
    by (cases g) (auto simp: producerInv_def open_gesture_def presses_def split: if_splits)
qed (use run g inv in \<open>cases g; auto simp: producerInv_def open_gesture_def presses_def split: if_splits\<close>)+

lemma gestures_appendD: "gestures (xs @ ys) g = Some g' \<Longrightarrow> \<exists>g1. gestures xs g = Some g1 \<and> gestures ys g1 = Some g'"
  by (auto simp: gestures_append split: option.splits)

lemma bp_observe_gesture:
  assumes run: "bp_observe (logged sink) ev ctx p ls = (r, p', ls')" and g: "gestures (eventsOf ev) g = Some g'" and inv: "producerInv g p"
  shows "producerInv g' p' \<and> (\<exists>new. fst ls' = fst ls @ new \<and> set new \<subseteq> {buttonInput IE_SHORT_PRESS, manualInput}
    \<and> length new + open_gesture g' \<le> presses (eventsOf ev) + open_gesture g)"
proof -
  obtain r1 p1 l1 where o1: "observeOne (logged sink) ctx (beFirst ev) \<lparr>bpButton = noEmission, bpManualCheckIn = noEmission, bpButtonSuppressed = False\<rparr> p ls
      = (r1, p1, l1)" by (rule prod_cases3)
  have o2: "observeOne (logged sink) ctx (beSecond ev) r1 p1 l1 = (r, p', ls')" using run o1 by (simp add: bp_observe_def)
  have first: "\<exists>g1. gestures (filter (\<lambda>x. x \<noteq> IE_NONE) [beFirst ev]) g = Some g1 \<and> gestures (filter (\<lambda>x. x \<noteq> IE_NONE) [beSecond ev]) g1 = Some g'"
  proof (rule gestures_appendD)
    have "eventsOf ev = filter (\<lambda>x. x \<noteq> IE_NONE) [beFirst ev] @ filter (\<lambda>x. x \<noteq> IE_NONE) [beSecond ev]" by (simp add: eventsOf_def)
    then show "gestures (filter (\<lambda>x. x \<noteq> IE_NONE) [beFirst ev] @ filter (\<lambda>x. x \<noteq> IE_NONE) [beSecond ev]) g = Some g'" using g by metis
  qed
  have step: "producerInv h' q' \<and> (\<exists>new. fst m' = fst m @ new \<and> set new \<subseteq> {buttonInput IE_SHORT_PRESS, manualInput}
      \<and> length new + open_gesture h' \<le> presses (filter (\<lambda>x. x \<noteq> IE_NONE) [e]) + open_gesture h)"
    if "observeOne (logged sink) ctx e x q m = (y, q', m')" "gestures (filter (\<lambda>x. x \<noteq> IE_NONE) [e]) h = Some h'" "producerInv h q" for e x q m y q' m' h h'
    using that observeOne_gesture [OF that(1) _ that(3)] by (cases "e = IE_NONE") (auto simp: presses_def split: option.splits)
  obtain g1 where g1: "gestures (filter (\<lambda>x. x \<noteq> IE_NONE) [beFirst ev]) g = Some g1" "gestures (filter (\<lambda>x. x \<noteq> IE_NONE) [beSecond ev]) g1 = Some g'"
    using first by blast
  note S1 = step [OF o1 g1(1) inv]
  note S2 = step [OF o2 g1(2) conjunct1 [OF S1]]
  obtain n1 where n1: "fst l1 = fst ls @ n1" "set n1 \<subseteq> {buttonInput IE_SHORT_PRESS, manualInput}"
    "length n1 + open_gesture g1 \<le> presses (filter (\<lambda>x. x \<noteq> IE_NONE) [beFirst ev]) + open_gesture g" using S1 by blast
  obtain n2 where n2: "fst ls' = fst l1 @ n2" "set n2 \<subseteq> {buttonInput IE_SHORT_PRESS, manualInput}"
    "length n2 + open_gesture g' \<le> presses (filter (\<lambda>x. x \<noteq> IE_NONE) [beSecond ev]) + open_gesture g1" using S2 by blast
  have "presses (eventsOf ev) = presses (filter (\<lambda>x. x \<noteq> IE_NONE) [beFirst ev]) + presses (filter (\<lambda>x. x \<noteq> IE_NONE) [beSecond ev])"
    by (simp add: eventsOf_def presses_def)
  then show ?thesis using S2 n1 n2 by (intro conjI exI [of _ "n1 @ n2"]) auto
qed

subsection \<open>From samples to Events\<close>

primrec productionRun :: "'s creationSink \<Rightarrow> (bool \<times> u32 \<times> buttonContext) list \<Rightarrow> button \<Rightarrow> buttonProducer \<Rightarrow> 's \<Rightarrow>
    inputEvent list \<times> button \<times> buttonProducer \<times> 's" where
  "productionRun sink [] b p s = ([], b, p, s)"
| "productionRun sink (x # xs) b p s = (case x of (pressed, now, ctx) \<Rightarrow>
     case button_update pressed now b of (ev, b) \<Rightarrow>
     case bp_observe sink ev ctx p s of (r, p, s) \<Rightarrow>
     case productionRun sink xs b p s of (es, b, p, s) \<Rightarrow> (eventsOf ev @ es, b, p, s))"

lemma presses_append: "presses (xs @ ys) = presses xs + presses ys"
  by (simp add: presses_def)

lemma productionRun_gestures:
  assumes "productionRun (logged sink) xs b p ls = (es, b', p', ls')" "buttonInv b" "producerInv (buttonGesture b) p"
  shows "\<exists>new. fst ls' = fst ls @ new \<and> set new \<subseteq> {buttonInput IE_SHORT_PRESS, manualInput}
    \<and> length new + open_gesture (buttonGesture b') \<le> presses es + open_gesture (buttonGesture b) \<and> gestures es (buttonGesture b) = Some (buttonGesture b')"
  using assms
proof (induction xs arbitrary: b p ls es)
  case Nil
  then show ?case by (simp add: presses_def)
next
  case (Cons x xs)
  obtain pressed now ctx where x: "x = (pressed, now, ctx)" by (rule prod_cases3)
  obtain ev b1 where u: "button_update pressed now b = (ev, b1)" by fastforce
  obtain r p1 l1 where o: "bp_observe (logged sink) ev ctx p ls = (r, p1, l1)" by (rule prod_cases3)
  obtain es1 where r: "productionRun (logged sink) xs b1 p1 l1 = (es1, b', p', ls')" "es = eventsOf ev @ es1"
    using Cons.prems(1) x u o by (auto split: prod.splits)
  note U = button_update_gesture [OF Cons.prems(2) u]
  note O = bp_observe_gesture [OF o conjunct2 [OF U] Cons.prems(3)]
  obtain n1 where n1: "fst l1 = fst ls @ n1" "set n1 \<subseteq> {buttonInput IE_SHORT_PRESS, manualInput}"
    "length n1 + open_gesture (buttonGesture b1) \<le> presses (eventsOf ev) + open_gesture (buttonGesture b)" using O by blast
  obtain n2 where n2: "fst ls' = fst l1 @ n2" "set n2 \<subseteq> {buttonInput IE_SHORT_PRESS, manualInput}"
    "length n2 + open_gesture (buttonGesture b') \<le> presses es1 + open_gesture (buttonGesture b1)" "gestures es1 (buttonGesture b1) = Some (buttonGesture b')"
    using Cons.IH [OF r(1)] U O by blast
  show ?case using n1 n2 r(2) U by (intro exI [of _ "n1 @ n2"]) (auto simp: presses_append gestures_append)
qed

lemma producer_inputs_valid: "i \<in> {buttonInput IE_SHORT_PRESS, manualInput} \<Longrightarrow> validInput i"
  using button_input_valid by auto

subsection \<open>From readings to Events\<close>

primrec thresholdRun :: "'s creationSink \<Rightarrow> (bool \<times> u32) list \<Rightarrow> thresholdProducer \<Rightarrow> 's \<Rightarrow> bool list \<times> thresholdProducer \<times> 's" where
  "thresholdRun sink [] t s = ([], t, s)"
| "thresholdRun sink (x # xs) t s = (case th_observe sink (fst x) (snd x) t s of (em, t, s) \<Rightarrow>
     case thresholdRun sink xs t s of (ems, t, s) \<Rightarrow> (emAttempted em # ems, t, s))"

lemma isRearmed_inactive: "isRearmed policy bits \<Longrightarrow> \<not> isActive policy bits"
proof -
  obtain h where "uint (tpHysteresisBits policy) = h" "0 \<le> h" by simp
  then show "isRearmed policy bits \<Longrightarrow> \<not> isActive policy bits" by (auto simp: isRearmed_def isActive_def split: if_splits)
qed

lemma th_observe_step:
  assumes "th_observe sink available bits t s = (em, t', s')"
  shows "thPolicy t' = thPolicy t \<and> (thInitialized t \<longrightarrow> thInitialized t')
    \<and> (emAttempted em \<longrightarrow> thInitialized t \<and> thArmed t \<and> \<not> thArmed t' \<and> isActive (thPolicy t) bits)
    \<and> (thArmed t' \<and> (thInitialized t \<longrightarrow> \<not> thArmed t) \<longrightarrow>
        (if thInitialized t then isRearmed (thPolicy t) bits else \<not> isActive (thPolicy t) bits \<or> thArmed t))"
  using assms by (auto simp: th_observe_def noEmission_def Let_def split: if_splits prod.splits)

lemma thresholdRun_Cons:
  assumes "thresholdRun sink (x # xs) t s = (ems, t', s')"
  obtains em t1 s1 ems1 where "th_observe sink (fst x) (snd x) t s = (em, t1, s1)" "thresholdRun sink xs t1 s1 = (ems1, t', s')"
    "ems = emAttempted em # ems1"
  using assms by (auto split: prod.splits)

lemma thresholdRun_length: "thresholdRun sink xs t s = (ems, t', s') \<Longrightarrow> length ems = length xs"
  by (induction xs arbitrary: t s ems) (auto split: prod.splits)

text \<open>Before an emission, a producer that is not armed sees the value that arms it.\<close>

lemma thresholdRun_rearms:
  assumes "thresholdRun sink xs t s = (ems, t', s')" "j < length ems" "ems ! j" "\<not> thArmed t"
  shows "\<exists>k<j. if thInitialized t then isRearmed (thPolicy t) (snd (xs ! k)) else \<not> isActive (thPolicy t) (snd (xs ! k))"
  using assms
proof (induction xs arbitrary: t s ems j)
  case (Cons x xs)
  obtain em t1 s1 ems1 where h: "th_observe sink (fst x) (snd x) t s = (em, t1, s1)" "thresholdRun sink xs t1 s1 = (ems1, t', s')"
    "ems = emAttempted em # ems1" by (rule thresholdRun_Cons [OF Cons.prems(1)])
  note step = th_observe_step [OF h(1)]
  obtain i where i: "j = Suc i" using Cons.prems(3,4) h(3) step by (cases j) auto
  show ?case
  proof (cases "thArmed t1")
    case True
    then show ?thesis using step Cons.prems(4) i by (intro exI [of _ 0]) auto
  next
    case False
    then obtain k where "k < i" "if thInitialized t1 then isRearmed (thPolicy t1) (snd (xs ! k)) else \<not> isActive (thPolicy t1) (snd (xs ! k))"
      using Cons.IH [OF h(2), of i] Cons.prems(2,3) h(3) i by auto
    then show ?thesis using step i isRearmed_inactive by (intro exI [of _ "Suc k"]) (auto split: if_splits)
  qed
qed simp

lemma thresholdRun_active:
  assumes "thresholdRun sink xs t s = (ems, t', s')" "i < length ems" "ems ! i"
  shows "isActive (thPolicy t) (snd (xs ! i))"
  using assms
proof (induction xs arbitrary: t s ems i)
  case (Cons x xs)
  obtain em t1 s1 ems1 where h: "th_observe sink (fst x) (snd x) t s = (em, t1, s1)" "thresholdRun sink xs t1 s1 = (ems1, t', s')"
    "ems = emAttempted em # ems1" by (rule thresholdRun_Cons [OF Cons.prems(1)])
  show ?case using th_observe_step [OF h(1)] Cons.IH [OF h(2)] Cons.prems(2,3) h(3) by (cases i) auto
qed simp

lemma thresholdRun_hysteresis:
  assumes "thresholdRun sink xs t s = (ems, t', s')" "i < j" "j < length ems" "ems ! i" "ems ! j"
  shows "\<exists>k. i < k \<and> k < j \<and> isRearmed (thPolicy t) (snd (xs ! k))"
  using assms
proof (induction xs arbitrary: t s ems i j)
  case (Cons x xs)
  obtain em t1 s1 ems1 where h: "th_observe sink (fst x) (snd x) t s = (em, t1, s1)" "thresholdRun sink xs t1 s1 = (ems1, t', s')"
    "ems = emAttempted em # ems1" by (rule thresholdRun_Cons [OF Cons.prems(1)])
  note step = th_observe_step [OF h(1)]
  obtain j' where j: "j = Suc j'" using Cons.prems(2) by (cases j) auto
  show ?case
  proof (cases i)
    case 0
    then have "thInitialized t1" "\<not> thArmed t1" using step Cons.prems(4) h(3) by auto
    then obtain k where "k < j'" "isRearmed (thPolicy t1) (snd (xs ! k))"
      using thresholdRun_rearms [OF h(2), of j'] Cons.prems(3,5) h(3) j by auto
    then show ?thesis using 0 j step by (intro exI [of _ "Suc k"]) auto
  next
    case (Suc i')
    then obtain k where "i' < k" "k < j'" "isRearmed (thPolicy t1) (snd (xs ! k))"
      using Cons.IH [OF h(2), of i' j'] Cons.prems h(3) j by auto
    then show ?thesis using Suc j step by (intro exI [of _ "Suc k"]) auto
  qed
qed simp

subsection \<open>Properties\<close>

text \<open>C23. Whatever the pin and the clock do from start-up, and whatever the screen shows, the button hands the store at most one
  Event for each press it reports, each of them a valid Event, and what it reports is a sequence of gestures.\<close>

theorem one_event_per_gesture:
  assumes "0 < longPressMs" "longPressMs \<le> veryLongPressMs"
    and "productionRun (logged sink) samples (button_new debounceMs longPressMs veryLongPressMs) buttonProducer_init ([], s) = (es, b, p, created, s')"
  shows "length created \<le> presses es \<and> list_all validInput created \<and> gestures es Up \<noteq> None"
proof -
  let ?b = "button_new debounceMs longPressMs veryLongPressMs"
  have "buttonInv ?b" and up: "buttonGesture ?b = Up" using assms(1,2) by (simp_all add: buttonInv_def button_new_def buttonGesture_def)
  moreover have "producerInv (buttonGesture ?b) buttonProducer_init" by (simp add: producerInv_def buttonProducer_init_def)
  ultimately obtain new where "created = new" "set new \<subseteq> {buttonInput IE_SHORT_PRESS, manualInput}"
      "length new + open_gesture (buttonGesture b) \<le> presses es + open_gesture Up" "gestures es Up = Some (buttonGesture b)"
    using productionRun_gestures [OF assms(3)] by auto
  then show ?thesis using producer_inputs_valid by (auto simp: open_gesture_def list_all_iff)
qed

theorem one_event_per_gesture_witness:
  "\<exists>es b p created s'. productionRun (logged (\<lambda>i n. (CR_ENQUEUED, Suc n)))
      (map (\<lambda>(x, t). (x, t, \<lparr>bcDisplayAwake = True, bcEditorActive = False, bcHomeScreen = True, bcButtonEventSelected = True\<rparr>))
        [(False, 0), (True, 100), (True, 200), (False, 300), (False, 400)])
      (button_new 30 700 3000) buttonProducer_init ([], 0) = (es, b, p, created, s')
    \<and> length created = 1 \<and> length created \<le> presses es \<and> list_all validInput created"
proof -
  let ?run = "productionRun (logged (\<lambda>i n. (CR_ENQUEUED, Suc n)))
      (map (\<lambda>(x, t). (x, t, \<lparr>bcDisplayAwake = True, bcEditorActive = False, bcHomeScreen = True, bcButtonEventSelected = True\<rparr>))
        [(False, 0), (True, 100), (True, 200), (False, 300), (False, 400)])
      (button_new 30 700 3000) buttonProducer_init ([], 0)"
  have one: "length (fst (snd (snd (snd ?run)))) = 1" by code_simp
  obtain es b p created s' where run: "?run = (es, b, p, created, s')" by (metis prod.exhaust)
  from one_event_per_gesture [OF _ _ run] show ?thesis using run one by auto
qed

text \<open>C24. A sensor crossing the threshold gives one Event: every creation is at a value beyond the threshold, after a value on
  its other side, and between two creations the value came back by the hysteresis.\<close>

theorem threshold_hysteresis:
  assumes "thresholdRun sink readings (thresholdProducer_new policy) s = (created, t', s')"
    and "j < length created" "created ! j"
  shows "isActive policy (snd (readings ! j)) \<and> (\<exists>k<j. \<not> isActive policy (snd (readings ! k)))
    \<and> (\<forall>i<j. created ! i \<longrightarrow> (\<exists>k. i < k \<and> k < j \<and> isRearmed policy (snd (readings ! k))))"
proof -
  have "\<exists>k<j. \<not> isActive policy (snd (readings ! k))"
    using thresholdRun_rearms [OF assms] by (simp add: thresholdProducer_new_def)
  moreover have "isActive policy (snd (readings ! j))" using thresholdRun_active [OF assms] by (simp add: thresholdProducer_new_def)
  moreover have "\<exists>k. i < k \<and> k < j \<and> isRearmed policy (snd (readings ! k))" if "i < j" "created ! i" for i
    using thresholdRun_hysteresis [OF assms(1) that(1) assms(2) that(2) assms(3)] by (simp add: thresholdProducer_new_def)
  ultimately show ?thesis by blast
qed

theorem threshold_hysteresis_witness:
  "let policy = \<lparr>tpCapabilityId = 7, tpValueType = SV_UNSIGNED_32, tpThresholdBits = 100, tpHysteresisBits = 10, tpRelation = CROSSED_ABOVE\<rparr>;
       readings = map (\<lambda>v. (True, v)) [90, 101, 95, 105, 90, 120] in
   fst (thresholdRun (\<lambda>i n. (CR_ENQUEUED, Suc n)) readings (thresholdProducer_new policy) 0) = [False, True, False, False, False, True]
   \<and> (\<exists>k. 1 < k \<and> k < 5 \<and> isRearmed policy (snd (readings ! k)))"
proof -
  let ?policy = "\<lparr>tpCapabilityId = 7, tpValueType = SV_UNSIGNED_32, tpThresholdBits = 100, tpHysteresisBits = 10, tpRelation = CROSSED_ABOVE\<rparr>"
  let ?readings = "map (\<lambda>v. (True, v :: u32)) [90, 101, 95, 105, 90, 120]"
  let ?run = "thresholdRun (\<lambda>i n. (CR_ENQUEUED, Suc n)) ?readings (thresholdProducer_new ?policy) 0"
  have c: "fst ?run = [False, True, False, False, False, True]" by code_simp
  then obtain t' s' where run: "?run = ([False, True, False, False, False, True], t', s')" by (metis prod.collapse)
  have "\<exists>k. 1 < k \<and> k < 5 \<and> isRearmed ?policy (snd (?readings ! k))"
    using threshold_hysteresis [OF run, of 5] by simp
  then show ?thesis using c by simp
qed

end
