(* ===== verification/DeviceCapabilities.thy ===== *)
theory DeviceCapabilities
  imports Prelude
begin

text \<open>
  The capability registry and the dispatch of capability operations
  (\<^verbatim>\<open>lib/device_capabilities/src/device_capabilities.h\<close>).  An enumeration that the code may hold with an
  unregistered byte has a last constructor for it.  The virtual class \<^verbatim>\<open>LocalCapabilityHandler\<close> is a parameter:
  a function on an environment state that stands for the hardware behind it.
\<close>

subsection \<open>Vocabulary\<close>

type_synonym capabilityId = u16

definition INVALID_CAPABILITY_ID :: capabilityId where [simp]: "INVALID_CAPABILITY_ID = 0"

datatype capabilityClass = CC_INVALID | DIGITAL_INPUT | ANALOG_INPUT | SENSOR | INDICATOR_OUTPUT
  | SIGNAL_OUTPUT | RELAY_OUTPUT | POWER_MONITOR | LOCATION_PROVIDER | LOCAL_STORAGE | LOCAL_PROCEDURE
  | CapabilityClass_raw u8

datatype operation = ENUMERATE | DESCRIBE | READ | SET | TRIGGER | RUN_LOCAL_PROCEDURE | Operation_raw u8

definition OPERATION_FLAG_DESCRIBE :: u8 where [simp]: "OPERATION_FLAG_DESCRIBE = 0x01"
definition OPERATION_FLAG_READ :: u8 where [simp]: "OPERATION_FLAG_READ = 0x02"
definition OPERATION_FLAG_SET :: u8 where [simp]: "OPERATION_FLAG_SET = 0x04"
definition OPERATION_FLAG_TRIGGER :: u8 where [simp]: "OPERATION_FLAG_TRIGGER = 0x08"
definition OPERATION_FLAG_RUN_LOCAL_PROCEDURE :: u8 where [simp]: "OPERATION_FLAG_RUN_LOCAL_PROCEDURE = 0x10"
definition KNOWN_OPERATION_FLAGS :: u8 where [simp]: "KNOWN_OPERATION_FLAGS = OPERATION_FLAG_DESCRIBE OR
  OPERATION_FLAG_READ OR OPERATION_FLAG_SET OR OPERATION_FLAG_TRIGGER OR OPERATION_FLAG_RUN_LOCAL_PROCEDURE"

datatype valueType = VT_NONE | VT_BOOLEAN | VT_UNSIGNED_32 | VT_SIGNED_32 | VT_NORMALIZED_U16 | VT_FIXED_Q16_16
  | VT_ENUM_U16 | ValueType_raw u8

fun valueType_code :: "valueType \<Rightarrow> u8" where
  "valueType_code VT_NONE = 0x00"
| "valueType_code VT_BOOLEAN = 0x01"
| "valueType_code VT_UNSIGNED_32 = 0x02"
| "valueType_code VT_SIGNED_32 = 0x03"
| "valueType_code VT_NORMALIZED_U16 = 0x04"
| "valueType_code VT_FIXED_Q16_16 = 0x05"
| "valueType_code VT_ENUM_U16 = 0x06"
| "valueType_code (ValueType_raw b) = b"

definition valueType_of :: "u8 \<Rightarrow> valueType" where
  "valueType_of b = (if b = 0x00 then VT_NONE else if b = 0x01 then VT_BOOLEAN else if b = 0x02 then VT_UNSIGNED_32
     else if b = 0x03 then VT_SIGNED_32 else if b = 0x04 then VT_NORMALIZED_U16 else if b = 0x05 then VT_FIXED_Q16_16
     else if b = 0x06 then VT_ENUM_U16 else ValueType_raw b)"

datatype callerClass = CALLER_INVALID | FIRMWARE_LOCAL | UI_LOCAL | TEST | FUTURE_REMOTE | HOST_LOCAL | CallerClass_raw u8

record callerContext =
  cxCallerClass :: callerClass
  cxReserved :: bytes

datatype interlockState = INTERLOCK_CLEAR | INTERLOCK_IS_ACTIVE | InterlockState_raw u8

record capabilityValue =
  cvType :: valueType
  cvReserved :: bytes
  cvBits :: u32

datatype operationStatus = OS_OK | OS_CAPABILITY_NOT_FOUND | OS_UNSUPPORTED_OPERATION | OS_INVALID_VALUE_TYPE
  | OS_VALUE_OUT_OF_RANGE | OS_UNAUTHORIZED | OS_INTERLOCK_ACTIVE | OS_HARDWARE_UNAVAILABLE | OS_OPERATION_FAILED
  | OS_BUSY | OS_INVALID_DESCRIPTOR | OperationStatus_raw u8

definition operationStatus_of :: "u8 \<Rightarrow> operationStatus" where
  "operationStatus_of b = (if b = 0x00 then OS_OK else if b = 0x01 then OS_CAPABILITY_NOT_FOUND
     else if b = 0x02 then OS_UNSUPPORTED_OPERATION else if b = 0x03 then OS_INVALID_VALUE_TYPE
     else if b = 0x04 then OS_VALUE_OUT_OF_RANGE else if b = 0x05 then OS_UNAUTHORIZED
     else if b = 0x06 then OS_INTERLOCK_ACTIVE else if b = 0x07 then OS_HARDWARE_UNAVAILABLE
     else if b = 0x08 then OS_OPERATION_FAILED else if b = 0x09 then OS_BUSY
     else if b = 0x0A then OS_INVALID_DESCRIPTOR else OperationStatus_raw b)"

record operationResult =
  orStatus :: operationStatus
  orReserved :: bytes
  orValue :: capabilityValue

record capabilityDiagnosticCounters =
  cdcLookupAttempts :: u32
  cdcAcceptedOperations :: u32
  cdcAuthorizationDenials :: u32
  cdcUnsupportedOperations :: u32
  cdcValidationFailures :: u32
  cdcInterlockDenials :: u32
  cdcBusyOutcomes :: u32
  cdcHardwareFailures :: u32

record capabilityDiagnosticsSnapshot =
  cdsCounters :: capabilityDiagnosticCounters
  cdsLastStatusAvailable :: u8
  cdsLastStatus :: operationStatus
  cdsReserved :: bytes

definition LOCAL_ONLY_AUTHORIZATION_POLICY_ID :: u8 where [simp]: "LOCAL_ONLY_AUTHORIZATION_POLICY_ID = 0"
definition NO_ADDITIONAL_SAFETY_POLICY_ID :: u8 where [simp]: "NO_ADDITIONAL_SAFETY_POLICY_ID = 0"
definition MUTATING_INTERLOCK_SAFETY_POLICY_ID :: u8 where [simp]: "MUTATING_INTERLOCK_SAFETY_POLICY_ID = 1"
definition KNOWN_METADATA_FLAGS :: u16 where [simp]: "KNOWN_METADATA_FLAGS = 0x0001"
definition MAX_CAPABILITIES :: u8 where [simp]: "MAX_CAPABILITIES = 16"

record capabilityDescriptor =
  cdId :: capabilityId
  cdClass :: capabilityClass
  cdOperationFlags :: u8
  cdValueType :: valueType
  cdAuthorizationPolicyId :: u8
  cdSafetyPolicyId :: u8
  cdUnitCode :: u8
  cdMetadataFlags :: u16
  cdReserved :: u16
  cdMinimumBits :: u32
  cdMaximumBits :: u32

text \<open>A view of an array of \<open>crCount\<close> descriptors; \<open>None\<close> is the null pointer.\<close>

record capabilityRegistryView =
  crDescriptors :: "capabilityDescriptor list option"
  crCount :: u8

type_synonym 's capabilityHandler =
  "capabilityDescriptor \<Rightarrow> operation \<Rightarrow> capabilityValue \<Rightarrow> 's \<Rightarrow> operationResult \<times> 's"

subsection \<open>Validity\<close>

fun isKnownCapabilityClass :: "capabilityClass \<Rightarrow> bool" where
  "isKnownCapabilityClass CC_INVALID = False"
| "isKnownCapabilityClass (CapabilityClass_raw b) = False"
| "isKnownCapabilityClass c = True"

fun isKnownValueType :: "valueType \<Rightarrow> bool" where
  "isKnownValueType (ValueType_raw b) = False"
| "isKnownValueType t = True"

definition reservedZero :: "bytes \<Rightarrow> bool" where
  "reservedZero r = (r ! 0 = 0 \<and> r ! 1 = 0 \<and> r ! 2 = 0)"

definition isValidCapabilityValue :: "capabilityValue \<Rightarrow> bool" where
  "isValidCapabilityValue v =
     (if \<not> reservedZero (cvReserved v) \<or> \<not> isKnownValueType (cvType v) then False
      else case cvType v of VT_NONE \<Rightarrow> cvBits v = 0 | VT_BOOLEAN \<Rightarrow> cvBits v \<le> 1
        | VT_UNSIGNED_32 \<Rightarrow> True | VT_SIGNED_32 \<Rightarrow> True | VT_FIXED_Q16_16 \<Rightarrow> True
        | VT_NORMALIZED_U16 \<Rightarrow> cvBits v AND 0xFFFF0000 = 0 | VT_ENUM_U16 \<Rightarrow> cvBits v AND 0xFFFF0000 = 0
        | ValueType_raw _ \<Rightarrow> False)"

fun isKnownOperationStatus :: "operationStatus \<Rightarrow> bool" where
  "isKnownOperationStatus (OperationStatus_raw b) = False"
| "isKnownOperationStatus s = True"

definition isValidCapabilityDiagnosticsSnapshot :: "capabilityDiagnosticsSnapshot \<Rightarrow> bool" where
  "isValidCapabilityDiagnosticsSnapshot snap =
     (if cdsLastStatusAvailable snap > 1 \<or> cdsReserved snap ! 0 \<noteq> 0 \<or> cdsReserved snap ! 1 \<noteq> 0 then False
      else if cdsLastStatusAvailable snap = 0 then cdsLastStatus snap = OS_OK
      else isKnownOperationStatus (cdsLastStatus snap))"

definition cap_saturatingIncrement :: "u32 \<Rightarrow> u32 \<Rightarrow> u32" where
  "cap_saturatingIncrement value amount = (if amount > 0xFFFFFFFF - value then 0xFFFFFFFF else value + amount)"

text \<open>The switch of \<^verbatim>\<open>recordOutcome\<close>.\<close>

definition countOutcome :: "operationStatus \<Rightarrow> u32 \<Rightarrow> capabilityDiagnosticCounters \<Rightarrow> capabilityDiagnosticCounters" where
  "countOutcome status amount c =
     (let bump = \<lambda>v. cap_saturatingIncrement v amount;
          accepted = c\<lparr>cdcAcceptedOperations := bump (cdcAcceptedOperations c)\<rparr> in
      case status of OS_OK \<Rightarrow> accepted
      | OS_CAPABILITY_NOT_FOUND \<Rightarrow> c
      | OS_UNSUPPORTED_OPERATION \<Rightarrow> c\<lparr>cdcUnsupportedOperations := bump (cdcUnsupportedOperations c)\<rparr>
      | OS_INVALID_DESCRIPTOR \<Rightarrow> c\<lparr>cdcValidationFailures := bump (cdcValidationFailures c)\<rparr>
      | OS_INVALID_VALUE_TYPE \<Rightarrow> c\<lparr>cdcValidationFailures := bump (cdcValidationFailures c)\<rparr>
      | OS_VALUE_OUT_OF_RANGE \<Rightarrow> c\<lparr>cdcValidationFailures := bump (cdcValidationFailures c)\<rparr>
      | OS_UNAUTHORIZED \<Rightarrow> c\<lparr>cdcAuthorizationDenials := bump (cdcAuthorizationDenials c)\<rparr>
      | OS_INTERLOCK_ACTIVE \<Rightarrow> c\<lparr>cdcInterlockDenials := bump (cdcInterlockDenials c)\<rparr>
      | OS_BUSY \<Rightarrow> accepted\<lparr>cdcBusyOutcomes := bump (cdcBusyOutcomes c)\<rparr>
      | OS_HARDWARE_UNAVAILABLE \<Rightarrow> accepted\<lparr>cdcHardwareFailures := bump (cdcHardwareFailures c)\<rparr>
      | OS_OPERATION_FAILED \<Rightarrow> accepted\<lparr>cdcHardwareFailures := bump (cdcHardwareFailures c)\<rparr>
      | OperationStatus_raw _ \<Rightarrow> c)"

definition recordOutcome :: "operationStatus \<Rightarrow> u32 \<Rightarrow> capabilityDiagnosticsSnapshot \<Rightarrow> bool \<times> capabilityDiagnosticsSnapshot" where
  "recordOutcome status amount snap =
     (if \<not> isKnownOperationStatus status then (False, snap)
      else if amount = 0 then (True, snap)
      else let c = (if status \<noteq> OS_INVALID_DESCRIPTOR
                    then (cdsCounters snap)\<lparr>cdcLookupAttempts := cap_saturatingIncrement (cdcLookupAttempts (cdsCounters snap)) amount\<rparr>
                    else cdsCounters snap)
        in (True, snap\<lparr>cdsCounters := countOutcome status amount c, cdsLastStatusAvailable := 1, cdsLastStatus := status\<rparr>))"

text \<open>The registered unit codes are the bytes 0 to 5.\<close>

definition isKnownUnitCode :: "u8 \<Rightarrow> bool" where
  "isKnownUnitCode unitCode = (unitCode \<in> {0x00, 0x01, 0x02, 0x03, 0x04, 0x05})"

definition hasKnownOperationFlags :: "u8 \<Rightarrow> bool" where
  "hasKnownOperationFlags flags = (flags AND NOT KNOWN_OPERATION_FLAGS = 0)"

definition hasKnownAuthorizationPolicy :: "u8 \<Rightarrow> bool" where
  "hasKnownAuthorizationPolicy policyId = (policyId = LOCAL_ONLY_AUTHORIZATION_POLICY_ID)"

definition hasKnownSafetyPolicy :: "u8 \<Rightarrow> bool" where
  "hasKnownSafetyPolicy policyId = (policyId = NO_ADDITIONAL_SAFETY_POLICY_ID \<or> policyId = MUTATING_INTERLOCK_SAFETY_POLICY_ID)"

definition hasValidOperations :: "capabilityClass \<Rightarrow> u8 \<Rightarrow> bool" where
  "hasValidOperations c flags =
     (if \<not> hasKnownOperationFlags flags \<or> flags AND OPERATION_FLAG_DESCRIBE = 0 then False
      else let describeRead = OPERATION_FLAG_DESCRIBE OR OPERATION_FLAG_READ;
               describeSet = OPERATION_FLAG_DESCRIBE OR OPERATION_FLAG_SET;
               describeReadSet = describeRead OR OPERATION_FLAG_SET in
        if c \<in> {DIGITAL_INPUT, ANALOG_INPUT, SENSOR, POWER_MONITOR, LOCATION_PROVIDER} then flags = describeRead
        else if c = INDICATOR_OUTPUT then flags = describeSet \<or> flags = describeReadSet
        else if c \<in> {SIGNAL_OUTPUT, RELAY_OUTPUT, LOCAL_STORAGE, LOCAL_PROCEDURE} then flags = OPERATION_FLAG_DESCRIBE
        else False)"

definition hasValidBounds :: "valueType \<Rightarrow> u32 \<Rightarrow> u32 \<Rightarrow> bool" where
  "hasValidBounds t minimumBits maximumBits = (case t of
       VT_NONE \<Rightarrow> minimumBits = 0 \<and> maximumBits = 0
     | VT_BOOLEAN \<Rightarrow> minimumBits \<le> 1 \<and> maximumBits \<le> 1 \<and> minimumBits \<le> maximumBits
     | VT_UNSIGNED_32 \<Rightarrow> minimumBits \<le> maximumBits
     | VT_SIGNED_32 \<Rightarrow> minimumBits XOR 0x80000000 \<le> maximumBits XOR 0x80000000
     | VT_FIXED_Q16_16 \<Rightarrow> minimumBits XOR 0x80000000 \<le> maximumBits XOR 0x80000000
     | VT_NORMALIZED_U16 \<Rightarrow> minimumBits AND 0xFFFF0000 = 0 \<and> maximumBits AND 0xFFFF0000 = 0 \<and> minimumBits \<le> maximumBits
     | VT_ENUM_U16 \<Rightarrow> minimumBits AND 0xFFFF0000 = 0 \<and> maximumBits AND 0xFFFF0000 = 0 \<and> minimumBits \<le> maximumBits
     | ValueType_raw _ \<Rightarrow> False)"

definition hasCompatibleValueContract :: "u8 \<Rightarrow> valueType \<Rightarrow> bool" where
  "hasCompatibleValueContract flags t =
     (if flags AND (OPERATION_FLAG_READ OR OPERATION_FLAG_SET) \<noteq> 0 then t \<noteq> VT_NONE else t = VT_NONE)"

definition isValidCapabilityDescriptor :: "capabilityDescriptor \<Rightarrow> bool" where
  "isValidCapabilityDescriptor d = (cdId d \<noteq> INVALID_CAPABILITY_ID \<and> isKnownCapabilityClass (cdClass d)
     \<and> isKnownValueType (cdValueType d) \<and> hasValidOperations (cdClass d) (cdOperationFlags d)
     \<and> hasCompatibleValueContract (cdOperationFlags d) (cdValueType d)
     \<and> hasKnownAuthorizationPolicy (cdAuthorizationPolicyId d) \<and> hasKnownSafetyPolicy (cdSafetyPolicyId d)
     \<and> isKnownUnitCode (cdUnitCode d) \<and> cdMetadataFlags d AND NOT KNOWN_METADATA_FLAGS = 0 \<and> cdReserved d = 0
     \<and> hasValidBounds (cdValueType d) (cdMinimumBits d) (cdMaximumBits d))"

definition isValidCallerContext :: "callerContext \<Rightarrow> bool" where
  "isValidCallerContext caller = (if \<not> reservedZero (cxReserved caller) then False
     else cxCallerClass caller \<in> {FIRMWARE_LOCAL, UI_LOCAL, TEST, FUTURE_REMOTE, HOST_LOCAL})"

definition isValidInterlockState :: "interlockState \<Rightarrow> bool" where
  "isValidInterlockState interlock = (interlock \<in> {INTERLOCK_CLEAR, INTERLOCK_IS_ACTIVE})"

definition supportsOperation :: "capabilityDescriptor \<Rightarrow> operation \<Rightarrow> bool" where
  "supportsOperation d op = (if \<not> isValidCapabilityDescriptor d then False
     else case op of ENUMERATE \<Rightarrow> False
       | DESCRIBE \<Rightarrow> cdOperationFlags d AND OPERATION_FLAG_DESCRIBE \<noteq> 0
       | READ \<Rightarrow> cdOperationFlags d AND OPERATION_FLAG_READ \<noteq> 0
       | SET \<Rightarrow> cdOperationFlags d AND OPERATION_FLAG_SET \<noteq> 0
       | TRIGGER \<Rightarrow> cdOperationFlags d AND OPERATION_FLAG_TRIGGER \<noteq> 0
       | RUN_LOCAL_PROCEDURE \<Rightarrow> cdOperationFlags d AND OPERATION_FLAG_RUN_LOCAL_PROCEDURE \<noteq> 0
       | Operation_raw _ \<Rightarrow> cdOperationFlags d AND 0 \<noteq> 0)"

definition isOperationAuthorized :: "capabilityDescriptor \<Rightarrow> operation \<Rightarrow> callerContext \<Rightarrow> bool" where
  "isOperationAuthorized d op caller =
     (if op = ENUMERATE \<or> op = DESCRIBE \<or> \<not> supportsOperation d op \<or> \<not> isValidCallerContext caller
         \<or> cdAuthorizationPolicyId d \<noteq> LOCAL_ONLY_AUTHORIZATION_POLICY_ID then False
      else cxCallerClass caller = FIRMWARE_LOCAL \<or> cxCallerClass caller = UI_LOCAL \<or> cxCallerClass caller = TEST
        \<or> cxCallerClass caller = HOST_LOCAL)"

definition isOperationSafe :: "capabilityDescriptor \<Rightarrow> operation \<Rightarrow> interlockState \<Rightarrow> bool" where
  "isOperationSafe d op interlock =
     (if op = ENUMERATE \<or> op = DESCRIBE \<or> \<not> supportsOperation d op \<or> \<not> isValidInterlockState interlock
         \<or> \<not> hasKnownSafetyPolicy (cdSafetyPolicyId d) then False
      else cdSafetyPolicyId d = NO_ADDITIONAL_SAFETY_POLICY_ID \<or> interlock = INTERLOCK_CLEAR \<or> op = READ)"

definition isValueCompatible :: "capabilityDescriptor \<Rightarrow> capabilityValue \<Rightarrow> bool" where
  "isValueCompatible d v = (isValidCapabilityDescriptor d \<and> isValidCapabilityValue v \<and> cdValueType d = cvType v)"

definition signedOrderingKey :: "u32 \<Rightarrow> u32" where
  "signedOrderingKey b = b XOR 0x80000000"

definition isValueWithinBounds :: "capabilityDescriptor \<Rightarrow> capabilityValue \<Rightarrow> bool" where
  "isValueWithinBounds d v =
     (if \<not> isValueCompatible d v then False
      else if cvType v \<in> {VT_NONE, VT_BOOLEAN, VT_UNSIGNED_32, VT_NORMALIZED_U16, VT_ENUM_U16}
        then cvBits v \<ge> cdMinimumBits d \<and> cvBits v \<le> cdMaximumBits d
      else if cvType v \<in> {VT_SIGNED_32, VT_FIXED_Q16_16}
        then signedOrderingKey (cvBits v) \<ge> signedOrderingKey (cdMinimumBits d)
           \<and> signedOrderingKey (cvBits v) \<le> signedOrderingKey (cdMaximumBits d)
      else False)"

definition isValidOperationResult :: "operationResult \<Rightarrow> bool" where
  "isValidOperationResult r =
     (if \<not> isKnownOperationStatus (orStatus r) \<or> \<not> reservedZero (orReserved r) \<or> \<not> isValidCapabilityValue (orValue r) then False
      else if orStatus r = OS_OK then True
      else cvType (orValue r) = VT_NONE \<and> cvBits (orValue r) = 0)"

subsection \<open>The registry\<close>

text \<open>The double loop: every descriptor valid, no id before it equal to its own.\<close>

definition isValidCapabilityRegistry :: "capabilityRegistryView \<Rightarrow> bool" where
  "isValidCapabilityRegistry registry =
     (if crCount registry > MAX_CAPABILITIES then False
      else if crCount registry = 0 then crDescriptors registry = None
      else case crDescriptors registry of None \<Rightarrow> False
        | Some ds \<Rightarrow> list_all (\<lambda>i. isValidCapabilityDescriptor (ds ! i)
            \<and> \<not> list_ex (\<lambda>p. cdId (ds ! p) = cdId (ds ! i)) [0..<i]) [0..<unat (crCount registry)])"

definition capabilityCount :: "capabilityRegistryView \<Rightarrow> u8" where
  "capabilityCount registry = (if isValidCapabilityRegistry registry then crCount registry else 0)"

definition getCapabilityByIndex :: "capabilityRegistryView \<Rightarrow> u8 \<Rightarrow> capabilityDescriptor option" where
  "getCapabilityByIndex registry index =
     (if \<not> isValidCapabilityRegistry registry \<or> index \<ge> crCount registry then None
      else Some (the (crDescriptors registry) ! unat index))"

definition findCapability :: "capabilityRegistryView \<Rightarrow> capabilityId \<Rightarrow> capabilityDescriptor option" where
  "findCapability registry i =
     (if i = INVALID_CAPABILITY_ID \<or> \<not> isValidCapabilityRegistry registry then None
      else map_option (\<lambda>k. the (crDescriptors registry) ! k)
        (find (\<lambda>k. cdId (the (crDescriptors registry) ! k) = i) [0..<unat (crCount registry)]))"

subsection \<open>Dispatch\<close>

definition isCanonicalNoneValue :: "capabilityValue \<Rightarrow> bool" where
  "isCanonicalNoneValue v = (isValidCapabilityValue v \<and> cvType v = VT_NONE)"

definition makeCanonicalFailureResult :: "operationStatus \<Rightarrow> operationResult" where
  "makeCanonicalFailureResult status = \<lparr>orStatus = status, orReserved = fillZero 3,
     orValue = \<lparr>cvType = VT_NONE, cvReserved = fillZero 3, cvBits = 0\<rparr>\<rparr>"

definition isHandlerDispatchableOperation :: "operation \<Rightarrow> bool" where
  "isHandlerDispatchableOperation op = (op \<in> {READ, SET, TRIGGER, RUN_LOCAL_PROCEDURE})"

definition isHandlerOwnedStatus :: "operationStatus \<Rightarrow> bool" where
  "isHandlerOwnedStatus status = (status \<in> {OS_OK, OS_HARDWARE_UNAVAILABLE, OS_OPERATION_FAILED, OS_BUSY})"

definition dispatchCapabilityOperation :: "capabilityRegistryView \<Rightarrow> 's capabilityHandler \<Rightarrow> capabilityId \<Rightarrow> operation \<Rightarrow>
    capabilityValue \<Rightarrow> callerContext \<Rightarrow> interlockState \<Rightarrow> 's \<Rightarrow> operationResult \<times> 's" where
  "dispatchCapabilityOperation registry handler i op input caller interlock s =
     (if \<not> isValidCapabilityRegistry registry then (makeCanonicalFailureResult OS_INVALID_DESCRIPTOR, s)
      else case findCapability registry i of None \<Rightarrow> (makeCanonicalFailureResult OS_CAPABILITY_NOT_FOUND, s)
      | Some d \<Rightarrow>
        if \<not> isHandlerDispatchableOperation op \<or> \<not> supportsOperation d op
          then (makeCanonicalFailureResult OS_UNSUPPORTED_OPERATION, s)
        else if op = SET \<and> (\<not> isValidCapabilityValue input \<or> cvType input \<noteq> cdValueType d)
          then (makeCanonicalFailureResult OS_INVALID_VALUE_TYPE, s)
        else if op = SET \<and> \<not> isValueWithinBounds d input then (makeCanonicalFailureResult OS_VALUE_OUT_OF_RANGE, s)
        else if op \<noteq> SET \<and> \<not> isCanonicalNoneValue input then (makeCanonicalFailureResult OS_INVALID_VALUE_TYPE, s)
        else if \<not> isOperationAuthorized d op caller then (makeCanonicalFailureResult OS_UNAUTHORIZED, s)
        else if \<not> isOperationSafe d op interlock then (makeCanonicalFailureResult OS_INTERLOCK_ACTIVE, s)
        else case handler d op input s of (r, s') \<Rightarrow>
        if \<not> isValidOperationResult r \<or> \<not> isHandlerOwnedStatus (orStatus r)
          then (makeCanonicalFailureResult OS_OPERATION_FAILED, s')
        else if orStatus r \<noteq> OS_OK then (r, s')
        else if op = READ \<and> \<not> isValueWithinBounds d (orValue r) then (makeCanonicalFailureResult OS_OPERATION_FAILED, s')
        else if op \<noteq> READ \<and> \<not> isCanonicalNoneValue (orValue r) then (makeCanonicalFailureResult OS_OPERATION_FAILED, s')
        else (r, s'))"

definition dispatchCapabilityOperationObserved :: "capabilityRegistryView \<Rightarrow> 's capabilityHandler \<Rightarrow> capabilityId \<Rightarrow> operation \<Rightarrow>
    capabilityValue \<Rightarrow> callerContext \<Rightarrow> interlockState \<Rightarrow> capabilityDiagnosticsSnapshot \<Rightarrow> 's \<Rightarrow>
    operationResult \<times> capabilityDiagnosticsSnapshot \<times> 's" where
  "dispatchCapabilityOperationObserved registry handler i op input caller interlock snap s =
     (case dispatchCapabilityOperation registry handler i op input caller interlock s of (r, s') \<Rightarrow>
        (r, snd (recordOutcome (orStatus r) 1 snap), s'))"

subsection \<open>Bounds as numbers\<close>

text \<open>The number that a value of a type stands for: the two signed types read the bits as two's complement.\<close>

definition numericValue :: "valueType \<Rightarrow> u32 \<Rightarrow> int" where
  "numericValue t b = (if t = VT_SIGNED_32 \<or> t = VT_FIXED_Q16_16 then sint b else uint b)"

lemma bit_top: "bit (0x80000000 :: int) n \<longleftrightarrow> n = 31"
proof -
  have t: "(0x80000000 :: int) = 2 ^ 31" by simp
  show ?thesis unfolding t by (auto simp add: bit_exp_iff simp del: power_numeral)
qed

lemma flip_top_add: "a XOR 0x80000000 = a + 0x80000000" for a :: u32
proof (cases "bit a 31")
  case False
  have "a AND 0x80000000 = 0"
    using False by (intro bit_eqI) (auto simp: bit_and_iff bit_top)
  then show ?thesis by (simp add: disjunctive_add_eq_xor)
next
  case True
  define c where "c = a XOR 0x80000000"
  have "c AND 0x80000000 = 0"
    unfolding c_def using True by (intro bit_eqI) (auto simp: bit_and_iff bit_xor_iff bit_top)
  then have "c + 0x80000000 = a" by (simp add: disjunctive_add_eq_xor c_def xor.assoc)
  then have "a + 0x80000000 = c + (0x80000000 + 0x80000000)" by (simp only: add.assoc[symmetric])
  also have "\<dots> = c" by simp
  finally show ?thesis by (simp add: c_def)
qed

lemma sint_flip_top: "sint a = uint (a XOR 0x80000000) - 0x80000000" for a :: u32
  by (simp add: flip_top_add sint_uint signed_take_bit_eq_take_bit_shift uint_word_arith_bintrs)

lemma signedOrderingKey_order: "signedOrderingKey a \<le> signedOrderingKey b \<longleftrightarrow> sint a \<le> sint b"
  by (simp add: sint_flip_top signedOrderingKey_def word_le_def)

lemma bounds_numeric:
  "isValueWithinBounds d v \<longleftrightarrow> isValueCompatible d v
     \<and> numericValue (cdValueType d) (cvBits v)
         \<in> {numericValue (cdValueType d) (cdMinimumBits d)..numericValue (cdValueType d) (cdMaximumBits d)}"
  by (cases "cvType v")
    (auto simp: isValueWithinBounds_def isValueCompatible_def numericValue_def signedOrderingKey_order
      word_le_def[symmetric] isValidCapabilityValue_def)

text \<open>The bounds check compares numbers.  A value is accepted exactly when descriptor and value are valid and of
  one type and the number that the bits stand for lies between the numbers of the two bounds: the comparison of the
  keys with the top bit flipped is the signed comparison.\<close>

theorem value_bounds_numeric:
  "isValueWithinBounds d v \<longleftrightarrow> isValueCompatible d v
     \<and> numericValue (cdValueType d) (cvBits v)
         \<in> {numericValue (cdValueType d) (cdMinimumBits d)..numericValue (cdValueType d) (cdMaximumBits d)}"
  by (rule bounds_numeric)

subsection \<open>What dispatch lets through\<close>

lemma findCapability_sound:
  assumes "findCapability registry i = Some d"
  shows "isValidCapabilityRegistry registry" "isValidCapabilityDescriptor d" "cdId d = i" "i \<noteq> 0"
    "\<exists>k < unat (crCount registry). d = the (crDescriptors registry) ! k"
proof -
  from assms have v: "isValidCapabilityRegistry registry" and "i \<noteq> 0"
    by (simp_all add: findCapability_def split: if_splits)
  moreover from assms obtain k where k: "k < unat (crCount registry)" "d = the (crDescriptors registry) ! k"
    "cdId d = i"
    by (auto simp: findCapability_def find_Some_iff split: if_splits)
  moreover from v k have "isValidCapabilityDescriptor d"
    by (auto simp: isValidCapabilityRegistry_def list_all_iff split: if_splits option.splits)
  ultimately show "isValidCapabilityRegistry registry" "isValidCapabilityDescriptor d" "cdId d = i" "i \<noteq> 0"
    "\<exists>k < unat (crCount registry). d = the (crDescriptors registry) ! k" by blast+
qed

lemma valid_flags:
  assumes "hasValidOperations c flags"
  shows "flags \<in> {0x01, 0x03, 0x05, 0x07}"
  using assms by (auto simp: hasValidOperations_def Let_def split: if_splits)

text \<open>No valid descriptor carries the flags of the two operations that the registry reserves.\<close>

lemma supports_dispatchable:
  assumes "supportsOperation d op" "isHandlerDispatchableOperation op"
  shows "op = READ \<or> op = SET"
proof -
  have "cdOperationFlags d \<in> {0x01, 0x03, 0x05, 0x07}"
    using assms(1) valid_flags by (auto simp: supportsOperation_def isValidCapabilityDescriptor_def split: if_splits)
  then show ?thesis
    using assms by (auto simp: supportsOperation_def isHandlerDispatchableOperation_def split: if_splits)
qed

text \<open>The conditions under which the handler is called, in the terms of the documents: a listed capability, one of
  the two value operations that it declares, a local caller, no active interlock in the way of a change.\<close>

definition dispatchPermitted :: "capabilityDescriptor \<Rightarrow> operation \<Rightarrow> capabilityValue \<Rightarrow> callerContext \<Rightarrow> interlockState \<Rightarrow> bool" where
  "dispatchPermitted d op input caller interlock \<longleftrightarrow>
     (op = READ \<and> cdOperationFlags d AND OPERATION_FLAG_READ \<noteq> 0 \<and> cvType input = VT_NONE \<and> cvBits input = 0
      \<or> op = SET \<and> cdOperationFlags d AND OPERATION_FLAG_SET \<noteq> 0 \<and> cvType input = cdValueType d
        \<and> numericValue (cdValueType d) (cdMinimumBits d) \<le> numericValue (cdValueType d) (cvBits input)
        \<and> numericValue (cdValueType d) (cvBits input) \<le> numericValue (cdValueType d) (cdMaximumBits d))
     \<and> cxCallerClass caller \<in> {FIRMWARE_LOCAL, UI_LOCAL, TEST, HOST_LOCAL}
     \<and> (op = SET \<and> cdSafetyPolicyId d = MUTATING_INTERLOCK_SAFETY_POLICY_ID \<longrightarrow> interlock = INTERLOCK_CLEAR)
     \<and> interlock \<in> {INTERLOCK_CLEAR, INTERLOCK_IS_ACTIVE}"

text \<open>The guards of dispatch in one predicate, and dispatch as that guard before the handler.\<close>

definition dispatchGuard :: "capabilityRegistryView \<Rightarrow> capabilityId \<Rightarrow> operation \<Rightarrow> capabilityValue \<Rightarrow> callerContext \<Rightarrow>
    interlockState \<Rightarrow> capabilityDescriptor \<Rightarrow> bool" where
  "dispatchGuard registry i op input caller interlock d \<longleftrightarrow> findCapability registry i = Some d
     \<and> isHandlerDispatchableOperation op \<and> supportsOperation d op
     \<and> (if op = SET then isValueWithinBounds d input else isCanonicalNoneValue input)
     \<and> isOperationAuthorized d op caller \<and> isOperationSafe d op interlock"

text \<open>What dispatch makes of the handler's answer.\<close>

definition checkedResult :: "operation \<Rightarrow> capabilityDescriptor \<Rightarrow> operationResult \<Rightarrow> operationResult" where
  "checkedResult op d r =
     (if \<not> isValidOperationResult r \<or> \<not> isHandlerOwnedStatus (orStatus r) then makeCanonicalFailureResult OS_OPERATION_FAILED
      else if orStatus r \<noteq> OS_OK then r
      else if (if op = READ then isValueWithinBounds d (orValue r) else isCanonicalNoneValue (orValue r)) then r
      else makeCanonicalFailureResult OS_OPERATION_FAILED)"

lemma dispatch_cases:
  fixes handler :: "'s capabilityHandler"
  obtains (refused) st where
      "st \<in> {OS_INVALID_DESCRIPTOR, OS_CAPABILITY_NOT_FOUND, OS_UNSUPPORTED_OPERATION, OS_INVALID_VALUE_TYPE,
         OS_VALUE_OUT_OF_RANGE, OS_UNAUTHORIZED, OS_INTERLOCK_ACTIVE}"
      "\<And>(h :: 's capabilityHandler) s. dispatchCapabilityOperation registry h i op input caller interlock s = (makeCanonicalFailureResult st, s)"
  | (called) d where "dispatchGuard registry i op input caller interlock d"
      "\<And>(h :: 's capabilityHandler) s. dispatchCapabilityOperation registry h i op input caller interlock s =
        apfst (checkedResult op d) (h d op input s)"
proof (cases "findCapability registry i")
  case None
  then show ?thesis
    by (intro refused[of "if isValidCapabilityRegistry registry then OS_CAPABILITY_NOT_FOUND else OS_INVALID_DESCRIPTOR"])
      (simp_all add: dispatchCapabilityOperation_def)
next
  case (Some d)
  note reg = findCapability_sound[OF Some]
  note unf = dispatchCapabilityOperation_def
  consider (op) "\<not> (isHandlerDispatchableOperation op \<and> supportsOperation d op)"
    | (type) "isHandlerDispatchableOperation op \<and> supportsOperation d op" "op = SET" "\<not> isValidCapabilityValue input \<or> cvType input \<noteq> cdValueType d"
    | (range) "isHandlerDispatchableOperation op \<and> supportsOperation d op" "op = SET" "isValidCapabilityValue input \<and> cvType input = cdValueType d" "\<not> isValueWithinBounds d input"
    | (none) "isHandlerDispatchableOperation op \<and> supportsOperation d op" "op \<noteq> SET" "\<not> isCanonicalNoneValue input"
    | (input) "isHandlerDispatchableOperation op \<and> supportsOperation d op"
        "if op = SET then isValidCapabilityValue input \<and> cvType input = cdValueType d \<and> isValueWithinBounds d input else isCanonicalNoneValue input"
    by meson
  then show ?thesis
  proof cases
    case op
    then show ?thesis by (intro refused[of OS_UNSUPPORTED_OPERATION]) (auto simp: unf Some reg)
  next
    case type
    then show ?thesis by (intro refused[of OS_INVALID_VALUE_TYPE]) (auto simp: unf Some reg)
  next
    case range
    then show ?thesis by (intro refused[of OS_VALUE_OUT_OF_RANGE]) (simp_all add: unf Some reg)
  next
    case none
    then show ?thesis by (intro refused[of OS_INVALID_VALUE_TYPE]) (simp_all add: unf Some reg)
  next
    case input
    note accepted = this
    consider (auth) "\<not> isOperationAuthorized d op caller" | (safe) "isOperationAuthorized d op caller" "\<not> isOperationSafe d op interlock"
      | (all) "isOperationAuthorized d op caller" "isOperationSafe d op interlock" by blast
    then show ?thesis
    proof cases
      case auth
      with accepted show ?thesis by (intro refused[of OS_UNAUTHORIZED]) (auto simp: unf Some reg split: if_splits)
    next
      case safe
      with accepted show ?thesis by (intro refused[of OS_INTERLOCK_ACTIVE]) (auto simp: unf Some reg split: if_splits)
    next
      case all
      with accepted show ?thesis
        by (intro called[of d]) (auto simp: unf Some reg dispatchGuard_def checkedResult_def split: prod.split if_splits)
    qed
  qed
qed

lemma guard_permitted:
  assumes "dispatchGuard registry i op input caller interlock d"
  shows "dispatchPermitted d op input caller interlock"
proof -
  from assms have "op = READ \<or> op = SET" using supports_dispatchable by (auto simp: dispatchGuard_def)
  with assms show ?thesis
    by (auto simp: dispatchGuard_def dispatchPermitted_def isOperationAuthorized_def isOperationSafe_def
      supportsOperation_def isCanonicalNoneValue_def isValidCapabilityValue_def isValidInterlockState_def
      bounds_numeric isValueCompatible_def split: if_splits)
qed

lemma failure_valid:
  "isKnownOperationStatus st \<Longrightarrow> isValidOperationResult (makeCanonicalFailureResult st)"
  by (simp add: isValidOperationResult_def makeCanonicalFailureResult_def isValidCapabilityValue_def reservedZero_def fillZero_def)

lemma failure_status [simp]: "orStatus (makeCanonicalFailureResult st) = st"
  by (simp add: makeCanonicalFailureResult_def)

text \<open>C12. The handler runs only behind every guard.  Whenever the answer of a dispatch depends on the handler at all,
  the registry is valid and lists, under the requested id, a valid descriptor; the operation is a declared READ without
  an input value or a declared SET with a value of the descriptor's type within its numeric bounds; the caller is one of
  the four local classes (never the reserved remote one); no active interlock stands in the way of a change of a
  guarded capability; and the handler is called once, with this descriptor, this operation and this input.  TRIGGER and
  RUN_LOCAL_PROCEDURE never reach a handler.\<close>

theorem dispatch_guarded:
  assumes "dispatchCapabilityOperation registry h1 i op input caller interlock s
    \<noteq> dispatchCapabilityOperation registry h2 i op input caller interlock s"
  shows "isValidCapabilityRegistry registry \<and> (\<exists>k < unat (crCount registry). \<exists>d.
     the (crDescriptors registry) ! k = d \<and> cdId d = i \<and> isValidCapabilityDescriptor d
     \<and> dispatchPermitted d op input caller interlock \<and> h1 d op input s \<noteq> h2 d op input s)"
proof (rule dispatch_cases[of registry i op input caller interlock])
  fix st
  assume "\<And>(h :: 'a capabilityHandler) s. dispatchCapabilityOperation registry h i op input caller interlock s
    = (makeCanonicalFailureResult st, s)"
  with assms show ?thesis by simp
next
  fix d
  assume g: "dispatchGuard registry i op input caller interlock d"
    and eq: "\<And>(h :: 'a capabilityHandler) s. dispatchCapabilityOperation registry h i op input caller interlock s =
        apfst (checkedResult op d) (h d op input s)"
  from assms have "h1 d op input s \<noteq> h2 d op input s" by (auto simp: eq)
  with guard_permitted[OF g] findCapability_sound[of registry i d] g show ?thesis
    unfolding dispatchGuard_def by metis
qed

text \<open>A registry with one guarded indicator, and a handler that stores what it is told.\<close>

definition sampleIndicator :: capabilityDescriptor where
  "sampleIndicator = \<lparr>cdId = 7, cdClass = INDICATOR_OUTPUT, cdOperationFlags = 0x07, cdValueType = VT_SIGNED_32,
     cdAuthorizationPolicyId = 0, cdSafetyPolicyId = 1, cdUnitCode = 2, cdMetadataFlags = 0, cdReserved = 0,
     cdMinimumBits = 0xFFFFFFF6, cdMaximumBits = 10\<rparr>"

definition sampleRegistry :: capabilityRegistryView where
  "sampleRegistry = \<lparr>crDescriptors = Some [sampleIndicator], crCount = 1\<rparr>"

definition noValue :: capabilityValue where
  "noValue = \<lparr>cvType = VT_NONE, cvReserved = fillZero 3, cvBits = 0\<rparr>"

definition sampleHandler :: "u32 capabilityHandler" where
  "sampleHandler d op input s = (if op = SET
     then (\<lparr>orStatus = OS_OK, orReserved = fillZero 3, orValue = noValue\<rparr>, cvBits input)
     else (\<lparr>orStatus = OS_OK, orReserved = fillZero 3, orValue = \<lparr>cvType = cdValueType d, cvReserved = fillZero 3, cvBits = s\<rparr>\<rparr>, s))"

definition busyHandler :: "u32 capabilityHandler" where
  "busyHandler d op input s = (makeCanonicalFailureResult OS_BUSY, s)"

definition minusTwo :: capabilityValue where
  "minusTwo = \<lparr>cvType = VT_SIGNED_32, cvReserved = fillZero 3, cvBits = 0xFFFFFFFE\<rparr>"

definition hostCaller :: callerContext where
  "hostCaller = \<lparr>cxCallerClass = HOST_LOCAL, cxReserved = fillZero 3\<rparr>"

theorem dispatch_guarded_witness:
  "dispatchPermitted sampleIndicator SET minusTwo hostCaller INTERLOCK_CLEAR"
proof -
  have "dispatchCapabilityOperation sampleRegistry sampleHandler 7 SET minusTwo hostCaller INTERLOCK_CLEAR 0
      = (\<lparr>orStatus = OS_OK, orReserved = fillZero 3, orValue = noValue\<rparr>, 0xFFFFFFFE)"
    by code_simp
  moreover have "dispatchCapabilityOperation sampleRegistry busyHandler 7 SET minusTwo hostCaller INTERLOCK_CLEAR 0
      = (makeCanonicalFailureResult OS_BUSY, 0)"
    by code_simp
  ultimately have "dispatchCapabilityOperation sampleRegistry sampleHandler 7 SET minusTwo hostCaller INTERLOCK_CLEAR 0
    \<noteq> dispatchCapabilityOperation sampleRegistry busyHandler 7 SET minusTwo hostCaller INTERLOCK_CLEAR 0"
    by simp
  from dispatch_guarded[OF this] show ?thesis by (auto simp: sampleRegistry_def)
qed

text \<open>Every answer of dispatch is a valid result, whatever the handler returned: a known status, zero reserved bytes,
  a value that is canonical for its type and absent unless the status is OK.  An OK answer to a READ carries a value
  within the bounds of the listed descriptor; an OK answer to anything else carries none.\<close>

theorem dispatch_result_type:
  assumes "dispatchCapabilityOperation registry handler i op input caller interlock s = (r, s')"
  shows "isValidOperationResult r \<and> (orStatus r = OS_OK \<longrightarrow>
    (\<exists>d. findCapability registry i = Some d
      \<and> (if op = READ then isValueWithinBounds d (orValue r) else cvType (orValue r) = VT_NONE \<and> cvBits (orValue r) = 0)))"
proof (rule dispatch_cases[of registry i op input caller interlock])
  fix st
  assume "st \<in> {OS_INVALID_DESCRIPTOR, OS_CAPABILITY_NOT_FOUND, OS_UNSUPPORTED_OPERATION, OS_INVALID_VALUE_TYPE,
         OS_VALUE_OUT_OF_RANGE, OS_UNAUTHORIZED, OS_INTERLOCK_ACTIVE}"
    and "\<And>(h :: 'a capabilityHandler) s. dispatchCapabilityOperation registry h i op input caller interlock s
      = (makeCanonicalFailureResult st, s)"
  with assms show ?thesis by (auto intro: failure_valid)
next
  fix d
  assume "dispatchGuard registry i op input caller interlock d"
  then have d: "findCapability registry i = Some d" by (simp add: dispatchGuard_def)
  assume eq: "\<And>(h :: 'a capabilityHandler) s. dispatchCapabilityOperation registry h i op input caller interlock s =
        apfst (checkedResult op d) (h d op input s)"
  obtain hr hs where h: "handler d op input s = (hr, hs)" by (cases "handler d op input s")
  from assms[unfolded eq h] show ?thesis
    by (auto simp: d checkedResult_def isCanonicalNoneValue_def isValidCapabilityValue_def intro: failure_valid split: if_splits)
qed

theorem dispatch_result_type_witness:
  "isValidOperationResult \<lparr>orStatus = OS_OK, orReserved = fillZero 3, orValue = minusTwo\<rparr>
   \<and> isValueWithinBounds sampleIndicator minusTwo"
proof -
  have "dispatchCapabilityOperation sampleRegistry sampleHandler 7 READ noValue hostCaller INTERLOCK_IS_ACTIVE 0xFFFFFFFE
      = (\<lparr>orStatus = OS_OK, orReserved = fillZero 3, orValue = minusTwo\<rparr>, 0xFFFFFFFE)"
    by code_simp
  moreover have "findCapability sampleRegistry 7 = Some sampleIndicator" by code_simp
  ultimately show ?thesis using dispatch_result_type by fastforce
qed

end
