(* ===== verification/HostProtocol.thy ===== *)
theory HostProtocol
  imports DeviceCapabilities
begin

text \<open>
  The framing of the serial link between the Hub and its host (\<^verbatim>\<open>lib/host_protocol/src/host_protocol.h\<close>):
  the vocabulary of the protocol versions 0.1 and 0.2, the CRC-16, the byte stuffing (COBS) and the frame codec.
  A pointer that the code compares with \<^verbatim>\<open>nullptr\<close> is an optional list; an output buffer is
  passed in and returned, so that what a failed call has already written stays visible.  As before, the last constructor
  of an enumeration is a byte that is none of the registered ones.
\<close>

subsection \<open>Vocabulary\<close>

definition VERSION_MAJOR :: u8 where [simp]: "VERSION_MAJOR = 0"
definition VERSION_MINOR_0_1 :: u8 where [simp]: "VERSION_MINOR_0_1 = 1"
definition VERSION_MINOR_0_2 :: u8 where [simp]: "VERSION_MINOR_0_2 = 2"
definition MIN_SUPPORTED_MINOR :: u8 where [simp]: "MIN_SUPPORTED_MINOR = VERSION_MINOR_0_1"
definition MAX_SUPPORTED_MINOR :: u8 where [simp]: "MAX_SUPPORTED_MINOR = VERSION_MINOR_0_2"
definition VERSION_MINOR :: u8 where [simp]: "VERSION_MINOR = 1"
definition FLAGS_NONE :: u8 where [simp]: "FLAGS_NONE = 0x00"
definition RESERVED_REQUEST_ID :: u16 where [simp]: "RESERVED_REQUEST_ID = 0x0000"
definition MINIMUM_REQUEST_ID :: u16 where [simp]: "MINIMUM_REQUEST_ID = 0x0001"
definition HOST_MAX_PAYLOAD_SIZE :: nat where [simp]: "HOST_MAX_PAYLOAD_SIZE = 128"
definition DECODED_HEADER_SIZE :: nat where [simp]: "DECODED_HEADER_SIZE = 8"
definition MIN_DECODED_FRAME_SIZE :: nat where [simp]: "MIN_DECODED_FRAME_SIZE = 10"
definition MAX_DECODED_FRAME_SIZE :: nat where [simp]: "MAX_DECODED_FRAME_SIZE = 138"
definition MAX_COBS_CANDIDATE_SIZE :: nat where [simp]: "MAX_COBS_CANDIDATE_SIZE = 139"
definition MAX_ENCODED_FRAME_SIZE :: nat where [simp]: "MAX_ENCODED_FRAME_SIZE = 140"

datatype messageType = HELLO_REQUEST | HELLO_RESPONSE | OPERATION_REQUEST | OPERATION_RESPONSE | PROTOCOL_ERROR
  | MessageType_raw u8

fun messageType_code :: "messageType \<Rightarrow> u8" where
  "messageType_code HELLO_REQUEST = 0x01"
| "messageType_code HELLO_RESPONSE = 0x02"
| "messageType_code OPERATION_REQUEST = 0x10"
| "messageType_code OPERATION_RESPONSE = 0x11"
| "messageType_code PROTOCOL_ERROR = 0x7F"
| "messageType_code (MessageType_raw b) = b"

definition messageType_of :: "u8 \<Rightarrow> messageType" where
  "messageType_of b = (if b = 0x01 then HELLO_REQUEST else if b = 0x02 then HELLO_RESPONSE
     else if b = 0x10 then OPERATION_REQUEST else if b = 0x11 then OPERATION_RESPONSE
     else if b = 0x7F then PROTOCOL_ERROR else MessageType_raw b)"

datatype operationCategory = CAT_DEVICE | CAT_CAPABILITY | CAT_PROCEDURE | CAT_DIAGNOSTIC | CAT_EVENT
  | OperationCategory_raw u8

datatype operationCode = PING | GET_DEVICE_INFO | GET_STATUS | GET_CAPABILITIES | DESCRIBE_CAPABILITY
  | READ_CAPABILITY | SET_INDICATOR | RUN_PROCEDURE | GET_DIAGNOSTICS | POLL_EVENTS | CONSUME_EVENT
  | GET_EVENT_DIAGNOSTICS | OperationCode_raw u8

datatype resultClass = RC_SUCCESS | RC_REQUEST_REJECTED | RC_OPERATION_RESULT | RC_RADIO_RESULT
  | RC_LOCAL_RUNTIME_RESULT | RC_EVENT_RESULT | ResultClass_raw u8

datatype protocolErrorCode = PE_UNSUPPORTED_MAJOR | PE_UNSUPPORTED_MINOR | PE_UNSUPPORTED_MESSAGE_TYPE
  | PE_UNSUPPORTED_FLAGS | PE_MALFORMED_PAYLOAD | PE_INVALID_REQUEST_ID | ProtocolErrorCode_raw u8

definition STRUCTURE_VALUE_TYPE :: u8 where [simp]: "STRUCTURE_VALUE_TYPE = 0x7F"
definition CATEGORY_EVENT_BIT :: u16 where [simp]: "CATEGORY_EVENT_BIT = 0x0010"
definition RESERVED_CATEGORY_BITMAP :: u16 where [simp]: "RESERVED_CATEGORY_BITMAP = 0xFFF0"
definition RESERVED_CATEGORY_BITMAP_0_2 :: u16 where [simp]: "RESERVED_CATEGORY_BITMAP_0_2 = 0xFFE0"
definition FEATURE_EVENT_SERVICE :: u16 where [simp]: "FEATURE_EVENT_SERVICE = 0x0004"
definition RESERVED_FEATURE_BITMAP :: u16 where [simp]: "RESERVED_FEATURE_BITMAP = 0xFFFC"
definition RESERVED_FEATURE_BITMAP_0_2 :: u16 where [simp]: "RESERVED_FEATURE_BITMAP_0_2 = 0xFFF8"

definition isSupportedVersion :: "u8 \<Rightarrow> u8 \<Rightarrow> bool" where
  "isSupportedVersion major minor = (major = VERSION_MAJOR \<and> minor \<ge> MIN_SUPPORTED_MINOR \<and> minor \<le> MAX_SUPPORTED_MINOR)"

fun isKnownMessageType :: "messageType \<Rightarrow> bool" where
  "isKnownMessageType (MessageType_raw b) = False"
| "isKnownMessageType t = True"

definition hasSupportedFlags :: "u8 \<Rightarrow> bool" where
  "hasSupportedFlags flags = (flags = FLAGS_NONE)"

definition isReservedRequestId :: "u16 \<Rightarrow> bool" where
  "isReservedRequestId requestId = (requestId = RESERVED_REQUEST_ID)"

definition isValidRequestId :: "u16 \<Rightarrow> bool" where
  "isValidRequestId requestId = (requestId \<ge> MINIMUM_REQUEST_ID)"

text \<open>The overloads of version 0.1 carry the suffix \<open>_0_1\<close>; those that take the minor version have the plain name.\<close>

definition isKnownOperationCategory_0_1 :: "operationCategory \<Rightarrow> bool" where
  "isKnownOperationCategory_0_1 c = (c \<in> {CAT_DEVICE, CAT_CAPABILITY, CAT_PROCEDURE, CAT_DIAGNOSTIC})"

definition isKnownOperationCode_0_1 :: "operationCode \<Rightarrow> bool" where
  "isKnownOperationCode_0_1 op = (op \<in> {PING, GET_DEVICE_INFO, GET_STATUS, GET_CAPABILITIES, DESCRIBE_CAPABILITY,
     READ_CAPABILITY, SET_INDICATOR, RUN_PROCEDURE, GET_DIAGNOSTICS})"

definition isKnownOperationCategory :: "u8 \<Rightarrow> operationCategory \<Rightarrow> bool" where
  "isKnownOperationCategory minor c = (isKnownOperationCategory_0_1 c \<or> minor = VERSION_MINOR_0_2 \<and> c = CAT_EVENT)"

definition isKnownOperationCode :: "u8 \<Rightarrow> operationCode \<Rightarrow> bool" where
  "isKnownOperationCode minor op = (isKnownOperationCode_0_1 op
     \<or> minor = VERSION_MINOR_0_2 \<and> (op = POLL_EVENTS \<or> op = CONSUME_EVENT \<or> op = GET_EVENT_DIAGNOSTICS))"

fun isSupportedCategoryOperation_0_1 :: "operationCategory \<Rightarrow> operationCode \<Rightarrow> bool" where
  "isSupportedCategoryOperation_0_1 CAT_DEVICE op = (op = PING \<or> op = GET_DEVICE_INFO \<or> op = GET_STATUS)"
| "isSupportedCategoryOperation_0_1 CAT_CAPABILITY op =
     (op = GET_CAPABILITIES \<or> op = DESCRIBE_CAPABILITY \<or> op = READ_CAPABILITY \<or> op = SET_INDICATOR)"
| "isSupportedCategoryOperation_0_1 CAT_PROCEDURE op = (op = RUN_PROCEDURE)"
| "isSupportedCategoryOperation_0_1 CAT_DIAGNOSTIC op = (op = GET_DIAGNOSTICS)"
| "isSupportedCategoryOperation_0_1 CAT_EVENT op = False"
| "isSupportedCategoryOperation_0_1 (OperationCategory_raw b) op = False"

definition isSupportedCategoryOperation :: "u8 \<Rightarrow> operationCategory \<Rightarrow> operationCode \<Rightarrow> bool" where
  "isSupportedCategoryOperation minor c op =
     (if minor = VERSION_MINOR_0_2 \<and> c = CAT_EVENT then op = POLL_EVENTS \<or> op = CONSUME_EVENT
      else if minor = VERSION_MINOR_0_2 \<and> c = CAT_DIAGNOSTIC \<and> op = GET_EVENT_DIAGNOSTICS then True
      else isKnownOperationCategory minor c \<and> isKnownOperationCode minor op \<and> isSupportedCategoryOperation_0_1 c op)"

definition isKnownResultClass_0_1 :: "resultClass \<Rightarrow> bool" where
  "isKnownResultClass_0_1 c = (c \<in> {RC_SUCCESS, RC_REQUEST_REJECTED, RC_OPERATION_RESULT, RC_RADIO_RESULT, RC_LOCAL_RUNTIME_RESULT})"

definition isKnownResultClass :: "u8 \<Rightarrow> resultClass \<Rightarrow> bool" where
  "isKnownResultClass minor c = (isKnownResultClass_0_1 c \<or> minor = VERSION_MINOR_0_2 \<and> c = RC_EVENT_RESULT)"

fun isValidResultCode :: "resultClass \<Rightarrow> u8 \<Rightarrow> bool" where
  "isValidResultCode RC_SUCCESS code = (code = 0x00)"
| "isValidResultCode RC_REQUEST_REJECTED code = (code \<in> {0x01, 0x02, 0x03, 0x04, 0x08})"
| "isValidResultCode RC_OPERATION_RESULT code = isKnownOperationStatus (operationStatus_of code)"
| "isValidResultCode RC_RADIO_RESULT code = (code \<in> {0x06, 0x07, 0x08})"
| "isValidResultCode RC_LOCAL_RUNTIME_RESULT code = (code = 0x04 \<or> code = 0x0A)"
| "isValidResultCode RC_EVENT_RESULT code = (code = 0x01 \<or> code = 0x02)"
| "isValidResultCode (ResultClass_raw b) code = False"

fun isKnownProtocolError :: "protocolErrorCode \<Rightarrow> bool" where
  "isKnownProtocolError (ProtocolErrorCode_raw b) = False"
| "isKnownProtocolError e = True"

definition isValidHelloMinorRange_0_1 :: "u8 \<Rightarrow> u8 \<Rightarrow> bool" where
  "isValidHelloMinorRange_0_1 minimum maximum = (minimum = VERSION_MINOR \<and> maximum = VERSION_MINOR)"

definition isValidHelloMinorRange :: "u8 \<Rightarrow> u8 \<Rightarrow> u8 \<Rightarrow> bool" where
  "isValidHelloMinorRange frameMinor minimum maximum =
     (if frameMinor = VERSION_MINOR_0_1 then isValidHelloMinorRange_0_1 minimum maximum
      else frameMinor = VERSION_MINOR_0_2 \<and> minimum \<noteq> 0 \<and> maximum \<noteq> 0 \<and> minimum \<le> maximum)"

definition selectHighestSupportedMinor :: "u8 \<Rightarrow> u8 \<Rightarrow> u8 option" where
  "selectHighestSupportedMinor minimum maximum =
     (if minimum = 0 \<or> maximum = 0 \<or> minimum > maximum then None
      else if minimum \<le> VERSION_MINOR_0_2 \<and> maximum \<ge> VERSION_MINOR_0_2 then Some VERSION_MINOR_0_2
      else if minimum \<le> VERSION_MINOR_0_1 \<and> maximum \<ge> VERSION_MINOR_0_1 then Some VERSION_MINOR_0_1
      else None)"

definition hasValidCategoryBitmap_0_1 :: "u16 \<Rightarrow> bool" where
  "hasValidCategoryBitmap_0_1 bitmap = (bitmap AND RESERVED_CATEGORY_BITMAP = 0)"

definition hasValidFeatureBitmap_0_1 :: "u16 \<Rightarrow> bool" where
  "hasValidFeatureBitmap_0_1 bitmap = (bitmap AND RESERVED_FEATURE_BITMAP = 0)"

definition hasValidCategoryBitmap :: "u8 \<Rightarrow> u16 \<Rightarrow> bool" where
  "hasValidCategoryBitmap selectedMinor bitmap =
     (if selectedMinor = VERSION_MINOR_0_1 then hasValidCategoryBitmap_0_1 bitmap
      else selectedMinor = VERSION_MINOR_0_2 \<and> bitmap AND RESERVED_CATEGORY_BITMAP_0_2 = 0)"

definition hasValidFeatureBitmap :: "u8 \<Rightarrow> u16 \<Rightarrow> bool" where
  "hasValidFeatureBitmap selectedMinor bitmap =
     (if selectedMinor = VERSION_MINOR_0_1 then hasValidFeatureBitmap_0_1 bitmap
      else selectedMinor = VERSION_MINOR_0_2 \<and> bitmap AND RESERVED_FEATURE_BITMAP_0_2 = 0)"

definition hasConsistentEventAdvertisement :: "u8 \<Rightarrow> u16 \<Rightarrow> u16 \<Rightarrow> bool" where
  "hasConsistentEventAdvertisement selectedMinor categories features =
     (let category = (categories AND CATEGORY_EVENT_BIT \<noteq> 0); feature = (features AND FEATURE_EVENT_SERVICE \<noteq> 0) in
      if selectedMinor = VERSION_MINOR_0_1 then \<not> category \<and> \<not> feature
      else selectedMinor = VERSION_MINOR_0_2 \<and> category = feature)"

definition isKnownHostValueType :: "u8 \<Rightarrow> bool" where
  "isKnownHostValueType t = (t = STRUCTURE_VALUE_TYPE \<or> isKnownValueType (valueType_of t))"

subsection \<open>Frames\<close>

definition FRAME_DELIMITER :: u8 where [simp]: "FRAME_DELIMITER = 0x00"
definition CRC16_CCITT_FALSE_POLYNOMIAL :: u16 where [simp]: "CRC16_CCITT_FALSE_POLYNOMIAL = 0x1021"
definition CRC16_CCITT_FALSE_INITIAL :: u16 where [simp]: "CRC16_CCITT_FALSE_INITIAL = 0xFFFF"

record frame =
  frMajor :: u8
  frMinor :: u8
  frMessageType :: messageType
  frFlags :: u8
  frRequestId :: u16
  frPayloadLength :: u16
  frPayload :: bytes

text \<open>The value of \<^verbatim>\<open>Frame f = {}\<close>; the byte 0 is no registered message type.\<close>

definition frame_init :: frame where
  "frame_init = \<lparr>frMajor = 0, frMinor = 0, frMessageType = MessageType_raw 0, frFlags = 0, frRequestId = 0,
     frPayloadLength = 0, frPayload = fillZero HOST_MAX_PAYLOAD_SIZE\<rparr>"

datatype cobsResult = CR_OK | CR_NULL_ARGUMENT | CR_INPUT_TOO_LARGE | CR_OUTPUT_TOO_SMALL | CR_MALFORMED_INPUT

datatype encodeResult = ER_OK | ER_NULL_ARGUMENT | ER_PAYLOAD_TOO_LARGE | ER_UNSUPPORTED_VERSION
  | ER_UNSUPPORTED_MESSAGE_TYPE | ER_UNSUPPORTED_FLAGS | ER_INVALID_REQUEST_ID | ER_OUTPUT_TOO_SMALL

datatype decodeResult = DR_OK | DR_NULL_ARGUMENT | DR_EMPTY_FRAME | DR_ENCODED_FRAME_TOO_LARGE | DR_MISSING_DELIMITER
  | DR_MALFORMED_COBS | DR_DECODED_LENGTH_INVALID | DR_PAYLOAD_TOO_LARGE | DR_LENGTH_MISMATCH | DR_CRC_MISMATCH
  | DR_UNSUPPORTED_VERSION | DR_UNSUPPORTED_MESSAGE_TYPE | DR_UNSUPPORTED_FLAGS | DR_INVALID_REQUEST_ID
  | DR_UNSUPPORTED_MAJOR | DR_UNSUPPORTED_MINOR

definition crc16Bit :: "u16 \<Rightarrow> u16" where
  "crc16Bit crc = (if crc AND 0x8000 \<noteq> 0 then push_bit 1 crc XOR CRC16_CCITT_FALSE_POLYNOMIAL else push_bit 1 crc)"

definition crc16Byte :: "u16 \<Rightarrow> u8 \<Rightarrow> u16" where
  "crc16Byte crc b = (crc16Bit ^^ 8) (crc XOR push_bit 8 (ucast b))"

definition crc16CcittFalse :: "bytes option \<Rightarrow> nat \<Rightarrow> u16" where
  "crc16CcittFalse input inputLength =
     (if input = None \<and> inputLength \<noteq> 0 then CRC16_CCITT_FALSE_INITIAL
      else foldl crc16Byte CRC16_CCITT_FALSE_INITIAL (case input of None \<Rightarrow> [] | Some bs \<Rightarrow> take inputLength bs))"

text \<open>The loop of \<^verbatim>\<open>cobsEncode\<close> on what is left of the input.\<close>

fun cobsEncodeLoop :: "bytes \<Rightarrow> nat \<Rightarrow> nat \<Rightarrow> nat \<Rightarrow> u8 \<Rightarrow> bytes \<Rightarrow> cobsResult \<times> nat \<times> bytes" where
  "cobsEncodeLoop [] cap codeIndex writeIndex code out =
     (if codeIndex \<ge> cap then (CR_OUTPUT_TOO_SMALL, 0, out) else (CR_OK, writeIndex, out[codeIndex := code]))"
| "cobsEncodeLoop (value # input) cap codeIndex writeIndex code out =
     (if value = 0 then
        if codeIndex \<ge> cap then (CR_OUTPUT_TOO_SMALL, 0, out)
        else if writeIndex \<ge> cap then (CR_OUTPUT_TOO_SMALL, 0, out[codeIndex := code])
        else cobsEncodeLoop input cap writeIndex (writeIndex + 1) 1 (out[codeIndex := code])
      else if writeIndex \<ge> cap then (CR_OUTPUT_TOO_SMALL, 0, out)
      else if code + 1 = 0xFF then
        if writeIndex + 1 \<ge> cap then (CR_OUTPUT_TOO_SMALL, 0, out[writeIndex := value, codeIndex := code + 1])
        else cobsEncodeLoop input cap (writeIndex + 1) (writeIndex + 2) 1 (out[writeIndex := value, codeIndex := code + 1])
      else cobsEncodeLoop input cap codeIndex (writeIndex + 1) (code + 1) (out[writeIndex := value]))"

text \<open>The results are the status, the output length and the output buffer.\<close>

definition cobsEncode :: "bytes option \<Rightarrow> nat \<Rightarrow> bytes option \<Rightarrow> nat \<Rightarrow> cobsResult \<times> nat \<times> bytes option" where
  "cobsEncode input inputLength output outputCapacity =
     (if input = None \<and> inputLength \<noteq> 0 \<or> output = None then (CR_NULL_ARGUMENT, 0, output)
      else if inputLength > MAX_DECODED_FRAME_SIZE then (CR_INPUT_TOO_LARGE, 0, output)
      else if outputCapacity = 0 then (CR_OUTPUT_TOO_SMALL, 0, output)
      else case cobsEncodeLoop (case input of None \<Rightarrow> [] | Some bs \<Rightarrow> take inputLength bs) outputCapacity 0 1 1 (the output)
        of (r, n, out) \<Rightarrow> (r, n, Some out))"

text \<open>The inner loop of \<^verbatim>\<open>cobsDecode\<close>: it copies a block and stops at a zero byte.\<close>

fun cobsCopyBlock :: "bytes \<Rightarrow> nat \<Rightarrow> bytes \<Rightarrow> bool \<times> bytes" where
  "cobsCopyBlock [] writeIndex out = (True, out)"
| "cobsCopyBlock (value # block) writeIndex out =
     (if value = 0 then (False, out) else cobsCopyBlock block (writeIndex + 1) (out[writeIndex := value]))"

text \<open>The loop of \<^verbatim>\<open>cobsDecode\<close> on the input from \<^verbatim>\<open>readIndex\<close> on.\<close>

function cobsDecodeLoop :: "bytes \<Rightarrow> nat \<Rightarrow> nat \<Rightarrow> bytes \<Rightarrow> cobsResult \<times> nat \<times> bytes" where
  "cobsDecodeLoop [] cap writeIndex out = (CR_OK, writeIndex, out)"
| "cobsDecodeLoop (code # input) cap writeIndex out =
     (let blockLength = unat (code - 1) in
      if code = 0 then (CR_MALFORMED_INPUT, 0, out)
      else if blockLength > length input then (CR_MALFORMED_INPUT, 0, out)
      else if blockLength > cap - writeIndex then (CR_OUTPUT_TOO_SMALL, 0, out)
      else case cobsCopyBlock (take blockLength input) writeIndex out of (copied, out) \<Rightarrow>
        if \<not> copied then (CR_MALFORMED_INPUT, 0, out)
        else if code \<noteq> 0xFF \<and> drop blockLength input \<noteq> [] then
          if writeIndex + blockLength \<ge> cap then (CR_OUTPUT_TOO_SMALL, 0, out)
          else cobsDecodeLoop (drop blockLength input) cap (writeIndex + blockLength + 1) (out[writeIndex + blockLength := 0])
        else cobsDecodeLoop (drop blockLength input) cap (writeIndex + blockLength) out)"
  by pat_completeness auto
termination
  by (relation "measure (\<lambda>(input, _). length input)") auto

definition cobsDecode :: "bytes option \<Rightarrow> nat \<Rightarrow> bytes option \<Rightarrow> nat \<Rightarrow> cobsResult \<times> nat \<times> bytes option" where
  "cobsDecode input inputLength output outputCapacity =
     (if input = None \<or> output = None then (CR_NULL_ARGUMENT, 0, output)
      else if inputLength = 0 then (CR_MALFORMED_INPUT, 0, output)
      else if inputLength > MAX_COBS_CANDIDATE_SIZE then (CR_INPUT_TOO_LARGE, 0, output)
      else case cobsDecodeLoop (take inputLength (the input)) outputCapacity 0 (the output)
        of (r, n, out) \<Rightarrow> (r, n, Some out))"

definition isValidEnvelopeRequestId :: "messageType \<Rightarrow> u16 \<Rightarrow> bool" where
  "isValidEnvelopeRequestId t requestId =
     (isValidRequestId requestId \<or> t = PROTOCOL_ERROR \<and> isReservedRequestId requestId)"

text \<open>The array \<^verbatim>\<open>decoded\<close> that \<^verbatim>\<open>encodeFrame\<close> fills before it stuffs it.\<close>

definition frameHeader :: "frame \<Rightarrow> bytes" where
  "frameHeader f = (let decoded = (fillZero MAX_DECODED_FRAME_SIZE)[0 := frMajor f, 1 := frMinor f,
       2 := messageType_code (frMessageType f), 3 := frFlags f] in
     copyBytes (putLe16 (putLe16 decoded 4 (frRequestId f)) 6 (frPayloadLength f))
       DECODED_HEADER_SIZE (frPayload f) (unat (frPayloadLength f)))"

definition frameDecoded :: "frame \<Rightarrow> bytes" where
  "frameDecoded f = (let n = DECODED_HEADER_SIZE + unat (frPayloadLength f) in
     putLe16 (frameHeader f) n (crc16CcittFalse (Some (frameHeader f)) n))"

definition encodeFrame :: "frame \<Rightarrow> bytes option \<Rightarrow> nat \<Rightarrow> encodeResult \<times> nat \<times> bytes option" where
  "encodeFrame f output outputCapacity =
     (if output = None then (ER_NULL_ARGUMENT, 0, output)
      else if unat (frPayloadLength f) > HOST_MAX_PAYLOAD_SIZE then (ER_PAYLOAD_TOO_LARGE, 0, output)
      else if \<not> isSupportedVersion (frMajor f) (frMinor f) then (ER_UNSUPPORTED_VERSION, 0, output)
      else if \<not> isKnownMessageType (frMessageType f) then (ER_UNSUPPORTED_MESSAGE_TYPE, 0, output)
      else if \<not> hasSupportedFlags (frFlags f) then (ER_UNSUPPORTED_FLAGS, 0, output)
      else if \<not> isValidEnvelopeRequestId (frMessageType f) (frRequestId f) then (ER_INVALID_REQUEST_ID, 0, output)
      else if outputCapacity = 0 then (ER_OUTPUT_TOO_SMALL, 0, output)
      else case cobsEncode (Some (frameDecoded f)) (MIN_DECODED_FRAME_SIZE + unat (frPayloadLength f)) output
          (outputCapacity - 1) of (r, candidateLength, output) \<Rightarrow>
        if r \<noteq> CR_OK then (if r = CR_OUTPUT_TOO_SMALL then ER_OUTPUT_TOO_SMALL else ER_NULL_ARGUMENT, 0, output)
        else if candidateLength \<ge> outputCapacity then (ER_OUTPUT_TOO_SMALL, 0, output)
        else (ER_OK, candidateLength + 1, map_option (\<lambda>out. out[candidateLength := FRAME_DELIMITER]) output))"

definition decodedEnvelope :: "bytes \<Rightarrow> frame" where
  "decodedEnvelope decoded = (let payloadLength = getLe16 decoded 6 in
     \<lparr>frMajor = decoded ! 0, frMinor = decoded ! 1, frMessageType = messageType_of (decoded ! 2), frFlags = decoded ! 3,
      frRequestId = getLe16 decoded 4, frPayloadLength = payloadLength,
      frPayload = copyBytes (fillZero HOST_MAX_PAYLOAD_SIZE) 0 (drop DECODED_HEADER_SIZE decoded) (unat payloadLength)\<rparr>)"

text \<open>The second component is the output parameter \<^verbatim>\<open>frame\<close>, whose value before the call is the last
  argument.  The envelope is stored once its CRC agrees, before the vocabulary is checked.\<close>

definition decodeFrame :: "bytes option \<Rightarrow> nat \<Rightarrow> frame \<Rightarrow> decodeResult \<times> frame" where
  "decodeFrame input inputLength old =
     (if input = None then (DR_NULL_ARGUMENT, old)
      else if inputLength = 0 then (DR_EMPTY_FRAME, old)
      else if inputLength > MAX_ENCODED_FRAME_SIZE then (DR_ENCODED_FRAME_TOO_LARGE, old)
      else if the input ! (inputLength - 1) \<noteq> FRAME_DELIMITER then (DR_MISSING_DELIMITER, old)
      else if inputLength - 1 = 0 then (DR_EMPTY_FRAME, old)
      else case cobsDecode input (inputLength - 1) (Some (fillZero MAX_DECODED_FRAME_SIZE)) MAX_DECODED_FRAME_SIZE
        of (r, decodedLength, out) \<Rightarrow>
        if r \<noteq> CR_OK then (if r = CR_INPUT_TOO_LARGE then DR_ENCODED_FRAME_TOO_LARGE else DR_MALFORMED_COBS, old)
        else if decodedLength < MIN_DECODED_FRAME_SIZE \<or> decodedLength > MAX_DECODED_FRAME_SIZE
          then (DR_DECODED_LENGTH_INVALID, old)
        else let decoded = the out; payloadLength = unat (getLe16 decoded 6); crcIndex = DECODED_HEADER_SIZE + payloadLength in
          if payloadLength > HOST_MAX_PAYLOAD_SIZE then (DR_PAYLOAD_TOO_LARGE, old)
          else if decodedLength \<noteq> MIN_DECODED_FRAME_SIZE + payloadLength then (DR_LENGTH_MISMATCH, old)
          else if crc16CcittFalse (Some decoded) crcIndex \<noteq> getLe16 decoded crcIndex then (DR_CRC_MISMATCH, old)
          else let f = decodedEnvelope decoded in
            if frMajor f \<noteq> VERSION_MAJOR then (DR_UNSUPPORTED_MAJOR, f)
            else if frMinor f < MIN_SUPPORTED_MINOR \<or> frMinor f > MAX_SUPPORTED_MINOR then (DR_UNSUPPORTED_MINOR, f)
            else if \<not> isKnownMessageType (frMessageType f) then (DR_UNSUPPORTED_MESSAGE_TYPE, f)
            else if \<not> hasSupportedFlags (frFlags f) then (DR_UNSUPPORTED_FLAGS, f)
            else if \<not> isValidEnvelopeRequestId (frMessageType f) (frRequestId f) then (DR_INVALID_REQUEST_ID, f)
            else (DR_OK, f))"

end
