(* ===== verification/HostFraming.thy ===== *)
theory HostFraming
  imports HostProtocol
begin

text \<open>
  The byte stuffing and the frames of the host link are exact inverses.  The specification of the stuffing splits the
  input at its zero bytes and puts the length of each piece in front of it; the two loops of the code are shown to
  compute it and its inverse.  Inputs are at most 138 bytes, so no piece reaches the 254 bytes at which the code
  starts a continuation block.
\<close>

subsection \<open>A specification of the stuffing\<close>

fun splitZeros :: "bytes \<Rightarrow> bytes list" where
  "splitZeros [] = [[]]"
| "splitZeros (x # xs) = (if x = 0 then [] # splitZeros xs else (x # hd (splitZeros xs)) # tl (splitZeros xs))"

definition stuffPiece :: "bytes \<Rightarrow> bytes" where
  "stuffPiece p = of_nat (Suc (length p)) # p"

definition stuffed :: "bytes \<Rightarrow> bytes" where
  "stuffed bs = concat (map stuffPiece (splitZeros bs))"

lemma splitZeros_nonempty [simp]: "splitZeros xs \<noteq> []"
  by (cases xs) auto

lemma length_stuffed [simp]: "length (stuffed bs) = Suc (length bs)"
proof (induction bs)
  case (Cons b bs)
  then show ?case by (cases "splitZeros bs") (auto simp: stuffed_def stuffPiece_def)
qed (simp add: stuffed_def stuffPiece_def)

lemma pieces_nonzero: "p \<in> set (splitZeros bs) \<Longrightarrow> 0 \<notin> set p"
proof (induction bs arbitrary: p)
  case (Cons b bs)
  then show ?case by (cases "splitZeros bs") (auto split: if_splits)
qed simp

lemma piece_length: "p \<in> set (splitZeros bs) \<Longrightarrow> length p \<le> length bs"
proof (induction bs arbitrary: p)
  case (Cons b bs)
  then show ?case by (cases "splitZeros bs") (force split: if_splits)+
qed simp

lemma of_nat_code: "n < 255 \<Longrightarrow> unat (of_nat n :: u8) = n"
  by (simp add: unsigned_of_nat take_bit_nat_eq_self)

lemma stuffed_nonzero: "length bs < 254 \<Longrightarrow> 0 \<notin> set (stuffed bs)"
proof
  assume l: "length bs < 254" and "0 \<in> set (stuffed bs)"
  then obtain p where p: "p \<in> set (splitZeros bs)" and "0 \<in> set (stuffPiece p)" by (auto simp: stuffed_def)
  then have "(of_nat (Suc (length p)) :: u8) = 0" using pieces_nonzero by (auto simp: stuffPiece_def)
  then have "unat (of_nat (Suc (length p)) :: u8) = 0" by (simp only: unat_0)
  then show False using of_nat_code[of "Suc (length p)"] piece_length[OF p] l by simp
qed

text \<open>The same with the piece under construction as an argument, as the encoder's loop goes.\<close>

fun stuffFrom :: "bytes \<Rightarrow> bytes \<Rightarrow> bytes" where
  "stuffFrom p [] = stuffPiece p"
| "stuffFrom p (x # xs) = (if x = 0 then stuffPiece p @ stuffFrom [] xs else stuffFrom (p @ [x]) xs)"

lemma stuffFrom_pieces:
  "stuffFrom p xs = concat (map stuffPiece ((p @ hd (splitZeros xs)) # tl (splitZeros xs)))"
proof (induction xs arbitrary: p)
  case (Cons x xs)
  then show ?case by (cases "splitZeros xs") auto
qed simp

lemma stuffFrom_stuffed: "stuffFrom [] xs = stuffed xs"
  by (simp add: stuffFrom_pieces stuffed_def flip: list.map)

subsection \<open>The encoder\<close>

lemma encode_loop:
  assumes "length p + length xs < 254" "length xs \<le> length t" "length pre + Suc (length p) + length xs \<le> cap"
  shows "cobsEncodeLoop xs cap (length pre) (length pre + Suc (length p)) (of_nat (Suc (length p))) (pre @ c # p @ t)
    = (CR_OK, length pre + Suc (length p) + length xs, pre @ stuffFrom p xs @ drop (length xs) t)"
  using assms
proof (induction xs arbitrary: p pre c t)
  case Nil
  then show ?case by (simp add: stuffPiece_def list_update_append)
next
  case (Cons x xs)
  from Cons.prems obtain y t' where t: "t = y # t'" by (cases t) auto
  have next_code: "(1 + word_of_nat (Suc (length p)) :: u8) = of_nat (Suc (Suc (length p)))" by simp
  have "(of_nat (Suc (Suc (length p))) :: u8) \<noteq> 0xFF"
  proof
    assume "(of_nat (Suc (Suc (length p))) :: u8) = 0xFF"
    then have "unat (of_nat (Suc (Suc (length p))) :: u8) = 255" by simp
    then show False using of_nat_code[of "Suc (Suc (length p))"] Cons.prems by simp
  qed
  then show ?case
  proof (cases "x = 0")
    case True
    have "cobsEncodeLoop xs cap (length (pre @ stuffPiece p)) (length (pre @ stuffPiece p) + Suc (length ([]::bytes)))
       (of_nat (Suc (length ([]::bytes)))) ((pre @ stuffPiece p) @ y # [] @ t')
       = (CR_OK, length (pre @ stuffPiece p) + Suc (length ([]::bytes)) + length xs,
          (pre @ stuffPiece p) @ stuffFrom [] xs @ drop (length xs) t')"
      using Cons.prems t by (intro Cons.IH) (simp_all add: stuffPiece_def)
    then show ?thesis using Cons.prems True by (simp add: t stuffPiece_def list_update_append)
  next
    case False
    have "cobsEncodeLoop xs cap (length pre) (length pre + Suc (length (p @ [x])))
       (of_nat (Suc (length (p @ [x])))) (pre @ c # (p @ [x]) @ t')
       = (CR_OK, length pre + Suc (length (p @ [x])) + length xs, pre @ stuffFrom (p @ [x]) xs @ drop (length xs) t')"
      using Cons.prems t by (intro Cons.IH) simp_all
    then show ?thesis using Cons.prems False \<open>(of_nat (Suc (Suc (length p))) :: u8) \<noteq> 0xFF\<close>
      by (simp add: t list_update_append ac_simps)
  qed
qed

lemma encode_loop_small:
  assumes "w \<le> cap" "cap < w + length xs"
  shows "\<exists>out'. cobsEncodeLoop xs cap k w code out = (CR_OUTPUT_TOO_SMALL, 0, out')"
  using assms by (induction xs arbitrary: k w code out) auto

lemma cobsEncode_stuffed:
  assumes "n \<le> MAX_DECODED_FRAME_SIZE" "n \<le> length bs" "n < cap" "cap \<le> length out"
  shows "cobsEncode (Some bs) n (Some out) cap = (CR_OK, Suc n, Some (stuffed (take n bs) @ drop (Suc n) out))"
proof -
  from assms obtain c t where out: "out = c # t" by (cases out) auto
  show ?thesis
    using encode_loop[of "[]" "take n bs" t "[]" cap c] assms
    by (simp add: cobsEncode_def out stuffFrom_stuffed)
qed

lemma cobsEncode_small:
  assumes "n \<le> MAX_DECODED_FRAME_SIZE" "n \<le> length bs" "cap \<le> n"
  shows "\<exists>out'. cobsEncode (Some bs) n (Some out) cap = (CR_OUTPUT_TOO_SMALL, 0, Some out')"
  using encode_loop_small[of 1 cap "take n bs" 0 1 out] assms by (auto simp: cobsEncode_def)

subsection \<open>The decoder\<close>

lemma stuffed_zero_free: "0 \<notin> set b \<Longrightarrow> stuffed b = stuffPiece b"
proof -
  assume "0 \<notin> set b"
  then have "splitZeros b = [b]" by (induction b) auto
  then show ?thesis by (simp add: stuffed_def)
qed

lemma stuffed_append_zero: "0 \<notin> set b \<Longrightarrow> stuffed (b @ 0 # bs) = stuffPiece b @ stuffed bs"
proof -
  assume "0 \<notin> set b"
  then have "splitZeros (b @ 0 # bs) = b # splitZeros bs" by (induction b) auto
  then show ?thesis by (simp add: stuffed_def)
qed

lemma copy_block:
  assumes "length b \<le> length t"
  shows "fst (cobsCopyBlock b (length pre) (pre @ t)) = (0 \<notin> set b)"
    and "0 \<notin> set b \<Longrightarrow> cobsCopyBlock b (length pre) (pre @ t) = (True, pre @ b @ drop (length b) t)"
proof -
  have "fst (cobsCopyBlock b (length pre) (pre @ t)) = (0 \<notin> set b)
    \<and> (0 \<notin> set b \<longrightarrow> cobsCopyBlock b (length pre) (pre @ t) = (True, pre @ b @ drop (length b) t))"
    using assms
  proof (induction b arbitrary: pre t)
    case (Cons x b)
    from Cons.prems obtain y t' where t: "t = y # t'" by (cases t) auto
    from Cons.IH[of t' "pre @ [x]"] Cons.prems show ?case by (simp add: t list_update_append)
  qed simp
  then show "fst (cobsCopyBlock b (length pre) (pre @ t)) = (0 \<notin> set b)"
    "0 \<notin> set b \<Longrightarrow> cobsCopyBlock b (length pre) (pre @ t) = (True, pre @ b @ drop (length b) t)" by blast+
qed

lemma code_less_eq: "n < 254 \<Longrightarrow> unat (of_nat (Suc n) - 1 :: u8) = n" "n < 254 \<Longrightarrow> of_nat (Suc n) \<noteq> (0 :: u8)"
  using of_nat_code[of n] of_nat_code[of "Suc n"] by auto

lemma code_not_255: "n < 254 \<Longrightarrow> of_nat n \<noteq> (254 :: u8)"
proof
  assume "n < 254" "of_nat n = (254 :: u8)"
  then show False using of_nat_code[of n] by simp
qed

lemma decode_loop_stuffed:
  assumes "length bs < 254" "length bs \<le> length t" "length pre + length bs \<le> cap"
  shows "cobsDecodeLoop (stuffed bs) cap (length pre) (pre @ t)
    = (CR_OK, length pre + length bs, pre @ bs @ drop (length bs) t)"
  using assms
proof (induction bs arbitrary: pre t rule: length_induct)
  case (1 bs)
  show ?case
  proof (cases "0 \<in> set bs")
    case False
    then show ?thesis
      using "1.prems" copy_block(2)[of bs t pre] code_less_eq[of "length bs"]
      by (simp add: stuffed_zero_free stuffPiece_def)
  next
    case True
    then obtain b r where bs: "bs = b @ 0 # r" and b: "0 \<notin> set b" by (meson split_list_first)
    have IH: "cobsDecodeLoop (stuffed r) cap (length (pre @ b @ [0])) ((pre @ b @ [0]) @ drop (Suc (length b)) t)
      = (CR_OK, length (pre @ b @ [0]) + length r, (pre @ b @ [0]) @ r @ drop (length r) (drop (Suc (length b)) t))"
      using "1.prems" bs by (intro "1.IH"[rule_format]) auto
    have t: "drop (length b) t = t ! length b # drop (Suc (length b)) t"
      using "1.prems" bs by (intro Cons_nth_drop_Suc[symmetric]) simp
    have room: "\<not> cap - length pre < length b" using "1.prems" bs by simp
    have "stuffed r \<noteq> []" using length_stuffed[of r] by (metis list.size(3) nat.simps(3))
    then show ?thesis
      using "1.prems" copy_block(2)[of b t pre] code_less_eq[of "length b"] code_not_255[of "length b"] b IH room
      by (simp add: bs stuffed_append_zero stuffPiece_def t list_update_append ac_simps)
  qed
qed

lemma decode_loop_sound:
  assumes "cobsDecodeLoop c cap w out = (CR_OK, n, out')" "c \<noteq> []" "length c < 255" "w \<le> cap" "cap \<le> length out"
  shows "\<exists>bs. c = stuffed bs \<and> n = w + length bs \<and> n \<le> cap \<and> out' = take w out @ bs @ drop n out"
  using assms
proof (induction c arbitrary: w out n out' rule: length_induct)
  case (1 c)
  then obtain code input where c: "c = code # input" by (cases c) auto
  note run = "1.prems"(1)[unfolded c]
  define k where "k = unat (code - 1)"
  define b where "b = take k input"
  define rest where "rest = drop k input"
  from run have code: "code \<noteq> 0" and k: "k \<le> length input" and room: "k \<le> cap - w"
    by (auto simp: k_def split: if_splits)
  have lb: "length b = k" using k by (simp add: b_def)
  have code_k: "code = of_nat (Suc k)" using code by (simp add: k_def)
  have c255: "code \<noteq> 0xFF" using "1.prems"(3) k by (auto simp: k_def c)
  have out: "out = take w out @ drop w out" "length (take w out) = w" using "1.prems" by auto
  have fits: "length b \<le> length (drop w out)" using lb room "1.prems" by simp
  have "fst (cobsCopyBlock b w out)"
    using run code k room by (auto simp: k_def[symmetric] b_def split: prod.splits if_splits)
  then have b0: "0 \<notin> set b" using copy_block(1)[OF fits, of "take w out"] out by simp
  have copy: "cobsCopyBlock b w out = (True, take w out @ b @ drop (w + k) out)"
    using copy_block(2)[OF fits b0, of "take w out"] out(2) lb by (simp add: ac_simps)
  have head: "stuffPiece b = code # b" using code_k lb by (simp add: stuffPiece_def)
  have input: "input = b @ rest" by (simp add: b_def rest_def)
  show ?case
  proof (cases "rest = []")
    case True
    then have "n = w + k" "out' = take w out @ b @ drop (w + k) out"
      using run code k room copy by (auto simp: k_def[symmetric] b_def[symmetric] rest_def[symmetric])
    then show ?thesis
      using True head b0 lb room "1.prems" by (intro exI[of _ b]) (simp add: c input stuffed_zero_free)
  next
    case False
    define out1 where "out1 = (take w out @ b @ drop (w + k) out)[w + k := 0]"
    from False run code k room copy c255 have lt: "w + k < cap"
      and step: "cobsDecodeLoop rest cap (w + k + 1) out1 = (CR_OK, n, out')"
      by (auto simp: k_def[symmetric] b_def[symmetric] rest_def[symmetric] out1_def split: if_splits)
    have "length out1 = length out" using lb room "1.prems" lt by (simp add: out1_def)
    moreover have "length rest < length c" by (simp add: c rest_def)
    ultimately obtain bs where bs: "rest = stuffed bs" "n = w + k + 1 + length bs" "n \<le> cap"
      "out' = take (w + k + 1) out1 @ bs @ drop n out1"
      using "1.IH"[rule_format, of rest "w + k + 1" out1 n out'] step False lt "1.prems" by auto
    have "take (w + k + 1) out1 = take w out @ b @ [0]"
      using lt "1.prems" lb out(2) by (simp add: out1_def list_update_append take_Suc_conv_app_nth take_append)
    moreover have "drop n out1 = drop n out"
      using bs(2) lb lt "1.prems" by (simp add: out1_def drop_update_cancel ac_simps)
    ultimately show ?thesis
      using bs head b0 lb by (intro exI[of _ "b @ 0 # bs"]) (simp add: c input stuffed_append_zero)
  qed
qed

lemma cobsDecode_iff:
  assumes "length c \<le> MAX_COBS_CANDIDATE_SIZE" "cap \<le> length out"
  shows "cobsDecode (Some c) (length c) (Some out) cap = (CR_OK, m, Some out') \<longleftrightarrow>
    (\<exists>bs. c = stuffed bs \<and> m = length bs \<and> m \<le> cap \<and> out' = bs @ drop m out)"
proof
  assume "cobsDecode (Some c) (length c) (Some out) cap = (CR_OK, m, Some out')"
  then have "c \<noteq> []" "cobsDecodeLoop c cap 0 out = (CR_OK, m, out')"
    by (auto simp: cobsDecode_def split: if_splits prod.splits)
  then show "\<exists>bs. c = stuffed bs \<and> m = length bs \<and> m \<le> cap \<and> out' = bs @ drop m out"
    using decode_loop_sound[of c cap 0 out m out'] assms by auto
next
  assume "\<exists>bs. c = stuffed bs \<and> m = length bs \<and> m \<le> cap \<and> out' = bs @ drop m out"
  then obtain bs where bs: "c = stuffed bs" "m = length bs" "m \<le> cap" "out' = bs @ drop m out" by blast
  then show "cobsDecode (Some c) (length c) (Some out) cap = (CR_OK, m, Some out')"
    using decode_loop_stuffed[of bs out "[]" cap] assms by (simp add: cobsDecode_def)
qed

subsection \<open>Frames\<close>

lemma messageType_code_of [simp]: "messageType_code (messageType_of b) = b"
  by (simp add: messageType_of_def)

lemma messageType_of_code [simp]: "isKnownMessageType t \<Longrightarrow> messageType_of (messageType_code t) = t"
  by (cases t) (simp_all add: messageType_of_def)

text \<open>A frame that the vocabulary allows, with its payload array zero behind the payload.\<close>

definition sendableFrame :: "frame \<Rightarrow> bool" where
  "sendableFrame f \<longleftrightarrow> unat (frPayloadLength f) \<le> HOST_MAX_PAYLOAD_SIZE \<and> isSupportedVersion (frMajor f) (frMinor f)
     \<and> isKnownMessageType (frMessageType f) \<and> hasSupportedFlags (frFlags f)
     \<and> isValidEnvelopeRequestId (frMessageType f) (frRequestId f)"

definition canonicalPayload :: "frame \<Rightarrow> bool" where
  "canonicalPayload f \<longleftrightarrow> length (frPayload f) = HOST_MAX_PAYLOAD_SIZE
     \<and> list_all (\<lambda>b. b = 0) (drop (unat (frPayloadLength f)) (frPayload f))"

lemma length_frameDecoded [simp]: "length (frameHeader f) = 138" "length (frameDecoded f) = 138"
  by (simp_all add: frameHeader_def frameDecoded_def)

lemma header_reads:
  assumes "unat (frPayloadLength f) \<le> 128"
  shows "frameHeader f ! 0 = frMajor f" "frameHeader f ! 1 = frMinor f"
    "frameHeader f ! 2 = messageType_code (frMessageType f)" "frameHeader f ! 3 = frFlags f"
    "getLe16 (frameHeader f) 4 = frRequestId f" "getLe16 (frameHeader f) 6 = frPayloadLength f"
    "i < unat (frPayloadLength f) \<Longrightarrow> frameHeader f ! (8 + i) = frPayload f ! i"
    "8 + unat (frPayloadLength f) \<le> j \<Longrightarrow> j < 138 \<Longrightarrow> frameHeader f ! j = 0"
  using assms by (simp_all add: frameHeader_def buffer_simps)

lemma decoded_reads:
  assumes "unat (frPayloadLength f) \<le> 128"
  defines "n \<equiv> 8 + unat (frPayloadLength f)"
  shows "k < n \<Longrightarrow> frameDecoded f ! k = frameHeader f ! k" "k + 2 \<le> n \<Longrightarrow> getLe16 (frameDecoded f) k = getLe16 (frameHeader f) k"
    "take n (frameDecoded f) = take n (frameHeader f)"
    "getLe16 (frameDecoded f) n = crc16CcittFalse (Some (frameDecoded f)) n"
    "n + 2 \<le> j \<Longrightarrow> j < 138 \<Longrightarrow> frameDecoded f ! j = 0"
  using assms(1) header_reads(8)[OF assms(1), of j]
  by (simp_all add: frameDecoded_def n_def buffer_simps crc16CcittFalse_def)

lemma envelope_frameDecoded:
  assumes "sendableFrame f" "canonicalPayload f"
  shows "decodedEnvelope (frameDecoded f) = f"
proof -
  have n: "unat (frPayloadLength f) \<le> 128" using assms by (simp add: sendableFrame_def)
  note reads = decoded_reads[OF n] header_reads[OF n]
  have "copyBytes (fillZero 128) 0 (drop 8 (frameDecoded f)) (unat (frPayloadLength f)) = frPayload f"
  proof (rule nth_equalityI)
    fix i assume "i < length (copyBytes (fillZero 128) 0 (drop 8 (frameDecoded f)) (unat (frPayloadLength f)))"
    then have i: "i < 128" by simp
    moreover have "frPayload f ! i = 0" if "unat (frPayloadLength f) \<le> i"
      using assms(2) that i by (auto simp: canonicalPayload_def list_all_length dest: spec[of _ "i - unat (frPayloadLength f)"])
    ultimately show "copyBytes (fillZero 128) 0 (drop 8 (frameDecoded f)) (unat (frPayloadLength f)) ! i = frPayload f ! i"
      using n reads by (simp add: nth_copyBytes)
  qed (use assms in \<open>simp add: canonicalPayload_def\<close>)
  with reads assms show ?thesis by (simp add: decodedEnvelope_def sendableFrame_def)
qed

lemma payload_canonical:
  assumes "unat (getLe16 decoded 6) \<le> 128" "length decoded = 138"
  shows "canonicalPayload (decodedEnvelope decoded)"
  using assms by (auto simp: decodedEnvelope_def canonicalPayload_def list_all_length nth_copyBytes)

lemma getLe16_eqD: "getLe16 x k = getLe16 y k \<Longrightarrow> x ! k = y ! k \<and> x ! (k + 1) = y ! (k + 1)"
  by (metis getLe16_def ucast_drop_word16_of ucast_word16_of)

lemma frameDecoded_envelope:
  assumes len: "length decoded = 138" and n: "unat (getLe16 decoded 6) \<le> 128"
    and crc: "crc16CcittFalse (Some decoded) (8 + unat (getLe16 decoded 6)) = getLe16 decoded (8 + unat (getLe16 decoded 6))"
    and pad: "\<And>j. 10 + unat (getLe16 decoded 6) \<le> j \<Longrightarrow> j < 138 \<Longrightarrow> decoded ! j = 0"
  shows "frameDecoded (decodedEnvelope decoded) = decoded"
proof -
  define f where "f = decodedEnvelope decoded"
  define m where "m = unat (getLe16 decoded 6)"
  have f: "frMajor f = decoded ! 0" "frMinor f = decoded ! 1" "messageType_code (frMessageType f) = decoded ! 2"
    "frFlags f = decoded ! 3" "frRequestId f = getLe16 decoded 4" "frPayloadLength f = getLe16 decoded 6"
    "\<And>i. i < m \<Longrightarrow> frPayload f ! i = decoded ! (8 + i)"
    using n len by (simp_all add: f_def m_def decodedEnvelope_def nth_copyBytes)
  have pl: "unat (frPayloadLength f) = m" "unat (frPayloadLength f) \<le> 128" using n by (simp_all add: f m_def)
  note header = header_reads[OF pl(2), unfolded pl(1)] and reads = decoded_reads[OF pl(2), unfolded pl(1)]
  have body: "frameHeader f ! k = decoded ! k" if k: "k < 8 + m" for k
  proof -
    consider "k \<in> {0, 1, 2, 3}" | "k \<in> {4, 5}" | "k \<in> {6, 7}" | i where "k = 8 + i" "i < m"
    proof (cases "k < 8")
      case True
      then have "k \<in> {0, 1, 2, 3} \<union> {4, 5} \<union> {6, 7}" by auto
      with that show ?thesis by blast
    next
      case False
      with that(4)[of "k - 8"] k show ?thesis by simp
    qed
    then show ?thesis
    proof cases
      case 1
      then show ?thesis using header f by auto
    next
      case 2
      then show ?thesis using getLe16_eqD[of "frameHeader f" 4 decoded] header(5) f(5) by auto
    next
      case 3
      then show ?thesis using getLe16_eqD[of "frameHeader f" 6 decoded] header(6) f(6) by auto
    next
      case (4 i)
      then show ?thesis using header(7)[of i] f(7)[of i] by simp
    qed
  qed
  have "take (8 + m) (frameDecoded f) = take (8 + m) decoded"
    using n len body by (intro nth_equalityI) (auto simp: reads m_def)
  then have "getLe16 (frameDecoded f) (8 + m) = getLe16 decoded (8 + m)"
    using reads(4) crc by (simp add: crc16CcittFalse_def m_def)
  note check = getLe16_eqD[OF this]
  have "frameDecoded f = decoded"
  proof (rule nth_equalityI)
    fix k assume "k < length (frameDecoded f)"
    then consider "k < 8 + m" | "k = 8 + m \<or> k = 8 + m + 1" | "10 + m \<le> k" "k < 138" by fastforce
    then show "frameDecoded f ! k = decoded ! k"
      using body reads check pad by cases (auto simp: m_def)
  qed (simp add: len)
  then show ?thesis by (simp add: f_def)
qed

text \<open>The bytes of a frame on the wire.\<close>

definition frameWire :: "frame \<Rightarrow> bytes" where
  "frameWire f = stuffed (take (MIN_DECODED_FRAME_SIZE + unat (frPayloadLength f)) (frameDecoded f)) @ [FRAME_DELIMITER]"

lemma length_frameWire:
  "unat (frPayloadLength f) \<le> 128 \<Longrightarrow> length (frameWire f) = 12 + unat (frPayloadLength f)"
  by (simp add: frameWire_def)

lemma frameWire_delimiter:
  "unat (frPayloadLength f) \<le> 128 \<Longrightarrow> 0 \<notin> set (butlast (frameWire f)) \<and> last (frameWire f) = 0"
  using stuffed_nonzero[of "take (10 + unat (frPayloadLength f)) (frameDecoded f)"] by (simp add: frameWire_def)

lemma encodeFrame_wire:
  assumes "sendableFrame f" "12 + unat (frPayloadLength f) \<le> cap" "cap \<le> length out"
  shows "encodeFrame f (Some out) cap
    = (ER_OK, 12 + unat (frPayloadLength f), Some (frameWire f @ drop (12 + unat (frPayloadLength f)) out))"
proof -
  define n where "n = unat (frPayloadLength f)"
  have n: "n \<le> 128" using assms by (simp add: sendableFrame_def n_def)
  have "cobsEncode (Some (frameDecoded f)) (10 + n) (Some out) (cap - 1)
    = (CR_OK, Suc (10 + n), Some (stuffed (take (10 + n) (frameDecoded f)) @ drop (Suc (10 + n)) out))"
    using assms n by (intro cobsEncode_stuffed) (auto simp: n_def)
  moreover have "(stuffed (take (10 + n) (frameDecoded f)) @ drop (Suc (10 + n)) out)[Suc (10 + n) := 0]
    = frameWire f @ drop (12 + n) out"
    using assms n Cons_nth_drop_Suc[of "11 + n" out, symmetric]
    by (simp add: frameWire_def n_def[symmetric] list_update_append)
  ultimately show ?thesis
    using assms n by (simp add: encodeFrame_def sendableFrame_def n_def[symmetric])
qed

lemma encodeFrame_refused:
  assumes "\<not> sendableFrame f \<or> cap < 12 + unat (frPayloadLength f)"
  shows "\<exists>r out'. r \<noteq> ER_OK \<and> encodeFrame f (Some out) cap = (r, 0, Some out')"
proof (cases "sendableFrame f \<and> cap \<noteq> 0")
  case True
  define n where "n = unat (frPayloadLength f)"
  have n: "n \<le> 128" using True by (simp add: sendableFrame_def n_def)
  have "\<exists>out'. cobsEncode (Some (frameDecoded f)) (10 + n) (Some out) (cap - 1) = (CR_OUTPUT_TOO_SMALL, 0, Some out')"
    using True assms n by (intro cobsEncode_small) (auto simp: n_def)
  then show ?thesis using True by (auto simp: encodeFrame_def sendableFrame_def n_def)
next
  case False
  then show ?thesis by (auto simp: encodeFrame_def sendableFrame_def)
qed

lemma cobsDecode_take: "n \<le> length c \<Longrightarrow> cobsDecode (Some c) n out cap = cobsDecode (Some (take n c)) (length (take n c)) out cap"
  by (simp add: cobsDecode_def)

lemma decoded_padding:
  assumes "unat (frPayloadLength f) \<le> 128"
  shows "take (10 + unat (frPayloadLength f)) (frameDecoded f) @ drop (10 + unat (frPayloadLength f)) (fillZero 138) = frameDecoded f"
  using assms decoded_reads(5)[OF assms] by (intro nth_equalityI) (auto simp: nth_append)

lemma decodeFrame_wire:
  assumes "sendableFrame f" "canonicalPayload f"
  shows "decodeFrame (Some (frameWire f @ rest)) (length (frameWire f)) old = (DR_OK, f)"
proof -
  define n where "n = unat (frPayloadLength f)"
  define bs where "bs = take (10 + n) (frameDecoded f)"
  have n: "n \<le> 128" using assms by (simp add: sendableFrame_def n_def)
  have wire: "frameWire f = stuffed bs @ [0]" "length (frameWire f) = 12 + n" "length bs = 10 + n"
    using n by (simp_all add: frameWire_def bs_def n_def[symmetric])
  have "cobsDecode (Some (stuffed bs)) (length (stuffed bs)) (Some (fillZero 138)) 138 = (CR_OK, length bs, Some (frameDecoded f))"
    using n wire(3) decoded_padding[of f] by (subst cobsDecode_iff) (auto simp: bs_def n_def)
  then have cobs: "cobsDecode (Some (frameWire f @ rest)) (11 + n) (Some (fillZero 138)) 138 = (CR_OK, 10 + n, Some (frameDecoded f))"
    using wire by (subst cobsDecode_take) simp_all
  have last: "(frameWire f @ rest) ! (11 + n) = 0" using wire by (simp add: nth_append)
  have pl: "unat (frPayloadLength f) \<le> 128" using n by (simp add: n_def)
  have reads: "getLe16 (frameDecoded f) 6 = frPayloadLength f"
    "getLe16 (frameDecoded f) (8 + n) = crc16CcittFalse (Some (frameDecoded f)) (8 + n)"
    using decoded_reads(2)[OF pl, of 6] decoded_reads(4)[OF pl] header_reads(6)[OF pl] by (simp_all add: n_def)
  have "frMinor f \<noteq> 0" using assms by (auto simp: sendableFrame_def isSupportedVersion_def)
  then show ?thesis
    using cobs last reads n assms
    by (simp add: decodeFrame_def wire(2) n_def[symmetric] envelope_frameDecoded sendableFrame_def isSupportedVersion_def not_less)
qed

lemma decodeFrame_sound:
  assumes "decodeFrame (Some bs) n old = (DR_OK, f)" "n \<le> length bs"
  shows "sendableFrame f" "canonicalPayload f" "take n bs = frameWire f"
proof -
  define c where "c = take (n - 1) bs"
  from assms have n: "n \<noteq> 0" "n \<le> 140" "n - 1 \<noteq> 0" and last: "bs ! (n - 1) = 0"
    by (auto simp: decodeFrame_def split: if_splits)
  have c: "length c = n - 1" using assms n by (simp add: c_def)
  have whole: "take n bs = c @ [0]"
    using n assms(2) last take_Suc_conv_app_nth[of "n - 1" bs] by (simp add: c_def)
  obtain r m out where cobs: "cobsDecode (Some bs) (n - 1) (Some (fillZero 138)) 138 = (r, m, out)"
    by (metis prod_cases3)
  from assms(1) n last cobs have "r = CR_OK"
    by (auto simp: decodeFrame_def split: if_splits)
  moreover from cobs obtain dec where "out = Some dec"
    by (auto simp: cobsDecode_def split: if_splits prod.splits)
  ultimately have "cobsDecode (Some c) (length c) (Some (fillZero 138)) 138 = (CR_OK, m, Some dec)"
    using cobs cobsDecode_take[of "n - 1" bs] assms(2) n by (simp add: c_def)
  then obtain ds where ds: "c = stuffed ds" "m = length ds" "m \<le> 138" "dec = ds @ drop m (fillZero 138)"
    using c n by (subst (asm) cobsDecode_iff) auto
  have len: "length dec = 138" using ds by simp
  define pl where "pl = unat (getLe16 dec 6)"
  from assms(1) n last cobs \<open>r = CR_OK\<close> \<open>out = Some dec\<close>
  have f: "f = decodedEnvelope dec" and pl: "pl \<le> 128" and m: "m = 10 + pl"
    and crc: "crc16CcittFalse (Some dec) (8 + pl) = getLe16 dec (8 + pl)"
    and ok: "frMajor f = 0" "\<not> frMinor f < 1" "\<not> frMinor f > 2" "isKnownMessageType (frMessageType f)"
      "hasSupportedFlags (frFlags f)" "isValidEnvelopeRequestId (frMessageType f) (frRequestId f)"
    by (auto simp: decodeFrame_def pl_def[symmetric] split: if_splits)
  have flen: "unat (frPayloadLength f) = pl" by (simp add: f decodedEnvelope_def pl_def)
  have "1 \<le> frMinor f" "frMinor f \<le> 2" using ok(2,3) by (simp_all only: not_less)
  then show "sendableFrame f"
    using ok pl by (simp add: sendableFrame_def flen isSupportedVersion_def)
  show "canonicalPayload f" unfolding f by (rule payload_canonical) (use pl len in \<open>simp_all add: pl_def\<close>)
  have pad: "dec ! j = 0" if "10 + pl \<le> j" "j < 138" for j
    using that ds(2-4) m by (simp add: nth_append)
  have "frameDecoded f = dec"
    unfolding f by (rule frameDecoded_envelope) (use len pl crc pad in \<open>simp_all add: pl_def\<close>)
  then have "frameWire f = c @ [0]"
    using ds m by (simp add: frameWire_def flen)
  then show "take n bs = frameWire f" using whole by simp
qed

subsection \<open>Properties\<close>

lemma sample_stuffed: "stuffed [0x11, 0, 0x22, 0x33] = [0x02, 0x11, 0x03, 0x22, 0x33]"
  by code_simp

text \<open>The encoder's single pass over the bytes, which leaves a hole for each code byte and fills it later, computes
  the specification of the stuffing: the pieces between the zero bytes, each behind its length plus one.  It succeeds
  exactly when the capacity exceeds the input length; otherwise it reports OUTPUT_TOO_SMALL and no length.  What it
  writes has no zero byte and is one byte longer than the input, and the buffer behind it is untouched.\<close>

theorem cobs_encode_reference:
  assumes "n \<le> MAX_DECODED_FRAME_SIZE" "n \<le> length bs" "cap \<le> length out"
  shows "if n < cap
     then cobsEncode (Some bs) n (Some out) cap = (CR_OK, n + 1, Some (stuffed (take n bs) @ drop (n + 1) out))
       \<and> 0 \<notin> set (stuffed (take n bs)) \<and> length (stuffed (take n bs)) = n + 1
     else \<exists>out'. cobsEncode (Some bs) n (Some out) cap = (CR_OUTPUT_TOO_SMALL, 0, Some out')"
  using cobsEncode_stuffed[OF assms(1,2) _ assms(3)] cobsEncode_small[OF assms(1,2)] stuffed_nonzero[of "take n bs"] assms
  by (simp add: not_less)

theorem cobs_encode_reference_witness:
  "cobsEncode (Some [0x11, 0, 0x22, 0x33]) 4 (Some (fillZero 6)) 5 = (CR_OK, 5, Some [0x02, 0x11, 0x03, 0x22, 0x33, 0])
   \<and> (\<exists>out. cobsEncode (Some [0x11, 0, 0x22, 0x33]) 4 (Some (fillZero 6)) 4 = (CR_OUTPUT_TOO_SMALL, 0, Some out))"
  using cobs_encode_reference[of 4 "[0x11, 0, 0x22, 0x33]" 5 "fillZero 6"]
    cobs_encode_reference[of 4 "[0x11, 0, 0x22, 0x33]" 4 "fillZero 6"]
  by (simp add: sample_stuffed fillZero_def del: One_nat_def)

text \<open>Decoding is the exact inverse of the stuffing.  A candidate of admissible length decodes to a byte string if
  and only if it is the stuffing of that string and the string fits into the output: everything else, whatever its
  bytes, is refused.\<close>

theorem cobs_decode_inverse:
  assumes "length c \<le> MAX_COBS_CANDIDATE_SIZE" "cap \<le> length out"
  shows "(\<exists>out'. cobsDecode (Some c) (length c) (Some out) cap = (CR_OK, length bs, Some out') \<and> take (length bs) out' = bs)
    \<longleftrightarrow> c = stuffed bs \<and> length bs \<le> cap"
proof
  assume "\<exists>out'. cobsDecode (Some c) (length c) (Some out) cap = (CR_OK, length bs, Some out') \<and> take (length bs) out' = bs"
  then show "c = stuffed bs \<and> length bs \<le> cap" using cobsDecode_iff[OF assms] by auto
next
  assume "c = stuffed bs \<and> length bs \<le> cap"
  then show "\<exists>out'. cobsDecode (Some c) (length c) (Some out) cap = (CR_OK, length bs, Some out') \<and> take (length bs) out' = bs"
    using cobsDecode_iff[OF assms, of "length bs"] by auto
qed

theorem cobs_decode_inverse_witness:
  "\<exists>out. cobsDecode (Some [0x02, 0x11, 0x03, 0x22, 0x33]) 5 (Some (fillZero 8)) 8 = (CR_OK, 4, Some out)
     \<and> take 4 out = [0x11, 0, 0x22, 0x33]"
  using cobs_decode_inverse[of "[0x02, 0x11, 0x03, 0x22, 0x33]" 8 "fillZero 8" "[0x11, 0, 0x22, 0x33]"]
  by (simp add: sample_stuffed numeral_eq_Suc)

definition sampleFrame :: frame where
  "sampleFrame = \<lparr>frMajor = 0, frMinor = 2, frMessageType = OPERATION_REQUEST, frFlags = 0, frRequestId = 0x0100,
     frPayloadLength = 3, frPayload = [0x01, 0, 0x20] @ replicate 125 0\<rparr>"

lemma sampleFrame_sendable: "sendableFrame sampleFrame" "canonicalPayload sampleFrame"
  by (simp_all add: sendableFrame_def canonicalPayload_def sampleFrame_def isSupportedVersion_def hasSupportedFlags_def
    isValidEnvelopeRequestId_def isValidRequestId_def list_all_iff)

text \<open>C29. Frames survive the wire.  A frame that the vocabulary allows is encoded into at most 140 bytes, of which
  exactly the last one is the delimiter, whenever the buffer has room for it; from these bytes, whatever follows them
  in the buffer, the decoder returns the same frame.\<close>

theorem frame_roundtrip:
  assumes "sendableFrame f" "canonicalPayload f" "12 + unat (frPayloadLength f) \<le> cap" "cap \<le> length out"
  shows "\<exists>n out'. encodeFrame f (Some out) cap = (ER_OK, n, Some out') \<and> n \<le> MAX_ENCODED_FRAME_SIZE
    \<and> (\<forall>i < n. out' ! i = FRAME_DELIMITER \<longleftrightarrow> i = n - 1) \<and> decodeFrame (Some out') n old = (DR_OK, f)"
proof -
  define n where "n = length (frameWire f)"
  have pl: "unat (frPayloadLength f) \<le> 128" using assms by (simp add: sendableFrame_def)
  note len = length_frameWire[OF pl] and delim = frameWire_delimiter[OF pl]
  have "\<forall>i < n. (frameWire f @ drop n out) ! i = 0 \<longleftrightarrow> i = n - 1"
  proof (intro allI impI)
    fix i assume i: "i < n"
    show "(frameWire f @ drop n out) ! i = 0 \<longleftrightarrow> i = n - 1"
    proof (cases "i = n - 1")
      case True
      then show ?thesis using delim i by (metis last_conv_nth length_0_conv n_def not_less0 nth_append)
    next
      case False
      then have "butlast (frameWire f) ! i \<in> set (butlast (frameWire f))" using i by (simp add: n_def)
      then show ?thesis using delim i False by (auto simp: n_def nth_append nth_butlast)
    qed
  qed
  then show ?thesis
    using encodeFrame_wire[OF assms(1,3,4)] decodeFrame_wire[OF assms(1,2)] len pl
    by (intro exI[of _ n] exI[of _ "frameWire f @ drop n out"]) (simp add: n_def)
qed

theorem frame_roundtrip_witness:
  "\<exists>n out. encodeFrame sampleFrame (Some (fillZero 140)) 140 = (ER_OK, n, Some out)
     \<and> decodeFrame (Some out) n frame_init = (DR_OK, sampleFrame)"
  using frame_roundtrip[OF sampleFrame_sendable, of 140 "fillZero 140" frame_init] by (auto simp: sampleFrame_def)

text \<open>C28. The wire has one spelling.  Bytes that the decoder accepts are exactly what the encoder writes for the frame it
  returns: the frame is allowed by the vocabulary, its payload array is zero behind the payload, and encoding it gives
  the same bytes back.  So no two different candidates stand for the same frame.\<close>

theorem frame_decode_canonical:
  assumes "decodeFrame (Some bs) n old = (DR_OK, f)" "n \<le> length bs" "length out = MAX_ENCODED_FRAME_SIZE"
  shows "sendableFrame f \<and> canonicalPayload f
    \<and> encodeFrame f (Some out) MAX_ENCODED_FRAME_SIZE = (ER_OK, n, Some (take n bs @ drop n out))"
proof -
  note sound = decodeFrame_sound[OF assms(1,2)]
  then have pl: "unat (frPayloadLength f) \<le> 128" by (simp add: sendableFrame_def)
  have "12 + unat (frPayloadLength f) = n"
    using length_frameWire[OF pl] arg_cong[OF sound(3), of length] assms(2) by simp
  with encodeFrame_wire[OF sound(1), of 140 out] sound pl assms(3) show ?thesis by simp
qed

theorem frame_decode_canonical_witness:
  "encodeFrame sampleFrame (Some (fillZero 140)) 140
     = (ER_OK, 15, Some (frameWire sampleFrame @ fillZero 125))"
proof -
  have l: "length (frameWire sampleFrame) = 15" by (subst length_frameWire) (simp_all add: sampleFrame_def)
  then have "decodeFrame (Some (frameWire sampleFrame)) 15 frame_init = (DR_OK, sampleFrame)"
    using decodeFrame_wire[OF sampleFrame_sendable, of "[]" frame_init] by simp
  from frame_decode_canonical[OF this, of "fillZero 140"] l show ?thesis by (simp add: fillZero_def)
qed

end
