(* ===== verification/HostTransport.thy ===== *)
theory HostTransport
  imports HostFraming
begin

text \<open>
  The receiving parser (\<^verbatim>\<open>lib/host_protocol/src/host_protocol_stream.h\<close>) and the serial transport on top of it
  (\<^verbatim>\<open>lib/host_transport/src/host_transport.h\<close>).  The template parameter \<^verbatim>\<open>ByteStream\<close> is a parameter of the
  model: four operations on a device state.  The fields that the transport reports only under
  \<^verbatim>\<open>ARGUS_STRUCTURED_TRACE\<close> are left out.
\<close>

subsection \<open>The stream parser\<close>

datatype streamEvent = SE_NONE | FRAME_READY | FRAME_REJECTED | OVERSIZED_CANDIDATE | SE_INVALID_ARGUMENT

record streamResult =
  srConsumed :: nat
  srEvent :: streamEvent
  srDecodeResult :: decodeResult
  srFrame :: frame

record streamParser =
  spCandidate :: bytes
  spCandidateLength :: nat
  spDiscardingOversize :: bool

text \<open>The candidate array is not initialised by the constructor: any \<open>MAX_COBS_CANDIDATE_SIZE\<close> bytes.\<close>

definition streamParser_new :: "bytes \<Rightarrow> streamParser" where
  "streamParser_new storage = \<lparr>spCandidate = storage, spCandidateLength = 0, spDiscardingOversize = False\<rparr>"

definition sp_reset :: "streamParser \<Rightarrow> streamParser" where
  "sp_reset p = p\<lparr>spCandidateLength := 0, spDiscardingOversize := False\<rparr>"

definition completeFrame :: "streamParser \<Rightarrow> bytes" where
  "completeFrame p = (copyBytes (fillZero MAX_ENCODED_FRAME_SIZE) 0 (spCandidate p) (spCandidateLength p))
     [spCandidateLength p := FRAME_DELIMITER]"

text \<open>The loop of \<^verbatim>\<open>consume\<close> on what is left of the input.\<close>

fun consumeLoop :: "bytes \<Rightarrow> streamResult \<Rightarrow> streamParser \<Rightarrow> streamResult \<times> streamParser" where
  "consumeLoop [] result p = (result, p)"
| "consumeLoop (value # input) result p =
     (let result = result\<lparr>srConsumed := srConsumed result + 1\<rparr> in
      if spDiscardingOversize p then
        if value = FRAME_DELIMITER
          then (result\<lparr>srEvent := OVERSIZED_CANDIDATE, srDecodeResult := DR_ENCODED_FRAME_TOO_LARGE\<rparr>, sp_reset p)
        else consumeLoop input result p
      else if value \<noteq> FRAME_DELIMITER then
        if spCandidateLength p < MAX_COBS_CANDIDATE_SIZE
          then consumeLoop input result (p\<lparr>spCandidate := (spCandidate p)[spCandidateLength p := value],
                 spCandidateLength := spCandidateLength p + 1\<rparr>)
        else consumeLoop input result (p\<lparr>spCandidateLength := 0, spDiscardingOversize := True\<rparr>)
      else if spCandidateLength p = 0 then consumeLoop input result p
      else case decodeFrame (Some (completeFrame p)) (spCandidateLength p + 1) (srFrame result) of (d, f) \<Rightarrow>
        (result\<lparr>srDecodeResult := d, srFrame := f, srEvent := (if d = DR_OK then FRAME_READY else FRAME_REJECTED)\<rparr>,
         sp_reset p))"

definition streamResult_init :: streamResult where
  "streamResult_init = \<lparr>srConsumed = 0, srEvent = SE_NONE, srDecodeResult = DR_OK, srFrame = frame_init\<rparr>"

definition sp_consume :: "bytes option \<Rightarrow> nat \<Rightarrow> streamParser \<Rightarrow> streamResult \<times> streamParser" where
  "sp_consume input inputLength p =
     (if input = None \<and> inputLength \<noteq> 0
        then (streamResult_init\<lparr>srEvent := SE_INVALID_ARGUMENT, srDecodeResult := DR_NULL_ARGUMENT\<rparr>, p)
      else consumeLoop (case input of None \<Rightarrow> [] | Some bs \<Rightarrow> take inputLength bs) streamResult_init p)"

subsection \<open>The transport\<close>

datatype rxStatus = RX_NO_ACTIVITY | RX_PROGRESS | RX_PARSER_EVENT | RX_INPUT_ERROR
datatype submitStatus = SUBMIT_OK | SUBMIT_BUSY | SUBMIT_INVALID_ARGUMENT | SUBMIT_INVALID_FRAME
datatype txStatus = TX_IDLE | TX_BLOCKED | TX_PROGRESS | TX_COMPLETE | TX_OUTPUT_ERROR

record rxResult =
  rxStatus :: rxStatus
  rxBytesRead :: nat
  rxParserResult :: streamResult

record txResult =
  txStatus :: txStatus
  txBytesWritten :: nat
  txRemaining :: nat

record 's byteStream =
  bsAvailable :: "'s \<Rightarrow> int \<times> 's"
  bsRead :: "'s \<Rightarrow> int \<times> 's"
  bsAvailableForWrite :: "'s \<Rightarrow> int \<times> 's"
  bsWrite :: "bytes \<Rightarrow> 's \<Rightarrow> nat \<times> 's"

record adapter =
  adParser :: streamParser
  adPending :: bytes
  adPendingLength :: nat
  adPendingOffset :: nat

definition adapter_new :: "bytes \<Rightarrow> bytes \<Rightarrow> adapter" where
  "adapter_new candidateStorage pendingStorage = \<lparr>adParser = streamParser_new candidateStorage,
     adPending = pendingStorage, adPendingLength = 0, adPendingOffset = 0\<rparr>"

definition remainingTx :: "adapter \<Rightarrow> nat" where
  "remainingTx a = (if adPendingLength a = 0 then 0 else adPendingLength a - adPendingOffset a)"

definition hasPendingTx :: "adapter \<Rightarrow> bool" where
  "hasPendingTx a = (adPendingLength a \<noteq> 0)"

text \<open>The exit of the receive loop when the budget is spent or nothing is available.\<close>

definition rxIdle :: "rxResult \<Rightarrow> rxResult" where
  "rxIdle result = (if rxBytesRead result \<noteq> 0 then result\<lparr>rxStatus := RX_PROGRESS\<rparr> else result)"

text \<open>The first argument of the loop is \<^verbatim>\<open>budget - bytesRead\<close>.\<close>

primrec serviceRxLoop :: "nat \<Rightarrow> 's byteStream \<Rightarrow> rxResult \<Rightarrow> adapter \<Rightarrow> 's \<Rightarrow> rxResult \<times> adapter \<times> 's" where
  "serviceRxLoop 0 stream result a s = (rxIdle result, a, s)"
| "serviceRxLoop (Suc left) stream result a s =
     (case bsAvailable stream s of (available, s) \<Rightarrow>
      if available \<le> 0 then (rxIdle result, a, s)
      else case bsRead stream s of (value, s) \<Rightarrow>
      if value < 0 then (result\<lparr>rxStatus := RX_INPUT_ERROR\<rparr>, a, s)
      else case sp_consume (Some [of_int value]) 1 (adParser a) of (parserResult, p) \<Rightarrow>
        let result = result\<lparr>rxParserResult := parserResult, rxBytesRead := rxBytesRead result + 1\<rparr>;
            a = a\<lparr>adParser := p\<rparr> in
        if srEvent parserResult \<noteq> SE_NONE then (result\<lparr>rxStatus := RX_PARSER_EVENT\<rparr>, a, s)
        else serviceRxLoop left stream result a s)"

definition serviceRx :: "nat \<Rightarrow> 's byteStream \<Rightarrow> adapter \<Rightarrow> 's \<Rightarrow> rxResult \<times> adapter \<times> 's" where
  "serviceRx budget stream a s = serviceRxLoop budget stream
     \<lparr>rxStatus = RX_NO_ACTIVITY, rxBytesRead = 0, rxParserResult = streamResult_init\<rparr> a s"

definition submit :: "bytes option \<Rightarrow> nat \<Rightarrow> adapter \<Rightarrow> submitStatus \<times> adapter" where
  "submit input frameLength a =
     (if adPendingLength a \<noteq> 0 then (SUBMIT_BUSY, a)
      else if input = None \<or> frameLength = 0 \<or> frameLength > MAX_ENCODED_FRAME_SIZE then (SUBMIT_INVALID_ARGUMENT, a)
      else if fst (decodeFrame input frameLength frame_init) \<noteq> DR_OK then (SUBMIT_INVALID_FRAME, a)
      else (SUBMIT_OK, a\<lparr>adPending := copyBytes (adPending a) 0 (the input) frameLength,
              adPendingLength := frameLength, adPendingOffset := 0\<rparr>))"

definition serviceTx :: "nat \<Rightarrow> 's byteStream \<Rightarrow> adapter \<Rightarrow> 's \<Rightarrow> txResult \<times> adapter \<times> 's" where
  "serviceTx budget stream a s =
     (let result = \<lparr>txStatus = TX_IDLE, txBytesWritten = 0, txRemaining = remainingTx a\<rparr> in
      if adPendingLength a = 0 then (result, a, s)
      else if budget = 0 then (result\<lparr>txStatus := TX_BLOCKED\<rparr>, a, s)
      else case bsAvailableForWrite stream s of (writable, s) \<Rightarrow>
      if writable \<le> 0 then (result\<lparr>txStatus := TX_BLOCKED\<rparr>, a, s)
      else let attempt = min (min (nat writable) budget) (txRemaining result) in
      case bsWrite stream (slice (adPendingOffset a) attempt (adPending a)) s of (written, s) \<Rightarrow>
      if written > attempt then (result\<lparr>txStatus := TX_OUTPUT_ERROR\<rparr>, a, s)
      else if written = 0 then (result\<lparr>txStatus := TX_BLOCKED\<rparr>, a, s)
      else let a = a\<lparr>adPendingOffset := adPendingOffset a + written\<rparr>;
               result = result\<lparr>txBytesWritten := written, txRemaining := remainingTx a\<rparr> in
        if adPendingOffset a = adPendingLength a
          then (result\<lparr>txStatus := TX_COMPLETE\<rparr>, a\<lparr>adPendingLength := 0, adPendingOffset := 0\<rparr>, s)
        else (result\<lparr>txStatus := TX_PROGRESS\<rparr>, a, s))"

definition ad_reset :: "adapter \<Rightarrow> adapter" where
  "ad_reset a = a\<lparr>adParser := sp_reset (adParser a), adPendingLength := 0, adPendingOffset := 0\<rparr>"

end
