(* ===== verification/HostMessages.thy ===== *)
theory HostMessages
  imports HostProtocol EventProtocol RuntimeState
begin

text \<open>
  The message bodies of the host protocol (\<^verbatim>\<open>lib/host_protocol/src/host_protocol_messages.h\<close>): hello, operation
  requests and responses with their typed values, protocol errors, and the structured records that travel as values.

  An encoder into a buffer gives the status, the output length and the buffer afterwards; the other encoders and all decoders assign their result only on success, so they are a sum with
  the failure on the left.  \<^verbatim>\<open>int16_t startResult\<close> is kept as its 16 bits, so that the two casts around the
  byte pair are the identity.
\<close>

subsection \<open>Codes of the enumerations\<close>

fun operationCategory_code :: "operationCategory \<Rightarrow> u8" where
  "operationCategory_code CAT_DEVICE = 0x01"
| "operationCategory_code CAT_CAPABILITY = 0x02"
| "operationCategory_code CAT_PROCEDURE = 0x03"
| "operationCategory_code CAT_DIAGNOSTIC = 0x04"
| "operationCategory_code CAT_EVENT = 0x05"
| "operationCategory_code (OperationCategory_raw b) = b"

definition operationCategory_of :: "u8 \<Rightarrow> operationCategory" where
  "operationCategory_of b = (if b = 0x01 then CAT_DEVICE else if b = 0x02 then CAT_CAPABILITY
     else if b = 0x03 then CAT_PROCEDURE else if b = 0x04 then CAT_DIAGNOSTIC else if b = 0x05 then CAT_EVENT
     else OperationCategory_raw b)"

fun operationCode_code :: "operationCode \<Rightarrow> u8" where
  "operationCode_code operationCode.PING = 0x20"
| "operationCode_code operationCode.GET_DEVICE_INFO = 0x21"
| "operationCode_code operationCode.GET_STATUS = 0x22"
| "operationCode_code operationCode.GET_CAPABILITIES = 0x23"
| "operationCode_code operationCode.DESCRIBE_CAPABILITY = 0x24"
| "operationCode_code operationCode.READ_CAPABILITY = 0x25"
| "operationCode_code operationCode.SET_INDICATOR = 0x26"
| "operationCode_code operationCode.RUN_PROCEDURE = 0x27"
| "operationCode_code operationCode.GET_DIAGNOSTICS = 0x28"
| "operationCode_code POLL_EVENTS = 0x29"
| "operationCode_code CONSUME_EVENT = 0x2A"
| "operationCode_code GET_EVENT_DIAGNOSTICS = 0x2B"
| "operationCode_code (OperationCode_raw b) = b"

definition operationCode_of :: "u8 \<Rightarrow> operationCode" where
  "operationCode_of b = (if b = 0x20 then operationCode.PING else if b = 0x21 then operationCode.GET_DEVICE_INFO
     else if b = 0x22 then operationCode.GET_STATUS else if b = 0x23 then operationCode.GET_CAPABILITIES
     else if b = 0x24 then operationCode.DESCRIBE_CAPABILITY else if b = 0x25 then operationCode.READ_CAPABILITY
     else if b = 0x26 then operationCode.SET_INDICATOR else if b = 0x27 then operationCode.RUN_PROCEDURE
     else if b = 0x28 then operationCode.GET_DIAGNOSTICS else if b = 0x29 then POLL_EVENTS else if b = 0x2A then CONSUME_EVENT
     else if b = 0x2B then GET_EVENT_DIAGNOSTICS else OperationCode_raw b)"

fun resultClass_code :: "resultClass \<Rightarrow> u8" where
  "resultClass_code RC_SUCCESS = 0x00"
| "resultClass_code RC_REQUEST_REJECTED = 0x01"
| "resultClass_code RC_OPERATION_RESULT = 0x02"
| "resultClass_code RC_RADIO_RESULT = 0x03"
| "resultClass_code RC_LOCAL_RUNTIME_RESULT = 0x04"
| "resultClass_code RC_EVENT_RESULT = 0x05"
| "resultClass_code (ResultClass_raw b) = b"

definition resultClass_of :: "u8 \<Rightarrow> resultClass" where
  "resultClass_of b = (if b = 0x00 then RC_SUCCESS else if b = 0x01 then RC_REQUEST_REJECTED
     else if b = 0x02 then RC_OPERATION_RESULT else if b = 0x03 then RC_RADIO_RESULT
     else if b = 0x04 then RC_LOCAL_RUNTIME_RESULT else if b = 0x05 then RC_EVENT_RESULT else ResultClass_raw b)"

fun protocolErrorCode_code :: "protocolErrorCode \<Rightarrow> u8" where
  "protocolErrorCode_code PE_UNSUPPORTED_MAJOR = 0x01"
| "protocolErrorCode_code PE_UNSUPPORTED_MINOR = 0x02"
| "protocolErrorCode_code PE_UNSUPPORTED_MESSAGE_TYPE = 0x03"
| "protocolErrorCode_code PE_UNSUPPORTED_FLAGS = 0x04"
| "protocolErrorCode_code PE_MALFORMED_PAYLOAD = 0x05"
| "protocolErrorCode_code PE_INVALID_REQUEST_ID = 0x06"
| "protocolErrorCode_code (ProtocolErrorCode_raw b) = b"

definition protocolErrorCode_of :: "u8 \<Rightarrow> protocolErrorCode" where
  "protocolErrorCode_of b = (if b = 0x01 then PE_UNSUPPORTED_MAJOR else if b = 0x02 then PE_UNSUPPORTED_MINOR
     else if b = 0x03 then PE_UNSUPPORTED_MESSAGE_TYPE else if b = 0x04 then PE_UNSUPPORTED_FLAGS
     else if b = 0x05 then PE_MALFORMED_PAYLOAD else if b = 0x06 then PE_INVALID_REQUEST_ID else ProtocolErrorCode_raw b)"

datatype hardwareProfile = HELTEC_V4 | HardwareProfile_raw u8
datatype hostRole = HR_HUB | HR_NODE | HostRole_raw u8

fun hardwareProfile_code :: "hardwareProfile \<Rightarrow> u8" where
  "hardwareProfile_code HELTEC_V4 = 0x01"
| "hardwareProfile_code (HardwareProfile_raw b) = b"

definition hardwareProfile_of :: "u8 \<Rightarrow> hardwareProfile" where
  "hardwareProfile_of b = (if b = 0x01 then HELTEC_V4 else HardwareProfile_raw b)"

fun hostRole_code :: "hostRole \<Rightarrow> u8" where
  "hostRole_code HR_HUB = 0x01"
| "hostRole_code HR_NODE = 0x02"
| "hostRole_code (HostRole_raw b) = b"

definition hostRole_of :: "u8 \<Rightarrow> hostRole" where
  "hostRole_of b = (if b = 0x01 then HR_HUB else if b = 0x02 then HR_NODE else HostRole_raw b)"

fun capabilityClass_code :: "capabilityClass \<Rightarrow> u8" where
  "capabilityClass_code CC_INVALID = 0x00"
| "capabilityClass_code DIGITAL_INPUT = 0x01"
| "capabilityClass_code ANALOG_INPUT = 0x02"
| "capabilityClass_code SENSOR = 0x03"
| "capabilityClass_code INDICATOR_OUTPUT = 0x04"
| "capabilityClass_code SIGNAL_OUTPUT = 0x05"
| "capabilityClass_code RELAY_OUTPUT = 0x06"
| "capabilityClass_code POWER_MONITOR = 0x07"
| "capabilityClass_code LOCATION_PROVIDER = 0x08"
| "capabilityClass_code LOCAL_STORAGE = 0x09"
| "capabilityClass_code LOCAL_PROCEDURE = 0x0A"
| "capabilityClass_code (CapabilityClass_raw b) = b"

definition capabilityClass_of :: "u8 \<Rightarrow> capabilityClass" where
  "capabilityClass_of b = (if b = 0x00 then CC_INVALID else if b = 0x01 then DIGITAL_INPUT else if b = 0x02 then ANALOG_INPUT
     else if b = 0x03 then SENSOR else if b = 0x04 then INDICATOR_OUTPUT else if b = 0x05 then SIGNAL_OUTPUT
     else if b = 0x06 then RELAY_OUTPUT else if b = 0x07 then POWER_MONITOR else if b = 0x08 then LOCATION_PROVIDER
     else if b = 0x09 then LOCAL_STORAGE else if b = 0x0A then LOCAL_PROCEDURE else CapabilityClass_raw b)"

definition isKnownHardwareProfile :: "hardwareProfile \<Rightarrow> bool" where
  "isKnownHardwareProfile p = (p = HELTEC_V4)"

definition isKnownDeviceRole :: "hostRole \<Rightarrow> bool" where
  "isKnownDeviceRole r = (r = HR_HUB \<or> r = HR_NODE)"

subsection \<open>Sizes and records\<close>

definition OPERATION_REQUEST_FIXED_SIZE :: nat where [simp]: "OPERATION_REQUEST_FIXED_SIZE = 7"
definition OPERATION_RESPONSE_FIXED_SIZE :: nat where [simp]: "OPERATION_RESPONSE_FIXED_SIZE = 9"
definition HOST_MAX_REQUEST_VALUE_SIZE :: nat where [simp]: "HOST_MAX_REQUEST_VALUE_SIZE = 121"
definition HOST_MAX_RESPONSE_VALUE_SIZE :: nat where [simp]: "HOST_MAX_RESPONSE_VALUE_SIZE = 119"
definition DEVICE_INFO_SIZE :: u8 where [simp]: "DEVICE_INFO_SIZE = 8"
definition STATUS_SIZE :: u8 where [simp]: "STATUS_SIZE = 10"
definition CAPABILITY_DESCRIPTION_SIZE :: u8 where [simp]: "CAPABILITY_DESCRIPTION_SIZE = 6"
definition MAX_CAPABILITY_PAGE_ENTRIES :: u8 where [simp]: "MAX_CAPABILITY_PAGE_ENTRIES = 9"
definition MAX_DIAGNOSTIC_PAGE_ENTRIES :: u8 where [simp]: "MAX_DIAGNOSTIC_PAGE_ENTRIES = 3"
definition HOST_EVENT_IDENTITY_SIZE :: u8 where [simp]: "HOST_EVENT_IDENTITY_SIZE = 9"
definition HOST_EVENT_RECORD_SIZE :: u8 where [simp]: "HOST_EVENT_RECORD_SIZE = 29"
definition EVENT_DIAGNOSTIC_COUNTER_COUNT :: nat where [simp]: "EVENT_DIAGNOSTIC_COUNTER_COUNT = 15"
definition EVENT_DIAGNOSTICS_RECORD_SIZE :: u8 where [simp]: "EVENT_DIAGNOSTICS_RECORD_SIZE = 111"
definition EVENT_DIAGNOSTICS_SCHEMA :: u8 where [simp]: "EVENT_DIAGNOSTICS_SCHEMA = 1"
definition EVENT_TX_DIAGNOSTICS_SCHEMA :: u8 where [simp]: "EVENT_TX_DIAGNOSTICS_SCHEMA = 2"
definition EVENT_TX_DIAGNOSTICS_SIZE :: u8 where [simp]: "EVENT_TX_DIAGNOSTICS_SIZE = 99"
definition EVENT_DIAGNOSTICS_LIFETIME_AVAILABLE :: u8 where [simp]: "EVENT_DIAGNOSTICS_LIFETIME_AVAILABLE = 0x04"
definition EVENT_DIAGNOSTICS_ORDINAL_AVAILABLE :: u8 where [simp]: "EVENT_DIAGNOSTICS_ORDINAL_AVAILABLE = 0x08"
definition EVENT_DIAGNOSTICS_KNOWN_FLAGS :: u8 where [simp]: "EVENT_DIAGNOSTICS_KNOWN_FLAGS = 0x3F"
definition RESERVED_STATUS_FLAGS :: u16 where [simp]: "RESERVED_STATUS_FLAGS = 0xFFE0"
definition HELLO_REQUEST_PAYLOAD_SIZE :: nat where [simp]: "HELLO_REQUEST_PAYLOAD_SIZE = 2"
definition HELLO_RESPONSE_PAYLOAD_SIZE :: nat where [simp]: "HELLO_RESPONSE_PAYLOAD_SIZE = 16"
definition PROTOCOL_ERROR_PAYLOAD_SIZE :: nat where [simp]: "PROTOCOL_ERROR_PAYLOAD_SIZE = 4"
definition MAX_OUTSTANDING_OPERATIONS :: u8 where [simp]: "MAX_OUTSTANDING_OPERATIONS = 1"
definition HELLO_RESERVED_VALUE :: u8 where [simp]: "HELLO_RESERVED_VALUE = 0"

datatype payloadResult = PR_OK | PR_NULL_ARGUMENT | PR_OUTPUT_TOO_SMALL | PR_INVALID_LENGTH | PR_INVALID_FIELD
  | PR_UNKNOWN_CATEGORY | PR_UNKNOWN_OPERATION | PR_UNSUPPORTED_CATEGORY_OPERATION | PR_INVALID_TARGET
  | PR_INVALID_VALUE_TYPE | PR_INVALID_VALUE_LENGTH | PR_INVALID_VALUE | PR_INVALID_RESULT_CLASS | PR_INVALID_RESULT_CODE
  | PR_INVALID_RESPONSE_VALUE

datatype operationClassification = OC_VALID | OC_MALFORMED | OC_UNSUPPORTED

record helloRequest =
  hqMinimumMinor :: u8
  hqMaximumMinor :: u8

record helloResponse =
  hsSelectedMinor :: u8
  hsFirmwareMajor :: u8
  hsFirmwareMinor :: u8
  hsFirmwarePatch :: u8
  hsWireProtocol :: u8
  hsConfigurationSchema :: u8
  hsHardwareProfile :: hardwareProfile
  hsRole :: hostRole
  hsDeviceId :: u8
  hsMaximumHostPayload :: u8
  hsOperationCategoryBitmap :: u16
  hsFeatureBitmap :: u16
  hsMaximumOutstandingOperations :: u8
  hsReserved :: u8

record typedValue =
  tvType :: u8
  tvLength :: u8
  tvBytes :: bytes

text \<open>The value of \<^verbatim>\<open>TypedValue v = {}\<close>.\<close>

definition typedValue_init :: typedValue where
  "typedValue_init = \<lparr>tvType = 0, tvLength = 0, tvBytes = fillZero HOST_MAX_REQUEST_VALUE_SIZE\<rparr>"

record operationRequest =
  oqCategory :: operationCategory
  oqOperation :: operationCode
  oqTargetDeviceId :: u8
  oqTargetId :: u16
  oqValue :: typedValue

record operationResponse =
  opCategory :: operationCategory
  opOperation :: operationCode
  opTargetDeviceId :: u8
  opTargetId :: u16
  opResultClass :: resultClass
  opResultCode :: u8
  opValue :: typedValue

record protocolError =
  peErrorCode :: protocolErrorCode
  peOffendingType :: u8
  peDetail :: u16

record hostEventIdentity =
  hiSourceDeviceId :: u8
  hiEventEpoch :: u32
  hiEventId :: u32

record hostEventRecord =
  heAvailable :: u8
  heSourceDeviceId :: u8
  heFamily :: u8
  heFlags :: u8
  heEventEpoch :: u32
  heEventId :: u32
  heLifetimeBudgetSeconds :: u32
  heBodyLength :: u8
  heBody :: bytes

record eventDiagnosticsRecord =
  edSchema :: u8
  edRole :: hostRole
  edCustodyCount :: u8
  edCapacity :: u8
  edActiveCount :: u8
  edConsumedCount :: u8
  edRecordAvailable :: u8
  edState :: u8
  edIdentity :: hostEventIdentity
  edFamily :: u8
  edAttemptsUsed :: u8
  edAttemptsMaximum :: u8
  edFlags :: u8
  edRemainingLifetimeSeconds :: u32
  edAdmissionOrdinal :: u32
  edRecentAdmissionAvailable :: u8
  edRecentAdmission :: hostEventIdentity
  edProducerKind :: u8
  edProducerResult :: u8
  edProducerIdentityAvailable :: u8
  edProducerIdentity :: hostEventIdentity
  edCounters :: "u32 list"

record deviceInfoRecord =
  diFirmwareMajor :: u8
  diFirmwareMinor :: u8
  diFirmwarePatch :: u8
  diWireProtocol :: u8
  diConfigurationSchema :: u8
  diHardwareProfile :: hardwareProfile
  diRole :: hostRole
  diDeviceId :: u8

record statusRecord =
  srStatusFlags :: u16
  srUptimeSeconds :: u32
  srRetryCount :: u16
  srTimeoutCount :: u16

record capabilityPageRecord =
  cpNextCursor :: u16
  cpCount :: u8
  cpCapabilityIds :: "u16 list"

record capabilityDescriptionRecord =
  cnCapabilityClass :: capabilityClass
  cnValueType :: valueType
  cnOperationFlags :: u8
  cnUnit :: u8
  cnAvailability :: u8
  cnReserved :: u8

record diagnosticEntry =
  deMetricId :: u8
  deValue :: u32

record diagnosticPageRecord =
  dpNextCursor :: u8
  dpCount :: u8
  dpEntries :: "diagnosticEntry list"

text \<open>The result of an encoder into a buffer.\<close>

type_synonym encoded = "payloadResult \<times> nat \<times> bytes option"

subsection \<open>Event records\<close>

definition isValidHostEventIdentity :: "hostEventIdentity \<Rightarrow> bool" where
  "isValidHostEventIdentity i = (hiSourceDeviceId i \<noteq> 0 \<and> hiEventEpoch i \<noteq> 0 \<and> hiEventId i \<noteq> 0)"

definition encodeHostEventIdentity :: "hostEventIdentity \<Rightarrow> bytes option \<Rightarrow> nat \<Rightarrow> encoded" where
  "encodeHostEventIdentity i output outputCapacity = (case output of None \<Rightarrow> (PR_NULL_ARGUMENT, 0, None) | Some out \<Rightarrow>
     if \<not> isValidHostEventIdentity i then (PR_INVALID_VALUE, 0, output)
     else if outputCapacity < unat HOST_EVENT_IDENTITY_SIZE then (PR_OUTPUT_TOO_SMALL, 0, output)
     else (PR_OK, unat HOST_EVENT_IDENTITY_SIZE,
       Some (putLe32 (putLe32 (out[0 := hiSourceDeviceId i]) 1 (hiEventEpoch i)) 5 (hiEventId i))))"

definition decodeHostEventIdentity :: "bytes option \<Rightarrow> nat \<Rightarrow> payloadResult + hostEventIdentity" where
  "decodeHostEventIdentity input inputLength = (case input of None \<Rightarrow> Inl PR_NULL_ARGUMENT | Some bs \<Rightarrow>
     if inputLength \<noteq> unat HOST_EVENT_IDENTITY_SIZE then Inl PR_INVALID_LENGTH
     else let candidate = \<lparr>hiSourceDeviceId = bs ! 0, hiEventEpoch = getLe32 bs 1, hiEventId = getLe32 bs 5\<rparr> in
       if \<not> isValidHostEventIdentity candidate then Inl PR_INVALID_VALUE else Inr candidate)"

definition isValidHostEventRecord :: "hostEventRecord \<Rightarrow> bool" where
  "isValidHostEventRecord r =
     (if heAvailable r = 0 then
        \<not> (heSourceDeviceId r \<noteq> 0 \<or> heFamily r \<noteq> 0 \<or> heFlags r \<noteq> 0 \<or> heEventEpoch r \<noteq> 0 \<or> heEventId r \<noteq> 0
           \<or> heLifetimeBudgetSeconds r \<noteq> 0 \<or> heBodyLength r \<noteq> 0)
        \<and> (\<forall>k\<in>{0..<MAX_BODY_SIZE}. heBody r ! k = 0)
      else if heAvailable r \<noteq> 1 \<or> heSourceDeviceId r = 0 \<or> heEventEpoch r = 0 \<or> heEventId r = 0
           \<or> heFlags r AND NOT ALLOWED_FLAGS \<noteq> 0
           \<or> heLifetimeBudgetSeconds r < MIN_LIFETIME_SECONDS \<or> heLifetimeBudgetSeconds r > MAX_LIFETIME_SECONDS
           \<or> unat (heBodyLength r) > MAX_BODY_SIZE \<or> \<not> isRegisteredFamily (heFamily r)
           \<or> \<not> isValidFamilyBody (heFamily r) (Some (heBody r)) (heBodyLength r) then False
      else (\<forall>k\<in>{unat (heBodyLength r)..<MAX_BODY_SIZE}. heBody r ! k = 0))"

definition encodeHostEventRecord :: "hostEventRecord \<Rightarrow> bytes option \<Rightarrow> nat \<Rightarrow> encoded" where
  "encodeHostEventRecord r output outputCapacity = (case output of None \<Rightarrow> (PR_NULL_ARGUMENT, 0, None) | Some out \<Rightarrow>
     if \<not> isValidHostEventRecord r then (PR_INVALID_VALUE, 0, output)
     else if outputCapacity < unat HOST_EVENT_RECORD_SIZE then (PR_OUTPUT_TOO_SMALL, 0, output)
     else let n = unat HOST_EVENT_RECORD_SIZE; out = copyBytes out 0 (fillZero n) n;
       out = out[0 := heAvailable r, 1 := heSourceDeviceId r, 2 := heFamily r, 3 := heFlags r];
       out = putLe32 (putLe32 (putLe32 out 4 (heEventEpoch r)) 8 (heEventId r)) 12 (heLifetimeBudgetSeconds r) in
       (PR_OK, n, Some (copyBytes (out[16 := heBodyLength r]) 17 (heBody r) MAX_BODY_SIZE)))"

definition decodeHostEventRecord :: "bytes option \<Rightarrow> nat \<Rightarrow> payloadResult + hostEventRecord" where
  "decodeHostEventRecord input inputLength = (case input of None \<Rightarrow> Inl PR_NULL_ARGUMENT | Some bs \<Rightarrow>
     if inputLength \<noteq> unat HOST_EVENT_RECORD_SIZE then Inl PR_INVALID_LENGTH
     else let candidate = \<lparr>heAvailable = bs ! 0, heSourceDeviceId = bs ! 1, heFamily = bs ! 2, heFlags = bs ! 3,
         heEventEpoch = getLe32 bs 4, heEventId = getLe32 bs 8, heLifetimeBudgetSeconds = getLe32 bs 12,
         heBodyLength = bs ! 16, heBody = slice 17 MAX_BODY_SIZE bs\<rparr> in
       if \<not> isValidHostEventRecord candidate then Inl PR_INVALID_VALUE else Inr candidate)"

definition isZeroHostEventIdentity :: "hostEventIdentity \<Rightarrow> bool" where
  "isZeroHostEventIdentity i = (hiSourceDeviceId i = 0 \<and> hiEventEpoch i = 0 \<and> hiEventId i = 0)"

definition isValidEventDiagnosticsRecord :: "eventDiagnosticsRecord \<Rightarrow> bool" where
  "isValidEventDiagnosticsRecord r =
     (if edSchema r \<noteq> EVENT_DIAGNOSTICS_SCHEMA \<or> \<not> isKnownDeviceRole (edRole r) \<or> edCapacity r > 8
         \<or> edCustodyCount r > edCapacity r \<or> edActiveCount r > edCapacity r \<or> edConsumedCount r > edCapacity r
         \<or> unat (edActiveCount r) + unat (edConsumedCount r) > unat (edCapacity r)
         \<or> edRecordAvailable r > 1 \<or> edRecentAdmissionAvailable r > 1 \<or> edProducerIdentityAvailable r > 1
         \<or> edState r > 11 \<or> edProducerKind r > 3 \<or> edProducerResult r > 5
         \<or> edFlags r AND NOT EVENT_DIAGNOSTICS_KNOWN_FLAGS \<noteq> 0 then False
      else if (if edRecordAvailable r = 1 then \<not> isValidHostEventIdentity (edIdentity r) \<or> \<not> isRegisteredFamily (edFamily r)
         else \<not> isZeroHostEventIdentity (edIdentity r) \<or> edFamily r \<noteq> 0 \<or> edAttemptsUsed r \<noteq> 0 \<or> edAttemptsMaximum r \<noteq> 0
           \<or> edFlags r AND (EVENT_DIAGNOSTICS_LIFETIME_AVAILABLE OR EVENT_DIAGNOSTICS_ORDINAL_AVAILABLE) \<noteq> 0
           \<or> edRemainingLifetimeSeconds r \<noteq> 0 \<or> edAdmissionOrdinal r \<noteq> 0) then False
      else if edAttemptsUsed r > edAttemptsMaximum r
         \<or> edFlags r AND EVENT_DIAGNOSTICS_LIFETIME_AVAILABLE = 0 \<and> edRemainingLifetimeSeconds r \<noteq> 0
         \<or> edFlags r AND EVENT_DIAGNOSTICS_ORDINAL_AVAILABLE = 0 \<and> edAdmissionOrdinal r \<noteq> 0 then False
      else if (if edRecentAdmissionAvailable r = 1 then \<not> isValidHostEventIdentity (edRecentAdmission r)
         else \<not> isZeroHostEventIdentity (edRecentAdmission r)) then False
      else if (if edProducerIdentityAvailable r = 1
         then \<not> isValidHostEventIdentity (edProducerIdentity r) \<or> edProducerResult r \<noteq> 1
         else \<not> isZeroHostEventIdentity (edProducerIdentity r)) then False
      else True)"

text \<open>The bytes that a host identity takes inside a record.\<close>

definition putIdentity :: "bytes \<Rightarrow> nat \<Rightarrow> hostEventIdentity \<Rightarrow> bytes" where
  "putIdentity buf off i = putLe32 (putLe32 (buf[off := hiSourceDeviceId i]) (off + 1) (hiEventEpoch i)) (off + 5) (hiEventId i)"

definition getIdentity :: "bytes \<Rightarrow> nat \<Rightarrow> hostEventIdentity" where
  "getIdentity buf off = \<lparr>hiSourceDeviceId = buf ! off, hiEventEpoch = getLe32 buf (off + 1), hiEventId = getLe32 buf (off + 5)\<rparr>"

definition encodeEventDiagnosticsRecord :: "eventDiagnosticsRecord \<Rightarrow> payloadResult + typedValue" where
  "encodeEventDiagnosticsRecord r =
     (if \<not> isValidEventDiagnosticsRecord r then Inl PR_INVALID_VALUE
      else let out = (fillZero HOST_MAX_REQUEST_VALUE_SIZE)[0 := edSchema r, 1 := hostRole_code (edRole r),
           2 := edCustodyCount r, 3 := edCapacity r, 4 := edActiveCount r, 5 := edConsumedCount r,
           6 := edRecordAvailable r, 7 := edState r];
         out = (putIdentity out 8 (edIdentity r))[17 := edFamily r, 18 := edAttemptsUsed r, 19 := edAttemptsMaximum r,
           20 := edFlags r];
         out = putLe32 (putLe32 out 21 (edRemainingLifetimeSeconds r)) 25 (edAdmissionOrdinal r);
         out = putIdentity (out[29 := edRecentAdmissionAvailable r]) 30 (edRecentAdmission r);
         out = putIdentity (out[39 := edProducerKind r, 40 := edProducerResult r, 41 := edProducerIdentityAvailable r])
           42 (edProducerIdentity r);
         out = fold (\<lambda>k buf. putLe32 buf (51 + 4 * k) (edCounters r ! k)) [0..<EVENT_DIAGNOSTIC_COUNTER_COUNT] out in
       Inr \<lparr>tvType = STRUCTURE_VALUE_TYPE, tvLength = EVENT_DIAGNOSTICS_RECORD_SIZE, tvBytes = out\<rparr>)"

definition decodeEventDiagnosticsRecord :: "typedValue \<Rightarrow> payloadResult + eventDiagnosticsRecord" where
  "decodeEventDiagnosticsRecord v =
     (if tvType v \<noteq> STRUCTURE_VALUE_TYPE \<or> tvLength v \<noteq> EVENT_DIAGNOSTICS_RECORD_SIZE then Inl PR_INVALID_VALUE
      else let bs = tvBytes v; candidate = \<lparr>edSchema = bs ! 0, edRole = hostRole_of (bs ! 1), edCustodyCount = bs ! 2,
          edCapacity = bs ! 3, edActiveCount = bs ! 4, edConsumedCount = bs ! 5, edRecordAvailable = bs ! 6, edState = bs ! 7,
          edIdentity = getIdentity bs 8, edFamily = bs ! 17, edAttemptsUsed = bs ! 18, edAttemptsMaximum = bs ! 19,
          edFlags = bs ! 20, edRemainingLifetimeSeconds = getLe32 bs 21, edAdmissionOrdinal = getLe32 bs 25,
          edRecentAdmissionAvailable = bs ! 29, edRecentAdmission = getIdentity bs 30, edProducerKind = bs ! 39,
          edProducerResult = bs ! 40, edProducerIdentityAvailable = bs ! 41, edProducerIdentity = getIdentity bs 42,
          edCounters = map (\<lambda>k. getLe32 bs (51 + 4 * k)) [0..<EVENT_DIAGNOSTIC_COUNTER_COUNT]\<rparr> in
        if \<not> isValidEventDiagnosticsRecord candidate then Inl PR_INVALID_VALUE else Inr candidate)"

definition validEventTxDiagnostics :: "hostRole \<Rightarrow> txSnapshot \<Rightarrow> bool" where
  "validEventTxDiagnostics r s =
     (if \<not> isKnownDeviceRole r \<or> r = HR_HUB \<and> tsAvailable s \<or> tsLastStep s > of_nat COUNTER_COUNT \<or> tsControllerState s > 8
         \<or> tsRadioOwner s > 6 \<or> tsAttempt s > 5 \<or> tsAdmissionStatus s \<noteq> 0xFF \<and> tsAdmissionStatus s > 4 then False
      else let identity = \<lparr>hiSourceDeviceId = tsSource s, hiEventEpoch = tsEpoch s, hiEventId = tsId s\<rparr> in
        if (if tsAttempt s \<noteq> 0 then \<not> isValidHostEventIdentity identity else \<not> isZeroHostEventIdentity identity) then False
        else if \<not> tsAvailable s then
          \<not> (tsLastStep s \<noteq> 0 \<or> tsControllerState s \<noteq> 0 \<or> tsRadioOwner s \<noteq> 0 \<or> tsAttempt s \<noteq> 0 \<or> tsLastAt s \<noteq> 0
             \<or> tsStartAt s \<noteq> 0 \<or> tsCompletedAt s \<noteq> 0 \<or> tsPreviousClock s \<noteq> 0 \<or> tsInputClock s \<noteq> 0
             \<or> tsStartResult s \<noteq> 0 \<or> tsAdmissionStatus s \<noteq> 0xFF)
          \<and> (\<forall>c\<in>set (tsCounters s). c = 0)
        else True)"

definition encodeEventTxDiagnostics :: "hostRole \<Rightarrow> txSnapshot \<Rightarrow> payloadResult + typedValue" where
  "encodeEventTxDiagnostics r s =
     (if \<not> validEventTxDiagnostics r s then Inl PR_INVALID_VALUE
      else let b = (fillZero HOST_MAX_REQUEST_VALUE_SIZE)[0 := EVENT_TX_DIAGNOSTICS_SCHEMA, 1 := hostRole_code r,
           2 := (if tsAvailable s then 1 else 0), 3 := tsLastStep s, 4 := tsControllerState s, 5 := tsRadioOwner s,
           6 := tsAttempt s, 7 := tsSource s];
         b = putLe32 (putLe32 b 8 (tsEpoch s)) 12 (tsId s);
         b = putLe32 (putLe32 b 16 (tsLastAt s)) 20 (tsStartAt s);
         b = putLe32 (putLe32 b 24 (tsCompletedAt s)) 28 (tsPreviousClock s);
         b = putLe16 (putLe32 b 32 (tsInputClock s)) 36 (tsStartResult s);
         b = fold (\<lambda>k buf. putLe16 buf (39 + 2 * k) (tsCounters s ! k)) [0..<COUNTER_COUNT]
           (b[38 := tsAdmissionStatus s]) in
       Inr \<lparr>tvType = STRUCTURE_VALUE_TYPE, tvLength = EVENT_TX_DIAGNOSTICS_SIZE, tvBytes = b\<rparr>)"

definition decodeEventTxDiagnostics :: "typedValue \<Rightarrow> payloadResult + (hostRole \<times> txSnapshot)" where
  "decodeEventTxDiagnostics v =
     (if tvType v \<noteq> STRUCTURE_VALUE_TYPE \<or> tvLength v \<noteq> EVENT_TX_DIAGNOSTICS_SIZE
         \<or> tvBytes v ! 0 \<noteq> EVENT_TX_DIAGNOSTICS_SCHEMA \<or> tvBytes v ! 2 > 1 then Inl PR_INVALID_VALUE
      else let b = tvBytes v; decodedRole = hostRole_of (b ! 1); rawResult = getLe16 b 36;
          s = \<lparr>tsAvailable = b ! 2 \<noteq> 0, tsLastStep = b ! 3, tsControllerState = b ! 4, tsRadioOwner = b ! 5,
            tsAttempt = b ! 6, tsSource = b ! 7, tsEpoch = getLe32 b 8, tsId = getLe32 b 12, tsLastAt = getLe32 b 16,
            tsStartAt = getLe32 b 20, tsCompletedAt = getLe32 b 24, tsPreviousClock = getLe32 b 28,
            tsInputClock = getLe32 b 32,
            tsStartResult = rawResult,
            tsAdmissionStatus = b ! 38,
            tsCounters = map (\<lambda>k. getLe16 b (39 + 2 * k)) [0..<COUNTER_COUNT]\<rparr> in
        if \<not> validEventTxDiagnostics decodedRole s then Inl PR_INVALID_VALUE else Inr (decodedRole, s))"

end
