(* ===== verification/HostOperations.thy ===== *)
theory HostOperations
  imports HostMessages
begin

text \<open>
  The second half of \<^verbatim>\<open>lib/host_protocol/src/host_protocol_messages.h\<close>: typed values, the hello
  exchange, operation requests and responses, protocol errors and the structured records of the device operations.
  An overload without the minor version is the one for version 0.1 and carries the suffix \<open>_0_1\<close>.
\<close>

subsection \<open>Typed values\<close>

fun expectedLengthOf :: "valueType \<Rightarrow> u8" where
  "expectedLengthOf VT_NONE = 0"
| "expectedLengthOf VT_BOOLEAN = 1"
| "expectedLengthOf VT_NORMALIZED_U16 = 2"
| "expectedLengthOf VT_ENUM_U16 = 2"
| "expectedLengthOf VT_UNSIGNED_32 = 4"
| "expectedLengthOf VT_SIGNED_32 = 4"
| "expectedLengthOf VT_FIXED_Q16_16 = 4"
| "expectedLengthOf (ValueType_raw b) = 0xFF"

definition expectedScalarValueLength :: "u8 \<Rightarrow> u8" where
  "expectedScalarValueLength t = expectedLengthOf (valueType_of t)"

definition isValidScalarValue :: "typedValue \<Rightarrow> bool" where
  "isValidScalarValue v =
     (if tvType v = STRUCTURE_VALUE_TYPE \<or> \<not> isKnownValueType (valueType_of (tvType v)) then False
      else if tvLength v \<noteq> expectedScalarValueLength (tvType v) then False
      else tvType v \<noteq> valueType_code VT_BOOLEAN \<or> tvBytes v ! 0 \<le> 1)"

definition isNoneValue :: "typedValue \<Rightarrow> bool" where
  "isNoneValue v = (tvType v = valueType_code VT_NONE \<and> tvLength v = 0)"

definition isNonNoneScalarValue :: "typedValue \<Rightarrow> bool" where
  "isNonNoneScalarValue v = (isValidScalarValue v \<and> \<not> isNoneValue v)"

definition setNoneValue :: typedValue where
  "setNoneValue = typedValue_init\<lparr>tvType := valueType_code VT_NONE\<rparr>"

text \<open>A setter that refuses leaves the value as it was.\<close>

definition setBooleanValue :: "typedValue \<Rightarrow> u8 \<Rightarrow> bool \<times> typedValue" where
  "setBooleanValue v b = (if b > 1 then (False, v)
     else (True, \<lparr>tvType = valueType_code VT_BOOLEAN, tvLength = 1, tvBytes = (tvBytes typedValue_init)[0 := b]\<rparr>))"

definition setUint16Value :: "typedValue \<Rightarrow> valueType \<Rightarrow> u16 \<Rightarrow> bool \<times> typedValue" where
  "setUint16Value v t n = (if t \<noteq> VT_NORMALIZED_U16 \<and> t \<noteq> VT_ENUM_U16 then (False, v)
     else (True, \<lparr>tvType = valueType_code t, tvLength = 2, tvBytes = putLe16 (tvBytes typedValue_init) 0 n\<rparr>))"

definition setUint32Value :: "typedValue \<Rightarrow> valueType \<Rightarrow> u32 \<Rightarrow> bool \<times> typedValue" where
  "setUint32Value v t bits = (if t \<noteq> VT_UNSIGNED_32 \<and> t \<noteq> VT_SIGNED_32 \<and> t \<noteq> VT_FIXED_Q16_16 then (False, v)
     else (True, \<lparr>tvType = valueType_code t, tvLength = 4, tvBytes = putLe32 (tvBytes typedValue_init) 0 bits\<rparr>))"

definition encodeTypedValue :: "typedValue \<Rightarrow> bytes option \<Rightarrow> nat \<Rightarrow> encoded" where
  "encodeTypedValue v output outputCapacity = (case output of None \<Rightarrow> (PR_NULL_ARGUMENT, 0, None) | Some out \<Rightarrow>
     if \<not> isValidScalarValue v then
       (if isKnownValueType (valueType_of (tvType v)) then PR_INVALID_VALUE else PR_INVALID_VALUE_TYPE, 0, output)
     else if outputCapacity < unat (tvLength v) then (PR_OUTPUT_TOO_SMALL, 0, output)
     else (PR_OK, unat (tvLength v), Some (copyBytes out 0 (tvBytes v) (unat (tvLength v)))))"

definition decodeTypedValue :: "u8 \<Rightarrow> bytes option \<Rightarrow> nat \<Rightarrow> payloadResult + typedValue" where
  "decodeTypedValue t input inputLength =
     (if input = None \<and> inputLength \<noteq> 0 then Inl PR_NULL_ARGUMENT
      else if t = STRUCTURE_VALUE_TYPE \<or> \<not> isKnownValueType (valueType_of t) then Inl PR_INVALID_VALUE_TYPE
      else if inputLength \<noteq> unat (expectedScalarValueLength t) then Inl PR_INVALID_VALUE_LENGTH
      else let candidate = \<lparr>tvType = t, tvLength = of_nat inputLength, tvBytes =
          copyBytes (fillZero HOST_MAX_REQUEST_VALUE_SIZE) 0 (case input of None \<Rightarrow> [] | Some bs \<Rightarrow> bs) inputLength\<rparr> in
        if \<not> isValidScalarValue candidate then Inl PR_INVALID_VALUE else Inr candidate)"

subsection \<open>Operation requests\<close>

definition classifyCategoryOperation_0_1 :: "u8 \<Rightarrow> u8 \<Rightarrow> operationClassification" where
  "classifyCategoryOperation_0_1 category operation =
     (let c = operationCategory_of category; op = operationCode_of operation in
      if \<not> isKnownOperationCategory_0_1 c \<or> \<not> isKnownOperationCode_0_1 op then OC_MALFORMED
      else if isSupportedCategoryOperation_0_1 c op then OC_VALID else OC_UNSUPPORTED)"

definition classifyCategoryOperation :: "u8 \<Rightarrow> u8 \<Rightarrow> u8 \<Rightarrow> operationClassification" where
  "classifyCategoryOperation minor category operation =
     (let c = operationCategory_of category; op = operationCode_of operation in
      if \<not> isKnownOperationCategory minor c \<or> \<not> isKnownOperationCode minor op then OC_MALFORMED
      else if isSupportedCategoryOperation minor c op then OC_VALID else OC_UNSUPPORTED)"

fun isValidOperationTarget :: "operationCategory \<Rightarrow> operationCode \<Rightarrow> u16 \<Rightarrow> bool" where
  "isValidOperationTarget CAT_DEVICE op targetId = (targetId = 0)"
| "isValidOperationTarget CAT_DIAGNOSTIC op targetId = (targetId = 0)"
| "isValidOperationTarget CAT_CAPABILITY op targetId =
     (if op = operationCode.GET_CAPABILITIES then targetId = 0 else targetId \<noteq> INVALID_CAPABILITY_ID)"
| "isValidOperationTarget CAT_PROCEDURE op targetId = (targetId \<noteq> 0)"
| "isValidOperationTarget CAT_EVENT op targetId = (targetId = 0)"
| "isValidOperationTarget (OperationCategory_raw b) op targetId = False"

fun isValidOperationRequestValue :: "operationCode \<Rightarrow> typedValue \<Rightarrow> bool" where
  "isValidOperationRequestValue operationCode.PING v = isNoneValue v"
| "isValidOperationRequestValue operationCode.GET_DEVICE_INFO v = isNoneValue v"
| "isValidOperationRequestValue operationCode.GET_STATUS v = isNoneValue v"
| "isValidOperationRequestValue operationCode.DESCRIBE_CAPABILITY v = isNoneValue v"
| "isValidOperationRequestValue operationCode.READ_CAPABILITY v = isNoneValue v"
| "isValidOperationRequestValue operationCode.GET_CAPABILITIES v =
     (isNoneValue v \<or> tvType v = valueType_code VT_UNSIGNED_32 \<and> isValidScalarValue v)"
| "isValidOperationRequestValue operationCode.SET_INDICATOR v = (tvType v = valueType_code VT_BOOLEAN \<and> isValidScalarValue v)"
| "isValidOperationRequestValue operationCode.RUN_PROCEDURE v = isValidScalarValue v"
| "isValidOperationRequestValue operationCode.GET_DIAGNOSTICS v =
     (isNoneValue v \<or> tvType v = valueType_code VT_UNSIGNED_32 \<and> isValidScalarValue v)"
| "isValidOperationRequestValue GET_EVENT_DIAGNOSTICS v =
     (isNoneValue v \<or> tvType v = valueType_code VT_UNSIGNED_32 \<and> isValidScalarValue v \<and> getLe32 (tvBytes v) 0 = 1)"
| "isValidOperationRequestValue POLL_EVENTS v = False"
| "isValidOperationRequestValue CONSUME_EVENT v = False"
| "isValidOperationRequestValue (OperationCode_raw b) v = False"

definition validateOperationRequest :: "u8 \<Rightarrow> operationRequest \<Rightarrow> payloadResult" where
  "validateOperationRequest minor q =
     (let classification = classifyCategoryOperation minor (operationCategory_code (oqCategory q))
        (operationCode_code (oqOperation q)) in
      if classification = OC_MALFORMED then
        (if \<not> isKnownOperationCategory minor (oqCategory q) then PR_UNKNOWN_CATEGORY else PR_UNKNOWN_OPERATION)
      else if classification = OC_UNSUPPORTED then PR_UNSUPPORTED_CATEGORY_OPERATION
      else if \<not> isValidOperationTarget (oqCategory q) (oqOperation q) (oqTargetId q) then PR_INVALID_TARGET
      else if oqCategory q = CAT_EVENT \<and> oqOperation q = POLL_EVENTS then
        (if isNoneValue (oqValue q) then PR_OK else PR_INVALID_VALUE)
      else if oqCategory q = CAT_EVENT \<and> oqOperation q = CONSUME_EVENT then
        (if tvType (oqValue q) = STRUCTURE_VALUE_TYPE \<and> tvLength (oqValue q) = HOST_EVENT_IDENTITY_SIZE
            \<and> \<not> isl (decodeHostEventIdentity (Some (tvBytes (oqValue q))) (unat (tvLength (oqValue q))))
         then PR_OK else PR_INVALID_VALUE)
      else if \<not> isValidOperationRequestValue (oqOperation q) (oqValue q) then PR_INVALID_VALUE
      else PR_OK)"

definition validateOperationRequest_0_1 :: "operationRequest \<Rightarrow> payloadResult" where
  "validateOperationRequest_0_1 q = validateOperationRequest VERSION_MINOR_0_1 q"

subsection \<open>The hello exchange\<close>

definition encodeHelloRequest :: "u8 \<Rightarrow> helloRequest \<Rightarrow> bytes option \<Rightarrow> nat \<Rightarrow> encoded" where
  "encodeHelloRequest frameMinor q output outputCapacity = (case output of None \<Rightarrow> (PR_NULL_ARGUMENT, 0, None) | Some out \<Rightarrow>
     if \<not> isValidHelloMinorRange frameMinor (hqMinimumMinor q) (hqMaximumMinor q) then (PR_INVALID_FIELD, 0, output)
     else if outputCapacity < HELLO_REQUEST_PAYLOAD_SIZE then (PR_OUTPUT_TOO_SMALL, 0, output)
     else (PR_OK, HELLO_REQUEST_PAYLOAD_SIZE, Some (out[0 := hqMinimumMinor q, 1 := hqMaximumMinor q])))"

definition encodeHelloRequest_0_1 :: "helloRequest \<Rightarrow> bytes option \<Rightarrow> nat \<Rightarrow> encoded" where
  "encodeHelloRequest_0_1 q output outputCapacity = encodeHelloRequest VERSION_MINOR_0_1 q output outputCapacity"

definition decodeHelloRequest :: "u8 \<Rightarrow> bytes option \<Rightarrow> nat \<Rightarrow> payloadResult + helloRequest" where
  "decodeHelloRequest frameMinor input inputLength = (case input of None \<Rightarrow> Inl PR_NULL_ARGUMENT | Some bs \<Rightarrow>
     if inputLength \<noteq> HELLO_REQUEST_PAYLOAD_SIZE then Inl PR_INVALID_LENGTH
     else let candidate = \<lparr>hqMinimumMinor = bs ! 0, hqMaximumMinor = bs ! 1\<rparr> in
       if \<not> isValidHelloMinorRange frameMinor (hqMinimumMinor candidate) (hqMaximumMinor candidate)
       then Inl PR_INVALID_FIELD else Inr candidate)"

definition decodeHelloRequest_0_1 :: "bytes option \<Rightarrow> nat \<Rightarrow> payloadResult + helloRequest" where
  "decodeHelloRequest_0_1 input inputLength = decodeHelloRequest VERSION_MINOR_0_1 input inputLength"

definition isValidHelloResponse :: "helloResponse \<Rightarrow> bool" where
  "isValidHelloResponse r = (hsSelectedMinor r \<ge> MIN_SUPPORTED_MINOR \<and> hsSelectedMinor r \<le> MAX_SUPPORTED_MINOR
     \<and> isKnownHardwareProfile (hsHardwareProfile r) \<and> isKnownDeviceRole (hsRole r)
     \<and> unat (hsMaximumHostPayload r) = HOST_MAX_PAYLOAD_SIZE
     \<and> hasValidCategoryBitmap (hsSelectedMinor r) (hsOperationCategoryBitmap r)
     \<and> hasValidFeatureBitmap (hsSelectedMinor r) (hsFeatureBitmap r)
     \<and> hasConsistentEventAdvertisement (hsSelectedMinor r) (hsOperationCategoryBitmap r) (hsFeatureBitmap r)
     \<and> hsMaximumOutstandingOperations r = MAX_OUTSTANDING_OPERATIONS \<and> hsReserved r = HELLO_RESERVED_VALUE)"

definition encodeHelloResponse :: "helloResponse \<Rightarrow> bytes option \<Rightarrow> nat \<Rightarrow> encoded" where
  "encodeHelloResponse r output outputCapacity = (case output of None \<Rightarrow> (PR_NULL_ARGUMENT, 0, None) | Some out \<Rightarrow>
     if \<not> isValidHelloResponse r then (PR_INVALID_FIELD, 0, output)
     else if outputCapacity < HELLO_RESPONSE_PAYLOAD_SIZE then (PR_OUTPUT_TOO_SMALL, 0, output)
     else let out = out[0 := hsSelectedMinor r, 1 := hsFirmwareMajor r, 2 := hsFirmwareMinor r, 3 := hsFirmwarePatch r,
         4 := hsWireProtocol r, 5 := hsConfigurationSchema r, 6 := hardwareProfile_code (hsHardwareProfile r),
         7 := hostRole_code (hsRole r), 8 := hsDeviceId r, 9 := hsMaximumHostPayload r];
       out = putLe16 (putLe16 out 10 (hsOperationCategoryBitmap r)) 12 (hsFeatureBitmap r) in
       (PR_OK, HELLO_RESPONSE_PAYLOAD_SIZE, Some (out[14 := hsMaximumOutstandingOperations r, 15 := hsReserved r])))"

definition decodeHelloResponse :: "bytes option \<Rightarrow> nat \<Rightarrow> payloadResult + helloResponse" where
  "decodeHelloResponse input inputLength = (case input of None \<Rightarrow> Inl PR_NULL_ARGUMENT | Some bs \<Rightarrow>
     if inputLength \<noteq> HELLO_RESPONSE_PAYLOAD_SIZE then Inl PR_INVALID_LENGTH
     else let candidate = \<lparr>hsSelectedMinor = bs ! 0, hsFirmwareMajor = bs ! 1, hsFirmwareMinor = bs ! 2,
         hsFirmwarePatch = bs ! 3, hsWireProtocol = bs ! 4, hsConfigurationSchema = bs ! 5,
         hsHardwareProfile = hardwareProfile_of (bs ! 6), hsRole = hostRole_of (bs ! 7), hsDeviceId = bs ! 8,
         hsMaximumHostPayload = bs ! 9, hsOperationCategoryBitmap = getLe16 bs 10, hsFeatureBitmap = getLe16 bs 12,
         hsMaximumOutstandingOperations = bs ! 14, hsReserved = bs ! 15\<rparr> in
       if \<not> isValidHelloResponse candidate then Inl PR_INVALID_FIELD else Inr candidate)"

subsection \<open>Encoding and decoding a request\<close>

definition encodeOperationRequest :: "u8 \<Rightarrow> operationRequest \<Rightarrow> bytes option \<Rightarrow> nat \<Rightarrow> encoded" where
  "encodeOperationRequest minor q output outputCapacity = (case output of None \<Rightarrow> (PR_NULL_ARGUMENT, 0, None) | Some out \<Rightarrow>
     let validation = validateOperationRequest minor q; len = unat (tvLength (oqValue q));
       required = OPERATION_REQUEST_FIXED_SIZE + len in
     if validation \<noteq> PR_OK then (validation, 0, output)
     else if required > HOST_MAX_PAYLOAD_SIZE then (PR_INVALID_LENGTH, 0, output)
     else if outputCapacity < required then (PR_OUTPUT_TOO_SMALL, 0, output)
     else let out = out[0 := operationCategory_code (oqCategory q), 1 := operationCode_code (oqOperation q),
         2 := oqTargetDeviceId q];
       out = (putLe16 out 3 (oqTargetId q))[5 := tvType (oqValue q), 6 := tvLength (oqValue q)] in
       (PR_OK, required, Some (copyBytes out 7 (tvBytes (oqValue q)) len)))"

definition encodeOperationRequest_0_1 :: "operationRequest \<Rightarrow> bytes option \<Rightarrow> nat \<Rightarrow> encoded" where
  "encodeOperationRequest_0_1 q output outputCapacity = encodeOperationRequest VERSION_MINOR_0_1 q output outputCapacity"

text \<open>The value of a message: the type and length bytes and the copied value bytes.\<close>

definition receivedValue :: "u8 \<Rightarrow> u8 \<Rightarrow> nat \<Rightarrow> bytes \<Rightarrow> typedValue" where
  "receivedValue t valueLength off bs = \<lparr>tvType = t, tvLength = valueLength,
     tvBytes = copyBytes (fillZero HOST_MAX_REQUEST_VALUE_SIZE) 0 (drop off bs) (unat valueLength)\<rparr>"

definition decodeOperationRequest :: "u8 \<Rightarrow> bytes option \<Rightarrow> nat \<Rightarrow> payloadResult + operationRequest" where
  "decodeOperationRequest minor input inputLength = (case input of None \<Rightarrow> Inl PR_NULL_ARGUMENT | Some bs \<Rightarrow>
     if inputLength < OPERATION_REQUEST_FIXED_SIZE \<or> inputLength > HOST_MAX_PAYLOAD_SIZE then Inl PR_INVALID_LENGTH
     else let valueLength = bs ! 6 in
       if inputLength \<noteq> OPERATION_REQUEST_FIXED_SIZE + unat valueLength then Inl PR_INVALID_LENGTH
       else let candidate = \<lparr>oqCategory = operationCategory_of (bs ! 0), oqOperation = operationCode_of (bs ! 1),
           oqTargetDeviceId = bs ! 2, oqTargetId = getLe16 bs 3, oqValue = receivedValue (bs ! 5) valueLength 7 bs\<rparr> in
         if tvType (oqValue candidate) \<noteq> STRUCTURE_VALUE_TYPE \<and> \<not> isValidScalarValue (oqValue candidate) then
           Inl (if \<not> isKnownHostValueType (tvType (oqValue candidate)) then PR_INVALID_VALUE_TYPE else PR_INVALID_VALUE)
         else let validation = validateOperationRequest minor candidate in
           if validation \<noteq> PR_OK then Inl validation else Inr candidate)"

definition decodeOperationRequest_0_1 :: "bytes option \<Rightarrow> nat \<Rightarrow> payloadResult + operationRequest" where
  "decodeOperationRequest_0_1 input inputLength = decodeOperationRequest VERSION_MINOR_0_1 input inputLength"

subsection \<open>Operation responses\<close>

fun isValidStructureLength :: "operationCode \<Rightarrow> u8 \<Rightarrow> bool" where
  "isValidStructureLength operationCode.GET_DEVICE_INFO n = (n = DEVICE_INFO_SIZE)"
| "isValidStructureLength operationCode.GET_STATUS n = (n = STATUS_SIZE)"
| "isValidStructureLength operationCode.GET_CAPABILITIES n = (n \<ge> 3 \<and> n \<le> 21 \<and> (unat n - 3) mod 2 = 0)"
| "isValidStructureLength operationCode.DESCRIBE_CAPABILITY n = (n = CAPABILITY_DESCRIPTION_SIZE)"
| "isValidStructureLength operationCode.GET_DIAGNOSTICS n = (n \<ge> 2 \<and> n \<le> 17 \<and> (unat n - 2) mod 5 = 0)"
| "isValidStructureLength POLL_EVENTS n = (n = HOST_EVENT_RECORD_SIZE)"
| "isValidStructureLength GET_EVENT_DIAGNOSTICS n = (n = EVENT_DIAGNOSTICS_RECORD_SIZE \<or> n = EVENT_TX_DIAGNOSTICS_SIZE)"
| "isValidStructureLength _ n = False"

definition isValidStructureValue :: "operationCode \<Rightarrow> typedValue \<Rightarrow> bool" where
  "isValidStructureValue operation v =
     (let bs = tvBytes v in
      if tvType v \<noteq> STRUCTURE_VALUE_TYPE \<or> \<not> isValidStructureLength operation (tvLength v) then False
      else case operation of
        operationCode.GET_DEVICE_INFO \<Rightarrow> isKnownHardwareProfile (hardwareProfile_of (bs ! 5)) \<and> isKnownDeviceRole (hostRole_of (bs ! 6))
      | operationCode.GET_STATUS \<Rightarrow> getLe16 bs 0 AND RESERVED_STATUS_FLAGS = 0
      | operationCode.GET_CAPABILITIES \<Rightarrow>
          \<not> (bs ! 2 > MAX_CAPABILITY_PAGE_ENTRIES \<or> unat (tvLength v) \<noteq> 3 + 2 * unat (bs ! 2))
          \<and> (\<forall>k\<in>{0..<unat (bs ! 2)}. getLe16 bs (3 + 2 * k) \<noteq> INVALID_CAPABILITY_ID)
      | operationCode.DESCRIBE_CAPABILITY \<Rightarrow> isKnownCapabilityClass (capabilityClass_of (bs ! 0))
          \<and> isKnownValueType (valueType_of (bs ! 1)) \<and> hasKnownOperationFlags (bs ! 2) \<and> isKnownUnitCode (bs ! 3)
          \<and> bs ! 4 \<le> 1 \<and> bs ! 5 = 0
      | operationCode.GET_DIAGNOSTICS \<Rightarrow>
          bs ! 1 \<le> MAX_DIAGNOSTIC_PAGE_ENTRIES \<and> unat (tvLength v) = 2 + 5 * unat (bs ! 1)
      | POLL_EVENTS \<Rightarrow> \<not> isl (decodeHostEventRecord (Some bs) (unat (tvLength v)))
      | GET_EVENT_DIAGNOSTICS \<Rightarrow>
          (if tvLength v = EVENT_TX_DIAGNOSTICS_SIZE then \<not> isl (decodeEventTxDiagnostics v) else \<not> isl (decodeEventDiagnosticsRecord v))
      | _ \<Rightarrow> False)"

fun isValidSuccessfulOperationValue :: "operationCode \<Rightarrow> typedValue \<Rightarrow> bool" where
  "isValidSuccessfulOperationValue operationCode.PING v = (tvType v = valueType_code VT_UNSIGNED_32 \<and> isValidScalarValue v)"
| "isValidSuccessfulOperationValue operationCode.GET_DEVICE_INFO v = isValidStructureValue operationCode.GET_DEVICE_INFO v"
| "isValidSuccessfulOperationValue operationCode.GET_STATUS v = isValidStructureValue operationCode.GET_STATUS v"
| "isValidSuccessfulOperationValue operationCode.GET_CAPABILITIES v = isValidStructureValue operationCode.GET_CAPABILITIES v"
| "isValidSuccessfulOperationValue operationCode.DESCRIBE_CAPABILITY v = isValidStructureValue operationCode.DESCRIBE_CAPABILITY v"
| "isValidSuccessfulOperationValue operationCode.GET_DIAGNOSTICS v = isValidStructureValue operationCode.GET_DIAGNOSTICS v"
| "isValidSuccessfulOperationValue GET_EVENT_DIAGNOSTICS v = isValidStructureValue GET_EVENT_DIAGNOSTICS v"
| "isValidSuccessfulOperationValue operationCode.READ_CAPABILITY v = isNonNoneScalarValue v"
| "isValidSuccessfulOperationValue operationCode.SET_INDICATOR v = isNoneValue v"
| "isValidSuccessfulOperationValue operationCode.RUN_PROCEDURE v = isValidScalarValue v"
| "isValidSuccessfulOperationValue POLL_EVENTS v = False"
| "isValidSuccessfulOperationValue CONSUME_EVENT v = False"
| "isValidSuccessfulOperationValue (OperationCode_raw b) v = False"

text \<open>\<^verbatim>\<open>EventResultCode::NOT_FOUND\<close> is 1 and \<^verbatim>\<open>EventResultCode::STORAGE_FAILURE\<close> is 2.\<close>

definition EVENT_NOT_FOUND :: u8 where [simp]: "EVENT_NOT_FOUND = 0x01"
definition EVENT_STORAGE_FAILURE :: u8 where [simp]: "EVENT_STORAGE_FAILURE = 0x02"
definition SUCCESS_OK :: u8 where [simp]: "SUCCESS_OK = 0x00"

definition okIf :: "bool \<Rightarrow> payloadResult" where
  "okIf valid = (if valid then PR_OK else PR_INVALID_RESPONSE_VALUE)"

definition validateOperationResponse :: "u8 \<Rightarrow> operationResponse \<Rightarrow> payloadResult" where
  "validateOperationResponse minor r =
     (let classification = classifyCategoryOperation minor (operationCategory_code (opCategory r))
        (operationCode_code (opOperation r)) in
      if classification = OC_MALFORMED then
        (if \<not> isKnownOperationCategory minor (opCategory r) then PR_UNKNOWN_CATEGORY else PR_UNKNOWN_OPERATION)
      else if classification = OC_UNSUPPORTED then PR_UNSUPPORTED_CATEGORY_OPERATION
      else if \<not> isValidOperationTarget (opCategory r) (opOperation r) (opTargetId r) then PR_INVALID_TARGET
      else if \<not> isKnownResultClass minor (opResultClass r) then PR_INVALID_RESULT_CLASS
      else if \<not> isValidResultCode (opResultClass r) (opResultCode r) then PR_INVALID_RESULT_CODE
      else if opResultClass r = RC_EVENT_RESULT then
        (if opCategory r \<noteq> CAT_EVENT then PR_INVALID_RESULT_CLASS
         else if opResultCode r = EVENT_NOT_FOUND \<and> opOperation r \<noteq> CONSUME_EVENT
           \<or> opResultCode r = EVENT_STORAGE_FAILURE \<and> opOperation r \<noteq> POLL_EVENTS \<and> opOperation r \<noteq> CONSUME_EVENT
           then PR_INVALID_RESULT_CODE
         else okIf (isNoneValue (opValue r)))
      else if opCategory r = CAT_EVENT then
        (if opResultClass r = RC_SUCCESS \<and> opResultCode r = SUCCESS_OK then
           (if opOperation r = POLL_EVENTS then okIf (isValidStructureValue (opOperation r) (opValue r))
            else okIf (isNoneValue (opValue r)))
         else okIf (opResultClass r = RC_REQUEST_REJECTED \<and> isNoneValue (opValue r)))
      else if opResultClass r = RC_OPERATION_RESULT \<and> operationStatus_of (opResultCode r) = OS_OK
        then okIf (isValidSuccessfulOperationValue (opOperation r) (opValue r))
      else okIf (isNoneValue (opValue r)))"

definition validateOperationResponse_0_1 :: "operationResponse \<Rightarrow> payloadResult" where
  "validateOperationResponse_0_1 r = validateOperationResponse VERSION_MINOR_0_1 r"

definition encodeOperationResponse :: "u8 \<Rightarrow> operationResponse \<Rightarrow> bytes option \<Rightarrow> nat \<Rightarrow> encoded" where
  "encodeOperationResponse minor r output outputCapacity = (case output of None \<Rightarrow> (PR_NULL_ARGUMENT, 0, None) | Some out \<Rightarrow>
     let validation = validateOperationResponse minor r; len = unat (tvLength (opValue r));
       required = OPERATION_RESPONSE_FIXED_SIZE + len in
     if validation \<noteq> PR_OK then (validation, 0, output)
     else if required > HOST_MAX_PAYLOAD_SIZE then (PR_INVALID_LENGTH, 0, output)
     else if outputCapacity < required then (PR_OUTPUT_TOO_SMALL, 0, output)
     else let out = out[0 := operationCategory_code (opCategory r), 1 := operationCode_code (opOperation r),
         2 := opTargetDeviceId r];
       out = (putLe16 out 3 (opTargetId r))[5 := resultClass_code (opResultClass r), 6 := opResultCode r,
         7 := tvType (opValue r), 8 := tvLength (opValue r)] in
       (PR_OK, required, Some (copyBytes out 9 (tvBytes (opValue r)) len)))"

definition encodeOperationResponse_0_1 :: "operationResponse \<Rightarrow> bytes option \<Rightarrow> nat \<Rightarrow> encoded" where
  "encodeOperationResponse_0_1 r output outputCapacity = encodeOperationResponse VERSION_MINOR_0_1 r output outputCapacity"

definition decodeOperationResponse :: "u8 \<Rightarrow> bytes option \<Rightarrow> nat \<Rightarrow> payloadResult + operationResponse" where
  "decodeOperationResponse minor input inputLength = (case input of None \<Rightarrow> Inl PR_NULL_ARGUMENT | Some bs \<Rightarrow>
     if inputLength < OPERATION_RESPONSE_FIXED_SIZE \<or> inputLength > HOST_MAX_PAYLOAD_SIZE then Inl PR_INVALID_LENGTH
     else let valueLength = bs ! 8 in
       if inputLength \<noteq> OPERATION_RESPONSE_FIXED_SIZE + unat valueLength then Inl PR_INVALID_LENGTH
       else let candidate = \<lparr>opCategory = operationCategory_of (bs ! 0), opOperation = operationCode_of (bs ! 1),
           opTargetDeviceId = bs ! 2, opTargetId = getLe16 bs 3, opResultClass = resultClass_of (bs ! 5),
           opResultCode = bs ! 6, opValue = receivedValue (bs ! 7) valueLength 9 bs\<rparr> in
         if tvType (opValue candidate) \<noteq> STRUCTURE_VALUE_TYPE \<and> \<not> isValidScalarValue (opValue candidate) then
           Inl (if \<not> isKnownHostValueType (tvType (opValue candidate)) then PR_INVALID_VALUE_TYPE else PR_INVALID_VALUE)
         else let validation = validateOperationResponse minor candidate in
           if validation \<noteq> PR_OK then Inl validation else Inr candidate)"

definition decodeOperationResponse_0_1 :: "bytes option \<Rightarrow> nat \<Rightarrow> payloadResult + operationResponse" where
  "decodeOperationResponse_0_1 input inputLength = decodeOperationResponse VERSION_MINOR_0_1 input inputLength"

subsection \<open>Protocol errors\<close>

definition isValidProtocolError :: "protocolError \<Rightarrow> bool" where
  "isValidProtocolError e = (isKnownProtocolError (peErrorCode e) \<and> peDetail e = 0)"

definition encodeProtocolError :: "protocolError \<Rightarrow> bytes option \<Rightarrow> nat \<Rightarrow> encoded" where
  "encodeProtocolError e output outputCapacity = (case output of None \<Rightarrow> (PR_NULL_ARGUMENT, 0, None) | Some out \<Rightarrow>
     if \<not> isValidProtocolError e then (PR_INVALID_FIELD, 0, output)
     else if outputCapacity < PROTOCOL_ERROR_PAYLOAD_SIZE then (PR_OUTPUT_TOO_SMALL, 0, output)
     else (PR_OK, PROTOCOL_ERROR_PAYLOAD_SIZE,
       Some (putLe16 (out[0 := protocolErrorCode_code (peErrorCode e), 1 := peOffendingType e]) 2 (peDetail e))))"

definition decodeProtocolError :: "bytes option \<Rightarrow> nat \<Rightarrow> payloadResult + protocolError" where
  "decodeProtocolError input inputLength = (case input of None \<Rightarrow> Inl PR_NULL_ARGUMENT | Some bs \<Rightarrow>
     if inputLength \<noteq> PROTOCOL_ERROR_PAYLOAD_SIZE then Inl PR_INVALID_LENGTH
     else let candidate = \<lparr>peErrorCode = protocolErrorCode_of (bs ! 0), peOffendingType = bs ! 1, peDetail = getLe16 bs 2\<rparr> in
       if \<not> isValidProtocolError candidate then Inl PR_INVALID_FIELD else Inr candidate)"

subsection \<open>Structured records\<close>

definition structureValue :: "u8 \<Rightarrow> bytes \<Rightarrow> typedValue" where
  "structureValue len bs = \<lparr>tvType = STRUCTURE_VALUE_TYPE, tvLength = len, tvBytes = bs\<rparr>"

definition encodeDeviceInfoRecord :: "deviceInfoRecord \<Rightarrow> payloadResult + typedValue" where
  "encodeDeviceInfoRecord r =
     (if \<not> isKnownHardwareProfile (diHardwareProfile r) \<or> \<not> isKnownDeviceRole (diRole r) then Inl PR_INVALID_FIELD
      else Inr (structureValue DEVICE_INFO_SIZE ((tvBytes typedValue_init)[0 := diFirmwareMajor r, 1 := diFirmwareMinor r,
        2 := diFirmwarePatch r, 3 := diWireProtocol r, 4 := diConfigurationSchema r,
        5 := hardwareProfile_code (diHardwareProfile r), 6 := hostRole_code (diRole r), 7 := diDeviceId r])))"

definition decodeDeviceInfoRecord :: "typedValue \<Rightarrow> payloadResult + deviceInfoRecord" where
  "decodeDeviceInfoRecord v =
     (if tvType v \<noteq> STRUCTURE_VALUE_TYPE \<or> tvLength v \<noteq> DEVICE_INFO_SIZE then Inl PR_INVALID_VALUE
      else let bs = tvBytes v; candidate = \<lparr>diFirmwareMajor = bs ! 0, diFirmwareMinor = bs ! 1, diFirmwarePatch = bs ! 2,
          diWireProtocol = bs ! 3, diConfigurationSchema = bs ! 4, diHardwareProfile = hardwareProfile_of (bs ! 5),
          diRole = hostRole_of (bs ! 6), diDeviceId = bs ! 7\<rparr> in
        if \<not> isKnownHardwareProfile (diHardwareProfile candidate) \<or> \<not> isKnownDeviceRole (diRole candidate)
        then Inl PR_INVALID_FIELD else Inr candidate)"

definition encodeStatusRecord :: "statusRecord \<Rightarrow> payloadResult + typedValue" where
  "encodeStatusRecord r =
     (if srStatusFlags r AND RESERVED_STATUS_FLAGS \<noteq> 0 then Inl PR_INVALID_FIELD
      else Inr (structureValue STATUS_SIZE (putLe16 (putLe16 (putLe32 (putLe16 (tvBytes typedValue_init) 0 (srStatusFlags r))
        2 (srUptimeSeconds r)) 6 (srRetryCount r)) 8 (srTimeoutCount r))))"

definition decodeStatusRecord :: "typedValue \<Rightarrow> payloadResult + statusRecord" where
  "decodeStatusRecord v =
     (if tvType v \<noteq> STRUCTURE_VALUE_TYPE \<or> tvLength v \<noteq> STATUS_SIZE then Inl PR_INVALID_VALUE
      else let bs = tvBytes v; candidate = \<lparr>srStatusFlags = getLe16 bs 0, srUptimeSeconds = getLe32 bs 2,
          srRetryCount = getLe16 bs 6, srTimeoutCount = getLe16 bs 8\<rparr> in
        if srStatusFlags candidate AND RESERVED_STATUS_FLAGS \<noteq> 0 then Inl PR_INVALID_FIELD else Inr candidate)"

text \<open>The loop of the page encoder stops at a reserved identifier before anything is assigned, so the check stands
  before the copy.  The arrays of a decoded page keep their zeros behind the count.\<close>

definition encodeCapabilityPageRecord :: "capabilityPageRecord \<Rightarrow> payloadResult + typedValue" where
  "encodeCapabilityPageRecord r =
     (let n = unat (cpCount r) in
      if cpCount r > MAX_CAPABILITY_PAGE_ENTRIES then Inl PR_INVALID_FIELD
      else if \<exists>k\<in>{0..<n}. cpCapabilityIds r ! k = INVALID_CAPABILITY_ID then Inl PR_INVALID_FIELD
      else Inr (structureValue (3 + 2 * cpCount r) (fold (\<lambda>k buf. putLe16 buf (3 + 2 * k) (cpCapabilityIds r ! k)) [0..<n]
        ((putLe16 (tvBytes typedValue_init) 0 (cpNextCursor r))[2 := cpCount r]))))"

definition decodeCapabilityPageRecord :: "typedValue \<Rightarrow> payloadResult + capabilityPageRecord" where
  "decodeCapabilityPageRecord v =
     (if tvType v \<noteq> STRUCTURE_VALUE_TYPE \<or> tvLength v < 3 \<or> tvLength v > 21 \<or> (unat (tvLength v) - 3) mod 2 \<noteq> 0
      then Inl PR_INVALID_VALUE
      else let bs = tvBytes v; n = unat (bs ! 2) in
        if bs ! 2 > MAX_CAPABILITY_PAGE_ENTRIES \<or> unat (tvLength v) \<noteq> 3 + 2 * n then Inl PR_INVALID_FIELD
        else if \<exists>k\<in>{0..<n}. getLe16 bs (3 + 2 * k) = INVALID_CAPABILITY_ID then Inl PR_INVALID_FIELD
        else Inr \<lparr>cpNextCursor = getLe16 bs 0, cpCount = bs ! 2, cpCapabilityIds =
          map (\<lambda>k. if k < n then getLe16 bs (3 + 2 * k) else 0) [0..<unat MAX_CAPABILITY_PAGE_ENTRIES]\<rparr>)"

definition encodeCapabilityDescriptionRecord :: "capabilityDescriptionRecord \<Rightarrow> payloadResult + typedValue" where
  "encodeCapabilityDescriptionRecord r =
     (if \<not> isKnownCapabilityClass (cnCapabilityClass r) \<or> \<not> isKnownValueType (cnValueType r)
         \<or> \<not> hasKnownOperationFlags (cnOperationFlags r) \<or> \<not> isKnownUnitCode (cnUnit r)
         \<or> cnAvailability r > 1 \<or> cnReserved r \<noteq> 0 then Inl PR_INVALID_FIELD
      else Inr (structureValue CAPABILITY_DESCRIPTION_SIZE ((tvBytes typedValue_init)[
        0 := capabilityClass_code (cnCapabilityClass r), 1 := valueType_code (cnValueType r), 2 := cnOperationFlags r,
        3 := cnUnit r, 4 := cnAvailability r, 5 := cnReserved r])))"

definition decodeCapabilityDescriptionRecord :: "typedValue \<Rightarrow> payloadResult + capabilityDescriptionRecord" where
  "decodeCapabilityDescriptionRecord v =
     (if tvType v \<noteq> STRUCTURE_VALUE_TYPE \<or> tvLength v \<noteq> CAPABILITY_DESCRIPTION_SIZE then Inl PR_INVALID_VALUE
      else let bs = tvBytes v; candidate = \<lparr>cnCapabilityClass = capabilityClass_of (bs ! 0), cnValueType = valueType_of (bs ! 1),
          cnOperationFlags = bs ! 2, cnUnit = bs ! 3, cnAvailability = bs ! 4, cnReserved = bs ! 5\<rparr> in
        if isl (encodeCapabilityDescriptionRecord candidate) then Inl PR_INVALID_FIELD else Inr candidate)"

definition diagnosticEntry_init :: diagnosticEntry where
  "diagnosticEntry_init = \<lparr>deMetricId = 0, deValue = 0\<rparr>"

definition encodeDiagnosticPageRecord :: "diagnosticPageRecord \<Rightarrow> payloadResult + typedValue" where
  "encodeDiagnosticPageRecord r =
     (if dpCount r > MAX_DIAGNOSTIC_PAGE_ENTRIES then Inl PR_INVALID_FIELD
      else Inr (structureValue (2 + 5 * dpCount r)
        (fold (\<lambda>k buf. putLe32 (buf[2 + 5 * k := deMetricId (dpEntries r ! k)]) (3 + 5 * k) (deValue (dpEntries r ! k)))
          [0..<unat (dpCount r)] ((tvBytes typedValue_init)[0 := dpNextCursor r, 1 := dpCount r]))))"

definition decodeDiagnosticPageRecord :: "typedValue \<Rightarrow> payloadResult + diagnosticPageRecord" where
  "decodeDiagnosticPageRecord v =
     (if tvType v \<noteq> STRUCTURE_VALUE_TYPE \<or> tvLength v < 2 \<or> tvLength v > 17 \<or> (unat (tvLength v) - 2) mod 5 \<noteq> 0
      then Inl PR_INVALID_VALUE
      else let bs = tvBytes v; n = unat (bs ! 1) in
        if bs ! 1 > MAX_DIAGNOSTIC_PAGE_ENTRIES \<or> unat (tvLength v) \<noteq> 2 + 5 * n then Inl PR_INVALID_FIELD
        else Inr \<lparr>dpNextCursor = bs ! 0, dpCount = bs ! 1, dpEntries =
          map (\<lambda>k. if k < n then \<lparr>deMetricId = bs ! (2 + 5 * k), deValue = getLe32 bs (3 + 5 * k)\<rparr>
            else diagnosticEntry_init) [0..<unat MAX_DIAGNOSTIC_PAGE_ENTRIES]\<rparr>)"

end
