(* ===== verification/HostMessageCodecs.thy ===== *)
theory HostMessageCodecs
  imports HostOperations
begin

text \<open>
  The facts about the message bodies of \<^verbatim>\<open>lib/host_protocol/src/host_protocol_messages.h\<close>: the codes of
  the enumerations, that validation reads only the bytes a value announces, and the round trips of requests,
  responses and structured records.
\<close>

subsection \<open>Enumerations\<close>

named_theorems enum_codes

lemma operationCategory_code_of [simp]: "operationCategory_code (operationCategory_of b) = b"
  by (simp add: operationCategory_of_def)

lemma operationCode_code_of [simp]: "operationCode_code (operationCode_of b) = b"
  by (simp add: operationCode_of_def)

lemma resultClass_code_of [simp]: "resultClass_code (resultClass_of b) = b"
  by (simp add: resultClass_of_def)

lemma protocolErrorCode_code_of [simp]: "protocolErrorCode_code (protocolErrorCode_of b) = b"
  by (simp add: protocolErrorCode_of_def)

lemma hostRole_code_of [simp]: "hostRole_code (hostRole_of b) = b"
  by (simp add: hostRole_of_def)

lemma hardwareProfile_code_of [simp]: "hardwareProfile_code (hardwareProfile_of b) = b"
  by (simp add: hardwareProfile_of_def)

lemma capabilityClass_code_of [simp]: "capabilityClass_code (capabilityClass_of b) = b"
  by (simp add: capabilityClass_of_def)

lemma operationCategory_of_code [enum_codes]: "isKnownOperationCategory minor c \<Longrightarrow> operationCategory_of (operationCategory_code c) = c"
  by (cases c) (auto simp: isKnownOperationCategory_def isKnownOperationCategory_0_1_def operationCategory_of_def)

lemma operationCode_of_code [enum_codes]: "isKnownOperationCode minor op \<Longrightarrow> operationCode_of (operationCode_code op) = op"
  by (cases op) (auto simp: isKnownOperationCode_def isKnownOperationCode_0_1_def operationCode_of_def)

lemma resultClass_of_code [enum_codes]: "isKnownResultClass minor c \<Longrightarrow> resultClass_of (resultClass_code c) = c"
  by (cases c) (auto simp: isKnownResultClass_def isKnownResultClass_0_1_def resultClass_of_def)

lemma protocolErrorCode_of_code [enum_codes]: "isKnownProtocolError e \<Longrightarrow> protocolErrorCode_of (protocolErrorCode_code e) = e"
  by (cases e) (auto simp: protocolErrorCode_of_def)

lemma hostRole_of_code [enum_codes]: "isKnownDeviceRole r \<Longrightarrow> hostRole_of (hostRole_code r) = r"
  by (auto simp: isKnownDeviceRole_def hostRole_of_def)

lemma hardwareProfile_of_code [enum_codes]: "isKnownHardwareProfile p \<Longrightarrow> hardwareProfile_of (hardwareProfile_code p) = p"
  by (auto simp: isKnownHardwareProfile_def hardwareProfile_of_def)

lemma capabilityClass_of_code [enum_codes]: "isKnownCapabilityClass c \<Longrightarrow> capabilityClass_of (capabilityClass_code c) = c"
  by (cases c) (auto simp: capabilityClass_of_def)

lemma valueType_of_code [enum_codes]: "isKnownValueType t \<Longrightarrow> valueType_of (valueType_code t) = t"
  by (cases t) (auto simp: valueType_of_def)

text \<open>Codes that are registered give members of the enumeration: a raw constructor never passes validation.\<close>

lemma classify_valid:
  "classifyCategoryOperation minor (operationCategory_code c) (operationCode_code op) \<noteq> OC_MALFORMED \<Longrightarrow>
   isValidOperationTarget c op targetId \<Longrightarrow> isKnownOperationCategory minor c"
  by (cases c) (auto simp: classifyCategoryOperation_def operationCategory_of_def Let_def split: if_splits)

subsection \<open>Buffers\<close>

lemma getLe_cong:
  assumes "\<forall>k<n. a ! k = b ! k"
  shows "off + 2 \<le> n \<Longrightarrow> getLe16 a off = getLe16 b off" "off + 4 \<le> n \<Longrightarrow> getLe32 a off = getLe32 b off"
    "off + 9 \<le> n \<Longrightarrow> getIdentity a off = getIdentity b off"
  using assms by (simp_all add: getLe16_def getLe32_def getIdentity_def)

text \<open>Two values that agree in type, length and the announced bytes.\<close>

definition sameValue :: "typedValue \<Rightarrow> typedValue \<Rightarrow> bool" where
  "sameValue v w = (tvType v = tvType w \<and> tvLength v = tvLength w
     \<and> length (tvBytes v) = HOST_MAX_REQUEST_VALUE_SIZE \<and> length (tvBytes w) = HOST_MAX_REQUEST_VALUE_SIZE
     \<and> (\<forall>k<unat (tvLength v). tvBytes v ! k = tvBytes w ! k))"

lemma sameValue_scalar: "sameValue v w \<Longrightarrow> isValidScalarValue v = isValidScalarValue w"
  by (auto simp: sameValue_def isValidScalarValue_def expectedScalarValueLength_def valueType_of_def)

lemma sameValue_none: "sameValue v w \<Longrightarrow> isNoneValue v = isNoneValue w"
  by (simp add: sameValue_def isNoneValue_def)

lemma sameValue_type: "sameValue v w \<Longrightarrow> tvType v = tvType w \<and> tvLength v = tvLength w"
  by (simp add: sameValue_def)

lemma sameValue_identity:
  assumes "sameValue v w" and "tvLength v = HOST_EVENT_IDENTITY_SIZE"
  shows "decodeHostEventIdentity (Some (tvBytes v)) (unat (tvLength v)) =
    decodeHostEventIdentity (Some (tvBytes w)) (unat (tvLength v))"
proof -
  have "\<forall>k<9. tvBytes v ! k = tvBytes w ! k" using assms by (simp add: sameValue_def)
  from getLe_cong [OF this] this show ?thesis by (simp add: decodeHostEventIdentity_def)
qed

lemma sameValue_eventRecord:
  assumes "sameValue v w" and "tvLength v = HOST_EVENT_RECORD_SIZE"
  shows "decodeHostEventRecord (Some (tvBytes v)) (unat (tvLength v)) =
    decodeHostEventRecord (Some (tvBytes w)) (unat (tvLength v))"
proof -
  have eq: "\<forall>k<29. tvBytes v ! k = tvBytes w ! k" and len: "length (tvBytes v) = 121" "length (tvBytes w) = 121"
    using assms by (simp_all add: sameValue_def)
  have "slice 17 12 (tvBytes v) = slice 17 12 (tvBytes w)"
    by (rule nth_equalityI) (use eq len in \<open>auto simp: nth_slice\<close>)
  with getLe_cong [OF eq] eq show ?thesis by (simp add: decodeHostEventRecord_def)
qed

lemma sameValue_eventDiagnostics:
  assumes "sameValue v w" and "tvLength v = EVENT_DIAGNOSTICS_RECORD_SIZE"
  shows "decodeEventDiagnosticsRecord v = decodeEventDiagnosticsRecord w"
proof -
  have eq: "\<forall>k<111. tvBytes v ! k = tvBytes w ! k" using assms by (simp add: sameValue_def)
  have counters: "map (\<lambda>k. getLe32 (tvBytes v) (51 + 4 * k)) [0..<15] = map (\<lambda>k. getLe32 (tvBytes w) (51 + 4 * k)) [0..<15]"
    by (rule map_cong) (auto intro: getLe_cong [OF eq])
  from getLe_cong [OF eq] eq sameValue_type [OF assms(1)] show ?thesis
    by (simp add: counters decodeEventDiagnosticsRecord_def del: upt_rec_numeral upt_conv_Cons)
qed

lemma sameValue_txDiagnostics:
  assumes "sameValue v w" and "tvLength v = EVENT_TX_DIAGNOSTICS_SIZE"
  shows "decodeEventTxDiagnostics v = decodeEventTxDiagnostics w"
proof -
  have eq: "\<forall>k<99. tvBytes v ! k = tvBytes w ! k" using assms by (simp add: sameValue_def)
  have counters: "map (\<lambda>k. getLe16 (tvBytes v) (39 + 2 * k)) [0..<30] = map (\<lambda>k. getLe16 (tvBytes w) (39 + 2 * k)) [0..<30]"
    by (rule map_cong) (auto intro: getLe_cong [OF eq])
  from getLe_cong [OF eq] eq sameValue_type [OF assms(1)] show ?thesis
    by (simp add: counters decodeEventTxDiagnostics_def del: upt_rec_numeral upt_conv_Cons)
qed

lemma sameValue_structure:
  assumes same: "sameValue v w"
  shows "isValidStructureValue op v = isValidStructureValue op w"
proof -
  note t = sameValue_type [OF same]
  have eq: "\<forall>k<unat (tvLength v). tvBytes v ! k = tvBytes w ! k" using same by (simp add: sameValue_def)
  note le = getLe_cong [OF eq]
  show ?thesis
  proof (cases op)
    case GET_CAPABILITIES
    show ?thesis
    proof (cases "3 \<le> unat (tvLength v)")
      case True
      then have "tvBytes v ! 2 = tvBytes w ! 2" using eq by simp
      moreover have "getLe16 (tvBytes v) (3 + 2 * k) = getLe16 (tvBytes w) (3 + 2 * k)"
        if "k < unat (tvBytes w ! 2)" "unat (tvLength v) = 3 + 2 * unat (tvBytes w ! 2)" for k
        using that by (intro le) simp
      ultimately show ?thesis using t GET_CAPABILITIES by (auto simp: isValidStructureValue_def Let_def)
    next
      case False
      then show ?thesis using t GET_CAPABILITIES by (simp add: isValidStructureValue_def word_le_nat_alt)
    qed
  next
    case GET_DIAGNOSTICS
    then show ?thesis using t eq by (auto simp: isValidStructureValue_def word_le_nat_alt)
  next
    case GET_EVENT_DIAGNOSTICS
    then show ?thesis using t sameValue_txDiagnostics [OF same] sameValue_eventDiagnostics [OF same]
      by (auto simp: isValidStructureValue_def)
  next
    case POLL_EVENTS
    then show ?thesis using t sameValue_eventRecord [OF same] by (auto simp: isValidStructureValue_def)
  next
    case GET_STATUS
    then show ?thesis using t le(1) [of 0] by (auto simp: isValidStructureValue_def)
  qed (use t eq in \<open>auto simp: isValidStructureValue_def\<close>)
qed

lemma sameValue_success:
  assumes "sameValue v w" shows "isValidSuccessfulOperationValue op v = isValidSuccessfulOperationValue op w"
  using sameValue_type [OF assms] sameValue_scalar [OF assms] sameValue_none [OF assms] sameValue_structure [OF assms]
  by (cases op) (auto simp: isNonNoneScalarValue_def)

lemma sameValue_requestValue:
  assumes same: "sameValue v w" shows "isValidOperationRequestValue op v = isValidOperationRequestValue op w"
proof (cases op)
  case GET_EVENT_DIAGNOSTICS
  have "\<forall>k<unat (tvLength v). tvBytes v ! k = tvBytes w ! k" using same by (simp add: sameValue_def)
  from getLe_cong(2) [OF this, of 0] have "tvLength v = 4 \<Longrightarrow> getLe32 (tvBytes v) 0 = getLe32 (tvBytes w) 0" by simp
  moreover have "isValidScalarValue v \<Longrightarrow> tvType v = 2 \<Longrightarrow> tvLength v = 4"
    by (simp add: isValidScalarValue_def expectedScalarValueLength_def valueType_of_def split: if_splits)
  ultimately show ?thesis using GET_EVENT_DIAGNOSTICS sameValue_type [OF same] sameValue_scalar [OF same] sameValue_none [OF same]
    by auto
qed (use sameValue_type [OF same] sameValue_scalar [OF same] sameValue_none [OF same] in auto)

lemma sameValue_request:
  assumes "sameValue (oqValue q) w"
  shows "validateOperationRequest minor (q\<lparr>oqValue := w\<rparr>) = validateOperationRequest minor q"
  using sameValue_type [OF assms] sameValue_none [OF assms] sameValue_requestValue [OF assms] sameValue_identity [OF assms]
  by (simp add: validateOperationRequest_def Let_def cong: conj_cong)

lemma sameValue_response:
  assumes "sameValue (opValue r) w"
  shows "validateOperationResponse minor (r\<lparr>opValue := w\<rparr>) = validateOperationResponse minor r"
  using sameValue_none [OF assms] sameValue_success [OF assms] sameValue_structure [OF assms]
  by (simp add: validateOperationResponse_def Let_def)

subsection \<open>Requests and responses\<close>

lemma none_scalar: "isNoneValue v \<Longrightarrow> isValidScalarValue v"
  by (simp add: isNoneValue_def isValidScalarValue_def expectedScalarValueLength_def valueType_of_def)

lemma isNoneValue_type: "isNoneValue v \<Longrightarrow> tvType v = 0 \<and> tvLength v = 0"
  by (simp add: isNoneValue_def)

lemma valid_requestValue: "isValidOperationRequestValue op v \<Longrightarrow> isValidScalarValue v"
  by (cases op) (auto intro: none_scalar)

lemma valid_successValue: "isValidSuccessfulOperationValue op v \<Longrightarrow> isValidScalarValue v \<or> tvType v = STRUCTURE_VALUE_TYPE"
  by (cases op) (auto intro: none_scalar simp: isNonNoneScalarValue_def isValidStructureValue_def split: if_splits)

lemma operationCode_of_registered: "(\<And>b. op \<noteq> OperationCode_raw b) \<Longrightarrow> operationCode_of (operationCode_code op) = op"
  by (cases op) (simp_all add: operationCode_of_def)

lemma operationCode_of_event [simp]: "operationCode_of 0x29 = POLL_EVENTS" "operationCode_of 0x2A = CONSUME_EVENT"
  by (simp_all add: operationCode_of_def)

lemma valid_requestValue_code: "isValidOperationRequestValue op v \<Longrightarrow> operationCode_of (operationCode_code op) = op"
  by (rule operationCode_of_registered) auto

lemma valid_request:
  assumes "validateOperationRequest minor q = PR_OK"
  shows "isKnownOperationCategory minor (oqCategory q)" "operationCode_of (operationCode_code (oqOperation q)) = oqOperation q"
    "isValidScalarValue (oqValue q) \<or> tvType (oqValue q) = STRUCTURE_VALUE_TYPE"
  using assms classify_valid [of minor "oqCategory q" "oqOperation q" "oqTargetId q"]
  by (auto simp: validateOperationRequest_def Let_def operationCode_of_registered
      intro: none_scalar valid_requestValue valid_requestValue_code split: if_splits)

lemma valid_response:
  assumes "validateOperationResponse minor r = PR_OK"
  shows "isKnownOperationCategory minor (opCategory r)" "isKnownResultClass minor (opResultClass r)"
    "isValidScalarValue (opValue r) \<or> tvType (opValue r) = STRUCTURE_VALUE_TYPE"
  using assms classify_valid [of minor "opCategory r" "opOperation r" "opTargetId r"]
  by (auto simp: validateOperationResponse_def Let_def okIf_def isValidStructureValue_def
      intro: none_scalar dest: valid_successValue split: if_splits)

text \<open>What a message carries of a value: the announced bytes, and zeros behind them.\<close>

definition normalValue :: "typedValue \<Rightarrow> typedValue" where
  "normalValue v = v\<lparr>tvBytes := zeroPadded (tvBytes v) (unat (tvLength v)) HOST_MAX_REQUEST_VALUE_SIZE\<rparr>"

lemma sameValue_normal: "length (tvBytes v) = HOST_MAX_REQUEST_VALUE_SIZE \<Longrightarrow> unat (tvLength v) \<le> HOST_MAX_REQUEST_VALUE_SIZE
    \<Longrightarrow> sameValue v (normalValue v)"
  by (simp add: sameValue_def normalValue_def nth_zeroPadded)

lemma receivedValue_normal:
  assumes "\<forall>k<unat (tvLength v). off + k < length bs \<and> bs ! (off + k) = tvBytes v ! k"
  shows "receivedValue (tvType v) (tvLength v) off bs = normalValue v"
proof -
  have "copyBytes (fillZero 121) 0 (drop off bs) (unat (tvLength v)) = zeroPadded (tvBytes v) (unat (tvLength v)) 121"
    by (rule nth_equalityI) (use assms in \<open>auto simp: nth_copyBytes nth_zeroPadded\<close>)
  then show ?thesis by (simp add: receivedValue_def normalValue_def)
qed

lemma request_decode_encode:
  assumes enc: "encodeOperationRequest minor q (Some out) cap = (PR_OK, n, Some out')"
    and cap: "cap \<le> length out" and len: "length (tvBytes (oqValue q)) = HOST_MAX_REQUEST_VALUE_SIZE"
  shows "decodeOperationRequest minor (Some out') n = Inr (q\<lparr>oqValue := normalValue (oqValue q)\<rparr>)"
proof -
  define v where "v = oqValue q"
  have ok: "validateOperationRequest minor q = PR_OK" and n: "n = 7 + unat (tvLength v)" "n \<le> 128" "n \<le> length out"
    and out': "out' = copyBytes ((putLe16 (out[0 := operationCategory_code (oqCategory q),
       1 := operationCode_code (oqOperation q), 2 := oqTargetDeviceId q]) 3 (oqTargetId q))[5 := tvType v, 6 := tvLength v])
       7 (tvBytes v) (unat (tvLength v))"
    using enc cap by (auto simp: encodeOperationRequest_def Let_def v_def split: if_splits)
  note valid = valid_request [OF ok, folded v_def]
  have "out \<noteq> []" using n by auto
  then have nth: "out' ! 0 = operationCategory_code (oqCategory q)" "out' ! 1 = operationCode_code (oqOperation q)"
    "out' ! 2 = oqTargetDeviceId q" "getLe16 out' 3 = oqTargetId q" "out' ! 5 = tvType v" "out' ! 6 = tvLength v"
    using n by (simp_all add: out' buffer_simps)
  have val: "receivedValue (out' ! 5) (out' ! 6) 7 out' = normalValue v"
    unfolding nth using n by (intro receivedValue_normal) (auto simp: out' nth_copyBytes)
  have same: "sameValue v (normalValue v)"
    by (rule sameValue_normal) (use len n v_def in simp_all)
  note sv = sameValue_request [OF same [unfolded v_def], folded v_def, of minor] sameValue_scalar [OF same] sameValue_type [OF same]
  have cand: "\<lparr>oqCategory = operationCategory_of (out' ! 0), oqOperation = operationCode_of (out' ! 1),
      oqTargetDeviceId = out' ! 2, oqTargetId = getLe16 out' 3, oqValue = receivedValue (out' ! 5) (out' ! 6) 7 out'\<rparr>
      = q\<lparr>oqValue := normalValue v\<rparr>"
    unfolding val unfolding nth using valid by (simp add: enum_codes)
  show ?thesis
    unfolding decodeOperationRequest_def option.case Let_def cand v_def [symmetric]
    using n sv valid(3) ok by (auto simp: nth)
qed

lemma response_decode_encode:
  assumes enc: "encodeOperationResponse minor r (Some out) cap = (PR_OK, n, Some out')"
    and cap: "cap \<le> length out" and len: "length (tvBytes (opValue r)) = HOST_MAX_REQUEST_VALUE_SIZE"
    and op: "operationCode_of (operationCode_code (opOperation r)) = opOperation r"
  shows "decodeOperationResponse minor (Some out') n = Inr (r\<lparr>opValue := normalValue (opValue r)\<rparr>)"
proof -
  define v where "v = opValue r"
  have ok: "validateOperationResponse minor r = PR_OK" and n: "n = 9 + unat (tvLength v)" "n \<le> 128" "n \<le> length out"
    and out': "out' = copyBytes ((putLe16 (out[0 := operationCategory_code (opCategory r),
       1 := operationCode_code (opOperation r), 2 := opTargetDeviceId r]) 3 (opTargetId r))[5 := resultClass_code (opResultClass r), 6 := opResultCode r,
       7 := tvType v, 8 := tvLength v])
       9 (tvBytes v) (unat (tvLength v))"
    using enc cap by (auto simp: encodeOperationResponse_def Let_def v_def split: if_splits)
  note valid = valid_response [OF ok, folded v_def]
  have "out \<noteq> []" using n by auto
  then have nth: "out' ! 0 = operationCategory_code (opCategory r)" "out' ! 1 = operationCode_code (opOperation r)"
    "out' ! 2 = opTargetDeviceId r" "getLe16 out' 3 = opTargetId r" "out' ! 5 = resultClass_code (opResultClass r)"
    "out' ! 6 = opResultCode r" "out' ! 7 = tvType v" "out' ! 8 = tvLength v"
    using n by (simp_all add: out' buffer_simps)
  have val: "receivedValue (out' ! 7) (out' ! 8) 9 out' = normalValue v"
    unfolding nth using n by (intro receivedValue_normal) (auto simp: out' nth_copyBytes)
  have same: "sameValue v (normalValue v)"
    by (rule sameValue_normal) (use len n v_def in simp_all)
  note sv = sameValue_response [OF same [unfolded v_def], folded v_def, of minor] sameValue_scalar [OF same] sameValue_type [OF same]
  have cand: "\<lparr>opCategory = operationCategory_of (out' ! 0), opOperation = operationCode_of (out' ! 1),
      opTargetDeviceId = out' ! 2, opTargetId = getLe16 out' 3, opResultClass = resultClass_of (out' ! 5),
      opResultCode = out' ! 6, opValue = receivedValue (out' ! 7) (out' ! 8) 9 out'\<rparr>
      = r\<lparr>opValue := normalValue v\<rparr>"
    unfolding val unfolding nth using valid op by (simp add: enum_codes)
  show ?thesis
    unfolding decodeOperationResponse_def option.case Let_def cand v_def [symmetric]
    using n sv valid(3) ok by (auto simp: nth)
qed

lemma classify_codes: "classifyCategoryOperation minor a b \<noteq> OC_MALFORMED \<Longrightarrow>
    isKnownOperationCategory minor (operationCategory_of a) \<and> isKnownOperationCode minor (operationCode_of b)"
  by (simp add: classifyCategoryOperation_def Let_def split: if_splits)

lemma le16_bytes: "getLe16 bs off = word16_of (bs ! off) (bs ! (off + 1))"
  by (simp add: getLe16_def)

lemma request_encode_decode:
  assumes dec: "decodeOperationRequest minor (Some bs) n = Inr q" and len: "n \<le> length bs"
    and cap: "n \<le> cap" "n \<le> length out"
  shows "\<exists>out'. encodeOperationRequest minor q (Some out) cap = (PR_OK, n, Some out') \<and> take n out' = take n bs"
proof -
  have n: "7 \<le> n" "n \<le> 128" "n = 7 + unat (bs ! 6)" and ok: "validateOperationRequest minor q = PR_OK"
    and q: "q = \<lparr>oqCategory = operationCategory_of (bs ! 0), oqOperation = operationCode_of (bs ! 1),
      oqTargetDeviceId = bs ! 2, oqTargetId = getLe16 bs 3, oqValue = receivedValue (bs ! 5) (bs ! 6) 7 bs\<rparr>"
    using dec by (auto simp: decodeOperationRequest_def Let_def split: if_splits)
  define out' where "out' = copyBytes ((putLe16 (out[0 := bs ! 0, 1 := bs ! 1, 2 := bs ! 2]) 3 (getLe16 bs 3))
      [5 := bs ! 5, 6 := bs ! 6]) 7 (tvBytes (oqValue q)) (unat (bs ! 6))"
  have "encodeOperationRequest minor q (Some out) cap = (PR_OK, n, Some out')"
    using ok n cap by (simp add: encodeOperationRequest_def Let_def out'_def) (simp add: q receivedValue_def)
  moreover have "take n out' = take n bs"
  proof (rule nth_equalityI)
    show "length (take n out') = length (take n bs)" using len cap by (simp add: out'_def)
    fix i assume i: "i < length (take n out')"
    then have "i < n" "i < length out" using cap by (auto simp: out'_def)
    show "take n out' ! i = take n bs ! i"
    proof (cases "7 \<le> i")
      case True
      moreover from this have "i - 7 < unat (bs ! 6)" using \<open>i < n\<close> n by simp
      ultimately show ?thesis using \<open>i < n\<close> \<open>i < length out\<close> n len
        by (simp add: out'_def q receivedValue_def nth_copyBytes)
    next
      case False
      then have "i \<in> {0, 1, 2, 3, 4, 5, 6}" by auto
      moreover have "out \<noteq> []" using cap n by auto
      ultimately show ?thesis using \<open>i < n\<close> cap n
        by (auto simp: out'_def nth_copyBytes putLe16_def le16_bytes nth_list_update)
    qed
  qed
  ultimately show ?thesis by blast
qed

lemma response_encode_decode:
  assumes dec: "decodeOperationResponse minor (Some bs) n = Inr r" and len: "n \<le> length bs"
    and cap: "n \<le> cap" "n \<le> length out"
  shows "\<exists>out'. encodeOperationResponse minor r (Some out) cap = (PR_OK, n, Some out') \<and> take n out' = take n bs"
proof -
  have n: "9 \<le> n" "n \<le> 128" "n = 9 + unat (bs ! 8)" and ok: "validateOperationResponse minor r = PR_OK"
    and r: "r = \<lparr>opCategory = operationCategory_of (bs ! 0), opOperation = operationCode_of (bs ! 1),
      opTargetDeviceId = bs ! 2, opTargetId = getLe16 bs 3, opResultClass = resultClass_of (bs ! 5),
      opResultCode = bs ! 6, opValue = receivedValue (bs ! 7) (bs ! 8) 9 bs\<rparr>"
    using dec by (auto simp: decodeOperationResponse_def Let_def split: if_splits)
  define out' where "out' = copyBytes ((putLe16 (out[0 := bs ! 0, 1 := bs ! 1, 2 := bs ! 2]) 3 (getLe16 bs 3))
      [5 := bs ! 5, 6 := bs ! 6, 7 := bs ! 7, 8 := bs ! 8]) 9 (tvBytes (opValue r)) (unat (bs ! 8))"
  have "encodeOperationResponse minor r (Some out) cap = (PR_OK, n, Some out')"
    using ok n cap by (simp add: encodeOperationResponse_def Let_def out'_def) (simp add: r receivedValue_def)
  moreover have "take n out' = take n bs"
  proof (rule nth_equalityI)
    show "length (take n out') = length (take n bs)" using len cap by (simp add: out'_def)
    fix i assume i: "i < length (take n out')"
    then have "i < n" "i < length out" using cap by (auto simp: out'_def)
    show "take n out' ! i = take n bs ! i"
    proof (cases "9 \<le> i")
      case True
      moreover from this have "i - 9 < unat (bs ! 8)" using \<open>i < n\<close> n by simp
      ultimately show ?thesis using \<open>i < n\<close> \<open>i < length out\<close> n len
        by (simp add: out'_def r receivedValue_def nth_copyBytes)
    next
      case False
      then have "i \<in> {0, 1, 2, 3, 4, 5, 6, 7, 8}" by auto
      moreover have "out \<noteq> []" using cap n by auto
      ultimately show ?thesis using \<open>i < n\<close> cap n
        by (auto simp: out'_def nth_copyBytes putLe16_def le16_bytes nth_list_update)
    qed
  qed
  ultimately show ?thesis by blast
qed

end
