(* ===== verification/HostRecordCodecs.thy ===== *)
theory HostRecordCodecs
  imports HostMessageCodecs
begin

text \<open>
  The structured records of \<^verbatim>\<open>lib/host_protocol/src/host_protocol_messages.h\<close>: every record that an encoder
  accepts is a value that response validation accepts and decodes back to the record, and response validation accepts
  exactly the values that the decoder of the operation accepts.
\<close>

subsection \<open>Arrays inside a record\<close>

lemma fold_putLe16:
  assumes "base + 2 * n \<le> length buf"
  shows "length (fold (\<lambda>k b. putLe16 b (base + 2 * k) (f k)) [0..<n] buf) = length buf \<and>
    (\<forall>i<base. fold (\<lambda>k b. putLe16 b (base + 2 * k) (f k)) [0..<n] buf ! i = buf ! i) \<and>
    (\<forall>k<n. getLe16 (fold (\<lambda>k b. putLe16 b (base + 2 * k) (f k)) [0..<n] buf) (base + 2 * k) = f k)"
  using assms by (induction n) (auto simp: buffer_simps less_Suc_eq)

lemma fold_putLe32:
  assumes "base + 4 * n \<le> length buf"
  shows "length (fold (\<lambda>k b. putLe32 b (base + 4 * k) (f k)) [0..<n] buf) = length buf \<and>
    (\<forall>i<base. fold (\<lambda>k b. putLe32 b (base + 4 * k) (f k)) [0..<n] buf ! i = buf ! i) \<and>
    (\<forall>k<n. getLe32 (fold (\<lambda>k b. putLe32 b (base + 4 * k) (f k)) [0..<n] buf) (base + 4 * k) = f k)"
  using assms by (induction n) (auto simp: buffer_simps less_Suc_eq)

lemma fold_entries:
  assumes "2 + 5 * n \<le> length buf"
  shows "length (fold (\<lambda>k b. putLe32 (b[2 + 5 * k := f k]) (3 + 5 * k) (g k)) [0..<n] buf) = length buf \<and>
    (\<forall>i<2. fold (\<lambda>k b. putLe32 (b[2 + 5 * k := f k]) (3 + 5 * k) (g k)) [0..<n] buf ! i = buf ! i) \<and>
    (\<forall>k<n. fold (\<lambda>k b. putLe32 (b[2 + 5 * k := f k]) (3 + 5 * k) (g k)) [0..<n] buf ! (2 + 5 * k) = f k \<and>
      getLe32 (fold (\<lambda>k b. putLe32 (b[2 + 5 * k := f k]) (3 + 5 * k) (g k)) [0..<n] buf) (3 + 5 * k) = g k)"
  using assms by (induction n) (auto simp: buffer_simps less_Suc_eq)

subsection \<open>Validation and decoding agree\<close>

lemma deviceInfo_valid_iff:
  "isValidStructureValue operationCode.GET_DEVICE_INFO v \<longleftrightarrow> \<not> isl (decodeDeviceInfoRecord v)"
  by (simp add: isValidStructureValue_def decodeDeviceInfoRecord_def Let_def)

lemma status_valid_iff: "isValidStructureValue operationCode.GET_STATUS v \<longleftrightarrow> \<not> isl (decodeStatusRecord v)"
  by (simp add: isValidStructureValue_def decodeStatusRecord_def Let_def)

lemma capabilityPage_valid_iff:
  "isValidStructureValue operationCode.GET_CAPABILITIES v \<longleftrightarrow> \<not> isl (decodeCapabilityPageRecord v)"
  by (auto simp: isValidStructureValue_def decodeCapabilityPageRecord_def Let_def not_less)

lemma description_valid_iff:
  "isValidStructureValue operationCode.DESCRIBE_CAPABILITY v \<longleftrightarrow> \<not> isl (decodeCapabilityDescriptionRecord v)"
  by (auto simp: isValidStructureValue_def decodeCapabilityDescriptionRecord_def encodeCapabilityDescriptionRecord_def
      Let_def not_less)

lemma diagnosticPage_valid_iff:
  "isValidStructureValue operationCode.GET_DIAGNOSTICS v \<longleftrightarrow> \<not> isl (decodeDiagnosticPageRecord v)"
  by (auto simp: isValidStructureValue_def decodeDiagnosticPageRecord_def Let_def not_less)

lemma eventDiagnostics_valid_iff:
  "isValidStructureValue GET_EVENT_DIAGNOSTICS v \<longleftrightarrow>
     \<not> isl (decodeEventDiagnosticsRecord v) \<or> \<not> isl (decodeEventTxDiagnostics v)"
  by (auto simp: isValidStructureValue_def decodeEventDiagnosticsRecord_def decodeEventTxDiagnostics_def Let_def)

subsection \<open>Round trips\<close>

lemma tvBytes_init [simp]: "tvBytes typedValue_init = fillZero 121"
  by (simp add: typedValue_init_def)

lemma structureValue_sel [simp]:
  "tvType (structureValue n bs) = STRUCTURE_VALUE_TYPE" "tvLength (structureValue n bs) = n" "tvBytes (structureValue n bs) = bs"
  by (simp_all add: structureValue_def)

lemma deviceInfo_roundtrip: "encodeDeviceInfoRecord r = Inr v \<Longrightarrow> decodeDeviceInfoRecord v = Inr r"
  by (auto simp: encodeDeviceInfoRecord_def decodeDeviceInfoRecord_def Let_def buffer_simps enum_codes split: if_splits)

lemma status_roundtrip: "encodeStatusRecord r = Inr v \<Longrightarrow> decodeStatusRecord v = Inr r"
  by (auto simp: encodeStatusRecord_def decodeStatusRecord_def Let_def buffer_simps split: if_splits)

lemma description_roundtrip: "encodeCapabilityDescriptionRecord r = Inr v \<Longrightarrow> decodeCapabilityDescriptionRecord v = Inr r"
  by (auto simp: encodeCapabilityDescriptionRecord_def decodeCapabilityDescriptionRecord_def Let_def buffer_simps enum_codes
      split: if_splits)

text \<open>The arrays of a page record hold zeros behind the count.\<close>

definition pagePadded :: "capabilityPageRecord \<Rightarrow> bool" where
  "pagePadded r = (length (cpCapabilityIds r) = unat MAX_CAPABILITY_PAGE_ENTRIES
     \<and> (\<forall>k\<in>{unat (cpCount r)..<unat MAX_CAPABILITY_PAGE_ENTRIES}. cpCapabilityIds r ! k = 0))"

definition entriesPadded :: "diagnosticPageRecord \<Rightarrow> bool" where
  "entriesPadded r = (length (dpEntries r) = unat MAX_DIAGNOSTIC_PAGE_ENTRIES
     \<and> (\<forall>k\<in>{unat (dpCount r)..<unat MAX_DIAGNOSTIC_PAGE_ENTRIES}. dpEntries r ! k = diagnosticEntry_init))"

lemma unat_small_affine:
  fixes c :: u8
  shows "c \<le> 9 \<Longrightarrow> unat (3 + 2 * c) = 3 + 2 * unat c" "c \<le> 3 \<Longrightarrow> unat (2 + 5 * c) = 2 + 5 * unat c"
  by (simp_all add: word_le_nat_alt unat_word_ariths)

lemma capabilityPage_roundtrip:
  assumes enc: "encodeCapabilityPageRecord r = Inr v" and pad: "pagePadded r"
  shows "decodeCapabilityPageRecord v = Inr r"
proof -
  define n where "n = unat (cpCount r)"
  define buf where "buf = (putLe16 (fillZero 121) 0 (cpNextCursor r))[2 := cpCount r]"
  define out where "out = fold (\<lambda>k buf. putLe16 buf (3 + 2 * k) (cpCapabilityIds r ! k)) [0..<n] buf"
  have le: "cpCount r \<le> 9" and ids: "\<forall>k<n. cpCapabilityIds r ! k \<noteq> 0" and v: "v = structureValue (3 + 2 * cpCount r) out"
    using enc by (auto simp: encodeCapabilityPageRecord_def Let_def out_def buf_def n_def split: if_splits)
  have n: "n \<le> 9" using le by (simp add: n_def word_le_nat_alt)
  have "3 + 2 * n \<le> length buf" using n by (simp add: buf_def)
  note F = fold_putLe16 [OF this, of "\<lambda>k. cpCapabilityIds r ! k", folded out_def]
  have o: "out ! 2 = cpCount r" "getLe16 out 0 = cpNextCursor r"
    using F by (simp_all add: buf_def buffer_simps getLe16_def) (simp add: putLe16_def)
  have ids': "map (\<lambda>k. if k < n then getLe16 out (3 + 2 * k) else 0) [0..<9] = cpCapabilityIds r"
    using F pad by (intro nth_equalityI) (auto simp: pagePadded_def n_def)
  show ?thesis
    using n le ids F ids' unat_small_affine(1) [OF le]
    by (simp add: decodeCapabilityPageRecord_def v o Let_def n_def [symmetric] word_less_nat_alt not_less del: upt_rec_numeral)
qed

lemma diagnosticPage_roundtrip:
  assumes enc: "encodeDiagnosticPageRecord r = Inr v" and pad: "entriesPadded r"
  shows "decodeDiagnosticPageRecord v = Inr r"
proof -
  define n where "n = unat (dpCount r)"
  define buf where "buf = (fillZero 121)[0 := dpNextCursor r, 1 := dpCount r]"
  define out where "out = fold (\<lambda>k buf. putLe32 (buf[2 + 5 * k := deMetricId (dpEntries r ! k)]) (3 + 5 * k)
    (deValue (dpEntries r ! k))) [0..<n] buf"
  have le: "dpCount r \<le> 3" and v: "v = structureValue (2 + 5 * dpCount r) out"
    using enc by (auto simp: encodeDiagnosticPageRecord_def Let_def out_def buf_def n_def split: if_splits)
  have n: "n \<le> 3" using le by (simp add: n_def word_le_nat_alt)
  have "2 + 5 * n \<le> length buf" using n by (simp add: buf_def)
  note F = fold_entries [OF this, of "\<lambda>k. deMetricId (dpEntries r ! k)" "\<lambda>k. deValue (dpEntries r ! k)", folded out_def]
  have o: "out ! 1 = dpCount r" "out ! 0 = dpNextCursor r" using F by (simp_all add: buf_def)
  have entry: "(if k < n then \<lparr>deMetricId = out ! (2 + 5 * k), deValue = getLe32 out (3 + 5 * k)\<rparr> else diagnosticEntry_init)
      = dpEntries r ! k" if "k < 3" for k
    using F pad that by (auto simp: entriesPadded_def n_def)
  have "map (\<lambda>k. if k < n then \<lparr>deMetricId = out ! (2 + 5 * k), deValue = getLe32 out (3 + 5 * k)\<rparr>
      else diagnosticEntry_init) [0..<3] = map ((!) (dpEntries r)) [0..<3]"
    using entry by (intro map_cong refl) simp
  also have "\<dots> = dpEntries r" using pad map_nth [of "dpEntries r"] by (simp add: entriesPadded_def)
  finally have entries: "map (\<lambda>k. if k < n then \<lparr>deMetricId = out ! (2 + 5 * k), deValue = getLe32 out (3 + 5 * k)\<rparr>
      else diagnosticEntry_init) [0..<3] = dpEntries r" .
  show ?thesis
    using n le entries o unat_small_affine(2) [OF le]
    by (simp add: decodeDiagnosticPageRecord_def v Let_def n_def [symmetric] word_less_nat_alt not_less del: upt_rec_numeral)
qed

lemma identity_simps [buffer_simps]:
  "length (putIdentity buf off i) = length buf"
  "off + 9 \<le> length buf \<Longrightarrow> getIdentity (putIdentity buf off i) off = i"
  "k < off \<or> off + 9 \<le> k \<Longrightarrow> putIdentity buf off i ! k = buf ! k"
  "off + 9 \<le> k \<or> k + 4 \<le> off \<Longrightarrow> getLe32 (putIdentity buf off i) k = getLe32 buf k"
  "off + 9 \<le> k \<or> k + 9 \<le> off \<Longrightarrow> getIdentity (putIdentity buf off i) k = getIdentity buf k"
  "off + 4 \<le> k \<or> k + 9 \<le> off \<Longrightarrow> getIdentity (putLe32 buf off x) k = getIdentity buf k"
  "j < k \<or> k + 9 \<le> j \<Longrightarrow> getIdentity (buf[j := b]) k = getIdentity buf k"
  by (auto simp: putIdentity_def getIdentity_def buffer_simps)

lemma eventDiagnostics_role: "isValidEventDiagnosticsRecord r \<Longrightarrow> isKnownDeviceRole (edRole r)"
  by (simp add: isValidEventDiagnosticsRecord_def split: if_splits)

lemma eventDiagnostics_roundtrip:
  assumes enc: "encodeEventDiagnosticsRecord r = Inr v" and len: "length (edCounters r) = EVENT_DIAGNOSTIC_COUNTER_COUNT"
  shows "decodeEventDiagnosticsRecord v = Inr r"
proof -
  define b1 where "b1 = (fillZero 121)[0 := edSchema r, 1 := hostRole_code (edRole r),
    2 := edCustodyCount r, 3 := edCapacity r, 4 := edActiveCount r, 5 := edConsumedCount r, 6 := edRecordAvailable r, 7 := edState r]"
  define b2 where "b2 = (putIdentity b1 8 (edIdentity r))[17 := edFamily r, 18 := edAttemptsUsed r, 19 := edAttemptsMaximum r,
    20 := edFlags r]"
  define b3 where "b3 = putIdentity ((putLe32 (putLe32 b2 21 (edRemainingLifetimeSeconds r)) 25 (edAdmissionOrdinal r))
    [29 := edRecentAdmissionAvailable r]) 30 (edRecentAdmission r)"
  define b4 where "b4 = putIdentity (b3[39 := edProducerKind r, 40 := edProducerResult r, 41 := edProducerIdentityAvailable r])
    42 (edProducerIdentity r)"
  define out where "out = fold (\<lambda>k buf. putLe32 buf (51 + 4 * k) (edCounters r ! k)) [0..<15] b4"
  have valid: "isValidEventDiagnosticsRecord r"
    and v: "v = \<lparr>tvType = STRUCTURE_VALUE_TYPE, tvLength = EVENT_DIAGNOSTICS_RECORD_SIZE, tvBytes = out\<rparr>"
    using enc by (auto simp: encodeEventDiagnosticsRecord_def Let_def out_def b1_def b2_def b3_def b4_def
        simp del: upt_rec_numeral split: if_splits)
  have l: "length b1 = 121" "length b2 = 121" "length b3 = 121" "length b4 = 121"
    by (simp_all add: b1_def b2_def b3_def b4_def buffer_simps)
  then have "51 + 4 * 15 \<le> length b4" by simp
  note F = fold_putLe32 [OF this, of "\<lambda>k. edCounters r ! k", folded out_def]
  then have eq: "\<forall>i<51. out ! i = b4 ! i" by simp
  note le = getLe_cong [OF eq]
  have counters: "map (\<lambda>k. getLe32 out (51 + 4 * k)) [0..<15] = edCounters r"
    using F len by (intro nth_equalityI) auto
  have b1: "b1 ! 0 = edSchema r" "b1 ! 1 = hostRole_code (edRole r)" "b1 ! 2 = edCustodyCount r" "b1 ! 3 = edCapacity r"
    "b1 ! 4 = edActiveCount r" "b1 ! 5 = edConsumedCount r" "b1 ! 6 = edRecordAvailable r" "b1 ! 7 = edState r"
    by (simp_all add: b1_def)
  have b2: "getIdentity b2 8 = edIdentity r" "b2 ! 17 = edFamily r" "b2 ! 18 = edAttemptsUsed r"
    "b2 ! 19 = edAttemptsMaximum r" "b2 ! 20 = edFlags r" "i < 8 \<Longrightarrow> b2 ! i = b1 ! i" for i
    by (simp_all add: b2_def l buffer_simps)
  have b3: "getLe32 b3 21 = edRemainingLifetimeSeconds r" "getLe32 b3 25 = edAdmissionOrdinal r"
    "b3 ! 29 = edRecentAdmissionAvailable r" "getIdentity b3 30 = edRecentAdmission r" "getIdentity b3 8 = getIdentity b2 8"
    "i < 21 \<Longrightarrow> b3 ! i = b2 ! i" for i
    by (simp_all add: b3_def l buffer_simps)
  have b4: "b4 ! 39 = edProducerKind r" "b4 ! 40 = edProducerResult r" "b4 ! 41 = edProducerIdentityAvailable r"
    "getIdentity b4 42 = edProducerIdentity r" "getIdentity b4 30 = getIdentity b3 30" "getIdentity b4 8 = getIdentity b3 8"
    "getLe32 b4 21 = getLe32 b3 21" "getLe32 b4 25 = getLe32 b3 25" "i < 39 \<Longrightarrow> b4 ! i = b3 ! i" for i
    by (simp_all add: b4_def l buffer_simps)
  note [simp] = eq b1 [simplified] b2 [simplified] b3 [simplified] b4 [simplified] le
  show ?thesis
    using valid by (simp add: decodeEventDiagnosticsRecord_def v Let_def counters [simplified] enum_codes eventDiagnostics_role
        del: upt_rec_numeral) (cases r, simp)
qed

lemma txDiagnostics_roundtrip:
  assumes enc: "encodeEventTxDiagnostics role s = Inr v" and len: "length (tsCounters s) = COUNTER_COUNT"
  shows "decodeEventTxDiagnostics v = Inr (role, s)"
proof -
  define b1 where "b1 = (fillZero 121)[0 := EVENT_TX_DIAGNOSTICS_SCHEMA, 1 := hostRole_code role,
    2 := (if tsAvailable s then 1 else 0), 3 := tsLastStep s, 4 := tsControllerState s, 5 := tsRadioOwner s,
    6 := tsAttempt s, 7 := tsSource s]"
  define b2 where "b2 = putLe32 (putLe32 (putLe32 (putLe32 b1 8 (tsEpoch s)) 12 (tsId s)) 16 (tsLastAt s)) 20 (tsStartAt s)"
  define b3 where "b3 = (putLe16 (putLe32 (putLe32 (putLe32 b2 24 (tsCompletedAt s)) 28 (tsPreviousClock s)) 32 (tsInputClock s))
    36 (tsStartResult s))[38 := tsAdmissionStatus s]"
  define out where "out = fold (\<lambda>k buf. putLe16 buf (39 + 2 * k) (tsCounters s ! k)) [0..<30] b3"
  have valid: "validEventTxDiagnostics role s"
    and v: "v = \<lparr>tvType = STRUCTURE_VALUE_TYPE, tvLength = EVENT_TX_DIAGNOSTICS_SIZE, tvBytes = out\<rparr>"
    using enc by (auto simp: encodeEventTxDiagnostics_def Let_def out_def b1_def b2_def b3_def
        simp del: upt_rec_numeral split: if_splits)
  have l: "length b1 = 121" "length b2 = 121" "length b3 = 121"
    by (simp_all add: b1_def b2_def b3_def buffer_simps)
  then have "39 + 2 * 30 \<le> length b3" by simp
  note F = fold_putLe16 [OF this, of "\<lambda>k. tsCounters s ! k", folded out_def]
  then have eq: "\<forall>i<39. out ! i = b3 ! i" by simp
  note le = getLe_cong [OF eq]
  have counters: "map (\<lambda>k. getLe16 out (39 + 2 * k)) [0..<30] = tsCounters s"
    using F len by (intro nth_equalityI) auto
  have b1: "b1 ! 0 = 2" "b1 ! 1 = hostRole_code role" "b1 ! 2 = (if tsAvailable s then 1 else 0)" "b1 ! 3 = tsLastStep s"
    "b1 ! 4 = tsControllerState s" "b1 ! 5 = tsRadioOwner s" "b1 ! 6 = tsAttempt s" "b1 ! 7 = tsSource s"
    by (simp_all add: b1_def)
  have b2: "getLe32 b2 8 = tsEpoch s" "getLe32 b2 12 = tsId s" "getLe32 b2 16 = tsLastAt s" "getLe32 b2 20 = tsStartAt s"
    "i < 8 \<Longrightarrow> b2 ! i = b1 ! i" for i
    by (simp_all add: b2_def l buffer_simps)
  have b3: "getLe32 b3 24 = tsCompletedAt s" "getLe32 b3 28 = tsPreviousClock s" "getLe32 b3 32 = tsInputClock s"
    "getLe16 b3 36 = tsStartResult s" "b3 ! 38 = tsAdmissionStatus s" "k + 4 \<le> 24 \<Longrightarrow> getLe32 b3 k = getLe32 b2 k"
    "i < 24 \<Longrightarrow> b3 ! i = b2 ! i" for i k
    by (simp_all add: b3_def l buffer_simps)
  have role: "isKnownDeviceRole role" using valid by (simp add: validEventTxDiagnostics_def split: if_splits)
  have av: "(out ! 2 \<noteq> 0) = tsAvailable s" "\<not> out ! 2 > 1" "out ! 0 = 2"
    using eq b1(1,3) b2(5) [of 0] b2(5) [of 2] b3(7) [of 0] b3(7) [of 2] by simp_all
  have raw: "getLe16 out 36 = tsStartResult s" using le(1) [of 36] b3(4) by simp
  note [simp] = eq b1 [simplified] b2 [simplified] b3 [simplified] le(2)
  have cand: "\<lparr>tsAvailable = out ! 2 \<noteq> 0, tsLastStep = out ! 3, tsControllerState = out ! 4, tsRadioOwner = out ! 5,
      tsAttempt = out ! 6, tsSource = out ! 7, tsEpoch = getLe32 out 8, tsId = getLe32 out 12, tsLastAt = getLe32 out 16,
      tsStartAt = getLe32 out 20, tsCompletedAt = getLe32 out 24, tsPreviousClock = getLe32 out 28,
      tsInputClock = getLe32 out 32,
      tsStartResult = getLe16 out 36,
      tsAdmissionStatus = out ! 38, tsCounters = map (\<lambda>k. getLe16 out (39 + 2 * k)) [0..<30]\<rparr> = s"
    unfolding raw av(1) counters by simp
  have "hostRole_of (out ! 1) = role" using role by (simp add: enum_codes)
  with valid av cand show ?thesis
    by (simp add: decodeEventTxDiagnostics_def v Let_def del: upt_rec_numeral eq b1 b2 b3 le)
qed

subsection \<open>Bodies in a buffer\<close>

lemma identity_roundtrip:
  assumes "encodeHostEventIdentity i (Some out) cap = (PR_OK, n, Some out')" and "cap \<le> length out"
  shows "decodeHostEventIdentity (Some out') n = Inr i"
  using assms by (cases "out = []")
    (auto simp: encodeHostEventIdentity_def decodeHostEventIdentity_def isValidHostEventIdentity_def Let_def buffer_simps split: if_splits)

lemma eventRecord_roundtrip:
  assumes enc: "encodeHostEventRecord r (Some out) cap = (PR_OK, n, Some out')" and cap: "cap \<le> length out"
    and len: "length (heBody r) = MAX_BODY_SIZE"
  shows "decodeHostEventRecord (Some out') n = Inr r"
proof -
  define b where "b = putLe32 (putLe32 (putLe32 ((copyBytes out 0 (fillZero 29) 29)[0 := heAvailable r, 1 := heSourceDeviceId r,
    2 := heFamily r, 3 := heFlags r]) 4 (heEventEpoch r)) 8 (heEventId r)) 12 (heLifetimeBudgetSeconds r)"
  have valid: "isValidHostEventRecord r" and n: "n = 29" "29 \<le> length out"
    and out': "out' = copyBytes (b[16 := heBodyLength r]) 17 (heBody r) 12"
    using enc cap by (auto simp: encodeHostEventRecord_def Let_def b_def split: if_splits)
  have "out \<noteq> []" using n by auto
  then have l: "length b = length out" and b: "b ! 0 = heAvailable r" "b ! 1 = heSourceDeviceId r" "b ! 2 = heFamily r"
    "b ! 3 = heFlags r" "getLe32 b 4 = heEventEpoch r" "getLe32 b 8 = heEventId r" "getLe32 b 12 = heLifetimeBudgetSeconds r"
    using n by (simp_all add: b_def buffer_simps)
  have body: "slice 17 12 out' = heBody r"
    by (rule slice_eqI) (use n l len in \<open>auto simp: out' nth_copyBytes\<close>)
  have o: "out' ! 0 = heAvailable r" "out' ! 1 = heSourceDeviceId r" "out' ! 2 = heFamily r" "out' ! 3 = heFlags r"
    "getLe32 out' 4 = heEventEpoch r" "getLe32 out' 8 = heEventId r" "getLe32 out' 12 = heLifetimeBudgetSeconds r"
    "out' ! 16 = heBodyLength r"
    using n l b \<open>out \<noteq> []\<close> by (simp_all add: out' buffer_simps)
  show ?thesis using valid by (simp add: decodeHostEventRecord_def n o [simplified] body) (cases r, simp)
qed

lemma helloRequest_roundtrip:
  assumes "encodeHelloRequest minor q (Some out) cap = (PR_OK, n, Some out')" and "cap \<le> length out"
  shows "decodeHelloRequest minor (Some out') n = Inr q"
  using assms by (cases "out = []")
    (auto simp: encodeHelloRequest_def decodeHelloRequest_def Let_def buffer_simps split: if_splits)

lemma helloResponse_roundtrip:
  assumes "encodeHelloResponse r (Some out) cap = (PR_OK, n, Some out')" and "cap \<le> length out"
  shows "decodeHelloResponse (Some out') n = Inr r"
  using assms by (cases "out = []")
    (auto simp: encodeHelloResponse_def decodeHelloResponse_def Let_def buffer_simps enum_codes isValidHelloResponse_def
      split: if_splits)

lemma protocolError_roundtrip:
  assumes "encodeProtocolError e (Some out) cap = (PR_OK, n, Some out')" and "cap \<le> length out"
  shows "decodeProtocolError (Some out') n = Inr e"
  using assms by (cases "out = []")
    (auto simp: encodeProtocolError_def decodeProtocolError_def Let_def buffer_simps enum_codes isValidProtocolError_def
      split: if_splits)

lemma typedValue_roundtrip:
  assumes enc: "encodeTypedValue v (Some out) cap = (PR_OK, n, Some out')" and cap: "cap \<le> length out"
  shows "decodeTypedValue (tvType v) (Some out') n = Inr (normalValue v)"
proof -
  have scalar: "isValidScalarValue v" and n: "n = unat (tvLength v)" "n \<le> length out"
    and out': "out' = copyBytes out 0 (tvBytes v) n"
    using enc cap by (auto simp: encodeTypedValue_def split: if_splits)
  have e: "tvLength v = expectedScalarValueLength (tvType v)" "tvType v \<noteq> STRUCTURE_VALUE_TYPE"
    "isKnownValueType (valueType_of (tvType v))"
    using scalar by (auto simp: isValidScalarValue_def split: if_splits)
  have "expectedScalarValueLength (tvType v) \<le> 4"
    using e(3) unfolding expectedScalarValueLength_def by (cases "valueType_of (tvType v)") simp_all
  then have "unat (tvLength v) \<le> 4" using e(1) by (simp add: word_le_nat_alt)
  have bytes: "copyBytes (fillZero 121) 0 out' n = zeroPadded (tvBytes v) n 121"
    by (rule nth_equalityI) (use n \<open>unat (tvLength v) \<le> 4\<close> in \<open>auto simp: out' nth_copyBytes nth_zeroPadded\<close>)
  have "\<lparr>tvType = tvType v, tvLength = of_nat n, tvBytes = copyBytes (fillZero 121) 0 out' n\<rparr> = normalValue v"
    unfolding bytes using n by (simp add: normalValue_def)
  moreover have "isValidScalarValue (normalValue v)"
    using scalar e(1) by (auto simp: isValidScalarValue_def normalValue_def nth_zeroPadded expectedScalarValueLength_def
        valueType_of_def split: if_splits)
  ultimately show ?thesis using e n(1) by (simp add: decodeTypedValue_def)
qed

end
