(* ===== verification/WireOperations.thy ===== *)
theory WireOperations
  imports HostRecordCodecs TransactionEngine
begin

text \<open>
  The structured operations of the radio link (\<^verbatim>\<open>lib/wire_operations/src/wire_operations.h\<close> and
  \<^verbatim>\<open>wire_transaction_state.h\<close>): the codec of their requests and responses, what a remote caller may do with a
  capability, the one operation a Node retains, its admission, and the Hub's transaction.  A decoder assigns its output
  only on success, so it is a sum with the failure on the left.
\<close>

subsection \<open>Requests and responses\<close>

definition WIRE_REQUEST_FIXED_SIZE :: nat where [simp]: "WIRE_REQUEST_FIXED_SIZE = 4"
definition WIRE_RESPONSE_FIXED_SIZE :: nat where [simp]: "WIRE_RESPONSE_FIXED_SIZE = 5"
definition WIRE_MAX_REQUEST_VALUE_SIZE :: nat where [simp]: "WIRE_MAX_REQUEST_VALUE_SIZE = 22"
definition WIRE_MAX_RESPONSE_VALUE_SIZE :: nat where [simp]: "WIRE_MAX_RESPONSE_VALUE_SIZE = 21"

record wireValue =
  wvType :: u8
  wvLength :: u8
  wvBytes :: bytes

record wireRequest =
  wqTargetId :: u16
  wqValue :: wireValue

record wireResponse =
  wrStatus :: operationStatus
  wrTargetId :: u16
  wrValue :: wireValue

definition wireValue_init :: wireValue where
  "wireValue_init = \<lparr>wvType = 0, wvLength = 0, wvBytes = fillZero WIRE_MAX_REQUEST_VALUE_SIZE\<rparr>"

definition wireResponse_init :: wireResponse where
  "wireResponse_init = \<lparr>wrStatus = operationStatus_of 0, wrTargetId = 0, wrValue = wireValue_init\<rparr>"

datatype codecResult = WC_OK | WC_NULL_ARGUMENT | WC_UNSUPPORTED_OPCODE | WC_INVALID_LENGTH | WC_INVALID_TARGET
  | WC_INVALID_VALUE_TYPE | WC_INVALID_VALUE | WC_INVALID_STATUS | WC_OUTPUT_TOO_SMALL

type_synonym wireEncoded = "codecResult \<times> nat \<times> bytes option"

definition isStructuredOpcode :: "u8 \<Rightarrow> bool" where
  "isStructuredOpcode opc = (opc \<ge> opcode_code opcode.PING \<and> opc \<le> opcode_code opcode.GET_DIAGNOSTICS)"

definition scalarLength :: "u8 \<Rightarrow> u8" where
  "scalarLength t = expectedScalarValueLength t"

definition isScalarValue :: "wireValue \<Rightarrow> bool" where
  "isScalarValue v =
     (if wvType v = STRUCTURE_VALUE_TYPE \<or> \<not> isKnownValueType (valueType_of (wvType v)) then False
      else if wvLength v \<noteq> scalarLength (wvType v) then False
      else wvType v \<noteq> valueType_code VT_BOOLEAN \<or> wvBytes v ! 0 \<le> 1)"

definition isNone :: "wireValue \<Rightarrow> bool" where
  "isNone v = (wvType v = valueType_code VT_NONE \<and> wvLength v = 0)"

definition isUint32 :: "wireValue \<Rightarrow> bool" where
  "isUint32 v = (wvType v = valueType_code VT_UNSIGNED_32 \<and> isScalarValue v)"

definition isValidRequestSchema :: "u8 \<Rightarrow> wireRequest \<Rightarrow> bool" where
  "isValidRequestSchema opc q =
     (if \<not> isStructuredOpcode opc \<or> \<not> isScalarValue (wqValue q) then False
      else if opc = opcode_code opcode.PING \<or> opc = opcode_code opcode.GET_DEVICE_INFO \<or> opc = opcode_code opcode.GET_STATUS
        then wqTargetId q = 0 \<and> isNone (wqValue q)
      else if opc = opcode_code opcode.GET_CAPABILITIES \<or> opc = opcode_code opcode.GET_DIAGNOSTICS
        then wqTargetId q = 0 \<and> (isNone (wqValue q) \<or> isUint32 (wqValue q))
      else if opc = opcode_code opcode.DESCRIBE_CAPABILITY \<or> opc = opcode_code opcode.READ_CAPABILITY
        then wqTargetId q \<noteq> 0 \<and> isNone (wqValue q)
      else if opc = opcode_code opcode.SET_INDICATOR then wqTargetId q \<noteq> 0 \<and> wvType (wqValue q) = valueType_code VT_BOOLEAN
      else if opc = opcode_code opcode.RUN_PROCEDURE then wqTargetId q \<noteq> 0
      else False)"

definition encodeRequest :: "u8 \<Rightarrow> wireRequest \<Rightarrow> bytes option \<Rightarrow> nat \<Rightarrow> wireEncoded" where
  "encodeRequest opc q output capacity = (case output of None \<Rightarrow> (WC_NULL_ARGUMENT, 0, None) | Some out \<Rightarrow>
     let len = unat (wvLength (wqValue q)); required = WIRE_REQUEST_FIXED_SIZE + len in
     if \<not> isStructuredOpcode opc then (WC_UNSUPPORTED_OPCODE, 0, output)
     else if \<not> isValidRequestSchema opc q then (WC_INVALID_VALUE, 0, output)
     else if required > MAX_PAYLOAD_SIZE then (WC_INVALID_LENGTH, 0, output)
     else if capacity < required then (WC_OUTPUT_TOO_SMALL, 0, output)
     else (WC_OK, required, Some (copyBytes ((putLe16 out 0 (wqTargetId q))[2 := wvType (wqValue q), 3 := wvLength (wqValue q)])
       4 (wvBytes (wqValue q)) len)))"

definition receivedWireValue :: "u8 \<Rightarrow> u8 \<Rightarrow> nat \<Rightarrow> bytes \<Rightarrow> wireValue" where
  "receivedWireValue t valueLength off bs = \<lparr>wvType = t, wvLength = valueLength,
     wvBytes = copyBytes (fillZero WIRE_MAX_REQUEST_VALUE_SIZE) 0 (drop off bs) (unat valueLength)\<rparr>"

definition decodeRequest :: "u8 \<Rightarrow> bytes option \<Rightarrow> nat \<Rightarrow> codecResult + wireRequest" where
  "decodeRequest opc input inputLength = (case input of None \<Rightarrow> Inl WC_NULL_ARGUMENT | Some bs \<Rightarrow>
     if \<not> isStructuredOpcode opc then Inl WC_UNSUPPORTED_OPCODE
     else if inputLength < WIRE_REQUEST_FIXED_SIZE \<or> inputLength > MAX_PAYLOAD_SIZE then Inl WC_INVALID_LENGTH
     else let valueLength = bs ! 3 in
       if unat valueLength > WIRE_MAX_REQUEST_VALUE_SIZE \<or> inputLength \<noteq> WIRE_REQUEST_FIXED_SIZE + unat valueLength
         then Inl WC_INVALID_LENGTH
       else let candidate = \<lparr>wqTargetId = getLe16 bs 0, wqValue = receivedWireValue (bs ! 2) valueLength 4 bs\<rparr> in
         if \<not> isKnownValueType (valueType_of (wvType (wqValue candidate))) \<or> wvType (wqValue candidate) = STRUCTURE_VALUE_TYPE
           then Inl WC_INVALID_VALUE_TYPE
         else if \<not> isValidRequestSchema opc candidate then Inl WC_INVALID_VALUE else Inr candidate)"

definition toHostValue :: "wireValue \<Rightarrow> typedValue option" where
  "toHostValue v = (if unat (wvLength v) > WIRE_MAX_REQUEST_VALUE_SIZE then None
     else Some \<lparr>tvType = wvType v, tvLength = wvLength v,
       tvBytes = copyBytes (fillZero HOST_MAX_REQUEST_VALUE_SIZE) 0 (wvBytes v) (unat (wvLength v))\<rparr>)"

definition isValidSuccessValue :: "u8 \<Rightarrow> wireValue \<Rightarrow> bool" where
  "isValidSuccessValue opc v = (case toHostValue v of None \<Rightarrow> False
     | Some host \<Rightarrow> isValidSuccessfulOperationValue (operationCode_of opc) host)"

definition zeroTargetOperation :: "u8 \<Rightarrow> bool" where
  "zeroTargetOperation opc = (opc = opcode_code opcode.PING \<or> opc = opcode_code opcode.GET_DEVICE_INFO
     \<or> opc = opcode_code opcode.GET_STATUS \<or> opc = opcode_code opcode.GET_CAPABILITIES \<or> opc = opcode_code opcode.GET_DIAGNOSTICS)"

definition isValidResponseSchema :: "u8 \<Rightarrow> wireResponse \<Rightarrow> bool" where
  "isValidResponseSchema opc r =
     (if \<not> isStructuredOpcode opc \<or> \<not> isKnownOperationStatus (wrStatus r) then False
      else if zeroTargetOperation opc \<and> wrTargetId r \<noteq> 0 \<or> \<not> zeroTargetOperation opc \<and> wrTargetId r = 0 then False
      else if wrStatus r \<noteq> OS_OK then isNone (wrValue r)
      else isValidSuccessValue opc (wrValue r))"

fun operationStatus_code :: "operationStatus \<Rightarrow> u8" where
  "operationStatus_code OS_OK = 0x00"
| "operationStatus_code OS_CAPABILITY_NOT_FOUND = 0x01"
| "operationStatus_code OS_UNSUPPORTED_OPERATION = 0x02"
| "operationStatus_code OS_INVALID_VALUE_TYPE = 0x03"
| "operationStatus_code OS_VALUE_OUT_OF_RANGE = 0x04"
| "operationStatus_code OS_UNAUTHORIZED = 0x05"
| "operationStatus_code OS_INTERLOCK_ACTIVE = 0x06"
| "operationStatus_code OS_HARDWARE_UNAVAILABLE = 0x07"
| "operationStatus_code OS_OPERATION_FAILED = 0x08"
| "operationStatus_code OS_BUSY = 0x09"
| "operationStatus_code OS_INVALID_DESCRIPTOR = 0x0A"
| "operationStatus_code (OperationStatus_raw b) = b"

definition encodeResponse :: "u8 \<Rightarrow> wireResponse \<Rightarrow> bytes option \<Rightarrow> nat \<Rightarrow> wireEncoded" where
  "encodeResponse opc r output capacity = (case output of None \<Rightarrow> (WC_NULL_ARGUMENT, 0, None) | Some out \<Rightarrow>
     let len = unat (wvLength (wrValue r)); required = WIRE_RESPONSE_FIXED_SIZE + len in
     if \<not> isStructuredOpcode opc then (WC_UNSUPPORTED_OPCODE, 0, output)
     else if \<not> isValidResponseSchema opc r then (WC_INVALID_VALUE, 0, output)
     else if required > MAX_PAYLOAD_SIZE then (WC_INVALID_LENGTH, 0, output)
     else if capacity < required then (WC_OUTPUT_TOO_SMALL, 0, output)
     else (WC_OK, required, Some (copyBytes ((putLe16 (out[0 := operationStatus_code (wrStatus r)]) 1 (wrTargetId r))
       [3 := wvType (wrValue r), 4 := wvLength (wrValue r)]) 5 (wvBytes (wrValue r)) len)))"

definition decodeResponse :: "u8 \<Rightarrow> bytes option \<Rightarrow> nat \<Rightarrow> codecResult + wireResponse" where
  "decodeResponse opc input inputLength = (case input of None \<Rightarrow> Inl WC_NULL_ARGUMENT | Some bs \<Rightarrow>
     if \<not> isStructuredOpcode opc then Inl WC_UNSUPPORTED_OPCODE
     else if inputLength < WIRE_RESPONSE_FIXED_SIZE \<or> inputLength > MAX_PAYLOAD_SIZE then Inl WC_INVALID_LENGTH
     else let valueLength = bs ! 4 in
       if unat valueLength > WIRE_MAX_RESPONSE_VALUE_SIZE \<or> inputLength \<noteq> WIRE_RESPONSE_FIXED_SIZE + unat valueLength
         then Inl WC_INVALID_LENGTH
       else let candidate = \<lparr>wrStatus = operationStatus_of (bs ! 0), wrTargetId = getLe16 bs 1,
           wrValue = receivedWireValue (bs ! 3) valueLength 5 bs\<rparr> in
         if \<not> isKnownOperationStatus (wrStatus candidate) then Inl WC_INVALID_STATUS
         else if \<not> isValidResponseSchema opc candidate then Inl WC_INVALID_VALUE else Inr candidate)"

text \<open>An encoder that fails leaves the payload untouched, so the packet keeps the zero length of its initial value.\<close>

definition makeCommand :: "u8 \<Rightarrow> u8 \<Rightarrow> u8 \<Rightarrow> u8 \<Rightarrow> wireRequest \<Rightarrow> packet" where
  "makeCommand source destination sequence opc q =
     (case encodeRequest opc q (Some (pkPayload packet_init)) MAX_PAYLOAD_SIZE of (r, len, payload) \<Rightarrow>
        packet_init\<lparr>pkType := COMMAND, pkSource := source, pkDestination := destination, pkSequence := sequence,
          pkOpcode := opc, pkPayload := the payload, pkPayloadLength := (if r = WC_OK then of_nat len else 0)\<rparr>)"

definition makeResponsePacket :: "packet \<Rightarrow> wireResponse \<Rightarrow> packet" where
  "makeResponsePacket command r =
     (case encodeResponse (pkOpcode command) r (Some (pkPayload packet_init)) MAX_PAYLOAD_SIZE of (res, len, payload) \<Rightarrow>
        packet_init\<lparr>pkType := RESPONSE, pkSource := pkDestination command, pkDestination := pkSource command,
          pkSequence := pkSequence command, pkOpcode := pkOpcode command, pkPayload := the payload,
          pkPayloadLength := (if res = WC_OK then of_nat len else 0)\<rparr>)"

subsection \<open>Remote capability operations\<close>

definition processRemoteCapability :: "capabilityRegistryView \<Rightarrow> 's capabilityHandler \<Rightarrow> capabilityId \<Rightarrow> operation \<Rightarrow>
    capabilityValue \<Rightarrow> interlockState \<Rightarrow> capabilityDiagnosticsSnapshot \<Rightarrow> 's \<Rightarrow>
    operationResult \<times> capabilityDiagnosticsSnapshot \<times> 's" where
  "processRemoteCapability registry handler i op input interlock diagnostics s =
     (let fail = (\<lambda>st. (makeCanonicalFailureResult st, s)); caller = \<lparr>cxCallerClass = FUTURE_REMOTE, cxReserved = fillZero 3\<rparr> in
      case (if \<not> isValidCapabilityRegistry registry then fail OS_INVALID_DESCRIPTOR
        else case findCapability registry i of None \<Rightarrow> fail OS_CAPABILITY_NOT_FOUND
        | Some d \<Rightarrow>
          if op = SET \<or> op = RUN_LOCAL_PROCEDURE then fail OS_UNAUTHORIZED
          else if \<not> isHandlerDispatchableOperation op \<or> \<not> supportsOperation d op then fail OS_UNSUPPORTED_OPERATION
          else if \<not> isOperationAuthorized d op caller then fail OS_UNAUTHORIZED
          else if op = SET \<and> (\<not> isValidCapabilityValue input \<or> cvType input \<noteq> cdValueType d) then fail OS_INVALID_VALUE_TYPE
          else if op = SET \<and> \<not> isValueWithinBounds d input then fail OS_VALUE_OUT_OF_RANGE
          else if op \<noteq> SET \<and> \<not> isCanonicalNoneValue input then fail OS_INVALID_VALUE_TYPE
          else if \<not> isOperationSafe d op interlock then fail OS_INTERLOCK_ACTIVE
          else case handler d op input s of (r, s') \<Rightarrow>
            if \<not> isValidOperationResult r \<or> \<not> isHandlerOwnedStatus (orStatus r)
               \<or> orStatus r = OS_OK \<and> op = READ \<and> \<not> isValueWithinBounds d (orValue r)
               \<or> orStatus r = OS_OK \<and> op \<noteq> READ \<and> \<not> isCanonicalNoneValue (orValue r)
            then (makeCanonicalFailureResult OS_OPERATION_FAILED, s') else (r, s'))
      of (r, s') \<Rightarrow> (r, snd (recordOutcome (orStatus r) 1 diagnostics), s'))"

subsection \<open>The operation a Node retains\<close>

datatype admissionOutcome = AO_IGNORE | AO_UNSUPPORTED_OPCODE | AO_MALFORMED | AO_ADMITTED | AO_DUPLICATE_PENDING
  | AO_DUPLICATE_COMPLETE | AO_ACTIVE_BUSY

record retained =
  roHasEntry :: bool
  roComplete :: bool
  roSource :: u8
  roDestination :: u8
  roSequence :: u8
  roOpcode :: u8
  roPayloadLength :: u8
  roPayload :: bytes
  roResponse :: packet
  roLookupCount :: u32

definition retained_init :: retained where
  "retained_init = \<lparr>roHasEntry = False, roComplete = False, roSource = 0, roDestination = 0, roSequence = 0, roOpcode = 0,
     roPayloadLength = 0, roPayload = fillZero MAX_PAYLOAD_SIZE, roResponse = packet_init, roLookupCount = 0\<rparr>"

definition ro_isActive :: "retained \<Rightarrow> bool" where
  "ro_isActive r = (roHasEntry r \<and> \<not> roComplete r)"

definition ro_isComplete :: "retained \<Rightarrow> bool" where
  "ro_isComplete r = (roHasEntry r \<and> roComplete r)"

definition ro_isDuplicate :: "packet \<Rightarrow> retained \<Rightarrow> bool \<times> retained" where
  "ro_isDuplicate command r =
     (\<not> (\<not> roHasEntry r \<or> pkSource command \<noteq> roSource r \<or> pkSequence command \<noteq> roSequence r \<or> pkOpcode command \<noteq> roOpcode r
         \<or> pkPayloadLength command \<noteq> roPayloadLength r)
      \<and> sameBytes (pkPayload command) (roPayload r) (unat (pkPayloadLength command)),
      r\<lparr>roLookupCount := roLookupCount r + 1\<rparr>)"

definition ro_reserve :: "packet \<Rightarrow> retained \<Rightarrow> bool \<times> retained" where
  "ro_reserve command r =
     (if ro_isActive r \<or> unat (pkPayloadLength command) > MAX_PAYLOAD_SIZE then (False, r)
      else (True, r\<lparr>roHasEntry := True, roComplete := False, roSource := pkSource command,
        roDestination := pkDestination command, roSequence := pkSequence command, roOpcode := pkOpcode command,
        roPayloadLength := pkPayloadLength command,
        roPayload := zeroPadded (pkPayload command) (unat (pkPayloadLength command)) MAX_PAYLOAD_SIZE,
        roResponse := packet_init\<rparr>))"

definition ro_complete :: "packet \<Rightarrow> retained \<Rightarrow> bool \<times> retained" where
  "ro_complete response r =
     (if \<not> ro_isActive r \<or> pkType response \<noteq> RESPONSE \<or> pkSource response \<noteq> roDestination r
         \<or> pkDestination response \<noteq> roSource r \<or> pkSequence response \<noteq> roSequence r \<or> pkOpcode response \<noteq> roOpcode r
      then (False, r)
      else case decodeResponse (pkOpcode response) (Some (pkPayload response)) (unat (pkPayloadLength response)) of
        Inl _ \<Rightarrow> (False, r)
      | Inr decoded \<Rightarrow>
        (case decodeRequest (roOpcode r) (Some (roPayload r)) (unat (roPayloadLength r)) of
           Inl _ \<Rightarrow> (False, r)
         | Inr request \<Rightarrow> if wrTargetId decoded \<noteq> wqTargetId request then (False, r)
             else (True, r\<lparr>roResponse := response, roComplete := True\<rparr>)))"

definition ro_rememberedCommand :: "retained \<Rightarrow> packet" where
  "ro_rememberedCommand r = packet_init\<lparr>pkType := COMMAND, pkSource := roSource r, pkDestination := roDestination r,
     pkSequence := roSequence r, pkOpcode := roOpcode r, pkPayloadLength := roPayloadLength r,
     pkPayload := copyBytes (pkPayload packet_init) 0 (roPayload r) (unat (roPayloadLength r))\<rparr>"

definition ro_acknowledgment :: "retained \<Rightarrow> packet" where
  "ro_acknowledgment r = makeAcknowledgment (ro_rememberedCommand r) SUCCESS"

definition ro_reset :: "retained \<Rightarrow> retained" where
  "ro_reset r = retained_init"

definition admitNodeCommand :: "packet \<Rightarrow> u8 \<Rightarrow> u8 \<Rightarrow> retained \<Rightarrow> (admissionOutcome \<times> ackStatus) \<times> retained" where
  "admitNodeCommand command localId peerId r =
     (if pkDestination command \<noteq> localId \<or> pkSource command \<noteq> peerId \<or> pkType command \<noteq> COMMAND
        then ((AO_IGNORE, SUCCESS), r)
      else if \<not> isStructuredOpcode (pkOpcode command) then ((AO_UNSUPPORTED_OPCODE, UNSUPPORTED_OPCODE), r)
      else if isl (decodeRequest (pkOpcode command) (Some (pkPayload command)) (unat (pkPayloadLength command)))
        then ((AO_MALFORMED, MALFORMED_PACKET), r)
      else case ro_isDuplicate command r of (duplicate, r) \<Rightarrow>
        if duplicate then ((if ro_isComplete r then AO_DUPLICATE_COMPLETE else AO_DUPLICATE_PENDING, SUCCESS), r)
        else if ro_isActive r then ((AO_ACTIVE_BUSY, SUCCESS), r)
        else ((AO_ADMITTED, SUCCESS), snd (ro_reserve command r)))"

subsection \<open>The Hub's transaction\<close>

datatype peerSupport = PEER_UNKNOWN | PEER_SUPPORTED | PEER_UNSUPPORTED

definition mayStartStructuredOperation :: "peerSupport \<Rightarrow> u8 \<Rightarrow> bool \<Rightarrow> bool" where
  "mayStartStructuredOperation support opc explicitlyConfigured =
     (explicitlyConfigured \<or> support = PEER_SUPPORTED \<or> support = PEER_UNKNOWN \<and> opc = opcode_code opcode.PING)"

datatype structuredPhase = SP_IDLE | SP_AWAITING_ACK | SP_AWAITING_RESPONSE

datatype structuredEvent = SE_NONE | SE_ACK_ACCEPTED | SE_REMOTE_REJECTED | SE_RESPONSE_COMPLETE | SE_MALFORMED_IGNORED
  | SE_MISMATCH_IGNORED | SE_RETRANSMIT | SE_TIMEOUT

record hubTransaction =
  htPhase :: structuredPhase
  htSupport :: peerSupport
  htCommand :: packet
  htResult :: wireResponse
  htRequestTarget :: u16
  htDeadline :: u32
  htRetries :: u8
  htMaxRetries :: u8

definition hubTransaction_init :: hubTransaction where
  "hubTransaction_init = \<lparr>htPhase = SP_IDLE, htSupport = PEER_UNKNOWN, htCommand = packet_init, htResult = wireResponse_init,
     htRequestTarget = 0, htDeadline = 0, htRetries = 0, htMaxRetries = 0\<rparr>"

definition ht_begin :: "packet \<Rightarrow> u32 \<Rightarrow> u32 \<Rightarrow> u8 \<Rightarrow> hubTransaction \<Rightarrow> bool \<times> hubTransaction" where
  "ht_begin command now overallTimeout maxRetries t =
     (if htPhase t \<noteq> SP_IDLE \<or> pkType command \<noteq> COMMAND \<or> \<not> isStructuredOpcode (pkOpcode command) then (False, t)
      else case decodeRequest (pkOpcode command) (Some (pkPayload command)) (unat (pkPayloadLength command)) of
        Inl _ \<Rightarrow> (False, t)
      | Inr request \<Rightarrow> (True, t\<lparr>htCommand := command, htRequestTarget := wqTargetId request, htPhase := SP_AWAITING_ACK,
          htDeadline := now + overallTimeout, htRetries := 0, htMaxRetries := maxRetries\<rparr>))"

definition ht_receive :: "packet \<Rightarrow> hubTransaction \<Rightarrow> structuredEvent \<times> hubTransaction" where
  "ht_receive p t =
     (if htPhase t = SP_IDLE then (SE_MISMATCH_IGNORED, t)
      else if pkSource p \<noteq> pkDestination (htCommand t) \<or> pkDestination p \<noteq> pkSource (htCommand t)
         \<or> pkSequence p \<noteq> pkSequence (htCommand t) \<or> pkOpcode p \<noteq> pkOpcode (htCommand t) then (SE_MISMATCH_IGNORED, t)
      else if pkType p = ACK then
        (if pkPayloadLength p \<noteq> 1 \<or> \<not> isValidAckStatus (pkPayload p ! 0) then (SE_MALFORMED_IGNORED, t)
         else let status = ackStatus_of (pkPayload p ! 0) in
           if status \<noteq> SUCCESS then
             (SE_REMOTE_REJECTED, t\<lparr>htSupport := (if pkOpcode (htCommand t) = opcode_code opcode.PING \<and> status = UNSUPPORTED_OPCODE
                then PEER_UNSUPPORTED else htSupport t), htPhase := SP_IDLE\<rparr>)
           else (SE_ACK_ACCEPTED, t\<lparr>htPhase := SP_AWAITING_RESPONSE\<rparr>))
      else if pkType p \<noteq> RESPONSE then (SE_MISMATCH_IGNORED, t)
      else case decodeResponse (pkOpcode p) (Some (pkPayload p)) (unat (pkPayloadLength p)) of
        Inl _ \<Rightarrow> (SE_MALFORMED_IGNORED, t)
      | Inr decoded \<Rightarrow> if wrTargetId decoded \<noteq> htRequestTarget t then (SE_MALFORMED_IGNORED, t)
          else (SE_RESPONSE_COMPLETE, t\<lparr>htResult := decoded, htSupport := PEER_SUPPORTED, htPhase := SP_IDLE\<rparr>))"

definition ht_service :: "u32 \<Rightarrow> hubTransaction \<Rightarrow> structuredEvent \<times> hubTransaction" where
  "ht_service now t =
     (if htPhase t = SP_IDLE \<or> beforeDeadline now (htDeadline t) then (SE_NONE, t)
      else if htRetries t < htMaxRetries t then (SE_RETRANSMIT, t\<lparr>htRetries := htRetries t + 1\<rparr>)
      else (SE_TIMEOUT, t\<lparr>htPhase := SP_IDLE\<rparr>))"

definition ht_configureSupport :: "peerSupport \<Rightarrow> hubTransaction \<Rightarrow> hubTransaction" where
  "ht_configureSupport support t = t\<lparr>htSupport := support\<rparr>"

end
