(* ===== verification/HostOperationService.thy ===== *)
theory HostOperationService
  imports WireOperations
begin

text \<open>
  The local operations that a host may request of the device it is attached to
  (\<^verbatim>\<open>lib/host_operation_service/src/host_operation_service.h\<close>, \<^verbatim>\<open>host_device_service.h\<close> and
  \<^verbatim>\<open>lib/capability_role_integration\<close>).  The state that a capability operation changes is the handler's own state,
  a parameter, and the diagnostics; of \<^verbatim>\<open>RuntimeState::State\<close> the services use only the capability snapshot.
\<close>

subsection \<open>Capability observations and the role integration\<close>

record capabilityObservation =
  obsAvailable :: bool
  obsSnapshot :: capabilityDiagnosticsSnapshot

definition updateCapabilityDiagnostics :: "capabilityDiagnosticsSnapshot \<Rightarrow> capabilityObservation \<Rightarrow> bool \<times> capabilityObservation" where
  "updateCapabilityDiagnostics snap ob =
     (if \<not> isValidCapabilityDiagnosticsSnapshot snap then (False, ob) else (True, \<lparr>obsAvailable = True, obsSnapshot = snap\<rparr>))"

record 's deviceEnv =
  envHandler :: 's
  envDiagnostics :: capabilityDiagnosticsSnapshot
  envObserved :: capabilityObservation

record hubSafePointState =
  hpRuntimeReady :: bool
  hpRegistryValid :: bool
  hpPhase :: runtimePhase
  hpAwaitingAcknowledgment :: bool
  hpRetryCount :: u8
  hpRadioEventPending :: bool
  hpRendering :: bool
  hpPersistencePending :: bool
  hpTransmissionDue :: bool

definition hubSafe :: "hubSafePointState \<Rightarrow> bool" where
  "hubSafe s = (hpRuntimeReady s \<and> hpRegistryValid s \<and> hpPhase s = RP_IDLE \<and> \<not> hpAwaitingAcknowledgment s
     \<and> hpRetryCount s = 0 \<and> \<not> hpRadioEventPending s \<and> \<not> hpRendering s \<and> \<not> hpPersistencePending s
     \<and> \<not> hpTransmissionDue s)"

datatype nodeOwnership = OWN_NONE | OWN_POST_ACK | OWN_QUIET_MAINTENANCE

record nodeSafePointState =
  npRuntimeReady :: bool
  npRegistryValid :: bool
  npPhase :: runtimePhase
  npOwnership :: nodeOwnership
  npRadioStandby :: bool
  npRadioEventPending :: bool
  npRendering :: bool

definition nodeSafe :: "nodeSafePointState \<Rightarrow> bool" where
  "nodeSafe s =
     (if \<not> npRuntimeReady s \<or> \<not> npRegistryValid s \<or> \<not> npRadioStandby s \<or> npRadioEventPending s \<or> npRendering s then False
      else if npOwnership s = OWN_POST_ACK then True
      else npOwnership s = OWN_QUIET_MAINTENANCE \<and> npPhase s = RP_LISTENING)"

definition ledOutputRequested :: "bool \<Rightarrow> bool \<Rightarrow> bool \<Rightarrow> bool \<Rightarrow> bool" where
  "ledOutputRequested masterEnabled radioActive feedbackActive capabilityRequested =
     (masterEnabled \<and> (radioActive \<or> feedbackActive \<or> capabilityRequested))"

definition executeLocalCapabilityNow :: "bool \<Rightarrow> capabilityRegistryView \<Rightarrow> 's capabilityHandler \<Rightarrow> capabilityId \<Rightarrow> operation \<Rightarrow>
    capabilityValue \<Rightarrow> callerContext \<Rightarrow> interlockState \<Rightarrow> 's deviceEnv \<Rightarrow> operationResult \<times> 's deviceEnv" where
  "executeLocalCapabilityNow registryValid registry handler i op input caller interlock env =
     (case dispatchCapabilityOperationObserved (if registryValid then registry else \<lparr>crDescriptors = None, crCount = 1\<rparr>)
        handler i op input caller interlock (envDiagnostics env) (envHandler env) of (r, diagnostics, s) \<Rightarrow>
        (r, \<lparr>envHandler = s, envDiagnostics = diagnostics,
             envObserved = snd (updateCapabilityDiagnostics diagnostics (envObserved env))\<rparr>))"

subsection \<open>Results\<close>

datatype disposition = D_NOT_HANDLED | D_HANDLED | D_REJECTED

datatype requestRejectionCode = RR_NONE | RR_MALFORMED_REQUEST | RR_UNSUPPORTED_OPERATION | RR_BAD_TARGET | RR_BUSY | RR_MISMATCH

fun requestRejectionCode_code :: "requestRejectionCode \<Rightarrow> u8" where
  "requestRejectionCode_code RR_NONE = 0x00"
| "requestRejectionCode_code RR_MALFORMED_REQUEST = 0x01"
| "requestRejectionCode_code RR_UNSUPPORTED_OPERATION = 0x02"
| "requestRejectionCode_code RR_BAD_TARGET = 0x03"
| "requestRejectionCode_code RR_BUSY = 0x04"
| "requestRejectionCode_code RR_MISMATCH = 0x08"

record hostResult =
  hrDisposition :: disposition
  hrRejectionCode :: requestRejectionCode
  hrRequestId :: u16
  hrResponse :: operationResponse

text \<open>The query of an availability provider: whether it answers, and the answer; \<open>None\<close> is the null pointer.\<close>

type_synonym availabilityProvider = "(capabilityId \<Rightarrow> bool option) option"

text \<open>The value-initialised result: \<^verbatim>\<open>RR_NONE\<close> is the zero that is no registered rejection code.\<close>

definition makeBaseResult :: "u16 \<Rightarrow> operationRequest \<Rightarrow> hostResult" where
  "makeBaseResult requestId q = \<lparr>hrDisposition = D_NOT_HANDLED, hrRejectionCode = RR_NONE, hrRequestId = requestId,
     hrResponse = \<lparr>opCategory = oqCategory q, opOperation = oqOperation q, opTargetDeviceId = oqTargetDeviceId q,
       opTargetId = oqTargetId q, opResultClass = RC_SUCCESS, opResultCode = 0, opValue = setNoneValue\<rparr>\<rparr>"

definition reject :: "u16 \<Rightarrow> operationRequest \<Rightarrow> requestRejectionCode \<Rightarrow> bool \<Rightarrow> hostResult" where
  "reject requestId q code responseIsRepresentable = (let r = makeBaseResult requestId q in
     r\<lparr>hrDisposition := (if responseIsRepresentable then D_HANDLED else D_REJECTED), hrRejectionCode := code,
       hrResponse := (hrResponse r)\<lparr>opResultClass := RC_REQUEST_REJECTED, opResultCode := requestRejectionCode_code code\<rparr>\<rparr>)"

definition setOperationResult :: "operationStatus \<Rightarrow> hostResult \<Rightarrow> hostResult" where
  "setOperationResult status r = r\<lparr>hrDisposition := D_HANDLED,
     hrResponse := (hrResponse r)\<lparr>opResultClass := RC_OPERATION_RESULT, opResultCode := operationStatus_code status,
       opValue := setNoneValue\<rparr>\<rparr>"

definition setResponseValue :: "typedValue \<Rightarrow> hostResult \<Rightarrow> hostResult" where
  "setResponseValue v r = r\<lparr>hrResponse := (hrResponse r)\<lparr>opValue := v\<rparr>\<rparr>"

text \<open>A record is encoded into the response value; if the encoder refuses, the operation has failed.\<close>

definition respondWith :: "payloadResult + typedValue \<Rightarrow> hostResult \<Rightarrow> hostResult" where
  "respondWith encodedValue r = (case encodedValue of Inl _ \<Rightarrow> setOperationResult OS_OPERATION_FAILED r
     | Inr v \<Rightarrow> setResponseValue v r)"

subsection \<open>Values of capabilities\<close>

definition hostValueToCapabilityValue :: "typedValue \<Rightarrow> capabilityValue option" where
  "hostValueToCapabilityValue v =
     (if \<not> isValidScalarValue v then None
      else let t = valueType_of (tvType v); candidate = \<lparr>cvType = t, cvReserved = fillZero 3, cvBits = (case t of
            VT_NONE \<Rightarrow> 0
          | VT_BOOLEAN \<Rightarrow> ucast (tvBytes v ! 0)
          | VT_NORMALIZED_U16 \<Rightarrow> ucast (getLe16 (tvBytes v) 0)
          | VT_ENUM_U16 \<Rightarrow> ucast (getLe16 (tvBytes v) 0)
          | VT_UNSIGNED_32 \<Rightarrow> getLe32 (tvBytes v) 0
          | VT_SIGNED_32 \<Rightarrow> getLe32 (tvBytes v) 0
          | VT_FIXED_Q16_16 \<Rightarrow> getLe32 (tvBytes v) 0
          | ValueType_raw _ \<Rightarrow> 0)\<rparr> in
        if \<not> isValidCapabilityValue candidate then None else Some candidate)"

text \<open>The flag and the output parameter, whose value before the call is the last argument.\<close>

definition capabilityValueToHostValue :: "capabilityValue \<Rightarrow> typedValue \<Rightarrow> bool \<times> typedValue" where
  "capabilityValueToHostValue c output =
     (if \<not> isValidCapabilityValue c then (False, output)
      else case cvType c of
        VT_NONE \<Rightarrow> (True, setNoneValue)
      | VT_BOOLEAN \<Rightarrow> setBooleanValue output (ucast (cvBits c))
      | VT_NORMALIZED_U16 \<Rightarrow> setUint16Value output (cvType c) (ucast (cvBits c))
      | VT_ENUM_U16 \<Rightarrow> setUint16Value output (cvType c) (ucast (cvBits c))
      | VT_UNSIGNED_32 \<Rightarrow> setUint32Value output (cvType c) (cvBits c)
      | VT_SIGNED_32 \<Rightarrow> setUint32Value output (cvType c) (cvBits c)
      | VT_FIXED_Q16_16 \<Rightarrow> setUint32Value output (cvType c) (cvBits c)
      | ValueType_raw _ \<Rightarrow> (False, output))"

subsection \<open>Capability operations\<close>

definition CAPABILITY_PAGE_END :: u16 where [simp]: "CAPABILITY_PAGE_END = 0xFFFF"
definition DIAGNOSTIC_PAGE_END :: u8 where [simp]: "DIAGNOSTIC_PAGE_END = 0xFF"

text \<open>The loop that fills a page: the next index and the identifiers so far; \<open>None\<close> where a descriptor is missing.\<close>

function capabilityPageLoop :: "capabilityRegistryView \<Rightarrow> u8 \<Rightarrow> u16 list \<Rightarrow> (u8 \<times> u16 list) option" where
  "capabilityPageLoop registry index ids =
     (if index < crCount registry \<and> length ids < unat MAX_CAPABILITY_PAGE_ENTRIES then
        case getCapabilityByIndex registry index of None \<Rightarrow> None
        | Some d \<Rightarrow> capabilityPageLoop registry (index + 1) (ids @ [cdId d])
      else Some (index, ids))"
  by pat_completeness auto
termination
  by (relation "measure (\<lambda>(registry, index, ids). unat MAX_CAPABILITY_PAGE_ENTRIES - length ids)") auto

declare capabilityPageLoop.simps [simp del]

definition requestCursor :: "operationRequest \<Rightarrow> u32" where
  "requestCursor q = (if \<not> isNoneValue (oqValue q) then getLe32 (tvBytes (oqValue q)) 0 else 0)"

definition getCapabilitiesResult :: "bool \<Rightarrow> capabilityRegistryView \<Rightarrow> operationRequest \<Rightarrow> hostResult \<Rightarrow> hostResult" where
  "getCapabilitiesResult registryValid registry q r =
     (if \<not> registryValid \<or> \<not> isValidCapabilityRegistry registry then setOperationResult OS_INVALID_DESCRIPTOR r
      else let cursor = requestCursor q in
      if cursor > ucast (crCount registry) then setOperationResult OS_VALUE_OUT_OF_RANGE r
      else case capabilityPageLoop registry (ucast cursor) [] of None \<Rightarrow> setOperationResult OS_INVALID_DESCRIPTOR r
      | Some (index, ids) \<Rightarrow>
          respondWith (encodeCapabilityPageRecord \<lparr>cpNextCursor = (if index = crCount registry then CAPABILITY_PAGE_END else ucast index),
              cpCount = of_nat (length ids), cpCapabilityIds = ids @ replicate (unat MAX_CAPABILITY_PAGE_ENTRIES - length ids) 0\<rparr>)
            (setOperationResult OS_OK r))"

definition describeCapabilityResult :: "bool \<Rightarrow> capabilityRegistryView \<Rightarrow> availabilityProvider \<Rightarrow> operationRequest \<Rightarrow>
    hostResult \<Rightarrow> hostResult" where
  "describeCapabilityResult registryValid registry availability q r =
     (if \<not> registryValid \<or> \<not> isValidCapabilityRegistry registry then setOperationResult OS_INVALID_DESCRIPTOR r
      else case findCapability registry (oqTargetId q) of None \<Rightarrow> setOperationResult OS_CAPABILITY_NOT_FOUND r
      | Some d \<Rightarrow> (case (case availability of None \<Rightarrow> None | Some query \<Rightarrow> query (cdId d)) of
          None \<Rightarrow> setOperationResult OS_INVALID_DESCRIPTOR r
        | Some available \<Rightarrow>
          respondWith (encodeCapabilityDescriptionRecord \<lparr>cnCapabilityClass = cdClass d, cnValueType = cdValueType d,
              cnOperationFlags = cdOperationFlags d, cnUnit = cdUnitCode d, cnAvailability = (if available then 1 else 0), cnReserved = 0\<rparr>)
            (setOperationResult OS_OK r)))"

text \<open>A Host may set indicators only: any other capability that supports SET is refused before dispatch.\<close>

definition setRefused :: "bool \<Rightarrow> capabilityRegistryView \<Rightarrow> capabilityId \<Rightarrow> bool" where
  "setRefused registryValid registry i = (registryValid \<and> isValidCapabilityRegistry registry
     \<and> (case findCapability registry i of None \<Rightarrow> False
        | Some d \<Rightarrow> supportsOperation d SET \<and> cdClass d \<noteq> INDICATOR_OUTPUT))"

definition handleLocalCapability :: "u16 \<Rightarrow> operationRequest \<Rightarrow> u8 \<Rightarrow> bool \<Rightarrow> capabilityRegistryView \<Rightarrow> 's capabilityHandler \<Rightarrow>
    interlockState \<Rightarrow> availabilityProvider \<Rightarrow> 's deviceEnv \<Rightarrow> hostResult \<times> 's deviceEnv" where
  "handleLocalCapability requestId q localDeviceId registryValid registry handler interlock availability env =
     (let validation = validateOperationRequest_0_1 q; result = (makeBaseResult requestId q)\<lparr>hrDisposition := D_HANDLED\<rparr> in
      if validation \<noteq> PR_OK then
        (reject requestId q (if validation = PR_UNSUPPORTED_CATEGORY_OPERATION then RR_UNSUPPORTED_OPERATION else RR_MALFORMED_REQUEST)
           False, env)
      else if oqCategory q \<noteq> CAT_CAPABILITY then ((makeBaseResult requestId q)\<lparr>hrDisposition := D_NOT_HANDLED\<rparr>, env)
      else if oqTargetDeviceId q \<noteq> localDeviceId then (reject requestId q RR_BAD_TARGET True, env)
      else if oqOperation q = operationCode.GET_CAPABILITIES then (getCapabilitiesResult registryValid registry q result, env)
      else if oqOperation q = operationCode.DESCRIBE_CAPABILITY then
        (describeCapabilityResult registryValid registry availability q result, env)
      else case hostValueToCapabilityValue (oqValue q) of None \<Rightarrow> (reject requestId q RR_MALFORMED_REQUEST False, env)
      | Some input \<Rightarrow>
        let op = (if oqOperation q = operationCode.READ_CAPABILITY then READ else SET) in
        if op = SET \<and> setRefused registryValid registry (oqTargetId q) then (setOperationResult OS_UNSUPPORTED_OPERATION result, env)
        else case executeLocalCapabilityNow registryValid registry handler (oqTargetId q) op input
            \<lparr>cxCallerClass = HOST_LOCAL, cxReserved = fillZero 3\<rparr> interlock env of (opResult, env) \<Rightarrow>
          let result = setOperationResult (orStatus opResult) result in
          if orStatus opResult = OS_OK \<and> op = READ then
            (case capabilityValueToHostValue (orValue opResult) (opValue (hrResponse result)) of (ok, v) \<Rightarrow>
               (if ok then setResponseValue v result else setOperationResult OS_OPERATION_FAILED (setResponseValue v result), env))
          else (result, env))"

end
