(* ===== verification/HostDeviceService.thy ===== *)
theory HostDeviceService
  imports HostOperationService
begin

text \<open>
  The device and diagnostic operations and the hello exchange
  (\<^verbatim>\<open>lib/host_operation_service/src/host_device_service.h\<close>), with the report \<^verbatim>\<open>EventDetailSnapshot\<close> of
  \<^verbatim>\<open>lib/runtime_state/src/runtime_state.h\<close> that the diagnostics are built from.
\<close>

subsection \<open>Snapshots\<close>

datatype eventDetailState = EDS_EMPTY | EDS_QUEUED | EDS_READY | EDS_TX_PREPARE | EDS_TRANSMITTING | EDS_WAIT_ADMISSION
  | EDS_BACKOFF | EDS_RELEASED | EDS_FAILED | EDS_EXPIRED | EDS_ACTIVE | EDS_CONSUMED

fun eventDetailState_code :: "eventDetailState \<Rightarrow> u8" where
  "eventDetailState_code EDS_EMPTY = 0"
| "eventDetailState_code EDS_QUEUED = 1"
| "eventDetailState_code EDS_READY = 2"
| "eventDetailState_code EDS_TX_PREPARE = 3"
| "eventDetailState_code EDS_TRANSMITTING = 4"
| "eventDetailState_code EDS_WAIT_ADMISSION = 5"
| "eventDetailState_code EDS_BACKOFF = 6"
| "eventDetailState_code EDS_RELEASED = 7"
| "eventDetailState_code EDS_FAILED = 8"
| "eventDetailState_code EDS_EXPIRED = 9"
| "eventDetailState_code EDS_ACTIVE = 10"
| "eventDetailState_code EDS_CONSUMED = 11"

fun eventProducerKind_code :: "eventProducerKind \<Rightarrow> u8" where
  "eventProducerKind_code EPK_NONE = 0"
| "eventProducerKind_code EPK_BUTTON = 1"
| "eventProducerKind_code EPK_SENSOR_THRESHOLD = 2"
| "eventProducerKind_code EPK_MANUAL_CHECK_IN = 3"

fun eventProducerResult_code :: "eventProducerResult \<Rightarrow> u8" where
  "eventProducerResult_code EPR_NONE = 0"
| "eventProducerResult_code EPR_CREATED = 1"
| "eventProducerResult_code EPR_QUEUE_FULL = 2"
| "eventProducerResult_code EPR_INVALID_EVENT = 3"
| "eventProducerResult_code EPR_STORAGE_FAILURE = 4"
| "eventProducerResult_code EPR_SUPPRESSED = 5"

record eventDetailSnapshot =
  dtTxLifecycle :: txSnapshot
  dtCustodyCount :: u8
  dtCapacity :: u8
  dtActiveCount :: u8
  dtConsumedCount :: u8
  dtRecordAvailable :: bool
  dtState :: eventDetailState
  dtIdentity :: eventIdentitySnapshot
  dtFamily :: u8
  dtAttemptsUsed :: u8
  dtAttemptsMaximum :: u8
  dtWaitingForAdmission :: bool
  dtWaitingForRetry :: bool
  dtRemainingLifetimeAvailable :: bool
  dtRemainingLifetimeSeconds :: u32
  dtAdmissionOrdinalAvailable :: bool
  dtAdmissionOrdinal :: u32
  dtRecentAdmissionAvailable :: bool
  dtRecentAdmission :: eventIdentitySnapshot
  dtPersistenceDegraded :: bool
  dtHubUnavailable :: bool
  dtLastProducer :: eventProducerSnapshot
  dtCounters :: eventDiagnosticCounters

record deviceSnapshot =
  dsRole :: deviceRole
  dsDeviceId :: u8
  dsReady :: bool
  dsPhase :: runtimePhase
  dsHealth :: health
  dsUptimeSeconds :: u32
  dsCounters :: diagnosticCounters
  dsEventDetails :: eventDetailSnapshot

definition makeDeviceSnapshot :: "rtState \<Rightarrow> u32 \<Rightarrow> eventDetailSnapshot \<Rightarrow> deviceSnapshot" where
  "makeDeviceSnapshot state uptimeSeconds eventDetails = \<lparr>dsRole = rsRole state, dsDeviceId = rsLocalId state,
     dsReady = rsReady state, dsPhase = rsPhase state, dsHealth = rsHealth state, dsUptimeSeconds = uptimeSeconds,
     dsCounters = rsCounters state, dsEventDetails = eventDetails\<rparr>"

definition hostIdentity :: "eventIdentitySnapshot \<Rightarrow> hostEventIdentity" where
  "hostIdentity i = \<lparr>hiSourceDeviceId = isSourceDeviceId i, hiEventEpoch = isEventEpoch i, hiEventId = isEventId i\<rparr>"

text \<open>A flag that is set where the condition holds.\<close>

definition flagIf :: "bool \<Rightarrow> 'a::len word \<Rightarrow> 'a word" where
  "flagIf c bits = (if c then bits else 0)"

definition EVENT_DIAGNOSTICS_WAITING_ADMISSION :: u8 where [simp]: "EVENT_DIAGNOSTICS_WAITING_ADMISSION = 0x01"
definition EVENT_DIAGNOSTICS_WAITING_RETRY :: u8 where [simp]: "EVENT_DIAGNOSTICS_WAITING_RETRY = 0x02"
definition EVENT_DIAGNOSTICS_PERSISTENCE_DEGRADED :: u8 where [simp]: "EVENT_DIAGNOSTICS_PERSISTENCE_DEGRADED = 0x10"
definition EVENT_DIAGNOSTICS_HUB_UNAVAILABLE :: u8 where [simp]: "EVENT_DIAGNOSTICS_HUB_UNAVAILABLE = 0x20"

definition eventDiagnosticsRecord :: "deviceSnapshot \<Rightarrow> eventDiagnosticsRecord" where
  "eventDiagnosticsRecord snapshot = (let source = dsEventDetails snapshot; c = dtCounters source in
     \<lparr>edSchema = EVENT_DIAGNOSTICS_SCHEMA, edRole = (if dsRole snapshot = HUB then HR_HUB else HR_NODE),
      edCustodyCount = dtCustodyCount source, edCapacity = dtCapacity source, edActiveCount = dtActiveCount source,
      edConsumedCount = dtConsumedCount source, edRecordAvailable = (if dtRecordAvailable source then 1 else 0),
      edState = eventDetailState_code (dtState source), edIdentity = hostIdentity (dtIdentity source),
      edFamily = dtFamily source, edAttemptsUsed = dtAttemptsUsed source, edAttemptsMaximum = dtAttemptsMaximum source,
      edFlags = flagIf (dtWaitingForAdmission source) EVENT_DIAGNOSTICS_WAITING_ADMISSION
        OR flagIf (dtWaitingForRetry source) EVENT_DIAGNOSTICS_WAITING_RETRY
        OR flagIf (dtRemainingLifetimeAvailable source) EVENT_DIAGNOSTICS_LIFETIME_AVAILABLE
        OR flagIf (dtAdmissionOrdinalAvailable source) EVENT_DIAGNOSTICS_ORDINAL_AVAILABLE
        OR flagIf (dtPersistenceDegraded source) EVENT_DIAGNOSTICS_PERSISTENCE_DEGRADED
        OR flagIf (dtHubUnavailable source) EVENT_DIAGNOSTICS_HUB_UNAVAILABLE,
      edRemainingLifetimeSeconds = dtRemainingLifetimeSeconds source, edAdmissionOrdinal = dtAdmissionOrdinal source,
      edRecentAdmissionAvailable = (if dtRecentAdmissionAvailable source then 1 else 0),
      edRecentAdmission = hostIdentity (dtRecentAdmission source),
      edProducerKind = eventProducerKind_code (epKind (dtLastProducer source)),
      edProducerResult = eventProducerResult_code (epResult (dtLastProducer source)),
      edProducerIdentityAvailable = (if epIdentityAvailable (dtLastProducer source) then 1 else 0),
      edProducerIdentity = hostIdentity (epIdentity (dtLastProducer source)),
      edCounters = [ecEnqueueAccepted c, ecQueueFullRejected c, ecPersistenceFailures c, ecEventsRecovered c,
        ecStorageCorruptions c, ecEventAttempts c, ecEventsExpired c, ecAttemptsExhausted c, ecHubCapacityRejections c,
        ecIdentityContentMismatches c, ecDuplicateRetransmissions c, ecSuccessfulAdmissions c, ecAdmissionsAcknowledged c,
        ecHostPollsReturnedEvent c, ecHostConsumptions c]\<rparr>)"

fun mapRole :: "deviceRole \<Rightarrow> hostRole option" where
  "mapRole HUB = Some HR_HUB"
| "mapRole NODE = Some HR_NODE"

definition saturateUint16 :: "u32 \<Rightarrow> u16" where
  "saturateUint16 value = (if value > 0xFFFF then 0xFFFF else ucast value)"

definition isTransactionActive :: "runtimePhase \<Rightarrow> bool" where
  "isTransactionActive phase = (phase = RP_TRANSMITTING \<or> phase = RP_WAITING_FOR_ACK \<or> phase = RP_TRANSMITTING_ACK
     \<or> phase = RP_WAITING_FOR_RESPONSE \<or> phase = RP_TRANSMITTING_RESPONSE)"

definition STATUS_READY :: u16 where [simp]: "STATUS_READY = 0x0001"
definition STATUS_RADIO_OPERATIONAL :: u16 where [simp]: "STATUS_RADIO_OPERATIONAL = 0x0002"
definition STATUS_TRANSACTION_ACTIVE :: u16 where [simp]: "STATUS_TRANSACTION_ACTIVE = 0x0004"
definition STATUS_DEGRADED :: u16 where [simp]: "STATUS_DEGRADED = 0x0008"
definition STATUS_ERROR :: u16 where [simp]: "STATUS_ERROR = 0x0010"

definition statusFlags :: "deviceSnapshot \<Rightarrow> u16" where
  "statusFlags snapshot = (flagIf (dsReady snapshot) (STATUS_READY OR STATUS_RADIO_OPERATIONAL)
     OR flagIf (isTransactionActive (dsPhase snapshot)) STATUS_TRANSACTION_ACTIVE
     OR flagIf (dsHealth snapshot = HEALTH_DEGRADED) STATUS_DEGRADED
     OR flagIf (dsHealth snapshot = HEALTH_ERROR) STATUS_ERROR)"

definition DIAGNOSTIC_METRIC_COUNT :: u8 where [simp]: "DIAGNOSTIC_METRIC_COUNT = 10"

definition diagnosticMetricValue :: "diagnosticCounters \<Rightarrow> u8 \<Rightarrow> u32" where
  "diagnosticMetricValue c index =
     (if index = 0 then dcTransmissionsCompleted c else if index = 1 then dcDecodedPacketsReceived c
      else if index = 2 then dcSuccessfulTransactions c else if index = 3 then dcAcceptedCommands c
      else if index = 4 then dcRetransmissions c else if index = 5 then dcAcknowledgmentTimeouts c
      else if index = 6 then dcDuplicates c else if index = 7 then dcMalformedPackets c
      else if index = 8 then dcIgnoredPackets c else if index = 9 then dcRadioErrors c else 0)"

subsection \<open>Device and diagnostic operations\<close>

definition FIRMWARE_MAJOR :: u8 where [simp]: "FIRMWARE_MAJOR = 0"
definition FIRMWARE_MINOR :: u8 where [simp]: "FIRMWARE_MINOR = 7"
definition FIRMWARE_PATCH :: u8 where [simp]: "FIRMWARE_PATCH = 0"
definition SETTINGS_SCHEMA_VERSION :: u8 where [simp]: "SETTINGS_SCHEMA_VERSION = 1"

definition deviceInfo :: "hostRole \<Rightarrow> deviceSnapshot \<Rightarrow> deviceInfoRecord" where
  "deviceInfo role snapshot = \<lparr>diFirmwareMajor = FIRMWARE_MAJOR, diFirmwareMinor = FIRMWARE_MINOR,
     diFirmwarePatch = FIRMWARE_PATCH, diWireProtocol = VERSION, diConfigurationSchema = SETTINGS_SCHEMA_VERSION,
     diHardwareProfile = HELTEC_V4, diRole = role, diDeviceId = dsDeviceId snapshot\<rparr>"

definition deviceStatus :: "deviceSnapshot \<Rightarrow> statusRecord" where
  "deviceStatus snapshot = \<lparr>srStatusFlags = statusFlags snapshot, srUptimeSeconds = dsUptimeSeconds snapshot,
     srRetryCount = saturateUint16 (dcRetransmissions (dsCounters snapshot)),
     srTimeoutCount = saturateUint16 (dcAcknowledgmentTimeouts (dsCounters snapshot))\<rparr>"

text \<open>The loop that fills a diagnostic page: the next index and the entries so far.\<close>

function diagnosticPageLoop :: "diagnosticCounters \<Rightarrow> u8 \<Rightarrow> diagnosticEntry list \<Rightarrow> u8 \<times> diagnosticEntry list" where
  "diagnosticPageLoop c index entries =
     (if index < DIAGNOSTIC_METRIC_COUNT \<and> length entries < unat MAX_DIAGNOSTIC_PAGE_ENTRIES then
        diagnosticPageLoop c (index + 1) (entries @ [\<lparr>deMetricId = index + 1, deValue = diagnosticMetricValue c index\<rparr>])
      else (index, entries))"
  by pat_completeness auto
termination
  by (relation "measure (\<lambda>(c, index, entries). unat MAX_DIAGNOSTIC_PAGE_ENTRIES - length entries)") auto

declare diagnosticPageLoop.simps [simp del]

definition diagnosticPage :: "diagnosticCounters \<Rightarrow> u8 \<Rightarrow> diagnosticPageRecord" where
  "diagnosticPage c cursor = (case diagnosticPageLoop c cursor [] of (index, entries) \<Rightarrow>
     \<lparr>dpNextCursor = (if index = DIAGNOSTIC_METRIC_COUNT then DIAGNOSTIC_PAGE_END else index),
      dpCount = of_nat (length entries),
      dpEntries = entries @ replicate (unat MAX_DIAGNOSTIC_PAGE_ENTRIES - length entries) diagnosticEntry_init\<rparr>)"

definition handleLocalDeviceOrDiagnostic :: "u16 \<Rightarrow> operationRequest \<Rightarrow> deviceSnapshot \<Rightarrow> u8 \<Rightarrow> hostResult" where
  "handleLocalDeviceOrDiagnostic requestId q snapshot requestMinor =
     (let validation = validateOperationRequest requestMinor q; result = setOperationResult OS_OK (makeBaseResult requestId q) in
      if validation \<noteq> PR_OK then
        reject requestId q (if validation = PR_UNSUPPORTED_CATEGORY_OPERATION then RR_UNSUPPORTED_OPERATION else RR_MALFORMED_REQUEST)
          False
      else if oqCategory q \<noteq> CAT_DEVICE \<and> oqCategory q \<noteq> CAT_DIAGNOSTIC then
        (makeBaseResult requestId q)\<lparr>hrDisposition := D_NOT_HANDLED\<rparr>
      else if oqTargetDeviceId q \<noteq> dsDeviceId snapshot then reject requestId q RR_BAD_TARGET True
      else if oqOperation q = operationCode.PING then
        setResponseValue (snd (setUint32Value (opValue (hrResponse result)) VT_UNSIGNED_32 (dsUptimeSeconds snapshot))) result
      else case mapRole (dsRole snapshot) of None \<Rightarrow> setOperationResult OS_OPERATION_FAILED result
      | Some role \<Rightarrow>
        if oqOperation q = operationCode.GET_DEVICE_INFO then respondWith (encodeDeviceInfoRecord (deviceInfo role snapshot)) result
        else if oqOperation q = operationCode.GET_STATUS then respondWith (encodeStatusRecord (deviceStatus snapshot)) result
        else if oqOperation q = GET_EVENT_DIAGNOSTICS then
          (if \<not> isNoneValue (oqValue q)
           then respondWith (encodeEventTxDiagnostics role (dtTxLifecycle (dsEventDetails snapshot))) result
           else respondWith (encodeEventDiagnosticsRecord (eventDiagnosticsRecord snapshot)) result)
        else let cursor = requestCursor q in
          if cursor > ucast DIAGNOSTIC_METRIC_COUNT then setOperationResult OS_VALUE_OUT_OF_RANGE result
          else respondWith (encodeDiagnosticPageRecord (diagnosticPage (dsCounters snapshot) (ucast cursor))) result)"

definition handleLocalOperation :: "u16 \<Rightarrow> operationRequest \<Rightarrow> deviceSnapshot \<Rightarrow> bool \<Rightarrow> capabilityRegistryView \<Rightarrow>
    's capabilityHandler \<Rightarrow> interlockState \<Rightarrow> availabilityProvider \<Rightarrow> u8 \<Rightarrow> 's deviceEnv \<Rightarrow> hostResult \<times> 's deviceEnv" where
  "handleLocalOperation requestId q snapshot registryValid registry handler interlock availability requestMinor env =
     (if oqCategory q = CAT_CAPABILITY then
        handleLocalCapability requestId q (dsDeviceId snapshot) registryValid registry handler interlock availability env
      else (handleLocalDeviceOrDiagnostic requestId q snapshot requestMinor, env))"

subsection \<open>Hello\<close>

datatype helloDisposition = HD_RESPONSE | HD_PROTOCOL_ERROR

record helloResult =
  hloDisposition :: helloDisposition
  hloRequestId :: u16
  hloResponse :: helloResponse
  hloError :: protocolError

definition CATEGORY_DEVICE_BIT :: u16 where [simp]: "CATEGORY_DEVICE_BIT = 0x0001"
definition CATEGORY_CAPABILITY_BIT :: u16 where [simp]: "CATEGORY_CAPABILITY_BIT = 0x0002"
definition CATEGORY_DIAGNOSTIC_BIT :: u16 where [simp]: "CATEGORY_DIAGNOSTIC_BIT = 0x0008"
definition FEATURE_LOCAL_OPERATIONS :: u16 where [simp]: "FEATURE_LOCAL_OPERATIONS = 0x0001"
definition FEATURE_RADIO_BRIDGE :: u16 where [simp]: "FEATURE_RADIO_BRIDGE = 0x0002"

definition helloResponse_init :: helloResponse where
  "helloResponse_init = \<lparr>hsSelectedMinor = 0, hsFirmwareMajor = 0, hsFirmwareMinor = 0, hsFirmwarePatch = 0, hsWireProtocol = 0,
     hsConfigurationSchema = 0, hsHardwareProfile = HardwareProfile_raw 0, hsRole = HostRole_raw 0, hsDeviceId = 0,
     hsMaximumHostPayload = 0, hsOperationCategoryBitmap = 0, hsFeatureBitmap = 0, hsMaximumOutstandingOperations = 0,
     hsReserved = 0\<rparr>"

definition helloError :: "u16 \<Rightarrow> protocolErrorCode \<Rightarrow> helloResult" where
  "helloError requestId code = \<lparr>hloDisposition = HD_PROTOCOL_ERROR, hloRequestId = requestId, hloResponse = helloResponse_init,
     hloError = \<lparr>peErrorCode = code, peOffendingType = messageType_code HELLO_REQUEST, peDetail = 0\<rparr>\<rparr>"

definition handleHello :: "u16 \<Rightarrow> u8 \<Rightarrow> u8 \<Rightarrow> helloRequest \<Rightarrow> deviceSnapshot \<Rightarrow> bool \<Rightarrow> bool \<Rightarrow> helloResult" where
  "handleHello requestId envelopeMajor envelopeMinor q snapshot radioStructuredBridge eventServiceAvailable =
     (if envelopeMajor \<noteq> VERSION_MAJOR then helloError requestId PE_UNSUPPORTED_MAJOR
      else if \<not> isValidHelloMinorRange envelopeMinor (hqMinimumMinor q) (hqMaximumMinor q) then
        helloError requestId PE_UNSUPPORTED_MINOR
      else case selectHighestSupportedMinor (hqMinimumMinor q) (hqMaximumMinor q) of
        None \<Rightarrow> helloError requestId PE_UNSUPPORTED_MINOR
      | Some selectedMinor \<Rightarrow> (case mapRole (dsRole snapshot) of
          None \<Rightarrow> helloError requestId PE_MALFORMED_PAYLOAD
        | Some role \<Rightarrow>
          let events = (selectedMinor = VERSION_MINOR_0_2 \<and> dsRole snapshot = HUB \<and> eventServiceAvailable) in
          \<lparr>hloDisposition = HD_RESPONSE, hloRequestId = requestId,
           hloResponse = \<lparr>hsSelectedMinor = selectedMinor, hsFirmwareMajor = FIRMWARE_MAJOR, hsFirmwareMinor = FIRMWARE_MINOR,
             hsFirmwarePatch = FIRMWARE_PATCH, hsWireProtocol = VERSION, hsConfigurationSchema = SETTINGS_SCHEMA_VERSION,
             hsHardwareProfile = HELTEC_V4, hsRole = role, hsDeviceId = dsDeviceId snapshot,
             hsMaximumHostPayload = of_nat HOST_MAX_PAYLOAD_SIZE,
             hsOperationCategoryBitmap = CATEGORY_DEVICE_BIT OR CATEGORY_CAPABILITY_BIT OR CATEGORY_DIAGNOSTIC_BIT
               OR flagIf events CATEGORY_EVENT_BIT,
             hsFeatureBitmap = FEATURE_LOCAL_OPERATIONS OR flagIf radioStructuredBridge FEATURE_RADIO_BRIDGE
               OR flagIf events FEATURE_EVENT_SERVICE,
             hsMaximumOutstandingOperations = MAX_OUTSTANDING_OPERATIONS, hsReserved = HELLO_RESERVED_VALUE\<rparr>,
           hloError = \<lparr>peErrorCode = ProtocolErrorCode_raw 0, peOffendingType = messageType_code HELLO_REQUEST, peDetail = 0\<rparr>\<rparr>))"

definition handleHello_0_1 :: "u16 \<Rightarrow> u8 \<Rightarrow> helloRequest \<Rightarrow> deviceSnapshot \<Rightarrow> bool \<Rightarrow> helloResult" where
  "handleHello_0_1 requestId envelopeMajor q snapshot radioStructuredBridge =
     handleHello requestId envelopeMajor VERSION_MINOR_0_1 q snapshot radioStructuredBridge False"

end
