(* ===== verification/RadioOperationBridge.thy ===== *)
theory RadioOperationBridge
  imports HostDeviceService
begin

text \<open>
  The bridge between the host protocol and the radio (\<^verbatim>\<open>lib/radio_operation_bridge/src/radio_operation_bridge.h\<close>):
  the Hub turns a host request for the Node into one structured transaction, the Node admits, executes and answers it.
  The loops that copy a value between the two value types write at most as many bytes as the target array has,
  because every value they see is that short; the model truncates where the code would write past the array.
\<close>

subsection \<open>The Hub's side\<close>

datatype hubAction = HA_NONE | HA_NOT_HANDLED | HA_NOT_ACCEPTED | HA_TRANSMIT_COMMAND | HA_HOST_RESPONSE_READY

record hubResult =
  huAction :: hubAction
  huRequestId :: u16
  huPacket :: packet
  huResponse :: operationResponse

definition operationResponse_init :: operationResponse where
  "operationResponse_init = \<lparr>opCategory = OperationCategory_raw 0, opOperation = OperationCode_raw 0, opTargetDeviceId = 0,
     opTargetId = 0, opResultClass = RC_SUCCESS, opResultCode = 0, opValue = typedValue_init\<rparr>"

definition operationRequest_init :: operationRequest where
  "operationRequest_init = \<lparr>oqCategory = OperationCategory_raw 0, oqOperation = OperationCode_raw 0, oqTargetDeviceId = 0,
     oqTargetId = 0, oqValue = typedValue_init\<rparr>"

definition hubResult_init :: hubResult where
  "hubResult_init = \<lparr>huAction = HA_NONE, huRequestId = 0, huPacket = packet_init, huResponse = operationResponse_init\<rparr>"

definition copyHostToWireValue :: "typedValue \<Rightarrow> wireValue" where
  "copyHostToWireValue v = \<lparr>wvType = tvType v, wvLength = tvLength v,
     wvBytes = copyBytes (fillZero WIRE_MAX_REQUEST_VALUE_SIZE) 0 (tvBytes v) (unat (tvLength v))\<rparr>"

definition copyWireToHostValue :: "wireValue \<Rightarrow> typedValue" where
  "copyWireToHostValue v = \<lparr>tvType = wvType v, tvLength = wvLength v,
     tvBytes = copyBytes (fillZero HOST_MAX_REQUEST_VALUE_SIZE) 0 (wvBytes v) (unat (wvLength v))\<rparr>"

definition makeHostResponseBase :: "operationRequest \<Rightarrow> operationResponse" where
  "makeHostResponseBase q = operationResponse_init\<lparr>opCategory := oqCategory q, opOperation := oqOperation q,
     opTargetDeviceId := oqTargetDeviceId q, opTargetId := oqTargetId q, opValue := setNoneValue\<rparr>"

record hubBridge =
  hbActive :: bool
  hbNextSequence :: u8
  hbRequestId :: u16
  hbRequest :: operationRequest
  hbPeerSupport :: peerSupport
  hbTransaction :: hubTransaction

definition hubBridge_init :: hubBridge where
  "hubBridge_init = \<lparr>hbActive = False, hbNextSequence = 0, hbRequestId = 0, hbRequest = operationRequest_init,
     hbPeerSupport = PEER_UNKNOWN, hbTransaction = hubTransaction_init\<rparr>"

definition hb_configurePeerSupport :: "peerSupport \<Rightarrow> hubBridge \<Rightarrow> hubBridge" where
  "hb_configurePeerSupport support b = b\<lparr>hbPeerSupport := support\<rparr>"

definition hb_reject :: "hubResult \<Rightarrow> requestRejectionCode \<Rightarrow> hubResult" where
  "hb_reject r code = r\<lparr>huAction := HA_HOST_RESPONSE_READY, huResponse := (huResponse r)
     \<lparr>opResultClass := RC_REQUEST_REJECTED, opResultCode := requestRejectionCode_code code\<rparr>\<rparr>"

definition hb_submit :: "u16 \<Rightarrow> operationRequest \<Rightarrow> deviceRole \<Rightarrow> u8 \<Rightarrow> u8 \<Rightarrow> u32 \<Rightarrow> u32 \<Rightarrow> u8 \<Rightarrow> bool \<Rightarrow> hubBridge \<Rightarrow>
    hubResult \<times> hubBridge" where
  "hb_submit requestId q localRole localId peerId now overallTimeout maxRetries explicitlyConfigured b =
     (let result = hubResult_init\<lparr>huRequestId := requestId, huResponse := makeHostResponseBase q\<rparr>;
          validation = validateOperationRequest_0_1 q; opc = operationCode_code (oqOperation q) in
      if validation \<noteq> PR_OK then
        (hb_reject result (if validation = PR_UNSUPPORTED_CATEGORY_OPERATION then RR_UNSUPPORTED_OPERATION else RR_MALFORMED_REQUEST), b)
      else if oqTargetDeviceId q = localId then (result\<lparr>huAction := HA_NOT_HANDLED\<rparr>, b)
      else if localRole \<noteq> HUB \<or> oqTargetDeviceId q \<noteq> peerId then (hb_reject result RR_BAD_TARGET, b)
      else if hbActive b then (result\<lparr>huAction := HA_NOT_ACCEPTED\<rparr>, b)
      else if \<not> mayStartStructuredOperation (hbPeerSupport b) opc explicitlyConfigured then
        (hb_reject result RR_UNSUPPORTED_OPERATION, b)
      else let command = makeCommand localId peerId (hbNextSequence b) opc
          \<lparr>wqTargetId = oqTargetId q, wqValue = copyHostToWireValue (oqValue q)\<rparr> in
        if pkPayloadLength command = 0 then (result\<lparr>huAction := HA_NOT_ACCEPTED\<rparr>, b)
        else case ht_begin command now overallTimeout maxRetries (hbTransaction b) of (started, t) \<Rightarrow>
          if \<not> started then (result\<lparr>huAction := HA_NOT_ACCEPTED\<rparr>, b\<lparr>hbTransaction := t\<rparr>)
          else (result\<lparr>huAction := HA_TRANSMIT_COMMAND, huPacket := command\<rparr>,
                b\<lparr>hbTransaction := ht_configureSupport (hbPeerSupport b) t, hbActive := True, hbRequestId := requestId,
                  hbRequest := q\<rparr>))"

definition hb_activeBase :: "hubBridge \<Rightarrow> hubResult" where
  "hb_activeBase b = (if hbActive b then
     hubResult_init\<lparr>huRequestId := hbRequestId b, huResponse := makeHostResponseBase (hbRequest b)\<rparr> else hubResult_init)"

definition hb_finish :: "hubResult \<Rightarrow> hubBridge \<Rightarrow> hubResult \<times> hubBridge" where
  "hb_finish r b = (r\<lparr>huAction := HA_HOST_RESPONSE_READY\<rparr>, b\<lparr>hbActive := False, hbNextSequence := hbNextSequence b + 1\<rparr>)"

definition RADIO_TIMEOUT :: u8 where [simp]: "RADIO_TIMEOUT = 0x06"
definition RADIO_REMOTE_REJECTED :: u8 where [simp]: "RADIO_REMOTE_REJECTED = 0x07"

definition hb_receive :: "packet \<Rightarrow> hubBridge \<Rightarrow> hubResult \<times> hubBridge" where
  "hb_receive p b =
     (let result = hb_activeBase b in
      if \<not> hbActive b then (result, b)
      else case ht_receive p (hbTransaction b) of (event, t) \<Rightarrow>
        let b = b\<lparr>hbTransaction := t, hbPeerSupport := htSupport t\<rparr> in
        if event = SE_RESPONSE_COMPLETE then
          hb_finish (result\<lparr>huResponse := (huResponse result)\<lparr>opResultClass := RC_OPERATION_RESULT,
            opResultCode := operationStatus_code (wrStatus (htResult t)), opValue := copyWireToHostValue (wrValue (htResult t))\<rparr>\<rparr>) b
        else if event = SE_REMOTE_REJECTED then
          hb_finish (result\<lparr>huResponse := (huResponse result)\<lparr>opResultClass := RC_RADIO_RESULT,
            opResultCode := RADIO_REMOTE_REJECTED\<rparr>\<rparr>) b
        else (result, b))"

definition hb_service :: "u32 \<Rightarrow> hubBridge \<Rightarrow> hubResult \<times> hubBridge" where
  "hb_service now b =
     (let result = hb_activeBase b in
      if \<not> hbActive b then (result, b)
      else case ht_service now (hbTransaction b) of (event, t) \<Rightarrow>
        let b = b\<lparr>hbTransaction := t\<rparr> in
        if event = SE_RETRANSMIT then (result\<lparr>huAction := HA_TRANSMIT_COMMAND, huPacket := htCommand t\<rparr>, b)
        else if event = SE_TIMEOUT then
          hb_finish (result\<lparr>huResponse := (huResponse result)\<lparr>opResultClass := RC_RADIO_RESULT, opResultCode := RADIO_TIMEOUT\<rparr>\<rparr>) b
        else (result, b))"

definition hb_reset :: "hubBridge \<Rightarrow> hubBridge" where
  "hb_reset b = b\<lparr>hbActive := False, hbTransaction := ht_configureSupport (hbPeerSupport b) hubTransaction_init,
     hbRequestId := 0, hbRequest := operationRequest_init\<rparr>"

subsection \<open>The Node's side\<close>

datatype nodeAction = NA_IGNORE | NA_SEND_ACK | NA_ACK_THEN_EXECUTE | NA_SEND_ACK_AND_RESPONSE | NA_ACTIVE_BUSY
  | NA_SEND_REJECTION_ACK | NA_RESPONSE_READY

record nodeResult =
  nrAction :: nodeAction
  nrAcknowledgment :: packet
  nrResponse :: packet

definition nodeResult_init :: nodeResult where
  "nodeResult_init = \<lparr>nrAction = NA_IGNORE, nrAcknowledgment = packet_init, nrResponse = packet_init\<rparr>"

record nodeProcessor =
  nxRetained :: retained
  nxPendingCommand :: packet
  nxHasPendingCommand :: bool
  nxHostScratch :: typedValue

definition nodeProcessor_init :: nodeProcessor where
  "nodeProcessor_init = \<lparr>nxRetained = retained_init, nxPendingCommand = packet_init, nxHasPendingCommand = False,
     nxHostScratch = typedValue_init\<rparr>"

definition nx_admit :: "packet \<Rightarrow> u8 \<Rightarrow> u8 \<Rightarrow> nodeProcessor \<Rightarrow> nodeResult \<times> nodeProcessor" where
  "nx_admit command localId peerId n =
     (case admitNodeCommand command localId peerId (nxRetained n) of ((outcome, status), r) \<Rightarrow>
        let n = n\<lparr>nxRetained := r\<rparr> in
        case outcome of
          AO_IGNORE \<Rightarrow> (nodeResult_init\<lparr>nrAction := NA_IGNORE\<rparr>, n)
        | AO_UNSUPPORTED_OPCODE \<Rightarrow>
            (nodeResult_init\<lparr>nrAction := NA_SEND_REJECTION_ACK, nrAcknowledgment := makeAcknowledgment command status\<rparr>, n)
        | AO_MALFORMED \<Rightarrow>
            (nodeResult_init\<lparr>nrAction := NA_SEND_REJECTION_ACK, nrAcknowledgment := makeAcknowledgment command status\<rparr>, n)
        | AO_ACTIVE_BUSY \<Rightarrow> (nodeResult_init\<lparr>nrAction := NA_ACTIVE_BUSY\<rparr>, n)
        | AO_DUPLICATE_PENDING \<Rightarrow> (nodeResult_init\<lparr>nrAction := NA_SEND_ACK, nrAcknowledgment := ro_acknowledgment r\<rparr>, n)
        | AO_DUPLICATE_COMPLETE \<Rightarrow> (nodeResult_init\<lparr>nrAction := NA_SEND_ACK_AND_RESPONSE,
            nrAcknowledgment := ro_acknowledgment r, nrResponse := roResponse r\<rparr>, n)
        | AO_ADMITTED \<Rightarrow> (nodeResult_init\<lparr>nrAction := NA_ACK_THEN_EXECUTE, nrAcknowledgment := ro_acknowledgment r\<rparr>,
            n\<lparr>nxPendingCommand := command, nxHasPendingCommand := True\<rparr>))"

fun categoryFor :: "operationCode \<Rightarrow> operationCategory" where
  "categoryFor operationCode.PING = CAT_DEVICE"
| "categoryFor operationCode.GET_DEVICE_INFO = CAT_DEVICE"
| "categoryFor operationCode.GET_STATUS = CAT_DEVICE"
| "categoryFor operationCode.GET_CAPABILITIES = CAT_CAPABILITY"
| "categoryFor operationCode.DESCRIBE_CAPABILITY = CAT_CAPABILITY"
| "categoryFor operationCode.READ_CAPABILITY = CAT_CAPABILITY"
| "categoryFor operationCode.SET_INDICATOR = CAT_CAPABILITY"
| "categoryFor operationCode.RUN_PROCEDURE = CAT_PROCEDURE"
| "categoryFor operationCode.GET_DIAGNOSTICS = CAT_DIAGNOSTIC"
| "categoryFor _ = OperationCategory_raw 0"

text \<open>What the Node does for a decoded request: the status, the value of a success and the environment.\<close>

definition executeWireRequest :: "u8 \<Rightarrow> wireRequest \<Rightarrow> deviceSnapshot \<Rightarrow> bool \<Rightarrow> capabilityRegistryView \<Rightarrow> 's capabilityHandler \<Rightarrow>
    interlockState \<Rightarrow> availabilityProvider \<Rightarrow> 's deviceEnv \<Rightarrow> operationStatus \<times> typedValue \<times> 's deviceEnv" where
  "executeWireRequest opc q snapshot registryValid registry handler interlock availability env =
     (let operation = operationCode_of opc in
      if operation = operationCode.READ_CAPABILITY \<or> operation = operationCode.SET_INDICATOR then
        (case hostValueToCapabilityValue (copyWireToHostValue (wqValue q)) of
           None \<Rightarrow> (OS_INVALID_VALUE_TYPE, setNoneValue, env)
         | Some input \<Rightarrow>
           (case processRemoteCapability registry handler (wqTargetId q)
               (if operation = operationCode.READ_CAPABILITY then READ else SET) input interlock
               (envDiagnostics env) (envHandler env) of (r, diagnostics, s) \<Rightarrow>
            let env = env\<lparr>envDiagnostics := diagnostics, envHandler := s\<rparr> in
            if orStatus r = OS_OK \<and> operation = operationCode.READ_CAPABILITY then
              (case capabilityValueToHostValue (orValue r) setNoneValue of (ok, v) \<Rightarrow>
                 if ok then (OS_OK, v, env) else (OS_OPERATION_FAILED, setNoneValue, env))
            else (orStatus r, setNoneValue, env)))
      else if operation = operationCode.RUN_PROCEDURE then (OS_UNAUTHORIZED, setNoneValue, env)
      else let hostRequest = \<lparr>oqCategory = categoryFor operation, oqOperation = operation, oqTargetDeviceId = dsDeviceId snapshot,
          oqTargetId = wqTargetId q, oqValue = copyWireToHostValue (wqValue q)\<rparr> in
        (case handleLocalOperation 1 hostRequest snapshot registryValid registry handler interlock availability
            VERSION_MINOR_0_1 env of (result, env) \<Rightarrow>
          (operationStatus_of (opResultCode (hrResponse result)), opValue (hrResponse result), env)))"

definition nx_executeAdmittedOperation :: "deviceSnapshot \<Rightarrow> bool \<Rightarrow> capabilityRegistryView \<Rightarrow> 's capabilityHandler \<Rightarrow>
    interlockState \<Rightarrow> availabilityProvider \<Rightarrow> nodeProcessor \<Rightarrow> 's deviceEnv \<Rightarrow> nodeResult \<times> nodeProcessor \<times> 's deviceEnv" where
  "nx_executeAdmittedOperation snapshot registryValid registry handler interlock availability n env =
     (if \<not> nxHasPendingCommand n \<or> \<not> ro_isActive (nxRetained n) then (nodeResult_init, n, env)
      else let command = nxPendingCommand n in
      case decodeRequest (pkOpcode command) (Some (pkPayload command)) (unat (pkPayloadLength command)) of
        Inl _ \<Rightarrow> (nodeResult_init, n, env)
      | Inr q \<Rightarrow>
        (case executeWireRequest (pkOpcode command) q snapshot registryValid registry handler interlock availability env
         of (status, scratch, env) \<Rightarrow>
          let n = n\<lparr>nxHostScratch := scratch\<rparr>;
              wireResponse = \<lparr>wrStatus = status, wrTargetId = wqTargetId q, wrValue = (if status \<noteq> OS_OK
                then wireValue_init\<lparr>wvType := valueType_code VT_NONE\<rparr> else copyHostToWireValue scratch)\<rparr>;
              response = makeResponsePacket command wireResponse in
          if pkPayloadLength response = 0 then (nodeResult_init, n, env)
          else case ro_complete response (nxRetained n) of (completed, r) \<Rightarrow>
            let n = n\<lparr>nxRetained := r\<rparr> in
            if \<not> completed then (nodeResult_init, n, env)
            else (nodeResult_init\<lparr>nrAction := NA_RESPONSE_READY, nrResponse := roResponse r\<rparr>,
                  n\<lparr>nxHasPendingCommand := False\<rparr>, env)))"

definition nx_reset :: "nodeProcessor \<Rightarrow> nodeProcessor" where
  "nx_reset n = \<lparr>nxRetained = ro_reset (nxRetained n), nxPendingCommand = packet_init, nxHasPendingCommand = False,
     nxHostScratch = setNoneValue\<rparr>"

end
