(* ===== verification/HostEventService.thy ===== *)
theory HostEventService
  imports HostOperationService HubEventLedger
begin

text \<open>
  The event operations of the host (\<^verbatim>\<open>lib/host_event_service/src/host_event_service.h\<close>): polling for the oldest
  event in the Hub's custody and consuming one.  The service may hold a pointer to the runtime state; the Hub's main
  program gives it the one that the ledger counts in, so \<open>diagnostics\<close> says whether it has that pointer.
\<close>

definition setSuccess :: "hostResult \<Rightarrow> hostResult" where
  "setSuccess r = r\<lparr>hrResponse := (hrResponse r)\<lparr>opResultClass := RC_SUCCESS, opResultCode := SUCCESS_OK\<rparr>\<rparr>"

definition setEventFailure :: "u8 \<Rightarrow> hostResult \<Rightarrow> hostResult" where
  "setEventFailure code r = r\<lparr>hrResponse := (hrResponse r)\<lparr>opResultClass := RC_EVENT_RESULT, opResultCode := code,
     opValue := setNoneValue\<rparr>\<rparr>"

definition hostEventRecord_init :: hostEventRecord where
  "hostEventRecord_init = \<lparr>heAvailable = 0, heSourceDeviceId = 0, heFamily = 0, heFlags = 0, heEventEpoch = 0, heEventId = 0,
     heLifetimeBudgetSeconds = 0, heBodyLength = 0, heBody = fillZero MAX_BODY_SIZE\<rparr>"

definition he_convert :: "hubRecord \<Rightarrow> hostEventRecord option" where
  "he_convert source =
     (if hrState source \<noteq> HS_ACTIVE then None
      else let candidate = \<lparr>heAvailable = 1, heSourceDeviceId = hrSourceDeviceId source, heFamily = hrFamily source,
          heFlags = hrFlags source, heEventEpoch = hrEventEpoch source, heEventId = hrEventId source,
          heLifetimeBudgetSeconds = hrLifetimeBudgetSeconds source, heBodyLength = hrBodyLength source,
          heBody = copyBytes (fillZero MAX_BODY_SIZE) 0 (hrBody source) (unat (hrBodyLength source))\<rparr> in
        if \<not> isValidHostEventRecord candidate then None else Some candidate)"

definition he_poll :: "bool \<Rightarrow> hostResult \<Rightarrow> ledger \<Rightarrow> hostResult \<times> ledger" where
  "he_poll diagnostics r l =
     (case (case oldestActive l of None \<Rightarrow> Some hostEventRecord_init | Some (slot, rec) \<Rightarrow> he_convert rec) of
        None \<Rightarrow> (setEventFailure EVENT_STORAGE_FAILURE r, l)
      | Some event \<Rightarrow>
        let r = setSuccess r; value = opValue (hrResponse r) in
        (case encodeHostEventRecord event (Some (tvBytes value)) HOST_MAX_REQUEST_VALUE_SIZE of (res, len, out) \<Rightarrow>
          if res \<noteq> PR_OK then (setEventFailure EVENT_STORAGE_FAILURE r, l)
          else (setResponseValue \<lparr>tvType = STRUCTURE_VALUE_TYPE, tvLength = of_nat len, tvBytes = the out\<rparr> r,
                if heAvailable event = 1 \<and> diagnostics then hl_note ED_HOST_POLL_RETURNED_EVENT 1 l else l)))"

definition he_consume :: "'s hubStorage \<Rightarrow> hostResult \<Rightarrow> operationRequest \<Rightarrow> ledger \<Rightarrow> 's \<Rightarrow> hostResult \<times> ledger \<times> 's" where
  "he_consume ops r q l s =
     (case decodeHostEventIdentity (Some (tvBytes (oqValue q))) (unat (tvLength (oqValue q))) of
        Inl _ \<Rightarrow> (reject (hrRequestId r) q RR_MALFORMED_REQUEST True, l, s)
      | Inr i \<Rightarrow>
        (case consume ops \<lparr>idSourceDeviceId = hiSourceDeviceId i, idEpoch = hiEventEpoch i, idId = hiEventId i\<rparr> l s of
          (consumed, l, s) \<Rightarrow>
          (case coStatus consumed of
             CONSUMED \<Rightarrow> setResponseValue setNoneValue (setSuccess r)
           | ALREADY_CONSUMED \<Rightarrow> setResponseValue setNoneValue (setSuccess r)
           | CON_NOT_FOUND \<Rightarrow> setEventFailure EVENT_NOT_FOUND r
           | CON_STORAGE_FAILURE \<Rightarrow> setEventFailure EVENT_STORAGE_FAILURE r
           | CON_DEGRADED \<Rightarrow> setEventFailure EVENT_STORAGE_FAILURE r, l, s)))"

definition he_handle :: "'s hubStorage \<Rightarrow> bool \<Rightarrow> u16 \<Rightarrow> operationRequest \<Rightarrow> deviceRole \<Rightarrow> u8 \<Rightarrow> ledger \<Rightarrow> 's \<Rightarrow>
    hostResult \<times> ledger \<times> 's" where
  "he_handle ops diagnostics requestId q role localDeviceId l s =
     (if oqCategory q \<noteq> CAT_EVENT then ((makeBaseResult requestId q)\<lparr>hrDisposition := D_NOT_HANDLED\<rparr>, l, s)
      else if role \<noteq> HUB then (reject requestId q RR_UNSUPPORTED_OPERATION True, l, s)
      else if oqTargetDeviceId q \<noteq> localDeviceId then (reject requestId q RR_BAD_TARGET True, l, s)
      else if validateOperationRequest VERSION_MINOR_0_2 q \<noteq> PR_OK then (reject requestId q RR_MALFORMED_REQUEST True, l, s)
      else let r = (makeBaseResult requestId q)\<lparr>hrDisposition := D_HANDLED\<rparr> in
        if \<not> hlHealthy l then (setEventFailure EVENT_STORAGE_FAILURE r, l, s)
        else if oqOperation q = POLL_EVENTS then (case he_poll diagnostics r l of (r, l) \<Rightarrow> (r, l, s))
        else if oqOperation q = CONSUME_EVENT then he_consume ops r q l s
        else (reject requestId q RR_UNSUPPORTED_OPERATION True, l, s))"

end
