(* ===== verification/HostOperationLifecycle.thy ===== *)
theory HostOperationLifecycle
  imports RadioOperationBridge HostEventService
begin

text \<open>
  The lifecycle of a host's operation (\<^verbatim>\<open>lib/host_operation_lifecycle/src/host_operation_lifecycle.h\<close>): one request
  is active at a time, its response is retained and given again to a repeated request.
\<close>

datatype lifecycleState = LS_EMPTY | LS_ACTIVE | LS_COMPLETED

datatype lifecycleAction = LA_NONE | LA_INVALID_REQUEST | LA_ACTIVE_DUPLICATE | LA_TRANSMIT_COMMAND | LA_HOST_RESPONSE_READY
  | LA_HOST_RESPONSE_SUPPRESSED | LA_RESPONSE_RETAINED

record lifecycleResult =
  laAction :: lifecycleAction
  laRequestId :: u16
  laResponseMinor :: u8
  laPacket :: packet
  laResponse :: operationResponse

definition lifecycleResult_init :: lifecycleResult where
  "lifecycleResult_init = \<lparr>laAction = LA_NONE, laRequestId = 0, laResponseMinor = 0, laPacket = packet_init,
     laResponse = operationResponse_init\<rparr>"

record retainedEntry =
  enRequestId :: u16
  enRequestMinor :: u8
  enRequestPayloadLength :: u8
  enRequestPayload :: bytes
  enResponse :: operationResponse

definition retainedEntry_init :: retainedEntry where
  "retainedEntry_init = \<lparr>enRequestId = 0, enRequestMinor = 0, enRequestPayloadLength = 0,
     enRequestPayload = fillZero HOST_MAX_PAYLOAD_SIZE, enResponse = operationResponse_init\<rparr>"

record lifecycle =
  lcState :: lifecycleState
  lcHostConnected :: bool
  lcEntry :: retainedEntry
  lcBridge :: hubBridge

definition lifecycle_init :: lifecycle where
  "lifecycle_init = \<lparr>lcState = LS_EMPTY, lcHostConnected = True, lcEntry = retainedEntry_init, lcBridge = hubBridge_init\<rparr>"

definition samePayload :: "bytes \<Rightarrow> nat \<Rightarrow> lifecycle \<Rightarrow> bool" where
  "samePayload payload payloadLength c = (payloadLength = unat (enRequestPayloadLength (lcEntry c))
     \<and> sameBytes payload (enRequestPayload (lcEntry c)) payloadLength)"

definition isExactRetainedRequest :: "u16 \<Rightarrow> bytes option \<Rightarrow> nat \<Rightarrow> lifecycle \<Rightarrow> bool" where
  "isExactRetainedRequest requestId payload payloadLength c = (lcState c = LS_COMPLETED \<and> requestId = enRequestId (lcEntry c)
     \<and> (case payload of None \<Rightarrow> False | Some bs \<Rightarrow> samePayload bs payloadLength c))"

definition acceptIdentity :: "u16 \<Rightarrow> u8 \<Rightarrow> bytes \<Rightarrow> nat \<Rightarrow> lifecycle \<Rightarrow> lifecycle" where
  "acceptIdentity requestId requestMinor payload payloadLength c =
     c\<lparr>lcEntry := retainedEntry_init\<lparr>enRequestId := requestId, enRequestMinor := requestMinor,
         enRequestPayloadLength := of_nat payloadLength,
         enRequestPayload := copyBytes (fillZero HOST_MAX_PAYLOAD_SIZE) 0 payload payloadLength\<rparr>, lcState := LS_ACTIVE\<rparr>"

definition completeEntry :: "operationResponse \<Rightarrow> lifecycle \<Rightarrow> lifecycle" where
  "completeEntry response c = c\<lparr>lcEntry := (lcEntry c)\<lparr>enResponse := response\<rparr>, lcState := LS_COMPLETED\<rparr>"

text \<open>What a ready response becomes while the host is away.\<close>

definition readyOr :: "lifecycleAction \<Rightarrow> lifecycle \<Rightarrow> lifecycleAction" where
  "readyOr away c = (if lcHostConnected c then LA_HOST_RESPONSE_READY else away)"

definition lc_rejection :: "u16 \<Rightarrow> operationRequest \<Rightarrow> u8 \<Rightarrow> requestRejectionCode \<Rightarrow> lifecycle \<Rightarrow> lifecycleResult" where
  "lc_rejection requestId q requestMinor code c = lifecycleResult_init\<lparr>laRequestId := requestId, laResponseMinor := requestMinor,
     laResponse := (makeHostResponseBase q)\<lparr>opResultClass := RC_REQUEST_REJECTED, opResultCode := requestRejectionCode_code code\<rparr>,
     laAction := readyOr LA_HOST_RESPONSE_SUPPRESSED c\<rparr>"

text \<open>The device that the operation runs on: what the callers pass by value, and the state that an operation changes.
  \<open>dvEventService\<close> says whether the caller has an event service, and whether that has diagnostics.\<close>

record ('h, 's) device =
  dvSnapshot :: deviceSnapshot
  dvPeerId :: u8
  dvRegistryValid :: bool
  dvRegistry :: capabilityRegistryView
  dvHandler :: "'h capabilityHandler"
  dvInterlock :: interlockState
  dvAvailability :: availabilityProvider
  dvEventService :: "bool option"
  dvStorage :: "'s hubStorage"

record ('h, 's) hostWorld =
  hwEnv :: "'h deviceEnv"
  hwLedger :: ledger
  hwStore :: 's

text \<open>The local half of \<^verbatim>\<open>submit\<close>: the event service, its absence, or the device service.\<close>

definition handleLocal :: "('h, 's) device \<Rightarrow> u16 \<Rightarrow> operationRequest \<Rightarrow> u8 \<Rightarrow> ('h, 's) hostWorld \<Rightarrow> hostResult \<times> ('h, 's) hostWorld" where
  "handleLocal dv requestId q requestMinor w =
     (if oqCategory q = CAT_EVENT then
        (case dvEventService dv of
           Some diagnostics \<Rightarrow>
             (case he_handle (dvStorage dv) diagnostics requestId q (dsRole (dvSnapshot dv)) (dsDeviceId (dvSnapshot dv))
                (hwLedger w) (hwStore w) of (r, l, s) \<Rightarrow> (r, w\<lparr>hwLedger := l, hwStore := s\<rparr>))
         | None \<Rightarrow> (reject requestId q (if oqTargetDeviceId q = dsDeviceId (dvSnapshot dv) then RR_UNSUPPORTED_OPERATION
              else RR_BAD_TARGET) True, w))
      else case handleLocalOperation requestId q (dvSnapshot dv) (dvRegistryValid dv) (dvRegistry dv) (dvHandler dv)
          (dvInterlock dv) (dvAvailability dv) requestMinor (hwEnv w) of (r, env) \<Rightarrow> (r, w\<lparr>hwEnv := env\<rparr>))"

definition lc_submitLocal :: "('h, 's) device \<Rightarrow> u16 \<Rightarrow> bytes \<Rightarrow> nat \<Rightarrow> operationRequest \<Rightarrow> u8 \<Rightarrow> lifecycle \<Rightarrow> ('h, 's) hostWorld \<Rightarrow>
    lifecycleResult \<times> lifecycle \<times> ('h, 's) hostWorld" where
  "lc_submitLocal dv requestId payload payloadLength q requestMinor c w =
     (case handleLocal dv requestId q requestMinor w of (r, w) \<Rightarrow>
        let result = lifecycleResult_init\<lparr>laRequestId := requestId, laResponseMinor := requestMinor\<rparr> in
        if hrDisposition r \<noteq> D_HANDLED then
          (lc_rejection requestId q requestMinor (if hrDisposition r = D_NOT_HANDLED then RR_UNSUPPORTED_OPERATION
             else hrRejectionCode r) c, c, w)
        else if opResultClass (hrResponse r) = RC_REQUEST_REJECTED then
          (result\<lparr>laAction := readyOr LA_HOST_RESPONSE_SUPPRESSED c, laResponse := hrResponse r\<rparr>, c, w)
        else let c = completeEntry (hrResponse r) (acceptIdentity requestId requestMinor payload payloadLength c) in
          (result\<lparr>laResponse := enResponse (lcEntry c), laAction := readyOr LA_RESPONSE_RETAINED c\<rparr>, c, w))"

definition lc_submitRemote :: "('h, 's) device \<Rightarrow> u16 \<Rightarrow> bytes \<Rightarrow> nat \<Rightarrow> operationRequest \<Rightarrow> u32 \<Rightarrow> u32 \<Rightarrow> u8 \<Rightarrow> bool \<Rightarrow> u8 \<Rightarrow>
    lifecycle \<Rightarrow> lifecycleResult \<times> lifecycle" where
  "lc_submitRemote dv requestId payload payloadLength q now overallTimeout maxRetries explicitlyConfigured requestMinor c =
     (let result = lifecycleResult_init\<lparr>laRequestId := requestId, laResponseMinor := requestMinor\<rparr> in
      case hb_submit requestId q (dsRole (dvSnapshot dv)) (dsDeviceId (dvSnapshot dv)) (dvPeerId dv) now overallTimeout
          maxRetries explicitlyConfigured (lcBridge c) of (remote, b) \<Rightarrow>
        let c = c\<lparr>lcBridge := b\<rparr> in
        if huAction remote = HA_TRANSMIT_COMMAND then
          (result\<lparr>laAction := LA_TRANSMIT_COMMAND, laPacket := huPacket remote\<rparr>,
           acceptIdentity requestId requestMinor payload payloadLength c)
        else if huAction remote = HA_HOST_RESPONSE_READY then
          (result\<lparr>laAction := readyOr LA_HOST_RESPONSE_SUPPRESSED c, laResponse := huResponse remote\<rparr>, c)
        else (result\<lparr>laAction := LA_INVALID_REQUEST\<rparr>, c))"

definition lc_submit :: "('h, 's) device \<Rightarrow> u16 \<Rightarrow> bytes option \<Rightarrow> nat \<Rightarrow> u32 \<Rightarrow> u32 \<Rightarrow> u8 \<Rightarrow> bool \<Rightarrow> u8 \<Rightarrow>
    lifecycle \<Rightarrow> ('h, 's) hostWorld \<Rightarrow> lifecycleResult \<times> lifecycle \<times> ('h, 's) hostWorld" where
  "lc_submit dv requestId payload payloadLength now overallTimeout maxRetries explicitlyConfigured requestMinor c w =
     (let result = lifecycleResult_init\<lparr>laRequestId := requestId, laResponseMinor := requestMinor\<rparr>;
          invalid = (result\<lparr>laAction := LA_INVALID_REQUEST\<rparr>, c, w) in
      if \<not> isValidRequestId requestId then invalid
      else case payload of None \<Rightarrow> invalid | Some bs \<Rightarrow>
      if payloadLength > HOST_MAX_PAYLOAD_SIZE then invalid
      else case decodeOperationRequest requestMinor (Some bs) payloadLength of Inl _ \<Rightarrow> invalid
      | Inr q \<Rightarrow>
        if lcState c \<noteq> LS_EMPTY \<and> requestId = enRequestId (lcEntry c) then
          (if \<not> samePayload bs payloadLength c then (lc_rejection requestId q requestMinor RR_MISMATCH c, c, w)
           else if lcState c = LS_ACTIVE then (result\<lparr>laAction := LA_ACTIVE_DUPLICATE\<rparr>, c, w)
           else (result\<lparr>laResponse := enResponse (lcEntry c), laResponseMinor := enRequestMinor (lcEntry c),
                   laAction := readyOr LA_RESPONSE_RETAINED c\<rparr>, c, w))
        else if lcState c = LS_ACTIVE then (lc_rejection requestId q requestMinor RR_BUSY c, c, w)
        else if oqTargetDeviceId q = dsDeviceId (dvSnapshot dv) \<or> oqCategory q = CAT_EVENT then
          lc_submitLocal dv requestId bs payloadLength q requestMinor c w
        else (case lc_submitRemote dv requestId bs payloadLength q now overallTimeout maxRetries explicitlyConfigured
               requestMinor c of (r, c) \<Rightarrow> (r, c, w)))"

definition lc_consumeRemote :: "hubResult \<Rightarrow> lifecycle \<Rightarrow> lifecycleResult \<times> lifecycle" where
  "lc_consumeRemote remote c =
     (let result = lifecycleResult_init\<lparr>laRequestId := enRequestId (lcEntry c), laResponseMinor := enRequestMinor (lcEntry c)\<rparr> in
      if lcState c \<noteq> LS_ACTIVE then (lifecycleResult_init, c)
      else if huAction remote = HA_TRANSMIT_COMMAND then (result\<lparr>laAction := LA_TRANSMIT_COMMAND, laPacket := huPacket remote\<rparr>, c)
      else if huAction remote = HA_HOST_RESPONSE_READY then
        let c = completeEntry (huResponse remote) c in
        (result\<lparr>laResponse := enResponse (lcEntry c), laAction := readyOr LA_RESPONSE_RETAINED c\<rparr>, c)
      else (result, c))"

definition lc_receive :: "packet \<Rightarrow> lifecycle \<Rightarrow> lifecycleResult \<times> lifecycle" where
  "lc_receive p c = (case hb_receive p (lcBridge c) of (remote, b) \<Rightarrow> lc_consumeRemote remote (c\<lparr>lcBridge := b\<rparr>))"

definition lc_service :: "u32 \<Rightarrow> lifecycle \<Rightarrow> lifecycleResult \<times> lifecycle" where
  "lc_service now c = (case hb_service now (lcBridge c) of (remote, b) \<Rightarrow> lc_consumeRemote remote (c\<lparr>lcBridge := b\<rparr>))"

definition onHostDisconnect :: "lifecycle \<Rightarrow> lifecycle" where
  "onHostDisconnect c = c\<lparr>lcHostConnected := False\<rparr>"

definition onHostReconnect :: "lifecycle \<Rightarrow> lifecycle" where
  "onHostReconnect c = c\<lparr>lcHostConnected := True\<rparr>"

definition lc_reset :: "lifecycle \<Rightarrow> lifecycle" where
  "lc_reset c = lifecycle_init"

end
