(* ===== verification/HostRoleIntegration.thy ===== *)
theory HostRoleIntegration
  imports HostTransport HostOperationLifecycle
begin

text \<open>
  The host side of a device put together: the counters of \<^verbatim>\<open>lib/host_protocol_diagnostics/src/host_protocol_diagnostics.h\<close> and
  the stack of \<^verbatim>\<open>lib/host_role_integration/src/host_role_integration.h\<close>, which reads frames from the transport, answers greetings
  and errors itself, passes operation requests to the lifecycle and puts the answers into frames.  The calls under
  \<^verbatim>\<open>ARGUS_STRUCTURED_TRACE\<close> are not part of the model: they record and return nothing.
\<close>

subsection \<open>Counters\<close>

record hostDiagnostics =
  hdFramesReceived :: u32
  hdFramesAccepted :: u32
  hdMalformedFrames :: u32
  hdUnsupportedVersions :: u32
  hdUnsupportedMessageTypes :: u32
  hdRequestsDispatched :: u32
  hdResponsesEmitted :: u32
  hdBusyOrRejectedRequests :: u32
  hdTransportResets :: u32

definition hostDiagnostics_init :: hostDiagnostics where
  "hostDiagnostics_init = \<lparr>hdFramesReceived = 0, hdFramesAccepted = 0, hdMalformedFrames = 0, hdUnsupportedVersions = 0,
     hdUnsupportedMessageTypes = 0, hdRequestsDispatched = 0, hdResponsesEmitted = 0, hdBusyOrRejectedRequests = 0, hdTransportResets = 0\<rparr>"

definition hd_reset :: "hostDiagnostics \<Rightarrow> hostDiagnostics" where
  "hd_reset d = hostDiagnostics_init"

datatype messageBoundaryResult = MB_ACCEPTED | MB_MALFORMED | MB_UNSUPPORTED_VERSION | MB_UNSUPPORTED_MESSAGE_TYPE

definition saturatingAdd :: "u32 \<Rightarrow> u32 \<Rightarrow> u32" where
  "saturatingAdd value amount = (if 0xFFFFFFFF - value < amount then 0xFFFFFFFF else value + amount)"

abbreviation count :: "u32 \<Rightarrow> u32" where
  "count v \<equiv> saturatingAdd v 1"

definition observeDecodeFailure :: "decodeResult \<Rightarrow> hostDiagnostics \<Rightarrow> hostDiagnostics" where
  "observeDecodeFailure result d =
     (if result = DR_UNSUPPORTED_VERSION \<or> result = DR_UNSUPPORTED_MAJOR \<or> result = DR_UNSUPPORTED_MINOR
      then d\<lparr>hdUnsupportedVersions := count (hdUnsupportedVersions d)\<rparr>
      else if result = DR_UNSUPPORTED_MESSAGE_TYPE then d\<lparr>hdUnsupportedMessageTypes := count (hdUnsupportedMessageTypes d)\<rparr>
      else if result = DR_OK then d
      else d\<lparr>hdMalformedFrames := count (hdMalformedFrames d)\<rparr>)"

definition observeFrame :: "streamResult \<Rightarrow> messageBoundaryResult \<Rightarrow> hostDiagnostics \<Rightarrow> hostDiagnostics" where
  "observeFrame stream boundary d =
     (if srEvent stream \<noteq> FRAME_READY \<and> srEvent stream \<noteq> FRAME_REJECTED \<and> srEvent stream \<noteq> OVERSIZED_CANDIDATE then d
      else let d = d\<lparr>hdFramesReceived := count (hdFramesReceived d)\<rparr> in
      if srEvent stream = OVERSIZED_CANDIDATE then d\<lparr>hdMalformedFrames := count (hdMalformedFrames d)\<rparr>
      else if srEvent stream = FRAME_REJECTED then observeDecodeFailure (srDecodeResult stream) d
      else case boundary of
        MB_ACCEPTED \<Rightarrow> d\<lparr>hdFramesAccepted := count (hdFramesAccepted d)\<rparr>
      | MB_MALFORMED \<Rightarrow> d\<lparr>hdMalformedFrames := count (hdMalformedFrames d)\<rparr>
      | MB_UNSUPPORTED_VERSION \<Rightarrow> d\<lparr>hdUnsupportedVersions := count (hdUnsupportedVersions d)\<rparr>
      | MB_UNSUPPORTED_MESSAGE_TYPE \<Rightarrow> d\<lparr>hdUnsupportedMessageTypes := count (hdUnsupportedMessageTypes d)\<rparr>)"

definition observeRequestDispatched :: "hostDiagnostics \<Rightarrow> hostDiagnostics" where
  "observeRequestDispatched d = d\<lparr>hdRequestsDispatched := count (hdRequestsDispatched d)\<rparr>"

definition observeOperationResponse :: "operationResponse \<Rightarrow> hostDiagnostics \<Rightarrow> hostDiagnostics" where
  "observeOperationResponse response d = (if opResultClass response = RC_REQUEST_REJECTED
     then d\<lparr>hdBusyOrRejectedRequests := count (hdBusyOrRejectedRequests d)\<rparr> else d)"

definition observeResponseHandoff :: "hostDiagnostics \<Rightarrow> hostDiagnostics" where
  "observeResponseHandoff d = d\<lparr>hdResponsesEmitted := count (hdResponsesEmitted d)\<rparr>"

definition observeTransportReset :: "hostDiagnostics \<Rightarrow> hostDiagnostics" where
  "observeTransportReset d = d\<lparr>hdTransportResets := count (hdTransportResets d)\<rparr>"

subsection \<open>The stack\<close>

definition RX_SERVICE_BUDGET :: nat where [simp]: "RX_SERVICE_BUDGET = MAX_ENCODED_FRAME_SIZE"
definition TX_SERVICE_BUDGET :: nat where [simp]: "TX_SERVICE_BUDGET = MAX_ENCODED_FRAME_SIZE"

datatype stackAction = SA_NONE | SA_TRANSMIT_COMMAND | SA_HOST_RESPONSE_HANDOFF

record stackResult =
  skrAction :: stackAction
  skrPacket :: packet

definition stackResult_init :: stackResult where
  "stackResult_init = \<lparr>skrAction = SA_NONE, skrPacket = packet_init\<rparr>"

text \<open>\<open>skEventService\<close> is the pointer to the event service: whether there is one, and whether that has diagnostics.\<close>

record stack =
  skTransport :: adapter
  skLifecycle :: lifecycle
  skDiagnostics :: hostDiagnostics
  skConnected :: bool
  skPendingOriginalDelivery :: bool
  skEventService :: "bool option"

definition stack_new :: "adapter \<Rightarrow> bool \<Rightarrow> stack" where
  "stack_new transport connected = \<lparr>skTransport = transport,
     skLifecycle = (if connected then lifecycle_init else onHostDisconnect lifecycle_init), skDiagnostics = hostDiagnostics_init,
     skConnected = connected, skPendingOriginalDelivery = False, skEventService = None\<rparr>"

definition setEventService :: "bool option \<Rightarrow> stack \<Rightarrow> stack" where
  "setEventService service k = k\<lparr>skEventService := service\<rparr>"

definition observeConnection :: "bool \<Rightarrow> stack \<Rightarrow> stack" where
  "observeConnection connected k =
     (if connected = skConnected k then k
      else let k = k\<lparr>skConnected := connected\<rparr> in
      if \<not> connected then k\<lparr>skTransport := ad_reset (skTransport k), skLifecycle := onHostDisconnect (skLifecycle k),
        skPendingOriginalDelivery := False, skDiagnostics := observeTransportReset (skDiagnostics k)\<rparr>
      else k\<lparr>skLifecycle := onHostReconnect (skLifecycle k)\<rparr>)"

definition hs_serviceTx :: "nat \<Rightarrow> 'b byteStream \<Rightarrow> stack \<Rightarrow> 'b \<Rightarrow> txResult \<times> stack \<times> 'b" where
  "hs_serviceTx budget stream k b = (case serviceTx budget stream (skTransport k) b of (r, a, b) \<Rightarrow> (r, k\<lparr>skTransport := a\<rparr>, b))"

definition hs_submitFrame :: "u8 \<Rightarrow> messageType \<Rightarrow> u16 \<Rightarrow> bytes \<Rightarrow> nat \<Rightarrow> stack \<Rightarrow> bool \<times> stack" where
  "hs_submitFrame minor type requestId payload payloadLength k =
     (let f = frame_init\<lparr>frMajor := VERSION_MAJOR, frMinor := minor, frMessageType := type, frRequestId := requestId,
        frPayloadLength := of_nat payloadLength, frPayload := copyBytes (frPayload frame_init) 0 payload payloadLength\<rparr> in
      case encodeFrame f (Some (fillZero MAX_ENCODED_FRAME_SIZE)) MAX_ENCODED_FRAME_SIZE of (er, n, out) \<Rightarrow>
      if er \<noteq> ER_OK then (False, k)
      else case submit out n (skTransport k) of (st, a) \<Rightarrow>
      if st \<noteq> SUBMIT_OK then (False, k\<lparr>skTransport := a\<rparr>)
      else (True, k\<lparr>skTransport := a, skDiagnostics := observeResponseHandoff (skDiagnostics k)\<rparr>))"

text \<open>Encode a payload into a fresh buffer and submit it.\<close>

definition submitPayload :: "encoded \<Rightarrow> u8 \<Rightarrow> messageType \<Rightarrow> u16 \<Rightarrow> stack \<Rightarrow> bool \<times> stack" where
  "submitPayload enc minor type requestId k = (case enc of (r, n, out) \<Rightarrow>
     if r = PR_OK then hs_submitFrame minor type requestId (the out) n k else (False, k))"

definition submitOperationResponse :: "u8 \<Rightarrow> u16 \<Rightarrow> operationResponse \<Rightarrow> stack \<Rightarrow> bool \<times> stack" where
  "submitOperationResponse minor requestId response k =
     submitPayload (encodeOperationResponse minor response (Some (fillZero HOST_MAX_PAYLOAD_SIZE)) HOST_MAX_PAYLOAD_SIZE) minor OPERATION_RESPONSE
       requestId k"

definition submitProtocolError :: "protocolError \<Rightarrow> u8 \<Rightarrow> u16 \<Rightarrow> stack \<Rightarrow> bool \<times> stack" where
  "submitProtocolError error minor requestId k =
     submitPayload (encodeProtocolError error (Some (fillZero HOST_MAX_PAYLOAD_SIZE)) HOST_MAX_PAYLOAD_SIZE) minor PROTOCOL_ERROR requestId k"

definition servicePendingDelivery :: "stack \<Rightarrow> bool \<times> stack" where
  "servicePendingDelivery k =
     (if \<not> skConnected k \<or> \<not> skPendingOriginalDelivery k \<or> hasPendingTx (skTransport k) \<or> lcState (skLifecycle k) \<noteq> LS_COMPLETED then (False, k)
      else let entry = lcEntry (skLifecycle k) in
      case submitOperationResponse (enRequestMinor entry) (enRequestId entry) (enResponse entry) k of (ok, k) \<Rightarrow>
      if \<not> ok then (False, k) else (True, k\<lparr>skPendingOriginalDelivery := False\<rparr>))"

text \<open>A hand-off is reported when the frame was accepted.\<close>

definition handoff :: "bool \<times> stack \<Rightarrow> stackResult \<times> stack" where
  "handoff x = (case x of (ok, k) \<Rightarrow> (stackResult_init\<lparr>skrAction := (if ok then SA_HOST_RESPONSE_HANDOFF else SA_NONE)\<rparr>, k))"

text \<open>A candidate that was no frame.\<close>

fun rejectionError :: "decodeResult \<Rightarrow> protocolErrorCode option" where
  "rejectionError DR_UNSUPPORTED_MAJOR = Some PE_UNSUPPORTED_MAJOR"
| "rejectionError DR_UNSUPPORTED_MINOR = Some PE_UNSUPPORTED_MINOR"
| "rejectionError DR_UNSUPPORTED_MESSAGE_TYPE = Some PE_UNSUPPORTED_MESSAGE_TYPE"
| "rejectionError DR_UNSUPPORTED_FLAGS = Some PE_UNSUPPORTED_FLAGS"
| "rejectionError DR_INVALID_REQUEST_ID = Some PE_INVALID_REQUEST_ID"
| "rejectionError _ = None"

definition rxRejected :: "streamResult \<Rightarrow> stack \<Rightarrow> stackResult \<times> stack" where
  "rxRejected parsed k =
     (let k = k\<lparr>skDiagnostics := observeFrame parsed MB_ACCEPTED (skDiagnostics k)\<rparr> in
      case rejectionError (srDecodeResult parsed) of None \<Rightarrow> (stackResult_init, k)
      | Some code \<Rightarrow> handoff (submitProtocolError \<lparr>peErrorCode = code, peOffendingType = messageType_code (frMessageType (srFrame parsed)), peDetail = 0\<rparr>
          (if isSupportedVersion VERSION_MAJOR (frMinor (srFrame parsed)) then frMinor (srFrame parsed) else VERSION_MINOR_0_1)
          (frRequestId (srFrame parsed)) k))"

definition rxHello :: "streamResult \<Rightarrow> deviceSnapshot \<Rightarrow> bool \<Rightarrow> stack \<Rightarrow> stackResult \<times> stack" where
  "rxHello parsed snapshot radioBridge k =
     (let f = srFrame parsed in
      case decodeHelloRequest (frMinor f) (Some (frPayload f)) (unat (frPayloadLength f)) of
        Inl e \<Rightarrow>
          let k = k\<lparr>skDiagnostics := observeFrame parsed MB_MALFORMED (skDiagnostics k)\<rparr> in
          handoff (submitProtocolError \<lparr>peErrorCode = PE_MALFORMED_PAYLOAD, peOffendingType = messageType_code (frMessageType f), peDetail = 0\<rparr>
            (frMinor f) (frRequestId f) k)
      | Inr request \<Rightarrow>
          let k = k\<lparr>skDiagnostics := observeFrame parsed MB_ACCEPTED (skDiagnostics k)\<rparr>;
              hello = handleHello (frRequestId f) (frMajor f) (frMinor f) request snapshot radioBridge (skEventService k \<noteq> None) in
          if hloDisposition hello = HD_RESPONSE then
            handoff (submitPayload (encodeHelloResponse (hloResponse hello) (Some (fillZero HOST_MAX_PAYLOAD_SIZE)) HOST_MAX_PAYLOAD_SIZE)
              (frMinor f) HELLO_RESPONSE (frRequestId f) k)
          else handoff (submitProtocolError (hloError hello) (frMinor f) (frRequestId f) k))"

definition rxOperation :: "streamResult \<Rightarrow> ('h, 's) device \<Rightarrow> u32 \<Rightarrow> u32 \<Rightarrow> stack \<Rightarrow> ('h, 's) hostWorld \<Rightarrow>
    stackResult \<times> stack \<times> ('h, 's) hostWorld" where
  "rxOperation parsed dv now overallTimeout k w =
     (let f = srFrame parsed in
      case decodeOperationRequest (frMinor f) (Some (frPayload f)) (unat (frPayloadLength f)) of
        Inl e \<Rightarrow> (stackResult_init, k\<lparr>skDiagnostics := observeFrame parsed MB_MALFORMED (skDiagnostics k)\<rparr>, w)
      | Inr semantic \<Rightarrow>
          let k = k\<lparr>skDiagnostics := observeFrame parsed MB_ACCEPTED (skDiagnostics k)\<rparr>;
              before = lcState (skLifecycle k);
              retainedReplay = isExactRetainedRequest (frRequestId f) (Some (frPayload f)) (unat (frPayloadLength f)) (skLifecycle k) in
          case lc_submit (dv\<lparr>dvEventService := skEventService k\<rparr>) (frRequestId f) (Some (frPayload f)) (unat (frPayloadLength f)) now overallTimeout
              2 False (frMinor f) (skLifecycle k) w of (life, c, w) \<Rightarrow>
          let k = k\<lparr>skLifecycle := c\<rparr> in
          if laAction life = LA_TRANSMIT_COMMAND then
            (\<lparr>skrAction = SA_TRANSMIT_COMMAND, skrPacket = laPacket life\<rparr>, k\<lparr>skDiagnostics := observeRequestDispatched (skDiagnostics k)\<rparr>, w)
          else if laAction life = LA_HOST_RESPONSE_READY then
            let d = skDiagnostics k;
                d = (if \<not> retainedReplay \<and> (before = LS_EMPTY \<or> before = LS_COMPLETED) \<and> opResultClass (laResponse life) \<noteq> RC_REQUEST_REJECTED
                     then observeRequestDispatched d else d);
                d = observeOperationResponse (laResponse life) d in
            (case handoff (submitOperationResponse (laResponseMinor life) (laRequestId life) (laResponse life) (k\<lparr>skDiagnostics := d\<rparr>)) of
               (r, k) \<Rightarrow> (r, k, w))
          else (stackResult_init, k, w))"

definition hs_serviceRx :: "('h, 's) device \<Rightarrow> u32 \<Rightarrow> u32 \<Rightarrow> bool \<Rightarrow> nat \<Rightarrow> 'b byteStream \<Rightarrow> stack \<Rightarrow> ('h, 's) hostWorld \<Rightarrow> 'b \<Rightarrow>
    stackResult \<times> stack \<times> ('h, 's) hostWorld \<times> 'b" where
  "hs_serviceRx dv now overallTimeout radioBridge budget stream k w b =
     (if \<not> skConnected k \<or> hasPendingTx (skTransport k) then (stackResult_init, k, w, b)
      else case serviceRx budget stream (skTransport k) b of (rx, a, b) \<Rightarrow>
      let k = k\<lparr>skTransport := a\<rparr>; parsed = rxParserResult rx in
      if rxStatus rx \<noteq> RX_PARSER_EVENT then (stackResult_init, k, w, b)
      else if srEvent parsed \<noteq> FRAME_READY then (case rxRejected parsed k of (r, k) \<Rightarrow> (r, k, w, b))
      else if frMessageType (srFrame parsed) = HELLO_REQUEST then (case rxHello parsed (dvSnapshot dv) radioBridge k of (r, k) \<Rightarrow> (r, k, w, b))
      else if frMessageType (srFrame parsed) \<noteq> OPERATION_REQUEST then
        (stackResult_init, k\<lparr>skDiagnostics := observeFrame parsed MB_UNSUPPORTED_MESSAGE_TYPE (skDiagnostics k)\<rparr>, w, b)
      else case rxOperation parsed dv now overallTimeout k w of (r, k, w) \<Rightarrow> (r, k, w, b))"

definition consumeRemote :: "lifecycleResult \<Rightarrow> stack \<Rightarrow> stackResult \<times> stack" where
  "consumeRemote life k =
     (if laAction life = LA_TRANSMIT_COMMAND then (\<lparr>skrAction = SA_TRANSMIT_COMMAND, skrPacket = laPacket life\<rparr>, k)
      else if laAction life = LA_HOST_RESPONSE_READY then
        let k = k\<lparr>skDiagnostics := observeOperationResponse (laResponse life) (skDiagnostics k)\<rparr> in
        case (if hasPendingTx (skTransport k) then (False, k)
              else submitOperationResponse (laResponseMinor life) (laRequestId life) (laResponse life) k) of (ok, k) \<Rightarrow>
        if ok then (stackResult_init\<lparr>skrAction := SA_HOST_RESPONSE_HANDOFF\<rparr>, k)
        else (stackResult_init, if skConnected k then k\<lparr>skPendingOriginalDelivery := True\<rparr> else k)
      else (stackResult_init, k))"

definition onRadioPacket :: "packet \<Rightarrow> stack \<Rightarrow> stackResult \<times> stack" where
  "onRadioPacket p k = (case lc_receive p (skLifecycle k) of (life, c) \<Rightarrow> consumeRemote life (k\<lparr>skLifecycle := c\<rparr>))"

definition serviceRemote :: "u32 \<Rightarrow> stack \<Rightarrow> stackResult \<times> stack" where
  "serviceRemote now k = (case lc_service now (skLifecycle k) of (life, c) \<Rightarrow> consumeRemote life (k\<lparr>skLifecycle := c\<rparr>))"

definition hs_reset :: "stack \<Rightarrow> stack" where
  "hs_reset k = k\<lparr>skTransport := ad_reset (skTransport k), skLifecycle := lc_reset (skLifecycle k), skPendingOriginalDelivery := False,
     skConnected := True\<rparr>"

end
