(* ===== verification/WireCodecs.thy ===== *)
theory WireCodecs
  imports WireOperations
begin

text \<open>
  Facts about \<^verbatim>\<open>lib/wire_operations\<close>: the round trips of requests and responses through a packet, and that a
  remote caller never reaches a capability handler.
\<close>

subsection \<open>Values\<close>

definition wireNormal :: "wireValue \<Rightarrow> wireValue" where
  "wireNormal v = v\<lparr>wvBytes := zeroPadded (wvBytes v) (unat (wvLength v)) WIRE_MAX_REQUEST_VALUE_SIZE\<rparr>"

lemma wireNormal_sel [simp]: "wvType (wireNormal v) = wvType v" "wvLength (wireNormal v) = wvLength v"
  by (simp_all add: wireNormal_def)

lemma wireNormal_scalar [simp]: "isScalarValue (wireNormal v) = isScalarValue v"
  by (auto simp: isScalarValue_def wireNormal_def nth_zeroPadded scalarLength_def expectedScalarValueLength_def valueType_of_def)

lemma wireNormal_none [simp]: "isNone (wireNormal v) = isNone v"
  by (simp add: isNone_def)

lemma wireNormal_uint32 [simp]: "isUint32 (wireNormal v) = isUint32 v"
  by (simp add: isUint32_def)

lemma copyBytes_zeroPadded:
  "n \<le> cap \<Longrightarrow> copyBytes dst 0 (zeroPadded src n cap) n = copyBytes dst 0 src n"
  by (rule nth_equalityI) (auto simp: nth_copyBytes nth_zeroPadded)

lemma wireNormal_host [simp]: "toHostValue (wireNormal v) = toHostValue v"
  by (simp add: toHostValue_def wireNormal_def copyBytes_zeroPadded)

lemma wireNormal_success [simp]: "isValidSuccessValue opc (wireNormal v) = isValidSuccessValue opc v"
  by (simp add: isValidSuccessValue_def)

lemma wireNormal_requestSchema [simp]:
  "isValidRequestSchema opc (q\<lparr>wqValue := wireNormal (wqValue q)\<rparr>) = isValidRequestSchema opc q"
  by (simp add: isValidRequestSchema_def)

lemma wireNormal_responseSchema [simp]:
  "isValidResponseSchema opc (r\<lparr>wrValue := wireNormal (wrValue r)\<rparr>) = isValidResponseSchema opc r"
  by (simp add: isValidResponseSchema_def)

lemma receivedWireValue_normal:
  assumes "\<forall>k<unat (wvLength v). off + k < length bs \<and> bs ! (off + k) = wvBytes v ! k"
  shows "receivedWireValue (wvType v) (wvLength v) off bs = wireNormal v"
proof -
  have "copyBytes (fillZero 22) 0 (drop off bs) (unat (wvLength v)) = zeroPadded (wvBytes v) (unat (wvLength v)) 22"
    by (rule nth_equalityI) (use assms in \<open>auto simp: nth_copyBytes nth_zeroPadded\<close>)
  then show ?thesis by (simp add: receivedWireValue_def wireNormal_def)
qed

subsection \<open>Lengths\<close>

lemma scalar_small: "isScalarValue v \<Longrightarrow> unat (wvLength v) \<le> 4"
  by (cases "valueType_of (wvType v)")
    (auto simp: isScalarValue_def scalarLength_def expectedScalarValueLength_def split: if_splits)

lemma requestSchema_scalar: "isValidRequestSchema opc q \<Longrightarrow> isScalarValue (wqValue q)"
  by (simp add: isValidRequestSchema_def split: if_splits)

lemma scalar_length_host: "isValidScalarValue v \<Longrightarrow> unat (tvLength v) \<le> 4"
  by (cases "valueType_of (tvType v)")
    (auto simp: isValidScalarValue_def expectedScalarValueLength_def split: if_splits)

text \<open>A successful value of a structured operation is at most a full capability page.\<close>

lemma success_length:
  assumes "isStructuredOpcode opc" and "isValidSuccessfulOperationValue (operationCode_of opc) v"
  shows "unat (tvLength v) \<le> 21"
proof -
  have range: "0x20 \<le> unat opc" "unat opc \<le> 0x28"
    using assms(1) by (simp_all add: isStructuredOpcode_def word_le_nat_alt)
  have neq: "operationCode_of opc \<noteq> POLL_EVENTS" "operationCode_of opc \<noteq> GET_EVENT_DIAGNOSTICS"
    using range by (auto simp: operationCode_of_def)
  show ?thesis
    using assms(2) neq scalar_length_host [of v] isNoneValue_type [of v]
    by (cases "operationCode_of opc")
      (auto simp: isNonNoneScalarValue_def isValidStructureValue_def word_le_nat_alt dest: none_scalar split: if_splits)
qed

lemma responseSchema_length:
  assumes "isValidResponseSchema opc r" shows "unat (wvLength (wrValue r)) \<le> 21"
proof (cases "wrStatus r = OS_OK")
  case True
  then obtain h where h: "toHostValue (wrValue r) = Some h" "isValidSuccessfulOperationValue (operationCode_of opc) h"
    and opc: "isStructuredOpcode opc"
    using assms by (auto simp: isValidResponseSchema_def isValidSuccessValue_def split: if_splits option.splits)
  then show ?thesis using success_length [OF opc h(2)] by (auto simp: toHostValue_def split: if_splits)
next
  case False
  then show ?thesis using assms by (auto simp: isValidResponseSchema_def isNone_def split: if_splits)
qed

subsection \<open>Round trips\<close>

lemma operationStatus_of_code: "isKnownOperationStatus st \<Longrightarrow> operationStatus_of (operationStatus_code st) = st"
  by (cases st) (auto simp: operationStatus_of_def)

lemma encodeRequest_ok:
  assumes "isValidRequestSchema opc q" "26 \<le> cap"
  shows "fst (encodeRequest opc q (Some out) cap) = WC_OK"
  using assms scalar_small [OF requestSchema_scalar [OF assms(1)]]
  by (auto simp: encodeRequest_def Let_def isValidRequestSchema_def split: if_splits)

lemma encodeResponse_ok:
  assumes "isValidResponseSchema opc r" "26 \<le> cap"
  shows "fst (encodeResponse opc r (Some out) cap) = WC_OK"
  using assms responseSchema_length [OF assms(1)]
  by (auto simp: encodeResponse_def Let_def isValidResponseSchema_def split: if_splits)

lemma request_wire_roundtrip:
  assumes enc: "encodeRequest opc q (Some out) cap = (WC_OK, n, Some out')" and cap: "cap \<le> length out"
  shows "decodeRequest opc (Some out') n = Inr (q\<lparr>wqValue := wireNormal (wqValue q)\<rparr>)"
proof -
  define v where "v = wqValue q"
  have opc: "isStructuredOpcode opc" and schema: "isValidRequestSchema opc q"
    and n: "n = 4 + unat (wvLength v)" "n \<le> 26" "n \<le> length out"
    and out': "out' = copyBytes ((putLe16 out 0 (wqTargetId q))[2 := wvType v, 3 := wvLength v]) 4 (wvBytes v) (unat (wvLength v))"
    using enc cap by (auto simp: encodeRequest_def Let_def v_def split: if_splits)
  have "out \<noteq> []" using n by auto
  then have nth: "getLe16 out' 0 = wqTargetId q" "out' ! 2 = wvType v" "out' ! 3 = wvLength v"
    using n by (simp_all add: out' buffer_simps)
  have val: "receivedWireValue (out' ! 2) (out' ! 3) 4 out' = wireNormal v"
    unfolding nth using n by (intro receivedWireValue_normal) (auto simp: out' nth_copyBytes)
  have cand: "\<lparr>wqTargetId = getLe16 out' 0, wqValue = receivedWireValue (out' ! 2) (out' ! 3) 4 out'\<rparr>
      = q\<lparr>wqValue := wireNormal v\<rparr>"
    unfolding val unfolding nth by simp
  have "isKnownValueType (valueType_of (wvType v))" "wvType v \<noteq> STRUCTURE_VALUE_TYPE"
    using requestSchema_scalar [OF schema] by (auto simp: isScalarValue_def v_def split: if_splits)
  then show ?thesis
    unfolding decodeRequest_def option.case Let_def cand v_def [symmetric]
    using n opc schema by (simp add: nth v_def)
qed

lemma response_wire_roundtrip:
  assumes enc: "encodeResponse opc r (Some out) cap = (WC_OK, n, Some out')" and cap: "cap \<le> length out"
  shows "decodeResponse opc (Some out') n = Inr (r\<lparr>wrValue := wireNormal (wrValue r)\<rparr>)"
proof -
  define v where "v = wrValue r"
  have opc: "isStructuredOpcode opc" and schema: "isValidResponseSchema opc r"
    and n: "n = 5 + unat (wvLength v)" "n \<le> 26" "n \<le> length out"
    and out': "out' = copyBytes ((putLe16 (out[0 := operationStatus_code (wrStatus r)]) 1 (wrTargetId r))
      [3 := wvType v, 4 := wvLength v]) 5 (wvBytes v) (unat (wvLength v))"
    using enc cap by (auto simp: encodeResponse_def Let_def v_def split: if_splits)
  have "out \<noteq> []" using n by auto
  then have nth: "out' ! 0 = operationStatus_code (wrStatus r)" "getLe16 out' 1 = wrTargetId r" "out' ! 3 = wvType v"
      "out' ! 4 = wvLength v"
    using n by (simp_all add: out' buffer_simps)
  have st: "isKnownOperationStatus (wrStatus r)" using schema by (simp add: isValidResponseSchema_def split: if_splits)
  have val: "receivedWireValue (out' ! 3) (out' ! 4) 5 out' = wireNormal v"
    unfolding nth using n by (intro receivedWireValue_normal) (auto simp: out' nth_copyBytes)
  have cand: "\<lparr>wrStatus = operationStatus_of (out' ! 0), wrTargetId = getLe16 out' 1,
      wrValue = receivedWireValue (out' ! 3) (out' ! 4) 5 out'\<rparr> = r\<lparr>wrValue := wireNormal v\<rparr>"
    unfolding val unfolding nth using st by (simp add: operationStatus_of_code)
  show ?thesis
    unfolding decodeResponse_def option.case Let_def cand v_def [symmetric]
    using n opc schema st by (simp add: nth v_def)
qed

text \<open>The packets that the two makers build.\<close>

lemma makeCommand_decodes:
  assumes "isValidRequestSchema opc q"
  shows "decodeRequest opc (Some (pkPayload (makeCommand src dst seq opc q))) (unat (pkPayloadLength (makeCommand src dst seq opc q)))
      = Inr (q\<lparr>wqValue := wireNormal (wqValue q)\<rparr>)" (is ?dec)
    and "pkPayloadLength (makeCommand src dst seq opc q) \<noteq> 0"
    and "length (pkPayload (makeCommand src dst seq opc q)) = MAX_PAYLOAD_SIZE"
    and "unat (pkPayloadLength (makeCommand src dst seq opc q)) \<le> MAX_PAYLOAD_SIZE"
proof -
  obtain n out where e: "encodeRequest opc q (Some (pkPayload packet_init)) 26 = (WC_OK, n, Some out)"
    using encodeRequest_ok [OF assms, of 26 "pkPayload packet_init"]
    by (auto simp: encodeRequest_def Let_def split: if_splits)
  have n: "n = 4 + unat (wvLength (wqValue q))" "n \<le> 26" "length out = 26"
    using e by (auto simp: encodeRequest_def Let_def packet_init_def split: if_splits)
  have u: "unat (of_nat n :: u8) = n" using n(2) by (simp add: unat_of_nat)
  have "MAX_PAYLOAD_SIZE \<le> length (pkPayload packet_init)" by (simp add: packet_init_def)
  then show ?dec using request_wire_roundtrip [OF e] u by (simp add: makeCommand_def e)
  show "pkPayloadLength (makeCommand src dst seq opc q) \<noteq> 0"
    using u n by (auto simp: makeCommand_def e unat_eq_zero [symmetric])
  show "length (pkPayload (makeCommand src dst seq opc q)) = MAX_PAYLOAD_SIZE"
    "unat (pkPayloadLength (makeCommand src dst seq opc q)) \<le> MAX_PAYLOAD_SIZE"
    using n u by (simp_all add: makeCommand_def e)
qed

lemma makeResponsePacket_decodes:
  assumes "isValidResponseSchema (pkOpcode c) r"
  shows "decodeResponse (pkOpcode c) (Some (pkPayload (makeResponsePacket c r))) (unat (pkPayloadLength (makeResponsePacket c r)))
      = Inr (r\<lparr>wrValue := wireNormal (wrValue r)\<rparr>)" (is ?dec)
    and "pkPayloadLength (makeResponsePacket c r) \<noteq> 0"
    and "length (pkPayload (makeResponsePacket c r)) = MAX_PAYLOAD_SIZE"
    and "unat (pkPayloadLength (makeResponsePacket c r)) \<le> MAX_PAYLOAD_SIZE"
proof -
  obtain n out where e: "encodeResponse (pkOpcode c) r (Some (pkPayload packet_init)) 26 = (WC_OK, n, Some out)"
    using encodeResponse_ok [OF assms, of 26 "pkPayload packet_init"]
    by (auto simp: encodeResponse_def Let_def split: if_splits)
  have n: "n = 5 + unat (wvLength (wrValue r))" "n \<le> 26" "length out = 26"
    using e by (auto simp: encodeResponse_def Let_def packet_init_def split: if_splits)
  have u: "unat (of_nat n :: u8) = n" using n(2) by (simp add: unat_of_nat)
  have "MAX_PAYLOAD_SIZE \<le> length (pkPayload packet_init)" by (simp add: packet_init_def)
  then show ?dec using response_wire_roundtrip [OF e] u by (simp add: makeResponsePacket_def e)
  show "pkPayloadLength (makeResponsePacket c r) \<noteq> 0"
    using u n by (auto simp: makeResponsePacket_def e unat_eq_zero [symmetric])
  show "length (pkPayload (makeResponsePacket c r)) = MAX_PAYLOAD_SIZE"
    "unat (pkPayloadLength (makeResponsePacket c r)) \<le> MAX_PAYLOAD_SIZE"
    using n u by (simp_all add: makeResponsePacket_def e)
qed

lemma makeCommand_fields [simp]:
  "pkType (makeCommand src dst seq opc q) = COMMAND" "pkSource (makeCommand src dst seq opc q) = src"
  "pkDestination (makeCommand src dst seq opc q) = dst" "pkSequence (makeCommand src dst seq opc q) = seq"
  "pkOpcode (makeCommand src dst seq opc q) = opc"
  by (simp_all add: makeCommand_def split: prod.split)

lemma makeResponsePacket_fields [simp]:
  "pkType (makeResponsePacket c r) = RESPONSE" "pkSource (makeResponsePacket c r) = pkDestination c"
  "pkDestination (makeResponsePacket c r) = pkSource c" "pkSequence (makeResponsePacket c r) = pkSequence c"
  "pkOpcode (makeResponsePacket c r) = pkOpcode c"
  by (simp_all add: makeResponsePacket_def split: prod.split)

text \<open>An encoder that refuses leaves the length of the packet at zero.\<close>

lemma makeCommand_refused: "\<not> isValidRequestSchema opc q \<Longrightarrow> pkPayloadLength (makeCommand src dst seq opc q) = 0"
  by (simp add: makeCommand_def encodeRequest_def Let_def)

lemma makeResponsePacket_refused:
  "\<not> isValidResponseSchema (pkOpcode c) r \<Longrightarrow> pkPayloadLength (makeResponsePacket c r) = 0"
  by (simp add: makeResponsePacket_def encodeResponse_def Let_def)

subsection \<open>Remote callers\<close>

lemma remote_unauthorized: "\<not> isOperationAuthorized d op \<lparr>cxCallerClass = FUTURE_REMOTE, cxReserved = r\<rparr>"
  by (simp add: isOperationAuthorized_def)

lemma remote_no_handler:
  "\<exists>st. st \<noteq> OS_OK \<and> processRemoteCapability registry handler i op input interlock diagnostics s =
     (makeCanonicalFailureResult st, snd (recordOutcome st 1 diagnostics), s)
     \<and> st \<in> {OS_INVALID_DESCRIPTOR, OS_CAPABILITY_NOT_FOUND, OS_UNSUPPORTED_OPERATION, OS_UNAUTHORIZED}"
  by (auto simp: processRemoteCapability_def Let_def remote_unauthorized makeCanonicalFailureResult_def split: option.splits)

end
