(* ===== verification/HostServiceResponses.thy ===== *)
theory HostServiceResponses
  imports HostDeviceService HostEventService WireCodecs
begin

text \<open>
  What the local services answer: every answer that the host is to see passes response validation and fits into a
  frame, and paging through a registry or through the diagnostics enumerates it.
\<close>

subsection \<open>Responses that fit a request\<close>

definition requestShape :: "u8 \<Rightarrow> operationRequest \<Rightarrow> bool" where
  "requestShape minor q = (classifyCategoryOperation minor (operationCategory_code (oqCategory q)) (operationCode_code (oqOperation q))
       = OC_VALID \<and> isKnownOperationCategory minor (oqCategory q)
     \<and> isValidOperationTarget (oqCategory q) (oqOperation q) (oqTargetId q))"

definition answers :: "operationResponse \<Rightarrow> operationRequest \<Rightarrow> bool" where
  "answers r q = (opCategory r = oqCategory q \<and> opOperation r = oqOperation q \<and> opTargetDeviceId r = oqTargetDeviceId q
     \<and> opTargetId r = oqTargetId q)"

lemma valid_requestShape:
  assumes ok: "validateOperationRequest minor q = PR_OK" shows "requestShape minor q"
proof -
  define cl where "cl = classifyCategoryOperation minor (operationCategory_code (oqCategory q)) (operationCode_code (oqOperation q))"
  have "cl = OC_VALID"
    using ok by (cases cl) (simp_all add: validateOperationRequest_def Let_def flip: cl_def split: if_split_asm)
  moreover have "isValidOperationTarget (oqCategory q) (oqOperation q) (oqTargetId q)"
  proof (rule ccontr)
    assume "\<not> ?thesis"
    with ok \<open>cl = OC_VALID\<close> show False by (simp add: validateOperationRequest_def Let_def flip: cl_def)
  qed
  ultimately show ?thesis using valid_request(1) [OF ok] by (simp add: requestShape_def cl_def)
qed

text \<open>What version 0.1 knows, every version knows.\<close>

lemma requestShape_0_1: "requestShape VERSION_MINOR_0_1 q \<Longrightarrow> requestShape minor q"
  by (auto simp: requestShape_def classifyCategoryOperation_def isKnownOperationCategory_def isKnownOperationCode_def
      isSupportedCategoryOperation_def isKnownOperationCategory_0_1_def Let_def split: if_split_asm)

lemma none_init [simp]: "isNoneValue setNoneValue" "length (tvBytes setNoneValue) = 121"
  by (simp_all add: isNoneValue_def setNoneValue_def typedValue_init_def)

lemma response_rejected:
  assumes "requestShape minor q" "answers r q" "opResultClass r = RC_REQUEST_REJECTED"
    "opResultCode r \<in> {0x01, 0x02, 0x03, 0x04, 0x08}" "isNoneValue (opValue r)"
  shows "validateOperationResponse minor r = PR_OK"
  using assms by (auto simp: requestShape_def answers_def validateOperationResponse_def Let_def okIf_def isKnownResultClass_def
      isKnownResultClass_0_1_def)

lemma response_radio:
  assumes "requestShape minor q" "answers r q" "oqCategory q \<noteq> CAT_EVENT" "opResultClass r = RC_RADIO_RESULT"
    "opResultCode r \<in> {0x06, 0x07, 0x08}" "isNoneValue (opValue r)"
  shows "validateOperationResponse minor r = PR_OK"
  using assms by (auto simp: requestShape_def answers_def validateOperationResponse_def Let_def okIf_def isKnownResultClass_def
      isKnownResultClass_0_1_def)

lemma response_operation:
  assumes "requestShape minor q" "answers r q" "oqCategory q \<noteq> CAT_EVENT" "opResultClass r = RC_OPERATION_RESULT"
    "opResultCode r = operationStatus_code st" "isKnownOperationStatus st"
    "if st = OS_OK then isValidSuccessfulOperationValue (oqOperation q) (opValue r) else isNoneValue (opValue r)"
  shows "validateOperationResponse minor r = PR_OK"
  using assms operationStatus_of_code [OF assms(6)]
  by (auto simp: requestShape_def answers_def validateOperationResponse_def Let_def okIf_def isKnownResultClass_def
      isKnownResultClass_0_1_def split: if_splits)

text \<open>The shape of the results that the services build.\<close>

definition operationAnswer :: "operationRequest \<Rightarrow> hostResult \<Rightarrow> bool" where
  "operationAnswer q r = (hrDisposition r = D_HANDLED \<and> answers (hrResponse r) q \<and> opResultClass (hrResponse r) = RC_OPERATION_RESULT
     \<and> (\<exists>st. isKnownOperationStatus st \<and> opResultCode (hrResponse r) = operationStatus_code st
        \<and> (if st = OS_OK then isValidSuccessfulOperationValue (oqOperation q) (opValue (hrResponse r))
           else isNoneValue (opValue (hrResponse r))))
     \<and> length (tvBytes (opValue (hrResponse r))) = HOST_MAX_REQUEST_VALUE_SIZE)"

lemma operationAnswer_valid:
  "requestShape minor q \<Longrightarrow> oqCategory q \<noteq> CAT_EVENT \<Longrightarrow> operationAnswer q r \<Longrightarrow>
   validateOperationResponse minor (hrResponse r) = PR_OK"
  by (auto simp: operationAnswer_def intro: response_operation)

lemma base_answers [simp]: "answers (hrResponse (makeBaseResult requestId q)) q"
  by (simp add: answers_def makeBaseResult_def)

lemma setOperationResult_answer:
  "answers (hrResponse r) q \<Longrightarrow> isKnownOperationStatus st \<Longrightarrow> st \<noteq> OS_OK \<Longrightarrow> operationAnswer q (setOperationResult st r)"
  by (auto simp: operationAnswer_def setOperationResult_def answers_def)

lemma setOperationResult_answers [simp]: "answers (hrResponse (setOperationResult st r)) q = answers (hrResponse r) q"
  by (simp add: setOperationResult_def answers_def)

lemma setResponseValue_answers [simp]: "answers (hrResponse (setResponseValue v r)) q = answers (hrResponse r) q"
  by (simp add: setResponseValue_def answers_def)

lemma setResponseValue_answer:
  assumes "answers (hrResponse r) q" "isValidSuccessfulOperationValue (oqOperation q) v" "length (tvBytes v) = HOST_MAX_REQUEST_VALUE_SIZE"
  shows "operationAnswer q (setResponseValue v (setOperationResult OS_OK r))"
  using assms by (auto simp: operationAnswer_def setResponseValue_def setOperationResult_def answers_def intro!: exI [of _ OS_OK])

lemma respondWith_answer:
  assumes "answers (hrResponse r) q"
    and "\<And>v. e = Inr v \<Longrightarrow> isValidSuccessfulOperationValue (oqOperation q) v \<and> length (tvBytes v) = HOST_MAX_REQUEST_VALUE_SIZE"
  shows "operationAnswer q (respondWith e (setOperationResult OS_OK r))"
  using assms by (cases e) (auto simp: respondWith_def intro!: setOperationResult_answer setResponseValue_answer)

lemma reject_valid:
  assumes "requestShape minor q" "code \<noteq> RR_NONE"
  shows "validateOperationResponse minor (hrResponse (reject requestId q code b)) = PR_OK"
proof (rule response_rejected [OF assms(1)])
  show "opResultCode (hrResponse (reject requestId q code b)) \<in> {0x01, 0x02, 0x03, 0x04, 0x08}"
    using assms(2) by (cases code) (auto simp: reject_def Let_def)
qed (simp_all add: reject_def makeBaseResult_def answers_def Let_def)

subsection \<open>Encoded records as values\<close>

lemma length_fold_updates:
  assumes "\<And>k b. length (f k b) = length b" shows "length (fold f ks buf) = length (buf :: bytes)"
  by (induction ks arbitrary: buf) (simp_all add: assms)

lemma encoded_length:
  "encodeDeviceInfoRecord a = Inr v \<Longrightarrow> length (tvBytes v) = 121"
  "encodeStatusRecord b = Inr v \<Longrightarrow> length (tvBytes v) = 121"
  "encodeCapabilityPageRecord c = Inr v \<Longrightarrow> length (tvBytes v) = 121"
  "encodeCapabilityDescriptionRecord d = Inr v \<Longrightarrow> length (tvBytes v) = 121"
  "encodeDiagnosticPageRecord e = Inr v \<Longrightarrow> length (tvBytes v) = 121"
  "encodeEventDiagnosticsRecord f = Inr v \<Longrightarrow> length (tvBytes v) = 121"
  "encodeEventTxDiagnostics g h = Inr v \<Longrightarrow> length (tvBytes v) = 121"
  by (auto simp: encodeDeviceInfoRecord_def encodeStatusRecord_def encodeCapabilityPageRecord_def length_fold_updates
      encodeCapabilityDescriptionRecord_def encodeDiagnosticPageRecord_def encodeEventDiagnosticsRecord_def buffer_simps
      encodeEventTxDiagnostics_def Let_def simp del: upt_rec_numeral split: if_splits)

lemma isr_not_isl: "x = Inr y \<Longrightarrow> \<not> isl x"
  by simp

lemma encoded_success:
  "encodeDeviceInfoRecord a = Inr v \<Longrightarrow> isValidSuccessfulOperationValue operationCode.GET_DEVICE_INFO v"
  "encodeStatusRecord b = Inr v \<Longrightarrow> isValidSuccessfulOperationValue operationCode.GET_STATUS v"
  "encodeCapabilityPageRecord c = Inr v \<Longrightarrow> pagePadded c \<Longrightarrow> isValidSuccessfulOperationValue operationCode.GET_CAPABILITIES v"
  "encodeCapabilityDescriptionRecord d = Inr v \<Longrightarrow> isValidSuccessfulOperationValue operationCode.DESCRIBE_CAPABILITY v"
  "encodeDiagnosticPageRecord e = Inr v \<Longrightarrow> entriesPadded e \<Longrightarrow> isValidSuccessfulOperationValue operationCode.GET_DIAGNOSTICS v"
  "encodeEventDiagnosticsRecord f = Inr v \<Longrightarrow> length (edCounters f) = EVENT_DIAGNOSTIC_COUNTER_COUNT \<Longrightarrow>
     isValidSuccessfulOperationValue GET_EVENT_DIAGNOSTICS v"
  "encodeEventTxDiagnostics g h = Inr v \<Longrightarrow> length (tsCounters h) = COUNTER_COUNT \<Longrightarrow>
     isValidSuccessfulOperationValue GET_EVENT_DIAGNOSTICS v"
  using deviceInfo_roundtrip [of a v] status_roundtrip [of b v] capabilityPage_roundtrip [of c v] description_roundtrip [of d v]
    diagnosticPage_roundtrip [of e v] eventDiagnostics_roundtrip [of f v] txDiagnostics_roundtrip [of g h v]
  by (simp_all add: deviceInfo_valid_iff status_valid_iff capabilityPage_valid_iff description_valid_iff
      diagnosticPage_valid_iff eventDiagnostics_valid_iff)

subsection \<open>Paging\<close>

text \<open>The identifiers of a registry, in its order.\<close>

definition capabilityIdsOf :: "capabilityRegistryView \<Rightarrow> u16 list" where
  "capabilityIdsOf registry = map (\<lambda>k. cdId (the (crDescriptors registry) ! k)) [0..<unat (crCount registry)]"

definition pageEnd :: "nat \<Rightarrow> nat \<Rightarrow> nat \<Rightarrow> nat" where
  "pageEnd room n start = min n (start + room)"

lemma unat_Suc_less: "x < (y :: u8) \<Longrightarrow> unat (x + 1) = Suc (unat x)"
  using unsigned_less [of y, where ?'a = nat] by (simp add: word_less_nat_alt unat_word_ariths)

lemma capabilityPageLoop_eq:
  assumes "isValidCapabilityRegistry registry" "length ids \<le> 9" "index \<le> crCount registry"
  shows "\<exists>m. capabilityPageLoop registry index ids = Some (m, ids @ map (\<lambda>k. cdId (the (crDescriptors registry) ! k)) [unat index..<unat m])
     \<and> unat m = pageEnd (9 - length ids) (unat (crCount registry)) (unat index)"
  using assms
proof (induction registry index ids rule: capabilityPageLoop.induct)
  case (1 registry index ids)
  let ?f = "\<lambda>k. cdId (the (crDescriptors registry) ! k)"
  show ?case
  proof (cases "index < crCount registry \<and> length ids < 9")
    case True
    then have g: "getCapabilityByIndex registry index = Some (the (crDescriptors registry) ! unat index)"
      using "1.prems" by (auto simp: getCapabilityByIndex_def not_le)
    have s: "unat (index + 1) = Suc (unat index)" using unat_Suc_less True by blast
    have le: "index + 1 \<le> crCount registry" using True s by (simp add: word_le_nat_alt word_less_nat_alt)
    from "1.IH" [of "the (crDescriptors registry) ! unat index"] True g le 1 obtain m where
      m: "capabilityPageLoop registry (index + 1) (ids @ [?f (unat index)]) =
        Some (m, (ids @ [?f (unat index)]) @ map ?f [Suc (unat index)..<unat m])"
      "unat m = pageEnd (9 - Suc (length ids)) (unat (crCount registry)) (Suc (unat index))"
      by (auto simp: s)
    moreover have "unat index < unat m" "unat m = pageEnd (9 - length ids) (unat (crCount registry)) (unat index)"
      using m(2) True by (auto simp: pageEnd_def word_less_nat_alt)
    ultimately show ?thesis using True g
      by (subst capabilityPageLoop.simps) (auto simp: upt_conv_Cons)
  next
    case False
    then have "pageEnd (9 - length ids) (unat (crCount registry)) (unat index) = unat index"
      using 1 by (auto simp: pageEnd_def word_less_nat_alt word_le_nat_alt)
    then show ?thesis using False by (subst capabilityPageLoop.simps) auto
  qed
qed

lemma registry_ids_valid:
  assumes "isValidCapabilityRegistry registry" "k < unat (crCount registry)"
  shows "isValidCapabilityDescriptor (the (crDescriptors registry) ! k)" "cdId (the (crDescriptors registry) ! k) \<noteq> 0"
proof -
  show v: "isValidCapabilityDescriptor (the (crDescriptors registry) ! k)"
    using assms by (auto simp: isValidCapabilityRegistry_def list_all_iff split: if_splits option.splits)
  then show "cdId (the (crDescriptors registry) ! k) \<noteq> 0" by (simp add: isValidCapabilityDescriptor_def)
qed

lemma pageEnd_bounds: "start \<le> n \<Longrightarrow> start \<le> pageEnd room n start" "pageEnd room n start \<le> n" "pageEnd room n start - start \<le> room"
  by (auto simp: pageEnd_def)

lemma unat_ucast_u8 [simp]: "unat (ucast (x :: u8) :: u32) = unat x" "unat (ucast (x :: u8) :: u16) = unat x"
  using unsigned_less [of x, where ?'a = nat] by (simp_all add: unsigned_ucast_eq take_bit_nat_eq_self)

lemma unat_of_nat_u8: "n < 256 \<Longrightarrow> unat (of_nat n :: u8) = n"
  by (simp add: unat_of_nat)

text \<open>The page that a cursor within the registry gives.\<close>

definition capabilityPage :: "capabilityRegistryView \<Rightarrow> nat \<Rightarrow> capabilityPageRecord" where
  "capabilityPage registry start = (let m = pageEnd 9 (unat (crCount registry)) start;
      ids = map (\<lambda>k. cdId (the (crDescriptors registry) ! k)) [start..<m] in
     \<lparr>cpNextCursor = (if m = unat (crCount registry) then CAPABILITY_PAGE_END else of_nat m), cpCount = of_nat (m - start),
      cpCapabilityIds = ids @ replicate (9 - (m - start)) 0\<rparr>)"

lemma getCapabilities_page:
  assumes "isValidCapabilityRegistry registry" "requestCursor q \<le> ucast (crCount registry)"
  shows "getCapabilitiesResult True registry q r =
    respondWith (encodeCapabilityPageRecord (capabilityPage registry (unat (requestCursor q)))) (setOperationResult OS_OK r)"
proof -
  have c: "unat (requestCursor q) \<le> unat (crCount registry)"
    using assms(2) by (simp add: word_le_nat_alt)
  then have u: "unat (ucast (requestCursor q) :: u8) = unat (requestCursor q)"
    using unsigned_less [of "crCount registry", where ?'a = nat] by (simp add: unsigned_ucast_eq take_bit_nat_eq_self)
  then have "(ucast (requestCursor q) :: u8) \<le> crCount registry" using c by (simp add: word_le_nat_alt)
  from capabilityPageLoop_eq [OF assms(1) _ this, of "[]"] obtain m where
    m: "capabilityPageLoop registry (ucast (requestCursor q)) [] =
        Some (m, map (\<lambda>k. cdId (the (crDescriptors registry) ! k)) [unat (requestCursor q)..<unat m])"
      "unat m = pageEnd 9 (unat (crCount registry)) (unat (requestCursor q))"
    by (auto simp: u)
  have "m = crCount registry \<longleftrightarrow> unat m = unat (crCount registry)" by (simp add: word_unat_eq_iff)
  then show ?thesis using assms m(1)
    by (simp add: getCapabilitiesResult_def capabilityPage_def Let_def not_less del: of_nat_diff flip: m(2))
qed

lemma capabilityPage_encodes:
  assumes "isValidCapabilityRegistry registry" "start \<le> unat (crCount registry)"
  shows "\<exists>v. encodeCapabilityPageRecord (capabilityPage registry start) = Inr v" "pagePadded (capabilityPage registry start)"
proof -
  define m where "m = pageEnd 9 (unat (crCount registry)) start"
  have m: "start \<le> m" "m \<le> unat (crCount registry)" "m - start \<le> 9"
    using pageEnd_bounds assms(2) by (auto simp: m_def)
  have u: "unat (of_nat (m - start) :: u8) = m - start" using m by (intro unat_of_nat_u8) simp
  show "pagePadded (capabilityPage registry start)"
    using m u by (auto simp: pagePadded_def capabilityPage_def Let_def nth_append simp del: of_nat_diff simp flip: m_def)
  have "(of_nat (m - start) :: u8) \<le> 9" using m u by (simp add: word_le_nat_alt del: of_nat_diff)
  moreover have "\<forall>k<m - start. (map (\<lambda>k. cdId (the (crDescriptors registry) ! k)) [start..<m] @ replicate (9 - (m - start)) 0) ! k \<noteq> 0"
    using m registry_ids_valid(2) [OF assms(1)] by (auto simp: nth_append)
  ultimately show "\<exists>v. encodeCapabilityPageRecord (capabilityPage registry start) = Inr v"
    using u by (auto simp: encodeCapabilityPageRecord_def capabilityPage_def Let_def not_less simp del: of_nat_diff simp flip: m_def)
qed

lemma diagnosticPageLoop_eq:
  assumes "length entries \<le> 3" "index \<le> 10"
  shows "\<exists>m. diagnosticPageLoop c index entries = (m, entries @ map (\<lambda>k. \<lparr>deMetricId = of_nat k + 1,
        deValue = diagnosticMetricValue c (of_nat k)\<rparr>) [unat index..<unat m])
     \<and> unat m = pageEnd (3 - length entries) 10 (unat index)"
  using assms
proof (induction c index entries rule: diagnosticPageLoop.induct)
  case (1 c index entries)
  show ?case
  proof (cases "index < 10 \<and> length entries < 3")
    case True
    have s: "unat (index + 1) = Suc (unat index)" using unat_Suc_less True by blast
    have le: "index + 1 \<le> 10" using True s by (simp add: word_le_nat_alt word_less_nat_alt)
    from "1.IH" True le obtain m where
      m: "diagnosticPageLoop c (index + 1) (entries @ [\<lparr>deMetricId = index + 1, deValue = diagnosticMetricValue c index\<rparr>]) =
        (m, (entries @ [\<lparr>deMetricId = index + 1, deValue = diagnosticMetricValue c index\<rparr>]) @ map (\<lambda>k. \<lparr>deMetricId = of_nat k + 1,
        deValue = diagnosticMetricValue c (of_nat k)\<rparr>) [Suc (unat index)..<unat m])"
      "unat m = pageEnd (3 - Suc (length entries)) 10 (Suc (unat index))"
      by (auto simp: s)
    moreover have "unat index < unat m" "unat m = pageEnd (3 - length entries) 10 (unat index)"
      using m(2) True by (auto simp: pageEnd_def word_less_nat_alt)
    ultimately show ?thesis using True
      by (subst diagnosticPageLoop.simps) (auto simp: upt_conv_Cons)
  next
    case False
    then have "pageEnd (3 - length entries) 10 (unat index) = unat index"
      using 1 by (auto simp: pageEnd_def word_less_nat_alt word_le_nat_alt)
    then show ?thesis using False by (subst diagnosticPageLoop.simps) auto
  qed
qed

lemma diagnosticPage_padded: "start \<le> 10 \<Longrightarrow> entriesPadded (diagnosticPage c start)"
proof -
  assume le: "start \<le> 10"
  from diagnosticPageLoop_eq [of "[]" start c] le obtain m where
    m: "diagnosticPageLoop c start [] = (m, map (\<lambda>k. \<lparr>deMetricId = of_nat k + 1,
        deValue = diagnosticMetricValue c (of_nat k)\<rparr>) [unat start..<unat m])" "unat m = pageEnd 3 10 (unat start)"
    by auto
  have "unat m - unat start \<le> 3" using m(2) pageEnd_bounds(3) by simp
  then have "unat (of_nat (unat m - unat start) :: u8) = unat m - unat start" by (intro unat_of_nat_u8) simp
  then show ?thesis using \<open>unat m - unat start \<le> 3\<close>
    by (auto simp: entriesPadded_def diagnosticPage_def m(1) nth_append simp del: of_nat_diff)
qed

subsection \<open>Answers of the capability service\<close>

lemma read_flag: "x AND 6 = 0 \<Longrightarrow> x AND 2 = 0" for x :: u8
proof -
  have "x AND 2 = (x AND 6) AND 2" by (simp add: and.assoc)
  then show "x AND 6 = 0 \<Longrightarrow> x AND 2 = 0" by simp
qed

lemma dispatch_status:
  assumes "dispatchCapabilityOperation registry handler i op input caller interlock s = (r, s')"
  shows "isKnownOperationStatus (orStatus r)"
    "orStatus r = OS_OK \<Longrightarrow> op = READ \<Longrightarrow> isValidCapabilityValue (orValue r) \<and> cvType (orValue r) \<noteq> VT_NONE"
proof -
  show "isKnownOperationStatus (orStatus r)"
  proof (rule dispatch_cases [of registry i op input caller interlock])
    fix st assume "st \<in> {OS_INVALID_DESCRIPTOR, OS_CAPABILITY_NOT_FOUND, OS_UNSUPPORTED_OPERATION, OS_INVALID_VALUE_TYPE,
         OS_VALUE_OUT_OF_RANGE, OS_UNAUTHORIZED, OS_INTERLOCK_ACTIVE}"
      "\<And>(h :: 'a capabilityHandler) s. dispatchCapabilityOperation registry h i op input caller interlock s = (makeCanonicalFailureResult st, s)"
    then show ?thesis using assms by auto
  next
    fix d assume "\<And>(h :: 'a capabilityHandler) s. dispatchCapabilityOperation registry h i op input caller interlock s =
        apfst (checkedResult op d) (h d op input s)"
    then show ?thesis using assms
      by (cases "handler d op input s") (auto simp: checkedResult_def isValidOperationResult_def split: if_splits)
  qed
next
  assume ok: "orStatus r = OS_OK" "op = READ"
  show "isValidCapabilityValue (orValue r) \<and> cvType (orValue r) \<noteq> VT_NONE"
  proof (rule dispatch_cases [of registry i op input caller interlock])
    fix st assume "st \<in> {OS_INVALID_DESCRIPTOR, OS_CAPABILITY_NOT_FOUND, OS_UNSUPPORTED_OPERATION, OS_INVALID_VALUE_TYPE,
         OS_VALUE_OUT_OF_RANGE, OS_UNAUTHORIZED, OS_INTERLOCK_ACTIVE}"
      "\<And>(h :: 'a capabilityHandler) s. dispatchCapabilityOperation registry h i op input caller interlock s = (makeCanonicalFailureResult st, s)"
    then show ?thesis using assms ok by auto
  next
    fix d assume g: "dispatchGuard registry i op input caller interlock d"
      and e: "\<And>(h :: 'a capabilityHandler) s. dispatchCapabilityOperation registry h i op input caller interlock s =
        apfst (checkedResult op d) (h d op input s)"
    have "isValueWithinBounds d (orValue r)"
      using assms ok e by (cases "handler d op input s") (auto simp: checkedResult_def split: if_splits)
    then have c: "isValueCompatible d (orValue r)" by (simp add: isValueWithinBounds_def split: if_splits)
    have "cdValueType d \<noteq> VT_NONE"
      using g ok by (auto simp: dispatchGuard_def supportsOperation_def isValidCapabilityDescriptor_def
          hasCompatibleValueContract_def dest: read_flag split: if_splits)
    with c show ?thesis by (simp add: isValueCompatible_def)
  qed
qed

lemma capabilityValueToHostValue_scalar:
  assumes "capabilityValueToHostValue c out = (True, v)" "cvType c \<noteq> VT_NONE"
  shows "isNonNoneScalarValue v" "length (tvBytes v) = 121"
proof -
  have valid: "isValidCapabilityValue c" using assms(1) by (simp add: capabilityValueToHostValue_def split: if_splits)
  have bool: "cvType c = VT_BOOLEAN \<Longrightarrow> (ucast (cvBits c) :: u8) \<le> 1"
    using assms(1) by (auto simp: capabilityValueToHostValue_def setBooleanValue_def split: if_splits)
  show "isNonNoneScalarValue v"
    using assms bool by (cases "cvType c") (auto simp: capabilityValueToHostValue_def setBooleanValue_def setUint16Value_def
        setUint32Value_def isNonNoneScalarValue_def isValidScalarValue_def isNoneValue_def expectedScalarValueLength_def
        valueType_of_def split: if_splits)
  show "length (tvBytes v) = 121"
    using assms by (cases "cvType c") (auto simp: capabilityValueToHostValue_def setBooleanValue_def setUint16Value_def
        setUint32Value_def split: if_splits)
qed

lemma getCapabilities_answer:
  assumes "answers (hrResponse r) q" "oqOperation q = operationCode.GET_CAPABILITIES"
  shows "operationAnswer q (getCapabilitiesResult valid registry q r)"
proof (cases "valid \<and> isValidCapabilityRegistry registry \<and> requestCursor q \<le> ucast (crCount registry)")
  case True
  then have "unat (requestCursor q) \<le> unat (crCount registry)" by (simp add: word_le_nat_alt)
  note page = capabilityPage_encodes [OF _ this]
  show ?thesis
    using True assms page encoded_length(3) encoded_success(3)
    by (simp add: getCapabilities_page) (rule respondWith_answer, auto)
next
  case False
  then show ?thesis using assms by (auto simp: getCapabilitiesResult_def Let_def intro: setOperationResult_answer)
qed

lemma describe_answer:
  assumes "answers (hrResponse r) q" "oqOperation q = operationCode.DESCRIBE_CAPABILITY"
  shows "operationAnswer q (describeCapabilityResult valid registry availability q r)"
  using assms encoded_length(4) encoded_success(4)
  by (auto simp: describeCapabilityResult_def intro!: setOperationResult_answer respondWith_answer split: option.split)

lemma valid_capability_operation:
  assumes "validateOperationRequest minor q = PR_OK" "oqCategory q = CAT_CAPABILITY"
  shows "oqOperation q \<in> {operationCode.GET_CAPABILITIES, operationCode.DESCRIBE_CAPABILITY, operationCode.READ_CAPABILITY,
    operationCode.SET_INDICATOR}"
  using valid_requestShape [OF assms(1)] valid_request(2) [OF assms(1)] assms(2)
  by (auto simp: requestShape_def classifyCategoryOperation_def isSupportedCategoryOperation_def operationCategory_of_def Let_def
      split: if_splits)

lemma executeLocal_status:
  assumes "executeLocalCapabilityNow valid registry handler i op input caller interlock env = (r, env')"
  shows "isKnownOperationStatus (orStatus r)"
    "orStatus r = OS_OK \<Longrightarrow> op = READ \<Longrightarrow> isValidCapabilityValue (orValue r) \<and> cvType (orValue r) \<noteq> VT_NONE"
  using assms dispatch_status by (fastforce simp: executeLocalCapabilityNow_def dispatchCapabilityOperationObserved_def split: prod.splits)+

definition rejectedAnswer :: "operationRequest \<Rightarrow> hostResult \<Rightarrow> bool" where
  "rejectedAnswer q r = (\<exists>requestId code b. code \<noteq> RR_NONE \<and> r = reject requestId q code b)"

lemma handleLocalCapability_answer:
  assumes "handleLocalCapability requestId q localId valid registry handler interlock availability env = (r, env')"
    and "hrDisposition r = D_HANDLED"
  shows "validateOperationRequest VERSION_MINOR_0_1 q = PR_OK \<and> oqCategory q = CAT_CAPABILITY \<and> (operationAnswer q r \<or> rejectedAnswer q r)"
proof -
  define base where "base = (makeBaseResult requestId q)\<lparr>hrDisposition := D_HANDLED\<rparr>"
  have b: "answers (hrResponse base) q" by (simp add: base_def answers_def makeBaseResult_def)
  have ok: "validateOperationRequest VERSION_MINOR_0_1 q = PR_OK" and cat: "oqCategory q = CAT_CAPABILITY"
    using assms by (auto simp: handleLocalCapability_def Let_def validateOperationRequest_0_1_def reject_def makeBaseResult_def
        split: if_splits)
  note unf = handleLocalCapability_def Let_def validateOperationRequest_0_1_def ok [simplified] cat base_def [symmetric]
  consider (target) "oqTargetDeviceId q \<noteq> localId"
    | (list) "oqTargetDeviceId q = localId" "oqOperation q = operationCode.GET_CAPABILITIES"
    | (describe) "oqTargetDeviceId q = localId" "oqOperation q = operationCode.DESCRIBE_CAPABILITY"
    | (malformed) "oqTargetDeviceId q = localId" "oqOperation q \<notin> {operationCode.GET_CAPABILITIES, operationCode.DESCRIBE_CAPABILITY}"
        "hostValueToCapabilityValue (oqValue q) = None"
    | (call) input where "oqTargetDeviceId q = localId" "oqOperation q \<notin> {operationCode.GET_CAPABILITIES, operationCode.DESCRIBE_CAPABILITY}"
        "hostValueToCapabilityValue (oqValue q) = Some input"
    by fastforce
  then have "operationAnswer q r \<or> rejectedAnswer q r"
  proof cases
    case target
    then have "r = reject requestId q RR_BAD_TARGET True" using assms(1) by (simp add: unf)
    then show ?thesis by (auto simp: rejectedAnswer_def)
  next
    case list
    then show ?thesis using assms(1) getCapabilities_answer [OF b] by (auto simp: unf)
  next
    case describe
    then show ?thesis using assms(1) describe_answer [OF b] by (auto simp: unf)
  next
    case malformed
    then have "r = reject requestId q RR_MALFORMED_REQUEST False" using assms(1) by (simp add: unf)
    then show ?thesis by (auto simp: rejectedAnswer_def)
  next
    case call
    define op where "op = (if oqOperation q = operationCode.READ_CAPABILITY then READ else SET)"
    have op: "oqOperation q = operationCode.READ_CAPABILITY \<and> op = READ \<or> oqOperation q = operationCode.SET_INDICATOR \<and> op = SET"
      using call valid_capability_operation [OF ok cat] by (auto simp: op_def)
    show ?thesis
    proof (cases "op = SET \<and> setRefused valid registry (oqTargetId q)")
      case True
      then have "r = setOperationResult OS_UNSUPPORTED_OPERATION base" using assms(1) call op by (auto simp: unf op_def split: if_splits)
      then show ?thesis using b by (auto intro: setOperationResult_answer)
    next
      case False
      obtain res env1 where ex: "executeLocalCapabilityNow valid registry handler (oqTargetId q) op input
          \<lparr>cxCallerClass = HOST_LOCAL, cxReserved = fillZero 3\<rparr> interlock env = (res, env1)" by (cases "executeLocalCapabilityNow valid registry handler (oqTargetId q) op input
          \<lparr>cxCallerClass = HOST_LOCAL, cxReserved = fillZero 3\<rparr> interlock env") auto
      note st = executeLocal_status [OF ex]
      have r: "r = (if orStatus res = OS_OK \<and> op = READ then
          (case capabilityValueToHostValue (orValue res) setNoneValue of (ok, v) \<Rightarrow>
             if ok then setResponseValue v (setOperationResult OS_OK base)
             else setOperationResult OS_OPERATION_FAILED (setResponseValue v (setOperationResult OS_OK base)))
          else setOperationResult (orStatus res) base)"
        using assms(1) call False ex op by (auto simp: unf op_def [symmetric] setOperationResult_def split: if_splits prod.splits)
      show ?thesis
      proof (cases "orStatus res = OS_OK")
        case True
        show ?thesis
        proof (cases "op = READ")
          case False
          then have "oqOperation q = operationCode.SET_INDICATOR" using op by auto
          then show ?thesis using r True False b by (auto simp: operationAnswer_def setOperationResult_def answers_def intro!: exI [of _ OS_OK])
        next
          case read: True
          obtain ok v where cv: "capabilityValueToHostValue (orValue res) setNoneValue = (ok, v)" by fastforce
          have opq: "oqOperation q = operationCode.READ_CAPABILITY" using op read by auto
          show ?thesis
          proof (cases ok)
            case True
            then have "capabilityValueToHostValue (orValue res) setNoneValue = (True, v)" using cv by simp
            note sc = capabilityValueToHostValue_scalar [OF this]
            have "isNonNoneScalarValue v" "length (tvBytes v) = 121"
              using sc st(2) [OF \<open>orStatus res = OS_OK\<close> read] by auto
            then show ?thesis using r cv True \<open>orStatus res = OS_OK\<close> read b opq by (auto intro!: setResponseValue_answer)
          next
            case False
            then show ?thesis using r cv \<open>orStatus res = OS_OK\<close> read b by (auto intro!: setOperationResult_answer)
          qed
        qed
      next
        case False
        then show ?thesis using r b st(1) by (auto intro: setOperationResult_answer)
      qed
    qed
  qed
  with ok cat show ?thesis by blast
qed

subsection \<open>Answers of the device service\<close>

lemma valid_device_operation:
  assumes "validateOperationRequest minor q = PR_OK" "oqCategory q = CAT_DEVICE \<or> oqCategory q = CAT_DIAGNOSTIC"
  shows "oqOperation q \<in> {operationCode.PING, operationCode.GET_DEVICE_INFO, operationCode.GET_STATUS, operationCode.GET_DIAGNOSTICS,
    GET_EVENT_DIAGNOSTICS}"
  using valid_requestShape [OF assms(1)] valid_request(2) [OF assms(1)] assms(2)
  by (auto simp: requestShape_def classifyCategoryOperation_def isSupportedCategoryOperation_def operationCategory_of_def Let_def
      split: if_splits)

lemma ping_value: "isValidSuccessfulOperationValue operationCode.PING (snd (setUint32Value v VT_UNSIGNED_32 x))"
    "length (tvBytes (snd (setUint32Value v VT_UNSIGNED_32 x))) = 121"
  by (simp_all add: setUint32Value_def isValidScalarValue_def expectedScalarValueLength_def valueType_of_def)

lemma handleLocalDevice_ok:
  assumes ok: "validateOperationRequest minor q = PR_OK" and cat: "oqCategory q = CAT_DEVICE \<or> oqCategory q = CAT_DIAGNOSTIC"
    and target: "oqTargetDeviceId q = dsDeviceId snapshot"
    and counters: "length (tsCounters (dtTxLifecycle (dsEventDetails snapshot))) = COUNTER_COUNT"
  shows "operationAnswer q (handleLocalDeviceOrDiagnostic requestId q snapshot minor)"
proof -
  define base where "base = makeBaseResult requestId q"
  define r where "r = handleLocalDeviceOrDiagnostic requestId q snapshot minor"
  have b: "answers (hrResponse base) q" by (simp add: base_def)
  obtain role where role: "mapRole (dsRole snapshot) = Some role" by (cases "dsRole snapshot") simp_all
  have ed: "length (edCounters (eventDiagnosticsRecord snapshot)) = EVENT_DIAGNOSTIC_COUNTER_COUNT"
    by (simp add: eventDiagnosticsRecord_def Let_def)
  have cur: "x \<le> ucast DIAGNOSTIC_METRIC_COUNT \<Longrightarrow> (ucast x :: u8) \<le> 10" for x :: u32
    by (simp add: word_le_nat_alt unsigned_ucast_eq take_bit_nat_eq_self)
  note unf = handleLocalDeviceOrDiagnostic_def Let_def ok base_def [symmetric] role target
  from valid_device_operation [OF ok cat] consider "oqOperation q = operationCode.PING"
    | "oqOperation q = operationCode.GET_DEVICE_INFO" | "oqOperation q = operationCode.GET_STATUS"
    | "oqOperation q = operationCode.GET_DIAGNOSTICS" | "oqOperation q = GET_EVENT_DIAGNOSTICS" by auto
  then have "operationAnswer q r"
  proof cases
    case 1
    then show ?thesis using r_def cat b ping_value by (auto simp: unf intro!: setResponseValue_answer)
  next
    case 2
    then show ?thesis using r_def cat b encoded_success(1) encoded_length(1) by (auto simp: unf intro!: respondWith_answer)
  next
    case 3
    then show ?thesis using r_def cat b encoded_success(2) encoded_length(2) by (auto simp: unf intro!: respondWith_answer)
  next
    case 4
    show ?thesis
    proof (cases "requestCursor q \<le> ucast DIAGNOSTIC_METRIC_COUNT")
      case le: True
      note pad = diagnosticPage_padded [OF cur [OF le], of "dsCounters snapshot"]
      have "r = respondWith (encodeDiagnosticPageRecord (diagnosticPage (dsCounters snapshot) (ucast (requestCursor q))))
          (setOperationResult OS_OK base)"
        using r_def cat 4 le by (auto simp: unf not_less)
      then show ?thesis using 4 b pad encoded_success(5) encoded_length(5) by (auto intro!: respondWith_answer)
    next
      case False
      then have "r = setOperationResult OS_VALUE_OUT_OF_RANGE (setOperationResult OS_OK base)"
        using r_def cat 4 by (auto simp: unf)
      then show ?thesis using b by (auto intro: setOperationResult_answer)
    qed
  next
    case 5
    then show ?thesis using r_def cat b ed counters encoded_success(6,7) encoded_length(6,7)
      by (auto simp: unf intro!: respondWith_answer)
  qed
  then show ?thesis by (simp add: r_def)
qed

lemma handleLocalDevice_answer:
  assumes r: "handleLocalDeviceOrDiagnostic requestId q snapshot minor = r" and "hrDisposition r = D_HANDLED"
    and counters: "length (tsCounters (dtTxLifecycle (dsEventDetails snapshot))) = COUNTER_COUNT"
  shows "validateOperationRequest minor q = PR_OK \<and> oqCategory q \<noteq> CAT_EVENT \<and> (operationAnswer q r \<or> rejectedAnswer q r)"
proof -
  have ok: "validateOperationRequest minor q = PR_OK" and cat: "oqCategory q = CAT_DEVICE \<or> oqCategory q = CAT_DIAGNOSTIC"
    using assms by (auto simp: handleLocalDeviceOrDiagnostic_def Let_def reject_def makeBaseResult_def split: if_splits)
  have "operationAnswer q r \<or> rejectedAnswer q r"
  proof (cases "oqTargetDeviceId q = dsDeviceId snapshot")
    case False
    then have "r = reject requestId q RR_BAD_TARGET True"
      using r cat ok by (auto simp: handleLocalDeviceOrDiagnostic_def Let_def)
    then show ?thesis by (auto simp: rejectedAnswer_def)
  qed (use r handleLocalDevice_ok [OF ok cat _ counters] in blast)
  with ok cat show ?thesis by auto
qed

lemma handleLocalOperation_valid:
  assumes "handleLocalOperation requestId q snapshot registryValid registry handler interlock availability minor env = (r, env')"
    and "hrDisposition r = D_HANDLED"
    and "length (tsCounters (dtTxLifecycle (dsEventDetails snapshot))) = COUNTER_COUNT"
  shows "validateOperationResponse minor (hrResponse r) = PR_OK"
proof (cases "oqCategory q = CAT_CAPABILITY")
  case True
  then have "handleLocalCapability requestId q (dsDeviceId snapshot) registryValid registry handler interlock availability env = (r, env')"
    using assms(1) by (simp add: handleLocalOperation_def)
  from handleLocalCapability_answer [OF this assms(2)] show ?thesis
    using True requestShape_0_1 [OF valid_requestShape] operationAnswer_valid reject_valid
    by (fastforce simp: rejectedAnswer_def)
next
  case False
  then have "handleLocalDeviceOrDiagnostic requestId q snapshot minor = r" using assms(1) by (simp add: handleLocalOperation_def)
  from handleLocalDevice_answer [OF this assms(2,3)] show ?thesis
    using valid_requestShape operationAnswer_valid reject_valid by (fastforce simp: rejectedAnswer_def)
qed

subsection \<open>Answers of the event service\<close>

lemma response_event_failure:
  assumes "requestShape VERSION_MINOR_0_2 q" "answers r q" "oqCategory q = CAT_EVENT" "oqOperation q = POLL_EVENTS \<or> oqOperation q = CONSUME_EVENT"
    "opResultClass r = RC_EVENT_RESULT" "opResultCode r = EVENT_STORAGE_FAILURE \<or> opResultCode r = EVENT_NOT_FOUND \<and> oqOperation q = CONSUME_EVENT"
    "isNoneValue (opValue r)"
  shows "validateOperationResponse VERSION_MINOR_0_2 r = PR_OK"
  using assms by (auto simp: requestShape_def answers_def validateOperationResponse_def Let_def okIf_def isKnownResultClass_def)

lemma response_event_success:
  assumes "requestShape VERSION_MINOR_0_2 q" "answers r q" "oqCategory q = CAT_EVENT"
    "opResultClass r = RC_SUCCESS" "opResultCode r = SUCCESS_OK"
    "if oqOperation q = POLL_EVENTS then isValidStructureValue POLL_EVENTS (opValue r) else isNoneValue (opValue r)"
  shows "validateOperationResponse VERSION_MINOR_0_2 r = PR_OK"
  using assms by (auto simp: requestShape_def answers_def validateOperationResponse_def Let_def okIf_def isKnownResultClass_def
      isKnownResultClass_0_1_def)

lemma polled_record:
  assumes "(case oldestActive l of None \<Rightarrow> Some hostEventRecord_init | Some (slot, rec) \<Rightarrow> he_convert rec) = Some event"
  shows "isValidHostEventRecord event \<and> length (heBody event) = MAX_BODY_SIZE"
  using assms by (auto simp: he_convert_def hostEventRecord_init_def isValidHostEventRecord_def Let_def
      split: option.splits prod.splits if_splits)

lemma he_poll_valid:
  assumes poll: "he_poll diagnostics r l = (r', l')" and shape: "requestShape VERSION_MINOR_0_2 q" and ans: "answers (hrResponse r) q"
    and q: "oqCategory q = CAT_EVENT" "oqOperation q = POLL_EVENTS" and none: "opValue (hrResponse r) = setNoneValue"
  shows "validateOperationResponse VERSION_MINOR_0_2 (hrResponse r') = PR_OK"
proof (cases "case oldestActive l of None \<Rightarrow> Some hostEventRecord_init | Some (slot, rec) \<Rightarrow> he_convert rec")
  case None
  then have "r' = setEventFailure EVENT_STORAGE_FAILURE r" using poll by (simp add: he_poll_def)
  then show ?thesis using shape ans q
    by (intro response_event_failure [of q]) (auto simp: setEventFailure_def answers_def)
next
  case (Some event)
  note event = polled_record [OF Some]
  obtain out where e: "encodeHostEventRecord event (Some (tvBytes setNoneValue)) 121 = (PR_OK, 29, Some out)"
    using event by (simp add: encodeHostEventRecord_def Let_def)
  have dec: "decodeHostEventRecord (Some out) 29 = Inr event"
    by (rule eventRecord_roundtrip [OF e]) (use event in simp_all)
  have r': "r' = setResponseValue \<lparr>tvType = STRUCTURE_VALUE_TYPE, tvLength = 29, tvBytes = out\<rparr> (setSuccess r)"
    using poll Some e none by (simp add: he_poll_def Let_def setSuccess_def)
  show ?thesis
    by (rule response_event_success [OF shape]) (use r' ans q dec in
      \<open>auto simp: setResponseValue_def setSuccess_def answers_def isValidStructureValue_def\<close>)
qed

lemma valid_event_operation:
  assumes "validateOperationRequest VERSION_MINOR_0_2 q = PR_OK" "oqCategory q = CAT_EVENT"
  shows "oqOperation q = POLL_EVENTS \<or> oqOperation q = CONSUME_EVENT"
  using valid_requestShape [OF assms(1)] valid_request(2) [OF assms(1)] assms(2)
  by (auto simp: requestShape_def classifyCategoryOperation_def isSupportedCategoryOperation_def operationCategory_of_def Let_def
      split: if_splits)

lemma he_handle_valid:
  assumes ok: "validateOperationRequest VERSION_MINOR_0_2 q = PR_OK" and cat: "oqCategory q = CAT_EVENT"
    and run: "he_handle ops diagnostics requestId q role localId l s = (r, l', s')"
  shows "hrDisposition r = D_HANDLED \<and> validateOperationResponse VERSION_MINOR_0_2 (hrResponse r) = PR_OK"
proof -
  note shape = valid_requestShape [OF ok]
  define base where "base = (makeBaseResult requestId q)\<lparr>hrDisposition := D_HANDLED\<rparr>"
  have b: "answers (hrResponse base) q" "opValue (hrResponse base) = setNoneValue" "hrDisposition base = D_HANDLED"
    by (simp_all add: base_def answers_def makeBaseResult_def)
  have rej: "hrDisposition (reject i q c True) = D_HANDLED \<and> validateOperationResponse VERSION_MINOR_0_2 (hrResponse (reject i q c True)) = PR_OK"
    if "c \<noteq> RR_NONE" for c i
    using reject_valid [OF shape that] by (simp add: reject_def Let_def)
  note unf = he_handle_def Let_def base_def [symmetric] ok [simplified] cat
  consider "role \<noteq> HUB \<or> oqTargetDeviceId q \<noteq> localId" | (sick) "role = HUB" "oqTargetDeviceId q = localId" "\<not> hlHealthy l"
    | (poll) "role = HUB" "oqTargetDeviceId q = localId" "hlHealthy l" "oqOperation q = POLL_EVENTS"
    | (consume) "role = HUB" "oqTargetDeviceId q = localId" "hlHealthy l" "oqOperation q = CONSUME_EVENT"
    using valid_event_operation [OF ok cat] by blast
  then show ?thesis
  proof cases
    case 1
    then show ?thesis using run rej by (auto simp: unf split: if_splits)
  next
    case sick
    then have "r = setEventFailure EVENT_STORAGE_FAILURE base" using run by (simp add: unf)
    then show ?thesis using b shape cat valid_event_operation [OF ok cat]
      by (auto simp: setEventFailure_def answers_def intro!: response_event_failure [of q, simplified])
  next
    case poll
    then have p: "he_poll diagnostics base l = (r, l')" using run by (auto simp: unf split: prod.splits)
    from he_poll_valid [OF p shape b(1) cat poll(4) b(2)] p b(3) show ?thesis
      by (auto simp: he_poll_def Let_def setEventFailure_def setSuccess_def setResponseValue_def split: option.splits prod.splits if_splits)
  next
    case consume
    then have c: "he_consume ops base q l s = (r, l', s')" using run by (simp add: unf)
    show ?thesis
    proof (cases "decodeHostEventIdentity (Some (tvBytes (oqValue q))) (unat (tvLength (oqValue q)))")
      case (Inl e)
      then show ?thesis using c rej by (auto simp: he_consume_def)
    next
      case (Inr i)
      obtain res l1 s1 where con: "HubEventLedger.consume ops \<lparr>idSourceDeviceId = hiSourceDeviceId i, idEpoch = hiEventEpoch i,
          idId = hiEventId i\<rparr> l s = (res, l1, s1)" by (rule prod_cases3)
      have "r = setResponseValue setNoneValue (setSuccess base) \<or> r = setEventFailure EVENT_NOT_FOUND base
          \<or> r = setEventFailure EVENT_STORAGE_FAILURE base"
        using c Inr con by (cases "coStatus res") (simp_all add: he_consume_def)
      then show ?thesis
        using b shape cat consume(4) response_event_success [OF shape, of "hrResponse r"] response_event_failure [OF shape, of "hrResponse r"]
        by (auto simp: setEventFailure_def setSuccess_def setResponseValue_def answers_def)
    qed
  qed
qed

end
