(* ===== verification/BridgeExecution.thy ===== *)
theory BridgeExecution
  imports RadioOperationBridge HostServiceResponses
begin

text \<open>
  The two ends of the radio bridge (\<^verbatim>\<open>lib/radio_operation_bridge\<close>) together: the Node answers every command that it
  admits and never touches a capability handler for it, and the Hub completes with what the Node answered.
\<close>

subsection \<open>Values across the bridge\<close>

lemma toHostValue_copy: "unat (wvLength v) \<le> 22 \<Longrightarrow> toHostValue v = Some (copyWireToHostValue v)"
  by (simp add: toHostValue_def copyWireToHostValue_def)

lemma copyWireToHostValue_normal [simp]: "copyWireToHostValue (wireNormal v) = copyWireToHostValue v" if "unat (wvLength v) \<le> 22"
  using that by (simp add: copyWireToHostValue_def wireNormal_def copyBytes_zeroPadded)

lemma copy_there_and_back:
  assumes "unat (tvLength v) \<le> 22"
  shows "copyWireToHostValue (copyHostToWireValue v) = normalValue v"
proof -
  have "copyBytes (fillZero 121) 0 (copyBytes (fillZero 22) 0 (tvBytes v) (unat (tvLength v))) (unat (tvLength v))
      = zeroPadded (tvBytes v) (unat (tvLength v)) 121"
    by (rule nth_equalityI) (use assms in \<open>auto simp: nth_copyBytes nth_zeroPadded\<close>)
  then show ?thesis by (simp add: copyWireToHostValue_def copyHostToWireValue_def normalValue_def)
qed

lemma scalar_copy:
  assumes "isScalarValue v" shows "isValidScalarValue (copyWireToHostValue v)"
  using assms by (auto simp: isScalarValue_def isValidScalarValue_def copyWireToHostValue_def scalarLength_def nth_copyBytes
      expectedScalarValueLength_def valueType_of_def split: if_splits)

lemma none_copy [simp]: "isNoneValue (copyWireToHostValue v) = isNone v"
  by (simp add: isNoneValue_def isNone_def copyWireToHostValue_def)

lemma none_back [simp]: "isNone (copyHostToWireValue v) = isNoneValue v"
  by (simp add: isNoneValue_def isNone_def copyHostToWireValue_def)

lemma success_copy:
  assumes opc: "isStructuredOpcode opc" and ok: "isValidSuccessfulOperationValue (operationCode_of opc) v"
    and len: "length (tvBytes v) = HOST_MAX_REQUEST_VALUE_SIZE"
  shows "isValidSuccessValue opc (copyHostToWireValue v)"
proof -
  have l: "unat (tvLength v) \<le> 21" by (rule success_length [OF opc ok])
  then have "sameValue v (normalValue v)" using len by (intro sameValue_normal) simp_all
  then have "isValidSuccessfulOperationValue (operationCode_of opc) (normalValue v)" using ok sameValue_success by blast
  moreover have "toHostValue (copyHostToWireValue v) = Some (normalValue v)"
    using l copy_there_and_back [of v] by (simp add: toHostValue_copy copyHostToWireValue_def)
  ultimately show ?thesis by (simp add: isValidSuccessValue_def)
qed

subsection \<open>What the Node executes\<close>

lemma structured_cases:
  "isStructuredOpcode opc \<longleftrightarrow> opc \<in> {0x20, 0x21, 0x22, 0x23, 0x24, 0x25, 0x26, 0x27, 0x28}"
  by (simp add: isStructuredOpcode_def word_le_nat_alt word_unat_eq_iff) presburger

lemma structured_classified:
  "isStructuredOpcode opc \<Longrightarrow> classifyCategoryOperation VERSION_MINOR_0_1
     (operationCategory_code (categoryFor (operationCode_of opc))) (operationCode_code (operationCode_of opc)) = OC_VALID"
  unfolding structured_cases
  by (elim insertE emptyE) (simp_all add: operationCode_of_def classifyCategoryOperation_def operationCategory_of_def
      isKnownOperationCategory_def isKnownOperationCategory_0_1_def isKnownOperationCode_def isKnownOperationCode_0_1_def
      isSupportedCategoryOperation_def)

text \<open>The host request that the Node makes of a wire request.\<close>

definition wireAsHost :: "u8 \<Rightarrow> wireRequest \<Rightarrow> u8 \<Rightarrow> operationRequest" where
  "wireAsHost opc q device = \<lparr>oqCategory = categoryFor (operationCode_of opc), oqOperation = operationCode_of opc,
     oqTargetDeviceId = device, oqTargetId = wqTargetId q, oqValue = copyWireToHostValue (wqValue q)\<rparr>"

lemma schema_value:
  assumes "isValidRequestSchema opc q"
  shows "isValidOperationTarget (categoryFor (operationCode_of opc)) (operationCode_of opc) (wqTargetId q) \<and>
    isValidOperationRequestValue (operationCode_of opc) (copyWireToHostValue (wqValue q)) \<and> categoryFor (operationCode_of opc) \<noteq> CAT_EVENT"
proof -
  have opc: "opc \<in> {0x20, 0x21, 0x22, 0x23, 0x24, 0x25, 0x26, 0x27, 0x28}"
    using assms structured_cases by (simp add: isValidRequestSchema_def split: if_splits)
  have scalar: "isValidScalarValue (copyWireToHostValue (wqValue q))" by (rule scalar_copy [OF requestSchema_scalar [OF assms]])
  have t: "tvType (copyWireToHostValue (wqValue q)) = wvType (wqValue q)" by (simp add: copyWireToHostValue_def)
  from opc assms scalar t show ?thesis
    by (elim insertE emptyE) (auto simp: operationCode_of_def isValidRequestSchema_def isUint32_def split: if_splits)
qed

lemma wireAsHost_valid:
  assumes "isValidRequestSchema opc q"
  shows "validateOperationRequest VERSION_MINOR_0_1 (wireAsHost opc q device) = PR_OK"
proof -
  have "isStructuredOpcode opc" using assms by (simp add: isValidRequestSchema_def split: if_splits)
  from structured_classified [OF this] schema_value [OF assms] show ?thesis
    by (simp add: wireAsHost_def validateOperationRequest_def Let_def)
qed

text \<open>The response that the Node builds of a status and a value.\<close>

definition wireAnswer :: "wireRequest \<Rightarrow> operationStatus \<Rightarrow> typedValue \<Rightarrow> wireResponse" where
  "wireAnswer q status scratch = \<lparr>wrStatus = status, wrTargetId = wqTargetId q, wrValue = (if status \<noteq> OS_OK
     then wireValue_init\<lparr>wvType := valueType_code VT_NONE\<rparr> else copyHostToWireValue scratch)\<rparr>"

lemma schema_target:
  assumes "isValidRequestSchema opc q"
  shows "if zeroTargetOperation opc then wqTargetId q = 0 else wqTargetId q \<noteq> 0"
  using assms structured_cases [of opc]
  by (auto simp: isValidRequestSchema_def zeroTargetOperation_def split: if_splits)

lemma wireAnswer_schema:
  assumes q: "isValidRequestSchema opc q" and st: "isKnownOperationStatus st"
    and ok: "st = OS_OK \<longrightarrow> isValidSuccessfulOperationValue (operationCode_of opc) v \<and> length (tvBytes v) = HOST_MAX_REQUEST_VALUE_SIZE"
  shows "isValidResponseSchema opc (wireAnswer q st v)"
proof -
  have opc: "isStructuredOpcode opc" using q by (simp add: isValidRequestSchema_def split: if_splits)
  have none: "isNone (wireValue_init\<lparr>wvType := 0\<rparr>)" by (simp add: isNone_def wireValue_init_def)
  show ?thesis
    using opc st ok none schema_target [OF q] success_copy [OF opc]
    by (auto simp: isValidResponseSchema_def wireAnswer_def split: if_splits)
qed

lemma handleLocalOperation_ok:
  assumes ok: "validateOperationRequest VERSION_MINOR_0_1 q = PR_OK"
    and cat: "oqCategory q = CAT_DEVICE \<or> oqCategory q = CAT_DIAGNOSTIC \<or>
      oqCategory q = CAT_CAPABILITY \<and> oqOperation q \<in> {operationCode.GET_CAPABILITIES, operationCode.DESCRIBE_CAPABILITY}"
    and target: "oqTargetDeviceId q = dsDeviceId snapshot"
    and counters: "length (tsCounters (dtTxLifecycle (dsEventDetails snapshot))) = COUNTER_COUNT"
  shows "\<exists>r. handleLocalOperation requestId q snapshot registryValid registry handler interlock availability VERSION_MINOR_0_1 env = (r, env)
    \<and> operationAnswer q r"
proof -
  define base where "base = (makeBaseResult requestId q)\<lparr>hrDisposition := D_HANDLED\<rparr>"
  have b: "answers (hrResponse base) q" by (simp add: base_def answers_def makeBaseResult_def)
  show ?thesis
  proof (cases "oqCategory q = CAT_CAPABILITY")
    case True
    then show ?thesis
      using ok target cat getCapabilities_answer [OF b] describe_answer [OF b]
      by (auto simp: handleLocalOperation_def handleLocalCapability_def Let_def validateOperationRequest_0_1_def base_def [symmetric])
  next
    case False
    then show ?thesis using handleLocalDevice_ok [OF ok _ target counters] cat by (auto simp: handleLocalOperation_def)
  qed
qed

lemma executeWireRequest_answer:
  assumes q: "isValidRequestSchema opc q" and counters: "length (tsCounters (dtTxLifecycle (dsEventDetails snapshot))) = COUNTER_COUNT"
  obtains st v env' where "executeWireRequest opc q snapshot registryValid registry handler interlock availability env = (st, v, env')"
    "isValidResponseSchema opc (wireAnswer q st v)" "envHandler env' = envHandler env" "envObserved env' = envObserved env"
    "st = OS_OK \<longrightarrow> isValidSuccessfulOperationValue (operationCode_of opc) v \<and> unat (tvLength v) \<le> 21"
proof -
  have opc: "isStructuredOpcode opc" using q by (simp add: isValidRequestSchema_def split: if_splits)
  consider (remote) "operationCode_of opc \<in> {operationCode.READ_CAPABILITY, operationCode.SET_INDICATOR}"
    | (run) "operationCode_of opc = operationCode.RUN_PROCEDURE"
    | (local) "operationCode_of opc \<in> {operationCode.PING, operationCode.GET_DEVICE_INFO, operationCode.GET_STATUS,
        operationCode.GET_CAPABILITIES, operationCode.DESCRIBE_CAPABILITY, operationCode.GET_DIAGNOSTICS}"
    using opc unfolding structured_cases by (elim insertE emptyE) (simp_all add: operationCode_of_def)
  then show ?thesis
  proof cases
    case remote
    show ?thesis
    proof (cases "hostValueToCapabilityValue (copyWireToHostValue (wqValue q))")
      case None
      show ?thesis
        by (rule that [of OS_INVALID_VALUE_TYPE setNoneValue env]) (use None remote q in \<open>auto simp: executeWireRequest_def intro!: wireAnswer_schema\<close>)
    next
      case (Some input)
      define op where "op = (if operationCode_of opc = operationCode.READ_CAPABILITY then READ else SET)"
      obtain st where st: "st \<noteq> OS_OK" "processRemoteCapability registry handler (wqTargetId q) op input interlock (envDiagnostics env)
          (envHandler env) = (makeCanonicalFailureResult st, snd (recordOutcome st 1 (envDiagnostics env)), envHandler env)"
        "st \<in> {OS_INVALID_DESCRIPTOR, OS_CAPABILITY_NOT_FOUND, OS_UNSUPPORTED_OPERATION, OS_UNAUTHORIZED}"
        using remote_no_handler [of registry handler "wqTargetId q" op input interlock "envDiagnostics env" "envHandler env"] by blast
      show ?thesis
        by (rule that [of st setNoneValue "env\<lparr>envDiagnostics := snd (recordOutcome st 1 (envDiagnostics env)), envHandler := envHandler env\<rparr>"])
          (use Some remote st q in \<open>auto simp: executeWireRequest_def Let_def op_def [symmetric] intro!: wireAnswer_schema\<close>)
    qed
  next
    case run
    show ?thesis
      by (rule that [of OS_UNAUTHORIZED setNoneValue env]) (use run q in \<open>auto simp: executeWireRequest_def intro!: wireAnswer_schema\<close>)
  next
    case local
    define h where "h = wireAsHost opc q (dsDeviceId snapshot)"
    note ok = wireAsHost_valid [OF q, of "dsDeviceId snapshot", folded h_def]
    have "oqCategory h = CAT_DEVICE \<or> oqCategory h = CAT_DIAGNOSTIC \<or>
      oqCategory h = CAT_CAPABILITY \<and> oqOperation h \<in> {operationCode.GET_CAPABILITIES, operationCode.DESCRIBE_CAPABILITY}"
      using local by (auto simp: h_def wireAsHost_def)
    from handleLocalOperation_ok [OF ok this _ counters, of 1 registryValid registry handler interlock availability env]
    obtain r where r: "handleLocalOperation 1 h snapshot registryValid registry handler interlock availability VERSION_MINOR_0_1 env = (r, env)"
      "operationAnswer h r" by (auto simp: h_def wireAsHost_def)
    have opq: "oqOperation h = operationCode_of opc" by (simp add: h_def wireAsHost_def)
    from r(2) [unfolded operationAnswer_def opq] obtain st where st: "isKnownOperationStatus st" "opResultCode (hrResponse r) = operationStatus_code st"
      "if st = OS_OK then isValidSuccessfulOperationValue (operationCode_of opc) (opValue (hrResponse r)) else isNoneValue (opValue (hrResponse r))"
      "length (tvBytes (opValue (hrResponse r))) = HOST_MAX_REQUEST_VALUE_SIZE"
      by blast
    have "executeWireRequest opc q snapshot registryValid registry handler interlock availability env = (st, opValue (hrResponse r), env)"
      using local r(1) st(1,2) operationStatus_of_code [OF st(1)]
      by (auto simp: executeWireRequest_def h_def wireAsHost_def Let_def)
    then show ?thesis using st success_length [OF opc] q by (intro that) (auto intro!: wireAnswer_schema)
  qed
qed

text \<open>An operation that is no capability access is the same on the Node as for a host that is attached to it.\<close>

lemma executeWireRequest_local:
  assumes "operationCode_of opc \<notin> {operationCode.READ_CAPABILITY, operationCode.SET_INDICATOR, operationCode.RUN_PROCEDURE}"
  shows "executeWireRequest opc q snapshot registryValid registry handler interlock availability env =
    (case handleLocalOperation 1 (wireAsHost opc q (dsDeviceId snapshot)) snapshot registryValid registry handler interlock availability
        VERSION_MINOR_0_1 env of (result, env) \<Rightarrow>
      (operationStatus_of (opResultCode (hrResponse result)), opValue (hrResponse result), env))"
  using assms by (simp add: executeWireRequest_def wireAsHost_def Let_def)

subsection \<open>The Node answers what it admits\<close>

text \<open>The retained operation is the pending command as long as it is active.\<close>

definition nodeInv :: "nodeProcessor \<Rightarrow> bool" where
  "nodeInv n = (let c = nxPendingCommand n; r = nxRetained n in
     (nxHasPendingCommand n \<longleftrightarrow> ro_isActive r) \<and> (ro_isActive r \<longrightarrow>
       packet_wf c \<and> pkType c = COMMAND \<and> isStructuredOpcode (pkOpcode c) \<and> unat (pkPayloadLength c) \<le> MAX_PAYLOAD_SIZE
       \<and> \<not> isl (decodeRequest (pkOpcode c) (Some (pkPayload c)) (unat (pkPayloadLength c)))
       \<and> roSource r = pkSource c \<and> roDestination r = pkDestination c \<and> roSequence r = pkSequence c \<and> roOpcode r = pkOpcode c
       \<and> roPayloadLength r = pkPayloadLength c \<and> roPayload r = zeroPadded (pkPayload c) (unat (pkPayloadLength c)) MAX_PAYLOAD_SIZE))"

lemma decodeRequest_length: "decodeRequest opc (Some bs) n = Inr q \<Longrightarrow> n \<le> MAX_PAYLOAD_SIZE \<and> isValidRequestSchema opc q"
  by (auto simp: decodeRequest_def Let_def split: if_splits)

lemma decodeRequest_zeroPadded:
  assumes "n \<le> 26" "n \<le> length bs"
  shows "decodeRequest opc (Some (zeroPadded bs n 26)) n = decodeRequest opc (Some bs) n"
proof (cases "4 \<le> n")
  case True
  have nth: "zeroPadded bs n 26 ! k = bs ! k" if "k < n" for k using that assms by (simp add: nth_zeroPadded)
  then have le: "getLe16 (zeroPadded bs n 26) 0 = getLe16 bs 0" using True by (simp add: getLe16_def)
  have val: "receivedWireValue t len 4 (zeroPadded bs n 26) = receivedWireValue t len 4 bs" if "n = 4 + unat len" for t len
  proof -
    have "copyBytes (fillZero 22) 0 (drop 4 (zeroPadded bs n 26)) (unat len) = copyBytes (fillZero 22) 0 (drop 4 bs) (unat len)"
      by (rule nth_equalityI) (use that True assms nth in \<open>auto simp: nth_copyBytes\<close>)
    then show ?thesis by (simp add: receivedWireValue_def)
  qed
  from True nth le val show ?thesis by (simp add: decodeRequest_def Let_def cong: if_cong)
qed (simp add: decodeRequest_def)

lemma nodeInv_init [simp]: "nodeInv nodeProcessor_init"
  by (simp add: nodeInv_def nodeProcessor_init_def ro_isActive_def retained_init_def)

lemma decodeRequest_accepted:
  "\<not> isl (decodeRequest opc (Some bs) n) \<Longrightarrow> n \<le> 26 \<and> (\<exists>q. decodeRequest opc (Some bs) n = Inr q \<and> isValidRequestSchema opc q)"
  using decodeRequest_length [of opc bs n] by (cases "decodeRequest opc (Some bs) n") auto

lemma nodeInv_lookup: "nodeInv (n\<lparr>nxRetained := (nxRetained n)\<lparr>roLookupCount := k\<rparr>\<rparr>) = nodeInv n"
  by (simp add: nodeInv_def Let_def ro_isActive_def)

lemma admit_lookup:
  assumes "fst (fst (admitNodeCommand c localId peerId r)) \<noteq> AO_ADMITTED"
  shows "\<exists>k. snd (admitNodeCommand c localId peerId r) = r\<lparr>roLookupCount := k\<rparr>"
proof -
  have same: "\<exists>k. r = r\<lparr>roLookupCount := k\<rparr>" by (intro exI [of _ "roLookupCount r"]) simp
  define d where "d = fst (ro_isDuplicate c r)"
  have d: "ro_isDuplicate c r = (d, r\<lparr>roLookupCount := roLookupCount r + 1\<rparr>)" by (simp add: ro_isDuplicate_def d_def)
  show ?thesis
  proof (cases "d \<or> ro_isActive (r\<lparr>roLookupCount := roLookupCount r + 1\<rparr>)")
    case True
    then show ?thesis using same by (auto simp: admitNodeCommand_def d)
  next
    case False
    then show ?thesis using assms same by (auto simp: admitNodeCommand_def d split: if_splits)
  qed
qed

lemma nx_admit_inv:
  assumes "nodeInv n" "packet_wf c" shows "nodeInv (snd (nx_admit c localId peerId n))"
proof (cases "fst (fst (admitNodeCommand c localId peerId (nxRetained n))) = AO_ADMITTED")
  case True
  then show ?thesis using assms decodeRequest_accepted [of "pkOpcode c" "pkPayload c" "unat (pkPayloadLength c)"]
    by (auto simp: nx_admit_def admitNodeCommand_def ro_isDuplicate_def ro_reserve_def nodeInv_def Let_def ro_isActive_def split: if_splits)
next
  case False
  from admit_lookup [OF False] obtain k where k: "snd (admitNodeCommand c localId peerId (nxRetained n)) = (nxRetained n)\<lparr>roLookupCount := k\<rparr>" by blast
  have "snd (nx_admit c localId peerId n) = n\<lparr>nxRetained := snd (admitNodeCommand c localId peerId (nxRetained n))\<rparr>"
    using False by (auto simp: nx_admit_def Let_def split: prod.splits admissionOutcome.splits)
  then show ?thesis using assms(1) by (simp add: k nodeInv_lookup)
qed

text \<open>A command that is admitted is answered by the next execution, with the capability handler untouched.\<close>

lemma nx_execute_answers:
  assumes inv: "nodeInv n" and pending: "nxHasPendingCommand n"
    and counters: "length (tsCounters (dtTxLifecycle (dsEventDetails snapshot))) = COUNTER_COUNT"
  obtains q st v env' n' where
    "decodeRequest (pkOpcode (nxPendingCommand n)) (Some (pkPayload (nxPendingCommand n))) (unat (pkPayloadLength (nxPendingCommand n))) = Inr q"
    "executeWireRequest (pkOpcode (nxPendingCommand n)) q snapshot registryValid registry handler interlock availability env = (st, v, env')"
    "isValidResponseSchema (pkOpcode (nxPendingCommand n)) (wireAnswer q st v)"
    "nx_executeAdmittedOperation snapshot registryValid registry handler interlock availability n env =
       (nodeResult_init\<lparr>nrAction := NA_RESPONSE_READY, nrResponse := makeResponsePacket (nxPendingCommand n) (wireAnswer q st v)\<rparr>, n', env')"
    "nxRetained n' = (nxRetained n)\<lparr>roResponse := makeResponsePacket (nxPendingCommand n) (wireAnswer q st v), roComplete := True\<rparr>"
    "\<not> nxHasPendingCommand n'" "nodeInv n'" "envHandler env' = envHandler env"
proof -
  define c where "c = nxPendingCommand n"
  have act: "ro_isActive (nxRetained n)" and wf: "packet_wf c"
    and len: "unat (pkPayloadLength c) \<le> 26" and dec: "\<not> isl (decodeRequest (pkOpcode c) (Some (pkPayload c)) (unat (pkPayloadLength c)))"
    and same: "roSource (nxRetained n) = pkSource c" "roDestination (nxRetained n) = pkDestination c" "roSequence (nxRetained n) = pkSequence c"
      "roOpcode (nxRetained n) = pkOpcode c" "roPayloadLength (nxRetained n) = pkPayloadLength c"
      "roPayload (nxRetained n) = zeroPadded (pkPayload c) (unat (pkPayloadLength c)) 26"
    using inv pending by (auto simp: nodeInv_def Let_def c_def)
  from decodeRequest_accepted [OF dec] obtain q where
    q: "decodeRequest (pkOpcode c) (Some (pkPayload c)) (unat (pkPayloadLength c)) = Inr q" "isValidRequestSchema (pkOpcode c) q" by blast
  have again: "decodeRequest (roOpcode (nxRetained n)) (Some (roPayload (nxRetained n))) (unat (roPayloadLength (nxRetained n))) = Inr q"
    using q(1) same len wf decodeRequest_zeroPadded [of "unat (pkPayloadLength c)" "pkPayload c" "pkOpcode c"] by (simp add: packet_wf_def)
  obtain st v env' where x: "executeWireRequest (pkOpcode c) q snapshot registryValid registry handler interlock availability env = (st, v, env')"
    "isValidResponseSchema (pkOpcode c) (wireAnswer q st v)" "envHandler env' = envHandler env"
    using executeWireRequest_answer [OF q(2) counters, of registryValid registry handler interlock availability env thesis] by blast
  define p where "p = makeResponsePacket c (wireAnswer q st v)"
  note p = makeResponsePacket_decodes [OF x(2), folded p_def]
  have completed: "ro_complete p (nxRetained n) = (True, (nxRetained n)\<lparr>roResponse := p, roComplete := True\<rparr>)"
    using p act again same by (simp add: ro_complete_def p_def [symmetric]) (simp add: p_def wireAnswer_def)
  define n' where "n' = n\<lparr>nxHostScratch := v, nxRetained := (nxRetained n)\<lparr>roResponse := p, roComplete := True\<rparr>, nxHasPendingCommand := False\<rparr>"
  have "nx_executeAdmittedOperation snapshot registryValid registry handler interlock availability n env =
       (nodeResult_init\<lparr>nrAction := NA_RESPONSE_READY, nrResponse := p\<rparr>, n', env')"
    using pending act q x(1) p(2) completed
    by (simp add: nx_executeAdmittedOperation_def c_def [symmetric] Let_def wireAnswer_def [symmetric] p_def [symmetric] n'_def)
  moreover have "nodeInv n'" by (simp add: nodeInv_def n'_def ro_isActive_def Let_def)
  ultimately show ?thesis
    using that [of q st v env' n'] q x by (simp add: c_def [symmetric] p_def [symmetric] n'_def)
qed

text \<open>What the Node does with a command that it sees for the first time, and with one that it has answered.\<close>

lemma nx_admit_executes:
  assumes "nrAction (fst (nx_admit c localId peerId n)) = NA_ACK_THEN_EXECUTE"
  shows "nxPendingCommand (snd (nx_admit c localId peerId n)) = c" "nxHasPendingCommand (snd (nx_admit c localId peerId n))"
  using assms by (auto simp: nx_admit_def Let_def nodeResult_init_def split: prod.splits admissionOutcome.splits)

lemma nx_admit_again:
  assumes inv: "nodeInv n" "packet_wf (nxPendingCommand n)" and pending: "nxHasPendingCommand n"
    and c: "pkDestination (nxPendingCommand n) = localId" "pkSource (nxPendingCommand n) = peerId"
    and done': "nxRetained n' = (nxRetained n)\<lparr>roResponse := p, roComplete := True\<rparr>"
  shows "fst (nx_admit (nxPendingCommand n) localId peerId n') = nodeResult_init\<lparr>nrAction := NA_SEND_ACK_AND_RESPONSE,
      nrAcknowledgment := ro_acknowledgment (nxRetained n), nrResponse := p\<rparr>"
    and "nxHasPendingCommand (snd (nx_admit (nxPendingCommand n) localId peerId n')) = nxHasPendingCommand n'"
  using inv pending c done' by (simp_all add: nodeInv_def Let_def nx_admit_def admitNodeCommand_def ro_isDuplicate_def ro_isActive_def
      ro_isComplete_def sameBytes_zeroPadded ro_acknowledgment_def ro_rememberedCommand_def)

subsection \<open>The Hub completes with what the Node answered\<close>

lemma hb_submit_transmits:
  assumes "hb_submit requestId q localRole localId peerId now overallTimeout maxRetries explicitlyConfigured b = (r, b')"
    and "huAction r = HA_TRANSMIT_COMMAND"
  defines "wq \<equiv> \<lparr>wqTargetId = oqTargetId q, wqValue = copyHostToWireValue (oqValue q)\<rparr>"
  shows "validateOperationRequest VERSION_MINOR_0_1 q = PR_OK" "oqTargetDeviceId q = peerId" "localRole = HUB"
    "isValidRequestSchema (operationCode_code (oqOperation q)) wq"
    "huPacket r = makeCommand localId peerId (hbNextSequence b) (operationCode_code (oqOperation q)) wq"
    "hbActive b'" "hbRequest b' = q" "hbRequestId b' = requestId" "hbNextSequence b' = hbNextSequence b"
    "htCommand (hbTransaction b') = huPacket r" "htRequestTarget (hbTransaction b') = oqTargetId q"
    "htPhase (hbTransaction b') = SP_AWAITING_ACK"
proof -
  define opc where "opc = operationCode_code (oqOperation q)"
  define c where "c = makeCommand localId peerId (hbNextSequence b) opc wq"
  have act: "huAction (fst (hb_submit requestId q localRole localId peerId now overallTimeout maxRetries explicitlyConfigured b)) = HA_TRANSMIT_COMMAND"
    using assms(1,2) by simp
  note unf = hb_submit_def Let_def hb_reject_def hubResult_init_def wq_def [symmetric] opc_def [symmetric] c_def [symmetric]
  have v1: "validateOperationRequest_0_1 q = PR_OK" by (rule ccontr) (use act in \<open>simp add: unf\<close>)
  have v2: "oqTargetDeviceId q \<noteq> localId" by (rule ccontr) (use act v1 in \<open>simp add: unf\<close>)
  have v3: "localRole = HUB \<and> oqTargetDeviceId q = peerId" by (rule ccontr) (use act v1 v2 in \<open>auto simp: unf\<close>)
  have v4: "\<not> hbActive b" by (rule notI) (use act v1 v2 v3 in \<open>simp add: unf\<close>)
  have v5: "mayStartStructuredOperation (hbPeerSupport b) opc explicitlyConfigured"
    by (rule ccontr) (use act v1 v2 v3 v4 in \<open>simp add: unf\<close>)
  have v6: "pkPayloadLength c \<noteq> 0" by (rule notI) (use act v1 v2 v3 v4 v5 in \<open>simp add: unf\<close>)
  have schema: "isValidRequestSchema opc wq"
    using v6 makeCommand_refused [of opc wq] by (auto simp: c_def)
  note dec = makeCommand_decodes [OF schema, of localId peerId "hbNextSequence b", folded c_def]
  have v7: "fst (ht_begin c now overallTimeout maxRetries (hbTransaction b))"
    by (rule ccontr) (use act v1 v2 v3 v4 v5 v6 in \<open>simp add: unf split: prod.splits\<close>)
  then have start: "ht_begin c now overallTimeout maxRetries (hbTransaction b) = (True, (hbTransaction b)\<lparr>htCommand := c, htRequestTarget := oqTargetId q,
      htPhase := SP_AWAITING_ACK, htDeadline := now + overallTimeout, htRetries := 0, htMaxRetries := maxRetries\<rparr>)"
    using dec(1) by (simp add: ht_begin_def split: if_splits) (simp add: c_def wq_def)
  have run: "hb_submit requestId q localRole localId peerId now overallTimeout maxRetries explicitlyConfigured b =
      (hubResult_init\<lparr>huRequestId := requestId, huResponse := makeHostResponseBase q, huAction := HA_TRANSMIT_COMMAND, huPacket := c\<rparr>,
       b\<lparr>hbTransaction := ht_configureSupport (hbPeerSupport b) (snd (ht_begin c now overallTimeout maxRetries (hbTransaction b))),
         hbActive := True, hbRequestId := requestId, hbRequest := q\<rparr>)"
    using v1 v2 v3 v4 v5 v6 start by (simp add: unf)
  show "validateOperationRequest VERSION_MINOR_0_1 q = PR_OK" "oqTargetDeviceId q = peerId" "localRole = HUB"
    "isValidRequestSchema (operationCode_code (oqOperation q)) wq"
    using v1 v3 schema by (simp_all add: opc_def validateOperationRequest_0_1_def)
  show "huPacket r = makeCommand localId peerId (hbNextSequence b) (operationCode_code (oqOperation q)) wq"
    "hbActive b'" "hbRequest b' = q" "hbRequestId b' = requestId" "hbNextSequence b' = hbNextSequence b"
    "htCommand (hbTransaction b') = huPacket r" "htRequestTarget (hbTransaction b') = oqTargetId q"
    "htPhase (hbTransaction b') = SP_AWAITING_ACK"
    using assms(1) run start by (auto simp: c_def opc_def ht_configureSupport_def)
qed

lemma hb_receive_acknowledgment:
  assumes "hbActive b" "htPhase (hbTransaction b) \<noteq> SP_IDLE" and ack: "a = makeAcknowledgment c SUCCESS"
    and same: "pkSource c = pkSource (htCommand (hbTransaction b))" "pkDestination c = pkDestination (htCommand (hbTransaction b))"
      "pkSequence c = pkSequence (htCommand (hbTransaction b))" "pkOpcode c = pkOpcode (htCommand (hbTransaction b))"
  shows "hb_receive a b = (hb_activeBase b, b\<lparr>hbTransaction := (hbTransaction b)\<lparr>htPhase := SP_AWAITING_RESPONSE\<rparr>,
    hbPeerSupport := htSupport (hbTransaction b)\<rparr>)"
  using assms by (simp add: hb_receive_def ht_receive_def makeAcknowledgment_def Let_def packet_init_def isValidAckStatus_def ackStatus_of_def)

lemma hb_receive_response:
  assumes "hbActive b" "htPhase (hbTransaction b) \<noteq> SP_IDLE" and c: "htCommand (hbTransaction b) = c"
    and schema: "isValidResponseSchema (pkOpcode c) r" and target: "wrTargetId r = htRequestTarget (hbTransaction b)"
  shows "hb_receive (makeResponsePacket c r) b = (hubResult_init\<lparr>huAction := HA_HOST_RESPONSE_READY, huRequestId := hbRequestId b,
      huResponse := (makeHostResponseBase (hbRequest b))\<lparr>opResultClass := RC_OPERATION_RESULT,
        opResultCode := operationStatus_code (wrStatus r), opValue := copyWireToHostValue (wrValue r)\<rparr>\<rparr>,
     b\<lparr>hbTransaction := (hbTransaction b)\<lparr>htResult := r\<lparr>wrValue := wireNormal (wrValue r)\<rparr>, htSupport := PEER_SUPPORTED, htPhase := SP_IDLE\<rparr>,
       hbPeerSupport := PEER_SUPPORTED, hbActive := False, hbNextSequence := hbNextSequence b + 1\<rparr>)"
proof -
  have "unat (wvLength (wrValue r)) \<le> 22" using responseSchema_length [OF schema] by simp
  then show ?thesis
    using assms makeResponsePacket_decodes(1) [OF schema]
    by (simp add: hb_receive_def ht_receive_def Let_def hb_finish_def hb_activeBase_def)
qed

lemma categoryFor_valid:
  assumes "validateOperationRequest VERSION_MINOR_0_1 q = PR_OK"
  shows "categoryFor (oqOperation q) = oqCategory q"
proof -
  have "isSupportedCategoryOperation VERSION_MINOR_0_1 (operationCategory_of (operationCategory_code (oqCategory q)))
      (operationCode_of (operationCode_code (oqOperation q)))" "isKnownOperationCategory VERSION_MINOR_0_1 (oqCategory q)"
    using valid_requestShape [OF assms]
    by (auto simp: requestShape_def classifyCategoryOperation_def Let_def split: if_splits)
  then show ?thesis using valid_request(2) [OF assms]
    by (cases "oqCategory q"; cases "oqOperation q") (auto simp: isSupportedCategoryOperation_def isKnownOperationCategory_def
        isKnownOperationCategory_0_1_def operationCategory_of_def)
qed

lemma wireAsHost_request:
  assumes ok: "validateOperationRequest VERSION_MINOR_0_1 q = PR_OK" and len: "unat (tvLength (oqValue q)) \<le> 22"
  shows "wireAsHost (operationCode_code (oqOperation q)) \<lparr>wqTargetId = oqTargetId q, wqValue = wireNormal (copyHostToWireValue (oqValue q))\<rparr>
    (oqTargetDeviceId q) = q\<lparr>oqValue := normalValue (oqValue q)\<rparr>"
proof -
  have "unat (wvLength (copyHostToWireValue (oqValue q))) \<le> 22" using len by (simp add: copyHostToWireValue_def)
  then show ?thesis using valid_request(2) [OF ok] categoryFor_valid [OF ok] copy_there_and_back [OF len]
    by (simp add: wireAsHost_def)
qed

lemma wireAnswer_value:
  assumes st: "if st = OS_OK then unat (tvLength v) \<le> 22 else isNoneValue v"
  shows "copyWireToHostValue (wrValue (wireAnswer q st v)) = normalValue v"
proof (cases "st = OS_OK")
  case True
  then show ?thesis using st copy_there_and_back by (simp add: wireAnswer_def)
next
  case False
  have "zeroPadded (tvBytes v) 0 121 = fillZero 121" by (rule nth_equalityI) (simp_all add: nth_zeroPadded)
  moreover have "copyBytes (fillZero 121) 0 (fillZero 22) 0 = fillZero 121" by (rule nth_equalityI) (simp_all add: nth_copyBytes)
  ultimately show ?thesis using False st
    by (cases v) (simp add: wireAnswer_def normalValue_def isNoneValue_def copyWireToHostValue_def wireValue_init_def)
qed

lemma executeWireRequest_as_local:
  assumes ok: "validateOperationRequest VERSION_MINOR_0_1 q = PR_OK"
    and code: "opc = operationCode_code (oqOperation q)"
    and q': "q' = \<lparr>wqTargetId = oqTargetId q, wqValue = wireNormal (copyHostToWireValue (oqValue q))\<rparr>"
    and schema: "isValidRequestSchema opc q'"
    and device: "dsDeviceId snapshot = oqTargetDeviceId q" "length (tsCounters (dtTxLifecycle (dsEventDetails snapshot))) = COUNTER_COUNT"
    and op: "oqOperation q \<notin> {operationCode.READ_CAPABILITY, operationCode.SET_INDICATOR, operationCode.RUN_PROCEDURE}"
  obtains hr st where "handleLocalOperation 1 (q\<lparr>oqValue := normalValue (oqValue q)\<rparr>) snapshot registryValid registry handler interlock
      availability VERSION_MINOR_0_1 env = (hr, env)"
    "executeWireRequest opc q' snapshot registryValid registry handler interlock availability env = (st, opValue (hrResponse hr), env)"
    "(makeHostResponseBase q)\<lparr>opResultClass := RC_OPERATION_RESULT, opResultCode := operationStatus_code st,
        opValue := copyWireToHostValue (wrValue (wireAnswer q' st (opValue (hrResponse hr))))\<rparr>
      = (hrResponse hr)\<lparr>opValue := normalValue (opValue (hrResponse hr))\<rparr>"
proof -
  have opn: "operationCode_of opc = oqOperation q" using valid_request(2) [OF ok] by (simp add: code)
  have opc: "isStructuredOpcode opc" using schema by (simp add: isValidRequestSchema_def split: if_splits)
  have small: "unat (tvLength (oqValue q)) \<le> 22"
    using scalar_small [OF requestSchema_scalar [OF schema]] by (simp add: q' copyHostToWireValue_def)
  define h where "h = q\<lparr>oqValue := normalValue (oqValue q)\<rparr>"
  have h: "wireAsHost opc q' (dsDeviceId snapshot) = h"
    using wireAsHost_request [OF ok small] device(1) by (simp add: h_def code q')
  have hv: "validateOperationRequest VERSION_MINOR_0_1 h = PR_OK" using wireAsHost_valid [OF schema] h by metis
  have cat: "oqCategory h = CAT_DEVICE \<or> oqCategory h = CAT_DIAGNOSTIC \<or>
      oqCategory h = CAT_CAPABILITY \<and> oqOperation h \<in> {operationCode.GET_CAPABILITIES, operationCode.DESCRIBE_CAPABILITY}"
    using opc [unfolded structured_cases] op opn categoryFor_valid [OF ok] by (auto simp: h_def operationCode_of_def)
  obtain hr where hr: "handleLocalOperation 1 h snapshot registryValid registry handler interlock availability VERSION_MINOR_0_1 env = (hr, env)"
    "operationAnswer h hr"
    using handleLocalOperation_ok [OF hv cat _ device(2), of 1 registryValid registry handler interlock availability env] device(1)
    by (auto simp: h_def)
  define v where "v = opValue (hrResponse hr)"
  from hr(2) [unfolded operationAnswer_def] obtain st where st: "isKnownOperationStatus st" "opResultCode (hrResponse hr) = operationStatus_code st"
      "if st = OS_OK then isValidSuccessfulOperationValue (oqOperation h) v else isNoneValue v" "answers (hrResponse hr) h"
      "opResultClass (hrResponse hr) = RC_OPERATION_RESULT" unfolding v_def by blast
  have "if st = OS_OK then unat (tvLength v) \<le> 22 else isNoneValue v"
    using success_length [OF opc, of v] st(3) opn by (auto simp: h_def)
  note val = wireAnswer_value [OF this, of q']
  have "executeWireRequest opc q' snapshot registryValid registry handler interlock availability env = (st, v, env)"
    using executeWireRequest_local [of opc q' snapshot registryValid registry handler interlock availability env] op opn hr(1) h st(2)
      operationStatus_of_code [OF st(1)] by (simp add: v_def)
  moreover have "(makeHostResponseBase q)\<lparr>opResultClass := RC_OPERATION_RESULT, opResultCode := operationStatus_code st, opValue := normalValue v\<rparr>
      = (hrResponse hr)\<lparr>opValue := normalValue v\<rparr>"
    using st(2,4,5) by (cases "hrResponse hr") (simp add: makeHostResponseBase_def operationResponse_init_def answers_def h_def)
  ultimately show ?thesis using that [of hr st] hr(1) val by (simp add: h_def v_def)
qed

text \<open>
  A whole exchange: the Hub submits, the Node admits, the Hub takes the acknowledgement, the Node executes, the Hub takes the
  response.  For an operation that is no capability access the host of the Hub gets what a host of the Node would get.
\<close>

lemma exchange_local:
  assumes submit: "hb_submit requestId q localRole localId peerId now overallTimeout maxRetries explicitlyConfigured b = (r, b1)"
      "huAction r = HA_TRANSMIT_COMMAND"
    and inv: "nodeInv n"
    and admit: "nx_admit (huPacket r) peerId localId n = (a, n1)" "nrAction a = NA_ACK_THEN_EXECUTE"
    and device: "dsDeviceId snapshot = peerId" "length (tsCounters (dtTxLifecycle (dsEventDetails snapshot))) = COUNTER_COUNT"
    and op: "oqOperation q \<notin> {operationCode.READ_CAPABILITY, operationCode.SET_INDICATOR, operationCode.RUN_PROCEDURE}"
  shows "\<exists>b2 nr n2 hr. hb_receive (nrAcknowledgment a) b1 = (hb_activeBase b1, b2)
    \<and> nx_executeAdmittedOperation snapshot registryValid registry handler interlock availability n1 env = (nr, n2, env)
    \<and> handleLocalOperation 1 (q\<lparr>oqValue := normalValue (oqValue q)\<rparr>) snapshot registryValid registry handler interlock availability
        VERSION_MINOR_0_1 env = (hr, env)
    \<and> fst (hb_receive (nrResponse nr) b2) = hubResult_init\<lparr>huAction := HA_HOST_RESPONSE_READY, huRequestId := requestId,
        huResponse := (hrResponse hr)\<lparr>opValue := normalValue (opValue (hrResponse hr))\<rparr>\<rparr>"
proof -
  define opc where "opc = operationCode_code (oqOperation q)"
  define wq where "wq = \<lparr>wqTargetId = oqTargetId q, wqValue = copyHostToWireValue (oqValue q)\<rparr>"
  define c where "c = huPacket r"
  note sub = hb_submit_transmits [OF submit, folded opc_def wq_def c_def]
  note dec = makeCommand_decodes [OF sub(4), of localId peerId "hbNextSequence b", folded sub(5)]
  have wf: "packet_wf c" using dec(3) by (simp add: packet_wf_def)
  have cf: "pkOpcode c = opc" by (simp add: sub(5))
  have pend: "nxPendingCommand n1 = c" "nxHasPendingCommand n1" "nodeInv n1"
    using nx_admit_executes [of "huPacket r" peerId localId n] nx_admit_inv [OF inv wf, of peerId localId] admit by (simp_all add: c_def)
  have ret: "nrAcknowledgment a = ro_acknowledgment (nxRetained n1)"
    using admit by (auto simp: nx_admit_def nodeResult_init_def Let_def split: prod.splits admissionOutcome.splits)
  have active: "ro_isActive (nxRetained n1)" using pend by (simp add: nodeInv_def Let_def)
  define b2 where "b2 = b1\<lparr>hbTransaction := (hbTransaction b1)\<lparr>htPhase := SP_AWAITING_RESPONSE\<rparr>, hbPeerSupport := htSupport (hbTransaction b1)\<rparr>"
  have ack: "hb_receive (nrAcknowledgment a) b1 = (hb_activeBase b1, b2)"
    unfolding b2_def by (rule hb_receive_acknowledgment [OF _ _ trans [OF ret ro_acknowledgment_def]])
      (use sub pend active in \<open>simp_all add: ro_rememberedCommand_def nodeInv_def Let_def\<close>)
  obtain q' st v env' n2 where x: "decodeRequest opc (Some (pkPayload c)) (unat (pkPayloadLength c)) = Inr q'"
    "executeWireRequest opc q' snapshot registryValid registry handler interlock availability env = (st, v, env')"
    "isValidResponseSchema opc (wireAnswer q' st v)"
    "nx_executeAdmittedOperation snapshot registryValid registry handler interlock availability n1 env =
       (nodeResult_init\<lparr>nrAction := NA_RESPONSE_READY, nrResponse := makeResponsePacket c (wireAnswer q' st v)\<rparr>, n2, env')"
    using nx_execute_answers [OF pend(3) pend(2) device(2), of registryValid registry handler interlock availability env thesis] pend(1) cf by blast
  have q': "q' = \<lparr>wqTargetId = oqTargetId q, wqValue = wireNormal (copyHostToWireValue (oqValue q))\<rparr>"
    using x(1) dec(1) by (simp add: wq_def)
  have schema: "isValidRequestSchema opc q'" using decodeRequest_length [OF x(1)] by simp
  have id: "dsDeviceId snapshot = oqTargetDeviceId q" using sub(2) device(1) by simp
  obtain hr st' where hr: "handleLocalOperation 1 (q\<lparr>oqValue := normalValue (oqValue q)\<rparr>) snapshot registryValid registry handler interlock
      availability VERSION_MINOR_0_1 env = (hr, env)"
    and "executeWireRequest opc q' snapshot registryValid registry handler interlock availability env = (st', opValue (hrResponse hr), env)"
      "(makeHostResponseBase q)\<lparr>opResultClass := RC_OPERATION_RESULT, opResultCode := operationStatus_code st',
        opValue := copyWireToHostValue (wrValue (wireAnswer q' st' (opValue (hrResponse hr))))\<rparr>
      = (hrResponse hr)\<lparr>opValue := normalValue (opValue (hrResponse hr))\<rparr>"
    by (rule executeWireRequest_as_local [OF sub(1) opc_def q' schema id device(2) op])
  then have same: "env' = env" "(makeHostResponseBase q)\<lparr>opResultClass := RC_OPERATION_RESULT, opResultCode := operationStatus_code st,
        opValue := copyWireToHostValue (wrValue (wireAnswer q' st v))\<rparr> = (hrResponse hr)\<lparr>opValue := normalValue (opValue (hrResponse hr))\<rparr>"
    using x(2) by simp_all
  have "htCommand (hbTransaction b2) = c" "hbActive b2" "htPhase (hbTransaction b2) \<noteq> SP_IDLE" "hbRequestId b2 = requestId" "hbRequest b2 = q"
      "wrTargetId (wireAnswer q' st v) = htRequestTarget (hbTransaction b2)"
    using sub by (simp_all add: b2_def wireAnswer_def q')
  then have "fst (hb_receive (makeResponsePacket c (wireAnswer q' st v)) b2) = hubResult_init\<lparr>huAction := HA_HOST_RESPONSE_READY,
      huRequestId := requestId, huResponse := (hrResponse hr)\<lparr>opValue := normalValue (opValue (hrResponse hr))\<rparr>\<rparr>"
    using hb_receive_response [of b2 c "wireAnswer q' st v"] x(3) cf same(2) by (simp add: wireAnswer_def)
  then show ?thesis using ack x(4) same(1) hr by auto
qed

end
