(* ===== verification/HostLifecycleRuns.thy ===== *)
theory HostLifecycleRuns
  imports HostOperationLifecycle BridgeExecution
begin

text \<open>
  Runs of the operation lifecycle (\<^verbatim>\<open>lib/host_operation_lifecycle\<close>) and of the Hub's bridge under it: the invariant of
  the bridge, the invariant that ties the retained entry to the bridge, and what every result of a run satisfies.
\<close>

subsection \<open>The Hub's bridge\<close>

text \<open>The bridge is active exactly while its transaction is, and the transaction is about the remembered request.\<close>

definition bridgeInv :: "hubBridge \<Rightarrow> bool" where
  "bridgeInv b = (let t = hbTransaction b in (hbActive b \<longleftrightarrow> htPhase t \<noteq> SP_IDLE) \<and>
     (hbActive b \<longrightarrow> validateOperationRequest VERSION_MINOR_0_1 (hbRequest b) = PR_OK \<and> htRetries t \<le> htMaxRetries t
        \<and> pkOpcode (htCommand t) = operationCode_code (oqOperation (hbRequest b)) \<and> htRequestTarget t = oqTargetId (hbRequest b)))"

text \<open>A response that the host's decoder takes and that is about the request.\<close>

definition goodResponse :: "u8 \<Rightarrow> operationRequest \<Rightarrow> operationResponse \<Rightarrow> bool" where
  "goodResponse minor q r = (validateOperationResponse minor r = PR_OK \<and> answers r q)"

lemma bridgeInv_init [simp]: "bridgeInv hubBridge_init"
  by (simp add: bridgeInv_def hubBridge_init_def hubTransaction_init_def)

lemma bridgeInv_configure [simp]: "bridgeInv (hb_configurePeerSupport support b) = bridgeInv b"
  by (simp add: bridgeInv_def hb_configurePeerSupport_def)

lemma bridgeInv_reset [simp]: "bridgeInv (hb_reset b)"
  by (simp add: bridgeInv_def hb_reset_def hubTransaction_init_def ht_configureSupport_def)

lemma answers_base [simp]: "answers (makeHostResponseBase q) q"
  by (simp add: answers_def makeHostResponseBase_def operationResponse_init_def)

lemma base_none [simp]: "opValue (makeHostResponseBase q) = setNoneValue"
  by (simp add: makeHostResponseBase_def)

lemma answers_update [simp]:
  "answers (r\<lparr>opResultClass := a\<rparr>) q = answers r q" "answers (r\<lparr>opResultCode := c\<rparr>) q = answers r q"
  "answers (r\<lparr>opValue := v\<rparr>) q = answers r q"
  by (simp_all add: answers_def)

lemma rejected_good:
  assumes "requestShape minor q" "requestRejectionCode_code code \<in> {0x01, 0x02, 0x03, 0x04, 0x08}"
  shows "goodResponse minor q ((makeHostResponseBase q)\<lparr>opResultClass := RC_REQUEST_REJECTED, opResultCode := requestRejectionCode_code code\<rparr>)"
  using assms by (auto simp: goodResponse_def intro!: response_rejected [OF assms(1)])

text \<open>What \<^verbatim>\<open>submit\<close> does when it does not transmit.\<close>

lemma hb_submit_cases:
  obtains
    (transmit) "huAction (fst (hb_submit requestId q localRole localId peerId now overallTimeout maxRetries explicitlyConfigured b)) = HA_TRANSMIT_COMMAND"
  | (reject) code where "code \<in> {RR_UNSUPPORTED_OPERATION, RR_MALFORMED_REQUEST, RR_BAD_TARGET}"
      "hb_submit requestId q localRole localId peerId now overallTimeout maxRetries explicitlyConfigured b =
        (hb_reject (hubResult_init\<lparr>huRequestId := requestId, huResponse := makeHostResponseBase q\<rparr>) code, b)"
  | (other) r where "huAction r = HA_NOT_HANDLED \<or> huAction r = HA_NOT_ACCEPTED"
      "hb_submit requestId q localRole localId peerId now overallTimeout maxRetries explicitlyConfigured b = (r, b)"
proof -
  define r0 where "r0 = hubResult_init\<lparr>huRequestId := requestId, huResponse := makeHostResponseBase q\<rparr>"
  define opc where "opc = operationCode_code (oqOperation q)"
  define c where "c = makeCommand localId peerId (hbNextSequence b) opc \<lparr>wqTargetId = oqTargetId q, wqValue = copyHostToWireValue (oqValue q)\<rparr>"
  note unf = hb_submit_def Let_def r0_def [symmetric] opc_def [symmetric] c_def [symmetric]
  obtain started t where st: "ht_begin c now overallTimeout maxRetries (hbTransaction b) = (started, t)" by fastforce
  have t: "\<not> started \<Longrightarrow> t = hbTransaction b" using st by (auto simp: ht_begin_def split: if_splits sum.splits)
  show thesis
  proof (cases "validateOperationRequest_0_1 q = PR_OK")
    case False
    then show thesis by (intro reject [of "if validateOperationRequest_0_1 q = PR_UNSUPPORTED_CATEGORY_OPERATION
        then RR_UNSUPPORTED_OPERATION else RR_MALFORMED_REQUEST"]) (simp_all add: unf)
  next
    case ok: True
    show thesis
    proof (cases "oqTargetDeviceId q = localId \<or> \<not> (localRole \<noteq> HUB \<or> oqTargetDeviceId q \<noteq> peerId) \<and> hbActive b")
      case True
      then show thesis using ok
        by (intro other [of "r0\<lparr>huAction := if oqTargetDeviceId q = localId then HA_NOT_HANDLED else HA_NOT_ACCEPTED\<rparr>"]) (auto simp: unf)
    next
      case False
      show thesis
      proof (cases "(localRole \<noteq> HUB \<or> oqTargetDeviceId q \<noteq> peerId) \<or> \<not> mayStartStructuredOperation (hbPeerSupport b) opc explicitlyConfigured")
        case True
        with False ok show thesis by (intro reject [of "if localRole \<noteq> HUB \<or> oqTargetDeviceId q \<noteq> peerId then RR_BAD_TARGET
          else RR_UNSUPPORTED_OPERATION"]) (auto simp: unf)
      next
        case go: False
        show thesis
        proof (cases "pkPayloadLength c = 0 \<or> \<not> started")
          case True
          with False go ok t show thesis by (intro other [of "r0\<lparr>huAction := HA_NOT_ACCEPTED\<rparr>"]) (auto simp: unf st)
        next
          case rest: False
          with False go ok show thesis by (intro transmit) (simp add: unf st)
        qed
      qed
    qed
  qed
qed

lemma hb_submit_answers:
  assumes shape: "requestShape minor q"
    and run: "hb_submit requestId q localRole localId peerId now overallTimeout maxRetries explicitlyConfigured b = (r, b')"
    and act: "huAction r \<noteq> HA_TRANSMIT_COMMAND"
  shows "b' = b" "huAction r = HA_HOST_RESPONSE_READY \<Longrightarrow> goodResponse minor q (huResponse r)"
proof -
  have "b' = b \<and> (huAction r = HA_HOST_RESPONSE_READY \<longrightarrow> goodResponse minor q (huResponse r))"
  proof (cases rule: hb_submit_cases [of requestId q localRole localId peerId now overallTimeout maxRetries explicitlyConfigured b])
    case transmit
    then show ?thesis using run act by simp
  next
    case (reject code)
    then show ?thesis using run rejected_good [OF shape, of code] by (auto simp: hb_reject_def)
  next
    case (other r')
    then show ?thesis using run by auto
  qed
  then show "b' = b" "huAction r = HA_HOST_RESPONSE_READY \<Longrightarrow> goodResponse minor q (huResponse r)" by auto
qed

lemma hb_submit_inv:
  assumes inv: "bridgeInv b"
    and run: "hb_submit requestId q localRole localId peerId now overallTimeout maxRetries explicitlyConfigured b = (r, b')"
    and act: "huAction r = HA_TRANSMIT_COMMAND"
  shows "bridgeInv b'"
proof -
  note sub = hb_submit_transmits [OF run act]
  have "htRetries (hbTransaction b') = 0"
    using run act by (auto simp: hb_submit_def Let_def hb_reject_def hubResult_init_def ht_begin_def ht_configureSupport_def
        split: if_split_asm sum.splits)
  then show ?thesis using sub by (simp add: bridgeInv_def)
qed

text \<open>What a step of an active bridge gives: it goes on with the same request, or it answers that request and is idle.\<close>

definition bridgeStep :: "hubBridge \<Rightarrow> hubResult \<Rightarrow> hubBridge \<Rightarrow> bool" where
  "bridgeStep b r b' = (bridgeInv b' \<and> (if hbActive b \<and> huAction r = HA_HOST_RESPONSE_READY
     then \<not> hbActive b' \<and> (\<forall>minor. goodResponse minor (hbRequest b) (huResponse r)) \<and> opResultClass (huResponse r) \<noteq> RC_REQUEST_REJECTED
     else huAction r \<in> {HA_NONE, HA_TRANSMIT_COMMAND} \<and> hbActive b' = hbActive b \<and> hbRequest b' = hbRequest b \<and> hbRequestId b' = hbRequestId b))"

lemma radio_good:
  assumes ok: "validateOperationRequest VERSION_MINOR_0_1 q = PR_OK" and code: "code \<in> {RADIO_TIMEOUT, RADIO_REMOTE_REJECTED}"
  shows "goodResponse minor q ((makeHostResponseBase q)\<lparr>opResultClass := RC_RADIO_RESULT, opResultCode := code\<rparr>)"
proof -
  have "oqCategory q \<noteq> CAT_EVENT" using valid_request(1) [OF ok] by (auto simp: isKnownOperationCategory_def isKnownOperationCategory_0_1_def)
  then show ?thesis using code
    by (auto simp: goodResponse_def intro!: response_radio [OF requestShape_0_1 [OF valid_requestShape [OF ok]]])
qed

lemma result_good:
  assumes ok: "validateOperationRequest VERSION_MINOR_0_1 q = PR_OK"
    and r: "isValidResponseSchema (operationCode_code (oqOperation q)) r"
  shows "goodResponse minor q ((makeHostResponseBase q)\<lparr>opResultClass := RC_OPERATION_RESULT,
    opResultCode := operationStatus_code (wrStatus r), opValue := copyWireToHostValue (wrValue r)\<rparr>)"
proof -
  have cat: "oqCategory q \<noteq> CAT_EVENT" using valid_request(1) [OF ok] by (auto simp: isKnownOperationCategory_def isKnownOperationCategory_0_1_def)
  have len: "unat (wvLength (wrValue r)) \<le> 22" using responseSchema_length [OF r] by simp
  have "if wrStatus r = OS_OK then isValidSuccessfulOperationValue (oqOperation q) (copyWireToHostValue (wrValue r))
      else isNoneValue (copyWireToHostValue (wrValue r))" and st: "isKnownOperationStatus (wrStatus r)"
    using r valid_request(2) [OF ok] toHostValue_copy [OF len]
    by (auto simp: isValidResponseSchema_def isValidSuccessValue_def split: if_splits)
  then show ?thesis
    by (auto simp: goodResponse_def intro!: response_operation [OF requestShape_0_1 [OF valid_requestShape [OF ok]] _ cat _ _ st])
qed

lemma decodeResponse_schema: "decodeResponse opc (Some bs) n = Inr r \<Longrightarrow> isValidResponseSchema opc r"
  by (auto simp: decodeResponse_def Let_def split: if_splits)

lemma ht_receive_cases:
  assumes "htPhase t \<noteq> SP_IDLE" "ht_receive p t = (event, t')"
  shows "event = SE_RESPONSE_COMPLETE \<and> htPhase t' = SP_IDLE \<and> isValidResponseSchema (pkOpcode (htCommand t)) (htResult t')
    \<or> event = SE_REMOTE_REJECTED \<and> htPhase t' = SP_IDLE
    \<or> event \<in> {SE_MISMATCH_IGNORED, SE_MALFORMED_IGNORED} \<and> t' = t
    \<or> event = SE_ACK_ACCEPTED \<and> t' = t\<lparr>htPhase := SP_AWAITING_RESPONSE\<rparr>"
  using assms by (auto simp: ht_receive_def Let_def dest: decodeResponse_schema split: if_splits sum.splits)

lemma hb_receive_step:
  assumes inv: "bridgeInv b" shows "bridgeStep b (fst (hb_receive p b)) (snd (hb_receive p b))"
proof (cases "hbActive b")
  case True
  obtain event t where e: "ht_receive p (hbTransaction b) = (event, t)" by fastforce
  have ok: "validateOperationRequest VERSION_MINOR_0_1 (hbRequest b) = PR_OK"
    and opc: "pkOpcode (htCommand (hbTransaction b)) = operationCode_code (oqOperation (hbRequest b))" and ph: "htPhase (hbTransaction b) \<noteq> SP_IDLE"
    using inv True by (auto simp: bridgeInv_def Let_def)
  show ?thesis
    using ht_receive_cases [OF ph e] True e inv result_good [OF ok] radio_good [OF ok, of RADIO_REMOTE_REJECTED] opc
    by (auto simp: bridgeStep_def hb_receive_def hb_finish_def hb_activeBase_def bridgeInv_def Let_def hubResult_init_def)
qed (use inv in \<open>simp add: bridgeStep_def hb_receive_def hb_activeBase_def hubResult_init_def\<close>)

lemma hb_service_step:
  assumes inv: "bridgeInv b" shows "bridgeStep b (fst (hb_service now b)) (snd (hb_service now b))"
proof (cases "hbActive b")
  case True
  have ok: "validateOperationRequest VERSION_MINOR_0_1 (hbRequest b) = PR_OK" using inv True by (auto simp: bridgeInv_def Let_def)
  have le: "htRetries (hbTransaction b) < htMaxRetries (hbTransaction b) \<Longrightarrow> htRetries (hbTransaction b) + 1 \<le> htMaxRetries (hbTransaction b)"
    by (rule inc_le)
  show ?thesis
    using True inv le radio_good [OF ok, of RADIO_TIMEOUT]
    by (auto simp: bridgeStep_def hb_service_def ht_service_def hb_finish_def hb_activeBase_def bridgeInv_def Let_def hubResult_init_def)
qed (use inv in \<open>simp add: bridgeStep_def hb_service_def hb_activeBase_def hubResult_init_def\<close>)

subsection \<open>Local operations\<close>

lemma answers_simps [simp]:
  "answers (hrResponse (setEventFailure code r)) q = answers (hrResponse r) q"
  "answers (hrResponse (setSuccess r)) q = answers (hrResponse r) q"
  "answers (hrResponse (reject requestId q rejection handled)) q"
  by (simp_all add: setEventFailure_def setSuccess_def reject_def makeBaseResult_def answers_def Let_def)

lemma he_handle_answers:
  assumes "he_handle ops diagnostics requestId q role localId l s = (r, l', s')" shows "answers (hrResponse r) q"
proof -
  define base where "base = (makeBaseResult requestId q)\<lparr>hrDisposition := D_HANDLED\<rparr>"
  have b: "answers (hrResponse base) q" "answers (hrResponse (makeBaseResult requestId q)) q"
    by (simp_all add: base_def answers_def makeBaseResult_def)
  have poll: "answers (hrResponse (fst (he_poll diagnostics base l))) q"
    using b by (auto simp: he_poll_def Let_def split: option.splits prod.splits)
  have consume: "answers (hrResponse (fst (he_consume ops base q l s))) q"
    using b by (auto simp: he_consume_def split: sum.splits prod.splits consumeStatus.splits)
  show ?thesis using assms b poll consume
    by (auto simp: he_handle_def Let_def base_def [symmetric] split: if_splits prod.splits)
qed

text \<open>A request of the event category exists in version 0.2 only.\<close>

lemma event_minor:
  assumes "validateOperationRequest minor q = PR_OK" "oqCategory q = CAT_EVENT"
  shows "minor = VERSION_MINOR_0_2"
  using valid_request(1) [OF assms(1)] assms(2)
  by (auto simp: isKnownOperationCategory_def isKnownOperationCategory_0_1_def split: if_splits)

definition deviceWf :: "('h, 's) device \<Rightarrow> bool" where
  "deviceWf dv = (length (tsCounters (dtTxLifecycle (dsEventDetails (dvSnapshot dv)))) = COUNTER_COUNT)"

lemma handleLocalOperation_good:
  assumes run: "handleLocalOperation requestId q snapshot registryValid registry handler interlock availability minor env = (r, env')"
    and counters: "length (tsCounters (dtTxLifecycle (dsEventDetails snapshot))) = COUNTER_COUNT"
    and h: "hrDisposition r = D_HANDLED"
  shows "goodResponse minor q (hrResponse r)"
proof -
  have "answers (hrResponse r) q"
  proof (cases "oqCategory q = CAT_CAPABILITY")
    case True
    with run have "handleLocalCapability requestId q (dsDeviceId snapshot) registryValid registry handler interlock availability env = (r, env')"
      by (simp add: handleLocalOperation_def)
    from handleLocalCapability_answer [OF this h] show ?thesis by (auto simp: operationAnswer_def rejectedAnswer_def)
  next
    case False
    with run have "handleLocalDeviceOrDiagnostic requestId q snapshot minor = r" by (simp add: handleLocalOperation_def)
    from handleLocalDevice_answer [OF this h counters] show ?thesis by (auto simp: operationAnswer_def rejectedAnswer_def)
  qed
  with handleLocalOperation_valid [OF run h counters] show ?thesis by (simp add: goodResponse_def)
qed

lemma disposition_simps [simp]:
  "hrDisposition (setOperationResult st r) = D_HANDLED" "hrDisposition (setResponseValue v r) = hrDisposition r"
  "hrDisposition (reject requestId q rejection handled) = (if handled then D_HANDLED else D_REJECTED)"
  "hrRejectionCode (reject requestId q rejection handled) = rejection"
  by (simp_all add: setOperationResult_def setResponseValue_def reject_def Let_def)

lemma respondWith_disposition [simp]: "hrDisposition r = D_HANDLED \<Longrightarrow> hrDisposition (respondWith v r) = D_HANDLED"
  by (simp add: respondWith_def split: sum.splits)

lemma capability_disposition [simp]:
  "hrDisposition r = D_HANDLED \<Longrightarrow> hrDisposition (getCapabilitiesResult v registry q r) = D_HANDLED"
  "hrDisposition r = D_HANDLED \<Longrightarrow> hrDisposition (describeCapabilityResult v registry availability q r) = D_HANDLED"
  by (auto simp: getCapabilitiesResult_def describeCapabilityResult_def Let_def split: option.splits prod.splits)

lemma handleLocalCapability_code:
  assumes run: "handleLocalCapability requestId q localId registryValid registry handler interlock availability env = (r, env')"
    and r: "hrDisposition r = D_REJECTED"
  shows "hrRejectionCode r \<in> {RR_UNSUPPORTED_OPERATION, RR_MALFORMED_REQUEST}"
proof -
  define base where "base = (makeBaseResult requestId q)\<lparr>hrDisposition := D_HANDLED\<rparr>"
  have b: "hrDisposition base = D_HANDLED" by (simp add: base_def)
  show ?thesis using run r b
    by (simp add: handleLocalCapability_def Let_def base_def [symmetric] split: if_split_asm option.splits prod.splits) auto
qed

lemma handleLocalDevice_code:
  assumes "hrDisposition (handleLocalDeviceOrDiagnostic requestId q snapshot minor) = D_REJECTED"
  shows "hrRejectionCode (handleLocalDeviceOrDiagnostic requestId q snapshot minor) \<in> {RR_UNSUPPORTED_OPERATION, RR_MALFORMED_REQUEST}"
  using assms
  by (simp add: handleLocalDeviceOrDiagnostic_def Let_def deviceInfo_def deviceStatus_def diagnosticPage_def split: if_split_asm option.splits prod.splits)

lemma handleLocalOperation_code:
  assumes "handleLocalOperation requestId q snapshot registryValid registry handler interlock availability minor env = (r, env')"
  shows "hrDisposition r = D_REJECTED \<longrightarrow> hrRejectionCode r \<in> {RR_UNSUPPORTED_OPERATION, RR_MALFORMED_REQUEST}"
  using assms handleLocalCapability_code [of requestId q "dsDeviceId snapshot" registryValid registry handler interlock availability env r env']
    handleLocalDevice_code [of requestId q snapshot minor]
  by (cases "oqCategory q = CAT_CAPABILITY") (auto simp: handleLocalOperation_def)

lemma handleLocal_good:
  assumes ok: "validateOperationRequest minor q = PR_OK" and wf: "deviceWf dv"
    and run: "handleLocal dv requestId q minor w = (r, w')"
  shows "hrDisposition r = D_HANDLED \<Longrightarrow> goodResponse minor q (hrResponse r)"
    and "hrDisposition r = D_REJECTED \<Longrightarrow> hrRejectionCode r \<in> {RR_UNSUPPORTED_OPERATION, RR_MALFORMED_REQUEST}"
proof -
  have "(hrDisposition r = D_HANDLED \<longrightarrow> goodResponse minor q (hrResponse r)) \<and>
    (hrDisposition r = D_REJECTED \<longrightarrow> hrRejectionCode r \<in> {RR_UNSUPPORTED_OPERATION, RR_MALFORMED_REQUEST})"
  proof (cases "oqCategory q = CAT_EVENT")
    case True
    have m: "minor = VERSION_MINOR_0_2" by (rule event_minor [OF ok True])
    show ?thesis
    proof (cases "dvEventService dv")
      case None
      have "goodResponse minor q (hrResponse (reject requestId q c True))" if "c \<noteq> RR_NONE" for c
        using reject_valid [OF valid_requestShape [OF ok] that] by (simp add: goodResponse_def)
      with None True run show ?thesis by (auto simp: handleLocal_def)
    next
      case (Some diagnostics)
      obtain l s where h: "he_handle (dvStorage dv) diagnostics requestId q (dsRole (dvSnapshot dv)) (dsDeviceId (dvSnapshot dv))
          (hwLedger w) (hwStore w) = (r, l, s)"
        using run True Some by (auto simp: handleLocal_def split: prod.splits)
      from he_handle_valid [OF ok [unfolded m] True h] he_handle_answers [OF h] m show ?thesis by (simp add: goodResponse_def)
    qed
  next
    case False
    then obtain env where h: "handleLocalOperation requestId q (dvSnapshot dv) (dvRegistryValid dv) (dvRegistry dv) (dvHandler dv)
        (dvInterlock dv) (dvAvailability dv) minor (hwEnv w) = (r, env)"
      using run by (auto simp: handleLocal_def split: prod.splits)
    then have "hrDisposition r = D_REJECTED \<longrightarrow> hrRejectionCode r \<in> {RR_UNSUPPORTED_OPERATION, RR_MALFORMED_REQUEST}"
      by (rule handleLocalOperation_code)
    then show ?thesis using handleLocalOperation_good [OF h] wf by (auto simp: deviceWf_def)
  qed
  then show "hrDisposition r = D_HANDLED \<Longrightarrow> goodResponse minor q (hrResponse r)"
    "hrDisposition r = D_REJECTED \<Longrightarrow> hrRejectionCode r \<in> {RR_UNSUPPORTED_OPERATION, RR_MALFORMED_REQUEST}" by auto
qed

subsection \<open>The lifecycle's invariant\<close>

text \<open>The request that the retained entry stands for.\<close>

definition entryRequest :: "retainedEntry \<Rightarrow> payloadResult + operationRequest" where
  "entryRequest e = decodeOperationRequest (enRequestMinor e) (Some (enRequestPayload e)) (unat (enRequestPayloadLength e))"

definition lifecycleInv :: "lifecycle \<Rightarrow> bool" where
  "lifecycleInv c = (bridgeInv (lcBridge c) \<and> (lcState c = LS_ACTIVE \<longleftrightarrow> hbActive (lcBridge c))
     \<and> length (enRequestPayload (lcEntry c)) = HOST_MAX_PAYLOAD_SIZE
     \<and> (lcState c = LS_ACTIVE \<longrightarrow> entryRequest (lcEntry c) = Inr (hbRequest (lcBridge c)))
     \<and> (lcState c = LS_COMPLETED \<longrightarrow> (\<exists>q. entryRequest (lcEntry c) = Inr q
          \<and> goodResponse (enRequestMinor (lcEntry c)) q (enResponse (lcEntry c)))
          \<and> opResultClass (enResponse (lcEntry c)) \<noteq> RC_REQUEST_REJECTED))"

lemma lifecycleInv_init [simp]: "lifecycleInv lifecycle_init"
  by (simp add: lifecycleInv_def lifecycle_init_def hubBridge_init_def retainedEntry_init_def)
    (simp add: hubBridge_init_def [symmetric])

lemma lifecycleInv_connection [simp]:
  "lifecycleInv (onHostDisconnect c) = lifecycleInv c" "lifecycleInv (onHostReconnect c) = lifecycleInv c"
  by (simp_all add: lifecycleInv_def onHostDisconnect_def onHostReconnect_def)

lemma lifecycleInv_configure [simp]:
  "lifecycleInv (c\<lparr>lcBridge := hb_configurePeerSupport support (lcBridge c)\<rparr>) = lifecycleInv c"
  by (simp add: lifecycleInv_def) (simp add: hb_configurePeerSupport_def)

text \<open>A request depends on its bytes only; the minor version decides whether it is accepted.\<close>

lemma decode_bytes:
  assumes dec: "decodeOperationRequest minor (Some bs) n = Inr q" and same: "\<forall>k<n. bs' ! k = bs ! k"
    and len: "n \<le> length bs" "n \<le> length bs'"
  shows "decodeOperationRequest minor (Some bs') n = Inr q"
proof -
  have n: "7 \<le> n" "n = 7 + unat (bs ! 6)" using dec by (auto simp: decodeOperationRequest_def Let_def split: if_splits)
  have "copyBytes (fillZero 121) 0 (drop 7 bs') (unat (bs ! 6)) = copyBytes (fillZero 121) 0 (drop 7 bs) (unat (bs ! 6))"
    by (rule nth_equalityI) (use n same len in \<open>auto simp: nth_copyBytes\<close>)
  then have v: "receivedValue t (bs ! 6) 7 bs' = receivedValue t (bs ! 6) 7 bs" for t by (simp add: receivedValue_def)
  have le: "getLe16 bs' 3 = getLe16 bs 3" using n same by (simp add: getLe16_def)
  have "decodeOperationRequest minor (Some bs') n = decodeOperationRequest minor (Some bs) n"
    using n(1) same le v by (simp add: decodeOperationRequest_def Let_def cong: if_cong)
  then show ?thesis using dec by simp
qed

lemma decode_minor:
  "decodeOperationRequest m (Some bs) n = Inr q \<Longrightarrow> decodeOperationRequest m' (Some bs) n = Inr q' \<Longrightarrow> q' = q"
  by (auto simp: decodeOperationRequest_def Let_def split: if_splits)

lemma decode_valid: "decodeOperationRequest m (Some bs) n = Inr q \<Longrightarrow> validateOperationRequest m q = PR_OK \<and> n \<le> 128"
  by (auto simp: decodeOperationRequest_def Let_def split: if_splits)

lemma accepted_request:
  assumes dec: "decodeOperationRequest minor (Some bs) n = Inr q" and len: "n \<le> length bs"
  shows "entryRequest (lcEntry (acceptIdentity requestId minor bs n c)) = Inr q"
proof -
  have n: "n \<le> 128" using decode_valid [OF dec] by simp
  then have "unat (of_nat n :: u8) = n" by (simp add: unat_of_nat_u8)
  moreover have "decodeOperationRequest minor (Some (copyBytes (fillZero 128) 0 bs n)) n = Inr q"
    by (rule decode_bytes [OF dec]) (use n len in \<open>auto simp: nth_copyBytes\<close>)
  ultimately show ?thesis by (simp add: entryRequest_def acceptIdentity_def retainedEntry_init_def)
qed

text \<open>The results that carry a response, whether or not the host is there to take it.\<close>

definition responds :: "lifecycleResult \<Rightarrow> bool" where
  "responds r = (laAction r \<in> {LA_HOST_RESPONSE_READY, LA_HOST_RESPONSE_SUPPRESSED, LA_RESPONSE_RETAINED})"

definition resultGood :: "operationRequest \<Rightarrow> u16 \<Rightarrow> lifecycleResult \<Rightarrow> bool" where
  "resultGood q requestId r = (responds r \<longrightarrow> goodResponse (laResponseMinor r) q (laResponse r) \<and> laRequestId r = requestId)"

lemma lc_rejection_good:
  assumes ok: "validateOperationRequest minor q = PR_OK" and code: "code \<noteq> RR_NONE"
  shows "resultGood q requestId (lc_rejection requestId q minor code c)"
  using rejected_good [OF valid_requestShape [OF ok], of code] code
  by (cases code) (auto simp: resultGood_def lc_rejection_def)

lemma completed_inv:
  assumes inv: "bridgeInv (lcBridge c)" "\<not> hbActive (lcBridge c)"
    and e: "entryRequest (lcEntry c) = Inr q" "goodResponse (enRequestMinor (lcEntry c)) q response" "opResultClass response \<noteq> RC_REQUEST_REJECTED"
      "length (enRequestPayload (lcEntry c)) = HOST_MAX_PAYLOAD_SIZE"
  shows "lifecycleInv (completeEntry response c)"
  using assms by (simp add: lifecycleInv_def completeEntry_def entryRequest_def)

lemma lc_submitLocal_good:
  assumes inv: "lifecycleInv c" and idle: "lcState c \<noteq> LS_ACTIVE" and wf: "deviceWf dv"
    and dec: "decodeOperationRequest minor (Some bs) n = Inr q" and len: "n \<le> length bs"
    and run: "lc_submitLocal dv requestId bs n q minor c w = (r, c', w')"
  shows "lifecycleInv c' \<and> resultGood q requestId r"
proof -
  have ok: "validateOperationRequest minor q = PR_OK" using decode_valid [OF dec] by simp
  obtain h w1 where h: "handleLocal dv requestId q minor w = (h, w1)" by fastforce
  note good = handleLocal_good [OF ok wf h]
  define c1 where "c1 = acceptIdentity requestId minor bs n c"
  have c1: "lcBridge c1 = lcBridge c" "enRequestMinor (lcEntry c1) = minor" "entryRequest (lcEntry c1) = Inr q"
    "length (enRequestPayload (lcEntry c1)) = HOST_MAX_PAYLOAD_SIZE"
    using accepted_request [OF dec len] by (simp_all add: c1_def acceptIdentity_def)
  consider (not) "hrDisposition h \<noteq> D_HANDLED" | (rejected) "hrDisposition h = D_HANDLED" "opResultClass (hrResponse h) = RC_REQUEST_REJECTED"
    | (ok) "hrDisposition h = D_HANDLED" "opResultClass (hrResponse h) \<noteq> RC_REQUEST_REJECTED" by blast
  then show ?thesis
  proof cases
    case not
    define code where "code = (if hrDisposition h = D_NOT_HANDLED then RR_UNSUPPORTED_OPERATION else hrRejectionCode h)"
    have "code \<noteq> RR_NONE" using not good(2) by (cases "hrDisposition h") (auto simp: code_def)
    from lc_rejection_good [OF ok this, of requestId c] not inv run h show ?thesis by (auto simp: lc_submitLocal_def code_def)
  next
    case rejected
    then show ?thesis using good(1) inv run h by (auto simp: lc_submitLocal_def resultGood_def lifecycleResult_init_def Let_def)
  next
    case ok
    have "lifecycleInv (completeEntry (hrResponse h) c1)"
      by (rule completed_inv [of c1 q]) (use inv idle c1 ok good(1) in \<open>auto simp: lifecycleInv_def\<close>)
    then show ?thesis using ok good(1) run h
      by (auto simp: lc_submitLocal_def resultGood_def lifecycleResult_init_def Let_def c1_def [symmetric]) (simp_all add: completeEntry_def)
  qed
qed

lemma lc_submitRemote_good:
  assumes inv: "lifecycleInv c" and idle: "lcState c \<noteq> LS_ACTIVE"
    and dec: "decodeOperationRequest minor (Some bs) n = Inr q" and len: "n \<le> length bs"
    and run: "lc_submitRemote dv requestId bs n q now overallTimeout maxRetries explicitlyConfigured minor c = (r, c')"
  shows "lifecycleInv c' \<and> resultGood q requestId r"
proof -
  have ok: "validateOperationRequest minor q = PR_OK" using decode_valid [OF dec] by simp
  have binv: "bridgeInv (lcBridge c)" using inv by (simp add: lifecycleInv_def)
  obtain h b where h: "hb_submit requestId q (dsRole (dvSnapshot dv)) (dsDeviceId (dvSnapshot dv)) (dvPeerId dv) now overallTimeout
      maxRetries explicitlyConfigured (lcBridge c) = (h, b)" by fastforce
  show ?thesis
  proof (cases "huAction h = HA_TRANSMIT_COMMAND")
    case True
    note sub = hb_submit_transmits [OF h True]
    have "lifecycleInv (acceptIdentity requestId minor bs n (c\<lparr>lcBridge := b\<rparr>))"
      using accepted_request [OF dec len, of requestId "c\<lparr>lcBridge := b\<rparr>"] hb_submit_inv [OF binv h True] sub(6,7)
      by (simp add: lifecycleInv_def) (simp add: acceptIdentity_def)
    then show ?thesis using run h True by (auto simp: lc_submitRemote_def Let_def resultGood_def responds_def)
  next
    case False
    note ans = hb_submit_answers [OF valid_requestShape [OF ok] h False]
    then show ?thesis using run h False inv
      by (auto simp: lc_submitRemote_def Let_def resultGood_def responds_def lifecycleResult_init_def split: if_splits)
  qed
qed

lemma lc_submit_good:
  assumes inv: "lifecycleInv c" and wf: "deviceWf dv" and len: "n \<le> length bs"
    and run: "lc_submit dv requestId (Some bs) n now overallTimeout maxRetries explicitlyConfigured minor c w = (r, c', w')"
  shows "lifecycleInv c' \<and> (responds r \<longrightarrow> (\<exists>q. decodeOperationRequest minor (Some bs) n = Inr q \<and> resultGood q requestId r))"
proof (cases "\<not> isValidRequestId requestId \<or> n > HOST_MAX_PAYLOAD_SIZE \<or> isl (decodeOperationRequest minor (Some bs) n)")
  case True
  then have "lc_submit dv requestId (Some bs) n now overallTimeout maxRetries explicitlyConfigured minor c w =
      (lifecycleResult_init\<lparr>laRequestId := requestId, laResponseMinor := minor, laAction := LA_INVALID_REQUEST\<rparr>, c, w)"
    by (cases "decodeOperationRequest minor (Some bs) n") (auto simp: lc_submit_def Let_def)
  then show ?thesis using run inv by (auto simp: responds_def)
next
  case False
  then obtain q where dec: "decodeOperationRequest minor (Some bs) n = Inr q" by (cases "decodeOperationRequest minor (Some bs) n") auto
  have ok: "validateOperationRequest minor q = PR_OK" using decode_valid [OF dec] by simp
  note unf = lc_submit_def Let_def dec
  consider (known) "lcState c \<noteq> LS_EMPTY" "requestId = enRequestId (lcEntry c)"
    | (busy) "\<not> (lcState c \<noteq> LS_EMPTY \<and> requestId = enRequestId (lcEntry c))" "lcState c = LS_ACTIVE"
    | (new) "\<not> (lcState c \<noteq> LS_EMPTY \<and> requestId = enRequestId (lcEntry c))" "lcState c \<noteq> LS_ACTIVE" by blast
  then have "lifecycleInv c' \<and> resultGood q requestId r"
  proof cases
    case known
    consider (other) "\<not> samePayload bs n c" | (active) "samePayload bs n c" "lcState c = LS_ACTIVE" | (again) "samePayload bs n c" "lcState c = LS_COMPLETED"
      using known by (cases "lcState c") auto
    then show ?thesis
    proof cases
      case other
      then show ?thesis using False known run inv lc_rejection_good [OF ok, of RR_MISMATCH requestId c] by (auto simp: unf)
    next
      case active
      then show ?thesis using False known run inv by (auto simp: unf resultGood_def responds_def)
    next
      case again
      obtain q' where q': "entryRequest (lcEntry c) = Inr q'" "goodResponse (enRequestMinor (lcEntry c)) q' (enResponse (lcEntry c))"
        using inv again by (auto simp: lifecycleInv_def)
      have "decodeOperationRequest minor (Some (enRequestPayload (lcEntry c))) n = Inr q"
        by (rule decode_bytes [OF dec]) (use again len inv decode_valid [OF dec] in \<open>auto simp: samePayload_def sameBytes_nth lifecycleInv_def\<close>)
      then have "q' = q" using decode_minor q'(1) again by (auto simp: entryRequest_def samePayload_def)
      then show ?thesis using False known run inv again q'
        by (auto simp: unf resultGood_def lifecycleResult_init_def)
    qed
  next
    case busy
    then show ?thesis using False run inv lc_rejection_good [OF ok, of RR_BUSY requestId c] by (auto simp: unf)
  next
    case new
    show ?thesis
    proof (cases "oqTargetDeviceId q = dsDeviceId (dvSnapshot dv) \<or> oqCategory q = CAT_EVENT")
      case True
      then have "lc_submitLocal dv requestId bs n q minor c w = (r, c', w')" using False new run by (auto simp: unf)
      from lc_submitLocal_good [OF inv new(2) wf dec len this] show ?thesis .
    next
      case far: False
      then have "lc_submitRemote dv requestId bs n q now overallTimeout maxRetries explicitlyConfigured minor c = (r, c')"
        using False new run by (auto simp: unf split: prod.splits)
      from lc_submitRemote_good [OF inv new(2) dec len this] show ?thesis .
    qed
  qed
  then show ?thesis using dec by blast
qed

lemma lc_consumeRemote_good:
  assumes inv: "lifecycleInv c" and step: "bridgeStep (lcBridge c) h b"
    and run: "lc_consumeRemote h (c\<lparr>lcBridge := b\<rparr>) = (r, c')"
  shows "lifecycleInv c' \<and> (responds r \<longrightarrow> (\<exists>q. entryRequest (lcEntry c) = Inr q \<and> resultGood q (enRequestId (lcEntry c)) r
      \<and> lcState c = LS_ACTIVE \<and> lcState c' = LS_COMPLETED \<and> enResponse (lcEntry c') = laResponse r))"
proof (cases "lcState c = LS_ACTIVE")
  case False
  then have "\<not> hbActive (lcBridge c)" "r = lifecycleResult_init" "c' = c\<lparr>lcBridge := b\<rparr>" using inv run by (auto simp: lifecycleInv_def lc_consumeRemote_def)
  then show ?thesis using inv step by (auto simp: lifecycleInv_def bridgeStep_def responds_def lifecycleResult_init_def)
next
  case True
  then have act: "hbActive (lcBridge c)" and q: "entryRequest (lcEntry c) = Inr (hbRequest (lcBridge c))" using inv by (auto simp: lifecycleInv_def)
  show ?thesis
  proof (cases "huAction h = HA_HOST_RESPONSE_READY")
    case ready: True
    have good: "\<not> hbActive b" "\<forall>minor. goodResponse minor (hbRequest (lcBridge c)) (huResponse h)"
      "opResultClass (huResponse h) \<noteq> RC_REQUEST_REJECTED" "bridgeInv b" using step ready act by (auto simp: bridgeStep_def)
    have "lifecycleInv (completeEntry (huResponse h) (c\<lparr>lcBridge := b\<rparr>))"
      by (rule completed_inv [of _ "hbRequest (lcBridge c)"]) (use good q inv in \<open>auto simp: lifecycleInv_def\<close>)
    then show ?thesis using run ready True good q
      by (auto simp: lc_consumeRemote_def Let_def resultGood_def completeEntry_def lifecycleResult_init_def)
  next
    case False
    then have same: "hbActive b" "hbRequest b = hbRequest (lcBridge c)" "bridgeInv b" using step act by (auto simp: bridgeStep_def split: if_splits)
    have "c' = c\<lparr>lcBridge := b\<rparr> \<and> \<not> responds r"
      using run True False by (auto simp: lc_consumeRemote_def Let_def responds_def lifecycleResult_init_def split: if_splits)
    then show ?thesis using same inv True by (auto simp: lifecycleInv_def)
  qed
qed

lemma lc_receive_good:
  assumes inv: "lifecycleInv c" and run: "lc_receive p c = (r, c')"
  shows "lifecycleInv c' \<and> (responds r \<longrightarrow> (\<exists>q. entryRequest (lcEntry c) = Inr q \<and> resultGood q (enRequestId (lcEntry c)) r
      \<and> lcState c = LS_ACTIVE \<and> lcState c' = LS_COMPLETED \<and> enResponse (lcEntry c') = laResponse r))"
proof (rule lc_consumeRemote_good [OF inv])
  show "bridgeStep (lcBridge c) (fst (hb_receive p (lcBridge c))) (snd (hb_receive p (lcBridge c)))"
    by (rule hb_receive_step) (use inv in \<open>simp add: lifecycleInv_def\<close>)
  show "lc_consumeRemote (fst (hb_receive p (lcBridge c))) (c\<lparr>lcBridge := snd (hb_receive p (lcBridge c))\<rparr>) = (r, c')"
    using run by (simp add: lc_receive_def case_prod_beta)
qed

lemma lc_service_good:
  assumes inv: "lifecycleInv c" and run: "lc_service now c = (r, c')"
  shows "lifecycleInv c' \<and> (responds r \<longrightarrow> (\<exists>q. entryRequest (lcEntry c) = Inr q \<and> resultGood q (enRequestId (lcEntry c)) r
      \<and> lcState c = LS_ACTIVE \<and> lcState c' = LS_COMPLETED \<and> enResponse (lcEntry c') = laResponse r))"
proof (rule lc_consumeRemote_good [OF inv])
  show "bridgeStep (lcBridge c) (fst (hb_service now (lcBridge c))) (snd (hb_service now (lcBridge c)))"
    by (rule hb_service_step) (use inv in \<open>simp add: lifecycleInv_def\<close>)
  show "lc_consumeRemote (fst (hb_service now (lcBridge c))) (c\<lparr>lcBridge := snd (hb_service now (lcBridge c))\<rparr>) = (r, c')"
    using run by (simp add: lc_service_def case_prod_beta)
qed

text \<open>A response that is no rejection is the one of the retained entry.\<close>

definition retains :: "u16 \<Rightarrow> bytes \<Rightarrow> nat \<Rightarrow> lifecycleResult \<Rightarrow> lifecycle \<Rightarrow> bool" where
  "retains requestId bs n r c = (lcState c = LS_COMPLETED \<and> enRequestId (lcEntry c) = requestId \<and> samePayload bs n c
     \<and> enResponse (lcEntry c) = laResponse r \<and> enRequestMinor (lcEntry c) = laResponseMinor r)"

lemma rejection_class [simp]: "opResultClass (laResponse (lc_rejection requestId q minor code c)) = RC_REQUEST_REJECTED"
  by (simp add: lc_rejection_def)

lemma lc_submitLocal_retains:
  assumes run: "lc_submitLocal dv requestId bs n q minor c w = (r, c1, w1)" and n: "n \<le> 128"
    and resp: "opResultClass (laResponse r) \<noteq> RC_REQUEST_REJECTED"
  shows "retains requestId bs n r c1"
proof -
  obtain h w2 where h: "handleLocal dv requestId q minor w = (h, w2)" by fastforce
  have "unat (of_nat n :: u8) = n" using n by (simp add: unat_of_nat_u8)
  moreover have "sameBytes bs (copyBytes (fillZero 128) 0 bs n) n" using n by (simp add: sameBytes_nth nth_copyBytes)
  moreover have "hrDisposition h = D_HANDLED" "opResultClass (hrResponse h) \<noteq> RC_REQUEST_REJECTED"
    using run h resp by (auto simp: lc_submitLocal_def Let_def lifecycleResult_init_def split: if_splits)
  ultimately show ?thesis using run h
    by (auto simp: lc_submitLocal_def Let_def retains_def completeEntry_def acceptIdentity_def samePayload_def lifecycleResult_init_def)
qed

lemma lc_submitRemote_retains:
  assumes run: "lc_submitRemote dv requestId bs n q now overallTimeout maxRetries explicitlyConfigured minor c = (r, c1)"
  shows "\<not> responds r \<or> opResultClass (laResponse r) = RC_REQUEST_REJECTED"
proof (cases rule: hb_submit_cases [of requestId q "dsRole (dvSnapshot dv)" "dsDeviceId (dvSnapshot dv)" "dvPeerId dv" now overallTimeout
    maxRetries explicitlyConfigured "lcBridge c"])
  case transmit
  then show ?thesis using run by (auto simp: lc_submitRemote_def Let_def responds_def split: prod.splits)
next
  case (reject code)
  then show ?thesis using run by (auto simp: lc_submitRemote_def Let_def hb_reject_def)
next
  case (other h)
  then show ?thesis using run by (auto simp: lc_submitRemote_def Let_def responds_def)
qed

lemma lc_submit_retains:
  assumes run: "lc_submit dv requestId (Some bs) n now overallTimeout maxRetries explicitlyConfigured minor c w = (r, c1, w1)"
    and resp: "responds r" "opResultClass (laResponse r) \<noteq> RC_REQUEST_REJECTED"
  shows "isValidRequestId requestId \<and> n \<le> 128 \<and> (\<exists>q. decodeOperationRequest minor (Some bs) n = Inr q) \<and> retains requestId bs n r c1"
proof (cases "\<not> isValidRequestId requestId \<or> n > HOST_MAX_PAYLOAD_SIZE \<or> isl (decodeOperationRequest minor (Some bs) n)")
  case True
  then have "\<not> responds r"
    using run by (cases "decodeOperationRequest minor (Some bs) n") (auto simp: lc_submit_def Let_def responds_def split: if_splits)
  then show ?thesis using resp by simp
next
  case False
  then obtain q where dec: "decodeOperationRequest minor (Some bs) n = Inr q" by (cases "decodeOperationRequest minor (Some bs) n") auto
  note unf = lc_submit_def Let_def dec
  have n: "n \<le> 128" using False by simp
  have "retains requestId bs n r c1"
  proof (cases "lcState c \<noteq> LS_EMPTY \<and> requestId = enRequestId (lcEntry c)")
    case True
    have same: "samePayload bs n c" by (rule ccontr) (use True False run resp in \<open>auto simp: unf\<close>)
    have "lcState c \<noteq> LS_ACTIVE" by (rule notI) (use True False run resp same in \<open>auto simp: unf responds_def\<close>)
    then have "lcState c = LS_COMPLETED" using True by (cases "lcState c") auto
    then show ?thesis using True False run same by (auto simp: unf retains_def lifecycleResult_init_def)
  next
    case new: False
    have idle: "lcState c \<noteq> LS_ACTIVE" by (rule notI) (use new False run resp in \<open>auto simp: unf\<close>)
    show ?thesis
    proof (cases "oqTargetDeviceId q = dsDeviceId (dvSnapshot dv) \<or> oqCategory q = CAT_EVENT")
      case True
      then have "lc_submitLocal dv requestId bs n q minor c w = (r, c1, w1)" using False new idle run by (auto simp: unf)
      from lc_submitLocal_retains [OF this n resp(2)] show ?thesis .
    next
      case far: False
      then have "lc_submitRemote dv requestId bs n q now overallTimeout maxRetries explicitlyConfigured minor c = (r, c1)"
        using False new idle run by (auto simp: unf split: prod.splits)
      from lc_submitRemote_retains [OF this] resp show ?thesis by simp
    qed
  qed
  then show ?thesis using False n dec by auto
qed

subsection \<open>Runs\<close>

text \<open>
  The states that the lifecycle reaches.  A request payload is at least as long as announced, the snapshot of the device has
  all its counters, and the device itself (\<open>w\<close>) may change in any way between two calls.
\<close>

inductive lifecycleRun :: "lifecycle \<Rightarrow> ('h, 's) hostWorld \<Rightarrow> bool" where
  start: "lifecycleRun lifecycle_init w"
| submit: "lifecycleRun c w \<Longrightarrow> deviceWf dv \<Longrightarrow> n \<le> length bs \<Longrightarrow>
    lc_submit dv requestId (Some bs) n now overallTimeout maxRetries explicitlyConfigured minor c w = (r, c', w') \<Longrightarrow> lifecycleRun c' w'"
| receive: "lifecycleRun c w \<Longrightarrow> lc_receive p c = (r, c') \<Longrightarrow> lifecycleRun c' w"
| service: "lifecycleRun c w \<Longrightarrow> lc_service now c = (r, c') \<Longrightarrow> lifecycleRun c' w"
| disconnect: "lifecycleRun c w \<Longrightarrow> lifecycleRun (onHostDisconnect c) w"
| reconnect: "lifecycleRun c w \<Longrightarrow> lifecycleRun (onHostReconnect c) w"
| configure: "lifecycleRun c w \<Longrightarrow> lifecycleRun (c\<lparr>lcBridge := hb_configurePeerSupport support (lcBridge c)\<rparr>) w"
| reset: "lifecycleRun c w \<Longrightarrow> lifecycleRun (lc_reset c) w"
| device: "lifecycleRun c w \<Longrightarrow> lifecycleRun c w'"

lemma lifecycleRun_inv: "lifecycleRun c w \<Longrightarrow> lifecycleInv c"
proof (induction rule: lifecycleRun.induct)
  case (submit c w dv n bs requestId now overallTimeout maxRetries explicitlyConfigured minor r c' w')
  from lc_submit_good [OF submit.IH submit.hyps(2,3,4)] show ?case by simp
next
  case (receive c w p r c')
  from lc_receive_good [OF receive.IH receive.hyps(2)] show ?case by simp
next
  case (service c w now r c')
  from lc_service_good [OF service.IH service.hyps(2)] show ?case by simp
qed (simp_all add: lc_reset_def)

end
