(* ===== verification/OperationProperties.thy ===== *)
theory OperationProperties
  imports HostLifecycleRuns
begin

text \<open>
  The properties of the operation stack: the host's messages, the services that answer them, the radio bridge and the
  operation lifecycle.  The first part holds the concrete device and messages that the witnesses use.
\<close>

subsection \<open>A concrete device\<close>

definition sampleTx :: txSnapshot where
  "sampleTx = \<lparr>tsAvailable = False, tsLastStep = 0, tsControllerState = 0, tsRadioOwner = 0, tsAttempt = 0, tsSource = 0, tsEpoch = 0,
     tsId = 0, tsLastAt = 0, tsStartAt = 0, tsCompletedAt = 0, tsPreviousClock = 0, tsInputClock = 0, tsStartResult = 0,
     tsAdmissionStatus = 0, tsCounters = replicate COUNTER_COUNT 0\<rparr>"

definition sampleDetails :: eventDetailSnapshot where
  "sampleDetails = \<lparr>dtTxLifecycle = sampleTx, dtCustodyCount = 0, dtCapacity = 0, dtActiveCount = 0, dtConsumedCount = 0,
     dtRecordAvailable = False, dtState = EDS_EMPTY, dtIdentity = eventIdentitySnapshot_init, dtFamily = 0, dtAttemptsUsed = 0,
     dtAttemptsMaximum = 0, dtWaitingForAdmission = False, dtWaitingForRetry = False, dtRemainingLifetimeAvailable = False,
     dtRemainingLifetimeSeconds = 0, dtAdmissionOrdinalAvailable = False, dtAdmissionOrdinal = 0, dtRecentAdmissionAvailable = False,
     dtRecentAdmission = eventIdentitySnapshot_init, dtPersistenceDegraded = False, dtHubUnavailable = False,
     dtLastProducer = eventProducerSnapshot_init, dtCounters = eventDiagnosticCounters_init\<rparr>"

text \<open>The device with the given role and address, 77 seconds after its start.\<close>

definition sampleSnapshot :: "deviceRole \<Rightarrow> u8 \<Rightarrow> deviceSnapshot" where
  "sampleSnapshot role i = makeDeviceSnapshot (rtState_new role i 0) 77 sampleDetails"

definition pingRequest :: operationRequest where
  "pingRequest = \<lparr>oqCategory = CAT_DEVICE, oqOperation = operationCode.PING, oqTargetDeviceId = 2, oqTargetId = 0, oqValue = setNoneValue\<rparr>"

lemma sampleSnapshot_simps [simp]:
  "dsDeviceId (sampleSnapshot role i) = i" "dsRole (sampleSnapshot role i) = role" "dsUptimeSeconds (sampleSnapshot role i) = 77"
  "length (tsCounters (dtTxLifecycle (dsEventDetails (sampleSnapshot role i)))) = COUNTER_COUNT"
  by (simp_all add: sampleSnapshot_def makeDeviceSnapshot_def rtState_new_def sampleDetails_def sampleTx_def)

subsection \<open>The Node's half of the bridge\<close>

text \<open>The states that the Node's processor reaches; received packets have their full payload array.\<close>

inductive nodeRun :: "nodeProcessor \<Rightarrow> 's deviceEnv \<Rightarrow> bool" where
  start: "nodeRun nodeProcessor_init env"
| admit: "nodeRun n env \<Longrightarrow> packet_wf c \<Longrightarrow> nodeRun (snd (nx_admit c localId peerId n)) env"
| execute: "nodeRun n env \<Longrightarrow> length (tsCounters (dtTxLifecycle (dsEventDetails snapshot))) = COUNTER_COUNT \<Longrightarrow>
    nx_executeAdmittedOperation snapshot registryValid registry handler interlock availability n env = (r, n', env') \<Longrightarrow> nodeRun n' env'"
| reset: "nodeRun n env \<Longrightarrow> nodeRun (nx_reset n) env"
| device: "nodeRun n env \<Longrightarrow> nodeRun n env'"

lemma nx_execute_inv:
  assumes inv: "nodeInv n" and counters: "length (tsCounters (dtTxLifecycle (dsEventDetails snapshot))) = COUNTER_COUNT"
    and run: "nx_executeAdmittedOperation snapshot registryValid registry handler interlock availability n env = (r, n', env')"
  shows "nodeInv n' \<and> envHandler env' = envHandler env"
proof (cases "nxHasPendingCommand n")
  case True
  from nx_execute_answers [OF inv True counters, of registryValid registry handler interlock availability env] run show ?thesis by auto
next
  case False
  with run inv show ?thesis by (auto simp: nx_executeAdmittedOperation_def)
qed

lemma processorRun_inv: "nodeRun n env \<Longrightarrow> nodeInv n"
proof (induction rule: nodeRun.induct)
  case (reset n env)
  show ?case by (simp add: nx_reset_def nodeInv_def ro_reset_def ro_isActive_def retained_init_def)
next
  case (execute n env snapshot registryValid registry handler interlock availability r n' env')
  from nx_execute_inv [OF execute.IH execute.hyps(2,3)] show ?case by simp
qed (use nx_admit_inv in auto)

text \<open>C10. A Node in any state that its processor can reach answers what it admits: the next execution gives exactly one response
  packet, made for that command and decodable, with a status and value that fit the command's schema; the command is no longer
  pending, and a repetition of the command gets the acknowledgement and the same response again without being executed.\<close>

theorem node_answers_admitted:
  assumes run: "nodeRun n env" and c: "packet_wf c"
    and admit: "nx_admit c localId peerId n = (a, n1)" "nrAction a = NA_ACK_THEN_EXECUTE"
    and counters: "length (tsCounters (dtTxLifecycle (dsEventDetails snapshot))) = COUNTER_COUNT"
  shows "\<exists>r n2 env2 q st v. nx_executeAdmittedOperation snapshot registryValid registry handler interlock availability n1 env = (r, n2, env2)
    \<and> nrAction r = NA_RESPONSE_READY \<and> decodeRequest (pkOpcode c) (Some (pkPayload c)) (unat (pkPayloadLength c)) = Inr q
    \<and> nrResponse r = makeResponsePacket c (wireAnswer q st v) \<and> isValidResponseSchema (pkOpcode c) (wireAnswer q st v)
    \<and> \<not> nxHasPendingCommand n2
    \<and> fst (nx_admit c localId peerId n2) = nodeResult_init\<lparr>nrAction := NA_SEND_ACK_AND_RESPONSE,
        nrAcknowledgment := nrAcknowledgment a, nrResponse := nrResponse r\<rparr>"
proof -
  have inv: "nodeInv n1" using nx_admit_inv [OF processorRun_inv [OF run] c, of localId peerId] admit by simp
  have pend: "nxPendingCommand n1 = c" "nxHasPendingCommand n1"
    using nx_admit_executes [of c localId peerId n] admit by simp_all
  have ack: "nrAcknowledgment a = ro_acknowledgment (nxRetained n1)" and dst: "pkDestination c = localId" "pkSource c = peerId"
    using admit by (auto simp: nx_admit_def admitNodeCommand_def nodeResult_init_def Let_def split: prod.splits admissionOutcome.splits if_splits)
  obtain q st v env2 n2 where x: "decodeRequest (pkOpcode c) (Some (pkPayload c)) (unat (pkPayloadLength c)) = Inr q"
    "isValidResponseSchema (pkOpcode c) (wireAnswer q st v)"
    "nx_executeAdmittedOperation snapshot registryValid registry handler interlock availability n1 env =
       (nodeResult_init\<lparr>nrAction := NA_RESPONSE_READY, nrResponse := makeResponsePacket c (wireAnswer q st v)\<rparr>, n2, env2)"
    "nxRetained n2 = (nxRetained n1)\<lparr>roResponse := makeResponsePacket c (wireAnswer q st v), roComplete := True\<rparr>" "\<not> nxHasPendingCommand n2"
    using nx_execute_answers [OF inv pend(2) counters, of registryValid registry handler interlock availability env thesis] pend(1) by blast
  have "fst (nx_admit c localId peerId n2) = nodeResult_init\<lparr>nrAction := NA_SEND_ACK_AND_RESPONSE,
      nrAcknowledgment := nrAcknowledgment a, nrResponse := makeResponsePacket c (wireAnswer q st v)\<rparr>"
    using nx_admit_again(1) [OF inv _ pend(2) _ _ x(4), of localId peerId] pend(1) c dst ack by simp
  then show ?thesis using x admit(2) by (intro exI [of _ "nodeResult_init\<lparr>nrAction := NA_RESPONSE_READY,
      nrResponse := makeResponsePacket c (wireAnswer q st v)\<rparr>"] exI [of _ n2] exI [of _ env2] exI [of _ q] exI [of _ st] exI [of _ v]) auto
qed

definition pingCommand :: packet where
  "pingCommand = makeCommand 1 2 0 0x20 \<lparr>wqTargetId = 0, wqValue = copyHostToWireValue setNoneValue\<rparr>"

definition sampleEnv :: "u32 deviceEnv" where
  "sampleEnv = (let d = \<lparr>cdsCounters = \<lparr>cdcLookupAttempts = 0, cdcAcceptedOperations = 0, cdcAuthorizationDenials = 0,
     cdcUnsupportedOperations = 0, cdcValidationFailures = 0, cdcInterlockDenials = 0, cdcBusyOutcomes = 0, cdcHardwareFailures = 0\<rparr>,
     cdsLastStatusAvailable = 0, cdsLastStatus = OS_OK, cdsReserved = []\<rparr> in
     \<lparr>envHandler = 5, envDiagnostics = d, envObserved = \<lparr>obsAvailable = False, obsSnapshot = d\<rparr>\<rparr>)"

lemma pingCommand_wf: "packet_wf pingCommand" by code_simp

lemma pingCommand_admitted: "nrAction (fst (nx_admit pingCommand 2 1 nodeProcessor_init)) = NA_ACK_THEN_EXECUTE" by code_simp

theorem node_answers_admitted_witness:
  "nrAction (fst (nx_executeAdmittedOperation (sampleSnapshot NODE 2) True sampleRegistry sampleHandler INTERLOCK_CLEAR None
     (snd (nx_admit pingCommand 2 1 nodeProcessor_init)) sampleEnv)) = NA_RESPONSE_READY"
  using node_answers_admitted [OF nodeRun.start [of sampleEnv] pingCommand_wf, of 2 1 _ _ "sampleSnapshot NODE 2" True sampleRegistry sampleHandler
      INTERLOCK_CLEAR None] pingCommand_admitted
  by (cases "nx_admit pingCommand 2 1 nodeProcessor_init") auto

text \<open>C22. Nothing that arrives by radio operates hardware: whatever command the Node executes, its capability handler is not
  called, and the state behind the handler is untouched.\<close>

theorem radio_never_actuates:
  assumes run: "nodeRun n env" and counters: "length (tsCounters (dtTxLifecycle (dsEventDetails snapshot))) = COUNTER_COUNT"
    and execute: "nx_executeAdmittedOperation snapshot registryValid registry handler interlock availability n env = (r, n', env')"
  shows "envHandler env' = envHandler env"
  using nx_execute_inv [OF processorRun_inv [OF run] counters execute] by simp

definition setCommand :: packet where
  "setCommand = makeCommand 1 2 3 0x26 \<lparr>wqTargetId = 7, wqValue = \<lparr>wvType = 1, wvLength = 1, wvBytes = replicate 22 1\<rparr>\<rparr>"

lemma setCommand_admitted:
  "packet_wf setCommand \<and> nrAction (fst (nx_admit setCommand 2 1 nodeProcessor_init)) = NA_ACK_THEN_EXECUTE" by code_simp

theorem radio_never_actuates_witness:
  "envHandler (snd (snd (nx_executeAdmittedOperation (sampleSnapshot NODE 2) True sampleRegistry sampleHandler INTERLOCK_CLEAR None
     (snd (nx_admit setCommand 2 1 nodeProcessor_init)) sampleEnv))) = 5"
proof -
  have "nodeRun (snd (nx_admit setCommand 2 1 nodeProcessor_init)) sampleEnv"
    using nodeRun.admit [OF nodeRun.start] setCommand_admitted by blast
  from radio_never_actuates [OF this, of "sampleSnapshot NODE 2" True sampleRegistry sampleHandler INTERLOCK_CLEAR None]
  show ?thesis by (cases "nx_executeAdmittedOperation (sampleSnapshot NODE 2) True sampleRegistry sampleHandler INTERLOCK_CLEAR None
     (snd (nx_admit setCommand 2 1 nodeProcessor_init)) sampleEnv") (simp add: sampleEnv_def Let_def)
qed

subsection \<open>Both halves of the bridge\<close>

text \<open>C8. Asking the Node through the Hub is asking the Node: when the Hub transmits the command for a host's request and the Node
  admits it, the Hub takes the Node's acknowledgement, the Node executes, and the response that the Hub hands to its host is,
  field for field, the response that a host attached to the Node would get for the same request at that moment (with the bytes
  behind the announced length zeroed).  This holds for every operation but the three that access capabilities.\<close>

theorem bridge_equals_local:
  assumes submit: "hb_submit requestId q localRole localId peerId now overallTimeout maxRetries explicitlyConfigured b = (r, b1)"
      "huAction r = HA_TRANSMIT_COMMAND"
    and run: "nodeRun n env"
    and admit: "nx_admit (huPacket r) peerId localId n = (a, n1)" "nrAction a = NA_ACK_THEN_EXECUTE"
    and device: "dsDeviceId snapshot = peerId" "length (tsCounters (dtTxLifecycle (dsEventDetails snapshot))) = COUNTER_COUNT"
    and op: "oqOperation q \<notin> {operationCode.READ_CAPABILITY, operationCode.SET_INDICATOR, operationCode.RUN_PROCEDURE}"
  shows "\<exists>b2 nr n2 hr. hb_receive (nrAcknowledgment a) b1 = (hb_activeBase b1, b2)
    \<and> nx_executeAdmittedOperation snapshot registryValid registry handler interlock availability n1 env = (nr, n2, env)
    \<and> handleLocalOperation 1 (q\<lparr>oqValue := normalValue (oqValue q)\<rparr>) snapshot registryValid registry handler interlock availability
        VERSION_MINOR_0_1 env = (hr, env)
    \<and> fst (hb_receive (nrResponse nr) b2) = hubResult_init\<lparr>huAction := HA_HOST_RESPONSE_READY, huRequestId := requestId,
        huResponse := (hrResponse hr)\<lparr>opValue := normalValue (opValue (hrResponse hr))\<rparr>\<rparr>"
  by (rule exchange_local [OF submit processorRun_inv [OF run] admit device op])

lemma ping_transmitted:
  "huAction (fst (hb_submit 9 pingRequest HUB 1 2 0 1000 2 False hubBridge_init)) = HA_TRANSMIT_COMMAND" by code_simp

lemma ping_admitted:
  "nrAction (fst (nx_admit (huPacket (fst (hb_submit 9 pingRequest HUB 1 2 0 1000 2 False hubBridge_init))) 2 1 nodeProcessor_init))
     = NA_ACK_THEN_EXECUTE" by code_simp

theorem bridge_equals_local_witness:
  "\<exists>b2 nr n2. let (r, b1) = hb_submit 9 pingRequest HUB 1 2 0 1000 2 False hubBridge_init;
       (a, n1) = nx_admit (huPacket r) 2 1 nodeProcessor_init in
     hb_receive (nrAcknowledgment a) b1 = (hb_activeBase b1, b2)
     \<and> nx_executeAdmittedOperation (sampleSnapshot NODE 2) True sampleRegistry sampleHandler INTERLOCK_CLEAR None n1 sampleEnv = (nr, n2, sampleEnv)
     \<and> huAction (fst (hb_receive (nrResponse nr) b2)) = HA_HOST_RESPONSE_READY"
proof -
  obtain r b1 where s: "hb_submit 9 pingRequest HUB 1 2 0 1000 2 False hubBridge_init = (r, b1)" by fastforce
  obtain a n1 where m: "nx_admit (huPacket r) 2 1 nodeProcessor_init = (a, n1)" by fastforce
  from bridge_equals_local [OF s _ nodeRun.start [of sampleEnv] m, of "sampleSnapshot NODE 2" True sampleRegistry sampleHandler INTERLOCK_CLEAR None]
    ping_transmitted ping_admitted s m
  show ?thesis by (auto simp: pingRequest_def)
qed

subsection \<open>The lifecycle\<close>

text \<open>C26. In every state that the lifecycle reaches, a response that a submitted request gets (at once, from the event service, the
  device, the retained entry or as a rejection) is valid for the protocol version that it is sent with, is about that request and
  carries its id.\<close>

theorem submitted_request_answered_well:
  assumes run: "lifecycleRun c w" and wf: "deviceWf dv" and len: "n \<le> length bs"
    and submit: "lc_submit dv requestId (Some bs) n now overallTimeout maxRetries explicitlyConfigured minor c w = (r, c', w')"
    and resp: "responds r"
  shows "\<exists>q. decodeOperationRequest minor (Some bs) n = Inr q \<and> validateOperationResponse (laResponseMinor r) (laResponse r) = PR_OK
    \<and> answers (laResponse r) q \<and> laRequestId r = requestId"
  using lc_submit_good [OF lifecycleRun_inv [OF run] wf len submit] resp by (auto simp: resultGood_def goodResponse_def)

definition sampleDevice :: "(u32, unit) device" where
  "sampleDevice = \<lparr>dvSnapshot = sampleSnapshot HUB 2, dvPeerId = 7, dvRegistryValid = True, dvRegistry = sampleRegistry, dvHandler = sampleHandler,
     dvInterlock = INTERLOCK_CLEAR, dvAvailability = None, dvEventService = None, dvStorage = \<lparr>hsReadMetadata = \<lambda>_ b s. (SR_ERROR, b, 0, s),
     hsWriteMetadata = \<lambda>_ _ s. (SR_ERROR, s), hsRead = \<lambda>_ _ b s. (SR_ERROR, b, 0, s), hsWrite = \<lambda>_ _ _ s. (SR_ERROR, s), hsCommit = \<lambda>s. (SR_ERROR, s)\<rparr>\<rparr>"

definition pingBytes :: bytes where
  "pingBytes = [1, 0x20, 2, 0, 0, 0, 0]"

lemma sampleDevice_wf: "deviceWf sampleDevice"
  by (simp add: deviceWf_def sampleDevice_def)

lemma ping_decodes: "decodeOperationRequest VERSION_MINOR_0_1 (Some pingBytes) 7 = Inr pingRequest" by code_simp

lemma submit_device_answered:
  assumes dec: "decodeOperationRequest minor (Some bs) n = Inr q" and wf: "deviceWf dv" and fresh: "lcState c = LS_EMPTY"
    and q: "oqCategory q = CAT_DEVICE \<or> oqCategory q = CAT_DIAGNOSTIC" "oqTargetDeviceId q = dsDeviceId (dvSnapshot dv)"
    and i: "isValidRequestId requestId"
  obtains r c' w' where "lc_submit dv requestId (Some bs) n now overallTimeout maxRetries explicitlyConfigured minor c w = (r, c', w')"
    "responds r" "opResultClass (laResponse r) = RC_OPERATION_RESULT"
proof -
  have ok: "validateOperationRequest minor q = PR_OK" "n \<le> 128" using decode_valid [OF dec] by simp_all
  define h where "h = handleLocalDeviceOrDiagnostic requestId q (dvSnapshot dv) minor"
  have ans: "operationAnswer q h" unfolding h_def by (rule handleLocalDevice_ok [OF ok(1) q]) (use wf in \<open>simp add: deviceWf_def\<close>)
  have "handleLocal dv requestId q minor w = (h, w\<lparr>hwEnv := hwEnv w\<rparr>)"
    using q(1) by (auto simp: handleLocal_def handleLocalOperation_def h_def)
  then have "lc_submit dv requestId (Some bs) n now overallTimeout maxRetries explicitlyConfigured minor c w =
      lc_submitLocal dv requestId bs n q minor c w" "lc_submitLocal dv requestId bs n q minor c w =
      (let c' = completeEntry (hrResponse h) (acceptIdentity requestId minor bs n c) in
       (lifecycleResult_init\<lparr>laRequestId := requestId, laResponseMinor := minor, laResponse := hrResponse h,
          laAction := readyOr LA_RESPONSE_RETAINED c'\<rparr>, c', w))"
    using dec fresh q ok i ans by (simp_all add: lc_submit_def Let_def lc_submitLocal_def operationAnswer_def) (simp add: completeEntry_def)
  then show ?thesis using that ans by (auto simp: Let_def responds_def readyOr_def operationAnswer_def)
qed

definition sampleWorld :: "(u32, unit) hostWorld" where
  "sampleWorld = \<lparr>hwEnv = sampleEnv, hwLedger = \<lparr>hlSlots = [], hlMetadata = hubMetadata_init, hlMetadataCopy = CopyA,
     hlNextVolatileOrdinal = 0, hlVolatileEndExclusive = 0, hlHubDeviceId = 2, hlNodeDeviceId = 7, hlHasMetadata = False, hlHealthy = False,
     hlOrdinalReady = False, hlStatus = LST_INDETERMINATE_SLOT, hlDiagnostics = None\<rparr>, hwStore = ()\<rparr>"

lemma ping_submitted:
  obtains r c' w' where "lc_submit sampleDevice 9 (Some pingBytes) 7 0 1000 2 False VERSION_MINOR_0_1 lifecycle_init sampleWorld = (r, c', w')"
    "responds r" "opResultClass (laResponse r) = RC_OPERATION_RESULT"
proof (rule submit_device_answered [OF ping_decodes sampleDevice_wf])
  show "oqCategory pingRequest = CAT_DEVICE \<or> oqCategory pingRequest = CAT_DIAGNOSTIC"
    "oqTargetDeviceId pingRequest = dsDeviceId (dvSnapshot sampleDevice)" "lcState lifecycle_init = LS_EMPTY" "isValidRequestId 9"
    by (simp_all add: pingRequest_def sampleDevice_def lifecycle_init_def isValidRequestId_def)
qed

theorem submitted_request_answered_well_witness:
  "\<exists>r. responds r \<and> validateOperationResponse (laResponseMinor r) (laResponse r) = PR_OK \<and> answers (laResponse r) pingRequest \<and> laRequestId r = 9"
proof -
  obtain r c' w' where s: "lc_submit sampleDevice 9 (Some pingBytes) 7 0 1000 2 False VERSION_MINOR_0_1 lifecycle_init sampleWorld = (r, c', w')"
      "responds r" by (rule ping_submitted)
  from submitted_request_answered_well [OF lifecycleRun.start sampleDevice_wf _ s] ping_decodes s(2) show ?thesis by (auto simp: pingBytes_def)
qed

text \<open>C11. A repeated request is not executed again: once a request has been answered with anything but a rejection, the same id and
  payload get the same response and version again, from any later device, time or connection, and neither the lifecycle nor the device, the
  ledger or its storage change.\<close>

theorem retry_changes_nothing:
  assumes submit: "lc_submit dv requestId (Some bs) n now overallTimeout maxRetries explicitlyConfigured minor c w = (r, c1, w1)"
    and resp: "responds r" "opResultClass (laResponse r) \<noteq> RC_REQUEST_REJECTED"
  shows "lc_submit dv' requestId (Some bs) n now' overallTimeout' maxRetries' explicitlyConfigured' minor c1 w2 =
    (lifecycleResult_init\<lparr>laRequestId := requestId, laResponse := laResponse r, laResponseMinor := laResponseMinor r,
       laAction := readyOr LA_RESPONSE_RETAINED c1\<rparr>, c1, w2)"
  using lc_submit_retains [OF submit resp] by (auto simp: lc_submit_def Let_def retains_def)


theorem retry_changes_nothing_witness:
  "\<exists>r c1 w1. responds r \<and> lc_submit sampleDevice 9 (Some pingBytes) 7 55 1000 2 False VERSION_MINOR_0_1 c1 w1 =
    (lifecycleResult_init\<lparr>laRequestId := 9, laResponse := laResponse r, laResponseMinor := laResponseMinor r,
       laAction := readyOr LA_RESPONSE_RETAINED c1\<rparr>, c1, w1)"
proof -
  obtain r c1 w1 where s: "lc_submit sampleDevice 9 (Some pingBytes) 7 0 1000 2 False VERSION_MINOR_0_1 lifecycle_init sampleWorld = (r, c1, w1)"
      "responds r" "opResultClass (laResponse r) = RC_OPERATION_RESULT" by (rule ping_submitted)
  from retry_changes_nothing [OF s(1,2)] s(2,3) show ?thesis by (intro exI [of _ r] exI [of _ c1] exI [of _ w1]) simp
qed

text \<open>What the lifecycle gives when its service is called at the listed times.\<close>

fun lc_services :: "u32 list \<Rightarrow> lifecycle \<Rightarrow> lifecycleResult list \<times> lifecycle" where
  "lc_services [] c = ([], c)"
| "lc_services (now # nows) c = (case lc_service now c of (r, c) \<Rightarrow> case lc_services nows c of (rs, c) \<Rightarrow> (r # rs, c))"

lemma lc_service_late:
  assumes inv: "lifecycleInv c" and act: "lcState c = LS_ACTIVE" and late: "\<not> beforeDeadline now (htDeadline (hbTransaction (lcBridge c)))"
  defines "t \<equiv> hbTransaction (lcBridge c)"
  shows "htRetries t < htMaxRetries t \<Longrightarrow> lc_service now c = (lifecycleResult_init\<lparr>laRequestId := enRequestId (lcEntry c),
      laResponseMinor := enRequestMinor (lcEntry c), laAction := LA_TRANSMIT_COMMAND, laPacket := htCommand t\<rparr>,
      c\<lparr>lcBridge := (lcBridge c)\<lparr>hbTransaction := t\<lparr>htRetries := htRetries t + 1\<rparr>\<rparr>\<rparr>)"
    and "\<not> htRetries t < htMaxRetries t \<Longrightarrow> \<exists>r c'. lc_service now c = (r, c') \<and> responds r \<and> lcState c' = LS_COMPLETED
      \<and> opResultClass (laResponse r) = RC_RADIO_RESULT \<and> opResultCode (laResponse r) = RADIO_TIMEOUT"
  using inv act late by (auto simp: lifecycleInv_def bridgeInv_def lc_service_def hb_service_def ht_service_def lc_consumeRemote_def Let_def t_def
      hb_finish_def hb_activeBase_def responds_def completeEntry_def readyOr_def hubResult_init_def)

text \<open>What an active operation does when no answer comes: once its deadline has passed, each service call retransmits its command,
  unchanged, while it has retries left, and the call after that gives the host the timeout result.\<close>

theorem operation_ends:
  assumes run: "lifecycleRun c w" and act: "lcState c = LS_ACTIVE" and t: "t = hbTransaction (lcBridge c)"
    and late: "\<forall>now\<in>set nows. \<not> beforeDeadline now (htDeadline t)"
    and calls: "length nows = Suc (unat (htMaxRetries t) - unat (htRetries t))"
  shows "\<exists>rs r c'. lc_services nows c = (rs @ [r], c') \<and> length rs = unat (htMaxRetries t) - unat (htRetries t)
    \<and> (\<forall>x\<in>set rs. laAction x = LA_TRANSMIT_COMMAND \<and> laPacket x = htCommand t)
    \<and> responds r \<and> opResultClass (laResponse r) = RC_RADIO_RESULT \<and> opResultCode (laResponse r) = RADIO_TIMEOUT
    \<and> lcState c' = LS_COMPLETED"
  using assms
proof (induction nows arbitrary: c t)
  case Nil
  then show ?case by simp
next
  case (Cons now nows)
  have inv: "lifecycleInv c" by (rule lifecycleRun_inv [OF Cons.prems(1)])
  have le: "htRetries t \<le> htMaxRetries t" using inv Cons.prems(2,3) by (auto simp: lifecycleInv_def bridgeInv_def Let_def)
  note late = lc_service_late [OF inv Cons.prems(2), of now]
  show ?case
  proof (cases "htRetries t < htMaxRetries t")
    case True
    define c1 where "c1 = c\<lparr>lcBridge := (lcBridge c)\<lparr>hbTransaction := t\<lparr>htRetries := htRetries t + 1\<rparr>\<rparr>\<rparr>"
    obtain r where r: "lc_service now c = (r, c1)" "laAction r = LA_TRANSMIT_COMMAND" "laPacket r = htCommand t"
      using late(1) True Cons.prems(3,4) by (auto simp: c1_def)
    have run1: "lifecycleRun c1 w" by (rule lifecycleRun.service [OF Cons.prems(1) r(1)])
    define t1 where "t1 = hbTransaction (lcBridge c1)"
    have t1: "htRetries t1 = htRetries t + 1" "htMaxRetries t1 = htMaxRetries t" "htCommand t1 = htCommand t" "htDeadline t1 = htDeadline t"
      by (simp_all add: t1_def c1_def)
    have u: "unat (htRetries t + 1) = Suc (unat (htRetries t))" "unat (htRetries t) < unat (htMaxRetries t)"
      using True by (simp_all add: unat_Suc_less word_less_nat_alt)
    have "\<exists>rs r' c'. lc_services nows c1 = (rs @ [r'], c') \<and> length rs = unat (htMaxRetries t1) - unat (htRetries t1)
      \<and> (\<forall>x\<in>set rs. laAction x = LA_TRANSMIT_COMMAND \<and> laPacket x = htCommand t1)
      \<and> responds r' \<and> opResultClass (laResponse r') = RC_RADIO_RESULT \<and> opResultCode (laResponse r') = RADIO_TIMEOUT
      \<and> lcState c' = LS_COMPLETED"
      by (rule Cons.IH [OF run1 _ t1_def]) (use Cons.prems t1 u in \<open>auto simp: c1_def\<close>)
    then obtain rs r' c' where "lc_services nows c1 = (rs @ [r'], c')" "length rs = unat (htMaxRetries t1) - unat (htRetries t1)"
      "\<forall>x\<in>set rs. laAction x = LA_TRANSMIT_COMMAND \<and> laPacket x = htCommand t1"
      "responds r'" "opResultClass (laResponse r') = RC_RADIO_RESULT" "opResultCode (laResponse r') = RADIO_TIMEOUT" "lcState c' = LS_COMPLETED"
      by blast
    then show ?thesis using r t1 u by (intro exI [of _ "r # rs"] exI [of _ r'] exI [of _ c']) auto
  next
    case False
    then have "unat (htMaxRetries t) - unat (htRetries t) = 0" using le by (simp add: word_less_nat_alt)
    then have "nows = []" using Cons.prems(5) by simp
    moreover obtain r c' where "lc_service now c = (r, c')" "responds r" "lcState c' = LS_COMPLETED"
      "opResultClass (laResponse r) = RC_RADIO_RESULT" "opResultCode (laResponse r) = RADIO_TIMEOUT"
      using late(2) False Cons.prems(3,4) by auto
    ultimately show ?thesis using \<open>unat (htMaxRetries t) - unat (htRetries t) = 0\<close>
      by (intro exI [of _ "[]"] exI [of _ r] exI [of _ c']) simp
  qed
qed

definition farBytes :: bytes where
  "farBytes = [1, 0x20, 7, 0, 0, 0, 0]"

lemma far_submitted:
  "case lc_submit sampleDevice 9 (Some farBytes) 7 100 1000 2 False VERSION_MINOR_0_1 lifecycle_init sampleWorld of (r, c, w) \<Rightarrow>
     lcState c = LS_ACTIVE \<and> htMaxRetries (hbTransaction (lcBridge c)) = 2 \<and> htRetries (hbTransaction (lcBridge c)) = 0
     \<and> htDeadline (hbTransaction (lcBridge c)) = 1100" by code_simp

subsection \<open>The remote operation\<close>

text \<open>What reaches an operation under way: a packet from the radio, or a call of \<^verbatim>\<open>service\<close> at some time.\<close>

datatype remoteInput = Radio packet | Service u32

fun lc_input :: "remoteInput \<Rightarrow> lifecycle \<Rightarrow> lifecycleResult \<times> lifecycle" where
  "lc_input (Radio p) c = lc_receive p c"
| "lc_input (Service now) c = lc_service now c"

fun lc_trace :: "remoteInput list \<Rightarrow> lifecycle \<Rightarrow> lifecycleResult list \<times> lifecycle" where
  "lc_trace [] c = ([], c)"
| "lc_trace (i # ins) c = (case lc_input i c of (r, c) \<Rightarrow> case lc_trace ins c of (rs, c) \<Rightarrow> (r # rs, c))"

fun lateCall :: "u32 \<Rightarrow> remoteInput \<Rightarrow> bool" where
  "lateCall deadline (Radio p) = False"
| "lateCall deadline (Service now) = (\<not> beforeDeadline now deadline)"

definition sends :: "lifecycleResult \<Rightarrow> bool" where
  "sends r = (laAction r = LA_TRANSMIT_COMMAND)"

definition retriesLeft :: "lifecycle \<Rightarrow> nat" where
  "retriesLeft c = unat (htMaxRetries (hbTransaction (lcBridge c))) - unat (htRetries (hbTransaction (lcBridge c)))"

text \<open>One input: nothing happens, the command is sent again, or the operation ends with a response.\<close>

lemma lc_input_active:
  assumes inv: "lifecycleInv c" and act: "lcState c = LS_ACTIVE" and run: "lc_input i c = (r, c')"
  defines "t \<equiv> hbTransaction (lcBridge c)" and "t' \<equiv> hbTransaction (lcBridge c')"
  shows "lcState c' = LS_ACTIVE \<and> \<not> responds r \<and> htCommand t' = htCommand t \<and> htDeadline t' = htDeadline t
      \<and> (\<not> sends r \<and> \<not> lateCall (htDeadline t) i \<and> retriesLeft c' = retriesLeft c
         \<or> sends r \<and> laPacket r = htCommand t \<and> Suc (retriesLeft c') = retriesLeft c)
    \<or> lcState c' = LS_COMPLETED \<and> responds r \<and> \<not> sends r \<and> laResponse r = enResponse (lcEntry c')"
proof -
  have b: "hbActive (lcBridge c)" "htPhase t \<noteq> SP_IDLE" "htRetries t \<le> htMaxRetries t"
    using inv act by (auto simp: lifecycleInv_def bridgeInv_def Let_def t_def)
  have again: "Suc (unat (htMaxRetries t) - unat (htRetries t + 1)) = unat (htMaxRetries t) - unat (htRetries t)" if "htRetries t < htMaxRetries t"
  proof -
    have "unat (htRetries t + 1) = Suc (unat (htRetries t))" using that by unat_arith
    then show ?thesis using that by (simp add: word_less_nat_alt Suc_diff_Suc)
  qed
  show ?thesis
  proof (cases i)
    case (Radio p)
    obtain e t1 where r: "ht_receive p t = (e, t1)" by fastforce
    then have f: "htCommand t1 = htCommand t" "htDeadline t1 = htDeadline t" "htRetries t1 = htRetries t" "htMaxRetries t1 = htMaxRetries t"
      by (auto simp: ht_receive_def Let_def split: if_splits sum.splits)
    show ?thesis using run b act r f
      by (auto simp: Radio lc_receive_def hb_receive_def hb_activeBase_def lc_consumeRemote_def Let_def hb_finish_def t_def t'_def
          completeEntry_def readyOr_def responds_def sends_def retriesLeft_def hubResult_init_def lifecycleResult_init_def split: if_splits)
  next
    case (Service now)
    show ?thesis using run b act again
      by (auto simp: Service lc_service_def hb_service_def ht_service_def hb_activeBase_def lc_consumeRemote_def Let_def hb_finish_def t_def t'_def
          completeEntry_def readyOr_def responds_def sends_def retriesLeft_def hubResult_init_def lifecycleResult_init_def split: if_splits)
  qed
qed

lemma lc_trace_done:
  assumes "lifecycleInv c" "lcState c = LS_COMPLETED" "lc_trace ins c = (rs, c')"
  shows "c' = c \<and> (\<forall>r\<in>set rs. \<not> responds r \<and> \<not> sends r)"
  using assms
proof (induction ins arbitrary: rs c')
  case (Cons i ins)
  have "\<not> hbActive (lcBridge c)" using Cons.prems by (simp add: lifecycleInv_def)
  then have "lc_input i c = (lifecycleResult_init, c)"
    using Cons.prems(2) by (cases i) (simp_all add: lc_receive_def lc_service_def hb_receive_def hb_service_def hb_activeBase_def lc_consumeRemote_def Let_def)
  then show ?case using Cons by (auto simp: responds_def sends_def lifecycleResult_init_def split: prod.splits)
qed simp

lemma lc_input_inv:
  assumes "lifecycleInv c" "lc_input i c = (r, c')"
  shows "lifecycleInv c'"
proof (cases i)
  case (Radio p)
  then have "lc_receive p c = (r, c')" using assms(2) by simp
  from lc_receive_good [OF assms(1) this] show ?thesis by (rule conjunct1)
next
  case (Service now)
  then have "lc_service now c = (r, c')" using assms(2) by simp
  from lc_service_good [OF assms(1) this] show ?thesis by (rule conjunct1)
qed

abbreviation (input) transactionOf :: "lifecycle \<Rightarrow> hubTransaction" where
  "transactionOf c \<equiv> hbTransaction (lcBridge c)"

lemma lc_trace_bounded:
  assumes "lifecycleInv c" "lcState c = LS_ACTIVE" "lc_trace ins c = (rs, c')"
  shows "(\<forall>r\<in>set rs. sends r \<longrightarrow> laPacket r = htCommand (transactionOf c)) \<and> length (filter sends rs) \<le> retriesLeft c
    \<and> (if lcState c' = LS_ACTIVE then filter responds rs = [] \<and> htDeadline (transactionOf c') = htDeadline (transactionOf c)
       else lcState c' = LS_COMPLETED \<and> (\<exists>r. filter responds rs = [r] \<and> laResponse r = enResponse (lcEntry c')))
    \<and> (retriesLeft c < length (filter (lateCall (htDeadline (transactionOf c))) ins) \<longrightarrow> lcState c' = LS_COMPLETED)"
  using assms
proof (induction ins arbitrary: c rs)
  case (Cons i ins)
  obtain r c1 where r: "lc_input i c = (r, c1)" by fastforce
  obtain rs1 where rs: "lc_trace ins c1 = (rs1, c')" "rs = r # rs1" using Cons.prems(3) r by (auto split: prod.splits)
  note inv1 = lc_input_inv [OF Cons.prems(1) r]
  consider (over) "lcState c1 = LS_COMPLETED" "responds r" "\<not> sends r" "laResponse r = enResponse (lcEntry c1)"
    | (wait) "lcState c1 = LS_ACTIVE" "\<not> responds r" "htCommand (transactionOf c1) = htCommand (transactionOf c)"
      "htDeadline (transactionOf c1) = htDeadline (transactionOf c)" "\<not> sends r" "\<not> lateCall (htDeadline (transactionOf c)) i" "retriesLeft c1 = retriesLeft c"
    | (again) "lcState c1 = LS_ACTIVE" "\<not> responds r" "htCommand (transactionOf c1) = htCommand (transactionOf c)"
      "htDeadline (transactionOf c1) = htDeadline (transactionOf c)" "sends r" "laPacket r = htCommand (transactionOf c)" "Suc (retriesLeft c1) = retriesLeft c"
    using lc_input_active [OF Cons.prems(1,2) r] by blast
  then show ?case
  proof cases
    case over
    have "c' = c1" "\<forall>r\<in>set rs1. \<not> responds r \<and> \<not> sends r" using lc_trace_done [OF inv1 over(1) rs(1)] by auto
    then have "filter responds rs = [r]" "filter sends rs = []" "\<forall>r\<in>set rs. \<not> sends r" using over rs(2) by (auto simp: filter_empty_conv)
    then show ?thesis using over \<open>c' = c1\<close> by simp
  next
    case wait
    show ?thesis using Cons.IH [OF inv1 wait(1) rs(1)] unfolding wait(3,4,7) rs(2) using wait(2,5,6) by simp
  next
    case again
    show ?thesis using Cons.IH [OF inv1 again(1) rs(1)] unfolding again(3,4) again(7) [symmetric] rs(2) using again(2,5,6) by (cases "lcState c' = LS_ACTIVE") auto
  qed
qed simp

text \<open>C18. A remote operation sends one command and gives one answer: whatever packets arrive and whenever \<^verbatim>\<open>service\<close> is called, every
  retransmission is the packet that was sent first, sequence number included, there are no more of them than retries left, no
  traffic moves the deadline, and the host gets one response at most, none while the operation is under way and exactly one,
  the retained one, when it is over.  It is over at the latest when \<^verbatim>\<open>service\<close> has been called past the deadline once more than
  there are retries left.\<close>

theorem remote_operation_bounded:
  assumes "lifecycleRun c w" and "lcState c = LS_ACTIVE" and "lc_trace ins c = (rs, c')" and "t = hbTransaction (lcBridge c)"
  shows "(\<forall>r\<in>set rs. sends r \<longrightarrow> laPacket r = htCommand t)
    \<and> length (filter sends rs) \<le> unat (htMaxRetries t) - unat (htRetries t)
    \<and> (if lcState c' = LS_ACTIVE then filter responds rs = [] \<and> htDeadline (hbTransaction (lcBridge c')) = htDeadline t
       else lcState c' = LS_COMPLETED \<and> (\<exists>r. filter responds rs = [r] \<and> laResponse r = enResponse (lcEntry c')))
    \<and> (unat (htMaxRetries t) - unat (htRetries t) < length (filter (lateCall (htDeadline t)) ins) \<longrightarrow> lcState c' = LS_COMPLETED)"
  using lc_trace_bounded [OF lifecycleRun_inv [OF assms(1)] assms(2,3)] by (simp add: assms(4) retriesLeft_def)

theorem remote_operation_bounded_witness:
  "\<exists>c rs r c'. lc_trace [Service 1100, Service 1101, Service 5000] c = (rs, c') \<and> filter responds rs = [r]
     \<and> length (filter sends rs) \<le> 2 \<and> lcState c' = LS_COMPLETED"
proof -
  obtain r c w where s: "lc_submit sampleDevice 9 (Some farBytes) 7 100 1000 2 False VERSION_MINOR_0_1 lifecycle_init sampleWorld = (r, c, w)"
    by (rule prod_cases3)
  define t where "t = hbTransaction (lcBridge c)"
  have t: "lcState c = LS_ACTIVE" "htMaxRetries t = 2" "htRetries t = 0" "htDeadline t = 1100" using far_submitted s by (simp_all add: t_def)
  have run: "lifecycleRun c w" by (rule lifecycleRun.submit [OF lifecycleRun.start sampleDevice_wf _ s]) (simp add: farBytes_def)
  obtain rs c' where x: "lc_trace [Service 1100, Service 1101, Service 5000] c = (rs, c')" by fastforce
  have late: "length (filter (lateCall 1100) [Service 1100, Service 1101, Service 5000]) = 3" by code_simp
  from remote_operation_bounded [OF run t(1) x t_def] t(2-4) late show ?thesis using x by (intro exI [of _ c] exI [of _ rs]) auto
qed

end
