(* ===== verification/HostLink.thy ===== *)
theory HostLink
  imports HostTransport
begin

text \<open>
  The host link end to end.  The parser with its bounded buffer is compared with the obvious specification, which splits
  the whole stream at its delimiters; the transport is shown to put exactly the submitted frames on the wire and to hand
  every received byte to the parser.  Together: frames submitted on one side come out on the other.
\<close>

subsection \<open>A specification of the parser\<close>

type_synonym verdict = "streamEvent \<times> decodeResult \<times> frame"

definition summary :: "streamResult \<Rightarrow> verdict" where
  "summary r = (srEvent r, srDecodeResult r, srFrame r)"

text \<open>What is reported of the bytes between two delimiters.\<close>

definition candidateVerdict :: "bytes \<Rightarrow> verdict list" where
  "candidateVerdict c = (if c = [] then []
     else if length c > MAX_COBS_CANDIDATE_SIZE then [(OVERSIZED_CANDIDATE, DR_ENCODED_FRAME_TOO_LARGE, frame_init)]
     else case decodeFrame (Some (c @ [FRAME_DELIMITER])) (length c + 1) frame_init of (d, f) \<Rightarrow>
       [(if d = DR_OK then FRAME_READY else FRAME_REJECTED, d, f)])"

definition streamVerdicts :: "bytes \<Rightarrow> verdict list" where
  "streamVerdicts bs = concat (map candidateVerdict (butlast (splitZeros bs)))"

text \<open>The parser on a stream, byte by byte as the transport calls it; the events in order.\<close>

fun feed :: "bytes \<Rightarrow> streamParser \<Rightarrow> verdict list \<times> streamParser" where
  "feed [] p = ([], p)"
| "feed (b # bs) p = (case sp_consume (Some [b]) 1 p of (r, p) \<Rightarrow> case feed bs p of (vs, p) \<Rightarrow>
     (if srEvent r = SE_NONE then vs else summary r # vs, p))"

text \<open>A parser holds the bytes since the last delimiter, or has given up on too many of them.\<close>

definition parserHolds :: "streamParser \<Rightarrow> bytes \<Rightarrow> bool" where
  "parserHolds p c \<longleftrightarrow> length (spCandidate p) = MAX_COBS_CANDIDATE_SIZE \<and> spCandidateLength p \<le> MAX_COBS_CANDIDATE_SIZE
     \<and> (if spDiscardingOversize p then length c > MAX_COBS_CANDIDATE_SIZE
        else c = take (spCandidateLength p) (spCandidate p))"

lemma parserHolds_reset: "parserHolds p c \<Longrightarrow> parserHolds (sp_reset p) []"
  by (simp add: parserHolds_def sp_reset_def)

lemma parserHolds_new: "length storage = MAX_COBS_CANDIDATE_SIZE \<Longrightarrow> parserHolds (streamParser_new storage) []"
  by (simp add: parserHolds_def streamParser_new_def)

lemma decodeFrame_take:
  "n \<le> length c \<Longrightarrow> decodeFrame (Some c) n old = decodeFrame (Some (take n c)) n old"
  by (auto simp: decodeFrame_def cobsDecode_def)

lemma complete_frame:
  assumes "parserHolds p c" "\<not> spDiscardingOversize p"
  shows "decodeFrame (Some (completeFrame p)) (spCandidateLength p + 1) old = decodeFrame (Some (c @ [0])) (length c + 1) old"
proof -
  have "take (spCandidateLength p + 1) (completeFrame p) = c @ [0]" "length (completeFrame p) = 140"
    "length c = spCandidateLength p"
    using assms by (auto simp: completeFrame_def parserHolds_def copyBytes_whole list_update_append take_Suc_conv_app_nth)
  then show ?thesis
    using assms decodeFrame_take[of "spCandidateLength p + 1" "completeFrame p"] by (simp add: parserHolds_def)
qed

lemma consume_delimiter:
  assumes "parserHolds p c" "sp_consume (Some [0]) 1 p = (r, p')"
  shows "parserHolds p' [] \<and> (if srEvent r = SE_NONE then [] else [summary r]) = candidateVerdict c"
proof (cases "spDiscardingOversize p")
  case True
  with assms have "p' = sp_reset p" "summary r = (OVERSIZED_CANDIDATE, DR_ENCODED_FRAME_TOO_LARGE, frame_init)"
    "srEvent r = OVERSIZED_CANDIDATE" "length c > 139"
    by (auto simp: sp_consume_def summary_def streamResult_init_def parserHolds_def)
  with parserHolds_reset[OF assms(1)] show ?thesis by (auto simp: candidateVerdict_def)
next
  case False
  show ?thesis
  proof (cases "spCandidateLength p = 0")
    case True
    with False assms have "c = []" "p' = p" "srEvent r = SE_NONE"
      by (auto simp: sp_consume_def streamResult_init_def parserHolds_def)
    with assms show ?thesis by (simp add: candidateVerdict_def)
  next
    case nonempty: False
    obtain d f where d: "decodeFrame (Some (c @ [0])) (length c + 1) frame_init = (d, f)" by fastforce
    from False nonempty assms have c: "c \<noteq> []" "length c \<le> 139" by (auto simp: parserHolds_def)
    have "p' = sp_reset p" "summary r = (if d = DR_OK then FRAME_READY else FRAME_REJECTED, d, f)"
      using assms False nonempty d complete_frame[OF assms(1) False, of frame_init]
      by (auto simp: sp_consume_def summary_def streamResult_init_def)
    with parserHolds_reset[OF assms(1)] c d show ?thesis by (auto simp: candidateVerdict_def summary_def)
  qed
qed

lemma consume_data:
  assumes "parserHolds p c" "b \<noteq> 0" "sp_consume (Some [b]) 1 p = (r, p')"
  shows "parserHolds p' (c @ [b]) \<and> srEvent r = SE_NONE"
  using assms
  by (auto simp: sp_consume_def streamResult_init_def parserHolds_def take_Suc_conv_app_nth split: if_splits)

lemma feed_pieces:
  assumes "parserHolds p c"
  shows "fst (feed bs p) = concat (map candidateVerdict (butlast ((c @ hd (splitZeros bs)) # tl (splitZeros bs))))
    \<and> parserHolds (snd (feed bs p)) (last ((c @ hd (splitZeros bs)) # tl (splitZeros bs)))"
  using assms
proof (induction bs arbitrary: p c)
  case (Cons b bs)
  obtain r p' where r: "sp_consume (Some [b]) 1 p = (r, p')" by fastforce
  obtain q qs where qs: "splitZeros bs = q # qs" by (cases "splitZeros bs") auto
  have step: "feed (b # bs) p = (if srEvent r = SE_NONE then fst (feed bs p') else summary r # fst (feed bs p'), snd (feed bs p'))"
    using r by (simp split: prod.split)
  show ?case
  proof (cases "b = 0")
    case True
    with consume_delimiter[OF Cons.prems, of r p'] r have "parserHolds p' []"
      "(if srEvent r = SE_NONE then [] else [summary r]) = candidateVerdict c" by auto
    with Cons.IH[of p' "[]"] show ?thesis
      by (auto simp: step[unfolded True] True qs simp del: feed.simps split: if_splits)
  next
    case False
    with consume_data[OF Cons.prems False r] Cons.IH[of p' "c @ [b]"] show ?thesis
      by (auto simp: step qs simp del: feed.simps)
  qed
qed simp

lemma feed_fresh:
  assumes "parserHolds p []"
  shows "fst (feed bs p) = streamVerdicts bs" "parserHolds (snd (feed bs p)) (last (splitZeros bs))"
  using feed_pieces[OF assms, of bs] by (simp_all add: streamVerdicts_def)

text \<open>A chunk given to the parser in one call: the bytes up to the first event, or all of them.\<close>

lemma consumeLoop_Cons:
  "srEvent result = SE_NONE \<Longrightarrow> consumeLoop (b # bs) result p =
    (case consumeLoop [b] result p of (r, q) \<Rightarrow> if srEvent r = SE_NONE then consumeLoop bs r q else (r, q))"
  by (simp split: prod.split)

lemma consumeLoop_single:
  assumes "consumeLoop [b] result p = (r, p')" "summary result = (SE_NONE, DR_OK, frame_init)"
  shows "\<exists>r0. sp_consume (Some [b]) 1 p = (r0, p') \<and> summary r0 = summary r"
    and "srConsumed r = srConsumed result + 1" and "srEvent r = SE_NONE \<Longrightarrow> summary r = summary result"
  using assms by (auto simp: sp_consume_def streamResult_init_def summary_def split: if_splits prod.splits)

lemma consumeLoop_feed:
  assumes "consumeLoop bs result p = (r, p')" "summary result = (SE_NONE, DR_OK, frame_init)"
  shows "\<exists>k \<le> length bs. srConsumed r = srConsumed result + k \<and> (bs \<noteq> [] \<longrightarrow> 0 < k)
    \<and> feed (take k bs) p = (if srEvent r = SE_NONE then [] else [summary r], p')
    \<and> (srEvent r = SE_NONE \<longrightarrow> k = length bs)"
  using assms
proof (induction bs arbitrary: result p)
  case (Cons b bs)
  obtain r1 p1 where one: "consumeLoop [b] result p = (r1, p1)" by fastforce
  note single = consumeLoop_single[OF one Cons.prems(2)]
  from single(1) obtain r0 where r0: "sp_consume (Some [b]) 1 p = (r0, p1)" "summary r0 = summary r1" by blast
  then have ev: "srEvent r0 = srEvent r1" by (simp add: summary_def)
  from Cons.prems have rest: "(if srEvent r1 = SE_NONE then consumeLoop bs r1 p1 else (r1, p1)) = (r, p')"
    using consumeLoop_Cons[of result b bs p] one by (simp add: summary_def del: consumeLoop.simps)
  show ?case
  proof (cases "srEvent r1 = SE_NONE")
    case True
    with rest Cons.IH[of r1 p1] single(3) Cons.prems(2) obtain k where
      "k \<le> length bs" "srConsumed r = srConsumed r1 + k"
      "feed (take k bs) p1 = (if srEvent r = SE_NONE then [] else [summary r], p')" "srEvent r = SE_NONE \<longrightarrow> k = length bs"
      by auto
    with True r0 ev single(2) show ?thesis by (intro exI[of _ "Suc k"]) (simp split: prod.splits)
  next
    case False
    with rest r0 ev single(2) show ?thesis by (intro exI[of _ 1]) simp
  qed
qed (auto simp: summary_def)

lemma splitZeros_append: "splitZeros (xs @ 0 # ys) = splitZeros xs @ splitZeros ys"
proof (induction xs)
  case (Cons x xs)
  then show ?case by (cases "splitZeros xs") auto
qed simp

lemma verdicts_append:
  "streamVerdicts (xs @ 0 # ys) = concat (map candidateVerdict (splitZeros xs)) @ streamVerdicts ys"
  by (simp add: streamVerdicts_def splitZeros_append butlast_append)

lemma splitZeros_zero_free: "0 \<notin> set b \<Longrightarrow> splitZeros b = [b]"
  by (induction b) auto

definition deliveredFrame :: "frame \<Rightarrow> verdict" where
  "deliveredFrame f = (FRAME_READY, DR_OK, f)"

lemma wire_verdict:
  assumes "sendableFrame f" "canonicalPayload f"
  shows "streamVerdicts (frameWire f @ bs) = deliveredFrame f # streamVerdicts bs"
proof -
  define c where "c = butlast (frameWire f)"
  have pl: "unat (frPayloadLength f) \<le> 128" using assms by (simp add: sendableFrame_def)
  have wire: "frameWire f = c @ [0]" by (simp add: c_def frameWire_def)
  have c: "0 \<notin> set c" "length c = 11 + unat (frPayloadLength f)"
    using frameWire_delimiter[OF pl] length_frameWire[OF pl] by (simp_all add: c_def)
  have "candidateVerdict c = [deliveredFrame f]"
    using decodeFrame_wire[OF assms, of "[]" frame_init] c pl
    by (auto simp: candidateVerdict_def deliveredFrame_def wire)
  with c show ?thesis using verdicts_append[of c bs] by (simp add: wire splitZeros_zero_free)
qed

lemma wires_verdicts:
  "list_all (\<lambda>f. sendableFrame f \<and> canonicalPayload f) fs \<Longrightarrow>
   streamVerdicts (concat (map frameWire fs) @ bs) = map deliveredFrame fs @ streamVerdicts bs"
  by (induction fs) (simp_all add: wire_verdict)

lemma verdicts_partial: "0 \<notin> set bs \<Longrightarrow> streamVerdicts bs = []"
  by (simp add: streamVerdicts_def splitZeros_zero_free)

subsection \<open>Transmission\<close>

definition pendingBytes :: "adapter \<Rightarrow> bytes" where
  "pendingBytes a = drop (adPendingOffset a) (take (adPendingLength a) (adPending a))"

definition adapterInv :: "adapter \<Rightarrow> bool" where
  "adapterInv a \<longleftrightarrow> length (adPending a) = MAX_ENCODED_FRAME_SIZE \<and> adPendingLength a \<le> MAX_ENCODED_FRAME_SIZE
     \<and> (adPendingLength a = 0 \<and> adPendingOffset a = 0 \<or> adPendingOffset a < adPendingLength a)"

text \<open>What the transport relies on: a write takes some of the offered bytes, in order, and says how many; asking for
  room sends nothing.  The function \<open>sent\<close> gives the bytes that went out.\<close>

definition sinkContract :: "'s byteStream \<Rightarrow> ('s \<Rightarrow> bytes) \<Rightarrow> bool" where
  "sinkContract stream sent \<longleftrightarrow>
     (\<forall>bs s k s'. bsWrite stream bs s = (k, s') \<longrightarrow> k \<le> length bs \<and> sent s' = sent s @ take k bs)
     \<and> (\<forall>s n s'. bsAvailableForWrite stream s = (n, s') \<longrightarrow> sent s' = sent s)"

lemma slice_pending:
  "adapterInv a \<Longrightarrow> k \<le> adPendingLength a - adPendingOffset a \<Longrightarrow> slice (adPendingOffset a) k (adPending a) = take k (pendingBytes a)"
  by (simp add: slice_def pendingBytes_def drop_take min_absorb1)

lemma serviceTx_conserves:
  assumes "sinkContract stream sent" "adapterInv a" "serviceTx budget stream a s = (r, a', s')"
  shows "adapterInv a'" "sent s' @ pendingBytes a' = sent s @ pendingBytes a" "adParser a' = adParser a"
    "txStatus r \<noteq> TX_OUTPUT_ERROR"
proof -
  obtain n s1 where n: "bsAvailableForWrite stream s = (n, s1)" by fastforce
  define m where "m = min (min (nat n) budget) (adPendingLength a - adPendingOffset a)"
  obtain k s2 where k: "bsWrite stream (slice (adPendingOffset a) m (adPending a)) s1 = (k, s2)" by fastforce
  have sent: "sent s1 = sent s" using assms(1) n by (auto simp: sinkContract_def)
  have slice: "slice (adPendingOffset a) m (adPending a) = take m (pendingBytes a)"
    using assms(2) by (rule slice_pending) (simp add: m_def)
  have "k \<le> length (take m (pendingBytes a)) \<and> sent s2 = sent s1 @ take k (take m (pendingBytes a))"
    using assms(1) k[unfolded slice] unfolding sinkContract_def by blast
  then have km: "k \<le> m" "sent s2 = sent s @ take k (pendingBytes a)"
    using sent by (simp_all add: min_absorb1)
  have fit: "k = 0 \<or> adPendingOffset a + k \<le> adPendingLength a" using km(1) by (auto simp: m_def)
  have split: "take k (pendingBytes a) @ drop k (pendingBytes a) = pendingBytes a" by simp
  consider (same) "a' = a" "s' = s \<or> s' = s1 \<or> s' = s2 \<and> k = 0" "txStatus r \<noteq> TX_OUTPUT_ERROR"
    | (finished) "s' = s2" "a' = a\<lparr>adPendingLength := 0, adPendingOffset := 0\<rparr>" "adPendingOffset a + k = adPendingLength a"
        "txStatus r \<noteq> TX_OUTPUT_ERROR"
    | (more) "s' = s2" "a' = a\<lparr>adPendingOffset := adPendingOffset a + k\<rparr>" "adPendingOffset a + k < adPendingLength a"
        "txStatus r \<noteq> TX_OUTPUT_ERROR"
    using assms(3) n k km(1) fit by (auto simp: serviceTx_def remainingTx_def m_def[symmetric] split: if_splits)
  then show "adapterInv a'" "sent s' @ pendingBytes a' = sent s @ pendingBytes a" "adParser a' = adParser a"
      "txStatus r \<noteq> TX_OUTPUT_ERROR"
    using assms(2) km sent split
    by (cases; auto simp: adapterInv_def pendingBytes_def drop_take add.commute)+
qed

lemma submit_accepts:
  assumes "adapterInv a" "submit (Some bs) (length bs) a = (SUBMIT_OK, a')"
  shows "adapterInv a'" "pendingBytes a = []" "pendingBytes a' = bs" "adParser a' = adParser a"
    "\<exists>f. bs = frameWire f \<and> sendableFrame f \<and> canonicalPayload f"
proof -
  from assms(2) have idle: "adPendingLength a = 0" and len: "length bs \<noteq> 0" "length bs \<le> 140"
    and ok: "fst (decodeFrame (Some bs) (length bs) frame_init) = DR_OK"
    and a': "a' = a\<lparr>adPending := copyBytes (adPending a) 0 bs (length bs), adPendingLength := length bs, adPendingOffset := 0\<rparr>"
    by (auto simp: submit_def split: if_splits)
  from ok obtain f where f: "decodeFrame (Some bs) (length bs) frame_init = (DR_OK, f)"
    by (cases "decodeFrame (Some bs) (length bs) frame_init") auto
  from decodeFrame_sound[OF this] show "\<exists>f. bs = frameWire f \<and> sendableFrame f \<and> canonicalPayload f" by auto
  show "adapterInv a'" "pendingBytes a = []" "pendingBytes a' = bs" "adParser a' = adParser a"
    using assms(1) idle len by (auto simp: a' adapterInv_def pendingBytes_def copyBytes_whole)
qed

text \<open>A history of the sending side: frames offered, and calls of the transmit service with their budgets.\<close>

datatype linkOp = Submit bytes | Transmit nat

fun txRun :: "'s byteStream \<Rightarrow> linkOp list \<Rightarrow> adapter \<Rightarrow> 's \<Rightarrow> bytes list \<times> adapter \<times> 's" where
  "txRun stream [] a s = ([], a, s)"
| "txRun stream (Submit bs # ops) a s = (case submit (Some bs) (length bs) a of (st, a) \<Rightarrow>
     case txRun stream ops a s of (acc, a, s) \<Rightarrow> (if st = SUBMIT_OK then bs # acc else acc, a, s))"
| "txRun stream (Transmit budget # ops) a s = (case serviceTx budget stream a s of (r, a, s) \<Rightarrow> txRun stream ops a s)"

lemma submit_refused: "submit input n a = (st, a') \<Longrightarrow> st \<noteq> SUBMIT_OK \<Longrightarrow> a' = a"
  by (auto simp: submit_def split: if_splits)

lemma txRun_conserves:
  assumes "sinkContract stream sent" "adapterInv a" "txRun stream ops a s = (acc, a', s')"
  shows "adapterInv a' \<and> sent s' @ pendingBytes a' = sent s @ pendingBytes a @ concat acc
    \<and> (\<exists>fs. acc = map frameWire fs \<and> list_all (\<lambda>f. sendableFrame f \<and> canonicalPayload f) fs)"
  using assms
proof (induction stream ops a s arbitrary: acc rule: txRun.induct)
  case (2 stream bs ops a s)
  obtain st a1 where st: "submit (Some bs) (length bs) a = (st, a1)" by fastforce
  obtain acc1 a2 s2 where run: "txRun stream ops a1 s = (acc1, a2, s2)" by (metis prod_cases3)
  show ?case
  proof (cases "st = SUBMIT_OK")
    case True
    note ok = submit_accepts[OF "2.prems"(2) st[unfolded True]]
    from ok(5) obtain f where f: "bs = frameWire f" "sendableFrame f" "canonicalPayload f" by blast
    from "2.prems"(3) st run True have acc: "acc = bs # acc1" "a' = a2" "s' = s2" by auto
    with "2.IH"[OF st[symmetric] "2.prems"(1) ok(1), of acc1] run ok(2,3) obtain fs where
      "adapterInv a'" "sent s' @ pendingBytes a' = sent s @ bs @ concat acc1"
      "acc1 = map frameWire fs" "list_all (\<lambda>f. sendableFrame f \<and> canonicalPayload f) fs" by auto
    with f acc ok(2) show ?thesis by (auto intro: exI[of _ "f # fs"])
  next
    case False
    with "2.prems" st run "2.IH"[OF st[symmetric], of acc] submit_refused[OF st False] show ?thesis by auto
  qed
next
  case (3 stream budget ops a s)
  obtain r a1 s1 where tx: "serviceTx budget stream a s = (r, a1, s1)" by (metis prod_cases3)
  note step = serviceTx_conserves[OF "3.prems"(1,2) tx]
  from "3.IH"[OF tx[symmetric] refl "3.prems"(1) step(1), of acc] "3.prems"(3) tx step(2) show ?case
    by (auto simp flip: append_assoc)
qed auto

subsection \<open>Reception\<close>

text \<open>What the transport relies on when it receives: bytes are announced only when there are some, and a read then
  takes the first.  The function \<open>incoming\<close> gives the bytes that have arrived and were not yet read.\<close>

definition sourceContract :: "'s byteStream \<Rightarrow> ('s \<Rightarrow> bytes) \<Rightarrow> bool" where
  "sourceContract stream incoming \<longleftrightarrow>
     (\<forall>s n s'. bsAvailable stream s = (n, s') \<longrightarrow> incoming s' = incoming s \<and> (0 < n \<longleftrightarrow> incoming s \<noteq> []))
     \<and> (\<forall>s v s'. bsRead stream s = (v, s') \<longrightarrow> incoming s \<noteq> [] \<longrightarrow>
          v = uint (hd (incoming s)) \<and> incoming s' = tl (incoming s))"

definition rxVerdicts :: "rxResult \<Rightarrow> verdict list" where
  "rxVerdicts r = (if rxStatus r = RX_PARSER_EVENT then [summary (rxParserResult r)] else [])"

lemma rxIdle_quiet:
  "rxStatus result = RX_NO_ACTIVITY \<Longrightarrow> rxVerdicts (rxIdle result) = [] \<and> rxStatus (rxIdle result) \<noteq> RX_INPUT_ERROR
     \<and> rxBytesRead (rxIdle result) = rxBytesRead result"
  by (simp add: rxIdle_def rxVerdicts_def)

lemma serviceRxLoop_feed:
  assumes "sourceContract stream incoming" "serviceRxLoop left stream result a s = (r, a', s')" "rxStatus result = RX_NO_ACTIVITY"
  shows "\<exists>k \<le> left. rxBytesRead r = rxBytesRead result + k \<and> k \<le> length (incoming s) \<and> incoming s' = drop k (incoming s)
    \<and> feed (take k (incoming s)) (adParser a) = (rxVerdicts r, adParser a') \<and> rxStatus r \<noteq> RX_INPUT_ERROR
    \<and> (rxVerdicts r = [] \<longrightarrow> k = min left (length (incoming s)))"
  using assms(2,3)
proof (induction left arbitrary: result a s)
  case 0
  then show ?case using rxIdle_quiet[of result] by auto
next
  case (Suc left)
  obtain n s1 where n: "bsAvailable stream s = (n, s1)" by fastforce
  obtain v s2 where v: "bsRead stream s1 = (v, s2)" by fastforce
  have n': "incoming s1 = incoming s" "0 < n \<longleftrightarrow> incoming s \<noteq> []" using assms(1) n unfolding sourceContract_def by blast+
  show ?case
  proof (cases "incoming s")
    case Nil
    with Suc.prems n n' rxIdle_quiet[of result] show ?thesis by (auto split: if_splits)
  next
    case (Cons b bs)
    then have v': "v = uint b" "incoming s2 = bs"
      using assms(1) v n' unfolding sourceContract_def by (metis list.sel list.distinct(1))+
    obtain pr p1 where pr: "sp_consume (Some [b]) 1 (adParser a) = (pr, p1)" by fastforce
    define result1 where "result1 = result\<lparr>rxParserResult := pr, rxBytesRead := rxBytesRead result + 1\<rparr>"
    have step: "serviceRxLoop (Suc left) stream result a s =
      (if srEvent pr \<noteq> SE_NONE then (result1\<lparr>rxStatus := RX_PARSER_EVENT\<rparr>, a\<lparr>adParser := p1\<rparr>, s2)
       else serviceRxLoop left stream result1 (a\<lparr>adParser := p1\<rparr>) s2)"
      using n v n' Cons pr by (simp add: v' result1_def)
    show ?thesis
    proof (cases "srEvent pr = SE_NONE")
      case True
      with Suc.prems step Suc.IH[of result1 "a\<lparr>adParser := p1\<rparr>" s2] v'(2) obtain k where
        "k \<le> left" "rxBytesRead r = rxBytesRead result1 + k" "k \<le> length bs" "incoming s' = drop k bs"
        "feed (take k bs) p1 = (rxVerdicts r, adParser a')" "rxStatus r \<noteq> RX_INPUT_ERROR"
        "rxVerdicts r = [] \<longrightarrow> k = min left (length bs)"
        by (auto simp: result1_def)
      with True pr Cons show ?thesis by (intro exI[of _ "Suc k"]) (simp add: result1_def)
    next
      case False
      with Suc.prems step pr Cons v'(2) show ?thesis
        by (intro exI[of _ 1]) (auto simp: result1_def rxVerdicts_def)
    qed
  qed
qed

text \<open>A history of the receiving side: one call of the receive service for each budget.\<close>

fun rxRun :: "'s byteStream \<Rightarrow> nat list \<Rightarrow> adapter \<Rightarrow> 's \<Rightarrow> verdict list \<times> adapter \<times> 's" where
  "rxRun stream [] a s = ([], a, s)"
| "rxRun stream (budget # budgets) a s = (case serviceRx budget stream a s of (r, a, s) \<Rightarrow>
     case rxRun stream budgets a s of (vs, a, s) \<Rightarrow> (rxVerdicts r @ vs, a, s))"

lemma feed_append: "feed (xs @ ys) p = (let (vs, q) = feed xs p; (ws, q') = feed ys q in (vs @ ws, q'))"
  by (induction xs arbitrary: p) (auto split: prod.splits)

lemma rxRun_feed:
  assumes "sourceContract stream incoming" "rxRun stream budgets a s = (vs, a', s')"
  shows "\<exists>k \<le> length (incoming s). incoming s' = drop k (incoming s) \<and> feed (take k (incoming s)) (adParser a) = (vs, adParser a')"
  using assms(2)
proof (induction budgets arbitrary: a s vs)
  case (Cons budget budgets)
  obtain r a1 s1 where rx: "serviceRx budget stream a s = (r, a1, s1)" by (metis prod_cases3)
  with Cons.prems obtain ws where run: "rxRun stream budgets a1 s1 = (ws, a', s')" and vs: "vs = rxVerdicts r @ ws"
    by (auto split: prod.splits)
  from serviceRxLoop_feed[OF assms(1) rx[unfolded serviceRx_def]] obtain k where
    k: "k \<le> length (incoming s)" "incoming s1 = drop k (incoming s)"
      "feed (take k (incoming s)) (adParser a) = (rxVerdicts r, adParser a1)" by auto
  from Cons.IH[OF run] obtain m where
    m: "m \<le> length (incoming s1)" "incoming s' = drop m (incoming s1)"
      "feed (take m (incoming s1)) (adParser a1) = (ws, adParser a')" by auto
  have "take (k + m) (incoming s) = take k (incoming s) @ take m (incoming s1)" using k(2) by (simp add: take_add)
  with k m vs show ?case
    by (intro exI[of _ "k + m"]) (auto simp: feed_append add.commute)
qed auto

subsection \<open>Properties\<close>

text \<open>C30. The parser with its 139-byte buffer reports what the whole stream determines.  After any bytes, the events are
  the verdicts on the pieces between delimiters (nothing for an empty piece, an oversize report for a piece beyond the
  buffer, otherwise the decoder's answer), whatever came before, and the buffer index stays within its bound.  Giving
  the parser a chunk in one call consumes at least one byte and is the same as giving it these bytes one by one; a call
  that reports nothing has consumed the whole chunk.\<close>

theorem stream_parser_reference:
  assumes "length storage = MAX_COBS_CANDIDATE_SIZE" "feed bs (streamParser_new storage) = (vs, p)"
    and "sp_consume (Some chunk) (length chunk) p = (r, q)" "chunk \<noteq> []"
  shows "vs = streamVerdicts bs \<and> spCandidateLength p \<le> MAX_COBS_CANDIDATE_SIZE
    \<and> 0 < srConsumed r \<and> srConsumed r \<le> length chunk
    \<and> feed (take (srConsumed r) chunk) p = (if srEvent r = SE_NONE then [] else [summary r], q)
    \<and> (srEvent r = SE_NONE \<longrightarrow> srConsumed r = length chunk)"
proof -
  have "summary streamResult_init = (SE_NONE, DR_OK, frame_init)" "srConsumed streamResult_init = 0"
    by (simp_all add: summary_def streamResult_init_def)
  with assms(3,4) consumeLoop_feed[of chunk streamResult_init p r q] obtain k where
    "k \<le> length chunk" "srConsumed r = k" "0 < k"
    "feed (take k chunk) p = (if srEvent r = SE_NONE then [] else [summary r], q)" "srEvent r = SE_NONE \<longrightarrow> k = length chunk"
    by (auto simp: sp_consume_def)
  with feed_fresh[OF parserHolds_new[OF assms(1)], of bs] assms(2) show ?thesis by (simp add: parserHolds_def)
qed

text \<open>The link recovers from any noise.  Whatever bytes a parser has seen, after the next delimiter every frame
  that follows is delivered, complete, unchanged and in order, with nothing in between.\<close>

theorem stream_resynchronises:
  assumes "length storage = MAX_COBS_CANDIDATE_SIZE" "list_all (\<lambda>f. sendableFrame f \<and> canonicalPayload f) fs"
  shows "fst (feed (noise @ FRAME_DELIMITER # concat (map frameWire fs)) (streamParser_new storage))
    = fst (feed (noise @ [FRAME_DELIMITER]) (streamParser_new storage)) @ map deliveredFrame fs"
  using feed_fresh(1)[OF parserHolds_new[OF assms(1)]] wires_verdicts[OF assms(2), of "[]"]
    verdicts_append[of noise "concat (map frameWire fs)"] verdicts_append[of noise "[]"] verdicts_partial[of "[]"]
  by simp

theorem stream_resynchronises_witness:
  "fst (feed (replicate 200 7 @ 0 # frameWire sampleFrame @ frameWire sampleFrame) (streamParser_new (fillZero 139)))
    = [(OVERSIZED_CANDIDATE, DR_ENCODED_FRAME_TOO_LARGE, frame_init), deliveredFrame sampleFrame, deliveredFrame sampleFrame]"
proof -
  have "fst (feed (replicate 200 7 @ [0]) (streamParser_new (fillZero 139)))
    = [(OVERSIZED_CANDIDATE, DR_ENCODED_FRAME_TOO_LARGE, frame_init)]"
    using feed_fresh(1)[OF parserHolds_new, of "fillZero 139" "replicate 200 7 @ [0]"]
      verdicts_append[of "replicate 200 7" "[]"] verdicts_partial[of "[]"]
    by (simp add: splitZeros_zero_free candidateVerdict_def)
  with stream_resynchronises[of "fillZero 139" "[sampleFrame, sampleFrame]" "replicate 200 7"] sampleFrame_sendable
  show ?thesis by simp
qed

text \<open>C15. Frames submitted on one side come out on the other.  Over any interleaving of submissions and transmit calls
  with any budgets and any partial writes of the serial device, the accepted submissions are wire images of allowed
  frames; what was sent together with what is still pending is their concatenation, so no byte is lost, repeated or
  reordered.  Once nothing is pending, a fresh receiver that is called with any budgets until it has read what was sent
  delivers exactly the accepted frames, in order, and reports nothing else.\<close>

theorem host_link_delivery:
  assumes "sinkContract stream sent" "sourceContract source incoming"
    and "adapterInv a" "\<not> hasPendingTx a" "sent s = []" "txRun stream ops a s = (accepted, a', s')"
    and "incoming t = sent s'" "parserHolds (adParser b) []" "rxRun source budgets b t = (vs, b', t')" "incoming t' = []"
  shows "\<exists>fs. accepted = map frameWire fs \<and> list_all (\<lambda>f. sendableFrame f \<and> canonicalPayload f) fs
    \<and> sent s' @ pendingBytes a' = concat accepted
    \<and> (\<not> hasPendingTx a' \<longrightarrow> vs = map deliveredFrame fs)"
proof -
  have idle: "pendingBytes x = []" if "\<not> hasPendingTx x" for x
    using that by (simp add: hasPendingTx_def pendingBytes_def)
  from txRun_conserves[OF assms(1,3,6)] idle[OF assms(4)] assms(5) obtain fs where
    fs: "accepted = map frameWire fs" "list_all (\<lambda>f. sendableFrame f \<and> canonicalPayload f) fs"
      "sent s' @ pendingBytes a' = concat accepted" by auto
  from rxRun_feed[OF assms(2,9)] assms(10) have "feed (incoming t) (adParser b) = (vs, adParser b')" by auto
  then have vs: "vs = streamVerdicts (sent s')" using feed_fresh(1)[OF assms(8), of "incoming t"] assms(7) by simp
  have "vs = map deliveredFrame fs" if "\<not> hasPendingTx a'"
    using vs fs idle[OF that] wires_verdicts[OF fs(2), of "[]"] verdicts_partial[of "[]"] by simp
  with fs show ?thesis by blast
qed

text \<open>A serial device that keeps what was written as what can be read.\<close>

definition loopbackSerial :: "bytes byteStream" where
  "loopbackSerial = \<lparr>bsAvailable = (\<lambda>s. (int (length s), s)),
     bsRead = (\<lambda>s. if s = [] then (- 1, []) else (uint (hd s), tl s)),
     bsAvailableForWrite = (\<lambda>s. (256, s)), bsWrite = (\<lambda>bs s. (length bs, s @ bs))\<rparr>"

lemma loopback_contracts: "sinkContract loopbackSerial id" "sourceContract loopbackSerial id"
  by (auto simp: sinkContract_def sourceContract_def loopbackSerial_def)

definition freshAdapter :: adapter where
  "freshAdapter = adapter_new (fillZero MAX_COBS_CANDIDATE_SIZE) (fillZero MAX_ENCODED_FRAME_SIZE)"

lemma freshAdapter_idle: "adapterInv freshAdapter" "\<not> hasPendingTx freshAdapter" "parserHolds (adParser freshAdapter) []"
  by (simp_all add: freshAdapter_def adapter_new_def adapterInv_def hasPendingTx_def parserHolds_def streamParser_new_def)

lemma sample_length: "length (frameWire sampleFrame) = 15"
  by (subst length_frameWire) (simp_all add: sampleFrame_def)

lemma loopback_tx:
  "\<exists>a. \<not> hasPendingTx a \<and> txRun loopbackSerial [Submit (frameWire sampleFrame), Transmit 200] freshAdapter []
    = ([frameWire sampleFrame], a, frameWire sampleFrame)"
proof -
  have "fst (decodeFrame (Some (frameWire sampleFrame)) 15 frame_init) = DR_OK"
    using decodeFrame_wire[OF sampleFrame_sendable, of "[]" frame_init] sample_length by simp
  then have "submit (Some (frameWire sampleFrame)) (length (frameWire sampleFrame)) freshAdapter
    = (SUBMIT_OK, freshAdapter\<lparr>adPending := copyBytes (fillZero 140) 0 (frameWire sampleFrame) 15, adPendingLength := 15, adPendingOffset := 0\<rparr>)"
    by (simp add: submit_def freshAdapter_def adapter_new_def sample_length)
  then show ?thesis
    using sample_length
    by (simp add: serviceTx_def loopbackSerial_def remainingTx_def hasPendingTx_def slice_def copyBytes_whole)
qed

lemma wire_inj:
  assumes "frameWire f = frameWire g" "sendableFrame f" "canonicalPayload f" "sendableFrame g" "canonicalPayload g"
  shows "f = g"
  using decodeFrame_wire[OF assms(2,3), of "[]" frame_init] decodeFrame_wire[OF assms(4,5), of "[]" frame_init] assms(1) by simp

lemma loopback_rx:
  "\<exists>vs b. rxRun loopbackSerial [200] freshAdapter (frameWire sampleFrame) = (vs, b, [])"
proof -
  let ?w = "frameWire sampleFrame"
  obtain r b t where rx: "serviceRx 200 loopbackSerial freshAdapter ?w = (r, b, t)" by (metis prod_cases3)
  from serviceRxLoop_feed[OF loopback_contracts(2) rx[unfolded serviceRx_def]] obtain k where
    k: "k \<le> 15" "t = drop k ?w" "feed (take k ?w) (adParser freshAdapter) = (rxVerdicts r, adParser b)"
      "rxVerdicts r = [] \<longrightarrow> k = 15" by (auto simp: sample_length)
  have "k = 15"
  proof (rule ccontr)
    assume "k \<noteq> 15"
    then have "take k ?w = take k (butlast ?w)" using k(1) sample_length by (simp add: butlast_conv_take)
    then have "0 \<notin> set (take k ?w)"
      using frameWire_delimiter[of sampleFrame] by (auto simp: sampleFrame_def dest: in_set_takeD)
    then have "rxVerdicts r = []"
      using feed_fresh(1)[OF freshAdapter_idle(3), of "take k ?w"] k(3) verdicts_partial by simp
    with k(4) \<open>k \<noteq> 15\<close> show False by simp
  qed
  with k(2) rx sample_length show ?thesis by simp
qed

theorem host_link_delivery_witness:
  "fst (rxRun loopbackSerial [200] freshAdapter
     (snd (snd (txRun loopbackSerial [Submit (frameWire sampleFrame), Transmit 200] freshAdapter [])))) = [deliveredFrame sampleFrame]"
proof -
  obtain a where a: "\<not> hasPendingTx a"
    "txRun loopbackSerial [Submit (frameWire sampleFrame), Transmit 200] freshAdapter [] = ([frameWire sampleFrame], a, frameWire sampleFrame)"
    using loopback_tx by blast
  obtain vs b where rx: "rxRun loopbackSerial [200] freshAdapter (frameWire sampleFrame) = (vs, b, [])" using loopback_rx by blast
  from host_link_delivery[OF loopback_contracts freshAdapter_idle(1,2) _ a(2) _ freshAdapter_idle(3) rx] a(1)
  obtain f where "frameWire f = frameWire sampleFrame" "sendableFrame f" "canonicalPayload f" "vs = [deliveredFrame f]"
    by (auto simp: Cons_eq_map_conv)
  with wire_inj[of f sampleFrame] sampleFrame_sendable a rx show ?thesis by simp
qed

theorem stream_parser_reference_witness:
  "fst (feed (frameWire sampleFrame) (streamParser_new (fillZero 139))) = [deliveredFrame sampleFrame]"
proof -
  obtain vs p where "feed (frameWire sampleFrame) (streamParser_new (fillZero 139)) = (vs, p)" by fastforce
  moreover obtain r q where "sp_consume (Some [0]) (length [0 :: u8]) p = (r, q)" by fastforce
  ultimately have "vs = streamVerdicts (frameWire sampleFrame)"
    using stream_parser_reference[of "fillZero 139" "frameWire sampleFrame" vs p "[0]" r q] by simp
  then show ?thesis
    using \<open>feed _ _ = (vs, p)\<close> wire_verdict[OF sampleFrame_sendable, of "[]"] verdicts_partial[of "[]"] by simp
qed

end
