(* ===== verification/HostStack.thy ===== *)
theory HostStack
  imports HostRoleIntegration OperationProperties HostLink
begin

text \<open>
  The host stack over its lives: whatever bytes arrive, whatever the radio brings and whenever the host comes and goes, the stack
  keeps the invariants of its parts, and an answer that is ready becomes one frame with the answer in it.
\<close>

subsection \<open>What the parser hands over\<close>

definition parserOk :: "streamParser \<Rightarrow> bool" where
  "parserOk p = (\<exists>c. parserHolds p c)"

lemma consume_any:
  assumes "parserHolds p c" "sp_consume (Some [b]) 1 p = (r, p')"
  shows "parserOk p' \<and> (srEvent r = FRAME_READY \<longrightarrow> sendableFrame (srFrame r) \<and> canonicalPayload (srFrame r))"
proof (cases "b = 0")
  case False
  then show ?thesis using consume_data [OF assms(1) False assms(2)] by (auto simp: parserOk_def)
next
  case True
  note D = consume_delimiter [OF assms(1) assms(2) [unfolded True]]
  have "sendableFrame (srFrame r) \<and> canonicalPayload (srFrame r)" if ready: "srEvent r = FRAME_READY"
  proof -
    have v: "candidateVerdict c = [summary r]" using D ready by simp
    have "decodeFrame (Some (c @ [0])) (length c + 1) frame_init = (DR_OK, srFrame r)"
      using v ready by (auto simp: candidateVerdict_def summary_def split: if_splits prod.splits)
    from decodeFrame_sound [OF this] show ?thesis by simp
  qed
  then show ?thesis using D by (auto simp: parserOk_def)
qed

lemma serviceRxLoop_ok:
  assumes "parserOk (adParser a)" "adapterInv a" "serviceRxLoop left stream result a s = (r, a', s')" "rxStatus result = RX_NO_ACTIVITY"
  shows "parserOk (adParser a') \<and> adapterInv a' \<and> adPendingLength a' = adPendingLength a
    \<and> (rxStatus r = RX_PARSER_EVENT \<and> srEvent (rxParserResult r) = FRAME_READY \<longrightarrow>
        sendableFrame (srFrame (rxParserResult r)) \<and> canonicalPayload (srFrame (rxParserResult r)))"
  using assms
proof (induction left arbitrary: result a s)
  case 0
  then show ?case by (auto simp: rxIdle_def split: if_splits)
next
  case (Suc left)
  obtain n s1 where n: "bsAvailable stream s = (n, s1)" by fastforce
  obtain v s2 where v: "bsRead stream s1 = (v, s2)" by fastforce
  obtain pr p where p: "sp_consume (Some [of_int v]) 1 (adParser a) = (pr, p)" by fastforce
  show ?case
  proof (cases "n \<le> 0 \<or> v < 0 \<or> srEvent pr \<noteq> streamEvent.SE_NONE")
    case True
    obtain c where "parserHolds (adParser a) c" using Suc.prems(1) by (auto simp: parserOk_def)
    note C = consume_any [OF this p]
    show ?thesis using True C Suc.prems n v p by (auto simp: rxIdle_def adapterInv_def Let_def split: if_splits)
  next
    case False
    obtain c where "parserHolds (adParser a) c" using Suc.prems(1) by (auto simp: parserOk_def)
    note C = consume_any [OF this p]
    show ?thesis
      using Suc.IH [of "a\<lparr>adParser := p\<rparr>" "result\<lparr>rxParserResult := pr, rxBytesRead := rxBytesRead result + 1\<rparr>" s2] False C Suc.prems n v p
      by (auto simp: adapterInv_def Let_def split: if_splits)
  qed
qed

subsection \<open>A frame for the host\<close>

lemma response_length:
  assumes "validateOperationResponse minor r = PR_OK"
  shows "unat (tvLength (opValue r)) \<le> 119"
proof -
  have scalar: "unat (tvLength v) \<le> 4" if "isValidScalarValue v" for v
    using that by (cases "valueType_of (tvType v)") (auto simp: isValidScalarValue_def expectedScalarValueLength_def split: if_splits)
  have none: "unat (tvLength v) = 0" if "isNoneValue v" for v using that by (simp add: isNoneValue_def)
  have struct: "unat (tvLength v) \<le> 119" if "isValidStructureValue op v" for op v
    using that by (cases op) (auto simp: isValidStructureValue_def Let_def word_le_nat_alt split: if_splits)
  have success: "unat (tvLength v) \<le> 119" if "isValidSuccessfulOperationValue op v" for op v
    using that scalar [of v] none [of v] struct [of op v] by (cases op) (auto simp: isNonNoneScalarValue_def)
  show ?thesis
    using assms none [of "opValue r"] struct [of "opOperation r" "opValue r"] success [of "opOperation r" "opValue r"]
    by (auto simp: validateOperationResponse_def Let_def okIf_def split: if_splits)
qed

definition hostFrame :: "u8 \<Rightarrow> messageType \<Rightarrow> u16 \<Rightarrow> bytes \<Rightarrow> nat \<Rightarrow> frame" where
  "hostFrame minor type requestId payload n = frame_init\<lparr>frMajor := VERSION_MAJOR, frMinor := minor, frMessageType := type, frRequestId := requestId,
     frPayloadLength := of_nat n, frPayload := copyBytes (frPayload frame_init) 0 payload n\<rparr>"

lemma hostFrame_fields [simp]:
  "frMinor (hostFrame minor type requestId payload n) = minor" "frMessageType (hostFrame minor type requestId payload n) = type"
  "frRequestId (hostFrame minor type requestId payload n) = requestId" "frPayloadLength (hostFrame minor type requestId payload n) = of_nat n"
  by (simp_all add: hostFrame_def)

lemma hostFrame_ok:
  assumes "isSupportedVersion VERSION_MAJOR minor" "isKnownMessageType type" "isValidRequestId requestId" "n \<le> 128" "n \<le> length payload"
  shows "sendableFrame (hostFrame minor type requestId payload n)" "canonicalPayload (hostFrame minor type requestId payload n)"
    "take n (frPayload (hostFrame minor type requestId payload n)) = take n payload"
proof -
  have n: "unat (of_nat n :: u16) = n" using assms(4) by (simp add: unat_of_nat)
  then show "sendableFrame (hostFrame minor type requestId payload n)"
    using assms by (simp add: sendableFrame_def hostFrame_def frame_init_def isValidEnvelopeRequestId_def hasSupportedFlags_def)
  have "list_all (\<lambda>b. b = 0) (drop n (copyBytes (fillZero 128) 0 payload n))"
    using assms(4) by (auto simp: list_all_length nth_copyBytes)
  then show "canonicalPayload (hostFrame minor type requestId payload n)"
    using n by (simp add: canonicalPayload_def hostFrame_def frame_init_def)
  show "take n (frPayload (hostFrame minor type requestId payload n)) = take n payload"
    by (rule nth_equalityI) (use assms in \<open>auto simp: hostFrame_def frame_init_def nth_copyBytes\<close>)
qed

lemma submitFrame_accepted:
  assumes "adapterInv (skTransport k)" "\<not> hasPendingTx (skTransport k)"
    and ok: "isSupportedVersion VERSION_MAJOR minor" "isKnownMessageType type" "isValidRequestId requestId" "n \<le> 128" "n \<le> length payload"
  shows "\<exists>a. hs_submitFrame minor type requestId payload n k
      = (True, k\<lparr>skTransport := a, skDiagnostics := observeResponseHandoff (skDiagnostics k)\<rparr>)
    \<and> adapterInv a \<and> pendingBytes a = frameWire (hostFrame minor type requestId payload n) \<and> adParser a = adParser (skTransport k)"
proof -
  let ?f = "hostFrame minor type requestId payload n" and ?w = "frameWire (hostFrame minor type requestId payload n)"
  note fr = hostFrame_ok [OF ok]
  have n: "unat (of_nat n :: u16) = n" using ok(4) by (simp add: unat_of_nat)
  have len: "length ?w = 12 + n" using length_frameWire [of ?f] n ok(4) by simp
  let ?out = "?w @ drop (12 + n) (fillZero 140)"
  have enc: "encodeFrame ?f (Some (fillZero 140)) 140 = (ER_OK, 12 + n, Some ?out)"
    using encodeFrame_wire [OF fr(1), of 140 "fillZero 140"] n ok(4) by simp
  have dec: "decodeFrame (Some ?out) (12 + n) frame_init = (DR_OK, ?f)"
    using decodeFrame_wire [OF fr(1,2), of "drop (12 + n) (fillZero 140)" frame_init] len by simp
  define a where "a = (skTransport k)\<lparr>adPending := copyBytes (adPending (skTransport k)) 0 ?out (12 + n), adPendingLength := 12 + n, adPendingOffset := 0\<rparr>"
  have sub: "submit (Some ?out) (12 + n) (skTransport k) = (SUBMIT_OK, a)"
    using assms(2) dec ok(4) by (simp add: submit_def hasPendingTx_def a_def)
  have "take (12 + n) (copyBytes (adPending (skTransport k)) 0 ?out (12 + n)) = ?w"
    by (rule nth_equalityI) (use assms(1) len ok(4) in \<open>auto simp: adapterInv_def nth_copyBytes nth_append\<close>)
  then have "adapterInv a \<and> pendingBytes a = ?w \<and> adParser a = adParser (skTransport k)"
    using assms(1) ok(4) by (simp add: a_def adapterInv_def pendingBytes_def)
  moreover have "hs_submitFrame minor type requestId payload n k = (True, k\<lparr>skTransport := a, skDiagnostics := observeResponseHandoff (skDiagnostics k)\<rparr>)"
    unfolding hs_submitFrame_def Let_def hostFrame_def [symmetric] using enc sub by simp
  ultimately show ?thesis by blast
qed

text \<open>The transport holds a frame with an answer.\<close>

definition carries :: "adapter \<Rightarrow> u8 \<Rightarrow> u16 \<Rightarrow> operationResponse \<Rightarrow> bool" where
  "carries a minor requestId r = (\<exists>g n out. pendingBytes a = frameWire g \<and> sendableFrame g \<and> canonicalPayload g
     \<and> frMessageType g = OPERATION_RESPONSE \<and> frMinor g = minor \<and> frRequestId g = requestId
     \<and> encodeOperationResponse minor r (Some (fillZero HOST_MAX_PAYLOAD_SIZE)) HOST_MAX_PAYLOAD_SIZE = (PR_OK, n, Some out)
     \<and> frPayloadLength g = of_nat n \<and> n \<le> 128 \<and> take n (frPayload g) = take n out)"

lemma submitOperationResponse_accepted:
  assumes "adapterInv (skTransport k)" "\<not> hasPendingTx (skTransport k)"
    and "isSupportedVersion VERSION_MAJOR minor" "isValidRequestId requestId" "validateOperationResponse minor r = PR_OK"
  shows "\<exists>a. submitOperationResponse minor requestId r k = (True, k\<lparr>skTransport := a, skDiagnostics := observeResponseHandoff (skDiagnostics k)\<rparr>)
    \<and> adapterInv a \<and> adParser a = adParser (skTransport k) \<and> carries a minor requestId r"
proof -
  let ?n = "9 + unat (tvLength (opValue r))"
  have n: "?n \<le> 128" using response_length [OF assms(5)] by simp
  obtain out where enc: "encodeOperationResponse minor r (Some (fillZero 128)) 128 = (PR_OK, ?n, Some out)" "length out = 128"
    using assms(5) n by (simp add: encodeOperationResponse_def Let_def putLe16_def)
  from submitFrame_accepted [OF assms(1,2,3) _ assms(4) n, of OPERATION_RESPONSE out] enc n obtain a where
    a: "hs_submitFrame minor OPERATION_RESPONSE requestId out ?n k = (True, k\<lparr>skTransport := a, skDiagnostics := observeResponseHandoff (skDiagnostics k)\<rparr>)"
      "adapterInv a" "pendingBytes a = frameWire (hostFrame minor OPERATION_RESPONSE requestId out ?n)" "adParser a = adParser (skTransport k)"
    by auto
  have "carries a minor requestId r" unfolding carries_def
    using a(3) enc n hostFrame_ok [OF assms(3) _ assms(4) n, of OPERATION_RESPONSE out]
    by (intro exI [of _ "hostFrame minor OPERATION_RESPONSE requestId out ?n"] exI [of _ ?n] exI [of _ out]) simp
  then show ?thesis using a enc(1) by (intro exI [of _ a]) (simp add: submitOperationResponse_def submitPayload_def)
qed

subsection \<open>The invariant of the stack\<close>

definition entryWf :: "lifecycle \<Rightarrow> bool" where
  "entryWf c = (lcState c \<noteq> LS_EMPTY \<longrightarrow> isSupportedVersion VERSION_MAJOR (enRequestMinor (lcEntry c)) \<and> isValidRequestId (enRequestId (lcEntry c)))"

definition stackInv :: "stack \<Rightarrow> bool" where
  "stackInv k = (lifecycleInv (skLifecycle k) \<and> entryWf (skLifecycle k) \<and> adapterInv (skTransport k) \<and> parserOk (adParser (skTransport k))
     \<and> lcHostConnected (skLifecycle k) = skConnected k)"

lemma submitFrame_inv:
  assumes "hs_submitFrame minor type requestId payload n k = (ok, k')" "adapterInv (skTransport k)" "parserOk (adParser (skTransport k))"
  shows "adapterInv (skTransport k') \<and> parserOk (adParser (skTransport k')) \<and> skLifecycle k' = skLifecycle k \<and> skConnected k' = skConnected k
    \<and> skPendingOriginalDelivery k' = skPendingOriginalDelivery k"
proof -
  let ?f = "hostFrame minor type requestId payload n"
  obtain er m out where e: "encodeFrame ?f (Some (fillZero 140)) 140 = (er, m, out)" by (rule prod_cases3)
  obtain st a where sub: "submit out m (skTransport k) = (st, a)" by fastforce
  have run: "(if er \<noteq> ER_OK then (False, k) else if st \<noteq> SUBMIT_OK then (False, k\<lparr>skTransport := a\<rparr>)
      else (True, k\<lparr>skTransport := a, skDiagnostics := observeResponseHandoff (skDiagnostics k)\<rparr>)) = (ok, k')"
    using assms(1) unfolding hs_submitFrame_def Let_def hostFrame_def [symmetric] using e sub by (simp cong: if_cong)
  have "adapterInv a \<and> adParser a = adParser (skTransport k)"
    using sub assms(2) by (auto simp: submit_def adapterInv_def split: if_splits)
  then show ?thesis using run assms(2,3) by (auto split: if_splits)
qed

lemma submitPayload_inv:
  assumes "submitPayload enc minor type requestId k = (ok, k')" "adapterInv (skTransport k)" "parserOk (adParser (skTransport k))"
  shows "adapterInv (skTransport k') \<and> parserOk (adParser (skTransport k')) \<and> skLifecycle k' = skLifecycle k \<and> skConnected k' = skConnected k
    \<and> skPendingOriginalDelivery k' = skPendingOriginalDelivery k"
  using assms submitFrame_inv by (cases enc) (auto simp: submitPayload_def split: if_splits)

lemma submit_stackInv:
  assumes "submitPayload enc minor type requestId k = (ok, k')" "stackInv k"
  shows "stackInv k'"
  using submitPayload_inv [OF assms(1)] assms(2) by (simp add: stackInv_def)

lemma stackInv_diagnostics [simp]: "stackInv (k\<lparr>skDiagnostics := d\<rparr>) = stackInv k" "stackInv (k\<lparr>skPendingOriginalDelivery := p\<rparr>) = stackInv k"
    "stackInv (k\<lparr>skEventService := e\<rparr>) = stackInv k"
  by (simp_all add: stackInv_def)

lemma handoff_cases: "handoff x = (r, k) \<Longrightarrow> k = snd x \<and> (skrAction r = SA_HOST_RESPONSE_HANDOFF \<longleftrightarrow> fst x)"
  by (auto simp: handoff_def split: prod.splits if_splits)

lemma submitted_stackInv:
  assumes "handoff (submitPayload enc minor type requestId k) = (r, k')" "stackInv k"
  shows "stackInv k'"
  using handoff_cases [OF assms(1)] submit_stackInv [OF _ assms(2), of enc minor type requestId] by (metis prod.collapse)

subsection \<open>What the lifecycle keeps of its entry\<close>

lemma connected_kept:
  "lc_consumeRemote h c = (r, c') \<Longrightarrow> lcHostConnected c' = lcHostConnected c \<and> enRequestMinor (lcEntry c') = enRequestMinor (lcEntry c)
     \<and> enRequestId (lcEntry c') = enRequestId (lcEntry c) \<and> (lcState c = LS_EMPTY \<longrightarrow> lcState c' = LS_EMPTY)"
  by (auto simp: lc_consumeRemote_def Let_def completeEntry_def split: if_splits)

lemma remote_entryWf: "lc_consumeRemote h c = (r, c') \<Longrightarrow> entryWf c \<Longrightarrow> entryWf c'"
  using connected_kept [of h c r c'] by (auto simp: entryWf_def)

lemma lc_submit_entry:
  assumes run: "lc_submit dv requestId (Some bs) n now overallTimeout maxRetries explicitlyConfigured minor c w = (r, c', w')"
    and wf: "entryWf c" "isSupportedVersion VERSION_MAJOR minor"
  shows "entryWf c' \<and> lcHostConnected c' = lcHostConnected c"
proof -
  consider (same) "c' = c" | (loc) q where "isValidRequestId requestId" "lc_submitLocal dv requestId bs n q minor c w = (r, c', w')"
    | (rem) q where "isValidRequestId requestId" "lc_submitRemote dv requestId bs n q now overallTimeout maxRetries explicitlyConfigured minor c = (r, c')"
    using run unfolding lc_submit_def Let_def by (auto split: if_splits sum.splits prod.splits)
  then show ?thesis
  proof cases
    case same
    then show ?thesis using wf by simp
  next
    case loc
    then show ?thesis using wf
      by (auto simp: lc_submitLocal_def Let_def entryWf_def completeEntry_def acceptIdentity_def split: prod.splits if_splits)
  next
    case rem
    then show ?thesis using wf
      by (auto simp: lc_submitRemote_def Let_def entryWf_def acceptIdentity_def split: prod.splits if_splits)
  qed
qed

subsection \<open>Every operation keeps the invariant\<close>

lemma rxOperation_inv:
  assumes inv: "stackInv k" and wf: "deviceWf dv" and f: "sendableFrame (srFrame parsed)" "canonicalPayload (srFrame parsed)"
    and run: "rxOperation parsed dv now overallTimeout k w = (r, k', w')"
  shows "stackInv k'"
proof (cases "decodeOperationRequest (frMinor (srFrame parsed)) (Some (frPayload (srFrame parsed))) (unat (frPayloadLength (srFrame parsed)))")
  case (Inl e)
  then show ?thesis using run inv by (auto simp: rxOperation_def Let_def)
next
  case (Inr q)
  let ?f = "srFrame parsed" and ?dv = "dv\<lparr>dvEventService := skEventService k\<rparr>"
  obtain life c w1 where l: "lc_submit ?dv (frRequestId ?f) (Some (frPayload ?f)) (unat (frPayloadLength ?f)) now overallTimeout 2 False
      (frMinor ?f) (skLifecycle k) w = (life, c, w1)" by (rule prod_cases3)
  have sup: "isSupportedVersion VERSION_MAJOR (frMinor ?f)" and len: "unat (frPayloadLength ?f) \<le> length (frPayload ?f)"
    using f by (auto simp: sendableFrame_def canonicalPayload_def isSupportedVersion_def)
  have wf': "deviceWf ?dv" using wf by (simp add: deviceWf_def)
  have c: "lifecycleInv c" "entryWf c" "lcHostConnected c = lcHostConnected (skLifecycle k)"
    using lc_submit_good [OF _ wf' len l] lc_submit_entry [OF l _ sup] inv by (auto simp: stackInv_def)
  have inv1: "stackInv (k\<lparr>skDiagnostics := d, skLifecycle := c\<rparr>)" for d using inv c by (simp add: stackInv_def)
  have inv2: "stackInv (k\<lparr>skDiagnostics := d, skLifecycle := c, skDiagnostics := d'\<rparr>)" for d d' using inv c by (simp add: stackInv_def)
  show ?thesis
    using run Inr l inv1 inv2
    by (auto simp: rxOperation_def Let_def submitOperationResponse_def split: if_splits prod.splits dest: submitted_stackInv)
qed

lemma rxHello_inv:
  assumes "stackInv k" "rxHello parsed snapshot radioBridge k = (r, k')"
  shows "stackInv k'"
  using assms by (auto simp: rxHello_def Let_def submitProtocolError_def split: sum.splits if_splits dest: submitted_stackInv)

lemma rxRejected_inv:
  assumes "stackInv k" "rxRejected parsed k = (r, k')"
  shows "stackInv k'"
  using assms by (auto simp: rxRejected_def Let_def submitProtocolError_def split: option.splits dest: submitted_stackInv)

lemma serviceRx_ok:
  assumes "stackInv k" "serviceRx budget stream (skTransport k) b = (rx, a, b')"
  shows "stackInv (k\<lparr>skTransport := a\<rparr>) \<and> hasPendingTx a = hasPendingTx (skTransport k)
    \<and> (rxStatus rx = RX_PARSER_EVENT \<and> srEvent (rxParserResult rx) = FRAME_READY \<longrightarrow>
        sendableFrame (srFrame (rxParserResult rx)) \<and> canonicalPayload (srFrame (rxParserResult rx)))"
  using serviceRxLoop_ok [OF _ _ assms(2) [unfolded serviceRx_def]] assms(1) by (auto simp: stackInv_def hasPendingTx_def)

lemma hs_serviceRx_inv:
  assumes "stackInv k" "deviceWf dv" "hs_serviceRx dv now overallTimeout radioBridge budget stream k w b = (r, k', w', b')"
  shows "stackInv k'"
proof -
  obtain rx a b1 where rx: "serviceRx budget stream (skTransport k) b = (rx, a, b1)" by (rule prod_cases3)
  note ok = serviceRx_ok [OF assms(1) rx]
  show ?thesis
  proof (cases "\<not> skConnected k \<or> hasPendingTx (skTransport k) \<or> rxStatus rx \<noteq> RX_PARSER_EVENT")
    case True
    then show ?thesis using assms(1,3) rx ok by (auto simp: hs_serviceRx_def Let_def split: if_splits)
  next
    case False
    then show ?thesis using assms(2,3) rx ok
      by (auto simp: hs_serviceRx_def Let_def split: if_splits prod.splits dest: rxOperation_inv rxHello_inv rxRejected_inv)
  qed
qed

lemma consumeRemote_inv:
  assumes "stackInv k" "consumeRemote life k = (r, k')"
  shows "stackInv k'"
proof -
  let ?k = "k\<lparr>skDiagnostics := observeOperationResponse (laResponse life) (skDiagnostics k)\<rparr>"
  obtain ok k1 where s: "submitOperationResponse (laResponseMinor life) (laRequestId life) (laResponse life) ?k = (ok, k1)" by fastforce
  have "stackInv k1" using submit_stackInv [OF s [unfolded submitOperationResponse_def]] assms(1) by simp
  then show ?thesis using assms s by (auto simp: consumeRemote_def Let_def split: if_splits)
qed

lemma consumeRemote_frame:
  assumes "adapterInv (skTransport k)" "parserOk (adParser (skTransport k))" "consumeRemote life k = (r, k')"
  shows "skLifecycle k' = skLifecycle k \<and> skConnected k' = skConnected k"
proof -
  let ?k = "k\<lparr>skDiagnostics := observeOperationResponse (laResponse life) (skDiagnostics k)\<rparr>"
  obtain ok k1 where s: "submitOperationResponse (laResponseMinor life) (laRequestId life) (laResponse life) ?k = (ok, k1)" by fastforce
  have "skLifecycle k1 = skLifecycle k \<and> skConnected k1 = skConnected k"
    using submitPayload_inv [OF s [unfolded submitOperationResponse_def]] assms(1,2) by simp
  then show ?thesis using assms(3) s by (auto simp: consumeRemote_def Let_def split: if_splits)
qed

lemma remote_steps:
  assumes inv: "stackInv k" and run: "onRadioPacket p k = (r, k') \<or> serviceRemote now k = (r, k')"
  obtains h b life c where "lc_consumeRemote h ((skLifecycle k)\<lparr>lcBridge := b\<rparr>) = (life, c)"
    "consumeRemote life (k\<lparr>skLifecycle := c\<rparr>) = (r, k')" "stackInv (k\<lparr>skLifecycle := c\<rparr>)"
proof -
  have l: "lifecycleInv (skLifecycle k)" using inv by (simp add: stackInv_def)
  obtain life c where step: "lc_receive p (skLifecycle k) = (life, c) \<or> lc_service now (skLifecycle k) = (life, c)"
    and stack: "consumeRemote life (k\<lparr>skLifecycle := c\<rparr>) = (r, k')"
    using run by (auto simp: onRadioPacket_def serviceRemote_def split: prod.splits)
  have c: "lifecycleInv c" using lc_receive_good [OF l] lc_service_good [OF l] step by blast
  obtain h b where hb: "lc_consumeRemote h ((skLifecycle k)\<lparr>lcBridge := b\<rparr>) = (life, c)"
    using step by (auto simp: lc_receive_def lc_service_def split: prod.splits)
  have "stackInv (k\<lparr>skLifecycle := c\<rparr>)"
    using c inv connected_kept [OF hb] remote_entryWf [OF hb] by (simp add: stackInv_def entryWf_def)
  then show ?thesis using that hb stack by blast
qed

lemma remote_inv:
  assumes "stackInv k" "onRadioPacket p k = (r, k') \<or> serviceRemote now k = (r, k')"
  shows "stackInv k'"
  by (rule remote_steps [OF assms]) (rule consumeRemote_inv)

text \<open>Transmission keeps the adapter in shape whatever the stream reports, since a count beyond what was offered is an error.\<close>

lemma serviceTx_frame:
  assumes inv: "adapterInv a" and run: "serviceTx budget stream a s = (r, a', s')"
  shows "adapterInv a' \<and> adParser a' = adParser a"
proof -
  obtain n s1 where n: "bsAvailableForWrite stream s = (n, s1)" by fastforce
  define m where "m = min (min (nat n) budget) (adPendingLength a - adPendingOffset a)"
  obtain k s2 where k: "bsWrite stream (slice (adPendingOffset a) m (adPending a)) s1 = (k, s2)" by fastforce
  consider "a' = a" | "a' = a\<lparr>adPendingLength := 0, adPendingOffset := 0\<rparr>"
    | "a' = a\<lparr>adPendingOffset := adPendingOffset a + k\<rparr>" "k \<le> m" "k \<noteq> 0" "adPendingOffset a + k \<noteq> adPendingLength a"
    using run n k by (auto simp: serviceTx_def remainingTx_def m_def [symmetric] split: if_splits)
  then show ?thesis using inv by cases (auto simp: adapterInv_def m_def)
qed

lemma hs_serviceTx_inv:
  assumes "stackInv k" "hs_serviceTx budget stream k b = (r, k', b')"
  shows "stackInv k'"
proof -
  obtain a where t: "serviceTx budget stream (skTransport k) b = (r, a, b')" and k': "k' = k\<lparr>skTransport := a\<rparr>"
    using assms(2) by (auto simp: hs_serviceTx_def split: prod.splits)
  have "adapterInv (skTransport k)" using assms(1) by (simp add: stackInv_def)
  from serviceTx_frame [OF this t] show ?thesis using assms(1) k' by (simp add: stackInv_def)
qed

lemma servicePendingDelivery_inv: "stackInv k \<Longrightarrow> servicePendingDelivery k = (ok, k') \<Longrightarrow> stackInv k'"
  by (auto simp: servicePendingDelivery_def submitOperationResponse_def Let_def split: if_splits prod.splits dest: submit_stackInv)

lemma ad_reset_ok: "adapterInv a \<Longrightarrow> parserOk (adParser a) \<Longrightarrow> adapterInv (ad_reset a) \<and> parserOk (adParser (ad_reset a))"
  using parserHolds_reset by (auto simp: ad_reset_def adapterInv_def parserOk_def)

lemma entryWf_connection [simp]:
  "entryWf (onHostDisconnect c) = entryWf c" "entryWf (onHostReconnect c) = entryWf c" "entryWf lifecycle_init" "entryWf (c\<lparr>lcBridge := b\<rparr>) = entryWf c"
  by (simp_all add: entryWf_def onHostDisconnect_def onHostReconnect_def lifecycle_init_def)

lemma connection_flags [simp]:
  "lcHostConnected (onHostDisconnect c) = False" "lcHostConnected (onHostReconnect c) = True" "lcHostConnected lifecycle_init = True"
  by (simp_all add: onHostDisconnect_def onHostReconnect_def lifecycle_init_def)

lemma observeConnection_inv: "stackInv k \<Longrightarrow> stackInv (observeConnection connected k)"
  using ad_reset_ok [of "skTransport k"] by (auto simp: observeConnection_def stackInv_def Let_def)

lemma hs_reset_inv: "stackInv k \<Longrightarrow> stackInv (hs_reset k)"
  using ad_reset_ok [of "skTransport k"] by (simp add: hs_reset_def stackInv_def lc_reset_def)

text \<open>The states of the stack: the byte stream, the device and the clock are free between two calls.\<close>

inductive stackRun :: "stack \<Rightarrow> ('h, 's) hostWorld \<Rightarrow> 'b \<Rightarrow> bool" where
  start: "length candidateStorage = MAX_COBS_CANDIDATE_SIZE \<Longrightarrow> length pendingStorage = MAX_ENCODED_FRAME_SIZE \<Longrightarrow>
    stackRun (stack_new (adapter_new candidateStorage pendingStorage) connected) w b"
| rx: "stackRun k w b \<Longrightarrow> deviceWf dv \<Longrightarrow> hs_serviceRx dv now overallTimeout radioBridge budget stream k w b = (r, k', w', b') \<Longrightarrow>
    stackRun k' w' b'"
| tx: "stackRun k w b \<Longrightarrow> hs_serviceTx budget stream k b = (r, k', b') \<Longrightarrow> stackRun k' w b'"
| pending: "stackRun k w b \<Longrightarrow> servicePendingDelivery k = (ok, k') \<Longrightarrow> stackRun k' w b"
| radio: "stackRun k w b \<Longrightarrow> onRadioPacket p k = (r, k') \<Longrightarrow> stackRun k' w b"
| remote: "stackRun k w b \<Longrightarrow> serviceRemote now k = (r, k') \<Longrightarrow> stackRun k' w b"
| connection: "stackRun k w b \<Longrightarrow> stackRun (observeConnection connected k) w b"
| configure: "stackRun k w b \<Longrightarrow>
    stackRun (k\<lparr>skLifecycle := (skLifecycle k)\<lparr>lcBridge := hb_configurePeerSupport support (lcBridge (skLifecycle k))\<rparr>\<rparr>) w b"
| eventService: "stackRun k w b \<Longrightarrow> stackRun (setEventService service k) w b"
| reset: "stackRun k w b \<Longrightarrow> stackRun (hs_reset k) w b"
| surroundings: "stackRun k w b \<Longrightarrow> stackRun k w' b'"

lemma stackRun_inv: "stackRun k w b \<Longrightarrow> stackInv k"
proof (induction rule: stackRun.induct)
  case (start candidateStorage pendingStorage connected w b)
  then have "parserOk (streamParser_new candidateStorage)" using parserHolds_new by (auto simp: parserOk_def)
  with start show ?case by (auto simp: stackInv_def stack_new_def adapter_new_def adapterInv_def)
next
  case (rx k w b dv now overallTimeout radioBridge budget stream r k' w' b')
  from hs_serviceRx_inv [OF rx.IH rx.hyps(2,3)] show ?case .
next
  case (tx k w b budget stream r k' b')
  from hs_serviceTx_inv [OF tx.IH tx.hyps(2)] show ?case .
next
  case (configure k w b support)
  then show ?case by (simp add: stackInv_def)
next
  case (radio k w b p r k')
  from remote_inv [OF radio.IH disjI1 [OF radio.hyps(2)]] show ?case .
next
  case (remote k w b now r k')
  from remote_inv [OF remote.IH disjI2 [OF remote.hyps(2)]] show ?case .
qed (simp_all add: servicePendingDelivery_inv observeConnection_inv hs_reset_inv setEventService_def)

subsection \<open>Answers\<close>

text \<open>A request for this device is answered by the lifecycle at once.\<close>

lemma lc_submit_local_responds:
  assumes run: "lc_submit dv requestId (Some bs) n now overallTimeout maxRetries explicitlyConfigured minor c w = (life, c', w')"
    and "isValidRequestId requestId" "n \<le> 128" "decodeOperationRequest minor (Some bs) n = Inr q" "lcHostConnected c" "lcState c \<noteq> LS_ACTIVE"
    and "oqTargetDeviceId q = dsDeviceId (dvSnapshot dv) \<or> oqCategory q = CAT_EVENT"
  shows "laAction life = LA_HOST_RESPONSE_READY"
proof (cases "lcState c \<noteq> LS_EMPTY \<and> requestId = enRequestId (lcEntry c)")
  case True
  then show ?thesis using assms by (auto simp: lc_submit_def Let_def lc_rejection_def readyOr_def split: if_splits)
next
  case False
  then have "lc_submitLocal dv requestId bs n q minor c w = (life, c', w')" using assms by (auto simp: lc_submit_def Let_def)
  then show ?thesis using assms(5)
    by (auto simp: lc_submitLocal_def Let_def lc_rejection_def readyOr_def completeEntry_def acceptIdentity_def split: prod.splits if_splits)
qed

lemma lc_submit_minor:
  assumes run: "lc_submit dv requestId (Some bs) n now overallTimeout maxRetries explicitlyConfigured minor c w = (life, c', w')" and wf: "entryWf c"
    and sup: "isSupportedVersion VERSION_MAJOR minor"
  shows "isSupportedVersion VERSION_MAJOR (laResponseMinor life)"
  using run wf sup unfolding lc_submit_def Let_def lc_submitLocal_def lc_submitRemote_def lc_rejection_def
  by (auto simp: entryWf_def lifecycleResult_init_def split: if_splits sum.splits prod.splits)

lemma rxOperation_local:
  assumes inv: "stackInv k" and idle: "skConnected k" "\<not> hasPendingTx (skTransport k)" "lcState (skLifecycle k) \<noteq> LS_ACTIVE" and wf: "deviceWf dv"
    and f: "sendableFrame (srFrame parsed)" "canonicalPayload (srFrame parsed)" "frMessageType (srFrame parsed) = OPERATION_REQUEST"
    and q: "decodeOperationRequest (frMinor (srFrame parsed)) (Some (frPayload (srFrame parsed))) (unat (frPayloadLength (srFrame parsed))) = Inr q"
    and loc: "oqTargetDeviceId q = dsDeviceId (dvSnapshot dv) \<or> oqCategory q = CAT_EVENT"
    and run: "rxOperation parsed dv now overallTimeout k w = (r, k', w')"
  shows "skrAction r = SA_HOST_RESPONSE_HANDOFF
    \<and> (\<exists>minor response. carries (skTransport k') minor (frRequestId (srFrame parsed)) response \<and> goodResponse minor q response)"
proof -
  let ?f = "srFrame parsed" and ?dv = "dv\<lparr>dvEventService := skEventService k\<rparr>"
  obtain life c w1 where l: "lc_submit ?dv (frRequestId ?f) (Some (frPayload ?f)) (unat (frPayloadLength ?f)) now overallTimeout 2 False
      (frMinor ?f) (skLifecycle k) w = (life, c, w1)" by (rule prod_cases3)
  have sup: "isSupportedVersion VERSION_MAJOR (frMinor ?f)" and len: "unat (frPayloadLength ?f) \<le> length (frPayload ?f)"
    and id: "isValidRequestId (frRequestId ?f)" and n: "unat (frPayloadLength ?f) \<le> 128"
    using f by (auto simp: sendableFrame_def canonicalPayload_def isSupportedVersion_def isValidEnvelopeRequestId_def)
  have conn: "lcHostConnected (skLifecycle k)" "lifecycleInv (skLifecycle k)" "entryWf (skLifecycle k)" "adapterInv (skTransport k)"
    using inv idle(1) by (auto simp: stackInv_def)
  have loc': "oqTargetDeviceId q = dsDeviceId (dvSnapshot ?dv) \<or> oqCategory q = CAT_EVENT" and wf': "deviceWf ?dv" using loc wf by (simp_all add: deviceWf_def)
  have ready: "laAction life = LA_HOST_RESPONSE_READY" by (rule lc_submit_local_responds [OF l id n q conn(1) idle(3) loc'])
  then have good: "goodResponse (laResponseMinor life) q (laResponse life)" "laRequestId life = frRequestId ?f"
    using lc_submit_good [OF conn(2) wf' len l] q by (auto simp: responds_def resultGood_def)
  have minor: "isSupportedVersion VERSION_MAJOR (laResponseMinor life)" by (rule lc_submit_minor [OF l conn(3) sup])
  obtain k2 where k2: "handoff (submitOperationResponse (laResponseMinor life) (frRequestId ?f) (laResponse life) k2) = (r, k')"
    "skTransport k2 = skTransport k"
  proof -
    let ?d = "observeOperationResponse (laResponse life)" and ?k = "k\<lparr>skDiagnostics := observeFrame parsed MB_ACCEPTED (skDiagnostics k)\<rparr>\<lparr>skLifecycle := c\<rparr>"
    have "\<exists>k2. skTransport k2 = skTransport k \<and> rxOperation parsed dv now overallTimeout k w =
        (case handoff (submitOperationResponse (laResponseMinor life) (laRequestId life) (laResponse life) k2) of (r, k) \<Rightarrow> (r, k, w1))"
      using q l ready unfolding rxOperation_def Let_def by (intro exI [of _ "?k\<lparr>skDiagnostics := ?d _\<rparr>"] conjI) simp_all
    then obtain k2 where "skTransport k2 = skTransport k"
      "(case handoff (submitOperationResponse (laResponseMinor life) (frRequestId ?f) (laResponse life) k2) of (r, k) \<Rightarrow> (r, k, w1)) = (r, k', w')"
      using run good(2) by auto
    then show ?thesis using that [of k2] by (cases "handoff (submitOperationResponse (laResponseMinor life) (frRequestId ?f) (laResponse life) k2)") simp
  qed
  have "adapterInv (skTransport k2)" "\<not> hasPendingTx (skTransport k2)" using conn(4) idle(2) k2(2) by simp_all
  from submitOperationResponse_accepted [OF this minor id, of "laResponse life"] good(1) obtain a where
    "submitOperationResponse (laResponseMinor life) (frRequestId ?f) (laResponse life) k2
      = (True, k2\<lparr>skTransport := a, skDiagnostics := observeResponseHandoff (skDiagnostics k2)\<rparr>)"
    and carries: "carries a (laResponseMinor life) (frRequestId ?f) (laResponse life)"
    by (auto simp: goodResponse_def)
  then have "skrAction r = SA_HOST_RESPONSE_HANDOFF" "skTransport k' = a" using k2(1) by (auto simp: handoff_def)
  then show ?thesis using carries good(1) by auto
qed

text \<open>The answer that the retained entry holds, if the lifecycle has one.\<close>

lemma entry_delivered:
  assumes "lifecycleInv c" "entryWf c" "lcState c = LS_COMPLETED" "adapterInv (skTransport k)" "\<not> hasPendingTx (skTransport k)"
  shows "\<exists>a q. submitOperationResponse (enRequestMinor (lcEntry c)) (enRequestId (lcEntry c)) (enResponse (lcEntry c)) k
      = (True, k\<lparr>skTransport := a, skDiagnostics := observeResponseHandoff (skDiagnostics k)\<rparr>)
    \<and> carries a (enRequestMinor (lcEntry c)) (enRequestId (lcEntry c)) (enResponse (lcEntry c))
    \<and> entryRequest (lcEntry c) = Inr q \<and> goodResponse (enRequestMinor (lcEntry c)) q (enResponse (lcEntry c))"
proof -
  obtain q where q: "entryRequest (lcEntry c) = Inr q" "goodResponse (enRequestMinor (lcEntry c)) q (enResponse (lcEntry c))"
    using assms(1,3) by (auto simp: lifecycleInv_def)
  have "isSupportedVersion VERSION_MAJOR (enRequestMinor (lcEntry c))" "isValidRequestId (enRequestId (lcEntry c))"
    using assms(2,3) by (auto simp: entryWf_def)
  from submitOperationResponse_accepted [OF assms(4,5) this, of "enResponse (lcEntry c)"] q show ?thesis
    unfolding goodResponse_def by blast
qed

lemma remote_completes:
  assumes "lc_consumeRemote h c = (life, c')" "lcState c = LS_ACTIVE" "lcState c' = LS_COMPLETED" "lcHostConnected c"
  shows "laAction life = LA_HOST_RESPONSE_READY \<and> laResponse life = enResponse (lcEntry c') \<and> laRequestId life = enRequestId (lcEntry c')
    \<and> laResponseMinor life = enRequestMinor (lcEntry c')"
  using assms by (auto simp: lc_consumeRemote_def Let_def completeEntry_def lifecycleResult_init_def readyOr_def split: if_splits)

lemma consumeRemote_completed:
  assumes inv: "stackInv k" and conn: "skConnected k" and fin: "lcState (skLifecycle k) = LS_COMPLETED"
    and life: "laAction life = LA_HOST_RESPONSE_READY" "laResponse life = enResponse (lcEntry (skLifecycle k))"
      "laRequestId life = enRequestId (lcEntry (skLifecycle k))" "laResponseMinor life = enRequestMinor (lcEntry (skLifecycle k))"
    and run: "consumeRemote life k = (r, k')"
  shows "skLifecycle k' = skLifecycle k \<and> skConnected k' \<and> (let e = lcEntry (skLifecycle k) in
    if hasPendingTx (skTransport k) then skPendingOriginalDelivery k'
    else skrAction r = SA_HOST_RESPONSE_HANDOFF \<and> carries (skTransport k') (enRequestMinor e) (enRequestId e) (enResponse e))"
proof (cases "hasPendingTx (skTransport k)")
  case True
  then show ?thesis using run life conn by (auto simp: consumeRemote_def Let_def)
next
  case False
  let ?k = "k\<lparr>skDiagnostics := observeOperationResponse (laResponse life) (skDiagnostics k)\<rparr>"
  have "\<exists>a. submitOperationResponse (laResponseMinor life) (laRequestId life) (laResponse life) ?k
      = (True, ?k\<lparr>skTransport := a, skDiagnostics := observeResponseHandoff (skDiagnostics ?k)\<rparr>)
    \<and> carries a (enRequestMinor (lcEntry (skLifecycle k))) (enRequestId (lcEntry (skLifecycle k))) (enResponse (lcEntry (skLifecycle k)))"
    using entry_delivered [OF _ _ fin, of ?k] inv False unfolding life(2-4) by (auto simp: stackInv_def)
  then show ?thesis using run life(1) False conn by (auto simp: consumeRemote_def Let_def)
qed

subsection \<open>Frames on a loop-back stream\<close>

lemma loopback_frame:
  assumes f: "sendableFrame f" "canonicalPayload f"
  obtains rx a where "serviceRx 200 loopbackSerial freshAdapter (frameWire f) = (rx, a, [])" "rxStatus rx = RX_PARSER_EVENT"
    "srEvent (rxParserResult rx) = FRAME_READY" "srFrame (rxParserResult rx) = f"
proof -
  let ?w = "frameWire f"
  obtain r b t where rx: "serviceRx 200 loopbackSerial freshAdapter ?w = (r, b, t)" by (rule prod_cases3)
  have pl: "unat (frPayloadLength f) \<le> 128" using f(1) by (simp add: sendableFrame_def)
  then have len: "length ?w \<le> 200" using length_frameWire by simp
  from serviceRxLoop_feed [OF loopback_contracts(2) rx [unfolded serviceRx_def]] len obtain k where
    k: "k \<le> length ?w" "t = drop k ?w" "feed (take k ?w) (adParser freshAdapter) = (rxVerdicts r, adParser b)"
      "rxVerdicts r = [] \<longrightarrow> k = length ?w" by auto
  have whole: "k = length ?w"
  proof (rule ccontr)
    assume ne: "k \<noteq> length ?w"
    then have "take k ?w = take k (butlast ?w)" using k(1) by (simp add: butlast_conv_take)
    then have "0 \<notin> set (take k ?w)" using frameWire_delimiter [OF pl] by (auto dest: in_set_takeD)
    then have "rxVerdicts r = []" using feed_fresh(1) [OF freshAdapter_idle(3), of "take k ?w"] k(3) verdicts_partial by simp
    with k(4) ne show False by simp
  qed
  then have "rxVerdicts r = [deliveredFrame f]"
    using feed_fresh(1) [OF freshAdapter_idle(3), of ?w] k(3) wire_verdict [OF f, of "[]"] verdicts_partial [of "[]"] by simp
  then show ?thesis using that [of r b] rx k(2) whole by (auto simp: rxVerdicts_def deliveredFrame_def summary_def split: if_splits)
qed

definition pingFrame :: frame where
  "pingFrame = hostFrame VERSION_MINOR_0_1 OPERATION_REQUEST 9 pingBytes 7"

definition farFrame :: frame where
  "farFrame = hostFrame VERSION_MINOR_0_1 OPERATION_REQUEST 9 farBytes 7"

lemma sample_frames_ok: "sendableFrame pingFrame" "canonicalPayload pingFrame" "sendableFrame farFrame" "canonicalPayload farFrame"
  unfolding pingFrame_def farFrame_def by (rule hostFrame_ok; simp add: isSupportedVersion_def isValidRequestId_def pingBytes_def farBytes_def)+

definition startStack :: stack where
  "startStack = stack_new freshAdapter True"

lemma startStack_run: "stackRun startStack w b" "skTransport startStack = freshAdapter" "skConnected startStack" "skLifecycle startStack = lifecycle_init"
  using stackRun.start [of "fillZero MAX_COBS_CANDIDATE_SIZE" "fillZero MAX_ENCODED_FRAME_SIZE" True]
  by (simp_all add: startStack_def freshAdapter_def stack_new_def)

text \<open>A request for another device, sent three times without an answer.\<close>

lemma far_submitted_stack:
  "case lc_submit (sampleDevice\<lparr>dvEventService := None\<rparr>) 9 (Some (frPayload farFrame)) 7 100 1000 2 False VERSION_MINOR_0_1 lifecycle_init sampleWorld of
     (r, c, w) \<Rightarrow> laAction r = LA_TRANSMIT_COMMAND \<and> (case lc_service 1100 c of (r1, c1) \<Rightarrow> laAction r1 = LA_TRANSMIT_COMMAND \<and>
       (case lc_service 1101 c1 of (r2, c2) \<Rightarrow> laAction r2 = LA_TRANSMIT_COMMAND \<and> lcState c2 = LS_ACTIVE \<and>
         lcState (snd (lc_service 5000 c2)) = LS_COMPLETED))"
  by code_simp

lemma serviceRemote_transmits:
  "lc_service now (skLifecycle k) = (life, c) \<Longrightarrow> laAction life = LA_TRANSMIT_COMMAND \<Longrightarrow>
   serviceRemote now k = (\<lparr>skrAction = SA_TRANSMIT_COMMAND, skrPacket = laPacket life\<rparr>, k\<lparr>skLifecycle := c\<rparr>)"
  by (simp add: serviceRemote_def consumeRemote_def)

lemma far_stack:
  "\<exists>k r k1. stackRun k sampleWorld ([] :: bytes) \<and> skConnected k \<and> lcState (skLifecycle k) = LS_ACTIVE \<and> \<not> hasPendingTx (skTransport k)
     \<and> serviceRemote 5000 k = (r, k1) \<and> lcState (skLifecycle k1) = LS_COMPLETED"
proof -
  obtain rx a where rx: "serviceRx 200 loopbackSerial freshAdapter (frameWire farFrame) = (rx, a, [])" "rxStatus rx = RX_PARSER_EVENT"
    "srEvent (rxParserResult rx) = FRAME_READY" "srFrame (rxParserResult rx) = farFrame" by (rule loopback_frame [OF sample_frames_ok(3,4)])
  obtain r c w where s: "lc_submit (sampleDevice\<lparr>dvEventService := None\<rparr>) 9 (Some (frPayload farFrame)) 7 100 1000 2 False VERSION_MINOR_0_1
      lifecycle_init sampleWorld = (r, c, w)" by (rule prod_cases3)
  obtain r1 c1 r2 c2 where l: "lc_service 1100 c = (r1, c1)" "lc_service 1101 c1 = (r2, c2)" by fastforce
  have facts: "laAction r = LA_TRANSMIT_COMMAND" "laAction r1 = LA_TRANSMIT_COMMAND" "laAction r2 = LA_TRANSMIT_COMMAND" "lcState c2 = LS_ACTIVE"
    "lcState (snd (lc_service 5000 c2)) = LS_COMPLETED" using far_submitted_stack s l by simp_all
  have f: "frMessageType farFrame = OPERATION_REQUEST" "frMinor farFrame = 1" "frRequestId farFrame = 9" "unat (frPayloadLength farFrame) = 7"
    by (simp_all add: farFrame_def)
  have dec: "\<not> isl (decodeOperationRequest 1 (Some (frPayload farFrame)) 7)" by code_simp
  then obtain q where q: "decodeOperationRequest 1 (Some (frPayload farFrame)) 7 = Inr q"
    by (cases "decodeOperationRequest 1 (Some (frPayload farFrame)) 7") auto
  have idle: "\<not> hasPendingTx freshAdapter" "skEventService startStack = None" by (simp_all add: freshAdapter_idle startStack_def stack_new_def)
  obtain res k0 where k0: "hs_serviceRx sampleDevice 100 1000 True 200 loopbackSerial startStack sampleWorld (frameWire farFrame) = (res, k0, w, [])"
    and k0': "skLifecycle k0 = c" "skConnected k0" "skTransport k0 = a"
    using rx s facts(1) f q idle startStack_run by (simp add: hs_serviceRx_def rxOperation_def Let_def)
  have run0: "stackRun k0 w ([] :: bytes)" by (rule stackRun.rx [OF startStack_run(1) sampleDevice_wf k0])
  let ?k1 = "k0\<lparr>skLifecycle := c1\<rparr>" and ?k2 = "k0\<lparr>skLifecycle := c2\<rparr>"
  have s1: "serviceRemote 1100 k0 = (\<lparr>skrAction = SA_TRANSMIT_COMMAND, skrPacket = laPacket r1\<rparr>, ?k1)"
    by (rule serviceRemote_transmits) (use k0' l facts in simp_all)
  have s2: "serviceRemote 1101 ?k1 = (\<lparr>skrAction = SA_TRANSMIT_COMMAND, skrPacket = laPacket r2\<rparr>, ?k2)"
    using serviceRemote_transmits [of 1101 ?k1 r2 c2] l facts by simp
  have run2: "stackRun ?k2 sampleWorld ([] :: bytes)"
    by (rule stackRun.surroundings [OF stackRun.remote [OF stackRun.remote [OF run0 s1] s2]])
  have pend: "\<not> hasPendingTx a" using serviceRx_ok [OF stackRun_inv [OF startStack_run(1)]] rx(1) startStack_run(2) freshAdapter_idle(2) by metis
  obtain r3 k3 where s3: "serviceRemote 5000 ?k2 = (r3, k3)" by fastforce
  obtain life c3 where c3: "lc_service 5000 c2 = (life, c3)" by fastforce
  have "consumeRemote life (?k2\<lparr>skLifecycle := c3\<rparr>) = (r3, k3)" using s3 c3 by (simp add: serviceRemote_def)
  moreover have "adapterInv a" "parserOk (adParser a)" using stackRun_inv [OF run2] k0'(3) by (simp_all add: stackInv_def)
  ultimately have "skLifecycle k3 = c3" using consumeRemote_frame [of "?k2\<lparr>skLifecycle := c3\<rparr>" life r3 k3] k0'(3) by simp
  then show ?thesis using run2 s3 c3 facts k0' pend by (intro exI [of _ ?k2] exI [of _ r3] exI [of _ k3]) simp
qed

subsection \<open>Properties\<close>

text \<open>C13. A request for this device is answered: in any state that the stack reaches, while the host is connected, the transport is
  free and no operation is under way, a frame with a well-formed operation request for this device or for its Events is answered
  in the same call; the transport then holds one frame, with the request's identifier and, encoded, a valid response about this
  request.\<close>

theorem local_request_answered:
  assumes "stackRun k w b" and "skConnected k" "\<not> hasPendingTx (skTransport k)" "lcState (skLifecycle k) \<noteq> LS_ACTIVE" and "deviceWf dv"
    and "serviceRx budget stream (skTransport k) b = (rx, a, b')" "rxStatus rx = RX_PARSER_EVENT" "srEvent (rxParserResult rx) = FRAME_READY"
    and "srFrame (rxParserResult rx) = f" "frMessageType f = OPERATION_REQUEST"
    and "decodeOperationRequest (frMinor f) (Some (frPayload f)) (unat (frPayloadLength f)) = Inr q"
    and "oqTargetDeviceId q = dsDeviceId (dvSnapshot dv) \<or> oqCategory q = CAT_EVENT"
  shows "\<exists>r k' w'. hs_serviceRx dv now overallTimeout radioBridge budget stream k w b = (r, k', w', b')
    \<and> skrAction r = SA_HOST_RESPONSE_HANDOFF
    \<and> (\<exists>g n out response. pendingBytes (skTransport k') = frameWire g \<and> sendableFrame g \<and> canonicalPayload g
        \<and> frMessageType g = OPERATION_RESPONSE \<and> frRequestId g = frRequestId f
        \<and> encodeOperationResponse (frMinor g) response (Some (fillZero HOST_MAX_PAYLOAD_SIZE)) HOST_MAX_PAYLOAD_SIZE = (PR_OK, n, Some out)
        \<and> n = unat (frPayloadLength g) \<and> take n (frPayload g) = take n out
        \<and> validateOperationResponse (frMinor g) response = PR_OK \<and> answers response q)"
proof -
  have inv: "stackInv k" by (rule stackRun_inv [OF assms(1)])
  note ok = serviceRx_ok [OF inv assms(6)]
  let ?k = "k\<lparr>skTransport := a\<rparr>"
  obtain r k' w' where run: "rxOperation (rxParserResult rx) dv now overallTimeout ?k w = (r, k', w')" by (rule prod_cases3)
  have "skrAction r = SA_HOST_RESPONSE_HANDOFF \<and> (\<exists>minor response. carries (skTransport k') minor (frRequestId f) response \<and> goodResponse minor q response)"
    using rxOperation_local [OF _ _ _ _ assms(5) _ _ _ _ assms(12) run] ok assms(2-4,7-11) by auto
  then obtain minor response where *: "skrAction r = SA_HOST_RESPONSE_HANDOFF" "carries (skTransport k') minor (frRequestId f) response"
    "goodResponse minor q response" by blast
  have "unat (of_nat n :: u16) = n" if "n \<le> 128" for n using that by (simp add: unat_of_nat)
  moreover have "hs_serviceRx dv now overallTimeout radioBridge budget stream k w b = (r, k', w', b')"
    using assms(2,3,6-10) run by (simp add: hs_serviceRx_def Let_def)
  ultimately show ?thesis using * unfolding carries_def goodResponse_def by metis
qed

theorem local_request_answered_witness:
  "\<exists>r k' w' g. hs_serviceRx sampleDevice 0 1000 True 200 loopbackSerial startStack sampleWorld (frameWire pingFrame) = (r, k', w', [])
     \<and> skrAction r = SA_HOST_RESPONSE_HANDOFF \<and> pendingBytes (skTransport k') = frameWire g
     \<and> frMessageType g = OPERATION_RESPONSE \<and> frRequestId g = 9"
proof -
  obtain rx a where rx: "serviceRx 200 loopbackSerial (skTransport startStack) (frameWire pingFrame) = (rx, a, [])" "rxStatus rx = RX_PARSER_EVENT"
    "srEvent (rxParserResult rx) = FRAME_READY" "srFrame (rxParserResult rx) = pingFrame"
    using loopback_frame [OF sample_frames_ok(1,2)] startStack_run(2) by metis
  have f: "frMessageType pingFrame = OPERATION_REQUEST" "frMinor pingFrame = 1" "frRequestId pingFrame = 9" "unat (frPayloadLength pingFrame) = 7"
    by (simp_all add: pingFrame_def)
  have "case decodeOperationRequest 1 (Some (frPayload pingFrame)) 7 of Inl _ \<Rightarrow> False | Inr q \<Rightarrow> oqTargetDeviceId q = dsDeviceId (dvSnapshot sampleDevice)"
    by code_simp
  then obtain q where q: "decodeOperationRequest (frMinor pingFrame) (Some (frPayload pingFrame)) (unat (frPayloadLength pingFrame)) = Inr q"
    "oqTargetDeviceId q = dsDeviceId (dvSnapshot sampleDevice)" using f by (auto split: sum.splits)
  have idle: "\<not> hasPendingTx (skTransport startStack)" "lcState (skLifecycle startStack) \<noteq> LS_ACTIVE"
    using freshAdapter_idle(2) by (simp_all add: startStack_run lifecycle_init_def)
  from local_request_answered [OF startStack_run(1,3) idle sampleDevice_wf rx f(1) q(1) disjI1 [OF q(2)], where now = 0 and overallTimeout = 1000 and radioBridge = True and w = sampleWorld] f(3)
  show ?thesis by metis
qed

text \<open>C14. The answer of a remote operation reaches the host: when a packet from the radio or the passage of time ends the operation while
  the host is connected, the answer is handed to the transport at once if it is free; otherwise it is pending, and the next
  call of \<^verbatim>\<open>servicePendingDelivery\<close> with a free transport hands it over.  Either way the frame carries the request's
  identifier and version and a valid response about the request.\<close>

theorem remote_answer_delivered:
  assumes "stackRun k w b" and "skConnected k" "lcState (skLifecycle k) = LS_ACTIVE"
    and "onRadioPacket p k = (r, k1) \<or> serviceRemote now k = (r, k1)" and "lcState (skLifecycle k1) = LS_COMPLETED"
    and "lcEntry (skLifecycle k1) = e" and "adapterInv a" "\<not> hasPendingTx a"
  shows "\<exists>q. entryRequest e = Inr q \<and> validateOperationResponse (enRequestMinor e) (enResponse e) = PR_OK \<and> answers (enResponse e) q
    \<and> (if hasPendingTx (skTransport k)
       then \<exists>k2. servicePendingDelivery (k1\<lparr>skTransport := a\<rparr>) = (True, k2) \<and> \<not> skPendingOriginalDelivery k2
         \<and> carries (skTransport k2) (enRequestMinor e) (enRequestId e) (enResponse e)
       else skrAction r = SA_HOST_RESPONSE_HANDOFF \<and> carries (skTransport k1) (enRequestMinor e) (enRequestId e) (enResponse e))"
proof -
  have inv: "stackInv k" by (rule stackRun_inv [OF assms(1)])
  obtain h bridge life c where l: "lc_consumeRemote h ((skLifecycle k)\<lparr>lcBridge := bridge\<rparr>) = (life, c)"
    and run: "consumeRemote life (k\<lparr>skLifecycle := c\<rparr>) = (r, k1)" and invk: "stackInv (k\<lparr>skLifecycle := c\<rparr>)"
    by (rule remote_steps [OF inv assms(4)])
  let ?k = "k\<lparr>skLifecycle := c\<rparr>"
  have "adapterInv (skTransport ?k)" "parserOk (adParser (skTransport ?k))" using invk by (simp_all add: stackInv_def)
  note life = consumeRemote_frame [OF this run]
  have fin: "lcState c = LS_COMPLETED" "lcEntry c = e" using assms(5,6) life by auto
  have wf: "lifecycleInv c" "entryWf c" "lcHostConnected c = skConnected k" using invk by (auto simp: stackInv_def)
  have ready: "laAction life = LA_HOST_RESPONSE_READY" "laResponse life = enResponse e" "laRequestId life = enRequestId e" "laResponseMinor life = enRequestMinor e"
    using remote_completes [OF l _ fin(1)] assms(2,3) inv fin(2) by (auto simp: stackInv_def)
  have D: "skPendingOriginalDelivery k1" if "hasPendingTx (skTransport k)"
    using consumeRemote_completed [OF invk _ _ _ _ _ _ run] that ready fin assms(2) by simp
  have N: "skrAction r = SA_HOST_RESPONSE_HANDOFF \<and> carries (skTransport k1) (enRequestMinor e) (enRequestId e) (enResponse e)"
    if "\<not> hasPendingTx (skTransport k)"
    using consumeRemote_completed [OF invk _ _ _ _ _ _ run] that ready fin assms(2) by simp
  obtain x q where E: "submitOperationResponse (enRequestMinor e) (enRequestId e) (enResponse e) (k1\<lparr>skTransport := a\<rparr>)
      = (True, k1\<lparr>skTransport := x, skDiagnostics := observeResponseHandoff (skDiagnostics k1)\<rparr>)"
    "carries x (enRequestMinor e) (enRequestId e) (enResponse e)" "entryRequest e = Inr q" "goodResponse (enRequestMinor e) q (enResponse e)"
    using entry_delivered [OF wf(1,2) fin(1), of "k1\<lparr>skTransport := a\<rparr>"] assms(7,8) fin(2) by auto
  have "\<exists>k2. servicePendingDelivery (k1\<lparr>skTransport := a\<rparr>) = (True, k2) \<and> \<not> skPendingOriginalDelivery k2
      \<and> carries (skTransport k2) (enRequestMinor e) (enRequestId e) (enResponse e)" if "hasPendingTx (skTransport k)"
    using D [OF that] E(1,2) life assms(2,5,6,8) by (simp add: servicePendingDelivery_def Let_def)
  then show ?thesis using N E(3,4) by (auto simp: goodResponse_def)
qed

theorem remote_answer_delivered_witness:
  "\<exists>k r k1 e. stackRun k sampleWorld ([] :: bytes) \<and> serviceRemote 5000 k = (r, k1) \<and> lcEntry (skLifecycle k1) = e
     \<and> skrAction r = SA_HOST_RESPONSE_HANDOFF \<and> carries (skTransport k1) (enRequestMinor e) (enRequestId e) (enResponse e)"
proof -
  obtain k r k1 where k: "stackRun k sampleWorld ([] :: bytes)" "skConnected k" "lcState (skLifecycle k) = LS_ACTIVE"
    "\<not> hasPendingTx (skTransport k)" "serviceRemote 5000 k = (r, k1)" "lcState (skLifecycle k1) = LS_COMPLETED" using far_stack by blast
  from remote_answer_delivered [OF k(1-3) disjI2 [OF k(5)] k(6) refl freshAdapter_idle(1,2)] k show ?thesis by auto
qed

end
