(* ===== verification/HostMessageProperties.thy ===== *)
theory HostMessageProperties
  imports HostServiceResponses
begin

text \<open>
  Properties of the host's messages: the operation request and response codecs are inverse to each other, the acceptance of a
  structured value is the acceptance of its decoder, and a host that follows the cursors of the capability list sees the registry.
\<close>

text \<open>C31. An operation request that the encoder accepts is decoded back to the same request (with zeros behind the announced value
  bytes), and bytes that the decoder accepts are what the encoder makes of the decoded request: one byte string per request.\<close>

theorem operation_request_codec:
  "(encodeOperationRequest minor q (Some out) cap = (PR_OK, n, Some out') \<and> cap \<le> length out
      \<and> length (tvBytes (oqValue q)) = HOST_MAX_REQUEST_VALUE_SIZE \<longrightarrow>
      decodeOperationRequest minor (Some out') n = Inr (q\<lparr>oqValue := normalValue (oqValue q)\<rparr>))
   \<and> (decodeOperationRequest minor (Some bs) m = Inr q' \<and> m \<le> length bs \<and> m \<le> cap \<and> m \<le> length out \<longrightarrow>
      (\<exists>out'. encodeOperationRequest minor q' (Some out) cap = (PR_OK, m, Some out') \<and> take m out' = take m bs))"
  using request_decode_encode [of minor q out cap n out'] request_encode_decode [of minor bs m q' cap out] by blast

definition cursorRequest :: "u8 \<Rightarrow> nat \<Rightarrow> operationRequest" where
  "cursorRequest device k = \<lparr>oqCategory = CAT_CAPABILITY, oqOperation = operationCode.GET_CAPABILITIES, oqTargetDeviceId = device,
     oqTargetId = 0, oqValue = snd (setUint32Value setNoneValue VT_UNSIGNED_32 (of_nat k))\<rparr>"

theorem operation_request_codec_witness:
  "\<exists>out'. encodeOperationRequest VERSION_MINOR_0_1 (cursorRequest 2 9) (Some (fillZero 128)) 128 = (PR_OK, 11, Some out')
     \<and> decodeOperationRequest VERSION_MINOR_0_1 (Some out') 11 = Inr (cursorRequest 2 9)"
proof -
  have "case encodeOperationRequest VERSION_MINOR_0_1 (cursorRequest 2 9) (Some (fillZero 128)) 128 of (r, n, out) \<Rightarrow>
      r = PR_OK \<and> n = 11 \<and> out \<noteq> None" by code_simp
  then obtain out' where e: "encodeOperationRequest VERSION_MINOR_0_1 (cursorRequest 2 9) (Some (fillZero 128)) 128 = (PR_OK, 11, Some out')"
    by auto
  have "length (tvBytes (oqValue (cursorRequest 2 9))) = HOST_MAX_REQUEST_VALUE_SIZE"
    "normalValue (oqValue (cursorRequest 2 9)) = oqValue (cursorRequest 2 9)" by code_simp+
  then show ?thesis using operation_request_codec [of VERSION_MINOR_0_1 "cursorRequest 2 9" "fillZero 128" 128 11 out'] e by simp
qed

text \<open>C32. The same for operation responses: every response that the encoder accepts for its version is decoded back, and every accepted
  byte string is the encoding of what it decodes to.\<close>

theorem operation_response_codec:
  "(encodeOperationResponse minor r (Some out) cap = (PR_OK, n, Some out') \<and> cap \<le> length out
      \<and> length (tvBytes (opValue r)) = HOST_MAX_REQUEST_VALUE_SIZE \<and> operationCode_of (operationCode_code (opOperation r)) = opOperation r \<longrightarrow>
      decodeOperationResponse minor (Some out') n = Inr (r\<lparr>opValue := normalValue (opValue r)\<rparr>))
   \<and> (decodeOperationResponse minor (Some bs) m = Inr r' \<and> m \<le> length bs \<and> m \<le> cap \<and> m \<le> length out \<longrightarrow>
      (\<exists>out'. encodeOperationResponse minor r' (Some out) cap = (PR_OK, m, Some out') \<and> take m out' = take m bs))"
  using response_decode_encode [of minor r out cap n out'] response_encode_decode [of minor bs m r' cap out] by blast

definition busyResponse :: operationResponse where
  "busyResponse = \<lparr>opCategory = CAT_DEVICE, opOperation = operationCode.PING, opTargetDeviceId = 2, opTargetId = 0,
     opResultClass = RC_REQUEST_REJECTED, opResultCode = 4, opValue = setNoneValue\<rparr>"

theorem operation_response_codec_witness:
  "\<exists>out'. encodeOperationResponse VERSION_MINOR_0_1 busyResponse (Some (fillZero 128)) 128 = (PR_OK, 9, Some out')
     \<and> decodeOperationResponse VERSION_MINOR_0_1 (Some out') 9 = Inr busyResponse"
proof -
  have "case encodeOperationResponse VERSION_MINOR_0_1 busyResponse (Some (fillZero 128)) 128 of (r, n, out) \<Rightarrow>
      r = PR_OK \<and> n = 9 \<and> out \<noteq> None" by code_simp
  then obtain out' where e: "encodeOperationResponse VERSION_MINOR_0_1 busyResponse (Some (fillZero 128)) 128 = (PR_OK, 9, Some out')" by auto
  have "length (tvBytes (opValue busyResponse)) = HOST_MAX_REQUEST_VALUE_SIZE" "normalValue (opValue busyResponse) = opValue busyResponse"
    "operationCode_of (operationCode_code (opOperation busyResponse)) = opOperation busyResponse" by code_simp+
  then show ?thesis using operation_response_codec [of VERSION_MINOR_0_1 busyResponse "fillZero 128" 128 9 out'] e by simp
qed

text \<open>C33. The two ways in which the code reads a structured value agree: the check that a response's value is a valid structure for its
  operation accepts exactly the values that the record decoder of that operation accepts, for every operation that answers with a record.\<close>

theorem structured_values_agree:
  "(isValidStructureValue operationCode.GET_DEVICE_INFO v \<longleftrightarrow> (\<exists>r. decodeDeviceInfoRecord v = Inr r))
   \<and> (isValidStructureValue operationCode.GET_STATUS v \<longleftrightarrow> (\<exists>r. decodeStatusRecord v = Inr r))
   \<and> (isValidStructureValue operationCode.GET_CAPABILITIES v \<longleftrightarrow> (\<exists>r. decodeCapabilityPageRecord v = Inr r))
   \<and> (isValidStructureValue operationCode.DESCRIBE_CAPABILITY v \<longleftrightarrow> (\<exists>r. decodeCapabilityDescriptionRecord v = Inr r))
   \<and> (isValidStructureValue operationCode.GET_DIAGNOSTICS v \<longleftrightarrow> (\<exists>r. decodeDiagnosticPageRecord v = Inr r))
   \<and> (isValidStructureValue GET_EVENT_DIAGNOSTICS v \<longleftrightarrow>
        (\<exists>r. decodeEventDiagnosticsRecord v = Inr r) \<or> (\<exists>r. decodeEventTxDiagnostics v = Inr r))"
proof -
  have acc: "\<not> isl x \<longleftrightarrow> (\<exists>r. x = Inr r)" for x :: "payloadResult + 'c" by (cases x) auto
  show ?thesis
    unfolding deviceInfo_valid_iff status_valid_iff capabilityPage_valid_iff description_valid_iff diagnosticPage_valid_iff
      eventDiagnostics_valid_iff acc by blast
qed

subsection \<open>Listing the capabilities\<close>

text \<open>A host that asks for the capability list and follows the cursors; at most \<open>fuel\<close> pages.\<close>

definition pageAt :: "u8 \<Rightarrow> capabilityRegistryView \<Rightarrow> 's capabilityHandler \<Rightarrow> interlockState \<Rightarrow> availabilityProvider \<Rightarrow> 's deviceEnv \<Rightarrow> nat \<Rightarrow>
    payloadResult + capabilityPageRecord" where
  "pageAt device registry handler interlock availability env k = decodeCapabilityPageRecord (opValue (hrResponse (fst
     (handleLocalCapability 1 (cursorRequest device k) device True registry handler interlock availability env))))"

primrec listCapabilities :: "nat \<Rightarrow> u8 \<Rightarrow> capabilityRegistryView \<Rightarrow> 's capabilityHandler \<Rightarrow> interlockState \<Rightarrow> availabilityProvider \<Rightarrow>
    's deviceEnv \<Rightarrow> nat \<Rightarrow> capabilityId list option" where
  "listCapabilities 0 device registry handler interlock availability env k = None"
| "listCapabilities (Suc fuel) device registry handler interlock availability env k =
    (case pageAt device registry handler interlock availability env k of Inl _ \<Rightarrow> None
     | Inr page \<Rightarrow> let ids = take (unat (cpCount page)) (cpCapabilityIds page) in
        if cpNextCursor page = CAPABILITY_PAGE_END then Some ids
        else map_option ((@) ids) (listCapabilities fuel device registry handler interlock availability env (unat (cpNextCursor page))))"

lemma cursorRequest_cursor: "k < 256 \<Longrightarrow> unat (requestCursor (cursorRequest device k)) = k"
  by (simp add: requestCursor_def cursorRequest_def setUint32Value_def isNoneValue_def unat_of_nat getLe32_putLe32)

lemma cursorRequest_valid: "validateOperationRequest_0_1 (cursorRequest device k) = PR_OK"
proof -
  have "isValidScalarValue (oqValue (cursorRequest device k))" "isNonNoneScalarValue (oqValue (cursorRequest device k))"
    "tvType (oqValue (cursorRequest device k)) = valueType_code VT_UNSIGNED_32"
    by (simp_all add: cursorRequest_def setUint32Value_def isValidScalarValue_def isNonNoneScalarValue_def expectedScalarValueLength_def valueType_of_def
        isNoneValue_def)
  then show ?thesis
    by (simp add: validateOperationRequest_0_1_def validateOperationRequest_def Let_def cursorRequest_def classifyCategoryOperation_def
        isKnownOperationCategory_def isKnownOperationCategory_0_1_def isKnownOperationCode_def isKnownOperationCode_0_1_def
        isSupportedCategoryOperation_def operationCategory_of_def operationCode_of_def)
qed

lemma pageAt_page:
  assumes valid: "isValidCapabilityRegistry registry" and k: "k \<le> unat (crCount registry)"
  shows "pageAt device registry handler interlock availability env k = Inr (capabilityPage registry k)"
proof -
  have c: "unat (requestCursor (cursorRequest device k)) = k"
    using k unsigned_less [of "crCount registry", where ?'a = nat] by (intro cursorRequest_cursor) simp
  then have le: "requestCursor (cursorRequest device k) \<le> ucast (crCount registry)" using k by (simp add: word_le_nat_alt)
  obtain v where v: "encodeCapabilityPageRecord (capabilityPage registry k) = Inr v" using capabilityPage_encodes(1) [OF valid k] by blast
  note dec = capabilityPage_roundtrip [OF v capabilityPage_encodes(2) [OF valid k]]
  show ?thesis using dec v c getCapabilities_page [OF valid le] cursorRequest_valid
    by (simp add: pageAt_def handleLocalCapability_def Let_def respondWith_def setResponseValue_def) (simp add: cursorRequest_def)
qed

lemma capabilityPage_sel:
  assumes "start \<le> unat (crCount registry)"
  defines "m \<equiv> pageEnd 9 (unat (crCount registry)) start"
  shows "take (unat (cpCount (capabilityPage registry start))) (cpCapabilityIds (capabilityPage registry start)) =
      map (\<lambda>k. cdId (the (crDescriptors registry) ! k)) [start..<m]"
    and "cpNextCursor (capabilityPage registry start) = (if m = unat (crCount registry) then CAPABILITY_PAGE_END else of_nat m)"
proof -
  have "unat (of_nat (m - start) :: u8) = m - start" using pageEnd_bounds(3) [of 9 "unat (crCount registry)" start]
    by (intro unat_of_nat_u8) (simp add: m_def)
  then show "take (unat (cpCount (capabilityPage registry start))) (cpCapabilityIds (capabilityPage registry start)) =
      map (\<lambda>k. cdId (the (crDescriptors registry) ! k)) [start..<m]"
    by (simp add: capabilityPage_def Let_def m_def [symmetric] del: of_nat_diff)
qed (simp add: capabilityPage_def Let_def m_def)

text \<open>C38. A host that reads the capability list page by page, following the cursor that each page gives, sees exactly the registry's capability
  ids, each once and in order, and is done after at most two pages, because a registry holds at most sixteen capabilities and a page nine.\<close>

theorem capability_list_complete:
  assumes valid: "isValidCapabilityRegistry registry"
  shows "listCapabilities 2 device registry handler interlock availability env 0 = Some (capabilityIdsOf registry)"
proof -
  define n where "n = unat (crCount registry)"
  have "\<not> crCount registry > 16" using valid by (auto simp: isValidCapabilityRegistry_def)
  then have n: "n \<le> 16" by (simp add: n_def word_less_nat_alt)
  have ids: "capabilityIdsOf registry = map (\<lambda>k. cdId (the (crDescriptors registry) ! k)) [0..<n]" by (simp add: capabilityIdsOf_def n_def)
  have page0: "pageAt device registry handler interlock availability env 0 = Inr (capabilityPage registry 0)"
    by (rule pageAt_page [OF valid]) simp
  note sel0 = capabilityPage_sel [of 0 registry, folded n_def]
  show ?thesis
  proof (cases "n \<le> 9")
    case True
    then have "pageEnd 9 n 0 = n" by (simp add: pageEnd_def)
    then show ?thesis unfolding numeral_2_eq_2 using page0 sel0 ids by (simp add: Let_def)
  next
    case False
    then have e: "pageEnd 9 n 0 = 9" "pageEnd 9 n 9 = n" using n by (simp_all add: pageEnd_def)
    have page9: "pageAt device registry handler interlock availability env 9 = Inr (capabilityPage registry 9)"
      by (rule pageAt_page [OF valid]) (use False in \<open>simp add: n_def\<close>)
    note sel9 = capabilityPage_sel [of 9 registry, folded n_def]
    have split: "[0..<n] = [0..<9] @ [9..<n]" using False upt_add_eq_append [of 0 9 "n - 9"] by simp
    show ?thesis unfolding numeral_2_eq_2 using False page0 page9 sel0 sel9 e ids split by (simp add: Let_def)
  qed
qed

theorem capability_list_complete_witness:
  "\<forall>env. listCapabilities 2 2 sampleRegistry sampleHandler INTERLOCK_CLEAR None env 0 = Some [7]"
proof -
  have "isValidCapabilityRegistry sampleRegistry" "capabilityIdsOf sampleRegistry = [7]" by code_simp+
  then show ?thesis using capability_list_complete [of sampleRegistry 2 sampleHandler INTERLOCK_CLEAR None] by simp
qed

end
