(* ===== verification/DeviceSettings.thy ===== *)
theory DeviceSettings
  imports DualStore
begin

text \<open>
  The device's settings (\<^verbatim>\<open>lib/device_settings/src/device_settings.h\<close>): validation and repair, the 24-byte record with its
  CRC, and the manager that keeps the settings in two slots of a record store and recovers an interrupted factory reset from a
  durable marker.  \<^verbatim>\<open>RecordSlot\<close> is the two-valued \<open>copySlot\<close>; the CRC is the loop of \<^verbatim>\<open>event_records.h\<close>, which the
  source repeats here.
\<close>

subsection \<open>Settings\<close>

datatype defaultScreen = SCR_HOME | SCR_RADIO | SCR_DEVICE | SCR_LAST_PACKET | SCR_DIAGNOSTICS | SCR_ABOUT | DefaultScreen_raw u8

fun defaultScreen_code :: "defaultScreen \<Rightarrow> u8" where
  "defaultScreen_code SCR_HOME = 0"
| "defaultScreen_code SCR_RADIO = 1"
| "defaultScreen_code SCR_DEVICE = 2"
| "defaultScreen_code SCR_LAST_PACKET = 3"
| "defaultScreen_code SCR_DIAGNOSTICS = 4"
| "defaultScreen_code SCR_ABOUT = 5"
| "defaultScreen_code (DefaultScreen_raw b) = b"

definition defaultScreen_of :: "u8 \<Rightarrow> defaultScreen" where
  "defaultScreen_of b = (if b = 0 then SCR_HOME else if b = 1 then SCR_RADIO else if b = 2 then SCR_DEVICE
     else if b = 3 then SCR_LAST_PACKET else if b = 4 then SCR_DIAGNOSTICS else if b = 5 then SCR_ABOUT else DefaultScreen_raw b)"

definition SCHEMA_VERSION :: u16 where [simp]: "SCHEMA_VERSION = 1"
definition RECORD_SIZE :: nat where [simp]: "RECORD_SIZE = 24"
definition CRC_INPUT_SIZE :: nat where [simp]: "CRC_INPUT_SIZE = 20"
definition FLAG_LED_ENABLED :: u8 where [simp]: "FLAG_LED_ENABLED = 0x01"
definition FLAG_DIAGNOSTICS_ENABLED :: u8 where [simp]: "FLAG_DIAGNOSTICS_ENABLED = 0x02"
definition FLAG_BUTTON_FEEDBACK_ENABLED :: u8 where [simp]: "FLAG_BUTTON_FEEDBACK_ENABLED = 0x04"
definition KNOWN_FLAGS :: u8 where [simp]: "KNOWN_FLAGS = 0x07"

record settings =
  stDisplayTimeoutSeconds :: u16
  stDisplayContrast :: u8
  stLedEnabled :: bool
  stDiagnosticsEnabled :: bool
  stDefaultScreen :: defaultScreen
  stButtonFeedbackEnabled :: bool

definition defaults :: settings where
  "defaults = \<lparr>stDisplayTimeoutSeconds = 30, stDisplayContrast = 207, stLedEnabled = True, stDiagnosticsEnabled = True,
     stDefaultScreen = SCR_HOME, stButtonFeedbackEnabled = False\<rparr>"

definition isValidDisplayTimeoutSeconds :: "u16 \<Rightarrow> bool" where
  "isValidDisplayTimeoutSeconds v = (v = 0 \<or> v \<ge> 5 \<and> v \<le> 600)"

definition isValidDisplayContrast :: "u8 \<Rightarrow> bool" where
  "isValidDisplayContrast v = (v \<ge> 16)"

text \<open>A raw value stands for a byte above 5: \<open>defaultScreen_of\<close> gives the named screens for the bytes 0 to 5.\<close>

fun isValidDefaultScreen :: "defaultScreen \<Rightarrow> bool" where
  "isValidDefaultScreen (DefaultScreen_raw b) = False"
| "isValidDefaultScreen _ = True"

definition isValidSettings :: "settings \<Rightarrow> bool" where
  "isValidSettings st = (isValidDisplayTimeoutSeconds (stDisplayTimeoutSeconds st) \<and> isValidDisplayContrast (stDisplayContrast st)
     \<and> isValidDefaultScreen (stDefaultScreen st))"

datatype validationResult = VR_UNCHANGED | VR_REPAIRED

definition validateAndRepair :: "settings \<Rightarrow> validationResult \<times> settings" where
  "validateAndRepair st =
     (let t = isValidDisplayTimeoutSeconds (stDisplayTimeoutSeconds st); c = isValidDisplayContrast (stDisplayContrast st);
          d = isValidDefaultScreen (stDefaultScreen st);
          st = (if \<not> t then st\<lparr>stDisplayTimeoutSeconds := 30\<rparr> else st);
          st = (if \<not> c then st\<lparr>stDisplayContrast := 207\<rparr> else st);
          st = (if \<not> d then st\<lparr>stDefaultScreen := SCR_HOME\<rparr> else st) in
      (if \<not> t \<or> \<not> c \<or> \<not> d then VR_REPAIRED else VR_UNCHANGED, st))"

subsection \<open>The record\<close>

datatype settingsCodec = SC_OK | SC_NULL_POINTER | SC_WRONG_LENGTH | SC_CORRUPT_MAGIC | SC_CORRUPT_RECORD_LENGTH | SC_CORRUPT_CRC
  | SC_UNSUPPORTED_SCHEMA | SC_UNKNOWN_FLAGS | SC_NONZERO_RESERVED | SC_INVALID_TIMEOUT | SC_INVALID_CONTRAST | SC_INVALID_SCREEN

definition validateCodecSettings :: "settings \<Rightarrow> settingsCodec" where
  "validateCodecSettings st =
     (if \<not> isValidDisplayTimeoutSeconds (stDisplayTimeoutSeconds st) then SC_INVALID_TIMEOUT
      else if \<not> isValidDisplayContrast (stDisplayContrast st) then SC_INVALID_CONTRAST
      else if \<not> isValidDefaultScreen (stDefaultScreen st) then SC_INVALID_SCREEN else SC_OK)"

definition settingsFlags :: "settings \<Rightarrow> u8" where
  "settingsFlags st = (if stLedEnabled st then FLAG_LED_ENABLED else 0) OR (if stDiagnosticsEnabled st then FLAG_DIAGNOSTICS_ENABLED else 0)
     OR (if stButtonFeedbackEnabled st then FLAG_BUTTON_FEEDBACK_ENABLED else 0)"

text \<open>The bytes before the CRC.\<close>

definition recordBody :: "settings \<Rightarrow> u32 \<Rightarrow> bytes \<Rightarrow> bytes" where
  "recordBody st generation out =
     (let out = out[0 := 0x52, 1 := 0x4C, 2 := 0x43, 3 := 0x46]; out = putLe16 out 4 SCHEMA_VERSION;
          out = putLe16 out 6 (of_nat RECORD_SIZE); out = putLe32 out 8 generation; out = putLe16 out 12 (stDisplayTimeoutSeconds st) in
      out[14 := stDisplayContrast st, 15 := defaultScreen_code (stDefaultScreen st), 16 := settingsFlags st, 17 := 0, 18 := 0, 19 := 0])"

definition encodeRecord :: "settings \<Rightarrow> u32 \<Rightarrow> bytes option \<Rightarrow> nat \<Rightarrow> settingsCodec \<times> bytes option" where
  "encodeRecord st generation output outputLength = (case output of None \<Rightarrow> (SC_NULL_POINTER, None) | Some out \<Rightarrow>
     if outputLength \<noteq> RECORD_SIZE then (SC_WRONG_LENGTH, output)
     else if validateCodecSettings st \<noteq> SC_OK then (validateCodecSettings st, output)
     else let out = recordBody st generation out in (SC_OK, Some (putLe32 out 20 (crcOf (take CRC_INPUT_SIZE out)))))"

text \<open>The settings that the bytes of a record stand for, before they are validated.\<close>

definition rawSettings :: "bytes \<Rightarrow> settings" where
  "rawSettings bs = \<lparr>stDisplayTimeoutSeconds = getLe16 bs 12, stDisplayContrast = bs ! 14,
     stLedEnabled = (bs ! 16 AND FLAG_LED_ENABLED \<noteq> 0), stDiagnosticsEnabled = (bs ! 16 AND FLAG_DIAGNOSTICS_ENABLED \<noteq> 0),
     stDefaultScreen = defaultScreen_of (bs ! 15), stButtonFeedbackEnabled = (bs ! 16 AND FLAG_BUTTON_FEEDBACK_ENABLED \<noteq> 0)\<rparr>"

definition decodeRecordPtr :: "bytes option \<Rightarrow> nat \<Rightarrow> bool \<Rightarrow> settingsCodec + settings \<times> u32" where
  "decodeRecordPtr input inputLength outputs = (case input of None \<Rightarrow> Inl SC_NULL_POINTER | Some bs \<Rightarrow>
     if \<not> outputs then Inl SC_NULL_POINTER
     else if inputLength \<noteq> RECORD_SIZE then Inl SC_WRONG_LENGTH
     else if bs ! 0 \<noteq> 0x52 \<or> bs ! 1 \<noteq> 0x4C \<or> bs ! 2 \<noteq> 0x43 \<or> bs ! 3 \<noteq> 0x46 then Inl SC_CORRUPT_MAGIC
     else if unat (getLe16 bs 6) \<noteq> RECORD_SIZE then Inl SC_CORRUPT_RECORD_LENGTH
     else if getLe32 bs 20 \<noteq> crcOf (take CRC_INPUT_SIZE bs) then Inl SC_CORRUPT_CRC
     else if getLe16 bs 4 \<noteq> SCHEMA_VERSION then Inl SC_UNSUPPORTED_SCHEMA
     else if bs ! 16 AND NOT KNOWN_FLAGS \<noteq> 0 then Inl SC_UNKNOWN_FLAGS
     else if bs ! 17 \<noteq> 0 \<or> bs ! 18 \<noteq> 0 \<or> bs ! 19 \<noteq> 0 then Inl SC_NONZERO_RESERVED
     else if validateCodecSettings (rawSettings bs) \<noteq> SC_OK then Inl (validateCodecSettings (rawSettings bs))
     else Inr (rawSettings bs, getLe32 bs 8))"

text \<open>The overload whose outputs are references.\<close>

definition decodeRecord :: "bytes option \<Rightarrow> nat \<Rightarrow> settingsCodec + settings \<times> u32" where
  "decodeRecord input inputLength = decodeRecordPtr input inputLength True"

definition decodeRecordWithRepair :: "bytes option \<Rightarrow> nat \<Rightarrow> settingsCodec + settings \<times> u32 \<times> bool" where
  "decodeRecordWithRepair input inputLength = (case decodeRecord input inputLength of
       Inr (st, generation) \<Rightarrow> Inr (st, generation, False)
     | Inl e \<Rightarrow> if e \<noteq> SC_INVALID_TIMEOUT \<and> e \<noteq> SC_INVALID_CONTRAST \<and> e \<noteq> SC_INVALID_SCREEN then Inl e
         else Inr (snd (validateAndRepair (rawSettings (the input))), getLe32 (the input) 8, True))"

subsection \<open>The record store\<close>

datatype storeResult = ST_OK | ST_MISSING | ST_MALFORMED | ST_UNAVAILABLE | ST_ERROR

text \<open>The virtual functions, as functions on an environment state.  A buffer argument comes back with what was written to it.\<close>

record 's recordStore =
  rsReadSlot :: "copySlot \<Rightarrow> bytes \<Rightarrow> 's \<Rightarrow> storeResult \<times> bytes \<times> nat \<times> 's"
  rsWriteSlot :: "copySlot \<Rightarrow> bytes \<Rightarrow> 's \<Rightarrow> storeResult \<times> 's"
  rsRemoveSlot :: "copySlot \<Rightarrow> 's \<Rightarrow> storeResult \<times> 's"
  rsReadResetMarker :: "bool \<Rightarrow> 's \<Rightarrow> storeResult \<times> bool \<times> 's"
  rsWriteResetMarker :: "bool \<Rightarrow> 's \<Rightarrow> storeResult \<times> 's"
  rsRemoveResetMarker :: "'s \<Rightarrow> storeResult \<times> 's"

datatype loadStatus = LD_LOADED | LD_DEFAULTED_MISSING | LD_LOADED_FALLBACK_SLOT | LD_REPAIRED_SCHEMA_1 | LD_DEFAULTED_CORRUPT
  | LD_UNSUPPORTED_SCHEMA | LD_STORAGE_UNAVAILABLE | LD_RESET_COMPLETED | LD_RESET_RECOVERY_FAILED

datatype saveStatus = SV_SAVED | SV_REPAIRED_SAVED | SV_UNCHANGED | SV_REPAIRED_UNCHANGED | SV_UNSUPPORTED_SCHEMA
  | SV_STORAGE_UNAVAILABLE | SV_WRITE_FAILED | SV_READ_BACK_FAILED | SV_VERIFICATION_FAILED

datatype resetResult = RR_RESET_COMPLETED | RR_RESET_NOT_PENDING | RR_STORAGE_UNAVAILABLE | RR_MARKER_WRITE_FAILED
  | RR_MARKER_VERIFY_FAILED | RR_SLOT_REMOVE_FAILED | RR_DEFAULT_WRITE_FAILED | RR_DEFAULT_VERIFY_FAILED | RR_MARKER_REMOVE_FAILED

datatype migrationResult = MG_SCHEMA_1_DIRECT | MG_NOT_MIGRATION | MG_UNSUPPORTED_SCHEMA

definition dispatchMigration :: "bytes option \<Rightarrow> nat \<Rightarrow> migrationResult" where
  "dispatchMigration input inputLength = (case input of None \<Rightarrow> MG_NOT_MIGRATION | Some bs \<Rightarrow>
     if inputLength \<noteq> RECORD_SIZE then MG_NOT_MIGRATION
     else if bs ! 0 \<noteq> 0x52 \<or> bs ! 1 \<noteq> 0x4C \<or> bs ! 2 \<noteq> 0x43 \<or> bs ! 3 \<noteq> 0x46 \<or> unat (getLe16 bs 6) \<noteq> RECORD_SIZE then MG_NOT_MIGRATION
     else if getLe32 bs 20 \<noteq> crcOf (take CRC_INPUT_SIZE bs) then MG_NOT_MIGRATION
     else if getLe16 bs 4 = SCHEMA_VERSION then MG_SCHEMA_1_DIRECT else MG_UNSUPPORTED_SCHEMA)"

definition generationIsNewer :: "u32 \<Rightarrow> u32 \<Rightarrow> bool" where
  "generationIsNewer candidate reference = (sint (candidate - reference) > 0)"

subsection \<open>The settings manager\<close>

datatype slotKind = SK_MISSING | SK_VALID | SK_REPAIRED | SK_CORRUPT | SK_UNSUPPORTED | SK_UNAVAILABLE

record slotRecord =
  slKind :: slotKind
  slSettings :: settings
  slGeneration :: u32
  slBytes :: bytes
  slLength :: nat

definition slotRecord_init :: slotRecord where
  "slotRecord_init = \<lparr>slKind = SK_MISSING, slSettings = defaults, slGeneration = 0, slBytes = fillZero RECORD_SIZE, slLength = 0\<rparr>"

record settingsManager =
  smSettings :: settings
  smGeneration :: u32
  smActiveSlot :: copySlot
  smHasActiveSlot :: bool
  smRepairPending :: bool
  smUnsupportedSlotA :: bool
  smUnsupportedSlotB :: bool
  smLastResetResult :: resetResult

definition settingsManager_init :: settingsManager where
  "settingsManager_init = \<lparr>smSettings = defaults, smGeneration = 0, smActiveSlot = CopyA, smHasActiveSlot = False, smRepairPending = False,
     smUnsupportedSlotA = False, smUnsupportedSlotB = False, smLastResetResult = RR_RESET_NOT_PENDING\<rparr>"

definition resetRuntimeState :: "settingsManager \<Rightarrow> settingsManager" where
  "resetRuntimeState m = m\<lparr>smSettings := defaults, smGeneration := 0, smActiveSlot := CopyA, smHasActiveSlot := False,
     smRepairPending := False, smUnsupportedSlotA := False, smUnsupportedSlotB := False, smLastResetResult := RR_RESET_NOT_PENDING\<rparr>"

definition unsupportedSchema :: "settingsManager \<Rightarrow> bool" where
  "unsupportedSchema m = (smUnsupportedSlotA m \<or> smUnsupportedSlotB m)"

definition isUnsupportedSlot :: "copySlot \<Rightarrow> settingsManager \<Rightarrow> bool" where
  "isUnsupportedSlot slot m = (if slot = CopyA then smUnsupportedSlotA m else smUnsupportedSlotB m)"

definition isUsable :: "slotRecord \<Rightarrow> bool" where
  "isUsable r = (slKind r = SK_VALID \<or> slKind r = SK_REPAIRED)"

definition recordsEqual :: "slotRecord \<Rightarrow> slotRecord \<Rightarrow> bool" where
  "recordsEqual l r = (slLength l = slLength r \<and> sameBytes (slBytes l) (slBytes r) (slLength l))"

definition readAndClassify :: "'s recordStore \<Rightarrow> copySlot \<Rightarrow> 's \<Rightarrow> slotRecord \<times> 's" where
  "readAndClassify st slot s = (case rsReadSlot st slot (slBytes slotRecord_init) s of (result, bs, n, s) \<Rightarrow>
     let r = slotRecord_init\<lparr>slBytes := bs, slLength := n\<rparr> in
     if result = ST_MISSING then (r\<lparr>slKind := SK_MISSING\<rparr>, s)
     else if result = ST_MALFORMED then (r\<lparr>slKind := SK_CORRUPT\<rparr>, s)
     else if result \<noteq> ST_OK then (r\<lparr>slKind := SK_UNAVAILABLE\<rparr>, s)
     else case decodeRecordWithRepair (Some bs) n of
       Inl e \<Rightarrow> (r\<lparr>slKind := (if e = SC_UNSUPPORTED_SCHEMA then SK_UNSUPPORTED else SK_CORRUPT)\<rparr>, s)
     | Inr (x, generation, repaired) \<Rightarrow>
         (r\<lparr>slSettings := x, slGeneration := generation, slKind := (if repaired then SK_REPAIRED else SK_VALID)\<rparr>, s))"

definition applySelected :: "slotRecord \<Rightarrow> copySlot \<Rightarrow> bool \<Rightarrow> settingsManager \<Rightarrow> loadStatus \<times> settingsManager" where
  "applySelected selected slot fallback m =
     (let m = m\<lparr>smSettings := slSettings selected, smGeneration := slGeneration selected, smActiveSlot := slot, smHasActiveSlot := True\<rparr> in
      if slKind selected = SK_REPAIRED then (LD_REPAIRED_SCHEMA_1, m\<lparr>smRepairPending := True\<rparr>)
      else if fallback then (LD_LOADED_FALLBACK_SLOT, m\<lparr>smRepairPending := True\<rparr>)
      else (LD_LOADED, m))"

definition removeAndVerifySlot :: "'s recordStore \<Rightarrow> copySlot \<Rightarrow> 's \<Rightarrow> resetResult \<times> 's" where
  "removeAndVerifySlot st slot s = (case rsRemoveSlot st slot s of (removed, s) \<Rightarrow>
     if removed = ST_UNAVAILABLE then (RR_STORAGE_UNAVAILABLE, s)
     else if removed \<noteq> ST_OK \<and> removed \<noteq> ST_MISSING then (RR_SLOT_REMOVE_FAILED, s)
     else case rsReadSlot st slot (fillZero RECORD_SIZE) s of (verified, _, _, s) \<Rightarrow>
       if verified = ST_UNAVAILABLE then (RR_STORAGE_UNAVAILABLE, s)
       else (if verified = ST_MISSING then RR_RESET_COMPLETED else RR_SLOT_REMOVE_FAILED, s))"

text \<open>The second half of \<^verbatim>\<open>completeVerifiedReset\<close>: both slots are gone, the defaults are written and read back, the marker goes.\<close>

definition writeDefaults :: "'s recordStore \<Rightarrow> settingsManager \<Rightarrow> 's \<Rightarrow> resetResult \<times> settingsManager \<times> 's" where
  "writeDefaults st m s = (case encodeRecord defaults 1 (Some (fillZero RECORD_SIZE)) RECORD_SIZE of (e, out) \<Rightarrow>
     if e \<noteq> SC_OK then (RR_DEFAULT_WRITE_FAILED, m, s)
     else case rsWriteSlot st CopyA (the out) s of (w, s) \<Rightarrow>
     if w = ST_UNAVAILABLE then (RR_STORAGE_UNAVAILABLE, m, s)
     else if w \<noteq> ST_OK then (RR_DEFAULT_WRITE_FAILED, m, s)
     else case rsReadSlot st CopyA (fillZero RECORD_SIZE) s of (r, bs, n, s) \<Rightarrow>
     if r = ST_UNAVAILABLE then (RR_STORAGE_UNAVAILABLE, m, s)
     else if r \<noteq> ST_OK \<or> decodeRecord (Some bs) n \<noteq> Inr (defaults, 1) then (RR_DEFAULT_VERIFY_FAILED, m, s)
     else case rsRemoveResetMarker st s of (d, s) \<Rightarrow>
     if d = ST_UNAVAILABLE then (RR_STORAGE_UNAVAILABLE, m, s)
     else if d \<noteq> ST_OK then (RR_MARKER_REMOVE_FAILED, m, s)
     else case rsReadResetMarker st False s of (v, _, s) \<Rightarrow>
     if v = ST_UNAVAILABLE then (RR_STORAGE_UNAVAILABLE, m, s)
     else if v \<noteq> ST_MISSING then (RR_MARKER_REMOVE_FAILED, m, s)
     else (RR_RESET_COMPLETED, m\<lparr>smSettings := defaults, smGeneration := 1, smActiveSlot := CopyA, smHasActiveSlot := True,
       smRepairPending := False, smUnsupportedSlotA := False, smUnsupportedSlotB := False\<rparr>, s))"

definition completeVerifiedReset :: "'s recordStore \<Rightarrow> settingsManager \<Rightarrow> 's \<Rightarrow> resetResult \<times> settingsManager \<times> 's" where
  "completeVerifiedReset st m s = (case removeAndVerifySlot st CopyA s of (a, s) \<Rightarrow>
     if a \<noteq> RR_RESET_COMPLETED then (a, m, s)
     else case removeAndVerifySlot st CopyB s of (b, s) \<Rightarrow>
     if b \<noteq> RR_RESET_COMPLETED then (b, m, s) else writeDefaults st m s)"

text \<open>Both callers store the result before they return it.\<close>

definition noteReset :: "resetResult \<times> settingsManager \<times> 's \<Rightarrow> resetResult \<times> settingsManager \<times> 's" where
  "noteReset x = (case x of (r, m, s) \<Rightarrow> (r, m\<lparr>smLastResetResult := r\<rparr>, s))"

definition recoverPendingReset :: "'s recordStore \<Rightarrow> settingsManager \<Rightarrow> 's \<Rightarrow> resetResult \<times> settingsManager \<times> 's" where
  "recoverPendingReset st m s = noteReset (case rsReadResetMarker st False s of (r, pending, s) \<Rightarrow>
     if r = ST_MISSING \<or> r = ST_OK \<and> \<not> pending then (RR_RESET_NOT_PENDING, m, s)
     else if r = ST_UNAVAILABLE then (RR_STORAGE_UNAVAILABLE, m, s)
     else if r \<noteq> ST_OK then (RR_MARKER_VERIFY_FAILED, m, s)
     else completeVerifiedReset st m s)"

definition factoryReset :: "'s recordStore \<Rightarrow> settingsManager \<Rightarrow> 's \<Rightarrow> resetResult \<times> settingsManager \<times> 's" where
  "factoryReset st m s = noteReset (case rsWriteResetMarker st True s of (w, s) \<Rightarrow>
     if w = ST_UNAVAILABLE then (RR_STORAGE_UNAVAILABLE, m, s)
     else if w \<noteq> ST_OK then (RR_MARKER_WRITE_FAILED, m, s)
     else case rsReadResetMarker st False s of (r, pending, s) \<Rightarrow>
     if r = ST_UNAVAILABLE then (RR_STORAGE_UNAVAILABLE, m, s)
     else if r \<noteq> ST_OK \<or> \<not> pending then (RR_MARKER_VERIFY_FAILED, m, s)
     else completeVerifiedReset st m s)"

text \<open>The choice between the two slots that \<^verbatim>\<open>load\<close> makes once both are read.\<close>

definition selectSlots :: "slotRecord \<Rightarrow> slotRecord \<Rightarrow> settingsManager \<Rightarrow> loadStatus \<times> settingsManager" where
  "selectSlots a b m =
     (if slKind a = SK_UNAVAILABLE \<or> slKind b = SK_UNAVAILABLE then (LD_STORAGE_UNAVAILABLE, m)
      else let m = m\<lparr>smUnsupportedSlotA := slKind a = SK_UNSUPPORTED, smUnsupportedSlotB := slKind b = SK_UNSUPPORTED\<rparr>;
          corrupt = (LD_DEFAULTED_CORRUPT, m\<lparr>smRepairPending := True\<rparr>) in
      if \<not> isUsable a \<and> \<not> isUsable b then
        (if unsupportedSchema m then (LD_UNSUPPORTED_SCHEMA, m)
         else if slKind a = SK_MISSING \<and> slKind b = SK_MISSING then (LD_DEFAULTED_MISSING, m) else corrupt)
      else if isUsable a \<and> isUsable b then
        (if slGeneration a = slGeneration b then (if \<not> recordsEqual a b then corrupt else applySelected a CopyA False m)
         else if generationIsNewer (slGeneration a) (slGeneration b) then applySelected a CopyA False m
         else if generationIsNewer (slGeneration b) (slGeneration a) then applySelected b CopyB False m
         else corrupt)
      else if isUsable a then applySelected a CopyA (slKind b = SK_CORRUPT) m
      else applySelected b CopyB (slKind a = SK_CORRUPT) m)"

definition sm_load :: "'s recordStore \<Rightarrow> settingsManager \<Rightarrow> 's \<Rightarrow> loadStatus \<times> settingsManager \<times> 's" where
  "sm_load st m s = (case recoverPendingReset st (resetRuntimeState m) s of (reset, m, s) \<Rightarrow>
     if reset = RR_RESET_COMPLETED then (LD_RESET_COMPLETED, m, s)
     else if reset = RR_STORAGE_UNAVAILABLE then (LD_STORAGE_UNAVAILABLE, m, s)
     else if reset \<noteq> RR_RESET_NOT_PENDING then (LD_RESET_RECOVERY_FAILED, m, s)
     else case readAndClassify st CopyA s of (a, s) \<Rightarrow>
     case readAndClassify st CopyB s of (b, s) \<Rightarrow>
     case selectSlots a b m of (status, m) \<Rightarrow> (status, m, s))"

definition sm_save :: "'s recordStore \<Rightarrow> settings \<Rightarrow> settingsManager \<Rightarrow> 's \<Rightarrow> saveStatus \<times> settingsManager \<times> 's" where
  "sm_save st candidate m s = (case validateAndRepair candidate of (v, canonical) \<Rightarrow>
     let repaired = (v = VR_REPAIRED); target = (if smHasActiveSlot m then opposite (smActiveSlot m) else CopyA);
         nextGeneration = smGeneration m + 1 in
     if \<not> smHasActiveSlot m \<and> unsupportedSchema m then (SV_UNSUPPORTED_SCHEMA, m, s)
     else if canonical = smSettings m \<and> \<not> smRepairPending m then (if repaired then SV_REPAIRED_UNCHANGED else SV_UNCHANGED, m, s)
     else if isUnsupportedSlot target m then (SV_UNSUPPORTED_SCHEMA, m, s)
     else case encodeRecord canonical nextGeneration (Some (fillZero RECORD_SIZE)) RECORD_SIZE of (e, out) \<Rightarrow>
     if e \<noteq> SC_OK then (SV_VERIFICATION_FAILED, m, s)
     else case rsWriteSlot st target (the out) s of (w, s) \<Rightarrow>
     if w = ST_UNAVAILABLE then (SV_STORAGE_UNAVAILABLE, m, s)
     else if w \<noteq> ST_OK then (SV_WRITE_FAILED, m, s)
     else case rsReadSlot st target (fillZero RECORD_SIZE) s of (r, bs, n, s) \<Rightarrow>
     if r = ST_UNAVAILABLE then (SV_STORAGE_UNAVAILABLE, m, s)
     else if r \<noteq> ST_OK then (SV_READ_BACK_FAILED, m, s)
     else if decodeRecord (Some bs) n \<noteq> Inr (canonical, nextGeneration) then (SV_VERIFICATION_FAILED, m, s)
     else (if repaired then SV_REPAIRED_SAVED else SV_SAVED,
       m\<lparr>smSettings := canonical, smGeneration := nextGeneration, smActiveSlot := target, smHasActiveSlot := True,
         smRepairPending := False\<rparr>, s))"

end
