(* ===== verification/SettingsCodecs.thy ===== *)
theory SettingsCodecs
  imports DeviceSettings
begin

text \<open>
  The settings record: repair makes every candidate valid and changes nothing valid, encoding and decoding are inverse to each
  other on valid settings, decoded settings are valid, and a record with one byte changed is refused by both decoders.
\<close>

subsection \<open>Repair\<close>

lemma defaults_valid [simp]: "isValidSettings defaults"
  by (simp add: isValidSettings_def defaults_def isValidDisplayTimeoutSeconds_def isValidDisplayContrast_def)

lemma repair_valid: "isValidSettings (snd (validateAndRepair st))"
  by (simp add: validateAndRepair_def Let_def isValidSettings_def isValidDisplayTimeoutSeconds_def isValidDisplayContrast_def)

lemma repair_unchanged:
  "isValidSettings st \<Longrightarrow> validateAndRepair st = (VR_UNCHANGED, st)"
  by (simp add: validateAndRepair_def isValidSettings_def)

lemma repair_status: "fst (validateAndRepair st) = (if isValidSettings st then VR_UNCHANGED else VR_REPAIRED)"
  by (simp add: validateAndRepair_def Let_def isValidSettings_def)

lemma validateCodecSettings_ok: "validateCodecSettings st = SC_OK \<longleftrightarrow> isValidSettings st"
  by (simp add: validateCodecSettings_def isValidSettings_def)

lemma repair_fields:
  "validateAndRepair st = (v, st') \<Longrightarrow> (isValidDisplayTimeoutSeconds (stDisplayTimeoutSeconds st) \<longrightarrow>
     stDisplayTimeoutSeconds st' = stDisplayTimeoutSeconds st) \<and> (isValidDisplayContrast (stDisplayContrast st) \<longrightarrow>
     stDisplayContrast st' = stDisplayContrast st) \<and> (isValidDefaultScreen (stDefaultScreen st) \<longrightarrow>
     stDefaultScreen st' = stDefaultScreen st) \<and> stLedEnabled st' = stLedEnabled st
     \<and> stDiagnosticsEnabled st' = stDiagnosticsEnabled st \<and> stButtonFeedbackEnabled st' = stButtonFeedbackEnabled st"
  by (simp add: validateAndRepair_def Let_def split: if_splits; clarsimp)

subsection \<open>Fields\<close>

lemma defaultScreen_of_code: "isValidDefaultScreen d \<Longrightarrow> defaultScreen_of (defaultScreen_code d) = d"
  by (cases d) (simp_all add: defaultScreen_of_def)

lemma defaultScreen_code_of [simp]: "defaultScreen_code (defaultScreen_of b) = b"
  by (simp add: defaultScreen_of_def)

lemma settingsFlags_bits:
  "settingsFlags st AND FLAG_LED_ENABLED \<noteq> 0 \<longleftrightarrow> stLedEnabled st"
  "settingsFlags st AND FLAG_DIAGNOSTICS_ENABLED \<noteq> 0 \<longleftrightarrow> stDiagnosticsEnabled st"
  "settingsFlags st AND FLAG_BUTTON_FEEDBACK_ENABLED \<noteq> 0 \<longleftrightarrow> stButtonFeedbackEnabled st"
  "settingsFlags st AND NOT KNOWN_FLAGS = 0"
  by (simp_all add: settingsFlags_def)

lemma flags_of_bits:
  assumes "b AND NOT (7 :: u8) = 0"
  shows "(if b AND 1 \<noteq> 0 then 1 else 0) OR (if b AND 2 \<noteq> 0 then 2 else 0) OR (if b AND 4 \<noteq> 0 then 4 else 0) = b"
proof -
  have bits: "b AND 1 \<noteq> 0 \<longleftrightarrow> bit b 0" "b AND 2 \<noteq> 0 \<longleftrightarrow> bit b 1" "b AND 4 \<noteq> 0 \<longleftrightarrow> bit b 2"
    using and_exp_eq_0_iff_not_bit [of b 0] and_exp_eq_0_iff_not_bit [of b 1] and_exp_eq_0_iff_not_bit [of b 2] by simp_all
  have high: "\<not> bit b n" if "3 \<le> n" "n < 8" for n
  proof -
    have "bit (NOT 7 :: u8) n" using that by (auto simp: bit_not_iff numeral_eq_Suc le_Suc_eq less_Suc_eq)
    then show ?thesis using assms by (metis bit_0_eq bit_and_iff bot_apply bot_bool_def)
  qed
  show ?thesis unfolding bits
  proof (rule bit_word_eqI)
    fix n assume n: "n < LENGTH(8)"
    show "bit ((if bit b 0 then 1 else 0) OR (if bit b 1 then 2 else 0) OR (if bit b 2 then 4 else (0 :: u8))) n = bit b n"
      using high [of n] n by (cases "n < 3") (auto simp: bit_or_iff less_Suc_eq numeral_eq_Suc bit_1_iff)
  qed
qed

subsection \<open>Round trips\<close>

lemma recordBody_facts:
  assumes "length out = 24"
  shows "length (recordBody st g out) = 24" "recordBody st g out ! 0 = 0x52" "recordBody st g out ! 1 = 0x4C"
    "recordBody st g out ! 2 = 0x43" "recordBody st g out ! 3 = 0x46" "getLe16 (recordBody st g out) 4 = 1"
    "getLe16 (recordBody st g out) 6 = 24" "getLe32 (recordBody st g out) 8 = g"
    "getLe16 (recordBody st g out) 12 = stDisplayTimeoutSeconds st" "recordBody st g out ! 14 = stDisplayContrast st"
    "recordBody st g out ! 15 = defaultScreen_code (stDefaultScreen st)" "recordBody st g out ! 16 = settingsFlags st"
    "recordBody st g out ! 17 = 0" "recordBody st g out ! 18 = 0" "recordBody st g out ! 19 = 0"
  using assms by (simp_all add: recordBody_def Let_def buffer_simps)

lemma word16_of_eq_iff: "word16_of a b = word16_of a' b' \<longleftrightarrow> a = a' \<and> b = b'"
  by (metis le16_word16_of list.inject)

lemma fields_bytes:
  assumes "length xs = 24" "length ys = 24" "\<forall>i \<in> {0, 1, 2, 3, 14, 15, 16, 17, 18, 19}. xs ! i = ys ! i"
    and "getLe16 xs 4 = getLe16 ys 4" "getLe16 xs 6 = getLe16 ys 6" "getLe16 xs 12 = getLe16 ys 12" "getLe32 xs 8 = getLe32 ys 8"
  shows "take 20 xs = take 20 ys"
proof (rule nth_equalityI)
  have eq: "xs ! i = ys ! i" if "i \<in> {4, 5, 6, 7, 8, 9, 10, 11, 12, 13}" for i
    using that assms(4-7) by (auto simp: getLe16_def getLe32_def word32_of_eq_iff word16_of_eq_iff)
  fix i assume "i < length (take 20 xs)"
  then have "i < 20" using assms(1) by simp
  then have "i \<in> {4, 5, 6, 7, 8, 9, 10, 11, 12, 13} \<union> {0, 1, 2, 3, 14, 15, 16, 17, 18, 19}" by (simp, arith)
  then show "take 20 xs ! i = take 20 ys ! i" using eq assms(3) \<open>i < 20\<close> by (auto simp del: insert_iff)
qed (use assms in simp)

lemma rawSettings_body:
  assumes "length out = 24" "isValidSettings st" and bs: "take 20 bs = take 20 (recordBody st g out)" "length bs = 24"
  shows "rawSettings bs = st" "getLe32 bs 8 = g" "getLe16 bs 4 = 1" "getLe16 bs 6 = 24" "bs ! 16 = settingsFlags st"
    "\<forall>i < 20. bs ! i = recordBody st g out ! i"
proof -
  show nth: "\<forall>i < 20. bs ! i = recordBody st g out ! i" using bs(1) by (metis nth_take)
  have le16: "getLe16 bs k = getLe16 (recordBody st g out) k" if "k + 2 \<le> 20" for k using nth that by (simp add: getLe16_def)
  have le32: "getLe32 bs k = getLe32 (recordBody st g out) k" if "k + 4 \<le> 20" for k using nth that by (simp add: getLe32_def)
  note f = recordBody_facts [OF assms(1)]
  show "bs ! 16 = settingsFlags st" "getLe32 bs 8 = g" "getLe16 bs 4 = 1" "getLe16 bs 6 = 24"
    using nth le16 le32 by (simp_all add: f)
  show "rawSettings bs = st" using nth le16 assms(2) unfolding rawSettings_def isValidSettings_def
    by (simp add: f settingsFlags_bits [unfolded FLAG_LED_ENABLED_def FLAG_DIAGNOSTICS_ENABLED_def FLAG_BUTTON_FEEDBACK_ENABLED_def]
      defaultScreen_of_code)
qed

text \<open>Every valid candidate is encoded, and the record decodes to it.\<close>

lemma encode_decode:
  assumes "isValidSettings st" "length out = 24"
  obtains bs where "encodeRecord st g (Some out) 24 = (SC_OK, Some bs)" "length bs = 24" "decodeRecord (Some bs) 24 = Inr (st, g)"
proof -
  define body where "body = recordBody st g out"
  define bs where "bs = putLe32 body 20 (crcOf (take 20 body))"
  have l: "length body = 24" "length bs = 24" using recordBody_facts(1) [OF assms(2)] by (simp_all add: bs_def body_def)
  have t: "take 20 bs = take 20 body" unfolding bs_def by (simp add: buffer_simps)
  have c: "getLe32 bs 20 = crcOf (take 20 bs)" unfolding t unfolding bs_def using l by (simp add: buffer_simps)
  note r = rawSettings_body [OF assms(2,1) t [unfolded body_def] l(2)] and f = recordBody_facts [OF assms(2)]
  have known: "settingsFlags st AND NOT 7 = 0" using settingsFlags_bits(4) [of st] by simp
  have "decodeRecord (Some bs) 24 = Inr (st, g)"
    using r(6) c known assms(1) unfolding decodeRecord_def decodeRecordPtr_def
    by (simp add: r(1-5) f validateCodecSettings_ok f(3) [unfolded One_nat_def])
  moreover have "encodeRecord st g (Some out) 24 = (SC_OK, Some bs)"
    using assms(1) by (simp add: encodeRecord_def validateCodecSettings_ok bs_def body_def Let_def)
  ultimately show thesis using that l by blast
qed

lemma putLe32_tail:
  assumes "length xs = 24" "length ys = 24" "take 20 xs = take 20 ys"
  shows "putLe32 xs 20 v = putLe32 ys 20 v"
proof (rule nth_equalityI)
  fix i assume "i < length (putLe32 xs 20 v)"
  then have "i < 20 \<or> i = 20 \<or> i = 21 \<or> i = 22 \<or> i = 23" using assms(1) by auto
  moreover have "xs ! i = ys ! i" if "i < 20" using assms(3) that by (metis nth_take)
  ultimately show "putLe32 xs 20 v ! i = putLe32 ys 20 v ! i" using assms(1,2) by (auto simp: putLe32_def nth_list_update)
qed (use assms in simp)

text \<open>A decoded record carries valid settings and is the record that encoding them gives.\<close>

lemma decode_encode:
  assumes "decodeRecord (Some bs) 24 = Inr (st, g)" "length bs = 24" "length out = 24"
  shows "isValidSettings st" "encodeRecord st g (Some out) 24 = (SC_OK, Some bs)"
proof -
  from assms(1) have d: "bs ! 0 = 0x52" "bs ! 1 = 0x4C" "bs ! 2 = 0x43" "bs ! 3 = 0x46" "unat (getLe16 bs 6) = 24"
      "getLe32 bs 20 = crcOf (take 20 bs)" "getLe16 bs 4 = 1" "bs ! 16 AND NOT 7 = 0" "bs ! 17 = 0" "bs ! 18 = 0" "bs ! 19 = 0"
      "isValidSettings st" "st = rawSettings bs" "g = getLe32 bs 8"
    by (auto simp: decodeRecord_def decodeRecordPtr_def validateCodecSettings_ok split: if_splits)
  show v: "isValidSettings st" by (rule d)
  have l6: "getLe16 bs 6 = 24" using d(5) by (simp add: word_unat_eq_iff)
  have fl: "settingsFlags st = bs ! 16" using flags_of_bits [OF d(8)] 
    by (simp add: settingsFlags_def d(13) rawSettings_def
      FLAG_LED_ENABLED_def FLAG_DIAGNOSTICS_ENABLED_def FLAG_BUTTON_FEEDBACK_ENABLED_def split del: if_split cong: if_cong)
  have fields: "stDisplayTimeoutSeconds st = getLe16 bs 12" "stDisplayContrast st = bs ! 14"
      "defaultScreen_code (stDefaultScreen st) = bs ! 15"
    by (simp_all add: d(13) rawSettings_def)
  note f = recordBody_facts [OF assms(3), of st g]
  have t: "take 20 (recordBody st g out) = take 20 bs"
    by (rule fields_bytes) (simp_all add: f f(3) [unfolded One_nat_def] assms(2) d(1-4,7,9-11) d(2) [unfolded One_nat_def] d(14) [symmetric] l6 fl fields)
  have "putLe32 (recordBody st g out) 20 (crcOf (take 20 bs)) = bs"
    using putLe32_tail [OF recordBody_facts(1) [OF assms(3)] assms(2) t] putLe32_getLe32 [of 20 bs] assms(2) d(6) by simp
  then show "encodeRecord st g (Some out) 24 = (SC_OK, Some bs)"
    using v by (simp add: encodeRecord_def validateCodecSettings_ok Let_def t)
qed

text \<open>The repairing decoder accepts a record whose envelope is intact and always yields valid settings.\<close>

lemma repair_decode_valid:
  "decodeRecordWithRepair (Some bs) n = Inr (st, g, r) \<Longrightarrow> isValidSettings st \<and> g = getLe32 bs 8"
  unfolding decodeRecordWithRepair_def
  by (auto simp: decodeRecord_def decodeRecordPtr_def validateCodecSettings_ok repair_valid split: sum.splits if_splits)

lemma repair_decode_exact:
  "decodeRecord (Some bs) n = Inr (st, g) \<longleftrightarrow> decodeRecordWithRepair (Some bs) n = Inr (st, g, False)"
  unfolding decodeRecordWithRepair_def by (auto split: sum.splits if_splits)

lemma repair_decode_crc:
  "decodeRecordWithRepair (Some bs) n = Inr x \<Longrightarrow> n = 24 \<and> getLe32 bs 20 = crcOf (take 20 bs)"
  unfolding decodeRecordWithRepair_def by (auto simp: decodeRecord_def decodeRecordPtr_def split: sum.splits if_splits)

lemma crc_single_byte:
  assumes "length bs = 24" "getLe32 bs 20 = crcOf (take 20 bs)" "i < 24" "b \<noteq> bs ! i"
  shows "getLe32 (bs[i := b]) 20 \<noteq> crcOf (take 20 (bs[i := b]))"
proof
  assume c: "getLe32 (bs[i := b]) 20 = crcOf (take 20 (bs[i := b]))"
  show False
  proof (cases "i < 20")
    case True
    then have "crcOf ((take 20 bs)[i := b]) = crcOf (take 20 bs)"
      using c assms(2) by (simp add: take_update_swap getLe32_frame)
    from crcOf_single_byte [OF _ this] True assms(1,4) show False by simp
  next
    case False
    then have "getLe32 (bs[i := b]) 20 = getLe32 bs 20" using c assms(2) by simp
    moreover have "i = 20 \<or> i = 20 + 1 \<or> i = 20 + 2 \<or> i = 20 + 3" using False assms(3) by arith
    ultimately have "bs[i := b] ! i = bs ! i" unfolding getLe32_def word32_of_eq_iff by blast
    then show False using assms by simp
  qed
qed

lemma corrupted_record_refused:
  assumes "decodeRecordWithRepair (Some bs) 24 = Inr x" "length bs = 24" "i < 24" "b \<noteq> bs ! i"
  shows "\<exists>e. decodeRecordWithRepair (Some (bs[i := b])) 24 = Inl e"
  using repair_decode_crc [OF assms(1)] repair_decode_crc [of "bs[i := b]" 24] crc_single_byte [OF assms(2) _ assms(3,4)]
  by (cases "decodeRecordWithRepair (Some (bs[i := b])) 24") auto

lemma generationIsNewer_compare: "generationIsNewer a b \<longleftrightarrow> compareGenerations a b = LEFT_NEWER"
proof -
  have "sint (a - b) > 0 \<longleftrightarrow> a - b \<noteq> 0 \<and> a - b < 0x80000000"
    using sint_neg_iff [of "a - b"] signed_eq_0_iff [of "a - b", where ?'a = int]
    by (auto simp: word_less_def not_le not_less less_le)
  then show ?thesis by (auto simp: generationIsNewer_def compareGenerations_def Let_def)
qed

end
