(* ===== verification/SettingsRecovery.thy ===== *)
theory SettingsRecovery
  imports SettingsCodecs
begin

text \<open>
  What the settings manager guarantees about the settings a device keeps.  The record store is a parameter; the locale
  \<open>settings_medium\<close> states what the manager relies on.  \<open>cell s c\<close> is what is stored for slot \<open>c\<close> (\<open>None\<close>: nothing), \<open>mark s\<close>
  the stored reset marker.

  \<^item> A read changes nothing.  One that reports \<open>ST_OK\<close> delivers the stored record, \<open>ST_MISSING\<close> is reported only when nothing
    is stored and \<open>ST_MALFORMED\<close> only when what is stored is not a blob of the record's size.
  \<^item> A write or removal concerns one slot; whatever it reports, the slot is as before, as asked, or (a torn write) not a record.
  \<^item> The marker is written and removed as a whole or not at all.

  From these laws: \<open>load\<close> applies the authoritative record of the two slots and nothing else; \<open>save\<close> replaces the settings as a
  whole or not at all, and settings reported saved are the ones the next load applies; while a reset is pending no load applies
  old settings, and the marker goes away only once the defaults are stored.
\<close>

subsection \<open>The record the slots hold\<close>

definition settingsDec :: "bytes \<Rightarrow> (settings \<times> u32) option" where
  "settingsDec bs = (if length bs = RECORD_SIZE then (case decodeRecordWithRepair (Some bs) RECORD_SIZE of
     Inr (st, g, r) \<Rightarrow> Some (st, g) | Inl e \<Rightarrow> None) else None)"

abbreviation stored :: "(copySlot \<Rightarrow> bytes option) \<Rightarrow> copySlot \<Rightarrow> (settings \<times> u32) option" where
  "stored cells c \<equiv> Option.bind (cells c) settingsDec"

abbreviation currentSettings :: "(copySlot \<Rightarrow> bytes option) \<Rightarrow> ((settings \<times> u32) \<times> copySlot) option" where
  "currentSettings cells \<equiv> authoritative snd settingsDec cells"

lemma settingsDec_valid: "settingsDec bs = Some (st, g) \<Longrightarrow> isValidSettings st"
  using repair_decode_valid by (fastforce simp: settingsDec_def split: if_splits sum.splits prod.splits)

lemma settingsDec_exact: "decodeRecord (Some bs) 24 = Inr (st, g) \<Longrightarrow> length bs = 24 \<Longrightarrow> settingsDec bs = Some (st, g)"
  using repair_decode_exact [of bs 24 st g] by (simp add: settingsDec_def)

lemma current_valid: "currentSettings cells = Some ((st, g), c) \<Longrightarrow> isValidSettings st"
  by (drule authoritative_cell) (cases "cells c"; auto dest: settingsDec_valid)

lemma slot_other: "c \<noteq> d \<longleftrightarrow> c = opposite d" for c d :: copySlot
  by (cases c; cases d) simp_all

text \<open>A record that another version of the firmware wrote.\<close>

definition newerSchema :: "bytes \<Rightarrow> bool" where
  "newerSchema bs = (length bs = 24 \<and> decodeRecordWithRepair (Some bs) 24 = Inl SC_UNSUPPORTED_SCHEMA)"

definition holdsNewer :: "bytes option \<Rightarrow> bool" where
  "holdsNewer content = (\<exists>bs. content = Some bs \<and> newerSchema bs)"

text \<open>A write of \<open>bs\<close> to slot \<open>c\<close>, and a removal.\<close>

definition slotWrite :: "copySlot \<Rightarrow> bytes \<Rightarrow> (copySlot \<Rightarrow> bytes option) \<Rightarrow> (copySlot \<Rightarrow> bytes option) \<Rightarrow> bool" where
  "slotWrite c bs m m' = (m' (opposite c) = m (opposite c) \<and> (m' c = m c \<or> m' c = Some bs \<or> stored m' c = None \<and> \<not> holdsNewer (m' c)))"

definition slotRemove :: "copySlot \<Rightarrow> (copySlot \<Rightarrow> bytes option) \<Rightarrow> (copySlot \<Rightarrow> bytes option) \<Rightarrow> bool" where
  "slotRemove c m m' = (m' (opposite c) = m (opposite c) \<and> (m' c = m c \<or> m' c = None))"

text \<open>What the classification of a slot says about its content.\<close>

definition slotView :: "bytes option \<Rightarrow> slotRecord \<Rightarrow> bool" where
  "slotView content r = (case slKind r of
     SK_UNAVAILABLE \<Rightarrow> True
   | SK_MISSING \<Rightarrow> content = None
   | SK_CORRUPT \<Rightarrow> (\<exists>bs. content = Some bs \<and> settingsDec bs = None \<and> \<not> newerSchema bs)
   | SK_UNSUPPORTED \<Rightarrow> (\<exists>bs. content = Some bs \<and> newerSchema bs)
   | _ \<Rightarrow> content = Some (slBytes r) \<and> length (slBytes r) = 24 \<and> slLength r = 24
       \<and> settingsDec (slBytes r) = Some (slSettings r, slGeneration r))"

lemma newerSchema_dec: "newerSchema bs \<Longrightarrow> settingsDec bs = None"
  by (simp add: newerSchema_def settingsDec_def)

lemma slotView_stored:
  assumes "slotView content r" "slKind r \<noteq> SK_UNAVAILABLE"
  shows "Option.bind content settingsDec = (if isUsable r then Some (slSettings r, slGeneration r) else None)"
    and "isUsable r \<Longrightarrow> content = Some (slBytes r) \<and> length (slBytes r) = 24 \<and> slLength r = 24"
    and "holdsNewer content \<longleftrightarrow> slKind r = SK_UNSUPPORTED"
  using assms by (cases "slKind r"; auto simp: slotView_def isUsable_def holdsNewer_def dest: newerSchema_dec)+

text \<open>The manager applies the authoritative record, or none.\<close>

definition fresh :: "settingsManager \<Rightarrow> bool" where
  "fresh m = (smSettings m = defaults \<and> smGeneration m = 0 \<and> smActiveSlot m = CopyA \<and> \<not> smHasActiveSlot m)"

definition applied :: "(copySlot \<Rightarrow> bytes option) \<Rightarrow> settingsManager \<Rightarrow> bool" where
  "applied cells m = (case currentSettings cells of None \<Rightarrow> fresh m
     | Some ((x, g), c) \<Rightarrow> smSettings m = x \<and> smGeneration m = g \<and> smActiveSlot m = c \<and> smHasActiveSlot m)"

lemma applied_note [simp]: "applied cells (m\<lparr>smLastResetResult := r\<rparr>) = applied cells m"
  by (simp add: applied_def fresh_def split: option.splits)

lemma generationIsNewer_cases:
  "compareGenerations a b = (if a = b then GEN_EQUAL else if generationIsNewer a b then LEFT_NEWER
     else if generationIsNewer b a then RIGHT_NEWER else AMBIGUOUS)"
  unfolding generationIsNewer_compare using compareGenerations_serial [of a b]
  by (cases "compareGenerations a b") (auto split: if_splits)

lemma selectSlots_applies:
  assumes a: "slotView (cells CopyA) a" and b: "slotView (cells CopyB) b" and m: "fresh m"
    and run: "selectSlots a b m = (status, m')"
  shows "status = LD_STORAGE_UNAVAILABLE \<Longrightarrow> m' = m"
    and "status \<noteq> LD_STORAGE_UNAVAILABLE \<Longrightarrow> applied cells m' \<and> smUnsupportedSlotA m' = holdsNewer (cells CopyA)
      \<and> smUnsupportedSlotB m' = holdsNewer (cells CopyB)"
    and "status = LD_DEFAULTED_MISSING \<Longrightarrow> cells CopyA = None \<and> cells CopyB = None"
    and "status \<notin> {LD_STORAGE_UNAVAILABLE, LD_DEFAULTED_CORRUPT} \<Longrightarrow> \<not> smHasActiveSlot m' \<Longrightarrow> stored cells CopyA = None \<and> stored cells CopyB = None"
proof -
  show "stored cells CopyA = None \<and> stored cells CopyB = None" if "status \<notin> {LD_STORAGE_UNAVAILABLE, LD_DEFAULTED_CORRUPT}" "\<not> smHasActiveSlot m'"
  proof -
    have av: "slKind a \<noteq> SK_UNAVAILABLE" "slKind b \<noteq> SK_UNAVAILABLE" using run that(1) by (auto simp: selectSlots_def split: if_splits)
    have "\<not> isUsable a \<and> \<not> isUsable b"
      using run that by (auto simp: selectSlots_def applySelected_def Let_def split: if_splits)
    then show ?thesis using slotView_stored(1) [OF a av(1)] slotView_stored(1) [OF b av(2)] by simp
  qed
  show "status = LD_STORAGE_UNAVAILABLE \<Longrightarrow> m' = m"
    using run by (auto simp: selectSlots_def applySelected_def Let_def split: if_splits)
  show "status = LD_DEFAULTED_MISSING \<Longrightarrow> cells CopyA = None \<and> cells CopyB = None"
    using run a b by (auto simp: selectSlots_def applySelected_def Let_def slotView_def split: if_splits)
  assume s: "status \<noteq> LD_STORAGE_UNAVAILABLE"
  then have av: "slKind a \<noteq> SK_UNAVAILABLE" "slKind b \<noteq> SK_UNAVAILABLE" using run by (auto simp: selectSlots_def split: if_splits)
  note A = slotView_stored [OF a av(1)] and B = slotView_stored [OF b av(2)]
  have eq: "recordsEqual a b \<longleftrightarrow> cells CopyA = cells CopyB" if "isUsable a" "isUsable b"
    using A(2) [OF that(1)] B(2) [OF that(2)] by (simp add: recordsEqual_def sameBytes_length)
  let ?a = "((slSettings a, slGeneration a), CopyA)" and ?b = "((slSettings b, slGeneration b), CopyB)"
  have cur: "currentSettings cells = (if isUsable a \<and> isUsable b then
       (if slGeneration a = slGeneration b then (if recordsEqual a b then Some ?a else None)
        else if generationIsNewer (slGeneration a) (slGeneration b) then Some ?a
        else if generationIsNewer (slGeneration b) (slGeneration a) then Some ?b else None)
     else if isUsable a then Some ?a else if isUsable b then Some ?b else None)"
    unfolding authoritative_def A(1) B(1) using eq
    by (cases "isUsable a"; cases "isUsable b") (simp_all add: generationIsNewer_cases)
  show "applied cells m' \<and> smUnsupportedSlotA m' = holdsNewer (cells CopyA) \<and> smUnsupportedSlotB m' = holdsNewer (cells CopyB)"
    using run av m unfolding selectSlots_def applied_def cur A(3) B(3)
    by (simp add: applySelected_def Let_def fresh_def split: if_splits) (auto simp: fresh_def)
qed

text \<open>
  The relation between a manager and the slots that its saves keep: the active slot holds the manager's record; the other one
  holds an older record, the same bytes, nothing usable, or the next generation (a save that was written and then reported as
  failed).
\<close>

definition tracks :: "settingsManager \<Rightarrow> (copySlot \<Rightarrow> bytes option) \<Rightarrow> bool" where
  "tracks m cells = ((\<forall>c. holdsNewer (cells c) \<longrightarrow> isUnsupportedSlot c m)
     \<and> (if smHasActiveSlot m then
          stored cells (smActiveSlot m) = Some (smSettings m, smGeneration m)
          \<and> (case stored cells (opposite (smActiveSlot m)) of None \<Rightarrow> True | Some (x, g) \<Rightarrow>
               g = smGeneration m + 1 \<or> compareGenerations (smGeneration m) g = LEFT_NEWER \<or> cells CopyA = cells CopyB)
        else smGeneration m = 0 \<and> smSettings m = defaults \<and> stored cells CopyB = None
          \<and> (case stored cells CopyA of None \<Rightarrow> True | Some (x, g) \<Rightarrow> g = 1)))"

definition saveTarget :: "settingsManager \<Rightarrow> copySlot" where
  "saveTarget m = (if smHasActiveSlot m then opposite (smActiveSlot m) else CopyA)"

definition repaired :: "settings \<Rightarrow> settings" where
  "repaired x = snd (validateAndRepair x)"

lemma compareGenerations_swap: "compareGenerations a b = LEFT_NEWER \<longleftrightarrow> compareGenerations b a = RIGHT_NEWER"
  using compareGenerations_serial [of a b] by (cases "compareGenerations a b") simp_all

lemma applied_tracks:
  assumes "applied cells m" "smHasActiveSlot m" "smUnsupportedSlotA m = holdsNewer (cells CopyA)" "smUnsupportedSlotB m = holdsNewer (cells CopyB)"
  shows "tracks m cells"
proof -
  have "holdsNewer (cells c) \<Longrightarrow> isUnsupportedSlot c m" for c using assms(3,4) by (cases c) (simp_all add: isUnsupportedSlot_def)
  then show ?thesis using assms(1,2)
    by (auto simp: applied_def fresh_def tracks_def authoritative_def compareGenerations_swap
      split: option.splits if_splits generationOrder.splits)
qed

lemma blank_tracks:
  assumes "fresh m" "stored cells CopyA = None" "stored cells CopyB = None"
    "smUnsupportedSlotA m = holdsNewer (cells CopyA)" "smUnsupportedSlotB m = holdsNewer (cells CopyB)"
  shows "tracks m cells"
proof -
  have "holdsNewer (cells c) \<Longrightarrow> isUnsupportedSlot c m" for c using assms(4,5) by (cases c) (simp_all add: isUnsupportedSlot_def)
  then show ?thesis using assms(1-3) by (simp add: tracks_def fresh_def)
qed

text \<open>Whatever a tracked write does, the slots still track the manager; when the record is there afterwards, it is current.\<close>

lemma current_other_none:
  "stored cells c = Some (x, g) \<Longrightarrow> stored cells (opposite c) = None \<Longrightarrow> currentSettings cells = Some ((x, g), c)"
  by (rule authoritative_other_invalid)

lemma tracked_write:
  assumes t: "tracks m cells" and u: "\<not> isUnsupportedSlot (saveTarget m) m"
    and w: "slotWrite (saveTarget m) bs cells cells'" and bs: "settingsDec bs = Some (x, smGeneration m + 1)"
  shows "tracks m cells'"
    and "cells' (saveTarget m) = Some bs \<Longrightarrow> currentSettings cells' = Some ((x, smGeneration m + 1), saveTarget m)"
    and "currentSettings cells' \<in> {currentSettings cells, Some ((x, smGeneration m + 1), saveTarget m),
      if smHasActiveSlot m then Some ((smSettings m, smGeneration m), smActiveSlot m) else None}"
    and "holdsNewer (cells c) \<Longrightarrow> cells' c = cells c"
proof -
  let ?T = "saveTarget m"
  have bs': "\<not> newerSchema bs" using bs newerSchema_dec by fastforce
  have other: "cells' c = cells c" if "c \<noteq> ?T" for c using w that [unfolded slot_other] by (simp add: slotWrite_def)
  have "c \<noteq> ?T" if "holdsNewer (cells c)" for c using t u that by (auto simp: tracks_def)
  then show keep: "holdsNewer (cells c) \<Longrightarrow> cells' c = cells c" for c using other by blast
  have flags: "isUnsupportedSlot c m" if h: "holdsNewer (cells' c)" for c
    using h w t bs' other by (cases "c = ?T") (auto simp: slotWrite_def tracks_def holdsNewer_def)
  have act: "stored cells' (smActiveSlot m) = Some (smSettings m, smGeneration m)" "?T = opposite (smActiveSlot m)" if "smHasActiveSlot m"
    using t that other [of "smActiveSlot m"] by (simp_all add: tracks_def saveTarget_def)
  have none: "stored cells' CopyB = None" "?T = CopyA" "smGeneration m = 0" if "\<not> smHasActiveSlot m"
    using t that other [of CopyB] by (simp_all add: tracks_def saveTarget_def)
  show n: "cells' ?T = Some bs \<Longrightarrow> currentSettings cells' = Some ((x, smGeneration m + 1), ?T)"
    using act none bs authoritative_next [of cells' "smActiveSlot m" settingsDec _ _ snd] authoritative_other_invalid [of cells' CopyA]
    by (cases "smHasActiveSlot m") simp_all
  have torn: "currentSettings cells' = (if smHasActiveSlot m then Some ((smSettings m, smGeneration m), smActiveSlot m) else None)"
    if "stored cells' ?T = None"
  proof (cases "smHasActiveSlot m")
    case True
    then show ?thesis using act that authoritative_other_invalid [of cells' "smActiveSlot m"] by simp
  next
    case False
    then show ?thesis using none that by (simp add: authoritative_def)
  qed
  have same: "cells' = cells" if "cells' ?T = cells ?T" using other that by (metis ext)
  consider "cells' = cells" | "cells' ?T = Some bs" | "stored cells' ?T = None" using w same by (auto simp: slotWrite_def)
  then show "tracks m cells'"
  proof cases
    case 1 then show ?thesis using t by simp
  next
    case 2 then show ?thesis using act none flags t bs by (cases "smHasActiveSlot m") (auto simp: tracks_def)
  next
    case 3 then show ?thesis using act none flags t by (cases "smHasActiveSlot m") (auto simp: tracks_def)
  qed
  from w same consider "cells' = cells" | "cells' ?T = Some bs" | "stored cells' ?T = None" by (auto simp: slotWrite_def)
  then show "currentSettings cells' \<in> {currentSettings cells, Some ((x, smGeneration m + 1), ?T),
      if smHasActiveSlot m then Some ((smSettings m, smGeneration m), smActiveSlot m) else None}"
    using n torn by cases auto
qed

text \<open>The slots after a completed factory reset.\<close>

definition resetDone :: "(copySlot \<Rightarrow> bytes option) \<Rightarrow> bool" where
  "resetDone cells = (stored cells CopyA = Some (defaults, 1) \<and> cells CopyB = None)"

lemma resetDone_current: "resetDone cells \<Longrightarrow> currentSettings cells = Some ((defaults, 1), CopyA)"
  by (simp add: resetDone_def authoritative_def)

lemma resetDone_newer: "resetDone cells \<Longrightarrow> \<not> holdsNewer (cells c)"
  by (cases c; cases "cells CopyA") (auto simp: resetDone_def holdsNewer_def dest: newerSchema_dec)

lemma tracks_saved:
  assumes "tracks m cells" "stored cells (saveTarget m) = Some (x, smGeneration m + 1)"
    and "m1 = m\<lparr>smSettings := x, smGeneration := smGeneration m + 1, smActiveSlot := saveTarget m, smHasActiveSlot := True,
      smRepairPending := False\<rparr>"
  shows "tracks m1 cells"
  using assms by (auto simp: tracks_def isUnsupportedSlot_def saveTarget_def compareGenerations_next split: if_splits)

subsection \<open>Lives of a device\<close>

text \<open>The slots contradict each other: there are records, and none of them is authoritative.\<close>

definition conflict :: "(copySlot \<Rightarrow> bytes option) \<Rightarrow> bool" where
  "conflict cells = (currentSettings cells = None \<and> (stored cells CopyA \<noteq> None \<or> stored cells CopyB \<noteq> None))"

lemma resetDone_no_conflict: "resetDone cells \<Longrightarrow> \<not> conflict cells"
  using resetDone_current by (simp add: conflict_def)

lemma tracks_no_conflict:
  assumes "tracks m cells"
  shows "\<not> conflict cells"
proof (cases "smHasActiveSlot m")
  case True
  let ?a = "smActiveSlot m" and ?g = "smGeneration m"
  have a: "stored cells ?a = Some (smSettings m, ?g)" using assms True by (simp add: tracks_def)
  show ?thesis
  proof (cases "stored cells (opposite ?a)")
    case None then show ?thesis using current_other_none [of cells ?a, OF a] by (simp add: conflict_def)
  next
    case (Some y)
    obtain x g where y: "y = (x, g)" by fastforce
    have "g = ?g + 1 \<or> compareGenerations ?g g = LEFT_NEWER \<or> cells CopyA = cells CopyB"
      using assms True Some y by (simp add: tracks_def)
    then show ?thesis using a Some y compareGenerations_next [of ?g] compareGenerations_swap [of ?g g] compareGenerations_swap [of ?g "?g + 1"] generationIsNewer_cases [of ?g ?g]
      by (cases ?a) (auto simp: conflict_def authoritative_def split: option.splits generationOrder.splits)
  qed
next
  case False
  then show ?thesis using assms
    by (cases "stored cells CopyA") (auto simp: tracks_def conflict_def authoritative_def)
qed

text \<open>What the slots hold.\<close>

definition heldSettings :: "(copySlot \<Rightarrow> bytes option) \<Rightarrow> settings" where
  "heldSettings cells = (case currentSettings cells of None \<Rightarrow> defaults | Some ((x, g), c) \<Rightarrow> x)"

text \<open>
  The lives of a device, from a store whose slots do not contradict each other: boots, saves and factory resets, in any order and
  each with any result that the store may give it.  The run records the settings last loaded, reported saved or reset
  to, and what else the store may hold since then: the candidates of saves that failed, and the defaults after a reset that failed.
  \<open>Some m\<close> is a manager in service.  After a boot that could not read the store, and after a reset that failed, there is none
  (\<open>None\<close>) until the next boot or reset that succeeds, and no save is made.
\<close>

inductive settingsRun :: "'s recordStore \<Rightarrow> ('s \<Rightarrow> copySlot \<Rightarrow> bytes option) \<Rightarrow> settingsManager option \<Rightarrow> 's \<Rightarrow> settings \<Rightarrow> settings list \<Rightarrow> bool"
  for st cell where
  start: "\<not> conflict (cell s) \<Longrightarrow> settingsRun st cell None s (heldSettings (cell s)) [defaults]"
| boot: "settingsRun st cell mo s c as \<Longrightarrow> sm_load st m0 s = (status, m, s') \<Longrightarrow> status \<notin> {LD_STORAGE_UNAVAILABLE, LD_RESET_RECOVERY_FAILED}
    \<Longrightarrow> settingsRun st cell (Some m) s' (smSettings m) []"
| unread: "settingsRun st cell mo s c as \<Longrightarrow> sm_load st m0 s = (status, m, s') \<Longrightarrow> status \<in> {LD_STORAGE_UNAVAILABLE, LD_RESET_RECOVERY_FAILED}
    \<Longrightarrow> settingsRun st cell None s' c as"
| saved: "settingsRun st cell (Some m) s c as \<Longrightarrow> sm_save st x m s = (status, m', s') \<Longrightarrow> status \<in> {SV_SAVED, SV_REPAIRED_SAVED}
    \<Longrightarrow> settingsRun st cell (Some m') s' (repaired x) []"
| kept: "settingsRun st cell (Some m) s c as \<Longrightarrow> sm_save st x m s = (status, m', s')
    \<Longrightarrow> status \<in> {SV_UNCHANGED, SV_REPAIRED_UNCHANGED, SV_UNSUPPORTED_SCHEMA} \<Longrightarrow> settingsRun st cell (Some m') s' c as"
| failed: "settingsRun st cell (Some m) s c as \<Longrightarrow> sm_save st x m s = (status, m', s')
    \<Longrightarrow> status \<in> {SV_STORAGE_UNAVAILABLE, SV_WRITE_FAILED, SV_READ_BACK_FAILED, SV_VERIFICATION_FAILED}
    \<Longrightarrow> settingsRun st cell (Some m') s' c (repaired x # as)"
| reset: "settingsRun st cell mo s c as \<Longrightarrow> factoryReset st m s = (RR_RESET_COMPLETED, m', s')
    \<Longrightarrow> settingsRun st cell (Some m') s' defaults []"
| reset_failed: "settingsRun st cell mo s c as \<Longrightarrow> factoryReset st m s = (r, m', s') \<Longrightarrow> r \<noteq> RR_RESET_COMPLETED
    \<Longrightarrow> settingsRun st cell None s' c (defaults # as)"

text \<open>What a run keeps: a manager in service tracks the slots and no reset is pending, and what the next load will apply is recorded.\<close>

definition runInv :: "(copySlot \<Rightarrow> bytes option) \<Rightarrow> u8 option \<Rightarrow> settingsManager option \<Rightarrow> settings \<Rightarrow> settings list \<Rightarrow> bool" where
  "runInv cells mark mo c as = ((\<forall>m. mo = Some m \<longrightarrow> tracks m cells \<and> mark \<noteq> Some 1 \<and> smSettings m = c)
     \<and> (if mark = Some 1 then defaults \<in> insert c (set as) else \<not> conflict cells \<and> heldSettings cells \<in> insert c (set as)))"

lemma runInv_service: "tracks m cells \<Longrightarrow> mark \<noteq> Some 1 \<Longrightarrow> smSettings m = c \<Longrightarrow> heldSettings cells \<in> insert c (set as) \<Longrightarrow>
    runInv cells mark (Some m) c as"
  by (simp add: runInv_def tracks_no_conflict)

lemma runInv_reset: "resetDone cells \<Longrightarrow> mark = None \<Longrightarrow> defaults \<in> insert c (set as) \<Longrightarrow> runInv cells mark None c as"
  by (simp add: runInv_def resetDone_no_conflict heldSettings_def resetDone_current)

subsection \<open>The contract of the record store\<close>

locale settings_medium =
  fixes st :: "'s recordStore" and cell :: "'s \<Rightarrow> copySlot \<Rightarrow> bytes option" and mark :: "'s \<Rightarrow> u8 option"
  assumes read_frame: "rsReadSlot st c buf s = (r, buf', n, s') \<Longrightarrow> cell s' = cell s \<and> mark s' = mark s"
    and read_ok: "rsReadSlot st c buf s = (ST_OK, buf', n, s') \<Longrightarrow> length buf = 24 \<Longrightarrow> n = 24 \<and> length buf' = 24 \<and> cell s c = Some buf'"
    and read_missing: "rsReadSlot st c buf s = (ST_MISSING, buf', n, s') \<Longrightarrow> length buf = 24 \<Longrightarrow> cell s c = None"
    and read_malformed: "rsReadSlot st c buf s = (ST_MALFORMED, buf', n, s') \<Longrightarrow> length buf = 24 \<Longrightarrow>
      \<exists>bs. cell s c = Some bs \<and> length bs \<noteq> 24"
    and write_slot: "rsWriteSlot st c bs s = (r, s') \<Longrightarrow> length bs = 24 \<Longrightarrow> slotWrite c bs (cell s) (cell s') \<and> mark s' = mark s"
    and remove_slot: "rsRemoveSlot st c s = (r, s') \<Longrightarrow> slotRemove c (cell s) (cell s') \<and> mark s' = mark s"
    and marker_frame: "rsReadResetMarker st p s = (r, p', s') \<Longrightarrow> cell s' = cell s \<and> mark s' = mark s"
    and marker_ok: "rsReadResetMarker st p s = (ST_OK, p', s') \<Longrightarrow> mark s = Some (if p' then 1 else 0)"
    and marker_missing: "rsReadResetMarker st p s = (ST_MISSING, p', s') \<Longrightarrow> mark s = None"
    and marker_write: "rsWriteResetMarker st p s = (r, s') \<Longrightarrow>
      cell s' = cell s \<and> (mark s' = mark s \<or> mark s' = Some (if p then 1 else 0))"
    and marker_remove: "rsRemoveResetMarker st s = (r, s') \<Longrightarrow> cell s' = cell s \<and> (mark s' = mark s \<or> mark s' = None)"
begin

subsubsection \<open>Loading\<close>

lemma classify:
  assumes "readAndClassify st c s = (r, s')"
  shows "cell s' = cell s \<and> mark s' = mark s \<and> slotView (cell s c) r"
proof -
  obtain res bs n s1 where rd: "rsReadSlot st c (fillZero 24) s = (res, bs, n, s1)" using prod_cases4 by blast
  have l: "length (fillZero 24) = 24" by (simp add: fillZero_def)
  note F = read_frame [OF rd]
  have run: "readAndClassify st c s = (if res = ST_OK then (case decodeRecordWithRepair (Some bs) n of
       Inl e \<Rightarrow> (slotRecord_init\<lparr>slBytes := bs, slLength := n, slKind := (if e = SC_UNSUPPORTED_SCHEMA then SK_UNSUPPORTED else SK_CORRUPT)\<rparr>, s1)
     | Inr (x, g, q) \<Rightarrow> (slotRecord_init\<lparr>slBytes := bs, slLength := n, slSettings := x, slGeneration := g,
         slKind := (if q then SK_REPAIRED else SK_VALID)\<rparr>, s1))
     else (slotRecord_init\<lparr>slBytes := bs, slLength := n, slKind := (if res = ST_MISSING then SK_MISSING
       else if res = ST_MALFORMED then SK_CORRUPT else SK_UNAVAILABLE)\<rparr>, s1))"
    using rd by (auto simp: readAndClassify_def slotRecord_init_def Let_def split: sum.splits)
  show ?thesis
  proof (cases "res = ST_OK")
    case True
    then have "n = 24 \<and> length bs = 24 \<and> cell s c = Some bs" using read_ok [of c "fillZero 24" s bs n s1] rd l by simp
    then show ?thesis using run True F assms
      by (auto simp: slotView_def newerSchema_def settingsDec_def split: sum.splits prod.splits if_splits)
  next
    case False
    then show ?thesis using run F assms read_missing [of c "fillZero 24" s bs n s1] read_malformed [of c "fillZero 24" s bs n s1] rd l
      by (auto simp: slotView_def newerSchema_def settingsDec_def split: if_splits)
  qed
qed

subsubsection \<open>Factory reset\<close>

lemma remove_verified:
  assumes "removeAndVerifySlot st c s = (r, s')"
  shows "slotRemove c (cell s) (cell s') \<and> mark s' = mark s \<and> (r = RR_RESET_COMPLETED \<longrightarrow> cell s' c = None)"
proof -
  obtain w s1 where w: "rsRemoveSlot st c s = (w, s1)" by fastforce
  obtain v bs n s2 where v: "rsReadSlot st c (fillZero 24) s1 = (v, bs, n, s2)" using prod_cases4 by blast
  have "v = ST_MISSING \<Longrightarrow> cell s1 c = None" using read_missing [of c "fillZero 24" s1 bs n s2] v by (simp add: fillZero_def)
  then show ?thesis using assms w v remove_slot [OF w] read_frame [OF v]
    by (auto simp: removeAndVerifySlot_def split: if_splits)
qed

text \<open>The bytes of the record that holds the defaults.\<close>

lemma encode_repaired:
  assumes "isValidSettings x"
  obtains bs where "encodeRecord x g (Some (fillZero 24)) 24 = (SC_OK, Some bs)" "length bs = 24" "decodeRecord (Some bs) 24 = Inr (x, g)"
    "settingsDec bs = Some (x, g)"
  using encode_decode [OF assms, of "fillZero 24" g] settingsDec_exact by (metis length_replicate fillZero_def)

lemma write_defaults:
  assumes run: "writeDefaults st m s = (r, m', s')" and gone: "cell s CopyA = None" "cell s CopyB = None"
  shows "mark s' = mark s \<or> mark s' = None \<and> resetDone (cell s')"
    and "r \<noteq> RR_RESET_COMPLETED \<Longrightarrow> m' = m"
    and "r = RR_RESET_COMPLETED \<Longrightarrow> mark s' = None \<and> applied (cell s') m' \<and> smSettings m' = defaults \<and> smHasActiveSlot m'
      \<and> \<not> unsupportedSchema m' \<and> resetDone (cell s')"
proof -
  obtain out where out: "encodeRecord defaults 1 (Some (fillZero 24)) 24 = (SC_OK, Some out)" "length out = 24"
    using encode_repaired [OF defaults_valid] by metis
  obtain w s1 where w: "rsWriteSlot st CopyA out s = (w, s1)" by fastforce
  obtain v bs n s2 where v: "rsReadSlot st CopyA (fillZero 24) s1 = (v, bs, n, s2)" using prod_cases4 by blast
  obtain d s3 where d: "rsRemoveResetMarker st s2 = (d, s3)" by fastforce
  obtain p q s4 where p: "rsReadResetMarker st False s3 = (p, q, s4)" using prod_cases3 by blast
  note steps = write_slot [OF w out(2)] read_frame [OF v] marker_remove [OF d] marker_frame [OF p]
  have ok: "resetDone (cell s2)" if "v = ST_OK" "decodeRecord (Some bs) n = Inr (defaults, 1)"
  proof -
    have "n = 24 \<and> length bs = 24 \<and> cell s1 CopyA = Some bs" using read_ok [of CopyA "fillZero 24" s1 bs n s2] v that by (simp add: fillZero_def)
    then show ?thesis using that settingsDec_exact [of bs defaults 1] steps gone by (auto simp: resetDone_def slotWrite_def)
  qed
  have run': "(r, m', s') = (if w = ST_UNAVAILABLE then (RR_STORAGE_UNAVAILABLE, m, s1) else if w \<noteq> ST_OK then (RR_DEFAULT_WRITE_FAILED, m, s1)
     else if v = ST_UNAVAILABLE then (RR_STORAGE_UNAVAILABLE, m, s2)
     else if v \<noteq> ST_OK \<or> decodeRecord (Some bs) n \<noteq> Inr (defaults, 1) then (RR_DEFAULT_VERIFY_FAILED, m, s2)
     else if d = ST_UNAVAILABLE then (RR_STORAGE_UNAVAILABLE, m, s3) else if d \<noteq> ST_OK then (RR_MARKER_REMOVE_FAILED, m, s3)
     else if p = ST_UNAVAILABLE then (RR_STORAGE_UNAVAILABLE, m, s4) else if p \<noteq> ST_MISSING then (RR_MARKER_REMOVE_FAILED, m, s4)
     else (RR_RESET_COMPLETED, m\<lparr>smSettings := defaults, smGeneration := 1, smActiveSlot := CopyA, smHasActiveSlot := True,
       smRepairPending := False, smUnsupportedSlotA := False, smUnsupportedSlotB := False\<rparr>, s4))"
    unfolding run [symmetric] writeDefaults_def RECORD_SIZE_def using out w v d p by (simp cong: if_cong)
  show "mark s' = mark s \<or> mark s' = None \<and> resetDone (cell s')"
    using run' steps ok by (auto split: if_splits)
  show "r \<noteq> RR_RESET_COMPLETED \<Longrightarrow> m' = m" using run' by (auto split: if_splits)
  show "r = RR_RESET_COMPLETED \<Longrightarrow> mark s' = None \<and> applied (cell s') m' \<and> smSettings m' = defaults \<and> smHasActiveSlot m'
      \<and> \<not> unsupportedSchema m' \<and> resetDone (cell s')"
    using run' steps ok p marker_missing [of False s3 q s4] resetDone_current [of "cell s'"]
    by (auto simp: applied_def unsupportedSchema_def split: if_splits)
qed

text \<open>Both slots are gone before anything else happens, and the marker outlives them until the defaults are stored.\<close>

lemma complete_reset:
  assumes run: "completeVerifiedReset st m s = (r, m', s')"
  shows "mark s' = mark s \<or> mark s' = None \<and> resetDone (cell s')"
    and "r \<noteq> RR_RESET_COMPLETED \<Longrightarrow> m' = m"
    and "r = RR_RESET_COMPLETED \<Longrightarrow> mark s' = None \<and> applied (cell s') m' \<and> smSettings m' = defaults \<and> smHasActiveSlot m'
      \<and> \<not> unsupportedSchema m' \<and> resetDone (cell s')"
proof -
  obtain a s1 where a: "removeAndVerifySlot st CopyA s = (a, s1)" by fastforce
  obtain b s2 where b: "removeAndVerifySlot st CopyB s1 = (b, s2)" by fastforce
  note steps = remove_verified [OF a] remove_verified [OF b]
  consider "a \<noteq> RR_RESET_COMPLETED" "(r, m', s') = (a, m, s1)" | "a = RR_RESET_COMPLETED" "b \<noteq> RR_RESET_COMPLETED" "(r, m', s') = (b, m, s2)"
    | "a = RR_RESET_COMPLETED" "b = RR_RESET_COMPLETED" "writeDefaults st m s2 = (r, m', s')"
    using run a b by (auto simp: completeVerifiedReset_def split: if_splits)
  then have "(mark s' = mark s \<or> mark s' = None \<and> resetDone (cell s'))
    \<and> (r \<noteq> RR_RESET_COMPLETED \<longrightarrow> m' = m)
    \<and> (r = RR_RESET_COMPLETED \<longrightarrow> mark s' = None \<and> applied (cell s') m' \<and> smSettings m' = defaults \<and> smHasActiveSlot m'
      \<and> \<not> unsupportedSchema m' \<and> resetDone (cell s'))"
  proof cases
    case 3
    have "cell s2 CopyA = None" "cell s2 CopyB = None" using steps 3 by (auto simp: slotRemove_def)
    from write_defaults [OF 3(3) this] show ?thesis using steps by auto
  qed (use steps in auto)
  then show "mark s' = mark s \<or> mark s' = None \<and> resetDone (cell s')"
    "r \<noteq> RR_RESET_COMPLETED \<Longrightarrow> m' = m"
    "r = RR_RESET_COMPLETED \<Longrightarrow> mark s' = None \<and> applied (cell s') m' \<and> smSettings m' = defaults \<and> smHasActiveSlot m'
      \<and> \<not> unsupportedSchema m' \<and> resetDone (cell s')" by blast+
qed

text \<open>A load while a reset is pending never applies what the slots hold; the marker stays until the defaults are stored.\<close>

lemma recover_pending:
  assumes run: "recoverPendingReset st m s = (r, m', s')"
  shows "r = RR_RESET_NOT_PENDING \<Longrightarrow> mark s \<noteq> Some 1"
    and "r \<noteq> RR_RESET_COMPLETED \<Longrightarrow> m' = m\<lparr>smLastResetResult := r\<rparr>"
    and "mark s \<noteq> Some 1 \<Longrightarrow> cell s' = cell s \<and> mark s' = mark s \<and> r \<noteq> RR_RESET_COMPLETED"
    and "mark s' = mark s \<or> mark s' = None \<and> resetDone (cell s')"
    and "r = RR_RESET_COMPLETED \<Longrightarrow> mark s' = None \<and> applied (cell s') m' \<and> smSettings m' = defaults \<and> smHasActiveSlot m'
      \<and> \<not> unsupportedSchema m' \<and> resetDone (cell s')"
    and "r = RR_RESET_NOT_PENDING \<Longrightarrow> cell s' = cell s \<and> mark s' = mark s"
proof -
  obtain q p s1 where q: "rsReadResetMarker st False s = (q, p, s1)" using prod_cases3 by blast
  obtain c mc sc where c: "completeVerifiedReset st m s1 = (c, mc, sc)" using prod_cases3 by blast
  note C = complete_reset [OF c] and F = marker_frame [OF q]
  have np: "c \<noteq> RR_RESET_NOT_PENDING"
    using c by (auto simp: completeVerifiedReset_def removeAndVerifySlot_def writeDefaults_def Let_def split: prod.splits if_splits)
  have M: "q = ST_OK \<Longrightarrow> mark s = Some (if p then 1 else 0)" "q = ST_MISSING \<Longrightarrow> mark s = None"
    using marker_ok [of False s p s1] marker_missing [of False s p s1] q by simp_all
  have run': "(r, m', s') = (if q = ST_MISSING \<or> q = ST_OK \<and> \<not> p then (RR_RESET_NOT_PENDING, m\<lparr>smLastResetResult := RR_RESET_NOT_PENDING\<rparr>, s1)
     else if q = ST_UNAVAILABLE then (RR_STORAGE_UNAVAILABLE, m\<lparr>smLastResetResult := RR_STORAGE_UNAVAILABLE\<rparr>, s1)
     else if q \<noteq> ST_OK then (RR_MARKER_VERIFY_FAILED, m\<lparr>smLastResetResult := RR_MARKER_VERIFY_FAILED\<rparr>, s1)
     else (c, mc\<lparr>smLastResetResult := c\<rparr>, sc))"
    using run q c by (auto simp: recoverPendingReset_def noteReset_def)
  show "r = RR_RESET_NOT_PENDING \<Longrightarrow> mark s \<noteq> Some 1" using run' M np by (auto split: if_splits)
  show "r \<noteq> RR_RESET_COMPLETED \<Longrightarrow> m' = m\<lparr>smLastResetResult := r\<rparr>" using run' C by (auto split: if_splits)
  show "mark s \<noteq> Some 1 \<Longrightarrow> cell s' = cell s \<and> mark s' = mark s \<and> r \<noteq> RR_RESET_COMPLETED" using run' M F by (auto split: if_splits)
  show "mark s' = mark s \<or> mark s' = None \<and> resetDone (cell s')"
    using run' C F by (auto split: if_splits)
  show "r = RR_RESET_COMPLETED \<Longrightarrow> mark s' = None \<and> applied (cell s') m' \<and> smSettings m' = defaults \<and> smHasActiveSlot m'
      \<and> \<not> unsupportedSchema m' \<and> resetDone (cell s')"
    using run' C F by (auto simp: unsupportedSchema_def split: if_splits)
  show "r = RR_RESET_NOT_PENDING \<Longrightarrow> cell s' = cell s \<and> mark s' = mark s" using run' F np by (auto split: if_splits)
qed

lemma load_pending:
  assumes run: "sm_load st m s = (status, m', s')" and pending: "mark s = Some 1"
  shows "smSettings m' = defaults" "status \<in> {LD_RESET_COMPLETED, LD_STORAGE_UNAVAILABLE, LD_RESET_RECOVERY_FAILED}"
    and "mark s' = Some 1 \<or> mark s' = None \<and> resetDone (cell s')"
    and "status = LD_RESET_COMPLETED \<Longrightarrow> mark s' = None \<and> applied (cell s') m' \<and> smHasActiveSlot m' \<and> \<not> unsupportedSchema m' \<and> resetDone (cell s')"
proof -
  obtain r m1 s1 where r: "recoverPendingReset st (resetRuntimeState m) s = (r, m1, s1)" using prod_cases3 by blast
  note R = recover_pending [OF r]
  have np: "r \<noteq> RR_RESET_NOT_PENDING" using R(1) pending by blast
  then have run': "(status, m', s') = (if r = RR_RESET_COMPLETED then LD_RESET_COMPLETED else if r = RR_STORAGE_UNAVAILABLE
      then LD_STORAGE_UNAVAILABLE else LD_RESET_RECOVERY_FAILED, m1, s1)" using run r by (auto simp: sm_load_def split: if_splits)
  have "r \<noteq> RR_RESET_COMPLETED \<Longrightarrow> smSettings m1 = defaults" using R(2) by (simp add: resetRuntimeState_def)
  then show "smSettings m' = defaults" using R(5) run' by blast
  show "status \<in> {LD_RESET_COMPLETED, LD_STORAGE_UNAVAILABLE, LD_RESET_RECOVERY_FAILED}" using run' by auto
  show "mark s' = Some 1 \<or> mark s' = None \<and> resetDone (cell s')" using R(4) run' pending by auto
  show "status = LD_RESET_COMPLETED \<Longrightarrow> mark s' = None \<and> applied (cell s') m' \<and> smHasActiveSlot m' \<and> \<not> unsupportedSchema m' \<and> resetDone (cell s')"
    using R(5) run' by (auto split: if_splits)
qed

text \<open>With no reset pending a load changes nothing and applies the authoritative record, or leaves the defaults.\<close>

lemma load_clean:
  assumes run: "sm_load st m s = (status, m', s')" and clean: "mark s \<noteq> Some 1"
  shows "cell s' = cell s \<and> mark s' = mark s"
    and "status \<in> {LD_STORAGE_UNAVAILABLE, LD_RESET_RECOVERY_FAILED} \<Longrightarrow> fresh m'"
    and "status \<notin> {LD_STORAGE_UNAVAILABLE, LD_RESET_RECOVERY_FAILED} \<Longrightarrow> applied (cell s) m'
      \<and> smUnsupportedSlotA m' = holdsNewer (cell s CopyA) \<and> smUnsupportedSlotB m' = holdsNewer (cell s CopyB)"
    and "status = LD_DEFAULTED_MISSING \<Longrightarrow> cell s CopyA = None \<and> cell s CopyB = None"
    and "status \<notin> {LD_STORAGE_UNAVAILABLE, LD_RESET_RECOVERY_FAILED, LD_DEFAULTED_CORRUPT} \<Longrightarrow> \<not> smHasActiveSlot m' \<Longrightarrow>
      stored (cell s) CopyA = None \<and> stored (cell s) CopyB = None"
proof -
  obtain r m1 s1 where r: "recoverPendingReset st (resetRuntimeState m) s = (r, m1, s1)" using prod_cases3 by blast
  note R = recover_pending [OF r]
  have nc: "r \<noteq> RR_RESET_COMPLETED" "cell s1 = cell s" "mark s1 = mark s" using R(3) clean by blast+
  have fr: "fresh m1" using R(2) nc(1) by (simp add: fresh_def resetRuntimeState_def)
  obtain a s2 where a: "readAndClassify st CopyA s1 = (a, s2)" by fastforce
  obtain b s3 where b: "readAndClassify st CopyB s2 = (b, s3)" by fastforce
  obtain x m2 where x: "selectSlots a b m1 = (x, m2)" by fastforce
  have V: "cell s3 = cell s" "mark s3 = mark s" "slotView (cell s CopyA) a" "slotView (cell s CopyB) b"
    using classify [OF a] classify [OF b] nc by simp_all
  note S = selectSlots_applies [where cells = "cell s", OF V(3,4) fr x]
  have run': "(status, m', s') = (if r = RR_STORAGE_UNAVAILABLE then (LD_STORAGE_UNAVAILABLE, m1, s1)
     else if r \<noteq> RR_RESET_NOT_PENDING then (LD_RESET_RECOVERY_FAILED, m1, s1) else (x, m2, s3))"
    using run r a b x nc(1) by (auto simp: sm_load_def)
  have x': "x \<noteq> LD_RESET_RECOVERY_FAILED"
    using x by (auto simp: selectSlots_def applySelected_def Let_def split: if_splits)
  show "cell s' = cell s \<and> mark s' = mark s" using run' nc V by (auto split: if_splits)
  show "status \<in> {LD_STORAGE_UNAVAILABLE, LD_RESET_RECOVERY_FAILED} \<Longrightarrow> fresh m'" using run' fr S(1) x' by (auto split: if_splits)
  show "status \<notin> {LD_STORAGE_UNAVAILABLE, LD_RESET_RECOVERY_FAILED} \<Longrightarrow> applied (cell s) m'
      \<and> smUnsupportedSlotA m' = holdsNewer (cell s CopyA) \<and> smUnsupportedSlotB m' = holdsNewer (cell s CopyB)"
    using run' S(2) by (auto split: if_splits)
  show "status = LD_DEFAULTED_MISSING \<Longrightarrow> cell s CopyA = None \<and> cell s CopyB = None" using run' S(3) by (auto split: if_splits)
  show "status \<notin> {LD_STORAGE_UNAVAILABLE, LD_RESET_RECOVERY_FAILED, LD_DEFAULTED_CORRUPT} \<Longrightarrow> \<not> smHasActiveSlot m' \<Longrightarrow>
      stored (cell s) CopyA = None \<and> stored (cell s) CopyB = None" using run' S(4) by (auto split: if_splits)
qed

lemma factory_reset:
  assumes run: "factoryReset st m s = (r, m', s')"
  shows "cell s' = cell s \<or> mark s' = Some 1 \<or> mark s' = None \<and> resetDone (cell s')"
    and "mark s' = mark s \<or> mark s' = Some 1 \<or> mark s' = None \<and> resetDone (cell s')"
    and "r \<noteq> RR_RESET_COMPLETED \<Longrightarrow> m' = m\<lparr>smLastResetResult := r\<rparr>"
    and "r = RR_RESET_COMPLETED \<Longrightarrow> mark s' = None \<and> applied (cell s') m' \<and> smSettings m' = defaults \<and> smHasActiveSlot m'
      \<and> \<not> unsupportedSchema m' \<and> resetDone (cell s')"
proof -
  obtain w s0 where w: "rsWriteResetMarker st True s = (w, s0)" by fastforce
  obtain q p s1 where q: "rsReadResetMarker st False s0 = (q, p, s1)" using prod_cases3 by blast
  obtain c mc sc where c: "completeVerifiedReset st m s1 = (c, mc, sc)" using prod_cases3 by blast
  note C = complete_reset [OF c] and F = marker_write [OF w] marker_frame [OF q]
  have M: "q = ST_OK \<Longrightarrow> p \<Longrightarrow> mark s1 = Some 1" using marker_ok [of False s0 p s1] q F by simp
  have run': "(r, m', s') = (if w = ST_UNAVAILABLE then (RR_STORAGE_UNAVAILABLE, m\<lparr>smLastResetResult := RR_STORAGE_UNAVAILABLE\<rparr>, s0)
     else if w \<noteq> ST_OK then (RR_MARKER_WRITE_FAILED, m\<lparr>smLastResetResult := RR_MARKER_WRITE_FAILED\<rparr>, s0)
     else if q = ST_UNAVAILABLE then (RR_STORAGE_UNAVAILABLE, m\<lparr>smLastResetResult := RR_STORAGE_UNAVAILABLE\<rparr>, s1)
     else if q \<noteq> ST_OK \<or> \<not> p then (RR_MARKER_VERIFY_FAILED, m\<lparr>smLastResetResult := RR_MARKER_VERIFY_FAILED\<rparr>, s1)
     else (c, mc\<lparr>smLastResetResult := c\<rparr>, sc))"
    using run w q c by (auto simp: factoryReset_def noteReset_def)
  show "cell s' = cell s \<or> mark s' = Some 1 \<or> mark s' = None \<and> resetDone (cell s')"
    using run' C(1) F M by (auto split: if_splits)
  show "mark s' = mark s \<or> mark s' = Some 1 \<or> mark s' = None \<and> resetDone (cell s')"
    using run' C(1) F M by (auto split: if_splits)
  show "r \<noteq> RR_RESET_COMPLETED \<Longrightarrow> m' = m\<lparr>smLastResetResult := r\<rparr>" using run' C(2) by (auto split: if_splits)
  show "r = RR_RESET_COMPLETED \<Longrightarrow> mark s' = None \<and> applied (cell s') m' \<and> smSettings m' = defaults \<and> smHasActiveSlot m'
      \<and> \<not> unsupportedSchema m' \<and> resetDone (cell s')"
    using run' C(3) by (auto simp: unsupportedSchema_def split: if_splits)
qed

subsubsection \<open>Saving\<close>

lemma save_outcome:
  assumes run: "sm_save st x m s = (status, m', s')" and t: "tracks m (cell s)"
  shows "mark s' = mark s" "holdsNewer (cell s c) \<Longrightarrow> cell s' c = cell s c" "tracks m' (cell s')"
    and "status \<in> {SV_SAVED, SV_REPAIRED_SAVED} \<Longrightarrow> smSettings m' = repaired x \<and> smGeneration m' = smGeneration m + 1
      \<and> smHasActiveSlot m' \<and> currentSettings (cell s') = Some ((repaired x, smGeneration m + 1), saveTarget m)"
    and "status \<notin> {SV_SAVED, SV_REPAIRED_SAVED} \<Longrightarrow> m' = m"
    and "status \<in> {SV_UNCHANGED, SV_REPAIRED_UNCHANGED, SV_UNSUPPORTED_SCHEMA} \<Longrightarrow> s' = s"
    and "currentSettings (cell s') \<in> {currentSettings (cell s), Some ((repaired x, smGeneration m + 1), saveTarget m),
      if smHasActiveSlot m then Some ((smSettings m, smGeneration m), smActiveSlot m) else None}"
proof -
  let ?T = "saveTarget m" and ?x = "repaired x" and ?g = "smGeneration m + 1"
  have v: "isValidSettings ?x" by (simp add: repaired_def repair_valid)
  obtain out where out: "encodeRecord ?x ?g (Some (fillZero 24)) 24 = (SC_OK, Some out)" "length out = 24" "settingsDec out = Some (?x, ?g)"
    using encode_repaired [OF v] by metis
  obtain w s1 where w: "rsWriteSlot st ?T out s = (w, s1)" by fastforce
  obtain q bs n s2 where q: "rsReadSlot st ?T (fillZero 24) s1 = (q, bs, n, s2)" using prod_cases4 by blast
  define early where "early = (\<not> smHasActiveSlot m \<and> unsupportedSchema m \<or> ?x = smSettings m \<and> \<not> smRepairPending m \<or> isUnsupportedSlot ?T m)"
  define m1 where "m1 = m\<lparr>smSettings := ?x, smGeneration := ?g, smActiveSlot := ?T, smHasActiveSlot := True, smRepairPending := False\<rparr>"
  note W = write_slot [OF w out(2)] and Q = read_frame [OF q]
  consider (early) "early" "m' = m" "s' = s" "status \<in> {SV_UNCHANGED, SV_REPAIRED_UNCHANGED, SV_UNSUPPORTED_SCHEMA}"
    | (failed) "\<not> early" "m' = m" "s' = s1 \<or> s' = s2" "status \<in> {SV_STORAGE_UNAVAILABLE, SV_WRITE_FAILED, SV_READ_BACK_FAILED, SV_VERIFICATION_FAILED}"
    | (saved) "\<not> early" "m' = m1" "s' = s2" "status \<in> {SV_SAVED, SV_REPAIRED_SAVED}" "q = ST_OK" "decodeRecord (Some bs) n = Inr (?x, ?g)"
    using run out(1) w q unfolding sm_save_def RECORD_SIZE_def early_def m1_def
    by (auto simp: Let_def saveTarget_def [symmetric] repaired_def split: if_splits prod.splits)
  note cases' = this
  note T = tracked_write [OF t _ conjunct1 [OF W] out(3)]
  have nt: "\<not> isUnsupportedSlot ?T m" if "\<not> early" using that by (simp add: early_def)
  have cell2: "cell s2 = cell s1" "mark s2 = mark s1" "mark s1 = mark s" using Q W by auto
  have savedCell: "cell s1 ?T = Some bs \<and> settingsDec bs = Some (?x, ?g)" if "q = ST_OK" "decodeRecord (Some bs) n = Inr (?x, ?g)"
    using read_ok [of ?T "fillZero 24" s1 bs n s2] q that settingsDec_exact [of bs ?x ?g] by (simp add: fillZero_def)
  show "mark s' = mark s" using cases' cell2 by cases auto
  show "holdsNewer (cell s c) \<Longrightarrow> cell s' c = cell s c" using cases' T(4) nt cell2 by cases auto
  show "status \<notin> {SV_SAVED, SV_REPAIRED_SAVED} \<Longrightarrow> m' = m" using cases' by cases auto
  show "status \<in> {SV_UNCHANGED, SV_REPAIRED_UNCHANGED, SV_UNSUPPORTED_SCHEMA} \<Longrightarrow> s' = s" using cases' by cases auto
  show "currentSettings (cell s') \<in> {currentSettings (cell s), Some ((?x, ?g), ?T),
      if smHasActiveSlot m then Some ((smSettings m, smGeneration m), smActiveSlot m) else None}"
    using cases' T(3) nt cell2 by cases auto
  have now: "tracks m (cell s1) \<and> currentSettings (cell s1) = Some ((?x, ?g), ?T)" if e: "\<not> early" and c: "cell s1 ?T = Some bs" "settingsDec bs = Some (?x, ?g)"
  proof -
    have "slotWrite ?T bs (cell s) (cell s1)" using W c by (simp add: slotWrite_def)
    then show ?thesis using tracked_write(1,2) [OF t nt [OF e] _ c(2)] c by blast
  qed
  show "tracks m' (cell s')" using cases'
  proof cases
    case early then show ?thesis using t by simp
  next
    case failed then show ?thesis using T(1) [OF nt] cell2 by auto
  next
    case saved
    have c: "cell s1 ?T = Some bs" "settingsDec bs = Some (?x, ?g)" using savedCell saved by blast+
    have "stored (cell s1) ?T = Some (?x, ?g)" unfolding c(1) by (simp add: c(2))
    then have "tracks m1 (cell s1)" using now [OF saved(1) c] tracks_saved m1_def by blast
    then show ?thesis using saved cell2 by simp
  qed
  show "status \<in> {SV_SAVED, SV_REPAIRED_SAVED} \<Longrightarrow> smSettings m' = ?x \<and> smGeneration m' = ?g
      \<and> smHasActiveSlot m' \<and> currentSettings (cell s') = Some ((?x, ?g), ?T)"
    using cases' now savedCell cell2 by cases (auto simp: m1_def)
qed

subsubsection \<open>Runs\<close>

lemma reset_tracks:
  assumes "applied (cell s) m" "smHasActiveSlot m" "\<not> unsupportedSchema m" "resetDone (cell s)"
  shows "tracks m (cell s)"
  using resetDone_newer [OF assms(4)] assms by (intro applied_tracks) (simp_all add: unsupportedSchema_def)

lemma load_tracks:
  assumes run: "sm_load st m s = (status, m', s')" and ok: "status \<notin> {LD_STORAGE_UNAVAILABLE, LD_RESET_RECOVERY_FAILED}"
    and clean: "mark s \<noteq> Some 1 \<Longrightarrow> \<not> conflict (cell s)"
  shows "tracks m' (cell s') \<and> smSettings m' = heldSettings (cell s') \<and> mark s' \<noteq> Some 1"
proof (cases "mark s = Some 1")
  case True
  then have "status = LD_RESET_COMPLETED" using load_pending(2) [OF run] ok by auto
  then have R: "mark s' = None" "applied (cell s') m'" "smHasActiveSlot m'" "\<not> unsupportedSchema m'" "resetDone (cell s')"
    using load_pending(4) [OF run True] by blast+
  then show ?thesis using reset_tracks [OF R(2-5)] resetDone_current [OF R(5)] load_pending(1) [OF run True] by (simp add: heldSettings_def)
next
  case False
  note L = load_clean [OF run False]
  have A: "applied (cell s) m'" "smUnsupportedSlotA m' = holdsNewer (cell s CopyA)" "smUnsupportedSlotB m' = holdsNewer (cell s CopyB)"
    using L(3) ok by auto
  have "tracks m' (cell s)"
  proof (cases "smHasActiveSlot m'")
    case True then show ?thesis using A by (intro applied_tracks)
  next
    case inactive: False
    then have "currentSettings (cell s) = None" "fresh m'" using A(1) by (auto simp: applied_def split: option.splits)
    then show ?thesis using A clean [OF False] unfolding conflict_def by (intro blank_tracks) blast+
  qed
  then show ?thesis using L(1) A(1) False by (auto simp: applied_def fresh_def heldSettings_def split: option.splits)
qed

lemma run_inv:
  assumes "settingsRun st cell mo s c as"
  shows "runInv (cell s) (mark s) mo c as"
  using assms
proof induction
  case (start s)
  then show ?case by (simp add: runInv_def)
next
  case (boot mo s c as m0 status m s')
  then show ?case using load_tracks [OF boot.hyps(2,3)] by (intro runInv_service) (auto simp: runInv_def)
next
  case (unread mo s c as m0 status m s')
  show ?case
  proof (cases "mark s = Some 1")
    case True
    then show ?thesis using load_pending(3) [OF unread.hyps(2) True] unread.IH runInv_reset [of "cell s'" "mark s'" c as] by (auto simp: runInv_def)
  next
    case False
    then show ?thesis using load_clean(1) [OF unread.hyps(2) False] unread.IH by (auto simp: runInv_def)
  qed
next
  case (saved m s c as x status m' s')
  have t: "tracks m (cell s)" "mark s \<noteq> Some 1" using saved.IH by (auto simp: runInv_def)
  note S = save_outcome [OF saved.hyps(2) t(1)]
  show ?case using S(1,3,4) saved.hyps(3) t(2) by (intro runInv_service) (auto simp: heldSettings_def)
next
  case (kept m s c as x status m' s')
  have t: "tracks m (cell s)" using kept.IH by (auto simp: runInv_def)
  have "m' = m" "s' = s" using save_outcome(5,6) [OF kept.hyps(2) t] kept.hyps(3) by auto
  then show ?case using kept.IH by simp
next
  case (failed m s c as x status m' s')
  have t: "tracks m (cell s)" "mark s \<noteq> Some 1" "smSettings m = c" "heldSettings (cell s) \<in> insert c (set as)" using failed.IH by (auto simp: runInv_def)
  note S = save_outcome [OF failed.hyps(2) t(1)]
  have "\<not> smHasActiveSlot m \<Longrightarrow> c = defaults" using t(1,3) by (simp add: tracks_def)
  then have "heldSettings (cell s') \<in> insert c (set (repaired x # as))"
    using S(7) t(3,4) by (auto simp: heldSettings_def split: if_splits)
  then show ?case using S(1,3,5) failed.hyps(3) t by (intro runInv_service) auto
next
  case (reset mo s c as m m' s')
  then show ?case using factory_reset(4) [OF reset.hyps(2)] reset_tracks [of s' m'] resetDone_current [of "cell s'"]
    by (intro runInv_service) (auto simp: heldSettings_def)
next
  case (reset_failed mo s c as m r m' s')
  then show ?case using factory_reset(1,2) [OF reset_failed.hyps(2)]
    by (auto simp: runInv_def resetDone_no_conflict heldSettings_def resetDone_current)
qed

lemma run_survives:
  assumes "settingsRun st cell mo s c as" "sm_load st m0 s = (status, m', s')"
    and "status \<notin> {LD_STORAGE_UNAVAILABLE, LD_RESET_RECOVERY_FAILED}"
  shows "smSettings m' \<in> insert c (set as)"
proof -
  note inv = run_inv [OF assms(1), unfolded runInv_def]
  show ?thesis
  proof (cases "mark s = Some 1")
    case True then show ?thesis using load_pending(1) [OF assms(2) True] inv by simp
  next
    case False
    then show ?thesis using load_tracks [OF assms(2,3)] load_clean(1) [OF assms(2) False] inv by auto
  qed
qed

end

subsection \<open>A store that works\<close>

locale working_medium = settings_medium st cell mark for st :: "'s recordStore" and cell mark +
  assumes read_works: "rsReadSlot st c buf s = (r, buf', n, s') \<Longrightarrow> length buf = 24 \<Longrightarrow>
      r = (case cell s c of None \<Rightarrow> ST_MISSING | Some bs \<Rightarrow> if length bs = 24 then ST_OK else ST_MALFORMED)"
    and write_works: "rsWriteSlot st c bs s = (r, s') \<Longrightarrow> length bs = 24 \<Longrightarrow> r = ST_OK \<and> cell s' c = Some bs"
    and remove_works: "rsRemoveSlot st c s = (r, s') \<Longrightarrow> (r = ST_OK \<or> r = ST_MISSING) \<and> cell s' c = None"
    and marker_read_works: "rsReadResetMarker st p s = (r, p', s') \<Longrightarrow> mark s = None \<or> mark s = Some 1 \<Longrightarrow>
      r = (if mark s = None then ST_MISSING else ST_OK)"
    and marker_write_works: "rsWriteResetMarker st p s = (r, s') \<Longrightarrow> r = ST_OK \<and> mark s' = Some (if p then 1 else 0)"
    and marker_remove_works: "rsRemoveResetMarker st s = (r, s') \<Longrightarrow> mark s \<noteq> None \<Longrightarrow> r = ST_OK \<and> mark s' = None"
begin

lemma remove_completes: "removeAndVerifySlot st c s = (r, s') \<Longrightarrow> r = RR_RESET_COMPLETED"
proof -
  assume run: "removeAndVerifySlot st c s = (r, s')"
  obtain w s1 where w: "rsRemoveSlot st c s = (w, s1)" by fastforce
  obtain v bs n s2 where v: "rsReadSlot st c (fillZero 24) s1 = (v, bs, n, s2)" using prod_cases4 by blast
  have "v = ST_MISSING" using read_works [OF v] remove_works [OF w] by (simp add: fillZero_def)
  then show ?thesis using run w v remove_works [OF w] by (auto simp: removeAndVerifySlot_def)
qed

lemma complete_works:
  assumes run: "completeVerifiedReset st m s = (r, m', s')" and p: "mark s = Some 1"
  shows "r = RR_RESET_COMPLETED"
proof -
  obtain a s1 where a: "removeAndVerifySlot st CopyA s = (a, s1)" by fastforce
  obtain b s2 where b: "removeAndVerifySlot st CopyB s1 = (b, s2)" by fastforce
  have m2: "mark s2 = Some 1" using remove_verified [OF a] remove_verified [OF b] p by simp
  obtain out where out: "encodeRecord defaults 1 (Some (fillZero 24)) 24 = (SC_OK, Some out)" "length out = 24" "decodeRecord (Some out) 24 = Inr (defaults, 1)"
    using encode_repaired [OF defaults_valid] by metis
  obtain w s3 where w: "rsWriteSlot st CopyA out s2 = (w, s3)" by fastforce
  obtain v bs n s4 where v: "rsReadSlot st CopyA (fillZero 24) s3 = (v, bs, n, s4)" using prod_cases4 by blast
  obtain d s5 where d: "rsRemoveResetMarker st s4 = (d, s5)" by fastforce
  obtain q e s6 where q: "rsReadResetMarker st False s5 = (q, e, s6)" using prod_cases3 by blast
  have W: "w = ST_OK" "cell s3 CopyA = Some out" "mark s3 = Some 1" using write_works [OF w out(2)] write_slot [OF w out(2)] m2 by auto
  have V: "v = ST_OK" using read_works [OF v] W out(2) by (simp add: fillZero_def)
  then have "n = 24" "bs = out" using read_ok [of CopyA "fillZero 24" s3 bs n s4] v W by (auto simp: fillZero_def)
  moreover have "d = ST_OK" "mark s5 = None" using marker_remove_works [OF d] read_frame [OF v] W by auto
  moreover then have "q = ST_MISSING" using marker_read_works [OF q] by simp
  ultimately show ?thesis using run a b w v d q out W V remove_completes [OF a] remove_completes [OF b]
    unfolding completeVerifiedReset_def writeDefaults_def RECORD_SIZE_def by auto
qed

lemma factory_works: "factoryReset st m s = (r, m', s') \<Longrightarrow> r = RR_RESET_COMPLETED"
proof -
  assume run: "factoryReset st m s = (r, m', s')"
  obtain w s0 where w: "rsWriteResetMarker st True s = (w, s0)" by fastforce
  obtain q p s1 where q: "rsReadResetMarker st False s0 = (q, p, s1)" using prod_cases3 by blast
  obtain c mc sc where c: "completeVerifiedReset st m s1 = (c, mc, sc)" using prod_cases3 by blast
  have W: "w = ST_OK" "mark s0 = Some 1" using marker_write_works [OF w] by auto
  have Q: "q = ST_OK" "p" "mark s1 = Some 1"
    using marker_read_works [OF q] marker_ok [of False s0 p s1] marker_frame [OF q] q W by (auto split: if_splits)
  show ?thesis using run w q c W Q complete_works [OF c] by (simp add: factoryReset_def noteReset_def)
qed

lemma load_pending_works:
  assumes run: "sm_load st m s = (status, m', s')" and p: "mark s = Some 1"
  shows "status = LD_RESET_COMPLETED"
proof -
  obtain q e s1 where q: "rsReadResetMarker st False s = (q, e, s1)" using prod_cases3 by blast
  obtain c mc sc where c: "completeVerifiedReset st (resetRuntimeState m) s1 = (c, mc, sc)" using prod_cases3 by blast
  have "q = ST_OK" "e" "mark s1 = Some 1"
    using marker_read_works [OF q] marker_ok [of False s e s1] marker_frame [OF q] q p by (auto split: if_splits)
  then show ?thesis using run q c complete_works [OF c] by (auto simp: sm_load_def recoverPendingReset_def noteReset_def)
qed

text \<open>A save is only refused for the reasons that have nothing to do with the store.\<close>

lemma save_works:
  assumes run: "sm_save st x m s = (status, m', s')"
  shows "status \<in> {SV_UNCHANGED, SV_REPAIRED_UNCHANGED, SV_UNSUPPORTED_SCHEMA} \<and> s' = s
    \<or> status \<in> {SV_SAVED, SV_REPAIRED_SAVED} \<and> stored (cell s') (saveTarget m) = Some (repaired x, smGeneration m + 1)
      \<and> cell s' (opposite (saveTarget m)) = cell s (opposite (saveTarget m)) \<and> mark s' = mark s"
    and "\<not> unsupportedSchema m \<Longrightarrow> repaired x \<noteq> smSettings m \<Longrightarrow> status \<in> {SV_SAVED, SV_REPAIRED_SAVED}"
proof -
  let ?T = "saveTarget m" and ?x = "repaired x" and ?g = "smGeneration m + 1"
  have v: "isValidSettings ?x" by (simp add: repaired_def repair_valid)
  obtain out where out: "encodeRecord ?x ?g (Some (fillZero 24)) 24 = (SC_OK, Some out)" "length out = 24" "decodeRecord (Some out) 24 = Inr (?x, ?g)"
      "settingsDec out = Some (?x, ?g)"
    using encode_repaired [OF v] by metis
  obtain w s1 where w: "rsWriteSlot st ?T out s = (w, s1)" by fastforce
  obtain q bs n s2 where q: "rsReadSlot st ?T (fillZero 24) s1 = (q, bs, n, s2)" using prod_cases4 by blast
  have W: "w = ST_OK" "cell s1 ?T = Some out" using write_works [OF w out(2)] by auto
  have Q: "q = ST_OK" using read_works [OF q] W out(2) by (simp add: fillZero_def)
  then have bs: "n = 24" "bs = out" using read_ok [of ?T "fillZero 24" s1 bs n s2] q W by (auto simp: fillZero_def)
  define early where "early = (\<not> smHasActiveSlot m \<and> unsupportedSchema m \<or> ?x = smSettings m \<and> \<not> smRepairPending m \<or> isUnsupportedSlot ?T m)"
  have run': "early \<and> s' = s \<and> status \<in> {SV_UNCHANGED, SV_REPAIRED_UNCHANGED, SV_UNSUPPORTED_SCHEMA}
      \<or> \<not> early \<and> s' = s2 \<and> status \<in> {SV_SAVED, SV_REPAIRED_SAVED}"
    using run out(1,3) w q W(1) Q bs unfolding sm_save_def RECORD_SIZE_def early_def
    by (auto simp: Let_def saveTarget_def [symmetric] repaired_def split: if_splits prod.splits)
  have "stored (cell s2) ?T = Some (?x, ?g)" "cell s2 (opposite ?T) = cell s (opposite ?T)" "mark s2 = mark s"
    using read_frame [OF q] write_slot [OF w out(2)] W(2) out(4) by (auto simp: slotWrite_def)
  then show "status \<in> {SV_UNCHANGED, SV_REPAIRED_UNCHANGED, SV_UNSUPPORTED_SCHEMA} \<and> s' = s
    \<or> status \<in> {SV_SAVED, SV_REPAIRED_SAVED} \<and> stored (cell s') ?T = Some (?x, ?g)
      \<and> cell s' (opposite ?T) = cell s (opposite ?T) \<and> mark s' = mark s" using run' by blast
  assume "\<not> unsupportedSchema m" "?x \<noteq> smSettings m"
  then have "\<not> early" by (simp add: early_def unsupportedSchema_def isUnsupportedSlot_def)
  then show "status \<in> {SV_SAVED, SV_REPAIRED_SAVED}" using run' by blast
qed

text \<open>With no marker stored every load reads both slots.\<close>

lemma load_works:
  assumes run: "sm_load st m s = (status, m', s')" and p: "mark s = None"
  shows "status \<notin> {LD_STORAGE_UNAVAILABLE, LD_RESET_RECOVERY_FAILED}"
proof -
  obtain q e s1 where q: "rsReadResetMarker st False s = (q, e, s1)" using prod_cases3 by blast
  have q': "q = ST_MISSING" using marker_read_works [OF q] p by simp
  have kind: "slKind (fst (readAndClassify st c t)) \<noteq> SK_UNAVAILABLE" for c t
  proof -
    obtain r bs n t' where r: "rsReadSlot st c (fillZero 24) t = (r, bs, n, t')" using prod_cases4 by blast
    have "r \<in> {ST_OK, ST_MISSING, ST_MALFORMED}" using read_works [OF r] by (auto simp: fillZero_def split: option.splits)
    then show ?thesis using r by (auto simp: readAndClassify_def slotRecord_init_def Let_def split: sum.splits)
  qed
  obtain a s2 where a: "readAndClassify st CopyA s1 = (a, s2)" by fastforce
  obtain b s3 where b: "readAndClassify st CopyB s2 = (b, s3)" by fastforce
  have "slKind a \<noteq> SK_UNAVAILABLE" "slKind b \<noteq> SK_UNAVAILABLE" using kind [of CopyA s1] kind [of CopyB s2] a b by auto
  then show ?thesis using run q q' a b
    by (auto simp: sm_load_def recoverPendingReset_def noteReset_def selectSlots_def applySelected_def Let_def split: if_splits prod.splits)
qed

end

end
