(* ===== verification/Esp32SettingsStorage.thy ===== *)
theory Esp32SettingsStorage
  imports SettingsRecovery NvsPlatform
begin

text \<open>
  The flash-backed record store of the settings (\<^verbatim>\<open>lib/esp32_settings_storage/src/esp32_settings_storage.cpp\<close>): two blobs and
  the reset marker in the namespace \<^verbatim>\<open>redline\<close>.  The locale \<open>nvs_settings\<close> states the documented behaviour of the platform, and
  its sublocale proof discharges the contract the settings manager relies on.
\<close>

subsection \<open>The platform calls\<close>

record 's settingsApi = "'s nvsApi" +
  prefRemove :: "string \<Rightarrow> 's \<Rightarrow> bool \<times> 's"
  prefGetUChar :: "string \<Rightarrow> u8 \<Rightarrow> 's \<Rightarrow> u8 \<times> 's"
  prefPutBool :: "string \<Rightarrow> bool \<Rightarrow> 's \<Rightarrow> nat \<times> 's"

subsection \<open>The record store\<close>

definition SETTINGS_NAMESPACE :: string where "SETTINGS_NAMESPACE = ''redline''"
definition SLOT_A_KEY :: string where "SLOT_A_KEY = ''cfg_a''"
definition SLOT_B_KEY :: string where "SLOT_B_KEY = ''cfg_b''"
definition RESET_MARKER_KEY :: string where "RESET_MARKER_KEY = ''rst_pend''"

definition classifySlotMetadata :: "bool \<Rightarrow> nat \<Rightarrow> storeResult" where
  "classifySlotMetadata isBlob storedLength = (if isBlob \<and> storedLength = RECORD_SIZE then ST_OK else ST_MALFORMED)"

definition classifyNamespaceOpen :: "espErr \<Rightarrow> storeResult" where
  "classifyNamespaceOpen result = (if result = ESP_OK then ST_OK else if result = ESP_ERR_NVS_NOT_FOUND then ST_MISSING else ST_UNAVAILABLE)"

definition probeNamespaceForRead :: "'s settingsApi \<Rightarrow> 's \<Rightarrow> storeResult \<times> 's" where
  "probeNamespaceForRead nv s = (case nvsOpenReadonly nv SETTINGS_NAMESPACE s of (openResult, s) \<Rightarrow>
     (classifyNamespaceOpen openResult, if openResult = ESP_OK then nvsClose nv s else s))"

definition slotKey :: "copySlot \<Rightarrow> string" where
  "slotKey slot = (if slot = CopyA then SLOT_A_KEY else SLOT_B_KEY)"

definition removeKey :: "'s settingsApi \<Rightarrow> string \<Rightarrow> 's \<Rightarrow> storeResult \<times> 's" where
  "removeKey nv key s = (case prefBegin nv SETTINGS_NAMESPACE False s of (begun, s) \<Rightarrow>
     if \<not> begun then (ST_UNAVAILABLE, s)
     else case prefIsKey nv key s of (isKey, s) \<Rightarrow>
     if \<not> isKey then (ST_MISSING, prefEnd nv s)
     else case prefRemove nv key s of (removed, s) \<Rightarrow> (if removed then ST_OK else ST_ERROR, prefEnd nv s))"

text \<open>The output buffer is never null; its length is the capacity.\<close>

definition pref_readSlot :: "'s settingsApi \<Rightarrow> copySlot \<Rightarrow> bytes \<Rightarrow> 's \<Rightarrow> storeResult \<times> bytes \<times> nat \<times> 's" where
  "pref_readSlot nv slot output s =
     (if length output < RECORD_SIZE then (ST_ERROR, output, 0, s)
      else case probeNamespaceForRead nv s of (namespaceResult, s) \<Rightarrow>
      if namespaceResult \<noteq> ST_OK then (namespaceResult, output, 0, s)
      else case prefBegin nv SETTINGS_NAMESPACE True s of (begun, s) \<Rightarrow>
      if \<not> begun then (ST_UNAVAILABLE, output, 0, s)
      else case prefIsKey nv (slotKey slot) s of (isKey, s) \<Rightarrow>
      if \<not> isKey then (ST_MISSING, output, 0, prefEnd nv s)
      else case prefGetType nv (slotKey slot) s of (ty, s) \<Rightarrow>
      case prefGetBytesLength nv (slotKey slot) s of (storedLength, s) \<Rightarrow>
      let metadataResult = classifySlotMetadata (ty = PT_BLOB) storedLength in
      if metadataResult \<noteq> ST_OK then (metadataResult, output, 0, prefEnd nv s)
      else case prefGetBytes nv (slotKey slot) output RECORD_SIZE s of (bytesRead, output, s) \<Rightarrow>
      if bytesRead \<noteq> RECORD_SIZE then (ST_ERROR, output, 0, prefEnd nv s) else (ST_OK, output, bytesRead, prefEnd nv s))"

definition pref_writeSlot :: "'s settingsApi \<Rightarrow> copySlot \<Rightarrow> bytes \<Rightarrow> 's \<Rightarrow> storeResult \<times> 's" where
  "pref_writeSlot nv slot input s =
     (if length input \<noteq> RECORD_SIZE then (ST_ERROR, s)
      else case prefBegin nv SETTINGS_NAMESPACE False s of (begun, s) \<Rightarrow>
      if \<not> begun then (ST_UNAVAILABLE, s)
      else case prefPutBytes nv (slotKey slot) input (length input) s of (bytesWritten, s) \<Rightarrow>
      (if bytesWritten = RECORD_SIZE then ST_OK else ST_ERROR, prefEnd nv s))"

definition pref_readResetMarker :: "'s settingsApi \<Rightarrow> bool \<Rightarrow> 's \<Rightarrow> storeResult \<times> bool \<times> 's" where
  "pref_readResetMarker nv pending s = (case probeNamespaceForRead nv s of (namespaceResult, s) \<Rightarrow>
     if namespaceResult \<noteq> ST_OK then (namespaceResult, False, s)
     else case prefBegin nv SETTINGS_NAMESPACE True s of (begun, s) \<Rightarrow>
     if \<not> begun then (ST_UNAVAILABLE, False, s)
     else case prefIsKey nv RESET_MARKER_KEY s of (isKey, s) \<Rightarrow>
     if \<not> isKey then (ST_MISSING, False, prefEnd nv s)
     else case prefGetType nv RESET_MARKER_KEY s of (ty, s) \<Rightarrow>
     if ty \<noteq> PT_U8 then (ST_ERROR, False, prefEnd nv s)
     else case prefGetUChar nv RESET_MARKER_KEY 0xFF s of (val, s) \<Rightarrow>
     if val > 1 then (ST_ERROR, False, prefEnd nv s) else (ST_OK, val = 1, prefEnd nv s))"

definition pref_writeResetMarker :: "'s settingsApi \<Rightarrow> bool \<Rightarrow> 's \<Rightarrow> storeResult \<times> 's" where
  "pref_writeResetMarker nv pending s = (case prefBegin nv SETTINGS_NAMESPACE False s of (begun, s) \<Rightarrow>
     if \<not> begun then (ST_UNAVAILABLE, s)
     else case prefPutBool nv RESET_MARKER_KEY pending s of (bytesWritten, s) \<Rightarrow>
     (if bytesWritten = 1 then ST_OK else ST_ERROR, prefEnd nv s))"

definition preferencesRecordStore :: "'s settingsApi \<Rightarrow> 's recordStore" where
  "preferencesRecordStore nv = \<lparr>rsReadSlot = pref_readSlot nv, rsWriteSlot = pref_writeSlot nv,
     rsRemoveSlot = (\<lambda>slot. removeKey nv (slotKey slot)), rsReadResetMarker = pref_readResetMarker nv,
     rsWriteResetMarker = pref_writeResetMarker nv, rsRemoveResetMarker = removeKey nv RESET_MARKER_KEY\<rparr>"

subsection \<open>Documented behaviour of the platform\<close>

text \<open>What a key of the namespace holds.\<close>

datatype storedValue = Blob bytes | Uchar u8 | OtherValue

definition typeOf :: "storedValue \<Rightarrow> preferenceType" where
  "typeOf v = (case v of Blob _ \<Rightarrow> PT_BLOB | Uchar _ \<Rightarrow> PT_U8 | OtherValue \<Rightarrow> PT_OTHER)"

text \<open>\<open>val s key\<close> is what \<open>key\<close> holds in the namespace; \<open>opened\<close> says that the \<^verbatim>\<open>Preferences\<close> object is open on it.  Queries tell
  the truth and change nothing; an update changes one key, to the new value or not at all, whatever it reports.  \<^verbatim>\<open>getBytes\<close> and
  \<^verbatim>\<open>getUChar\<close> may fail, and then return zero bytes and the default.\<close>

locale nvs_settings =
  fixes nv :: "'s settingsApi" and opened :: "'s \<Rightarrow> bool" and val :: "'s \<Rightarrow> string \<Rightarrow> storedValue option"
  assumes open_frame: "nvsOpenReadonly nv SETTINGS_NAMESPACE s = (r, s') \<Longrightarrow> val s' = val s"
    and open_missing: "nvsOpenReadonly nv SETTINGS_NAMESPACE s = (ESP_ERR_NVS_NOT_FOUND, s') \<Longrightarrow> val s = (\<lambda>_. None)"
    and close_frame: "val (nvsClose nv s) = val s"
    and begin_frame: "prefBegin nv SETTINGS_NAMESPACE ro s = (b, s') \<Longrightarrow> val s' = val s \<and> (b \<longrightarrow> opened s')"
    and end_frame: "val (prefEnd nv s) = val s"
    and isKey: "prefIsKey nv key s = (b, s') \<Longrightarrow> opened s \<Longrightarrow> val s' = val s \<and> opened s' \<and> (b \<longleftrightarrow> val s key \<noteq> None)"
    and getType: "prefGetType nv key s = (t, s') \<Longrightarrow> opened s \<Longrightarrow>
      val s' = val s \<and> opened s' \<and> (\<forall>v. val s key = Some v \<longrightarrow> t = typeOf v)"
    and getBytesLength: "prefGetBytesLength nv key s = (n, s') \<Longrightarrow> opened s \<Longrightarrow>
      val s' = val s \<and> opened s' \<and> (\<forall>bs. val s key = Some (Blob bs) \<longrightarrow> n = length bs)"
    and getBytes: "prefGetBytes nv key buf n s = (m, buf', s') \<Longrightarrow> opened s \<Longrightarrow> n \<le> length buf \<Longrightarrow>
      val s' = val s \<and> opened s' \<and> (m = n \<and> 0 < n \<longrightarrow> (\<exists>bs. val s key = Some (Blob bs) \<and> length bs = n \<and> buf' = bs @ drop n buf))"
    and putBytes: "prefPutBytes nv key bs n s = (m, s') \<Longrightarrow> opened s \<Longrightarrow> n = length bs \<Longrightarrow>
      val s' = val s \<or> val s' = (val s)(key \<mapsto> Blob bs)"
    and remove_key: "prefRemove nv key s = (b, s') \<Longrightarrow> opened s \<Longrightarrow> val s' = val s \<or> val s' = (val s)(key := None)"
    and getUChar: "prefGetUChar nv key d s = (v, s') \<Longrightarrow> opened s \<Longrightarrow>
      val s' = val s \<and> opened s' \<and> (v = d \<or> val s key = Some (Uchar v))"
    and putBool: "prefPutBool nv key p s = (m, s') \<Longrightarrow> opened s \<Longrightarrow>
      val s' = val s \<or> val s' = (val s)(key \<mapsto> Uchar (if p then 1 else 0))"

text \<open>The slots and the marker; a value of the wrong type counts as an empty blob, and as a marker that is neither 0 nor 1.\<close>

definition settingsCell :: "(string \<Rightarrow> storedValue option) \<Rightarrow> copySlot \<Rightarrow> bytes option" where
  "settingsCell f c = map_option (\<lambda>v. case v of Blob bs \<Rightarrow> bs | _ \<Rightarrow> []) (f (slotKey c))"

definition settingsMark :: "(string \<Rightarrow> storedValue option) \<Rightarrow> u8 option" where
  "settingsMark f = map_option (\<lambda>v. case v of Uchar b \<Rightarrow> b | _ \<Rightarrow> 0xFF) (f RESET_MARKER_KEY)"

lemma keys_apart: "slotKey c \<noteq> RESET_MARKER_KEY" "RESET_MARKER_KEY \<noteq> slotKey c" "slotKey c = slotKey d \<longleftrightarrow> c = d"
  by (cases c; cases d; simp add: slotKey_def SLOT_A_KEY_def SLOT_B_KEY_def RESET_MARKER_KEY_def)+

lemma settingsCell_upd [simp]:
  "settingsCell (f(slotKey c := v)) d = (if c = d then map_option (\<lambda>v. case v of Blob bs \<Rightarrow> bs | _ \<Rightarrow> []) v else settingsCell f d)"
  "settingsCell (f(RESET_MARKER_KEY := v)) = settingsCell f" "settingsMark (f(slotKey c := v)) = settingsMark f"
  by (auto simp: settingsCell_def settingsMark_def keys_apart fun_eq_iff)

context nvs_settings
begin

lemma probe_outcome:
  "probeNamespaceForRead nv s = (p, s') \<Longrightarrow> val s' = val s \<and> (p = ST_MISSING \<longrightarrow> val s = (\<lambda>_. None)) \<and> p \<noteq> ST_MALFORMED"
  by (auto simp: probeNamespaceForRead_def classifyNamespaceOpen_def close_frame split: prod.splits if_splits dest: open_frame open_missing)

lemma removeKey_outcome:
  assumes "removeKey nv key s = (r, s')"
  shows "val s' = val s \<or> val s' = (val s)(key := None)"
proof -
  obtain b s1 where b: "prefBegin nv SETTINGS_NAMESPACE False s = (b, s1)" by fastforce
  obtain i s2 where i: "prefIsKey nv key s1 = (i, s2)" by fastforce
  obtain d s3 where d: "prefRemove nv key s2 = (d, s3)" by fastforce
  show ?thesis using assms b i d begin_frame [OF b] isKey [OF i] remove_key [OF d]
    by (auto simp: removeKey_def end_frame split: if_splits)
qed

lemma readSlot_outcome:
  assumes "pref_readSlot nv c buf s = (r, buf', n, s')"
  shows "val s' = val s"
    and "length buf = 24 \<Longrightarrow> r = ST_OK \<Longrightarrow> n = 24 \<and> length buf' = 24 \<and> settingsCell (val s) c = Some buf'"
    and "length buf = 24 \<Longrightarrow> r = ST_MISSING \<Longrightarrow> settingsCell (val s) c = None"
    and "length buf = 24 \<Longrightarrow> r = ST_MALFORMED \<Longrightarrow> \<exists>bs. settingsCell (val s) c = Some bs \<and> length bs \<noteq> 24"
proof -
  let ?k = "slotKey c"
  obtain p s1 where p: "probeNamespaceForRead nv s = (p, s1)" by fastforce
  obtain b s2 where b: "prefBegin nv SETTINGS_NAMESPACE True s1 = (b, s2)" by fastforce
  obtain i s3 where i: "prefIsKey nv ?k s2 = (i, s3)" by fastforce
  obtain t s4 where t: "prefGetType nv ?k s3 = (t, s4)" by fastforce
  obtain l s5 where l: "prefGetBytesLength nv ?k s4 = (l, s5)" by fastforce
  obtain m out s6 where g: "prefGetBytes nv ?k buf 24 s5 = (m, out, s6)" using prod_cases3 by blast
  note P = probe_outcome [OF p] and B = begin_frame [OF b]
  let ?short = "length buf < 24"
  have run: "(r, buf', n, s') = (if ?short then (ST_ERROR, buf, 0, s) else if p \<noteq> ST_OK then (p, buf, 0, s1)
     else if \<not> b then (ST_UNAVAILABLE, buf, 0, s2) else if \<not> i then (ST_MISSING, buf, 0, prefEnd nv s3)
     else if \<not> (t = PT_BLOB \<and> l = 24) then (ST_MALFORMED, buf, 0, prefEnd nv s5)
     else if m \<noteq> 24 then (ST_ERROR, out, 0, prefEnd nv s6) else (ST_OK, out, 24, prefEnd nv s6))"
    using assms p b i t l g unfolding pref_readSlot_def RECORD_SIZE_def
    by (auto simp: Let_def classifySlotMetadata_def split: if_splits)
  have open2: "val s2 = val s" "b \<longrightarrow> opened s2" using P B by auto
  have I: "b \<longrightarrow> val s3 = val s \<and> opened s3 \<and> (i \<longleftrightarrow> val s ?k \<noteq> None)" using isKey [OF i] open2 by auto
  have T: "b \<longrightarrow> val s4 = val s \<and> opened s4 \<and> (\<forall>v. val s ?k = Some v \<longrightarrow> t = typeOf v)" using getType [OF t] I by auto
  have L: "b \<longrightarrow> val s5 = val s \<and> opened s5 \<and> (\<forall>bs. val s ?k = Some (Blob bs) \<longrightarrow> l = length bs)" using getBytesLength [OF l] T by auto
  have G: "b \<longrightarrow> \<not> ?short \<longrightarrow> val s6 = val s \<and> (m = 24 \<longrightarrow> (\<exists>bs. val s ?k = Some (Blob bs) \<and> length bs = 24 \<and> out = bs @ drop 24 buf))"
    using getBytes [OF g] L by auto
  show "val s' = val s" using run P open2 I L G by (auto simp: end_frame split: if_splits)
  show "length buf = 24 \<Longrightarrow> r = ST_OK \<Longrightarrow> n = 24 \<and> length buf' = 24 \<and> settingsCell (val s) c = Some buf'"
    using run G by (auto simp: settingsCell_def split: if_splits)
  show "length buf = 24 \<Longrightarrow> r = ST_MISSING \<Longrightarrow> settingsCell (val s) c = None"
    using run P I by (auto simp: settingsCell_def split: if_splits)
  assume "length buf = 24" "r = ST_MALFORMED"
  then have m: "b" "i" "\<not> (t = PT_BLOB \<and> l = 24)" using run P by (auto split: if_splits)
  then obtain v where "val s ?k = Some v" using I by auto
  then show "\<exists>bs. settingsCell (val s) c = Some bs \<and> length bs \<noteq> 24"
    using m T L by (cases v) (auto simp: settingsCell_def typeOf_def)
qed

lemma writeSlot_outcome:
  assumes "pref_writeSlot nv c bs s = (r, s')"
  shows "val s' = val s \<or> val s' = (val s)(slotKey c \<mapsto> Blob bs)"
proof -
  obtain b s1 where b: "prefBegin nv SETTINGS_NAMESPACE False s = (b, s1)" by fastforce
  obtain m s2 where m: "prefPutBytes nv (slotKey c) bs (length bs) s1 = (m, s2)" by fastforce
  show ?thesis using assms b m begin_frame [OF b] putBytes [OF m] by (auto simp: pref_writeSlot_def end_frame split: if_splits)
qed

lemma writeMarker_outcome:
  assumes "pref_writeResetMarker nv p s = (r, s')"
  shows "val s' = val s \<or> val s' = (val s)(RESET_MARKER_KEY \<mapsto> Uchar (if p then 1 else 0))"
proof -
  obtain b s1 where b: "prefBegin nv SETTINGS_NAMESPACE False s = (b, s1)" by fastforce
  obtain m s2 where m: "prefPutBool nv RESET_MARKER_KEY p s1 = (m, s2)" by fastforce
  show ?thesis using assms b m begin_frame [OF b] putBool [OF m] by (auto simp: pref_writeResetMarker_def end_frame split: if_splits)
qed

lemma readMarker_outcome:
  assumes "pref_readResetMarker nv q s = (r, p, s')"
  shows "val s' = val s" "r = ST_OK \<Longrightarrow> settingsMark (val s) = Some (if p then 1 else 0)" "r = ST_MISSING \<Longrightarrow> settingsMark (val s) = None"
proof -
  let ?k = RESET_MARKER_KEY
  obtain n s1 where n: "probeNamespaceForRead nv s = (n, s1)" by fastforce
  obtain b s2 where b: "prefBegin nv SETTINGS_NAMESPACE True s1 = (b, s2)" by fastforce
  obtain i s3 where i: "prefIsKey nv ?k s2 = (i, s3)" by fastforce
  obtain t s4 where t: "prefGetType nv ?k s3 = (t, s4)" by fastforce
  obtain v s5 where v: "prefGetUChar nv ?k 0xFF s4 = (v, s5)" by fastforce
  note P = probe_outcome [OF n] and B = begin_frame [OF b]
  have run: "(r, p, s') = (if n \<noteq> ST_OK then (n, False, s1) else if \<not> b then (ST_UNAVAILABLE, False, s2)
     else if \<not> i then (ST_MISSING, False, prefEnd nv s3) else if t \<noteq> PT_U8 then (ST_ERROR, False, prefEnd nv s4)
     else if v > 1 then (ST_ERROR, False, prefEnd nv s5) else (ST_OK, v = 1, prefEnd nv s5))"
    using assms n b i t v unfolding pref_readResetMarker_def by (auto split: if_splits)
  have open2: "val s2 = val s" "b \<longrightarrow> opened s2" using P B by auto
  have I: "b \<longrightarrow> val s3 = val s \<and> opened s3 \<and> (i \<longleftrightarrow> val s ?k \<noteq> None)" using isKey [OF i] open2 by auto
  have T: "b \<longrightarrow> val s4 = val s \<and> opened s4" using getType [OF t] I by auto
  have V: "b \<longrightarrow> val s5 = val s \<and> (v = 0xFF \<or> val s ?k = Some (Uchar v))" using getUChar [OF v] T by auto
  have small: "\<not> v > 1 \<longleftrightarrow> v = 0 \<or> v = 1" by (auto simp: word_less_nat_alt unat_arith_simps)
  show "val s' = val s" using run P open2 I T V by (auto simp: end_frame split: if_splits)
  show "r = ST_OK \<Longrightarrow> settingsMark (val s) = Some (if p then 1 else 0)"
    using run V small by (auto simp: settingsMark_def split: if_splits)
  show "r = ST_MISSING \<Longrightarrow> settingsMark (val s) = None" using run P I by (auto simp: settingsMark_def split: if_splits)
qed

end

sublocale nvs_settings \<subseteq> medium: settings_medium "preferencesRecordStore nv" "\<lambda>s. settingsCell (val s)" "\<lambda>s. settingsMark (val s)"
proof
  fix c buf s r buf' n s' assume "rsReadSlot (preferencesRecordStore nv) c buf s = (r, buf', n, s')"
  then have "pref_readSlot nv c buf s = (r, buf', n, s')" by (simp add: preferencesRecordStore_def)
  from readSlot_outcome(1) [OF this] show "settingsCell (val s') = settingsCell (val s) \<and> settingsMark (val s') = settingsMark (val s)" by simp
next
  fix c buf s buf' n s' assume "rsReadSlot (preferencesRecordStore nv) c buf s = (ST_OK, buf', n, s')" "length buf = 24"
  then show "n = 24 \<and> length buf' = 24 \<and> settingsCell (val s) c = Some buf'"
    using readSlot_outcome(2) by (simp add: preferencesRecordStore_def)
next
  fix c buf s buf' n s' assume "rsReadSlot (preferencesRecordStore nv) c buf s = (ST_MISSING, buf', n, s')" "length buf = 24"
  then show "settingsCell (val s) c = None" using readSlot_outcome(3) by (simp add: preferencesRecordStore_def)
next
  fix c buf s buf' n s' assume "rsReadSlot (preferencesRecordStore nv) c buf s = (ST_MALFORMED, buf', n, s')" "length buf = 24"
  then show "\<exists>bs. settingsCell (val s) c = Some bs \<and> length bs \<noteq> 24" using readSlot_outcome(4) by (simp add: preferencesRecordStore_def)
next
  fix c bs s r s' assume "rsWriteSlot (preferencesRecordStore nv) c bs s = (r, s')"
  then have "pref_writeSlot nv c bs s = (r, s')" by (simp add: preferencesRecordStore_def)
  from writeSlot_outcome [OF this] show "slotWrite c bs (settingsCell (val s)) (settingsCell (val s')) \<and> settingsMark (val s') = settingsMark (val s)"
    by (elim disjE) (simp_all add: slotWrite_def)
next
  fix c s r s' assume "rsRemoveSlot (preferencesRecordStore nv) c s = (r, s')"
  then have "removeKey nv (slotKey c) s = (r, s')" by (simp add: preferencesRecordStore_def)
  from removeKey_outcome [OF this] show "slotRemove c (settingsCell (val s)) (settingsCell (val s')) \<and> settingsMark (val s') = settingsMark (val s)"
    by (elim disjE) (simp_all add: slotRemove_def)
next
  fix p s r p' s' assume "rsReadResetMarker (preferencesRecordStore nv) p s = (r, p', s')"
  then have "pref_readResetMarker nv p s = (r, p', s')" by (simp add: preferencesRecordStore_def)
  from readMarker_outcome(1) [OF this] show "settingsCell (val s') = settingsCell (val s) \<and> settingsMark (val s') = settingsMark (val s)" by simp
next
  fix p s p' s' assume "rsReadResetMarker (preferencesRecordStore nv) p s = (ST_OK, p', s')"
  then show "settingsMark (val s) = Some (if p' then 1 else 0)" using readMarker_outcome(2) by (simp add: preferencesRecordStore_def)
next
  fix p s p' s' assume "rsReadResetMarker (preferencesRecordStore nv) p s = (ST_MISSING, p', s')"
  then show "settingsMark (val s) = None" using readMarker_outcome(3) by (simp add: preferencesRecordStore_def)
next
  fix p s r s' assume "rsWriteResetMarker (preferencesRecordStore nv) p s = (r, s')"
  then have "pref_writeResetMarker nv p s = (r, s')" by (simp add: preferencesRecordStore_def)
  from writeMarker_outcome [OF this] show "settingsCell (val s') = settingsCell (val s)
      \<and> (settingsMark (val s') = settingsMark (val s) \<or> settingsMark (val s') = Some (if p then 1 else 0))"
    by (elim disjE) (simp_all add: settingsMark_def)
next
  fix s r s' assume "rsRemoveResetMarker (preferencesRecordStore nv) s = (r, s')"
  then have "removeKey nv RESET_MARKER_KEY s = (r, s')" by (simp add: preferencesRecordStore_def)
  from removeKey_outcome [OF this] show "settingsCell (val s') = settingsCell (val s)
      \<and> (settingsMark (val s') = settingsMark (val s) \<or> settingsMark (val s') = None)"
    by (elim disjE) (simp_all add: settingsMark_def)
qed

subsection \<open>Flash that works\<close>

locale nvs_settings_working = nvs_settings nv opened val for nv :: "'s settingsApi" and opened val +
  assumes open_works: "fst (nvsOpenReadonly nv SETTINGS_NAMESPACE s) \<noteq> ESP_ERR_OTHER"
    and begin_works: "nvsOpenReadonly nv SETTINGS_NAMESPACE s = (ESP_OK, s') \<Longrightarrow> fst (prefBegin nv SETTINGS_NAMESPACE True (nvsClose nv s'))"
    and create_works: "fst (prefBegin nv SETTINGS_NAMESPACE False s)"
    and get_works: "prefGetBytes nv key buf n s = (m, buf', s') \<Longrightarrow> opened s \<Longrightarrow> val s key = Some (Blob bs) \<Longrightarrow> length bs = n \<Longrightarrow> m = n"
    and put_works: "prefPutBytes nv key bs n s = (m, s') \<Longrightarrow> opened s \<Longrightarrow> n = length bs \<Longrightarrow> m = n \<and> val s' key = Some (Blob bs)"
    and remove_works: "prefRemove nv key s = (b, s') \<Longrightarrow> opened s \<Longrightarrow> val s key \<noteq> None \<Longrightarrow> b \<and> val s' key = None"
    and uchar_works: "prefGetUChar nv key d s = (v, s') \<Longrightarrow> opened s \<Longrightarrow> val s key = Some (Uchar u) \<Longrightarrow> v = u"
    and bool_works: "prefPutBool nv key p s = (m, s') \<Longrightarrow> opened s \<Longrightarrow> m = 1 \<and> val s' key = Some (Uchar (if p then 1 else 0))"


context nvs_settings_working
begin

lemma probe_works:
  assumes "probeNamespaceForRead nv s = (p, s1)"
  shows "p = ST_OK \<and> (\<exists>s2. prefBegin nv SETTINGS_NAMESPACE True s1 = (True, s2)) \<or> p = ST_MISSING \<and> val s = (\<lambda>_. None)"
proof -
  obtain r s0 where r: "nvsOpenReadonly nv SETTINGS_NAMESPACE s = (r, s0)" by fastforce
  obtain b s2 where "prefBegin nv SETTINGS_NAMESPACE True (nvsClose nv s0) = (b, s2)" by fastforce
  then show ?thesis using assms r open_works [of s] begin_works [of s s0] open_missing [of s s0]
    by (cases r) (auto simp: probeNamespaceForRead_def classifyNamespaceOpen_def split: if_splits)
qed

lemma begin_create: "\<exists>s1. prefBegin nv SETTINGS_NAMESPACE False s = (True, s1) \<and> val s1 = val s \<and> opened s1"
  using create_works [of s] begin_frame [of False s] by (metis prod.collapse)

lemma removeKey_works:
  assumes "removeKey nv key s = (r, s')"
  shows "(if val s key = None then r = ST_MISSING else r = ST_OK) \<and> val s' key = None"
proof -
  obtain s1 where b: "prefBegin nv SETTINGS_NAMESPACE False s = (True, s1)" "val s1 = val s" "opened s1" using begin_create by blast
  obtain i s2 where i: "prefIsKey nv key s1 = (i, s2)" by fastforce
  obtain d s3 where d: "prefRemove nv key s2 = (d, s3)" by fastforce
  show ?thesis using assms b i d isKey [OF i] remove_works [OF d] by (auto simp: removeKey_def end_frame split: if_splits)
qed

lemma writeSlot_works:
  assumes "pref_writeSlot nv c bs s = (r, s')" "length bs = 24"
  shows "r = ST_OK \<and> val s' (slotKey c) = Some (Blob bs)"
proof -
  obtain s1 where b: "prefBegin nv SETTINGS_NAMESPACE False s = (True, s1)" "opened s1" using begin_create by blast
  obtain m s2 where m: "prefPutBytes nv (slotKey c) bs (length bs) s1 = (m, s2)" by fastforce
  show ?thesis using assms b m put_works [OF m] by (auto simp: pref_writeSlot_def end_frame)
qed

lemma writeMarker_works:
  assumes "pref_writeResetMarker nv p s = (r, s')"
  shows "r = ST_OK \<and> val s' RESET_MARKER_KEY = Some (Uchar (if p then 1 else 0))"
proof -
  obtain s1 where b: "prefBegin nv SETTINGS_NAMESPACE False s = (True, s1)" "opened s1" using begin_create by blast
  obtain m s2 where m: "prefPutBool nv RESET_MARKER_KEY p s1 = (m, s2)" by fastforce
  show ?thesis using assms b m bool_works [OF m] by (auto simp: pref_writeResetMarker_def end_frame)
qed

lemma readSlot_works:
  assumes run: "pref_readSlot nv c buf s = (r, buf', n, s')" and l: "length buf = 24"
  shows "r = (case settingsCell (val s) c of None \<Rightarrow> ST_MISSING | Some bs \<Rightarrow> if length bs = 24 then ST_OK else ST_MALFORMED)"
proof -
  let ?k = "slotKey c"
  obtain p s1 where p: "probeNamespaceForRead nv s = (p, s1)" by fastforce
  from probe_works [OF p] show ?thesis
  proof (elim disjE conjE exE)
    assume "p = ST_MISSING" "val s = (\<lambda>_. None)"
    then show ?thesis using run p l by (simp add: pref_readSlot_def settingsCell_def)
  next
    fix s2 assume ok: "p = ST_OK" and b: "prefBegin nv SETTINGS_NAMESPACE True s1 = (True, s2)"
    have o: "opened s2" "val s2 = val s" using begin_frame [OF b] probe_outcome [OF p] by auto
    obtain i s3 where i: "prefIsKey nv ?k s2 = (i, s3)" by fastforce
    obtain t s4 where t: "prefGetType nv ?k s3 = (t, s4)" by fastforce
    obtain k s5 where k: "prefGetBytesLength nv ?k s4 = (k, s5)" by fastforce
    obtain m out s6 where g: "prefGetBytes nv ?k buf 24 s5 = (m, out, s6)" using prod_cases3 by blast
    have I: "val s3 = val s" "opened s3" "i \<longleftrightarrow> val s ?k \<noteq> None" using isKey [OF i] o by auto
    have T: "val s4 = val s" "opened s4" "\<forall>v. val s ?k = Some v \<longrightarrow> t = typeOf v" using getType [OF t] I by auto
    have K: "val s5 = val s" "opened s5" "\<forall>bs. val s ?k = Some (Blob bs) \<longrightarrow> k = length bs" using getBytesLength [OF k] T by auto
    have G: "\<forall>bs. val s ?k = Some (Blob bs) \<longrightarrow> length bs = 24 \<longrightarrow> m = 24" using get_works [OF g] K by auto
    have "(r, buf', n, s') = (if \<not> i then (ST_MISSING, buf, 0, prefEnd nv s3)
       else if \<not> (t = PT_BLOB \<and> k = 24) then (ST_MALFORMED, buf, 0, prefEnd nv s5)
       else if m \<noteq> 24 then (ST_ERROR, out, 0, prefEnd nv s6) else (ST_OK, out, 24, prefEnd nv s6))"
      using run p ok b i t k g l unfolding pref_readSlot_def RECORD_SIZE_def
      by (auto simp: Let_def classifySlotMetadata_def split: if_splits)
    then show ?thesis using I(3) T(3) K(3) G
      by (cases "val s ?k") (auto simp: settingsCell_def typeOf_def split: storedValue.splits if_splits)
  qed
qed

lemma readMarker_works:
  assumes run: "pref_readResetMarker nv q s = (r, p', s')" and m: "settingsMark (val s) = None \<or> settingsMark (val s) = Some 1"
  shows "r = (if settingsMark (val s) = None then ST_MISSING else ST_OK)"
proof -
  let ?k = RESET_MARKER_KEY
  have v: "val s ?k = None \<or> val s ?k = Some (Uchar 1)" 
    using m by (cases "val s ?k"; cases "the (val s ?k)") (auto simp: settingsMark_def)
  obtain p s1 where p: "probeNamespaceForRead nv s = (p, s1)" by fastforce
  from probe_works [OF p] show ?thesis
  proof (elim disjE conjE exE)
    assume "p = ST_MISSING" "val s = (\<lambda>_. None)"
    then show ?thesis using run p by (simp add: pref_readResetMarker_def settingsMark_def)
  next
    fix s2 assume ok: "p = ST_OK" and b: "prefBegin nv SETTINGS_NAMESPACE True s1 = (True, s2)"
    have o: "opened s2" "val s2 = val s" using begin_frame [OF b] probe_outcome [OF p] by auto
    obtain i s3 where i: "prefIsKey nv ?k s2 = (i, s3)" by fastforce
    obtain t s4 where t: "prefGetType nv ?k s3 = (t, s4)" by fastforce
    obtain u s5 where u: "prefGetUChar nv ?k 0xFF s4 = (u, s5)" by fastforce
    have I: "val s3 = val s" "opened s3" "i \<longleftrightarrow> val s ?k \<noteq> None" using isKey [OF i] o by auto
    have T: "val s4 = val s" "opened s4" "\<forall>v. val s ?k = Some v \<longrightarrow> t = typeOf v" using getType [OF t] I by auto
    have U: "val s ?k = Some (Uchar 1) \<longrightarrow> u = 1" using uchar_works [OF u] T by auto
    show ?thesis using run p ok b i t u I(3) T(3) U v
      by (auto simp: pref_readResetMarker_def settingsMark_def typeOf_def split: if_splits)
  qed
qed

end

sublocale nvs_settings_working \<subseteq> medium: working_medium "preferencesRecordStore nv" "\<lambda>s. settingsCell (val s)" "\<lambda>s. settingsMark (val s)"
proof
  fix c buf s r buf' n s' assume "rsReadSlot (preferencesRecordStore nv) c buf s = (r, buf', n, s')" "length buf = 24"
  then show "r = (case settingsCell (val s) c of None \<Rightarrow> ST_MISSING | Some bs \<Rightarrow> if length bs = 24 then ST_OK else ST_MALFORMED)"
    using readSlot_works by (simp add: preferencesRecordStore_def)
next
  fix c bs s r s' assume "rsWriteSlot (preferencesRecordStore nv) c bs s = (r, s')" "length bs = 24"
  then show "r = ST_OK \<and> settingsCell (val s') c = Some bs"
    using writeSlot_works by (auto simp: preferencesRecordStore_def settingsCell_def)
next
  fix c s r s' assume "rsRemoveSlot (preferencesRecordStore nv) c s = (r, s')"
  then show "(r = ST_OK \<or> r = ST_MISSING) \<and> settingsCell (val s') c = None"
    using removeKey_works by (fastforce simp: preferencesRecordStore_def settingsCell_def split: if_splits)
next
  fix p s r p' s' assume "rsReadResetMarker (preferencesRecordStore nv) p s = (r, p', s')"
    "settingsMark (val s) = None \<or> settingsMark (val s) = Some 1"
  then show "r = (if settingsMark (val s) = None then ST_MISSING else ST_OK)"
    using readMarker_works by (simp add: preferencesRecordStore_def)
next
  fix p s r s' assume "rsWriteResetMarker (preferencesRecordStore nv) p s = (r, s')"
  then show "r = ST_OK \<and> settingsMark (val s') = Some (if p then 1 else 0)"
    using writeMarker_works by (auto simp: preferencesRecordStore_def settingsMark_def)
next
  fix s r s' assume "rsRemoveResetMarker (preferencesRecordStore nv) s = (r, s')" "settingsMark (val s) \<noteq> None"
  then show "r = ST_OK \<and> settingsMark (val s') = None"
    using removeKey_works by (fastforce simp: preferencesRecordStore_def settingsMark_def split: if_splits)
qed

subsection \<open>Flash in memory\<close>

text \<open>A concrete platform: the namespace does not exist (\<open>None\<close>) or maps keys to values.\<close>

type_synonym ramSettings = "(string \<Rightarrow> storedValue option) option"

definition ramValue :: "ramSettings \<Rightarrow> string \<Rightarrow> storedValue option" where
  "ramValue s = (case s of None \<Rightarrow> (\<lambda>_. None) | Some m \<Rightarrow> m)"

definition ramSettingsApi :: "ramSettings settingsApi" where
  "ramSettingsApi = \<lparr>nvsOpenReadonly = (\<lambda>_ s. (if s = None then ESP_ERR_NVS_NOT_FOUND else ESP_OK, s)), nvsClose = (\<lambda>s. s),
     prefBegin = (\<lambda>_ ro s. if ro then (s \<noteq> None, s) else (True, Some (ramValue s))), prefEnd = (\<lambda>s. s),
     prefIsKey = (\<lambda>key s. (ramValue s key \<noteq> None, s)),
     prefGetType = (\<lambda>key s. (case ramValue s key of None \<Rightarrow> PT_OTHER | Some v \<Rightarrow> typeOf v, s)),
     prefGetBytesLength = (\<lambda>key s. (case ramValue s key of Some (Blob bs) \<Rightarrow> length bs | _ \<Rightarrow> 0, s)),
     prefGetBytes = (\<lambda>key buf n s. case ramValue s key of
       Some (Blob bs) \<Rightarrow> if length bs = n then (n, bs @ drop n buf, s) else (0, buf, s) | _ \<Rightarrow> (0, buf, s)),
     prefPutBytes = (\<lambda>key bs n s. (n, Some ((ramValue s)(key \<mapsto> Blob bs)))),
     prefRemove = (\<lambda>key s. (ramValue s key \<noteq> None, Some ((ramValue s)(key := None)))),
     prefGetUChar = (\<lambda>key d s. (case ramValue s key of Some (Uchar b) \<Rightarrow> b | _ \<Rightarrow> d, s)),
     prefPutBool = (\<lambda>key p s. (1, Some ((ramValue s)(key \<mapsto> Uchar (if p then 1 else 0)))))\<rparr>"

interpretation ram_settings: nvs_settings_working ramSettingsApi "\<lambda>s. s \<noteq> None" ramValue
  by unfold_locales (auto simp: ramSettingsApi_def ramValue_def split: if_splits option.splits storedValue.splits)

end
