(* ===== verification/SettingsProperties.thy ===== *)
theory SettingsProperties
  imports Esp32SettingsStorage
begin

text \<open>
  What the device's owner can rely on, stated for the settings manager on the flash-backed record store: the record format,
  the settings that survive a restart, the factory reset, and records of another firmware version.  The last theorem shows a
  behaviour of the code that the first ones exclude by a hypothesis.
\<close>

subsection \<open>Helpers\<close>

definition dimmed :: settings where
  "dimmed = defaults\<lparr>stDisplayContrast := 20\<rparr>"

abbreviation ramStore :: "ramSettings recordStore" where
  "ramStore \<equiv> preferencesRecordStore ramSettingsApi"

abbreviation ramSettingsRun :: "settingsManager option \<Rightarrow> ramSettings \<Rightarrow> settings \<Rightarrow> settings list \<Rightarrow> bool" where
  "ramSettingsRun \<equiv> settingsRun ramStore (\<lambda>s. settingsCell (ramValue s))"

lemma dimmed_valid: "isValidSettings dimmed"
  by code_simp

lemma dimmed_repaired: "repaired dimmed = dimmed" "repaired dimmed \<noteq> defaults"
  by (simp_all add: repaired_def repair_unchanged dimmed_valid) (simp add: dimmed_def defaults_def)

context nvs_settings
begin

lemmas axioms_medium = medium.settings_medium_axioms

end

context nvs_settings_working
begin

lemmas axioms_working = medium.working_medium_axioms

end

context settings_medium
begin

lemma load_valid:
  assumes "sm_load st m s = (status, m', s')"
  shows "isValidSettings (smSettings m')"
proof (cases "mark s = Some 1")
  case True then show ?thesis using load_pending(1) [OF assms] by simp
next
  case False
  note L = load_clean [OF assms False]
  show ?thesis
  proof (cases "fresh m'")
    case True then show ?thesis by (simp add: fresh_def)
  next
    case False
    then have "applied (cell s) m'" using L(2,3) by blast
    then show ?thesis using False by (auto simp: applied_def split: option.splits dest: current_valid)
  qed
qed

end

context working_medium
begin

lemma stale_save_lost:
  assumes m: "fresh m" "\<not> unsupportedSchema m" and x: "repaired x \<noteq> defaults" and p: "mark s = None"
    and old: "stored (cell s) CopyB = Some (y, g)" "generationIsNewer g 1"
    and save: "sm_save st x m s = (status, m', s')" and load: "sm_load st m0 s' = (status2, m2, s2)"
  shows "status \<in> {SV_SAVED, SV_REPAIRED_SAVED} \<and> smSettings m2 = y"
proof -
  have x': "repaired x \<noteq> smSettings m" using m(1) x by (simp add: fresh_def)
  have ok: "status \<in> {SV_SAVED, SV_REPAIRED_SAVED}" using save_works(2) [OF save m(2) x'] .
  have T: "saveTarget m = CopyA" "smGeneration m = 0" using m(1) by (simp_all add: saveTarget_def fresh_def)
  have c: "stored (cell s') CopyA = Some (repaired x, 1)" "stored (cell s') CopyB = Some (y, g)" "mark s' = None"
    using save_works(1) [OF save] ok T old(1) p by auto
  have g: "g \<noteq> 1" "compareGenerations 1 g = RIGHT_NEWER"
    using old(2) compareGenerations_swap [of g 1] by (auto simp: generationIsNewer_compare generationIsNewer_def)
  have "currentSettings (cell s') = Some ((y, g), CopyB)" using c g by (simp add: authoritative_def)
  then show ?thesis using load_clean(3) [OF load] load_works [OF load c(3)] c(3) ok by (auto simp: applied_def)
qed

end

lemma ram_boot: "sm_load ramStore settingsManager_init None = (LD_DEFAULTED_MISSING, settingsManager_init, None)"
  by (simp add: sm_load_def recoverPendingReset_def noteReset_def preferencesRecordStore_def pref_readResetMarker_def
      probeNamespaceForRead_def classifyNamespaceOpen_def ramSettingsApi_def readAndClassify_def pref_readSlot_def slotRecord_init_def
      fillZero_def selectSlots_def isUsable_def unsupportedSchema_def resetRuntimeState_def settingsManager_init_def Let_def)

lemma ram_boot_run: "ramSettingsRun (Some settingsManager_init) None defaults []"
proof -
  have "\<not> conflict (settingsCell (ramValue None))" by (simp add: conflict_def settingsCell_def ramValue_def)
  from settingsRun.boot [OF settingsRun.start, of "\<lambda>s. settingsCell (ramValue s)", OF this ram_boot] show ?thesis
    by (simp add: settingsManager_init_def)
qed

lemma ram_saved:
  obtains status m s where "sm_save ramStore dimmed settingsManager_init None = (status, m, s)" "status \<in> {SV_SAVED, SV_REPAIRED_SAVED}"
    "ramSettingsRun (Some m) s dimmed []"
proof -
  obtain status m s where r: "sm_save ramStore dimmed settingsManager_init None = (status, m, s)" using prod_cases3 by blast
  have "status \<in> {SV_SAVED, SV_REPAIRED_SAVED}"
    using ram_settings.medium.save_works(2) [OF r] dimmed_repaired by (simp add: settingsManager_init_def unsupportedSchema_def)
  then show thesis using that r settingsRun.saved [OF ram_boot_run r] dimmed_repaired by metis
qed


lemma ram_pending:
  obtains s where "settingsMark (ramValue s) = Some 1"
  by (rule that [of "Some [RESET_MARKER_KEY \<mapsto> Uchar 1]"]) (simp add: settingsMark_def ramValue_def)

subsection \<open>Properties\<close>

text \<open>C34. The settings record.  Valid settings are encoded for every generation and decode to themselves; no other record decodes
  to them at that generation; and after any one byte of the record has changed, even the repairing decoder refuses it.\<close>

theorem settings_record_codec:
  assumes "isValidSettings st" "length out = RECORD_SIZE"
  shows "\<exists>bs. encodeRecord st g (Some out) RECORD_SIZE = (SC_OK, Some bs) \<and> length bs = RECORD_SIZE
    \<and> decodeRecord (Some bs) RECORD_SIZE = Inr (st, g)
    \<and> (\<forall>bs'. length bs' = RECORD_SIZE \<longrightarrow> decodeRecord (Some bs') RECORD_SIZE = Inr (st, g) \<longrightarrow> bs' = bs)
    \<and> (\<forall>i b. i < RECORD_SIZE \<longrightarrow> b \<noteq> bs ! i \<longrightarrow> (\<exists>e. decodeRecordWithRepair (Some (bs[i := b])) RECORD_SIZE = Inl e))"
proof -
  obtain bs where bs: "encodeRecord st g (Some out) 24 = (SC_OK, Some bs)" "length bs = 24" "decodeRecord (Some bs) 24 = Inr (st, g)"
    using encode_decode [OF assms(1), of out g] assms(2) by auto
  have "bs' = bs" if "length bs' = 24" "decodeRecord (Some bs') 24 = Inr (st, g)" for bs'
    using decode_encode(2) [OF that(2,1), of out] assms(2) bs(1) by simp
  moreover have "\<exists>e. decodeRecordWithRepair (Some (bs[i := b])) 24 = Inl e" if "i < 24" "b \<noteq> bs ! i" for i b
    using corrupted_record_refused [OF _ bs(2) that] bs(3) repair_decode_exact by blast
  ultimately show ?thesis unfolding RECORD_SIZE_def using bs by blast
qed

theorem settings_record_codec_witness:
  "\<exists>bs. encodeRecord defaults 1 (Some (replicate 24 0)) RECORD_SIZE = (SC_OK, Some bs) \<and> decodeRecord (Some bs) RECORD_SIZE = Inr (defaults, 1)"
  using settings_record_codec [of defaults "replicate 24 0" 1] by auto

text \<open>C9. Settings survive a restart.  From a store whose two slots do not contradict each other (an empty one, or one with a current
  record), over any sequence of boots, saves and factory resets on flash that may refuse any call and lose any write, a
  restart that can read the store applies valid settings: those last loaded, reported saved or reset to, or else the
  candidate of a save or the defaults of a reset that was reported as failed since.  The run excludes one thing: a save
  between a boot that could not read the store, or a reset that failed, and the next boot or reset that succeeds.\<close>

theorem saved_settings_survive:
  assumes "nvs_settings nv opened val" "settingsRun (preferencesRecordStore nv) (\<lambda>s. settingsCell (val s)) mo s c as"
    and "sm_load (preferencesRecordStore nv) m0 s = (status, m', s')" "status \<notin> {LD_STORAGE_UNAVAILABLE, LD_RESET_RECOVERY_FAILED}"
  shows "smSettings m' \<in> insert c (set as) \<and> isValidSettings (smSettings m')"
proof -
  have medium: "settings_medium (preferencesRecordStore nv) (\<lambda>s. settingsCell (val s)) (\<lambda>s. settingsMark (val s))"
    using nvs_settings.axioms_medium [OF assms(1)] .
  show ?thesis using settings_medium.run_survives [OF medium assms(2-4)] settings_medium.load_valid [OF medium assms(3)] by blast
qed

theorem saved_settings_survive_witness:
  "\<exists>m s status m' s'. ramSettingsRun (Some m) s dimmed [] \<and> sm_load ramStore settingsManager_init s = (status, m', s') \<and> smSettings m' = dimmed
     \<and> (\<exists>m'' s''. factoryReset ramStore m' s' = (RR_RESET_COMPLETED, m'', s'') \<and> smSettings (fst (snd (sm_load ramStore settingsManager_init s''))) = defaults)"
proof -
  obtain status m s where r: "sm_save ramStore dimmed settingsManager_init None = (status, m, s)" "status \<in> {SV_SAVED, SV_REPAIRED_SAVED}"
      "ramSettingsRun (Some m) s dimmed []" by (rule ram_saved)
  obtain st2 m' s' where l: "sm_load ramStore settingsManager_init s = (st2, m', s')" using prod_cases3 by blast
  have "settingsMark (ramValue s) = settingsMark (ramValue None)" using ram_settings.medium.save_works(1) [OF r(1)] r(2) by auto
  then have "settingsMark (ramValue s) = None" by (simp add: settingsMark_def ramValue_def)
  then have ok: "st2 \<notin> {LD_STORAGE_UNAVAILABLE, LD_RESET_RECOVERY_FAILED}" using ram_settings.medium.load_works [OF l] by blast
  then have dim: "smSettings m' = dimmed" using saved_settings_survive [OF ram_settings.nvs_settings_axioms r(3) l] by simp
  obtain x m2 s2 where f: "factoryReset ramStore m' s' = (x, m2, s2)" using prod_cases3 by blast
  have x: "x = RR_RESET_COMPLETED" using ram_settings.medium.factory_works [OF f] .
  then have mark: "settingsMark (ramValue s2) = None" using ram_settings.medium.factory_reset(4) [OF f] by blast
  have run: "ramSettingsRun (Some m2) s2 defaults []"
    using settingsRun.reset [OF settingsRun.boot [OF r(3) l ok]] f x by blast
  obtain st3 m3 s3 where l3: "sm_load ramStore settingsManager_init s2 = (st3, m3, s3)" using prod_cases3 by blast
  have "smSettings m3 = defaults"
    using saved_settings_survive [OF ram_settings.nvs_settings_axioms run l3] ram_settings.medium.load_works [OF l3 mark] by simp
  then show ?thesis using r(3) l dim f x l3 by fastforce
qed

text \<open>C19. A factory reset that was interrupted is finished before old settings can come back.  While the marker is stored, a load
  applies the defaults whatever the slots hold and whatever the flash does, and the marker disappears only when slot A holds the
  defaults and slot B is empty.\<close>

theorem pending_reset_hides_settings:
  assumes "nvs_settings nv opened val" "settingsMark (val s) = Some 1"
    and "sm_load (preferencesRecordStore nv) m s = (status, m', s')"
  shows "smSettings m' = defaults \<and> status \<in> {LD_RESET_COMPLETED, LD_STORAGE_UNAVAILABLE, LD_RESET_RECOVERY_FAILED}
    \<and> (settingsMark (val s') = Some 1 \<or> settingsMark (val s') = None \<and> resetDone (settingsCell (val s')))"
  using settings_medium.load_pending(1-3) [OF nvs_settings.axioms_medium [OF assms(1)] assms(3,2)] by blast

theorem pending_reset_hides_settings_witness:
  "\<exists>s m' s' status. settingsMark (ramValue s) = Some 1 \<and> sm_load ramStore settingsManager_init s = (status, m', s') \<and> smSettings m' = defaults"
proof -
  obtain s where s: "settingsMark (ramValue s) = Some 1" by (rule ram_pending)
  obtain status m' s' where "sm_load ramStore settingsManager_init s = (status, m', s')" using prod_cases3 by blast
  then show ?thesis using pending_reset_hides_settings [OF ram_settings.nvs_settings_axioms s] s by blast
qed

text \<open>C39. A factory reset never leaves the settings half gone: whatever fails, either both slots are untouched, or the marker is
  stored and the next boot goes on with the reset, or the reset is complete.  On flash that works it completes, and a boot that
  finds the marker completes it.\<close>

theorem factory_reset_completes:
  assumes "nvs_settings nv opened val"
  shows "(factoryReset (preferencesRecordStore nv) m s = (r, m', s') \<longrightarrow>
      settingsCell (val s') = settingsCell (val s) \<or> settingsMark (val s') = Some 1 \<or> settingsMark (val s') = None \<and> resetDone (settingsCell (val s')))
    \<and> (nvs_settings_working nv opened val \<and> factoryReset (preferencesRecordStore nv) m s = (r, m', s') \<longrightarrow>
      r = RR_RESET_COMPLETED \<and> settingsMark (val s') = None \<and> resetDone (settingsCell (val s')) \<and> smSettings m' = defaults)
    \<and> (nvs_settings_working nv opened val \<and> settingsMark (val s) = Some 1 \<longrightarrow>
      fst (sm_load (preferencesRecordStore nv) m s) = LD_RESET_COMPLETED)"
proof (intro conjI impI; (elim conjE)?)
  note medium = nvs_settings.axioms_medium [OF assms]
  note works = nvs_settings_working.axioms_working
  show "settingsCell (val s') = settingsCell (val s) \<or> settingsMark (val s') = Some 1 \<or> settingsMark (val s') = None \<and> resetDone (settingsCell (val s'))"
    if "factoryReset (preferencesRecordStore nv) m s = (r, m', s')" using settings_medium.factory_reset(1) [OF medium that] .
  have "r = RR_RESET_COMPLETED \<and> settingsMark (val s') = None \<and> resetDone (settingsCell (val s')) \<and> smSettings m' = defaults"
    if "nvs_settings_working nv opened val" "factoryReset (preferencesRecordStore nv) m s = (r, m', s')"
    using settings_medium.factory_reset(4) [OF medium that(2)] working_medium.factory_works [OF works [OF that(1)] that(2)] by blast
  then show "nvs_settings_working nv opened val \<Longrightarrow> factoryReset (preferencesRecordStore nv) m s = (r, m', s') \<Longrightarrow> r = RR_RESET_COMPLETED"
    "nvs_settings_working nv opened val \<Longrightarrow> factoryReset (preferencesRecordStore nv) m s = (r, m', s') \<Longrightarrow> settingsMark (val s') = None"
    "nvs_settings_working nv opened val \<Longrightarrow> factoryReset (preferencesRecordStore nv) m s = (r, m', s') \<Longrightarrow> resetDone (settingsCell (val s'))"
    "nvs_settings_working nv opened val \<Longrightarrow> factoryReset (preferencesRecordStore nv) m s = (r, m', s') \<Longrightarrow> smSettings m' = defaults"
    by blast+
  show "fst (sm_load (preferencesRecordStore nv) m s) = LD_RESET_COMPLETED"
    if "nvs_settings_working nv opened val" "settingsMark (val s) = Some 1"
    using working_medium.load_pending_works [OF works [OF that(1)]] that(2) by (metis prod.collapse)
qed

theorem factory_reset_completes_witness:
  "fst (factoryReset ramStore settingsManager_init None) = RR_RESET_COMPLETED
   \<and> fst (sm_load ramStore settingsManager_init (Some [RESET_MARKER_KEY \<mapsto> Uchar 1])) = LD_RESET_COMPLETED"
proof -
  note w = ram_settings.nvs_settings_working_axioms and n = ram_settings.nvs_settings_axioms
  obtain r m' s' where r: "factoryReset ramStore settingsManager_init None = (r, m', s')" using prod_cases3 by blast
  have "settingsMark (ramValue (Some [RESET_MARKER_KEY \<mapsto> Uchar 1])) = Some 1" by (simp add: settingsMark_def ramValue_def)
  then show ?thesis using factory_reset_completes [OF n, of settingsManager_init None r m' s'] factory_reset_completes [OF n] w r by (metis fst_conv)
qed

text \<open>A record that another firmware version wrote is never overwritten by a save.\<close>

theorem newer_record_preserved:
  assumes "nvs_settings nv opened val" "settingsRun (preferencesRecordStore nv) (\<lambda>s. settingsCell (val s)) (Some m) s c as" "holdsNewer (settingsCell (val s) slot)"
    and "sm_save (preferencesRecordStore nv) x m s = (status, m', s')"
  shows "settingsCell (val s') slot = settingsCell (val s) slot"
proof -
  note medium = nvs_settings.axioms_medium [OF assms(1)]
  have "tracks m (settingsCell (val s))" using settings_medium.run_inv [OF medium assms(2)] by (simp add: runInv_def)
  then show ?thesis using settings_medium.save_outcome(2) [OF medium assms(4)] assms(3) by blast
qed

text \<open>Why a save after a load that could not read the store is no step of the runs: it starts again at slot A with generation 1.
  When slot B holds a record of a later generation, the save is reported as saved and the next load applies the old record.  The
  same manager results from a load that finds contradicting slots, which no run leads to.\<close>

theorem save_after_unavailable_load_lost:
  assumes "nvs_settings_working nv opened val" "settingsMark (val s) = None"
    and "fresh m" "\<not> unsupportedSchema m" "repaired x \<noteq> defaults"
    and "Option.bind (settingsCell (val s) CopyB) settingsDec = Some (y, g)" "generationIsNewer g 1"
    and "sm_save (preferencesRecordStore nv) x m s = (status, m', s')" "sm_load (preferencesRecordStore nv) m0 s' = (status2, m2, s2)"
  shows "status \<in> {SV_SAVED, SV_REPAIRED_SAVED} \<and> smSettings m2 = y"
  using working_medium.stale_save_lost [OF nvs_settings_working.axioms_working [OF assms(1)] assms(3-5,2,6-9)] .

end
