(* ===== verification/Spec2Isabelle.thy ===== *)
theory Spec2Isabelle
  imports TransactionEngine EventSystem NodeEventRadio ProducerProperties HostStack HostMessageProperties SettingsProperties
begin

text \<open>
  \<^bold>\<open>A verification development of the Argus Redline firmware.\<close>

  Two LoRa devices work together.  The \<^emph>\<open>Node\<close> turns gestures of its button and sensor values into Events, keeps them in flash and
  transmits each until the Hub has taken it over.  The \<^emph>\<open>Hub\<close> writes every Event it admits into a ledger in flash, tells the
  Node so, and gives the Events to a host computer on a serial line.  The host may also ask either device to read or write its
  capabilities; requests for the Node travel over the radio.  The firmware keeps this logic in header-only libraries under
  \<^verbatim>\<open>src/lib\<close> and links them in \<^verbatim>\<open>src/src-tx/main.cpp\<close> (Hub) and \<^verbatim>\<open>src/src-rx/main.cpp\<close> (Node).  The libraries are modelled here,
  one theory for each, with the operations in the order of the source and under its names.

  \<^bold>\<open>The model.\<close>  A class is a record and each of its methods a function from the state before the call to the result and the state
  after it; every early return is a branch.  Machine integers are words, so that counters, generations and clocks wrap as in the
  source.  A byte buffer is a list, a pointer that is tested for null an option.  A virtual class or a driver is a record of
  functions on an environment whose type is left open, and what the code relies on is a locale: each operation may fail
  and may leave any environment that the locale allows, so that a proof covers failing flash and power cuts.  All functions are
  executable; the witnesses evaluate them in the kernel.

  \<^bold>\<open>The theories.\<close>

  \<^item> \<open>Prelude\<close>: words, byte buffers, little-endian fields, the wrap-around clock, shared lemmas.
  \<^item> Radio link.  \<open>Protocol\<close> (\<^verbatim>\<open>redline_protocol\<close>): the packet codec.  \<open>TransactionEngine\<close> (\<^verbatim>\<open>transaction_engine\<close>): the TEST command, with
    duplicate suppression on the Node and retries on the Hub.  \<open>WireOperations\<close>, \<open>WireCodecs\<close> (\<^verbatim>\<open>wire_operations\<close>): structured requests
    and responses, the retained entry of the Node, the transaction of the Hub.
  \<^item> Event formats.  \<open>EventProtocol\<close> (\<^verbatim>\<open>event_protocol\<close>): Events and admissions as packets.  \<open>EventStore\<close>, \<open>EventRecords\<close>,
    \<open>EventRecordCodecs\<close> (\<^verbatim>\<open>event_storage\<close>): two copies with generations, the four persistent records and their CRC; the locale
    \<open>record_codec\<close> and its four interpretations.
  \<^item> Durable stores.  \<open>DualStore\<close>: the contract of a record kept in two copies, and what one write may do to it.  \<open>EventIdentity\<close>
    (\<^verbatim>\<open>event_identity\<close>): the allocator of identities.  \<open>NodeEventStore\<close>, \<open>NodeEventCustody\<close>, \<open>NodeEventRuns\<close> (\<^verbatim>\<open>node_event_store\<close>) and
    \<open>HubEventLedger\<close>, \<open>HubLedgerCustody\<close>, \<open>HubLedgerRuns\<close>, \<open>HubLedgerProperties\<close> (\<^verbatim>\<open>hub_event_ledger\<close>): in each case the code, what one call
    does to the medium, and all lives of the store from a blank medium.  \<open>NvsPlatform\<close>, \<open>Esp32EventStorage\<close>
    (\<^verbatim>\<open>esp32_event_storage\<close>): the implementation on flash, what its reads and writes may do, and when it keeps the contracts.
  \<^item> Events.  \<open>DeviceInput\<close>, \<open>EventProducers\<close>, \<open>ProducerProperties\<close> (\<^verbatim>\<open>device_input\<close>, \<^verbatim>\<open>event_producers\<close>): from pin samples and
    sensor values to Events.  \<open>NodeEventDelivery\<close> (\<^verbatim>\<open>node_event_delivery\<close>) with \<open>NodeDeliveryShape\<close>, \<open>NodeDeliveryPaths\<close>, \<open>NodeDeliveryCustody\<close>,
    \<open>NodeDeliveryRuns\<close>, \<open>NodeDeliveryLifetime\<close>, \<open>NodeDeliveryProgress\<close>, \<open>NodeDeliveryProperties\<close>,
    \<open>NodeDeliveryRelease\<close>: lifetime, attempts, backoff, release.
    \<open>HubEventRadio\<close>, \<open>NodeEventRadio\<close> (\<^verbatim>\<open>event_radio_integration\<close>): who owns the radio, and the answer to an Event.
    \<open>EventSystem\<close>: a Node and a Hub in one run, over a channel that loses, repeats, delays and reorders.
  \<^item> Capabilities.  \<open>DeviceCapabilities\<close> (\<^verbatim>\<open>device_capabilities\<close>): the registry and the guarded dispatch.  \<open>RuntimeState\<close>
    (\<^verbatim>\<open>runtime_state\<close>): saturating counters and observations.
  \<^item> Host link.  \<open>HostProtocol\<close>, \<open>HostFraming\<close> (\<^verbatim>\<open>host_protocol.h\<close>): CRC, byte stuffing, frames.  \<open>HostTransport\<close>, \<open>HostLink\<close>
    (\<^verbatim>\<open>host_protocol_stream.h\<close>, \<^verbatim>\<open>host_transport\<close>): the parser and the serial adapter.  \<open>HostMessages\<close>, \<open>HostOperations\<close>, \<open>HostMessageCodecs\<close>,
    \<open>HostRecordCodecs\<close>, \<open>HostMessageProperties\<close> (\<^verbatim>\<open>host_protocol_messages.h\<close>): the message bodies.
  \<^item> Host operations.  \<open>HostOperationService\<close>, \<open>HostDeviceService\<close>, \<open>HostEventService\<close>, \<open>HostServiceResponses\<close>
    (\<^verbatim>\<open>host_operation_service\<close>, \<^verbatim>\<open>host_event_service\<close>, \<^verbatim>\<open>capability_role_integration\<close>): what a device answers itself.  \<open>RadioOperationBridge\<close>,
    \<open>BridgeExecution\<close> (\<^verbatim>\<open>radio_operation_bridge\<close>): what the other one answers.  \<open>HostOperationLifecycle\<close>, \<open>HostLifecycleRuns\<close>,
    \<open>OperationProperties\<close> (\<^verbatim>\<open>host_operation_lifecycle\<close>): the one operation under way.  \<open>HostRoleIntegration\<close>, \<open>HostStack\<close>
    (\<^verbatim>\<open>host_role_integration\<close>, \<^verbatim>\<open>host_protocol_diagnostics\<close>): all of it between the serial line and the radio.
  \<^item> Settings.  \<open>DeviceSettings\<close>, \<open>SettingsCodecs\<close>, \<open>SettingsRecovery\<close>, \<open>SettingsProperties\<close> (\<^verbatim>\<open>device_settings\<close>) and
    \<open>Esp32SettingsStorage\<close> (\<^verbatim>\<open>esp32_settings_storage\<close>): the record, load, save, factory reset, and the store on flash.

  \<^bold>\<open>What is shown.\<close>

  \<^item> Custody.  An Event that the Node has ever queued is, at any later time, still queued in its flash, or was recorded there as
    failed or expired, or is one of which the Hub's medium has held a record (\<open>EventSystem\<close>).  Failed and expired records are
    reclaimed later without the Hub, as the design has it.  This joins the custody of the Node, the answer
    ADMITTED of the Hub only for a durable record, records of the ledger that nothing but their consumption and replacement ends, and
    identities that are never given out again.
  \<^item> Refinement.  The memory of both stores mirrors the medium while they are healthy, and one call changes one durable record
    or none, as an atomic operation of an abstract table does.  The flash implementation keeps the contract of the stores if
    reads of stored blobs do not fail.
    An operation through the bridge has the result of the local one.
  \<^item> Safety of actuation.  A handler runs only for an operation that the registry, the caller, the safety policy and the bounds
    admit; the radio never actuates; a repeated request changes nothing.
  \<^item> Answers.  Well-formed requests are answered, over the radio too, and the answers are well
    formed; a remote operation repeats its command a bounded number of times and gives one response; the frames of one side of the host link come out on the other.
  \<^item> Time and counts.  The lifetime of an Event is charged exactly; every transmission is counted durably before it starts; a gesture gives
    at most one Event; a threshold fires again only after a return behind the hysteresis.
  \<^item> Formats.  Every codec is inverse to its decoder, a record or a settings image with one byte changed is refused, and the
    parser with its bounded buffer agrees with splitting the whole stream.
  \<^item> Settings.  Over boots, saves and factory resets on failing flash, a restart that can read the store applies the settings last
    loaded, saved or reset to, or the candidate of a change that was reported as failed since; a pending factory reset hides them until it completes.

  \<^bold>\<open>Contracts.\<close>  \<open>record_codec\<close>, \<open>dual_store\<close>, \<open>identity_store\<close>, \<open>node_storage\<close>, \<open>hub_storage\<close>, \<open>settings_medium\<close> are the interfaces between
  the clients and the storage; the \<open>working_\<close> variants add that operations succeed, for the statements on progress.  \<open>nvs_flash\<close>
  and \<open>nvs_settings\<close> state the documented behaviour of Preferences and NVS, in which every call may fail, and \<open>nvs_reads\<close> adds
  that reads of stored blobs do not; sublocales derive the storage contracts from
  them for the code of the two adapters, and interpretations on a flash held in memory show that they can be met.
  Parameters without a contract may do anything: the capability handler, the availability provider, the sources of sequence
  numbers and jitter, the radio, the pin and the clock.

  \<^bold>\<open>Bounds.\<close>  Loops of the source are recursions with a measure, or recursions over a list; none of the model needs fuel.  The host that pages through the
  capability list is given two requests, and it is proved that they are enough.  Both Event tables have eight slots, as in the source.

  \<^bold>\<open>Not modelled.\<close>  The display and the screens, the tables that turn results of the settings manager into what a screen
  shows, the debug trace, the bench measurements, the pin handlers of the board and the simulated ones (all of which are instances
  of the handler parameter), and the two \<^verbatim>\<open>main.cpp\<close> files, which own the interrupts and the radio driver and call the libraries.
  A \<^verbatim>\<open>float\<close> is stored and sent only, so it is its 32-bit pattern.

  \<^bold>\<open>Observations.\<close>  \<open>SettingsProperties.save_after_unavailable_load_lost\<close>: a save after a load that found the store unavailable
  may be reported as saved and still be older than the record in the other slot; the runs of the statement on surviving settings
  have no save between a boot that could not read the store, or a reset that failed, and the next one that succeeds, and they
  begin with slots that do not contradict each other.
  The transaction of the Hub starts its retransmissions at the deadline, where the design document has the timeout; what
  the code does is stated by \<open>OperationProperties.operation_ends\<close>.  A read of a stored blob that fails is reported as an error,
  which the stores take for a copy without a record; a transient failure during recovery can make them go on from the older copy,
  and this is why \<open>nvs_reads\<close> is assumed where the contract of the stores is derived.
\<close>

end
